(* ===== verification/Prelude.thy ===== *)
theory Prelude
  imports Complex_Main "HOL-Library.Word"
begin

text \<open>
  The vocabulary the component theories share: the three-dimensional vectors of
  Eigen as the code uses them, the kinds of undefined behaviour a C++ statement
  can run into, \<open>std::to_string\<close> on unsigned numbers, the saturation to a
  symmetric interval, the rounding of a \<open>double\<close> to an integer, and the lemma
  collections the proofs of the components are built on.

  A \<open>double\<close> or \<open>float\<close> of the code is a \<open>real\<close> of the model: rounding,
  infinities and NaN are not modelled.  A \<open>ros::Time\<close> or \<open>ros::Duration\<close> is a
  \<open>real\<close> number of seconds.
\<close>

named_theorems step_defs \<open>the definitions of the operations of a component\<close>
named_theorems frame_simps \<open>what an operation leaves unchanged\<close>

section \<open>Undefined behaviour\<close>

text \<open>
  What a C++ statement can do when it has no defined result: the operations that can
  reach such a statement return a value of \<open>cpp_error + 'a\<close>.
\<close>

datatype cpp_error =
    OutOfBounds        \<comment> \<open>an access outside an array\<close>
  | NullPointer        \<comment> \<open>a dereference of a null pointer\<close>
  | UseAfterFree       \<comment> \<open>an access to memory that was deleted\<close>
  | DoubleFree         \<comment> \<open>a second delete of the same memory\<close>
  | DivideByZero       \<comment> \<open>a division or remainder by zero\<close>
  | Uninitialised      \<comment> \<open>a read of a member that was never set\<close>
  | Hangs              \<comment> \<open>a loop that does not end\<close>
  | LengthError        \<comment> \<open>a vector of negative size, which the library refuses\<close>
  | NegativeRoot       \<comment> \<open>the square root of a negative number\<close>

fun bind_result :: "'e + 'a \<Rightarrow> ('a \<Rightarrow> 'e + 'b) \<Rightarrow> 'e + 'b" where
  "bind_result (Inl e) f = Inl e"
| "bind_result (Inr a) f = f a"

lemma bind_result_Inr [simp]:
  "bind_result r f = Inr b \<longleftrightarrow> (\<exists>a. r = Inr a \<and> f a = Inr b)"
  by (cases r) auto

lemma bind_result_cong [fundef_cong]:
  "r = r' \<Longrightarrow> (\<And>a. r' = Inr a \<Longrightarrow> f a = g a) \<Longrightarrow> bind_result r f = bind_result r' g"
  by (cases r') auto

definition is_ok :: "'e + 'a \<Rightarrow> bool" where
  "is_ok r = (case r of Inl _ \<Rightarrow> False | Inr _ \<Rightarrow> True)"

lemma is_ok_simps [simp]: "is_ok (Inr a)" "\<not> is_ok (Inl e)"
  by (simp_all add: is_ok_def)

lemma is_okE: "is_ok r \<Longrightarrow> (\<And>a. r = Inr a \<Longrightarrow> P) \<Longrightarrow> P"
  by (cases r) auto

section \<open>Vectors\<close>

text \<open>\<open>Eigen::Vector3d\<close>, with the operations the modelled code applies to it.\<close>

datatype vec3 = Vec3 (vx: real) (vy: real) (vz: real)

definition vadd :: "vec3 \<Rightarrow> vec3 \<Rightarrow> vec3" where
  "vadd a b = Vec3 (vx a + vx b) (vy a + vy b) (vz a + vz b)"

definition vsub :: "vec3 \<Rightarrow> vec3 \<Rightarrow> vec3" where
  "vsub a b = Vec3 (vx a - vx b) (vy a - vy b) (vz a - vz b)"

definition vscale :: "real \<Rightarrow> vec3 \<Rightarrow> vec3" where
  "vscale k a = Vec3 (k * vx a) (k * vy a) (k * vz a)"

definition vnorm :: "vec3 \<Rightarrow> real" where
  "vnorm a = sqrt (vx a * vx a + vy a * vy a + vz a * vz a)"

definition vzero :: vec3 where
  "vzero = Vec3 0 0 0"

lemma vec3_sel [simp]:
  "vx (vadd a b) = vx a + vx b" "vy (vadd a b) = vy a + vy b" "vz (vadd a b) = vz a + vz b"
  "vx (vsub a b) = vx a - vx b" "vy (vsub a b) = vy a - vy b" "vz (vsub a b) = vz a - vz b"
  "vx (vscale k a) = k * vx a" "vy (vscale k a) = k * vy a" "vz (vscale k a) = k * vz a"
  "vx vzero = 0" "vy vzero = 0" "vz vzero = 0"
  by (simp_all add: vadd_def vsub_def vscale_def vzero_def)

lemma vnorm_nonneg [simp]: "0 \<le> vnorm a"
  by (simp add: vnorm_def)

lemma vnorm_self [simp]: "vnorm (vsub a a) = 0"
  by (simp add: vnorm_def)

lemma vnorm_commute: "vnorm (vsub a b) = vnorm (vsub b a)"
  by (simp add: vnorm_def algebra_simps)

lemma vnorm_scale: "vnorm (vscale k a) = \<bar>k\<bar> * vnorm a"
proof -
  have "vx (vscale k a) * vx (vscale k a) + vy (vscale k a) * vy (vscale k a) + vz (vscale k a) * vz (vscale k a) =
      k\<^sup>2 * (vx a * vx a + vy a * vy a + vz a * vz a)" by (simp add: power2_eq_square algebra_simps)
  then show ?thesis by (simp add: vnorm_def real_sqrt_mult)
qed

lemma component_le_vnorm:
  "\<bar>vx a\<bar> \<le> vnorm a" "\<bar>vy a\<bar> \<le> vnorm a" "\<bar>vz a\<bar> \<le> vnorm a"
  by (simp_all add: vnorm_def real_le_rsqrt power2_eq_square)

section \<open>Saturation\<close>

text \<open>
  The limiter the code writes out as two comparisons: \<open>x\<close> when it lies in
  \<open>[-b, b]\<close>, the nearer end of the interval otherwise.
\<close>

definition saturate :: "real \<Rightarrow> real \<Rightarrow> real" where
  "saturate b x = (if x > b then b else if x < - b then - b else x)"

lemma saturate_abs: "0 \<le> b \<Longrightarrow> \<bar>saturate b x\<bar> \<le> b"
  by (auto simp: saturate_def)

lemma saturate_id: "\<bar>x\<bar> \<le> b \<Longrightarrow> saturate b x = x"
  by (auto simp: saturate_def)

section \<open>Decimal numerals\<close>

text \<open>\<open>std::to_string\<close> on an unsigned number: its decimal digits, most significant first.\<close>

definition digit_char :: "nat \<Rightarrow> char" where
  "digit_char d = char_of (48 + d)"

fun to_string :: "nat \<Rightarrow> string" where
  "to_string n = (if n < 10 then [digit_char n] else to_string (n div 10) @ [digit_char (n mod 10)])"

declare to_string.simps [simp del]

lemma digit_char_inj: "a < 10 \<Longrightarrow> b < 10 \<Longrightarrow> digit_char a = digit_char b \<Longrightarrow> a = b"
proof -
  assume *: "a < 10" "b < 10" "digit_char a = digit_char b"
  then have "of_char (digit_char a) = (of_char (digit_char b) :: nat)" by simp
  with * show "a = b" by (simp add: digit_char_def)
qed

lemma to_string_nonempty [simp]: "to_string n \<noteq> []"
  by (subst to_string.simps) simp

text \<open>
  The numeral determines the number: the key that \<open>CacheIndex\<close> and the parameter names
  build from a number are different for different numbers.
\<close>

lemma to_string_inject: "to_string m = to_string n \<Longrightarrow> m = n"
proof (induction m arbitrary: n rule: to_string.induct)
  case (1 m)
  consider "m < 10" "n < 10" | "m < 10" "\<not> n < 10" | "\<not> m < 10" "n < 10"
    | "\<not> m < 10" "\<not> n < 10" by blast
  then show ?case
  proof cases
    case 1
    with "1.prems" show ?thesis
      by (simp add: to_string.simps [of m] to_string.simps [of n] digit_char_inj)
  next
    case 2
    with "1.prems" to_string_nonempty [of "n div 10"] show ?thesis
      by (simp add: to_string.simps [of m] to_string.simps [of n] del: to_string_nonempty)
  next
    case 3
    with "1.prems" to_string_nonempty [of "m div 10"] show ?thesis
      by (simp add: to_string.simps [of m] to_string.simps [of n] del: to_string_nonempty)
  next
    case 4
    with "1.prems" have eq: "to_string (m div 10) = to_string (n div 10)"
      and d: "digit_char (m mod 10) = digit_char (n mod 10)"
      by (simp_all add: to_string.simps [of m] to_string.simps [of n])
    from "1.IH" 4 eq have "m div 10 = n div 10" by simp
    moreover have "m mod 10 = n mod 10" using d by (auto intro: digit_char_inj)
    ultimately show ?thesis by (metis div_mult_mod_eq)
  qed
qed

section \<open>Conversions of a double to an integer\<close>

text \<open>A C++ conversion to an integer type drops the fraction: it rounds towards zero.\<close>

definition trunc :: "real \<Rightarrow> int" where
  "trunc x = (if 0 \<le> x then \<lfloor>x\<rfloor> else \<lceil>x\<rceil>)"

lemma trunc_of_int [simp]: "trunc (of_int i) = i"
  by (simp add: trunc_def)

lemma trunc_abs_le: "\<bar>real_of_int (trunc x)\<bar> \<le> \<bar>x\<bar>"
  by (auto simp: trunc_def)

section \<open>Lists as arrays\<close>

text \<open>
  \<open>fetch\<close> reads an element of an array or vector.  \<open>fdiv\<close> is the division of doubles: its error
  stands for the infinity or NaN that a zero divisor gives.  \<open>map_result\<close> runs a fallible
  function over a list and stops at the first error.
\<close>

definition fetch :: "'a list \<Rightarrow> nat \<Rightarrow> cpp_error + 'a" where
  "fetch xs i = (if i < length xs then Inr (xs ! i) else Inl OutOfBounds)"

definition fdiv :: "real \<Rightarrow> real \<Rightarrow> cpp_error + real" where
  "fdiv a b = (if b = 0 then Inl DivideByZero else Inr (a / b))"

definition fsqrt :: "real \<Rightarrow> cpp_error + real" where
  "fsqrt a = (if a < 0 then Inl NegativeRoot else Inr (sqrt a))"

fun map_result :: "('a \<Rightarrow> 'e + 'b) \<Rightarrow> 'a list \<Rightarrow> 'e + 'b list" where
  "map_result f [] = Inr []"
| "map_result f (x # xs) = bind_result (f x) (\<lambda>y. bind_result (map_result f xs) (\<lambda>ys. Inr (y # ys)))"

lemma fetch_ok [simp]: "i < length xs \<Longrightarrow> fetch xs i = Inr (xs ! i)"
  by (simp add: fetch_def)

lemma fetch_Inr: "fetch xs i = Inr x \<longleftrightarrow> i < length xs \<and> x = xs ! i"
  by (auto simp: fetch_def)

lemma fdiv_ok [simp]: "b \<noteq> 0 \<Longrightarrow> fdiv a b = Inr (a / b)"
  by (simp add: fdiv_def)

lemma fdiv_Inr: "fdiv a b = Inr c \<longleftrightarrow> b \<noteq> 0 \<and> c = a / b"
  by (auto simp: fdiv_def)

lemma map_result_ok: "(\<And>x. x \<in> set xs \<Longrightarrow> f x = Inr (g x)) \<Longrightarrow> map_result f xs = Inr (map g xs)"
  by (induction xs) auto

lemma map_result_Inr: "map_result f xs = Inr ys \<Longrightarrow> list_all2 (\<lambda>x y. f x = Inr y) xs ys"
  by (induction xs arbitrary: ys) auto

lemma map_result_length: "map_result f xs = Inr ys \<Longrightarrow> length ys = length xs"
  by (auto dest!: map_result_Inr list_all2_lengthD)

lemma map_result_set: "map_result f xs = Inr ys \<Longrightarrow> y \<in> set ys \<Longrightarrow> \<exists>x \<in> set xs. f x = Inr y"
  by (induction xs arbitrary: ys) auto

lemma nth_update_cases:
  "j < length xs \<Longrightarrow> (xs[i := v]) ! j = (if i = j then v else xs ! j)"
  by (auto simp: nth_list_update)

lemma list_all_update:
  "list_all P xs \<Longrightarrow> P v \<Longrightarrow> list_all P (xs[i := v])"
  by (auto simp: list_all_iff dest!: set_update_subset_insert [THEN subsetD])

end
