(* ===== verification/Pid.thy ===== *)
theory Pid
  imports Prelude
begin

text \<open>
  The PID regulator of \<open>controller/include/controller/pid.h\<close>: its five fields, the
  constructor, the three operations.  The lemmas show the anti-windup limit on the integral
  term as an invariant of every operation, and what the regulator returns after any
  sequence of errors.
\<close>

record pid =
  Kp :: real
  Ki :: real
  Kd :: real
  previousError :: real
  integral :: real

text \<open>The constructor sets the last two fields; the gains keep what the memory held.\<close>

definition pid_new :: "real \<Rightarrow> real \<Rightarrow> real \<Rightarrow> pid" where
  "pid_new kp ki kd = \<lparr>Kp = kp, Ki = ki, Kd = kd, previousError = 0, integral = 0\<rparr>"

definition setParameters :: "real \<Rightarrow> real \<Rightarrow> real \<Rightarrow> pid \<Rightarrow> pid" where
  "setParameters kp ki kd p = p\<lparr>Kp := kp, Ki := ki, Kd := kd\<rparr>"

text \<open>\<open>calculate\<close> returns the correction and the regulator after the call.\<close>

definition calculate :: "real \<Rightarrow> pid \<Rightarrow> real \<times> pid" where
  "calculate error p =
     (let derivative = error - previousError p;
          i1 = integral p + error;
          i2 = (if i1 \<ge> 3 then 3 else if i1 \<le> -3 then -3 else i1);
          output = Kp p * error + Ki p * i2 + Kd p * derivative
      in (output, p\<lparr>integral := i2, previousError := error\<rparr>))"

definition pid_reset :: "pid \<Rightarrow> pid" where
  "pid_reset p = p\<lparr>previousError := 0, integral := 0\<rparr>"

text \<open>A regulator driven by a sequence of errors: the outputs and the final state.\<close>

fun calculate_all :: "real list \<Rightarrow> pid \<Rightarrow> real list \<times> pid" where
  "calculate_all [] p = ([], p)"
| "calculate_all (e # es) p =
     (let (out, p1) = calculate e p; (outs, p2) = calculate_all es p1 in (out # outs, p2))"

section \<open>The anti-windup invariant\<close>

definition pid_inv :: "pid \<Rightarrow> bool" where
  "pid_inv p \<longleftrightarrow> \<bar>integral p\<bar> \<le> 3"

lemma pid_inv_new [simp, intro]: "pid_inv (pid_new kp ki kd)"
  by (simp add: pid_inv_def pid_new_def)

lemma pid_inv_reset [simp, intro]: "pid_inv (pid_reset p)"
  by (simp add: pid_inv_def pid_reset_def)

lemma pid_inv_setParameters [simp]: "pid_inv (setParameters kp ki kd p) = pid_inv p"
  by (simp add: pid_inv_def setParameters_def)

text \<open>The limiter makes the invariant hold after a call whatever the state before it.\<close>

lemma pid_inv_calculate [simp, intro]: "pid_inv (snd (calculate e p))"
  by (auto simp: pid_inv_def calculate_def Let_def)

lemma calculate_gains [frame_simps]:
  "Kp (snd (calculate e p)) = Kp p" "Ki (snd (calculate e p)) = Ki p"
  "Kd (snd (calculate e p)) = Kd p" "previousError (snd (calculate e p)) = e"
  by (simp_all add: calculate_def Let_def)

lemma calculate_bound:
  assumes "0 \<le> Kp p" "0 \<le> Ki p" "0 \<le> Kd p"
  shows "\<bar>fst (calculate e p)\<bar> \<le> Kp p * \<bar>e\<bar> + 3 * Ki p + Kd p * \<bar>e - previousError p\<bar>"
proof -
  define i where "i = integral (snd (calculate e p))"
  have out: "fst (calculate e p) = Kp p * e + Ki p * i + Kd p * (e - previousError p)"
    by (simp add: calculate_def Let_def i_def)
  have "\<bar>i\<bar> \<le> 3"
    using pid_inv_calculate [of e p] by (simp add: pid_inv_def i_def)
  then have "\<bar>Ki p * i\<bar> \<le> 3 * Ki p"
    using assms(2) mult_left_mono [of "\<bar>i\<bar>" 3 "Ki p"] by (simp add: abs_mult mult.commute)
  moreover have "\<bar>Kp p * e\<bar> = Kp p * \<bar>e\<bar>"
    "\<bar>Kd p * (e - previousError p)\<bar> = Kd p * \<bar>e - previousError p\<bar>"
    using assms by (simp_all add: abs_mult)
  ultimately show ?thesis by (simp add: out)
qed

lemma calculate_bound_both:
  assumes "0 \<le> Kp p" "0 \<le> Ki p" "0 \<le> Kd p" "\<bar>previousError p\<bar> \<le> b" "\<bar>e\<bar> \<le> b"
  shows "\<bar>fst (calculate e p)\<bar> \<le> Kp p * b + 3 * Ki p + 2 * Kd p * b"
proof -
  have "Kp p * \<bar>e\<bar> \<le> Kp p * b"
    using assms by (intro mult_left_mono)
  moreover have "Kd p * \<bar>e - previousError p\<bar> \<le> Kd p * (2 * b)"
    using assms by (intro mult_left_mono) auto
  ultimately show ?thesis
    using calculate_bound [of p e] assms by simp
qed

text \<open>
  C38: whatever the sequence of errors a regulator with non-negative gains is given, its
  integral term stays in \<open>[-3, 3]\<close> (a constant error winds it up to a bounded
  contribution only), its gains do not change, it returns one correction per error, and
  when the errors are bounded by \<open>b\<close> every correction is bounded by
  \<open>Kp b + 3 Ki + 2 Kd b\<close>.
\<close>

theorem pid_windup_bounded:
  assumes "pid_inv p" "0 \<le> Kp p" "0 \<le> Ki p" "0 \<le> Kd p"
    and "\<bar>previousError p\<bar> \<le> b" "\<forall>e \<in> set es. \<bar>e\<bar> \<le> b"
  shows "pid_inv (snd (calculate_all es p))
     \<and> Kp (snd (calculate_all es p)) = Kp p
     \<and> Ki (snd (calculate_all es p)) = Ki p
     \<and> Kd (snd (calculate_all es p)) = Kd p
     \<and> length (fst (calculate_all es p)) = length es
     \<and> (\<forall>out \<in> set (fst (calculate_all es p)). \<bar>out\<bar> \<le> Kp p * b + 3 * Ki p + 2 * Kd p * b)"
  using assms
proof (induction es arbitrary: p)
  case Nil
  then show ?case by simp
next
  case (Cons e es)
  let ?q = "snd (calculate e p)"
  have IH: "pid_inv (snd (calculate_all es ?q)) \<and> Kp (snd (calculate_all es ?q)) = Kp ?q
      \<and> Ki (snd (calculate_all es ?q)) = Ki ?q \<and> Kd (snd (calculate_all es ?q)) = Kd ?q
      \<and> length (fst (calculate_all es ?q)) = length es
      \<and> (\<forall>out \<in> set (fst (calculate_all es ?q)). \<bar>out\<bar> \<le> Kp ?q * b + 3 * Ki ?q + 2 * Kd ?q * b)"
    by (rule Cons.IH) (use Cons.prems in \<open>auto simp: frame_simps\<close>)
  have "\<bar>fst (calculate e p)\<bar> \<le> Kp p * b + 3 * Ki p + 2 * Kd p * b"
    by (rule calculate_bound_both) (use Cons.prems in auto)
  with IH show ?case
    by (simp add: case_prod_beta Let_def frame_simps)
qed

theorem pid_windup_bounded_witness:
  "integral (snd (calculate_all [2, 2, 2] (pid_new 1 (3/10) (3/10)))) \<le> 3"
proof -
  have "pid_inv (snd (calculate_all [2, 2, 2] (pid_new 1 (3/10) (3/10))))"
    using pid_windup_bounded [OF pid_inv_new, of 1 "3/10" "3/10" 2 "[2, 2, 2]"]
    by (auto simp add: pid_new_def simp del: calculate_all.simps)
  then show ?thesis by (simp add: pid_inv_def del: calculate_all.simps)
qed

end
