(* ===== verification/MissionState.thy ===== *)
theory MissionState
  imports Pid
begin

text \<open>
  The state of the mission controller, class \<open>fsm\<close> of
  \<open>controller/include/controller/fsm.h\<close>, the messages it exchanges and its construction
  (\<open>fsm::init\<close> and \<open>fsm::readYamlAndUpdateConfig\<close> of \<open>controller/src/fsm.cpp\<close>).

  A field of the record is the member of the class without its trailing underscore; the three
  function-local statics of \<open>fsm_state_loopCallback\<close> that the code uses are fields too.  What the
  controller sends (topics and service calls) is appended to \<open>published\<close>, oldest first.
  Text it prints is left out.
\<close>

section \<open>Enumerations and messages\<close>

datatype fsm_state = INIT | TAKING_OFF | LAND | HOLD | EXEC_MISSION | ACROSS | TRACKING

datatype mission_action = YOLO_INIT | ADJUST | DROP | RISE | PUT | DROP_LAND

datatype coordinate_frame = FRAME_UNSET | FRAME_LOCAL_NED | FRAME_BODY_NED

text \<open>\<open>mavros_msgs::PositionTarget\<close>, without the fields no one sets.\<close>

record position_target =
  frame :: coordinate_frame
  stamp :: real
  type_mask :: "16 word"
  position :: vec3
  velocity :: vec3
  yaw :: real

definition position_target_zero :: position_target where
  "position_target_zero =
     \<lparr>frame = FRAME_UNSET, stamp = 0, type_mask = 0, position = vzero, velocity = vzero, yaw = 0\<rparr>"

text \<open>\<open>mavros_msgs::State\<close>, \<open>nav_msgs::Odometry\<close>, \<open>quadrotor_msgs::PositionCommand\<close>.\<close>

record px4_state =
  connected :: bool
  armed :: bool
  px4_mode :: string

record odometry =
  pose_position :: vec3
  pose_orientation :: "real \<times> real \<times> real \<times> real"
  twist_linear :: vec3

record position_command =
  cmd_position :: vec3
  cmd_velocity :: vec3
  cmd_acceleration :: vec3
  cmd_yaw :: real

text \<open>The response of the \<open>yolo\<close> service; the offsets are in centimetres.\<close>

record yolo_response =
  is_detect :: bool
  min_type :: int
  yolo_x :: real
  yolo_y :: real
  yolo_z :: real

datatype out =
    PubPx4 position_target         \<comment> \<open>\<open>px4_ctrl_pub_\<close>: mavros/setpoint_raw/local\<close>
  | PubGoal real vec3              \<comment> \<open>\<open>target_pub_\<close>: /move_base_simple/goal, frame world\<close>
  | PubPut int                     \<comment> \<open>\<open>put_pub_\<close>: /have_put_type\<close>
  | CallSetMode string
  | CallArming bool
  | CallYolo
  | CallServo int

section \<open>The class\<close>

definition CONTROL_MASK :: "16 word" where
  "CONTROL_MASK = 0b100111111000"

definition VEL_MASK :: "16 word" where
  "VEL_MASK = 0b100111000111"

record fsm =
  fsm_state :: fsm_state
  mission_action :: mission_action
  vel_mask :: "16 word"
  use_sim :: bool
  px4_current_state :: px4_state
  px4_last_state :: px4_state
  mission_timer :: bool            \<comment> \<open>\<open>mission_loop_timer\<close> is running\<close>
  hold_time :: real
  taking_off_pose :: position_target
  hold_pose :: position_target
  do_mission :: bool
  do_put :: bool
  have_just_put :: bool
  mission_pose :: position_target
  put_height :: real
  hold_height :: real
  detect_height :: real
  land_height :: real
  adjust_height :: real
  pnp_k :: real
  overtime_t :: int
  overtime_thre1 :: int
  overtime_thre2 :: int
  detect_overtime :: int
  have_odom :: bool
  odom_pos :: vec3
  odom_vel :: vec3
  odom_orient :: "real \<times> real \<times> real \<times> real"
  targetPos :: vec3
  targetVel :: vec3
  targetAcc :: vec3
  ego_Yaw :: real
  use_yaw :: bool
  takeoff_pos :: vec3
  cur_target :: vec3
  target_points :: "vec3 list"     \<comment> \<open>\<open>double target_points_[50][3]\<close>\<close>
  target_point_num :: int
  target_id :: int
  last_pub_time :: real
  ego_init :: bool
  pause_track :: bool
  pnp_limit :: real
  tent_id :: int
  land_id :: int
  put_servo_id :: int
  do_land :: bool
  have_adjusted :: bool
  if_do_put :: "bool list"         \<comment> \<open>\<open>bool if_do_put[4]\<close>\<close>
  pid_x :: pid
  pid_y :: pid
  pid_z :: pid
  yolo_detect :: yolo_response     \<comment> \<open>the response of the last successful call\<close>
  last_request_set :: bool         \<comment> \<open>static \<open>last_request\<close> has been initialised\<close>
  last_request :: real
  fsm_num :: int                   \<comment> \<open>static \<open>fsm_num\<close>\<close>
  nn :: int                        \<comment> \<open>static \<open>nn\<close> of the case ADJUST\<close>
  published :: "out list"

text \<open>
  What the environment supplies to one call of \<open>fsm_state_loopCallback\<close>: the readings of
  \<open>ros::Time::now()\<close>, numbered by their order in the text of the branch that is executed, and the
  answers of the services.  A failed call of \<open>yolo\<close> leaves the response as it was.
\<close>

record loop_env =
  now :: "nat \<Rightarrow> real"
  set_mode_ok :: bool              \<comment> \<open>call succeeded and \<open>mode_sent\<close>\<close>
  arming_ok :: bool
  yolo_reply :: "yolo_response option"
  servo_reply :: "int \<Rightarrow> bool"     \<comment> \<open>by \<open>servo.request.servo_num\<close>\<close>

definition publish :: "out \<Rightarrow> fsm \<Rightarrow> fsm" where
  "publish m s = s\<lparr>published := published s @ [m]\<rparr>"

section \<open>The arrays\<close>

definition target_point :: "fsm \<Rightarrow> int \<Rightarrow> cpp_error + vec3" where
  "target_point s i =
     (if 0 \<le> i \<and> i < int (length (target_points s)) then Inr (target_points s ! nat i)
      else Inl OutOfBounds)"

definition do_put_at :: "fsm \<Rightarrow> int \<Rightarrow> cpp_error + bool" where
  "do_put_at s i =
     (if 0 \<le> i \<and> i < int (length (if_do_put s)) then Inr (if_do_put s ! nat i)
      else Inl OutOfBounds)"

section \<open>Construction\<close>

text \<open>
  \<open>readYamlAndUpdateConfig\<close>: \<open>None\<close> is a file that does not parse or holds no list of booleans
  under \<open>if_do_put\<close> (the exception is caught); the array changes only for a list of four.
\<close>

definition readYamlAndUpdateConfig :: "bool list option \<Rightarrow> bool list \<Rightarrow> bool list" where
  "readYamlAndUpdateConfig yaml dp =
     (case yaml of
        None \<Rightarrow> dp
      | Some l \<Rightarrow> if length l = 4 then l else dp)"

text \<open>The parameter server: \<open>nh_private_.param (name, variable, default)\<close>.\<close>

record params =
  p_bool :: "string \<Rightarrow> bool option"
  p_int :: "string \<Rightarrow> int option"
  p_double :: "string \<Rightarrow> real option"

definition param :: "(string \<Rightarrow> 'a option) \<Rightarrow> string \<Rightarrow> 'a \<Rightarrow> 'a" where
  "param get name dflt = (case get name of None \<Rightarrow> dflt | Some v \<Rightarrow> v)"

definition read_target_point :: "params \<Rightarrow> nat \<Rightarrow> vec3" where
  "read_target_point ps i =
     Vec3 (param (p_double ps) (''target_points_'' @ to_string i @ ''_x'') (-1))
          (param (p_double ps) (''target_points_'' @ to_string i @ ''_y'') (-1))
          (param (p_double ps) (''target_points_'' @ to_string i @ ''_z'') (-1))"

text \<open>The loop over \<open>i < target_point_num_\<close>: \<open>n\<close> iterations from index \<open>i\<close> on.\<close>

fun read_target_points :: "params \<Rightarrow> nat \<Rightarrow> nat \<Rightarrow> vec3 list \<Rightarrow> cpp_error + vec3 list" where
  "read_target_points ps i 0 pts = Inr pts"
| "read_target_points ps i (Suc n) pts =
     (if i < length pts then read_target_points ps (Suc i) n (pts[i := read_target_point ps i])
      else Inl OutOfBounds)"

text \<open>
  \<open>fsm::init\<close>, on the object as the default constructor left it: the members it does not
  assign keep what the memory of \<open>s0\<close> held.  \<open>t\<close> is the one reading of the clock.
\<close>

definition init_constants :: "bool list option \<Rightarrow> real \<Rightarrow> fsm \<Rightarrow> fsm" where
  "init_constants yaml t s0 = s0
    \<lparr>ego_init := False, pause_track := False, have_just_put := False, have_adjusted := False,
     do_land := False, overtime_t := 0, detect_overtime := 0, put_servo_id := 3,
     if_do_put := readYamlAndUpdateConfig yaml (if_do_put s0),
     pid_x := setParameters 1 (3/10) (3/10) (pid_x s0),
     pid_y := setParameters 1 (3/10) (3/10) (pid_y s0),
     pid_z := setParameters 1 (3/10) (3/10) (pid_z s0),
     taking_off_pose := (taking_off_pose s0)\<lparr>frame := FRAME_LOCAL_NED, stamp := t,
        type_mask := 2552, position := Vec3 0 0 (11/10), yaw := 0\<rparr>,
     hold_pose := (hold_pose s0)\<lparr>frame := FRAME_LOCAL_NED, type_mask := 2552\<rparr>,
     mission_pose := (mission_pose s0)\<lparr>frame := FRAME_LOCAL_NED, type_mask := 2552\<rparr>,
     takeoff_pos := Vec3 0 0 (11/10)\<rparr>"

definition init_params :: "params \<Rightarrow> fsm \<Rightarrow> fsm" where
  "init_params ps s = s
    \<lparr>use_sim := param (p_bool ps) ''use_sim_'' False,
     put_height := param (p_double ps) ''put_height'' (1/2),
     hold_height := param (p_double ps) ''hold_height'' 1,
     detect_height := param (p_double ps) ''detect_height'' (3/2),
     land_height := param (p_double ps) ''land_height'' (3/10),
     adjust_height := param (p_double ps) ''adjust_height'' 1,
     do_mission := param (p_bool ps) ''do_mission'' False,
     do_put := param (p_bool ps) ''do_put_'' False,
     use_yaw := param (p_bool ps) ''use_yaw'' False,
     pnp_k := param (p_double ps) ''pnp_k'' (9/10),
     pnp_limit := param (p_double ps) ''pnp_limit_'' (5/100),
     overtime_thre1 := param (p_int ps) ''overtime_thre1'' 5,
     overtime_thre2 := param (p_int ps) ''overtime_thre2'' 5,
     tent_id := param (p_int ps) ''tent_id'' 5,
     land_id := param (p_int ps) ''land_id'' 3,
     target_point_num := param (p_int ps) ''target_point_num_'' (-1)\<rparr>"

definition fsm_init :: "params \<Rightarrow> bool list option \<Rightarrow> real \<Rightarrow> fsm \<Rightarrow> cpp_error + fsm" where
  "fsm_init ps yaml t s0 =
     (let s = init_params ps (init_constants yaml t s0)
      in bind_result (read_target_points ps 0 (nat (target_point_num s)) (target_points s))
           (\<lambda>pts. Inr (s\<lparr>target_points := pts, target_id := 0,
                         mission_action := YOLO_INIT, fsm_state := INIT\<rparr>)))"

lemma read_target_points_length:
  "read_target_points ps i n pts = Inr pts' \<Longrightarrow> length pts' = length pts"
  by (induction ps i n pts rule: read_target_points.induct) (auto split: if_splits)

lemma read_target_points_ok_iff:
  "(\<exists>pts'. read_target_points ps i n pts = Inr pts') \<longleftrightarrow> n = 0 \<or> i + n \<le> length pts"
  by (induction ps i n pts rule: read_target_points.induct) (auto split: if_splits)

lemma read_target_points_nth:
  "read_target_points ps i n pts = Inr pts' \<Longrightarrow> j < length pts \<Longrightarrow>
     pts' ! j = (if i \<le> j \<and> j < i + n then read_target_point ps j else pts ! j)"
proof (induction ps i n pts rule: read_target_points.induct)
  case (1 ps i pts)
  then show ?case by auto
next
  case (2 ps i n pts)
  from "2.prems" have i: "i < length pts"
    and rec: "read_target_points ps (Suc i) n (pts[i := read_target_point ps i]) = Inr pts'"
    by (auto split: if_splits)
  from "2.IH" [OF i rec] "2.prems"(2) i show ?case
    by (auto simp: nth_list_update)
qed

end
