(* ===== verification/Machine.thy ===== *)
theory Machine
  imports Prelude
begin

text \<open>
  Components that react to events: \<open>run_events h evs s\<close> feeds the events \<open>evs\<close> to the handler
  \<open>h\<close>, starting in the state \<open>s\<close>, and stops at the first error.  The locales state what
  a handler has to satisfy for one event, and carry it to every run:
  \<^item> \<open>event_machine\<close>: the events the environment may deliver (\<open>allowed\<close>) keep an invariant;
  \<^item> \<open>safe_machine\<close>: in addition the invariant excludes every error.
  Each component with callbacks interprets one of them on its own handler.
\<close>

fun run_events :: "('ev \<Rightarrow> 's \<Rightarrow> 'x + 's) \<Rightarrow> 'ev list \<Rightarrow> 's \<Rightarrow> 'x + 's" where
  "run_events h [] s = Inr s"
| "run_events h (ev # evs) s = bind_result (h ev s) (run_events h evs)"

lemma run_events_append:
  "run_events h (evs @ evs') s = bind_result (run_events h evs s) (run_events h evs')"
proof (induction evs arbitrary: s)
  case Nil
  then show ?case by simp
next
  case (Cons ev evs)
  then show ?case by (cases "h ev s") auto
qed

lemma run_events_Cons_Inr:
  "run_events h (ev # evs) s = Inr t \<longleftrightarrow> (\<exists>u. h ev s = Inr u \<and> run_events h evs u = Inr t)"
  by simp

locale event_machine =
  fixes handle :: "'ev \<Rightarrow> 's \<Rightarrow> 'x + 's"
    and allowed :: "'ev \<Rightarrow> bool"
    and inv :: "'s \<Rightarrow> bool"
  assumes inv_handle: "inv s \<Longrightarrow> allowed ev \<Longrightarrow> handle ev s = Inr t \<Longrightarrow> inv t"
begin

lemma run_inv:
  "inv s \<Longrightarrow> list_all allowed evs \<Longrightarrow> run_events handle evs s = Inr t \<Longrightarrow> inv t"
proof (induction evs arbitrary: s)
  case Nil
  then show ?case by simp
next
  case (Cons ev evs)
  from Cons.prems(3) obtain u where u: "handle ev s = Inr u" "run_events handle evs u = Inr t"
    by auto
  from Cons.prems(1,2) u(1) have "inv u" by (auto intro: inv_handle)
  with Cons u(2) show ?case by auto
qed

text \<open>What every allowed event relates, a run relates.\<close>

lemma run_rel:
  assumes refl: "\<And>s. R s s" and trans: "\<And>s t u. R s t \<Longrightarrow> R t u \<Longrightarrow> R s u"
    and step: "\<And>s ev t. inv s \<Longrightarrow> allowed ev \<Longrightarrow> handle ev s = Inr t \<Longrightarrow> R s t"
  shows "inv s \<Longrightarrow> list_all allowed evs \<Longrightarrow> run_events handle evs s = Inr t \<Longrightarrow> R s t"
proof (induction evs arbitrary: s)
  case Nil
  with refl show ?case by simp
next
  case (Cons ev evs)
  from Cons.prems(3) obtain u where u: "handle ev s = Inr u" "run_events handle evs u = Inr t"
    by auto
  from Cons.prems(1,2) u(1) have "inv u" "R s u" by (auto intro: inv_handle step)
  with Cons u(2) show ?case by (auto intro: trans)
qed

lemma run_const:
  assumes "\<And>s ev t. inv s \<Longrightarrow> allowed ev \<Longrightarrow> handle ev s = Inr t \<Longrightarrow> m t = m s"
  shows "inv s \<Longrightarrow> list_all allowed evs \<Longrightarrow> run_events handle evs s = Inr t \<Longrightarrow> m t = m s"
  by (rule run_rel [where R = "\<lambda>s t. m t = m s"]) (auto dest: assms)

end

locale safe_machine = event_machine +
  assumes handle_ok: "inv s \<Longrightarrow> allowed ev \<Longrightarrow> \<exists>t. handle ev s = Inr t"
begin

lemma run_ok:
  "inv s \<Longrightarrow> list_all allowed evs \<Longrightarrow> \<exists>t. run_events handle evs s = Inr t \<and> inv t"
proof (induction evs arbitrary: s)
  case Nil
  then show ?case by simp
next
  case (Cons ev evs)
  from Cons.prems have "inv s" "allowed ev" by simp_all
  from handle_ok [OF this] obtain u where u: "handle ev s = Inr u" by blast
  with \<open>inv s\<close> \<open>allowed ev\<close> have "inv u" by (rule inv_handle)
  from Cons.IH [OF this] Cons.prems(2) u show ?case by auto
qed

end

end
