(* ===== verification/MissionFsm.thy ===== *)
theory MissionFsm
  imports MissionState Machine
begin

text \<open>
  The operations of the mission controller, \<open>controller/src/fsm.cpp\<close>: the message
  callbacks, the helpers that build set-points, one definition per case of
  \<open>fsm_state_loopCallback\<close> (the 100 Hz loop), and the loop itself.  An early \<open>break\<close> or
  \<open>goto\<close> of the code is the branch that returns the state as it is there.  The only statements
  with undefined behaviour are the reads of \<open>target_points_\<close> and \<open>if_do_put\<close> in the case HOLD, so
  that case and the loop return a value of \<open>cpp_error + fsm\<close>.
\<close>

section \<open>State changes\<close>

definition changeMissionAction :: "mission_action \<Rightarrow> fsm \<Rightarrow> fsm" where
  "changeMissionAction new_action s = s\<lparr>mission_action := new_action\<rparr>"

definition changeFSMState :: "fsm_state \<Rightarrow> fsm \<Rightarrow> fsm" where
  "changeFSMState new_state s = s\<lparr>fsm_state := new_state\<rparr>"

section \<open>Message callbacks\<close>

definition px4_state_Callback :: "px4_state \<Rightarrow> fsm \<Rightarrow> fsm" where
  "px4_state_Callback msg s =
     s\<lparr>px4_last_state := px4_current_state s, px4_current_state := msg\<rparr>"

definition ego_init_Callback :: "bool \<Rightarrow> fsm \<Rightarrow> fsm" where
  "ego_init_Callback d s = (if ego_init s \<noteq> d then s\<lparr>ego_init := d\<rparr> else s)"

definition odomCallback :: "odometry \<Rightarrow> fsm \<Rightarrow> fsm" where
  "odomCallback msg s =
     s\<lparr>odom_pos := pose_position msg, odom_vel := twist_linear msg,
       odom_orient := pose_orientation msg, have_odom := True\<rparr>"

definition quadmsgCallback :: "position_command \<Rightarrow> fsm \<Rightarrow> fsm" where
  "quadmsgCallback cmd s =
     (let s1 = s\<lparr>targetPos := cmd_position cmd, targetVel := cmd_velocity cmd,
                 targetAcc := cmd_acceleration cmd, ego_Yaw := cmd_yaw cmd\<rparr>
      in if fsm_state s1 = HOLD \<and> \<not> pause_track s1 then changeFSMState TRACKING s1 else s1)"

section \<open>Set-points and goals\<close>

definition set_z :: "real \<Rightarrow> real \<Rightarrow> position_target \<Rightarrow> position_target" where
  "set_z z t p = p\<lparr>stamp := t, position := Vec3 (vx (position p)) (vy (position p)) z\<rparr>"

definition pubNewTarget :: "real \<Rightarrow> vec3 \<Rightarrow> fsm \<Rightarrow> fsm" where
  "pubNewTarget t next_target s = (publish (PubGoal t next_target) s)\<lparr>cur_target := next_target\<rparr>"

definition startMissionTimer :: "real \<Rightarrow> fsm \<Rightarrow> fsm" where
  "startMissionTimer t s =
     s\<lparr>mission_pose := (mission_pose s)\<lparr>stamp := t,
          position := Vec3 (vx (odom_pos s)) (vy (odom_pos s)) (detect_height s)\<rparr>,
       mission_timer := True\<rparr>"

definition stopMissionTimer :: "fsm \<Rightarrow> fsm" where
  "stopMissionTimer s = s\<lparr>mission_timer := False\<rparr>"

definition missionTimer_loop_Callback :: "fsm \<Rightarrow> fsm" where
  "missionTimer_loop_Callback s = publish (PubPx4 (mission_pose s)) s"

definition checkPOS :: "fsm \<Rightarrow> fsm" where
  "checkPOS s = s\<lparr>pause_track := vnorm (vsub (odom_pos s) (cur_target s)) < 1/2\<rparr>"

definition track :: "real \<Rightarrow> fsm \<Rightarrow> fsm" where
  "track t s =
     (let current_goal = position_target_zero
            \<lparr>frame := FRAME_LOCAL_NED, stamp := t, type_mask := 2552, position := targetPos s,
             yaw := (if use_yaw s then ego_Yaw s else 0)\<rparr>
      in publish (PubPx4 current_goal) s)"

text \<open>The vertical velocity comes from \<open>pid_x\<close>, as in the code.\<close>

definition track_vel :: "real \<Rightarrow> fsm \<Rightarrow> fsm" where
  "track_vel t s =
     (let err_x = vx (targetPos s) - vx (odom_pos s);
          err_y = vy (targetPos s) - vy (odom_pos s);
          err_z = vz (targetPos s) - vz (odom_pos s);
          (vel_x, px1) = calculate err_x (pid_x s);
          (vel_y, py1) = calculate err_y (pid_y s);
          (vel_z, px2) = calculate err_z px1;
          current_goal = position_target_zero
            \<lparr>frame := FRAME_LOCAL_NED, stamp := t, type_mask := vel_mask s,
             velocity := Vec3 vel_x vel_y vel_z, yaw := (if use_yaw s then ego_Yaw s else 0)\<rparr>
      in publish (PubPx4 current_goal) (s\<lparr>pid_x := px2, pid_y := py1\<rparr>))"

text \<open>
  \<open>updatepnpPos\<close>: the offsets of the detection, saturated, move the set-point relative to the
  current position.  The parameter \<open>k\<close> of the C++ function has no effect (its use is commented
  out).
\<close>

definition updatepnpPos :: "real \<Rightarrow> real \<Rightarrow> real \<Rightarrow> fsm \<Rightarrow> fsm" where
  "updatepnpPos t dx dy s =
     (let m_dx = (if dx > pnp_limit s then pnp_limit s
                  else if dx < - pnp_limit s then - pnp_limit s else dx);
          m_dy = (if dy > pnp_limit s then pnp_limit s
                  else if dy < - pnp_limit s then - pnp_limit s else dy)
      in s\<lparr>mission_pose := (mission_pose s)
             \<lparr>position := Vec3 (vx (odom_pos s) - m_dy - 15/100) (vy (odom_pos s) - m_dx)
                              (vz (position (mission_pose s))),
              stamp := t\<rparr>\<rparr>)"

definition updatepnpPos_vel :: "real \<Rightarrow> real \<Rightarrow> real \<Rightarrow> fsm \<Rightarrow> fsm" where
  "updatepnpPos_vel t dx dy s =
     (let m_dx = (if dx > pnp_limit s then pnp_limit s
                  else if dx < - pnp_limit s then - pnp_limit s else dx);
          m_dy = (if dy > pnp_limit s then pnp_limit s
                  else if dy < - pnp_limit s then - pnp_limit s else dy);
          err_dz = detect_height s - vz (odom_pos s);
          (ux, px1) = calculate m_dy (pid_x s);
          (uy, py1) = calculate m_dx (pid_y s);
          (uz, pz1) = calculate err_dz (pid_z s)
      in s\<lparr>mission_pose := (mission_pose s)
             \<lparr>stamp := t, type_mask := vel_mask s, velocity := Vec3 ux uy uz\<rparr>,
           pid_x := px1, pid_y := py1, pid_z := pz1\<rparr>)"

section \<open>The cases of the loop\<close>

definition case_INIT :: "fsm \<Rightarrow> fsm" where
  "case_INIT s =
     (if \<not> connected (px4_current_state s) then s
      else if \<not> have_odom s then s
      else changeFSMState TAKING_OFF s)"

definition request_offboard :: "loop_env \<Rightarrow> fsm \<Rightarrow> fsm" where
  "request_offboard e s =
     (if px4_mode (px4_current_state s) \<noteq> ''OFFBOARD'' \<and> now e 1 - last_request s > 2
      then (publish (CallSetMode ''OFFBOARD'') s)\<lparr>last_request := now e 2\<rparr>
      else if \<not> armed (px4_current_state s) \<and> now e 3 - last_request s > 2
      then (publish (CallArming True) s)\<lparr>last_request := now e 4\<rparr>
      else s)"

definition case_TAKING_OFF :: "loop_env \<Rightarrow> fsm \<Rightarrow> fsm" where
  "case_TAKING_OFF e s =
     (let s1 = (if use_sim s then request_offboard e s else s);
          s2 = publish (PubPx4 (taking_off_pose s1)) s1
      in if vnorm (vsub (odom_pos s2) (takeoff_pos s2)) < 3/10
         then (changeFSMState HOLD s2)\<lparr>hold_pose := taking_off_pose s2\<rparr>
         else s2)"

text \<open>The condition for a drop at the point just reached; the array is read last, if at all.\<close>

definition drop_due :: "fsm \<Rightarrow> cpp_error + bool" where
  "drop_due s =
     (if do_mission s \<and> \<not> have_just_put s \<and> put_servo_id s \<ge> 1
      then do_put_at s (target_id s - 1) else Inr False)"

text \<open>The next goal of the case HOLD, after two seconds at the previous one.\<close>

definition next_target :: "loop_env \<Rightarrow> fsm \<Rightarrow> cpp_error + fsm" where
  "next_target e s =
     bind_result (target_point s (target_id s))
       (\<lambda>p. Inr ((pubNewTarget (now e 3) p (s\<lparr>last_pub_time := now e 2\<rparr>))
                   \<lparr>have_just_put := False, target_id := target_id s + 1\<rparr>))"

definition start_mission :: "fsm \<Rightarrow> fsm" where
  "start_mission s = changeMissionAction YOLO_INIT (changeFSMState EXEC_MISSION s)"

text \<open>What the case HOLD decides after the set-point went out.\<close>

definition hold_decide :: "loop_env \<Rightarrow> fsm \<Rightarrow> cpp_error + fsm" where
  "hold_decide e s =
     (if \<not> ego_init s then Inr s
      else if target_point_num s < 1 then Inr s
      else if target_id s = 0 then
        bind_result (target_point s (target_id s))
          (\<lambda>p. Inr ((pubNewTarget (now e 1) p s)
                      \<lparr>last_pub_time := now e 2, target_id := target_id s + 1\<rparr>))
      else if target_id s \<le> 4 then
        (if now e 1 - last_pub_time s < 2 then Inr s
         else bind_result (drop_due s)
                (\<lambda>due. if due then Inr (start_mission s) else next_target e s))
      else if target_id s < target_point_num s then
        (if now e 1 - last_pub_time s < 2 then Inr s else next_target e s)
      else if target_id s = target_point_num s then
        (if now e 1 - last_pub_time s < 2 then Inr s
         else Inr (start_mission (s\<lparr>do_land := True\<rparr>)))
      else Inr s)"

definition case_HOLD :: "loop_env \<Rightarrow> fsm \<Rightarrow> cpp_error + fsm" where
  "case_HOLD e s = hold_decide e (publish (PubPx4 (hold_pose s)) s)"

definition mission_YOLO_INIT :: "loop_env \<Rightarrow> fsm \<Rightarrow> fsm" where
  "mission_YOLO_INIT e s = changeMissionAction ADJUST (startMissionTimer (now e 1) s)"

text \<open>The camera sits beside the magazines: the offset depends on the servo that is next.\<close>

definition servo_offset :: "int \<Rightarrow> real \<times> real \<Rightarrow> real \<times> real" where
  "servo_offset servo d =
     (case d of (dx, dy) \<Rightarrow>
        if servo = 2 then (dx + 1/10, dy)
        else if servo = 3 then (dx, dy - 1/10)
        else if servo = 1 then (dx - 1/10, dy)
        else (dx, dy))"

definition near :: "real \<Rightarrow> real \<times> real \<Rightarrow> bool" where
  "near r d \<longleftrightarrow> \<bar>fst d\<bar> < r \<and> \<bar>snd d\<bar> < r"

text \<open>
  ADJUST, detection succeeded: the first component tells whether the case was left by a
  \<open>break\<close>, before the overtime checks at its end.
\<close>

definition adjust_detected :: "loop_env \<Rightarrow> yolo_response \<Rightarrow> fsm \<Rightarrow> bool \<times> fsm" where
  "adjust_detected e r s =
     (let s1 = s\<lparr>yolo_detect := r, overtime_t := 0\<rparr>;
          d = servo_offset (put_servo_id s1) (yolo_x r / 100, yolo_y r / 100);
          s2 = updatepnpPos (now e 1) (fst d) (snd d) s1;
          s3 = s2\<lparr>detect_overtime := detect_overtime s2 + 1\<rparr>
      in if (near (2/10) d \<or> detect_overtime s3 > 800) \<and> \<not> have_adjusted s3
         then (True, s3\<lparr>hold_time := now e 2,
                        mission_pose := set_z (adjust_height s3) (now e 3) (mission_pose s3),
                        detect_overtime := 0, have_adjusted := True\<rparr>)
         else if (near (1/10) d \<or> detect_overtime s3 > 80) \<and> now e 4 - hold_time s3 \<ge> 5
         then (if do_land s3 then (True, changeMissionAction DROP_LAND s3)
               else (True, (changeMissionAction DROP (s3\<lparr>detect_overtime := 0\<rparr>))
                             \<lparr>hold_time := now e 5\<rparr>))
         else (False, s3))"

text \<open>ADJUST, the overtime checks: two climbs of 30 cm, then the drop is started blindly.\<close>

definition adjust_overtime :: "fsm \<Rightarrow> fsm" where
  "adjust_overtime s =
     (if overtime_t s > overtime_thre1 s * 60 \<and> nn s \<ge> 2
      then (changeMissionAction DROP (s\<lparr>overtime_t := 0\<rparr>))\<lparr>nn := 0\<rparr>
      else if overtime_t s > overtime_thre1 s * 60
      then s\<lparr>overtime_t := 0, nn := nn s + 1,
             mission_pose := (mission_pose s)
               \<lparr>position := Vec3 (vx (position (mission_pose s))) (vy (position (mission_pose s)))
                                (vz (position (mission_pose s)) + 3/10)\<rparr>\<rparr>
      else s)"

definition adjust_detect :: "loop_env \<Rightarrow> fsm \<Rightarrow> bool \<times> fsm" where
  "adjust_detect e s =
     (case yolo_reply e of
        Some r \<Rightarrow> adjust_detected e r s
      | None \<Rightarrow> (False, s\<lparr>overtime_t := overtime_t s + 1\<rparr>))"

definition mission_ADJUST :: "loop_env \<Rightarrow> fsm \<Rightarrow> fsm" where
  "mission_ADJUST e s =
     (case adjust_detect e (publish CallYolo s) of
        (brk, s1) \<Rightarrow> if brk then s1 else adjust_overtime s1)"

definition mission_DROP :: "loop_env \<Rightarrow> fsm \<Rightarrow> fsm" where
  "mission_DROP e s0 =
     (let s = publish CallYolo s0;
          s1 = (case yolo_reply e of
                  Some r \<Rightarrow>
                    (let d = servo_offset (put_servo_id s) (yolo_x r / 100, yolo_y r / 100)
                     in updatepnpPos (now e 1) (fst d) (snd d) (s\<lparr>yolo_detect := r, overtime_t := 0\<rparr>))
                | None \<Rightarrow> s\<lparr>overtime_t := overtime_t s + 1\<rparr>);
          s2 = s1\<lparr>mission_pose := set_z (put_height s1) (now e 2) (mission_pose s1)\<rparr>
      in if (\<bar>vz (odom_pos s2) - put_height s2\<bar> < 2/10 \<or> overtime_t s2 > overtime_thre2 s2 * 100)
              \<and> now e 3 - hold_time s2 \<ge> 5
         then (changeMissionAction PUT s2)\<lparr>hold_time := now e 4\<rparr>
         else s2)"

definition mission_RISE :: "loop_env \<Rightarrow> fsm \<Rightarrow> fsm" where
  "mission_RISE e s0 =
     (let s = publish (PubPut (min_type (yolo_detect s0))) s0;
          s1 = s\<lparr>mission_pose := set_z (hold_height s) (now e 1) (mission_pose s)\<rparr>
      in if \<bar>vz (odom_pos s1) - hold_height s1\<bar> < 1/10
         then (changeFSMState HOLD ((stopMissionTimer s1)\<lparr>have_just_put := True, have_adjusted := False\<rparr>))
                \<lparr>hold_pose := mission_pose s1,
                 pid_x := pid_reset (pid_x s1), pid_y := pid_reset (pid_y s1),
                 pid_z := pid_reset (pid_z s1)\<rparr>
         else s1)"

definition mission_PUT :: "loop_env \<Rightarrow> fsm \<Rightarrow> fsm" where
  "mission_PUT e s =
     (if do_put s
      then (if now e 1 - hold_time s \<ge> 3
            then (let s1 = publish (CallServo (put_servo_id s)) s
                  in if \<not> servo_reply e (put_servo_id s) then s1
                     else changeMissionAction RISE (s1\<lparr>put_servo_id := put_servo_id s1 - 1\<rparr>))
            else s)
      else changeMissionAction RISE s)"

definition mission_DROP_LAND :: "loop_env \<Rightarrow> fsm \<Rightarrow> fsm" where
  "mission_DROP_LAND e s0 =
     (let s = publish CallYolo s0 in
      case yolo_reply e of
        Some r \<Rightarrow>
          (let d = (yolo_x r / 100, yolo_y r / 100);
               s2 = updatepnpPos (now e 1) (fst d) (snd d) (s\<lparr>yolo_detect := r, overtime_t := 0\<rparr>);
               s3 = s2\<lparr>detect_overtime := detect_overtime s2 + 1\<rparr>
           in if (near (2/10) d \<or> detect_overtime s3 > overtime_thre2 s3 * 100) \<and> \<not> have_adjusted s3
              then s3\<lparr>hold_time := now e 2,
                      mission_pose := set_z (6/10) (now e 3) (mission_pose s3),
                      detect_overtime := 0, have_adjusted := True\<rparr>
              else if near (1/10) d \<or> detect_overtime s3 > 80
              then (let s4 = s3\<lparr>mission_pose := set_z (3/10) (now e 4) (mission_pose s3)\<rparr>
                    in if now e 5 - hold_time s4 \<ge> 5 then changeFSMState LAND s4 else s4)
              else s3)
      | None \<Rightarrow> s\<lparr>overtime_t := overtime_t s + 1\<rparr>)"

definition case_EXEC_MISSION :: "loop_env \<Rightarrow> fsm \<Rightarrow> fsm" where
  "case_EXEC_MISSION e s =
     (case mission_action s of
        YOLO_INIT \<Rightarrow> mission_YOLO_INIT e s
      | ADJUST \<Rightarrow> mission_ADJUST e s
      | DROP \<Rightarrow> mission_DROP e s
      | RISE \<Rightarrow> mission_RISE e s
      | PUT \<Rightarrow> mission_PUT e s
      | DROP_LAND \<Rightarrow> mission_DROP_LAND e s)"

definition case_LAND :: "loop_env \<Rightarrow> fsm \<Rightarrow> fsm" where
  "case_LAND e s =
     (if px4_mode (px4_current_state s) \<noteq> ''AUTO.LAND'' \<and> now e 1 - last_request s > 2
      then (publish (CallSetMode ''AUTO.LAND'') s)\<lparr>last_request := now e 2\<rparr>
      else s)"

definition case_TRACKING :: "loop_env \<Rightarrow> fsm \<Rightarrow> fsm" where
  "case_TRACKING e s =
     (if pause_track s
      then (changeFSMState HOLD s)
             \<lparr>hold_pose := (hold_pose s)\<lparr>stamp := now e 1, position := odom_pos s\<rparr>\<rparr>
      else track (now e 1) s)"

section \<open>The loop\<close>

definition loop_entry :: "loop_env \<Rightarrow> fsm \<Rightarrow> fsm" where
  "loop_entry e s =
     (let s1 = (if last_request_set s then s
                else s\<lparr>last_request_set := True, last_request := now e 0\<rparr>);
          s2 = s1\<lparr>fsm_num := (if fsm_num s1 + 1 = 100 then 0 else fsm_num s1 + 1)\<rparr>
      in checkPOS s2)"

definition fsm_state_loopCallback :: "loop_env \<Rightarrow> fsm \<Rightarrow> cpp_error + fsm" where
  "fsm_state_loopCallback e s0 =
     (let s = loop_entry e s0 in
      case fsm_state s of
        INIT \<Rightarrow> Inr (case_INIT s)
      | TAKING_OFF \<Rightarrow> Inr (case_TAKING_OFF e s)
      | HOLD \<Rightarrow> case_HOLD e s
      | EXEC_MISSION \<Rightarrow> Inr (case_EXEC_MISSION e s)
      | LAND \<Rightarrow> Inr (case_LAND e s)
      | ACROSS \<Rightarrow> Inr s
      | TRACKING \<Rightarrow> Inr (case_TRACKING e s))"

text \<open>
  The node is single-threaded: \<open>ros::spin\<close> runs one callback at a time, in any order.  The
  mission timer fires only while it is running.
\<close>

datatype mission_event =
    Loop loop_env
  | MissionTimer
  | Px4State px4_state
  | EgoInit bool
  | Odom odometry
  | QuadMsg position_command

fun mission_handle :: "mission_event \<Rightarrow> fsm \<Rightarrow> cpp_error + fsm" where
  "mission_handle (Loop e) s = fsm_state_loopCallback e s"
| "mission_handle MissionTimer s =
     Inr (if mission_timer s then missionTimer_loop_Callback s else s)"
| "mission_handle (Px4State m) s = Inr (px4_state_Callback m s)"
| "mission_handle (EgoInit d) s = Inr (ego_init_Callback d s)"
| "mission_handle (Odom m) s = Inr (odomCallback m s)"
| "mission_handle (QuadMsg c) s = Inr (quadmsgCallback c s)"

abbreviation mission_run :: "mission_event list \<Rightarrow> fsm \<Rightarrow> cpp_error + fsm" where
  "mission_run \<equiv> run_events mission_handle"

end
