(* ===== verification/MissionInv.thy ===== *)
theory MissionInv
  imports MissionFsm
begin

text \<open>
  The invariant \<open>mission_inv\<close> of the mission controller (array bounds, the goals published so
  far, when a landing may start, how many payloads are left), kept by every event of every run that
  starts with \<open>fsm_init\<close>; with it no event runs into undefined behaviour.
\<close>

section \<open>What was published\<close>

text \<open>The goals in a trace, and the servo requests, oldest first.\<close>

fun goals :: "out list \<Rightarrow> vec3 list" where
  "goals [] = []"
| "goals (PubGoal t p # ms) = p # goals ms"
| "goals (_ # ms) = goals ms"

fun servo_calls :: "out list \<Rightarrow> int list" where
  "servo_calls [] = []"
| "servo_calls (CallServo n # ms) = n # servo_calls ms"
| "servo_calls (_ # ms) = servo_calls ms"

lemma goals_append [simp]: "goals (xs @ ys) = goals xs @ goals ys"
  by (induction xs rule: goals.induct) auto

lemma servo_calls_append [simp]: "servo_calls (xs @ ys) = servo_calls xs @ servo_calls ys"
  by (induction xs rule: servo_calls.induct) auto

section \<open>The invariant\<close>

definition mission_inv :: "fsm \<Rightarrow> bool" where
  "mission_inv s \<longleftrightarrow>
     length (target_points s) = 50 \<and> length (if_do_put s) = 4 \<and> target_point_num s \<le> 50
   \<and> 0 \<le> target_id s \<and> target_id s \<le> max 5 (target_point_num s)
   \<and> goals (published s) = take (nat (target_id s)) (target_points s)
   \<and> (do_land s \<longrightarrow> target_id s = target_point_num s \<and> 5 \<le> target_point_num s)
   \<and> (fsm_state s = LAND \<longrightarrow> do_land s \<and> mission_timer s)
   \<and> (fsm_state s = EXEC_MISSION \<longrightarrow>
        (mission_action s = DROP_LAND \<longrightarrow> do_land s)
      \<and> (mission_action s \<noteq> YOLO_INIT \<longrightarrow> mission_timer s)
      \<and> (\<not> do_land s \<and> mission_action s \<noteq> RISE \<longrightarrow> 1 \<le> put_servo_id s))
   \<and> put_servo_id s \<le> 3"

lemmas op_defs = publish_def changeFSMState_def changeMissionAction_def pubNewTarget_def
  startMissionTimer_def stopMissionTimer_def missionTimer_loop_Callback_def checkPOS_def
  track_def start_mission_def

lemmas callback_defs = px4_state_Callback_def ego_init_Callback_def odomCallback_def
  quadmsgCallback_def

lemma take_nat_step:
  "0 \<le> i \<Longrightarrow> i < int (length xs) \<Longrightarrow> take (nat (i + 1)) xs = take (nat i) xs @ [xs ! nat i]"
  by (simp add: nat_add_distrib take_Suc_conv_app_nth zless_nat_eq_int_zless nat_less_iff)

lemma inv_loop_entry: "mission_inv s \<Longrightarrow> mission_inv (loop_entry e s)"
  by (simp add: mission_inv_def loop_entry_def checkPOS_def Let_def)

lemma inv_case_INIT: "mission_inv s \<Longrightarrow> fsm_state s = INIT \<Longrightarrow> mission_inv (case_INIT s)"
  by (simp add: mission_inv_def case_INIT_def op_defs)

lemma inv_case_TAKING_OFF:
  "mission_inv s \<Longrightarrow> fsm_state s = TAKING_OFF \<Longrightarrow> mission_inv (case_TAKING_OFF e s)"
  by (simp add: mission_inv_def case_TAKING_OFF_def request_offboard_def op_defs Let_def)

lemma inv_case_LAND: "mission_inv s \<Longrightarrow> fsm_state s = LAND \<Longrightarrow> mission_inv (case_LAND e s)"
  by (auto simp add: mission_inv_def case_LAND_def op_defs)

lemma inv_case_TRACKING:
  "mission_inv s \<Longrightarrow> fsm_state s = TRACKING \<Longrightarrow> mission_inv (case_TRACKING e s)"
  by (simp add: mission_inv_def case_TRACKING_def op_defs Let_def)

lemma inv_next_target:
  "mission_inv s \<Longrightarrow> fsm_state s = HOLD \<Longrightarrow>
   target_id s \<le> 4 \<or> target_id s < target_point_num s \<Longrightarrow>
   next_target e s = Inr t \<Longrightarrow> mission_inv t"
  by (auto simp: mission_inv_def next_target_def target_point_def op_defs take_nat_step
      split: if_splits)

lemma next_target_ok:
  "mission_inv s \<Longrightarrow> target_id s \<le> 4 \<or> target_id s < target_point_num s \<Longrightarrow>
   \<exists>t. next_target e s = Inr t"
  by (auto simp: mission_inv_def next_target_def target_point_def)

lemma drop_due_ok:
  "mission_inv s \<Longrightarrow> 1 \<le> target_id s \<Longrightarrow> target_id s \<le> 4 \<Longrightarrow> \<exists>b. drop_due s = Inr b"
  by (auto simp: mission_inv_def drop_due_def do_put_at_def)

lemma drop_due_True: "drop_due s = Inr True \<Longrightarrow> do_mission s \<and> 1 \<le> put_servo_id s"
  by (auto simp: drop_due_def split: if_splits)

lemma inv_publish_PubPx4 [simp]: "mission_inv (publish (PubPx4 p) s) = mission_inv s"
  by (simp add: mission_inv_def publish_def)

lemma publish_sel [simp]:
  "fsm_state (publish m s) = fsm_state s" "target_id (publish m s) = target_id s"
  "target_point_num (publish m s) = target_point_num s" "do_land (publish m s) = do_land s"
  "ego_init (publish m s) = ego_init s" "last_pub_time (publish m s) = last_pub_time s"
  "do_mission (publish m s) = do_mission s" "put_servo_id (publish m s) = put_servo_id s"
  "published (publish m s) = published s @ [m]" "hold_pose (publish m s) = hold_pose s"
  "mission_action (publish m s) = mission_action s" "mission_timer (publish m s) = mission_timer s"
  "target_points (publish m s) = target_points s"
  by (simp_all add: publish_def)

lemma inv_first_target:
  "mission_inv s \<Longrightarrow> fsm_state s = HOLD \<Longrightarrow> target_id s = 0 \<Longrightarrow>
   target_point s (target_id s) = Inr p \<Longrightarrow>
   mission_inv ((pubNewTarget t p s)\<lparr>last_pub_time := t', target_id := target_id s + 1\<rparr>)"
  by (auto simp: mission_inv_def target_point_def op_defs take_Suc_conv_app_nth split: if_splits)

lemma inv_start_drop:
  "mission_inv s \<Longrightarrow> fsm_state s = HOLD \<Longrightarrow> drop_due s = Inr True \<Longrightarrow> mission_inv (start_mission s)"
  by (auto simp: mission_inv_def op_defs dest: drop_due_True)

lemma inv_start_landing:
  "mission_inv s \<Longrightarrow> fsm_state s = HOLD \<Longrightarrow> 4 < target_id s \<Longrightarrow>
   target_id s = target_point_num s \<Longrightarrow> mission_inv (start_mission (s\<lparr>do_land := True\<rparr>))"
  by (auto simp: mission_inv_def op_defs)

text \<open>The case HOLD, by the position in the list of targets.\<close>

lemma hold_decide_simps:
  "\<not> ego_init s \<or> target_point_num s < 1 \<Longrightarrow> hold_decide e s = Inr s"
  "ego_init s \<Longrightarrow> 1 \<le> target_point_num s \<Longrightarrow> target_id s = 0 \<Longrightarrow>
     hold_decide e s = bind_result (target_point s (target_id s))
       (\<lambda>p. Inr ((pubNewTarget (now e 1) p s)\<lparr>last_pub_time := now e 2, target_id := target_id s + 1\<rparr>))"
  "ego_init s \<Longrightarrow> 1 \<le> target_point_num s \<Longrightarrow> target_id s \<noteq> 0 \<Longrightarrow> target_id s \<le> 4 \<Longrightarrow>
     hold_decide e s = (if now e 1 - last_pub_time s < 2 then Inr s
         else bind_result (drop_due s)
                (\<lambda>due. if due then Inr (start_mission s) else next_target e s))"
  "ego_init s \<Longrightarrow> 1 \<le> target_point_num s \<Longrightarrow> 4 < target_id s \<Longrightarrow> target_id s < target_point_num s \<Longrightarrow>
     hold_decide e s = (if now e 1 - last_pub_time s < 2 then Inr s else next_target e s)"
  "ego_init s \<Longrightarrow> 4 < target_id s \<Longrightarrow> target_id s = target_point_num s \<Longrightarrow>
     hold_decide e s = (if now e 1 - last_pub_time s < 2 then Inr s
         else Inr (start_mission (s\<lparr>do_land := True\<rparr>)))"
  "4 < target_id s \<Longrightarrow> target_point_num s < target_id s \<Longrightarrow> hold_decide e s = Inr s"
  by (simp_all add: hold_decide_def)

text \<open>The ways out of the case HOLD, once the hold set-point went out.\<close>

lemma hold_decide_cases:
  assumes "hold_decide e s = Inr t"
  obtains (wait) "t = s"
  | (first) p where "target_id s = 0" "target_point s (target_id s) = Inr p"
      "t = (pubNewTarget (now e 1) p s)\<lparr>last_pub_time := now e 2, target_id := target_id s + 1\<rparr>"
  | (drop) "target_id s \<noteq> 0" "target_id s \<le> 4" "2 \<le> now e 1 - last_pub_time s"
      "drop_due s = Inr True" "t = start_mission s"
  | (more) "target_id s \<noteq> 0" "target_id s \<le> 4 \<or> target_id s < target_point_num s"
      "2 \<le> now e 1 - last_pub_time s" "next_target e s = Inr t"
  | (land) "4 < target_id s" "target_id s = target_point_num s"
      "2 \<le> now e 1 - last_pub_time s" "t = start_mission (s\<lparr>do_land := True\<rparr>)"
proof -
  consider (a) "\<not> ego_init s \<or> target_point_num s < 1"
    | (b) "ego_init s" "1 \<le> target_point_num s" "target_id s = 0"
    | (c) "ego_init s" "1 \<le> target_point_num s" "target_id s \<noteq> 0" "target_id s \<le> 4"
    | (d) "ego_init s" "1 \<le> target_point_num s" "4 < target_id s" "target_id s < target_point_num s"
    | (e) "ego_init s" "4 < target_id s" "target_id s = target_point_num s"
    | (f) "4 < target_id s" "target_point_num s < target_id s"
    by linarith
  then show thesis
  proof cases
    case a
    from assms hold_decide_simps(1) [OF a] show thesis by (intro wait) simp
  next
    case b
    from assms hold_decide_simps(2) [OF b] show thesis by (auto intro: first [OF b(3)])
  next
    case c
    from assms hold_decide_simps(3) [OF c] show thesis
      by (auto split: if_splits intro: wait drop [OF c(3,4)] more [OF c(3)] simp: c(4))
  next
    case d
    from assms hold_decide_simps(4) [OF d] d(3,4) show thesis
      by (auto split: if_splits intro: wait more)
  next
    case e
    from assms hold_decide_simps(5) [OF e] show thesis
      by (auto split: if_splits intro: wait land [OF e(2,3)])
  next
    case f
    from assms hold_decide_simps(6) [OF f] show thesis by (intro wait) simp
  qed
qed

lemma inv_hold_decide:
  assumes inv: "mission_inv s" and st: "fsm_state s = HOLD" and t: "hold_decide e s = Inr t"
  shows "mission_inv t"
  using t
proof (cases rule: hold_decide_cases)
  case wait
  with inv show ?thesis by simp
next
  case (first p)
  with inv_first_target [OF inv st] show ?thesis by simp
next
  case drop
  with inv_start_drop [OF inv st] show ?thesis by simp
next
  case more
  with inv_next_target [OF inv st] show ?thesis by simp
next
  case land
  with inv_start_landing [OF inv st] show ?thesis by simp
qed

lemma inv_case_HOLD:
  "mission_inv s \<Longrightarrow> fsm_state s = HOLD \<Longrightarrow> case_HOLD e s = Inr t \<Longrightarrow> mission_inv t"
  unfolding case_HOLD_def by (rule inv_hold_decide) simp_all

lemma hold_decide_ok:
  assumes inv: "mission_inv s"
  shows "\<exists>t. hold_decide e s = Inr t"
proof -
  from inv have id: "0 \<le> target_id s" by (simp add: mission_inv_def)
  have nxt: "\<exists>t. next_target e s = Inr t" if "target_id s \<le> 4 \<or> target_id s < target_point_num s"
    using next_target_ok [OF inv that] by blast
  consider (a) "\<not> ego_init s \<or> target_point_num s < 1"
    | (b) "ego_init s" "1 \<le> target_point_num s" "target_id s = 0"
    | (c) "ego_init s" "1 \<le> target_point_num s" "target_id s \<noteq> 0" "target_id s \<le> 4"
    | (d) "ego_init s" "1 \<le> target_point_num s" "4 < target_id s" "target_id s < target_point_num s"
    | (e) "ego_init s" "4 < target_id s" "target_id s = target_point_num s"
    | (f) "4 < target_id s" "target_point_num s < target_id s"
    by linarith
  then show ?thesis
  proof cases
    case b
    have "\<exists>p. target_point s 0 = Inr p"
      using inv by (auto simp: mission_inv_def target_point_def)
    with hold_decide_simps(2) [OF b] b(3) show ?thesis by auto
  next
    case c
    obtain b where "drop_due s = Inr b"
      using drop_due_ok [OF inv] c id by auto
    with nxt hold_decide_simps(3) [OF c] c(4) show ?thesis by (cases b) auto
  qed (use nxt hold_decide_simps [of s e] in auto)
qed

lemma case_HOLD_ok: "mission_inv s \<Longrightarrow> \<exists>t. case_HOLD e s = Inr t"
  by (simp add: case_HOLD_def hold_decide_ok)

section \<open>The mission keeps the invariant\<close>

lemma inv_mission_YOLO_INIT:
  "mission_inv s \<Longrightarrow> fsm_state s = EXEC_MISSION \<Longrightarrow> mission_action s = YOLO_INIT \<Longrightarrow>
   mission_inv (mission_YOLO_INIT e s)"
  by (auto simp: mission_inv_def mission_YOLO_INIT_def op_defs)

lemma updatepnpPos_frame [simp]:
  "fsm_state (updatepnpPos t dx dy s) = fsm_state s"
  "mission_action (updatepnpPos t dx dy s) = mission_action s"
  "target_id (updatepnpPos t dx dy s) = target_id s"
  "target_point_num (updatepnpPos t dx dy s) = target_point_num s"
  "target_points (updatepnpPos t dx dy s) = target_points s"
  "if_do_put (updatepnpPos t dx dy s) = if_do_put s"
  "do_land (updatepnpPos t dx dy s) = do_land s"
  "do_mission (updatepnpPos t dx dy s) = do_mission s"
  "do_put (updatepnpPos t dx dy s) = do_put s"
  "mission_timer (updatepnpPos t dx dy s) = mission_timer s"
  "put_servo_id (updatepnpPos t dx dy s) = put_servo_id s"
  "published (updatepnpPos t dx dy s) = published s"
  "have_adjusted (updatepnpPos t dx dy s) = have_adjusted s"
  "detect_overtime (updatepnpPos t dx dy s) = detect_overtime s"
  "overtime_t (updatepnpPos t dx dy s) = overtime_t s"
  "nn (updatepnpPos t dx dy s) = nn s"
  "hold_time (updatepnpPos t dx dy s) = hold_time s"
  "odom_pos (updatepnpPos t dx dy s) = odom_pos s"
  "yolo_detect (updatepnpPos t dx dy s) = yolo_detect s"
  by (simp_all add: updatepnpPos_def Let_def)

text \<open>
  What the detection branch of ADJUST and the other mission steps change, as a relation on the
  fields the invariant reads: the action moves, nothing else does.
\<close>

definition mission_frame :: "fsm \<Rightarrow> fsm \<Rightarrow> bool" where
  "mission_frame s t \<longleftrightarrow>
     target_points t = target_points s \<and> if_do_put t = if_do_put s
   \<and> target_point_num t = target_point_num s \<and> target_id t = target_id s
   \<and> goals (published t) = goals (published s) \<and> do_land t = do_land s
   \<and> do_mission t = do_mission s \<and> do_put t = do_put s"

lemma mission_frame_refl [simp]: "mission_frame s s"
  by (simp add: mission_frame_def)

lemma inv_mission_frame:
  "mission_inv s \<Longrightarrow> mission_frame s t \<Longrightarrow> put_servo_id t \<le> 3 \<Longrightarrow>
   fsm_state s = EXEC_MISSION \<Longrightarrow>
   (fsm_state t = LAND \<longrightarrow> do_land s \<and> mission_timer t) \<Longrightarrow>
   (fsm_state t = EXEC_MISSION \<longrightarrow>
      (mission_action t = DROP_LAND \<longrightarrow> do_land s)
    \<and> (mission_action t \<noteq> YOLO_INIT \<longrightarrow> mission_timer t)
    \<and> (\<not> do_land s \<and> mission_action t \<noteq> RISE \<longrightarrow> 1 \<le> put_servo_id t)) \<Longrightarrow> mission_inv t"
  by (simp add: mission_inv_def mission_frame_def)

lemma inv_exec:
  assumes "mission_inv s" "fsm_state s = EXEC_MISSION"
  shows "put_servo_id s \<le> 3" "mission_action s = DROP_LAND \<Longrightarrow> do_land s"
    "mission_action s \<noteq> YOLO_INIT \<Longrightarrow> mission_timer s"
    "\<not> do_land s \<Longrightarrow> mission_action s \<noteq> RISE \<Longrightarrow> 1 \<le> put_servo_id s"
  using assms by (simp_all add: mission_inv_def)

lemma adjust_detected_frame:
  "mission_frame s (snd (adjust_detected e r s))"
  "put_servo_id (snd (adjust_detected e r s)) = put_servo_id s"
  "fsm_state (snd (adjust_detected e r s)) = fsm_state s"
  "mission_timer (snd (adjust_detected e r s)) = mission_timer s"
  "published (snd (adjust_detected e r s)) = published s"
  "mission_action (snd (adjust_detected e r s)) \<in> {mission_action s, DROP}
   \<or> (mission_action (snd (adjust_detected e r s)) = DROP_LAND \<and> do_land s)"
  by (auto simp: adjust_detected_def mission_frame_def op_defs Let_def)

lemma adjust_overtime_frame:
  "mission_frame s (adjust_overtime s)"
  "put_servo_id (adjust_overtime s) = put_servo_id s"
  "fsm_state (adjust_overtime s) = fsm_state s"
  "mission_timer (adjust_overtime s) = mission_timer s"
  "published (adjust_overtime s) = published s"
  "mission_action (adjust_overtime s) \<in> {mission_action s, DROP}"
  by (auto simp: adjust_overtime_def mission_frame_def changeMissionAction_def)

lemma mission_frame_trans: "mission_frame s t \<Longrightarrow> mission_frame t u \<Longrightarrow> mission_frame s u"
  by (simp add: mission_frame_def)

lemma mission_ADJUST_frame:
  "mission_frame s (mission_ADJUST e s)"
  "put_servo_id (mission_ADJUST e s) = put_servo_id s"
  "fsm_state (mission_ADJUST e s) = fsm_state s"
  "mission_timer (mission_ADJUST e s) = mission_timer s"
  "published (mission_ADJUST e s) = published s @ [CallYolo]"
  "mission_action (mission_ADJUST e s) \<in> {mission_action s, DROP}
   \<or> (mission_action (mission_ADJUST e s) = DROP_LAND \<and> do_land s)"
proof -
  define s0 where "s0 = publish CallYolo s"
  define bs where "bs = adjust_detect e s0"
  have res: "mission_ADJUST e s = (if fst bs then snd bs else adjust_overtime (snd bs))"
    by (simp add: mission_ADJUST_def s0_def bs_def case_prod_beta)
  have s0: "mission_frame s s0" "put_servo_id s0 = put_servo_id s" "fsm_state s0 = fsm_state s"
    "mission_timer s0 = mission_timer s" "published s0 = published s @ [CallYolo]"
    "mission_action s0 = mission_action s" "do_land s0 = do_land s"
    by (simp_all add: s0_def mission_frame_def publish_def)
  have bs: "mission_frame s0 (snd bs)" "put_servo_id (snd bs) = put_servo_id s0"
    "fsm_state (snd bs) = fsm_state s0" "mission_timer (snd bs) = mission_timer s0"
    "published (snd bs) = published s0"
    "mission_action (snd bs) \<in> {mission_action s0, DROP} \<or> (mission_action (snd bs) = DROP_LAND \<and> do_land s0)"
    using adjust_detected_frame [where s = s0 and e = e]
    by (simp_all add: bs_def adjust_detect_def mission_frame_def split: option.split)
  note ov = adjust_overtime_frame [where s = "snd bs"]
  have sbs: "mission_frame s (snd bs)" using s0(1) bs(1) by (rule mission_frame_trans)
  show "mission_frame s (mission_ADJUST e s)"
    using sbs mission_frame_trans [OF sbs ov(1)] by (simp add: res)
  show "put_servo_id (mission_ADJUST e s) = put_servo_id s"
    "fsm_state (mission_ADJUST e s) = fsm_state s"
    "mission_timer (mission_ADJUST e s) = mission_timer s"
    "published (mission_ADJUST e s) = published s @ [CallYolo]"
    using s0 bs ov by (simp_all add: res)
  show "mission_action (mission_ADJUST e s) \<in> {mission_action s, DROP}
   \<or> (mission_action (mission_ADJUST e s) = DROP_LAND \<and> do_land s)"
    using s0 bs ov by (auto simp: res)
qed

lemma inv_mission_ADJUST:
  assumes "mission_inv s" "fsm_state s = EXEC_MISSION" "mission_action s = ADJUST"
  shows "mission_inv (mission_ADJUST e s)"
proof -
  note f = mission_ADJUST_frame [where s = s and e = e] and i = inv_exec [OF assms(1,2)]
  show ?thesis
    by (rule inv_mission_frame [OF assms(1) f(1) _ assms(2)]) (use f(2-) i assms(2,3) in auto)
qed

lemma mission_DROP_frame:
  "mission_frame s (mission_DROP e s)"
  "put_servo_id (mission_DROP e s) = put_servo_id s"
  "fsm_state (mission_DROP e s) = fsm_state s"
  "mission_timer (mission_DROP e s) = mission_timer s"
  "published (mission_DROP e s) = published s @ [CallYolo]"
  "mission_action (mission_DROP e s) \<in> {mission_action s, PUT}"
  by (auto simp: mission_DROP_def mission_frame_def publish_def changeMissionAction_def Let_def
      split: option.split)

lemma inv_mission_DROP:
  assumes "mission_inv s" "fsm_state s = EXEC_MISSION" "mission_action s = DROP"
  shows "mission_inv (mission_DROP e s)"
proof -
  note f = mission_DROP_frame [where s = s and e = e] and i = inv_exec [OF assms(1,2)]
  show ?thesis
    by (rule inv_mission_frame [OF assms(1) f(1) _ assms(2)]) (use f(2-) i assms(2,3) in auto)
qed

lemma inv_mission_RISE:
  "mission_inv s \<Longrightarrow> fsm_state s = EXEC_MISSION \<Longrightarrow> mission_action s = RISE \<Longrightarrow>
   mission_inv (mission_RISE e s)"
  by (simp add: mission_inv_def mission_RISE_def op_defs Let_def)

lemma inv_mission_PUT:
  "mission_inv s \<Longrightarrow> fsm_state s = EXEC_MISSION \<Longrightarrow> mission_action s = PUT \<Longrightarrow>
   mission_inv (mission_PUT e s)"
  by (auto simp add: mission_inv_def mission_PUT_def op_defs Let_def)

lemma mission_DROP_LAND_frame:
  "mission_frame s (mission_DROP_LAND e s)"
  "put_servo_id (mission_DROP_LAND e s) = put_servo_id s"
  "fsm_state (mission_DROP_LAND e s) \<in> {fsm_state s, LAND}"
  "mission_timer (mission_DROP_LAND e s) = mission_timer s"
  "published (mission_DROP_LAND e s) = published s @ [CallYolo]"
  "mission_action (mission_DROP_LAND e s) = mission_action s"
  by (auto simp: mission_DROP_LAND_def mission_frame_def publish_def changeFSMState_def Let_def
      split: option.split)

lemma inv_mission_DROP_LAND:
  assumes "mission_inv s" "fsm_state s = EXEC_MISSION" "mission_action s = DROP_LAND"
  shows "mission_inv (mission_DROP_LAND e s)"
proof -
  note f = mission_DROP_LAND_frame [where s = s and e = e] and i = inv_exec [OF assms(1,2)]
  show ?thesis
    by (rule inv_mission_frame [OF assms(1) f(1) _ assms(2)]) (use f(2-) i assms(2,3) in auto)
qed

lemma inv_case_EXEC_MISSION:
  "mission_inv s \<Longrightarrow> fsm_state s = EXEC_MISSION \<Longrightarrow> mission_inv (case_EXEC_MISSION e s)"
  by (cases "mission_action s")
    (simp_all add: case_EXEC_MISSION_def inv_mission_YOLO_INIT inv_mission_ADJUST inv_mission_DROP
      inv_mission_RISE inv_mission_PUT inv_mission_DROP_LAND)

section \<open>Every event keeps the invariant, and none is undefined\<close>

lemma inv_loop:
  assumes "mission_inv s" "fsm_state_loopCallback e s = Inr t"
  shows "mission_inv t"
proof -
  have inv: "mission_inv (loop_entry e s)" using assms(1) by (rule inv_loop_entry)
  show ?thesis
    using assms(2) inv
    by (cases "fsm_state (loop_entry e s)")
      (auto simp: fsm_state_loopCallback_def Let_def intro: inv_case_INIT inv_case_TAKING_OFF
        inv_case_HOLD inv_case_EXEC_MISSION inv_case_LAND inv_case_TRACKING)
qed

lemma loop_ok:
  assumes "mission_inv s"
  shows "\<exists>t. fsm_state_loopCallback e s = Inr t"
  using case_HOLD_ok [OF inv_loop_entry [OF assms, of e], of e]
  by (auto simp: fsm_state_loopCallback_def Let_def split: fsm_state.split)

lemma inv_callbacks:
  "mission_inv s \<Longrightarrow> mission_inv (missionTimer_loop_Callback s)"
  "mission_inv s \<Longrightarrow> mission_inv (px4_state_Callback m s)"
  "mission_inv s \<Longrightarrow> mission_inv (ego_init_Callback d s)"
  "mission_inv s \<Longrightarrow> mission_inv (odomCallback o' s)"
  "mission_inv s \<Longrightarrow> mission_inv (quadmsgCallback c s)"
  by (auto simp: mission_inv_def missionTimer_loop_Callback_def publish_def callback_defs
      changeFSMState_def Let_def)

interpretation mission: safe_machine mission_handle "\<lambda>_. True" mission_inv
proof
  fix s ev t
  assume "mission_inv s" "mission_handle ev s = Inr t"
  then show "mission_inv t"
    by (cases ev) (auto intro: inv_loop inv_callbacks)
next
  fix s ev
  assume "mission_inv s"
  then show "\<exists>t. mission_handle ev s = Inr t"
    by (cases ev) (auto intro: loop_ok)
qed

section \<open>The constructed controller\<close>

text \<open>
  The memory \<open>fsm::init\<close> works on: the arrays have the sizes the class declares, nothing was
  published, and everything else is arbitrary.
\<close>

definition fresh :: "fsm \<Rightarrow> bool" where
  "fresh s0 \<longleftrightarrow> length (target_points s0) = 50 \<and> length (if_do_put s0) = 4 \<and> published s0 = []"

lemma init_constants_sel [simp]:
  "target_points (init_constants yaml t s0) = target_points s0"
  "published (init_constants yaml t s0) = published s0"
  "put_servo_id (init_constants yaml t s0) = 3" "do_land (init_constants yaml t s0) = False"
  "if_do_put (init_constants yaml t s0) = readYamlAndUpdateConfig yaml (if_do_put s0)"
  by (simp_all add: init_constants_def)

lemma init_params_sel [simp]:
  "target_points (init_params ps s) = target_points s" "published (init_params ps s) = published s"
  "put_servo_id (init_params ps s) = put_servo_id s" "do_land (init_params ps s) = do_land s"
  "if_do_put (init_params ps s) = if_do_put s"
  "target_point_num (init_params ps s) = param (p_int ps) ''target_point_num_'' (-1)"
  by (simp_all add: init_params_def)

lemma readYaml_length: "length (readYamlAndUpdateConfig yaml dp) = length dp \<or> length (readYamlAndUpdateConfig yaml dp) = 4"
  by (simp add: readYamlAndUpdateConfig_def split: option.split)

lemma fsm_init_cases:
  assumes "fsm_init ps yaml t s0 = Inr s" "fresh s0"
  shows "mission_inv s" "fsm_state s = INIT" "target_id s = 0" "put_servo_id s = 3" "published s = []"
    "target_point_num s = param (p_int ps) ''target_point_num_'' (-1)"
    "read_target_points ps 0 (nat (target_point_num s)) (target_points s0) = Inr (target_points s)"
proof -
  from assms obtain pts where
    pts: "read_target_points ps 0 (nat (param (p_int ps) ''target_point_num_'' (-1))) (target_points s0) = Inr pts"
    and s: "s = (init_params ps (init_constants yaml t s0))
        \<lparr>target_points := pts, target_id := 0, mission_action := YOLO_INIT, fsm_state := INIT\<rparr>"
    by (auto simp: fsm_init_def Let_def)
  have n: "param (p_int ps) ''target_point_num_'' (-1) \<le> 50"
    using read_target_points_ok_iff [of ps 0 "nat (param (p_int ps) ''target_point_num_'' (-1))" "target_points s0"]
      pts assms(2) by (auto simp: fresh_def)
  have len: "length (readYamlAndUpdateConfig yaml (if_do_put s0)) = 4"
    using readYaml_length [of yaml "if_do_put s0"] assms(2) by (auto simp: fresh_def)
  show "mission_inv s"
    using n len read_target_points_length [OF pts] assms(2)
    by (simp add: s mission_inv_def fresh_def)
  show "fsm_state s = INIT" "target_id s = 0" "put_servo_id s = 3" "published s = []"
    "target_point_num s = param (p_int ps) ''target_point_num_'' (-1)"
    "read_target_points ps 0 (nat (target_point_num s)) (target_points s0) = Inr (target_points s)"
    using pts assms(2) by (simp_all add: s fresh_def)
qed

end
