(* ===== verification/MissionDynamics.thy ===== *)
theory MissionDynamics
  imports MissionInv
begin

text \<open>
  One event at a time: which transitions the mission controller can make, when it sends a goal,
  when it asks a servo to release a payload, and how far the visual servoing moves a set-point.
\<close>

section \<open>The loop on entry\<close>

lemma loop_entry_sel [simp]:
  "fsm_state (loop_entry e s) = fsm_state s" "mission_action (loop_entry e s) = mission_action s"
  "published (loop_entry e s) = published s" "target_id (loop_entry e s) = target_id s"
  "target_points (loop_entry e s) = target_points s" "put_servo_id (loop_entry e s) = put_servo_id s"
  "target_point_num (loop_entry e s) = target_point_num s" "do_put (loop_entry e s) = do_put s"
  "do_land (loop_entry e s) = do_land s" "do_mission (loop_entry e s) = do_mission s"
  "hold_time (loop_entry e s) = hold_time s" "last_pub_time (loop_entry e s) = last_pub_time s"
  "odom_pos (loop_entry e s) = odom_pos s" "ego_init (loop_entry e s) = ego_init s"
  "mission_timer (loop_entry e s) = mission_timer s" "mission_pose (loop_entry e s) = mission_pose s"
  "overtime_t (loop_entry e s) = overtime_t s" "overtime_thre1 (loop_entry e s) = overtime_thre1 s"
  "overtime_thre2 (loop_entry e s) = overtime_thre2 s" "pnp_limit (loop_entry e s) = pnp_limit s"
  "nn (loop_entry e s) = nn s" "put_height (loop_entry e s) = put_height s"
  "hold_height (loop_entry e s) = hold_height s" "have_odom (loop_entry e s) = have_odom s"
  "px4_current_state (loop_entry e s) = px4_current_state s"
  "takeoff_pos (loop_entry e s) = takeoff_pos s" "have_just_put (loop_entry e s) = have_just_put s"
  "if_do_put (loop_entry e s) = if_do_put s" "hold_pose (loop_entry e s) = hold_pose s"
  "cur_target (loop_entry e s) = cur_target s"
  "pause_track (loop_entry e s) \<longleftrightarrow> vnorm (vsub (odom_pos s) (cur_target s)) < 1/2"
  by (simp_all add: loop_entry_def checkPOS_def Let_def)

section \<open>The transition diagram\<close>

text \<open>
  The specification of the controller's modes: \<open>mission_edge s ev q\<close> allows the event \<open>ev\<close>
  to take the controller from state \<open>s\<close> to the mode \<open>q\<close>.
\<close>

inductive mission_edge :: "fsm \<Rightarrow> mission_event \<Rightarrow> fsm_state \<Rightarrow> bool" where
  ready: "fsm_state s = INIT \<Longrightarrow> connected (px4_current_state s) \<Longrightarrow> have_odom s \<Longrightarrow>
     mission_edge s (Loop e) TAKING_OFF"
| airborne: "fsm_state s = TAKING_OFF \<Longrightarrow> vnorm (vsub (odom_pos s) (takeoff_pos s)) < 3/10 \<Longrightarrow>
     mission_edge s (Loop e) HOLD"
| drop_here: "fsm_state s = HOLD \<Longrightarrow> ego_init s \<Longrightarrow> do_mission s \<Longrightarrow> \<not> have_just_put s \<Longrightarrow>
     1 \<le> put_servo_id s \<Longrightarrow> target_id s \<in> {1..4} \<Longrightarrow> if_do_put s ! nat (target_id s - 1) \<Longrightarrow>
     2 \<le> now e 1 - last_pub_time s \<Longrightarrow> mission_edge s (Loop e) EXEC_MISSION"
| go_landing: "fsm_state s = HOLD \<Longrightarrow> ego_init s \<Longrightarrow> target_id s = target_point_num s \<Longrightarrow>
     5 \<le> target_id s \<Longrightarrow> 2 \<le> now e 1 - last_pub_time s \<Longrightarrow> mission_edge s (Loop e) EXEC_MISSION"
| follow: "fsm_state s = HOLD \<Longrightarrow> \<not> pause_track s \<Longrightarrow> mission_edge s (QuadMsg c) TRACKING"
| arrived: "fsm_state s = TRACKING \<Longrightarrow> vnorm (vsub (odom_pos s) (cur_target s)) < 1/2 \<Longrightarrow>
     mission_edge s (Loop e) HOLD"
| drop_done: "fsm_state s = EXEC_MISSION \<Longrightarrow> mission_action s = RISE \<Longrightarrow>
     \<bar>vz (odom_pos s) - hold_height s\<bar> < 1/10 \<Longrightarrow> mission_edge s (Loop e) HOLD"
| touch_down: "fsm_state s = EXEC_MISSION \<Longrightarrow> mission_action s = DROP_LAND \<Longrightarrow>
     yolo_reply e \<noteq> None \<Longrightarrow> 5 \<le> now e 5 - hold_time s \<Longrightarrow> mission_edge s (Loop e) LAND"

inductive_simps mission_edge_Loop: "mission_edge s (Loop e) q"
inductive_simps mission_edge_QuadMsg: "mission_edge s (QuadMsg c) q"
inductive_cases mission_edge_INITE: "mission_edge s ev INIT"

lemma edge_hold_decide:
  assumes t: "hold_decide e (publish (PubPx4 p) (loop_entry e s)) = Inr t"
    and st: "fsm_state s = HOLD" and ne: "fsm_state t \<noteq> HOLD" and id: "0 \<le> target_id s"
  shows "fsm_state t = EXEC_MISSION \<and> mission_edge s (Loop e) EXEC_MISSION"
proof -
  let ?u = "publish (PubPx4 p) (loop_entry e s)"
  have ego: "ego_init s"
  proof (rule ccontr)
    assume "\<not> ego_init s"
    with t hold_decide_simps(1) [of ?u e] have "t = ?u" by simp
    with ne st show False by simp
  qed
  from t show ?thesis
  proof (cases rule: hold_decide_cases)
    case wait
    with st ne show ?thesis by simp
  next
    case (first x)
    with st ne show ?thesis by (simp add: op_defs)
  next
    case drop
    from drop(4) have "do_mission s" "\<not> have_just_put s" "1 \<le> put_servo_id s"
      "if_do_put s ! nat (target_id s - 1)"
      by (auto simp: drop_due_def do_put_at_def publish_def split: if_splits)
    moreover have "target_id s \<in> {1..4}" using drop(1,2) id by auto
    ultimately show ?thesis
      using drop st ego by (auto simp: op_defs mission_edge_Loop)
  next
    case more
    with st ne show ?thesis by (auto simp: next_target_def op_defs)
  next
    case land
    with st ego show ?thesis by (auto simp: op_defs mission_edge_Loop)
  qed
qed

lemma edge_exec:
  assumes "fsm_state s = EXEC_MISSION" "fsm_state (case_EXEC_MISSION e (loop_entry e s)) \<noteq> EXEC_MISSION"
  shows "mission_edge s (Loop e) (fsm_state (case_EXEC_MISSION e (loop_entry e s)))"
proof (cases "mission_action s")
  case YOLO_INIT
  with assms show ?thesis by (simp add: case_EXEC_MISSION_def mission_YOLO_INIT_def op_defs)
next
  case ADJUST
  with assms show ?thesis by (simp add: case_EXEC_MISSION_def mission_ADJUST_frame)
next
  case DROP
  with assms show ?thesis by (simp add: case_EXEC_MISSION_def mission_DROP_frame)
next
  case RISE
  with assms show ?thesis
    by (auto simp: case_EXEC_MISSION_def mission_RISE_def op_defs Let_def mission_edge_Loop split: if_splits)
next
  case PUT
  with assms show ?thesis
    by (auto simp: case_EXEC_MISSION_def mission_PUT_def op_defs Let_def split: if_splits)
next
  case DROP_LAND
  with assms show ?thesis
    by (auto simp: case_EXEC_MISSION_def mission_DROP_LAND_def op_defs Let_def mission_edge_Loop
        split: if_splits option.splits)
qed

lemma mission_follows_edge:
  assumes inv: "mission_inv s" and t: "mission_handle ev s = Inr t"
    and ne: "fsm_state t \<noteq> fsm_state s"
  shows "mission_edge s ev (fsm_state t)"
proof (cases ev)
  case (Loop e)
  note lp = t [unfolded Loop mission_handle.simps fsm_state_loopCallback_def Let_def]
  show ?thesis
  proof (cases "fsm_state s")
    case INIT
    with lp ne Loop show ?thesis
      by (auto simp: case_INIT_def op_defs mission_edge_Loop split: if_splits)
  next
    case TAKING_OFF
    with lp ne Loop show ?thesis
      by (auto simp: case_TAKING_OFF_def request_offboard_def op_defs mission_edge_Loop Let_def
          split: if_splits)
  next
    case LAND
    with lp ne Loop show ?thesis
      by (auto simp: case_LAND_def op_defs split: if_splits)
  next
    case HOLD
    with lp have "hold_decide e (publish (PubPx4 (hold_pose (loop_entry e s))) (loop_entry e s)) = Inr t"
      by (simp add: case_HOLD_def)
    from edge_hold_decide [OF this HOLD] ne HOLD inv Loop show ?thesis
      by (auto simp: mission_inv_def)
  next
    case EXEC_MISSION
    with lp have "t = case_EXEC_MISSION e (loop_entry e s)" by simp
    with edge_exec [OF EXEC_MISSION] ne EXEC_MISSION Loop show ?thesis by simp
  next
    case ACROSS
    with lp ne show ?thesis by auto
  next
    case TRACKING
    with lp ne Loop show ?thesis
      by (auto simp: case_TRACKING_def op_defs mission_edge_Loop Let_def split: if_splits)
  qed
qed (use t ne in \<open>auto simp: missionTimer_loop_Callback_def callback_defs op_defs Let_def
       mission_edge_QuadMsg split: if_splits\<close>)


section \<open>Goals\<close>

lemma exec_no_goal: "goals (published (case_EXEC_MISSION e s)) = goals (published s)"
  using mission_ADJUST_frame [where s = s and e = e] mission_DROP_frame [where s = s and e = e]
    mission_DROP_LAND_frame [where s = s and e = e]
  by (cases "mission_action s")
    (simp_all add: case_EXEC_MISSION_def mission_YOLO_INIT_def mission_RISE_def mission_PUT_def
      op_defs Let_def)

lemma target_point_Inr:
  "target_point s i = Inr p \<longleftrightarrow> 0 \<le> i \<and> i < int (length (target_points s)) \<and> p = target_points s ! nat i"
  by (auto simp: target_point_def)

lemma goal_hold_decide:
  assumes t: "hold_decide e (publish (PubPx4 p) (loop_entry e s)) = Inr t"
    and ne: "goals (published t) \<noteq> goals (published s)"
  shows "ego_init s \<and> (target_id s = 0 \<or> 2 \<le> now e 1 - last_pub_time s)
    \<and> target_id t = target_id s + 1 \<and> last_pub_time t = now e 2
    \<and> goals (published t) = goals (published s) @ [target_points s ! nat (target_id s)]"
proof -
  let ?u = "publish (PubPx4 p) (loop_entry e s)"
  have ego: "ego_init s"
  proof (rule ccontr)
    assume "\<not> ego_init s"
    with t hold_decide_simps(1) [of ?u e] have "t = ?u" by simp
    with ne show False by simp
  qed
  from t show ?thesis
  proof (cases rule: hold_decide_cases)
    case wait
    with ne show ?thesis by simp
  next
    case (first x)
    with ego show ?thesis by (simp add: op_defs target_point_Inr)
  next
    case drop
    with ne show ?thesis by (simp add: op_defs)
  next
    case more
    with ego show ?thesis by (auto simp: next_target_def target_point_Inr op_defs)
  next
    case land
    with ne show ?thesis by (simp add: op_defs)
  qed
qed

text \<open>
  A goal is sent only by the loop, in HOLD, after the planner reported ready, at least two
  seconds after the previous goal, and it is the next entry of \<open>target_points_\<close>.
\<close>

lemma mission_goal_timing:
  assumes t: "mission_handle ev s = Inr t"
    and ne: "goals (published t) \<noteq> goals (published s)"
  shows "\<exists>e. ev = Loop e \<and> fsm_state s = HOLD \<and> ego_init s
    \<and> (target_id s = 0 \<or> 2 \<le> now e 1 - last_pub_time s)
    \<and> target_id t = target_id s + 1 \<and> last_pub_time t = now e 2
    \<and> goals (published t) = goals (published s) @ [target_points s ! nat (target_id s)]"
proof (cases ev)
  case (Loop e)
  note lp = t [unfolded Loop mission_handle.simps fsm_state_loopCallback_def Let_def]
  show ?thesis
  proof (cases "fsm_state s")
    case HOLD
    with lp have "hold_decide e (publish (PubPx4 (hold_pose (loop_entry e s))) (loop_entry e s)) = Inr t"
      by (simp add: case_HOLD_def)
    from goal_hold_decide [OF this ne] HOLD Loop show ?thesis by simp
  next
    case EXEC_MISSION
    with lp ne exec_no_goal [of e "loop_entry e s"] show ?thesis by simp
  qed (use lp ne in \<open>auto simp: case_INIT_def case_TAKING_OFF_def request_offboard_def case_LAND_def
         case_TRACKING_def op_defs Let_def split: if_splits\<close>)
qed (use t ne in \<open>auto simp: missionTimer_loop_Callback_def callback_defs op_defs Let_def
       split: if_splits\<close>)

section \<open>Payload drops\<close>

lemma servo_hold_decide:
  assumes t: "hold_decide e u = Inr t"
  shows "servo_calls (published t) = servo_calls (published u) \<and> put_servo_id t = put_servo_id u"
  using t by (cases rule: hold_decide_cases) (auto simp: next_target_def op_defs)

lemma servo_exec:
  "servo_calls (published (case_EXEC_MISSION e s)) = servo_calls (published s) \<or>
   mission_action s = PUT"
  "put_servo_id (case_EXEC_MISSION e s) = put_servo_id s \<or> mission_action s = PUT"
  using mission_ADJUST_frame [where s = s and e = e] mission_DROP_frame [where s = s and e = e]
    mission_DROP_LAND_frame [where s = s and e = e]
  by (cases "mission_action s";
      simp add: case_EXEC_MISSION_def mission_YOLO_INIT_def mission_RISE_def op_defs Let_def)+

text \<open>
  The mission controller asks for a release: which servo, when, and what the answer does.  Every
  event that sends no request keeps the number of the next servo.
\<close>

lemma servo_step:
  assumes t: "mission_handle ev s = Inr t"
  shows "servo_calls (published t) = servo_calls (published s) \<and> put_servo_id t = put_servo_id s
    \<or> (\<exists>e. ev = Loop e \<and> fsm_state s = EXEC_MISSION \<and> mission_action s = PUT \<and> do_put s
        \<and> 3 \<le> now e 1 - hold_time s
        \<and> servo_calls (published t) = servo_calls (published s) @ [put_servo_id s]
        \<and> fsm_state t = EXEC_MISSION
        \<and> put_servo_id t = (if servo_reply e (put_servo_id s) then put_servo_id s - 1 else put_servo_id s)
        \<and> mission_action t = (if servo_reply e (put_servo_id s) then RISE else PUT))"
proof (cases ev)
  case (Loop e)
  note lp = t [unfolded Loop mission_handle.simps fsm_state_loopCallback_def Let_def]
  show ?thesis
  proof (cases "fsm_state s")
    case HOLD
    with lp have "hold_decide e (publish (PubPx4 (hold_pose (loop_entry e s))) (loop_entry e s)) = Inr t"
      by (simp add: case_HOLD_def)
    from servo_hold_decide [OF this] show ?thesis by simp
  next
    case EXEC_MISSION
    with lp have tt: "t = case_EXEC_MISSION e (loop_entry e s)" by simp
    show ?thesis
    proof (cases "mission_action s = PUT")
      case True
      with tt EXEC_MISSION Loop show ?thesis
        by (auto simp: case_EXEC_MISSION_def mission_PUT_def op_defs Let_def)
    next
      case False
      with tt servo_exec [of e "loop_entry e s"] show ?thesis by simp
    qed
  qed (use lp in \<open>auto simp: case_INIT_def case_TAKING_OFF_def request_offboard_def case_LAND_def
         case_TRACKING_def op_defs Let_def split: if_splits\<close>)
qed (use t in \<open>auto simp: missionTimer_loop_Callback_def callback_defs op_defs Let_def
       split: if_splits\<close>)

text \<open>The controller waits to release a payload.\<close>

definition in_put :: "fsm \<Rightarrow> bool" where
  "in_put s \<longleftrightarrow> fsm_state s = EXEC_MISSION \<and> mission_action s = PUT"

lemma enters_put:
  assumes "in_put (case_EXEC_MISSION e s)" "fsm_state s = EXEC_MISSION" "mission_action s \<noteq> PUT"
  shows "mission_action s = DROP \<and> 5 \<le> now e 3 - hold_time s \<and> hold_time (case_EXEC_MISSION e s) = now e 4
    \<and> (\<bar>vz (odom_pos s) - put_height s\<bar> < 2/10
       \<or> overtime_thre2 s * 100 < overtime_t (case_EXEC_MISSION e s))"
proof (cases "mission_action s")
  case DROP
  have sel: "hold_time (updatepnpPos t dx dy u) = hold_time u" "odom_pos (updatepnpPos t dx dy u) = odom_pos u"
    "put_height (updatepnpPos t dx dy u) = put_height u" "overtime_t (updatepnpPos t dx dy u) = overtime_t u"
    "overtime_thre2 (updatepnpPos t dx dy u) = overtime_thre2 u"
    "mission_action (updatepnpPos t dx dy u) = mission_action u" for t dx dy u
    by (simp_all add: updatepnpPos_def Let_def)
  from assms DROP show ?thesis
    by (cases "yolo_reply e")
      (auto simp: in_put_def case_EXEC_MISSION_def mission_DROP_def op_defs sel Let_def split: if_splits)
next
  case ADJUST
  with assms show ?thesis
    by (auto simp: in_put_def case_EXEC_MISSION_def mission_ADJUST_def adjust_detect_def adjust_detected_def
        adjust_overtime_def updatepnpPos_def op_defs Let_def split: if_splits option.splits prod.splits)
qed (use assms in \<open>auto simp: in_put_def case_EXEC_MISSION_def mission_YOLO_INIT_def mission_RISE_def
       mission_DROP_LAND_def updatepnpPos_def op_defs Let_def split: if_splits option.splits\<close>)

text \<open>
  The action PUT is entered from DROP only, at the height of the drop or after the detector failed
  for long, and sets \<open>hold_time_\<close> to the time; no event sets it again while the action lasts.
\<close>

lemma put_step:
  assumes t: "mission_handle ev s = Inr t" and p: "in_put t"
  shows "in_put s \<and> hold_time t = hold_time s
    \<or> \<not> in_put s \<and> (\<exists>e. ev = Loop e \<and> fsm_state s = EXEC_MISSION \<and> mission_action s = DROP
        \<and> 5 \<le> now e 3 - hold_time s \<and> hold_time t = now e 4
        \<and> (\<bar>vz (odom_pos s) - put_height s\<bar> < 2/10 \<or> overtime_thre2 s * 100 < overtime_t t))"
proof (cases ev)
  case (Loop e)
  note lp = t [unfolded Loop mission_handle.simps fsm_state_loopCallback_def Let_def]
  show ?thesis
  proof (cases "fsm_state s")
    case HOLD
    with lp have "hold_decide e (publish (PubPx4 (hold_pose (loop_entry e s))) (loop_entry e s)) = Inr t"
      by (simp add: case_HOLD_def)
    then show ?thesis
      using HOLD p by (cases rule: hold_decide_cases) (auto simp: in_put_def next_target_def op_defs)
  next
    case EXEC_MISSION
    with lp have tt: "t = case_EXEC_MISSION e (loop_entry e s)" by simp
    show ?thesis
    proof (cases "mission_action s = PUT")
      case True
      with tt EXEC_MISSION p show ?thesis
        by (auto simp: in_put_def case_EXEC_MISSION_def mission_PUT_def op_defs Let_def split: if_splits)
    next
      case False
      with enters_put [of e "loop_entry e s"] tt p EXEC_MISSION Loop show ?thesis
        by (simp add: in_put_def)
    qed
  qed (use lp p in \<open>auto simp: in_put_def case_INIT_def case_TAKING_OFF_def request_offboard_def case_LAND_def
         case_TRACKING_def op_defs Let_def split: if_splits\<close>)
qed (use t p in \<open>auto simp: in_put_def missionTimer_loop_Callback_def callback_defs op_defs Let_def
       split: if_splits\<close>)

text \<open>The event \<open>Loop e\<close> that comes after \<open>before\<close> starts the action PUT.\<close>

definition starts_put :: "fsm \<Rightarrow> mission_event list \<Rightarrow> loop_env \<Rightarrow> bool" where
  "starts_put s0 before e \<longleftrightarrow> (\<exists>u v. mission_run before s0 = Inr u \<and> mission_handle (Loop e) u = Inr v
     \<and> \<not> in_put u \<and> in_put v \<and> mission_action u = DROP \<and> 5 \<le> now e 3 - hold_time u
     \<and> (\<bar>vz (odom_pos u) - put_height u\<bar> < 2/10 \<or> overtime_thre2 u * 100 < overtime_t v))"

lemma put_history:
  assumes "\<not> in_put s0" "mission_run evs s0 = Inr s" "in_put s"
  shows "\<exists>before e0 since. evs = before @ Loop e0 # since \<and> starts_put s0 before e0 \<and> hold_time s = now e0 4
    \<and> (\<forall>k \<le> length since. \<exists>u. mission_run (before @ Loop e0 # take k since) s0 = Inr u \<and> in_put u)"
  using assms(2,3)
proof (induction evs arbitrary: s rule: rev_induct)
  case Nil
  with assms(1) show ?case by simp
next
  case (snoc ev evs)
  from snoc.prems(1) obtain u where u: "mission_run evs s0 = Inr u" "mission_handle ev u = Inr s"
    by (auto simp: run_events_append bind_result_Inr)
  from put_step [OF u(2) snoc.prems(2)] consider
    (stays) "in_put u" "hold_time s = hold_time u"
  | (enters) e where "\<not> in_put u" "ev = Loop e" "hold_time s = now e 4" "mission_action u = DROP"
      "5 \<le> now e 3 - hold_time u"
      "\<bar>vz (odom_pos u) - put_height u\<bar> < 2/10 \<or> overtime_thre2 u * 100 < overtime_t s"
    by blast
  then show ?case
  proof cases
    case p: stays
    from snoc.IH [OF u(1) p(1)] obtain before e0 since where h: "evs = before @ Loop e0 # since"
      "starts_put s0 before e0" "hold_time u = now e0 4"
      "\<forall>k \<le> length since. \<exists>u. mission_run (before @ Loop e0 # take k since) s0 = Inr u \<and> in_put u"
      by blast
    have "\<exists>v. mission_run (before @ Loop e0 # take k (since @ [ev])) s0 = Inr v \<and> in_put v"
      if "k \<le> length (since @ [ev])" for k
    proof (cases "k \<le> length since")
      case True
      with h(4) show ?thesis by simp
    next
      case False
      with that snoc.prems h(1) show ?thesis by simp
    qed
    with h p(2) show ?thesis
      by (intro exI [of _ before] exI [of _ e0] exI [of _ "since @ [ev]"]) simp
  next
    case p: (enters e)
    then have "starts_put s0 evs e" using u snoc.prems(2) by (auto simp: starts_put_def)
    with p snoc.prems show ?thesis
      by (intro exI [of _ evs] exI [of _ e] exI [of _ "[]"]) simp
  qed
qed


section \<open>Visual servoing\<close>

lemma updatepnpPos_pose:
  "mission_pose (updatepnpPos t dx dy s) = (mission_pose s)
     \<lparr>position := Vec3 (vx (odom_pos s) - saturate (pnp_limit s) dy - 15/100)
        (vy (odom_pos s) - saturate (pnp_limit s) dx) (vz (position (mission_pose s))), stamp := t\<rparr>"
  by (simp add: updatepnpPos_def saturate_def Let_def)

lemma near_setpoint:
  "0 \<le> pnp_limit s \<Longrightarrow>
   \<bar>vx (position (mission_pose (updatepnpPos t dx dy s))) - (vx (odom_pos s) - 15/100)\<bar> \<le> pnp_limit s \<and>
   \<bar>vy (position (mission_pose (updatepnpPos t dx dy s))) - vy (odom_pos s)\<bar> \<le> pnp_limit s"
  using saturate_abs [of "pnp_limit s" dx] saturate_abs [of "pnp_limit s" dy]
  by (simp add: updatepnpPos_pose)

end
