(* ===== verification/MissionServo.thy ===== *)
theory MissionServo
  imports MissionDynamics
begin

text \<open>
  The mission controller as a client of the service \<open>servo_move\<close>.  The locale \<open>servo_service\<close> is
  the interface: \<open>serves w n\<close> tells whether the request for servo \<open>n\<close> succeeds in the situation
  \<open>w\<close> of the server, and the one law the client relies on is that only the servos 1, 2 and 3
  can succeed.  The provider is \<open>ServoServer\<close>.
\<close>

section \<open>The requests of a run\<close>

text \<open>
  Requests never go back to an earlier servo, and the next servo is not behind any of them.
\<close>

definition servo_order :: "fsm \<Rightarrow> bool" where
  "servo_order s \<longleftrightarrow> sorted_wrt (\<lambda>a b. b \<le> a) (servo_calls (published s))
     \<and> (\<forall>n \<in> set (servo_calls (published s)). put_servo_id s \<le> n \<and> n \<le> 3)
     \<and> put_servo_id s \<le> 3"

lemma servo_order_handle:
  "servo_order s \<Longrightarrow> mission_handle ev s = Inr t \<Longrightarrow> servo_order t"
  using servo_step [of ev s t]
  by (fastforce simp: servo_order_def sorted_wrt_append)

text \<open>
  The requests of a run with their answers: the number asked for, and whether the call succeeded.
\<close>

fun servo_history :: "mission_event list \<Rightarrow> fsm \<Rightarrow> (int \<times> bool) list" where
  "servo_history [] s = []"
| "servo_history (ev # evs) s =
     (case mission_handle ev s of
        Inl _ \<Rightarrow> []
      | Inr t \<Rightarrow>
          (case ev of
             Loop e \<Rightarrow> if servo_calls (published t) = servo_calls (published s) then []
                        else [(put_servo_id s, servo_reply e (put_servo_id s))]
           | _ \<Rightarrow> []) @ servo_history evs t)"

text \<open>
  The counter goes down by one with every success, and each request is for the servo it stands at.
\<close>

lemma servo_history_run:
  assumes "mission_run evs s = Inr t"
  shows "servo_calls (published t) = servo_calls (published s) @ map fst (servo_history evs s)"
    and "put_servo_id t = put_servo_id s - int (length (filter snd (servo_history evs s)))"
    and "map fst (filter snd (servo_history evs s)) = rev [put_servo_id t + 1..put_servo_id s]"
    and "i < length (servo_history evs s) \<Longrightarrow>
      fst (servo_history evs s ! i) = put_servo_id s - int (length (filter snd (take i (servo_history evs s))))"
proof -
  have "servo_calls (published t) = servo_calls (published s) @ map fst (servo_history evs s)
    \<and> put_servo_id t = put_servo_id s - int (length (filter snd (servo_history evs s)))
    \<and> map fst (filter snd (servo_history evs s)) = rev [put_servo_id t + 1..put_servo_id s]
    \<and> (\<forall>i < length (servo_history evs s).
         fst (servo_history evs s ! i) = put_servo_id s - int (length (filter snd (take i (servo_history evs s)))))"
    using assms
  proof (induction evs arbitrary: s)
    case Nil
    then show ?case by simp
  next
    case (Cons ev evs)
    from Cons.prems obtain u where u: "mission_handle ev s = Inr u" "mission_run evs u = Inr t"
      by auto
    note IH = Cons.IH [OF u(2)]
    from servo_step [OF u(1)] consider
      (quiet) "servo_calls (published u) = servo_calls (published s)" "put_servo_id u = put_servo_id s"
    | (asks) e where "ev = Loop e" "servo_calls (published u) = servo_calls (published s) @ [put_servo_id s]"
        "put_servo_id u = (if servo_reply e (put_servo_id s) then put_servo_id s - 1 else put_servo_id s)"
      by blast
    then show ?case
    proof cases
      case quiet
      then have "servo_history (ev # evs) s = servo_history evs u" using u(1) by (cases ev) simp_all
      with quiet IH show ?thesis by simp
    next
      case (asks e)
      let ?h = "servo_history evs u" and ?ok = "servo_reply e (put_servo_id s)"
      have h: "servo_history (ev # evs) s = (put_servo_id s, ?ok) # ?h" using asks u(1) by simp
      have "put_servo_id t \<le> put_servo_id u" using IH by linarith
      then have "?ok \<Longrightarrow> rev [put_servo_id t + 1..put_servo_id s] = put_servo_id s # rev [put_servo_id t + 1..put_servo_id u]"
        using asks(3) upto_rec2 [of "put_servo_id t + 1" "put_servo_id s"] by simp
      moreover have "fst (((put_servo_id s, ?ok) # ?h) ! i)
          = put_servo_id s - int (length (filter snd (take i ((put_servo_id s, ?ok) # ?h))))"
        if "i < Suc (length ?h)" for i
        using that IH asks(3) by (cases i) auto
      ultimately show ?thesis unfolding h using asks(2,3) IH by auto
    qed
  qed
  then show "servo_calls (published t) = servo_calls (published s) @ map fst (servo_history evs s)"
    and "put_servo_id t = put_servo_id s - int (length (filter snd (servo_history evs s)))"
    and "map fst (filter snd (servo_history evs s)) = rev [put_servo_id t + 1..put_servo_id s]"
    and "i < length (servo_history evs s) \<Longrightarrow>
      fst (servo_history evs s ! i) = put_servo_id s - int (length (filter snd (take i (servo_history evs s))))"
    by blast+
qed

locale servo_service =
  fixes serves :: "'w \<Rightarrow> int \<Rightarrow> bool"
  assumes serves_range: "serves w n \<Longrightarrow> n \<in> {1, 2, 3}"
begin

lemma serves_pos: "serves w n \<Longrightarrow> 0 < n"
  using serves_range [of w n] by auto

text \<open>The events of a system in which the client talks to this service.\<close>

definition served :: "mission_event \<Rightarrow> bool" where
  "served ev = (case ev of Loop e \<Rightarrow> (\<exists>w. servo_reply e = serves w) | _ \<Rightarrow> True)"

lemma servo_id_handle:
  assumes "0 \<le> put_servo_id s" "served ev" "mission_handle ev s = Inr t"
  shows "0 \<le> put_servo_id t"
proof -
  have pos: "0 < put_servo_id s" if "ev = Loop e" "servo_reply e (put_servo_id s)" for e
  proof -
    from assms(2) that obtain w where "serves w (put_servo_id s)"
      by (auto simp: served_def)
    then show ?thesis by (rule serves_pos)
  qed
  from servo_step [OF assms(3)] assms(1) pos show ?thesis
    by (fastforce split: if_splits)
qed

sublocale client: event_machine mission_handle served "\<lambda>s. servo_order s \<and> 0 \<le> put_servo_id s"
  by unfold_locales (auto intro: servo_order_handle servo_id_handle)

text \<open>
  A mission that waits for a servo the server does not know waits for ever: no event takes it
  out of the action PUT.
\<close>

definition stuck :: "fsm \<Rightarrow> bool" where
  "stuck s \<longleftrightarrow> fsm_state s = EXEC_MISSION \<and> mission_action s = PUT \<and> do_put s
     \<and> put_servo_id s \<notin> {1, 2, 3}"

lemma stuck_handle:
  assumes s: "stuck s" and ev: "served ev" and t: "mission_handle ev s = Inr t"
  shows "stuck t"
proof (cases ev)
  case (Loop e)
  with ev have "\<not> servo_reply e (put_servo_id s)"
    using s by (auto simp: served_def stuck_def dest: serves_range)
  moreover have "t = mission_PUT e (loop_entry e s)"
    using t s Loop by (simp add: fsm_state_loopCallback_def stuck_def case_EXEC_MISSION_def Let_def)
  ultimately show ?thesis
    using s by (simp add: stuck_def mission_PUT_def publish_def Let_def)
qed (use s t in \<open>auto simp: stuck_def missionTimer_loop_Callback_def callback_defs publish_def
       changeFSMState_def Let_def split: if_splits\<close>)

sublocale stuck_client: event_machine mission_handle served stuck
  by unfold_locales (rule stuck_handle)

end

end
