(* ===== verification/ServoServer.thy ===== *)
theory ServoServer
  imports MissionServo
begin

text \<open>
  The payload servos: class \<open>gpio\<close> (\<open>servo_server/src/gpio.cpp\<close>), which drives a pin through
  sysfs, and the service \<open>servo_move\<close> (\<open>doReq\<close> of \<open>servo_server/src/servo_server.cpp\<close>), which
  turns a servo by a hundred hand-timed pulses.

  The operating system is a parameter: \<open>opens k\<close> tells whether the \<open>k\<close>-th call of \<open>open\<close>
  succeeds.  Everything the code asks of it is recorded in a log, oldest first.  A path that does
  not fit \<open>char path[40]\<close> is the error \<open>OutOfBounds\<close>.
\<close>

section \<open>System calls\<close>

datatype open_flag = O_WRONLY | O_RDONLY | O_RDWR

datatype sys_event =
    Opened string open_flag
  | OpenFailed string open_flag
  | Written string string nat      \<comment> \<open>path, the string pointed to, the length passed\<close>
  | ReadByte string
  | Closed string
  | Slept nat                      \<comment> \<open>\<open>usleep\<close>, in microseconds\<close>

record sys_world =
  n_open :: nat
  log :: "sys_event list"

definition emit :: "sys_event list \<Rightarrow> sys_world \<Rightarrow> sys_world" where
  "emit evs w = w\<lparr>log := log w @ evs\<rparr>"

definition sys_open :: "(nat \<Rightarrow> bool) \<Rightarrow> string \<Rightarrow> open_flag \<Rightarrow> sys_world \<Rightarrow> bool \<times> sys_world" where
  "sys_open opens path flag w =
     (opens (n_open w),
      (emit [if opens (n_open w) then Opened path flag else OpenFailed path flag] w)
        \<lparr>n_open := Suc (n_open w)\<rparr>)"

text \<open>\<open>sizeof\<close> of a \<open>const char *\<close>: the code passes it as the length of every write.\<close>

definition sizeof_pointer :: nat where
  "sizeof_pointer = 8"

section \<open>Class gpio\<close>

definition ON :: string where "ON = ''1''"
definition OFF :: string where "OFF = ''0''"
definition BUZZERA :: string where "BUZZERA = ''267''"
definition BUZZERB :: string where "BUZZERB = ''419''"
definition BUZZERC :: string where "BUZZERC = ''421''"
definition DIRECTION :: string where "DIRECTION = ''out''"

text \<open>\<open>open\<close>, \<open>write\<close>, \<open>close\<close> on one path: the body five of the methods share.\<close>

definition write_file ::
    "(nat \<Rightarrow> bool) \<Rightarrow> string \<Rightarrow> open_flag \<Rightarrow> string \<Rightarrow> sys_world \<Rightarrow> int \<times> sys_world" where
  "write_file opens path flag data w =
     (case sys_open opens path flag w of
        (False, w1) \<Rightarrow> (-1, w1)
      | (True, w1) \<Rightarrow> (0, emit [Written path data sizeof_pointer, Closed path] w1))"

definition openGpio :: "(nat \<Rightarrow> bool) \<Rightarrow> string \<Rightarrow> sys_world \<Rightarrow> int \<times> sys_world" where
  "openGpio opens port w = write_file opens ''/sys/class/gpio/export'' O_WRONLY port w"

definition closeGpio :: "(nat \<Rightarrow> bool) \<Rightarrow> string \<Rightarrow> sys_world \<Rightarrow> int \<times> sys_world" where
  "closeGpio opens port w = write_file opens ''/sys/class/gpio/unexport'' O_WRONLY port w"

text \<open>\<open>sprintf\<close> into a buffer of forty characters, the final NUL included.\<close>

definition gpio_path :: "string \<Rightarrow> string \<Rightarrow> cpp_error + string" where
  "gpio_path port leaf =
     (let path = ''/sys/class/gpio/gpio'' @ port @ leaf
      in if length path < 40 then Inr path else Inl OutOfBounds)"

text \<open>
  \<open>readGPIOValue\<close>: one byte \<open>c\<close> is read into \<open>char value[2]\<close> and converted by \<open>atoi\<close>; the second
  byte \<open>g\<close> is whatever the stack held.  The descriptor is not closed.  The result is the return
  code and the value of \<open>level\<close>.
\<close>

definition is_digit :: "char \<Rightarrow> bool" where
  "is_digit c \<longleftrightarrow> 48 \<le> (of_char c :: nat) \<and> (of_char c :: nat) \<le> 57"

definition atoi2 :: "char \<Rightarrow> char \<Rightarrow> int" where
  "atoi2 c g =
     (if is_digit c
      then (if is_digit g then 10 * (of_char c - 48) + (of_char g - 48) else of_char c - 48)
      else 0)"

definition readGPIOValue ::
    "(nat \<Rightarrow> bool) \<Rightarrow> char \<Rightarrow> char \<Rightarrow> string \<Rightarrow> int \<Rightarrow> sys_world \<Rightarrow> cpp_error + int \<times> int \<times> sys_world" where
  "readGPIOValue opens c g port level w =
     bind_result (gpio_path port ''/value'')
       (\<lambda>path. Inr (case sys_open opens path O_RDONLY w of
                      (False, w1) \<Rightarrow> (-1, level, w1)
                    | (True, w1) \<Rightarrow> (0, atoi2 c g, emit [ReadByte path] w1)))"

definition setGpioDirection ::
    "(nat \<Rightarrow> bool) \<Rightarrow> string \<Rightarrow> string \<Rightarrow> sys_world \<Rightarrow> cpp_error + int \<times> sys_world" where
  "setGpioDirection opens port direction w =
     bind_result (gpio_path port ''/direction'') (\<lambda>path. Inr (write_file opens path O_WRONLY direction w))"

definition setGpioEdge ::
    "(nat \<Rightarrow> bool) \<Rightarrow> string \<Rightarrow> string \<Rightarrow> sys_world \<Rightarrow> cpp_error + int \<times> sys_world" where
  "setGpioEdge opens port edge w =
     bind_result (gpio_path port ''/edge'') (\<lambda>path. Inr (write_file opens path O_WRONLY edge w))"

definition setGpioValue ::
    "(nat \<Rightarrow> bool) \<Rightarrow> string \<Rightarrow> string \<Rightarrow> sys_world \<Rightarrow> cpp_error + int \<times> sys_world" where
  "setGpioValue opens port level w =
     bind_result (gpio_path port ''/value'') (\<lambda>path. Inr (write_file opens path O_RDWR level w))"

section \<open>The service servo_move\<close>

text \<open>One half of a pulse: set the level, or unexport the pin and give up; then wait.\<close>

definition half_pulse ::
    "(nat \<Rightarrow> bool) \<Rightarrow> string \<Rightarrow> string \<Rightarrow> nat \<Rightarrow> sys_world \<Rightarrow> cpp_error + bool \<times> sys_world" where
  "half_pulse opens port level us w =
     bind_result (setGpioValue opens port level w)
       (\<lambda>(rc, w1). Inr (if rc \<noteq> 0 then (False, snd (closeGpio opens port w1))
                        else (True, emit [Slept us] w1)))"

text \<open>
  The loop \<open>while (i < 100)\<close>: \<open>n\<close> is the number of rounds left.  A failed write leaves \<open>doReq\<close>.
\<close>

fun pulses ::
    "(nat \<Rightarrow> bool) \<Rightarrow> string \<Rightarrow> nat \<Rightarrow> nat \<Rightarrow> nat \<Rightarrow> sys_world \<Rightarrow> cpp_error + bool \<times> sys_world" where
  "pulses opens port on_us off_us 0 w = Inr (True, w)"
| "pulses opens port on_us off_us (Suc n) w =
     bind_result (half_pulse opens port ON on_us w)
       (\<lambda>(ok, w1). if \<not> ok then Inr (False, w1)
          else bind_result (half_pulse opens port OFF off_us w1)
                 (\<lambda>(ok', w2). if \<not> ok' then Inr (False, w2)
                    else pulses opens port on_us off_us n w2))"

text \<open>The branch of one servo; \<open>i0\<close> is the value the uninitialised counter \<open>i\<close> starts with.\<close>

definition drive ::
    "(nat \<Rightarrow> bool) \<Rightarrow> string \<Rightarrow> nat \<Rightarrow> nat \<Rightarrow> int \<Rightarrow> sys_world \<Rightarrow> cpp_error + bool \<times> sys_world" where
  "drive opens port on_us off_us i0 w =
     (let (rc, w1) = openGpio opens port w
      in if rc \<noteq> 0 then Inr (False, w1)
         else bind_result (setGpioDirection opens port DIRECTION (emit [Slept 500000] w1))
                (\<lambda>(rc', w2). if rc' \<noteq> 0 then Inr (False, snd (closeGpio opens port w2))
                   else pulses opens port on_us off_us (nat (100 - i0)) (emit [Slept 100000] w2)))"

text \<open>\<open>doReq\<close>: the value returned to ROS, which is also what \<open>resp.result\<close> ends up as.\<close>

definition doReq ::
    "(nat \<Rightarrow> bool) \<Rightarrow> int \<Rightarrow> int \<Rightarrow> sys_world \<Rightarrow> cpp_error + bool \<times> sys_world" where
  "doReq opens servo_num i0 w =
     (if servo_num = 1 then drive opens BUZZERA 600 19400 i0 w
      else if servo_num = 2 then drive opens BUZZERB 500 19500 i0 w
      else if servo_num = 3 then drive opens BUZZERA 300 19700 i0 w
      else Inr (False, w))"

section \<open>What a request does\<close>

lemma emit_sel [simp]: "n_open (emit evs w) = n_open w" "log (emit evs w) = log w @ evs"
  by (simp_all add: emit_def)

lemma gpio_path_short:
  "length port = 3 \<Longrightarrow> leaf \<in> {''/value'', ''/direction'', ''/edge''} \<Longrightarrow>
   gpio_path port leaf = Inr (''/sys/class/gpio/gpio'' @ port @ leaf)"
  by (auto simp: gpio_path_def Let_def)

abbreviation value_path :: "string \<Rightarrow> string" where
  "value_path port \<equiv> ''/sys/class/gpio/gpio'' @ port @ ''/value''"

abbreviation unexport_events :: "string \<Rightarrow> sys_event list" where
  "unexport_events port \<equiv> [Opened ''/sys/class/gpio/unexport'' O_WRONLY,
     Written ''/sys/class/gpio/unexport'' port sizeof_pointer, Closed ''/sys/class/gpio/unexport'']"

text \<open>The events of one write of a level followed by a pause, and of one whole pulse.\<close>

definition level_events :: "string \<Rightarrow> string \<Rightarrow> nat \<Rightarrow> sys_event list" where
  "level_events port level us =
     [Opened (value_path port) O_RDWR, Written (value_path port) level sizeof_pointer,
      Closed (value_path port), Slept us]"

definition pulse_events :: "string \<Rightarrow> nat \<Rightarrow> nat \<Rightarrow> sys_event list" where
  "pulse_events port on_us off_us = level_events port ON on_us @ level_events port OFF off_us"

definition setup_events :: "string \<Rightarrow> sys_event list" where
  "setup_events port =
     [Opened ''/sys/class/gpio/export'' O_WRONLY, Written ''/sys/class/gpio/export'' port sizeof_pointer,
      Closed ''/sys/class/gpio/export'', Slept 500000,
      Opened (''/sys/class/gpio/gpio'' @ port @ ''/direction'') O_WRONLY,
      Written (''/sys/class/gpio/gpio'' @ port @ ''/direction'') DIRECTION sizeof_pointer,
      Closed (''/sys/class/gpio/gpio'' @ port @ ''/direction''), Slept 100000]"

lemma write_file_ok:
  "opens (n_open w) \<Longrightarrow> write_file opens path flag data w =
     (0, w\<lparr>n_open := Suc (n_open w),
           log := log w @ [Opened path flag, Written path data sizeof_pointer, Closed path]\<rparr>)"
  by (simp add: write_file_def sys_open_def emit_def)

lemma write_file_fail:
  "\<not> opens (n_open w) \<Longrightarrow> write_file opens path flag data w =
     (-1, w\<lparr>n_open := Suc (n_open w), log := log w @ [OpenFailed path flag]\<rparr>)"
  by (simp add: write_file_def sys_open_def emit_def)

lemma half_pulse_ok:
  "length port = 3 \<Longrightarrow> opens (n_open w) \<Longrightarrow>
   half_pulse opens port level us w =
     Inr (True, w\<lparr>n_open := Suc (n_open w), log := log w @ level_events port level us\<rparr>)"
  by (simp add: half_pulse_def setGpioValue_def gpio_path_short write_file_ok emit_def level_events_def)

lemma pulses_ok:
  "length port = 3 \<Longrightarrow> \<forall>k \<ge> n_open w. opens k \<Longrightarrow>
   pulses opens port on_us off_us n w =
     Inr (True, w\<lparr>n_open := n_open w + 2 * n,
                  log := log w @ concat (replicate n (pulse_events port on_us off_us))\<rparr>)"
proof (induction n arbitrary: w)
  case 0
  then show ?case by simp
next
  case (Suc n)
  then have "opens (n_open w)" "opens (Suc (n_open w))" by simp_all
  with Suc show ?case by (simp add: half_pulse_ok pulse_events_def)
qed

lemma drive_ok:
  assumes "length port = 3" "\<forall>k. opens k"
  shows "drive opens port on_us off_us i0 w =
     Inr (True, w\<lparr>n_open := n_open w + 2 + 2 * nat (100 - i0),
        log := log w @ setup_events port @ concat (replicate (nat (100 - i0)) (pulse_events port on_us off_us))\<rparr>)"
  using assms
  by (simp add: drive_def openGpio_def write_file_ok setGpioDirection_def gpio_path_short pulses_ok
      emit_def setup_events_def)

lemma ports [simp]: "length BUZZERA = 3" "length BUZZERB = 3" "length BUZZERC = 3"
  by (simp_all add: BUZZERA_def BUZZERB_def BUZZERC_def)

lemma ex_bool [simp]: "\<exists>b. b" "\<exists>b. \<not> b"
  by blast+

lemma gpio_total:
  "length port = 3 \<Longrightarrow> \<exists>r. setGpioValue opens port level w = Inr r"
  "length port = 3 \<Longrightarrow> \<exists>r. setGpioDirection opens port level w = Inr r"
  by (simp_all add: setGpioValue_def setGpioDirection_def gpio_path_short)

lemma half_pulse_total: "length port = 3 \<Longrightarrow> \<exists>b w'. half_pulse opens port level us w = Inr (b, w')"
  by (cases "opens (n_open w)")
    (simp_all add: half_pulse_def setGpioValue_def gpio_path_short write_file_ok write_file_fail)

lemma pulses_total: "length port = 3 \<Longrightarrow> \<exists>b w'. pulses opens port on_us off_us n w = Inr (b, w')"
proof (induction n arbitrary: w)
  case 0
  then show ?case by simp
next
  case (Suc n)
  obtain b1 w1 where h1: "half_pulse opens port ON on_us w = Inr (b1, w1)"
    using half_pulse_total [OF Suc.prems] by blast
  obtain b2 w2 where h2: "half_pulse opens port OFF off_us w1 = Inr (b2, w2)"
    using half_pulse_total [OF Suc.prems] by blast
  from Suc.IH [OF Suc.prems, of w2] h1 h2 show ?case by auto
qed

lemma drive_total: "length port = 3 \<Longrightarrow> \<exists>b w'. drive opens port on_us off_us i0 w = Inr (b, w')"
  using pulses_total
  by (auto simp: drive_def setGpioDirection_def gpio_path_short case_prod_beta Let_def)

lemma doReq_total: "\<exists>b w'. doReq opens n i0 w = Inr (b, w')"
  using drive_total [OF ports(1)] drive_total [OF ports(2)] by (auto simp: doReq_def)

section \<open>The service the mission controller uses\<close>

text \<open>Whether a request succeeds, in a situation of the server.\<close>

definition request_ok :: "(nat \<Rightarrow> bool) \<times> int \<times> sys_world \<Rightarrow> int \<Rightarrow> bool" where
  "request_ok sit n = (case sit of (opens, i0, w) \<Rightarrow>
     (case doReq opens n i0 w of Inr (b, w') \<Rightarrow> b | Inl _ \<Rightarrow> False))"

lemma request_ok_range: "request_ok sit n \<Longrightarrow> n \<in> {1, 2, 3}"
  by (auto simp: request_ok_def doReq_def split: prod.splits if_splits)

interpretation servo: servo_service request_ok
  by unfold_locales (rule request_ok_range)

section \<open>Properties of the service\<close>

text \<open>The table of the three servos: pin, time high and time low of a pulse, in microseconds.\<close>

fun servo_table :: "int \<Rightarrow> (string \<times> nat \<times> nat) option" where
  "servo_table n =
     (if n = 1 then Some (BUZZERA, 600, 19400)
      else if n = 2 then Some (BUZZERB, 500, 19500)
      else if n = 3 then Some (BUZZERA, 300, 19700) else None)"

lemma servo_table_dom: "n \<in> {1, 2, 3} \<Longrightarrow> \<exists>port on_us off_us. servo_table n = Some (port, on_us, off_us)"
  by (auto intro: exI [of _ BUZZERA] exI [of _ BUZZERB])

text \<open>
  C33: when every \<open>open\<close> succeeds, a request for a servo of the table exports the pin, makes it an
  output and sends \<open>100 - i0\<close> pulses of the width of that servo with a period of 20 ms, where
  \<open>i0\<close> is what the counter, which the code never initialises, happened to hold; it then reports
  success and leaves the pin exported.
\<close>

theorem servo_pulse_train:
  assumes "servo_table n = Some (port, on_us, off_us)" "\<forall>k. opens k"
  shows "on_us + off_us = 20000 \<and>
    doReq opens n i0 w = Inr (True, w\<lparr>n_open := n_open w + 2 + 2 * nat (100 - i0),
      log := log w @ setup_events port @ concat (replicate (nat (100 - i0)) (pulse_events port on_us off_us))\<rparr>)"
  using assms by (auto simp: doReq_def drive_ok split: if_splits)

theorem servo_pulse_train_witness:
  "n_open (snd (projr (doReq (\<lambda>_. True) 2 0 \<lparr>n_open = 0, log = []\<rparr>))) = 202"
proof -
  have "servo_table 2 = Some (BUZZERB, 500, 19500)" "\<forall>k::nat. (\<lambda>_. True) k" by simp_all
  from servo_pulse_train [OF this, of 0 "\<lparr>n_open = 0, log = []\<rparr>"]
  show ?thesis by simp
qed

text \<open>
  With a counter that starts at a hundred or above, which the uninitialised variable allows,
  the service reports success without a single pulse: the payload was not released.
\<close>

lemma servo_success_without_pulse:
  assumes "n \<in> {1, 2, 3}" "\<forall>k. opens k" "100 \<le> i0"
  shows "\<exists>port. doReq opens n i0 w =
    Inr (True, w\<lparr>n_open := n_open w + 2, log := log w @ setup_events port\<rparr>)"
proof -
  obtain port on_us off_us where "servo_table n = Some (port, on_us, off_us)"
    using servo_table_dom [OF assms(1)] by blast
  then have "doReq opens n i0 w = drive opens port on_us off_us i0 w" "length port = 3"
    by (auto simp: doReq_def split: if_splits)
  with assms(2,3) show ?thesis by (auto simp: drive_ok)
qed

lemma closeGpio_log:
  "log (snd (closeGpio opens port w)) = log w @
     (if opens (n_open w) then unexport_events port
      else [OpenFailed ''/sys/class/gpio/unexport'' O_WRONLY])"
  by (simp add: closeGpio_def write_file_ok write_file_fail)

text \<open>
  What a failed request leaves behind: a failed \<open>open\<close>, and after it the attempt to unexport
  the pin.
\<close>

definition failed_tail :: "string \<Rightarrow> sys_event list \<Rightarrow> bool" where
  "failed_tail port evs \<longleftrightarrow> (\<exists>pre path flag rest. evs = pre @ OpenFailed path flag # rest
     \<and> rest \<in> {unexport_events port, [OpenFailed ''/sys/class/gpio/unexport'' O_WRONLY]})"

lemma failed_tail_append: "failed_tail port evs \<Longrightarrow> failed_tail port (pre @ evs)"
  unfolding failed_tail_def by (metis append_assoc)

lemma half_pulse_log:
  assumes "length port = 3" "half_pulse opens port level us w = Inr (b, w')"
  shows "\<exists>evs. log w' = log w @ evs \<and> (\<not> b \<longrightarrow> failed_tail port evs)"
proof (cases "opens (n_open w)")
  case True
  with assms show ?thesis by (auto simp: half_pulse_ok)
next
  case False
  define w1 where "w1 = w\<lparr>n_open := Suc (n_open w), log := log w @ [OpenFailed (value_path port) O_RDWR]\<rparr>"
  from False assms have "w' = snd (closeGpio opens port w1)"
    by (simp add: half_pulse_def setGpioValue_def gpio_path_short write_file_fail w1_def)
  then have "log w' = log w @ OpenFailed (value_path port) O_RDWR #
      (if opens (n_open w1) then unexport_events port else [OpenFailed ''/sys/class/gpio/unexport'' O_WRONLY])"
    by (simp add: closeGpio_log w1_def)
  moreover have "failed_tail port (OpenFailed (value_path port) O_RDWR #
      (if opens (n_open w1) then unexport_events port else [OpenFailed ''/sys/class/gpio/unexport'' O_WRONLY]))"
    unfolding failed_tail_def by (rule exI [of _ "[]"]) auto
  ultimately show ?thesis by blast
qed

lemma pulses_log:
  "length port = 3 \<Longrightarrow> pulses opens port on_us off_us n w = Inr (b, w') \<Longrightarrow>
   \<exists>evs. log w' = log w @ evs \<and> (\<not> b \<longrightarrow> failed_tail port evs)"
proof (induction n arbitrary: w)
  case 0
  then show ?case by simp
next
  case (Suc n)
  obtain b1 w1 where h1: "half_pulse opens port ON on_us w = Inr (b1, w1)"
    using half_pulse_total [OF Suc.prems(1)] by blast
  from half_pulse_log [OF Suc.prems(1) h1] obtain e1 where
    e1: "log w1 = log w @ e1" "\<not> b1 \<longrightarrow> failed_tail port e1" by blast
  obtain b2 w2 where h2: "half_pulse opens port OFF off_us w1 = Inr (b2, w2)"
    using half_pulse_total [OF Suc.prems(1)] by blast
  from half_pulse_log [OF Suc.prems(1) h2] obtain e2 where
    e2: "log w2 = log w1 @ e2" "\<not> b2 \<longrightarrow> failed_tail port e2" by blast
  show ?case
  proof (cases "b1 \<and> b2")
    case True
    with Suc.prems(2) h1 h2 have "pulses opens port on_us off_us n w2 = Inr (b, w')" by simp
    from Suc.IH [OF Suc.prems(1) this] obtain e3 where
      "log w' = log w2 @ e3" "\<not> b \<longrightarrow> failed_tail port e3" by blast
    with e1(1) e2(1) show ?thesis
      by (intro exI [of _ "e1 @ e2 @ e3"]) (auto intro: failed_tail_append)
  next
    case False
    with Suc.prems(2) h1 h2 have "w' = w1 \<and> \<not> b1 \<or> w' = w2 \<and> \<not> b2" by (auto split: if_splits)
    with e1 e2 show ?thesis by (auto intro: failed_tail_append)
  qed
qed

lemma drive_log:
  assumes port: "length port = 3" and d: "drive opens port on_us off_us i0 w = Inr (False, w')"
  shows "\<exists>evs. log w' = log w @ evs \<and>
    (evs = [OpenFailed ''/sys/class/gpio/export'' O_WRONLY] \<or> failed_tail port evs)"
proof (cases "opens (n_open w)")
  case False
  with d have "w' = w\<lparr>n_open := Suc (n_open w),
      log := log w @ [OpenFailed ''/sys/class/gpio/export'' O_WRONLY]\<rparr>"
    by (simp add: drive_def openGpio_def write_file_fail)
  then show ?thesis by simp
next
  case True
  define w1 where "w1 = emit [Slept 500000] (snd (openGpio opens port w))"
  have l1: "\<exists>evs. log w1 = log w @ evs"
    using True by (simp add: w1_def openGpio_def write_file_ok)
  let ?dir = "''/sys/class/gpio/gpio'' @ port @ ''/direction''"
  show ?thesis
  proof (cases "opens (n_open w1)")
    case True2: True
    from True True2 d have "pulses opens port on_us off_us (nat (100 - i0))
        (emit [Slept 100000] (snd (write_file opens ?dir O_WRONLY DIRECTION w1))) = Inr (False, w')"
      by (simp add: drive_def openGpio_def write_file_ok setGpioDirection_def gpio_path_short port
          w1_def emit_def)
    from pulses_log [OF port this] obtain evs where
      evs: "log w' = log (emit [Slept 100000] (snd (write_file opens ?dir O_WRONLY DIRECTION w1))) @ evs"
        "failed_tail port evs" by auto
    from l1 obtain e1 where "log w1 = log w @ e1" ..
    with evs(1) True2 obtain e2 where "log w' = log w @ e1 @ e2 @ evs"
      by (auto simp: write_file_ok simp del: append_Cons)
    with failed_tail_append [OF evs(2), of "e1 @ e2"] show ?thesis by auto
  next
    case False2: False
    define w2 where "w2 = w1\<lparr>n_open := Suc (n_open w1), log := log w1 @ [OpenFailed ?dir O_WRONLY]\<rparr>"
    from True False2 d have "w' = snd (closeGpio opens port w2)"
      by (simp add: drive_def openGpio_def write_file_ok write_file_fail setGpioDirection_def
          gpio_path_short port w1_def w2_def emit_def)
    then have "log w' = log w1 @ OpenFailed ?dir O_WRONLY #
      (if opens (n_open w2) then unexport_events port else [OpenFailed ''/sys/class/gpio/unexport'' O_WRONLY])"
      by (simp add: closeGpio_log w2_def)
    moreover have "failed_tail port (OpenFailed ?dir O_WRONLY #
      (if opens (n_open w2) then unexport_events port else [OpenFailed ''/sys/class/gpio/unexport'' O_WRONLY]))"
      unfolding failed_tail_def by (rule exI [of _ "[]"]) auto
    ultimately show ?thesis using l1 by (auto intro: failed_tail_append)
  qed
qed

text \<open>
  A request always returns; it is refused without touching a pin for every number
  other than 1, 2 and 3; and when a request for one of these fails, the failure is a failed
  \<open>open\<close>, after which the only thing done is the attempt to unexport the pin (nothing, when the
  export itself failed).
\<close>

lemma servo_request_outcome:
  "\<exists>b w'. doReq opens n i0 w = Inr (b, w')
     \<and> (n \<notin> {1, 2, 3} \<longrightarrow> \<not> b \<and> w' = w)
     \<and> (n \<in> {1, 2, 3} \<and> \<not> b \<longrightarrow> (\<exists>port evs. log w' = log w @ evs \<and>
          (evs = [OpenFailed ''/sys/class/gpio/export'' O_WRONLY] \<or> failed_tail port evs)))"
proof -
  obtain b w' where r: "doReq opens n i0 w = Inr (b, w')"
    using doReq_total by blast
  have "n \<notin> {1, 2, 3} \<Longrightarrow> \<not> b \<and> w' = w"
    using r by (auto simp: doReq_def)
  moreover have "\<exists>port evs. log w' = log w @ evs \<and>
          (evs = [OpenFailed ''/sys/class/gpio/export'' O_WRONLY] \<or> failed_tail port evs)"
    if n: "n \<in> {1, 2, 3}" and nb: "\<not> b"
  proof -
    obtain port on_us off_us where "servo_table n = Some (port, on_us, off_us)"
      using servo_table_dom [OF n] by blast
    then have "doReq opens n i0 w = drive opens port on_us off_us i0 w" "length port = 3"
      by (auto simp: doReq_def split: if_splits)
    with r nb drive_log [of port opens on_us off_us i0 w w'] show ?thesis by auto
  qed
  ultimately show ?thesis using r by blast
qed

end
