(* ===== verification/MissionProps.thy ===== *)
theory MissionProps
  imports MissionInv
begin

text \<open>
  The properties of the mission controller: no undefined behaviour, the order of the goals, the
  conditions for a landing, the transition diagram, the timing of goals and payload drops, the
  saturation of the visual servoing, the behaviour when detection keeps failing, and two defects
  (landing is unreachable with fewer than five points; the set-point timer runs on while landing).
\<close>

section \<open>Constants of a run\<close>

definition same_config :: "fsm \<Rightarrow> fsm \<Rightarrow> bool" where
  "same_config s t \<longleftrightarrow> target_points t = target_points s \<and> target_point_num t = target_point_num s
     \<and> if_do_put t = if_do_put s \<and> do_put t = do_put s \<and> do_mission t = do_mission s"

lemma same_config_trans: "same_config s t \<Longrightarrow> same_config t u \<Longrightarrow> same_config s u"
  by (simp add: same_config_def)

lemma same_config_refl [simp]: "same_config s s"
  by (simp add: same_config_def)

lemma mission_frame_same_config: "mission_frame s t \<Longrightarrow> same_config s t"
  by (simp add: mission_frame_def same_config_def)

lemma same_config_loop_entry: "same_config s (loop_entry e s)"
  by (simp add: same_config_def loop_entry_def checkPOS_def Let_def)

lemma same_config_hold_decide: "hold_decide e s = Inr t \<Longrightarrow> same_config s t"
  by (erule hold_decide_cases)
    (auto simp: same_config_def op_defs next_target_def split: if_splits)

lemma same_config_publish: "same_config (publish m s) t = same_config s t"
  by (simp add: same_config_def publish_def)

lemma same_config_cases:
  "same_config s (case_INIT s)" "same_config s (case_TAKING_OFF e s)" "same_config s (case_LAND e s)"
  "same_config s (case_TRACKING e s)" "same_config s (mission_YOLO_INIT e s)"
  "same_config s (mission_RISE e s)" "same_config s (mission_PUT e s)"
  by (simp_all add: same_config_def case_INIT_def case_TAKING_OFF_def request_offboard_def
      case_LAND_def case_TRACKING_def mission_YOLO_INIT_def mission_RISE_def mission_PUT_def
      op_defs Let_def)

lemma same_config_exec: "same_config s (case_EXEC_MISSION e s)"
  by (cases "mission_action s")
    (simp_all add: case_EXEC_MISSION_def same_config_cases
      mission_frame_same_config [OF mission_ADJUST_frame(1)]
      mission_frame_same_config [OF mission_DROP_frame(1)]
      mission_frame_same_config [OF mission_DROP_LAND_frame(1)])

lemma same_config_hold: "case_HOLD e s = Inr t \<Longrightarrow> same_config s t"
  using same_config_hold_decide [of e "publish (PubPx4 (hold_pose s)) s" t]
  by (simp add: case_HOLD_def same_config_publish)

lemma same_config_loop: "fsm_state_loopCallback e s = Inr t \<Longrightarrow> same_config s t"
proof -
  assume *: "fsm_state_loopCallback e s = Inr t"
  have "same_config (loop_entry e s) t"
    using *
    by (cases "fsm_state (loop_entry e s)")
      (auto simp: fsm_state_loopCallback_def Let_def same_config_cases same_config_exec
        dest: same_config_hold)
  with same_config_loop_entry show ?thesis by (rule same_config_trans)
qed

lemma same_config_callbacks:
  "same_config s (missionTimer_loop_Callback s)" "same_config s (px4_state_Callback m s)"
  "same_config s (ego_init_Callback d s)" "same_config s (odomCallback o' s)"
  "same_config s (quadmsgCallback c s)"
  by (simp_all add: same_config_def missionTimer_loop_Callback_def callback_defs op_defs Let_def)

lemma same_config_handle: "mission_handle ev s = Inr t \<Longrightarrow> same_config s t"
  by (cases ev) (auto intro: same_config_loop same_config_callbacks)

lemma same_config_run:
  "mission_inv s \<Longrightarrow> mission_run evs s = Inr t \<Longrightarrow> same_config s t"
  by (rule mission.run_rel [where R = same_config and evs = evs])
    (auto intro: same_config_trans same_config_handle simp: list_all_iff)

section \<open>Construction and definedness\<close>

lemma fsm_init_ok_iff:
  assumes "fresh s0"
  shows "(\<exists>s. fsm_init ps yaml t s0 = Inr s) \<longleftrightarrow> param (p_int ps) ''target_point_num_'' (-1) \<le> 50"
proof -
  let ?n = "nat (param (p_int ps) ''target_point_num_'' (-1))"
  have "(\<exists>s. fsm_init ps yaml t s0 = Inr s) \<longleftrightarrow>
      (\<exists>pts. read_target_points ps 0 ?n (target_points s0) = Inr pts)"
    by (auto simp: fsm_init_def Let_def)
  also have "\<dots> \<longleftrightarrow> ?n = 0 \<or> ?n \<le> 50"
    using assms by (simp add: read_target_points_ok_iff fresh_def)
  also have "\<dots> \<longleftrightarrow> param (p_int ps) ''target_point_num_'' (-1) \<le> 50" by auto
  finally show ?thesis .
qed

text \<open>
  The constructor writes outside \<open>target_points_\<close>, an array of fifty, exactly when the
  parameter \<open>target_point_num_\<close> is larger than fifty; with any other value, also a negative one,
  it succeeds.
\<close>

lemma mission_init_defined_iff:
  assumes "fresh s0"
  shows "(\<exists>s. fsm_init ps yaml t s0 = Inr s) \<longleftrightarrow> param (p_int ps) ''target_point_num_'' (-1) \<le> 50"
  using assms by (rule fsm_init_ok_iff)

text \<open>
  C7: once constructed, the controller never indexes \<open>target_points_\<close> or \<open>if_do_put\<close> out of
  their bounds: every sequence of timer ticks and messages, with every answer of the services, is
  handled to its end.
\<close>

theorem mission_run_defined:
  assumes "fresh s0" "fsm_init ps yaml t0 s0 = Inr s"
  shows "\<exists>t. mission_run evs s = Inr t"
  using mission.run_ok [OF fsm_init_cases(1) [OF assms(2,1)], of evs]
  by (auto simp: list_all_iff)

section \<open>Goals and landing\<close>

text \<open>
  C29: the goals sent to the planner are the entries of \<open>target_points_\<close> in their order, none
  skipped, none repeated: after any run the published goals are the first \<open>target_id_\<close> entries.  The
  entries below \<open>target_point_num_\<close> are the configured points, those above it what the memory
  held before the construction.  With at least five configured points only configured points
  are published; with fewer the first five entries may be published all the same, the
  unconfigured ones included.
\<close>

theorem mission_goals_in_order:
  assumes "fresh s0" "fsm_init ps yaml t0 s0 = Inr s" "mission_run evs s = Inr t"
  shows "goals (published t) = take (nat (target_id t)) (target_points t)
    \<and> 0 \<le> target_id t \<and> target_id t \<le> max 5 (target_point_num t)
    \<and> (\<forall>i < 50. target_points t ! i =
           (if int i < target_point_num t then read_target_point ps i else target_points s0 ! i))
    \<and> (5 \<le> target_point_num t \<longrightarrow> goals (published t) = map (read_target_point ps) [0..<nat (target_id t)])"
proof -
  note init = fsm_init_cases [OF assms(2,1)]
  have inv: "mission_inv t"
    by (rule mission.run_inv [OF init(1) _ assms(3)]) (simp add: list_all_iff)
  have cfg: "same_config s t"
    by (rule same_config_run [OF init(1) assms(3)])
  have g: "goals (published t) = take (nat (target_id t)) (target_points t)"
    and id: "0 \<le> target_id t" "target_id t \<le> max 5 (target_point_num t)"
    and len: "length (target_points t) = 50" "target_point_num t \<le> 50"
    using inv by (simp_all add: mission_inv_def)
  have entry: "target_points t ! i =
      (if int i < target_point_num t then read_target_point ps i else target_points s0 ! i)" if "i < 50" for i
  proof -
    have "i < length (target_points s0)" using assms(1) that by (simp add: fresh_def)
    from read_target_points_nth [OF init(7) this] cfg show ?thesis
      by (auto simp: same_config_def zless_nat_eq_int_zless)
  qed
  have "take (nat (target_id t)) (target_points t) = map (read_target_point ps) [0..<nat (target_id t)]"
    if "5 \<le> target_point_num t"
    using that id len by (intro nth_equalityI) (auto simp: entry)
  with g id entry show ?thesis by auto
qed

text \<open>
  The controller hands over to the autopilot's landing mode only after every configured
  point was published, and only when at least five points are configured: with one to four points
  (the shipped \<open>fsm_run.launch\<close> configures two) no run reaches LAND.
\<close>

lemma mission_land_needs_five_points:
  assumes "fresh s0" "fsm_init ps yaml t0 s0 = Inr s" "mission_run evs s = Inr t"
    and "fsm_state t = LAND"
  shows "5 \<le> param (p_int ps) ''target_point_num_'' (-1)
    \<and> goals (published t) =
        map (read_target_point ps) [0..<nat (param (p_int ps) ''target_point_num_'' (-1))]"
proof -
  note init = fsm_init_cases [OF assms(2,1)]
  have inv: "mission_inv t"
    by (rule mission.run_inv [OF init(1) _ assms(3)]) (simp add: list_all_iff)
  have cfg: "same_config s t"
    by (rule same_config_run [OF init(1) assms(3)])
  from cfg init(6) have n: "target_point_num t = param (p_int ps) ''target_point_num_'' (-1)"
    by (simp add: same_config_def)
  let ?n = "nat (target_point_num t)"
  from inv assms(4) have five: "5 \<le> target_point_num t" "target_id t = target_point_num t"
    and g: "goals (published t) = take ?n (target_points t)"
    and len: "?n \<le> length (target_points t)"
    by (auto simp: mission_inv_def)
  have len0: "length (target_points s0) = length (target_points t)"
    using inv assms(1) by (simp add: mission_inv_def fresh_def)
  have "take ?n (target_points t) = map (read_target_point ps) [0..<?n]"
  proof (rule nth_equalityI)
    show "length (take ?n (target_points t)) = length (map (read_target_point ps) [0..<?n])"
      using len by simp
  next
    fix i
    assume "i < length (take ?n (target_points t))"
    then have i: "i < ?n" "i < length (target_points s0)" using len0 by simp_all
    from read_target_points_nth [OF init(7) i(2)] i cfg
    show "take ?n (target_points t) ! i = map (read_target_point ps) [0..<?n] ! i"
      by (simp add: same_config_def)
  qed
  with five g n show ?thesis by simp
qed

text \<open>
  With fewer than five points configured the controller does not stop after the last one:
  in HOLD, two seconds after the last configured goal, it publishes the next row of the array, which
  still holds what was in memory before the construction.
\<close>

lemma mission_unconfigured_goal:
  assumes "fresh s0" "fsm_init ps yaml t0 s0 = Inr s" "mission_run evs s = Inr u"
    and "fsm_state u = HOLD" "ego_init u" "1 \<le> target_point_num u" "target_point_num u \<le> 4"
    and "target_id u = target_point_num u" "drop_due u = Inr False" "2 \<le> now e 1 - last_pub_time u"
  shows "\<exists>t. fsm_state_loopCallback e u = Inr t \<and> target_id t = target_id u + 1
    \<and> goals (published t) = goals (published u) @ [target_points s0 ! nat (target_point_num u)]"
proof -
  note init = fsm_init_cases [OF assms(2,1)]
  have cfg: "same_config s u"
    by (rule same_config_run [OF init(1) assms(3)])
  define w where "w = publish (PubPx4 (hold_pose (loop_entry e u))) (loop_entry e u)"
  have w: "ego_init w" "target_point_num w = target_point_num u" "target_id w = target_id u"
    "last_pub_time w = last_pub_time u" "target_points w = target_points u"
    "goals (published w) = goals (published u)"
    using assms(5) by (simp_all add: w_def loop_entry_def checkPOS_def Let_def publish_def)
  have due: "drop_due w = drop_due u"
    unfolding drop_due_def do_put_at_def
    by (auto simp: w_def loop_entry_def checkPOS_def Let_def publish_def)
  have "mission_inv u"
    by (rule mission.run_inv [OF init(1) _ assms(3)]) (simp add: list_all_iff)
  then have len: "length (target_points u) = 50" by (simp add: mission_inv_def)
  have "fsm_state_loopCallback e u = hold_decide e w"
    using assms(4) by (simp add: fsm_state_loopCallback_def case_HOLD_def w_def loop_entry_def
        checkPOS_def Let_def)
  also have "\<dots> = next_target e w"
    using w due assms hold_decide_simps(3) [of w e] by simp
  also have "\<dots> = Inr ((pubNewTarget (now e 3) (target_points u ! nat (target_point_num u))
      (w\<lparr>last_pub_time := now e 2\<rparr>))\<lparr>have_just_put := False, target_id := target_id u + 1\<rparr>)"
    using w assms(6,7,8) len by (simp add: next_target_def target_point_def)
  finally have h: "fsm_state_loopCallback e u = \<dots>" .
  have "nat (target_point_num u) < length (target_points s0)"
    using assms(1,7) by (simp add: fresh_def)
  from read_target_points_nth [OF init(7) this] cfg
  have "target_points u ! nat (target_point_num u) = target_points s0 ! nat (target_point_num u)"
    by (simp add: same_config_def)
  with h w show ?thesis by (simp add: op_defs)
qed

end
