(* ===== verification/MissionEscalation.thy ===== *)
theory MissionEscalation
  imports MissionDynamics
begin

text \<open>
  What a mission does over time: the bound on the set-point while servoing on detections, the
  escalation when the detector keeps failing (two climbs, then a blind drop), and the landing, which
  is final.
\<close>

section \<open>The horizontal set-point\<close>

abbreviation horizontal :: "position_target \<Rightarrow> real \<times> real" where
  "horizontal p \<equiv> (vx (position p), vy (position p))"

lemma horizontal_set_z [simp]: "horizontal (set_z z t p) = horizontal p"
  by (simp add: set_z_def)

lemma set_z_xy [simp]: "vx (position (set_z z t p)) = vx (position p)"
  "vy (position (set_z z t p)) = vy (position p)" "vz (position (set_z z t p)) = z"
  by (simp_all add: set_z_def)

definition within_limit :: "fsm \<Rightarrow> position_target \<Rightarrow> bool" where
  "within_limit s p \<longleftrightarrow> \<bar>vx (position p) - (vx (odom_pos s) - 15/100)\<bar> \<le> pnp_limit s
     \<and> \<bar>vy (position p) - vy (odom_pos s)\<bar> \<le> pnp_limit s"

lemma within_updatepnpPos:
  "0 \<le> pnp_limit u \<Longrightarrow> odom_pos u = odom_pos s \<Longrightarrow> pnp_limit u = pnp_limit s \<Longrightarrow>
   within_limit s (mission_pose (updatepnpPos t dx dy u))"
  using near_setpoint [of u t dx dy] by (simp add: within_limit_def)

lemma within_limit_xy:
  "horizontal p = horizontal q \<Longrightarrow> within_limit s p = within_limit s q"
  by (simp add: within_limit_def)

lemma adjust_detected_pose:
  "horizontal (mission_pose (snd (adjust_detected e r s))) =
   horizontal (mission_pose (updatepnpPos (now e 1)
     (fst (servo_offset (put_servo_id s) (yolo_x r / 100, yolo_y r / 100)))
     (snd (servo_offset (put_servo_id s) (yolo_x r / 100, yolo_y r / 100)))
     (s\<lparr>yolo_detect := r, overtime_t := 0\<rparr>)))"
  by (simp add: adjust_detected_def changeMissionAction_def Let_def)

lemma adjust_overtime_pose: "horizontal (mission_pose (adjust_overtime s)) = horizontal (mission_pose s)"
  by (simp add: adjust_overtime_def changeMissionAction_def)

lemma mission_ADJUST_pose:
  assumes "yolo_reply e = Some r"
  shows "horizontal (mission_pose (mission_ADJUST e s)) =
    horizontal (mission_pose (snd (adjust_detected e r (publish CallYolo s))))"
  using assms adjust_overtime_pose [of "snd (adjust_detected e r (publish CallYolo s))"]
  by (simp add: mission_ADJUST_def adjust_detect_def case_prod_beta)

lemma within_ADJUST:
  assumes "yolo_reply e = Some r" "0 \<le> pnp_limit s"
  shows "within_limit s (mission_pose (mission_ADJUST e s))"
proof -
  have "within_limit s (mission_pose (updatepnpPos (now e 1)
     (fst (servo_offset (put_servo_id (publish CallYolo s)) (yolo_x r / 100, yolo_y r / 100)))
     (snd (servo_offset (put_servo_id (publish CallYolo s)) (yolo_x r / 100, yolo_y r / 100)))
     ((publish CallYolo s)\<lparr>yolo_detect := r, overtime_t := 0\<rparr>)))"
    using assms(2) by (intro within_updatepnpPos) (simp_all add: publish_def)
  then show ?thesis
    using within_limit_xy mission_ADJUST_pose [OF assms(1), of s]
      adjust_detected_pose [of e r "publish CallYolo s"] by metis
qed

lemma within_DROP:
  assumes "yolo_reply e = Some r" "0 \<le> pnp_limit s"
  shows "within_limit s (mission_pose (mission_DROP e s))"
proof -
  let ?d = "servo_offset (put_servo_id (publish CallYolo s)) (yolo_x r / 100, yolo_y r / 100)"
  let ?u = "updatepnpPos (now e 1) (fst ?d) (snd ?d) ((publish CallYolo s)\<lparr>yolo_detect := r, overtime_t := 0\<rparr>)"
  have "within_limit s (mission_pose ?u)"
    using assms(2) by (intro within_updatepnpPos) (simp_all add: publish_def)
  moreover have "horizontal (mission_pose (mission_DROP e s)) = horizontal (mission_pose ?u)"
    using assms(1) by (simp add: mission_DROP_def changeMissionAction_def Let_def)
  ultimately show ?thesis using within_limit_xy by metis
qed

lemma within_DROP_LAND:
  assumes "yolo_reply e = Some r" "0 \<le> pnp_limit s"
  shows "within_limit s (mission_pose (mission_DROP_LAND e s))"
proof -
  let ?u = "updatepnpPos (now e 1) (yolo_x r / 100) (yolo_y r / 100)
    ((publish CallYolo s)\<lparr>yolo_detect := r, overtime_t := 0\<rparr>)"
  have "within_limit s (mission_pose ?u)"
    using assms(2) by (intro within_updatepnpPos) (simp_all add: publish_def)
  moreover have "horizontal (mission_pose (mission_DROP_LAND e s)) = horizontal (mission_pose ?u)"
    using assms(1) by (simp add: mission_DROP_LAND_def changeFSMState_def Let_def)
  ultimately show ?thesis using within_limit_xy by metis
qed

text \<open>
  C36: as long as the detector answers, no detection, however wrong, moves the set-point of a
  mission further than \<open>pnp_limit_\<close> from the measured position on the y axis, nor further than
  \<open>pnp_limit_\<close> from 15 cm below the measured coordinate on the x axis (the code subtracts these 15 cm
  after the saturation).
\<close>

theorem mission_servoing_bounded:
  assumes "fsm_state_loopCallback e s = Inr t" "fsm_state s = EXEC_MISSION"
    and "mission_action s \<in> {ADJUST, DROP, DROP_LAND}"
    and "yolo_reply e = Some r" "0 \<le> pnp_limit s"
  shows "\<bar>vx (position (mission_pose t)) - (vx (odom_pos s) - 15/100)\<bar> \<le> pnp_limit s
    \<and> \<bar>vy (position (mission_pose t)) - vy (odom_pos s)\<bar> \<le> pnp_limit s"
proof -
  let ?u = "loop_entry e s"
  have "t = case_EXEC_MISSION e ?u"
    using assms(1,2) by (simp add: fsm_state_loopCallback_def Let_def)
  moreover have "within_limit ?u (mission_pose (case_EXEC_MISSION e ?u))"
    using assms(3-5) within_ADJUST [of e r ?u] within_DROP [of e r ?u] within_DROP_LAND [of e r ?u]
    by (auto simp: case_EXEC_MISSION_def)
  ultimately show ?thesis by (simp add: within_limit_def)
qed

section \<open>Failing detection\<close>

text \<open>
  The part of the state a failed detection in ADJUST works on, and its step on that part: the
  counter \<open>overtime_t_\<close>, the number \<open>nn\<close> of climbs, the height of the set-point and the action.
\<close>

record escalation =
  esc_time :: int
  esc_climbs :: int
  esc_z :: real
  esc_action :: mission_action

definition view :: "fsm \<Rightarrow> escalation" where
  "view s = \<lparr>esc_time = overtime_t s, esc_climbs = nn s, esc_z = vz (position (mission_pose s)),
             esc_action = mission_action s\<rparr>"

lemma view_sel [simp]:
  "esc_time (view s) = overtime_t s" "esc_climbs (view s) = nn s"
  "esc_z (view s) = vz (position (mission_pose s))" "esc_action (view s) = mission_action s"
  by (simp_all add: view_def)

definition escalate :: "int \<Rightarrow> escalation \<Rightarrow> escalation" where
  "escalate limit x =
     (let n = esc_time x + 1
      in if n > limit \<and> esc_climbs x \<ge> 2 then x\<lparr>esc_time := 0, esc_action := DROP, esc_climbs := 0\<rparr>
         else if n > limit then x\<lparr>esc_time := 0, esc_climbs := esc_climbs x + 1, esc_z := esc_z x + 3/10\<rparr>
         else x\<lparr>esc_time := n\<rparr>)"

definition failing :: "fsm \<Rightarrow> bool" where
  "failing s \<longleftrightarrow> fsm_state s = EXEC_MISSION \<and> mission_action s = ADJUST"

lemma failed_tick:
  assumes "yolo_reply e = None" "failing s"
  obtains t where "fsm_state_loopCallback e s = Inr t"
    "view t = escalate (overtime_thre1 s * 60) (view s)" "overtime_thre1 t = overtime_thre1 s"
    "fsm_state t = EXEC_MISSION" "put_servo_id t = put_servo_id s" "do_land t = do_land s"
proof
  let ?u = "loop_entry e s"
  show "fsm_state_loopCallback e s = Inr (mission_ADJUST e ?u)"
    using assms by (simp add: failing_def fsm_state_loopCallback_def case_EXEC_MISSION_def Let_def)
  show "view (mission_ADJUST e ?u) = escalate (overtime_thre1 s * 60) (view s)"
    "overtime_thre1 (mission_ADJUST e ?u) = overtime_thre1 s"
    "fsm_state (mission_ADJUST e ?u) = EXEC_MISSION"
    "put_servo_id (mission_ADJUST e ?u) = put_servo_id s" "do_land (mission_ADJUST e ?u) = do_land s"
    using assms by (simp_all add: failing_def mission_ADJUST_def adjust_detect_def adjust_overtime_def
        view_def escalate_def changeMissionAction_def publish_def Let_def)
qed

text \<open>The simulation over several failed ticks, while the action stays ADJUST.\<close>

lemma failed_ticks:
  "\<forall>e \<in> set es. yolo_reply e = None \<Longrightarrow> failing s \<Longrightarrow>
   (\<forall>k < length es. esc_action ((escalate (overtime_thre1 s * 60) ^^ k) (view s)) = ADJUST) \<Longrightarrow>
   \<exists>t. mission_run (map Loop es) s = Inr t
     \<and> view t = (escalate (overtime_thre1 s * 60) ^^ length es) (view s)
     \<and> fsm_state t = EXEC_MISSION \<and> put_servo_id t = put_servo_id s \<and> do_land t = do_land s"
proof (induction es arbitrary: s)
  case Nil
  then show ?case by (simp add: failing_def)
next
  case (Cons e es)
  let ?f = "escalate (overtime_thre1 s * 60)"
  from Cons.prems obtain u where u: "fsm_state_loopCallback e s = Inr u" "view u = ?f (view s)"
    "overtime_thre1 u = overtime_thre1 s" "fsm_state u = EXEC_MISSION"
    "put_servo_id u = put_servo_id s" "do_land u = do_land s"
    by (auto elim: failed_tick [of e s])
  have shift: "(?f ^^ k) (view u) = (?f ^^ Suc k) (view s)" for k
    by (simp only: u(2) funpow_Suc_right o_apply)
  show ?case
  proof (cases es)
    case Nil
    with u show ?thesis by simp
  next
    case (Cons e' es')
    have "esc_action ((?f ^^ Suc 0) (view s)) = ADJUST"
      using Cons.prems(3) Cons by (auto dest!: spec [of _ "Suc 0"])
    then have "esc_action (view u) = ADJUST"
      by (simp only: u(2) funpow.simps o_apply id_apply)
    then have "failing u"
      using u(4) by (simp add: failing_def)
    moreover have "\<forall>k < length es. esc_action ((escalate (overtime_thre1 u * 60) ^^ k) (view u)) = ADJUST"
      unfolding u(3) shift using Cons.prems(3) by (auto simp del: funpow.simps view_sel)
    ultimately obtain t where t: "mission_run (map Loop es) u = Inr t"
      "view t = (?f ^^ length es) (view u)"
      "fsm_state t = EXEC_MISSION" "put_servo_id t = put_servo_id u" "do_land t = do_land u"
      using Cons.IH [of u] Cons.prems(1) u(3) by auto
    from t(2) have "view t = (?f ^^ Suc (length es)) (view s)"
      by (simp only: shift)
    with t u show ?thesis by simp
  qed
qed

lemma escalate_count:
  "0 \<le> limit \<Longrightarrow> esc_time x = 0 \<Longrightarrow> int k \<le> limit \<Longrightarrow> (escalate limit ^^ k) x = x\<lparr>esc_time := int k\<rparr>"
proof (induction k)
  case 0
  then show ?case by simp
next
  case (Suc k)
  then have IH: "(escalate limit ^^ k) x = x\<lparr>esc_time := int k\<rparr>" by simp
  have "(escalate limit ^^ Suc k) x = escalate limit (x\<lparr>esc_time := int k\<rparr>)"
    by (simp only: funpow.simps o_apply IH)
  also have "\<dots> = x\<lparr>esc_time := int (Suc k)\<rparr>"
    using Suc.prems by (simp add: escalate_def Let_def)
  finally show ?case .
qed

lemma escalate_phase:
  assumes "0 \<le> limit" "esc_time x = 0"
  shows "(escalate limit ^^ Suc (nat limit)) x =
    (if esc_climbs x \<ge> 2 then x\<lparr>esc_time := 0, esc_action := DROP, esc_climbs := 0\<rparr>
     else x\<lparr>esc_time := 0, esc_climbs := esc_climbs x + 1, esc_z := esc_z x + 3/10\<rparr>)"
proof -
  have *: "(escalate limit ^^ nat limit) x = x\<lparr>esc_time := limit\<rparr>"
    using escalate_count [OF assms, of "nat limit"] assms by simp
  have "(escalate limit ^^ Suc (nat limit)) x = escalate limit (x\<lparr>esc_time := limit\<rparr>)"
    by (simp only: funpow.simps o_apply *)
  then show ?thesis using assms by (simp add: escalate_def Let_def)
qed

text \<open>Before the last tick of the third phase the action is still ADJUST.\<close>

lemma escalate_action:
  assumes "0 \<le> limit" "esc_time x = 0" "esc_climbs x = 0" "esc_action x = ADJUST"
    and "k < 3 * Suc (nat limit)"
  shows "esc_action ((escalate limit ^^ k) x) = ADJUST"
proof -
  let ?N = "Suc (nat limit)" and ?f = "escalate limit"
  have p1: "(?f ^^ ?N) x = x\<lparr>esc_climbs := 1, esc_z := esc_z x + 3/10\<rparr>" (is "_ = ?y")
    using escalate_phase [OF assms(1,2)] assms(2,3) by simp
  have p2: "(?f ^^ ?N) ?y = x\<lparr>esc_climbs := 2, esc_z := esc_z x + 3/10 + 3/10\<rparr>" (is "_ = ?z")
    using escalate_phase [OF assms(1), of ?y] assms(2) by simp
  have flat: "esc_action ((?f ^^ j) w) = ADJUST" if "j < ?N" "esc_time w = 0" "esc_action w = ADJUST" for j w
  proof -
    from that(1) assms(1) have "int j \<le> limit" by auto
    from escalate_count [OF assms(1) that(2) this] that(3) show ?thesis by simp
  qed
  consider "k < ?N" | "?N \<le> k" "k < ?N + ?N" | "?N + ?N \<le> k" by linarith
  then show ?thesis
  proof cases
    case 1
    with flat assms show ?thesis by blast
  next
    case 2
    then obtain j where j: "k = j + ?N" "j < ?N" by (metis add.commute le_Suc_ex nat_add_left_cancel_less)
    have "(?f ^^ k) x = (?f ^^ j) ?y" by (simp only: j(1) funpow_add o_apply p1)
    with flat [OF j(2), of ?y] assms show ?thesis by simp
  next
    case 3
    then obtain j where j: "k = j + (?N + ?N)" by (metis add.commute le_Suc_ex)
    with assms(5) have "j < ?N" by simp
    have "(?f ^^ k) x = (?f ^^ j) ?z" by (simp only: j funpow_add o_apply p1 p2)
    with flat [OF \<open>j < ?N\<close>, of ?z] assms show ?thesis by simp
  qed
qed

text \<open>
  When detection fails in every tick, the controller does not wait for ever: it climbs
  30 cm after \<open>60 overtime_thre1 + 1\<close> ticks, climbs again after as many, and after as many again
  starts a drop without a detection.  The landing flag plays no part in this: with \<open>do_land_\<close> set the
  controller starts a drop, not a landing.
\<close>

lemma mission_blind_drop:
  assumes fails: "\<forall>e \<in> set es. yolo_reply e = None"
    and len: "length es = 3 * Suc (nat (60 * overtime_thre1 s))"
    and start: "fsm_state s = EXEC_MISSION" "mission_action s = ADJUST"
      "overtime_t s = 0" "nn s = 0" "0 \<le> overtime_thre1 s"
  shows "\<exists>t. mission_run (map Loop es) s = Inr t \<and> fsm_state t = EXEC_MISSION
    \<and> mission_action t = DROP \<and> do_land t = do_land s \<and> put_servo_id t = put_servo_id s
    \<and> vz (position (mission_pose t)) = vz (position (mission_pose s)) + 6/10"
proof -
  let ?l = "overtime_thre1 s * 60"
  let ?N = "Suc (nat ?l)" and ?f = "escalate ?l" and ?x = "view s"
  have x: "esc_time ?x = 0" "esc_climbs ?x = 0" "esc_action ?x = ADJUST"
    using start by simp_all
  have l: "0 \<le> ?l" using start(5) by simp
  have len': "length es = 3 * ?N" using len by (simp add: mult.commute)
  have "\<exists>t. mission_run (map Loop es) s = Inr t \<and> view t = (?f ^^ length es) ?x
     \<and> fsm_state t = EXEC_MISSION \<and> put_servo_id t = put_servo_id s \<and> do_land t = do_land s"
    by (rule failed_ticks) (use fails start len' escalate_action [OF l x] in \<open>auto simp: failing_def\<close>)
  then obtain t where t: "mission_run (map Loop es) s = Inr t" "view t = (?f ^^ length es) ?x"
    "fsm_state t = EXEC_MISSION" "put_servo_id t = put_servo_id s" "do_land t = do_land s"
    by blast
  have p1: "(?f ^^ ?N) ?x = ?x\<lparr>esc_climbs := 1, esc_z := esc_z ?x + 3/10\<rparr>" (is "_ = ?y")
    using escalate_phase [OF l x(1)] x by simp
  have p2: "(?f ^^ ?N) ?y = ?x\<lparr>esc_climbs := 2, esc_z := esc_z ?x + 3/10 + 3/10\<rparr>" (is "_ = ?z")
    using escalate_phase [OF l, of ?y] x by simp
  have "length es = ?N + (?N + ?N)" using len' by simp
  then have "view t = (?f ^^ ?N) ?z"
    unfolding t(2) by (simp only: funpow_add o_apply p1 p2)
  also have "\<dots> = ?x\<lparr>esc_action := DROP, esc_climbs := 0, esc_z := esc_z ?x + 6/10\<rparr>"
    using escalate_phase [OF l, of ?z] x by simp
  finally have "mission_action t = DROP"
    "vz (position (mission_pose t)) = vz (position (mission_pose s)) + 6/10"
    by (simp_all flip: view_sel)
  with t show ?thesis by blast
qed

section \<open>Landing\<close>

lemma mission_edge_LANDE: "mission_edge s ev q \<Longrightarrow> fsm_state s \<noteq> LAND"
  by (auto elim: mission_edge.cases)

text \<open>
  The hand-over to the autopilot is final: after it no event changes the mode again.  But
  the timer that streams the set-point of the mission is never stopped on this way, so each of
  its ticks still sends the autopilot a position set-point during the landing.
\<close>

lemma mission_land_final:
  assumes "fresh s0" "fsm_init ps yaml t0 s0 = Inr s" "mission_run evs s = Inr u"
    and "fsm_state u = LAND" "mission_run evs' u = Inr t"
  shows "fsm_state t = LAND \<and> mission_timer t
    \<and> mission_handle MissionTimer t = Inr (publish (PubPx4 (mission_pose t)) t)"
proof -
  have inv: "mission_inv u"
    by (rule mission.run_inv [OF fsm_init_cases(1) [OF assms(2,1)] _ assms(3)]) (simp add: list_all_iff)
  have inv': "mission_inv t"
    by (rule mission.run_inv [OF inv _ assms(5)]) (simp add: list_all_iff)
  have "fsm_state u = LAND \<longrightarrow> fsm_state t = LAND"
    by (rule mission.run_rel [where R = "\<lambda>s t. fsm_state s = LAND \<longrightarrow> fsm_state t = LAND", OF _ _ _ inv _ assms(5)])
      (auto simp: list_all_iff dest: mission_follows_edge mission_edge_LANDE)
  with assms(4) inv' show ?thesis
    by (auto simp: mission_inv_def missionTimer_loop_Callback_def)
qed

end
