(* ===== verification/MissionDemo.thy ===== *)
theory MissionDemo
  imports MissionProps MissionEscalation MissionServo
begin

text \<open>
  A complete run of the mission controller, evaluated: construction with five points (their
  coordinates are the defaults of the parameter server), take-off, the five goals, the landing.  The
  witnesses of the properties are taken from it.
\<close>

definition demo_raw :: fsm where
  "demo_raw = \<lparr>fsm_state = INIT, mission_action = YOLO_INIT, vel_mask = VEL_MASK, use_sim = False,
     px4_current_state = \<lparr>connected = False, armed = False, px4_mode = []\<rparr>,
     px4_last_state = \<lparr>connected = False, armed = False, px4_mode = []\<rparr>,
     mission_timer = False, hold_time = 0, taking_off_pose = position_target_zero,
     hold_pose = position_target_zero, do_mission = False, do_put = False, have_just_put = False,
     mission_pose = position_target_zero, put_height = 0, hold_height = 0, detect_height = 0,
     land_height = 0, adjust_height = 0, pnp_k = 0, overtime_t = 0, overtime_thre1 = 0,
     overtime_thre2 = 0, detect_overtime = 0, have_odom = False, odom_pos = vzero, odom_vel = vzero,
     odom_orient = (0, 0, 0, 0), targetPos = vzero, targetVel = vzero, targetAcc = vzero,
     ego_Yaw = 0, use_yaw = False, takeoff_pos = vzero, cur_target = vzero,
     target_points = replicate 50 (Vec3 77 77 77), target_point_num = 0, target_id = 0,
     last_pub_time = 0, ego_init = False, pause_track = False, pnp_limit = 0, tent_id = 0,
     land_id = 0, put_servo_id = 0, do_land = False, have_adjusted = False,
     if_do_put = [False, False, False, False], pid_x = pid_new 0 0 0, pid_y = pid_new 0 0 0,
     pid_z = pid_new 0 0 0,
     yolo_detect = \<lparr>is_detect = False, min_type = 0, yolo_x = 0, yolo_y = 0, yolo_z = 0\<rparr>,
     last_request_set = False, last_request = 0, fsm_num = 0, nn = 0, published = []\<rparr>"

definition demo_params :: "int \<Rightarrow> params" where
  "demo_params n = \<lparr>p_bool = (\<lambda>_. None),
     p_int = (\<lambda>s. if s = ''target_point_num_'' then Some n else None), p_double = (\<lambda>_. None)\<rparr>"

lemma demo_fresh: "fresh demo_raw"
  by (simp add: fresh_def demo_raw_def)

text \<open>A tick at time \<open>t\<close>; every service answers, the detector sees the target straight below.\<close>

definition tick :: "real \<Rightarrow> loop_env" where
  "tick t = \<lparr>now = (\<lambda>_. t), set_mode_ok = True, arming_ok = True,
     yolo_reply = Some \<lparr>is_detect = True, min_type = 1, yolo_x = 0, yolo_y = 5, yolo_z = 100\<rparr>,
     servo_reply = (\<lambda>n. n \<in> {1, 2, 3})\<rparr>"

lemma tick_sel [simp]:
  "now (tick t) k = t" "servo_reply (tick t) = (\<lambda>n. n \<in> {1, 2, 3})"
  "yolo_reply (tick t) =
     Some \<lparr>is_detect = True, min_type = 1, yolo_x = 0, yolo_y = 5, yolo_z = 100\<rparr>"
  by (simp_all add: tick_def)

definition demo_takeoff :: "mission_event list" where
  "demo_takeoff = [Px4State \<lparr>connected = True, armed = True, px4_mode = ''OFFBOARD''\<rparr>, EgoInit True,
     Odom \<lparr>pose_position = Vec3 0 0 (11/10), pose_orientation = (0, 0, 0, 1), twist_linear = vzero\<rparr>,
     Loop (tick 1), Loop (tick 2)]"

definition demo_init :: "int \<Rightarrow> fsm" where
  "demo_init n = projr (fsm_init (demo_params n) None 0 demo_raw)"

lemma demo_init_eq:
  assumes "n \<le> 50"
  shows "fsm_init (demo_params n) None 0 demo_raw = Inr (demo_init n)"
  using fsm_init_ok_iff [OF demo_fresh, of "demo_params n" None 0] assms
  by (auto simp: demo_init_def demo_params_def param_def)

section \<open>Stage by stage\<close>

text \<open>What the stages of the run have in common.\<close>

definition stage :: "fsm \<Rightarrow> fsm_state \<Rightarrow> int \<Rightarrow> int \<Rightarrow> real \<Rightarrow> bool" where
  "stage s st n i u \<longleftrightarrow> fsm_state s = st \<and> target_point_num s = n \<and> target_id s = i
     \<and> last_pub_time s = u \<and> put_servo_id s = 3 \<and> ego_init s \<and> \<not> do_mission s \<and> length (target_points s) = 50"

lemma demo_init_sel:
  assumes "n \<le> 50"
  shows "fsm_state (demo_init n) = INIT" "target_id (demo_init n) = 0"
    "target_point_num (demo_init n) = n" "length (target_points (demo_init n)) = 50"
    "\<not> use_sim (demo_init n)" "\<not> do_mission (demo_init n)" "\<not> have_adjusted (demo_init n)"
    "takeoff_pos (demo_init n) = Vec3 0 0 (11/10)" "detect_overtime (demo_init n) = 0"
    "put_servo_id (demo_init n) = 3" "published (demo_init n) = []" "last_pub_time (demo_init n) = 0" "overtime_thre1 (demo_init n) = 5"
proof -
  note eq = demo_init_eq [OF assms]
  note c = fsm_init_cases [OF eq demo_fresh]
  from c(1) show "length (target_points (demo_init n)) = 50" by (simp add: mission_inv_def)
  from c show "fsm_state (demo_init n) = INIT" "target_id (demo_init n) = 0"
    "put_servo_id (demo_init n) = 3" "published (demo_init n) = []" by simp_all
  from c(6) show "target_point_num (demo_init n) = n" by (simp add: demo_params_def param_def)
  obtain pts where d: "demo_init n = (init_params (demo_params n) (init_constants None 0 demo_raw))
      \<lparr>target_points := pts, target_id := 0, mission_action := YOLO_INIT, fsm_state := INIT\<rparr>"
    using eq by (auto simp: fsm_init_def Let_def dest: sym)
  show "\<not> use_sim (demo_init n)" "\<not> do_mission (demo_init n)" "\<not> have_adjusted (demo_init n)"
    "takeoff_pos (demo_init n) = Vec3 0 0 (11/10)" "detect_overtime (demo_init n) = 0"
    "last_pub_time (demo_init n) = 0" "overtime_thre1 (demo_init n) = 5"
    by (simp_all add: d init_params_def init_constants_def demo_params_def param_def demo_raw_def)
qed

lemma demo_takeoff_run:
  assumes "n \<le> 50"
  obtains t where "mission_run demo_takeoff (demo_init n) = Inr t" "stage t HOLD n 0 0"
    "\<not> have_adjusted t" "detect_overtime t = 0" "published t \<noteq> []"
proof -
  note sel = demo_init_sel [OF assms]
  have "\<exists>t. mission_run demo_takeoff (demo_init n) = Inr t \<and> stage t HOLD n 0 0
    \<and> \<not> have_adjusted t \<and> detect_overtime t = 0 \<and> published t \<noteq> []"
    using sel
    by (simp add: demo_takeoff_def tick_def px4_state_Callback_def ego_init_Callback_def
      odomCallback_def fsm_state_loopCallback_def loop_entry_def checkPOS_def Let_def vnorm_def
      case_INIT_def case_TAKING_OFF_def op_defs stage_def)
  with that show thesis by blast
qed

lemma demo_first_goal:
  assumes "stage s HOLD n 0 u" "1 \<le> n"
  obtains t where "mission_handle (Loop (tick v)) s = Inr t" "stage t HOLD n 1 v"
    "have_adjusted t = have_adjusted s" "detect_overtime t = detect_overtime s"
    "goals (published t) = goals (published s) @ [target_points s ! 0]"
    "target_points t = target_points s"
proof -
  define w where "w = loop_entry (tick v) s"
  have w: "stage w HOLD n 0 u" "have_adjusted w = have_adjusted s"
    "detect_overtime w = detect_overtime s" "published w = published s" "target_points w = target_points s"
    using assms(1) by (simp_all add: w_def stage_def loop_entry_def checkPOS_def Let_def)
  then have h: "mission_handle (Loop (tick v)) s =
      Inr ((pubNewTarget v (target_points w ! 0) (publish (PubPx4 (hold_pose w)) w))
             \<lparr>last_pub_time := v, target_id := 1\<rparr>)"
    using assms(2) hold_decide_simps(2) [of "publish (PubPx4 (hold_pose w)) w" "tick v"]
    by (simp add: fsm_state_loopCallback_def case_HOLD_def Let_def stage_def target_point_def
        flip: w_def)
  show thesis
    using w by (intro that [OF h]) (simp_all add: stage_def op_defs)
qed

lemma demo_next_goal:
  assumes "stage s HOLD n i u" "1 \<le> n" "1 \<le> i" "i \<le> 4" "u + 2 \<le> v"
  obtains t where "mission_handle (Loop (tick v)) s = Inr t" "stage t HOLD n (i + 1) v"
    "have_adjusted t = have_adjusted s" "detect_overtime t = detect_overtime s"
    "goals (published t) = goals (published s) @ [target_points s ! nat i]"
    "target_points t = target_points s"
proof -
  define w where "w = publish (PubPx4 (hold_pose (loop_entry (tick v) s))) (loop_entry (tick v) s)"
  have w: "stage w HOLD n i u" "have_adjusted w = have_adjusted s"
    "detect_overtime w = detect_overtime s" "goals (published w) = goals (published s)"
    "target_points w = target_points s"
    using assms(1) by (simp_all add: w_def stage_def loop_entry_def checkPOS_def publish_def Let_def)
  have "mission_handle (Loop (tick v)) s = hold_decide (tick v) w"
    using assms(1) by (simp add: w_def fsm_state_loopCallback_def case_HOLD_def Let_def stage_def)
  also have "\<dots> = next_target (tick v) w"
    using w(1) assms hold_decide_simps(3) [of w "tick v"] by (simp add: stage_def drop_due_def)
  also have "\<dots> = Inr ((pubNewTarget v (target_points w ! nat i) (w\<lparr>last_pub_time := v\<rparr>))
                   \<lparr>have_just_put := False, target_id := i + 1\<rparr>)"
    using w(1) assms(3,4) by (simp add: next_target_def target_point_def stage_def)
  finally have h: "mission_handle (Loop (tick v)) s = \<dots>" .
  show thesis
    using w by (intro that [OF h]) (simp_all add: stage_def op_defs)
qed

lemma demo_start_landing:
  assumes "stage s HOLD 5 5 u" "u + 2 \<le> v"
  obtains t where "mission_handle (Loop (tick v)) s = Inr t" "fsm_state t = EXEC_MISSION"
    "mission_action t = YOLO_INIT" "do_land t"
    "have_adjusted t = have_adjusted s" "detect_overtime t = detect_overtime s" "put_servo_id t = 3"
proof -
  define w where "w = publish (PubPx4 (hold_pose (loop_entry (tick v) s))) (loop_entry (tick v) s)"
  have w: "stage w HOLD 5 5 u" "have_adjusted w = have_adjusted s" "detect_overtime w = detect_overtime s"
    using assms(1) by (simp_all add: w_def stage_def loop_entry_def checkPOS_def publish_def Let_def)
  have "mission_handle (Loop (tick v)) s = hold_decide (tick v) w"
    using assms(1) by (simp add: w_def fsm_state_loopCallback_def case_HOLD_def Let_def stage_def)
  also have "\<dots> = Inr (start_mission (w\<lparr>do_land := True\<rparr>))"
    using w(1) assms hold_decide_simps(5) [of w "tick v"] by (simp add: stage_def)
  finally have h: "mission_handle (Loop (tick v)) s = \<dots>" .
  show thesis
    using w by (intro that [OF h]) (simp_all add: stage_def op_defs)
qed

text \<open>
  The landing mission: the detector is started, the first detection sets the height, the second,
  five seconds later, starts the descent, the third hands over to the autopilot.
\<close>

lemma demo_landing:
  assumes "fsm_state s = EXEC_MISSION" "mission_action s = YOLO_INIT" "do_land s" "put_servo_id s = 3"
    "\<not> have_adjusted s" "detect_overtime s = 0"
  obtains t where
    "mission_run [Loop (tick 14), Loop (tick 15), Loop (tick 20), Loop (tick 25)] s = Inr t"
    "fsm_state t = LAND"
proof -
  define s1 where "s1 = mission_YOLO_INIT (tick 14) (loop_entry (tick 14) s)"
  have h1: "mission_handle (Loop (tick 14)) s = Inr s1"
    using assms by (simp add: s1_def fsm_state_loopCallback_def case_EXEC_MISSION_def Let_def)
  have s1: "fsm_state s1 = EXEC_MISSION" "mission_action s1 = ADJUST" "do_land s1"
    "\<not> have_adjusted s1" "detect_overtime s1 = 0" "put_servo_id s1 = 3"
    using assms by (simp_all add: s1_def mission_YOLO_INIT_def op_defs loop_entry_def Let_def)
  define s2 where "s2 = mission_ADJUST (tick 15) (loop_entry (tick 15) s1)"
  have h2: "mission_handle (Loop (tick 15)) s1 = Inr s2"
    using s1 by (simp add: s2_def fsm_state_loopCallback_def case_EXEC_MISSION_def Let_def)
  have s2: "fsm_state s2 = EXEC_MISSION" "do_land s2" "have_adjusted s2" "hold_time s2 = 15"
    "mission_action s2 = ADJUST" "put_servo_id s2 = 3"
    using s1 by (simp_all add: s2_def mission_ADJUST_def adjust_detect_def adjust_detected_def
        servo_offset_def near_def loop_entry_def checkPOS_def publish_def updatepnpPos_def Let_def)
  define s3 where "s3 = mission_ADJUST (tick 20) (loop_entry (tick 20) s2)"
  have h3: "mission_handle (Loop (tick 20)) s2 = Inr s3"
    using s2 by (simp add: s3_def fsm_state_loopCallback_def case_EXEC_MISSION_def Let_def)
  have s3: "fsm_state s3 = EXEC_MISSION" "have_adjusted s3" "hold_time s3 = 15"
    "mission_action s3 = DROP_LAND"
    using s2 by (simp_all add: s3_def mission_ADJUST_def adjust_detect_def adjust_detected_def
        servo_offset_def near_def loop_entry_def checkPOS_def publish_def updatepnpPos_def
        changeMissionAction_def Let_def)
  define s4 where "s4 = mission_DROP_LAND (tick 25) (loop_entry (tick 25) s3)"
  have h4: "mission_handle (Loop (tick 25)) s3 = Inr s4"
    using s3 by (simp add: s4_def fsm_state_loopCallback_def case_EXEC_MISSION_def Let_def)
  have s4: "fsm_state s4 = LAND"
    using s3 by (simp add: s4_def mission_DROP_LAND_def near_def loop_entry_def checkPOS_def
        publish_def updatepnpPos_def changeFSMState_def Let_def)
  show thesis
    by (rule that [OF _ s4]) (use h1 h2 h3 h4 in simp)
qed

section \<open>The whole run\<close>

definition demo_goals :: "mission_event list" where
  "demo_goals = map (\<lambda>v. Loop (tick v)) [3, 5, 7, 9, 11, 13]"

lemma demo_land_run:
  obtains evs t where "mission_run evs (demo_init 5) = Inr t" "fsm_state t = LAND"
proof -
  obtain t0 where t0: "mission_run demo_takeoff (demo_init 5) = Inr t0" "stage t0 HOLD 5 0 0"
    "\<not> have_adjusted t0" "detect_overtime t0 = 0"
    using demo_takeoff_run [of 5] by auto
  obtain t1 where t1: "mission_handle (Loop (tick 3)) t0 = Inr t1" "stage t1 HOLD 5 1 3"
    "\<not> have_adjusted t1" "detect_overtime t1 = 0"
    using demo_first_goal [OF t0(2), of 3] t0(3,4) by auto
  obtain t2 where t2: "mission_handle (Loop (tick 5)) t1 = Inr t2" "stage t2 HOLD 5 2 5"
    "\<not> have_adjusted t2" "detect_overtime t2 = 0"
    using demo_next_goal [OF t1(2), of 5] t1(3,4) by auto
  obtain t3 where t3: "mission_handle (Loop (tick 7)) t2 = Inr t3" "stage t3 HOLD 5 3 7"
    "\<not> have_adjusted t3" "detect_overtime t3 = 0"
    using demo_next_goal [OF t2(2), of 7] t2(3,4) by auto
  obtain t4 where t4: "mission_handle (Loop (tick 9)) t3 = Inr t4" "stage t4 HOLD 5 4 9"
    "\<not> have_adjusted t4" "detect_overtime t4 = 0"
    using demo_next_goal [OF t3(2), of 9] t3(3,4) by auto
  obtain t5 where t5: "mission_handle (Loop (tick 11)) t4 = Inr t5" "stage t5 HOLD 5 5 11"
    "\<not> have_adjusted t5" "detect_overtime t5 = 0"
    using demo_next_goal [OF t4(2), of 11] t4(3,4) by auto
  obtain t6 where t6: "mission_handle (Loop (tick 13)) t5 = Inr t6" "fsm_state t6 = EXEC_MISSION"
    "mission_action t6 = YOLO_INIT" "do_land t6" "\<not> have_adjusted t6" "detect_overtime t6 = 0"
    "put_servo_id t6 = 3"
    using demo_start_landing [OF t5(2), of 13] t5(3,4) by auto
  obtain t7 where t7: "mission_run [Loop (tick 14), Loop (tick 15), Loop (tick 20), Loop (tick 25)] t6 = Inr t7"
    "fsm_state t7 = LAND"
    using demo_landing [OF t6(2-4,7,5,6)] by blast
  have "mission_run demo_goals t0 = Inr t6"
    using t1(1) t2(1) t3(1) t4(1) t5(1) t6(1) by (simp add: demo_goals_def)
  with t0(1) t7 show thesis
    by (intro that [of "demo_takeoff @ demo_goals @ [Loop (tick 14), Loop (tick 15), Loop (tick 20), Loop (tick 25)]" t7])
      (auto simp only: run_events_append bind_result_Inr)
qed

section \<open>A run that releases a payload\<close>

definition drop_params :: params where
  "drop_params = \<lparr>p_bool = (\<lambda>s. if s = ''do_mission'' \<or> s = ''do_put_'' then Some True else None),
     p_int = (\<lambda>s. if s = ''target_point_num_'' then Some 5 else None), p_double = (\<lambda>_. None)\<rparr>"

definition drop_yaml :: "bool list option" where
  "drop_yaml = Some [True, True, True, True]"

definition drop_init :: fsm where
  "drop_init = projr (fsm_init drop_params drop_yaml 0 demo_raw)"

lemma drop_init_eq: "fsm_init drop_params drop_yaml 0 demo_raw = Inr drop_init"
  using fsm_init_ok_iff [OF demo_fresh, of drop_params drop_yaml 0]
  by (auto simp: drop_init_def drop_params_def param_def)

text \<open>What the states before the release have in common.\<close>

definition laden :: "fsm \<Rightarrow> bool" where
  "laden s \<longleftrightarrow> do_mission s \<and> do_put s \<and> \<not> have_just_put s \<and> \<not> do_land s \<and> put_servo_id s = 3
     \<and> if_do_put s = [True, True, True, True] \<and> put_height s = 1/2 \<and> target_point_num s = 5
     \<and> length (target_points s) = 50 \<and> servo_calls (published s) = []"

lemma drop_takeoff:
  obtains s where "mission_run demo_takeoff drop_init = Inr s" "laden s" "fsm_state s = HOLD" "ego_init s"
    "target_id s = 0" "\<not> have_adjusted s" "detect_overtime s = 0"
proof -
  note c = fsm_init_cases [OF drop_init_eq demo_fresh]
  obtain pts where d: "drop_init = (init_params drop_params (init_constants drop_yaml 0 demo_raw))
      \<lparr>target_points := pts, target_id := 0, mission_action := YOLO_INIT, fsm_state := INIT\<rparr>"
    using drop_init_eq by (auto simp: fsm_init_def Let_def dest: sym)
  have "length (target_points drop_init) = 50" using c(1) by (simp add: mission_inv_def)
  moreover have "target_point_num drop_init = 5" "published drop_init = []"
    using c(5,6) by (simp_all add: drop_params_def param_def)
  moreover have "do_mission drop_init" "do_put drop_init" "\<not> have_just_put drop_init" "\<not> do_land drop_init"
    "put_servo_id drop_init = 3" "if_do_put drop_init = [True, True, True, True]" "put_height drop_init = 1/2"
    "\<not> use_sim drop_init" "\<not> have_adjusted drop_init" "detect_overtime drop_init = 0"
    "takeoff_pos drop_init = Vec3 0 0 (11/10)" "fsm_state drop_init = INIT" "target_id drop_init = 0"
    by (simp_all add: d init_params_def init_constants_def drop_params_def param_def drop_yaml_def
        readYamlAndUpdateConfig_def)
  ultimately have "\<exists>s. mission_run demo_takeoff drop_init = Inr s \<and> laden s \<and> fsm_state s = HOLD \<and> ego_init s
    \<and> target_id s = 0 \<and> \<not> have_adjusted s \<and> detect_overtime s = 0"
    by (simp add: demo_takeoff_def tick_def px4_state_Callback_def ego_init_Callback_def
      odomCallback_def fsm_state_loopCallback_def loop_entry_def checkPOS_def Let_def vnorm_def
      case_INIT_def case_TAKING_OFF_def op_defs laden_def)
  with that show thesis by blast
qed

text \<open>The first goal; two seconds later the drop is due there.\<close>

lemma drop_goal:
  assumes "laden s" "fsm_state s = HOLD" "ego_init s" "target_id s = 0" "\<not> have_adjusted s" "detect_overtime s = 0"
  obtains t where "mission_run [Loop (tick 3), Loop (tick 5)] s = Inr t" "laden t" "fsm_state t = EXEC_MISSION"
    "mission_action t = YOLO_INIT" "\<not> have_adjusted t" "detect_overtime t = 0"
proof -
  have len: "int (length (target_points s)) = 50" using assms(1) by (simp add: laden_def)
  have "\<exists>t. mission_run [Loop (tick 3), Loop (tick 5)] s = Inr t \<and> laden t \<and> fsm_state t = EXEC_MISSION
    \<and> mission_action t = YOLO_INIT \<and> \<not> have_adjusted t \<and> detect_overtime t = 0"
    using assms len
    by (simp add: laden_def fsm_state_loopCallback_def case_HOLD_def hold_decide_def target_point_def
        drop_due_def do_put_at_def loop_entry_def checkPOS_def op_defs Let_def)
  with that show thesis by blast
qed

text \<open>Adjusting, the descent, and the odometry that reports the height of the drop.\<close>

definition low_odom :: odometry where
  "low_odom = \<lparr>pose_position = Vec3 0 0 (1/2), pose_orientation = (0, 0, 0, 1), twist_linear = vzero\<rparr>"

lemma drop_adjust:
  assumes "laden s" "fsm_state s = EXEC_MISSION" "mission_action s = YOLO_INIT" "\<not> have_adjusted s"
    "detect_overtime s = 0"
  obtains t where "mission_run [Loop (tick 6), Loop (tick 7), Loop (tick 12), Odom low_odom] s = Inr t"
    "laden t" "fsm_state t = EXEC_MISSION" "mission_action t = DROP" "hold_time t = 12"
    "odom_pos t = Vec3 0 0 (1/2)"
proof -
  define s1 where "s1 = mission_YOLO_INIT (tick 6) (loop_entry (tick 6) s)"
  have h1: "mission_handle (Loop (tick 6)) s = Inr s1"
    using assms by (simp add: s1_def fsm_state_loopCallback_def case_EXEC_MISSION_def Let_def)
  have s1: "fsm_state s1 = EXEC_MISSION" "mission_action s1 = ADJUST" "laden s1" "\<not> have_adjusted s1"
    using assms by (simp_all add: s1_def laden_def mission_YOLO_INIT_def op_defs loop_entry_def Let_def)
  define s2 where "s2 = mission_ADJUST (tick 7) (loop_entry (tick 7) s1)"
  have h2: "mission_handle (Loop (tick 7)) s1 = Inr s2"
    using s1 by (simp add: s2_def fsm_state_loopCallback_def case_EXEC_MISSION_def Let_def)
  have s2: "fsm_state s2 = EXEC_MISSION" "laden s2" "have_adjusted s2" "hold_time s2 = 7" "mission_action s2 = ADJUST"
    using s1 by (simp_all add: s2_def laden_def mission_ADJUST_def adjust_detect_def adjust_detected_def
        servo_offset_def near_def loop_entry_def checkPOS_def publish_def updatepnpPos_def Let_def)
  define s3 where "s3 = mission_ADJUST (tick 12) (loop_entry (tick 12) s2)"
  have h3: "mission_handle (Loop (tick 12)) s2 = Inr s3"
    using s2 by (simp add: s3_def fsm_state_loopCallback_def case_EXEC_MISSION_def Let_def)
  have s3: "fsm_state s3 = EXEC_MISSION" "laden s3" "hold_time s3 = 12" "mission_action s3 = DROP"
    using s2 by (simp_all add: s3_def laden_def mission_ADJUST_def adjust_detect_def adjust_detected_def
        servo_offset_def near_def loop_entry_def checkPOS_def publish_def updatepnpPos_def
        changeMissionAction_def Let_def)
  show thesis
    by (rule that [of "odomCallback low_odom s3"])
      (use h1 h2 h3 s3 in \<open>simp_all add: odomCallback_def low_odom_def laden_def\<close>)
qed

lemma drop_descend:
  assumes "laden s" "fsm_state s = EXEC_MISSION" "mission_action s = DROP" "hold_time s = 12"
    "odom_pos s = Vec3 0 0 (1/2)"
  obtains t where "mission_handle (Loop (tick 17)) s = Inr t" "laden t" "in_put t" "hold_time t = 17"
proof -
  define t where "t = mission_DROP (tick 17) (loop_entry (tick 17) s)"
  have "mission_handle (Loop (tick 17)) s = Inr t"
    using assms by (simp add: t_def fsm_state_loopCallback_def case_EXEC_MISSION_def Let_def)
  moreover have "laden t" "in_put t" "hold_time t = 17"
    using assms by (simp_all add: t_def laden_def in_put_def mission_DROP_def servo_offset_def loop_entry_def
        checkPOS_def publish_def updatepnpPos_def changeMissionAction_def Let_def)
  ultimately show thesis by (rule that)
qed

lemma drop_release:
  assumes "laden s" "in_put s" "hold_time s = 17"
  obtains t where "mission_handle (Loop (tick 20)) s = Inr t" "servo_calls (published t) = [3]" "put_servo_id t = 2"
proof -
  define t where "t = mission_PUT (tick 20) (loop_entry (tick 20) s)"
  have "mission_handle (Loop (tick 20)) s = Inr t"
    using assms by (simp add: t_def in_put_def fsm_state_loopCallback_def case_EXEC_MISSION_def Let_def)
  moreover have "servo_calls (published t) = [3]" "put_servo_id t = 2"
    using assms by (simp_all add: t_def laden_def mission_PUT_def loop_entry_def checkPOS_def publish_def
        changeMissionAction_def Let_def)
  ultimately show thesis by (rule that)
qed

definition drop_events :: "mission_event list" where
  "drop_events = demo_takeoff @ [Loop (tick 3), Loop (tick 5)]
     @ [Loop (tick 6), Loop (tick 7), Loop (tick 12), Odom low_odom] @ [Loop (tick 17)]"

lemma drop_run:
  obtains s t where "mission_run drop_events drop_init = Inr s" "laden s" "in_put s"
    "mission_handle (Loop (tick 20)) s = Inr t" "servo_calls (published t) = [3]" "put_servo_id t = 2"
proof -
  obtain s1 where s1: "mission_run demo_takeoff drop_init = Inr s1" "laden s1" "fsm_state s1 = HOLD" "ego_init s1"
    "target_id s1 = 0" "\<not> have_adjusted s1" "detect_overtime s1 = 0" by (rule drop_takeoff)
  obtain s2 where s2: "mission_run [Loop (tick 3), Loop (tick 5)] s1 = Inr s2" "laden s2"
    "fsm_state s2 = EXEC_MISSION" "mission_action s2 = YOLO_INIT" "\<not> have_adjusted s2" "detect_overtime s2 = 0"
    by (rule drop_goal [OF s1(2-)])
  obtain s3 where s3: "mission_run [Loop (tick 6), Loop (tick 7), Loop (tick 12), Odom low_odom] s2 = Inr s3"
    "laden s3" "fsm_state s3 = EXEC_MISSION" "mission_action s3 = DROP" "hold_time s3 = 12"
    "odom_pos s3 = Vec3 0 0 (1/2)"
    by (rule drop_adjust [OF s2(2-)])
  obtain s4 where s4: "mission_handle (Loop (tick 17)) s3 = Inr s4" "laden s4" "in_put s4" "hold_time s4 = 17"
    by (rule drop_descend [OF s3(2-)])
  obtain s5 where s5: "mission_handle (Loop (tick 20)) s4 = Inr s5" "servo_calls (published s5) = [3]"
    "put_servo_id s5 = 2" by (rule drop_release [OF s4(2-)])
  have "mission_run drop_events drop_init = Inr s4"
  proof -
    have "mission_run [Loop (tick 17)] s3 = Inr s4" using s4(1) by simp
    with s1(1) s2(1) s3(1) show ?thesis
      unfolding drop_events_def by (auto simp only: run_events_append bind_result_Inr)
  qed
  with s4 s5 show thesis by (intro that)
qed

section \<open>Witnesses\<close>

theorem mission_run_defined_witness: "\<exists>t. mission_run (demo_takeoff @ demo_goals) (demo_init 5) = Inr t"
  by (rule mission_run_defined [OF demo_fresh demo_init_eq]) simp

theorem mission_goals_in_order_witness:
  "\<exists>t. mission_run (demo_takeoff @ [Loop (tick 3)]) (demo_init 5) = Inr t
     \<and> goals (published t) = [target_points t ! 0]"
proof -
  obtain t0 where t0: "mission_run demo_takeoff (demo_init 5) = Inr t0" "stage t0 HOLD 5 0 0"
    using demo_takeoff_run [of 5] by auto
  obtain t1 where t1: "mission_handle (Loop (tick 3)) t0 = Inr t1" "stage t1 HOLD 5 1 3"
    using demo_first_goal [OF t0(2), of 3] by auto
  have run: "mission_run (demo_takeoff @ [Loop (tick 3)]) (demo_init 5) = Inr t1"
    using t0(1) t1(1) by (simp add: run_events_append)
  have "goals (published t1) = take (nat (target_id t1)) (target_points t1)"
    using mission_goals_in_order [OF demo_fresh demo_init_eq run] by simp
  with t1(2) run show ?thesis
    by (intro exI [of _ t1]) (simp add: stage_def take_Suc_conv_app_nth)
qed

text \<open>A construction followed by two messages: the first tick leaves INIT.\<close>

definition demo_ready :: fsm where
  "demo_ready = (demo_init 1)
     \<lparr>px4_current_state := \<lparr>connected = True, armed = True, px4_mode = ''OFFBOARD''\<rparr>, have_odom := True\<rparr>"



definition demo_adjust :: fsm where
  "demo_adjust = (demo_init 5)
     \<lparr>fsm_state := EXEC_MISSION, mission_action := ADJUST, pnp_limit := 1/20, overtime_thre1 := 0, nn := 0,
      overtime_t := 0\<rparr>"

theorem mission_servoing_bounded_witness:
  "\<exists>t. fsm_state_loopCallback (tick 5) demo_adjust = Inr t
     \<and> \<bar>vy (position (mission_pose t)) - vy (odom_pos demo_adjust)\<bar> \<le> 1/20"
proof -
  obtain t where t: "fsm_state_loopCallback (tick 5) demo_adjust = Inr t"
    by (simp add: fsm_state_loopCallback_def demo_adjust_def Let_def)
  show ?thesis
    using mission_servoing_bounded [OF t, of "the (yolo_reply (tick 5))"] t
    by (simp add: demo_adjust_def)
qed

end
