(* ===== verification/MissionPayload.thy ===== *)
theory MissionPayload
  imports ServoServer MissionDemo
begin

text \<open>
  The controller together with the GPIO server: what the runs of the mission have in common when
  every answer of \<open>servo_move\<close> is the one \<open>ServoServer\<close> computes.
\<close>

definition served_by_gpio :: "mission_event \<Rightarrow> bool" where
  "served_by_gpio ev = (case ev of
       Loop e \<Rightarrow> (\<exists>opens i0 w. servo_reply e = (\<lambda>n. request_ok (opens, i0, w) n))
     | _ \<Rightarrow> True)"

lemma served_by_gpio: "served_by_gpio ev \<Longrightarrow> servo.served ev"
  by (cases ev) (auto simp: served_by_gpio_def servo.served_def)

lemma fsm_init_servo_order:
  "fresh s0 \<Longrightarrow> fsm_init ps yaml t s0 = Inr s \<Longrightarrow> servo_order s \<and> 0 \<le> put_servo_id s"
  using fsm_init_cases [of ps yaml t s0 s] by (simp add: servo_order_def)

text \<open>
  C20: the payloads are released from the last magazine to the first, none twice and none
  skipped: in every run from the construction the requests that succeed are, in this order, for
  the magazines 3, 2, 1, down to the one above the counter; each request, successful or refused, is for
  the magazine that follows those released before it; and the counter stays between 0 and 3.  (After
  three releases a further request is for number 0, which the server refuses.)
\<close>

theorem mission_payload_order:
  assumes "fresh s0" "fsm_init ps yaml t0 s0 = Inr s"
    and "list_all served_by_gpio evs" "mission_run evs s = Inr t"
  shows "servo_calls (published t) = map fst (servo_history evs s)
    \<and> map fst (filter snd (servo_history evs s)) = rev [put_servo_id t + 1..3]
    \<and> (\<forall>i < length (servo_history evs s). fst (servo_history evs s ! i)
         = 3 - int (length (filter snd (take i (servo_history evs s)))))
    \<and> 0 \<le> put_servo_id t \<and> put_servo_id t \<le> 3"
proof -
  note init = fsm_init_cases [OF assms(2,1)]
  have "list_all servo.served evs"
    using assms(3) by (auto simp: list_all_iff intro: served_by_gpio)
  from servo.client.run_inv [OF fsm_init_servo_order [OF assms(1,2)] this assms(4)]
  have "0 \<le> put_servo_id t" "put_servo_id t \<le> 3" by (simp_all add: servo_order_def)
  then show ?thesis
    using servo_history_run [OF assms(4)] init(4,5) by simp
qed

text \<open>
  A mission that is in PUT with all three magazines spent (the blind drop of the landing
  mission gets there) never leaves PUT again: the server refuses the number, and the controller
  repeats the request at every tick.
\<close>

lemma mission_put_stuck:
  assumes "fsm_state s = EXEC_MISSION" "mission_action s = PUT" "do_put s" "put_servo_id s = 0"
    and "list_all served_by_gpio evs" "mission_run evs s = Inr t"
  shows "fsm_state t = EXEC_MISSION \<and> mission_action t = PUT \<and> put_servo_id t \<notin> {1, 2, 3}"
proof -
  have "list_all servo.served evs"
    using assms(5) by (auto simp: list_all_iff intro: served_by_gpio)
  moreover have "servo.stuck s" using assms(1-4) by (simp add: servo.stuck_def)
  ultimately have "servo.stuck t"
    using assms(6) by (blast intro: servo.stuck_client.run_inv)
  then show ?thesis by (simp add: servo.stuck_def)
qed

text \<open>The answers of the demonstration's ticks are those of \<open>doReq\<close>, every \<open>open\<close> succeeding.\<close>

lemma tick_served: "servo_reply (tick t) = request_ok (\<lambda>_. True, 0, \<lparr>n_open = 0, log = []\<rparr>)"
  by (rule ext) (auto simp: request_ok_def doReq_def drive_ok)

lemma drop_events_served: "list_all served_by_gpio (drop_events @ [Loop (tick 20)])"
proof -
  have "served_by_gpio (Loop (tick t))" for t
    unfolding served_by_gpio_def mission_event.case tick_served by (intro exI) (rule refl)
  then show ?thesis by (simp add: drop_events_def demo_takeoff_def served_by_gpio_def)
qed

theorem mission_payload_order_witness:
  "\<exists>t. mission_run (drop_events @ [Loop (tick 20)]) drop_init = Inr t
     \<and> map fst (filter snd (servo_history (drop_events @ [Loop (tick 20)]) drop_init)) = [3]
     \<and> map fst (servo_history (drop_events @ [Loop (tick 20)]) drop_init) = [3]"
proof -
  obtain s t where st: "mission_run drop_events drop_init = Inr s"
    "mission_handle (Loop (tick 20)) s = Inr t" "servo_calls (published t) = [3]" "put_servo_id t = 2"
    by (rule drop_run)
  then have "mission_run (drop_events @ [Loop (tick 20)]) drop_init = Inr t"
    by (simp add: run_events_append)
  with mission_payload_order [OF demo_fresh drop_init_eq drop_events_served this] st(3,4)
  show ?thesis by (intro exI [of _ t]) simp
qed

end
