(* ===== verification/EgoTracker.thy ===== *)
theory EgoTracker
  imports MissionState Machine
begin

text \<open>
  The node \<open>ego_tracker\<close> (\<open>controller/src/ego_tracker.cpp\<close>): a program that follows the
  planner's set-points by a proportional velocity command.  Its globals are the fields of the record
  \<open>tracker\<close>; the three loops of \<open>main\<close> are the phases \<open>Connecting\<close>, \<open>Streaming n\<close> (\<open>n\<close>
  set-points to go) and \<open>Running\<close>, and \<open>tracker_step\<close> is one iteration, the messages delivered by
  its \<open>ros::spinOnce\<close> included.  The conversion of a quaternion to a yaw angle belongs to
  \<open>tf2\<close>: it is the parameter \<open>yaw_of\<close>.
\<close>

definition VELOCITY2D_CONTROL :: "16 word" where
  "VELOCITY2D_CONTROL = 0b101111000111"

datatype tracker_phase = Connecting | Streaming nat | Running

datatype tracker_out =
    SetPoint position_target
  | RequestMode string real     \<comment> \<open>with the value \<open>last_request\<close> gets right after the call\<close>
  | RequestArm bool real

record tracker =
  velocity_mask :: "16 word"
  current_goal :: position_target
  rc_value :: int
  position_x :: real
  position_y :: real
  position_z :: real
  current_yaw :: real
  targetpos_x :: real
  targetpos_y :: real
  current_state :: px4_state
  ego_pos :: vec3               \<comment> \<open>\<open>ego_pos_x\<close>, \<open>ego_pos_y\<close>, \<open>ego_pos_z\<close>\<close>
  ego_vel :: vec3
  ego_a_x :: real
  ego_a_y :: real
  ego_a_z :: real
  ego_yaw :: real
  ego_yaw_rate :: real
  receive :: bool
  phase :: tracker_phase
  tracker_request :: real       \<comment> \<open>\<open>last_request\<close>\<close>
  sent :: "tracker_out list"

text \<open>The globals when \<open>main\<close> starts: C++ clears those without an initialiser.\<close>

definition tracker_start :: tracker where
  "tracker_start = \<lparr>velocity_mask = VELOCITY2D_CONTROL, current_goal = position_target_zero,
     rc_value = 0, position_x = 0, position_y = 0, position_z = 0, current_yaw = 0,
     targetpos_x = 0, targetpos_y = 0,
     current_state = \<lparr>connected = False, armed = False, px4_mode = []\<rparr>,
     ego_pos = vzero, ego_vel = vzero, ego_a_x = 0, ego_a_y = 0, ego_a_z = 0,
     ego_yaw = 0, ego_yaw_rate = 0, receive = False, phase = Connecting, tracker_request = 0,
     sent = []\<rparr>"

section \<open>Callbacks\<close>

text \<open>\<open>rc_cb\<close> reads channel 4 of a message of arbitrary length.\<close>

definition rc_cb :: "int list \<Rightarrow> tracker \<Rightarrow> cpp_error + tracker" where
  "rc_cb channels s =
     (if 4 < length channels then Inr (s\<lparr>rc_value := channels ! 4\<rparr>) else Inl OutOfBounds)"

definition state_cb :: "px4_state \<Rightarrow> tracker \<Rightarrow> tracker" where
  "state_cb msg s = s\<lparr>current_state := msg\<rparr>"

definition position_cb ::
    "(real \<times> real \<times> real \<times> real \<Rightarrow> real) \<Rightarrow> odometry \<Rightarrow> tracker \<Rightarrow> tracker" where
  "position_cb yaw_of msg s =
     s\<lparr>position_x := vx (pose_position msg), position_y := vy (pose_position msg),
       position_z := vz (pose_position msg), current_yaw := yaw_of (pose_orientation msg)\<rparr>"

definition target_cb :: "vec3 \<Rightarrow> tracker \<Rightarrow> tracker" where
  "target_cb p s = s\<lparr>targetpos_x := vx p, targetpos_y := vy p\<rparr>"

text \<open>The code assigns \<open>ego_a_y\<close> twice and \<open>ego_a_z\<close> never.\<close>

definition twist_cb :: "position_command \<Rightarrow> real \<Rightarrow> tracker \<Rightarrow> tracker" where
  "twist_cb msg yaw_dot s =
     s\<lparr>receive := True, ego_pos := cmd_position msg, ego_vel := cmd_velocity msg,
       ego_a_x := vx (cmd_acceleration msg), ego_a_y := vy (cmd_acceleration msg),
       ego_yaw := cmd_yaw msg, ego_yaw_rate := yaw_dot\<rparr>"

datatype tracker_msg =
    RcIn "int list"
  | StateMsg px4_state
  | OdomMsg odometry
  | TargetMsg vec3
  | TwistMsg position_command real

fun deliver ::
    "(real \<times> real \<times> real \<times> real \<Rightarrow> real) \<Rightarrow> tracker_msg \<Rightarrow> tracker \<Rightarrow> cpp_error + tracker" where
  "deliver yaw_of (RcIn channels) s = rc_cb channels s"
| "deliver yaw_of (StateMsg m) s = Inr (state_cb m s)"
| "deliver yaw_of (OdomMsg m) s = Inr (position_cb yaw_of m s)"
| "deliver yaw_of (TargetMsg p) s = Inr (target_cb p s)"
| "deliver yaw_of (TwistMsg m r) s = Inr (twist_cb m r s)"

section \<open>The loops of main\<close>

record tracker_env =
  clock :: "nat \<Rightarrow> real"          \<comment> \<open>the readings of \<open>ros::Time::now()\<close> of the iteration\<close>
  queue :: "tracker_msg list"     \<comment> \<open>what \<open>ros::spinOnce\<close> delivers at its end\<close>

definition send :: "tracker_out \<Rightarrow> tracker \<Rightarrow> tracker" where
  "send m s = s\<lparr>sent := sent s @ [m]\<rparr>"

definition keep_offboard :: "tracker_env \<Rightarrow> tracker \<Rightarrow> tracker" where
  "keep_offboard e s =
     (if px4_mode (current_state s) \<noteq> ''OFFBOARD'' \<and> clock e 1 - tracker_request s > 5
      then (send (RequestMode ''OFFBOARD'' (clock e 2)) s)\<lparr>tracker_request := clock e 2\<rparr>
      else if \<not> armed (current_state s) \<and> clock e 3 - tracker_request s > 5
      then (send (RequestArm True (clock e 4)) s)\<lparr>tracker_request := clock e 4\<rparr>
      else s)"

definition goal_takeoff :: "real \<Rightarrow> tracker \<Rightarrow> tracker" where
  "goal_takeoff t s =
     s\<lparr>current_goal := (current_goal s)\<lparr>frame := FRAME_LOCAL_NED, stamp := t,
         type_mask := velocity_mask s, velocity := Vec3 0 0 (1 - position_z s),
         yaw := current_yaw s\<rparr>\<rparr>"

definition goal_follow :: "real \<Rightarrow> tracker \<Rightarrow> tracker" where
  "goal_follow t s =
     s\<lparr>current_goal := (current_goal s)\<lparr>frame := FRAME_LOCAL_NED, stamp := t,
         type_mask := velocity_mask s,
         velocity := Vec3 (vx (ego_pos s) - position_x s) (vy (ego_pos s) - position_y s)
                          (vz (ego_pos s) - position_z s),
         yaw := ego_yaw s\<rparr>\<rparr>"

definition track_once :: "tracker_env \<Rightarrow> tracker \<Rightarrow> tracker" where
  "track_once e s0 =
     (let s = keep_offboard e s0;
          s1 = (if receive s then goal_follow (clock e 5) s else goal_takeoff (clock e 5) s)
      in send (SetPoint (current_goal s1)) s1)"

definition stream_once :: "tracker \<Rightarrow> tracker" where
  "stream_once s =
     (let s1 = s\<lparr>current_goal := (current_goal s)\<lparr>frame := FRAME_BODY_NED\<rparr>\<rparr>
      in send (SetPoint (current_goal s1)) s1)"

definition spinOnce ::
    "(real \<times> real \<times> real \<times> real \<Rightarrow> real) \<Rightarrow> tracker_env \<Rightarrow> tracker \<Rightarrow> cpp_error + tracker" where
  "spinOnce yaw_of e s = run_events (deliver yaw_of) (queue e) s"

fun tracker_step ::
    "(real \<times> real \<times> real \<times> real \<Rightarrow> real) \<Rightarrow> tracker_env \<Rightarrow> tracker \<Rightarrow> cpp_error + tracker" where
  "tracker_step yaw_of e s =
     (case phase s of
        Connecting \<Rightarrow> if connected (current_state s) then Inr (s\<lparr>phase := Streaming 100\<rparr>)
                       else spinOnce yaw_of e s
      | Streaming (Suc n) \<Rightarrow> spinOnce yaw_of e ((stream_once s)\<lparr>phase := Streaming n\<rparr>)
      | Streaming 0 \<Rightarrow> Inr (s\<lparr>phase := Running, tracker_request := clock e 0\<rparr>)
      | Running \<Rightarrow> spinOnce yaw_of e (track_once e s))"

declare tracker_step.simps [simp del]

section \<open>Frames\<close>

text \<open>What no callback changes.\<close>

definition same_control :: "tracker \<Rightarrow> tracker \<Rightarrow> bool" where
  "same_control s t \<longleftrightarrow> phase t = phase s \<and> sent t = sent s \<and> tracker_request t = tracker_request s
     \<and> current_goal t = current_goal s \<and> velocity_mask t = velocity_mask s \<and> ego_a_z t = ego_a_z s"

lemma deliver_same_control: "deliver yaw_of m s = Inr t \<Longrightarrow> same_control s t"
  by (cases m)
    (auto simp: rc_cb_def state_cb_def position_cb_def target_cb_def twist_cb_def same_control_def
      split: if_splits)

lemma spinOnce_same_control: "spinOnce yaw_of e s = Inr t \<Longrightarrow> same_control s t"
  unfolding spinOnce_def
proof (induction "queue e" arbitrary: s e)
  case Nil
  then show ?case by (auto simp: same_control_def)
next
  case (Cons m ms)
  from Cons(2)[symmetric] Cons(3) obtain u where u: "deliver yaw_of m s = Inr u"
    "run_events (deliver yaw_of) (queue (e\<lparr>queue := ms\<rparr>)) u = Inr t"
    by auto
  from Cons(1) [OF _ u(2)] deliver_same_control [OF u(1)] show ?case
    by (simp add: same_control_def)
qed

text \<open>One iteration: what the loop did before \<open>spinOnce\<close>.\<close>

lemma tracker_step_cases:
  assumes "tracker_step yaw_of e s = Inr t"
  obtains (wait) "phase s = Connecting" "same_control s t"
  | (connect) "phase s = Connecting" "connected (current_state s)" "t = s\<lparr>phase := Streaming 100\<rparr>"
  | (stream) n where "phase s = Streaming (Suc n)"
      "same_control ((stream_once s)\<lparr>phase := Streaming n\<rparr>) t"
  | (start) "phase s = Streaming 0" "t = s\<lparr>phase := Running, tracker_request := clock e 0\<rparr>"
  | (run) "phase s = Running" "same_control (track_once e s) t"
proof (cases "phase s")
  case Connecting
  with assms show thesis
    by (cases "connected (current_state s)")
      (auto simp: tracker_step.simps intro: wait connect dest: spinOnce_same_control)
next
  case (Streaming n)
  with assms show thesis
    by (cases n) (auto simp: tracker_step.simps intro: start stream dest: spinOnce_same_control)
next
  case Running
  with assms show thesis
    by (auto simp: tracker_step.simps intro: run dest: spinOnce_same_control)
qed

section \<open>The requests of a run\<close>

fun request_time :: "tracker_out \<Rightarrow> real option" where
  "request_time (SetPoint p) = None"
| "request_time (RequestMode m t) = Some t"
| "request_time (RequestArm b t) = Some t"

definition request_times :: "tracker_out list \<Rightarrow> real list" where
  "request_times ms = List.map_filter request_time ms"

lemma request_times_append [simp]: "request_times (a @ b) = request_times a @ request_times b"
  by (simp add: request_times_def map_filter_def)

lemma request_times_one [simp]:
  "request_times [SetPoint p] = []" "request_times [RequestMode m t] = [t]"
  "request_times [RequestArm b t] = [t]" "request_times [] = []"
  by (simp_all add: request_times_def map_filter_def)

text \<open>The clock does not run backwards within an iteration.\<close>

definition ticking :: "tracker_env \<Rightarrow> bool" where
  "ticking e \<longleftrightarrow> clock e 1 \<le> clock e 2 \<and> clock e 3 \<le> clock e 4"

definition spaced :: "tracker \<Rightarrow> bool" where
  "spaced s \<longleftrightarrow> sorted_wrt (\<lambda>a b. a + 5 < b) (request_times (sent s))
     \<and> (\<forall>r \<in> set (request_times (sent s)). r \<le> tracker_request s)
     \<and> (phase s \<noteq> Running \<longrightarrow> request_times (sent s) = [])"

definition streamed :: "tracker \<Rightarrow> bool" where
  "streamed s \<longleftrightarrow>
     (case phase s of
        Connecting \<Rightarrow> sent s = []
      | Streaming n \<Rightarrow> n \<le> 100 \<and> length (sent s) = 100 - n \<and> list_all (\<lambda>m. request_time m = None) (sent s)
      | Running \<Rightarrow> 100 \<le> length (sent s) \<and> list_all (\<lambda>m. request_time m = None) (take 100 (sent s)))"

lemma spaced_step:
  assumes "spaced s" "ticking e" "tracker_step yaw_of e s = Inr t"
  shows "spaced t"
  using assms(3)
proof (cases rule: tracker_step_cases)
  case run
  then show ?thesis
    using assms(1,2)
    by (fastforce simp: spaced_def same_control_def track_once_def keep_offboard_def send_def
        ticking_def goal_follow_def goal_takeoff_def sorted_wrt_append Let_def)
qed (use assms(1) in \<open>auto simp: spaced_def same_control_def stream_once_def send_def Let_def\<close>)

lemma track_once_sent:
  "\<exists>ms. sent (track_once e s) = sent s @ ms \<and> phase (track_once e s) = phase s"
  by (auto simp: track_once_def keep_offboard_def send_def goal_follow_def goal_takeoff_def Let_def)

lemma streamed_step:
  assumes "streamed s" "tracker_step yaw_of e s = Inr t"
  shows "streamed t"
  using assms(2)
proof (cases rule: tracker_step_cases)
  case run
  with track_once_sent [of e s] assms(1) show ?thesis
    by (auto simp: streamed_def same_control_def)
next
  case (stream n)
  with assms(1) show ?thesis
    by (auto simp: streamed_def same_control_def stream_once_def send_def Let_def)
qed (use assms(1) in \<open>auto simp: streamed_def same_control_def\<close>)

interpretation ego_tracker: event_machine "tracker_step yaw_of" ticking "\<lambda>s. spaced s \<and> streamed s"
  for yaw_of
  by unfold_locales (auto intro: spaced_step streamed_step)

lemma tracker_start_inv: "spaced tracker_start \<and> streamed tracker_start"
  by (simp add: spaced_def streamed_def tracker_start_def)

section \<open>Properties\<close>

text \<open>
  C39: the tracker asks for the mode OFFBOARD or for arming only after it has streamed its hundred
  set-points, and its requests are more than five seconds apart.
\<close>

theorem tracker_requests:
  assumes "list_all ticking es" "run_events (tracker_step yaw_of) es tracker_start = Inr t"
  shows "sorted_wrt (\<lambda>a b. a + 5 < b) (request_times (sent t))
    \<and> (\<forall>i < length (sent t). request_time (sent t ! i) \<noteq> None \<longrightarrow>
         100 \<le> i \<and> (\<forall>j < 100. \<exists>p. sent t ! j = SetPoint p))"
proof -
  from ego_tracker.run_inv [OF tracker_start_inv assms]
  have inv: "spaced t" "streamed t" by simp_all
  have "100 \<le> i \<and> (\<forall>j < 100. \<exists>p. sent t ! j = SetPoint p)"
    if i: "i < length (sent t)" "request_time (sent t ! i) \<noteq> None" for i
  proof -
    have run: "100 \<le> length (sent t)" "list_all (\<lambda>m. request_time m = None) (take 100 (sent t))"
      using inv(2) i
      by (auto simp: streamed_def list_all_length split: tracker_phase.splits)
    have sp: "\<exists>p. m = SetPoint p" if "request_time m = None" for m
      using that by (cases m) auto
    have none: "request_time (sent t ! j) = None" if "j < 100" for j
      using run that by (auto simp: list_all_length)
    with i(2) have "100 \<le> i" by (meson not_le)
    with none sp show ?thesis by blast
  qed
  with inv(1) show ?thesis by (simp add: spaced_def)
qed

text \<open>
  In the main loop every iteration publishes exactly one set-point, as its last message, in
  the local frame with the velocity mask: towards the planner's position once a command has been
  received (the velocity is the position error), straight to a height of one metre before.
\<close>

lemma tracker_setpoint:
  assumes "phase s = Running" "tracker_step yaw_of e s = Inr t"
  shows "\<exists>reqs p. sent t = sent s @ reqs @ [SetPoint p] \<and> length reqs \<le> 1
    \<and> list_all (\<lambda>m. request_time m \<noteq> None) reqs
    \<and> frame p = FRAME_LOCAL_NED \<and> type_mask p = velocity_mask s
    \<and> yaw p = (if receive s then ego_yaw s else current_yaw s)
    \<and> velocity p = (if receive s then vsub (ego_pos s) (Vec3 (position_x s) (position_y s) (position_z s))
                    else Vec3 0 0 (1 - position_z s))"
  using assms(2)
proof (cases rule: tracker_step_cases)
  case run
  define reqs where "reqs = drop (length (sent s)) (sent (keep_offboard e s))"
  have reqs: "sent (keep_offboard e s) = sent s @ reqs" "length reqs \<le> 1"
    "list_all (\<lambda>m. request_time m \<noteq> None) reqs"
    by (auto simp: reqs_def keep_offboard_def send_def)
  show ?thesis
    using run reqs
    by (intro exI [of _ reqs] exI [of _ "current_goal (track_once e s)"])
      (auto simp: same_control_def track_once_def send_def goal_follow_def goal_takeoff_def
        vsub_def Let_def keep_offboard_def)
qed (use assms(1) in auto)

text \<open>
  The vertical acceleration of the planner's commands never reaches the tracker: \<open>twist_cb\<close>
  assigns \<open>ego_a_y\<close> twice, so \<open>ego_a_z\<close> is zero in every state of every run.
\<close>

lemma tracker_loses_acceleration:
  assumes "list_all ticking es" "run_events (tracker_step yaw_of) es tracker_start = Inr t"
  shows "ego_a_z t = 0"
proof -
  have "ego_a_z t = ego_a_z tracker_start"
    by (rule ego_tracker.run_const [OF _ tracker_start_inv assms], erule tracker_step_cases)
      (auto simp: same_control_def stream_once_def send_def track_once_def keep_offboard_def
        goal_follow_def goal_takeoff_def Let_def)
  then show ?thesis by (simp add: tracker_start_def)
qed

section \<open>Witnesses\<close>

definition demo_env :: tracker_env where
  "demo_env = \<lparr>clock = (\<lambda>_. 10),
     queue = [StateMsg \<lparr>connected = True, armed = False, px4_mode = ''MANUAL''\<rparr>]\<rparr>"

lemma demo_env_ticking: "list_all ticking [demo_env]"
  by (simp add: ticking_def demo_env_def)

lemma demo_env_run: "\<exists>t. run_events (tracker_step (\<lambda>_. 0)) [demo_env] tracker_start = Inr t"
  by (simp add: tracker_step.simps tracker_start_def spinOnce_def demo_env_def)

theorem tracker_requests_witness:
  "\<exists>t. run_events (tracker_step (\<lambda>_. 0)) [demo_env] tracker_start = Inr t
     \<and> sorted_wrt (\<lambda>a b. a + 5 < b) (request_times (sent t))"
  using demo_env_run tracker_requests [OF demo_env_ticking] by blast

end
