(* ===== verification/Fifo.thy ===== *)
theory Fifo
  imports Machine
begin

text \<open>
  The interface of the queues between the LiDAR callbacks and the publishers.  A provider gives the
  list of items a queue holds (\<open>items\<close>), whether it accepts another one (\<open>room\<close>), and the two
  operations; the client is a producer that drops an item when there is no room and a consumer that
  polls.  The locale shows that any interleaving of the two delivers exactly the accepted items, in
  their order.
\<close>

datatype 'a fifo_op = Offer 'a | Poll

text \<open>The state of the client: the queue, the items accepted and the items delivered so far.\<close>

fun fifo_handle ::
    "('q \<Rightarrow> bool) \<Rightarrow> ('q \<Rightarrow> bool) \<Rightarrow> ('a \<Rightarrow> 'q \<Rightarrow> 'e + 'q) \<Rightarrow> ('q \<Rightarrow> 'e + 'a \<times> 'q) \<Rightarrow>
     'a fifo_op \<Rightarrow> 'q \<times> 'a list \<times> 'a list \<Rightarrow> 'e + 'q \<times> 'a list \<times> 'a list" where
  "fifo_handle room is_empty push pop (Offer x) (q, acc, del) =
     (if room q then bind_result (push x q) (\<lambda>q'. Inr (q', acc @ [x], del)) else Inr (q, acc, del))"
| "fifo_handle room is_empty push pop Poll (q, acc, del) =
     (if is_empty q then Inr (q, acc, del)
      else bind_result (pop q) (\<lambda>(x, q'). Inr (q', acc, del @ [x])))"

locale fifo =
  fixes inv :: "'q \<Rightarrow> bool"
    and items :: "'q \<Rightarrow> 'a list"
    and valid :: "'a \<Rightarrow> bool"
    and room :: "'q \<Rightarrow> bool"
    and is_empty :: "'q \<Rightarrow> bool"
    and push :: "'a \<Rightarrow> 'q \<Rightarrow> 'e + 'q"
    and pop :: "'q \<Rightarrow> 'e + 'a \<times> 'q"
  assumes empty_iff: "inv q \<Longrightarrow> is_empty q \<longleftrightarrow> items q = []"
    and push_law: "inv q \<Longrightarrow> valid x \<Longrightarrow> room q \<Longrightarrow>
          \<exists>q'. push x q = Inr q' \<and> inv q' \<and> items q' = items q @ [x]"
    and pop_law: "inv q \<Longrightarrow> items q \<noteq> [] \<Longrightarrow>
          \<exists>q'. pop q = Inr (hd (items q), q') \<and> inv q' \<and> items q' = tl (items q)"
begin

definition client_inv :: "'q \<times> 'a list \<times> 'a list \<Rightarrow> bool" where
  "client_inv s = (case s of (q, acc, del) \<Rightarrow> inv q \<and> acc = del @ items q)"

definition client_op :: "'a fifo_op \<Rightarrow> bool" where
  "client_op ev = (case ev of Offer x \<Rightarrow> valid x | Poll \<Rightarrow> True)"

lemma client_step:
  assumes "client_inv s" "client_op ev"
  shows "\<exists>t. fifo_handle room is_empty push pop ev s = Inr t \<and> client_inv t"
proof -
  obtain q acc del where s: "s = (q, acc, del)" by (cases s)
  from assms(1) s have i: "inv q" "acc = del @ items q" by (simp_all add: client_inv_def)
  show ?thesis
  proof (cases ev)
    case (Offer x)
    with assms(2) have x: "valid x" by (simp add: client_op_def)
    show ?thesis
    proof (cases "room q")
      case True
      from push_law [OF i(1) x True] obtain q' where
        "push x q = Inr q'" "inv q'" "items q' = items q @ [x]" by blast
      with i s Offer True show ?thesis by (simp add: client_inv_def)
    next
      case False
      with s Offer assms(1) show ?thesis by simp
    qed
  next
    case Poll
    show ?thesis
    proof (cases "items q = []")
      case True
      with empty_iff [OF i(1)] Poll s assms(1) show ?thesis by simp
    next
      case False
      with empty_iff [OF i(1)] pop_law [OF i(1) False] i s Poll show ?thesis
        by (auto simp: client_inv_def)
    qed
  qed
qed

sublocale client: safe_machine "fifo_handle room is_empty push pop" client_op client_inv
proof
  fix s ev t
  assume "client_inv s" "client_op ev" "fifo_handle room is_empty push pop ev s = Inr t"
  with client_step [of s ev] show "client_inv t" by auto
next
  fix s ev
  assume "client_inv s" "client_op ev"
  then show "\<exists>t. fifo_handle room is_empty push pop ev s = Inr t"
    using client_step [of s ev] by blast
qed

lemma delivers_in_order:
  assumes "inv q" "items q = []" "list_all client_op evs"
  obtains q' acc del where
    "run_events (fifo_handle room is_empty push pop) evs (q, [], []) = Inr (q', acc, del)"
    "inv q'" "acc = del @ items q'"
proof -
  have "client_inv (q, [], [])" using assms(1,2) by (simp add: client_inv_def)
  from client.run_ok [OF this assms(3)] obtain t where
    t: "run_events (fifo_handle room is_empty push pop) evs (q, [], []) = Inr t" "client_inv t" by blast
  then show thesis
    by (cases t) (auto simp: client_inv_def intro: that)
qed

end

text \<open>A queue of bounded capacity: there is room exactly below the capacity.\<close>

locale bounded_fifo = fifo inv items valid room is_empty push pop
  for inv :: "'q \<Rightarrow> bool" and items :: "'q \<Rightarrow> 'a list" and valid and room and is_empty
    and push :: "'a \<Rightarrow> 'q \<Rightarrow> 'e + 'q" and pop :: "'q \<Rightarrow> 'e + 'a \<times> 'q" +
  fixes capacity :: "'q \<Rightarrow> nat"
  assumes room_iff: "inv q \<Longrightarrow> room q \<longleftrightarrow> length (items q) < capacity q"
    and capacity_push: "inv q \<Longrightarrow> valid x \<Longrightarrow> room q \<Longrightarrow> push x q = Inr q' \<Longrightarrow> capacity q' = capacity q"
    and capacity_pop: "inv q \<Longrightarrow> items q \<noteq> [] \<Longrightarrow> pop q = Inr (y, q') \<Longrightarrow> capacity q' = capacity q"
begin

lemma push_bound:
  assumes "inv q" "valid x" "room q" "push x q = Inr q'"
  shows "length (items q') \<le> capacity q'"
  using push_law [OF assms(1-3)] room_iff [OF assms(1)] capacity_push [OF assms] assms(3,4)
  by auto

end

end
