(* ===== verification/Ldq.thy ===== *)
theory Ldq
  imports Fifo
begin

unbundle bit_operations_syntax

text \<open>
  The ring buffer between the LiDAR callback and the publisher: \<open>livox_ros_driver2/src/comm/ldq.h\<close>
  and \<open>ldq.cpp\<close>, with the data types of \<open>comm/comm.h\<close>.  The indices are 32-bit counters that run
  freely and wrap around; a slot is an index masked by the size, a power of two.  The pointer
  \<open>storage_packet\<close> is null, valid, or left dangling by \<open>DeInitQueue\<close>.

  The functions take pointers to members of objects that exist, so their tests for a null argument
  are left out.
\<close>

section \<open>Data\<close>

record point_xyzlt =
  pt_x :: real
  pt_y :: real
  pt_z :: real
  pt_intensity :: real
  pt_tag :: "8 word"
  pt_line :: "8 word"
  pt_offset_time :: "64 word"

text \<open>\<open>PointPacket\<close>: \<open>pp_points\<close> is the memory its pointer leads to.\<close>

record point_packet =
  pp_handle :: "32 word"
  pp_lidar_type :: "8 word"
  pp_points_num :: "32 word"
  pp_points :: "point_xyzlt list"

record storage_packet =
  sp_lidar_type :: int
  sp_handle :: "32 word"
  base_time :: "64 word"
  points_num :: "32 word"
  points :: "point_xyzlt list"

datatype storage = Null | Live "storage_packet list" | Freed

record lidar_data_queue =
  storage_packet :: storage
  rd_idx :: "32 word"
  wr_idx :: "32 word"
  q_mask :: "32 word"
  q_size :: "32 word"

section \<open>Operations\<close>

definition IsPowerOf2 :: "32 word \<Rightarrow> bool" where
  "IsPowerOf2 n \<longleftrightarrow> n \<noteq> 0 \<and> n AND (n - 1) = 0"

text \<open>The loop of \<open>RoundupPowerOf2\<close>, with \<open>n\<close> rounds to go.\<close>

fun roundup_loop :: "nat \<Rightarrow> 32 word \<Rightarrow> 32 word \<Rightarrow> 32 word" where
  "roundup_loop 0 sz power2_val = power2_val"
| "roundup_loop (Suc n) sz power2_val =
     (let v = push_bit (31 - n) 1 in if sz \<le> v then v else roundup_loop n sz v)"

definition RoundupPowerOf2 :: "32 word \<Rightarrow> 32 word" where
  "RoundupPowerOf2 sz = roundup_loop 32 sz 0"

text \<open>\<open>delete[]\<close> of a pointer that may be null.\<close>

definition delete_storage :: "storage \<Rightarrow> cpp_error + storage" where
  "delete_storage p = (case p of Null \<Rightarrow> Inr Null | Live xs \<Rightarrow> Inr Freed | Freed \<Rightarrow> Inl DoubleFree)"

text \<open>
  \<open>InitQueue\<close>; \<open>fresh_packet j\<close> is what the \<open>j\<close>-th element of the new array holds (its numbers
  are not initialised).
\<close>

definition InitQueue ::
    "(nat \<Rightarrow> storage_packet) \<Rightarrow> 32 word \<Rightarrow> lidar_data_queue \<Rightarrow> cpp_error + lidar_data_queue" where
  "InitQueue fresh_packet queue_size queue =
     (let sz = (if IsPowerOf2 queue_size then queue_size else RoundupPowerOf2 queue_size)
      in bind_result (delete_storage (storage_packet queue))
           (\<lambda>_. Inr (queue\<lparr>storage_packet := Live (map fresh_packet [0..<unat sz]),
                           rd_idx := 0, wr_idx := 0, q_size := sz, q_mask := sz - 1\<rparr>)))"

text \<open>\<open>DeInitQueue\<close> does not clear the pointer.\<close>

definition DeInitQueue :: "lidar_data_queue \<Rightarrow> cpp_error + lidar_data_queue" where
  "DeInitQueue queue =
     bind_result (delete_storage (storage_packet queue))
       (\<lambda>p. Inr (queue\<lparr>storage_packet := p, rd_idx := 0, wr_idx := 0, q_size := 0, q_mask := 0\<rparr>))"

definition ResetQueue :: "lidar_data_queue \<Rightarrow> lidar_data_queue" where
  "ResetQueue queue = queue\<lparr>rd_idx := 0, wr_idx := 0\<rparr>"

definition QueueUsedSize :: "lidar_data_queue \<Rightarrow> 32 word" where
  "QueueUsedSize queue = wr_idx queue - rd_idx queue"

definition QueueUnusedSize :: "lidar_data_queue \<Rightarrow> 32 word" where
  "QueueUnusedSize queue = q_size queue - QueueUsedSize queue"

definition QueueIsFull :: "lidar_data_queue \<Rightarrow> bool" where
  "QueueIsFull queue \<longleftrightarrow> wr_idx queue - rd_idx queue > q_mask queue"

definition QueueIsEmpty :: "lidar_data_queue \<Rightarrow> bool" where
  "QueueIsEmpty queue \<longleftrightarrow> rd_idx queue = wr_idx queue"

text \<open>The array behind the pointer, and the slot of an index.\<close>

definition storage_array :: "lidar_data_queue \<Rightarrow> cpp_error + storage_packet list" where
  "storage_array queue =
     (case storage_packet queue of
        Null \<Rightarrow> Inl NullPointer | Freed \<Rightarrow> Inl UseAfterFree | Live xs \<Rightarrow> Inr xs)"

definition slot :: "lidar_data_queue \<Rightarrow> 32 word \<Rightarrow> nat" where
  "slot queue i = unat (i AND q_mask queue)"

definition read_slot :: "lidar_data_queue \<Rightarrow> 32 word \<Rightarrow> cpp_error + storage_packet" where
  "read_slot queue i =
     bind_result (storage_array queue)
       (\<lambda>xs. if slot queue i < length xs then Inr (xs ! slot queue i) else Inl OutOfBounds)"

text \<open>\<open>memcpy\<close> of \<open>n\<close> points from memory that holds \<open>ps\<close>.\<close>

definition copy_points :: "32 word \<Rightarrow> point_xyzlt list \<Rightarrow> cpp_error + point_xyzlt list" where
  "copy_points n ps = (if unat n \<le> length ps then Inr (take (unat n) ps) else Inl OutOfBounds)"

definition QueuePrePop ::
    "lidar_data_queue \<Rightarrow> storage_packet \<Rightarrow> cpp_error + bool \<times> storage_packet" where
  "QueuePrePop queue out =
     (if QueueIsEmpty queue then Inr (False, out)
      else bind_result (read_slot queue (rd_idx queue)) (\<lambda>s.
             bind_result (copy_points (points_num s) (points s)) (\<lambda>ps.
               Inr (True, out\<lparr>base_time := base_time s, points_num := points_num s, points := ps\<rparr>))))"

definition QueuePopUpdate :: "lidar_data_queue \<Rightarrow> lidar_data_queue" where
  "QueuePopUpdate queue = queue\<lparr>rd_idx := rd_idx queue + 1\<rparr>"

definition QueuePop ::
    "lidar_data_queue \<Rightarrow> storage_packet \<Rightarrow> cpp_error + bool \<times> storage_packet \<times> lidar_data_queue" where
  "QueuePop queue out =
     bind_result (QueuePrePop queue out)
       (\<lambda>(ok, p). Inr (ok, p, if ok then QueuePopUpdate queue else queue))"

text \<open>\<open>QueuePushAny\<close> without its last step, the increment of \<open>wr_idx\<close>.\<close>

definition write_slot ::
    "lidar_data_queue \<Rightarrow> point_packet \<Rightarrow> 64 word \<Rightarrow> cpp_error + lidar_data_queue" where
  "write_slot queue data bt =
     bind_result (storage_array queue) (\<lambda>xs.
       let i = slot queue (wr_idx queue) in
       if i < length xs
       then bind_result (copy_points (pp_points_num data) (pp_points data)) (\<lambda>ps.
              Inr (queue\<lparr>storage_packet := Live (xs[i := (xs ! i)
                     \<lparr>base_time := bt, points_num := pp_points_num data, points := ps\<rparr>])\<rparr>))
       else Inl OutOfBounds)"

definition QueuePushAny ::
    "lidar_data_queue \<Rightarrow> point_packet \<Rightarrow> 64 word \<Rightarrow> cpp_error + lidar_data_queue" where
  "QueuePushAny queue data bt =
     bind_result (write_slot queue data bt) (\<lambda>q. Inr (q\<lparr>wr_idx := wr_idx q + 1\<rparr>))"

section \<open>Powers of two\<close>

lemma roundup_loop_spec:
  "n \<le> 32 \<Longrightarrow> \<forall>j < 32 - n. 2 ^ j < sz \<Longrightarrow> n = 0 \<longrightarrow> v = 2 ^ 31 \<Longrightarrow>
   \<exists>k \<le> 31. roundup_loop n sz v = 2 ^ k \<and> (sz \<le> 2 ^ 31 \<longrightarrow> sz \<le> 2 ^ k) \<and> (\<forall>j < k. 2 ^ j < sz)"
proof (induction n arbitrary: v)
  case 0
  then show ?case by (intro exI [of _ 31]) simp
next
  case (Suc n)
  show ?case
  proof (cases "sz \<le> 2 ^ (31 - n)")
    case True
    with Suc.prems(2) show ?thesis
      by (intro exI [of _ "31 - n"]) (simp add: push_bit_eq_mult)
  next
    case False
    have "2 ^ j < sz" if "j < 32 - n" for j
    proof (cases "j = 31 - n")
      case True
      with False show ?thesis by simp
    next
      case False
      with that Suc.prems(1,2) show ?thesis by simp
    qed
    with Suc.IH [of "2 ^ (31 - n)"] Suc.prems(1) False show ?thesis
      by (simp add: push_bit_eq_mult Let_def)
  qed
qed

lemma roundup_spec:
  "\<exists>k \<le> 31. RoundupPowerOf2 sz = 2 ^ k \<and> (sz \<le> 2 ^ 31 \<longrightarrow> sz \<le> 2 ^ k) \<and> (\<forall>j < k. 2 ^ j < sz)"
  unfolding RoundupPowerOf2_def by (rule roundup_loop_spec) simp_all

lemma unat_2p:
  assumes "k < 32"
  shows "unat ((2 :: 32 word) ^ k) = 2 ^ k"
proof -
  have lt: "(2 :: nat) ^ k < 2 ^ LENGTH(32)"
    using power_strict_increasing [OF assms, of "2 :: nat"] by simp
  have "(2 :: 32 word) ^ k = word_of_nat (2 ^ k)" by simp
  then have "unat ((2 :: 32 word) ^ k) = 2 ^ k mod 2 ^ LENGTH(32)"
    by (simp only: unsigned_of_nat take_bit_eq_mod of_nat_id)
  with lt show ?thesis by (simp only: mod_less)
qed

lemma unat_bound: "unat (n :: 32 word) < 2 ^ 32"
  using unsigned_less [where ?'a = nat, of n] by simp

lemma bit_leading:
  fixes n :: "32 word"
  assumes "2 ^ k \<le> unat n" "unat n < 2 * 2 ^ k"
  shows "bit n k"
proof -
  have "unat n div 2 ^ k = 1" using assms by (simp add: div_nat_eqI)
  then have "bit (unat n) k" by (simp add: bit_iff_odd)
  then show ?thesis by (simp add: bit_unsigned_iff)
qed

lemma power_of_2_sound:
  assumes "IsPowerOf2 n"
  shows "\<exists>k \<le> 31. n = 2 ^ k"
proof -
  from assms have nz: "n \<noteq> 0" and z: "n AND (n - 1) = 0" by (simp_all add: IsPowerOf2_def)
  then have u: "1 \<le> unat n" by (simp add: Suc_le_eq unat_gt_0)
  obtain k where k: "2 ^ k \<le> unat n" "unat n < 2 * 2 ^ k"
    using ex_power_ivl1 [of 2 "unat n"] u by auto
  have "unat n < 2 ^ 32" by (rule unat_bound)
  with k(1) have "(2 :: nat) ^ k < 2 ^ 32" by (rule order_le_less_trans)
  then have k32: "k < 32" by (rule power_less_imp_less_exp [rotated]) simp
  have "unat n = 2 ^ k"
  proof (rule ccontr)
    assume ne: "unat n \<noteq> 2 ^ k"
    have "unat (n - 1) = unat n - 1" using nz by (simp add: unat_minus_one)
    with ne k have "bit (n - 1) k" "bit n k" by (auto intro: bit_leading)
    then have "bit (n AND (n - 1)) k" by (simp add: bit_and_iff)
    with z show False by simp
  qed
  then have "n = 2 ^ k" using k32 by (simp add: word_unat_eq_iff unat_2p)
  with k32 show ?thesis by (intro exI [of _ k]) simp
qed

section \<open>The ring\<close>

definition used :: "lidar_data_queue \<Rightarrow> nat" where
  "used q = unat (wr_idx q - rd_idx q)"

text \<open>A queue of \<open>2 ^ k\<close> slots over the array \<open>xs\<close>, and the packets between the two indices.\<close>

definition ring :: "nat \<Rightarrow> storage_packet list \<Rightarrow> lidar_data_queue \<Rightarrow> bool" where
  "ring k xs q \<longleftrightarrow> k \<le> 31 \<and> storage_packet q = Live xs \<and> length xs = 2 ^ k \<and> q_size q = 2 ^ k
     \<and> q_mask q = 2 ^ k - 1 \<and> used q \<le> 2 ^ k"

definition stored :: "lidar_data_queue \<Rightarrow> storage_packet list" where
  "stored q = (case storage_packet q of
       Live xs \<Rightarrow> map (\<lambda>j. xs ! slot q (rd_idx q + word_of_nat j)) [0..<used q]
     | _ \<Rightarrow> [])"

definition well_sized :: "storage_packet \<Rightarrow> bool" where
  "well_sized p \<longleftrightarrow> unat (points_num p) = length (points p)"

lemma slot_eq:
  assumes "ring k xs q"
  shows "slot q i = unat i mod 2 ^ k"
proof -
  have "q_mask q = mask k" using assms by (simp add: ring_def mask_eq_exp_minus_1)
  then have "slot q i = unat (take_bit k i)" by (simp add: slot_def take_bit_eq_mask)
  also have "\<dots> = take_bit k (unat i)" by (rule unsigned_take_bit_eq)
  finally show ?thesis by (simp only: take_bit_eq_mod)
qed

lemma slot_less: "ring k xs q \<Longrightarrow> slot q i < length xs"
  by (simp add: slot_eq) (simp add: ring_def)

lemma slot_plus:
  assumes "ring k xs q"
  shows "slot q (i + word_of_nat j) = (unat i + j) mod 2 ^ k"
proof -
  have "i + word_of_nat j = word_of_nat (unat i + j)" by simp
  then have "unat (i + word_of_nat j) = (unat i + j) mod 2 ^ LENGTH(32)"
    by (simp only: unsigned_of_nat take_bit_eq_mod of_nat_id)
  moreover have "(2 :: nat) ^ k dvd 2 ^ LENGTH(32)"
    using assms by (intro le_imp_power_dvd) (simp add: ring_def)
  ultimately show ?thesis by (simp only: slot_eq [OF assms] mod_mod_cancel)
qed

lemma mod_distinct:
  fixes a :: nat
  assumes "(a + i) mod n = (a + j) mod n" "i < n" "j < n"
  shows "i = j"
proof -
  have "i = j" if "i \<le> j" "j < n" "(a + i) mod n = (a + j) mod n" for i j
  proof -
    have "n dvd (a + j) - (a + i)"
      using that by (intro mod_eq_dvd_iff_nat [THEN iffD1]) simp_all
    with that show ?thesis by (auto dest: dvd_imp_le)
  qed
  from this [of i j] this [of j i] assms show ?thesis by (cases "i \<le> j") simp_all
qed

lemma wr_eq: "wr_idx q = rd_idx q + word_of_nat (used q)"
  by (simp add: used_def)

lemma stored_simps:
  assumes "ring k xs q"
  shows "stored q = map (\<lambda>j. xs ! slot q (rd_idx q + word_of_nat j)) [0..<used q]"
    and "length (stored q) = used q"
  using assms by (simp_all add: stored_def ring_def)

lemma is_empty_iff: "QueueIsEmpty q \<longleftrightarrow> used q = 0"
  by (auto simp: QueueIsEmpty_def used_def unat_eq_0)

lemma is_full_iff:
  assumes "ring k xs q"
  shows "QueueIsFull q \<longleftrightarrow> used q = 2 ^ k"
proof -
  from assms have k: "k < 32" "q_mask q = 2 ^ k - 1" "used q \<le> 2 ^ k" by (simp_all add: ring_def)
  have "unat (q_mask q) = 2 ^ k - 1"
    using k(1) by (simp add: k(2) unat_minus_one unat_2p)
  then have "QueueIsFull q \<longleftrightarrow> 2 ^ k - 1 < used q"
    by (simp add: QueueIsFull_def used_def word_less_nat_alt)
  with k(3) show ?thesis by auto
qed

lemma used_inc:
  assumes "ring k xs q" "used q < 2 ^ k"
  shows "used (q\<lparr>wr_idx := wr_idx q + 1\<rparr>) = Suc (used q)"
proof -
  let ?u = "wr_idx q - rd_idx q"
  have "k < 32" using assms(1) by (simp add: ring_def)
  with assms(2) have "unat ?u < 2 ^ 31"
    using power_increasing [of k 31 "2 :: nat"] by (simp add: used_def)
  then have "unat (?u + 1) = Suc (unat ?u)"
    by (simp add: unat_plus_if')
  then show ?thesis by (simp add: used_def algebra_simps)
qed

section \<open>The operations on the ring\<close>

text \<open>The packet \<open>write_slot\<close> stores; the other fields keep what the slot held.\<close>

definition filled :: "point_packet \<Rightarrow> 64 word \<Rightarrow> storage_packet \<Rightarrow> storage_packet" where
  "filled data bt p = p\<lparr>base_time := bt, points_num := pp_points_num data,
     points := take (unat (pp_points_num data)) (pp_points data)\<rparr>"

lemma write_slot_ring:
  assumes r: "ring k xs q" and d: "unat (pp_points_num data) \<le> length (pp_points data)"
  shows "write_slot q data bt = Inr (q\<lparr>storage_packet :=
      Live (xs[slot q (wr_idx q) := filled data bt (xs ! slot q (wr_idx q))])\<rparr>)"
  using r d slot_less [OF r, of "wr_idx q"]
  by (simp add: write_slot_def storage_array_def copy_points_def filled_def Let_def ring_def)

lemma ring_update:
  "ring k xs q \<Longrightarrow> ring k (xs[i := p]) (q\<lparr>storage_packet := Live (xs[i := p])\<rparr>)"
  by (simp add: ring_def used_def)

text \<open>A write to the slot of \<open>wr_idx\<close> does not touch the stored packets while the queue is not full.\<close>

lemma stored_write:
  assumes r: "ring k xs q" and u: "used q < 2 ^ k"
  shows "stored (q\<lparr>storage_packet := Live (xs[slot q (wr_idx q) := p])\<rparr>) = stored q"
proof -
  let ?q = "q\<lparr>storage_packet := Live (xs[slot q (wr_idx q) := p])\<rparr>"
  note r' = ring_update [OF r, of "slot q (wr_idx q)" p]
  have s: "slot ?q i = slot q i" for i by (simp add: slot_def)
  have u': "used ?q = used q" by (simp add: used_def)
  have wr: "slot q (wr_idx q) = (unat (rd_idx q) + used q) mod 2 ^ k"
    by (subst wr_eq) (rule slot_plus [OF r])
  have "slot q (wr_idx q) \<noteq> slot q (rd_idx q + word_of_nat j)" if "j < used q" for j
    using mod_distinct [of "unat (rd_idx q)" j "2 ^ k" "used q"] that u
    by (auto simp: slot_plus [OF r] wr)
  then have "xs[slot q (wr_idx q) := p] ! slot q (rd_idx q + word_of_nat j) = xs ! slot q (rd_idx q + word_of_nat j)"
    if "j < used q" for j
    using that by (simp only: nth_list_update_neq not_False_eq_True)
  then show ?thesis
    by (auto simp: stored_simps(1) [OF r] stored_simps(1) [OF r'] s u')
qed

lemma advance_wr:
  assumes r: "ring k xs q" and u: "used q < 2 ^ k"
  shows "ring k xs (q\<lparr>wr_idx := wr_idx q + 1\<rparr>)"
    "stored (q\<lparr>wr_idx := wr_idx q + 1\<rparr>) = stored q @ [xs ! slot q (wr_idx q)]"
proof -
  let ?q = "q\<lparr>wr_idx := wr_idx q + 1\<rparr>"
  show r': "ring k xs ?q"
    using r u used_inc [OF r u] by (simp add: ring_def)
  have s: "slot ?q i = slot q i" for i by (simp add: slot_def)
  show "stored ?q = stored q @ [xs ! slot q (wr_idx q)]"
    by (simp add: stored_simps(1) [OF r] stored_simps(1) [OF r'] used_inc [OF r u] s flip: wr_eq)
qed

lemma advance_rd:
  assumes r: "ring k xs q" and u: "0 < used q"
  shows "ring k xs (QueuePopUpdate q)" "stored q = (xs ! slot q (rd_idx q)) # stored (QueuePopUpdate q)"
proof -
  let ?q = "QueuePopUpdate q"
  have "wr_idx q - rd_idx q \<noteq> 0" using u by (auto simp: used_def)
  then have "unat (wr_idx q - rd_idx q - 1) = used q - 1" by (simp add: unat_minus_one used_def)
  then have u': "used ?q = used q - 1" by (simp add: used_def QueuePopUpdate_def algebra_simps)
  show r': "ring k xs ?q"
    using r by (auto simp: ring_def u') (simp_all add: QueuePopUpdate_def)
  have s: "slot ?q i = slot q i" for i by (simp add: slot_def QueuePopUpdate_def)
  have rd: "rd_idx ?q + word_of_nat j = rd_idx q + word_of_nat (Suc j)" for j
    by (simp add: QueuePopUpdate_def)
  obtain n where n: "used q = Suc n" using u by (cases "used q") auto
  show "stored q = (xs ! slot q (rd_idx q)) # stored ?q"
    by (simp add: stored_simps(1) [OF r] stored_simps(1) [OF r'] s rd u' n upt_conv_Cons
        flip: map_Suc_upt del: upt_Suc of_nat_Suc)
qed

lemma read_slot_ring:
  assumes "ring k xs q"
  shows "read_slot q i = Inr (xs ! slot q i)"
  using slot_less [OF assms, of i] assms by (simp add: read_slot_def storage_array_def ring_def)

lemma PrePop_ring:
  assumes r: "ring k xs q" and ne: "stored q \<noteq> []" and w: "well_sized (hd (stored q))"
  shows "QueuePrePop q out = Inr (True, out\<lparr>base_time := base_time (hd (stored q)),
      points_num := points_num (hd (stored q)), points := points (hd (stored q))\<rparr>)"
proof -
  have u: "0 < used q" using ne stored_simps(2) [OF r] by (cases "used q") auto
  have h: "hd (stored q) = xs ! slot q (rd_idx q)" by (simp add: advance_rd(2) [OF r u])
  with u w show ?thesis
    by (simp add: QueuePrePop_def is_empty_iff read_slot_ring [OF r] copy_points_def well_sized_def)
qed

section \<open>The queue implements the interface\<close>

definition queue_inv :: "lidar_data_queue \<Rightarrow> bool" where
  "queue_inv q \<longleftrightarrow> (\<exists>k xs. ring k xs q) \<and> list_all well_sized (stored q)"

definition queue_items :: "lidar_data_queue \<Rightarrow> (64 word \<times> point_xyzlt list) list" where
  "queue_items q = map (\<lambda>p. (base_time p, points p)) (stored q)"

text \<open>What the client hands over: a time and points, fewer than \<open>2 ^ 32\<close>.\<close>

definition packet_of :: "point_xyzlt list \<Rightarrow> point_packet" where
  "packet_of ps = \<lparr>pp_handle = 0, pp_lidar_type = 0, pp_points_num = word_of_nat (length ps), pp_points = ps\<rparr>"

definition countable_item :: "64 word \<times> point_xyzlt list \<Rightarrow> bool" where
  "countable_item x \<longleftrightarrow> length (snd x) < 2 ^ 32"

definition push_item ::
    "64 word \<times> point_xyzlt list \<Rightarrow> lidar_data_queue \<Rightarrow> cpp_error + lidar_data_queue" where
  "push_item x q = QueuePushAny q (packet_of (snd x)) (fst x)"

definition blank_packet :: storage_packet where
  "blank_packet = \<lparr>sp_lidar_type = 0, sp_handle = 0, base_time = 0, points_num = 0, points = []\<rparr>"

definition pop_item ::
    "lidar_data_queue \<Rightarrow> cpp_error + (64 word \<times> point_xyzlt list) \<times> lidar_data_queue" where
  "pop_item q = bind_result (QueuePop q blank_packet)
     (\<lambda>(ok, p, q'). Inr ((base_time p, points p), q'))"

definition queue_capacity :: "lidar_data_queue \<Rightarrow> nat" where
  "queue_capacity q = unat (q_size q)"

lemma PushAny_ring:
  assumes r: "ring k xs q" and u: "used q < 2 ^ k"
    and d: "unat (pp_points_num data) \<le> length (pp_points data)"
  obtains xs' p where "QueuePushAny q data bt = Inr (q\<lparr>storage_packet := Live xs', wr_idx := wr_idx q + 1\<rparr>)"
    "ring k xs' (q\<lparr>storage_packet := Live xs', wr_idx := wr_idx q + 1\<rparr>)"
    "stored (q\<lparr>storage_packet := Live xs', wr_idx := wr_idx q + 1\<rparr>) = stored q @ [filled data bt p]"
proof -
  let ?i = "slot q (wr_idx q)"
  define p where "p = xs ! ?i"
  define xs' where "xs' = xs[?i := filled data bt p]"
  let ?q1 = "q\<lparr>storage_packet := Live xs'\<rparr>"
  have r1: "ring k xs' ?q1" unfolding xs'_def by (rule ring_update [OF r])
  have u1: "used ?q1 < 2 ^ k" using u by (simp add: used_def)
  have st: "stored ?q1 = stored q" unfolding xs'_def by (rule stored_write [OF r u])
  have "xs' ! slot ?q1 (wr_idx ?q1) = filled data bt p"
    using slot_less [OF r, of "wr_idx q"] by (simp add: xs'_def slot_def)
  with advance_wr [OF r1 u1] st show thesis
    by (intro that) (simp_all add: QueuePushAny_def write_slot_ring [OF r d] xs'_def p_def)
qed

lemma well_sized_filled:
  "unat (pp_points_num data) \<le> length (pp_points data) \<Longrightarrow> well_sized (filled data bt p)"
  by (simp add: well_sized_def filled_def)

lemma packet_of_sized:
  assumes "countable_item x"
  shows "unat (pp_points_num (packet_of (snd x))) = length (snd x)"
proof -
  from assms have "length (snd x) < 2 ^ LENGTH(32)" by (simp add: countable_item_def)
  then show ?thesis
    by (simp only: packet_of_def point_packet.select_convs unsigned_of_nat take_bit_eq_mod of_nat_id mod_less)
qed

lemma queue_invE:
  assumes "queue_inv q"
  obtains k xs where "ring k xs q" "list_all well_sized (stored q)" "length (queue_items q) = used q"
    "queue_capacity q = 2 ^ k"
proof -
  from assms obtain k xs where r: "ring k xs q" and w: "list_all well_sized (stored q)"
    by (auto simp: queue_inv_def)
  have "queue_capacity q = 2 ^ k" using r by (simp add: queue_capacity_def ring_def unat_2p)
  with r w show thesis by (intro that) (simp_all add: queue_items_def stored_simps(2) [OF r])
qed

lemma push_item_law:
  assumes q: "queue_inv q" and x: "countable_item x" and full: "\<not> QueueIsFull q"
  obtains q' where "push_item x q = Inr q'" "queue_inv q'" "queue_items q' = queue_items q @ [x]"
    "queue_capacity q' = queue_capacity q"
proof -
  obtain k xs where r: "ring k xs q" and w: "list_all well_sized (stored q)"
    using q by (rule queue_invE)
  have u: "used q < 2 ^ k" using full is_full_iff [OF r] r by (simp add: ring_def)
  have d: "unat (pp_points_num (packet_of (snd x))) \<le> length (pp_points (packet_of (snd x)))"
    using packet_of_sized [OF x] by (simp add: packet_of_def)
  obtain xs' p where p: "push_item x q = Inr (q\<lparr>storage_packet := Live xs', wr_idx := wr_idx q + 1\<rparr>)"
    "ring k xs' (q\<lparr>storage_packet := Live xs', wr_idx := wr_idx q + 1\<rparr>)"
    "stored (q\<lparr>storage_packet := Live xs', wr_idx := wr_idx q + 1\<rparr>)
       = stored q @ [filled (packet_of (snd x)) (fst x) p]"
    unfolding push_item_def by (rule PushAny_ring [OF r u d])
  show thesis
  proof (rule that [OF p(1)])
    show "queue_inv (q\<lparr>storage_packet := Live xs', wr_idx := wr_idx q + 1\<rparr>)"
      unfolding queue_inv_def p(3) using p(2) w well_sized_filled [OF d] by (auto simp del: ex_simps)
    show "queue_items (q\<lparr>storage_packet := Live xs', wr_idx := wr_idx q + 1\<rparr>) = queue_items q @ [x]"
      unfolding queue_items_def p(3) using packet_of_sized [OF x]
      by (simp add: filled_def packet_of_def)
    show "queue_capacity (q\<lparr>storage_packet := Live xs', wr_idx := wr_idx q + 1\<rparr>) = queue_capacity q"
      by (simp add: queue_capacity_def)
  qed
qed

lemma pop_item_law:
  assumes q: "queue_inv q" and ne: "queue_items q \<noteq> []"
  obtains q' where "pop_item q = Inr (hd (queue_items q), q')" "queue_inv q'"
    "queue_items q' = tl (queue_items q)" "queue_capacity q' = queue_capacity q"
proof -
  obtain k xs where r: "ring k xs q" and w: "list_all well_sized (stored q)"
    and len: "length (queue_items q) = used q"
    using q by (rule queue_invE)
  have st: "stored q \<noteq> []" using ne by (simp add: queue_items_def)
  have u: "0 < used q" using ne len by (cases "used q") auto
  note rd = advance_rd [OF r u]
  have h: "well_sized (hd (stored q))" using w st by (cases "stored q") auto
  show thesis
  proof (rule that)
    show "pop_item q = Inr (hd (queue_items q), QueuePopUpdate q)"
      using st by (simp add: pop_item_def QueuePop_def PrePop_ring [OF r st h] queue_items_def hd_map)
    show "queue_inv (QueuePopUpdate q)" using rd w by (auto simp: queue_inv_def)
    show "queue_items (QueuePopUpdate q) = tl (queue_items q)" using rd(2) by (simp add: queue_items_def)
    show "queue_capacity (QueuePopUpdate q) = queue_capacity q"
      by (simp add: queue_capacity_def QueuePopUpdate_def)
  qed
qed

interpretation ldq: bounded_fifo queue_inv queue_items countable_item "\<lambda>q. \<not> QueueIsFull q" QueueIsEmpty
  push_item pop_item queue_capacity
proof
  fix q assume q: "queue_inv q"
  then obtain k xs where r: "ring k xs q" and len: "length (queue_items q) = used q"
    and cap: "queue_capacity q = 2 ^ k"
    by (rule queue_invE)
  show "QueueIsEmpty q \<longleftrightarrow> queue_items q = []"
    using len by (simp add: is_empty_iff flip: length_0_conv)
  show "\<not> QueueIsFull q \<longleftrightarrow> length (queue_items q) < queue_capacity q"
    using r by (simp add: is_full_iff [OF r] len cap) (auto simp: ring_def)
next
  fix q x assume "queue_inv q" "countable_item x" "\<not> QueueIsFull q"
  then show "\<exists>q'. push_item x q = Inr q' \<and> queue_inv q' \<and> queue_items q' = queue_items q @ [x]"
    by (metis push_item_law)
next
  fix q assume "queue_inv q" "queue_items q \<noteq> []"
  then show "\<exists>q'. pop_item q = Inr (hd (queue_items q), q') \<and> queue_inv q' \<and> queue_items q' = tl (queue_items q)"
    by (metis pop_item_law)
next
  fix q q' x assume "queue_inv q" "countable_item x" "\<not> QueueIsFull q" "push_item x q = Inr q'"
  then show "queue_capacity q' = queue_capacity q" by (metis push_item_law sum.inject(2))
next
  fix q q' y assume "queue_inv q" "queue_items q \<noteq> []" "pop_item q = Inr (y, q')"
  then show "queue_capacity q' = queue_capacity q" by (metis pop_item_law sum.inject(2) prod.inject)
qed

section \<open>Properties of the queue\<close>

lemma init_size:
  obtains k where "k \<le> 31" "(if IsPowerOf2 n then n else RoundupPowerOf2 n) = 2 ^ k"
    "n \<le> 2 ^ 31 \<longrightarrow> unat n \<le> 2 ^ k" "\<forall>j < k. 2 ^ j < unat n"
proof (cases "IsPowerOf2 n")
  case True
  from power_of_2_sound [OF True] obtain k where k: "k \<le> 31" "n = 2 ^ k" by blast
  then have "unat n = 2 ^ k" by (simp add: unat_2p)
  with k True show thesis by (intro that [of k]) simp_all
next
  case False
  from roundup_spec [of n] obtain k where k: "k \<le> 31" "RoundupPowerOf2 n = 2 ^ k"
    "n \<le> 2 ^ 31 \<longrightarrow> n \<le> 2 ^ k" "\<forall>j < k. 2 ^ j < n" by blast
  have "n \<le> 2 ^ 31 \<longrightarrow> unat n \<le> 2 ^ k"
  proof
    assume "n \<le> 2 ^ 31"
    with k(3) have "unat n \<le> unat ((2 :: 32 word) ^ k)" by (simp add: word_le_nat_alt)
    with k(1) show "unat n \<le> 2 ^ k" by (simp only: unat_2p)
  qed
  moreover have "\<forall>j < k. 2 ^ j < unat n"
  proof (intro allI impI)
    fix j assume "j < k"
    with k(1,4) have "2 ^ j < n" "j < 32" by simp_all
    then show "2 ^ j < unat n" by (simp add: word_less_nat_alt unat_2p)
  qed
  ultimately show thesis using k(1,2) False by (intro that [of k]) simp_all
qed

text \<open>
  \<open>InitQueue\<close> turns a queue whose pointer is null or valid into an empty queue of \<open>2 ^ k\<close>
  slots, the least power of two that is not below the requested size (a request above
  \<open>2 ^ 31\<close> gets \<open>2 ^ 31\<close> slots); a dangling pointer is freed a second time.
\<close>

lemma ldq_init:
  "if storage_packet q = Freed then InitQueue fresh_packet n q = Inl DoubleFree
   else \<exists>q' k. InitQueue fresh_packet n q = Inr q' \<and> queue_inv q' \<and> queue_items q' = []
     \<and> queue_capacity q' = 2 ^ k \<and> k \<le> 31 \<and> (\<forall>j < k. 2 ^ j < unat n)
     \<and> (unat n \<le> 2 ^ k \<or> 2 ^ 31 < n)"
proof (cases "storage_packet q = Freed")
  case True
  then show ?thesis by (simp add: InitQueue_def delete_storage_def Let_def)
next
  case False
  obtain k where k: "k \<le> 31" "(if IsPowerOf2 n then n else RoundupPowerOf2 n) = 2 ^ k"
    "n \<le> 2 ^ 31 \<longrightarrow> unat n \<le> 2 ^ k" "\<forall>j < k. 2 ^ j < unat n"
    by (rule init_size)
  let ?q = "q\<lparr>storage_packet := Live (map fresh_packet [0..<unat ((2 :: 32 word) ^ k)]),
    rd_idx := 0, wr_idx := 0, q_size := 2 ^ k, q_mask := 2 ^ k - 1\<rparr>"
  have init: "InitQueue fresh_packet n q = Inr ?q"
    using False unfolding InitQueue_def Let_def k(2)
    by (simp add: delete_storage_def split: storage.split)
  have r: "ring k (map fresh_packet [0..<unat ((2 :: 32 word) ^ k)]) ?q"
    using k(1) by (simp add: ring_def used_def unat_2p)
  have st: "stored ?q = []" by (simp add: stored_simps(1) [OF r] used_def)
  have "queue_inv ?q \<and> queue_items ?q = [] \<and> queue_capacity ?q = 2 ^ k"
    using r st k(1) by (auto simp: queue_inv_def queue_items_def queue_capacity_def unat_2p)
  with init k False show ?thesis by (auto simp: not_le)
qed

text \<open>
  C23: the queue delivers what it accepted, in the order it was pushed, with its time and its
  points, for every interleaving of pushes (dropped while the queue is full) and polls, also when
  the 32-bit indices wrap around; it never holds more than its capacity and never touches
  memory outside its array.
\<close>

theorem ldq_fifo:
  assumes "queue_inv q" "queue_items q = []"
    and "list_all (\<lambda>ev. case ev of Offer x \<Rightarrow> length (snd x) < 2 ^ 32 | Poll \<Rightarrow> True) evs"
  shows "\<exists>q' accepted delivered.
    run_events (fifo_handle (\<lambda>q. \<not> QueueIsFull q) QueueIsEmpty push_item pop_item) evs (q, [], [])
      = Inr (q', accepted, delivered)
    \<and> accepted = delivered @ queue_items q' \<and> length (queue_items q') \<le> queue_capacity q'"
proof -
  have "list_all ldq.client_op evs"
    using assms(3) by (simp add: list_all_iff ldq.client_op_def countable_item_def cong: fifo_op.case_cong)
  from ldq.delivers_in_order [OF assms(1,2) this] obtain q' acc del where
    run: "run_events (fifo_handle (\<lambda>q. \<not> QueueIsFull q) QueueIsEmpty push_item pop_item) evs (q, [], [])
      = Inr (q', acc, del)" "queue_inv q'" "acc = del @ queue_items q'" .
  from run(2) obtain k xs where "ring k xs q'" "length (queue_items q') = used q'" "queue_capacity q' = 2 ^ k"
    by (rule queue_invE)
  then have "length (queue_items q') \<le> queue_capacity q'" by (simp add: ring_def)
  with run show ?thesis by blast
qed

text \<open>
  The size functions tell the truth: the used size is the number of packets held, the
  unused size what is missing to the capacity, and the queue is full or empty accordingly.
\<close>

lemma ldq_sizes:
  assumes "queue_inv q"
  shows "unat (QueueUsedSize q) = length (queue_items q)
    \<and> unat (QueueUnusedSize q) = queue_capacity q - length (queue_items q)
    \<and> (QueueIsFull q \<longleftrightarrow> length (queue_items q) = queue_capacity q)
    \<and> (QueueIsEmpty q \<longleftrightarrow> queue_items q = [])"
proof -
  obtain k xs where r: "ring k xs q" and len: "length (queue_items q) = used q"
    and cap: "queue_capacity q = 2 ^ k"
    using assms by (rule queue_invE)
  have us: "unat (QueueUsedSize q) = used q" by (simp add: QueueUsedSize_def used_def)
  moreover have "unat (QueueUsedSize q) \<le> unat (q_size q)"
    using r us cap by (simp add: ring_def queue_capacity_def)
  then have "unat (QueueUnusedSize q) = unat (q_size q) - unat (QueueUsedSize q)"
    unfolding QueueUnusedSize_def by (simp add: unat_sub word_le_nat_alt)
  moreover have "QueueIsEmpty q \<longleftrightarrow> queue_items q = []"
    using len by (simp add: is_empty_iff flip: length_0_conv)
  ultimately show ?thesis
    using is_full_iff [OF r] len cap by (simp add: queue_capacity_def)
qed

text \<open>
  \<open>DeInitQueue\<close> leaves the pointer dangling: after it a push writes freed memory, and a second
  \<open>DeInitQueue\<close> or an \<open>InitQueue\<close> frees the memory twice.
\<close>

lemma ldq_dangling:
  assumes "storage_packet q = Live xs"
  shows "\<exists>q'. DeInitQueue q = Inr q' \<and> QueuePushAny q' data bt = Inl UseAfterFree
    \<and> DeInitQueue q' = Inl DoubleFree \<and> InitQueue fresh_packet n q' = Inl DoubleFree"
  using assms
  by (simp add: DeInitQueue_def QueuePushAny_def write_slot_def storage_array_def delete_storage_def
      InitQueue_def Let_def)

section \<open>Witnesses\<close>

text \<open>A queue of one slot whose indices are about to wrap around.\<close>

definition demo_queue :: lidar_data_queue where
  "demo_queue = \<lparr>storage_packet = Live [blank_packet], rd_idx = -1, wr_idx = -1, q_mask = 0, q_size = 1\<rparr>"

lemma demo_queue_ok: "queue_inv demo_queue" "queue_items demo_queue = []"
proof -
  have r: "ring 0 [blank_packet] demo_queue" by (simp add: ring_def demo_queue_def used_def)
  have "stored demo_queue = []" by (simp add: stored_simps(1) [OF r]) (simp add: used_def demo_queue_def)
  with r show "queue_inv demo_queue" "queue_items demo_queue = []"
    by (auto simp: queue_inv_def queue_items_def)
qed

theorem ldq_fifo_witness:
  "\<exists>q' acc del. run_events (fifo_handle (\<lambda>q. \<not> QueueIsFull q) QueueIsEmpty push_item pop_item)
     [Offer (1, []), Offer (2, []), Poll, Offer (3, [])] (demo_queue, [], []) = Inr (q', acc, del)
   \<and> acc = del @ queue_items q'"
  using ldq_fifo [OF demo_queue_ok, of "[Offer (1, []), Offer (2, []), Poll, Offer (3, [])]"]
  by (simp del: fifo_handle.simps run_events.simps) blast

end
