(* ===== verification/LdqConcurrent.thy ===== *)
theory LdqConcurrent
  imports Ldq
begin

text \<open>
  The ring buffer of \<open>Ldq\<close> used without a lock by two threads, as the driver does: the SDK's
  callback pushes (\<open>Lds::PushLidarData\<close>), the publishing thread pops.  \<open>QueuePushAny\<close> and
  \<open>QueuePrePop\<close> are split into the assignments of \<open>ldq.cpp\<close>: the time, the number of points, the
  clearing and the resizing of the vector, then the \<open>memcpy\<close>, one point at a time, and last the
  increment of the index.  A step relation interleaves the two threads after every one of them,
  so a slot may be half written or half read whenever the other thread moves.

  A test for a full or an empty queue is one step: of the two indices it reads, only the one of
  the other thread can change meanwhile.  The local copies of the masked indices are recomputed
  from the index their own thread alone writes.  Memory is taken to be sequentially consistent:
  the indices are plain \<open>volatile\<close> counters, and the model has no reordering by compiler or
  processor.
\<close>

type_synonym item = "64 word \<times> point_xyzlt list"

section \<open>The statements of a push\<close>

datatype write_at = WTime | WNum | WClear | WResize | WPoint nat

text \<open>A value-initialised \<open>PointXyzlt\<close>, and \<open>std::vector::resize\<close>.\<close>

definition zero_point :: point_xyzlt where
  "zero_point = \<lparr>pt_x = 0, pt_y = 0, pt_z = 0, pt_intensity = 0, pt_tag = 0, pt_line = 0, pt_offset_time = 0\<rparr>"

definition resize_points :: "nat \<Rightarrow> point_xyzlt list \<Rightarrow> point_xyzlt list" where
  "resize_points n ps = take n ps @ replicate (n - length ps) zero_point"

text \<open>One point of a \<open>memcpy\<close> from memory that holds \<open>src\<close> to a vector that holds \<open>dst\<close>.\<close>

definition copy_point :: "nat \<Rightarrow> point_xyzlt list \<Rightarrow> point_xyzlt list \<Rightarrow> cpp_error + point_xyzlt list" where
  "copy_point j src dst =
     (if j < length src \<and> j < length dst then Inr (dst[j := src ! j]) else Inl OutOfBounds)"

text \<open>What the statement does to the slot, which statement is next, and when the last has been run.\<close>

fun write_field :: "point_packet \<Rightarrow> 64 word \<Rightarrow> write_at \<Rightarrow> storage_packet \<Rightarrow> cpp_error + storage_packet" where
  "write_field data bt WTime s = Inr (s\<lparr>base_time := bt\<rparr>)"
| "write_field data bt WNum s = Inr (s\<lparr>points_num := pp_points_num data\<rparr>)"
| "write_field data bt WClear s = Inr (s\<lparr>points := []\<rparr>)"
| "write_field data bt WResize s = Inr (s\<lparr>points := resize_points (unat (pp_points_num data)) (points s)\<rparr>)"
| "write_field data bt (WPoint j) s =
     bind_result (copy_point j (pp_points data) (points s)) (\<lambda>ps. Inr (s\<lparr>points := ps\<rparr>))"

fun write_next :: "write_at \<Rightarrow> write_at" where
  "write_next WTime = WNum"
| "write_next WNum = WClear"
| "write_next WClear = WResize"
| "write_next WResize = WPoint 0"
| "write_next (WPoint j) = WPoint (Suc j)"

fun more_writes :: "point_packet \<Rightarrow> write_at \<Rightarrow> bool" where
  "more_writes data (WPoint j) \<longleftrightarrow> j < unat (pp_points_num data)"
| "more_writes data a \<longleftrightarrow> True"

text \<open>The access to the slot of index \<open>i\<close>.\<close>

definition update_slot ::
    "lidar_data_queue \<Rightarrow> 32 word \<Rightarrow> (storage_packet \<Rightarrow> cpp_error + storage_packet) \<Rightarrow> cpp_error + lidar_data_queue" where
  "update_slot queue i f =
     bind_result (storage_array queue) (\<lambda>xs.
       if slot queue i < length xs
       then bind_result (f (xs ! slot queue i))
              (\<lambda>p. Inr (queue\<lparr>storage_packet := Live (xs[slot queue i := p])\<rparr>))
       else Inl OutOfBounds)"

section \<open>The statements of a pop\<close>

datatype read_at = RTime | RNum | RResize | RPoint nat

text \<open>The slot \<open>s\<close> is read again by every statement; the \<open>memcpy\<close> counts by the caller's packet.\<close>

fun read_field :: "read_at \<Rightarrow> storage_packet \<Rightarrow> storage_packet \<Rightarrow> cpp_error + storage_packet" where
  "read_field RTime s out = Inr (out\<lparr>base_time := base_time s\<rparr>)"
| "read_field RNum s out = Inr (out\<lparr>points_num := points_num s\<rparr>)"
| "read_field RResize s out = Inr (out\<lparr>points := resize_points (unat (points_num s)) (points out)\<rparr>)"
| "read_field (RPoint j) s out =
     bind_result (copy_point j (points s) (points out)) (\<lambda>ps. Inr (out\<lparr>points := ps\<rparr>))"

fun read_next :: "read_at \<Rightarrow> read_at" where
  "read_next RTime = RNum"
| "read_next RNum = RResize"
| "read_next RResize = RPoint 0"
| "read_next (RPoint j) = RPoint (Suc j)"

fun more_reads :: "storage_packet \<Rightarrow> read_at \<Rightarrow> bool" where
  "more_reads out (RPoint j) \<longleftrightarrow> j < unat (points_num out)"
| "more_reads out a \<longleftrightarrow> True"

section \<open>Two threads\<close>

datatype producer_at = PIdle | PWrite item write_at

datatype consumer_at = CIdle | CRead read_at

text \<open>\<open>popped\<close> is the packet the consumer passes by address.\<close>

record spsc =
  shared :: lidar_data_queue
  producer :: producer_at
  consumer :: consumer_at
  popped :: storage_packet
  produced :: "item list"
  consumed :: "item list"

definition item_of :: "storage_packet \<Rightarrow> item" where
  "item_of p = (base_time p, points p)"

inductive spsc_step :: "spsc \<Rightarrow> cpp_error + spsc \<Rightarrow> bool" where
  p_test: "producer s = PIdle \<Longrightarrow> countable_item x \<Longrightarrow> \<not> QueueIsFull (shared s) \<Longrightarrow>
     spsc_step s (Inr (s\<lparr>producer := PWrite x WTime\<rparr>))"
| p_write: "producer s = PWrite x a \<Longrightarrow> more_writes (packet_of (snd x)) a \<Longrightarrow>
     spsc_step s (bind_result
       (update_slot (shared s) (wr_idx (shared s)) (write_field (packet_of (snd x)) (fst x) a))
       (\<lambda>q. Inr (s\<lparr>shared := q, producer := PWrite x (write_next a)\<rparr>)))"
| p_publish: "producer s = PWrite x a \<Longrightarrow> \<not> more_writes (packet_of (snd x)) a \<Longrightarrow>
     spsc_step s (Inr (s\<lparr>shared := (shared s)\<lparr>wr_idx := wr_idx (shared s) + 1\<rparr>,
       producer := PIdle, produced := produced s @ [x]\<rparr>))"
| c_test: "consumer s = CIdle \<Longrightarrow> \<not> QueueIsEmpty (shared s) \<Longrightarrow>
     spsc_step s (Inr (s\<lparr>consumer := CRead RTime\<rparr>))"
| c_read: "consumer s = CRead a \<Longrightarrow> more_reads (popped s) a \<Longrightarrow>
     spsc_step s (bind_result
       (bind_result (read_slot (shared s) (rd_idx (shared s))) (\<lambda>p. read_field a p (popped s)))
       (\<lambda>out. Inr (s\<lparr>popped := out, consumer := CRead (read_next a)\<rparr>)))"
| c_publish: "consumer s = CRead a \<Longrightarrow> \<not> more_reads (popped s) a \<Longrightarrow>
     spsc_step s (Inr (s\<lparr>shared := QueuePopUpdate (shared s),
       consumer := CIdle, consumed := consumed s @ [item_of (popped s)]\<rparr>))"

inductive spsc_reach :: "spsc \<Rightarrow> spsc \<Rightarrow> bool" where
  start: "spsc_reach s s"
| step: "spsc_reach s t \<Longrightarrow> spsc_step t (Inr u) \<Longrightarrow> spsc_reach s u"

section \<open>What has been written and read so far\<close>

fun written :: "point_packet \<Rightarrow> 64 word \<Rightarrow> write_at \<Rightarrow> storage_packet \<Rightarrow> bool" where
  "written data bt WTime s \<longleftrightarrow> True"
| "written data bt WNum s \<longleftrightarrow> base_time s = bt"
| "written data bt WClear s \<longleftrightarrow> base_time s = bt \<and> points_num s = pp_points_num data"
| "written data bt WResize s \<longleftrightarrow> base_time s = bt \<and> points_num s = pp_points_num data"
| "written data bt (WPoint j) s \<longleftrightarrow> base_time s = bt \<and> points_num s = pp_points_num data
     \<and> length (points s) = unat (pp_points_num data) \<and> j \<le> unat (pp_points_num data)
     \<and> take j (points s) = take j (pp_points data)"

fun read_so_far :: "storage_packet \<Rightarrow> read_at \<Rightarrow> storage_packet \<Rightarrow> bool" where
  "read_so_far s RTime out \<longleftrightarrow> True"
| "read_so_far s RNum out \<longleftrightarrow> base_time out = base_time s"
| "read_so_far s RResize out \<longleftrightarrow> base_time out = base_time s \<and> points_num out = points_num s"
| "read_so_far s (RPoint j) out \<longleftrightarrow> base_time out = base_time s \<and> points_num out = points_num s
     \<and> length (points out) = unat (points_num s) \<and> j \<le> unat (points_num s)
     \<and> take j (points out) = take j (points s)"

lemma length_resize [simp]: "length (resize_points n ps) = n"
  by (simp add: resize_points_def)

text \<open>The prefix that has been copied grows by the point of the step.\<close>

lemma copy_point_prefix:
  assumes "j < length src" "j < length dst" "take j dst = take j src"
  shows "copy_point j src dst = Inr (dst[j := src ! j])"
    and "take (Suc j) (dst[j := src ! j]) = take (Suc j) src"
  using assms by (simp_all add: copy_point_def take_Suc_conv_app_nth)

lemma write_field_ok:
  assumes "written data bt a s" "more_writes data a"
    and "unat (pp_points_num data) \<le> length (pp_points data)"
  obtains s' where "write_field data bt a s = Inr s'" "written data bt (write_next a) s'"
  using assms by (cases a) (auto simp: copy_point_prefix)

lemma read_field_ok:
  assumes "read_so_far s a out" "more_reads out a" "well_sized s"
  obtains out' where "read_field a s out = Inr out'" "read_so_far s (read_next a) out'"
  using assms by (cases a) (auto simp: copy_point_prefix well_sized_def)

lemma write_done:
  assumes "written data bt a s" "\<not> more_writes data a"
    and "unat (pp_points_num data) = length (pp_points data)"
  shows "well_sized s" "item_of s = (bt, pp_points data)"
proof -
  obtain j where a: "a = WPoint j" using assms(2) by (cases a) simp_all
  note w = assms(1) [unfolded a written.simps]
  have j: "j = length (pp_points data)" "length (points s) = length (pp_points data)"
    using w assms(2,3) by (simp_all add: a)
  with w have "points s = pp_points data" by (metis order_refl take_all)
  with w assms(3) show "well_sized s" "item_of s = (bt, pp_points data)"
    by (simp_all add: well_sized_def item_of_def)
qed

lemma read_done:
  assumes "read_so_far s a out" "\<not> more_reads out a" "well_sized s"
  shows "item_of out = item_of s"
proof (cases a)
  case (RPoint j)
  from assms(1) [unfolded RPoint read_so_far.simps] have "take j (points out) = take j (points s)"
    and l: "length (points out) = unat (points_num s)" "points_num out = points_num s" by blast+
  moreover have "length (points out) \<le> j" "length (points s) \<le> j"
    using assms(2,3) RPoint l by (simp_all add: well_sized_def)
  ultimately have "points out = points s" by (metis take_all)
  with assms(1) RPoint show ?thesis by (simp add: item_of_def)
qed (use assms in simp_all)

lemma update_slot_ring:
  assumes "ring k xs q" "f (xs ! slot q i) = Inr p"
  shows "update_slot q i f = Inr (q\<lparr>storage_packet := Live (xs[slot q i := p])\<rparr>)"
proof -
  have "storage_packet q = Live xs" using assms(1) by (simp add: ring_def)
  then show ?thesis
    using assms(2) slot_less [OF assms(1), of i] by (simp add: update_slot_def storage_array_def)
qed

section \<open>The invariant\<close>

lemma queue_items_item_of: "queue_items q = map item_of (stored q)"
  by (simp add: queue_items_def item_of_def)

definition producer_ok :: "nat \<Rightarrow> storage_packet list \<Rightarrow> lidar_data_queue \<Rightarrow> producer_at \<Rightarrow> bool" where
  "producer_ok k xs q p = (case p of
       PIdle \<Rightarrow> True
     | PWrite x a \<Rightarrow> countable_item x \<and> used q < 2 ^ k
         \<and> written (packet_of (snd x)) (fst x) a (xs ! slot q (wr_idx q)))"

definition consumer_ok :: "lidar_data_queue \<Rightarrow> consumer_at \<Rightarrow> storage_packet \<Rightarrow> bool" where
  "consumer_ok q c out = (case c of
       CIdle \<Rightarrow> True
     | CRead a \<Rightarrow> stored q \<noteq> [] \<and> read_so_far (hd (stored q)) a out)"

definition spsc_inv :: "spsc \<Rightarrow> bool" where
  "spsc_inv s \<longleftrightarrow> (\<exists>k xs. ring k xs (shared s) \<and> list_all well_sized (stored (shared s))
     \<and> produced s = consumed s @ queue_items (shared s)
     \<and> producer_ok k xs (shared s) (producer s) \<and> consumer_ok (shared s) (consumer s) (popped s))"

lemma spsc_invI:
  "ring k xs (shared s) \<Longrightarrow> list_all well_sized (stored (shared s)) \<Longrightarrow>
   produced s = consumed s @ queue_items (shared s) \<Longrightarrow>
   producer_ok k xs (shared s) (producer s) \<Longrightarrow> consumer_ok (shared s) (consumer s) (popped s) \<Longrightarrow> spsc_inv s"
  unfolding spsc_inv_def by blast

lemma packet_points [simp]: "pp_points (packet_of ps) = ps"
  by (simp add: packet_of_def)

text \<open>A step of the consumer sees the oldest stored packet.\<close>

lemma head_slot:
  assumes r: "ring k xs q" and ne: "stored q \<noteq> []" and w: "list_all well_sized (stored q)"
  shows "read_slot q (rd_idx q) = Inr (hd (stored q))" "well_sized (hd (stored q))" "0 < used q"
proof -
  show u: "0 < used q" using ne stored_simps(2) [OF r] by (cases "used q") auto
  show "read_slot q (rd_idx q) = Inr (hd (stored q))"
    by (simp add: advance_rd(2) [OF r u] read_slot_ring [OF r])
  show "well_sized (hd (stored q))" using w ne by (cases "stored q") auto
qed

text \<open>A write of the producer leaves what the consumer may see.\<close>

lemma producer_writes:
  assumes r: "ring k xs (shared s)" and w: "list_all well_sized (stored (shared s))"
    and fifo: "produced s = consumed s @ queue_items (shared s)"
    and c: "consumer_ok (shared s) (consumer s) (popped s)"
    and p: "producer_ok k xs (shared s) (PWrite x a)" and more: "more_writes (packet_of (snd x)) a"
  obtains q where
    "update_slot (shared s) (wr_idx (shared s)) (write_field (packet_of (snd x)) (fst x) a) = Inr q"
    "spsc_inv (s\<lparr>shared := q, producer := PWrite x (write_next a)\<rparr>)"
proof -
  let ?q = "shared s" and ?d = "packet_of (snd x)"
  let ?i = "slot ?q (wr_idx ?q)"
  from p have x: "countable_item x" and u: "used ?q < 2 ^ k" and wr: "written ?d (fst x) a (xs ! ?i)"
    by (simp_all add: producer_ok_def)
  obtain p' where p': "write_field ?d (fst x) a (xs ! ?i) = Inr p'" "written ?d (fst x) (write_next a) p'"
    using write_field_ok [OF wr more] packet_of_sized [OF x] by auto
  let ?xs = "xs[?i := p']" and ?q' = "?q\<lparr>storage_packet := Live (xs[?i := p'])\<rparr>"
  have st: "stored ?q' = stored ?q" by (rule stored_write [OF r u])
  have "producer_ok k ?xs ?q' (PWrite x (write_next a))"
    using x u p'(2) slot_less [OF r, of "wr_idx ?q"] by (simp add: producer_ok_def used_def slot_def)
  moreover have "queue_items ?q' = queue_items ?q" unfolding queue_items_item_of st ..
  moreover have "consumer_ok ?q' (consumer s) (popped s)" using c unfolding consumer_ok_def st .
  ultimately have "spsc_inv (s\<lparr>shared := ?q', producer := PWrite x (write_next a)\<rparr>)"
    using ring_update [OF r] w fifo st by (auto intro!: spsc_invI [of k ?xs])
  moreover have "update_slot ?q (wr_idx ?q) (write_field ?d (fst x) a) = Inr ?q'"
    by (rule update_slot_ring [OF r]) (rule p'(1))
  ultimately show thesis by (intro that)
qed

lemma spsc_preserved:
  assumes inv: "spsc_inv s" and st: "spsc_step s r"
  shows "\<exists>t. r = Inr t \<and> spsc_inv t"
proof -
  from inv obtain k xs where r: "ring k xs (shared s)" and w: "list_all well_sized (stored (shared s))"
    and fifo: "produced s = consumed s @ queue_items (shared s)"
    and p: "producer_ok k xs (shared s) (producer s)" and c: "consumer_ok (shared s) (consumer s) (popped s)"
    by (auto simp: spsc_inv_def)
  let ?q = "shared s"
  from st show ?thesis
  proof (cases rule: spsc_step.cases)
    case (p_test x)
    have "used ?q < 2 ^ k" using p_test is_full_iff [OF r] r by (simp add: ring_def)
    with p_test r w fifo c show ?thesis
      by (auto simp: producer_ok_def intro!: spsc_invI [of k xs])
  next
    case (p_write x a)
    with p have "producer_ok k xs ?q (PWrite x a)" by simp
    from producer_writes [OF r w fifo c this p_write(3)] obtain q where
      "update_slot ?q (wr_idx ?q) (write_field (packet_of (snd x)) (fst x) a) = Inr q"
      "spsc_inv (s\<lparr>shared := q, producer := PWrite x (write_next a)\<rparr>)" .
    with p_write(1) show ?thesis by simp
  next
    case (p_publish x a)
    with p have x: "countable_item x" and u: "used ?q < 2 ^ k"
      and wr: "written (packet_of (snd x)) (fst x) a (xs ! slot ?q (wr_idx ?q))"
      by (simp_all add: producer_ok_def)
    note d = write_done [OF wr p_publish(3)] and a = advance_wr [OF r u]
    from c have "consumer_ok (?q\<lparr>wr_idx := wr_idx ?q + 1\<rparr>) (consumer s) (popped s)"
      by (auto simp: consumer_ok_def a(2) split: consumer_at.splits)
    with p_publish a w fifo d packet_of_sized [OF x] show ?thesis
      by (auto simp: producer_ok_def queue_items_item_of intro!: spsc_invI [of k xs])
  next
    case c_test
    have "stored ?q \<noteq> []" using c_test stored_simps(2) [OF r] by (auto simp: is_empty_iff)
    with c_test r w fifo p show ?thesis
      by (auto simp: consumer_ok_def intro!: spsc_invI [of k xs])
  next
    case (c_read a)
    with c have ne: "stored ?q \<noteq> []" and so: "read_so_far (hd (stored ?q)) a (popped s)"
      by (simp_all add: consumer_ok_def)
    note h = head_slot [OF r ne w]
    obtain out where "read_field a (hd (stored ?q)) (popped s) = Inr out"
      "read_so_far (hd (stored ?q)) (read_next a) out"
      using read_field_ok [OF so c_read(3) h(2)] .
    with c_read r w fifo p ne h(1) show ?thesis
      by (auto simp: consumer_ok_def intro!: spsc_invI [of k xs])
  next
    case (c_publish a)
    with c have ne: "stored ?q \<noteq> []" and so: "read_so_far (hd (stored ?q)) a (popped s)"
      by (simp_all add: consumer_ok_def)
    note h = head_slot [OF r ne w]
    note y = read_done [OF so c_publish(3) h(2)] and a = advance_rd [OF r h(3)]
    have le: "used (QueuePopUpdate ?q) \<le> used ?q"
      using a(2) stored_simps(2) [OF r] stored_simps(2) [OF a(1)] by simp
    have "producer_ok k xs (QueuePopUpdate ?q) (producer s)"
      using p le by (auto simp: producer_ok_def slot_def QueuePopUpdate_def split: producer_at.splits)
    with c_publish a w fifo y show ?thesis
      by (auto simp: consumer_ok_def queue_items_item_of intro!: spsc_invI [of k xs])
  qed
qed

lemma spsc_reach_inv: "spsc_reach s t \<Longrightarrow> spsc_inv s \<Longrightarrow> spsc_inv t"
  by (induction rule: spsc_reach.induct) (auto dest: spsc_preserved)

lemma spsc_reach_trans: "spsc_reach t u \<Longrightarrow> spsc_reach s t \<Longrightarrow> spsc_reach s u"
  by (induction rule: spsc_reach.induct) (auto intro: spsc_reach.step)

text \<open>The slot being written is never the slot being read.\<close>

lemma slots_apart:
  assumes r: "ring k xs q" and u: "used q < 2 ^ k" "0 < used q"
  shows "slot q (wr_idx q) \<noteq> slot q (rd_idx q)"
proof
  assume "slot q (wr_idx q) = slot q (rd_idx q)"
  then have "(unat (rd_idx q) + used q) mod 2 ^ k = (unat (rd_idx q) + 0) mod 2 ^ k"
    using slot_plus [OF r, of "rd_idx q" "used q"] slot_eq [OF r, of "rd_idx q"] by (simp flip: wr_eq)
  from mod_distinct [OF this] u show False by simp
qed

definition spsc_start :: "lidar_data_queue \<Rightarrow> storage_packet \<Rightarrow> spsc" where
  "spsc_start q out =
     \<lparr>shared = q, producer = PIdle, consumer = CIdle, popped = out, produced = [], consumed = []\<rparr>"

lemma spsc_start_inv: "queue_inv q \<Longrightarrow> queue_items q = [] \<Longrightarrow> spsc_inv (spsc_start q out)"
  by (auto simp: queue_inv_def spsc_start_def producer_ok_def consumer_ok_def intro!: spsc_invI)

section \<open>One thread alone\<close>

text \<open>The \<open>memcpy\<close> of a push that nothing interrupts.\<close>

lemma copy_alone:
  assumes "ring k xs (shared s)" "producer s = PWrite x (WPoint j)" "countable_item x"
    and "j \<le> length (snd x)" "length (points (xs ! slot (shared s) (wr_idx (shared s)))) = length (snd x)"
    and "take j (points (xs ! slot (shared s) (wr_idx (shared s)))) = take j (snd x)"
  shows "spsc_reach s (s\<lparr>shared := (shared s)\<lparr>storage_packet :=
        Live (xs[slot (shared s) (wr_idx (shared s)) :=
          (xs ! slot (shared s) (wr_idx (shared s)))\<lparr>points := snd x\<rparr>])\<rparr>,
      producer := PWrite x (WPoint (length (snd x)))\<rparr>)"
  using assms
proof (induction "length (snd x) - j" arbitrary: s xs j)
  case 0
  then have j: "j = length (snd x)" by simp
  let ?i = "slot (shared s) (wr_idx (shared s))"
  from 0 j have "points (xs ! ?i) = snd x" by simp
  then have "(xs ! ?i)\<lparr>points := snd x\<rparr> = xs ! ?i" by (cases "xs ! ?i") simp
  moreover have "storage_packet (shared s) = Live xs" using 0 by (simp add: ring_def)
  ultimately have "s\<lparr>shared := (shared s)\<lparr>storage_packet := Live (xs[?i := (xs ! ?i)\<lparr>points := snd x\<rparr>])\<rparr>,
      producer := PWrite x (WPoint (length (snd x)))\<rparr> = s"
    using 0(3) j by simp
  then show ?case by (simp add: spsc_reach.start)
next
  case (Suc n)
  let ?q = "shared s"
  let ?i = "slot ?q (wr_idx ?q)"
  let ?p = "xs ! ?i"
  define p' where "p' = ?p\<lparr>points := (points ?p)[j := snd x ! j]\<rparr>"
  define t where "t = s\<lparr>shared := ?q\<lparr>storage_packet := Live (xs[?i := p'])\<rparr>, producer := PWrite x (WPoint (Suc j))\<rparr>"
  have j: "j < length (snd x)" using Suc.hyps(2) by simp
  have i: "?i < length xs" by (rule slot_less [OF Suc.prems(1)])
  have "spsc_step s (Inr t)"
    using p_write [OF Suc.prems(2)] j Suc.prems packet_of_sized [OF Suc.prems(3)]
      update_slot_ring [OF Suc.prems(1), of "write_field (packet_of (snd x)) (fst x) (WPoint j)" "wr_idx ?q" p']
    by (simp add: t_def p'_def copy_point_def)
  moreover have "spsc_reach t (t\<lparr>shared := (shared t)\<lparr>storage_packet :=
        Live ((xs[?i := p'])[slot (shared t) (wr_idx (shared t)) :=
          ((xs[?i := p']) ! slot (shared t) (wr_idx (shared t)))\<lparr>points := snd x\<rparr>])\<rparr>,
      producer := PWrite x (WPoint (length (snd x)))\<rparr>)"
  proof (rule Suc.hyps(1))
    show "ring k (xs[?i := p']) (shared t)" using ring_update [OF Suc.prems(1)] by (simp add: t_def)
    have "take (Suc j) ((points ?p)[j := snd x ! j]) = take (Suc j) (snd x)"
      using copy_point_prefix(2) [of j "snd x" "points ?p"] j Suc.prems(5,6) by simp
    then show "take (Suc j) (points ((xs[?i := p']) ! slot (shared t) (wr_idx (shared t)))) = take (Suc j) (snd x)"
      using i by (simp add: t_def slot_def p'_def)
    show "Suc j \<le> length (snd x)" "n = length (snd x) - Suc j" using Suc.hyps(2) by simp_all
  qed (use Suc.prems i in \<open>simp_all add: t_def slot_def p'_def\<close>)
  ultimately show ?case
    using i by (auto simp: t_def slot_def p'_def intro: spsc_reach_trans step [OF start])
qed

text \<open>A push whose statements nothing interrupts is \<open>QueuePushAny\<close>.\<close>

lemma push_alone:
  assumes r: "ring k xs (shared s)" and p: "producer s = PIdle" and x: "countable_item x"
    and f: "\<not> QueueIsFull (shared s)"
  obtains q where "QueuePushAny (shared s) (packet_of (snd x)) (fst x) = Inr q"
    "spsc_reach s (s\<lparr>shared := q, producer := PIdle, produced := produced s @ [x]\<rparr>)"
proof -
  let ?q = "shared s" and ?d = "packet_of (snd x)"
  let ?i = "slot ?q (wr_idx ?q)"
  note n = packet_of_sized [OF x]
  define mid where "mid p a = s\<lparr>shared := ?q\<lparr>storage_packet := Live (xs[?i := p])\<rparr>, producer := PWrite x a\<rparr>" for p a
  have i: "?i < length xs" by (rule slot_less [OF r])
  have w: "spsc_step (mid p a) (Inr (mid p' (write_next a)))"
    if "write_field ?d (fst x) a p = Inr p'" "more_writes ?d a" for p a p'
  proof -
    have r': "ring k (xs[?i := p]) (shared (mid p a))" using ring_update [OF r] by (simp add: mid_def)
    show ?thesis
      using p_write [of "mid p a" x a] that update_slot_ring [OF r', of "write_field ?d (fst x) a" "wr_idx ?q" p'] i
      by (simp add: mid_def slot_def)
  qed
  define p0 p1 p2 p3 p4 p5 where "p0 = xs ! ?i" and "p1 = p0\<lparr>base_time := fst x\<rparr>"
    and "p2 = p1\<lparr>points_num := pp_points_num ?d\<rparr>" and "p3 = p2\<lparr>points := []\<rparr>"
    and "p4 = p3\<lparr>points := resize_points (unat (pp_points_num ?d)) []\<rparr>" and "p5 = p4\<lparr>points := snd x\<rparr>"
  note ps = p1_def p2_def p3_def p4_def p5_def
  have s1: "spsc_step s (Inr (mid p0 WTime))"
  proof -
    have "shared s = ?q\<lparr>storage_packet := Live xs\<rparr>" using r by (simp add: ring_def)
    then have "mid p0 WTime = s\<lparr>producer := PWrite x WTime\<rparr>" by (simp add: mid_def p0_def)
    with p_test [OF p x f] show ?thesis by simp
  qed
  have s2: "spsc_step (mid p0 WTime) (Inr (mid p1 WNum))" using w [of WTime p0 p1] by (simp add: ps)
  have s3: "spsc_step (mid p1 WNum) (Inr (mid p2 WClear))" using w [of WNum p1 p2] by (simp add: ps)
  have s4: "spsc_step (mid p2 WClear) (Inr (mid p3 WResize))" using w [of WClear p2 p3] by (simp add: ps)
  have s5: "spsc_step (mid p3 WResize) (Inr (mid p4 (WPoint 0)))" using w [of WResize p3 p4] by (simp add: ps)
  have "spsc_reach s (mid p4 (WPoint 0))"
    by (rule step [OF step [OF step [OF step [OF step [OF start s1] s2] s3] s4] s5])
  moreover have "spsc_reach (mid p4 (WPoint 0)) (mid p5 (WPoint (length (snd x))))"
    using copy_alone [of k "xs[?i := p4]" "mid p4 (WPoint 0)" x 0] ring_update [OF r] x i n
    by (simp add: mid_def slot_def ps)
  moreover have "spsc_step (mid p5 (WPoint (length (snd x)))) (Inr (s\<lparr>shared := ?q\<lparr>storage_packet :=
      Live (xs[?i := p5]), wr_idx := wr_idx ?q + 1\<rparr>, producer := PIdle, produced := produced s @ [x]\<rparr>))"
    using p_publish [of "mid p5 (WPoint (length (snd x)))" x] n by (simp add: mid_def)
  ultimately have "spsc_reach s (s\<lparr>shared := ?q\<lparr>storage_packet := Live (xs[?i := p5]), wr_idx := wr_idx ?q + 1\<rparr>,
      producer := PIdle, produced := produced s @ [x]\<rparr>)"
    by (blast intro: spsc_reach_trans step)
  moreover have "filled ?d (fst x) p0 = p5" using n by (simp add: filled_def ps)
  then have "QueuePushAny ?q ?d (fst x) = Inr (?q\<lparr>storage_packet := Live (xs[?i := p5]), wr_idx := wr_idx ?q + 1\<rparr>)"
    using n by (simp add: QueuePushAny_def write_slot_ring [OF r] p0_def)
  ultimately show thesis by (intro that)
qed

text \<open>The consumer needs nobody's help to take out a packet it has begun to read.\<close>

lemma reads_alone:
  assumes "spsc_inv s" "consumer s = CRead a"
  obtains t where "spsc_reach s t" "consumer t = CIdle" "producer t = producer s"
    "consumed t = consumed s @ [hd (queue_items (shared s))]"
proof -
  define left where "left s = (case consumer s of
      CRead (RPoint j) \<Rightarrow> unat (points_num (hd (stored (shared s)))) - j
    | CRead RResize \<Rightarrow> Suc (unat (points_num (hd (stored (shared s)))))
    | CRead RNum \<Rightarrow> 2 + unat (points_num (hd (stored (shared s))))
    | _ \<Rightarrow> 3 + unat (points_num (hd (stored (shared s)))))" for s :: spsc
  have "\<exists>t. spsc_reach s t \<and> consumer t = CIdle \<and> producer t = producer s
    \<and> consumed t = consumed s @ [hd (queue_items (shared s))]"
    using assms
  proof (induction "left s" arbitrary: s a rule: less_induct)
    case less
    from less.prems(1) obtain k xs where r: "ring k xs (shared s)" and w: "list_all well_sized (stored (shared s))"
      and c: "consumer_ok (shared s) (consumer s) (popped s)" by (auto simp: spsc_inv_def)
    from c less.prems(2) have ne: "stored (shared s) \<noteq> []"
      and so: "read_so_far (hd (stored (shared s))) a (popped s)" by (simp_all add: consumer_ok_def)
    note h = head_slot [OF r ne w]
    show ?case
    proof (cases "more_reads (popped s) a")
      case True
      obtain out where out: "read_field a (hd (stored (shared s))) (popped s) = Inr out"
        "read_so_far (hd (stored (shared s))) (read_next a) out"
        using read_field_ok [OF so True h(2)] .
      let ?t = "s\<lparr>popped := out, consumer := CRead (read_next a)\<rparr>"
      have st: "spsc_step s (Inr ?t)" using c_read [OF less.prems(2) True] h(1) out(1) by simp
      have "left ?t < left s" using less.prems(2) True so by (cases a) (auto simp: left_def)
      from less.hyps [OF this, of "read_next a"] spsc_preserved [OF less.prems(1) st]
      obtain u where u: "spsc_reach ?t u" "consumer u = CIdle" "producer u = producer s"
        "consumed u = consumed s @ [hd (queue_items (shared s))]" by auto
      from u(1) have "spsc_reach s u" by (rule spsc_reach_trans) (rule step [OF start st])
      with u show ?thesis by blast
    next
      case False
      have "item_of (popped s) = hd (queue_items (shared s))"
        using read_done [OF so False h(2)] ne by (simp add: queue_items_item_of hd_map)
      with step [OF start c_publish [OF less.prems(2) False]]
      show ?thesis by (intro exI conjI) (assumption | simp)+
    qed
  qed
  then show thesis using that by blast
qed

section \<open>Properties\<close>

text \<open>
  C21: with one producer and one consumer, interleaved after every statement of \<open>QueuePushAny\<close> and
  \<open>QueuePrePop\<close> and after every point of their copies, the ring buffer needs no lock on a
  sequentially consistent memory: the packets taken out are, in their order and field for field,
  the first of those put in, the slot being written is never the slot being read, and no
  access misses an array.
\<close>

theorem spsc_safe:
  assumes "queue_inv q" "queue_items q = []" "spsc_reach (spsc_start q out) t"
  shows "produced t = consumed t @ queue_items (shared t)
    \<and> (producer t = PIdle \<or> consumer t = CIdle
       \<or> slot (shared t) (wr_idx (shared t)) \<noteq> slot (shared t) (rd_idx (shared t)))
    \<and> (\<forall>r. spsc_step t r \<longrightarrow> (\<exists>u. r = Inr u))"
proof -
  have inv: "spsc_inv t" by (rule spsc_reach_inv [OF assms(3) spsc_start_inv [OF assms(1,2)]])
  then obtain k xs where r: "ring k xs (shared t)" and w: "list_all well_sized (stored (shared t))"
    and p: "producer_ok k xs (shared t) (producer t)" and c: "consumer_ok (shared t) (consumer t) (popped t)"
    by (auto simp: spsc_inv_def)
  have "slot (shared t) (wr_idx (shared t)) \<noteq> slot (shared t) (rd_idx (shared t))"
    if "producer t \<noteq> PIdle" "consumer t \<noteq> CIdle"
    using slots_apart [OF r] head_slot(3) [OF r _ w] that p c
    by (auto simp: producer_ok_def consumer_ok_def split: producer_at.splits consumer_at.splits)
  with inv spsc_preserved [OF inv] show ?thesis by (auto simp: spsc_inv_def)
qed

text \<open>
  Neither thread blocks the other for ever: a packet that was stored can be taken out, whatever
  the producer is doing.
\<close>

lemma spsc_progress:
  assumes "queue_inv q" "queue_items q = []" "spsc_reach (spsc_start q out) t"
    and "queue_items (shared t) \<noteq> []" "consumer t = CIdle"
  shows "\<exists>u. spsc_reach t u \<and> consumed u = consumed t @ [hd (queue_items (shared t))]
    \<and> producer u = producer t"
proof -
  have inv: "spsc_inv t" by (rule spsc_reach_inv [OF assms(3) spsc_start_inv [OF assms(1,2)]])
  then obtain k xs where r: "ring k xs (shared t)" by (auto simp: spsc_inv_def)
  have "\<not> QueueIsEmpty (shared t)"
    using assms(4) stored_simps(2) [OF r]
    by (simp add: queue_items_item_of is_empty_iff flip: length_0_conv)
  then have st: "spsc_step t (Inr (t\<lparr>consumer := CRead RTime\<rparr>))" by (rule c_test [OF assms(5)])
  then have "spsc_inv (t\<lparr>consumer := CRead RTime\<rparr>)" using spsc_preserved [OF inv] by blast
  from reads_alone [OF this, of RTime] obtain u where
    "spsc_reach (t\<lparr>consumer := CRead RTime\<rparr>) u" "producer u = producer t"
    "consumed u = consumed t @ [hd (queue_items (shared t))]" by auto
  then show ?thesis by (blast intro: spsc_reach_trans step [OF start st])
qed

text \<open>A push of two points into the queue of one slot, then half of the pop.\<close>

definition demo_item :: item where
  "demo_item = (1, [zero_point, zero_point\<lparr>pt_x := 1\<rparr>])"

lemma demo_spsc:
  obtains t where "spsc_reach (spsc_start demo_queue blank_packet) t" "consumer t = CRead RNum"
    "queue_items (shared t) = [demo_item]"
proof -
  let ?s = "spsc_start demo_queue blank_packet"
  have inv: "spsc_inv ?s" by (rule spsc_start_inv [OF demo_queue_ok])
  then obtain k xs where r: "ring k xs (shared ?s)" by (auto simp: spsc_inv_def)
  have "\<not> QueueIsFull (shared ?s)" by (simp add: QueueIsFull_def demo_queue_def spsc_start_def)
  then obtain q where q: "spsc_reach ?s (?s\<lparr>shared := q, producer := PIdle, produced := produced ?s @ [demo_item]\<rparr>)"
    by (rule push_alone [OF r, of demo_item, rotated 2])
      (simp_all add: spsc_start_def countable_item_def demo_item_def)
  let ?t = "?s\<lparr>shared := q, producer := PIdle, produced := produced ?s @ [demo_item]\<rparr>"
  have it: "queue_items q = [demo_item]" and inv': "spsc_inv ?t"
    using spsc_reach_inv [OF q inv] by (auto simp: spsc_inv_def spsc_start_def)
  then obtain k xs where r': "ring k xs q" and w: "list_all well_sized (stored q)"
    by (auto simp: spsc_inv_def)
  have ne: "stored q \<noteq> []" using it by (auto simp: queue_items_item_of)
  then have "\<not> QueueIsEmpty q" using head_slot(3) [OF r' ne w] by (simp add: is_empty_iff)
  then have s1: "spsc_step ?t (Inr (?t\<lparr>consumer := CRead RTime\<rparr>))"
    by (intro c_test) (simp_all add: spsc_start_def)
  let ?t1 = "?t\<lparr>consumer := CRead RTime\<rparr>"
  obtain out where "spsc_step ?t1 (Inr (?t1\<lparr>popped := out, consumer := CRead RNum\<rparr>))"
    using c_read [of ?t1 RTime] head_slot(1) [OF r' ne w] by simp
  with q s1 have "spsc_reach ?s (?t1\<lparr>popped := out, consumer := CRead RNum\<rparr>)" by (blast intro: step)
  then show thesis by (rule that) (simp_all add: it)
qed

theorem spsc_safe_witness:
  "\<exists>t. spsc_reach (spsc_start demo_queue blank_packet) t \<and> consumer t = CRead RNum
     \<and> produced t = consumed t @ [demo_item]"
proof -
  obtain t where t: "spsc_reach (spsc_start demo_queue blank_packet) t" "consumer t = CRead RNum"
    "queue_items (shared t) = [demo_item]" by (rule demo_spsc)
  with spsc_safe [OF demo_queue_ok t(1)] show ?thesis by auto
qed

end
