(* ===== verification/CacheIndex.thy ===== *)
theory CacheIndex
  imports Machine
begin

text \<open>
  The table that gives every LiDAR one of thirty-two slots:
  \<open>livox_ros_driver2/src/comm/cache_index.cpp\<close>.  The state is the map from keys to slots and the
  array of flags.  Every method returns its code (0 or -1), the value its reference parameter
  \<open>index\<close> ends up with, and the table.  Text printed is left out; a mutex-protected block is one
  step.
\<close>

section \<open>The class\<close>

definition kMaxSourceLidar :: nat where
  "kMaxSourceLidar = 32"

definition kLivoxLidarType :: "8 word" where
  "kLivoxLidarType = 8"

record cache_index =
  map_index :: "string \<rightharpoonup> 8 word"
  index_cache :: "bool list"

definition cache_new :: cache_index where
  "cache_new = \<lparr>map_index = Map.empty, index_cache = replicate kMaxSourceLidar False\<rparr>"

definition GenerateIndexKey :: "8 word \<Rightarrow> 32 word \<Rightarrow> string option" where
  "GenerateIndexKey lidar_type handle =
     (if lidar_type = kLivoxLidarType then Some (''livox_lidar_'' @ to_string (unat handle)) else None)"

text \<open>The loop over the flags: the first slot from \<open>i\<close> on that is free.\<close>

fun free_slot :: "nat \<Rightarrow> bool list \<Rightarrow> nat option" where
  "free_slot i [] = None"
| "free_slot i (b # bs) = (if \<not> b then Some i else free_slot (Suc i) bs)"

text \<open>The two critical sections of \<open>GetFreeIndex\<close>: look the key up, then take a free slot.\<close>

definition lookup_key :: "string \<Rightarrow> cache_index \<Rightarrow> 8 word option" where
  "lookup_key key c = map_index c key"

definition take_slot :: "string \<Rightarrow> 8 word \<Rightarrow> cache_index \<Rightarrow> int \<times> 8 word \<times> cache_index" where
  "take_slot key index c =
     (case free_slot 0 (take kMaxSourceLidar (index_cache c)) of
        Some i \<Rightarrow> (0, word_of_nat i,
           c\<lparr>index_cache := (index_cache c)[i := True], map_index := (map_index c)(key \<mapsto> word_of_nat i)\<rparr>)
      | None \<Rightarrow> (-1, index, c))"

definition GetFreeIndex :: "8 word \<Rightarrow> 32 word \<Rightarrow> 8 word \<Rightarrow> cache_index \<Rightarrow> int \<times> 8 word \<times> cache_index" where
  "GetFreeIndex lidar_type handle index c =
     (case GenerateIndexKey lidar_type handle of
        None \<Rightarrow> (-1, index, c)
      | Some key \<Rightarrow>
          (case lookup_key key c of
             Some i \<Rightarrow> (0, i, c)
           | None \<Rightarrow> take_slot key index c))"

definition GetIndex :: "8 word \<Rightarrow> 32 word \<Rightarrow> 8 word \<Rightarrow> cache_index \<Rightarrow> int \<times> 8 word" where
  "GetIndex lidar_type handle index c =
     (case GenerateIndexKey lidar_type handle of
        None \<Rightarrow> (-1, index)
      | Some key \<Rightarrow> (case map_index c key of Some i \<Rightarrow> (0, i) | None \<Rightarrow> (-1, index)))"

definition LvxGetIndex :: "8 word \<Rightarrow> 32 word \<Rightarrow> 8 word \<Rightarrow> cache_index \<Rightarrow> int \<times> 8 word \<times> cache_index" where
  "LvxGetIndex lidar_type handle index c =
     (case GenerateIndexKey lidar_type handle of
        None \<Rightarrow> (-1, index, c)
      | Some key \<Rightarrow>
          (case map_index c key of
             Some i \<Rightarrow> (0, i, c)
           | None \<Rightarrow> GetFreeIndex lidar_type handle index c))"

definition ResetIndex :: "8 word \<Rightarrow> 32 word \<Rightarrow> cache_index \<Rightarrow> cpp_error + cache_index" where
  "ResetIndex lidar_type handle c =
     (case GenerateIndexKey lidar_type handle of
        None \<Rightarrow> Inr c
      | Some key \<Rightarrow>
          (case map_index c key of
             None \<Rightarrow> Inr c
           | Some i \<Rightarrow>
               if unat i < length (index_cache c)
               then Inr (c\<lparr>map_index := (map_index c)(key := None),
                           index_cache := (index_cache c)[unat i := False]\<rparr>)
               else Inl OutOfBounds))"

section \<open>Keys\<close>

text \<open>The key of a handle determines the handle.\<close>

definition key_of :: "32 word \<Rightarrow> string" where
  "key_of h = ''livox_lidar_'' @ to_string (unat h)"

lemma key_of_inject [simp]: "key_of h = key_of h' \<longleftrightarrow> h = h'"
  by (auto simp: key_of_def word_unat_eq_iff dest: to_string_inject)

lemma GenerateIndexKey_eq [simp]:
  "GenerateIndexKey kLivoxLidarType h = Some (key_of h)"
  "t \<noteq> kLivoxLidarType \<Longrightarrow> GenerateIndexKey t h = None"
  by (simp_all add: GenerateIndexKey_def key_of_def)

lemma free_slot_Some:
  "free_slot i bs = Some j \<Longrightarrow> i \<le> j \<and> j < i + length bs \<and> \<not> bs ! (j - i)"
  by (induction i bs rule: free_slot.induct) (fastforce simp: nth_Cons' split: if_splits)+

lemma free_slot_None: "free_slot i bs = None \<longleftrightarrow> list_all id bs"
  by (induction i bs rule: free_slot.induct) auto

section \<open>The invariant\<close>

text \<open>
  A flag is set exactly when some key owns the slot, no two keys own the same, and the keys are
  those of LiDARs.
\<close>

definition cache_inv :: "cache_index \<Rightarrow> bool" where
  "cache_inv c \<longleftrightarrow> length (index_cache c) = kMaxSourceLidar
     \<and> (\<forall>k i. map_index c k = Some i \<longrightarrow> unat i < kMaxSourceLidar \<and> k \<in> range key_of)
     \<and> (\<forall>k k' i. map_index c k = Some i \<and> map_index c k' = Some i \<longrightarrow> k = k')
     \<and> (\<forall>j < kMaxSourceLidar. index_cache c ! j \<longleftrightarrow> (\<exists>k i. map_index c k = Some i \<and> unat i = j))"

lemma cache_inv_new: "cache_inv cache_new"
  by (simp add: cache_inv_def cache_new_def)

lemma unat_small: "j < 32 \<Longrightarrow> unat (word_of_nat j :: 8 word) = j"
  by (simp add: unsigned_of_nat take_bit_nat_eq_self)

lemma take_slot_cases:
  assumes c: "cache_inv c" and t: "take_slot key ix c = (r, i, c')" and new: "map_index c key = None"
  obtains (full) "r = -1" "i = ix" "c' = c" "list_all id (index_cache c)"
  | (taken) j where "r = 0" "i = word_of_nat j" "j < 32" "\<not> index_cache c ! j"
      "c' = c\<lparr>index_cache := (index_cache c)[j := True], map_index := (map_index c)(key \<mapsto> word_of_nat j)\<rparr>"
proof -
  have len: "take kMaxSourceLidar (index_cache c) = index_cache c" "length (index_cache c) = 32"
    using c by (simp_all add: cache_inv_def kMaxSourceLidar_def)
  show thesis
  proof (cases "free_slot 0 (index_cache c)")
    case None
    with t len show thesis by (intro full) (simp_all add: take_slot_def free_slot_None)
  next
    case (Some j)
    with t len free_slot_Some [OF Some] show thesis by (intro taken [of j]) (auto simp: take_slot_def)
  qed
qed

lemma unat_8_inject: "unat (i :: 8 word) = unat j \<longleftrightarrow> i = j"
  by (simp add: word_unat_eq_iff)

lemma cache_inv_take:
  assumes c: "cache_inv c" and j: "j < 32" "\<not> index_cache c ! j" and new: "map_index c key = None"
    and key: "key \<in> range key_of"
  shows "cache_inv (c\<lparr>index_cache := (index_cache c)[j := True],
    map_index := (map_index c)(key \<mapsto> word_of_nat j)\<rparr>)"
proof -
  have len: "length (index_cache c) = 32" using c by (simp add: cache_inv_def kMaxSourceLidar_def)
  have owner: "unat i \<noteq> j" if "map_index c k = Some i" for k i
    using c that j by (auto simp: cache_inv_def kMaxSourceLidar_def)
  have owner': "i \<noteq> word_of_nat j" if "map_index c k = Some i" for k i
    using owner [OF that] unat_small [OF j(1)] by auto
  show ?thesis
    unfolding cache_inv_def
  proof (intro conjI allI impI)
    fix l assume l: "l < kMaxSourceLidar"
    show "index_cache (c\<lparr>index_cache := (index_cache c)[j := True], map_index := (map_index c)(key \<mapsto> word_of_nat j)\<rparr>) ! l
      \<longleftrightarrow> (\<exists>k i. map_index (c\<lparr>index_cache := (index_cache c)[j := True], map_index := (map_index c)(key \<mapsto> word_of_nat j)\<rparr>) k = Some i
            \<and> unat i = l)"
    proof (cases "l = j")
      case True
      then show ?thesis using len j unat_small [OF j(1)] by auto
    next
      case False
      then have "index_cache c ! l \<longleftrightarrow> (\<exists>k i. map_index c k = Some i \<and> unat i = l)"
        using c l by (simp add: cache_inv_def)
      also have "\<dots> \<longleftrightarrow> (\<exists>k i. ((map_index c)(key \<mapsto> word_of_nat j)) k = Some i \<and> unat i = l)"
        using new False unat_small [OF j(1)] by (metis fun_upd_apply option.distinct(1) option.inject)
      finally show ?thesis using False by simp
    qed
  qed (use c j len owner' key unat_small [OF j(1)] in \<open>auto simp: cache_inv_def kMaxSourceLidar_def split: if_splits\<close>)
qed

lemma GetFreeIndex_inv:
  assumes c: "cache_inv c" and g: "GetFreeIndex t h ix c = (r, i, c')"
  shows "cache_inv c'"
proof (cases "t = kLivoxLidarType \<and> map_index c (key_of h) = None")
  case True
  then have t: "take_slot (key_of h) ix c = (r, i, c')" and new: "map_index c (key_of h) = None"
    using g by (simp_all add: GetFreeIndex_def lookup_key_def)
  from c t new show ?thesis
    by (cases rule: take_slot_cases) (auto intro: cache_inv_take [OF c _ _ new] c)
next
  case False
  then show ?thesis
    using c g by (cases "t = kLivoxLidarType") (auto simp: GetFreeIndex_def lookup_key_def)
qed

lemma ResetIndex_inv:
  assumes c: "cache_inv c"
  shows "\<exists>c'. ResetIndex t h c = Inr c' \<and> cache_inv c'"
proof (cases "t = kLivoxLidarType")
  case False
  with c show ?thesis by (simp add: ResetIndex_def)
next
  case t: True
  show ?thesis
  proof (cases "map_index c (key_of h)")
    case None
    with c t show ?thesis by (simp add: ResetIndex_def)
  next
    case (Some i)
    have len: "length (index_cache c) = 32" and i: "unat i < 32"
      using c Some by (auto simp: cache_inv_def kMaxSourceLidar_def)
    have own: "map_index c k = Some i \<longleftrightarrow> k = key_of h" for k
      using c Some by (auto simp: cache_inv_def)
    let ?c = "c\<lparr>map_index := (map_index c)(key_of h := None), index_cache := (index_cache c)[unat i := False]\<rparr>"
    have "cache_inv ?c"
      unfolding cache_inv_def
    proof (intro conjI allI impI)
      fix l assume l: "l < kMaxSourceLidar"
      show "index_cache ?c ! l \<longleftrightarrow> (\<exists>k i. map_index ?c k = Some i \<and> unat i = l)"
      proof (cases "l = unat i")
        case True
        have "\<not> (\<exists>k i'. map_index ?c k = Some i' \<and> unat i' = l)"
          using own True by (auto simp: unat_8_inject split: if_splits)
        with True len i show ?thesis by simp
      next
        case False
        then have "index_cache c ! l \<longleftrightarrow> (\<exists>k i. map_index c k = Some i \<and> unat i = l)"
          using c l by (simp add: cache_inv_def)
        also have "\<dots> \<longleftrightarrow> (\<exists>k i. map_index ?c k = Some i \<and> unat i = l)"
          using Some False by (auto split: if_splits) (metis option.inject)
        finally show ?thesis using False by simp
      qed
    qed (use c len in \<open>auto simp: cache_inv_def kMaxSourceLidar_def split: if_splits\<close>)
    with Some t len i show ?thesis by (simp add: ResetIndex_def)
  qed
qed

section \<open>Operations of a run\<close>

datatype cache_op = Acquire "8 word" "32 word" | LvxAcquire "8 word" "32 word" | Release "8 word" "32 word"

fun cache_handle :: "cache_op \<Rightarrow> cache_index \<Rightarrow> cpp_error + cache_index" where
  "cache_handle (Acquire t h) c = Inr (snd (snd (GetFreeIndex t h 0 c)))"
| "cache_handle (LvxAcquire t h) c = Inr (snd (snd (LvxGetIndex t h 0 c)))"
| "cache_handle (Release t h) c = ResetIndex t h c"

lemma LvxGetIndex_eq: "LvxGetIndex t h ix c = GetFreeIndex t h ix c"
  by (cases "t = kLivoxLidarType")
    (auto simp: LvxGetIndex_def GetFreeIndex_def lookup_key_def split: option.split)

interpretation cache: safe_machine cache_handle "\<lambda>_. True" cache_inv
proof
  fix c ev c'
  assume c: "cache_inv c" and h: "cache_handle ev c = Inr c'"
  have acq: "cache_inv (snd (snd (GetFreeIndex t l 0 c)))" for t l
    by (cases "GetFreeIndex t l 0 c") (use GetFreeIndex_inv [OF c] in auto)
  show "cache_inv c'"
  proof (cases ev)
    case (Release t l)
    with h ResetIndex_inv [OF c, of t l] show ?thesis by auto
  qed (use h acq in \<open>auto simp: LvxGetIndex_eq\<close>)
next
  fix c ev
  assume "cache_inv c"
  then show "\<exists>c'. cache_handle ev c = Inr c'"
    by (cases ev) (auto dest: ResetIndex_inv)
qed

abbreviation cache_run :: "cache_op list \<Rightarrow> cache_index \<Rightarrow> cpp_error + cache_index" where
  "cache_run \<equiv> run_events cache_handle"

lemma cache_run_inv: "cache_run evs cache_new = Inr c \<Longrightarrow> cache_inv c"
  by (rule cache.run_inv [OF cache_inv_new]) (simp_all add: list_all_iff)

section \<open>Properties\<close>

text \<open>
  C35: after any sequence of acquisitions and releases, made one at a time, none of which indexes
  the flags out of bounds, two LiDARs that both have a slot have the same slot only when they are
  the same LiDAR, every slot is below thirty-two, and of the thirty-two flags exactly those are set
  whose slot some LiDAR has, so that no slot is lost.
\<close>

theorem cache_slots_distinct:
  "\<exists>c. cache_run evs cache_new = Inr c
    \<and> (\<forall>h h' i j. GetIndex kLivoxLidarType h 0 c = (0, i) \<and> GetIndex kLivoxLidarType h' 0 c = (0, j) \<longrightarrow>
         unat i < 32 \<and> (i = j \<longrightarrow> h = h'))
    \<and> length (index_cache c) = 32
    \<and> (\<forall>j < 32. index_cache c ! j \<longleftrightarrow> (\<exists>h. GetIndex kLivoxLidarType h 0 c = (0, word_of_nat j)))"
proof -
  obtain c where run: "cache_run evs cache_new = Inr c"
    using cache.run_ok [OF cache_inv_new, of evs] by (auto simp: list_all_iff)
  then have c: "cache_inv c" by (rule cache_run_inv)
  have owns: "GetIndex kLivoxLidarType h 0 c = (0, i) \<longleftrightarrow> map_index c (key_of h) = Some i" for h i
    by (auto simp: GetIndex_def split: option.splits)
  have "unat i < 32 \<and> (i = j \<longrightarrow> h = h')"
    if "map_index c (key_of h) = Some i" "map_index c (key_of h') = Some j" for h h' i j
  proof -
    have "key_of h = key_of h'" if "i = j"
      using c that \<open>map_index c (key_of h) = Some i\<close> \<open>map_index c (key_of h') = Some j\<close>
      unfolding cache_inv_def by blast
    with c that show ?thesis by (auto simp: cache_inv_def kMaxSourceLidar_def)
  qed
  moreover have "index_cache c ! j \<longleftrightarrow> (\<exists>h. map_index c (key_of h) = Some (word_of_nat j))" if "j < 32" for j
  proof -
    have "index_cache c ! j \<longleftrightarrow> (\<exists>k i. map_index c k = Some i \<and> unat i = j)"
      using c that by (simp add: cache_inv_def kMaxSourceLidar_def)
    also have "\<dots> \<longleftrightarrow> (\<exists>k. map_index c k = Some (word_of_nat j))"
      using unat_small [OF that] by (metis unat_8_inject)
    also have "\<dots> \<longleftrightarrow> (\<exists>h. map_index c (key_of h) = Some (word_of_nat j))"
      using c unfolding cache_inv_def by blast
    finally show ?thesis .
  qed
  moreover have "length (index_cache c) = 32" using c by (simp add: cache_inv_def kMaxSourceLidar_def)
  ultimately have "(\<forall>h h' i j. GetIndex kLivoxLidarType h 0 c = (0, i) \<and> GetIndex kLivoxLidarType h' 0 c = (0, j) \<longrightarrow>
         unat i < 32 \<and> (i = j \<longrightarrow> h = h'))
    \<and> length (index_cache c) = 32
    \<and> (\<forall>j < 32. index_cache c ! j \<longleftrightarrow> (\<exists>h. GetIndex kLivoxLidarType h 0 c = (0, word_of_nat j)))"
    unfolding owns by blast
  with run show ?thesis by blast
qed

text \<open>
  The acquisition is a lookup-or-insert: a LiDAR that has a slot gets it again and the table is
  unchanged; a new one gets a free slot if there is one, \<open>GetIndex\<close> then finds it, and every other
  LiDAR keeps its slot; with all thirty-two taken, or for an unknown type, it fails and changes
  nothing.
\<close>

lemma cache_acquire:
  assumes run: "cache_run evs cache_new = Inr c" and g: "GetFreeIndex t h ix c = (r, i, c')"
  shows "(r = 0 \<longrightarrow> t = kLivoxLidarType \<and> GetIndex t h 0 c' = (0, i)
            \<and> (\<forall>h'. h' \<noteq> h \<longrightarrow> GetIndex t h' 0 c' = GetIndex t h' 0 c))
    \<and> (r \<noteq> 0 \<longrightarrow> r = -1 \<and> c' = c \<and> i = ix)
    \<and> (r \<noteq> 0 \<longleftrightarrow> t \<noteq> kLivoxLidarType
         \<or> fst (GetIndex t h 0 c) \<noteq> 0 \<and> list_all id (index_cache c))
    \<and> (fst (GetIndex t h 0 c) = 0 \<longrightarrow> c' = c)"
proof (cases "t = kLivoxLidarType \<and> map_index c (key_of h) = None")
  case True
  then have t: "take_slot (key_of h) ix c = (r, i, c')" and new: "map_index c (key_of h) = None"
    using g by (simp_all add: GetFreeIndex_def lookup_key_def)
  from run have c: "cache_inv c" by (rule cache_run_inv)
  from c t new show ?thesis
  proof (cases rule: take_slot_cases)
    case full
    with True new show ?thesis by (simp add: GetIndex_def)
  next
    case (taken j)
    moreover from taken(3,4) c have "\<not> list_all id (index_cache c)"
      by (auto simp: cache_inv_def kMaxSourceLidar_def list_all_length)
    ultimately show ?thesis using True new by (auto simp: GetIndex_def)
  qed
next
  case False
  then show ?thesis
    using g by (cases "t = kLivoxLidarType") (auto simp: GetFreeIndex_def lookup_key_def GetIndex_def)
qed

text \<open>
  Releasing a LiDAR's slot undoes its acquisition: the table is again the one before it.
\<close>

lemma cache_release_acquire:
  assumes "cache_run evs cache_new = Inr c" "fst (GetIndex kLivoxLidarType h 0 c) \<noteq> 0"
    and "GetFreeIndex kLivoxLidarType h ix c = (0, i, c')"
  shows "ResetIndex kLivoxLidarType h c' = Inr c"
proof -
  from assms(1) have c: "cache_inv c" by (rule cache_run_inv)
  have new: "map_index c (key_of h) = None"
    using assms(2) by (auto simp: GetIndex_def split: option.splits)
  with assms(3) have t: "take_slot (key_of h) ix c = (0, i, c')"
    by (simp add: GetFreeIndex_def lookup_key_def)
  from c t new show ?thesis
  proof (cases rule: take_slot_cases)
    case (taken j)
    moreover have "(index_cache c)[j := False] = index_cache c"
      using taken(4) by (metis list_update_id)
    moreover have "(map_index c)(key_of h := None) = map_index c" using new by auto
    moreover have "length (index_cache c) = 32" using c by (simp add: cache_inv_def kMaxSourceLidar_def)
    ultimately show ?thesis by (simp add: ResetIndex_def unat_small)
  qed simp
qed

text \<open>
  \<open>GetFreeIndex\<close> releases its mutex between the lookup and the allocation: when two threads
  acquire a slot for the same new LiDAR at the same time, both lookups fail, two slots are taken, and
  the first is lost - its flag stays set although no LiDAR owns it, so no release frees it.
\<close>

lemma cache_race:
  assumes "cache_run evs cache_new = Inr c" "lookup_key (key_of h) c = None"
    and "take_slot (key_of h) ix c = (0, i, c1)" "take_slot (key_of h) ix' c1 = (0, i', c2)"
  shows "i \<noteq> i' \<and> index_cache c2 ! unat i \<and> (\<forall>k. map_index c2 k \<noteq> Some i)"
proof -
  from assms(1) have c: "cache_inv c" by (rule cache_run_inv)
  have new: "map_index c (key_of h) = None" using assms(2) by (simp add: lookup_key_def)
  from c assms(3) new obtain j where j: "i = word_of_nat j" "j < 32" "\<not> index_cache c ! j"
    "c1 = c\<lparr>index_cache := (index_cache c)[j := True], map_index := (map_index c)(key_of h \<mapsto> word_of_nat j)\<rparr>"
    by (cases rule: take_slot_cases) auto
  have len: "length (index_cache c) = 32" using c by (simp add: cache_inv_def kMaxSourceLidar_def)
  from assms(4) obtain j' where f: "free_slot 0 (take kMaxSourceLidar (index_cache c1)) = Some j'"
    and c2: "i' = word_of_nat j'" "c2 = c1\<lparr>index_cache := (index_cache c1)[j' := True],
      map_index := (map_index c1)(key_of h \<mapsto> word_of_nat j')\<rparr>"
    by (auto simp: take_slot_def split: option.splits)
  have j': "j' < 32" "\<not> index_cache c1 ! j'"
    using free_slot_Some [OF f] len by (auto simp: j(4) kMaxSourceLidar_def)
  then have ne: "j \<noteq> j'" using j len by auto
  then have "i \<noteq> i'" using j c2(1) j'(1) by (metis unat_small)
  moreover have "map_index c k \<noteq> Some i" for k
    using c j unat_small [OF j(2)] by (auto simp: cache_inv_def kMaxSourceLidar_def)
  ultimately show ?thesis
    using j c2 ne len unat_small [OF j(2)] by auto
qed

section \<open>Witnesses\<close>

lemma demo_acquire:
  "GetFreeIndex kLivoxLidarType 7 9 cache_new = (0, 0, cache_new
     \<lparr>index_cache := (index_cache cache_new)[0 := True], map_index := [key_of 7 \<mapsto> 0]\<rparr>)"
  by (simp add: GetFreeIndex_def lookup_key_def take_slot_def cache_new_def kMaxSourceLidar_def
      numeral_eq_Suc)

lemma demo_new: "cache_run [] cache_new = Inr cache_new"
  by simp

theorem cache_slots_distinct_witness:
  "\<exists>c. cache_run [Acquire kLivoxLidarType 7, Acquire kLivoxLidarType 8, Release kLivoxLidarType 7] cache_new = Inr c
     \<and> (\<forall>h h' i. GetIndex kLivoxLidarType h 0 c = (0, i) \<and> GetIndex kLivoxLidarType h' 0 c = (0, i) \<longrightarrow> h = h')
     \<and> (index_cache c ! 3 \<longleftrightarrow> (\<exists>h. GetIndex kLivoxLidarType h 0 c = (0, word_of_nat 3)))"
proof -
  obtain c where c: "cache_run [Acquire kLivoxLidarType 7, Acquire kLivoxLidarType 8, Release kLivoxLidarType 7] cache_new = Inr c"
    "\<forall>h h' i j. GetIndex kLivoxLidarType h 0 c = (0, i) \<and> GetIndex kLivoxLidarType h' 0 c = (0, j) \<longrightarrow>
       unat i < 32 \<and> (i = j \<longrightarrow> h = h')"
    "\<forall>j < 32. index_cache c ! j \<longleftrightarrow> (\<exists>h. GetIndex kLivoxLidarType h 0 c = (0, word_of_nat j))"
    using cache_slots_distinct [of "[Acquire kLivoxLidarType 7, Acquire kLivoxLidarType 8, Release kLivoxLidarType 7]"]
    by blast
  from c(3) have "index_cache c ! 3 \<longleftrightarrow> (\<exists>h. GetIndex kLivoxLidarType h 0 c = (0, word_of_nat 3))"
    by (rule allE [of _ 3]) simp
  with c show ?thesis by blast
qed

end
