(* ===== verification/LidarComm.thy ===== *)
theory LidarComm
  imports Fifo
begin

text \<open>
  Small parts of \<open>livox_ros_driver2/src/comm\<close>: the IMU queue
  (\<open>lidar_imu_data_queue.cpp\<close>), an unbounded implementation of the interface of \<open>Fifo\<close>; the
  counting semaphore (\<open>semaphore.cpp\<close>), whose \<open>Wait\<close> has no result while it blocks; and the
  functions of \<open>comm.cpp\<close>.
\<close>

section \<open>The IMU queue\<close>

record imu_data =
  imu_lidar_type :: "8 word"
  imu_handle :: "32 word"
  imu_slot :: "8 word"
  imu_time_stamp :: "64 word"
  gyro_x :: real
  gyro_y :: real
  gyro_z :: real
  acc_x :: real
  acc_y :: real
  acc_z :: real

text \<open>\<open>Push\<close> copies every member but \<open>slot\<close>, which keeps what the memory of the copy held.\<close>

definition imu_copy :: "8 word \<Rightarrow> imu_data \<Rightarrow> imu_data" where
  "imu_copy garbage d = d\<lparr>imu_slot := garbage\<rparr>"

definition ImuPush :: "8 word \<Rightarrow> imu_data \<Rightarrow> imu_data list \<Rightarrow> imu_data list" where
  "ImuPush garbage d q = q @ [imu_copy garbage d]"

definition ImuPop :: "imu_data list \<Rightarrow> imu_data \<Rightarrow> bool \<times> imu_data \<times> imu_data list" where
  "ImuPop q out = (case q of [] \<Rightarrow> (False, out, q) | d # ds \<Rightarrow> (True, d, ds))"

definition ImuEmpty :: "imu_data list \<Rightarrow> bool" where
  "ImuEmpty q \<longleftrightarrow> q = []"

definition ImuClear :: "imu_data list \<Rightarrow> imu_data list" where
  "ImuClear q = []"

text \<open>The two operations in the form of the interface; an item is what the client sees of it.\<close>

definition imu_push_item :: "imu_data \<Rightarrow> imu_data list \<Rightarrow> cpp_error + imu_data list" where
  "imu_push_item d q = Inr (ImuPush 0 d q)"

definition imu_pop_item :: "imu_data list \<Rightarrow> cpp_error + imu_data \<times> imu_data list" where
  "imu_pop_item q = (case ImuPop q (hd q) of (ok, d, q') \<Rightarrow> Inr (d, q'))"

interpretation imu_fifo: fifo "\<lambda>_. True" "\<lambda>q. q" "\<lambda>d. imu_slot d = 0" "\<lambda>_. True" ImuEmpty
  imu_push_item imu_pop_item
proof
  fix q :: "imu_data list"
  show "ImuEmpty q \<longleftrightarrow> q = []" by (simp add: ImuEmpty_def)
next
  fix q :: "imu_data list" and x :: imu_data
  assume "imu_slot x = 0"
  then show "\<exists>q'. imu_push_item x q = Inr q' \<and> True \<and> q' = q @ [x]"
    by (simp add: imu_push_item_def ImuPush_def imu_copy_def)
next
  fix q :: "imu_data list"
  assume "q \<noteq> []"
  then show "\<exists>q'. imu_pop_item q = Inr (hd q, q') \<and> True \<and> q' = tl q"
    by (cases q) (simp_all add: imu_pop_item_def ImuPop_def)
qed

section \<open>The semaphore\<close>

definition Signal :: "int \<Rightarrow> int" where
  "Signal count = count + 1"

definition Wait :: "int \<Rightarrow> int option" where
  "Wait count = (if count > 0 then Some (count - 1) else None)"

definition GetCount :: "int \<Rightarrow> int" where
  "GetCount count = count"

section \<open>Functions of comm.cpp\<close>

definition IsFilePathValid :: "string \<Rightarrow> bool" where
  "IsFilePathValid path = (length path > 4 \<and> length path < 256)"

text \<open>The conversion to 32 bits is defined for frequencies below \<open>2 ^ 32\<close>.\<close>

definition CalculatePacketQueueSize :: "real \<Rightarrow> 32 word" where
  "CalculatePacketQueueSize freq = (if freq > 10 then word_of_int (trunc freq) + 1 else 10)"

text \<open>
  \<open>ReplacePeriodByUnderline\<close>: the loop replaces the first period until there is none;
  \<open>find_period\<close> is \<open>str.find(".")\<close>, with \<open>None\<close> for \<open>npos\<close>.
\<close>

fun find_period :: "string \<Rightarrow> nat option" where
  "find_period [] = None"
| "find_period (c # cs) = (if c = CHR ''.'' then Some 0 else map_option Suc (find_period cs))"

definition periods :: "string \<Rightarrow> nat" where
  "periods s = length (filter (\<lambda>c. c = CHR ''.'') s)"

lemma find_period_Some:
  "find_period s = Some p \<Longrightarrow> p < length s \<and> s ! p = CHR ''.''
     \<and> periods s = Suc (periods (s[p := CHR ''_'']))
     \<and> map (\<lambda>c. if c = CHR ''.'' then CHR ''_'' else c) (s[p := CHR ''_''])
       = map (\<lambda>c. if c = CHR ''.'' then CHR ''_'' else c) s"
proof (induction s arbitrary: p)
  case (Cons c cs)
  then show ?case by (cases p) (auto simp: periods_def split: if_splits)
qed simp

lemma find_period_None: "find_period s = None \<longleftrightarrow> CHR ''.'' \<notin> set s"
  by (induction s) auto

function ReplacePeriodByUnderline :: "string \<Rightarrow> string" where
  "ReplacePeriodByUnderline str =
     (case find_period str of
        None \<Rightarrow> str
      | Some pos \<Rightarrow> ReplacePeriodByUnderline (str[pos := CHR ''_'']))"
  by auto
termination
  by (relation "measure periods") (auto dest: find_period_Some)

declare ReplacePeriodByUnderline.simps [simp del]

text \<open>The loop ends and replaces every period, and nothing else.\<close>

lemma ReplacePeriod_map:
  "ReplacePeriodByUnderline s = map (\<lambda>c. if c = CHR ''.'' then CHR ''_'' else c) s"
proof (induction s rule: ReplacePeriodByUnderline.induct)
  case (1 s)
  show ?case
  proof (cases "find_period s")
    case None
    then have "CHR ''.'' \<notin> set s" by (simp add: find_period_None)
    then have "map (\<lambda>c. if c = CHR ''.'' then CHR ''_'' else c) s = s"
      by (intro map_idI) auto
    with None show ?thesis by (subst ReplacePeriodByUnderline.simps) simp
  next
    case (Some p)
    with 1 find_period_Some [OF Some] show ?thesis
      by (subst ReplacePeriodByUnderline.simps) simp
  qed
qed

end
