(* ===== verification/Lds.thy ===== *)
theory Lds
  imports Ldq CacheIndex LidarComm
begin

text \<open>
  The LiDAR data source, class \<open>Lds\<close> (\<open>livox_ros_driver2/src/lds.cpp\<close>, \<open>lds.h\<close>): thirty-two
  devices, each with a ring buffer for points (\<open>Ldq\<close>) and a queue for IMU data (\<open>LidarComm\<close>), the
  table of slots (\<open>CacheIndex\<close>) and two semaphores that wake the publishing threads.  Also the
  consumer of these queues: the polling part of \<open>lddc.cpp\<close>, in the build for ROS 1.
\<close>

section \<open>State\<close>

datatype connect_state = StateOff | StateOn | StateConfig | StateSampling

record lidar_device =
  dev_lidar_type :: "8 word"
  dev_handle :: "32 word"
  dev_data_src :: "8 word"
  connect_state :: connect_state
  dev_data :: lidar_data_queue
  dev_imu :: "imu_data list"

record lds =
  lidar_count :: "8 word"
  lidars :: "lidar_device list"
  pcd_semaphore :: int
  imu_semaphore :: int
  cache :: cache_index
  publish_freq :: real
  lds_data_src :: "8 word"
  request_exit :: bool

text \<open>\<open>PointFrame\<close>: arrays of thirty-two times and packets, the first \<open>lidar_num\<close> in use.\<close>

record point_frame =
  frame_base_time :: "64 word list"
  lidar_num :: "8 word"
  lidar_point :: "point_packet list"

definition device :: "lds \<Rightarrow> nat \<Rightarrow> cpp_error + lidar_device" where
  "device s i = (if i < length (lidars s) then Inr (lidars s ! i) else Inl OutOfBounds)"

definition set_device :: "nat \<Rightarrow> lidar_device \<Rightarrow> lds \<Rightarrow> lds" where
  "set_device i d s = s\<lparr>lidars := (lidars s)[i := d]\<rparr>"

definition frame_entry :: "point_frame \<Rightarrow> nat \<Rightarrow> cpp_error + point_packet \<times> 64 word" where
  "frame_entry f i =
     (if i < length (lidar_point f) \<and> i < length (frame_base_time f)
      then Inr (lidar_point f ! i, frame_base_time f ! i) else Inl OutOfBounds)"

section \<open>Construction and reset\<close>

definition ResetLidar :: "lidar_device \<Rightarrow> 8 word \<Rightarrow> cpp_error + lidar_device" where
  "ResetLidar d src =
     bind_result (DeInitQueue (dev_data d))
       (\<lambda>q. Inr (d\<lparr>dev_data := q, dev_imu := ImuClear (dev_imu d), dev_data_src := src,
                    connect_state := StateOff\<rparr>))"

fun reset_all :: "8 word \<Rightarrow> lidar_device list \<Rightarrow> cpp_error + lidar_device list" where
  "reset_all src [] = Inr []"
| "reset_all src (d # ds) =
     bind_result (ResetLidar d src) (\<lambda>d'. bind_result (reset_all src ds) (\<lambda>ds'. Inr (d' # ds')))"

definition ResetLds :: "8 word \<Rightarrow> lds \<Rightarrow> cpp_error + lds" where
  "ResetLds src s =
     bind_result (reset_all src (lidars s))
       (\<lambda>ds. Inr (s\<lparr>lidar_count := word_of_nat kMaxSourceLidar, lidars := ds\<rparr>))"

text \<open>The constructor, on the memory \<open>s0\<close> of the object.\<close>

definition Lds_new :: "real \<Rightarrow> 8 word \<Rightarrow> lds \<Rightarrow> cpp_error + lds" where
  "Lds_new freq src s0 =
     ResetLds src (s0\<lparr>lidar_count := word_of_nat kMaxSourceLidar, pcd_semaphore := 0, imu_semaphore := 0,
       publish_freq := freq, lds_data_src := src, request_exit := False\<rparr>)"

definition RequestExit :: "lds \<Rightarrow> lds" where
  "RequestExit s = s\<lparr>request_exit := True\<rparr>"

fun all_queues :: "(lidar_data_queue \<Rightarrow> bool) \<Rightarrow> nat \<Rightarrow> nat \<Rightarrow> lds \<Rightarrow> cpp_error + bool" where
  "all_queues P 0 i s = Inr True"
| "all_queues P (Suc n) i s =
     bind_result (device s i) (\<lambda>d. if \<not> P (dev_data d) then Inr False else all_queues P n (Suc i) s)"

definition IsAllQueueEmpty :: "lds \<Rightarrow> cpp_error + bool" where
  "IsAllQueueEmpty s = all_queues QueueIsEmpty (unat (lidar_count s)) 0 s"

definition IsAllQueueReadStop :: "lds \<Rightarrow> cpp_error + bool" where
  "IsAllQueueReadStop s = all_queues (\<lambda>q. QueueUsedSize q = 0) (unat (lidar_count s)) 0 s"

section \<open>Storing\<close>

definition wake_pcd :: "lds \<Rightarrow> lds" where
  "wake_pcd s = (if GetCount (pcd_semaphore s) \<le> 0 then s\<lparr>pcd_semaphore := Signal (pcd_semaphore s)\<rparr> else s)"

definition wake_imu :: "lds \<Rightarrow> lds" where
  "wake_imu s = (if GetCount (imu_semaphore s) \<le> 0 then s\<lparr>imu_semaphore := Signal (imu_semaphore s)\<rparr> else s)"

definition PushLidarData ::
    "(nat \<Rightarrow> storage_packet) \<Rightarrow> point_packet \<Rightarrow> 8 word \<Rightarrow> 64 word \<Rightarrow> lds \<Rightarrow> cpp_error + lds" where
  "PushLidarData fresh_packet lidar_data index bt s =
     bind_result (device s (unat index)) (\<lambda>d.
       bind_result (if storage_packet (dev_data d) = Null
                    then InitQueue fresh_packet (CalculatePacketQueueSize (publish_freq s)) (dev_data d)
                    else Inr (dev_data d)) (\<lambda>q.
         if \<not> QueueIsFull q
         then bind_result (QueuePushAny q lidar_data bt) (\<lambda>q'.
                let s' = set_device (unat index) (d\<lparr>dev_data := q'\<rparr>) s
                in Inr (if \<not> QueueIsEmpty q' then wake_pcd s' else s'))
         else Inr (wake_pcd (set_device (unat index) (d\<lparr>dev_data := q\<rparr>) s))))"

text \<open>The loop of \<open>StoragePointData\<close>, \<open>n\<close> entries from \<open>i\<close> on.\<close>

fun store_points ::
    "(nat \<Rightarrow> storage_packet) \<Rightarrow> point_frame \<Rightarrow> nat \<Rightarrow> nat \<Rightarrow> lds \<Rightarrow> cpp_error + lds" where
  "store_points fresh_packet f 0 i s = Inr s"
| "store_points fresh_packet f (Suc n) i s =
     bind_result (frame_entry f i) (\<lambda>(p, bt).
       bind_result
         (case GetIndex (pp_lidar_type p) (pp_handle p) 0 (cache s) of
            (ret, index) \<Rightarrow> if ret \<noteq> 0 then Inr s else PushLidarData fresh_packet p index bt s)
         (store_points fresh_packet f n (Suc i)))"

definition StoragePointData :: "(nat \<Rightarrow> storage_packet) \<Rightarrow> point_frame \<Rightarrow> lds \<Rightarrow> cpp_error + lds" where
  "StoragePointData fresh_packet f s = store_points fresh_packet f (unat (lidar_num f)) 0 s"

definition set_sampling :: "nat \<Rightarrow> lds \<Rightarrow> cpp_error + lds" where
  "set_sampling i s =
     bind_result (device s i) (\<lambda>d. Inr (set_device i (d\<lparr>connect_state := StateSampling\<rparr>) s))"

fun store_lvx ::
    "(nat \<Rightarrow> storage_packet) \<Rightarrow> point_frame \<Rightarrow> nat \<Rightarrow> nat \<Rightarrow> lds \<Rightarrow> cpp_error + lds" where
  "store_lvx fresh_packet f 0 i s = Inr s"
| "store_lvx fresh_packet f (Suc n) i s =
     bind_result (frame_entry f i) (\<lambda>(p, bt).
       bind_result
         (case LvxGetIndex (pp_lidar_type p) (pp_handle p) 0 (cache s) of
            (ret, index, c) \<Rightarrow>
              if ret \<noteq> 0 then Inr (s\<lparr>cache := c\<rparr>)
              else bind_result (set_sampling (unat index) (s\<lparr>cache := c\<rparr>))
                     (PushLidarData fresh_packet p index bt))
         (store_lvx fresh_packet f n (Suc i)))"

definition StorageLvxPointData :: "(nat \<Rightarrow> storage_packet) \<Rightarrow> point_frame \<Rightarrow> lds \<Rightarrow> cpp_error + lds" where
  "StorageLvxPointData fresh_packet f s = store_lvx fresh_packet f (unat (lidar_num f)) 0 s"

definition StorageImuData :: "8 word \<Rightarrow> imu_data \<Rightarrow> lds \<Rightarrow> cpp_error + lds" where
  "StorageImuData garbage imu s =
     (if imu_lidar_type imu \<noteq> kLivoxLidarType then Inr s
      else (case GetIndex (imu_lidar_type imu) (imu_handle imu) 0 (cache s) of
              (ret, index) \<Rightarrow>
                if ret \<noteq> 0 then Inr s
                else bind_result (device s (unat index)) (\<lambda>d.
                       let q = ImuPush garbage imu (dev_imu d);
                           s' = set_device (unat index) (d\<lparr>dev_imu := q\<rparr>) s
                       in Inr (if \<not> ImuEmpty q then wake_imu s' else s'))))"

section \<open>Publishing\<close>

text \<open>
  The loop of \<open>PublishPointcloud2\<close> and its two siblings: pop until the queue is empty; packets
  without points are dropped.  \<open>n\<close> bounds the number of rounds: the used size is enough.
\<close>

fun drain :: "nat \<Rightarrow> lidar_data_queue \<Rightarrow> cpp_error + storage_packet list \<times> lidar_data_queue" where
  "drain 0 q = Inr ([], q)"
| "drain (Suc n) q =
     (if QueueIsEmpty q then Inr ([], q)
      else bind_result (QueuePop q blank_packet) (\<lambda>(ok, p, q').
             bind_result (drain n q') (\<lambda>(ps, q'').
               Inr (if points p = [] then ps else p # ps, q''))))"

text \<open>
  \<open>PollingLidarPointCloudData\<close>: \<open>None\<close> is a loop that does not end - a format other than the three
  the code knows never takes anything out.
\<close>

definition PollingLidarPointCloudData ::
    "int \<Rightarrow> bool \<Rightarrow> lidar_data_queue \<Rightarrow> (cpp_error + storage_packet list \<times> lidar_data_queue) option" where
  "PollingLidarPointCloudData format exiting q =
     (if storage_packet q = Null then Some (Inr ([], q))
      else if exiting \<or> QueueIsEmpty q then Some (Inr ([], q))
      else if format \<in> {0, 1, 2} then Some (drain (unat (QueueUsedSize q)) q)
      else None)"

text \<open>\<open>PollingLidarImuData\<close>, with the bound \<open>n\<close> as above.\<close>

fun drain_imu :: "nat \<Rightarrow> imu_data list \<Rightarrow> imu_data list \<times> imu_data list" where
  "drain_imu 0 q = ([], q)"
| "drain_imu (Suc n) q =
     (if ImuEmpty q then ([], q)
      else (case ImuPop q (hd q) of (ok, d, q') \<Rightarrow> (case drain_imu n q' of (ds, q'') \<Rightarrow> (d # ds, q''))))"

definition PollingLidarImuData :: "bool \<Rightarrow> imu_data list \<Rightarrow> imu_data list \<times> imu_data list" where
  "PollingLidarImuData exiting q = (if exiting then ([], q) else drain_imu (length q) q)"

text \<open>
  The loop over the devices, with what it publishes: the index of the device and the packet.
\<close>

fun distribute ::
    "int \<Rightarrow> nat \<Rightarrow> nat \<Rightarrow> lds \<Rightarrow> (cpp_error + (nat \<times> storage_packet) list \<times> lds) option" where
  "distribute format 0 i s = Some (Inr ([], s))"
| "distribute format (Suc n) i s =
     (case device s i of
        Inl e \<Rightarrow> Some (Inl e)
      | Inr d \<Rightarrow>
          if connect_state d \<noteq> StateSampling then distribute format n (Suc i) s
          else (case PollingLidarPointCloudData format (request_exit s) (dev_data d) of
                  None \<Rightarrow> None
                | Some (Inl e) \<Rightarrow> Some (Inl e)
                | Some (Inr (ps, q)) \<Rightarrow>
                    (case distribute format n (Suc i) (set_device i (d\<lparr>dev_data := q\<rparr>) s) of
                       None \<Rightarrow> None
                     | Some (Inl e) \<Rightarrow> Some (Inl e)
                     | Some (Inr (out, s')) \<Rightarrow> Some (Inr (map (Pair i) ps @ out, s')))))"

text \<open>
  \<open>DistributePointCloudData\<close>; the result is also \<open>None\<close> while \<open>Wait\<close> blocks.
\<close>

definition DistributePointCloudData ::
    "int \<Rightarrow> lds \<Rightarrow> (cpp_error + (nat \<times> storage_packet) list \<times> lds) option" where
  "DistributePointCloudData format s =
     (if request_exit s then Some (Inr ([], s))
      else (case Wait (pcd_semaphore s) of
              None \<Rightarrow> None
            | Some c \<Rightarrow> distribute format (unat (lidar_count s)) 0 (s\<lparr>pcd_semaphore := c\<rparr>)))"

fun distribute_imu :: "nat \<Rightarrow> nat \<Rightarrow> lds \<Rightarrow> cpp_error + (nat \<times> imu_data) list \<times> lds" where
  "distribute_imu 0 i s = Inr ([], s)"
| "distribute_imu (Suc n) i s =
     bind_result (device s i) (\<lambda>d.
       if connect_state d \<noteq> StateSampling then distribute_imu n (Suc i) s
       else (case PollingLidarImuData (request_exit s) (dev_imu d) of
               (ds, q) \<Rightarrow> bind_result (distribute_imu n (Suc i) (set_device i (d\<lparr>dev_imu := q\<rparr>) s))
                            (\<lambda>(out, s'). Inr (map (Pair i) ds @ out, s'))))"

definition DistributeImuData :: "lds \<Rightarrow> (cpp_error + (nat \<times> imu_data) list \<times> lds) option" where
  "DistributeImuData s =
     (if request_exit s then Some (Inr ([], s))
      else (case Wait (imu_semaphore s) of
              None \<Rightarrow> None
            | Some c \<Rightarrow> Some (distribute_imu (unat (lidar_count s)) 0 (s\<lparr>imu_semaphore := c\<rparr>))))"

end
