(* ===== verification/LdsProps.thy ===== *)
theory LdsProps
  imports Lds
begin

text \<open>
  The data source keeps its invariant under every operation of the SDK's callbacks and of the
  publishing threads; the queues are emptied completely by the publisher, and no stored packet of a
  sampling device is left behind while its publisher sleeps.
\<close>

section \<open>One queue\<close>

text \<open>The queue of a device: not allocated yet, or a valid ring.\<close>

definition dev_queue_ok :: "lidar_data_queue \<Rightarrow> bool" where
  "dev_queue_ok q \<longleftrightarrow> storage_packet q = Null \<and> QueueIsEmpty q \<or> queue_inv q"

definition packet_ok :: "point_packet \<Rightarrow> bool" where
  "packet_ok p \<longleftrightarrow> unat (pp_points_num p) \<le> length (pp_points p)"

lemma queue_inv_empty_iff: "queue_inv q \<Longrightarrow> QueueIsEmpty q \<longleftrightarrow> queue_items q = []"
  by (rule ldq.empty_iff)

lemma dev_queue_ok_empty: "dev_queue_ok q \<Longrightarrow> QueueIsEmpty q \<longleftrightarrow> queue_items q = []"
  by (auto simp: dev_queue_ok_def queue_inv_empty_iff) (simp add: queue_items_def stored_def)

lemma QueuePop_law:
  assumes q: "queue_inv q" and ne: "queue_items q \<noteq> []"
  obtains p q' where "QueuePop q out = Inr (True, p, q')" "(base_time p, points p) = hd (queue_items q)"
    "queue_inv q'" "queue_items q' = tl (queue_items q)" "storage_packet q' = storage_packet q"
proof -
  obtain k xs where r: "ring k xs q" and w: "list_all well_sized (stored q)"
    and len: "length (queue_items q) = used q"
    using q by (rule queue_invE)
  have st: "stored q \<noteq> []" using ne by (simp add: queue_items_def)
  have u: "0 < used q" using ne len by (cases "used q") auto
  note rd = advance_rd [OF r u]
  have h: "well_sized (hd (stored q))" using w st by (cases "stored q") auto
  show thesis
  proof (rule that)
    show "QueuePop q out = Inr (True, out\<lparr>base_time := base_time (hd (stored q)),
      points_num := points_num (hd (stored q)), points := points (hd (stored q))\<rparr>, QueuePopUpdate q)"
      by (simp add: QueuePop_def PrePop_ring [OF r st h])
    show "queue_inv (QueuePopUpdate q)" using rd w by (auto simp: queue_inv_def)
    show "queue_items (QueuePopUpdate q) = tl (queue_items q)" using rd(2) by (simp add: queue_items_def)
  qed (use st in \<open>simp_all add: queue_items_def hd_map QueuePopUpdate_def\<close>)
qed

text \<open>The publisher's loop empties the queue, in order, and drops only packets without points.\<close>

lemma drain_all:
  "queue_inv q \<Longrightarrow> length (queue_items q) \<le> n \<Longrightarrow>
   \<exists>ps q'. drain n q = Inr (ps, q') \<and> queue_inv q' \<and> queue_items q' = []
     \<and> map (\<lambda>p. (base_time p, points p)) ps = filter (\<lambda>x. snd x \<noteq> []) (queue_items q)"
proof (induction n arbitrary: q)
  case 0
  then show ?case by simp
next
  case (Suc n)
  show ?case
  proof (cases "queue_items q = []")
    case True
    with Suc.prems(1) show ?thesis by (simp add: queue_inv_empty_iff)
  next
    case False
    obtain p q' where p: "QueuePop q blank_packet = Inr (True, p, q')"
      "(base_time p, points p) = hd (queue_items q)" "queue_inv q'" "queue_items q' = tl (queue_items q)"
      by (rule QueuePop_law [OF Suc.prems(1) False])
    have "length (queue_items q') \<le> n" using Suc.prems(2) p(4) by simp
    from Suc.IH [OF p(3) this] obtain ps q'' where d: "drain n q' = Inr (ps, q'')" "queue_inv q''"
      "queue_items q'' = []" "map (\<lambda>p. (base_time p, points p)) ps = filter (\<lambda>x. snd x \<noteq> []) (queue_items q')"
      by blast
    have split: "queue_items q = (base_time p, points p) # queue_items q'"
      using False p(2,4) by simp
    have ne: "\<not> QueueIsEmpty q" using False Suc.prems(1) by (simp add: queue_inv_empty_iff)
    show ?thesis
      using p(1) d split ne by auto
  qed
qed

lemma used_items:
  assumes "queue_inv q"
  shows "unat (QueueUsedSize q) = length (queue_items q)"
proof -
  obtain k xs where "length (queue_items q) = used q" using assms by (rule queue_invE)
  then show ?thesis by (simp add: QueueUsedSize_def used_def)
qed

section \<open>The invariant\<close>

definition dev_ok :: "int \<Rightarrow> lidar_device \<Rightarrow> bool" where
  "dev_ok pcd d \<longleftrightarrow> dev_queue_ok (dev_data d)
     \<and> (connect_state d = StateSampling \<and> \<not> QueueIsEmpty (dev_data d) \<longrightarrow> 1 \<le> pcd)"

definition lds_inv :: "lds \<Rightarrow> bool" where
  "lds_inv s \<longleftrightarrow> length (lidars s) = 32 \<and> unat (lidar_count s) = 32 \<and> cache_inv (cache s)
     \<and> 0 \<le> pcd_semaphore s \<and> list_all (dev_ok (pcd_semaphore s)) (lidars s)"

lemma dev_ok_mono: "dev_ok a d \<Longrightarrow> a \<le> b \<Longrightarrow> dev_ok b d"
  by (auto simp: dev_ok_def)

lemma dev_ok_woken: "1 \<le> a \<Longrightarrow> dev_ok a d \<longleftrightarrow> dev_queue_ok (dev_data d)"
  by (simp add: dev_ok_def)

lemma device_ok: "lds_inv s \<Longrightarrow> i < 32 \<Longrightarrow> device s i = Inr (lidars s ! i)"
  by (simp add: device_def lds_inv_def)

lemma nth_dev_ok: "lds_inv s \<Longrightarrow> i < 32 \<Longrightarrow> dev_ok (pcd_semaphore s) (lidars s ! i)"
  by (simp add: lds_inv_def list_all_length)

lemma wake_pcd_sel [simp]:
  "lidars (wake_pcd s) = lidars s" "cache (wake_pcd s) = cache s"
  "lidar_count (wake_pcd s) = lidar_count s" "request_exit (wake_pcd s) = request_exit s"
  by (auto simp add: wake_pcd_def GetCount_def Signal_def)

lemma woken: "0 \<le> pcd_semaphore s \<Longrightarrow> 1 \<le> pcd_semaphore (wake_pcd s)"
  by (simp add: wake_pcd_def GetCount_def Signal_def)

lemma set_device_sel [simp]:
  "lidars (set_device i d s) = (lidars s)[i := d]" "cache (set_device i d s) = cache s"
  "lidar_count (set_device i d s) = lidar_count s" "pcd_semaphore (set_device i d s) = pcd_semaphore s"
  "request_exit (set_device i d s) = request_exit s"
  by (simp_all add: set_device_def)

text \<open>A device that was replaced while the publisher is being woken.\<close>

lemma inv_replace_woken:
  assumes s: "length (lidars s) = 32" "unat (lidar_count s) = 32" "cache_inv (cache s)"
      "0 \<le> pcd_semaphore s" "list_all (\<lambda>d. dev_queue_ok (dev_data d)) (lidars s)"
    and d: "dev_queue_ok (dev_data d)"
  shows "lds_inv (wake_pcd (set_device i d s))"
proof -
  have one: "1 \<le> pcd_semaphore (wake_pcd (set_device i d s))"
    using s(4) by (intro woken) simp
  have "list_all (\<lambda>d. dev_queue_ok (dev_data d)) ((lidars s)[i := d])"
    by (rule list_all_update [OF s(5) d])
  with one have "list_all (dev_ok (pcd_semaphore (wake_pcd (set_device i d s)))) ((lidars s)[i := d])"
    by (simp add: list_all_length dev_ok_woken)
  with s one show ?thesis by (simp add: lds_inv_def)
qed

lemma lds_inv_weak:
  "lds_inv s \<Longrightarrow> list_all (\<lambda>d. dev_queue_ok (dev_data d)) (lidars s)"
  by (simp add: lds_inv_def list_all_length dev_ok_def)

lemma Push_ring_inv:
  assumes q: "queue_inv q" and f: "\<not> QueueIsFull q" and p: "packet_ok p"
  obtains q' where "QueuePushAny q p bt = Inr q'" "queue_inv q'" "\<not> QueueIsEmpty q'"
    "queue_items q' = queue_items q @ [(bt, take (unat (pp_points_num p)) (pp_points p))]"
proof -
  obtain k xs where r: "ring k xs q" and w: "list_all well_sized (stored q)"
    using q by (rule queue_invE)
  have u: "used q < 2 ^ k" using f is_full_iff [OF r] r by (simp add: ring_def)
  have d: "unat (pp_points_num p) \<le> length (pp_points p)" using p by (simp add: packet_ok_def)
  obtain xs' p' where pu: "QueuePushAny q p bt = Inr (q\<lparr>storage_packet := Live xs', wr_idx := wr_idx q + 1\<rparr>)"
    "ring k xs' (q\<lparr>storage_packet := Live xs', wr_idx := wr_idx q + 1\<rparr>)"
    "stored (q\<lparr>storage_packet := Live xs', wr_idx := wr_idx q + 1\<rparr>) = stored q @ [filled p bt p']"
    by (rule PushAny_ring [OF r u d])
  let ?q = "q\<lparr>storage_packet := Live xs', wr_idx := wr_idx q + 1\<rparr>"
  have inv: "queue_inv ?q"
    unfolding queue_inv_def pu(3) using pu(2) w well_sized_filled [OF d] by (auto simp del: ex_simps)
  have it: "queue_items ?q = queue_items q @ [(bt, take (unat (pp_points_num p)) (pp_points p))]"
    unfolding queue_items_def pu(3) by (simp add: filled_def)
  with inv have "\<not> QueueIsEmpty ?q" by (simp add: queue_inv_empty_iff)
  from that [OF pu(1) inv this it] show thesis .
qed

lemma init_fresh:
  assumes "storage_packet q = Null"
  obtains q' where "InitQueue fresh n q = Inr q'" "queue_inv q'" "queue_items q' = []"
proof -
  obtain k where k: "k \<le> 31" "(if IsPowerOf2 n then n else RoundupPowerOf2 n) = 2 ^ k"
    by (rule init_size)
  let ?q = "q\<lparr>storage_packet := Live (map fresh [0..<unat ((2 :: 32 word) ^ k)]),
    rd_idx := 0, wr_idx := 0, q_size := 2 ^ k, q_mask := 2 ^ k - 1\<rparr>"
  have init: "InitQueue fresh n q = Inr ?q"
    using assms unfolding InitQueue_def Let_def k(2) by (simp add: delete_storage_def)
  have r: "ring k (map fresh [0..<unat ((2 :: 32 word) ^ k)]) ?q"
    using k(1) by (simp add: ring_def used_def unat_2p)
  have st: "stored ?q = []" by (simp add: stored_simps(1) [OF r] used_def)
  from r st have "queue_inv ?q" "queue_items ?q = []" by (auto simp: queue_inv_def queue_items_def)
  with init show thesis by (rule that)
qed

text \<open>
  \<open>PushLidarData\<close>: it always succeeds, wakes the publisher, and appends the packet to the queue of
  its device unless that queue is full; no other device is touched.
\<close>

lemma Push_ok:
  assumes len: "length (lidars s) = 32" and i: "unat index < 32" and p: "packet_ok p"
    and ok: "dev_queue_ok (dev_data (lidars s ! unat index))"
  obtains q where
    "PushLidarData fresh p index bt s = Inr (wake_pcd (set_device (unat index) ((lidars s ! unat index)\<lparr>dev_data := q\<rparr>) s))"
    "queue_inv q"
    "queue_items q = queue_items (dev_data (lidars s ! unat index))
       @ (if storage_packet (dev_data (lidars s ! unat index)) \<noteq> Null \<and> QueueIsFull (dev_data (lidars s ! unat index))
          then [] else [(bt, take (unat (pp_points_num p)) (pp_points p))])"
proof -
  let ?d = "lidars s ! unat index"
  have dev: "device s (unat index) = Inr ?d" using len i by (simp add: device_def)
  show thesis
  proof (cases "storage_packet (dev_data ?d) = Null")
    case True
    obtain q0 where q0: "InitQueue fresh (CalculatePacketQueueSize (publish_freq s)) (dev_data ?d) = Inr q0"
      "queue_inv q0" "queue_items q0 = []"
      by (rule init_fresh [OF True])
    have e: "queue_items (dev_data ?d) = []" using True by (simp add: queue_items_def stored_def)
    have nf: "\<not> QueueIsFull q0"
    proof -
      obtain k xs where "ring k xs q0" "length (queue_items q0) = used q0" using q0(2) by (rule queue_invE)
      with q0(3) show ?thesis by (simp add: is_full_iff)
    qed
    obtain q where "QueuePushAny q0 p bt = Inr q" "queue_inv q" "\<not> QueueIsEmpty q"
      "queue_items q = queue_items q0 @ [(bt, take (unat (pp_points_num p)) (pp_points p))]"
      by (rule Push_ring_inv [OF q0(2) nf p])
    with True q0 e nf show thesis
      by (intro that [of q]) (simp_all add: PushLidarData_def dev Let_def)
  next
    case False
    with ok have inv: "queue_inv (dev_data ?d)" by (simp add: dev_queue_ok_def)
    show thesis
    proof (cases "QueueIsFull (dev_data ?d)")
      case True
      with False inv show thesis
        by (intro that [of "dev_data ?d"]) (simp_all add: PushLidarData_def dev)
    next
      case nf: False
      obtain q where "QueuePushAny (dev_data ?d) p bt = Inr q" "queue_inv q" "\<not> QueueIsEmpty q"
        "queue_items q = queue_items (dev_data ?d) @ [(bt, take (unat (pp_points_num p)) (pp_points p))]"
        by (rule Push_ring_inv [OF inv nf p])
      with False nf show thesis
        by (intro that [of q]) (simp_all add: PushLidarData_def dev Let_def)
    qed
  qed
qed

text \<open>The state before may have a sampling device whose publisher sleeps: the push wakes it.\<close>

lemma Push_inv:
  assumes s: "length (lidars s) = 32" "unat (lidar_count s) = 32" "cache_inv (cache s)"
      "0 \<le> pcd_semaphore s" "list_all (\<lambda>d. dev_queue_ok (dev_data d)) (lidars s)"
    and i: "unat index < 32" and p: "packet_ok p"
  shows "\<exists>t. PushLidarData fresh p index bt s = Inr t \<and> lds_inv t"
proof -
  have "dev_queue_ok (dev_data (lidars s ! unat index))"
    using s(1,5) i by (simp add: list_all_length)
  from Push_ok [OF s(1) i p this, where fresh = fresh and bt = bt] obtain q where q:
    "PushLidarData fresh p index bt s
      = Inr (wake_pcd (set_device (unat index) ((lidars s ! unat index)\<lparr>dev_data := q\<rparr>) s))" "queue_inv q"
    by blast
  then show ?thesis
    using inv_replace_woken [OF s, of "(lidars s ! unat index)\<lparr>dev_data := q\<rparr>" "unat index"]
    by (simp add: dev_queue_ok_def)
qed

lemma Push_inv':
  assumes s: "lds_inv s" and "unat index < 32" "packet_ok p"
  shows "\<exists>t. PushLidarData fresh p index bt s = Inr t \<and> lds_inv t"
  using s lds_inv_weak [OF s] assms(2,3) by (intro Push_inv) (simp_all add: lds_inv_def)

lemma cache_index_range:
  "cache_inv c \<Longrightarrow> GetIndex t h ix c = (0, i) \<Longrightarrow> unat i < 32"
  by (auto simp: GetIndex_def cache_inv_def kMaxSourceLidar_def split: option.splits)

lemma GetFreeIndex_range:
  assumes c: "cache_inv c" and g: "GetFreeIndex t h ix c = (0, i, c')"
  shows "unat i < 32"
proof (cases "t = kLivoxLidarType \<and> map_index c (key_of h) = None")
  case True
  then have t: "take_slot (key_of h) ix c = (0, i, c')" and new: "map_index c (key_of h) = None"
    using g by (simp_all add: GetFreeIndex_def lookup_key_def)
  from c t new show ?thesis by (cases rule: take_slot_cases) (auto simp: unat_small)
next
  case False
  then show ?thesis
    using c g by (cases "t = kLivoxLidarType")
      (auto simp: GetFreeIndex_def lookup_key_def cache_inv_def kMaxSourceLidar_def)
qed

section \<open>Storing keeps the invariant\<close>

definition frame_ok :: "point_frame \<Rightarrow> bool" where
  "frame_ok f \<longleftrightarrow> length (frame_base_time f) = 32 \<and> length (lidar_point f) = 32
     \<and> unat (lidar_num f) \<le> 32 \<and> list_all packet_ok (lidar_point f)"

lemma frame_entry_ok:
  assumes "frame_ok f" "i < 32"
  obtains p bt where "frame_entry f i = Inr (p, bt)" "packet_ok p"
  using assms by (auto simp: frame_ok_def frame_entry_def list_all_length intro: that)

lemma store_points_ok:
  "frame_ok f \<Longrightarrow> lds_inv s \<Longrightarrow> i + n \<le> 32 \<Longrightarrow> \<exists>t. store_points fresh f n i s = Inr t \<and> lds_inv t"
proof (induction n arbitrary: i s)
  case 0
  then show ?case by simp
next
  case (Suc n)
  from Suc.prems(3) have "i < 32" by simp
  then obtain p bt where e: "frame_entry f i = Inr (p, bt)" and p: "packet_ok p"
    by (rule frame_entry_ok [OF Suc.prems(1)])
  obtain r j where g: "GetIndex (pp_lidar_type p) (pp_handle p) 0 (cache s) = (r, j)" by fastforce
  have "\<exists>u. (if r \<noteq> 0 then Inr s else PushLidarData fresh p j bt s) = Inr u \<and> lds_inv u"
  proof (cases "r = 0")
    case True
    with g Suc.prems(2) have "unat j < 32" by (auto simp: lds_inv_def intro: cache_index_range)
    with True Push_inv' [OF Suc.prems(2) _ p] show ?thesis by simp
  next
    case False
    with Suc.prems(2) show ?thesis by simp
  qed
  then obtain u where u: "(if r \<noteq> 0 then Inr s else PushLidarData fresh p j bt s) = Inr u" "lds_inv u"
    by blast
  from Suc.IH [OF Suc.prems(1) u(2), of "Suc i"] Suc.prems(3) e g u(1) show ?case by simp
qed

lemma store_lvx_ok:
  "frame_ok f \<Longrightarrow> lds_inv s \<Longrightarrow> i + n \<le> 32 \<Longrightarrow> \<exists>t. store_lvx fresh f n i s = Inr t \<and> lds_inv t"
proof (induction n arbitrary: i s)
  case 0
  then show ?case by simp
next
  case (Suc n)
  from Suc.prems(3) have "i < 32" by simp
  then obtain p bt where e: "frame_entry f i = Inr (p, bt)" and p: "packet_ok p"
    by (rule frame_entry_ok [OF Suc.prems(1)])
  obtain r j c where g: "LvxGetIndex (pp_lidar_type p) (pp_handle p) 0 (cache s) = (r, j, c)"
    by (cases "LvxGetIndex (pp_lidar_type p) (pp_handle p) 0 (cache s)") auto
  then have g': "GetFreeIndex (pp_lidar_type p) (pp_handle p) 0 (cache s) = (r, j, c)"
    by (simp add: LvxGetIndex_eq)
  have ci: "cache_inv (cache s)" using Suc.prems(2) by (simp add: lds_inv_def)
  have c: "cache_inv c" by (rule GetFreeIndex_inv [OF ci g'])
  let ?m = "\<lambda>r. if r \<noteq> 0 then Inr (s\<lparr>cache := c\<rparr>)
    else bind_result (set_sampling (unat j) (s\<lparr>cache := c\<rparr>)) (PushLidarData fresh p j bt)"
  have "\<exists>u. ?m r = Inr u \<and> lds_inv u"
  proof (cases "r = 0")
    case True
    with ci g' have j: "unat j < 32" by (auto intro: GetFreeIndex_range)
    let ?s = "set_device (unat j) ((lidars s ! unat j)\<lparr>connect_state := StateSampling\<rparr>) (s\<lparr>cache := c\<rparr>)"
    have st: "set_sampling (unat j) (s\<lparr>cache := c\<rparr>) = Inr ?s"
      using Suc.prems(2) j by (simp add: set_sampling_def device_def lds_inv_def)
    have "dev_queue_ok (dev_data (lidars s ! unat j))"
      using nth_dev_ok [OF Suc.prems(2) j] by (simp add: dev_ok_def)
    then have "list_all (\<lambda>d. dev_queue_ok (dev_data d)) (lidars ?s)"
      using lds_inv_weak [OF Suc.prems(2)] by (simp add: list_all_update)
    with Push_inv [of ?s j p fresh bt] Suc.prems(2) c j p True st show ?thesis
      by (simp add: lds_inv_def)
  next
    case False
    with Suc.prems(2) c show ?thesis by (simp add: lds_inv_def)
  qed
  then obtain u where u: "?m r = Inr u" "lds_inv u" by blast
  from Suc.IH [OF Suc.prems(1) u(2), of "Suc i"] Suc.prems(3) e g u(1) show ?case by simp
qed

lemma store_imu_ok:
  assumes s: "lds_inv s"
  shows "\<exists>t. StorageImuData garbage m s = Inr t \<and> lds_inv t"
proof (cases "imu_lidar_type m = kLivoxLidarType")
  case True
  obtain r j where g: "GetIndex (imu_lidar_type m) (imu_handle m) 0 (cache s) = (r, j)" by fastforce
  show ?thesis
  proof (cases "r = 0")
    case r: True
    with g s have j: "unat j < 32" by (auto simp: lds_inv_def intro: cache_index_range)
    let ?d = "(lidars s ! unat j)\<lparr>dev_imu := ImuPush garbage m (dev_imu (lidars s ! unat j))\<rparr>"
    have "dev_ok (pcd_semaphore s) ?d" using nth_dev_ok [OF s j] by (simp add: dev_ok_def)
    then have "list_all (dev_ok (pcd_semaphore s)) ((lidars s)[unat j := ?d])"
      using s by (simp add: lds_inv_def list_all_update)
    then have "lds_inv (wake_imu (set_device (unat j) ?d s))"
      using s by (simp add: lds_inv_def wake_imu_def)
    with r g True show ?thesis
      by (simp add: StorageImuData_def device_ok [OF s j] ImuEmpty_def ImuPush_def Let_def)
  next
    case False
    with g True s show ?thesis by (simp add: StorageImuData_def)
  qed
next
  case False
  with s show ?thesis by (simp add: StorageImuData_def)
qed

section \<open>Publishing\<close>

text \<open>A device before and after its turn: a sampling one is emptied, another one is left alone.\<close>

definition drained :: "lidar_device \<Rightarrow> lidar_device \<Rightarrow> bool" where
  "drained d d' \<longleftrightarrow>
     (if connect_state d = StateSampling
      then (\<exists>q. d' = d\<lparr>dev_data := q\<rparr> \<and> dev_queue_ok q \<and> QueueIsEmpty q) else d' = d)"

text \<open>What the publisher sends for a device: its packets that have points.\<close>

definition to_publish :: "lidar_device \<Rightarrow> (64 word \<times> point_xyzlt list) list" where
  "to_publish d = (if connect_state d = StateSampling
     then filter (\<lambda>x. snd x \<noteq> []) (queue_items (dev_data d)) else [])"

definition sent_for :: "nat \<Rightarrow> (nat \<times> storage_packet) list \<Rightarrow> (64 word \<times> point_xyzlt list) list" where
  "sent_for j out = map (\<lambda>(i, p). (base_time p, points p)) (filter (\<lambda>x. fst x = j) out)"

lemma sent_for_append [simp]: "sent_for j (a @ b) = sent_for j a @ sent_for j b"
  by (simp add: sent_for_def)

lemma sent_for_Pair [simp]:
  "sent_for j (map (Pair i) ps) = (if i = j then map (\<lambda>p. (base_time p, points p)) ps else [])"
  by (auto simp: sent_for_def filter_map comp_def)

lemma sent_for_Nil [simp]: "sent_for j [] = []"
  by (simp add: sent_for_def)

lemma polling_ok:
  assumes q: "dev_queue_ok q" and f: "format \<in> {0, 1, 2}"
  obtains ps q' where "PollingLidarPointCloudData format False q = Some (Inr (ps, q'))"
    "dev_queue_ok q'" "QueueIsEmpty q'"
    "map (\<lambda>p. (base_time p, points p)) ps = filter (\<lambda>x. snd x \<noteq> []) (queue_items q)"
proof (cases "QueueIsEmpty q")
  case True
  with q have "queue_items q = []" by (simp add: dev_queue_ok_empty)
  with True q show thesis
    by (intro that [of "[]" q]) (simp_all add: PollingLidarPointCloudData_def)
next
  case False
  with q have inv: "queue_inv q" by (simp add: dev_queue_ok_def)
  then have nn: "storage_packet q \<noteq> Null" by (auto simp: queue_inv_def ring_def)
  have "length (queue_items q) \<le> unat (QueueUsedSize q)" by (simp add: used_items [OF inv])
  from drain_all [OF inv this] obtain ps q' where d: "drain (unat (QueueUsedSize q)) q = Inr (ps, q')"
    "queue_inv q'" "queue_items q' = []"
    "map (\<lambda>p. (base_time p, points p)) ps = filter (\<lambda>x. snd x \<noteq> []) (queue_items q)" by blast
  with False nn f show thesis
    by (intro that [of ps q'])
      (auto simp: PollingLidarPointCloudData_def dev_queue_ok_def queue_inv_empty_iff)
qed

lemma distribute_ok:
  assumes f: "format \<in> {0, 1, 2}"
  shows "i + n = length (lidars s) \<Longrightarrow> \<not> request_exit s \<Longrightarrow>
    list_all (\<lambda>d. dev_queue_ok (dev_data d)) (lidars s) \<Longrightarrow>
    \<exists>out ls. distribute format n i s = Some (Inr (out, s\<lparr>lidars := ls\<rparr>)) \<and> length ls = length (lidars s)
      \<and> (\<forall>j < i. ls ! j = lidars s ! j)
      \<and> (\<forall>j. i \<le> j \<and> j < i + n \<longrightarrow> drained (lidars s ! j) (ls ! j))
      \<and> (\<forall>j. sent_for j out = (if i \<le> j \<and> j < i + n then to_publish (lidars s ! j) else []))"
proof (induction n arbitrary: i s)
  case 0
  then show ?case by (auto intro!: exI [of _ "lidars s"])
next
  case (Suc n)
  let ?d = "lidars s ! i"
  have dev: "device s i = Inr ?d" using Suc.prems(1) by (simp add: device_def)
  show ?case
  proof (cases "connect_state ?d = StateSampling")
    case False
    from Suc.IH [of "Suc i" s] Suc.prems obtain out ls where
      h: "distribute format n (Suc i) s = Some (Inr (out, s\<lparr>lidars := ls\<rparr>))" "length ls = length (lidars s)"
      "\<forall>j < Suc i. ls ! j = lidars s ! j" "\<forall>j. Suc i \<le> j \<and> j < Suc i + n \<longrightarrow> drained (lidars s ! j) (ls ! j)"
      "\<forall>j. sent_for j out = (if Suc i \<le> j \<and> j < Suc i + n then to_publish (lidars s ! j) else [])"
      by auto
    have own: "drained ?d (ls ! i)" "to_publish ?d = []"
      using h(3) False by (simp_all add: drained_def to_publish_def)
    have "drained (lidars s ! j) (ls ! j)" if "i \<le> j \<and> j < i + Suc n" for j
      using h(4) own that by (cases "j = i") auto
    moreover have "sent_for j out = (if i \<le> j \<and> j < i + Suc n then to_publish (lidars s ! j) else [])" for j
      using h(5) own by (cases "j = i") auto
    ultimately show ?thesis
      using h(1-3) False dev by (intro exI [of _ out] exI [of _ ls]) auto
  next
    case True
    have "dev_queue_ok (dev_data ?d)" using Suc.prems(1,3) by (simp add: list_all_length)
    from polling_ok [OF this f] obtain ps q where
      p: "PollingLidarPointCloudData format False (dev_data ?d) = Some (Inr (ps, q))" "dev_queue_ok q"
      "QueueIsEmpty q"
      "map (\<lambda>p. (base_time p, points p)) ps = filter (\<lambda>x. snd x \<noteq> []) (queue_items (dev_data ?d))" .
    let ?s = "set_device i (?d\<lparr>dev_data := q\<rparr>) s"
    have ok: "list_all (\<lambda>d. dev_queue_ok (dev_data d)) (lidars ?s)"
      using Suc.prems(3) p(2) by (simp add: list_all_update)
    from Suc.IH [of "Suc i" ?s] Suc.prems(1,2) ok obtain out ls where
      h: "distribute format n (Suc i) ?s = Some (Inr (out, ?s\<lparr>lidars := ls\<rparr>))" "length ls = length (lidars s)"
      "\<forall>j < Suc i. ls ! j = lidars ?s ! j" "\<forall>j. Suc i \<le> j \<and> j < Suc i + n \<longrightarrow> drained (lidars ?s ! j) (ls ! j)"
      "\<forall>j. sent_for j out = (if Suc i \<le> j \<and> j < Suc i + n then to_publish (lidars ?s ! j) else [])"
      by auto
    have i: "i < length (lidars s)" using Suc.prems(1) by simp
    have own: "drained ?d (ls ! i)"
      using h(3) True p(2,3) i by (auto simp: drained_def)
    have pub: "map (\<lambda>p. (base_time p, points p)) ps = to_publish ?d"
      using True p(4) by (simp add: to_publish_def)
    have "drained (lidars s ! j) (ls ! j)" if "i \<le> j \<and> j < i + Suc n" for j
      using h(4) own that by (cases "j = i") auto
    moreover have "sent_for j (map (Pair i) ps @ out)
        = (if i \<le> j \<and> j < i + Suc n then to_publish (lidars s ! j) else [])" for j
      using h(5) pub by (cases "j = i") auto
    moreover have "?s\<lparr>lidars := ls\<rparr> = s\<lparr>lidars := ls\<rparr>" by (simp add: set_device_def)
    ultimately show ?thesis
      using h(1-3) True dev p(1) Suc.prems(2)
      by (intro exI [of _ "map (Pair i) ps @ out"] exI [of _ ls]) auto
  qed
qed

lemma drained_ok: "drained d d' \<Longrightarrow> dev_queue_ok (dev_data d) \<Longrightarrow> dev_ok a d'"
  by (auto simp: drained_def dev_ok_def split: if_splits)

lemma DistributePoints_ok:
  assumes s: "lds_inv s" and f: "format \<in> {0, 1, 2}" and "\<not> request_exit s" "1 \<le> pcd_semaphore s"
  obtains out t where "DistributePointCloudData format s = Some (Inr (out, t))" "lds_inv t"
    "\<forall>j < 32. drained (lidars s ! j) (lidars t ! j)" "\<forall>j < 32. sent_for j out = to_publish (lidars s ! j)"
    "pcd_semaphore t = pcd_semaphore s - 1"
proof -
  let ?s = "s\<lparr>pcd_semaphore := pcd_semaphore s - 1\<rparr>"
  from distribute_ok [OF f, of 0 32 ?s] s assms(3) lds_inv_weak [OF s] obtain out ls where
    d: "distribute format 32 0 ?s = Some (Inr (out, ?s\<lparr>lidars := ls\<rparr>))" "length ls = 32"
      "\<forall>j < 32. drained (lidars s ! j) (ls ! j)" "\<forall>j < 32. sent_for j out = to_publish (lidars s ! j)"
    by (auto simp: lds_inv_def)
  have "list_all (dev_ok (pcd_semaphore s - 1)) ls"
    using d(2,3) lds_inv_weak [OF s] s by (auto simp: list_all_length lds_inv_def intro!: drained_ok)
  with s d assms(3,4) show thesis
    by (intro that [of out "?s\<lparr>lidars := ls\<rparr>"])
      (simp_all add: DistributePointCloudData_def Wait_def lds_inv_def del: distribute.simps)
qed

lemma distribute_imu_ok:
  assumes "length (lidars s) = i + n" "list_all (dev_ok a) (lidars s)"
  shows "\<exists>out ls. distribute_imu n i s = Inr (out, s\<lparr>lidars := ls\<rparr>) \<and> length ls = i + n
    \<and> list_all (dev_ok a) ls"
  using assms
proof (induction n arbitrary: i s)
  case 0
  then show ?case by (auto intro!: exI [of _ "lidars s"])
next
  case (Suc n)
  let ?d = "lidars s ! i"
  have dev: "device s i = Inr ?d" using Suc.prems(1) by (simp add: device_def)
  show ?case
  proof (cases "connect_state ?d = StateSampling")
    case False
    from Suc.IH [of s "Suc i"] Suc.prems False dev show ?thesis by auto
  next
    case True
    obtain ds q where p: "PollingLidarImuData (request_exit s) (dev_imu ?d) = (ds, q)" by fastforce
    let ?s = "set_device i (?d\<lparr>dev_imu := q\<rparr>) s"
    have "dev_ok a ?d" using Suc.prems by (simp add: list_all_length)
    then have "dev_ok a (?d\<lparr>dev_imu := q\<rparr>)" by (simp add: dev_ok_def)
    then have "list_all (dev_ok a) (lidars ?s)"
      using Suc.prems(2) by (simp add: list_all_update)
    with Suc.IH [of ?s "Suc i"] Suc.prems(1) obtain out ls where
      h: "distribute_imu n (Suc i) ?s = Inr (out, ?s\<lparr>lidars := ls\<rparr>)" "length ls = Suc i + n"
        "list_all (dev_ok a) ls" by auto
    have "?s\<lparr>lidars := ls\<rparr> = s\<lparr>lidars := ls\<rparr>" by (simp add: set_device_def)
    with h True dev p show ?thesis
      by (intro exI [of _ "map (Pair i) ds @ out"] exI [of _ ls]) simp
  qed
qed

section \<open>Runs\<close>

datatype lds_event =
    StorePoints point_frame      \<comment> \<open>the SDK's point callback\<close>
  | StoreLvx point_frame
  | StoreImu imu_data
  | PublishPoints                \<comment> \<open>one turn of the point publishing thread\<close>
  | PublishImu                   \<comment> \<open>one turn of the IMU publishing thread\<close>

text \<open>A turn of a publishing thread that blocks leaves the state as it is.\<close>

fun lds_handle :: "int \<Rightarrow> lds_event \<Rightarrow> lds \<Rightarrow> cpp_error + lds" where
  "lds_handle format (StorePoints f) s = StoragePointData (\<lambda>_. blank_packet) f s"
| "lds_handle format (StoreLvx f) s = StorageLvxPointData (\<lambda>_. blank_packet) f s"
| "lds_handle format (StoreImu m) s = StorageImuData 0 m s"
| "lds_handle format PublishPoints s =
     (case DistributePointCloudData format s of
        None \<Rightarrow> Inr s | Some r \<Rightarrow> bind_result r (\<lambda>(out, t). Inr t))"
| "lds_handle format PublishImu s =
     (case DistributeImuData s of
        None \<Rightarrow> Inr s | Some r \<Rightarrow> bind_result r (\<lambda>(out, t). Inr t))"

definition lds_event_ok :: "lds_event \<Rightarrow> bool" where
  "lds_event_ok ev = (case ev of StorePoints f \<Rightarrow> frame_ok f | StoreLvx f \<Rightarrow> frame_ok f | _ \<Rightarrow> True)"

lemma publish_points_ok:
  assumes s: "lds_inv s" and f: "format \<in> {0, 1, 2}"
  shows "\<exists>t. lds_handle format PublishPoints s = Inr t \<and> lds_inv t"
proof -
  consider "request_exit s" | "\<not> request_exit s" "pcd_semaphore s \<le> 0"
    | "\<not> request_exit s" "1 \<le> pcd_semaphore s" by linarith
  then show ?thesis
  proof cases
    case 3
    from DistributePoints_ok [OF s f 3] obtain out t where
      "DistributePointCloudData format s = Some (Inr (out, t))" "lds_inv t" .
    then show ?thesis by simp
  qed (use s in \<open>simp_all add: DistributePointCloudData_def Wait_def\<close>)
qed

lemma publish_imu_ok:
  assumes s: "lds_inv s"
  shows "\<exists>t. lds_handle format PublishImu s = Inr t \<and> lds_inv t"
proof (cases "request_exit s \<or> imu_semaphore s \<le> 0")
  case True
  with s show ?thesis by (auto simp: DistributeImuData_def Wait_def)
next
  case False
  let ?s = "s\<lparr>imu_semaphore := imu_semaphore s - 1\<rparr>"
  from distribute_imu_ok [of ?s 0 32 "pcd_semaphore s"] s obtain out ls where
    "distribute_imu 32 0 ?s = Inr (out, ?s\<lparr>lidars := ls\<rparr>)" "length ls = 32"
    "list_all (dev_ok (pcd_semaphore s)) ls"
    by (auto simp: lds_inv_def)
  with s False show ?thesis
    by (simp add: DistributeImuData_def Wait_def lds_inv_def del: distribute_imu.simps)
qed

lemma lds_handle_ok:
  assumes s: "lds_inv s" and f: "format \<in> {0, 1, 2}" and ev: "lds_event_ok ev"
  shows "\<exists>t. lds_handle format ev s = Inr t \<and> lds_inv t"
proof (cases ev)
  case (StorePoints fr)
  with ev have fr: "frame_ok fr" by (simp add: lds_event_ok_def)
  then have "0 + unat (lidar_num fr) \<le> 32" by (simp add: frame_ok_def)
  from store_points_ok [OF fr s this] StorePoints show ?thesis by (simp add: StoragePointData_def)
next
  case (StoreLvx fr)
  with ev have fr: "frame_ok fr" by (simp add: lds_event_ok_def)
  then have "0 + unat (lidar_num fr) \<le> 32" by (simp add: frame_ok_def)
  from store_lvx_ok [OF fr s this] StoreLvx show ?thesis by (simp add: StorageLvxPointData_def)
next
  case (StoreImu m)
  with store_imu_ok [OF s] show ?thesis by simp
next
  case PublishPoints
  with publish_points_ok [OF s f] show ?thesis by simp
next
  case PublishImu
  with publish_imu_ok [OF s] show ?thesis by simp
qed

interpretation lds_run: safe_machine "lds_handle format" "\<lambda>ev. lds_event_ok ev \<and> format \<in> {0, 1, 2}" lds_inv
  for format
proof
  fix s ev t
  assume "lds_inv s" "lds_event_ok ev \<and> format \<in> {0, 1, 2}" "lds_handle format ev s = Inr t"
  with lds_handle_ok [of s format ev] show "lds_inv t" by auto
next
  fix s ev
  assume "lds_inv s" "lds_event_ok ev \<and> format \<in> {0, 1, 2}"
  with lds_handle_ok [of s format ev] show "\<exists>t. lds_handle format ev s = Inr t" by blast
qed

section \<open>The constructed source\<close>

definition raw_device :: lidar_device where
  "raw_device = \<lparr>dev_lidar_type = 0, dev_handle = 0, dev_data_src = 0, connect_state = StateOff,
     dev_data = \<lparr>storage_packet = Null, rd_idx = 0, wr_idx = 0, q_mask = 0, q_size = 0\<rparr>, dev_imu = []\<rparr>"

text \<open>
  The memory of the one instance, a static object: cleared before the constructor runs, and with it
  the pointers of the thirty-two queues.
\<close>

definition raw_lds :: lds where
  "raw_lds = \<lparr>lidar_count = 0, lidars = replicate 32 raw_device, pcd_semaphore = 0, imu_semaphore = 0,
     cache = cache_new, publish_freq = 0, lds_data_src = 0, request_exit = False\<rparr>"

lemma reset_raw: "reset_all src (replicate n raw_device) = Inr (replicate n (raw_device\<lparr>dev_data_src := src\<rparr>))"
  by (induction n)
    (simp_all add: ResetLidar_def DeInitQueue_def delete_storage_def ImuClear_def raw_device_def)

lemma Lds_new_ok:
  obtains s where "Lds_new freq src raw_lds = Inr s" "lds_inv s" "publish_freq s = freq"
    "lidars s = replicate 32 (raw_device\<lparr>dev_data_src := src\<rparr>)" "cache s = cache_new" "\<not> request_exit s"
proof -
  let ?s = "raw_lds\<lparr>lidar_count := 32, lidars := replicate 32 (raw_device\<lparr>dev_data_src := src\<rparr>),
    publish_freq := freq, lds_data_src := src\<rparr>"
  have new: "Lds_new freq src raw_lds = Inr ?s"
    using reset_raw [of src 32] by (simp add: Lds_new_def ResetLds_def raw_lds_def kMaxSourceLidar_def del: reset_all.simps)
  have "dev_ok 0 (raw_device\<lparr>dev_data_src := src\<rparr>)"
    by (simp add: dev_ok_def dev_queue_ok_def raw_device_def QueueIsEmpty_def)
  then have "lds_inv ?s"
    by (simp add: lds_inv_def cache_inv_new raw_lds_def list_all_length)
  with new show thesis by (rule that) (simp_all add: raw_lds_def)
qed

section \<open>Properties\<close>

text \<open>
  C22: from the constructed data source every sequence of frames (at most thirty-two packets each,
  none claiming more points than it has), IMU samples and turns of the publishing threads runs without
  an out-of-bounds access or a use of freed memory; and no wake-up of the point publisher is lost:
  whenever it would block in \<open>Wait\<close> on its semaphore, no device in the state \<open>StateSampling\<close> has a
  packet in its point queue.  (The publisher passes over the devices in the other states, and
  the IMU semaphore is not the subject of this property.)
\<close>

theorem lds_no_lost_wakeup:
  assumes "format \<in> {0, 1, 2}"
    and "list_all (\<lambda>ev. case ev of StorePoints f \<Rightarrow> frame_ok f | StoreLvx f \<Rightarrow> frame_ok f | _ \<Rightarrow> True) evs"
  shows "\<exists>s t. Lds_new freq src raw_lds = Inr s \<and> run_events (lds_handle format) evs s = Inr t
    \<and> (Wait (pcd_semaphore t) = None \<longrightarrow>
         (\<forall>d \<in> set (lidars t). connect_state d = StateSampling \<longrightarrow> QueueIsEmpty (dev_data d)))"
proof -
  obtain s where s: "Lds_new freq src raw_lds = Inr s" "lds_inv s" by (rule Lds_new_ok)
  have "list_all (\<lambda>ev. lds_event_ok ev \<and> format \<in> {0, 1, 2}) evs"
    using assms by (simp add: lds_event_ok_def list_all_iff)
  from lds_run.run_ok [OF s(2) this] obtain t where
    t: "run_events (lds_handle format) evs s = Inr t" "lds_inv t" by blast
  with s(1) show ?thesis
    by (auto simp: lds_inv_def Wait_def dev_ok_def list_all_iff split: if_splits)
qed

text \<open>
  C34: a turn of the point publisher publishes, for every device that is sampling, exactly the packets
  its queue holds, in their order, except those without points, and leaves all these queues empty;
  nothing is published for the other devices and their queues are not touched.
\<close>

theorem lds_publish_complete:
  assumes "lds_inv s" "format \<in> {0, 1, 2}" "\<not> request_exit s" "1 \<le> pcd_semaphore s"
  shows "\<exists>out t. DistributePointCloudData format s = Some (Inr (out, t)) \<and> lds_inv t
    \<and> (\<forall>j < 32. sent_for j out = to_publish (lidars s ! j)
        \<and> (if connect_state (lidars s ! j) = StateSampling then QueueIsEmpty (dev_data (lidars t ! j))
           else lidars t ! j = lidars s ! j))"
proof -
  from DistributePoints_ok [OF assms] obtain out t where
    d: "DistributePointCloudData format s = Some (Inr (out, t))" "lds_inv t"
    "\<forall>j < 32. drained (lidars s ! j) (lidars t ! j)" "\<forall>j < 32. sent_for j out = to_publish (lidars s ! j)" .
  have "if connect_state (lidars s ! j) = StateSampling then QueueIsEmpty (dev_data (lidars t ! j))
           else lidars t ! j = lidars s ! j" if "j < 32" for j
  proof -
    from d(3) that have "drained (lidars s ! j) (lidars t ! j)" by blast
    then show ?thesis by (auto simp: drained_def)
  qed
  with d show ?thesis by blast
qed

text \<open>
  A packet of a known device goes to the end of that device's queue, with its time and its
  points, when the queue is not full, and is dropped when it is; no other device changes and the
  publisher is woken in both cases.
\<close>

lemma lds_push:
  assumes "lds_inv s" "unat index < 32" "unat (pp_points_num p) \<le> length (pp_points p)"
  shows "\<exists>t. PushLidarData fresh p index bt s = Inr t \<and> 1 \<le> pcd_semaphore t
    \<and> (\<forall>j < 32. j \<noteq> unat index \<longrightarrow> lidars t ! j = lidars s ! j)
    \<and> queue_items (dev_data (lidars t ! unat index)) = queue_items (dev_data (lidars s ! unat index))
       @ (if storage_packet (dev_data (lidars s ! unat index)) \<noteq> Null \<and> QueueIsFull (dev_data (lidars s ! unat index))
          then [] else [(bt, take (unat (pp_points_num p)) (pp_points p))])"
proof -
  have s: "length (lidars s) = 32" "0 \<le> pcd_semaphore s" using assms(1) by (simp_all add: lds_inv_def)
  have ok: "dev_queue_ok (dev_data (lidars s ! unat index))"
    using nth_dev_ok [OF assms(1,2)] by (simp add: dev_ok_def)
  have p: "packet_ok p" using assms(3) by (simp add: packet_ok_def)
  from Push_ok [OF s(1) assms(2) p ok, where fresh = fresh and bt = bt] obtain q where q:
    "PushLidarData fresh p index bt s
      = Inr (wake_pcd (set_device (unat index) ((lidars s ! unat index)\<lparr>dev_data := q\<rparr>) s))"
    "queue_items q = queue_items (dev_data (lidars s ! unat index))
       @ (if storage_packet (dev_data (lidars s ! unat index)) \<noteq> Null \<and> QueueIsFull (dev_data (lidars s ! unat index))
          then [] else [(bt, take (unat (pp_points_num p)) (pp_points p))])"
    by blast
  have "1 \<le> pcd_semaphore (wake_pcd (set_device (unat index) ((lidars s ! unat index)\<lparr>dev_data := q\<rparr>) s))"
    using s(2) by (intro woken) simp
  with q s(1) assms(2) show ?thesis by simp
qed

text \<open>
  \<open>ResetLds\<close> on a source that has received data leaves a dangling pointer in every used device:
  the next packet for such a device is written into freed memory, and a second \<open>ResetLds\<close> (the
  destructor calls it) frees the memory twice.
\<close>

lemma lds_reset_dangling:
  assumes "length (lidars s) = 32" "ResetLds src s = Inr t" "unat index < 32"
    and "storage_packet (dev_data (lidars s ! unat index)) = Live xs"
  shows "PushLidarData fresh p index bt t = Inl UseAfterFree \<and> ResetLds src' t = Inl DoubleFree"
proof -
  have nth: "i < length ds \<Longrightarrow> reset_all src ds = Inr ds' \<Longrightarrow>
      ResetLidar (ds ! i) src = Inr (ds' ! i) \<and> length ds' = length ds" for i ds ds'
  proof (induction ds arbitrary: i ds')
    case (Cons d ds)
    then show ?case
      by (cases i; cases "ds = []") fastforce+
  qed simp
  have double: "i < length ds \<Longrightarrow> storage_packet (dev_data (ds ! i)) = Freed \<Longrightarrow>
      reset_all src' ds = Inl DoubleFree" for i ds
  proof (induction ds arbitrary: i)
    case (Cons d ds)
    have "ResetLidar d src' = Inl DoubleFree \<or> (\<exists>d'. ResetLidar d src' = Inr d')"
      by (auto simp: ResetLidar_def DeInitQueue_def delete_storage_def split: storage.split)
    with Cons show ?case
      by (cases i) (auto simp: ResetLidar_def DeInitQueue_def delete_storage_def)
  qed simp
  from assms(2) obtain ds where ds: "reset_all src (lidars s) = Inr ds"
    "t = s\<lparr>lidar_count := word_of_nat kMaxSourceLidar, lidars := ds\<rparr>"
    by (auto simp: ResetLds_def)
  from nth [OF _ ds(1), of "unat index"] assms(1,3) have
    r: "ResetLidar (lidars s ! unat index) src = Inr (ds ! unat index)" "length ds = 32" by simp_all
  from r(1) [symmetric] assms(4) have d: "dev_data (ds ! unat index) = (dev_data (lidars s ! unat index))
      \<lparr>storage_packet := Freed, rd_idx := 0, wr_idx := 0, q_size := 0, q_mask := 0\<rparr>"
    by (simp add: ResetLidar_def DeInitQueue_def delete_storage_def)
  have "PushLidarData fresh p index bt t = Inl UseAfterFree"
    using r(2) ds(2) d assms(3)
    by (simp add: PushLidarData_def device_def QueueIsFull_def QueuePushAny_def write_slot_def
        storage_array_def)
  moreover have "ResetLds src' t = Inl DoubleFree"
    using double [of "unat index" ds] r(2) ds(2) d assms(3) by (simp add: ResetLds_def)
  ultimately show ?thesis ..
qed

text \<open>
  With a transfer format other than the three the publisher knows, the polling loop on a queue
  that holds a packet never ends.
\<close>

lemma lds_unknown_format_hangs:
  assumes "queue_inv q" "queue_items q \<noteq> []"
  shows "PollingLidarPointCloudData format False q = None \<longleftrightarrow> format \<notin> {0, 1, 2}"
proof -
  have "storage_packet q \<noteq> Null" "\<not> QueueIsEmpty q"
    using assms by (auto simp: queue_inv_def ring_def queue_inv_empty_iff)
  then show ?thesis by (simp add: PollingLidarPointCloudData_def)
qed

section \<open>Witnesses\<close>

definition demo_frame :: point_frame where
  "demo_frame = \<lparr>frame_base_time = replicate 32 5, lidar_num = 1,
     lidar_point = replicate 32 \<lparr>pp_handle = 7, pp_lidar_type = 8, pp_points_num = 0, pp_points = []\<rparr>\<rparr>"

lemma demo_frame_ok: "frame_ok demo_frame"
  by (simp add: frame_ok_def demo_frame_def packet_ok_def list_all_length)

theorem lds_no_lost_wakeup_witness:
  "\<exists>s t. Lds_new 10 0 raw_lds = Inr s
     \<and> run_events (lds_handle 0) [StoreLvx demo_frame, PublishPoints] s = Inr t"
  using lds_no_lost_wakeup [of 0 "[StoreLvx demo_frame, PublishPoints]" 10 0] demo_frame_ok
  by (auto simp del: lds_handle.simps run_events.simps)

text \<open>A sampling device with a packet in its queue, the publisher awake.\<close>

lemma demo_stored:
  obtains s where "lds_inv s" "\<not> request_exit s" "1 \<le> pcd_semaphore s"
    "\<exists>xs. storage_packet (dev_data (lidars s ! 0)) = Live xs"
    "queue_items (dev_data (lidars s ! 0)) = [(5, [])]"
proof -
  obtain s where s: "Lds_new 10 0 raw_lds = Inr s" "lds_inv s"
    "lidars s = replicate 32 (raw_device\<lparr>dev_data_src := 0\<rparr>)" "\<not> request_exit s"
    by (rule Lds_new_ok)
  have len: "length (lidars s) = 32" "0 \<le> pcd_semaphore s" using s(2) by (simp_all add: lds_inv_def)
  have d0: "lidars s ! unat (0 :: 8 word) = raw_device\<lparr>dev_data_src := 0\<rparr>" by (simp add: s(3))
  have p: "packet_ok (packet_of [])" by (simp add: packet_ok_def packet_of_def)
  have ok: "dev_queue_ok (dev_data (lidars s ! unat (0 :: 8 word)))"
    using nth_dev_ok [OF s(2), of 0] by (simp add: dev_ok_def)
  have old: "storage_packet (dev_data (lidars s ! unat (0 :: 8 word))) = Null"
    "queue_items (dev_data (lidars s ! unat (0 :: 8 word))) = []"
    unfolding d0 by (simp_all add: raw_device_def queue_items_def stored_def)
  have "unat (0 :: 8 word) < 32" by simp
  then obtain q where q0: "queue_inv q" "queue_items q = queue_items (dev_data (lidars s ! unat (0 :: 8 word)))
      @ (if storage_packet (dev_data (lidars s ! unat (0 :: 8 word))) \<noteq> Null
            \<and> QueueIsFull (dev_data (lidars s ! unat (0 :: 8 word)))
         then [] else [(5, take (unat (pp_points_num (packet_of []))) (pp_points (packet_of [])))])"
    by (rule Push_ok [OF len(1) _ p ok, where fresh = "\<lambda>_. blank_packet" and bt = 5])
  have q: "queue_inv q" "queue_items q = [(5, [])]"
    using q0(1) q0(2) [unfolded old] by (simp_all add: packet_of_def)
  let ?t = "wake_pcd (set_device 0 ((lidars s ! 0)\<lparr>dev_data := q\<rparr>) s)"
  have "lds_inv ?t"
    by (rule inv_replace_woken [OF _ _ _ _ lds_inv_weak [OF s(2)]])
      (use s(2) q in \<open>simp_all add: lds_inv_def dev_queue_ok_def\<close>)
  moreover have "1 \<le> pcd_semaphore ?t" using len(2) by (intro woken) simp
  ultimately show thesis
    using q s(4) len by (intro that [of ?t]) (auto simp: queue_inv_def ring_def)
qed

theorem lds_publish_complete_witness:
  "\<exists>s out t. DistributePointCloudData 1 s = Some (Inr (out, t))
     \<and> queue_items (dev_data (lidars s ! 0)) = [(5, [])] \<and> sent_for 0 out = []"
proof -
  obtain s where s: "lds_inv s" "\<not> request_exit s" "1 \<le> pcd_semaphore s"
    "queue_items (dev_data (lidars s ! 0)) = [(5, [])]" by (rule demo_stored)
  from lds_publish_complete [OF s(1) _ s(2,3), of 1] obtain out t where
    "DistributePointCloudData 1 s = Some (Inr (out, t))" "sent_for 0 out = to_publish (lidars s ! 0)"
    by auto
  with s(4) show ?thesis by (auto simp: to_publish_def intro!: exI [of _ s])
qed

end
