(* ===== verification/PubHandler.thy ===== *)
theory PubHandler
  imports Ldq LidarComm CacheIndex Machine
begin

text \<open>
  From raw LiDAR packets to frames of points: classes \<open>LidarPubHandler\<close> and \<open>PubHandler\<close> of
  \<open>livox_ros_driver2/src/comm/pub_handler.h\<close> and \<open>pub_handler.cpp\<close>.  A raw packet is decoded,
  every point is moved by the extrinsic parameters of its LiDAR and appended to the cloud of that
  LiDAR; when the publishing interval has passed the clouds are handed out as a frame.

  The layout of the raw points belongs to the Livox SDK: the functions that read the points in a
  buffer are parameters, collected in the record \<open>sdk\<close>.  The clock is an input.  The map
  \<open>points_\<close>, cleared before every use, only keeps the memory of a frame alive and is not part of
  the state; threads, condition variables and mutexes are left out, one turn of the processing
  thread is one step.
\<close>

section \<open>Data\<close>

record raw_point =
  raw_x :: int
  raw_y :: int
  raw_z :: int
  reflectivity :: "8 word"
  raw_tag :: "8 word"

record spher_point =
  depth :: nat
  theta :: nat
  phi :: nat
  spher_reflectivity :: "8 word"
  spher_tag :: "8 word"

record sdk =
  high_points :: "8 word list \<Rightarrow> raw_point list"
  low_points :: "8 word list \<Rightarrow> raw_point list"
  spher_points :: "8 word list \<Rightarrow> spher_point list"
  high_data :: "8 word"       \<comment> \<open>\<open>kLivoxLidarCartesianCoordinateHighData\<close>\<close>
  low_data :: "8 word"
  spher_data :: "8 word"
  imu_type :: "8 word"        \<comment> \<open>\<open>kLivoxLidarImuData\<close>\<close>
  imu_point :: "8 word list \<Rightarrow> (vec3 \<times> vec3) option"   \<comment> \<open>\<open>gyro\<close> and \<open>acc\<close>; \<open>None\<close> when the buffer is too short\<close>

record raw_packet =
  rp_handle :: "32 word"
  extrinsic_enable :: bool
  point_num :: "32 word"
  data_type :: "8 word"
  line_num :: "8 word"
  time_stamp :: "64 word"
  point_interval :: "64 word"
  raw_data :: "8 word list"

record ext_parameter =
  roll :: real
  pitch :: real
  ext_yaw :: real
  ext_x :: int
  ext_y :: int
  ext_z :: int

text \<open>\<open>ExtParameterDetailed\<close>: the rotation matrix by its rows.\<close>

record extrinsic =
  trans :: vec3
  row0 :: vec3
  row1 :: vec3
  row2 :: vec3

definition PI :: real where
  "PI = 314159265358979323846 / 10 ^ 20"

section \<open>LidarPubHandler\<close>

record lidar_pub_handler =
  points_clouds :: "point_xyzlt list"
  extrinsic :: extrinsic
  is_set_extrinsic_params :: bool

text \<open>The initialiser of \<open>extrinsic_\<close>, with the second row as it is in the header.\<close>

definition extrinsic_default :: extrinsic where
  "extrinsic_default = \<lparr>trans = Vec3 0 0 0, row0 = Vec3 1 0 0, row1 = Vec3 0 1 1, row2 = Vec3 0 0 1\<rparr>"

definition handler_new :: lidar_pub_handler where
  "handler_new = \<lparr>points_clouds = [], extrinsic = extrinsic_default, is_set_extrinsic_params = False\<rparr>"

definition SetLidarsExtParam :: "ext_parameter \<Rightarrow> lidar_pub_handler \<Rightarrow> lidar_pub_handler" where
  "SetLidarsExtParam p h =
     (if is_set_extrinsic_params h then h
      else let cos_roll = cos (roll p * PI / 180); cos_pitch = cos (pitch p * PI / 180);
               cos_yaw = cos (ext_yaw p * PI / 180);
               sin_roll = sin (roll p * PI / 180); sin_pitch = sin (pitch p * PI / 180);
               sin_yaw = sin (ext_yaw p * PI / 180)
           in h\<lparr>extrinsic := \<lparr>
                trans = Vec3 (of_int (ext_x p)) (of_int (ext_y p)) (of_int (ext_z p)),
                row0 = Vec3 (cos_pitch * cos_yaw)
                            (sin_roll * sin_pitch * cos_yaw - cos_roll * sin_yaw)
                            (cos_roll * sin_pitch * cos_yaw + sin_roll * sin_yaw),
                row1 = Vec3 (cos_pitch * sin_yaw)
                            (sin_roll * sin_pitch * sin_yaw + cos_roll * cos_yaw)
                            (cos_roll * sin_pitch * sin_yaw - sin_roll * cos_yaw),
                row2 = Vec3 (- sin_pitch) (sin_roll * cos_pitch) (cos_roll * cos_pitch)\<rparr>,
              is_set_extrinsic_params := True\<rparr>)"

definition dot :: "vec3 \<Rightarrow> vec3 \<Rightarrow> real" where
  "dot a b = vx a * vx b + vy a * vy b + vz a * vz b"

definition rotate_point :: "extrinsic \<Rightarrow> vec3 \<Rightarrow> vec3" where
  "rotate_point e p = Vec3 (dot p (row0 e)) (dot p (row1 e)) (dot p (row2 e))"

text \<open>The coordinates of a Cartesian raw point, in units of \<open>1 / k\<close> metre.\<close>

definition cartesian :: "real \<Rightarrow> bool \<Rightarrow> extrinsic \<Rightarrow> vec3 \<Rightarrow> vec3" where
  "cartesian k enable e p =
     (if enable then vscale (1 / k) p else vscale (1 / k) (vadd (rotate_point e p) (trans e)))"

definition raw_vec :: "raw_point \<Rightarrow> vec3" where
  "raw_vec r = Vec3 (of_int (raw_x r)) (of_int (raw_y r)) (of_int (raw_z r))"

definition spherical :: "bool \<Rightarrow> extrinsic \<Rightarrow> spher_point \<Rightarrow> vec3" where
  "spherical enable e r =
     (let radius = of_nat (depth r) / 1000;
          th = of_nat (theta r) / 100 / 180 * PI;
          ph = of_nat (phi r) / 100 / 180 * PI;
          src = Vec3 (radius * sin th * cos ph) (radius * sin th * sin ph) (radius * cos th)
      in if enable then src else vadd (rotate_point e src) (vscale (1 / 1000) (trans e)))"

definition make_point :: "raw_packet \<Rightarrow> nat \<Rightarrow> vec3 \<Rightarrow> 8 word \<Rightarrow> 8 word \<Rightarrow> point_xyzlt" where
  "make_point pkt i p brightness tag =
     \<lparr>pt_x = vx p, pt_y = vy p, pt_z = vz p, pt_intensity = of_nat (unat brightness), pt_tag = tag,
      pt_line = word_of_nat (i mod unat (line_num pkt)),
      pt_offset_time = time_stamp pkt + word_of_nat i * point_interval pkt\<rparr>"

text \<open>
  The three loops differ in how the \<open>i\<close>-th raw point becomes a point; reading past the buffer is
  the error \<open>OutOfBounds\<close>, a line count of zero \<open>DivideByZero\<close>.
\<close>

definition ProcessCartesianHighPoint :: "sdk \<Rightarrow> raw_packet \<Rightarrow> extrinsic \<Rightarrow> nat \<Rightarrow> cpp_error + point_xyzlt" where
  "ProcessCartesianHighPoint k pkt e i =
     (let raw = high_points k (raw_data pkt)
      in if i < length raw
         then Inr (make_point pkt i (cartesian 1000 (extrinsic_enable pkt) e (raw_vec (raw ! i)))
                     (reflectivity (raw ! i)) (raw_tag (raw ! i)))
         else Inl OutOfBounds)"

definition ProcessCartesianLowPoint :: "sdk \<Rightarrow> raw_packet \<Rightarrow> extrinsic \<Rightarrow> nat \<Rightarrow> cpp_error + point_xyzlt" where
  "ProcessCartesianLowPoint k pkt e i =
     (let raw = low_points k (raw_data pkt)
      in if i < length raw
         then Inr (make_point pkt i (cartesian 100 (extrinsic_enable pkt) e (raw_vec (raw ! i)))
                     (reflectivity (raw ! i)) (raw_tag (raw ! i)))
         else Inl OutOfBounds)"

definition ProcessSphericalPoint :: "sdk \<Rightarrow> raw_packet \<Rightarrow> extrinsic \<Rightarrow> nat \<Rightarrow> cpp_error + point_xyzlt" where
  "ProcessSphericalPoint k pkt e i =
     (let raw = spher_points k (raw_data pkt)
      in if i < length raw
         then Inr (make_point pkt i (spherical (extrinsic_enable pkt) e (raw ! i))
                     (spher_reflectivity (raw ! i)) (spher_tag (raw ! i)))
         else Inl OutOfBounds)"

fun append_points ::
    "(nat \<Rightarrow> cpp_error + point_xyzlt) \<Rightarrow> nat \<Rightarrow> nat \<Rightarrow> point_xyzlt list \<Rightarrow> cpp_error + point_xyzlt list" where
  "append_points f 0 i ps = Inr ps"
| "append_points f (Suc n) i ps = bind_result (f i) (\<lambda>p. append_points f n (Suc i) (ps @ [p]))"

definition PointCloudProcess :: "sdk \<Rightarrow> raw_packet \<Rightarrow> lidar_pub_handler \<Rightarrow> cpp_error + lidar_pub_handler" where
  "PointCloudProcess k pkt h =
     (let run = (\<lambda>f. if point_num pkt \<noteq> 0 \<and> line_num pkt = 0 then Inl DivideByZero
                 else bind_result (append_points f (unat (point_num pkt)) 0 (points_clouds h))
                        (\<lambda>ps. Inr (h\<lparr>points_clouds := ps\<rparr>)))
      in if data_type pkt = high_data k then run (ProcessCartesianHighPoint k pkt (extrinsic h))
         else if data_type pkt = low_data k then run (ProcessCartesianLowPoint k pkt (extrinsic h))
         else if data_type pkt = spher_data k then run (ProcessSphericalPoint k pkt (extrinsic h))
         else Inr h)"

definition GetLidarBaseTime :: "lidar_pub_handler \<Rightarrow> 64 word" where
  "GetLidarBaseTime h = (case points_clouds h of [] \<Rightarrow> 0 | p # ps \<Rightarrow> pt_offset_time p)"

definition GetRecentTimeStamp :: "lidar_pub_handler \<Rightarrow> 64 word" where
  "GetRecentTimeStamp h = (if points_clouds h = [] then 0 else pt_offset_time (last (points_clouds h)))"

text \<open>\<open>GetLidarPointClouds\<close> swaps the cloud with a cleared vector.\<close>

definition GetLidarPointClouds :: "lidar_pub_handler \<Rightarrow> point_xyzlt list \<times> lidar_pub_handler" where
  "GetLidarPointClouds h = (points_clouds h, h\<lparr>points_clouds := []\<rparr>)"

section \<open>PubHandler\<close>

text \<open>
  \<open>PointFrame\<close> is filled entry by entry: a list of packets with their base times, of which
  \<open>lidar_num\<close> is the length; the arrays hold thirty-two.
\<close>

record pub_handler =
  publish_interval :: "64 word"
  publish_interval_tolerance :: "64 word"
  publish_interval_ms :: "64 word"
  is_timestamp_sync :: bool
  first_pub :: bool                      \<comment> \<open>static \<open>first\<close> of \<open>CheckTimer\<close>\<close>
  last_pub_time :: int
  raw_packet_queue :: "raw_packet list"
  handlers :: "(32 word \<times> lidar_pub_handler) list"   \<comment> \<open>the map, in the order of its keys\<close>
  lidar_extrinsics :: "32 word \<rightharpoonup> ext_parameter"
  frames :: "(64 word \<times> point_packet) list list"      \<comment> \<open>handed to the callback, oldest first\<close>
  imu_callback :: bool                   \<comment> \<open>is \<open>imu_callback_\<close> set\<close>
  imu_samples :: "imu_data list"         \<comment> \<open>handed to it, oldest first\<close>

definition pub_handler_new :: pub_handler where
  "pub_handler_new = \<lparr>publish_interval = 100000000, publish_interval_tolerance = 100000000,
     publish_interval_ms = 100, is_timestamp_sync = False, first_pub = True, last_pub_time = 0,
     raw_packet_queue = [], handlers = [], lidar_extrinsics = Map.empty, frames = [],
     imu_callback = False, imu_samples = []\<rparr>"

definition SetImuDataCallback :: "pub_handler \<Rightarrow> pub_handler" where
  "SetImuDataCallback s = s\<lparr>imu_callback := True\<rparr>"

text \<open>\<open>SetPointCloudConfig\<close>: the interval in nanoseconds, for a positive frequency.\<close>

definition SetPointCloudConfig :: "real \<Rightarrow> pub_handler \<Rightarrow> pub_handler" where
  "SetPointCloudConfig freq s =
     (let ival = word_of_int (trunc ((1000000000 / (freq * 10)) * 10))
      in s\<lparr>publish_interval := ival, publish_interval_tolerance := ival - 1000000,
           publish_interval_ms := ival div 1000000\<rparr>)"

definition AddLidarsExtParam :: "32 word \<Rightarrow> ext_parameter \<Rightarrow> pub_handler \<Rightarrow> pub_handler" where
  "AddLidarsExtParam h p s = s\<lparr>lidar_extrinsics := (lidar_extrinsics s)(h \<mapsto> p)\<rparr>"

definition ClearAllLidarsExtrinsicParams :: "pub_handler \<Rightarrow> pub_handler" where
  "ClearAllLidarsExtrinsicParams s = s\<lparr>lidar_extrinsics := Map.empty\<rparr>"

fun put_handler ::
    "32 word \<Rightarrow> lidar_pub_handler \<Rightarrow> (32 word \<times> lidar_pub_handler) list \<Rightarrow> (32 word \<times> lidar_pub_handler) list" where
  "put_handler k h [] = [(k, h)]"
| "put_handler k h ((k', h') # xs) =
     (if k = k' then (k, h) # xs else if k < k' then (k, h) # (k', h') # xs
      else (k', h') # put_handler k h xs)"

definition frame_packet :: "32 word \<Rightarrow> point_xyzlt list \<Rightarrow> point_packet" where
  "frame_packet lid ps = \<lparr>pp_handle = lid, pp_lidar_type = 8,
     pp_points_num = word_of_nat (length ps), pp_points = ps\<rparr>"

text \<open>The branch of \<open>CheckTimer\<close> with time synchronisation.\<close>

definition check_synced :: "32 word \<Rightarrow> pub_handler \<Rightarrow> cpp_error + pub_handler" where
  "check_synced lid s =
     (case map_of (handlers s) lid of
        None \<Rightarrow> Inl NullPointer
      | Some h \<Rightarrow>
          (let recent_time_ms = GetRecentTimeStamp h div 1000000
           in if publish_interval_ms s = 0 then Inl DivideByZero
              else if recent_time_ms mod publish_interval_ms s \<noteq> 0 \<or> recent_time_ms = 0 then Inr s
              else if GetRecentTimeStamp h - GetLidarBaseTime h < publish_interval_tolerance s then Inr s
              else (case GetLidarPointClouds h of
                      (ps, h') \<Rightarrow>
                        let s' = s\<lparr>handlers := put_handler lid h' (handlers s)\<rparr>
                        in Inr (if ps = [] then s'
                                else s'\<lparr>frames := frames s' @ [[(GetLidarBaseTime h, frame_packet lid ps)]]\<rparr>))))"

text \<open>The loop of the other branch: the frame so far, and the handlers with their clouds taken out.\<close>

fun collect ::
    "(32 word \<times> lidar_pub_handler) list \<Rightarrow> (64 word \<times> point_packet) list \<Rightarrow>
     cpp_error + (64 word \<times> point_packet) list \<times> (32 word \<times> lidar_pub_handler) list" where
  "collect [] frame = Inr (frame, [])"
| "collect ((lid, h) # hs) frame =
     (if \<not> length frame < 32 then Inl OutOfBounds
      else (case GetLidarPointClouds h of
              (ps, h') \<Rightarrow>
                bind_result
                  (collect hs (if ps = [] then frame else frame @ [(GetLidarBaseTime h, frame_packet lid ps)]))
                  (\<lambda>(frame', hs'). Inr (frame', (lid, h') # hs'))))"

definition check_unsynced :: "int \<Rightarrow> pub_handler \<Rightarrow> cpp_error + pub_handler" where
  "check_unsynced now_time s =
     (if first_pub s then Inr (s\<lparr>last_pub_time := now_time, first_pub := False\<rparr>)
      else if now_time - last_pub_time s < int (unat (publish_interval s)) then Inr s
      else bind_result (collect (handlers s) [])
             (\<lambda>(frame, hs). Inr (s\<lparr>last_pub_time := last_pub_time s + int (unat (publish_interval s)),
                                    handlers := hs, frames := frames s @ [frame]\<rparr>)))"

definition CheckTimer :: "int \<Rightarrow> 32 word \<Rightarrow> pub_handler \<Rightarrow> cpp_error + pub_handler" where
  "CheckTimer now_time lid s = (if is_timestamp_sync s then check_synced lid s else check_unsynced now_time s)"

text \<open>One packet through the body of the loop of \<open>RawDataProcess\<close>.\<close>

definition process_packet :: "sdk \<Rightarrow> int \<Rightarrow> raw_packet \<Rightarrow> pub_handler \<Rightarrow> cpp_error + pub_handler" where
  "process_packet k now_time pkt s =
     (let lid = rp_handle pkt;
          h0 = (case map_of (handlers s) lid of None \<Rightarrow> handler_new | Some h \<Rightarrow> h);
          h1 = (case lidar_extrinsics s lid of None \<Rightarrow> h0 | Some p \<Rightarrow> SetLidarsExtParam p h0)
      in bind_result (PointCloudProcess k pkt h1)
           (\<lambda>h2. CheckTimer now_time lid (s\<lparr>handlers := put_handler lid h2 (handlers s)\<rparr>)))"

definition RawDataProcess :: "sdk \<Rightarrow> int \<Rightarrow> pub_handler \<Rightarrow> cpp_error + pub_handler" where
  "RawDataProcess k now_time s =
     (case raw_packet_queue s of
        [] \<Rightarrow> Inr s
      | pkt # q \<Rightarrow> process_packet k now_time pkt (s\<lparr>raw_packet_queue := q\<rparr>))"

text \<open>
  \<open>OnLivoxLidarPointCloudCallback\<close>: the header of the packet and its payload.  IMU samples go to
  their callback, with the \<open>slot\<close> the code leaves unset, a parameter \<open>garbage\<close>; points go to the
  queue.
\<close>

record eth_packet =
  eth_dot_num :: "16 word"
  eth_time_interval :: "16 word"
  eth_data_type :: "8 word"
  eth_time_type :: "8 word"
  eth_timestamp :: "64 word"
  eth_data :: "8 word list"

datatype dev_type = IndustrialHAP | Mid360 | OtherDevice

definition line_number :: "dev_type \<Rightarrow> 8 word" where
  "line_number d = (case d of IndustrialHAP \<Rightarrow> 6 | Mid360 \<Rightarrow> 4 | OtherDevice \<Rightarrow> 1)"

definition GetEthPacketTimestamp :: "8 word \<Rightarrow> 64 word \<Rightarrow> 64 word \<Rightarrow> 64 word" where
  "GetEthPacketTimestamp time_type stamp clock = (if time_type = 1 \<or> time_type = 2 then stamp else clock)"

definition on_imu ::
    "sdk \<Rightarrow> 8 word \<Rightarrow> 32 word \<Rightarrow> eth_packet \<Rightarrow> 64 word \<Rightarrow> pub_handler \<Rightarrow> cpp_error + pub_handler" where
  "on_imu k garbage handle data clock s =
     (if \<not> imu_callback s then Inr s
      else (case imu_point k (eth_data data) of
              None \<Rightarrow> Inl OutOfBounds
            | Some (gyro, acc) \<Rightarrow> Inr (s\<lparr>imu_samples := imu_samples s @
                [\<lparr>imu_lidar_type = kLivoxLidarType, imu_handle = handle, imu_slot = garbage,
                  imu_time_stamp = GetEthPacketTimestamp (eth_time_type data) (eth_timestamp data) clock,
                  gyro_x = vx gyro, gyro_y = vy gyro, gyro_z = vz gyro,
                  acc_x = vx acc, acc_y = vy acc, acc_z = vz acc\<rparr>]\<rparr>)))"

definition on_points ::
    "32 word \<Rightarrow> dev_type \<Rightarrow> eth_packet \<Rightarrow> 64 word \<Rightarrow> pub_handler \<Rightarrow> cpp_error + pub_handler" where
  "on_points handle dev data clock s =
     (if eth_dot_num data = 0 then Inl DivideByZero
      else Inr (s\<lparr>raw_packet_queue := raw_packet_queue s @
             [\<lparr>rp_handle = handle, extrinsic_enable = False,
               point_num = ucast (eth_dot_num data), data_type = eth_data_type data,
               line_num = line_number dev,
               time_stamp = GetEthPacketTimestamp (eth_time_type data) (eth_timestamp data) clock,
               point_interval = word_of_nat (unat (eth_time_interval data) * 100 div unat (eth_dot_num data)),
               raw_data = eth_data data\<rparr>]\<rparr>))"

definition OnPointCloud ::
    "sdk \<Rightarrow> 8 word \<Rightarrow> 32 word \<Rightarrow> dev_type \<Rightarrow> eth_packet \<Rightarrow> 64 word \<Rightarrow> pub_handler \<Rightarrow> cpp_error + pub_handler" where
  "OnPointCloud k garbage handle dev data clock s =
     (let s1 = s\<lparr>is_timestamp_sync := eth_time_type data \<noteq> 0\<rparr>
      in if eth_data_type data = imu_type k then on_imu k garbage handle data clock s1
         else on_points handle dev data clock s1)"

end
