(* ===== verification/PubHandlerProps.thy ===== *)
theory PubHandlerProps
  imports PubHandler
begin

text \<open>
  The extrinsic parameters move a cloud rigidly; without them the initial matrix shears it.  No
  point is lost or published twice between the SDK's callback and the frames.
\<close>

section \<open>Extrinsic parameters\<close>

lemma rotation_norm:
  fixes x y z :: real
  assumes "cr * cr + sr * sr = 1" "cp * cp + sp * sp = 1" "cy * cy + sy * sy = 1"
  shows "(x * (cp * cy) + y * (sr * sp * cy - cr * sy) + z * (cr * sp * cy + sr * sy))
       * (x * (cp * cy) + y * (sr * sp * cy - cr * sy) + z * (cr * sp * cy + sr * sy))
     + (x * (cp * sy) + y * (sr * sp * sy + cr * cy) + z * (cr * sp * sy - sr * cy))
       * (x * (cp * sy) + y * (sr * sp * sy + cr * cy) + z * (cr * sp * sy - sr * cy))
     + (x * - sp + y * (sr * cp) + z * (cr * cp)) * (x * - sp + y * (sr * cp) + z * (cr * cp))
     = x * x + y * y + z * z"
  using assms by algebra

lemma cos_sin_one: "cos (t :: real) * cos t + sin t * sin t = 1"
  using sin_cos_squared_add [of t] by (simp add: power2_eq_square add.commute)

lemma rotate_sub: "rotate_point e (vsub p q) = vsub (rotate_point e p) (rotate_point e q)"
  by (simp add: rotate_point_def dot_def vsub_def algebra_simps)

lemma rotate_isometry:
  assumes "\<not> is_set_extrinsic_params h"
  shows "vnorm (rotate_point (extrinsic (SetLidarsExtParam p h)) v) = vnorm v"
  using assms
    rotation_norm [OF cos_sin_one [of "roll p * PI / 180"] cos_sin_one [of "pitch p * PI / 180"]
      cos_sin_one [of "ext_yaw p * PI / 180"], of "vx v" "vy v" "vz v"]
  by (simp add: vnorm_def rotate_point_def dot_def SetLidarsExtParam_def Let_def)

text \<open>
  The extrinsic parameters of a LiDAR, whatever the three angles and the offset are, move its
  cloud rigidly: the distance of two decoded points is the distance of the raw points, in metres
  (the raw unit is a millimetre or a centimetre).
\<close>

lemma extrinsic_rigid:
  assumes "\<not> is_set_extrinsic_params h" "0 < k"
  shows "vnorm (vsub (cartesian k False (extrinsic (SetLidarsExtParam p h)) a)
                     (cartesian k False (extrinsic (SetLidarsExtParam p h)) b))
       = vnorm (vsub a b) / k"
proof -
  let ?e = "extrinsic (SetLidarsExtParam p h)"
  have "vsub (cartesian k False ?e a) (cartesian k False ?e b)
      = vscale (1 / k) (vsub (rotate_point ?e a) (rotate_point ?e b))"
    by (simp add: cartesian_def vsub_def vscale_def vadd_def diff_divide_distrib add_divide_distrib)
  then have "vsub (cartesian k False ?e a) (cartesian k False ?e b)
      = vscale (1 / k) (rotate_point ?e (vsub a b))"
    by (simp only: rotate_sub)
  then show ?thesis
    using assms by (simp add: vnorm_scale rotate_isometry)
qed

text \<open>
  For a LiDAR without configured parameters the initial matrix of the class is used, and it is
  not the identity: the height of every point is added to its second coordinate, so two points one
  above the other come out at the wrong distance.
\<close>

lemma extrinsic_default_shears:
  assumes "0 < k"
  shows "cartesian k False (extrinsic handler_new) p = vscale (1 / k) (Vec3 (vx p) (vy p + vz p) (vz p))
    \<and> vnorm (vsub (cartesian k False (extrinsic handler_new) (Vec3 0 0 h))
                  (cartesian k False (extrinsic handler_new) (Vec3 0 0 0))) = sqrt 2 * \<bar>h\<bar> / k"
proof -
  have "vnorm (vscale (1 / k) (Vec3 0 h h)) = sqrt 2 * \<bar>h\<bar> / k"
  proof -
    have "vnorm (Vec3 0 h h) = sqrt (2 * h\<^sup>2)" by (simp add: vnorm_def power2_eq_square)
    also have "\<dots> = sqrt 2 * \<bar>h\<bar>" by (simp add: real_sqrt_mult)
    finally show ?thesis using assms by (simp add: vnorm_scale)
  qed
  moreover have "vsub (vscale (1 / k) (Vec3 0 h h)) (vscale (1 / k) (Vec3 0 0 0)) = vscale (1 / k) (Vec3 0 h h)"
    by (simp add: vsub_def vscale_def)
  ultimately show ?thesis
    by (simp add: cartesian_def handler_new_def extrinsic_default_def rotate_point_def dot_def vadd_def)
qed

section \<open>The map of handlers\<close>

definition sorted_keys :: "(32 word \<times> lidar_pub_handler) list \<Rightarrow> bool" where
  "sorted_keys hs \<longleftrightarrow> sorted_wrt (<) (map fst hs)"

lemma map_of_put [simp]: "map_of (put_handler k h hs) = (map_of hs)(k \<mapsto> h)"
  by (induction hs) auto

lemma keys_put: "fst ` set (put_handler k h hs) = insert k (fst ` set hs)"
  by (induction k h hs rule: put_handler.induct) (simp_all add: insert_commute)

lemma sorted_put: "sorted_keys hs \<Longrightarrow> sorted_keys (put_handler k h hs)"
proof (induction hs)
  case (Cons x hs)
  then have s: "sorted_keys hs" "\<forall>y \<in> fst ` set hs. fst x < y" by (auto simp: sorted_keys_def)
  show ?case
  proof (cases x)
    case (Pair k' h')
    with Cons s keys_put [of k h hs] show ?thesis
      by (auto simp: sorted_keys_def)
  qed
qed (simp add: sorted_keys_def)

section \<open>Where the points are\<close>

definition frame_points :: "32 word \<Rightarrow> (64 word \<times> point_packet) list \<Rightarrow> point_xyzlt list" where
  "frame_points l fr = concat (map (\<lambda>(t, p). if pp_handle p = l then pp_points p else []) fr)"

definition published_points :: "32 word \<Rightarrow> pub_handler \<Rightarrow> point_xyzlt list" where
  "published_points l s = frame_points l (concat (frames s))"

definition handler_points :: "32 word \<Rightarrow> (32 word \<times> lidar_pub_handler) list \<Rightarrow> point_xyzlt list" where
  "handler_points l hs = (case map_of hs l of None \<Rightarrow> [] | Some h \<Rightarrow> points_clouds h)"

text \<open>Everything decoded for a LiDAR: what was published, then what is waiting.\<close>

definition cloud :: "32 word \<Rightarrow> pub_handler \<Rightarrow> point_xyzlt list" where
  "cloud l s = published_points l s @ handler_points l (handlers s)"

lemma frame_points_append [simp]: "frame_points l (a @ b) = frame_points l a @ frame_points l b"
  by (simp add: frame_points_def)

lemma frame_points_one [simp]:
  "frame_points l [(t, frame_packet l' ps)] = (if l' = l then ps else [])" "frame_points l [] = []"
  by (simp_all add: frame_points_def frame_packet_def)

lemma collect_ok:
  "length fr + length hs \<le> 32 \<Longrightarrow> sorted_keys hs \<Longrightarrow>
   \<exists>fr' hs'. collect hs fr = Inr (fr', hs') \<and> map fst hs' = map fst hs
     \<and> (\<forall>l. frame_points l fr' = frame_points l fr @ handler_points l hs)
     \<and> (\<forall>l. handler_points l hs' = [])"
proof (induction hs arbitrary: fr)
  case Nil
  then show ?case by (simp add: handler_points_def)
next
  case (Cons x hs)
  obtain k h where x: "x = (k, h)" by (cases x)
  let ?fr = "if points_clouds h = [] then fr else fr @ [(GetLidarBaseTime h, frame_packet k (points_clouds h))]"
  have len: "length fr < 32" "length ?fr + length hs \<le> 32" using Cons.prems(1) by auto
  have s: "sorted_keys hs" "k \<notin> fst ` set hs"
    using Cons.prems(2) by (auto simp: sorted_keys_def x)
  from Cons.IH [OF len(2) s(1)] obtain fr' hs' where h: "collect hs ?fr = Inr (fr', hs')"
    "map fst hs' = map fst hs" "\<forall>l. frame_points l fr' = frame_points l ?fr @ handler_points l hs"
    "\<forall>l. handler_points l hs' = []" by blast
  have own: "handler_points k hs = []"
    using s(2) by (simp add: handler_points_def map_of_eq_None_iff [THEN iffD2])
  have "frame_points l fr' = frame_points l fr @ handler_points l (x # hs)" for l
    using h(3) own by (cases "l = k") (auto simp: x handler_points_def)
  moreover have "handler_points l ((k, h\<lparr>points_clouds := []\<rparr>) # hs') = []" for l
    using h(4) by (auto simp: handler_points_def)
  ultimately show ?case
    using h(1,2) len(1) by (auto simp: x GetLidarPointClouds_def)
qed

lemma append_points_spec:
  "append_points f n i ps = Inr qs \<Longrightarrow> \<exists>new. qs = ps @ new \<and> length new = n"
proof (induction n arbitrary: i ps)
  case (Suc n)
  then obtain p where "append_points f n (Suc i) (ps @ [p]) = Inr qs" by auto
  from Suc.IH [OF this] show ?case by auto
qed simp

lemma append_points_ok:
  "\<forall>j. i \<le> j \<and> j < i + n \<longrightarrow> (\<exists>p. f j = Inr p) \<Longrightarrow> \<exists>qs. append_points f n i ps = Inr qs"
proof (induction n arbitrary: i ps)
  case (Suc n)
  then obtain p where "f i = Inr p" by (metis add_Suc_right le_add1 lessI order_refl less_add_Suc1)
  with Suc show ?case by simp
qed simp

text \<open>The number of points a packet decodes to.\<close>

definition decoded :: "sdk \<Rightarrow> raw_packet \<Rightarrow> nat" where
  "decoded k pkt =
     (if data_type pkt \<in> {high_data k, low_data k, spher_data k} then unat (point_num pkt) else 0)"

text \<open>The buffer of a packet holds as many points as its header says.\<close>

definition raw_ok :: "sdk \<Rightarrow> raw_packet \<Rightarrow> bool" where
  "raw_ok k pkt \<longleftrightarrow> line_num pkt \<noteq> 0
     \<and> (data_type pkt = high_data k \<longrightarrow> unat (point_num pkt) \<le> length (high_points k (raw_data pkt)))
     \<and> (data_type pkt = low_data k \<longrightarrow> unat (point_num pkt) \<le> length (low_points k (raw_data pkt)))
     \<and> (data_type pkt = spher_data k \<longrightarrow> unat (point_num pkt) \<le> length (spher_points k (raw_data pkt)))"

lemma process_spec:
  assumes "raw_ok k pkt"
  obtains h' new where "PointCloudProcess k pkt h = Inr h'" "points_clouds h' = points_clouds h @ new"
    "length new = decoded k pkt"
proof -
  note result = that
  let ?n = "unat (point_num pkt)"
  have step: thesis if d: "data_type pkt \<in> {high_data k, low_data k, spher_data k}"
    and f: "PointCloudProcess k pkt h = bind_result (append_points f ?n 0 (points_clouds h))
        (\<lambda>ps. Inr (h\<lparr>points_clouds := ps\<rparr>))"
    and ok: "\<forall>j < ?n. \<exists>p. f j = Inr p" for f
  proof -
    from append_points_ok [of 0 ?n f "points_clouds h"] ok obtain qs where
      qs: "append_points f ?n 0 (points_clouds h) = Inr qs" by auto
    from append_points_spec [OF this] obtain new where "qs = points_clouds h @ new" "length new = ?n" by blast
    with qs f d show thesis by (intro result [of "h\<lparr>points_clouds := qs\<rparr>" new]) (auto simp: decoded_def)
  qed
  consider "data_type pkt = high_data k" | "data_type pkt \<noteq> high_data k" "data_type pkt = low_data k"
    | "data_type pkt \<noteq> high_data k" "data_type pkt \<noteq> low_data k" "data_type pkt = spher_data k"
    | "data_type pkt \<notin> {high_data k, low_data k, spher_data k}" by blast
  then show thesis
  proof cases
    case 1
    with assms show thesis
      by (intro step [of "ProcessCartesianHighPoint k pkt (extrinsic h)"])
        (auto simp: PointCloudProcess_def raw_ok_def ProcessCartesianHighPoint_def Let_def)
  next
    case 2
    with assms show thesis
      by (intro step [of "ProcessCartesianLowPoint k pkt (extrinsic h)"])
        (auto simp: PointCloudProcess_def raw_ok_def ProcessCartesianLowPoint_def Let_def)
  next
    case 3
    with assms show thesis
      by (intro step [of "ProcessSphericalPoint k pkt (extrinsic h)"])
        (auto simp: PointCloudProcess_def raw_ok_def ProcessSphericalPoint_def Let_def)
  next
    case 4
    then show thesis
      by (intro result [of h "[]"]) (auto simp: PointCloudProcess_def decoded_def Let_def)
  qed
qed

section \<open>The timer\<close>

definition handlers_ok :: "32 word set \<Rightarrow> pub_handler \<Rightarrow> bool" where
  "handlers_ok H s \<longleftrightarrow> sorted_keys (handlers s) \<and> fst ` set (handlers s) \<subseteq> H \<and> publish_interval_ms s \<noteq> 0"

lemma handlers_count:
  assumes "handlers_ok H s" "finite H" "card H \<le> 32"
  shows "length (handlers s) \<le> 32"
proof -
  have "distinct (map fst (handlers s))"
    using assms(1) by (simp add: handlers_ok_def sorted_keys_def strict_sorted_iff)
  then have "length (handlers s) = card (fst ` set (handlers s))"
    by (metis distinct_card length_map set_map)
  also have "\<dots> \<le> card H" using assms(1,2) by (intro card_mono) (simp_all add: handlers_ok_def)
  finally show ?thesis using assms(3) by simp
qed

lemma timer_ok:
  assumes s: "handlers_ok H s" and H: "finite H" "card H \<le> 32"
    and m: "map_of (handlers s) lid \<noteq> None"
  shows "\<exists>t. CheckTimer now_time lid s = Inr t \<and> handlers_ok H t \<and> (\<forall>l. cloud l t = cloud l s)
    \<and> raw_packet_queue t = raw_packet_queue s"
proof (cases "is_timestamp_sync s")
  case True
  from m obtain h where h: "map_of (handlers s) lid = Some h" by blast
  let ?hs = "put_handler lid (h\<lparr>points_clouds := []\<rparr>) (handlers s)"
  have "lid \<in> fst ` set (handlers s)" using h by (metis map_of_eq_None_iff option.distinct(1))
  then have lid: "lid \<in> H" using s by (auto simp: handlers_ok_def)
  have ok: "sorted_keys ?hs" "fst ` set ?hs \<subseteq> H"
    using s lid keys_put [of lid "h\<lparr>points_clouds := []\<rparr>" "handlers s"] by (auto simp: handlers_ok_def sorted_put)
  have pts: "handler_points l ?hs = (if l = lid then [] else handler_points l (handlers s))" for l
    by (simp add: handler_points_def)
  have own: "handler_points lid (handlers s) = points_clouds h" by (simp add: handler_points_def h)
  show ?thesis
    using True s ok pts own
    by (auto simp: CheckTimer_def check_synced_def h GetLidarPointClouds_def Let_def handlers_ok_def
        cloud_def published_points_def)
next
  case False
  have "length ([] :: (64 word \<times> point_packet) list) + length (handlers s) \<le> 32"
    using handlers_count [OF s H] by simp
  from collect_ok [OF this] s obtain fr hs where c: "collect (handlers s) [] = Inr (fr, hs)"
    "map fst hs = map fst (handlers s)" "\<forall>l. frame_points l fr = handler_points l (handlers s)"
    "\<forall>l. handler_points l hs = []" by (auto simp: handlers_ok_def)
  have keys: "fst ` set hs = fst ` set (handlers s)" using c(2) by (metis set_map)
  show ?thesis
    using False s c keys
    by (auto simp: CheckTimer_def check_unsynced_def handlers_ok_def sorted_keys_def cloud_def
        published_points_def)
qed

section \<open>Runs\<close>

datatype pub_event =
    Receive "8 word" "32 word" dev_type eth_packet "64 word"   \<comment> \<open>the SDK's callback\<close>
  | Process int                                       \<comment> \<open>a turn of the processing thread\<close>
  | Configure real                                    \<comment> \<open>the publishing frequency\<close>
  | AddExtrinsic "32 word" ext_parameter
  | ClearExtrinsics
  | ListenImu

fun pub_handle :: "sdk \<Rightarrow> pub_event \<Rightarrow> pub_handler \<Rightarrow> cpp_error + pub_handler" where
  "pub_handle k (Receive g h d p c) s = OnPointCloud k g h d p c s"
| "pub_handle k (Process now_time) s = RawDataProcess k now_time s"
| "pub_handle k (Configure freq) s = Inr (SetPointCloudConfig freq s)"
| "pub_handle k (AddExtrinsic h p) s = Inr (AddLidarsExtParam h p s)"
| "pub_handle k ClearExtrinsics s = Inr (ClearAllLidarsExtrinsicParams s)"
| "pub_handle k ListenImu s = Inr (SetImuDataCallback s)"

text \<open>The points of a LiDAR that are still in the queue of raw packets, and those an event brings.\<close>

definition queued :: "sdk \<Rightarrow> 32 word \<Rightarrow> raw_packet list \<Rightarrow> nat" where
  "queued k l q = sum_list (map (\<lambda>p. if rp_handle p = l then decoded k p else 0) q)"

fun received :: "sdk \<Rightarrow> 32 word \<Rightarrow> pub_event \<Rightarrow> nat" where
  "received k l (Receive g h d p c) =
     (if h = l \<and> eth_data_type p \<noteq> imu_type k \<and> eth_data_type p \<in> {high_data k, low_data k, spher_data k}
      then unat (eth_dot_num p) else 0)"
| "received k l ev = 0"

fun event_ok :: "sdk \<Rightarrow> 32 word set \<Rightarrow> pub_event \<Rightarrow> bool" where
  "event_ok k H (Receive g h d p c) \<longleftrightarrow> 
     (if eth_data_type p = imu_type k then imu_point k (eth_data p) \<noteq> None
      else h \<in> H \<and> eth_dot_num p \<noteq> 0
     \<and> (eth_data_type p = high_data k \<longrightarrow> unat (eth_dot_num p) \<le> length (high_points k (eth_data p)))
     \<and> (eth_data_type p = low_data k \<longrightarrow> unat (eth_dot_num p) \<le> length (low_points k (eth_data p)))
     \<and> (eth_data_type p = spher_data k \<longrightarrow> unat (eth_dot_num p) \<le> length (spher_points k (eth_data p))))"
| "event_ok k H (Configure freq) \<longleftrightarrow> 1 \<le> freq \<and> freq \<le> 1000"
| "event_ok k H ev \<longleftrightarrow> True"

definition pub_inv :: "sdk \<Rightarrow> 32 word set \<Rightarrow> pub_handler \<Rightarrow> bool" where
  "pub_inv k H s \<longleftrightarrow> handlers_ok H s
     \<and> (\<forall>p \<in> set (raw_packet_queue s). raw_ok k p \<and> rp_handle p \<in> H)"

definition total :: "sdk \<Rightarrow> 32 word \<Rightarrow> pub_handler \<Rightarrow> nat" where
  "total k l s = length (cloud l s) + queued k l (raw_packet_queue s)"

lemma unat_ucast_16: "unat (ucast (w :: 16 word) :: 32 word) = unat w"
  by (simp add: unsigned_ucast_eq take_bit_nat_eq_self_iff unsigned_less [THEN less_le_trans])

lemma imu_ok:
  assumes s: "pub_inv k H s" and p: "imu_point k (eth_data p) \<noteq> None"
  shows "\<exists>t. on_imu k g h p c s = Inr t \<and> pub_inv k H t \<and> (\<forall>l. total k l t = total k l s)
    \<and> (\<forall>l. cloud l t = cloud l s)"
  using assms by (auto simp: on_imu_def pub_inv_def handlers_ok_def total_def cloud_def published_points_def
      split: option.splits)

lemma points_ok:
  assumes s: "pub_inv k H s" and ev: "event_ok k H (Receive g h d p c)" and ty: "eth_data_type p \<noteq> imu_type k"
  shows "\<exists>t. on_points h d p c s = Inr t \<and> pub_inv k H t
    \<and> (\<forall>l. total k l t = total k l s + received k l (Receive g h d p c))
    \<and> (\<forall>l. cloud l t = cloud l s)"
proof -
  have ln: "line_number d \<noteq> 0" by (cases d) (simp_all add: line_number_def)
  obtain pkt where t: "on_points h d p c s = Inr (s\<lparr>raw_packet_queue := raw_packet_queue s @ [pkt]\<rparr>)"
    and pkt: "rp_handle pkt = h" "point_num pkt = ucast (eth_dot_num p)" "data_type pkt = eth_data_type p"
      "line_num pkt = line_number d" "raw_data pkt = eth_data p"
    using ev ty by (simp add: on_points_def)
  let ?t = "s\<lparr>raw_packet_queue := raw_packet_queue s @ [pkt]\<rparr>"
  have "raw_ok k pkt" using ev ln pkt ty by (simp add: raw_ok_def unat_ucast_16)
  with s ev ty pkt(1) have "pub_inv k H ?t" by (auto simp: pub_inv_def handlers_ok_def)
  moreover have cl: "cloud l ?t = cloud l s" for l by (simp add: cloud_def published_points_def)
  moreover have "total k l ?t = total k l s + received k l (Receive g h d p c)" for l
    using pkt ty by (simp add: total_def cl queued_def decoded_def unat_ucast_16)
  ultimately show ?thesis using t by blast
qed

lemma receive_ok:
  assumes s: "pub_inv k H s" and ev: "event_ok k H (Receive g h d p c)"
  shows "\<exists>t. OnPointCloud k g h d p c s = Inr t \<and> pub_inv k H t
    \<and> (\<forall>l. total k l t = total k l s + received k l (Receive g h d p c))
    \<and> (\<forall>l. cloud l t = cloud l s)"
proof -
  let ?s = "s\<lparr>is_timestamp_sync := eth_time_type p \<noteq> 0\<rparr>"
  have s': "pub_inv k H ?s" using s by (simp add: pub_inv_def handlers_ok_def)
  have same: "cloud l ?s = cloud l s" "total k l ?s = total k l s" for l
    by (simp_all add: total_def cloud_def published_points_def)
  show ?thesis
  proof (cases "eth_data_type p = imu_type k")
    case True
    with ev have "imu_point k (eth_data p) \<noteq> None" by simp
    from imu_ok [OF s' this, of g h c] True show ?thesis by (simp add: OnPointCloud_def Let_def same)
  next
    case False
    from points_ok [OF s' ev False] False show ?thesis by (simp add: OnPointCloud_def Let_def same)
  qed
qed

text \<open>A frequency between one and a thousand hertz gives a period of at least one millisecond.\<close>

lemma config_interval:
  assumes "1 \<le> freq" "freq \<le> 1000"
  shows "publish_interval_ms (SetPointCloudConfig freq s) \<noteq> 0"
proof -
  let ?n = "trunc (1000000000 / (freq * 10) * 10)"
  have eq: "1000000000 / (freq * 10) * 10 = 1000000000 / freq" using assms by simp
  have lo: "1000000 \<le> 1000000000 / freq" using assms by (simp add: pos_le_divide_eq)
  have hi: "1000000000 / freq \<le> 1000000000" using assms by (simp add: pos_divide_le_eq)
  have n: "1000000 \<le> ?n" "?n \<le> 1000000000"
    unfolding eq trunc_def using lo hi by (simp_all add: le_floor_iff floor_le_iff)
  then have "uint (word_of_int ?n :: 64 word) = ?n"
    by (simp add: uint_word_of_int)
  then have "uint ((word_of_int ?n :: 64 word) div 1000000) = ?n div 1000000"
    by (simp add: uint_div_distrib)
  moreover have "?n div 1000000 \<noteq> 0" using n(1) by (simp add: zdiv_eq_0_iff)
  ultimately have "(word_of_int ?n :: 64 word) div 1000000 \<noteq> 0" by (metis uint_0_eq)
  then show ?thesis by (simp add: SetPointCloudConfig_def Let_def)
qed

lemma packet_ok_step:
  assumes s: "handlers_ok H s" and H: "finite H" "card H \<le> 32" and p: "raw_ok k pkt" "rp_handle pkt \<in> H"
  shows "\<exists>t. process_packet k now_time pkt s = Inr t \<and> handlers_ok H t
    \<and> (\<exists>new. \<forall>l. cloud l t = cloud l s @ (if l = rp_handle pkt then new else []) \<and> length new = decoded k pkt)
    \<and> raw_packet_queue t = raw_packet_queue s"
proof -
  let ?l = "rp_handle pkt"
  define h0 where "h0 = (case map_of (handlers s) ?l of None \<Rightarrow> handler_new | Some h \<Rightarrow> h)"
  define h1 where "h1 = (case lidar_extrinsics s ?l of None \<Rightarrow> h0 | Some p \<Rightarrow> SetLidarsExtParam p h0)"
  have pts: "points_clouds h1 = handler_points ?l (handlers s)"
    by (auto simp: h1_def h0_def handler_points_def handler_new_def SetLidarsExtParam_def Let_def
        split: option.split)
  from process_spec [OF p(1), of h1] obtain h2 new where
    h2: "PointCloudProcess k pkt h1 = Inr h2" "points_clouds h2 = points_clouds h1 @ new"
    "length new = decoded k pkt" .
  let ?s = "s\<lparr>handlers := put_handler ?l h2 (handlers s)\<rparr>"
  have ok: "handlers_ok H ?s"
    using s p(2) keys_put [of ?l h2 "handlers s"] by (simp add: handlers_ok_def sorted_put)
  from timer_ok [OF ok H, of ?l now_time] obtain t where
    t: "CheckTimer now_time ?l ?s = Inr t" "handlers_ok H t" "\<forall>l. cloud l t = cloud l ?s"
      "raw_packet_queue t = raw_packet_queue s" by auto
  have "process_packet k now_time pkt s = Inr t"
    unfolding process_packet_def Let_def h0_def [symmetric] h1_def [symmetric] using t(1) h2(1) by simp
  moreover have "cloud l ?s = cloud l s @ (if l = ?l then new else [])" for l
    using pts h2(2) by (simp add: cloud_def published_points_def handler_points_def)
  ultimately show ?thesis using t h2(3) by (intro exI [of _ t]) auto
qed

lemma process_ok:
  assumes s: "pub_inv k H s" and H: "finite H" "card H \<le> 32"
  shows "\<exists>t. RawDataProcess k now_time s = Inr t \<and> pub_inv k H t \<and> (\<forall>l. total k l t = total k l s)
    \<and> (\<forall>l. \<exists>new. cloud l t = cloud l s @ new)"
proof (cases "raw_packet_queue s")
  case Nil
  with s show ?thesis by (simp add: RawDataProcess_def)
next
  case (Cons pkt q)
  let ?s = "s\<lparr>raw_packet_queue := q\<rparr>"
  from s Cons have p: "raw_ok k pkt" "rp_handle pkt \<in> H" "handlers_ok H ?s"
    by (simp_all add: pub_inv_def handlers_ok_def)
  from packet_ok_step [OF p(3) H p(1,2), of now_time] obtain t new where
    t: "process_packet k now_time pkt ?s = Inr t" "handlers_ok H t" "raw_packet_queue t = q"
    and c: "\<forall>l. cloud l t = cloud l ?s @ (if l = rp_handle pkt then new else []) \<and> length new = decoded k pkt"
    by auto
  have cl: "cloud l ?s = cloud l s" for l by (simp add: cloud_def published_points_def)
  have "pub_inv k H t" using t(2,3) s Cons by (simp add: pub_inv_def)
  moreover have "total k l t = total k l s" for l
    using c t(3) Cons by (simp add: total_def cl queued_def)
  moreover have "\<exists>new. cloud l t = cloud l s @ new" for l using c cl by simp
  ultimately show ?thesis using t(1) Cons by (auto simp: RawDataProcess_def)
qed

lemma pub_step:
  assumes "pub_inv k H s" "finite H \<and> card H \<le> 32 \<and> event_ok k H ev"
  shows "\<exists>t. pub_handle k ev s = Inr t \<and> pub_inv k H t \<and> (\<forall>l. total k l t = total k l s + received k l ev)
    \<and> (\<forall>l. \<exists>new. cloud l t = cloud l s @ new)"
proof (cases ev)
  case (Receive g h d p c)
  with receive_ok [OF assms(1), of g h d p c] assms(2) show ?thesis by fastforce
next
  case (Process now_time)
  with process_ok [OF assms(1), of now_time] assms(2) show ?thesis by auto
next
  case (Configure freq)
  with assms config_interval [of freq s] show ?thesis
    by (auto simp: pub_inv_def handlers_ok_def total_def cloud_def published_points_def SetPointCloudConfig_def
        Let_def)
next
  case (AddExtrinsic h p)
  with assms show ?thesis
    by (auto simp: pub_inv_def handlers_ok_def total_def cloud_def published_points_def AddLidarsExtParam_def)
next
  case ClearExtrinsics
  with assms show ?thesis
    by (auto simp: pub_inv_def handlers_ok_def total_def cloud_def published_points_def
        ClearAllLidarsExtrinsicParams_def)
next
  case ListenImu
  with assms show ?thesis
    by (auto simp: pub_inv_def handlers_ok_def total_def cloud_def published_points_def SetImuDataCallback_def)
qed

interpretation pub: safe_machine "pub_handle k" "\<lambda>ev. finite H \<and> card H \<le> 32 \<and> event_ok k H ev" "pub_inv k H"
  for k H
proof
  fix s ev t
  assume "pub_inv k H s" "finite H \<and> card H \<le> 32 \<and> event_ok k H ev" "pub_handle k ev s = Inr t"
  with pub_step [of k H s ev] show "pub_inv k H t" by auto
next
  fix s ev
  assume "pub_inv k H s" "finite H \<and> card H \<le> 32 \<and> event_ok k H ev"
  with pub_step [of k H s ev] show "\<exists>t. pub_handle k ev s = Inr t" by blast
qed

lemma pub_total:
  assumes H: "finite H" "card H \<le> 32"
  shows "pub_inv k H s \<Longrightarrow> list_all (event_ok k H) evs \<Longrightarrow> run_events (pub_handle k) evs s = Inr t \<Longrightarrow>
    total k l t = total k l s + sum_list (map (received k l) evs)"
proof (induction evs arbitrary: s)
  case (Cons ev evs)
  from pub_step [of k H s ev] Cons.prems H obtain u where
    u: "pub_handle k ev s = Inr u" "pub_inv k H u" "total k l u = total k l s + received k l ev" by auto
  with Cons show ?case by simp
qed simp

section \<open>Properties\<close>

text \<open>
  C12: with at most thirty-two LiDARs and packets whose buffers hold the points their headers
  announce, the handler never fails, and no point is lost or counted twice: after any sequence of
  packets and turns of the processing thread, with or without time synchronisation, the points of a
  LiDAR that were published, that wait for the next frame and that are still undecoded in the queue
  together are as many as were received.
\<close>

theorem pub_conserves_points:
  assumes "finite H" "card H \<le> 32" "list_all (event_ok k H) evs"
  shows "\<exists>t. run_events (pub_handle k) evs pub_handler_new = Inr t
    \<and> length (published_points l t) + length (handler_points l (handlers t)) + queued k l (raw_packet_queue t)
        = sum_list (map (received k l) evs)"
proof -
  have inv: "pub_inv k H pub_handler_new"
    by (simp add: pub_inv_def handlers_ok_def sorted_keys_def pub_handler_new_def)
  have "list_all (\<lambda>ev. finite H \<and> card H \<le> 32 \<and> event_ok k H ev) evs"
    using assms by (simp add: list_all_iff)
  from pub.run_ok [OF inv this] obtain t where t: "run_events (pub_handle k) evs pub_handler_new = Inr t"
    by blast
  have "total k l pub_handler_new = 0"
    by (simp add: total_def cloud_def published_points_def handler_points_def queued_def pub_handler_new_def)
  with pub_total [OF assms(1,2) inv assms(3) t, of l] t show ?thesis
    by (simp add: total_def cloud_def)
qed

text \<open>
  Points keep their order: what a step adds to the points of a LiDAR, published and waiting,
  comes after all the others; publishing a frame moves points from waiting to published and
  changes none.
\<close>

lemma pub_keeps_order:
  assumes "pub_inv k H s" "finite H" "card H \<le> 32" "event_ok k H ev" "pub_handle k ev s = Inr t"
  shows "\<exists>new. published_points l t @ handler_points l (handlers t)
     = published_points l s @ handler_points l (handlers s) @ new"
  using pub_step [of k H s ev] assms by (auto simp: cloud_def)

section \<open>Witnesses\<close>

definition demo_sdk :: sdk where
  "demo_sdk = \<lparr>high_points = (\<lambda>bs. map (\<lambda>b. \<lparr>raw_x = int (unat b), raw_y = 0, raw_z = 0, reflectivity = 0, raw_tag = 0\<rparr>) bs),
     low_points = (\<lambda>_. []), spher_points = (\<lambda>_. []), high_data = 1, low_data = 2, spher_data = 3,
     imu_type = 0, imu_point = (\<lambda>_. None)\<rparr>"

definition demo_eth :: eth_packet where
  "demo_eth = \<lparr>eth_dot_num = 2, eth_time_interval = 10, eth_data_type = 1, eth_time_type = 0,
     eth_timestamp = 0, eth_data = [5, 6]\<rparr>"

lemma demo_event_ok: "event_ok demo_sdk {7} (Receive 0 7 Mid360 demo_eth 100)"
  by (simp add: demo_sdk_def demo_eth_def)

theorem pub_conserves_points_witness:
  "\<exists>t. run_events (pub_handle demo_sdk) [Receive 0 7 Mid360 demo_eth 100, Process 5] pub_handler_new = Inr t
     \<and> length (published_points 7 t) + length (handler_points 7 (handlers t))
       + queued demo_sdk 7 (raw_packet_queue t) = 2"
proof -
  have "list_all (event_ok demo_sdk {7}) [Receive 0 7 Mid360 demo_eth 100, Process 5]"
    using demo_event_ok by simp
  moreover have "sum_list (map (received demo_sdk 7) [Receive 0 7 Mid360 demo_eth 100, Process 5]) = 2"
    by (simp add: demo_sdk_def demo_eth_def)
  ultimately show ?thesis
    using pub_conserves_points [of "{7}" demo_sdk "[Receive 0 7 Mid360 demo_eth 100, Process 5]" 7] by auto
qed

end
