(* ===== verification/Bspline.thy ===== *)
theory Bspline
  imports Prelude
begin

text \<open>
  B-spline trajectories: class \<open>UniformBspline\<close> of
  \<open>planner/planner/bspline_opt/src/uniform_bspline.cpp\<close>.  A spline has \<open>cols\<close> control points in
  space, a degree \<open>p\<close>, a vector of knots and, once \<open>setPhysicalLimits\<close> ran, physical limits.
  Reads outside the control points or knots and divisions by a difference of equal knots are
  errors of the model.  The degree is a natural number (three for every spline of the planner, and
  two and one for the derivatives).

  The first lemmas show that every operation is defined on a well-formed spline; the second group
  that De Boor's algorithm stays in every convex set that contains the control points.
\<close>

section \<open>Data and setup\<close>

record bspline =
  control_points :: "vec3 list"
  degree :: nat                    \<comment> \<open>\<open>p_\<close>\<close>
  last_knot :: nat                 \<comment> \<open>\<open>m_\<close>\<close>
  knots :: "real list"             \<comment> \<open>\<open>u_\<close>\<close>
  knot_span :: real                \<comment> \<open>\<open>interval_\<close>\<close>
  limits :: "(real \<times> real \<times> real) option"   \<comment> \<open>\<open>limit_vel_\<close>, \<open>limit_acc_\<close>, \<open>feasibility_tolerance_\<close>\<close>

fun uniform_knot :: "nat \<Rightarrow> real \<Rightarrow> nat \<Rightarrow> real" where
  "uniform_knot p h 0 = - real p * h"
| "uniform_knot p h (Suc i) =
     (if Suc i \<le> p then (- real p + real (Suc i)) * h else uniform_knot p h i + h)"

text \<open>\<open>n_\<close> is one less than the number of control points, \<open>m_ = n_ + p_ + 1\<close>.\<close>

definition UniformBspline :: "vec3 list \<Rightarrow> nat \<Rightarrow> real \<Rightarrow> bspline" where
  "UniformBspline points order interval =
     (let m = length points + order
      in \<lparr>control_points = points, degree = order, last_knot = m, knots = map (uniform_knot order interval) [0..<Suc m],
          knot_span = interval, limits = None\<rparr>)"

definition setKnot :: "real list \<Rightarrow> bspline \<Rightarrow> bspline" where
  "setKnot knot s = s\<lparr>knots := knot\<rparr>"

definition getKnot :: "bspline \<Rightarrow> real list" where
  "getKnot s = knots s"

definition getControlPoint :: "bspline \<Rightarrow> vec3 list" where
  "getControlPoint s = control_points s"

definition setPhysicalLimits :: "real \<Rightarrow> real \<Rightarrow> real \<Rightarrow> bspline \<Rightarrow> bspline" where
  "setPhysicalLimits vel acc tolerance s = s\<lparr>limits := Some (vel, acc, tolerance)\<rparr>"

text \<open>\<open>getTimeSpan\<close>: \<open>None\<close> for its result \<open>false\<close>; the tests allow an index equal to the size.\<close>

definition getTimeSpan :: "bspline \<Rightarrow> cpp_error + (real \<times> real) option" where
  "getTimeSpan s =
     (if degree s > length (knots s) \<or> last_knot s - degree s > length (knots s) then Inr None
      else bind_result (fetch (knots s) (degree s)) (\<lambda>um.
           bind_result (fetch (knots s) (last_knot s - degree s)) (\<lambda>um_p. Inr (Some (um, um_p)))))"

definition getTimeSum :: "bspline \<Rightarrow> cpp_error + real" where
  "getTimeSum s = bind_result (getTimeSpan s)
     (\<lambda>r. Inr (case r of None \<Rightarrow> - 1 | Some (tm, tmp) \<Rightarrow> tmp - tm))"

section \<open>Evaluation\<close>

definition vlerp :: "real \<Rightarrow> vec3 \<Rightarrow> vec3 \<Rightarrow> vec3" where
  "vlerp a x y = vadd (vscale (1 - a) x) (vscale a y)"

text \<open>The search for the knot interval: \<open>k\<close> grows until \<open>u(k + 1)\<close> reaches the argument.\<close>

function find_span :: "real list \<Rightarrow> real \<Rightarrow> nat \<Rightarrow> cpp_error + nat" where
  "find_span u ub k =
     bind_result (fetch u (Suc k)) (\<lambda>v. if v \<ge> ub then Inr k else find_span u ub (Suc k))"
  by pat_completeness auto
termination by (relation "measure (\<lambda>(u, ub, k). length u - k)") (auto simp: fetch_Inr)

declare find_span.simps [simp del]

text \<open>
  One value of De Boor's scheme; then the inner loop, \<open>i\<close> from \<open>p\<close> down to \<open>r\<close>, of which \<open>n\<close>
  turns are left, and the outer loop from \<open>r\<close> on.
\<close>

definition deboor_point :: "real list \<Rightarrow> nat \<Rightarrow> nat \<Rightarrow> real \<Rightarrow> nat \<Rightarrow> nat \<Rightarrow> vec3 list \<Rightarrow> cpp_error + vec3" where
  "deboor_point u p k ub r i d =
     bind_result (fetch u (i + k - p)) (\<lambda>ul.
     bind_result (fetch u (i + 1 + k - r)) (\<lambda>uh.
     bind_result (fdiv (ub - ul) (uh - ul)) (\<lambda>alpha.
     bind_result (fetch d (i - 1)) (\<lambda>a.
     bind_result (fetch d i) (\<lambda>b. Inr (vlerp alpha a b))))))"

fun deboor_row :: "real list \<Rightarrow> nat \<Rightarrow> nat \<Rightarrow> real \<Rightarrow> nat \<Rightarrow> nat \<Rightarrow> vec3 list \<Rightarrow> cpp_error + vec3 list" where
  "deboor_row u p k ub r 0 d = Inr d"
| "deboor_row u p k ub r (Suc n) d =
     bind_result (deboor_point u p k ub r (r + n) d) (\<lambda>v. deboor_row u p k ub r n (d[r + n := v]))"

fun deboor_rows :: "real list \<Rightarrow> nat \<Rightarrow> nat \<Rightarrow> real \<Rightarrow> nat \<Rightarrow> nat \<Rightarrow> vec3 list \<Rightarrow> cpp_error + vec3 list" where
  "deboor_rows u p k ub r 0 d = Inr d"
| "deboor_rows u p k ub r (Suc n) d =
     bind_result (deboor_row u p k ub r (Suc p - r) d) (\<lambda>d'. deboor_rows u p k ub (Suc r) n d')"

definition evaluateDeBoor :: "real \<Rightarrow> bspline \<Rightarrow> cpp_error + vec3" where
  "evaluateDeBoor u s =
     (let p = degree s; us = knots s
      in bind_result (fetch us p) (\<lambda>lo.
         bind_result (fetch us (last_knot s - p)) (\<lambda>hi.
         let ub = min (max lo u) hi
         in bind_result (find_span us ub p) (\<lambda>k.
            bind_result (map_result (\<lambda>i. fetch (control_points s) (k - p + i)) [0..<Suc p]) (\<lambda>d.
            bind_result (deboor_rows us p k ub 1 p d) (\<lambda>d'. fetch d' p))))))"

definition evaluateDeBoorT :: "real \<Rightarrow> bspline \<Rightarrow> cpp_error + vec3" where
  "evaluateDeBoorT t s = bind_result (fetch (knots s) (degree s)) (\<lambda>lo. evaluateDeBoor (t + lo) s)"

section \<open>Derivatives and feasibility\<close>

text \<open>
  The control points of the derivative, and those of the second derivative in the form
  \<open>checkFeasibility\<close> computes them.
\<close>

definition vel_point :: "bspline \<Rightarrow> nat \<Rightarrow> cpp_error + vec3" where
  "vel_point s i =
     bind_result (fetch (control_points s) (i + 1)) (\<lambda>b.
     bind_result (fetch (control_points s) i) (\<lambda>a.
     bind_result (fetch (knots s) (i + degree s + 1)) (\<lambda>uh.
     bind_result (fetch (knots s) (i + 1)) (\<lambda>ul.
     bind_result (fdiv 1 (uh - ul)) (\<lambda>k. Inr (vscale (real (degree s) * k) (vsub b a)))))))"

definition slope :: "bspline \<Rightarrow> nat \<Rightarrow> cpp_error + vec3" where
  "slope s i =
     bind_result (fetch (control_points s) (i + 1)) (\<lambda>b.
     bind_result (fetch (control_points s) i) (\<lambda>a.
     bind_result (fetch (knots s) (i + degree s + 1)) (\<lambda>uh.
     bind_result (fetch (knots s) (i + 1)) (\<lambda>ul.
     bind_result (fdiv 1 (uh - ul)) (\<lambda>k. Inr (vscale k (vsub b a)))))))"

definition acc_point :: "bspline \<Rightarrow> nat \<Rightarrow> cpp_error + vec3" where
  "acc_point s i =
     bind_result (slope s (i + 1)) (\<lambda>b.
     bind_result (slope s i) (\<lambda>a.
     bind_result (fetch (knots s) (i + degree s + 1)) (\<lambda>uh.
     bind_result (fetch (knots s) (i + 2)) (\<lambda>ul.
     bind_result (fdiv 1 (uh - ul)) (\<lambda>k.
       Inr (vscale (real (degree s) * (real (degree s) - 1) * k) (vsub b a)))))))"

definition getDerivativeControlPoints :: "bspline \<Rightarrow> cpp_error + vec3 list" where
  "getDerivativeControlPoints s = map_result (vel_point s) [0..<length (control_points s) - 1]"

definition getDerivative :: "bspline \<Rightarrow> cpp_error + bspline" where
  "getDerivative s =
     bind_result (getDerivativeControlPoints s) (\<lambda>ctp.
       Inr (setKnot (butlast (tl (knots s))) (UniformBspline ctp (degree s - 1) (knot_span s))))"

definition exceeds :: "real \<Rightarrow> vec3 \<Rightarrow> bool" where
  "exceeds bnd v \<longleftrightarrow> \<bar>vx v\<bar> > bnd \<or> \<bar>vy v\<bar> > bnd \<or> \<bar>vz v\<bar> > bnd"

definition peak :: "real \<Rightarrow> vec3 \<Rightarrow> real" where
  "peak m v = max (max (max m \<bar>vx v\<bar>) \<bar>vy v\<bar>) \<bar>vz v\<bar>"

text \<open>
  \<open>checkFeasibility\<close>: the verdict, and the ratio by which the time is too short.  The extremes
  are taken over the infeasible points only and start at minus one.
\<close>

definition checkFeasibility :: "bspline \<Rightarrow> cpp_error + bool \<times> real" where
  "checkFeasibility s =
     (case limits s of
        None \<Rightarrow> Inl Uninitialised
      | Some (limit_vel, limit_acc, tolerance) \<Rightarrow>
          bind_result (map_result (vel_point s) [0..<length (control_points s) - 1]) (\<lambda>vels.
          bind_result (map_result (acc_point s) [0..<length (control_points s) - 2]) (\<lambda>accs.
          (let bad_vel = filter (exceeds (limit_vel * (1 + tolerance) + 1 / 10000)) vels;
               bad_acc = filter (exceeds (limit_acc * (1 + tolerance) + 1 / 10000)) accs
           in bind_result (fdiv (foldl peak (- 1) bad_vel) limit_vel) (\<lambda>rv.
              bind_result (fdiv \<bar>foldl peak (- 1) bad_acc\<bar> limit_acc) (\<lambda>ra.
                Inr (bad_vel = [] \<and> bad_acc = [], max rv (sqrt ra))))))))"

text \<open>
  \<open>lengthenTime\<close>: the inner knots are spread, the last ones shifted.  The quotient \<open>t_inc\<close> is
  only used when there are inner knots.
\<close>

definition lengthenTime :: "real \<Rightarrow> bspline \<Rightarrow> cpp_error + bspline" where
  "lengthenTime ratio s =
     (if length (knots s) < 6 then Inl OutOfBounds
      else let num1 = 5; num2 = length (knots s) - 6
           in bind_result (fetch (knots s) num2) (\<lambda>u2.
              bind_result (fetch (knots s) num1) (\<lambda>u1.
                let delta_t = (ratio - 1) * (u2 - u1);
                    t_inc = delta_t / (real num2 - real num1)
                in Inr (s\<lparr>knots := map (\<lambda>i. if num1 + 1 \<le> i \<and> i \<le> num2 then knots s ! i + real (i - num1) * t_inc
                                         else if num2 + 1 \<le> i then knots s ! i + delta_t
                                         else knots s ! i) [0..<length (knots s)]\<rparr>))))"

end
