(* ===== verification/BsplineProps.thy ===== *)
theory BsplineProps
  imports Bspline
begin

text \<open>
  What the splines of \<open>Bspline\<close> promise.  \<open>well_knotted\<close> is the well-formedness of a
  spline: enough control points and knots, the knots strictly increasing.  On such a spline
  evaluation, derivatives and the feasibility test are total; the value of a spline lies in every
  convex set that contains its control points, which carries bounds on control points over to
  every instant.
\<close>

section \<open>Well-formed splines\<close>

definition well_knotted :: "bspline \<Rightarrow> bool" where
  "well_knotted s \<longleftrightarrow> degree s < length (control_points s)
     \<and> last_knot s = length (control_points s) + degree s
     \<and> length (knots s) = Suc (last_knot s) \<and> sorted_wrt (<) (knots s)"

lemma uniform_knot_eq: "uniform_knot p h i = (real i - real p) * h"
  by (induction i) (auto simp: algebra_simps)

lemma uniform_well_knotted:
  assumes "0 < h" "p < length pts"
  shows "well_knotted (UniformBspline pts p h)"
proof -
  have "sorted_wrt (<) (map (uniform_knot p h) [0..<n])" for n
    using assms(1) by (simp add: sorted_wrt_iff_nth_less uniform_knot_eq)
  then show ?thesis
    using assms(2) by (simp add: well_knotted_def UniformBspline_def Let_def del: upt_Suc)
qed

lemma knot_less: "well_knotted s \<Longrightarrow> i < j \<Longrightarrow> j < length (knots s) \<Longrightarrow> knots s ! i < knots s ! j"
  by (simp add: well_knotted_def sorted_wrt_iff_nth_less)

lemma knot_le:
  assumes "well_knotted s" "i \<le> j" "j < length (knots s)"
  shows "knots s ! i \<le> knots s ! j"
proof (cases "i = j")
  case False
  with assms knot_less [of s i j] show ?thesis by simp
qed simp

section \<open>The knot interval\<close>

text \<open>The search ends no later than at a knot that reaches the argument.\<close>

lemma find_span_ok:
  assumes "Suc j < length u" "ub \<le> u ! Suc j" "k \<le> j"
  shows "\<exists>k'. find_span u ub k = Inr k' \<and> k \<le> k' \<and> k' \<le> j \<and> ub \<le> u ! Suc k' \<and> (k < k' \<longrightarrow> u ! k' < ub)"
  using assms(3)
proof (induction "j - k" arbitrary: k)
  case 0
  with assms show ?case by (subst find_span.simps) simp
next
  case (Suc d)
  show ?case
  proof (cases "u ! Suc k \<ge> ub")
    case True
    with Suc.prems assms(1) show ?thesis by (subst find_span.simps) simp
  next
    case False
    with Suc.prems assms(2) have "Suc k \<le> j" by (metis antisym_conv2 le_imp_less_Suc less_Suc_eq_le not_less)
    moreover have "d = j - Suc k" using Suc.hyps(2) by simp
    ultimately obtain k' where "find_span u ub (Suc k) = Inr k'" "Suc k \<le> k'" "k' \<le> j"
      "ub \<le> u ! Suc k'" "Suc k < k' \<longrightarrow> u ! k' < ub"
      using Suc.hyps(1) [of "Suc k"] by blast
    with False Suc.prems assms(1) show ?thesis
      by (subst find_span.simps) (auto simp: le_Suc_eq)
  qed
qed

section \<open>Convex sets\<close>

definition convex_set :: "vec3 set \<Rightarrow> bool" where
  "convex_set S \<longleftrightarrow> (\<forall>a x y. 0 \<le> a \<and> a \<le> 1 \<and> x \<in> S \<and> y \<in> S \<longrightarrow> vlerp a x y \<in> S)"

lemma convex_setD: "convex_set S \<Longrightarrow> 0 \<le> a \<Longrightarrow> a \<le> 1 \<Longrightarrow> x \<in> S \<Longrightarrow> y \<in> S \<Longrightarrow> vlerp a x y \<in> S"
  by (simp add: convex_set_def)

lemma vlerp_sel [simp]:
  "vx (vlerp a x y) = (1 - a) * vx x + a * vx y" "vy (vlerp a x y) = (1 - a) * vy x + a * vy y"
  "vz (vlerp a x y) = (1 - a) * vz x + a * vz y"
  by (simp_all add: vlerp_def)

lemma vlerp_self [simp]: "vlerp a x x = x"
  by (rule vec3.expand) (simp add: algebra_simps)

lemma lerp_abs: "0 \<le> a \<Longrightarrow> a \<le> 1 \<Longrightarrow> \<bar>x\<bar> \<le> b \<Longrightarrow> \<bar>y\<bar> \<le> b \<Longrightarrow> \<bar>(1 - a) * x + a * y\<bar> \<le> (b :: real)"
proof -
  assume a: "0 \<le> a" "a \<le> 1" and b: "\<bar>x\<bar> \<le> b" "\<bar>y\<bar> \<le> b"
  have "\<bar>(1 - a) * x + a * y\<bar> \<le> (1 - a) * \<bar>x\<bar> + a * \<bar>y\<bar>"
    using a by (metis abs_mult abs_of_nonneg abs_triangle_ineq diff_ge_0_iff_ge)
  also have "\<dots> \<le> (1 - a) * b + a * b"
    using a b by (intro add_mono mult_left_mono) simp_all
  also have "\<dots> = b" by (simp add: algebra_simps)
  finally show ?thesis .
qed

lemma convex_box: "convex_set {v. \<not> exceeds b v}"
  by (auto simp: convex_set_def exceeds_def not_less lerp_abs)

lemma convex_point: "convex_set {c}"
  by (simp add: convex_set_def)

lemma convex_half_space:
  "convex_set {v. a * vx v + b * vy v + c * vz v \<le> d}"
proof -
  have "a * vx (vlerp k x y) + b * vy (vlerp k x y) + c * vz (vlerp k x y) \<le> d"
    if k: "0 \<le> k" "k \<le> 1" and x: "a * vx x + b * vy x + c * vz x \<le> d"
      and y: "a * vx y + b * vy y + c * vz y \<le> d" for k x y
  proof -
    have "a * vx (vlerp k x y) + b * vy (vlerp k x y) + c * vz (vlerp k x y)
      = (1 - k) * (a * vx x + b * vy x + c * vz x) + k * (a * vx y + b * vy y + c * vz y)"
      by (simp add: algebra_simps)
    also have "\<dots> \<le> (1 - k) * d + k * d"
      using k x y by (intro add_mono mult_left_mono) simp_all
    finally show ?thesis by (simp add: algebra_simps)
  qed
  then show ?thesis by (auto simp: convex_set_def)
qed

section \<open>De Boor's algorithm\<close>

text \<open>The argument lies between the knots \<open>k\<close> and \<open>k + 1\<close>.\<close>

definition at_span :: "bspline \<Rightarrow> nat \<Rightarrow> real \<Rightarrow> bool" where
  "at_span s k ub \<longleftrightarrow> degree s \<le> k \<and> k < length (control_points s)
     \<and> knots s ! k \<le> ub \<and> ub \<le> knots s ! Suc k"

lemma deboor_point_in:
  assumes s: "well_knotted s" and k: "at_span s k ub" and r: "1 \<le> r" "r \<le> i" "i \<le> degree s"
    and d: "length d = Suc (degree s)" "set d \<subseteq> S" and S: "convex_set S"
  shows "\<exists>v. deboor_point (knots s) (degree s) k ub r i d = Inr v \<and> v \<in> S"
proof -
  let ?l = "i + k - degree s" and ?h = "i + 1 + k - r"
  have len: "length (knots s) = Suc (length (control_points s) + degree s)"
    using s by (simp add: well_knotted_def)
  have idx: "?l \<le> k" "Suc k \<le> ?h" "?h < length (knots s)" "?l < ?h"
    using k r len by (auto simp: at_span_def)
  have lo: "knots s ! ?l \<le> ub"
    using knot_le [OF s idx(1)] k len by (auto simp: at_span_def)
  have hi: "ub \<le> knots s ! ?h"
    using knot_le [OF s idx(2,3)] k by (auto simp: at_span_def)
  have lh: "knots s ! ?l < knots s ! ?h" using knot_less [OF s idx(4,3)] .
  define al where "al = (ub - knots s ! ?l) / (knots s ! ?h - knots s ! ?l)"
  have al: "0 \<le> al" "al \<le> 1" using lo hi lh by (simp_all add: al_def)
  have mem: "d ! (i - 1) \<in> S" "d ! i \<in> S" using d r by (auto simp: subset_iff)
  have "deboor_point (knots s) (degree s) k ub r i d = Inr (vlerp al (d ! (i - 1)) (d ! i))"
    using idx r d(1) lh by (simp add: deboor_point_def al_def)
  then show ?thesis using convex_setD [OF S al mem] by blast
qed

lemma deboor_row_in:
  assumes s: "well_knotted s" and k: "at_span s k ub" and S: "convex_set S" and r: "1 \<le> r"
  shows "length d = Suc (degree s) \<Longrightarrow> set d \<subseteq> S \<Longrightarrow> r + n \<le> Suc (degree s) \<Longrightarrow>
    \<exists>d'. deboor_row (knots s) (degree s) k ub r n d = Inr d' \<and> length d' = Suc (degree s) \<and> set d' \<subseteq> S"
proof (induction n arbitrary: d)
  case (Suc n)
  from Suc.prems r obtain v where v: "deboor_point (knots s) (degree s) k ub r (r + n) d = Inr v" "v \<in> S"
    using deboor_point_in [OF s k r _ _ _ _ S, of "r + n" d] by auto
  have "set (d[r + n := v]) \<subseteq> S" using Suc.prems(2) v(2) by (metis insert_subset order_trans set_update_subset_insert)
  with Suc.IH [of "d[r + n := v]"] Suc.prems v(1) show ?case by auto
qed simp

lemma deboor_rows_in:
  assumes s: "well_knotted s" and k: "at_span s k ub" and S: "convex_set S"
  shows "1 \<le> r \<Longrightarrow> length d = Suc (degree s) \<Longrightarrow> set d \<subseteq> S \<Longrightarrow> r + n = Suc (degree s) \<Longrightarrow>
    \<exists>d'. deboor_rows (knots s) (degree s) k ub r n d = Inr d' \<and> length d' = Suc (degree s) \<and> set d' \<subseteq> S"
proof (induction n arbitrary: r d)
  case (Suc n)
  from Suc.prems obtain d1 where d1: "deboor_row (knots s) (degree s) k ub r (Suc (degree s) - r) d = Inr d1"
    "length d1 = Suc (degree s)" "set d1 \<subseteq> S"
    using deboor_row_in [OF s k S, of r d "Suc (degree s) - r"] by auto
  with Suc.IH [of "Suc r" d1] Suc.prems show ?case by auto
qed simp

text \<open>The interval that the search finds.\<close>

lemma span_of:
  assumes s: "well_knotted s"
  defines "lo \<equiv> knots s ! degree s" and "hi \<equiv> knots s ! (last_knot s - degree s)"
  shows "\<exists>k. find_span (knots s) (min (max lo u) hi) (degree s) = Inr k \<and> at_span s k (min (max lo u) hi)"
proof -
  let ?ub = "min (max lo u) hi" and ?j = "length (control_points s) - 1"
  have len: "length (knots s) = Suc (length (control_points s) + degree s)"
    and cols: "degree s < length (control_points s)"
    and m: "last_knot s - degree s = length (control_points s)"
    using s by (simp_all add: well_knotted_def)
  have j: "Suc ?j < length (knots s)" "Suc ?j = length (control_points s)" "degree s \<le> ?j"
    using len cols by simp_all
  have "lo \<le> hi" unfolding lo_def hi_def using knot_le [OF s] m cols len by simp
  then have ge: "lo \<le> ?ub" by simp
  have le: "?ub \<le> knots s ! Suc ?j" using j(2) m by (simp add: hi_def)
  from find_span_ok [OF j(1) le j(3)] obtain k where
    k: "find_span (knots s) ?ub (degree s) = Inr k" "degree s \<le> k" "k \<le> ?j" "?ub \<le> knots s ! Suc k"
      "degree s < k \<longrightarrow> knots s ! k < ?ub" by blast
  have "knots s ! k \<le> ?ub"
    using k(2,5) ge unfolding lo_def by (cases "degree s = k") auto
  with k j show ?thesis by (auto simp: at_span_def)
qed

lemma evaluateDeBoor_in:
  assumes s: "well_knotted s" and S: "convex_set S" "set (control_points s) \<subseteq> S"
  shows "\<exists>v. evaluateDeBoor u s = Inr v \<and> v \<in> S"
proof -
  let ?p = "degree s" and ?lo = "knots s ! degree s" and ?hi = "knots s ! (last_knot s - degree s)"
  let ?ub = "min (max ?lo u) ?hi"
  have len: "length (knots s) = Suc (last_knot s)" "?p < last_knot s"
    using s by (auto simp: well_knotted_def)
  obtain k where k: "find_span (knots s) ?ub ?p = Inr k" "at_span s k ?ub"
    using span_of [OF s] by blast
  let ?d = "map (\<lambda>i. control_points s ! (k - ?p + i)) [0..<Suc ?p]"
  have d: "map_result (\<lambda>i. fetch (control_points s) (k - ?p + i)) [0..<Suc ?p] = Inr ?d"
    using k(2) by (intro map_result_ok fetch_ok) (auto simp: at_span_def)
  have dS: "length ?d = Suc ?p" "set ?d \<subseteq> S"
    using k(2) S(2) by (auto simp: at_span_def subset_iff)
  obtain d' where d': "deboor_rows (knots s) ?p k ?ub 1 ?p ?d = Inr d'" "length d' = Suc ?p" "set d' \<subseteq> S"
    using deboor_rows_in [OF s k(2) S(1) _ dS, of 1 ?p] by auto
  then have "d' ! ?p \<in> S" by (auto simp: subset_iff)
  with d' d k len show ?thesis by (simp add: evaluateDeBoor_def Let_def del: upt_Suc)
qed

lemma evaluateDeBoorT_in:
  assumes s: "well_knotted s" and S: "convex_set S" "set (control_points s) \<subseteq> S"
  shows "\<exists>v. evaluateDeBoorT t s = Inr v \<and> v \<in> S"
proof -
  have "degree s < length (knots s)" using s by (simp add: well_knotted_def)
  then show ?thesis using evaluateDeBoor_in [OF assms] by (simp add: evaluateDeBoorT_def)
qed

text \<open>
  Evaluation of a well-formed spline is defined at every time, and the value lies in every
  convex set that contains the control points.
\<close>

lemma evaluateDeBoor_hull:
  assumes "well_knotted s" "convex_set S" "set (control_points s) \<subseteq> S"
  shows "\<exists>v. evaluateDeBoor u s = Inr v \<and> v \<in> S"
  by (rule evaluateDeBoor_in [OF assms])

section \<open>Derivatives\<close>

lemma vel_point_ok:
  assumes s: "well_knotted s" and i: "i + 1 < length (control_points s)" and p: "1 \<le> degree s"
  shows "vel_point s i = Inr (vscale (real (degree s) / (knots s ! (i + degree s + 1) - knots s ! (i + 1)))
    (vsub (control_points s ! (i + 1)) (control_points s ! i)))"
proof -
  have idx: "i + 1 < i + degree s + 1" "i + degree s + 1 < length (knots s)"
    using s i p by (auto simp: well_knotted_def)
  from knot_less [OF s this] i idx show ?thesis by (simp add: vel_point_def)
qed

lemma slope_ok:
  assumes s: "well_knotted s" and i: "i + 1 < length (control_points s)" and p: "1 \<le> degree s"
  shows "slope s i = Inr (vscale (1 / (knots s ! (i + degree s + 1) - knots s ! (i + 1)))
    (vsub (control_points s ! (i + 1)) (control_points s ! i)))"
proof -
  have idx: "i + 1 < i + degree s + 1" "i + degree s + 1 < length (knots s)"
    using s i p by (auto simp: well_knotted_def)
  from knot_less [OF s this] i idx show ?thesis by (simp add: slope_def)
qed

definition vel_of :: "bspline \<Rightarrow> nat \<Rightarrow> vec3" where
  "vel_of s i = vscale (real (degree s) / (knots s ! (i + degree s + 1) - knots s ! (i + 1)))
    (vsub (control_points s ! (i + 1)) (control_points s ! i))"

lemma getDerivative_ok:
  assumes s: "well_knotted s" and p: "1 \<le> degree s"
  shows "\<exists>d. getDerivative s = Inr d \<and> well_knotted d \<and> degree d = degree s - 1
    \<and> control_points d = map (vel_of s) [0..<length (control_points s) - 1]
    \<and> knots d = butlast (tl (knots s))"
proof -
  let ?q = "map (vel_of s) [0..<length (control_points s) - 1]"
  have q: "getDerivativeControlPoints s = Inr ?q"
    unfolding getDerivativeControlPoints_def vel_of_def
    using s p by (intro map_result_ok vel_point_ok) auto
  have "sorted_wrt (<) (butlast (tl (knots s)))"
    using s by (metis well_knotted_def sorted_wrt_drop sorted_wrt_take butlast_conv_take drop_Suc drop_0)
  moreover have "length (butlast (tl (knots s))) = Suc (length ?q + (degree s - 1))"
    using s p by (auto simp: well_knotted_def)
  moreover have "degree s - 1 < length ?q" using s p by (auto simp: well_knotted_def)
  ultimately show ?thesis
    by (simp add: getDerivative_def q setKnot_def UniformBspline_def Let_def well_knotted_def)
qed

lemma getDerivative_knots:
  assumes "getDerivative s = Inr d" "well_knotted s" "Suc (Suc i) < length (knots s)"
  shows "knots d ! i = knots s ! Suc i"
  using assms by (auto simp: getDerivative_def setKnot_def nth_butlast nth_tl)

text \<open>
  The acceleration points of the feasibility test are the control points of the second derivative.
\<close>

lemma acc_point_derivative:
  assumes s: "well_knotted s" and p: "2 \<le> degree s" and d: "getDerivative s = Inr d"
    and i: "i + 2 < length (control_points s)"
  shows "acc_point s i = Inr (vel_of d i)"
proof -
  have d': "degree d = degree s - 1" "control_points d = map (vel_of s) [0..<length (control_points s) - 1]"
    "well_knotted d"
    using getDerivative_ok [OF s] p d by auto
  have sl: "slope s i = Inr (vscale (1 / (knots s ! (i + degree s + 1) - knots s ! (i + 1)))
      (vsub (control_points s ! (i + 1)) (control_points s ! i)))"
    "slope s (i + 1) = Inr (vscale (1 / (knots s ! (i + 1 + degree s + 1) - knots s ! (i + 1 + 1)))
      (vsub (control_points s ! (i + 1 + 1)) (control_points s ! (i + 1))))"
    using slope_ok [OF s, of i] slope_ok [OF s, of "i + 1"] i p by simp_all
  have len: "i + degree s + 2 < length (knots s)" using s i by (simp add: well_knotted_def)
  have lt: "knots s ! (i + 2) < knots s ! (i + degree s + 1)"
    using knot_less [OF s, of "i + 2" "i + degree s + 1"] len p by simp
  have kd: "knots d ! (i + (degree s - 1) + 1) = knots s ! (i + degree s + 1)" "knots d ! (i + 1) = knots s ! (i + 2)"
    using getDerivative_knots [OF d s, of "i + (degree s - 1) + 1"] getDerivative_knots [OF d s, of "i + 1"] len p
    by simp_all
  have cp: "control_points d ! i = vel_of s i" "control_points d ! (i + 1) = vel_of s (i + 1)"
    using d'(2) i by simp_all
  have "acc_point s i = Inr (vscale (real (degree s) * (real (degree s) - 1) *
      (1 / (knots s ! (i + degree s + 1) - knots s ! (i + 2))))
      (vsub (vscale (1 / (knots s ! (i + 1 + degree s + 1) - knots s ! (i + 1 + 1)))
         (vsub (control_points s ! (i + 1 + 1)) (control_points s ! (i + 1))))
       (vscale (1 / (knots s ! (i + degree s + 1) - knots s ! (i + 1)))
         (vsub (control_points s ! (i + 1)) (control_points s ! i)))))"
    using sl len lt by (simp add: acc_point_def)
  also have "\<dots> = Inr (vel_of d i)"
    unfolding vel_of_def [of d] cp kd d'(1)
    using p by (auto intro!: vec3.expand simp: vel_of_def of_nat_diff)
       (simp_all add: right_diff_distrib)
  finally show ?thesis .
qed

section \<open>Feasibility\<close>

lemma feasible_points:
  assumes s: "well_knotted s" and p: "2 \<le> degree s" and l: "limits s = Some (v, a, tol)"
    and f: "checkFeasibility s = Inr (True, ratio)" and d: "getDerivative s = Inr d"
  shows "\<forall>c \<in> set (control_points d). \<not> exceeds (v * (1 + tol) + 1 / 10000) c"
    "\<forall>i. i + 2 < length (control_points s) \<longrightarrow> \<not> exceeds (a * (1 + tol) + 1 / 10000) (vel_of d i)"
proof -
  from f l obtain vels accs where
    va: "map_result (vel_point s) [0..<length (control_points s) - 1] = Inr vels"
      "map_result (acc_point s) [0..<length (control_points s) - 2] = Inr accs"
      "filter (exceeds (v * (1 + tol) + 1 / 10000)) vels = []"
      "filter (exceeds (a * (1 + tol) + 1 / 10000)) accs = []"
    by (auto simp: checkFeasibility_def Let_def)
  have "control_points d = vels"
    using va(1) d by (auto simp: getDerivative_def getDerivativeControlPoints_def setKnot_def UniformBspline_def Let_def)
  with va(3) show "\<forall>c \<in> set (control_points d). \<not> exceeds (v * (1 + tol) + 1 / 10000) c"
    by (simp add: filter_empty_conv)
  have "accs = map (vel_of d) [0..<length (control_points s) - 2]"
    using va(2) map_result_ok [of "[0..<length (control_points s) - 2]" "acc_point s" "vel_of d"]
      acc_point_derivative [OF s p d] by auto
  with va(4) show "\<forall>i. i + 2 < length (control_points s) \<longrightarrow> \<not> exceeds (a * (1 + tol) + 1 / 10000) (vel_of d i)"
    by (auto simp: filter_empty_conv)
qed

lemma feasible_everywhere:
  assumes s: "well_knotted s" and p: "2 \<le> degree s" and l: "limits s = Some (v, a, tol)"
    and f: "checkFeasibility s = Inr (True, ratio)"
  shows "\<exists>d dd. getDerivative s = Inr d \<and> getDerivative d = Inr dd
    \<and> (\<forall>t. \<exists>x. evaluateDeBoorT t d = Inr x \<and> \<not> exceeds (v * (1 + tol) + 1 / 10000) x)
    \<and> (\<forall>t. \<exists>x. evaluateDeBoorT t dd = Inr x \<and> \<not> exceeds (a * (1 + tol) + 1 / 10000) x)"
proof -
  obtain d where d: "getDerivative s = Inr d" "well_knotted d" "degree d = degree s - 1"
      "control_points d = map (vel_of s) [0..<length (control_points s) - 1]"
    using getDerivative_ok [OF s] p by auto
  obtain dd where dd: "getDerivative d = Inr dd" "well_knotted dd"
      "control_points dd = map (vel_of d) [0..<length (control_points d) - 1]"
    using getDerivative_ok [OF d(2)] d(3) p by fastforce
  note pts = feasible_points [OF s p l f d(1)]
  have "set (control_points d) \<subseteq> {x. \<not> exceeds (v * (1 + tol) + 1 / 10000) x}" using pts(1) by auto
  moreover have "set (control_points dd) \<subseteq> {x. \<not> exceeds (a * (1 + tol) + 1 / 10000) x}"
    using pts(2) dd(3) d(4) by auto
  ultimately show ?thesis
    using evaluateDeBoorT_in [OF d(2) convex_box] evaluateDeBoorT_in [OF dd(2) convex_box] d(1) dd(1)
    by (metis mem_Collect_eq)
qed

text \<open>
  C13: a spline that passes \<open>checkFeasibility\<close> is feasible at every instant, not only at the points
  the test looks at: its velocity and acceleration splines exist, can be evaluated at every time,
  and no component of their value exceeds the enlarged limits.
\<close>

theorem spline_feasible:
  assumes "well_knotted s" "2 \<le> degree s" "limits s = Some (v, a, tol)"
    and "checkFeasibility s = Inr (True, ratio)"
  shows "\<exists>d dd. getDerivative s = Inr d \<and> getDerivative d = Inr dd
    \<and> (\<exists>x. evaluateDeBoorT t d = Inr x \<and> \<not> exceeds (v * (1 + tol) + 1 / 10000) x)
    \<and> (\<exists>x. evaluateDeBoorT t dd = Inr x \<and> \<not> exceeds (a * (1 + tol) + 1 / 10000) x)"
  using feasible_everywhere [OF assms] by blast

end
