(* ===== verification/BsplineDerivative.thy ===== *)
theory BsplineDerivative
  imports BsplineProps
begin

text \<open>
  De Boor's algorithm of \<open>Bspline\<close> against a reference.  \<open>deboor_ref\<close> is the recursion of
  De Boor written for one coordinate, without arrays; the loops of the code, which overwrite one
  array in place from the top, compute it.  On the reference, the spline that
  \<open>getDerivative\<close> builds is shown to be the derivative with respect to time.
\<close>

section \<open>The reference recursion\<close>

fun deboor_ref :: "(nat \<Rightarrow> real) \<Rightarrow> (nat \<Rightarrow> real) \<Rightarrow> nat \<Rightarrow> nat \<Rightarrow> nat \<Rightarrow> real \<Rightarrow> real" where
  "deboor_ref u c p 0 j t = c j"
| "deboor_ref u c p (Suc r) j t =
     (let al = (t - u j) / (u (j + p - r) - u j)
      in (1 - al) * deboor_ref u c p r (j - 1) t + al * deboor_ref u c p r j t)"

definition ref_point :: "bspline \<Rightarrow> nat \<Rightarrow> nat \<Rightarrow> real \<Rightarrow> vec3" where
  "ref_point s r j t =
     Vec3 (deboor_ref (nth (knots s)) (\<lambda>i. vx (control_points s ! i)) (degree s) r j t)
          (deboor_ref (nth (knots s)) (\<lambda>i. vy (control_points s ! i)) (degree s) r j t)
          (deboor_ref (nth (knots s)) (\<lambda>i. vz (control_points s ! i)) (degree s) r j t)"

lemma ref_point_Suc:
  "ref_point s (Suc r) j t =
     vlerp ((t - knots s ! j) / (knots s ! (j + degree s - r) - knots s ! j))
       (ref_point s r (j - 1) t) (ref_point s r j t)"
  by (rule vec3.expand) (simp add: ref_point_def Let_def)

text \<open>
  The array during round \<open>r\<close>, when the entries from \<open>b\<close> on have been overwritten.
\<close>

definition round_array :: "bspline \<Rightarrow> nat \<Rightarrow> nat \<Rightarrow> nat \<Rightarrow> real \<Rightarrow> vec3 list \<Rightarrow> bool" where
  "round_array s k r b t d \<longleftrightarrow> length d = Suc (degree s)
     \<and> (\<forall>i \<le> degree s. r - 1 \<le> i \<longrightarrow> d ! i = ref_point s (if i < b then r - 1 else r) (i + k - degree s) t)"

lemma deboor_row_ref:
  assumes s: "well_knotted s" and k: "at_span s k t" and r: "1 \<le> r"
  shows "round_array s k r (r + n) t d \<Longrightarrow> r + n \<le> Suc (degree s) \<Longrightarrow>
    \<exists>d'. deboor_row (knots s) (degree s) k t r n d = Inr d' \<and> round_array s k r r t d'"
proof (induction n arbitrary: d)
  case (Suc n)
  let ?i = "r + n" and ?j = "r + n + k - degree s"
  have len: "length d = Suc (degree s)" using Suc.prems(1) by (simp add: round_array_def)
  have dk: "degree s \<le> k" using k by (simp add: at_span_def)
  have di: "d ! (?i - 1) = ref_point s (r - 1) (?j - 1) t" "d ! ?i = ref_point s (r - 1) ?j t"
    using Suc.prems r dk by (auto simp: round_array_def)
  obtain v where v: "deboor_point (knots s) (degree s) k t r ?i d = Inr v"
    using deboor_point_in [OF s k r _ _ len, of ?i UNIV] Suc.prems(2) by (auto simp: convex_set_def)
  have "?i + 1 + k - r = ?j + degree s - (r - 1)" using r dk Suc.prems(2) by simp
  with v di have "v = vlerp ((t - knots s ! ?j) / (knots s ! (?j + degree s - (r - 1)) - knots s ! ?j))
      (ref_point s (r - 1) (?j - 1) t) (ref_point s (r - 1) ?j t)"
    by (auto simp: deboor_point_def fetch_Inr fdiv_Inr)
  also have "\<dots> = ref_point s r ?j t" using r ref_point_Suc [of s "r - 1" ?j t] by simp
  finally have "round_array s k r ?i t (d[?i := v])"
    using Suc.prems by (auto simp: round_array_def nth_list_update)
  from Suc.IH [OF this] Suc.prems(2) v show ?case by auto
qed auto

lemma deboor_rows_ref:
  assumes s: "well_knotted s" and k: "at_span s k t"
  shows "1 \<le> r \<Longrightarrow> round_array s k r (Suc (degree s)) t d \<Longrightarrow> r + n = Suc (degree s) \<Longrightarrow>
    \<exists>d'. deboor_rows (knots s) (degree s) k t r n d = Inr d' \<and> length d' = Suc (degree s)
      \<and> d' ! degree s = ref_point s (degree s) k t"
proof (induction n arbitrary: r d)
  case 0
  with k show ?case by (auto simp: round_array_def at_span_def)
next
  case (Suc n)
  then obtain d1 where d1: "deboor_row (knots s) (degree s) k t r (Suc (degree s) - r) d = Inr d1"
    "round_array s k r r t d1"
    using deboor_row_ref [OF s k, of r "Suc (degree s) - r" d] by auto
  have "round_array s k (Suc r) (Suc (degree s)) t d1"
    using d1(2) by (auto simp: round_array_def)
  from Suc.IH [OF _ this] Suc.prems d1(1) show ?case by auto
qed

lemma evaluateDeBoor_span:
  assumes s: "well_knotted s"
    and k: "find_span (knots s) ub (degree s) = Inr k" "at_span s k ub"
    and ub: "ub = min (max (knots s ! degree s) u) (knots s ! (last_knot s - degree s))"
  shows "evaluateDeBoor u s = Inr (ref_point s (degree s) k ub)"
proof -
  let ?p = "degree s"
  have len: "length (knots s) = Suc (last_knot s)" "?p < last_knot s"
    using s by (auto simp: well_knotted_def)
  let ?d = "map (\<lambda>i. control_points s ! (k - ?p + i)) [0..<Suc ?p]"
  have d: "map_result (\<lambda>i. fetch (control_points s) (k - ?p + i)) [0..<Suc ?p] = Inr ?d"
    using k(2) by (intro map_result_ok fetch_ok) (auto simp: at_span_def)
  have pt: "ref_point s 0 j ub = control_points s ! j" for j by (rule vec3.expand) (simp add: ref_point_def)
  have "round_array s k 1 (Suc ?p) ub ?d"
    unfolding round_array_def using k(2) by (auto simp: pt at_span_def add.commute simp del: upt_Suc)
  with deboor_rows_ref [OF s k(2), of 1 ?d ?p] obtain d' where
    "deboor_rows (knots s) ?p k ub 1 ?p ?d = Inr d'" "length d' = Suc ?p" "d' ! ?p = ref_point s ?p k ub"
    by auto
  with d k len ub show ?thesis by (simp add: evaluateDeBoor_def Let_def del: upt_Suc)
qed

text \<open>
  C25: on a well-formed spline the array loops of \<open>evaluateDeBoor\<close> compute De Boor's recursion, at
  the time clamped to the span of the spline and from the knot interval this time lies in.
\<close>

theorem evaluateDeBoor_reference:
  assumes s: "well_knotted s"
  shows "\<exists>k. at_span s k (min (max (knots s ! degree s) u) (knots s ! (last_knot s - degree s)))
    \<and> evaluateDeBoor u s = Inr (ref_point s (degree s) k
        (min (max (knots s ! degree s) u) (knots s ! (last_knot s - degree s))))"
  using span_of [OF s, of u] evaluateDeBoor_span [OF s] by blast

section \<open>Differences of the recursion\<close>

definition dd_ref :: "(nat \<Rightarrow> real) \<Rightarrow> (nat \<Rightarrow> real) \<Rightarrow> nat \<Rightarrow> nat \<Rightarrow> nat \<Rightarrow> real \<Rightarrow> real" where
  "dd_ref u c p r j t = (deboor_ref u c p r j t - deboor_ref u c p r (j - 1) t) / (u (j + p - r) - u j)"

lemma ref_Suc_difference:
  "deboor_ref u c p (Suc r) j t = deboor_ref u c p r (j - 1) t + (t - u j) * dd_ref u c p r j t"
  by (simp add: dd_ref_def Let_def algebra_simps diff_divide_distrib)

text \<open>The divided differences follow De Boor's recursion with one degree less.\<close>

lemma dd_ref_Suc:
  fixes t :: real
  assumes j: "1 \<le> j" and w: "u (j + p - Suc r) \<noteq> u j" "u (j - 1 + p - r) \<noteq> u (j - 1)" and r: "Suc r \<le> p"
  defines "b \<equiv> (t - u j) / (u (j + p - Suc r) - u j)"
  shows "dd_ref u c p (Suc r) j t = (1 - b) * dd_ref u c p r (j - 1) t + b * dd_ref u c p r j t"
proof -
  let ?v = "u (j + p - Suc r)"
  have idx: "j - 1 + p - r = j + p - Suc r" using j by simp
  have prev: "deboor_ref u c p r (j - 1) t - deboor_ref u c p r (j - 1 - 1) t
      = dd_ref u c p r (j - 1) t * (?v - u (j - 1))"
    using w(2) unfolding dd_ref_def idx [symmetric] by simp
  have "deboor_ref u c p (Suc r) j t - deboor_ref u c p (Suc r) (j - 1) t
      = dd_ref u c p r (j - 1) t * (?v - u (j - 1)) + (t - u j) * dd_ref u c p r j t
        - (t - u (j - 1)) * dd_ref u c p r (j - 1) t"
    unfolding ref_Suc_difference using prev by (simp add: algebra_simps)
  also have "\<dots> = (?v - t) * dd_ref u c p r (j - 1) t + (t - u j) * dd_ref u c p r j t"
    by (simp add: algebra_simps)
  finally have "dd_ref u c p (Suc r) j t
      = ((?v - t) * dd_ref u c p r (j - 1) t + (t - u j) * dd_ref u c p r j t) / (?v - u j)"
    by (simp only: dd_ref_def [of u c p "Suc r"])
  then have "dd_ref u c p (Suc r) j t
      = (?v - t) / (?v - u j) * dd_ref u c p r (j - 1) t + b * dd_ref u c p r j t"
    by (simp only: b_def add_divide_distrib times_divide_eq_left)
  moreover have "(?v - t) / (?v - u j) = 1 - b" using w(1) by (simp add: b_def field_simps)
  ultimately show ?thesis by simp
qed

lemma deriv_blend:
  fixes f g :: "real \<Rightarrow> real"
  assumes f: "(f has_real_derivative f') (at t)" and g: "(g has_real_derivative g') (at t)" and w: "w \<noteq> 0"
  shows "((\<lambda>t. (1 - (t - a) / w) * f t + (t - a) / w * g t) has_real_derivative
    - (1 / w) * f t + (1 - (t - a) / w) * f' + ((1 / w) * g t + (t - a) / w * g')) (at t)"
  using w by (auto intro!: derivative_eq_intros f g simp: add_divide_distrib)

lemma blend_sum:
  fixes d :: real
  assumes "d = (1 - b) * x + b * y" "d = k * g - k * f"
  shows "- k * f + (1 - b) * (n * x) + (k * g + b * (n * y)) = d + n * d"
proof -
  have "n * d = (1 - b) * (n * x) + b * (n * y)" unfolding assms(1) by (simp add: algebra_simps)
  with assms(2) show ?thesis by simp
qed

lemma deboor_ref_deriv:
  assumes p: "Suc r \<le> p" and j: "Suc r \<le> j"
    and u: "\<And>a b. j - r \<le> b \<Longrightarrow> b < a \<Longrightarrow> a \<le> j + p \<Longrightarrow> u b < u a"
  shows "((\<lambda>t. deboor_ref u c p (Suc r) j t) has_real_derivative real (Suc r) * dd_ref u c p r j t) (at t)"
  using assms
proof (induction r arbitrary: j)
  case 0
  then have "u j < u (j + p)" by (auto intro: "0.prems"(3))
  then have "((\<lambda>t. c (j - 1) + (t - u j) * ((c j - c (j - 1)) / (u (j + p) - u j))) has_real_derivative
      (c j - c (j - 1)) / (u (j + p) - u j)) (at t)"
    by (auto intro!: derivative_eq_intros)
  then show ?case by (simp only: ref_Suc_difference) (simp add: dd_ref_def)
next
  case (Suc r)
  have lt: "u j < u (j + p - Suc r)" "u (j - 1) < u (j - 1 + p - r)"
    using Suc.prems(1,2) Suc.prems(3) [of j "j + p - Suc r"] Suc.prems(3) [of "j - 1" "j - 1 + p - r"] by auto
  have d1: "((\<lambda>t. deboor_ref u c p (Suc r) (j - 1) t) has_real_derivative
      real (Suc r) * dd_ref u c p r (j - 1) t) (at t)"
    by (rule Suc.IH) (use Suc.prems in auto)
  have d2: "((\<lambda>t. deboor_ref u c p (Suc r) j t) has_real_derivative real (Suc r) * dd_ref u c p r j t) (at t)"
    by (rule Suc.IH) (use Suc.prems in auto)
  define w where "w = u (j + p - Suc r) - u j"
  define b where "b = (t - u j) / w"
  have fn: "(\<lambda>t. deboor_ref u c p (Suc (Suc r)) j t) =
      (\<lambda>t. (1 - (t - u j) / w) * deboor_ref u c p (Suc r) (j - 1) t + (t - u j) / w * deboor_ref u c p (Suc r) j t)"
    by (rule ext) (subst deboor_ref.simps(2), simp add: Let_def w_def)
  have w0: "w \<noteq> 0" using lt(1) by (simp add: w_def)
  have "((\<lambda>t. (1 - (t - u j) / w) * deboor_ref u c p (Suc r) (j - 1) t
        + (t - u j) / w * deboor_ref u c p (Suc r) j t) has_real_derivative
      - (1 / w) * deboor_ref u c p (Suc r) (j - 1) t + (1 - b) * (real (Suc r) * dd_ref u c p r (j - 1) t)
      + ((1 / w) * deboor_ref u c p (Suc r) j t + b * (real (Suc r) * dd_ref u c p r j t))) (at t)"
    unfolding b_def by (rule deriv_blend [OF d1 d2 w0])
  moreover have "- (1 / w) * deboor_ref u c p (Suc r) (j - 1) t + (1 - b) * (real (Suc r) * dd_ref u c p r (j - 1) t)
      + ((1 / w) * deboor_ref u c p (Suc r) j t + b * (real (Suc r) * dd_ref u c p r j t))
    = dd_ref u c p (Suc r) j t + real (Suc r) * dd_ref u c p (Suc r) j t"
  proof -
    have "dd_ref u c p (Suc r) j t = (1 - b) * dd_ref u c p r (j - 1) t + b * dd_ref u c p r j t"
      unfolding b_def w_def by (rule dd_ref_Suc) (use Suc.prems(1,2) lt in auto)
    moreover have "dd_ref u c p (Suc r) j t =
        (1 / w) * deboor_ref u c p (Suc r) j t - (1 / w) * deboor_ref u c p (Suc r) (j - 1) t"
      by (simp add: dd_ref_def w_def diff_divide_distrib)
    ultimately show ?thesis by (rule blend_sum)
  qed
  ultimately show ?case unfolding fn by (simp add: algebra_simps)
qed

text \<open>The divided differences are the recursion of the derivative spline.\<close>

lemma dd_ref_derivative:
  assumes u': "\<And>i. j - Suc r \<le> i \<Longrightarrow> Suc i < j + p \<Longrightarrow> u' i = u (Suc i)"
    and c': "\<And>i. j - Suc r \<le> i \<Longrightarrow> i < j \<Longrightarrow> c' i = real p / (u (i + p + 1) - u (i + 1)) * (c (i + 1) - c i)"
    and u: "\<And>a b. j - r \<le> b \<Longrightarrow> b < a \<Longrightarrow> a \<le> j + p \<Longrightarrow> u b < u a"
    and r: "Suc r \<le> p" and j: "Suc r \<le> j"
  shows "deboor_ref u' c' (p - 1) r (j - 1) t = real p * dd_ref u c p r j t"
  using assms
proof (induction r arbitrary: j)
  case 0
  then show ?case using "0.prems"(2) [of "j - 1"] by (simp add: dd_ref_def)
next
  case (Suc r)
  have lt: "u j < u (j + p - Suc r)" "u (j - 1) < u (j - 1 + p - r)"
    using Suc.prems(3) [of j "j + p - Suc r"] Suc.prems(3) [of "j - 1" "j - 1 + p - r"] Suc.prems(4,5) by auto
  have ih: "deboor_ref u' c' (p - 1) r (j - 1) t = real p * dd_ref u c p r j t"
    "deboor_ref u' c' (p - 1) r (j - 1 - 1) t = real p * dd_ref u c p r (j - 1) t"
    by (rule Suc.IH; use Suc.prems in auto)+
  have kn: "u' (j - 1) = u j" "u' (j - 1 + (p - 1) - r) = u (j + p - Suc r)"
  proof -
    have "j - 1 + (p - 1) - r = j + p - Suc (Suc r)" "Suc (j + p - Suc (Suc r)) = j + p - Suc r"
      using Suc.prems(4,5) by auto
    then show "u' (j - 1) = u j" "u' (j - 1 + (p - 1) - r) = u (j + p - Suc r)"
      using Suc.prems(1) [of "j - 1"] Suc.prems(1) [of "j + p - Suc (Suc r)"] Suc.prems(4,5) by auto
  qed
  have "deboor_ref u' c' (p - 1) (Suc r) (j - 1) t =
      (1 - (t - u j) / (u (j + p - Suc r) - u j)) * (real p * dd_ref u c p r (j - 1) t)
      + (t - u j) / (u (j + p - Suc r) - u j) * (real p * dd_ref u c p r j t)"
    by (subst deboor_ref.simps(2)) (simp only: kn ih Let_def)
  also have "\<dots> = real p * dd_ref u c p (Suc r) j t"
    using dd_ref_Suc [where j = j and u = u and p = p and r = r and c = c and t = t] lt Suc.prems(4,5)
    by (simp add: distrib_left mult.left_commute)
  finally show ?case .
qed

section \<open>The derivative spline\<close>

lemma span_unique:
  assumes s: "well_knotted s" and k: "k < length (control_points s)" and t: "knots s ! k < t" "t < knots s ! Suc k"
    and k': "at_span s k' t"
  shows "k' = k"
proof -
  have len: "length (knots s) = Suc (length (control_points s) + degree s)"
    using s by (simp add: well_knotted_def)
  have "\<not> k' < k"
    using knot_le [OF s, of "Suc k'" k] k' k len t(1) by (auto simp: at_span_def)
  moreover have "\<not> k < k'"
    using knot_le [OF s, of "Suc k" k'] k' len t(2) by (auto simp: at_span_def)
  ultimately show ?thesis by simp
qed

lemma evaluateDeBoor_inside:
  assumes s: "well_knotted s" and k: "degree s \<le> k" "k < length (control_points s)"
    and t: "knots s ! k < t" "t < knots s ! Suc k"
  shows "evaluateDeBoor t s = Inr (ref_point s (degree s) k t)"
proof -
  have m: "last_knot s - degree s = length (control_points s)" "Suc k < length (knots s)"
    "length (control_points s) < length (knots s)"
    using s k by (auto simp: well_knotted_def)
  have "knots s ! degree s \<le> knots s ! k" "knots s ! Suc k \<le> knots s ! length (control_points s)"
    using knot_le [OF s] k m by auto
  then have ub: "min (max (knots s ! degree s) t) (knots s ! (last_knot s - degree s)) = t"
    using t m by simp
  with span_of [OF s, of t] obtain k' where
    k': "find_span (knots s) t (degree s) = Inr k'" "at_span s k' t" by auto
  moreover have "k' = k" by (rule span_unique [OF s k(2) t k'(2)])
  ultimately show ?thesis using evaluateDeBoor_span [OF s, of t k t] ub by simp
qed

lemma ref_point_derivative:
  assumes s: "well_knotted s" and p: "1 \<le> degree s" and d: "getDerivative s = Inr d"
    and k: "degree s \<le> k" "k < length (control_points s)"
    and f: "f \<in> {vx, vy, vz}"
  shows "((\<lambda>t. f (ref_point s (degree s) k t)) has_real_derivative f (ref_point d (degree d) (k - 1) t)) (at t)"
proof -
  let ?p = "degree s" and ?u = "nth (knots s)" and ?c = "\<lambda>i. f (control_points s ! i)"
  obtain q where q: "?p = Suc q" using p by (cases ?p) auto
  from getDerivative_ok [OF s p] d have d': "degree d = ?p - 1"
    "control_points d = map (vel_of s) [0..<length (control_points s) - 1]" by auto
  have sel: "f (ref_point x r j t) = deboor_ref (nth (knots x)) (\<lambda>i. f (control_points x ! i)) (degree x) r j t" for x r j t
    using f by (auto simp: ref_point_def)
  have len: "length (knots s) = Suc (length (control_points s) + ?p)" using s by (simp add: well_knotted_def)
  have lt: "?u b < ?u a" if "k - q \<le> b" "b < a" "a < k + ?p" for a b
    using knot_less [OF s, of b a] that k len by auto
  have "((\<lambda>t. deboor_ref ?u ?c ?p (Suc q) k t) has_real_derivative real (Suc q) * dd_ref ?u ?c ?p q k t) (at t)"
    by (rule deboor_ref_deriv) (use q k len knot_less [OF s] in auto)
  moreover have "deboor_ref (nth (knots d)) (\<lambda>i. f (control_points d ! i)) (?p - 1) q (k - 1) t
      = real ?p * dd_ref ?u ?c ?p q k t"
  proof (rule dd_ref_derivative)
    fix i assume "k - Suc q \<le> i" "i < k"
    then show "f (control_points d ! i) = real ?p / (?u (i + ?p + 1) - ?u (i + 1)) * (?c (i + 1) - ?c i)"
      using f d'(2) k by (auto simp: vel_of_def)
  next
    fix i assume "k - Suc q \<le> i" "Suc i < k + ?p"
    then show "knots d ! i = ?u (Suc i)"
      using getDerivative_knots [OF d s, of i] k len by simp
  qed (use q k len knot_less [OF s] in auto)
  ultimately show ?thesis unfolding sel using d'(1) q by simp
qed

text \<open>The value of a spline as a function of time.\<close>

definition value_at :: "bspline \<Rightarrow> real \<Rightarrow> vec3" where
  "value_at s t = (case evaluateDeBoor t s of Inl _ \<Rightarrow> vzero | Inr v \<Rightarrow> v)"

text \<open>
  C24: the spline that \<open>getDerivative\<close> builds is the time derivative: strictly between two knots of
  its span every coordinate of the value of a well-formed spline is differentiable, and its
  derivative is that coordinate of the value of the derivative spline.
\<close>

theorem getDerivative_derivative:
  assumes s: "well_knotted s" and p: "1 \<le> degree s" and d: "getDerivative s = Inr d"
    and k: "degree s \<le> k" "k < length (control_points s)"
    and t: "knots s ! k < t" "t < knots s ! Suc k" and f: "f \<in> {vx, vy, vz}"
  shows "((\<lambda>t. f (value_at s t)) has_real_derivative f (value_at d t)) (at t)"
proof -
  from getDerivative_ok [OF s p] d have d': "well_knotted d" "degree d = degree s - 1"
    "length (control_points d) = length (control_points s) - 1" by auto
  have len: "length (knots s) = Suc (length (control_points s) + degree s)" using s by (simp add: well_knotted_def)
  have kd: "knots d ! (k - 1) = knots s ! k" "knots d ! Suc (k - 1) = knots s ! Suc k"
    using getDerivative_knots [OF d s, of "k - 1"] getDerivative_knots [OF d s, of k] k p len by auto
  have vd: "value_at d t = ref_point d (degree d) (k - 1) t"
    using evaluateDeBoor_inside [OF d'(1), of "k - 1" t] kd t d' k p by (auto simp: value_at_def)
  have "eventually (\<lambda>x. x \<in> {knots s ! k <..< knots s ! Suc k}) (nhds t)"
    using t by (intro eventually_nhds_in_open) auto
  then have ev: "eventually (\<lambda>x. f (value_at s x) = f (ref_point s (degree s) k x)) (nhds t)"
    by eventually_elim (simp add: value_at_def evaluateDeBoor_inside [OF s k])
  show ?thesis
    using ref_point_derivative [OF s p d k f, of t] DERIV_cong_ev [OF refl ev refl] vd by simp
qed

end
