(* ===== verification/BsplineTime.thy ===== *)
theory BsplineTime
  imports BsplineDerivative
begin

text \<open>
  Time reallocation: what \<open>lengthenTime\<close> does to the knots, and through them to the duration and
  the velocities of a spline.  The end of the theory holds the concrete splines that instantiate
  the properties of \<open>BsplineProps\<close> and \<open>BsplineDerivative\<close>.
\<close>

section \<open>The duration\<close>

lemma getTimeSum_ok:
  assumes "well_knotted s"
  shows "getTimeSum s = Inr (knots s ! (last_knot s - degree s) - knots s ! degree s)"
  using assms by (auto simp: well_knotted_def getTimeSum_def getTimeSpan_def)

lemma uniform_time_sum:
  assumes "0 < h" "p < length pts"
  shows "getTimeSum (UniformBspline pts p h) = Inr (real (length pts - p) * h)"
proof -
  have "getTimeSum (UniformBspline pts p h) =
      Inr (uniform_knot p h (length pts) - uniform_knot p h p)"
    using getTimeSum_ok [OF uniform_well_knotted [OF assms]] assms
    by (simp add: UniformBspline_def Let_def del: upt_Suc)
  then show ?thesis using assms by (simp add: uniform_knot_eq of_nat_diff)
qed

section \<open>Stretching\<close>

text \<open>What is added to the knot \<open>i\<close> of \<open>n\<close> knots when the inner ones are stretched by \<open>delta\<close>.\<close>

definition knot_shift :: "nat \<Rightarrow> real \<Rightarrow> nat \<Rightarrow> real" where
  "knot_shift n delta i =
     (if 6 \<le> i \<and> i \<le> n - 6 then real (i - 5) * (delta / (real (n - 6) - 5))
      else if n - 5 \<le> i then delta else 0)"

lemma knot_shift_mono:
  assumes "0 \<le> delta" "11 \<le> n" "i \<le> j"
  shows "knot_shift n delta i \<le> knot_shift n delta j"
proof -
  have frac: "0 \<le> real (i - 5) * (delta / (real (n - 6) - 5)) \<and> real (i - 5) * (delta / (real (n - 6) - 5)) \<le> delta"
    if "6 \<le> i" "i \<le> n - 6" for i
  proof -
    have w: "0 < real (n - 6) - 5" "real (i - 5) \<le> real (n - 6) - 5" using that by auto
    then have "real (i - 5) / (real (n - 6) - 5) \<le> 1" "0 \<le> real (i - 5) / (real (n - 6) - 5)" by simp_all
    with assms(1) mult_right_mono [OF this(1) assms(1)] mult_nonneg_nonneg [OF this(2) assms(1)]
    show ?thesis by simp
  qed
  have "real (i - 5) * (delta / (real (n - 6) - 5)) \<le> real (j - 5) * (delta / (real (n - 6) - 5))"
    if "6 \<le> i" "j \<le> n - 6"
    using assms that by (intro mult_right_mono divide_nonneg_nonneg) auto
  then show ?thesis using assms frac [of i] frac [of j] by (auto simp: knot_shift_def)
qed

lemma lengthenTime_eq:
  assumes "11 \<le> length (knots s)"
  shows "lengthenTime ratio s = Inr (s\<lparr>knots := map (\<lambda>i. knots s ! i +
    knot_shift (length (knots s)) ((ratio - 1) * (knots s ! (length (knots s) - 6) - knots s ! 5)) i)
    [0..<length (knots s)]\<rparr>)"
proof -
  have "(if 5 + 1 \<le> i \<and> i \<le> n - 6 then u ! i + real (i - 5) * (d / (real (n - 6) - real 5))
      else if n - 6 + 1 \<le> i then u ! i + d else u ! i) = u ! i + knot_shift n d i"
    if "11 \<le> n" for u :: "real list" and n d i
    using that by (auto simp: knot_shift_def)
  with assms show ?thesis by (simp add: lengthenTime_def Let_def)
qed

text \<open>
  Stretching the time of a well-formed cubic spline of at least eleven knots by a ratio of at
  least one never fails, keeps the spline well formed and its control points, lengthens the
  duration by exactly the stretch of the inner knots, and lowers (or keeps) every component of
  every control point of the velocity.
\<close>

lemma lengthenTime_slower:
  assumes s: "well_knotted s" and p: "degree s = 3" and len: "11 \<le> length (knots s)" and r: "1 \<le> ratio"
  shows "\<exists>s'. lengthenTime ratio s = Inr s' \<and> well_knotted s' \<and> control_points s' = control_points s
    \<and> (\<exists>T. getTimeSum s = Inr T \<and>
        getTimeSum s' = Inr (T + (ratio - 1) * (knots s ! (length (knots s) - 6) - knots s ! 5)))
    \<and> (\<forall>b i. i + 1 < length (control_points s) \<longrightarrow> \<not> exceeds b (vel_of s i) \<longrightarrow> \<not> exceeds b (vel_of s' i))"
proof -
  define n where "n = length (knots s)"
  define delta where "delta = (ratio - 1) * (knots s ! (n - 6) - knots s ! 5)"
  define s' where "s' = s\<lparr>knots := map (\<lambda>i. knots s ! i + knot_shift n delta i) [0..<n]\<rparr>"
  have n: "11 \<le> n" "n = length (control_points s) + 4" "last_knot s = n - 1"
    using s p len by (auto simp: well_knotted_def n_def)
  have d0: "0 \<le> delta" using r knot_le [OF s, of 5 "n - 6"] n by (simp add: delta_def n_def)
  have eq: "lengthenTime ratio s = Inr s'"
    using lengthenTime_eq [OF len] by (simp add: s'_def n_def delta_def)
  have kn: "knots s' ! i = knots s ! i + knot_shift n delta i" if "i < n" for i
    using that by (simp add: s'_def)
  have grow: "knots s ! j - knots s ! i \<le> knots s' ! j - knots s' ! i" if "i \<le> j" "j < n" for i j
    using kn [of i] kn [of j] knot_shift_mono [OF d0 n(1) that(1)] that by simp
  have wk: "well_knotted s'"
  proof -
    have "knots s' ! i < knots s' ! j" if "i < j" "j < n" for i j
      using grow [of i j] knot_less [OF s, of i j] that by (simp add: n_def)
    moreover have "length (knots s') = n" by (simp add: s'_def)
    ultimately have "sorted_wrt (<) (knots s')" by (simp add: sorted_wrt_iff_nth_less)
    with \<open>length (knots s') = n\<close> s show ?thesis by (simp add: well_knotted_def s'_def n_def del: upt_Suc)
  qed
  have ends: "knot_shift n delta 3 = 0" "knot_shift n delta (n - 4) = delta"
    using n by (auto simp: knot_shift_def)
  have sums: "getTimeSum s = Inr (knots s ! (n - 4) - knots s ! 3)"
    "getTimeSum s' = Inr (knots s ! (n - 4) - knots s ! 3 + delta)"
    using getTimeSum_ok [OF s] getTimeSum_ok [OF wk] kn [of 3] kn [of "n - 4"] ends n p by (auto simp: s'_def)
  have vel: "\<not> exceeds b (vel_of s' i)" if i: "i + 1 < length (control_points s)" and b: "\<not> exceeds b (vel_of s i)" for b i
  proof -
    let ?w = "knots s ! (i + degree s + 1) - knots s ! (i + 1)"
    let ?w' = "knots s' ! (i + degree s + 1) - knots s' ! (i + 1)"
    have w: "0 < ?w" "?w \<le> ?w'"
      using knot_less [OF s, of "i + 1" "i + degree s + 1"] grow [of "i + 1" "i + degree s + 1"] i n p
      by (simp_all add: n_def)
    have mono: "\<bar>real (degree s) / ?w' * x\<bar> \<le> \<bar>real (degree s) / ?w * x\<bar>" for x
      using w by (simp add: abs_mult mult_right_mono frac_le)
    have "vel_of s' i = vscale (real (degree s) / ?w') (vsub (control_points s ! (i + 1)) (control_points s ! i))"
      by (simp add: vel_of_def s'_def)
    with b mono show ?thesis
      by (auto simp: vel_of_def exceeds_def not_less intro: order_trans)
  qed
  from eq wk sums vel show ?thesis by (auto simp: s'_def delta_def n_def)
qed

section \<open>Concrete splines\<close>

definition demo_spline :: bspline where
  "demo_spline = setPhysicalLimits 2 1 0
     (UniformBspline [Vec3 0 0 0, Vec3 1 0 0, Vec3 2 0 0, Vec3 3 0 0, Vec3 4 0 0, Vec3 5 0 0, Vec3 6 0 0, Vec3 7 0 0] 3 1)"

lemma demo_spline_ok: "well_knotted demo_spline"
  using uniform_well_knotted [of 1 3 "control_points demo_spline"]
  by (simp add: demo_spline_def setPhysicalLimits_def well_knotted_def UniformBspline_def Let_def del: upt_Suc)

lemma demo_spline_sel:
  "degree demo_spline = 3" "length (knots demo_spline) = 12" "limits demo_spline = Some (2, 1, 0)"
  "length (control_points demo_spline) = 8" "last_knot demo_spline = 11"
  by (simp_all add: demo_spline_def setPhysicalLimits_def UniformBspline_def Let_def)

lemma demo_spline_knots: "i < 12 \<Longrightarrow> knots demo_spline ! i = real i - 3"
  by (simp add: demo_spline_def setPhysicalLimits_def UniformBspline_def Let_def uniform_knot_eq del: upt_Suc)

lemma demo_spline_derivative: "\<exists>d. getDerivative demo_spline = Inr d"
  using getDerivative_ok [OF demo_spline_ok] by (auto simp: demo_spline_sel)

theorem evaluateDeBoor_reference_witness:
  "\<exists>k. evaluateDeBoor 2 demo_spline = Inr (ref_point demo_spline 3 k 2)"
  using evaluateDeBoor_reference [OF demo_spline_ok, of 2] by (auto simp: demo_spline_sel demo_spline_knots)

theorem getDerivative_derivative_witness:
  "\<exists>d. getDerivative demo_spline = Inr d
    \<and> ((\<lambda>t. vx (value_at demo_spline t)) has_real_derivative vx (value_at d (1 / 2))) (at (1 / 2))"
proof -
  obtain d where d: "getDerivative demo_spline = Inr d" using demo_spline_derivative by blast
  have "((\<lambda>t. vx (value_at demo_spline t)) has_real_derivative vx (value_at d (1 / 2))) (at (1 / 2))"
    by (rule getDerivative_derivative [OF demo_spline_ok _ d, of 3])
       (simp_all add: demo_spline_sel demo_spline_knots)
  with d show ?thesis by blast
qed

lemma demo_spline_points:
  "i + 1 < 8 \<Longrightarrow> vel_of demo_spline i = Vec3 1 0 0"
proof -
  assume i: "i + 1 < 8"
  have "control_points demo_spline ! j = Vec3 (real j) 0 0" if "j < 8" for j
    using that by (auto simp: demo_spline_def setPhysicalLimits_def UniformBspline_def Let_def nth_Cons' less_Suc_eq
        numeral_eq_Suc)
  with i show ?thesis
    by (simp add: vel_of_def demo_spline_sel demo_spline_knots vscale_def vsub_def)
qed

lemma demo_spline_feasible: "\<exists>ratio. checkFeasibility demo_spline = Inr (True, ratio)"
proof -
  obtain d where d: "getDerivative demo_spline = Inr d" using demo_spline_derivative by blast
  from getDerivative_ok [OF demo_spline_ok] d have d': "well_knotted d" "degree d = 2"
    "control_points d = map (vel_of demo_spline) [0..<7]" by (auto simp: demo_spline_sel)
  have cd: "control_points d ! i = Vec3 1 0 0" if "i < 7" for i
    using that unfolding d'(3) by (simp add: demo_spline_points del: upt_Suc)
  have vd: "vel_of d i = Vec3 0 0 0" if "i < 6" for i
    using that by (simp add: vel_of_def [of d] vscale_def vsub_def cd)
  have "map_result (vel_point demo_spline) [0..<7] = Inr (map (\<lambda>_. Vec3 1 0 0) [0..<7])"
    using vel_point_ok [OF demo_spline_ok] demo_spline_points
    by (intro map_result_ok) (auto simp: vel_of_def demo_spline_sel)
  moreover have "map_result (acc_point demo_spline) [0..<6] = Inr (map (\<lambda>_. Vec3 0 0 0) [0..<6])"
    using acc_point_derivative [OF demo_spline_ok _ d] vd
    by (intro map_result_ok) (auto simp: demo_spline_sel)
  ultimately show ?thesis
    by (simp add: checkFeasibility_def demo_spline_sel Let_def exceeds_def)
qed

theorem spline_feasible_witness:
  "\<exists>d. getDerivative demo_spline = Inr d
    \<and> (\<exists>x. evaluateDeBoorT 1 d = Inr x \<and> \<not> exceeds (2 + 1 / 10000) x)"
proof -
  obtain ratio where f: "checkFeasibility demo_spline = Inr (True, ratio)" using demo_spline_feasible by blast
  from spline_feasible [OF demo_spline_ok _ demo_spline_sel(3) f, of 1] show ?thesis
    by (auto simp: demo_spline_sel)
qed

end
