(* ===== verification/PlannerData.thy ===== *)
theory PlannerData
  imports BsplineTime
begin

text \<open>
  The data the planner's nodes exchange and keep: the message \<open>traj_utils/Bspline\<close>, the
  trajectories of \<open>traj_utils/plan_container.hpp\<close>, and the operations on them of
  \<open>plan_manage/src/planner_manager.cpp\<close> that need no optimiser: \<open>updateTrajInfo\<close>,
  \<open>EmergencyStop\<close> and \<open>checkCollision\<close>.  The same lines fill a message from the local trajectory
  in three places of \<open>ego_replan_fsm.cpp\<close>, and build a spline from a message in three others.
\<close>

section \<open>Messages\<close>

record bspline_msg =
  msg_drone_id :: int
  msg_order :: int
  msg_traj_id :: int
  msg_start_time :: real
  msg_knots :: "real list"
  msg_pos_pts :: "vec3 list"

definition spline_msg :: "int \<Rightarrow> int \<Rightarrow> real \<Rightarrow> bspline \<Rightarrow> bspline_msg" where
  "spline_msg drone tid start s =
     \<lparr>msg_drone_id = drone, msg_order = 3, msg_traj_id = tid, msg_start_time = start,
      msg_knots = getKnot s, msg_pos_pts = getControlPoint s\<rparr>"

text \<open>A message of negative order has no spline: the constructor would read before its arrays.\<close>

definition msg_spline :: "real \<Rightarrow> bspline_msg \<Rightarrow> cpp_error + bspline" where
  "msg_spline interval m =
     (if msg_order m < 0 then Inl OutOfBounds
      else Inr (setKnot (msg_knots m) (UniformBspline (msg_pos_pts m) (nat (msg_order m)) interval)))"

section \<open>The local trajectory\<close>

record local_traj =
  traj_id :: int
  duration :: real
  start_time :: real
  start_pos :: vec3
  position_traj :: bspline
  velocity_traj :: bspline
  acceleration_traj :: bspline

definition updateTrajInfo :: "bspline \<Rightarrow> real \<Rightarrow> local_traj \<Rightarrow> cpp_error + local_traj" where
  "updateTrajInfo s time_now l =
     bind_result (getDerivative s) (\<lambda>v.
     bind_result (getDerivative v) (\<lambda>a.
     bind_result (evaluateDeBoorT 0 s) (\<lambda>p0.
     bind_result (getTimeSum s) (\<lambda>T.
       Inr (l\<lparr>start_time := time_now, position_traj := s, velocity_traj := v, acceleration_traj := a,
              start_pos := p0, duration := T, traj_id := traj_id l + 1\<rparr>)))))"

definition EmergencyStop :: "vec3 \<Rightarrow> real \<Rightarrow> local_traj \<Rightarrow> cpp_error + local_traj" where
  "EmergencyStop stop_pos time_now l = updateTrajInfo (UniformBspline (replicate 6 stop_pos) 3 1) time_now l"

section \<open>Trajectories of other drones\<close>

record swarm_traj =
  drone_id :: int
  sw_duration :: real
  sw_start_time :: real
  sw_start_pos :: vec3
  sw_position_traj :: bspline

text \<open>
  The times \<open>a, a + s, a + 2 s, \<dots>\<close> below \<open>b\<close> that a loop with a positive step visits, and a
  loop over them that returns at the first hit.
\<close>

definition loop_times :: "real \<Rightarrow> real \<Rightarrow> real \<Rightarrow> real list" where
  "loop_times a b s = map (\<lambda>i. a + real i * s) [0..<nat \<lceil>(b - a) / s\<rceil>]"

fun any_result :: "('a \<Rightarrow> cpp_error + bool) \<Rightarrow> 'a list \<Rightarrow> cpp_error + bool" where
  "any_result f [] = Inr False"
| "any_result f (x # xs) = bind_result (f x) (\<lambda>b. if b then Inr True else any_result f xs)"

text \<open>\<open>checkCollision\<close>, with the clearance the optimiser was configured with.\<close>

definition checkCollision :: "real \<Rightarrow> local_traj \<Rightarrow> swarm_traj list \<Rightarrow> nat \<Rightarrow> cpp_error + bool" where
  "checkCollision clearance l buf drone =
     (if start_time l < 10 ^ 9 then Inr False
      else bind_result (fetch buf drone) (\<lambda>other.
        let my_start = start_time l; other_start = sw_start_time other;
            t_start = max my_start other_start;
            t_end = min (my_start + duration l * 2 / 3) (other_start + sw_duration other)
        in any_result (\<lambda>t.
             bind_result (evaluateDeBoorT (t - my_start) (position_traj l)) (\<lambda>a.
             bind_result (evaluateDeBoorT (t - other_start) (sw_position_traj other)) (\<lambda>b.
               Inr (vnorm (vsub a b) < clearance))))
             (loop_times t_start t_end (3 / 100))))"

section \<open>Lemmas\<close>

lemma loop_times_set: "0 < s \<Longrightarrow> t \<in> set (loop_times a b s) \<longleftrightarrow> (\<exists>i. t = a + real i * s \<and> t < b)"
proof -
  assume s: "0 < s"
  have "i < nat \<lceil>(b - a) / s\<rceil> \<longleftrightarrow> a + real i * s < b" for i
  proof -
    have "i < nat \<lceil>(b - a) / s\<rceil> \<longleftrightarrow> int i < \<lceil>(b - a) / s\<rceil>" by linarith
    also have "\<dots> \<longleftrightarrow> real i < (b - a) / s" by (simp add: less_ceiling_iff)
    also have "\<dots> \<longleftrightarrow> a + real i * s < b" using s by (simp add: pos_less_divide_eq algebra_simps)
    finally show ?thesis .
  qed
  then have "{0..<nat \<lceil>(b - a) / s\<rceil>} = {i. a + real i * s < b}" by (simp add: set_eq_iff)
  then have e: "set (loop_times a b s) = (\<lambda>i. a + real i * s) ` {i. a + real i * s < b}"
    by (simp only: loop_times_def set_map set_upt)
  show ?thesis unfolding e image_iff mem_Collect_eq Bex_def by (rule ex_cong1) blast
qed

lemma any_result_ok: "(\<And>x. x \<in> set xs \<Longrightarrow> \<exists>b. f x = Inr b) \<Longrightarrow> \<exists>b. any_result f xs = Inr b"
proof (induction xs)
  case (Cons x xs)
  then obtain b c where "f x = Inr b" "any_result f xs = Inr c" by (metis list.set_intros)
  then have "any_result f (x # xs) = Inr (b \<or> c)" by (cases b) simp_all
  then show ?case by blast
qed (simp, blast)

lemma any_result_False: "any_result f xs = Inr False \<longleftrightarrow> (\<forall>x \<in> set xs. f x = Inr False)"
proof (induction xs)
  case (Cons x xs)
  then show ?case by (cases "f x") simp_all
qed simp

text \<open>A spline survives the trip through a message, but for its limits and interval.\<close>

lemma msg_spline_round:
  assumes "well_knotted s" "degree s = 3"
  shows "msg_spline h (spline_msg drone tid start s) = Inr (s\<lparr>knot_span := h, limits := None\<rparr>)"
  using assms by (cases s) (simp add: msg_spline_def spline_msg_def getKnot_def getControlPoint_def setKnot_def
      UniformBspline_def Let_def well_knotted_def del: upt_Suc)

lemma well_knotted_cong:
  "well_knotted (s\<lparr>knot_span := h, limits := l\<rparr>) = well_knotted s"
  "evaluateDeBoor t (s\<lparr>knot_span := h, limits := l\<rparr>) = evaluateDeBoor t s"
  "evaluateDeBoorT t (s\<lparr>knot_span := h, limits := l\<rparr>) = evaluateDeBoorT t s"
  "getTimeSum (s\<lparr>knot_span := h, limits := l\<rparr>) = getTimeSum s"
  by (simp_all add: well_knotted_def evaluateDeBoor_def evaluateDeBoorT_def getTimeSum_def getTimeSpan_def)

lemma getDerivative_cong:
  "getDerivative s = Inr d \<Longrightarrow> getDerivative (s\<lparr>knot_span := h, limits := l\<rparr>) = Inr (d\<lparr>knot_span := h, limits := None\<rparr>)"
proof -
  have "vel_point (s\<lparr>knot_span := h, limits := l\<rparr>) = vel_point s" by (rule ext) (simp add: vel_point_def)
  then show "getDerivative s = Inr d \<Longrightarrow> ?thesis"
    by (auto simp: getDerivative_def getDerivativeControlPoints_def setKnot_def UniformBspline_def Let_def)
qed

text \<open>A well-formed spline of degree at least two always becomes the local trajectory.\<close>

lemma updateTrajInfo_ok:
  assumes s: "well_knotted s" and p: "2 \<le> degree s"
  shows "\<exists>l'. updateTrajInfo s now l = Inr l' \<and> position_traj l' = s \<and> start_time l' = now
    \<and> traj_id l' = traj_id l + 1 \<and> getDerivative s = Inr (velocity_traj l')
    \<and> getDerivative (velocity_traj l') = Inr (acceleration_traj l')
    \<and> getTimeSum s = Inr (duration l') \<and> well_knotted (velocity_traj l') \<and> well_knotted (acceleration_traj l')"
proof -
  obtain v where v: "getDerivative s = Inr v" "well_knotted v" "degree v = degree s - 1"
    using getDerivative_ok [OF s] p by auto
  obtain a where a: "getDerivative v = Inr a" "well_knotted a"
    using getDerivative_ok [OF v(2)] v(3) p by fastforce
  obtain p0 where "evaluateDeBoorT 0 s = Inr p0" using evaluateDeBoorT_in [OF s, of UNIV] by (auto simp: convex_set_def)
  with v a getTimeSum_ok [OF s] show ?thesis by (simp add: updateTrajInfo_def)
qed

text \<open>
  The emergency trajectory is well formed, lasts three seconds and stands still at the stop
  position.
\<close>

lemma EmergencyStop_ok:
  "\<exists>l'. EmergencyStop c now l = Inr l' \<and> position_traj l' = UniformBspline (replicate 6 c) 3 1
    \<and> start_time l' = now \<and> duration l' = 3 \<and> traj_id l' = traj_id l + 1
    \<and> well_knotted (velocity_traj l') \<and> well_knotted (acceleration_traj l')
    \<and> getDerivative (position_traj l') = Inr (velocity_traj l')
    \<and> getDerivative (velocity_traj l') = Inr (acceleration_traj l')"
proof -
  have s: "well_knotted (UniformBspline (replicate 6 c) 3 1)" by (rule uniform_well_knotted) simp_all
  have "degree (UniformBspline (replicate 6 c) 3 1) = 3" by (simp add: UniformBspline_def Let_def)
  with updateTrajInfo_ok [OF s, of now l] uniform_time_sum [of 1 3 "replicate 6 c"] show ?thesis
    by (auto simp: EmergencyStop_def)
qed

end
