(* ===== verification/PolynomialTraj.thy ===== *)
theory PolynomialTraj
  imports PlannerData
begin

text \<open>
  Piecewise polynomial trajectories, \<open>traj_utils/polynomial_traj.h\<close>: segments with a duration and
  one polynomial for each axis.  The functions for statistics are left out, as are the generators of
  \<open>polynomial_traj.cpp\<close>, which solve linear systems with Eigen.
\<close>

section \<open>Model\<close>

record poly_traj =
  times :: "real list"
  cxs :: "real list list"       \<comment> \<open>coefficients of each segment, highest power first\<close>
  cys :: "real list list"
  czs :: "real list list"
  time_sum :: real

definition reset_traj :: "poly_traj \<Rightarrow> poly_traj" where
  "reset_traj p = p\<lparr>times := [], cxs := [], cys := [], czs := [], time_sum := 0\<rparr>"

definition addSegment :: "real list \<Rightarrow> real list \<Rightarrow> real list \<Rightarrow> real \<Rightarrow> poly_traj \<Rightarrow> poly_traj" where
  "addSegment cx cy cz t p = p\<lparr>cxs := cxs p @ [cx], cys := cys p @ [cy], czs := czs p @ [cz], times := times p @ [t]\<rparr>"

definition init_traj :: "poly_traj \<Rightarrow> poly_traj" where
  "init_traj p = p\<lparr>time_sum := sum_list (times p)\<rparr>"

text \<open>The loop that finds the segment, on the durations that are left.\<close>

fun find_segment :: "real list \<Rightarrow> real \<Rightarrow> nat \<Rightarrow> cpp_error + nat \<times> real" where
  "find_segment [] t idx = Inl OutOfBounds"
| "find_segment (d # ds) t idx = (if d + 1 / 10000 < t then find_segment ds (t - d) (Suc idx) else Inr (idx, t))"

text \<open>The sums over the powers of \<open>t\<close> for the value and the first two derivatives of one axis.\<close>

definition poly_value :: "real list \<Rightarrow> nat \<Rightarrow> real \<Rightarrow> real" where
  "poly_value c order t = (\<Sum>i<order. t ^ i * c ! (order - 1 - i))"

definition poly_vel :: "real list \<Rightarrow> nat \<Rightarrow> real \<Rightarrow> real" where
  "poly_vel c order t = (\<Sum>i<order - 1. t ^ i * (real (i + 1) * c ! (order - 2 - i)))"

definition poly_acc :: "real list \<Rightarrow> nat \<Rightarrow> real \<Rightarrow> real" where
  "poly_acc c order t = (\<Sum>i<order - 2. t ^ i * (real ((i + 2) * (i + 1)) * c ! (order - 3 - i)))"

text \<open>
  The three evaluations differ in the sum and in the least number of coefficients; the number of
  coefficients is that of the \<open>x\<close> axis.
\<close>

definition evaluate_with ::
    "nat \<Rightarrow> (real list \<Rightarrow> nat \<Rightarrow> real \<Rightarrow> real) \<Rightarrow> real \<Rightarrow> poly_traj \<Rightarrow> cpp_error + vec3" where
  "evaluate_with least f t p =
     bind_result (find_segment (times p) t 0) (\<lambda>(idx, t').
     bind_result (fetch (cxs p) idx) (\<lambda>cx.
     bind_result (fetch (cys p) idx) (\<lambda>cy.
     bind_result (fetch (czs p) idx) (\<lambda>cz.
       let order = length cx
       in if order < least \<or> length cy < order \<or> length cz < order then Inl OutOfBounds
          else Inr (Vec3 (f cx order t') (f cy order t') (f cz order t'))))))"

definition evaluate :: "real \<Rightarrow> poly_traj \<Rightarrow> cpp_error + vec3" where
  "evaluate t p = evaluate_with 0 poly_value t p"

definition evaluateVel :: "real \<Rightarrow> poly_traj \<Rightarrow> cpp_error + vec3" where
  "evaluateVel t p = evaluate_with 1 poly_vel t p"

definition evaluateAcc :: "real \<Rightarrow> poly_traj \<Rightarrow> cpp_error + vec3" where
  "evaluateAcc t p = evaluate_with 2 poly_acc t p"

section \<open>The segment\<close>

lemma find_segment_ok:
  "ds \<noteq> [] \<Longrightarrow> t \<le> sum_list ds + 1 / 10000 \<Longrightarrow>
    \<exists>i. find_segment ds t k = Inr (k + i, t - sum_list (take i ds)) \<and> i < length ds
      \<and> t - sum_list (take i ds) \<le> ds ! i + 1 / 10000"
proof (induction ds arbitrary: t k)
  case (Cons d ds)
  show ?case
  proof (cases "d + 1 / 10000 < t")
    case True
    with Cons.prems have "ds \<noteq> []" "t - d \<le> sum_list ds + 1 / 10000" by auto
    from Cons.IH [OF this, of "Suc k"] obtain i where i: "find_segment ds (t - d) (Suc k) = Inr (Suc k + i, t - d - sum_list (take i ds))"
      "i < length ds" "t - d - sum_list (take i ds) \<le> ds ! i + 1 / 10000" by blast
    then show ?thesis using True by (intro exI [of _ "Suc i"]) (simp add: algebra_simps)
  next
    case False
    then show ?thesis by (intro exI [of _ 0]) simp
  qed
qed simp

section \<open>Well-formed trajectories\<close>

text \<open>Every segment has at least two coefficients and as many for \<open>y\<close> and \<open>z\<close> as for \<open>x\<close>.\<close>

definition well_segmented :: "poly_traj \<Rightarrow> bool" where
  "well_segmented p \<longleftrightarrow> times p \<noteq> [] \<and> length (cxs p) = length (times p) \<and> length (cys p) = length (times p)
     \<and> length (czs p) = length (times p)
     \<and> (\<forall>i < length (times p). 2 \<le> length (cxs p ! i) \<and> length (cys p ! i) = length (cxs p ! i)
          \<and> length (czs p ! i) = length (cxs p ! i))"

lemma evaluate_with_ok:
  assumes "well_segmented p" "t \<le> sum_list (times p) + 1 / 10000" "least \<le> 2"
  shows "\<exists>v. evaluate_with least f t p = Inr v"
proof -
  from find_segment_ok [of "times p" t 0] assms obtain i where
    "find_segment (times p) t 0 = Inr (i, t - sum_list (take i (times p)))" "i < length (times p)"
    by (auto simp: well_segmented_def)
  with assms show ?thesis by (auto simp: evaluate_with_def well_segmented_def Let_def)
qed

lemma poly_value_deriv: "(poly_value c n has_real_derivative poly_vel c n t) (at t)"
proof -
  have "((\<lambda>t. \<Sum>i<n. t ^ i * c ! (n - 1 - i)) has_real_derivative
      (\<Sum>i<n. real i * t ^ (i - 1) * c ! (n - 1 - i))) (at t)"
    by (intro DERIV_sum) (auto intro!: derivative_eq_intros)
  moreover have "(\<Sum>i<n. real i * t ^ (i - 1) * c ! (n - 1 - i)) = poly_vel c n t"
  proof (cases n)
    case (Suc m)
    have "(\<Sum>i<Suc m. real i * t ^ (i - 1) * c ! (m - i)) = (\<Sum>i<m. real (Suc i) * t ^ i * c ! (m - Suc i))"
      by (subst sum.lessThan_Suc_shift) simp
    then show ?thesis using Suc by (simp add: poly_vel_def algebra_simps diff_Suc_less)
  qed (simp add: poly_vel_def)
  ultimately show ?thesis by (simp add: poly_value_def [abs_def])
qed

end
