(* ===== verification/PlannerManager.thy ===== *)
theory PlannerManager
  imports PolynomialTraj
begin

text \<open>
  The planner's manager: \<open>GlobalTrajData\<close> of \<open>traj_utils/plan_container.hpp\<close> and
  \<open>planGlobalTraj\<close> and \<open>reboundReplan\<close> of \<open>plan_manage/src/planner_manager.cpp\<close>.

  What the numerical optimisers return is a parameter.  The record \<open>solver\<close> holds the two
  generators of polynomial trajectories, which solve linear systems with Eigen.  \<open>rebound\<close> is what
  one call of the B-spline optimiser returns: the control points and
  time step it converged to, if it did, and the refined ones, if the refinement did.  The initial
  path and the optimiser itself are in \<open>InitialPath\<close>, \<open>Optimizer\<close> and the theories behind it, and \<open>Replan\<close>
  shows that they are an instance of \<open>rebound\<close>.
\<close>

section \<open>The global trajectory\<close>

record global_traj_data =
  global_traj :: poly_traj
  local_trajs :: "bspline list"
  global_duration :: real
  global_start_time :: real
  local_start_time :: real
  local_end_time :: real
  time_increase :: real
  last_time_inc :: real
  last_progress_time :: real

definition localTrajReachTarget :: "global_traj_data \<Rightarrow> bool" where
  "localTrajReachTarget g \<longleftrightarrow> \<bar>local_end_time g - global_duration g\<bar> < 1 / 10"

definition setGlobalTraj :: "poly_traj \<Rightarrow> real \<Rightarrow> global_traj_data \<Rightarrow> global_traj_data" where
  "setGlobalTraj p time_now g =
     g\<lparr>global_traj := init_traj p, global_duration := time_sum (init_traj p), global_start_time := time_now,
       local_trajs := [], local_start_time := - 1, local_end_time := - 1, time_increase := 0,
       last_time_inc := 0, last_progress_time := 0\<rparr>"

definition setLocalTraj :: "bspline \<Rightarrow> real \<Rightarrow> real \<Rightarrow> real \<Rightarrow> global_traj_data \<Rightarrow> cpp_error + global_traj_data" where
  "setLocalTraj s local_ts local_te time_inc g =
     bind_result (getDerivative s) (\<lambda>v.
     bind_result (getDerivative v) (\<lambda>a.
       Inr (g\<lparr>local_trajs := [s, v, a], local_start_time := local_ts, local_end_time := local_te,
              global_duration := global_duration g + time_inc, time_increase := time_increase g + time_inc,
              last_time_inc := time_inc\<rparr>)))"

text \<open>
  The value, velocity and acceleration at a time of the global trajectory: before the local
  trajectory, after it, and inside it.  \<open>k\<close> is the number of the local spline.
\<close>

definition global_at ::
    "(real \<Rightarrow> poly_traj \<Rightarrow> cpp_error + vec3) \<Rightarrow> (global_traj_data \<Rightarrow> real) \<Rightarrow> nat \<Rightarrow> real \<Rightarrow>
     global_traj_data \<Rightarrow> cpp_error + vec3" where
  "global_at f before k t g =
     (if t \<ge> - (1 / 1000) \<and> t \<le> local_start_time g then f (t + before g) (global_traj g)
      else if t \<ge> local_end_time g \<and> t \<le> global_duration g + 1 / 1000 then f (t - time_increase g) (global_traj g)
      else bind_result (fetch (local_trajs g) 0) (\<lambda>s.
           bind_result (getTimeSpan s) (\<lambda>r.
             case r of None \<Rightarrow> Inl Uninitialised
             | Some (tm, tmp) \<Rightarrow> bind_result (fetch (local_trajs g) k)
                 (\<lambda>sk. evaluateDeBoor (tm + t - local_start_time g) sk))))"

definition getPosition :: "real \<Rightarrow> global_traj_data \<Rightarrow> cpp_error + vec3" where
  "getPosition t g = global_at evaluate (\<lambda>g. last_time_inc g - time_increase g) 0 t g"

definition getVelocity :: "real \<Rightarrow> global_traj_data \<Rightarrow> cpp_error + vec3" where
  "getVelocity t g = global_at evaluateVel (\<lambda>g. 0) 1 t g"

definition getAcceleration :: "real \<Rightarrow> global_traj_data \<Rightarrow> cpp_error + vec3" where
  "getAcceleration t g = global_at evaluateAcc (\<lambda>g. 0) 2 t g"

section \<open>The manager\<close>

record plan_parameters =
  max_vel :: real
  max_acc :: real
  feasibility_tolerance :: real
  plan_drone_id :: int

record manager =
  pp :: plan_parameters
  swarm_clearance :: real
  local_data :: local_traj
  global_data :: global_traj_data
  swarm_trajs_buf :: "swarm_traj list"
  continous_failures_count :: int

text \<open>The generators: way points, velocities and accelerations at both ends, segment times.\<close>

record solver =
  minSnapTraj :: "vec3 list \<Rightarrow> vec3 \<Rightarrow> vec3 \<Rightarrow> vec3 \<Rightarrow> vec3 \<Rightarrow> real list \<Rightarrow> poly_traj"
  one_segment :: "vec3 \<Rightarrow> vec3 \<Rightarrow> vec3 \<Rightarrow> vec3 \<Rightarrow> vec3 \<Rightarrow> vec3 \<Rightarrow> real \<Rightarrow> poly_traj"

text \<open>The way points: intermediate ones are inserted when the two points are more than four metres apart.\<close>

definition inter_points :: "vec3 \<Rightarrow> vec3 \<Rightarrow> vec3 list" where
  "inter_points a b =
     (let dist = vnorm (vsub b a); id_num = nat (\<lfloor>dist / 4\<rfloor> + 1)
      in a # (if dist > 4 then map (\<lambda>j. vlerp (real j / real id_num) a b) [1..<id_num] else []) @ [b])"

definition segment_times :: "real \<Rightarrow> vec3 list \<Rightarrow> real list" where
  "segment_times v pts =
     (let ts = map (\<lambda>i. vnorm (vsub (pts ! (i + 1)) (pts ! i)) / v) [0..<length pts - 1];
          ts' = ts[0 := ts ! 0 * 2]
      in ts'[length ts' - 1 := ts' ! (length ts' - 1) * 2])"

definition planGlobalTraj ::
    "solver \<Rightarrow> vec3 \<Rightarrow> vec3 \<Rightarrow> vec3 \<Rightarrow> vec3 \<Rightarrow> vec3 \<Rightarrow> vec3 \<Rightarrow> real \<Rightarrow> manager \<Rightarrow> cpp_error + bool \<times> manager" where
  "planGlobalTraj k p0 v0 a0 p1 v1 a1 time_now m =
     (let pos = inter_points p0 p1; time = segment_times (max_vel (pp m)) pos
      in if max_vel (pp m) = 0 then Inl DivideByZero
         else if length pos \<ge> 3 then
           Inr (True, m\<lparr>global_data := setGlobalTraj (minSnapTraj k pos v0 v1 a0 a1 time)
                          time_now (global_data m)\<rparr>)
         else if length pos = 2 then
           Inr (True, m\<lparr>global_data := setGlobalTraj
                          (one_segment k p0 v0 a0 p1 v1 a1 (time ! 0))
                          time_now (global_data m)\<rparr>)
         else Inr (False, m))"

text \<open>
  \<open>rebound\<close>: the result of the optimiser, and of the refinement should it be needed.
\<close>

record rebound =
  optimised :: "(vec3 list \<times> real) option"
  refined :: "(vec3 list \<times> real) option"

definition plan_failed :: "manager \<Rightarrow> manager" where
  "plan_failed m = m\<lparr>continous_failures_count := continous_failures_count m + 1\<rparr>"

definition plan_done :: "bspline \<Rightarrow> real \<Rightarrow> manager \<Rightarrow> cpp_error + bool \<times> manager" where
  "plan_done pos time_now m =
     bind_result (updateTrajInfo pos time_now (local_data m)) (\<lambda>l.
       Inr (True, m\<lparr>local_data := l, continous_failures_count := 0\<rparr>))"

text \<open>
  \<open>reboundReplan\<close>: the test for a target that is too close, the optimiser, and in single-drone
  mode the feasibility test with its refinement.
\<close>

definition reboundReplan :: "vec3 \<Rightarrow> vec3 \<Rightarrow> rebound \<Rightarrow> real \<Rightarrow> manager \<Rightarrow> cpp_error + bool \<times> manager" where
  "reboundReplan start_pt local_target_pt r time_now m =
     (if vnorm (vsub start_pt local_target_pt) < 2 / 10 then Inr (False, plan_failed m)
      else (case optimised r of
              None \<Rightarrow> Inr (False, plan_failed m)
            | Some (ctrl_pts, ts) \<Rightarrow>
                let pos = setPhysicalLimits (max_vel (pp m)) (max_acc (pp m)) (feasibility_tolerance (pp m))
                            (UniformBspline ctrl_pts 3 ts)
                in if plan_drone_id (pp m) \<le> 0 then
                     bind_result (checkFeasibility pos) (\<lambda>(feasible, ratio).
                       if feasible then plan_done pos time_now m
                       else (case refined r of
                               None \<Rightarrow> Inr (False, plan_failed m)
                             | Some (pts', ts') \<Rightarrow> plan_done (UniformBspline pts' 3 ts') time_now m))
                   else plan_done pos time_now m))"

section \<open>The way points of the global trajectory\<close>

lemma vlerp_dist: "vnorm (vsub (vlerp s a b) (vlerp r a b)) = \<bar>s - r\<bar> * vnorm (vsub b a)"
proof -
  have "vsub (vlerp s a b) (vlerp r a b) = vscale (s - r) (vsub b a)"
    by (rule vec3.expand) (simp add: algebra_simps)
  moreover have "vnorm (vscale c v) = \<bar>c\<bar> * vnorm v" for c v
  proof -
    have "c * vx v * (c * vx v) + c * vy v * (c * vy v) + c * vz v * (c * vz v)
        = c\<^sup>2 * (vx v * vx v + vy v * vy v + vz v * vz v)"
      by (simp add: algebra_simps power2_eq_square)
    then show ?thesis by (simp add: vnorm_def real_sqrt_mult)
  qed
  ultimately show ?thesis by simp
qed

text \<open>All way points, the ends included, are evenly spaced on the segment.\<close>

lemma inter_points_even:
  assumes "vnorm (vsub b a) > 4"
  defines "n \<equiv> nat (\<lfloor>vnorm (vsub b a) / 4\<rfloor> + 1)"
  shows "inter_points a b = map (\<lambda>j. vlerp (real j / real n) a b) [0..<Suc n]" "2 \<le> n"
proof -
  let ?D = "vnorm (vsub b a)"
  have "1 \<le> \<lfloor>?D / 4\<rfloor>" using assms(1) by (simp add: le_floor_iff)
  then show n: "2 \<le> n" unfolding n_def by linarith
  have "[0..<Suc n] = 0 # [1..<n] @ [n]" using n by (simp add: upt_conv_Cons)
  moreover have "vlerp 0 a b = a" "vlerp 1 a b = b" by (rule vec3.expand, simp)+
  ultimately show "inter_points a b = map (\<lambda>j. vlerp (real j / real n) a b) [0..<Suc n]"
    using n assms(1) by (simp add: inter_points_def Let_def n_def [symmetric] del: upt_Suc)
qed

text \<open>
  Planning the global trajectory always succeeds (for a non-zero speed limit); the way points
  it gives to the generator start and end at the two positions and are never more than four metres
  apart.
\<close>

lemma planGlobalTraj_spacing:
  assumes "max_vel (pp m) \<noteq> 0"
  shows "\<exists>m'. planGlobalTraj k p0 v0 a0 p1 v1 a1 now m = Inr (True, m')
    \<and> hd (inter_points p0 p1) = p0 \<and> last (inter_points p0 p1) = p1
    \<and> (\<forall>i. i + 1 < length (inter_points p0 p1) \<longrightarrow>
          vnorm (vsub (inter_points p0 p1 ! (i + 1)) (inter_points p0 p1 ! i)) \<le> 4)"
proof -
  let ?D = "vnorm (vsub p1 p0)"
  have len: "2 \<le> length (inter_points p0 p1)" by (simp add: inter_points_def Let_def)
  then have "\<exists>m'. planGlobalTraj k p0 v0 a0 p1 v1 a1 now m = Inr (True, m')"
    using assms by (cases "length (inter_points p0 p1) = 2") (auto simp: planGlobalTraj_def Let_def)
  moreover have "hd (inter_points p0 p1) = p0" "last (inter_points p0 p1) = p1"
    by (simp_all add: inter_points_def Let_def)
  moreover have "vnorm (vsub (inter_points p0 p1 ! (i + 1)) (inter_points p0 p1 ! i)) \<le> 4"
    if i: "i + 1 < length (inter_points p0 p1)" for i
  proof (cases "?D > 4")
    case False
    then have "inter_points p0 p1 = [p0, p1]" by (simp add: inter_points_def Let_def)
    with False i show ?thesis by (cases i) simp_all
  next
    case True
    define n where "n = nat (\<lfloor>?D / 4\<rfloor> + 1)"
    note ev = inter_points_even [OF True, folded n_def]
    have "vnorm (vsub (inter_points p0 p1 ! (i + 1)) (inter_points p0 p1 ! i))
        = \<bar>real (i + 1) / real n - real i / real n\<bar> * ?D"
      using i unfolding ev(1) by (simp add: vlerp_dist del: upt_Suc)
    also have "real (i + 1) / real n - real i / real n = 1 / real n" by (simp add: diff_divide_distrib [symmetric])
    also have "\<bar>1 / real n\<bar> * ?D \<le> 4"
    proof -
      have "?D / 4 \<le> real n"
        unfolding n_def by linarith
      then show ?thesis using ev(2) by (simp add: pos_divide_le_eq)
    qed
    finally show ?thesis .
  qed
  ultimately show ?thesis by blast
qed

section \<open>The local trajectory\<close>

text \<open>What the optimiser promises of a result: enough control points and a positive time step.\<close>

definition rebound_ok :: "rebound \<Rightarrow> bool" where
  "rebound_ok r \<longleftrightarrow> (\<forall>pts ts. optimised r = Some (pts, ts) \<or> refined r = Some (pts, ts) \<longrightarrow> 3 < length pts \<and> 0 < ts)"

text \<open>A local trajectory that the trajectory server and the safety check can evaluate.\<close>

definition local_ok :: "local_traj \<Rightarrow> bool" where
  "local_ok l \<longleftrightarrow> well_knotted (position_traj l) \<and> degree (position_traj l) = 3
     \<and> getDerivative (position_traj l) = Inr (velocity_traj l)
     \<and> getDerivative (velocity_traj l) = Inr (acceleration_traj l)
     \<and> getTimeSum (position_traj l) = Inr (duration l)"

lemma well_knotted_limits: "well_knotted (setPhysicalLimits v a tol s) = well_knotted s"
  by (simp add: well_knotted_def setPhysicalLimits_def)

lemma feasibility_ok:
  assumes s: "well_knotted s" and p: "2 \<le> degree s" and l: "limits s = Some (v, a, tol)" "v \<noteq> 0" "a \<noteq> 0"
  shows "\<exists>f r. checkFeasibility s = Inr (f, r)"
proof -
  obtain d where d: "getDerivative s = Inr d" using getDerivative_ok [OF s] p by auto
  have "map_result (vel_point s) [0..<length (control_points s) - 1] = Inr (map (vel_of s) [0..<length (control_points s) - 1])"
    unfolding vel_of_def using s p by (intro map_result_ok vel_point_ok) auto
  moreover have "map_result (acc_point s) [0..<length (control_points s) - 2] = Inr (map (vel_of d) [0..<length (control_points s) - 2])"
    using acc_point_derivative [OF s p d] by (intro map_result_ok) auto
  ultimately show ?thesis using l by (simp add: checkFeasibility_def Let_def)
qed

lemma plan_done_ok:
  assumes "well_knotted s" "degree s = 3"
  shows "\<exists>m'. plan_done s now m = Inr (True, m') \<and> position_traj (local_data m') = s \<and> local_ok (local_data m')
    \<and> start_time (local_data m') = now
    \<and> m' = m\<lparr>local_data := local_data m', continous_failures_count := 0\<rparr>"
  using updateTrajInfo_ok [OF assms(1), of now "local_data m"] assms
  by (auto simp: plan_done_def local_ok_def)

lemma reboundReplan_cases:
  assumes r: "rebound_ok r" and lim: "max_vel (pp m) \<noteq> 0" "max_acc (pp m) \<noteq> 0"
  shows "reboundReplan a b r now m = Inr (False, plan_failed m)
    \<or> (\<exists>s m'. reboundReplan a b r now m = Inr (True, m') \<and> plan_done s now m = Inr (True, m')
        \<and> well_knotted s \<and> degree s = 3)"
proof (cases "vnorm (vsub a b) < 2 / 10 \<or> optimised r = None")
  case True
  then show ?thesis by (auto simp: reboundReplan_def)
next
  case False
  then obtain pts ts where o: "optimised r = Some (pts, ts)" by auto
  let ?p = "setPhysicalLimits (max_vel (pp m)) (max_acc (pp m)) (feasibility_tolerance (pp m)) (UniformBspline pts 3 ts)"
  have wk: "well_knotted ?p" "degree ?p = 3"
    using r o uniform_well_knotted [of ts 3 pts]
    by (auto simp: rebound_ok_def well_knotted_limits) (simp add: setPhysicalLimits_def UniformBspline_def Let_def)
  obtain f ratio where f: "checkFeasibility ?p = Inr (f, ratio)"
    using feasibility_ok [OF wk(1)] wk(2) lim by (fastforce simp: setPhysicalLimits_def)
  have wr: "well_knotted (UniformBspline pts' 3 ts')" "degree (UniformBspline pts' 3 ts') = 3"
    if "refined r = Some (pts', ts')" for pts' ts'
    using r that uniform_well_knotted [of ts' 3 pts'] by (auto simp: rebound_ok_def UniformBspline_def Let_def)
  show ?thesis
  proof (cases "plan_drone_id (pp m) \<le> 0 \<and> \<not> f")
    case True
    show ?thesis
    proof (cases "refined r")
      case None
      with True False o f show ?thesis by (simp add: reboundReplan_def Let_def)
    next
      case (Some q)
      obtain pts' ts' where q: "q = (pts', ts')" by (cases q)
      have "reboundReplan a b r now m = plan_done (UniformBspline pts' 3 ts') now m"
        using True False o f Some q by (simp add: reboundReplan_def Let_def)
      with plan_done_ok [OF wr [OF Some [unfolded q]], of now m] wr [OF Some [unfolded q]] show ?thesis by metis
    qed
  next
    case no: False
    have "reboundReplan a b r now m = plan_done ?p now m"
      using no False o f by (auto simp: reboundReplan_def Let_def)
    with plan_done_ok [OF wk, of now m] wk show ?thesis by metis
  qed
qed

section \<open>An example\<close>

text \<open>A drone that has planned nothing yet, and a generator that flies straight from point to point.\<close>

definition blank_spline :: bspline where
  "blank_spline = \<lparr>control_points = [], degree = 0, last_knot = 0, knots = [], knot_span = 0, limits = None\<rparr>"

definition demo_manager :: manager where
  "demo_manager =
     \<lparr>pp = \<lparr>max_vel = 2, max_acc = 1, feasibility_tolerance = 0, plan_drone_id = 0\<rparr>, swarm_clearance = 1,
      local_data = \<lparr>traj_id = 0, duration = 0, start_time = 0, start_pos = vzero, position_traj = blank_spline,
                    velocity_traj = blank_spline, acceleration_traj = blank_spline\<rparr>,
      global_data = \<lparr>global_traj = \<lparr>times = [], cxs = [], cys = [], czs = [], time_sum = 0\<rparr>, local_trajs = [],
                     global_duration = 0, global_start_time = 0, local_start_time = 0, local_end_time = 0,
                     time_increase = 0, last_time_inc = 0, last_progress_time = 0\<rparr>,
      swarm_trajs_buf = [], continous_failures_count = 0\<rparr>"

definition straight :: "vec3 \<Rightarrow> vec3 \<Rightarrow> real \<Rightarrow> poly_traj \<Rightarrow> poly_traj" where
  "straight a b t p = addSegment [(vx b - vx a) / t, vx a] [(vy b - vy a) / t, vy a] [(vz b - vz a) / t, vz a] t p"

definition empty_traj :: poly_traj where
  "empty_traj = \<lparr>times = [], cxs = [], cys = [], czs = [], time_sum = 0\<rparr>"

definition demo_solver :: solver where
  "demo_solver =
     \<lparr>minSnapTraj = (\<lambda>pts v0 v1 a0 a1 ts.
        fold (\<lambda>i. straight (pts ! i) (pts ! Suc i) (ts ! i)) [0..<length ts] empty_traj),
      one_segment = (\<lambda>p0 v0 a0 p1 v1 a1 t. straight p0 p1 t empty_traj)\<rparr>"

end
