(* ===== verification/EgoReplan.thy ===== *)
theory EgoReplan
  imports PlannerManager Machine
begin

text \<open>
  The replanning state machine of the drone, class \<open>EGOReplanFSM\<close>
  (\<open>plan_manage/src/ego_replan_fsm.cpp\<close>): its members, its helpers and its callbacks.

  A callback is one step.  Only \<open>planNextWaypoint\<close> can interrupt one: it runs other callbacks until
  the state is \<open>EXEC_TRAJ\<close>.  \<open>waiting\<close> counts the calls that are in that loop; the event
  \<open>SpinCheck\<close> is the test of the innermost one.  The clock, the answers of the optimiser and the
  occupancy of the map are inputs of a callback, collected in the record \<open>env\<close>; the optimiser is
  given whether it starts from a polynomial and whether that is randomised.
  Printed text, visualisation and members that are never read are left out.
\<close>

section \<open>State\<close>

datatype exec_state = INIT | WAIT_TARGET | GEN_NEW_TRAJ | REPLAN_TRAJ | EXEC_TRAJ | EMERGENCY_STOP | SEQUENTIAL_START

definition MANUAL_TARGET :: int where "MANUAL_TARGET = 1"
definition PRESET_TARGET :: int where "PRESET_TARGET = 2"

datatype ego_output =
    ToServer bspline_msg                     \<comment> \<open>\<open>bspline_pub_\<close>\<close>
  | ToSwarm bspline_msg                      \<comment> \<open>\<open>broadcast_bspline_pub_\<close>\<close>
  | SwarmTrajs int "bspline_msg list"        \<comment> \<open>\<open>swarm_trajs_pub_\<close>\<close>
  | EgoReady                                 \<comment> \<open>\<open>ego_state_pub_\<close>\<close>
  | NoTarget                                 \<comment> \<open>\<open>have_target_pub_\<close>\<close>
  | DataDisp                                 \<comment> \<open>\<open>data_disp_pub_\<close>\<close>

record ego =
  target_type :: int
  replan_thresh :: real
  no_replan_thresh :: real
  planning_horizen :: real
  emergency_time :: real
  enable_fail_safe :: bool
  waypoints :: "vec3 list"                   \<comment> \<open>\<open>waypoints_[50][3]\<close>\<close>
  waypoint_num :: int
  wp_id :: int
  wps :: "vec3 list"
  have_trigger :: bool
  have_target :: bool
  have_odom :: bool
  have_new_target :: bool
  have_recv_pre_agent :: bool
  exec_state :: exec_state
  continously_called_times :: int
  odom_pos :: vec3
  odom_vel :: vec3
  init_pt :: vec3
  start_pt :: vec3
  start_vel :: vec3
  start_acc :: vec3
  end_pt :: vec3
  end_vel :: vec3
  local_target_pt :: vec3
  local_target_vel :: vec3
  flag_escape_emergency :: bool
  multi_bspline_msgs_buf :: "int \<times> bspline_msg list"
  mgr :: manager
  waiting :: nat
  in_init :: bool                            \<comment> \<open>\<open>init\<close> waits for odometry and trigger\<close>
  outputs :: "ego_output list"               \<comment> \<open>oldest first\<close>

record env =
  env_now :: real
  env_replan :: "bool \<Rightarrow> bool \<Rightarrow> nat \<Rightarrow> rebound"    \<comment> \<open>polynomial start, randomised, number of the attempt\<close>
  env_occupancy :: "vec3 \<Rightarrow> int"            \<comment> \<open>\<open>getInflateOccupancy\<close>: -1 outside the map\<close>
  env_depth_timeout :: bool                  \<comment> \<open>\<open>getOdomDepthTimeout\<close>\<close>

definition post_output :: "ego_output list \<Rightarrow> ego \<Rightarrow> ego" where
  "post_output os s = s\<lparr>outputs := outputs s @ os\<rparr>"

definition changeFSMExecState :: "exec_state \<Rightarrow> ego \<Rightarrow> ego" where
  "changeFSMExecState new_state s =
     s\<lparr>exec_state := new_state,
       continously_called_times := (if new_state = exec_state s then continously_called_times s + 1 else 1)\<rparr>"

section \<open>The local target\<close>

text \<open>
  \<open>getLocalTarget\<close> walks along the global trajectory in steps of \<open>t_step\<close>.  \<open>scan_near\<close> is the
  inner loop, which looks for a point within the horizon; its result is the time it stopped at and
  the point, if it found one.  The loops go up only for a positive step; for any other step the
  outcome of the model is \<open>Hangs\<close>.
\<close>

function scan_near :: "global_traj_data \<Rightarrow> vec3 \<Rightarrow> real \<Rightarrow> real \<Rightarrow> real \<Rightarrow> cpp_error + real \<times> vec3 option" where
  "scan_near g from_pt horizon t_step t =
     (if t \<ge> global_duration g then Inr (t, None)
      else if t_step \<le> 0 then Inl Hangs
      else bind_result (getPosition t g) (\<lambda>p.
             if vnorm (vsub p from_pt) < horizon then Inr (t, Some p)
             else scan_near g from_pt horizon t_step (t + t_step)))"
  by pat_completeness auto
termination
proof (relation "measure (\<lambda>(g, f, h, st, t). nat \<lceil>(global_duration g - t) / st\<rceil>)")
  fix g :: global_traj_data and f :: vec3 and h st t :: real
  assume a: "\<not> t \<ge> global_duration g" "\<not> st \<le> 0"
  then have "0 < (global_duration g - t) / st" by (intro divide_pos_pos) simp_all
  moreover have "(global_duration g - (t + st)) / st = (global_duration g - t) / st - 1"
    using a by (simp add: diff_divide_distrib add_divide_distrib)
  ultimately show "((g, f, h, st, t + st), (g, f, h, st, t)) \<in> measure (\<lambda>(g, f, h, st, t). nat \<lceil>(global_duration g - t) / st\<rceil>)"
    by simp
qed simp

declare scan_near.simps [simp del]

text \<open>
  The outer loop.  \<open>first\<close> is \<open>last_progress_time_\<close>, where the walk starts; the result is the
  time at which the loop ended, and the target with the new progress time if it ended by \<open>break\<close>.
\<close>

definition scan_here ::
    "global_traj_data \<Rightarrow> vec3 \<Rightarrow> real \<Rightarrow> real \<Rightarrow> real \<Rightarrow> real \<Rightarrow> cpp_error + real \<times> vec3" where
  "scan_here g from_pt horizon t_step first t =
     bind_result (getPosition t g) (\<lambda>p.
       if t < first + 1 / 100000 \<and> vnorm (vsub p from_pt) > horizon
       then bind_result (scan_near g from_pt horizon t_step t)
              (\<lambda>(t', q). Inr (t', case q of None \<Rightarrow> p | Some p' \<Rightarrow> p'))
       else Inr (t, p))"

lemma scan_near_later: "scan_near g f h st t = Inr (t', q) \<Longrightarrow> t \<le> t'"
proof (induction g f h st t rule: scan_near.induct)
  case (1 g f h st t)
  from "1.prems" show ?case
    by (subst (asm) scan_near.simps) (auto split: if_splits dest!: "1.IH")
qed

lemma scan_here_later: "scan_here g f h st first t = Inr (t', p) \<Longrightarrow> t \<le> t'"
  by (auto simp: scan_here_def dest!: scan_near_later split: if_splits)

function scan_target ::
    "global_traj_data \<Rightarrow> vec3 \<Rightarrow> real \<Rightarrow> real \<Rightarrow> real \<Rightarrow> real \<Rightarrow> real \<Rightarrow> real \<Rightarrow>
     cpp_error + real \<times> (vec3 \<times> real) option" where
  "scan_target g from_pt horizon t_step first dist_min dist_min_t t =
     (if t \<ge> global_duration g then Inr (t, None)
      else if t_step \<le> 0 then Inl Hangs
      else bind_result (scan_here g from_pt horizon t_step first t) (\<lambda>(t', p).
             let dist = vnorm (vsub p from_pt);
                 (dm, dmt) = (if dist < dist_min then (dist, t') else (dist_min, dist_min_t))
             in if dist \<ge> horizon then Inr (t', Some (p, dmt))
                else scan_target g from_pt horizon t_step first dm dmt (t' + t_step)))"
  by pat_completeness auto
termination
proof (relation "measure (\<lambda>(g, f, h, st, fi, dm, dmt, t). nat \<lceil>(global_duration g - t) / st\<rceil>)", goal_cases)
  case (2 g f h st fi dm0 dmt0 t x t' p dist y dm dmt)
  then have st: "0 < st" "t < global_duration g" and "t \<le> t'" by (auto dest: scan_here_later)
  then have "0 < (global_duration g - t) / st" by (intro divide_pos_pos) simp_all
  moreover have "(global_duration g - (t' + st)) / st \<le> (global_duration g - t) / st - 1"
    using st \<open>t \<le> t'\<close> by (simp add: divide_right_mono diff_divide_distrib add_divide_distrib)
  ultimately show ?case by simp linarith
qed simp

declare scan_target.simps [simp del]

definition getLocalTarget :: "ego \<Rightarrow> cpp_error + ego" where
  "getLocalTarget s =
     (let m = mgr s; g = global_data m; dur = global_duration g; first = last_progress_time g
      in bind_result (fdiv (planning_horizen s / 20) (max_vel (pp m))) (\<lambda>t_step.
         bind_result (scan_target g (start_pt s) (planning_horizen s) t_step first 9999 0 first) (\<lambda>(t, found).
           let (target, progress) = (case found of None \<Rightarrow> (local_target_pt s, first) | Some (p, dmt) \<Rightarrow> (p, dmt));
               (target', progress') = (if t > dur then (end_pt s, dur) else (target, progress));
               s' = s\<lparr>local_target_pt := target', mgr := m\<lparr>global_data := g\<lparr>last_progress_time := progress'\<rparr>\<rparr>\<rparr>
           in bind_result (fdiv (max_vel (pp m) * max_vel (pp m)) (2 * max_acc (pp m))) (\<lambda>brake.
                if vnorm (vsub (end_pt s) target') < brake then Inr (s'\<lparr>local_target_vel := vzero\<rparr>)
                else bind_result (getVelocity t g) (\<lambda>v. Inr (s'\<lparr>local_target_vel := v\<rparr>))))))"

section \<open>Planning\<close>

definition callReboundReplan :: "env \<Rightarrow> bool \<Rightarrow> bool \<Rightarrow> nat \<Rightarrow> ego \<Rightarrow> cpp_error + bool \<times> ego" where
  "callReboundReplan e flag_use_poly_init flag_randomPolyTraj attempt s0 =
     bind_result (getLocalTarget s0) (\<lambda>s.
     bind_result (reboundReplan (start_pt s) (local_target_pt s)
                    (env_replan e (have_new_target s \<or> flag_use_poly_init) flag_randomPolyTraj attempt)
                    (env_now e) (mgr s)) (\<lambda>(success, m).
       let s' = s\<lparr>mgr := m, have_new_target := False\<rparr>; info = local_data m
       in Inr (success,
               if success then post_output [ToServer (spline_msg 0 (traj_id info) (start_time info) (position_traj info))] s'
               else s')))"

text \<open>Attempts with the same flags, numbered from \<open>i\<close> on, until one succeeds.\<close>

fun try_replan :: "env \<Rightarrow> bool \<Rightarrow> bool \<Rightarrow> nat \<Rightarrow> nat \<Rightarrow> ego \<Rightarrow> cpp_error + bool \<times> ego" where
  "try_replan e poly random i 0 s = Inr (False, s)"
| "try_replan e poly random i (Suc n) s =
     bind_result (callReboundReplan e poly random i s) (\<lambda>(success, s').
       if success then Inr (True, s') else try_replan e poly random (Suc i) n s')"

definition planFromGlobalTraj :: "env \<Rightarrow> nat \<Rightarrow> ego \<Rightarrow> cpp_error + bool \<times> ego" where
  "planFromGlobalTraj e trial_times s =
     try_replan e True (continously_called_times s \<noteq> 1) 0 trial_times
       (s\<lparr>start_pt := odom_pos s, start_vel := odom_vel s, start_acc := vzero\<rparr>)"

definition planFromCurrentTraj :: "env \<Rightarrow> nat \<Rightarrow> ego \<Rightarrow> cpp_error + bool \<times> ego" where
  "planFromCurrentTraj e trial_times s =
     (let info = local_data (mgr s); t_cur = env_now e - start_time info
      in bind_result (evaluateDeBoorT t_cur (position_traj info)) (\<lambda>p.
         bind_result (evaluateDeBoorT t_cur (velocity_traj info)) (\<lambda>v.
         bind_result (evaluateDeBoorT t_cur (acceleration_traj info)) (\<lambda>a.
         bind_result (callReboundReplan e False False 0 (s\<lparr>start_pt := p, start_vel := v, start_acc := a\<rparr>))
           (\<lambda>(success, s1). if success then Inr (True, s1)
             else bind_result (callReboundReplan e True False 1 s1)
               (\<lambda>(success, s2). if success then Inr (True, s2)
                 else try_replan e True True 2 trial_times s2))))))"

text \<open>\<open>publishSwarmTrajs\<close>: \<open>back()\<close> of an empty vector is out of bounds.\<close>

definition publishSwarmTrajs :: "bool \<Rightarrow> ego \<Rightarrow> cpp_error + ego" where
  "publishSwarmTrajs startup_pub s =
     (let info = local_data (mgr s); drone = plan_drone_id (pp (mgr s));
          bspline = spline_msg drone (traj_id info) (start_time info) (position_traj info);
          buf = snd (multi_bspline_msgs_buf s)
      in if startup_pub then
           bind_result
             (if int (length buf) = drone + 1 then (if buf = [] then Inl OutOfBounds else Inr (butlast buf @ [bspline]))
              else if int (length buf) = drone then Inr (buf @ [bspline])
              else Inr buf)
             (\<lambda>buf'. Inr (post_output [SwarmTrajs drone buf', ToSwarm bspline] (s\<lparr>multi_bspline_msgs_buf := (drone, buf')\<rparr>)))
         else Inr (post_output [ToSwarm bspline] s))"

definition callEmergencyStop :: "env \<Rightarrow> vec3 \<Rightarrow> ego \<Rightarrow> cpp_error + ego" where
  "callEmergencyStop e stop_pos s =
     bind_result (EmergencyStop stop_pos (env_now e) (local_data (mgr s))) (\<lambda>info.
       Inr (post_output [ToServer (spline_msg 0 (traj_id info) (start_time info) (position_traj info))]
              (s\<lparr>mgr := (mgr s)\<lparr>local_data := info\<rparr>\<rparr>)))"

section \<open>Way points\<close>

text \<open>The points that \<open>planNextWaypoint\<close> samples for the display, every tenth of a second.\<close>

definition display_samples :: "global_traj_data \<Rightarrow> cpp_error + vec3 list" where
  "display_samples g =
     (let i_end = \<lfloor>global_duration g / (1 / 10)\<rfloor>
      in if i_end < 0 then Inl OutOfBounds
         else map_result (\<lambda>i. evaluate (real i * (1 / 10)) (global_traj g)) [0..<nat i_end])"

definition planNextWaypoint :: "solver \<Rightarrow> env \<Rightarrow> vec3 \<Rightarrow> ego \<Rightarrow> cpp_error + ego" where
  "planNextWaypoint k e next_wp s =
     bind_result (planGlobalTraj k (odom_pos s) (odom_vel s) vzero next_wp vzero vzero (env_now e) (mgr s)) (\<lambda>(success, m).
       if success then
         bind_result (display_samples (global_data m)) (\<lambda>_.
           let s1 = s\<lparr>mgr := m, end_pt := next_wp, end_vel := vzero, have_target := True, have_new_target := True\<rparr>
           in Inr (if exec_state s1 = WAIT_TARGET then changeFSMExecState GEN_NEW_TRAJ s1
                   else if exec_state s1 = EXEC_TRAJ then changeFSMExecState REPLAN_TRAJ s1
                   else s1\<lparr>waiting := waiting s1 + 1\<rparr>))
       else Inr (s\<lparr>mgr := m\<rparr>))"

text \<open>The test of the innermost waiting call, and what follows its loop.\<close>

definition spin_check :: "ego \<Rightarrow> ego" where
  "spin_check s =
     (if waiting s > 0 \<and> exec_state s = EXEC_TRAJ then changeFSMExecState REPLAN_TRAJ (s\<lparr>waiting := waiting s - 1\<rparr>)
      else s)"

definition readGivenWps :: "solver \<Rightarrow> env \<Rightarrow> ego \<Rightarrow> cpp_error + ego" where
  "readGivenWps k e s =
     (if waypoint_num s \<le> 0 then Inr s
      else bind_result (map_result (fetch (waypoints s)) [0..<nat (waypoint_num s)]) (\<lambda>ws.
           bind_result (fetch ws 0) (\<lambda>wp. planNextWaypoint k e wp (s\<lparr>wps := ws, wp_id := 0\<rparr>))))"

section \<open>Initialisation\<close>

text \<open>The parameters; the way points by their index, \<open>realworld\<close> is \<open>flag_realworld_experiment_\<close>.\<close>

record ego_params =
  par_target_type :: int
  par_replan_thresh :: real
  par_no_replan_thresh :: real
  par_planning_horizen :: real
  par_emergency_time :: real
  par_realworld :: bool
  par_fail_safe :: bool
  par_waypoint_num :: int
  par_waypoint :: "nat \<Rightarrow> vec3"

text \<open>The loop that reads the way points into the array of fifty.\<close>

fun read_waypoints :: "(nat \<Rightarrow> vec3) \<Rightarrow> nat \<Rightarrow> nat \<Rightarrow> vec3 list \<Rightarrow> cpp_error + vec3 list" where
  "read_waypoints w i 0 arr = Inr arr"
| "read_waypoints w i (Suc n) arr =
     (if i < length arr then read_waypoints w (Suc i) n (arr[i := w i]) else Inl OutOfBounds)"

text \<open>
  \<open>init\<close>, up to the wait for odometry and trigger.  \<open>raw\<close> is the object before: its members that
  \<open>init\<close> does not set keep their value, among them \<open>flag_escape_emergency_\<close>.
\<close>

definition ego_init :: "ego_params \<Rightarrow> ego \<Rightarrow> cpp_error + ego" where
  "ego_init par raw =
     bind_result (read_waypoints (par_waypoint par) 0 (nat (par_waypoint_num par)) (waypoints raw)) (\<lambda>ws.
       Inr (raw\<lparr>exec_state := INIT, have_target := False, have_odom := False, have_recv_pre_agent := False,
         target_type := par_target_type par, replan_thresh := par_replan_thresh par,
         no_replan_thresh := par_no_replan_thresh par, planning_horizen := par_planning_horizen par,
         emergency_time := par_emergency_time par, enable_fail_safe := par_fail_safe par,
         have_trigger := \<not> par_realworld par, waypoint_num := par_waypoint_num par, waypoints := ws,
         in_init := (par_target_type par = PRESET_TARGET), waiting := 0\<rparr>))"

definition init_check :: "solver \<Rightarrow> env \<Rightarrow> ego \<Rightarrow> cpp_error + ego" where
  "init_check k e s =
     (if in_init s \<and> have_odom s \<and> have_trigger s then readGivenWps k e (s\<lparr>in_init := False\<rparr>) else Inr s)"

end
