(* ===== verification/EgoCallbacks.thy ===== *)
theory EgoCallbacks
  imports EgoReplan
begin

text \<open>
  The callbacks of \<open>EGOReplanFSM\<close>: the cases of the state machine \<open>execFSMCallback\<close>, the safety
  check \<open>checkCollisionCallback\<close>, and the messages.
\<close>

section \<open>execFSMCallback\<close>

text \<open>
  The cases return whether the callback leaves by \<open>force_return\<close>, past the publication of
  \<open>data_disp_\<close>.
\<close>

definition exec_INIT :: "ego \<Rightarrow> bool \<times> ego" where
  "exec_INIT s = (if \<not> have_odom s then (True, s) else (False, changeFSMExecState WAIT_TARGET s))"

definition exec_WAIT_TARGET :: "ego \<Rightarrow> bool \<times> ego" where
  "exec_WAIT_TARGET s =
     (if \<not> have_target s \<or> \<not> have_trigger s then (True, post_output [EgoReady] s)
      else (False, changeFSMExecState SEQUENTIAL_START s))"

definition exec_SEQUENTIAL_START :: "env \<Rightarrow> ego \<Rightarrow> cpp_error + bool \<times> ego" where
  "exec_SEQUENTIAL_START e s =
     (let drone = plan_drone_id (pp (mgr s))
      in if (drone \<le> 0 \<or> drone \<ge> 1 \<and> have_recv_pre_agent s) \<and> have_odom s \<and> have_target s \<and> have_trigger s then
           bind_result (planFromGlobalTraj e 10 s) (\<lambda>(success, s1).
             if success then
               bind_result (publishSwarmTrajs True (changeFSMExecState EXEC_TRAJ s1)) (\<lambda>s2. Inr (False, s2))
             else Inr (False, changeFSMExecState SEQUENTIAL_START s1))
         else Inr (False, s))"

definition exec_GEN_NEW_TRAJ :: "env \<Rightarrow> ego \<Rightarrow> cpp_error + bool \<times> ego" where
  "exec_GEN_NEW_TRAJ e s =
     bind_result (planFromGlobalTraj e 10 s) (\<lambda>(success, s1).
       if success then
         bind_result (publishSwarmTrajs False ((changeFSMExecState EXEC_TRAJ s1)\<lparr>flag_escape_emergency := True\<rparr>))
           (\<lambda>s2. Inr (False, s2))
       else Inr (False, changeFSMExecState GEN_NEW_TRAJ s1))"

definition exec_REPLAN_TRAJ :: "env \<Rightarrow> ego \<Rightarrow> cpp_error + bool \<times> ego" where
  "exec_REPLAN_TRAJ e s =
     bind_result (planFromCurrentTraj e 1 s) (\<lambda>(success, s1).
       if success then
         bind_result (publishSwarmTrajs False (changeFSMExecState EXEC_TRAJ s1)) (\<lambda>s2. Inr (False, s2))
       else Inr (False, changeFSMExecState REPLAN_TRAJ s1))"

text \<open>The end of the trajectory: back to waiting, with the first way point as the next target.\<close>

definition trajectory_over :: "solver \<Rightarrow> env \<Rightarrow> ego \<Rightarrow> cpp_error + bool \<times> ego" where
  "trajectory_over k e s =
     (let s1 = s\<lparr>have_target := False, have_trigger := False\<rparr>
      in bind_result
           (if target_type s1 = PRESET_TARGET
            then bind_result (fetch (wps s1) 0) (\<lambda>wp. planNextWaypoint k e wp (s1\<lparr>wp_id := 0\<rparr>))
            else Inr s1)
           (\<lambda>s2. Inr (True, changeFSMExecState WAIT_TARGET s2)))"

definition exec_EXEC_TRAJ :: "solver \<Rightarrow> env \<Rightarrow> ego \<Rightarrow> cpp_error + bool \<times> ego" where
  "exec_EXEC_TRAJ k e s =
     (let info = local_data (mgr s); t_cur = min (duration info) (env_now e - start_time info)
      in bind_result (evaluateDeBoorT t_cur (position_traj info)) (\<lambda>pos.
         if target_type s = PRESET_TARGET \<and> wp_id s < waypoint_num s - 1
            \<and> vnorm (vsub (end_pt s) pos) < no_replan_thresh s
         then bind_result (fetch (wps s) (nat (wp_id s + 1))) (\<lambda>wp.
              bind_result (planNextWaypoint k e wp (s\<lparr>wp_id := wp_id s + 1\<rparr>)) (\<lambda>s1. Inr (False, s1)))
         else if vnorm (vsub (local_target_pt s) (end_pt s)) < 1 / 1000 then
           (if t_cur > duration info - 1 / 100 then trajectory_over k e s
            else if vnorm (vsub (end_pt s) pos) > no_replan_thresh s \<and> t_cur > replan_thresh s
                 then Inr (False, changeFSMExecState REPLAN_TRAJ s)
            else Inr (False, s))
         else if t_cur > replan_thresh s then Inr (False, changeFSMExecState REPLAN_TRAJ s)
         else Inr (False, s)))"

definition exec_EMERGENCY_STOP :: "env \<Rightarrow> ego \<Rightarrow> cpp_error + bool \<times> ego" where
  "exec_EMERGENCY_STOP e s =
     bind_result
       (if flag_escape_emergency s then callEmergencyStop e (odom_pos s) s
        else if enable_fail_safe s \<and> vnorm (odom_vel s) < 1 / 10 then Inr (changeFSMExecState GEN_NEW_TRAJ s)
        else Inr s)
       (\<lambda>s1. Inr (False, s1\<lparr>flag_escape_emergency := False\<rparr>))"

definition exec_case :: "solver \<Rightarrow> env \<Rightarrow> ego \<Rightarrow> cpp_error + bool \<times> ego" where
  "exec_case k e s =
     (case exec_state s of
        INIT \<Rightarrow> Inr (exec_INIT s)
      | WAIT_TARGET \<Rightarrow> Inr (exec_WAIT_TARGET s)
      | SEQUENTIAL_START \<Rightarrow> exec_SEQUENTIAL_START e s
      | GEN_NEW_TRAJ \<Rightarrow> exec_GEN_NEW_TRAJ e s
      | REPLAN_TRAJ \<Rightarrow> exec_REPLAN_TRAJ e s
      | EXEC_TRAJ \<Rightarrow> exec_EXEC_TRAJ k e s
      | EMERGENCY_STOP \<Rightarrow> exec_EMERGENCY_STOP e s)"

definition execFSMCallback :: "solver \<Rightarrow> env \<Rightarrow> ego \<Rightarrow> cpp_error + ego" where
  "execFSMCallback k e s =
     bind_result (exec_case k e s) (\<lambda>(force_return, s1). Inr (if force_return then s1 else post_output [DataDisp] s1))"

section \<open>checkCollisionCallback\<close>

text \<open>Is another drone predicted within the clearance of \<open>p_cur\<close>?\<close>

fun swarm_near :: "real \<Rightarrow> real \<Rightarrow> int \<Rightarrow> vec3 \<Rightarrow> nat \<Rightarrow> swarm_traj list \<Rightarrow> cpp_error + bool" where
  "swarm_near now clearance own p_cur i [] = Inr False"
| "swarm_near now clearance own p_cur i (o1 # os) =
     (if drone_id o1 \<noteq> int i \<or> drone_id o1 = own then swarm_near now clearance own p_cur (Suc i) os
      else bind_result (evaluateDeBoorT (now - sw_start_time o1) (sw_position_traj o1)) (\<lambda>q.
             if vnorm (vsub p_cur q) < clearance then Inr True
             else swarm_near now clearance own p_cur (Suc i) os))"

definition occupied_at :: "env \<Rightarrow> ego \<Rightarrow> vec3 \<Rightarrow> real \<Rightarrow> cpp_error + bool" where
  "occupied_at e s p_cur t =
     bind_result (evaluateDeBoorT t (position_traj (local_data (mgr s)))) (\<lambda>p.
     bind_result (swarm_near (env_now e) (swarm_clearance (mgr s)) (plan_drone_id (pp (mgr s))) p_cur 0
                    (swarm_trajs_buf (mgr s)))
       (\<lambda>near. Inr (env_occupancy e p \<noteq> 0 \<or> near)))"

text \<open>
  The walk along the trajectory: the first time that is occupied.  If the present time lies in the
  first two thirds of the trajectory, the walk ends there.
\<close>

fun first_occupied :: "(real \<Rightarrow> cpp_error + bool) \<Rightarrow> real \<Rightarrow> real \<Rightarrow> real list \<Rightarrow> cpp_error + real option" where
  "first_occupied occ t_cur t_2_3 [] = Inr None"
| "first_occupied occ t_cur t_2_3 (t # ts) =
     (if t_cur < t_2_3 \<and> t \<ge> t_2_3 then Inr None
      else bind_result (occ t) (\<lambda>b. if b then Inr (Some t) else first_occupied occ t_cur t_2_3 ts))"

text \<open>The reaction to an occupied point.\<close>

definition make_a_chance :: "env \<Rightarrow> real \<Rightarrow> real \<Rightarrow> ego \<Rightarrow> cpp_error + ego" where
  "make_a_chance e t_cur t s =
     bind_result (planFromCurrentTraj e 1 s) (\<lambda>(success, s1).
       if success then publishSwarmTrajs False (changeFSMExecState EXEC_TRAJ s1)
       else if t - t_cur < emergency_time s1 then Inr (changeFSMExecState EMERGENCY_STOP s1)
       else Inr (changeFSMExecState REPLAN_TRAJ s1))"

definition checkCollisionCallback :: "env \<Rightarrow> ego \<Rightarrow> cpp_error + ego" where
  "checkCollisionCallback e s =
     (let info = local_data (mgr s)
      in if exec_state s = WAIT_TARGET \<or> start_time info < 1 / 100000 then Inr s
         else let s1 = (if env_depth_timeout e then changeFSMExecState EMERGENCY_STOP (s\<lparr>enable_fail_safe := False\<rparr>) else s);
                  t_cur = env_now e - start_time info
              in bind_result (evaluateDeBoorT t_cur (position_traj info)) (\<lambda>p_cur.
                 bind_result (first_occupied (occupied_at e s1 p_cur) t_cur (duration info * 2 / 3)
                                (loop_times t_cur (duration info) (1 / 100))) (\<lambda>hit.
                   case hit of None \<Rightarrow> Inr s1 | Some t \<Rightarrow> make_a_chance e t_cur t s1)))"

section \<open>Messages\<close>

definition checkTargetExistCallback :: "ego \<Rightarrow> ego" where
  "checkTargetExistCallback s = (if \<not> have_target s then post_output [NoTarget] s else s)"

definition triggerCallback :: "ego \<Rightarrow> ego" where
  "triggerCallback s = s\<lparr>have_trigger := True, init_pt := odom_pos s\<rparr>"

definition waypointCallback :: "solver \<Rightarrow> env \<Rightarrow> vec3 \<Rightarrow> ego \<Rightarrow> cpp_error + ego" where
  "waypointCallback k e p s =
     (if vz p < - (1 / 10) then Inr s
      else planNextWaypoint k e (Vec3 (vx p) (vy p) 1) (s\<lparr>init_pt := odom_pos s\<rparr>))"

definition odometryCallback :: "vec3 \<Rightarrow> vec3 \<Rightarrow> ego \<Rightarrow> ego" where
  "odometryCallback p v s = s\<lparr>odom_pos := p, odom_vel := v, have_odom := True\<rparr>"

text \<open>
  A trajectory of another drone becomes an entry of the buffer: nothing if it is too far away.
  \<open>cut\<close> reads the duration from the knots, counted from their end.
\<close>

definition blank_traj :: "swarm_traj \<Rightarrow> swarm_traj" where
  "blank_traj old = old\<lparr>drone_id := - 1\<rparr>"

definition swarm_start :: "bspline_msg \<Rightarrow> cpp_error + vec3" where
  "swarm_start m =
     bind_result (fetch (msg_pos_pts m) 0) (\<lambda>cp0.
     bind_result (fetch (msg_pos_pts m) 1) (\<lambda>cp1.
     bind_result (fetch (msg_pos_pts m) 2) (\<lambda>cp2.
       Inr (vscale (1 / 6) (vadd (vadd cp0 (vscale 4 cp1)) cp2)))))"

definition knot_from_end :: "bspline_msg \<Rightarrow> nat \<Rightarrow> cpp_error + real" where
  "knot_from_end m n =
     (if n \<le> length (msg_knots m) then fetch (msg_knots m) (length (msg_knots m) - n) else Inl OutOfBounds)"

definition swarm_duration :: "bspline_msg \<Rightarrow> cpp_error + real" where
  "swarm_duration m =
     (let cutback = of_int (msg_order m) / 2 + 3 / 2 :: real
      in if msg_order m mod 2 \<noteq> 0 then knot_from_end m (nat \<lceil>cutback\<rceil>)
         else bind_result (knot_from_end m (nat \<lfloor>cutback\<rfloor>)) (\<lambda>a.
              bind_result (knot_from_end m (nat \<lceil>cutback\<rceil>)) (\<lambda>b. Inr ((a + b) / 2))))"

definition swarm_entry :: "nat \<Rightarrow> bspline_msg \<Rightarrow> swarm_traj \<Rightarrow> cpp_error + swarm_traj" where
  "swarm_entry i m old =
     bind_result (swarm_duration m) (\<lambda>T.
     bind_result (fetch (msg_knots m) 1) (\<lambda>k1.
     bind_result (fetch (msg_knots m) 0) (\<lambda>k0.
     bind_result (msg_spline (k1 - k0) m) (\<lambda>traj.
     bind_result (evaluateDeBoorT 0 traj) (\<lambda>p0.
       Inr (old\<lparr>drone_id := int i, sw_duration := T, sw_position_traj := traj, sw_start_pos := p0,
                sw_start_time := msg_start_time m\<rparr>))))))"

definition far_away :: "ego \<Rightarrow> vec3 \<Rightarrow> bool" where
  "far_away s p \<longleftrightarrow> vnorm (vsub p (odom_pos s)) > planning_horizen s * 4 / 3"

definition receive_traj :: "ego \<Rightarrow> nat \<Rightarrow> bspline_msg \<Rightarrow> swarm_traj \<Rightarrow> cpp_error + bool \<times> swarm_traj" where
  "receive_traj s i m old =
     bind_result (swarm_start m) (\<lambda>p.
       if far_away s p then Inr (False, blank_traj old)
       else bind_result (swarm_entry i m old) (\<lambda>o1. Inr (True, o1)))"

definition blank_swarm :: swarm_traj where
  "blank_swarm = \<lparr>drone_id = - 1, sw_duration = 0, sw_start_time = 0, sw_start_pos = vzero,
     sw_position_traj = blank_spline\<rparr>"

definition set_swarm :: "swarm_traj list \<Rightarrow> ego \<Rightarrow> ego" where
  "set_swarm buf s = s\<lparr>mgr := (mgr s)\<lparr>swarm_trajs_buf := buf\<rparr>\<rparr>"

text \<open>A negative id makes the filling of the buffer exhaust the memory.\<close>

definition BroadcastBsplineCallback :: "env \<Rightarrow> bspline_msg \<Rightarrow> ego \<Rightarrow> cpp_error + ego" where
  "BroadcastBsplineCallback e m s =
     (if msg_drone_id m = plan_drone_id (pp (mgr s)) then Inr s
      else if \<bar>env_now e - msg_start_time m\<bar> > 1 / 4 then Inr s
      else if msg_drone_id m < 0 then Inl OutOfBounds
      else let i = nat (msg_drone_id m); buf = swarm_trajs_buf (mgr s);
               buf' = buf @ replicate (Suc i - length buf) blank_swarm
           in bind_result (receive_traj s i m (buf' ! i)) (\<lambda>(stored, o1).
                let s1 = set_swarm (buf'[i := o1]) s
                in if \<not> stored then Inr s1
                   else bind_result (checkCollision (swarm_clearance (mgr s)) (local_data (mgr s)) (buf'[i := o1]) i)
                          (\<lambda>collides. Inr (if collides then changeFSMExecState REPLAN_TRAJ s1 else s1))))"

fun receive_all :: "ego \<Rightarrow> nat \<Rightarrow> bspline_msg list \<Rightarrow> cpp_error + swarm_traj list" where
  "receive_all s i [] = Inr []"
| "receive_all s i (m # ms) =
     bind_result (receive_traj s i m blank_swarm) (\<lambda>(stored, o1).
     bind_result (receive_all s (Suc i) ms) (\<lambda>os. Inr (o1 # os)))"

definition swarmTrajsCallback :: "int \<Rightarrow> bspline_msg list \<Rightarrow> ego \<Rightarrow> cpp_error + ego" where
  "swarmTrajsCallback drone_id_from ms s0 =
     (let s = s0\<lparr>multi_bspline_msgs_buf := (drone_id_from, ms)\<rparr>
      in if \<not> have_odom s then Inr s
         else if int (length ms) \<noteq> drone_id_from + 1 then Inr s
         else bind_result (fetch ms 0) (\<lambda>m.
           if msg_order m \<noteq> 3 then Inr s
           else bind_result (receive_all s 0 ms) (\<lambda>buf. Inr ((set_swarm buf s)\<lparr>have_recv_pre_agent := True\<rparr>))))"

section \<open>Events\<close>

text \<open>The subscriptions of \<open>init\<close>: three of them exist only for one kind of target or a later drone.\<close>

datatype ego_event =
    Exec env
  | Safety env
  | TargetCheck
  | Odometry vec3 vec3
  | Trigger
  | Waypoint env vec3
  | Broadcast env bspline_msg
  | SwarmMsg int "bspline_msg list"
  | SpinCheck
  | InitCheck env

fun ego_handle :: "solver \<Rightarrow> ego_event \<Rightarrow> ego \<Rightarrow> cpp_error + ego" where
  "ego_handle k (Exec e) s = execFSMCallback k e s"
| "ego_handle k (Safety e) s = checkCollisionCallback e s"
| "ego_handle k TargetCheck s = Inr (checkTargetExistCallback s)"
| "ego_handle k (Odometry p v) s = Inr (odometryCallback p v s)"
| "ego_handle k Trigger s = Inr (if target_type s = PRESET_TARGET then triggerCallback s else s)"
| "ego_handle k (Waypoint e p) s = (if target_type s = MANUAL_TARGET then waypointCallback k e p s else Inr s)"
| "ego_handle k (Broadcast e m) s = BroadcastBsplineCallback e m s"
| "ego_handle k (SwarmMsg i ms) s = (if plan_drone_id (pp (mgr s)) \<ge> 1 then swarmTrajsCallback i ms s else Inr s)"
| "ego_handle k SpinCheck s = Inr (spin_check s)"
| "ego_handle k (InitCheck e) s = init_check k e s"

end
