(* ===== verification/EgoPlanning.thy ===== *)
theory EgoPlanning
  imports EgoCallbacks
begin

text \<open>
  The planning helpers of the state machine never fail on a well-formed global trajectory, and what
  they change.  \<open>sent\<close> is what the trajectory server has been given, \<open>in_sync\<close> says that the last
  of it is the local trajectory, and \<open>attempt\<close> is what one attempt to replan may do.
\<close>

section \<open>Well-formed global trajectories\<close>

definition global_ok :: "global_traj_data \<Rightarrow> bool" where
  "global_ok g \<longleftrightarrow> well_segmented (global_traj g) \<and> sum_list (times (global_traj g)) = global_duration g
     \<and> local_start_time g = - 1 \<and> local_end_time g = - 1 \<and> time_increase g = 0 \<and> last_time_inc g = 0
     \<and> 0 \<le> last_progress_time g \<and> last_progress_time g \<le> global_duration g"

lemma global_at_ok:
  assumes g: "global_ok g" and t: "0 \<le> t" "t \<le> global_duration g" and "least \<le> 2"
    and b: "time_increase g = 0 \<Longrightarrow> last_time_inc g = 0 \<Longrightarrow> b g = 0"
  shows "\<exists>p. global_at (evaluate_with least f) b n t g = Inr p"
  using evaluate_with_ok [of "global_traj g" t least f] assms by (auto simp: global_at_def global_ok_def)

lemma getPosition_ok: "global_ok g \<Longrightarrow> 0 \<le> t \<Longrightarrow> t \<le> global_duration g \<Longrightarrow> \<exists>p. getPosition t g = Inr p"
  using global_at_ok [of g t 0] by (simp add: getPosition_def evaluate_def [abs_def])

lemma getVelocity_ok: "global_ok g \<Longrightarrow> 0 \<le> t \<Longrightarrow> t \<le> global_duration g \<Longrightarrow> \<exists>p. getVelocity t g = Inr p"
  using global_at_ok [of g t 1] by (simp add: getVelocity_def evaluateVel_def [abs_def])

section \<open>The local target\<close>

lemma scan_near_ok:
  assumes "global_ok g" "0 < st"
  shows "0 \<le> t \<Longrightarrow> \<exists>t' q. scan_near g f h st t = Inr (t', q)"
  using assms
proof (induction g f h st t rule: scan_near.induct)
  case (1 g f h st t)
  show ?case
  proof (cases "t \<ge> global_duration g")
    case True
    then show ?thesis by (simp add: scan_near.simps)
  next
    case False
    with "1.prems" obtain p where p: "getPosition t g = Inr p" using getPosition_ok [of g t] by auto
    show ?thesis
    proof (cases "vnorm (vsub p f) < h")
      case True
      with False p "1.prems" show ?thesis by (subst scan_near.simps) simp
    next
      case no: False
      have "\<exists>t' q. scan_near g f h st (t + st) = Inr (t', q)"
        using False p no "1.prems" by (intro "1.IH" [OF _ _ p no]) simp_all
      with False p no "1.prems" show ?thesis by (subst scan_near.simps) simp
    qed
  qed
qed

lemma scan_here_ok:
  assumes "global_ok g" "0 < st" "0 \<le> t" "t \<le> global_duration g"
  shows "\<exists>t' p. scan_here g f h st fi t = Inr (t', p) \<and> t \<le> t'"
proof -
  obtain p where p: "getPosition t g = Inr p" using getPosition_ok assms by blast
  obtain t' q where "scan_near g f h st t = Inr (t', q)" using scan_near_ok assms by blast
  with p show ?thesis by (auto simp: scan_here_def dest: scan_near_later)
qed

text \<open>
  The walk ends either past the trajectory or with a target and a progress time that was walked
  over.
\<close>

lemma scan_target_ok:
  assumes "global_ok g" "0 < st"
  shows "0 \<le> t \<Longrightarrow> 0 \<le> dmt \<Longrightarrow> dmt \<le> t \<Longrightarrow> \<exists>t' r. scan_target g f h st fi dm dmt t = Inr (t', r) \<and> t \<le> t'
    \<and> (case r of None \<Rightarrow> global_duration g \<le> t' | Some (p, progress) \<Rightarrow> 0 \<le> progress \<and> progress \<le> t')"
  using assms
proof (induction g f h st fi dm dmt t rule: scan_target.induct)
  case (1 g f h st fi dm dmt t)
  show ?case
  proof (cases "t \<ge> global_duration g")
    case True
    then show ?thesis by (simp add: scan_target.simps)
  next
    case False
    with "1.prems" obtain t' p where p: "scan_here g f h st fi t = Inr (t', p)" "t \<le> t'"
      using scan_here_ok [of g st t] by fastforce
    define dm' where "dm' = (if vnorm (vsub p f) < dm then vnorm (vsub p f) else dm)"
    define dmt' where "dmt' = (if vnorm (vsub p f) < dm then t' else dmt)"
    have d: "0 \<le> dmt'" "dmt' \<le> t'" using "1.prems" p by (auto simp: dmt'_def)
    have eq: "scan_target g f h st fi dm dmt t =
        (if vnorm (vsub p f) \<ge> h then Inr (t', Some (p, dmt')) else scan_target g f h st fi dm' dmt' (t' + st))"
      using False p "1.prems" by (subst scan_target.simps) (simp add: dm'_def dmt'_def Let_def)
    show ?thesis
    proof (cases "vnorm (vsub p f) \<ge> h")
      case True
      with eq d p show ?thesis by simp
    next
      case no: False
      have "\<exists>t'' r. scan_target g f h st fi dm' dmt' (t' + st) = Inr (t'', r) \<and> t' + st \<le> t''
          \<and> (case r of None \<Rightarrow> global_duration g \<le> t'' | Some (p, progress) \<Rightarrow> 0 \<le> progress \<and> progress \<le> t'')"
        using False p no d "1.prems"
        by (intro "1.IH" [OF _ _ p(1) refl refl refl _ no]) (auto simp: dm'_def dmt'_def)
      with eq no p "1.prems" show ?thesis by force
    qed
  qed
qed

section \<open>What an attempt to replan changes\<close>

definition params_ok :: "ego \<Rightarrow> bool" where
  "params_ok s \<longleftrightarrow> 0 < max_vel (pp (mgr s)) \<and> 0 < max_acc (pp (mgr s)) \<and> 0 < planning_horizen s
     \<and> 0 \<le> plan_drone_id (pp (mgr s))"

definition env_ok :: "env \<Rightarrow> bool" where
  "env_ok e \<longleftrightarrow> (\<forall>poly random i. rebound_ok (env_replan e poly random i))"

definition sent :: "ego_output list \<Rightarrow> bspline_msg list" where
  "sent os = concat (map (\<lambda>out. case out of ToServer m \<Rightarrow> [m] | _ \<Rightarrow> []) os)"

lemma sent_simps [simp]:
  "sent [] = []" "sent (os @ os') = sent os @ sent os'" "sent (ToServer m # os) = m # sent os"
  "sent (ToSwarm m # os) = sent os" "sent (SwarmTrajs i ms # os) = sent os" "sent (EgoReady # os) = sent os"
  "sent (NoTarget # os) = sent os" "sent (DataDisp # os) = sent os"
  by (simp_all add: sent_def)

abbreviation local_msg :: "ego \<Rightarrow> bspline_msg" where
  "local_msg s \<equiv> spline_msg 0 (traj_id (local_data (mgr s))) (start_time (local_data (mgr s)))
                   (position_traj (local_data (mgr s)))"

definition in_sync :: "ego \<Rightarrow> bool" where
  "in_sync s \<longleftrightarrow> local_ok (local_data (mgr s)) \<and> sent (outputs s) \<noteq> [] \<and> last (sent (outputs s)) = local_msg s"

text \<open>Everything but the plan, its start and target, and the messages stays.\<close>

definition replans :: "ego \<Rightarrow> ego \<Rightarrow> bool" where
  "replans s s' \<longleftrightarrow> exec_state s' = exec_state s \<and> flag_escape_emergency s' = flag_escape_emergency s
     \<and> enable_fail_safe s' = enable_fail_safe s \<and> have_trigger s' = have_trigger s \<and> have_target s' = have_target s
     \<and> have_odom s' = have_odom s \<and> have_recv_pre_agent s' = have_recv_pre_agent s
     \<and> target_type s' = target_type s \<and> waypoint_num s' = waypoint_num s \<and> waypoints s' = waypoints s
     \<and> wps s' = wps s \<and> wp_id s' = wp_id s \<and> planning_horizen s' = planning_horizen s
     \<and> emergency_time s' = emergency_time s \<and> odom_vel s' = odom_vel s \<and> in_init s' = in_init s \<and> waiting s' = waiting s
     \<and> multi_bspline_msgs_buf s' = multi_bspline_msgs_buf s
     \<and> pp (mgr s') = pp (mgr s) \<and> swarm_trajs_buf (mgr s') = swarm_trajs_buf (mgr s)"

definition attempt :: "ego \<Rightarrow> bool \<Rightarrow> ego \<Rightarrow> bool" where
  "attempt s b s' \<longleftrightarrow> replans s s' \<and> global_ok (global_data (mgr s'))
     \<and> (if b then local_ok (local_data (mgr s')) \<and> sent (outputs s') = sent (outputs s) @ [local_msg s']
        else local_data (mgr s') = local_data (mgr s) \<and> outputs s' = outputs s)"

lemma attempt_then: "attempt s False s' \<Longrightarrow> attempt s' b s'' \<Longrightarrow> attempt s b s''"
  by (simp add: attempt_def replans_def)

lemma attempt_start: "attempt (s\<lparr>start_pt := p, start_vel := v, start_acc := a\<rparr>) b s' = attempt s b s'"
  by (simp add: attempt_def replans_def)

lemma attempt_params: "attempt s b s' \<Longrightarrow> params_ok s' = params_ok s"
  by (simp add: attempt_def replans_def params_ok_def)

lemma attempt_ready: "attempt s b s' \<Longrightarrow> params_ok s \<Longrightarrow> params_ok s' \<and> global_ok (global_data (mgr s'))"
  by (simp add: attempt_params) (simp add: attempt_def)

lemma attempt_in_sync: "attempt s b s' \<Longrightarrow> b \<or> in_sync s \<Longrightarrow> in_sync s'"
  by (auto simp: attempt_def in_sync_def split: if_splits)

lemma getLocalTarget_ok:
  assumes p: "params_ok s" and g: "global_ok (global_data (mgr s))"
  shows "\<exists>s'. getLocalTarget s = Inr s' \<and> attempt s False s'"
proof -
  let ?m = "mgr s" and ?g = "global_data (mgr s)"
  let ?st = "planning_horizen s / 20 / max_vel (pp ?m)" and ?f = "last_progress_time ?g"
  have st: "0 < ?st" using p by (simp add: params_ok_def)
  have "0 \<le> ?f" using g by (simp add: global_ok_def)
  then obtain t r where scan: "scan_target ?g (start_pt s) (planning_horizen s) ?st ?f 9999 0 ?f = Inr (t, r)"
    "?f \<le> t" "case r of None \<Rightarrow> global_duration ?g \<le> t | Some (p, progress) \<Rightarrow> 0 \<le> progress \<and> progress \<le> t"
    using scan_target_ok [OF g st, of ?f 0] by blast
  define tp where "tp = (if t > global_duration ?g then (end_pt s, global_duration ?g)
    else case r of None \<Rightarrow> (local_target_pt s, ?f) | Some (p, dmt) \<Rightarrow> (p, dmt))"
  obtain target progress where tp': "tp = (target, progress)" by (cases tp)
  have progress: "0 \<le> progress" "progress \<le> global_duration ?g"
    using tp' scan g by (auto simp: tp_def global_ok_def split: if_splits option.splits)
  have brake: "0 < max_vel (pp ?m) * max_vel (pp ?m) / (2 * max_acc (pp ?m))" using p by (simp add: params_ok_def)
  let ?s' = "s\<lparr>local_target_pt := target, mgr := ?m\<lparr>global_data := ?g\<lparr>last_progress_time := progress\<rparr>\<rparr>\<rparr>"
  have global: "global_ok (?g\<lparr>last_progress_time := progress\<rparr>)" using g progress by (simp add: global_ok_def)
  have run: "getLocalTarget s = (if vnorm (vsub (end_pt s) target) < max_vel (pp ?m) * max_vel (pp ?m) / (2 * max_acc (pp ?m))
      then Inr (?s'\<lparr>local_target_vel := vzero\<rparr>)
      else bind_result (getVelocity t ?g) (\<lambda>v. Inr (?s'\<lparr>local_target_vel := v\<rparr>)))"
    using p scan(1) tp' unfolding getLocalTarget_def tp_def Let_def
    by (auto simp: params_ok_def split: option.splits prod.splits if_splits)
  have "\<exists>v. getVelocity t ?g = Inr v" if "\<not> vnorm (vsub (end_pt s) target) < max_vel (pp ?m) * max_vel (pp ?m) / (2 * max_acc (pp ?m))"
  proof (cases "t > global_duration ?g")
    case True
    with that brake tp' show ?thesis by (simp add: tp_def)
  next
    case False
    with getVelocity_ok [OF g, of t] scan(2) \<open>0 \<le> ?f\<close> show ?thesis by simp
  qed
  with run global show ?thesis by (auto simp: attempt_def replans_def)
qed

lemma callReboundReplan_ok:
  assumes p: "params_ok s" and g: "global_ok (global_data (mgr s))" and e: "env_ok e"
  shows "\<exists>b s'. callReboundReplan e poly random i s = Inr (b, s') \<and> attempt s b s'"
proof -
  obtain s1 where s1: "getLocalTarget s = Inr s1" "attempt s False s1" using getLocalTarget_ok [OF p g] by blast
  let ?r = "env_replan e (have_new_target s1 \<or> poly) random i"
  have "rebound_ok ?r" "max_vel (pp (mgr s1)) \<noteq> 0" "max_acc (pp (mgr s1)) \<noteq> 0"
    using e p attempt_params [OF s1(2)] by (auto simp: env_ok_def params_ok_def)
  from reboundReplan_cases [OF this, of "start_pt s1" "local_target_pt s1" "env_now e"]
  show ?thesis
  proof (elim disjE exE conjE)
    assume "reboundReplan (start_pt s1) (local_target_pt s1) ?r (env_now e) (mgr s1) = Inr (False, plan_failed (mgr s1))"
    with s1 show ?thesis
      by (intro exI [of _ False]) (simp add: callReboundReplan_def Let_def attempt_def replans_def plan_failed_def)
  next
    fix sp m'
    assume r: "reboundReplan (start_pt s1) (local_target_pt s1) ?r (env_now e) (mgr s1) = Inr (True, m')"
      and d: "plan_done sp (env_now e) (mgr s1) = Inr (True, m')" and sp: "well_knotted sp" "degree sp = 3"
    have "m' = (mgr s1)\<lparr>local_data := local_data m', continous_failures_count := 0\<rparr>" "local_ok (local_data m')"
      using plan_done_ok [OF sp, of "env_now e" "mgr s1"] d by auto
    then have "pp m' = pp (mgr s1)" "swarm_trajs_buf m' = swarm_trajs_buf (mgr s1)" "global_data m' = global_data (mgr s1)"
      "local_ok (local_data m')"
      by (metis manager.ext_inject manager.surjective manager.update_convs(3) manager.update_convs(6))+
    with s1 r show ?thesis
      by (intro exI [of _ True]) (simp add: callReboundReplan_def Let_def attempt_def replans_def post_output_def)
  qed
qed

lemma try_replan_ok:
  "params_ok s \<Longrightarrow> global_ok (global_data (mgr s)) \<Longrightarrow> env_ok e \<Longrightarrow>
    \<exists>b s'. try_replan e poly random i n s = Inr (b, s') \<and> attempt s b s'"
proof (induction n arbitrary: i s)
  case 0
  then show ?case by (intro exI [of _ False]) (simp add: attempt_def replans_def)
next
  case (Suc n)
  obtain b s' where s': "callReboundReplan e poly random i s = Inr (b, s')" "attempt s b s'"
    using callReboundReplan_ok [OF Suc.prems] by blast
  show ?case
  proof (cases b)
    case True
    with s' show ?thesis by (intro exI [of _ b]) simp
  next
    case False
    from attempt_ready [OF s'(2)] Suc.prems have "params_ok s'" "global_ok (global_data (mgr s'))" by blast+
    with Suc.IH [of s' "Suc i"] Suc.prems obtain b'' s'' where
      "try_replan e poly random (Suc i) n s' = Inr (b'', s'')" "attempt s' b'' s''" by blast
    with s' False attempt_then show ?thesis by auto
  qed
qed

lemma planFromGlobalTraj_ok:
  assumes "params_ok s" "global_ok (global_data (mgr s))" "env_ok e"
  shows "\<exists>b s'. planFromGlobalTraj e n s = Inr (b, s') \<and> attempt s b s'"
  using try_replan_ok [of "s\<lparr>start_pt := odom_pos s, start_vel := odom_vel s, start_acc := vzero\<rparr>" e] assms
  by (simp add: planFromGlobalTraj_def attempt_start params_ok_def)

lemma local_ok_evaluate:
  assumes "local_ok l"
  shows "\<exists>p. evaluateDeBoorT t (position_traj l) = Inr p" "\<exists>p. evaluateDeBoorT t (velocity_traj l) = Inr p"
    "\<exists>p. evaluateDeBoorT t (acceleration_traj l) = Inr p"
proof -
  have total: "well_knotted s \<Longrightarrow> \<exists>p. evaluateDeBoorT t s = Inr p" for s
    using evaluateDeBoorT_in [of s UNIV] by (auto simp: convex_set_def)
  from assms have s: "well_knotted (position_traj l)" "degree (position_traj l) = 3" by (simp_all add: local_ok_def)
  with getDerivative_ok [OF s(1)] assms have v: "well_knotted (velocity_traj l)" "degree (velocity_traj l) = 2"
    by (auto simp: local_ok_def)
  with getDerivative_ok [OF v(1)] assms have "well_knotted (acceleration_traj l)" by (auto simp: local_ok_def)
  with total s v show "\<exists>p. evaluateDeBoorT t (position_traj l) = Inr p" "\<exists>p. evaluateDeBoorT t (velocity_traj l) = Inr p"
    "\<exists>p. evaluateDeBoorT t (acceleration_traj l) = Inr p" by blast+
qed

lemma planFromCurrentTraj_ok:
  assumes p: "params_ok s" and g: "global_ok (global_data (mgr s))" and e: "env_ok e" and l: "local_ok (local_data (mgr s))"
  shows "\<exists>b s'. planFromCurrentTraj e n s = Inr (b, s') \<and> attempt s b s'"
proof -
  let ?l = "local_data (mgr s)" and ?t = "env_now e - start_time (local_data (mgr s))"
  obtain a b c where ev: "evaluateDeBoorT ?t (position_traj ?l) = Inr a" "evaluateDeBoorT ?t (velocity_traj ?l) = Inr b"
    "evaluateDeBoorT ?t (acceleration_traj ?l) = Inr c" using local_ok_evaluate [OF l, of ?t] by blast
  define s0 where "s0 = s\<lparr>start_pt := a, start_vel := b, start_acc := c\<rparr>"
  have a0: "attempt s0 x y = attempt s x y" for x y by (simp add: s0_def attempt_start)
  have "params_ok s0" "global_ok (global_data (mgr s0))" using p g by (simp_all add: s0_def params_ok_def)
  then obtain b1 s1 where s1: "callReboundReplan e False False 0 s0 = Inr (b1, s1)" "attempt s b1 s1"
    using callReboundReplan_ok e a0 by blast
  have 1: "params_ok s1" "global_ok (global_data (mgr s1))"
    using attempt_ready [OF s1(2)] p by blast+
  then obtain b2 s2 where s2: "callReboundReplan e True False 1 s1 = Inr (b2, s2)" "attempt s1 b2 s2"
    using callReboundReplan_ok e by blast
  have "params_ok s2" "global_ok (global_data (mgr s2))"
    using attempt_ready [OF s2(2)] 1 by blast+
  then obtain b3 s3 where s3: "try_replan e True True 2 n s2 = Inr (b3, s3)" "attempt s2 b3 s3"
    using try_replan_ok e by blast
  define r where "r = (if b1 then (True, s1) else if b2 then (True, s2) else (b3, s3))"
  have "planFromCurrentTraj e n s = Inr r"
    using ev s1 s2 s3 by (simp add: planFromCurrentTraj_def Let_def s0_def r_def)
  moreover have "attempt s (fst r) (snd r)"
  proof (cases "b1 \<or> b2")
    case True
    with s1(2) s2(2) attempt_then [of s s1 b2 s2] show ?thesis by (cases b1) (simp_all add: r_def)
  next
    case False
    with s1(2) s2(2) attempt_then [of s s1 b2 s2] have "attempt s False s2" by simp
    with False s3(2) attempt_then [of s s2 b3 s3] show ?thesis by (simp add: r_def)
  qed
  ultimately show ?thesis by (cases r) auto
qed

end
