(* ===== verification/EgoSafety.thy ===== *)
theory EgoSafety
  imports EgoPlanning
begin

text \<open>
  The state machine never runs into undefined behaviour: its invariant, and that every callback
  keeps it.  The invariant says when there is a global trajectory to plan on, when there is a local
  trajectory to follow, and that the trajectory server has exactly that one.
\<close>

section \<open>The environment\<close>

text \<open>What the generators of polynomial trajectories promise: one segment for each of the given times.\<close>

definition solver_ok :: "solver \<Rightarrow> bool" where
  "solver_ok k \<longleftrightarrow>
     (\<forall>pts v0 v1 a0 a1 ts. 3 \<le> length pts \<longrightarrow> length ts = length pts - 1 \<longrightarrow>
        well_segmented (minSnapTraj k pts v0 v1 a0 a1 ts) \<and> times (minSnapTraj k pts v0 v1 a0 a1 ts) = ts)
     \<and> (\<forall>p0 v0 a0 p1 v1 a1 t. well_segmented (one_segment k p0 v0 a0 p1 v1 a1 t)
          \<and> times (one_segment k p0 v0 a0 p1 v1 a1 t) = [t])"

text \<open>A message of another drone: a cubic spline that is well formed.\<close>

definition msg_ok :: "bspline_msg \<Rightarrow> bool" where
  "msg_ok m \<longleftrightarrow> (\<exists>s. well_knotted s \<and> degree s = 3 \<and> msg_order m = 3 \<and> msg_knots m = getKnot s
     \<and> msg_pos_pts m = getControlPoint s)"

definition ego_event_ok :: "ego_event \<Rightarrow> bool" where
  "ego_event_ok ev \<longleftrightarrow> (case ev of Exec e \<Rightarrow> env_ok e | Safety e \<Rightarrow> env_ok e
     | Broadcast e m \<Rightarrow> msg_ok m \<and> 0 \<le> msg_drone_id m
     | SwarmMsg i ms \<Rightarrow> ms \<noteq> [] \<and> list_all msg_ok ms | _ \<Rightarrow> True)"

section \<open>A new target\<close>

lemma segment_times_ok:
  assumes "0 < v" "2 \<le> length pts"
  shows "length (segment_times v pts) = length pts - 1" "\<forall>t \<in> set (segment_times v pts). 0 \<le> t"
proof -
  let ?ts = "map (\<lambda>i. vnorm (vsub (pts ! (i + 1)) (pts ! i)) / v) [0..<length pts - 1]"
  show "length (segment_times v pts) = length pts - 1" by (simp add: segment_times_def Let_def)
  have pos: "list_all (\<lambda>t. 0 \<le> t) ?ts" using assms by (simp add: list_all_iff)
  have double: "list_all (\<lambda>t::real. 0 \<le> t) ts \<Longrightarrow> list_all (\<lambda>t. 0 \<le> t) (ts[i := ts ! i * 2])" for ts i
    by (cases "i < length ts") (auto simp: list_all_length nth_list_update list_update_beyond)
  from double [OF double [OF pos]] show "\<forall>t \<in> set (segment_times v pts). 0 \<le> t"
    by (simp add: segment_times_def Let_def list_all_iff)
qed

lemma planGlobalTraj_ok:
  assumes v: "0 < max_vel (pp m)" and k: "solver_ok k"
  shows "\<exists>g. planGlobalTraj k p0 v0 a0 p1 v1 a1 now m = Inr (True, m\<lparr>global_data := g\<rparr>) \<and> global_ok g"
proof -
  let ?pts = "inter_points p0 p1"
  let ?ts = "segment_times (max_vel (pp m)) ?pts"
  have len: "2 \<le> length ?pts" by (simp add: inter_points_def Let_def)
  note ts = segment_times_ok [OF v this]
  define p where "p = (if 3 \<le> length ?pts then minSnapTraj k ?pts v0 v1 a0 a1 ?ts
    else one_segment k p0 v0 a0 p1 v1 a1 (?ts ! 0))"
  have "?ts = [?ts ! 0]" if "\<not> 3 \<le> length ?pts"
  proof -
    have "length ?ts = Suc 0" using that len ts(1) by linarith
    then show ?thesis by (auto simp: length_Suc_conv)
  qed
  then have p: "well_segmented p" "times p = ?ts" using k ts(1) by (auto simp: p_def solver_ok_def)
  have "planGlobalTraj k p0 v0 a0 p1 v1 a1 now m = Inr (True, m\<lparr>global_data := setGlobalTraj p now (global_data m)\<rparr>)"
    using v len by (simp add: planGlobalTraj_def Let_def p_def)
  moreover have "0 \<le> sum_list ?ts" using ts(2) by (simp add: sum_list_nonneg)
  then have "global_ok (setGlobalTraj p now (global_data m))"
    using p by (simp add: global_ok_def setGlobalTraj_def init_traj_def well_segmented_def)
  ultimately show ?thesis by blast
qed

lemma display_samples_ok: "global_ok g \<Longrightarrow> \<exists>ps. display_samples g = Inr ps"
proof -
  assume g: "global_ok g"
  then have "0 \<le> \<lfloor>global_duration g / (1 / 10)\<rfloor>" by (simp add: global_ok_def)
  moreover have "\<exists>p. evaluate (real i * (1 / 10)) (global_traj g) = Inr p" if "i < nat \<lfloor>global_duration g / (1 / 10)\<rfloor>" for i
  proof -
    from that have "real i \<le> global_duration g / (1 / 10)" by linarith
    then have "real i * (1 / 10) \<le> sum_list (times (global_traj g)) + 1 / 10000" using g by (simp add: global_ok_def)
    then show ?thesis using g evaluate_with_ok by (auto simp: evaluate_def global_ok_def)
  qed
  then have "map_result (\<lambda>i. evaluate (real i * (1 / 10)) (global_traj g)) [0..<nat \<lfloor>global_duration g / (1 / 10)\<rfloor>]
      = Inr (map (\<lambda>i. projr (evaluate (real i * (1 / 10)) (global_traj g))) [0..<nat \<lfloor>global_duration g / (1 / 10)\<rfloor>])"
    by (intro map_result_ok) fastforce
  ultimately show ?thesis by (simp add: display_samples_def Let_def)
qed

text \<open>What a new target changes; \<open>after_target\<close> is the state of the machine then.\<close>

definition after_target :: "exec_state \<Rightarrow> exec_state" where
  "after_target st = (if st = WAIT_TARGET then GEN_NEW_TRAJ else if st = EXEC_TRAJ then REPLAN_TRAJ else st)"

definition targets :: "ego \<Rightarrow> ego \<Rightarrow> bool" where
  "targets s s' \<longleftrightarrow> flag_escape_emergency s' = flag_escape_emergency s
     \<and> enable_fail_safe s' = enable_fail_safe s \<and> have_trigger s' = have_trigger s \<and> have_target s'
     \<and> have_odom s' = have_odom s \<and> have_recv_pre_agent s' = have_recv_pre_agent s
     \<and> target_type s' = target_type s \<and> waypoint_num s' = waypoint_num s \<and> waypoints s' = waypoints s
     \<and> wps s' = wps s \<and> wp_id s' = wp_id s \<and> planning_horizen s' = planning_horizen s
     \<and> in_init s' = in_init s \<and> outputs s' = outputs s \<and> exec_state s' = after_target (exec_state s)
     \<and> pp (mgr s') = pp (mgr s) \<and> swarm_trajs_buf (mgr s') = swarm_trajs_buf (mgr s)
     \<and> local_data (mgr s') = local_data (mgr s) \<and> global_ok (global_data (mgr s'))"

lemma planNextWaypoint_ok:
  assumes p: "params_ok s" and k: "solver_ok k"
  shows "\<exists>s'. planNextWaypoint k e wp s = Inr s' \<and> targets s s'"
proof -
  have "0 < max_vel (pp (mgr s))" using p by (simp add: params_ok_def)
  from planGlobalTraj_ok [OF this k] obtain g where g:
    "planGlobalTraj k (odom_pos s) (odom_vel s) vzero wp vzero vzero (env_now e) (mgr s) = Inr (True, (mgr s)\<lparr>global_data := g\<rparr>)"
    "global_ok g" by blast
  obtain ps where "display_samples g = Inr ps" using display_samples_ok [OF g(2)] by blast
  with g show ?thesis
    by (simp add: planNextWaypoint_def targets_def after_target_def changeFSMExecState_def Let_def)
qed

section \<open>Messages of other drones\<close>

definition swarm_ok :: "swarm_traj \<Rightarrow> bool" where
  "swarm_ok o1 \<longleftrightarrow> drone_id o1 = - 1 \<or> well_knotted (sw_position_traj o1)"

lemma evaluateDeBoorT_ok: "well_knotted s \<Longrightarrow> \<exists>p. evaluateDeBoorT t s = Inr p"
  using evaluateDeBoorT_in [of s UNIV] by (auto simp: convex_set_def)

lemma swarm_ok_blank [simp]: "swarm_ok (blank_traj o1)" "swarm_ok blank_swarm"
  by (simp_all add: swarm_ok_def blank_traj_def blank_swarm_def)

lemma receive_traj_ok:
  assumes "msg_ok m"
  shows "\<exists>b o1. receive_traj s i m old = Inr (b, o1) \<and> swarm_ok o1 \<and> (b \<longrightarrow> well_knotted (sw_position_traj o1))"
proof -
  obtain sp where sp: "well_knotted sp" "degree sp = 3" and m: "msg_order m = 3" "msg_knots m = getKnot sp"
    "msg_pos_pts m = getControlPoint sp" using assms by (auto simp: msg_ok_def)
  have pts: "3 < length (msg_pos_pts m)" using sp m by (simp add: well_knotted_def getControlPoint_def)
  have knots: "7 < length (msg_knots m)" using sp m by (auto simp: well_knotted_def getKnot_def)
  have "fetch (msg_pos_pts m) i = Inr (msg_pos_pts m ! i)" if "i \<le> 2" for i using pts that by simp
  then obtain p where p: "swarm_start m = Inr p" by (simp add: swarm_start_def)
  have T: "\<exists>T. swarm_duration m = Inr T" using knots m(1) by (simp add: swarm_duration_def knot_from_end_def)
  have "m = spline_msg (msg_drone_id m) (msg_traj_id m) (msg_start_time m) sp"
    using m by (cases m) (simp add: spline_msg_def)
  then have traj: "msg_spline h m = Inr (sp\<lparr>knot_span := h, limits := None\<rparr>)" for h
    using msg_spline_round [OF sp] by metis
  have wk: "well_knotted (sp\<lparr>knot_span := h, limits := None\<rparr>)" for h using sp(1) by (simp add: well_knotted_cong)
  let ?sp = "sp\<lparr>knot_span := msg_knots m ! 1 - msg_knots m ! 0, limits := None\<rparr>"
  obtain d where d: "swarm_duration m = Inr d" using T by blast
  obtain p0 where p0: "evaluateDeBoorT 0 ?sp = Inr p0" using evaluateDeBoorT_ok [OF wk] by blast
  have "fetch (msg_knots m) 1 = Inr (msg_knots m ! 1)" "fetch (msg_knots m) 0 = Inr (msg_knots m ! 0)"
    using knots by (auto simp: fetch_def)
  then have "swarm_entry i m old = Inr (old\<lparr>drone_id := int i, sw_duration := d, sw_position_traj := ?sp, sw_start_pos := p0,
      sw_start_time := msg_start_time m\<rparr>)"
    using d traj p0 by (simp only: swarm_entry_def bind_result.simps)
  moreover have "well_knotted (sw_position_traj (old\<lparr>drone_id := int i, sw_duration := d, sw_position_traj := ?sp, sw_start_pos := p0,
      sw_start_time := msg_start_time m\<rparr>))" using wk [of "msg_knots m ! 1 - msg_knots m ! 0"] by simp
  ultimately obtain o1 where "swarm_entry i m old = Inr o1" "well_knotted (sw_position_traj o1)" by blast
  then have "receive_traj s i m old = Inr (if far_away s p then (False, blank_traj old) else (True, o1))" "swarm_ok o1"
    using p by (simp_all add: receive_traj_def swarm_ok_def)
  with \<open>well_knotted (sw_position_traj o1)\<close> show ?thesis by (cases "far_away s p") fastforce+
qed

lemma receive_all_ok: "list_all msg_ok ms \<Longrightarrow> \<exists>buf. receive_all s i ms = Inr buf \<and> list_all swarm_ok buf"
proof (induction ms arbitrary: i)
  case (Cons m ms)
  then obtain buf where "receive_all s (Suc i) ms = Inr buf" "list_all swarm_ok buf" by fastforce
  with receive_traj_ok [of m s i blank_swarm] Cons.prems show ?case by auto
qed simp

section \<open>The invariant\<close>

text \<open>
  \<open>has_plan\<close>: there is a global trajectory, and for preset targets a current way point.  \<open>flying\<close>: the
  local trajectory is well formed and the one the server has.  \<open>idle\<close>: none was ever sent.
\<close>

definition has_plan :: "ego \<Rightarrow> bool" where
  "has_plan s \<longleftrightarrow> global_ok (global_data (mgr s))
     \<and> (target_type s = PRESET_TARGET \<longrightarrow>
          0 \<le> wp_id s \<and> wp_id s < waypoint_num s \<and> length (wps s) = nat (waypoint_num s))"

definition flying :: "ego \<Rightarrow> bool" where
  "flying s \<longleftrightarrow> has_plan s \<and> in_sync s"

definition idle :: "ego \<Rightarrow> bool" where
  "idle s \<longleftrightarrow> start_time (local_data (mgr s)) = 0 \<and> sent (outputs s) = []"

definition ego_base :: "ego \<Rightarrow> bool" where
  "ego_base s \<longleftrightarrow> params_ok s \<and> list_all swarm_ok (swarm_trajs_buf (mgr s))
     \<and> nat (waypoint_num s) \<le> length (waypoints s) \<and> (idle s \<or> flying s) \<and> (have_target s \<longrightarrow> has_plan s)"

definition ego_inv :: "ego \<Rightarrow> bool" where
  "ego_inv s \<longleftrightarrow> ego_base s \<and> (exec_state s = GEN_NEW_TRAJ \<longrightarrow> has_plan s)
     \<and> (exec_state s \<in> {REPLAN_TRAJ, EXEC_TRAJ, EMERGENCY_STOP} \<longrightarrow> flying s)"

lemmas ego_inv_defs = ego_inv_def ego_base_def has_plan_def flying_def idle_def in_sync_def params_ok_def

lemma changeFSMExecState_simps [simp]:
  "exec_state (changeFSMExecState st s) = st" "mgr (changeFSMExecState st s) = mgr s"
  "outputs (changeFSMExecState st s) = outputs s" "flag_escape_emergency (changeFSMExecState st s) = flag_escape_emergency s"
  "enable_fail_safe (changeFSMExecState st s) = enable_fail_safe s" "wps (changeFSMExecState st s) = wps s"
  "multi_bspline_msgs_buf (changeFSMExecState st s) = multi_bspline_msgs_buf s"
  "have_target (changeFSMExecState st s) = have_target s" "have_trigger (changeFSMExecState st s) = have_trigger s"
  "ego_base (changeFSMExecState st s) = ego_base s" "has_plan (changeFSMExecState st s) = has_plan s"
  "flying (changeFSMExecState st s) = flying s" "params_ok (changeFSMExecState st s) = params_ok s"
  "target_type (changeFSMExecState st s) = target_type s"
  by (simp_all add: changeFSMExecState_def ego_inv_defs)

lemma post_output_simps [simp]:
  "exec_state (post_output os s) = exec_state s" "mgr (post_output os s) = mgr s" "outputs (post_output os s) = outputs s @ os"
  "flag_escape_emergency (post_output os s) = flag_escape_emergency s" "enable_fail_safe (post_output os s) = enable_fail_safe s"
  "have_target (post_output os s) = have_target s" "have_trigger (post_output os s) = have_trigger s"
  "has_plan (post_output os s) = has_plan s"
  by (simp_all add: post_output_def has_plan_def)

text \<open>Messages that do not go to the server keep all parts of the invariant.\<close>

lemma post_output_other [simp]:
  assumes "sent os = []"
  shows "ego_base (post_output os s) = ego_base s" "flying (post_output os s) = flying s" "ego_inv (post_output os s) = ego_inv s"
  using assms by (simp_all add: post_output_def ego_inv_defs)

lemma flying_replanned: "flying s \<Longrightarrow> global_ok (global_data (mgr s)) \<and> local_ok (local_data (mgr s))"
  by (simp add: flying_def has_plan_def in_sync_def)

lemma attempt_kept:
  assumes s: "ego_base s" "has_plan s" and a: "attempt s b s'"
  shows "ego_base s'" "has_plan s'" "b \<or> flying s \<Longrightarrow> flying s'" "exec_state s' = exec_state s"
proof -
  show p: "has_plan s'" using a s(2) by (auto simp: attempt_def replans_def has_plan_def)
  show f: "b \<or> flying s \<Longrightarrow> flying s'" using attempt_in_sync [OF a] p by (auto simp: flying_def)
  have "idle s \<Longrightarrow> \<not> b \<Longrightarrow> idle s'" using a by (simp add: attempt_def idle_def)
  moreover have "idle s \<or> flying s" using s(1) by (simp add: ego_base_def)
  ultimately have "idle s' \<or> flying s'" using f by blast
  with s(1) a p attempt_params [OF a] show "ego_base s'" by (auto simp: ego_base_def attempt_def replans_def)
  show "exec_state s' = exec_state s" using a by (simp add: attempt_def replans_def)
qed

lemma publishSwarmTrajs_ok:
  assumes "0 \<le> plan_drone_id (pp (mgr s))"
  shows "\<exists>s' os buf. publishSwarmTrajs b s = Inr s' \<and> s' = post_output os (s\<lparr>multi_bspline_msgs_buf := buf\<rparr>) \<and> sent os = []"
proof -
  let ?d = "plan_drone_id (pp (mgr s))" and ?buf = "snd (multi_bspline_msgs_buf s)"
  let ?m = "spline_msg ?d (traj_id (local_data (mgr s))) (start_time (local_data (mgr s))) (position_traj (local_data (mgr s)))"
  obtain xs where "(if int (length ?buf) = ?d + 1 then (if ?buf = [] then Inl OutOfBounds else Inr (butlast ?buf @ [?m]))
      else if int (length ?buf) = ?d then Inr (?buf @ [?m]) else Inr ?buf) = Inr xs"
    using assms by fastforce
  then have "publishSwarmTrajs True s = Inr (post_output [SwarmTrajs ?d xs, ToSwarm ?m] (s\<lparr>multi_bspline_msgs_buf := (?d, xs)\<rparr>))"
    unfolding publishSwarmTrajs_def Let_def if_True by simp
  moreover have "sent [SwarmTrajs ?d xs, ToSwarm ?m] = []" "sent [ToSwarm ?m] = []" by simp_all
  moreover have "publishSwarmTrajs False s = Inr (post_output [ToSwarm ?m] (s\<lparr>multi_bspline_msgs_buf := multi_bspline_msgs_buf s\<rparr>))"
    by (simp add: publishSwarmTrajs_def Let_def)
  ultimately have "\<exists>os buf. publishSwarmTrajs b s = Inr (post_output os (s\<lparr>multi_bspline_msgs_buf := buf\<rparr>)) \<and> sent os = []"
    by (induct b rule: bool.induct) blast+
  then show ?thesis by blast
qed

lemma buf_kept [simp]:
  "ego_base (s\<lparr>multi_bspline_msgs_buf := buf\<rparr>) = ego_base s" "has_plan (s\<lparr>multi_bspline_msgs_buf := buf\<rparr>) = has_plan s"
  "flying (s\<lparr>multi_bspline_msgs_buf := buf\<rparr>) = flying s" "ego_inv (s\<lparr>multi_bspline_msgs_buf := buf\<rparr>) = ego_inv s"
  by (simp_all add: ego_inv_defs)

lemma publishSwarmTrajs_kept:
  assumes "ego_inv s"
  shows "\<exists>s'. publishSwarmTrajs b s = Inr s' \<and> ego_inv s' \<and> exec_state s' = exec_state s \<and> sent (outputs s') = sent (outputs s)
    \<and> flag_escape_emergency s' = flag_escape_emergency s \<and> enable_fail_safe s' = enable_fail_safe s"
proof -
  have "0 \<le> plan_drone_id (pp (mgr s))" using assms by (simp add: ego_inv_defs)
  from publishSwarmTrajs_ok [OF this, of b] obtain s' os buf where
    "publishSwarmTrajs b s = Inr s'" "s' = post_output os (s\<lparr>multi_bspline_msgs_buf := buf\<rparr>)" "sent os = []" by blast
  with assms show ?thesis by simp
qed

end
