(* ===== verification/EgoDiagram.thy ===== *)
theory EgoDiagram
  imports EgoSafety
begin

text \<open>
  The diagram of the state machine: \<open>leads ev s st\<close> says when the event \<open>ev\<close> may change the state
  of the machine to \<open>st\<close>.  The guards are stated on the trajectories, the map and the other drones;
  the lemmas relate them to what the loops of the callbacks compute.
\<close>

section \<open>Guards\<close>

text \<open>The time on the local trajectory, not after its end, and the test for the next way point.\<close>

definition follow_time :: "env \<Rightarrow> ego \<Rightarrow> real" where
  "follow_time e s = min (duration (local_data (mgr s))) (env_now e - start_time (local_data (mgr s)))"

definition follow_pos :: "env \<Rightarrow> ego \<Rightarrow> cpp_error + vec3" where
  "follow_pos e s = evaluateDeBoorT (follow_time e s) (position_traj (local_data (mgr s)))"

definition at_waypoint :: "ego \<Rightarrow> vec3 \<Rightarrow> bool" where
  "at_waypoint s pos \<longleftrightarrow>
     target_type s = PRESET_TARGET \<and> wp_id s < waypoint_num s - 1 \<and> vnorm (vsub (end_pt s) pos) < no_replan_thresh s"

definition watched :: "ego \<Rightarrow> bool" where
  "watched s \<longleftrightarrow> exec_state s \<noteq> WAIT_TARGET \<and> 1 / 100000 \<le> start_time (local_data (mgr s))"

text \<open>
  \<open>blocked_at e s t\<close>: at the time \<open>t\<close> the trajectory lies in an inflated obstacle or outside the map,
  or another drone is predicted, now, within the clearance of the present point of the trajectory.
\<close>

definition drone_near :: "env \<Rightarrow> ego \<Rightarrow> vec3 \<Rightarrow> int \<Rightarrow> swarm_traj \<Rightarrow> bool" where
  "drone_near e s p i o1 \<longleftrightarrow> drone_id o1 = i \<and> drone_id o1 \<noteq> plan_drone_id (pp (mgr s))
     \<and> (\<exists>q. evaluateDeBoorT (env_now e - sw_start_time o1) (sw_position_traj o1) = Inr q
          \<and> vnorm (vsub p q) < swarm_clearance (mgr s))"

definition blocked_at :: "env \<Rightarrow> ego \<Rightarrow> real \<Rightarrow> bool" where
  "blocked_at e s t \<longleftrightarrow>
     (\<exists>p. evaluateDeBoorT t (position_traj (local_data (mgr s))) = Inr p \<and> env_occupancy e p \<noteq> 0)
     \<or> (\<exists>p i. evaluateDeBoorT (env_now e - start_time (local_data (mgr s))) (position_traj (local_data (mgr s))) = Inr p
          \<and> i < length (swarm_trajs_buf (mgr s)) \<and> drone_near e s p (int i) (swarm_trajs_buf (mgr s) ! i))"

text \<open>
  \<open>first_blocked e s t\<close>: \<open>t\<close> is the first blocked time of the trajectory from now on, in steps of a
  hundredth of a second up to its end, or up to two thirds of it while they last.
\<close>

definition check_time :: "env \<Rightarrow> ego \<Rightarrow> nat \<Rightarrow> real" where
  "check_time e s i = env_now e - start_time (local_data (mgr s)) + real i * (1 / 100)"

definition first_blocked :: "env \<Rightarrow> ego \<Rightarrow> real \<Rightarrow> bool" where
  "first_blocked e s t \<longleftrightarrow> (let T = duration (local_data (mgr s)) in
     \<exists>i. t = check_time e s i \<and> t < T \<and> (check_time e s 0 < T * 2 / 3 \<longrightarrow> t < T * 2 / 3) \<and> blocked_at e s t
       \<and> (\<forall>j<i. \<not> blocked_at e s (check_time e s j)))"

text \<open>
  \<open>crosses s m\<close>: during the first two thirds of the local trajectory and before its own end, the
  trajectory of the message comes within the clearance of the local one, in steps of 0.03 seconds.
\<close>

definition crosses :: "ego \<Rightarrow> bspline_msg \<Rightarrow> bool" where
  "crosses s m \<longleftrightarrow> (\<exists>i T traj p q.
     let l = local_data (mgr s); t = max (start_time l) (msg_start_time m) + real i * (3 / 100) in
     swarm_duration m = Inr T \<and> msg_spline (msg_knots m ! 1 - msg_knots m ! 0) m = Inr traj
     \<and> t < min (start_time l + duration l * 2 / 3) (msg_start_time m + T)
     \<and> evaluateDeBoorT (t - start_time l) (position_traj l) = Inr p
     \<and> evaluateDeBoorT (t - msg_start_time m) traj = Inr q \<and> vnorm (vsub p q) < swarm_clearance (mgr s))"

text \<open>A message that is taken: of another drone, recent, and starting within reach.\<close>

definition heeded :: "env \<Rightarrow> ego \<Rightarrow> bspline_msg \<Rightarrow> bool" where
  "heeded e s m \<longleftrightarrow> msg_drone_id m \<noteq> plan_drone_id (pp (mgr s)) \<and> \<bar>env_now e - msg_start_time m\<bar> \<le> 1 / 4
     \<and> 10 ^ 9 \<le> start_time (local_data (mgr s))
     \<and> (\<exists>p. swarm_start m = Inr p \<and> vnorm (vsub p (odom_pos s)) \<le> planning_horizen s * 4 / 3)"

section \<open>The edges\<close>

inductive leads :: "ego_event \<Rightarrow> ego \<Rightarrow> exec_state \<Rightarrow> bool" where
  localised: "exec_state s = INIT \<Longrightarrow> have_odom s \<Longrightarrow> leads (Exec e) s WAIT_TARGET"
| triggered: "exec_state s = WAIT_TARGET \<Longrightarrow> have_target s \<Longrightarrow> have_trigger s \<Longrightarrow> leads (Exec e) s SEQUENTIAL_START"
| started: "exec_state s = SEQUENTIAL_START \<Longrightarrow> have_odom s \<Longrightarrow> have_target s \<Longrightarrow> have_trigger s \<Longrightarrow>
    plan_drone_id (pp (mgr s)) = 0 \<or> have_recv_pre_agent s \<Longrightarrow> leads (Exec e) s EXEC_TRAJ"
| generated: "exec_state s = GEN_NEW_TRAJ \<Longrightarrow> leads (Exec e) s EXEC_TRAJ"
| replanned: "exec_state s = REPLAN_TRAJ \<Longrightarrow> leads (Exec e) s EXEC_TRAJ"
| passed: "exec_state s = EXEC_TRAJ \<Longrightarrow> follow_pos e s = Inr pos \<Longrightarrow> at_waypoint s pos \<Longrightarrow> leads (Exec e) s REPLAN_TRAJ"
| due: "exec_state s = EXEC_TRAJ \<Longrightarrow> follow_pos e s = Inr pos \<Longrightarrow> \<not> at_waypoint s pos \<Longrightarrow>
    1 / 1000 \<le> vnorm (vsub (local_target_pt s) (end_pt s))
      \<or> follow_time e s \<le> duration (local_data (mgr s)) - 1 / 100 \<and> no_replan_thresh s < vnorm (vsub (end_pt s) pos) \<Longrightarrow>
    replan_thresh s < follow_time e s \<Longrightarrow> leads (Exec e) s REPLAN_TRAJ"
| arrived: "exec_state s = EXEC_TRAJ \<Longrightarrow> follow_pos e s = Inr pos \<Longrightarrow> \<not> at_waypoint s pos \<Longrightarrow>
    vnorm (vsub (local_target_pt s) (end_pt s)) < 1 / 1000 \<Longrightarrow>
    duration (local_data (mgr s)) - 1 / 100 < follow_time e s \<Longrightarrow> leads (Exec e) s WAIT_TARGET"
| recovered: "exec_state s = EMERGENCY_STOP \<Longrightarrow> \<not> flag_escape_emergency s \<Longrightarrow> enable_fail_safe s \<Longrightarrow>
    vnorm (odom_vel s) < 1 / 10 \<Longrightarrow> leads (Exec e) s GEN_NEW_TRAJ"
| lost: "watched s \<Longrightarrow> env_depth_timeout e \<Longrightarrow> \<nexists>t. first_blocked e s t \<Longrightarrow> leads (Safety e) s EMERGENCY_STOP"
| escaped: "watched s \<Longrightarrow> first_blocked e s t \<Longrightarrow> leads (Safety e) s EXEC_TRAJ"
| urgent: "watched s \<Longrightarrow> first_blocked e s t \<Longrightarrow> t - check_time e s 0 < emergency_time s \<Longrightarrow>
    leads (Safety e) s EMERGENCY_STOP"
| ahead: "watched s \<Longrightarrow> first_blocked e s t \<Longrightarrow> emergency_time s \<le> t - check_time e s 0 \<Longrightarrow>
    leads (Safety e) s REPLAN_TRAJ"
| targeted: "target_type s = MANUAL_TARGET \<Longrightarrow> - (1 / 10) \<le> vz p \<Longrightarrow> exec_state s = WAIT_TARGET \<Longrightarrow>
    leads (Waypoint e p) s GEN_NEW_TRAJ"
| retargeted: "target_type s = MANUAL_TARGET \<Longrightarrow> - (1 / 10) \<le> vz p \<Longrightarrow> exec_state s = EXEC_TRAJ \<Longrightarrow>
    leads (Waypoint e p) s REPLAN_TRAJ"
| preset: "in_init s \<Longrightarrow> have_odom s \<Longrightarrow> have_trigger s \<Longrightarrow> 0 < waypoint_num s \<Longrightarrow> exec_state s = WAIT_TARGET \<Longrightarrow>
    leads (InitCheck e) s GEN_NEW_TRAJ"
| reset: "in_init s \<Longrightarrow> have_odom s \<Longrightarrow> have_trigger s \<Longrightarrow> 0 < waypoint_num s \<Longrightarrow> exec_state s = EXEC_TRAJ \<Longrightarrow>
    leads (InitCheck e) s REPLAN_TRAJ"
| met: "heeded e s m \<Longrightarrow> crosses s m \<Longrightarrow> leads (Broadcast e m) s REPLAN_TRAJ"
| resumed: "waiting s > 0 \<Longrightarrow> exec_state s = EXEC_TRAJ \<Longrightarrow> leads SpinCheck s REPLAN_TRAJ"

inductive_cases leads_cases: "leads ev s st"
inductive_cases leads_Exec: "leads (Exec e) s st"
inductive_cases leads_Safety: "leads (Safety e) s st"
inductive_cases leads_Broadcast: "leads (Broadcast e m) s st"

text \<open>
  Every edge that can be taken, other than to \<open>EXEC_TRAJ\<close>, is the one that was taken; only a new
  trajectory, which leads to \<open>EXEC_TRAJ\<close>, comes before it.
\<close>

definition taken :: "ego_event \<Rightarrow> ego \<Rightarrow> ego \<Rightarrow> bool" where
  "taken ev s t \<longleftrightarrow> (sent (outputs t) = sent (outputs s) \<longrightarrow> (\<forall>st. leads ev s st \<longrightarrow> st = exec_state t \<or> st = EXEC_TRAJ))"

section \<open>The loops of the safety check\<close>

lemma swarm_near_drone:
  assumes "swarm_near (env_now e) (swarm_clearance (mgr s)) (plan_drone_id (pp (mgr s))) p i os = Inr b"
  shows "b \<longleftrightarrow> (\<exists>j < length os. drone_near e s p (int (i + j)) (os ! j))"
  using assms
proof (induction os arbitrary: i)
  case (Cons o1 os)
  have split: "(\<exists>j < length (o1 # os). drone_near e s p (int (i + j)) ((o1 # os) ! j))
      \<longleftrightarrow> drone_near e s p (int i) o1 \<or> (\<exists>j < length os. drone_near e s p (int (Suc i + j)) (os ! j))"
    by (simp add: Ex_less_Suc2 algebra_simps)
  show ?case
  proof (cases "drone_near e s p (int i) o1")
    case True
    then have b using Cons.prems by (auto simp: drone_near_def)
    with True split show ?thesis by blast
  next
    case False
    then have "swarm_near (env_now e) (swarm_clearance (mgr s)) (plan_drone_id (pp (mgr s))) p (Suc i) os = Inr b"
      using Cons.prems by (auto simp: drone_near_def split: if_splits)
    from Cons.IH [OF this] False split show ?thesis by blast
  qed
qed simp

lemma occupied_at_blocked:
  assumes "evaluateDeBoorT (env_now e - start_time (local_data (mgr s))) (position_traj (local_data (mgr s))) = Inr p"
    and "occupied_at e s p t = Inr b"
  shows "b \<longleftrightarrow> blocked_at e s t"
proof -
  from assms(2) obtain q n where q: "evaluateDeBoorT t (position_traj (local_data (mgr s))) = Inr q"
    and n: "swarm_near (env_now e) (swarm_clearance (mgr s)) (plan_drone_id (pp (mgr s))) p 0 (swarm_trajs_buf (mgr s)) = Inr n"
    and b: "b \<longleftrightarrow> env_occupancy e q \<noteq> 0 \<or> n" by (auto simp: occupied_at_def)
  from swarm_near_drone [OF n] b q assms(1) show ?thesis by (auto simp: blocked_at_def)
qed

lemma first_occupied_cases:
  assumes "first_occupied occ c d (map f [a..<n]) = Inr r"
  shows "case r of None \<Rightarrow> (\<forall>i. a \<le> i \<longrightarrow> i < n \<longrightarrow> (\<exists>j\<le>i. a \<le> j \<and> c < d \<and> d \<le> f j) \<or> occ (f i) = Inr False)
    | Some t \<Rightarrow> \<exists>i. a \<le> i \<and> i < n \<and> t = f i \<and> (c < d \<longrightarrow> t < d) \<and> occ t = Inr True \<and> (\<forall>j. a \<le> j \<longrightarrow> j < i \<longrightarrow> occ (f j) = Inr False)"
  using assms
proof (induction "n - a" arbitrary: a)
  case (Suc m)
  then have up: "[a..<n] = a # [Suc a..<n]" by (simp add: upt_conv_Cons)
  show ?case
  proof (cases "c < d \<and> d \<le> f a")
    case True
    with Suc.prems up show ?thesis by auto
  next
    case no: False
    then obtain b where b: "occ (f a) = Inr b" using Suc.prems up by auto
    show ?thesis
    proof (cases b)
      case True
      then have "r = Some (f a)" using Suc.prems up no b by auto
      with True b no Suc(2) show ?thesis by (auto intro!: exI [of _ a])
    next
      case False
      with Suc.prems up no b have rest: "first_occupied occ c d (map f [Suc a..<n]) = Inr r" by (auto split: if_splits)
      have "m = n - Suc a" using Suc(2) by simp
      note IH = Suc(1) [OF this rest]
      have a: "occ (f a) = Inr False" using b False by simp
      show ?thesis
      proof (cases r)
        case None
        with IH have IH: "(\<exists>j\<le>i. Suc a \<le> j \<and> c < d \<and> d \<le> f j) \<or> occ (f i) = Inr False" if "Suc a \<le> i" "i < n" for i
          using that by simp
        have "(\<exists>j\<le>i. a \<le> j \<and> c < d \<and> d \<le> f j) \<or> occ (f i) = Inr False" if "a \<le> i" "i < n" for i
          using IH [of i] a that by (cases "i = a") (auto intro: Suc_leD)
        with None show ?thesis by simp
      next
        case (Some t)
        with IH obtain i where "Suc a \<le> i" "i < n" "t = f i" "c < d \<longrightarrow> t < d" "occ t = Inr True"
          "\<forall>j. Suc a \<le> j \<longrightarrow> j < i \<longrightarrow> occ (f j) = Inr False" by auto
        moreover from this a have "occ (f j) = Inr False" if "a \<le> j" "j < i" for j using that by (cases "j = a") auto
        ultimately show ?thesis using Some by (auto intro!: exI [of _ i])
      qed
    qed
  qed
qed auto

lemma check_times:
  "loop_times (check_time e s 0) T (1 / 100) = map (check_time e s) [0..<nat \<lceil>(T - check_time e s 0) / (1 / 100)\<rceil>]"
  "i < nat \<lceil>(T - check_time e s 0) / (1 / 100)\<rceil> \<longleftrightarrow> check_time e s i < T"
proof -
  show "loop_times (check_time e s 0) T (1 / 100) = map (check_time e s) [0..<nat \<lceil>(T - check_time e s 0) / (1 / 100)\<rceil>]"
    by (simp add: loop_times_def check_time_def)
  have "i < nat \<lceil>(T - check_time e s 0) / (1 / 100)\<rceil> \<longleftrightarrow> real i < (T - check_time e s 0) / (1 / 100)" by linarith
  then show "i < nat \<lceil>(T - check_time e s 0) / (1 / 100)\<rceil> \<longleftrightarrow> check_time e s i < T" by (auto simp: check_time_def)
qed

lemma check_time_mono: "check_time e s i \<le> check_time e s j \<longleftrightarrow> i \<le> j"
  by (simp add: check_time_def)

lemma first_blocked_unique: "first_blocked e s t \<Longrightarrow> first_blocked e s t' \<Longrightarrow> t = t'"
  unfolding first_blocked_def Let_def by (metis linorder_neqE_nat)

lemma blocked_edges:
  assumes t: "first_blocked e s t" and l: "leads (Safety e) s st"
  shows "st = EXEC_TRAJ \<or> st = (if t - check_time e s 0 < emergency_time s then EMERGENCY_STOP else REPLAN_TRAJ)"
proof -
  have same: "t' = t" if "first_blocked e s t'" for t' using first_blocked_unique [OF that t] .
  have *: "t' - check_time e s 0 = t - check_time e s 0" if "first_blocked e s t'" for t' by (subst same [OF that]) (rule refl)
  from l show ?thesis
  proof (rule leads_Safety)
    fix t'
    assume st: "st = EMERGENCY_STOP" and "first_blocked e s t'" "t' - check_time e s 0 < emergency_time s"
    then have "t - check_time e s 0 < emergency_time s" using * [of t'] by metis
    with st show ?thesis by simp
  next
    fix t'
    assume st: "st = REPLAN_TRAJ" and "first_blocked e s t'" "emergency_time s \<le> t' - check_time e s 0"
    then have "\<not> t - check_time e s 0 < emergency_time s" using * [of t'] by (metis not_less)
    with st show ?thesis by simp
  qed (use t in blast)+
qed

text \<open>The walk of the safety check finds the first blocked time.\<close>

lemma safety_walk:
  assumes p: "evaluateDeBoorT (check_time e s 0) (position_traj (local_data (mgr s))) = Inr p"
    and r: "first_occupied (occupied_at e s p) (check_time e s 0) (duration (local_data (mgr s)) * 2 / 3)
      (loop_times (check_time e s 0) (duration (local_data (mgr s))) (1 / 100)) = Inr r"
  shows "case r of None \<Rightarrow> \<nexists>t. first_blocked e s t | Some t \<Rightarrow> first_blocked e s t"
proof -
  have now: "evaluateDeBoorT (env_now e - start_time (local_data (mgr s))) (position_traj (local_data (mgr s))) = Inr p"
    using p by (simp add: check_time_def)
  have occ: "occupied_at e s p t = Inr b \<Longrightarrow> blocked_at e s t = b" for t b using occupied_at_blocked [OF now] by simp
  note walk = first_occupied_cases [OF r [unfolded check_times(1)], unfolded check_times(2)]
  show ?thesis
  proof (cases r)
    case None
    have "\<not> first_blocked e s t" for t
    proof
      assume "first_blocked e s t"
      then obtain i where i: "t = check_time e s i" "t < duration (local_data (mgr s))" "blocked_at e s t"
        "check_time e s 0 < duration (local_data (mgr s)) * 2 / 3 \<longrightarrow> t < duration (local_data (mgr s)) * 2 / 3"
        by (auto simp: first_blocked_def Let_def)
      have "occupied_at e s p t \<noteq> Inr False" using occ i(3) by blast
      with walk None i(1,2) obtain j where "j \<le> i" "check_time e s 0 < duration (local_data (mgr s)) * 2 / 3"
        "duration (local_data (mgr s)) * 2 / 3 \<le> check_time e s j" by auto
      with i(1,4) check_time_mono [of e s j i] show False by auto
    qed
    with None show ?thesis by simp
  next
    case (Some t)
    with walk occ show ?thesis by (auto simp: first_blocked_def Let_def)
  qed
qed

section \<open>The test of a received trajectory\<close>

lemma any_result_True: "any_result f xs = Inr True \<Longrightarrow> \<exists>x \<in> set xs. f x = Inr True"
  by (induction xs) (auto split: if_splits)

lemma collision_crosses:
  assumes o1: "swarm_entry i m old = Inr o1" and i: "i < length buf" "buf ! i = o1"
    and b: "checkCollision (swarm_clearance (mgr s)) (local_data (mgr s)) buf i = Inr b"
  shows "b \<longleftrightarrow> 10 ^ 9 \<le> start_time (local_data (mgr s)) \<and> crosses s m"
proof (cases "start_time (local_data (mgr s)) < 10 ^ 9")
  case False
  let ?l = "local_data (mgr s)"
  from o1 have T: "swarm_duration m = Inr (sw_duration o1)" and start: "sw_start_time o1 = msg_start_time m"
    and traj: "msg_spline (msg_knots m ! 1 - msg_knots m ! 0) m = Inr (sw_position_traj o1)"
    by (auto simp: swarm_entry_def fetch_def split: if_splits)
  define f where "f = (\<lambda>t. bind_result (evaluateDeBoorT (t - start_time ?l) (position_traj ?l)) (\<lambda>a.
     bind_result (evaluateDeBoorT (t - msg_start_time m) (sw_position_traj o1)) (\<lambda>c.
       Inr (vnorm (vsub a c) < swarm_clearance (mgr s)) :: cpp_error + bool)))"
  define ts where "ts = loop_times (max (start_time ?l) (msg_start_time m))
     (min (start_time ?l + duration ?l * 2 / 3) (msg_start_time m + sw_duration o1)) (3 / 100)"
  have f: "any_result f ts = Inr b" using b False i by (simp add: checkCollision_def Let_def f_def ts_def start)
  have ts: "t \<in> set ts \<longleftrightarrow> (\<exists>i. t = max (start_time ?l) (msg_start_time m) + real i * (3 / 100)
      \<and> t < min (start_time ?l + duration ?l * 2 / 3) (msg_start_time m + sw_duration o1))" for t
    unfolding ts_def by (rule loop_times_set) simp
  have "b \<longleftrightarrow> (\<exists>t \<in> set ts. f t = Inr True)" using f any_result_True any_result_False [of f ts] by (cases b) force+
  also have "\<dots> \<longleftrightarrow> (\<exists>i. let t = max (start_time ?l) (msg_start_time m) + real i * (3 / 100) in
      t < min (start_time ?l + duration ?l * 2 / 3) (msg_start_time m + sw_duration o1) \<and> f t = Inr True)"
    unfolding ts Bex_def Let_def by blast
  also have "\<dots> \<longleftrightarrow> crosses s m"
    unfolding crosses_def Let_def f_def T traj by (simp only: bind_result_Inr Inr_inject prod.inject) blast
  finally show ?thesis using False by simp
qed (use b in \<open>simp add: checkCollision_def\<close>)

end
