(* ===== verification/EgoSteps.thy ===== *)
theory EgoSteps
  imports EgoDiagram
begin

text \<open>
  Every callback of the state machine, from a state of the invariant: it ends in a state of the
  invariant, moves along an edge of the diagram \<open>leads\<close>, and sends at most one trajectory to the
  server, which is then the local one.
\<close>

section \<open>What a callback does\<close>

definition sends :: "ego \<Rightarrow> ego \<Rightarrow> bool" where
  "sends s t \<longleftrightarrow> sent (outputs t) = sent (outputs s) @ [local_msg t]"

definition step_ok :: "ego_event \<Rightarrow> ego \<Rightarrow> ego \<Rightarrow> bool" where
  "step_ok ev s t \<longleftrightarrow> ego_inv t \<and> (exec_state t = exec_state s \<or> leads ev s (exec_state t))
     \<and> (sent (outputs t) = sent (outputs s) \<and> (exec_state t = EXEC_TRAJ \<longrightarrow> exec_state s = EXEC_TRAJ) \<or> sends s t)
     \<and> (flag_escape_emergency t \<longrightarrow> flag_escape_emergency s \<or> exec_state s = GEN_NEW_TRAJ \<and> exec_state t = EXEC_TRAJ)
     \<and> (enable_fail_safe t \<longrightarrow> enable_fail_safe s)"

section \<open>Small changes\<close>

lemma kept_flags [simp]:
  "ego_base (s\<lparr>flag_escape_emergency := b\<rparr>) = ego_base s" "has_plan (s\<lparr>flag_escape_emergency := b\<rparr>) = has_plan s"
  "flying (s\<lparr>flag_escape_emergency := b\<rparr>) = flying s" "ego_inv (s\<lparr>flag_escape_emergency := b\<rparr>) = ego_inv s"
  "ego_inv (s\<lparr>enable_fail_safe := c\<rparr>) = ego_inv s" "flying (s\<lparr>enable_fail_safe := c\<rparr>) = flying s"
  "ego_base (s\<lparr>enable_fail_safe := c\<rparr>) = ego_base s" "has_plan (s\<lparr>enable_fail_safe := c\<rparr>) = has_plan s"
  by (simp_all add: ego_inv_defs)

lemma ego_inv_change:
  "ego_base s \<Longrightarrow> (st = GEN_NEW_TRAJ \<Longrightarrow> has_plan s) \<Longrightarrow> (st \<in> {REPLAN_TRAJ, EXEC_TRAJ, EMERGENCY_STOP} \<Longrightarrow> flying s) \<Longrightarrow>
    ego_inv (changeFSMExecState st s)"
  by (simp add: ego_inv_def)

lemma ego_inv_base: "ego_inv s \<Longrightarrow> ego_base s"
  by (simp add: ego_inv_def)

lemma flying_planned: "flying s \<Longrightarrow> has_plan s"
  by (simp add: flying_def)

lemma started_flying: "ego_base s \<Longrightarrow> start_time (local_data (mgr s)) \<noteq> 0 \<Longrightarrow> flying s"
  by (auto simp: ego_base_def idle_def)

section \<open>An attempt and its consequence\<close>

text \<open>
  After an attempt the machine executes the new trajectory, which is then published, or goes to
  another state.
\<close>

lemma attempt_executed:
  assumes s: "ego_base s" "has_plan s" and a: "attempt s True s1"
  shows "\<exists>t. publishSwarmTrajs b ((changeFSMExecState EXEC_TRAJ s1)\<lparr>flag_escape_emergency := f\<rparr>) = Inr t \<and> ego_inv t
    \<and> exec_state t = EXEC_TRAJ \<and> sends s t \<and> flag_escape_emergency t = f \<and> enable_fail_safe t = enable_fail_safe s"
proof -
  let ?s1 = "(changeFSMExecState EXEC_TRAJ s1)\<lparr>flag_escape_emergency := f\<rparr>"
  note k = attempt_kept [OF s a]
  then have i: "ego_inv ?s1" by (simp add: ego_inv_change)
  then have "0 \<le> plan_drone_id (pp (mgr ?s1))" by (simp add: ego_inv_defs)
  from publishSwarmTrajs_ok [OF this, of b] obtain t os buf where
    t: "publishSwarmTrajs b ?s1 = Inr t" "t = post_output os (?s1\<lparr>multi_bspline_msgs_buf := buf\<rparr>)" "sent os = []" by blast
  with a i show ?thesis by (auto simp: attempt_def replans_def sends_def)
qed

lemma attempt_failed:
  assumes s: "ego_base s" "has_plan s" and a: "attempt s False s1"
    and st: "st \<in> {REPLAN_TRAJ, EXEC_TRAJ, EMERGENCY_STOP} \<Longrightarrow> flying s"
  shows "ego_inv (changeFSMExecState st s1)" "sent (outputs s1) = sent (outputs s)"
    "flag_escape_emergency s1 = flag_escape_emergency s" "enable_fail_safe s1 = enable_fail_safe s"
  using attempt_kept [OF s a] a st by (auto intro!: ego_inv_change simp: attempt_def replans_def)

section \<open>The cases of execFSMCallback\<close>

lemma case_ok_data:
  assumes "exec_case k e s = Inr (b, t)" "step_ok (Exec e) s t"
  shows "\<exists>t'. ego_handle k (Exec e) s = Inr t' \<and> step_ok (Exec e) s t'"
  using assms by (cases b) (auto simp: execFSMCallback_def step_ok_def sends_def)

lemma attempt_case:
  assumes s: "ego_base s" "has_plan s" and a: "attempt s b s1"
    and lead: "leads (Exec e) s EXEC_TRAJ" and self: "ego_inv s"
    and f: "f \<longrightarrow> flag_escape_emergency s \<or> exec_state s = GEN_NEW_TRAJ"
    and fl: "exec_state s \<in> {REPLAN_TRAJ, EXEC_TRAJ, EMERGENCY_STOP} \<longrightarrow> flying s"
  shows "\<exists>t. (if b then bind_result (publishSwarmTrajs p ((changeFSMExecState EXEC_TRAJ s1)\<lparr>flag_escape_emergency := f\<rparr>))
      (\<lambda>s2. Inr (False, s2)) else Inr (False, changeFSMExecState (exec_state s) s1)) = Inr (False, t) \<and> step_ok (Exec e) s t"
proof (cases b)
  case True
  with a have "attempt s True s1" by simp
  from attempt_executed [OF s this, of p f] obtain t where
    t: "publishSwarmTrajs p ((changeFSMExecState EXEC_TRAJ s1)\<lparr>flag_escape_emergency := f\<rparr>) = Inr t" "ego_inv t"
    "exec_state t = EXEC_TRAJ" "sends s t" "flag_escape_emergency t = f" "enable_fail_safe t = enable_fail_safe s" by blast
  then have "step_ok (Exec e) s t" using lead f by (auto simp: step_ok_def)
  with t True show ?thesis by simp
next
  case False
  with a have a: "attempt s False s1" by simp
  note k = attempt_failed [OF s this, of "exec_state s"]
  have "step_ok (Exec e) s (changeFSMExecState (exec_state s) s1)"
    using k fl by (simp add: step_ok_def)
  with False show ?thesis by simp
qed

lemma exec_SEQUENTIAL_START_ok:
  assumes s: "ego_inv s" "exec_state s = SEQUENTIAL_START" and e: "env_ok e"
  shows "\<exists>t. exec_SEQUENTIAL_START e s = Inr (False, t) \<and> step_ok (Exec e) s t"
proof (cases "(plan_drone_id (pp (mgr s)) \<le> 0 \<or> plan_drone_id (pp (mgr s)) \<ge> 1 \<and> have_recv_pre_agent s)
    \<and> have_odom s \<and> have_target s \<and> have_trigger s")
  case True
  have b: "ego_base s" "has_plan s" "params_ok s" "global_ok (global_data (mgr s))" and d: "0 \<le> plan_drone_id (pp (mgr s))"
    using s True by (auto simp: ego_inv_defs)
  obtain r s1 where a: "planFromGlobalTraj e 10 s = Inr (r, s1)" "attempt s r s1"
    using planFromGlobalTraj_ok [OF b(3,4) e] by blast
  then have "(changeFSMExecState EXEC_TRAJ s1)\<lparr>flag_escape_emergency := flag_escape_emergency s\<rparr> = changeFSMExecState EXEC_TRAJ s1"
    by (simp add: changeFSMExecState_def attempt_def replans_def)
  moreover have "leads (Exec e) s EXEC_TRAJ" using True d s(2) by (intro leads.started) auto
  ultimately show ?thesis using attempt_case [OF b(1,2) a(2) _ s(1), of e "flag_escape_emergency s" True] True a(1) s(2)
    by (cases r) (simp_all add: exec_SEQUENTIAL_START_def Let_def)
next
  case False
  with s show ?thesis by (auto simp: exec_SEQUENTIAL_START_def Let_def step_ok_def)
qed

lemma exec_GEN_NEW_TRAJ_ok:
  assumes s: "ego_inv s" "exec_state s = GEN_NEW_TRAJ" and e: "env_ok e"
  shows "\<exists>t. exec_GEN_NEW_TRAJ e s = Inr (False, t) \<and> step_ok (Exec e) s t"
proof -
  have b: "ego_base s" "has_plan s" "params_ok s" "global_ok (global_data (mgr s))"
    using s by (auto simp: ego_inv_defs)
  obtain r s1 where a: "planFromGlobalTraj e 10 s = Inr (r, s1)" "attempt s r s1"
    using planFromGlobalTraj_ok [OF b(3,4) e] by blast
  from attempt_case [OF b(1,2) a(2) leads.generated [OF s(2), of e] s(1), of True False] a(1) s(2) show ?thesis
    by (cases r) (simp_all add: exec_GEN_NEW_TRAJ_def)
qed

lemma exec_REPLAN_TRAJ_ok:
  assumes s: "ego_inv s" "exec_state s = REPLAN_TRAJ" and e: "env_ok e"
  shows "\<exists>t. exec_REPLAN_TRAJ e s = Inr (False, t) \<and> step_ok (Exec e) s t"
proof -
  have f: "flying s" using s by (simp add: ego_inv_def)
  have b: "ego_base s" "has_plan s" "params_ok s" using s f by (auto simp: ego_inv_defs)
  note fl = flying_replanned [OF f]
  obtain r s1 where a: "planFromCurrentTraj e 1 s = Inr (r, s1)" "attempt s r s1"
    using planFromCurrentTraj_ok [OF b(3) _ e] fl by blast
  then have "(changeFSMExecState EXEC_TRAJ s1)\<lparr>flag_escape_emergency := flag_escape_emergency s\<rparr> = changeFSMExecState EXEC_TRAJ s1"
    by (simp add: changeFSMExecState_def attempt_def replans_def)
  with attempt_case [OF b(1,2) a(2) leads.replanned [OF s(2), of e] s(1), of "flag_escape_emergency s" False] a(1) s(2) f show ?thesis
    by (cases r) (simp_all add: exec_REPLAN_TRAJ_def)
qed

lemma EmergencyStop_local_ok: "EmergencyStop c now l = Inr l' \<Longrightarrow> local_ok l'"
proof -
  assume l: "EmergencyStop c now l = Inr l'"
  have "well_knotted (UniformBspline (replicate 6 c) 3 1)" by (rule uniform_well_knotted) simp_all
  moreover have "degree (UniformBspline (replicate 6 c) 3 1) = 3" by (simp add: UniformBspline_def Let_def)
  moreover have "getTimeSum (UniformBspline (replicate 6 c) 3 1) = Inr 3"
    using uniform_time_sum [of 1 3 "replicate 6 c"] by simp
  ultimately show ?thesis using EmergencyStop_ok [of c now l] l by (auto simp: local_ok_def)
qed

lemma callEmergencyStop_ok:
  assumes s: "ego_base s" "has_plan s"
  shows "\<exists>t. callEmergencyStop e c s = Inr t \<and> ego_base t \<and> flying t \<and> sends s t \<and> exec_state t = exec_state s
    \<and> enable_fail_safe t = enable_fail_safe s"
proof -
  obtain l where l: "EmergencyStop c (env_now e) (local_data (mgr s)) = Inr l" using EmergencyStop_ok by blast
  let ?t = "post_output [ToServer (spline_msg 0 (traj_id l) (start_time l) (position_traj l))] (s\<lparr>mgr := (mgr s)\<lparr>local_data := l\<rparr>\<rparr>)"
  have run: "callEmergencyStop e c s = Inr ?t" using l by (simp add: callEmergencyStop_def Let_def)
  have p: "has_plan ?t" using s by (simp add: has_plan_def post_output_def)
  then have f: "flying ?t" using EmergencyStop_local_ok [OF l] by (simp add: flying_def in_sync_def)
  have "ego_base ?t" using s p f by (simp add: ego_base_def params_ok_def post_output_def)
  with run f show ?thesis by (simp add: sends_def)
qed

lemma exec_EMERGENCY_STOP_ok:
  assumes s: "ego_inv s" "exec_state s = EMERGENCY_STOP"
  shows "\<exists>t. exec_EMERGENCY_STOP e s = Inr (False, t) \<and> step_ok (Exec e) s t"
proof -
  have f: "flying s" "ego_base s" using s by (simp_all add: ego_inv_def)
  show ?thesis
  proof (cases "flag_escape_emergency s")
    case True
    from callEmergencyStop_ok [OF f(2) flying_planned [OF f(1)], of e "odom_pos s"] obtain t where
      t: "callEmergencyStop e (odom_pos s) s = Inr t" "ego_base t" "flying t" "sends s t" "exec_state t = exec_state s"
      "enable_fail_safe t = enable_fail_safe s" by blast
    then have "step_ok (Exec e) s (t\<lparr>flag_escape_emergency := False\<rparr>)" using s(2)
      by (simp add: step_ok_def sends_def) (simp add: ego_inv_def)
    with t True show ?thesis by (simp add: exec_EMERGENCY_STOP_def)
  next
    case False
    have "ego_inv (changeFSMExecState GEN_NEW_TRAJ s)" using f flying_planned by (intro ego_inv_change) auto
    with False s leads.recovered [OF s(2) False] show ?thesis
      by (auto simp: exec_EMERGENCY_STOP_def step_ok_def)
  qed
qed

end
