(* ===== verification/EgoHandlers.thy ===== *)
theory EgoHandlers
  imports EgoSteps
begin

text \<open>
  The remaining callbacks of the state machine: the execution of a trajectory, the safety check and
  the messages; and all of them together, \<open>ego_handle_ok\<close>.
\<close>

section \<open>A new target\<close>

lemma targets_kept:
  assumes s: "ego_inv s" and t: "targets s t"
    and wp: "target_type s = PRESET_TARGET \<longrightarrow> 0 \<le> wp_id s \<and> wp_id s < waypoint_num s \<and> length (wps s) = nat (waypoint_num s)"
  shows "ego_inv t" "has_plan t" "outputs t = outputs s" "local_data (mgr t) = local_data (mgr s)"
    "exec_state t = after_target (exec_state s)" "flag_escape_emergency t = flag_escape_emergency s"
    "enable_fail_safe t = enable_fail_safe s"
proof -
  show p: "has_plan t" using t wp by (auto simp: has_plan_def targets_def)
  have fl: "flying s \<Longrightarrow> flying t" and id: "idle s \<Longrightarrow> idle t"
    using t p by (simp_all add: flying_def in_sync_def idle_def targets_def)
  have st: "exec_state t = after_target (exec_state s)" using t by (simp add: targets_def)
  have "ego_base t" using ego_inv_base [OF s] t p fl id by (auto simp: ego_base_def targets_def params_ok_def)
  moreover have "flying t" if "exec_state t \<in> {REPLAN_TRAJ, EXEC_TRAJ, EMERGENCY_STOP}"
  proof (rule fl)
    from that st have "exec_state s \<in> {REPLAN_TRAJ, EXEC_TRAJ, EMERGENCY_STOP}"
      by (auto simp: after_target_def split: if_splits)
    with s show "flying s" by (auto simp: ego_inv_def)
  qed
  ultimately show "ego_inv t" using p by (simp add: ego_inv_def)
qed (use t in \<open>simp_all add: targets_def\<close>)

text \<open>A state that differs in the current way point and the flags of target and trigger.\<close>

lemma with_waypoint:
  assumes "ego_inv s" "target_type s = PRESET_TARGET \<longrightarrow> 0 \<le> i \<and> i < waypoint_num s \<and> length ws = nat (waypoint_num s)"
    and "h \<longrightarrow> have_target s"
  shows "ego_inv (s\<lparr>wps := ws, wp_id := i, have_target := h, have_trigger := g\<rparr>)"
proof -
  let ?t = "s\<lparr>wps := ws, wp_id := i, have_target := h, have_trigger := g\<rparr>"
  have p: "has_plan s \<Longrightarrow> has_plan ?t" using assms by (simp add: has_plan_def)
  moreover have "flying s \<Longrightarrow> flying ?t" using p by (simp add: flying_def in_sync_def)
  ultimately show ?thesis using assms by (auto simp: ego_inv_def ego_base_def params_ok_def idle_def)
qed

section \<open>Execution of a trajectory\<close>

lemma step_ok_same: "ego_inv s \<Longrightarrow> step_ok ev s s"
  by (simp add: step_ok_def)

lemma replan_step:
  "ego_inv s \<Longrightarrow> exec_state s = EXEC_TRAJ \<Longrightarrow> leads (Exec e) s REPLAN_TRAJ \<Longrightarrow>
    step_ok (Exec e) s (changeFSMExecState REPLAN_TRAJ s)"
  by (auto simp: step_ok_def intro!: ego_inv_change) (auto simp: ego_inv_def flying_planned)

lemma next_waypoint_ok:
  assumes s: "ego_inv s" "exec_state s = EXEC_TRAJ" and k: "solver_ok k"
    and i: "target_type s = PRESET_TARGET" "0 \<le> i" "i < waypoint_num s" and h: "h \<longrightarrow> have_target s"
  shows "\<exists>wp t. fetch (wps s) (nat i) = Inr wp
    \<and> planNextWaypoint k e wp (s\<lparr>wp_id := i, have_target := h, have_trigger := g\<rparr>) = Inr t \<and> ego_inv t \<and> has_plan t
    \<and> exec_state t = REPLAN_TRAJ \<and> outputs t = outputs s \<and> local_data (mgr t) = local_data (mgr s)
    \<and> flag_escape_emergency t = flag_escape_emergency s \<and> enable_fail_safe t = enable_fail_safe s"
proof -
  have "has_plan s" using s by (auto simp: ego_inv_def flying_def)
  then have len: "length (wps s) = nat (waypoint_num s)" using i by (simp add: has_plan_def)
  let ?s = "s\<lparr>wps := wps s, wp_id := i, have_target := h, have_trigger := g\<rparr>"
  have inv: "ego_inv ?s" using s i len h by (intro with_waypoint) auto
  then have "params_ok ?s" by (simp add: ego_inv_def ego_base_def)
  from planNextWaypoint_ok [OF this k] obtain t where t: "planNextWaypoint k e (wps s ! nat i) ?s = Inr t" "targets ?s t" by blast
  from targets_kept [OF inv t(2)] i len s t show ?thesis by (simp add: after_target_def)
qed

lemma trajectory_over_ok:
  assumes s: "ego_inv s" "exec_state s = EXEC_TRAJ" and k: "solver_ok k"
    and over: "leads (Exec e) s WAIT_TARGET"
  shows "\<exists>t. trajectory_over k e s = Inr (True, t) \<and> step_ok (Exec e) s t \<and> exec_state t = WAIT_TARGET"
proof (cases "target_type s = PRESET_TARGET")
  case True
  have "has_plan s" using s by (auto simp: ego_inv_def flying_def)
  then have "0 < waypoint_num s" using True by (simp add: has_plan_def)
  from next_waypoint_ok [OF s k True _ this, of False e False] obtain wp t where
    t: "fetch (wps s) 0 = Inr wp" "planNextWaypoint k e wp (s\<lparr>wp_id := 0, have_target := False, have_trigger := False\<rparr>) = Inr t"
    "ego_inv t" "has_plan t" "outputs t = outputs s"
    "flag_escape_emergency t = flag_escape_emergency s" "enable_fail_safe t = enable_fail_safe s" by auto
  moreover have "ego_inv (changeFSMExecState WAIT_TARGET t)" using t(3) by (intro ego_inv_change) (simp_all add: ego_inv_base)
  moreover have "s\<lparr>have_target := False, have_trigger := False, wp_id := 0\<rparr> = s\<lparr>wp_id := 0, have_target := False, have_trigger := False\<rparr>"
    by simp
  then have "planNextWaypoint k e wp (s\<lparr>have_target := False, have_trigger := False, wp_id := 0\<rparr>) = Inr t"
    using t(2) by (rule ssubst)
  ultimately show ?thesis using True over by (simp add: trajectory_over_def Let_def step_ok_def)
next
  case False
  have "ego_inv (s\<lparr>wps := wps s, wp_id := wp_id s, have_target := False, have_trigger := False\<rparr>)"
    using s False by (intro with_waypoint) auto
  then have "ego_inv (changeFSMExecState WAIT_TARGET (s\<lparr>have_target := False, have_trigger := False\<rparr>))"
    by (intro ego_inv_change) (simp_all add: ego_inv_base)
  with False over show ?thesis by (simp add: trajectory_over_def Let_def step_ok_def)
qed

lemma exec_EXEC_TRAJ_ok:
  assumes s: "ego_inv s" "exec_state s = EXEC_TRAJ" and k: "solver_ok k"
  shows "\<exists>c t. exec_EXEC_TRAJ k e s = Inr (c, t) \<and> step_ok (Exec e) s t \<and> taken (Exec e) s t"
proof -
  let ?l = "local_data (mgr s)"
  let ?t = "min (duration ?l) (env_now e - start_time ?l)"
  have "flying s" using s by (simp add: ego_inv_def)
  then have pl: "has_plan s" and "local_ok ?l" by (simp_all add: flying_def in_sync_def)
  then obtain pos where pos: "evaluateDeBoorT ?t (position_traj ?l) = Inr pos" using local_ok_evaluate by blast
  then have at: "follow_pos e s = Inr pos" by (simp add: follow_pos_def follow_time_def)
  show ?thesis
  proof (cases "at_waypoint s pos")
    case True
    then have wp: "target_type s = PRESET_TARGET" "0 \<le> wp_id s + 1" "wp_id s + 1 < waypoint_num s"
      using pl by (auto simp: has_plan_def at_waypoint_def)
    from next_waypoint_ok [OF s k wp, of "have_target s" e "have_trigger s"] obtain wp t where
      "fetch (wps s) (nat (wp_id s + 1)) = Inr wp" "planNextWaypoint k e wp (s\<lparr>wp_id := wp_id s + 1\<rparr>) = Inr t" and
      t: "ego_inv t" "has_plan t" "exec_state t = REPLAN_TRAJ" "outputs t = outputs s"
      "flag_escape_emergency t = flag_escape_emergency s" "enable_fail_safe t = enable_fail_safe s" by auto
    then have "exec_EXEC_TRAJ k e s = Inr (False, t)" using True pos by (simp add: exec_EXEC_TRAJ_def Let_def at_waypoint_def)
    moreover have "step_ok (Exec e) s t" using t leads.passed [OF s(2) at True] by (simp add: step_ok_def)
    moreover have "taken (Exec e) s t" using s(2) at True t(3) by (auto simp: taken_def elim!: leads_Exec)
    ultimately show ?thesis by blast
  next
    case False
    note run = exec_EXEC_TRAJ_def [of k e s, folded at_waypoint_def, unfolded Let_def pos bind_result.simps if_not_P [OF False]]
    show ?thesis
    proof (cases "vnorm (vsub (local_target_pt s) (end_pt s)) < 1 / 1000 \<and> ?t > duration ?l - 1 / 100")
      case True
      then have "leads (Exec e) s WAIT_TARGET" by (intro leads.arrived [OF s(2) at False]) (simp_all add: follow_time_def)
      with trajectory_over_ok [OF s k] obtain t where
        t: "trajectory_over k e s = Inr (True, t)" "step_ok (Exec e) s t" "exec_state t = WAIT_TARGET" by blast
      moreover have "taken (Exec e) s t"
        using s(2) at False True t(3) by (auto simp: taken_def follow_time_def elim!: leads_Exec)
      ultimately show ?thesis using True run by auto
    next
      case no: False
      let ?due = "(1 / 1000 \<le> vnorm (vsub (local_target_pt s) (end_pt s)) \<or> ?t \<le> duration ?l - 1 / 100
        \<and> no_replan_thresh s < vnorm (vsub (end_pt s) pos)) \<and> replan_thresh s < ?t"
      have "exec_EXEC_TRAJ k e s = Inr (False, if ?due then changeFSMExecState REPLAN_TRAJ s else s)"
        using no unfolding run by (auto simp: not_less)
      moreover have "?due \<Longrightarrow> leads (Exec e) s REPLAN_TRAJ"
        by (rule leads.due [OF s(2) at False]) (simp_all add: follow_time_def)
      moreover have "taken (Exec e) s (if ?due then changeFSMExecState REPLAN_TRAJ s else s)"
        using s(2) at False no by (auto simp: taken_def follow_time_def elim!: leads_Exec)
      ultimately show ?thesis using replan_step [OF s] step_ok_same [OF s(1)] by (cases ?due) auto
    qed
  qed
qed

lemma exec_ok:
  assumes s: "ego_inv s" and k: "solver_ok k" and e: "env_ok e"
  shows "\<exists>t. ego_handle k (Exec e) s = Inr t \<and> step_ok (Exec e) s t"
proof -
  have "\<exists>c t. exec_case k e s = Inr (c, t) \<and> step_ok (Exec e) s t"
  proof (cases "exec_state s")
    case INIT
    have "ego_inv (changeFSMExecState WAIT_TARGET s)" using s by (intro ego_inv_change) (simp_all add: ego_inv_base)
    with INIT s show ?thesis by (auto simp: exec_case_def exec_INIT_def step_ok_def intro: leads.localised)
  next
    case WAIT_TARGET
    have "ego_inv (changeFSMExecState SEQUENTIAL_START s)" using s by (intro ego_inv_change) (simp_all add: ego_inv_base)
    with WAIT_TARGET s show ?thesis by (auto simp: exec_case_def exec_WAIT_TARGET_def step_ok_def intro: leads.triggered)
  next
    case GEN_NEW_TRAJ
    with exec_GEN_NEW_TRAJ_ok [OF s _ e] show ?thesis by (auto simp: exec_case_def)
  next
    case REPLAN_TRAJ
    with exec_REPLAN_TRAJ_ok [OF s _ e] show ?thesis by (auto simp: exec_case_def)
  next
    case EXEC_TRAJ
    with exec_EXEC_TRAJ_ok [OF s _ k, of e] show ?thesis by (auto simp: exec_case_def)
  next
    case EMERGENCY_STOP
    with exec_EMERGENCY_STOP_ok [OF s, of e] show ?thesis by (auto simp: exec_case_def)
  next
    case SEQUENTIAL_START
    with exec_SEQUENTIAL_START_ok [OF s _ e] show ?thesis by (auto simp: exec_case_def)
  qed
  with case_ok_data show ?thesis by blast
qed

section \<open>The safety check\<close>

lemma swarm_near_ok: "list_all swarm_ok os \<Longrightarrow> \<exists>b. swarm_near now c own p i os = Inr b"
proof (induction os arbitrary: i)
  case (Cons o1 os)
  then obtain b where b: "swarm_near now c own p (Suc i) os = Inr b" by fastforce
  show ?case
  proof (cases "drone_id o1 \<noteq> int i \<or> drone_id o1 = own")
    case False
    with Cons.prems have "well_knotted (sw_position_traj o1)" by (auto simp: swarm_ok_def)
    then obtain q where "evaluateDeBoorT (now - sw_start_time o1) (sw_position_traj o1) = Inr q"
      using evaluateDeBoorT_ok by blast
    with False b show ?thesis by auto
  qed (use b in auto)
qed auto

lemma first_occupied_ok: "(\<And>t. \<exists>b. occ t = Inr b) \<Longrightarrow> \<exists>r. first_occupied occ t_cur t_2_3 ts = Inr r"
proof (induction ts)
  case (Cons t ts)
  then obtain b r where "occ t = Inr b" "first_occupied occ t_cur t_2_3 ts = Inr r" by blast
  then show ?case by simp
qed simp

lemma make_a_chance_ok:
  assumes s: "ego_base s" "flying s" and e: "env_ok e"
  shows "\<exists>u. make_a_chance e t_cur t s = Inr u \<and> ego_inv u
    \<and> (exec_state u = EXEC_TRAJ \<and> sends s u \<or> 
        exec_state u = (if t - t_cur < emergency_time s then EMERGENCY_STOP else REPLAN_TRAJ) \<and> sent (outputs u) = sent (outputs s))
    \<and> flag_escape_emergency u = flag_escape_emergency s \<and> enable_fail_safe u = enable_fail_safe s"
proof -
  have p: "has_plan s" "params_ok s" using s by (simp_all add: flying_planned ego_base_def)
  obtain b s1 where a: "planFromCurrentTraj e 1 s = Inr (b, s1)" "attempt s b s1"
    using planFromCurrentTraj_ok [OF p(2) _ e] flying_replanned [OF s(2)] by blast
  show ?thesis
  proof (cases b)
    case True
    have eq: "(changeFSMExecState EXEC_TRAJ s1)\<lparr>flag_escape_emergency := flag_escape_emergency s\<rparr> = changeFSMExecState EXEC_TRAJ s1"
      using a(2) by (simp add: changeFSMExecState_def attempt_def replans_def)
    from a(2) True have "attempt s True s1" by simp
    from attempt_executed [OF s(1) p(1) this, of False "flag_escape_emergency s", unfolded eq] obtain u where
      "publishSwarmTrajs False (changeFSMExecState EXEC_TRAJ s1) = Inr u" "ego_inv u" "exec_state u = EXEC_TRAJ" "sends s u"
      "flag_escape_emergency u = flag_escape_emergency s" "enable_fail_safe u = enable_fail_safe s" by blast
    with a(1) True show ?thesis by (simp add: make_a_chance_def)
  next
    case False
    with a have f: "attempt s False s1" by simp
    have "emergency_time s1 = emergency_time s" using f by (simp add: attempt_def replans_def)
    with attempt_failed [OF s(1) p(1) f, of EMERGENCY_STOP] attempt_failed [OF s(1) p(1) f, of REPLAN_TRAJ] s(2) a(1) False
    show ?thesis by (simp add: make_a_chance_def)
  qed
qed

lemma safety_ok:
  assumes s: "ego_inv s" and e: "env_ok e"
  shows "\<exists>t. ego_handle k (Safety e) s = Inr t \<and> step_ok (Safety e) s t \<and> taken (Safety e) s t"
proof (cases "exec_state s = WAIT_TARGET \<or> start_time (local_data (mgr s)) < 1 / 100000")
  case True
  then have "taken (Safety e) s s" by (auto simp: taken_def watched_def elim!: leads_Safety)
  with s True show ?thesis by (simp add: checkCollisionCallback_def Let_def step_ok_same)
next
  case False
  then have fl: "flying s" using ego_inv_base [OF s] by (intro started_flying) auto
  have w: "watched s" using False by (simp add: watched_def)
  define s1 where "s1 = (if env_depth_timeout e then changeFSMExecState EMERGENCY_STOP (s\<lparr>enable_fail_safe := False\<rparr>) else s)"
  have s1: "ego_base s1" "flying s1" "mgr s1 = mgr s" "outputs s1 = outputs s"
    "flag_escape_emergency s1 = flag_escape_emergency s" "enable_fail_safe s1 \<longrightarrow> enable_fail_safe s"
    "s1 = s \<or> exec_state s1 = EMERGENCY_STOP"
    using ego_inv_base [OF s] fl by (simp_all add: s1_def)
  have inv: "ego_inv s1"
  proof (cases "env_depth_timeout e")
    case True
    have "ego_inv (changeFSMExecState EMERGENCY_STOP (s\<lparr>enable_fail_safe := False\<rparr>))"
      using ego_inv_base [OF s] fl by (intro ego_inv_change) simp_all
    with True show ?thesis by (simp add: s1_def)
  qed (use s in \<open>simp add: s1_def\<close>)
  let ?l = "local_data (mgr s)"
  have l: "local_ok ?l" using fl by (simp add: flying_def in_sync_def)
  obtain p where p: "evaluateDeBoorT (env_now e - start_time ?l) (position_traj ?l) = Inr p" using local_ok_evaluate [OF l] by blast
  have occ: "\<And>t. \<exists>b. occupied_at e s1 p t = Inr b"
  proof -
    fix t
    obtain q where "evaluateDeBoorT t (position_traj ?l) = Inr q" using local_ok_evaluate [OF l] by blast
    moreover have "list_all swarm_ok (swarm_trajs_buf (mgr s))" using s1(1,3) by (simp add: ego_base_def)
    then obtain b where "swarm_near (env_now e) (swarm_clearance (mgr s)) (plan_drone_id (pp (mgr s))) p 0
      (swarm_trajs_buf (mgr s)) = Inr b" using swarm_near_ok by blast
    ultimately show "\<exists>b. occupied_at e s1 p t = Inr b" using s1(3) by (auto simp: occupied_at_def)
  qed
  from first_occupied_ok [of "occupied_at e s1 p", OF occ] obtain hit where hit: "first_occupied (occupied_at e s1 p) (env_now e - start_time ?l)
      (duration ?l * 2 / 3) (loop_times (env_now e - start_time ?l) (duration ?l) (1 / 100)) = Inr hit" by blast
  have run: "ego_handle k (Safety e) s = (case hit of None \<Rightarrow> Inr s1 | Some t \<Rightarrow> make_a_chance e (env_now e - start_time ?l) t s1)"
    using False p hit by (simp add: checkCollisionCallback_def Let_def s1_def [symmetric] split del: if_split)
  have same: "first_blocked e s1 = first_blocked e s" "check_time e s1 = check_time e s" "emergency_time s1 = emergency_time s"
    using s1(3) by (auto simp: fun_eq_iff first_blocked_def check_time_def blocked_at_def drone_near_def Let_def)
      (simp add: s1_def changeFSMExecState_def)
  have walk: "case hit of None \<Rightarrow> \<nexists>t. first_blocked e s t | Some t \<Rightarrow> first_blocked e s t"
    using safety_walk [of e s1 p hit, unfolded same] p hit s1(3) by (simp add: check_time_def)
  show ?thesis
  proof (cases hit)
    case None
    with walk have "env_depth_timeout e \<Longrightarrow> leads (Safety e) s EMERGENCY_STOP" by (intro leads.lost w) simp_all
    with inv have "step_ok (Safety e) s s1" by (cases "env_depth_timeout e") (simp_all add: step_ok_def s1_def)
    moreover have "taken (Safety e) s s1" using walk None by (auto simp: taken_def s1_def elim!: leads_Safety)
    ultimately show ?thesis using run None by simp
  next
    case (Some t)
    from make_a_chance_ok [OF s1(1,2) e, of "check_time e s 0" t] obtain u where
      "make_a_chance e (check_time e s 0) t s1 = Inr u" and u: "ego_inv u"
      "exec_state u = EXEC_TRAJ \<and> sends s1 u \<or> exec_state u =
        (if t - check_time e s 0 < emergency_time s then EMERGENCY_STOP else REPLAN_TRAJ) \<and> sent (outputs u) = sent (outputs s1)"
      "flag_escape_emergency u = flag_escape_emergency s1" "enable_fail_safe u = enable_fail_safe s1" unfolding same by blast
    moreover have hit: "first_blocked e s t" using walk Some by simp
    then have "leads (Safety e) s (exec_state u)"
      using u(2) leads.escaped [OF w] leads.urgent [OF w] leads.ahead [OF w] by (auto simp: not_less split: if_splits)
    then have "step_ok (Safety e) s u" using u s1(4,5,6) unfolding step_ok_def sends_def by (auto split: if_splits)
    moreover have "taken (Safety e) s u" unfolding taken_def
    proof (intro impI allI)
      fix st
      assume "sent (outputs u) = sent (outputs s)" and "leads (Safety e) s st"
      moreover from this u(2) s1(4) have "exec_state u = (if t - check_time e s 0 < emergency_time s then EMERGENCY_STOP else REPLAN_TRAJ)"
        by (auto simp: sends_def)
      ultimately show "st = exec_state u \<or> st = EXEC_TRAJ"
        using blocked_edges [OF hit] by metis
    qed
    ultimately show ?thesis using run Some by (simp add: check_time_def)
  qed
qed

section \<open>Messages\<close>

lemma step_ok_frame:
  assumes "ego_inv t" "exec_state t = exec_state s" "sent (outputs t) = sent (outputs s)"
    "flag_escape_emergency t = flag_escape_emergency s" "enable_fail_safe t = enable_fail_safe s"
  shows "step_ok ev s t"
  using assms by (simp add: step_ok_def)

text \<open>A new target from outside: the state machine moves on as \<open>after_target\<close> says.\<close>

lemma new_target_ok:
  assumes s: "ego_inv s" and k: "solver_ok k"
    and wp: "target_type s = PRESET_TARGET \<longrightarrow> 0 \<le> wp_id s \<and> wp_id s < waypoint_num s \<and> length (wps s) = nat (waypoint_num s)"
    and lead: "exec_state s = WAIT_TARGET \<Longrightarrow> leads ev s0 GEN_NEW_TRAJ" "exec_state s = EXEC_TRAJ \<Longrightarrow> leads ev s0 REPLAN_TRAJ"
    and same: "exec_state s = exec_state s0" "outputs s = outputs s0" "flag_escape_emergency s = flag_escape_emergency s0"
      "enable_fail_safe s = enable_fail_safe s0"
  shows "\<exists>t. planNextWaypoint k e p s = Inr t \<and> step_ok ev s0 t"
proof -
  have "params_ok s" using s by (simp add: ego_inv_def ego_base_def)
  from planNextWaypoint_ok [OF this k] obtain t where t: "planNextWaypoint k e p s = Inr t" "targets s t" by blast
  note kept = targets_kept [OF s t(2) wp]
  have "exec_state t = exec_state s0 \<or> leads ev s0 (exec_state t)"
    using kept(5) lead same(1) by (cases "exec_state s = WAIT_TARGET \<or> exec_state s = EXEC_TRAJ") (auto simp: after_target_def)
  moreover have "exec_state t = EXEC_TRAJ \<Longrightarrow> exec_state s0 = EXEC_TRAJ"
    using kept(5) by (simp add: after_target_def split: if_splits)
  ultimately have "step_ok ev s0 t" using kept same unfolding step_ok_def by auto
  with t(1) show ?thesis by blast
qed

lemma waypoint_ok:
  assumes s: "ego_inv s" and k: "solver_ok k"
  shows "\<exists>t. ego_handle k (Waypoint e p) s = Inr t \<and> step_ok (Waypoint e p) s t"
proof (cases "target_type s = MANUAL_TARGET \<and> \<not> vz p < - (1 / 10)")
  case True
  then have m: "target_type s = MANUAL_TARGET" by simp
  then have np: "target_type s \<noteq> PRESET_TARGET" by (simp add: MANUAL_TARGET_def PRESET_TARGET_def)
  have "ego_inv (s\<lparr>init_pt := odom_pos s\<rparr>)" using s by (simp add: ego_inv_defs)
  from new_target_ok [OF this k, of "Waypoint e p" s e "Vec3 (vx p) (vy p) 1"] True np
  show ?thesis by (simp add: waypointCallback_def not_less leads.targeted [OF m] leads.retargeted [OF m])
next
  case False
  with s step_ok_same show ?thesis by (auto simp: waypointCallback_def)
qed

lemma init_check_ok:
  assumes s: "ego_inv s" and k: "solver_ok k"
  shows "\<exists>t. ego_handle k (InitCheck e) s = Inr t \<and> step_ok (InitCheck e) s t"
proof (cases "in_init s \<and> have_odom s \<and> have_trigger s \<and> 0 < waypoint_num s")
  case True
  let ?ws = "map ((!) (waypoints s)) [0..<nat (waypoint_num s)]"
  have len: "nat (waypoint_num s) \<le> length (waypoints s)" using s by (simp add: ego_inv_def ego_base_def)
  then have ws: "map_result (fetch (waypoints s)) [0..<nat (waypoint_num s)] = Inr ?ws" by (intro map_result_ok) simp
  let ?s = "s\<lparr>wps := ?ws, wp_id := 0, have_target := have_target s, have_trigger := have_trigger s\<rparr>"
  have "ego_inv ?s" using s True by (intro with_waypoint) auto
  then have inv: "ego_inv (s\<lparr>in_init := False, wps := ?ws, wp_id := 0\<rparr>)" by (simp add: ego_inv_defs)
  have lead: "exec_state s = WAIT_TARGET \<Longrightarrow> leads (InitCheck e) s GEN_NEW_TRAJ"
    "exec_state s = EXEC_TRAJ \<Longrightarrow> leads (InitCheck e) s REPLAN_TRAJ" using True by (auto intro: leads.preset leads.reset)
  have "fetch ?ws 0 = Inr (?ws ! 0)" using True by (intro fetch_ok) simp
  then have "ego_handle k (InitCheck e) s = planNextWaypoint k e (?ws ! 0) (s\<lparr>in_init := False, wps := ?ws, wp_id := 0\<rparr>)"
    using True ws by (simp add: init_check_def readGivenWps_def)
  with new_target_ok [OF inv k, of "InitCheck e" s e "?ws ! 0"] lead True show ?thesis by simp
next
  case False
  have "ego_inv (s\<lparr>in_init := False\<rparr>)" using s by (simp add: ego_inv_defs)
  then have "step_ok (InitCheck e) s (s\<lparr>in_init := False\<rparr>)" by (intro step_ok_frame) simp_all
  with False s step_ok_same show ?thesis by (auto simp: init_check_def readGivenWps_def)
qed

lemma set_swarm_kept: "ego_inv s \<Longrightarrow> list_all swarm_ok buf \<Longrightarrow> ego_inv (set_swarm buf s)"
  by (simp add: set_swarm_def ego_inv_defs)

lemma checkCollision_ok:
  assumes "local_ok l \<or> start_time l = 0" "i < length buf" "well_knotted (sw_position_traj (buf ! i))"
  shows "\<exists>b. checkCollision c l buf i = Inr b"
proof (cases "start_time l < 10 ^ 9")
  case False
  with assms(1) have "local_ok l" by auto
  then have "\<exists>p. evaluateDeBoorT t (position_traj l) = Inr p" for t using local_ok_evaluate by blast
  moreover have "\<exists>p. evaluateDeBoorT t (sw_position_traj (buf ! i)) = Inr p" for t using evaluateDeBoorT_ok assms(3) by blast
  ultimately have "\<exists>b. bind_result (evaluateDeBoorT (t - start_time l) (position_traj l)) (\<lambda>a.
      bind_result (evaluateDeBoorT (t - sw_start_time (buf ! i)) (sw_position_traj (buf ! i))) (\<lambda>b.
        Inr (vnorm (vsub a b) < c))) = Inr b" for t by (metis bind_result.simps(2))
  with False assms(2) show ?thesis by (simp add: checkCollision_def Let_def any_result_ok)
qed (auto simp: checkCollision_def)

lemma broadcast_ok:
  assumes s: "ego_inv s" and m: "msg_ok m" "0 \<le> msg_drone_id m"
  shows "\<exists>t. ego_handle k (Broadcast e m) s = Inr t \<and> step_ok (Broadcast e m) s t \<and> taken (Broadcast e m) s t"
proof (cases "msg_drone_id m = plan_drone_id (pp (mgr s)) \<or> \<bar>env_now e - msg_start_time m\<bar> > 1 / 4")
  case True
  then have "taken (Broadcast e m) s s" by (auto simp: taken_def heeded_def elim!: leads_Broadcast)
  with True step_ok_same [OF s] show ?thesis by (auto simp: BroadcastBsplineCallback_def)
next
  case False
  let ?i = "nat (msg_drone_id m)" and ?buf = "swarm_trajs_buf (mgr s)"
  define buf where "buf = ?buf @ replicate (Suc ?i - length ?buf) blank_swarm"
  have i: "?i < length buf" by (simp add: buf_def)
  have b: "list_all swarm_ok buf" using ego_inv_base [OF s] by (auto simp: buf_def ego_base_def list_all_iff)
  obtain st o1 where o1: "receive_traj s ?i m (buf ! ?i) = Inr (st, o1)" "swarm_ok o1" "st \<longrightarrow> well_knotted (sw_position_traj o1)"
    using receive_traj_ok [OF m(1)] by blast
  let ?t = "set_swarm (buf[?i := o1]) s"
  have inv: "ego_inv ?t" using b o1 by (intro set_swarm_kept s) (auto intro: list_all_update)
  have t: "exec_state ?t = exec_state s" "outputs ?t = outputs s" "flag_escape_emergency ?t = flag_escape_emergency s"
    "enable_fail_safe ?t = enable_fail_safe s" "local_data (mgr ?t) = local_data (mgr s)"
    by (simp_all add: set_swarm_def)
  have kept: "step_ok (Broadcast e m) s ?t" using inv t by (intro step_ok_frame) simp_all
  show ?thesis
  proof (cases st)
    case no: False
    with o1(1) have "\<not> heeded e s m" by (auto simp: receive_traj_def heeded_def far_away_def split: if_splits)
    then have "taken (Broadcast e m) s ?t" by (auto simp: taken_def elim!: leads_Broadcast)
    with no False m(2) o1(1) kept show ?thesis by (simp add: BroadcastBsplineCallback_def Let_def buf_def [symmetric])
  next
    case True
    then obtain p where near: "swarm_start m = Inr p" "\<not> far_away s p" and entry: "swarm_entry ?i m (buf ! ?i) = Inr o1"
      using o1(1) by (auto simp: receive_traj_def split: if_splits)
    have "local_ok (local_data (mgr s)) \<or> start_time (local_data (mgr s)) = 0"
      using ego_inv_base [OF s] by (auto simp: ego_base_def idle_def flying_def in_sync_def)
    from checkCollision_ok [OF this, of ?i "buf[?i := o1]"] i o1(3) True obtain c where
      c: "checkCollision (swarm_clearance (mgr s)) (local_data (mgr s)) (buf[?i := o1]) ?i = Inr c" by auto
    have run: "ego_handle k (Broadcast e m) s = Inr (if c then changeFSMExecState REPLAN_TRAJ ?t else ?t)"
      using False m(2) o1(1) True c by (simp add: BroadcastBsplineCallback_def Let_def buf_def [symmetric])
    show ?thesis
    proof (cases c)
      case True
      with collision_crosses [OF entry _ _ c] i have st: "start_time (local_data (mgr s)) \<ge> 10 ^ 9" and "crosses s m" by simp_all
      then have "flying ?t" using started_flying [OF ego_inv_base [OF inv]] t(5) by auto
      then have "ego_inv (changeFSMExecState REPLAN_TRAJ ?t)" using ego_inv_base [OF inv] by (intro ego_inv_change) simp_all
      moreover have "heeded e s m" using False near st by (simp add: heeded_def far_away_def)
      then have "leads (Broadcast e m) s REPLAN_TRAJ" using \<open>crosses s m\<close> by (rule leads.met)
      ultimately have "step_ok (Broadcast e m) s (changeFSMExecState REPLAN_TRAJ ?t)" using t by (simp add: step_ok_def)
      moreover have "taken (Broadcast e m) s (changeFSMExecState REPLAN_TRAJ ?t)" by (auto simp: taken_def elim!: leads_Broadcast)
      ultimately show ?thesis using run True by simp
    next
      case False
      with collision_crosses [OF entry _ _ c] i have "taken (Broadcast e m) s ?t"
        by (auto simp: taken_def heeded_def elim!: leads_Broadcast)
      with run kept False show ?thesis by simp
    qed
  qed
qed

lemma swarm_message_ok:
  assumes s: "ego_inv s" and m: "ms \<noteq> []" "list_all msg_ok ms"
  shows "\<exists>t. ego_handle k (SwarmMsg i ms) s = Inr t \<and> step_ok (SwarmMsg i ms) s t"
proof -
  let ?s = "s\<lparr>multi_bspline_msgs_buf := (i, ms)\<rparr>"
  obtain buf where buf: "receive_all ?s 0 ms = Inr buf" "list_all swarm_ok buf" using receive_all_ok [OF m(2)] by blast
  have inv: "ego_inv ?s" "ego_inv ((set_swarm buf ?s)\<lparr>have_recv_pre_agent := True\<rparr>)"
    using s set_swarm_kept [OF _ buf(2), of ?s] by (simp_all add: ego_inv_defs)
  have "step_ok (SwarmMsg i ms) s ?s" "step_ok (SwarmMsg i ms) s ((set_swarm buf ?s)\<lparr>have_recv_pre_agent := True\<rparr>)"
    using inv by (intro step_ok_frame; simp add: set_swarm_def)+
  moreover have "fetch ms 0 = Inr (ms ! 0)" using m(1) by simp
  ultimately show ?thesis using buf(1) step_ok_same [OF s] by (simp add: swarmTrajsCallback_def Let_def)
qed

lemma spin_check_ok:
  assumes s: "ego_inv s"
  shows "\<exists>t. ego_handle k SpinCheck s = Inr t \<and> step_ok SpinCheck s t"
proof (cases "waiting s > 0 \<and> exec_state s = EXEC_TRAJ")
  case True
  have "ego_inv (s\<lparr>waiting := waiting s - 1\<rparr>)" using s by (simp add: ego_inv_defs)
  moreover have "flying (s\<lparr>waiting := waiting s - 1\<rparr>)" using s True by (simp add: ego_inv_defs)
  ultimately have "ego_inv (changeFSMExecState REPLAN_TRAJ (s\<lparr>waiting := waiting s - 1\<rparr>))"
    by (intro ego_inv_change) (simp_all add: ego_inv_base)
  with True leads.resumed show ?thesis by (simp add: spin_check_def step_ok_def)
qed (use step_ok_same [OF s] in \<open>auto simp: spin_check_def\<close>)

section \<open>Every event\<close>

lemma ego_handle_ok:
  assumes s: "ego_inv s" and k: "solver_ok k" and ev: "ego_event_ok ev"
  shows "\<exists>t. ego_handle k ev s = Inr t \<and> step_ok ev s t"
proof (cases ev)
  case (Exec e)
  with exec_ok [OF s k] ev show ?thesis by (simp add: ego_event_ok_def)
next
  case (Safety e)
  with safety_ok [OF s] ev show ?thesis by (fastforce simp: ego_event_ok_def)
next
  case TargetCheck
  have "step_ok TargetCheck s (post_output [NoTarget] s)" using s by (intro step_ok_frame) simp_all
  with TargetCheck step_ok_same [OF s] show ?thesis by (simp add: checkTargetExistCallback_def)
next
  case (Odometry p v)
  have "ego_inv (odometryCallback p v s)" using s by (simp add: odometryCallback_def ego_inv_defs)
  then have "step_ok (Odometry p v) s (odometryCallback p v s)" by (intro step_ok_frame) (simp_all add: odometryCallback_def)
  with Odometry show ?thesis by simp
next
  case Trigger
  have "ego_inv (triggerCallback s)" using s by (simp add: triggerCallback_def ego_inv_defs)
  then have "step_ok Trigger s (triggerCallback s)" by (intro step_ok_frame) (simp_all add: triggerCallback_def)
  with Trigger step_ok_same [OF s] show ?thesis by simp
next
  case (Waypoint e p)
  with waypoint_ok [OF s k] show ?thesis by blast
next
  case (Broadcast e m)
  with broadcast_ok [OF s] ev show ?thesis by (fastforce simp: ego_event_ok_def)
next
  case (SwarmMsg i ms)
  with swarm_message_ok [OF s] ev show ?thesis by (simp add: ego_event_ok_def)
next
  case SpinCheck
  with spin_check_ok [OF s] show ?thesis by blast
next
  case (InitCheck e)
  with init_check_ok [OF s k] show ?thesis by blast
qed

section \<open>The edge that is taken\<close>

text \<open>A new target moves a waiting or flying machine on.\<close>

lemma new_target_moves:
  assumes "params_ok s" "solver_ok k" "planNextWaypoint k e p s = Inr t"
  shows "exec_state t = after_target (exec_state s)"
  using planNextWaypoint_ok [OF assms(1,2), of e p] assms(3) by (auto simp: targets_def)

lemma exec_taken:
  assumes s: "ego_inv s" and k: "solver_ok k" and t: "ego_handle k (Exec e) s = Inr t"
  shows "taken (Exec e) s t"
proof (cases "exec_state s = EXEC_TRAJ")
  case True
  from exec_EXEC_TRAJ_ok [OF s True k, of e] t True show ?thesis
    by (auto simp: execFSMCallback_def exec_case_def taken_def split: if_splits)
next
  case False
  have "st = exec_state t \<or> st = EXEC_TRAJ" if "leads (Exec e) s st" for st
    using that by (rule leads_Exec)
      (use t False in \<open>auto simp: execFSMCallback_def exec_case_def exec_INIT_def exec_WAIT_TARGET_def exec_EMERGENCY_STOP_def\<close>)
  then show ?thesis by (simp add: taken_def)
qed

lemma edge_taken:
  assumes s: "ego_inv s" and k: "solver_ok k" and ev: "ego_event_ok ev" and t: "ego_handle k ev s = Inr t"
  shows "taken ev s t"
proof (cases ev)
  case (Exec e)
  with exec_taken [OF s k] t show ?thesis by simp
next
  case (Safety e)
  with safety_ok [OF s, of e k] ev t show ?thesis by (auto simp: ego_event_ok_def)
next
  case (Broadcast e m)
  with broadcast_ok [OF s, of m k e] ev t show ?thesis by (auto simp: ego_event_ok_def)
next
  case (Waypoint e p)
  have "params_ok (s\<lparr>init_pt := odom_pos s\<rparr>)" using s by (simp add: ego_inv_defs)
  from new_target_moves [OF this k] t Waypoint show ?thesis
    by (auto simp: taken_def waypointCallback_def after_target_def elim!: leads_cases split: if_splits)
next
  case (InitCheck e)
  have "params_ok (s\<lparr>in_init := False, wps := ws, wp_id := 0\<rparr>)" for ws using s by (simp add: ego_inv_defs)
  from new_target_moves [OF this k] t InitCheck show ?thesis
    by (auto simp: taken_def init_check_def readGivenWps_def after_target_def elim!: leads_cases split: if_splits)
next
  case SpinCheck
  with t show ?thesis by (auto simp: taken_def spin_check_def elim!: leads_cases)
qed (auto simp: taken_def elim!: leads_cases)

end
