(* ===== verification/TrajServer.thy ===== *)
theory TrajServer
  imports PlannerData Machine
begin

text \<open>
  The trajectory server \<open>plan_manage/src/traj_server.cpp\<close>: it takes the latest B-spline of the
  planner and, a hundred times a second, publishes position, velocity and acceleration of the
  spline together with a heading that turns towards the point ahead at a limited rate.  A
  position command is what the mission controller receives in its callback \<open>quadmsgCallback\<close>.
  The gains, constant zero, and the forward position \<open>pos_f\<close>, which is never used, are left out.
\<close>

section \<open>State\<close>

record position_cmd =
  cmd_trajectory_id :: int
  cmd_position :: vec3
  cmd_velocity :: vec3
  cmd_acceleration :: vec3
  cmd_yaw :: real
  cmd_yaw_dot :: real

record traj_server =
  receive_traj :: bool
  traj :: "bspline list"
  traj_duration :: real
  srv_start_time :: real
  srv_traj_id :: int
  last_yaw :: real
  last_yaw_dot :: real
  time_forward :: real
  time_last :: "real option"               \<comment> \<open>static; set when \<open>cmdCallback\<close> first gets there\<close>
  commands :: "position_cmd list"      \<comment> \<open>published, oldest first\<close>

definition server_start :: "real \<Rightarrow> traj_server" where
  "server_start forward = \<lparr>receive_traj = False, traj = [], traj_duration = 0, srv_start_time = 0,
     srv_traj_id = 0, last_yaw = 0, last_yaw_dot = 0, time_forward = forward, time_last = None, commands = []\<rparr>"

definition bsplineCallback :: "bspline_msg \<Rightarrow> traj_server \<Rightarrow> cpp_error + traj_server" where
  "bsplineCallback msg s =
     bind_result (msg_spline (1 / 10) msg) (\<lambda>pos_traj.
     bind_result (getDerivative pos_traj) (\<lambda>vel_traj.
     bind_result (getDerivative vel_traj) (\<lambda>acc_traj.
     bind_result (getTimeSum pos_traj) (\<lambda>T.
       Inr (s\<lparr>srv_start_time := msg_start_time msg, srv_traj_id := msg_traj_id msg,
              traj := [pos_traj, vel_traj, acc_traj], traj_duration := T, receive_traj := True\<rparr>)))))"

section \<open>Heading\<close>

text \<open>\<open>atan2\<close> of the standard library, and the value of \<open>PI\<close> that the code uses.\<close>

definition atan2 :: "real \<Rightarrow> real \<Rightarrow> real" where
  "atan2 y x =
     (if x > 0 then arctan (y / x)
      else if x < 0 then (if y \<ge> 0 then arctan (y / x) + pi else arctan (y / x) - pi)
      else if y > 0 then pi / 2 else if y < 0 then - (pi / 2) else 0)"

definition PI_yaw :: real where
  "PI_yaw = 31415926 / 10000000"

text \<open>The desired heading: towards the point \<open>time_forward_\<close> ahead, unless that is too near.\<close>

definition yaw_target :: "real \<Rightarrow> vec3 \<Rightarrow> traj_server \<Rightarrow> cpp_error + real" where
  "yaw_target t_cur pos s =
     bind_result (fetch (traj s) 0) (\<lambda>p.
     bind_result (evaluateDeBoorT (if t_cur + time_forward s \<le> traj_duration s then t_cur + time_forward s
                                   else traj_duration s) p) (\<lambda>ahead.
       let dir = vsub ahead pos
       in Inr (if vnorm dir > 1 / 10 then atan2 (vy dir) (vx dir) else last_yaw s)))"

text \<open>
  The three cases of the turn: heading and rate, before they are smoothed.  \<open>prev\<close> is the last
  heading, \<open>dt\<close> the time since.
\<close>

definition turn :: "real \<Rightarrow> real \<Rightarrow> real \<Rightarrow> real \<Rightarrow> cpp_error + real \<times> real" where
  "turn prev yaw_temp max_yaw_change dt =
     (let rate = bind_result (fdiv (yaw_temp - prev) dt) (\<lambda>r. Inr (yaw_temp, r));
          less = (let yaw = prev - max_yaw_change in (if yaw < - PI_yaw then yaw + 2 * PI_yaw else yaw, - PI_yaw));
          more = (let yaw = prev + max_yaw_change in (if yaw > PI_yaw then yaw - 2 * PI_yaw else yaw, PI_yaw))
      in if yaw_temp - prev > PI_yaw then
           (if yaw_temp - prev - 2 * PI_yaw < - max_yaw_change then Inr less
            else if yaw_temp - prev > PI_yaw then Inr (yaw_temp, - PI_yaw) else rate)
         else if yaw_temp - prev < - PI_yaw then
           (if yaw_temp - prev + 2 * PI_yaw > max_yaw_change then Inr more
            else if yaw_temp - prev < - PI_yaw then Inr (yaw_temp, PI_yaw) else rate)
         else
           (if yaw_temp - prev < - max_yaw_change then Inr less
            else if yaw_temp - prev > max_yaw_change then Inr more
            else if yaw_temp - prev > PI_yaw then Inr (yaw_temp, - PI_yaw)
            else if yaw_temp - prev < - PI_yaw then Inr (yaw_temp, PI_yaw)
            else rate))"

definition calculate_yaw :: "real \<Rightarrow> vec3 \<Rightarrow> real \<Rightarrow> traj_server \<Rightarrow> cpp_error + (real \<times> real) \<times> traj_server" where
  "calculate_yaw t_cur pos dt s =
     bind_result (yaw_target t_cur pos s) (\<lambda>yaw_temp.
     bind_result (turn (last_yaw s) yaw_temp (PI_yaw * dt) dt) (\<lambda>(yaw, yawdot).
       let yaw' = (if \<bar>yaw - last_yaw s\<bar> \<le> PI_yaw * dt then last_yaw s / 2 + yaw / 2 else yaw);
           yawdot' = last_yaw_dot s / 2 + yawdot / 2
       in Inr ((yaw', yawdot'), s\<lparr>last_yaw := yaw', last_yaw_dot := yawdot'\<rparr>)))"

section \<open>The command timer\<close>

definition publish_cmd :: "vec3 \<Rightarrow> vec3 \<Rightarrow> vec3 \<Rightarrow> real \<Rightarrow> real \<Rightarrow> real \<Rightarrow> traj_server \<Rightarrow> traj_server" where
  "publish_cmd pos vel acc yaw yawdot time_now s =
     s\<lparr>time_last := Some time_now, last_yaw := yaw,
       commands := commands s @ [\<lparr>cmd_trajectory_id = srv_traj_id s, cmd_position = pos, cmd_velocity = vel,
                                  cmd_acceleration = acc, cmd_yaw = yaw, cmd_yaw_dot = yawdot\<rparr>]\<rparr>"

text \<open>
  \<open>cmdCallback\<close> at \<open>time_now\<close>; \<open>later\<close> is the second reading of the clock that initialises the
  static \<open>time_last\<close> on the first call that reaches it.
\<close>

definition cmdCallback :: "real \<Rightarrow> real \<Rightarrow> traj_server \<Rightarrow> cpp_error + traj_server" where
  "cmdCallback time_now later s =
     (if \<not> receive_traj s then Inr s
      else let t_cur = time_now - srv_start_time s;
               prev = (case time_last s of None \<Rightarrow> later | Some t \<Rightarrow> t);
               s1 = s\<lparr>time_last := Some prev\<rparr>
           in if t_cur < traj_duration s1 \<and> t_cur \<ge> 0 then
                bind_result (fetch (traj s1) 0) (\<lambda>p.
                bind_result (fetch (traj s1) 1) (\<lambda>v.
                bind_result (fetch (traj s1) 2) (\<lambda>a.
                bind_result (evaluateDeBoorT t_cur p) (\<lambda>pos.
                bind_result (evaluateDeBoorT t_cur v) (\<lambda>vel.
                bind_result (evaluateDeBoorT t_cur a) (\<lambda>acc.
                bind_result (calculate_yaw t_cur pos (time_now - prev) s1) (\<lambda>((yaw, yawdot), s2).
                  Inr (publish_cmd pos vel acc yaw yawdot time_now s2))))))))
              else if t_cur \<ge> traj_duration s1 then
                bind_result (fetch (traj s1) 0) (\<lambda>p.
                bind_result (evaluateDeBoorT (traj_duration s1) p) (\<lambda>pos. Inr s1))
              else Inr (publish_cmd vzero vzero vzero 0 0 time_now s1))"

text \<open>
  The node's events: a trajectory arrives, or the timer fires.  The clock belongs to the
  environment: \<open>Tick d e\<close> reads it \<open>d\<close> seconds after the last reading, and once more \<open>e\<close>
  seconds later.
\<close>

datatype server_event = Trajectory bspline_msg | Tick real real

fun server_handle :: "server_event \<Rightarrow> real \<times> traj_server \<Rightarrow> cpp_error + real \<times> traj_server" where
  "server_handle (Trajectory m) (clock, s) = bind_result (bsplineCallback m s) (\<lambda>s'. Inr (clock, s'))"
| "server_handle (Tick d e) (clock, s) =
     bind_result (cmdCallback (clock + d) (clock + d + e) s) (\<lambda>s'. Inr (clock + d + e, s'))"

end
