(* ===== verification/TrajServerProps.thy ===== *)
theory TrajServerProps
  imports TrajServer
begin

text \<open>
  Runs of the trajectory server: with a clock that moves and trajectories from feasible splines it
  never fails, its commands stay within the limits of the splines, and the heading and its rate
  stay bounded.  A trajectory that starts in the future makes it command the origin.
\<close>

section \<open>Heading\<close>

definition yaw_bound :: real where
  "yaw_bound = max pi PI_yaw"

lemma yaw_bound_ge: "PI_yaw \<le> yaw_bound" "pi \<le> yaw_bound" "0 < PI_yaw" "3 < PI_yaw" "0 < yaw_bound"
  by (simp_all add: yaw_bound_def PI_yaw_def)

lemma atan2_bound: "\<bar>atan2 y x\<bar> \<le> yaw_bound"
proof -
  have "\<bar>atan2 y x\<bar> \<le> pi"
  proof (cases "x < 0")
    case True
    have b: "- (pi / 2) < arctan (y / x)" "arctan (y / x) < pi / 2" by (rule arctan_lbound arctan_ubound)+
    show ?thesis
    proof (cases "y \<ge> 0")
      case y: True
      then have "y / x \<le> 0" using True by (simp add: divide_le_0_iff)
      then have "arctan (y / x) \<le> 0" by simp
      moreover have "atan2 y x = arctan (y / x) + pi" using True y by (simp add: atan2_def)
      ultimately show ?thesis using b by linarith
    next
      case y: False
      then have "0 \<le> y / x" using True by (simp add: zero_le_divide_iff)
      then have "0 \<le> arctan (y / x)" by simp
      moreover have "atan2 y x = arctan (y / x) - pi" using True y by (simp add: atan2_def)
      ultimately show ?thesis using b by linarith
    qed
  next
    case False
    have b: "- (pi / 2) < arctan (y / x)" "arctan (y / x) < pi / 2" by (rule arctan_lbound arctan_ubound)+
    with False pi_gt_zero show ?thesis by (auto simp: atan2_def abs_if)
  qed
  also have "pi \<le> yaw_bound" by (rule yaw_bound_ge)
  finally show ?thesis .
qed

text \<open>
  The results of one turn, by cases.  It fails only when no time has passed and the heading is
  already the desired one.
\<close>

lemma turn_error: "turn prev yt mx dt = Inl e \<Longrightarrow> dt = 0 \<and> - mx \<le> yt - prev \<and> yt - prev \<le> mx"
  by (auto simp: turn_def Let_def fdiv_def split: if_splits)

lemma turn_cases:
  assumes "turn prev yt mx dt = Inr (yaw, r)"
  obtains
    (target) "yaw = yt" "\<bar>r\<bar> = PI_yaw" |
    (rate) "yaw = yt" "dt \<noteq> 0" "r = (yt - prev) / dt" "\<bar>yt - prev\<bar> \<le> mx" |
    (less) "yaw = (if prev - mx < - PI_yaw then prev - mx + 2 * PI_yaw else prev - mx)" "r = - PI_yaw"
        "mx \<le> PI_yaw \<or> yt - prev > PI_yaw \<and> mx < 2 * PI_yaw - (yt - prev)" |
    (more) "yaw = (if prev + mx > PI_yaw then prev + mx - 2 * PI_yaw else prev + mx)" "r = PI_yaw"
        "mx \<le> PI_yaw \<or> prev - yt > PI_yaw \<and> mx < 2 * PI_yaw - (prev - yt)"
proof -
  have p: "\<bar>PI_yaw\<bar> = PI_yaw" using yaw_bound_ge(3) by simp
  consider "yt - prev > PI_yaw" | "\<not> yt - prev > PI_yaw" "yt - prev < - PI_yaw"
    | "\<not> yt - prev > PI_yaw" "\<not> yt - prev < - PI_yaw" by blast
  then show thesis
  proof cases
    case 1
    show thesis
    proof (cases "yt - prev - 2 * PI_yaw < - mx")
      case True
      with 1 assms have e: "yaw = (if prev - mx < - PI_yaw then prev - mx + 2 * PI_yaw else prev - mx)" "r = - PI_yaw"
        by (auto simp: turn_def Let_def)
      show thesis by (rule less [OF e]) (use 1 True in auto)
    next
      case False
      with 1 assms p show thesis by (intro target) (auto simp: turn_def Let_def)
    qed
  next
    case 2
    show thesis
    proof (cases "yt - prev + 2 * PI_yaw > mx")
      case True
      with 2 assms have e: "yaw = (if prev + mx > PI_yaw then prev + mx - 2 * PI_yaw else prev + mx)" "r = PI_yaw"
        by (auto simp: turn_def Let_def)
      show thesis by (rule more [OF e]) (use 2 True in auto)
    next
      case False
      with 2 assms p show thesis by (intro target) (auto simp: turn_def Let_def)
    qed
  next
    case 3
    consider (lo) "yt - prev < - mx" | (hi) "\<not> yt - prev < - mx" "yt - prev > mx"
      | (mid) "\<not> yt - prev < - mx" "\<not> yt - prev > mx" by blast
    then show thesis
    proof cases
      case lo
      with 3 assms have e: "yaw = (if prev - mx < - PI_yaw then prev - mx + 2 * PI_yaw else prev - mx)" "r = - PI_yaw"
        by (auto simp: turn_def Let_def)
      show thesis by (rule less [OF e]) (use 3 lo in auto)
    next
      case hi
      with 3 assms have e: "yaw = (if prev + mx > PI_yaw then prev + mx - 2 * PI_yaw else prev + mx)" "r = PI_yaw"
        by (auto simp: turn_def Let_def)
      show thesis by (rule more [OF e]) (use 3 hi in auto)
    next
      case mid
      with 3 assms have e: "yaw = yt" "dt \<noteq> 0" "r = (yt - prev) / dt" by (auto simp: turn_def Let_def fdiv_Inr)
      show thesis by (rule rate [OF e]) (use mid in auto)
    qed
  qed
qed

lemma turn_rate:
  assumes "turn prev yt (PI_yaw * dt) dt = Inr (yaw, r)"
  shows "\<bar>r\<bar> \<le> PI_yaw"
  using assms
proof (cases rule: turn_cases)
  case rate
  have "0 < dt"
  proof (rule ccontr)
    assume "\<not> 0 < dt"
    with rate(2) have "PI_yaw * dt < 0" using yaw_bound_ge(3) by (simp add: mult_less_0_iff)
    with rate(4) show False by simp
  qed
  with rate show ?thesis by (simp add: abs_divide pos_divide_le_eq)
qed (use yaw_bound_ge(3) in auto)

lemma turn_heading:
  assumes t: "turn prev yt mx dt = Inr (yaw, r)" and mx: "0 \<le> mx"
    and b: "\<bar>prev\<bar> \<le> yaw_bound" "\<bar>yt\<bar> \<le> yaw_bound"
  shows "\<bar>yaw\<bar> \<le> yaw_bound"
  using t
proof (cases rule: turn_cases)
  case less
  with mx b yaw_bound_ge(1) show ?thesis by (auto simp: abs_le_iff split: if_splits)
next
  case more
  with mx b yaw_bound_ge(1) show ?thesis by (auto simp: abs_le_iff split: if_splits)
qed (use b in auto)

text \<open>On the first call the clock may have moved back by up to a second, from heading zero.\<close>

lemma turn_first:
  assumes t: "turn 0 yt mx dt = Inr (yaw, r)" and mx: "- PI_yaw \<le> mx" "mx < 0" and b: "\<bar>yt\<bar> \<le> yaw_bound"
  shows "\<bar>yaw\<bar> \<le> yaw_bound"
  using t
proof (cases rule: turn_cases)
  case less
  with mx yaw_bound_ge(1,3) show ?thesis by (auto simp: abs_le_iff split: if_splits)
next
  case more
  with mx yaw_bound_ge(1,3) show ?thesis by (auto simp: abs_le_iff split: if_splits)
qed (use b in auto)

section \<open>Invariant\<close>

text \<open>A spline inside \<open>S\<close> that passed the feasibility test with enlarged limits \<open>vb\<close> and \<open>ab\<close>.\<close>

definition planned :: "vec3 set \<Rightarrow> real \<Rightarrow> real \<Rightarrow> bspline \<Rightarrow> bool" where
  "planned S vb ab sp \<longleftrightarrow> well_knotted sp \<and> degree sp = 3 \<and> set (control_points sp) \<subseteq> S
     \<and> (\<exists>v a tol ratio. limits sp = Some (v, a, tol) \<and> checkFeasibility sp = Inr (True, ratio)
          \<and> vb = v * (1 + tol) + 1 / 10000 \<and> ab = a * (1 + tol) + 1 / 10000)"

definition serves :: "vec3 set \<Rightarrow> real \<Rightarrow> real \<Rightarrow> traj_server \<Rightarrow> bool" where
  "serves S vb ab s \<longleftrightarrow> (\<exists>p v a. traj s = [p, v, a]
     \<and> (\<forall>t. \<exists>x. evaluateDeBoorT t p = Inr x \<and> x \<in> S)
     \<and> (\<forall>t. \<exists>x. evaluateDeBoorT t v = Inr x \<and> \<not> exceeds vb x)
     \<and> (\<forall>t. \<exists>x. evaluateDeBoorT t a = Inr x \<and> \<not> exceeds ab x))"

definition good_command :: "vec3 set \<Rightarrow> real \<Rightarrow> real \<Rightarrow> position_cmd \<Rightarrow> bool" where
  "good_command S vb ab c \<longleftrightarrow> (cmd_position c \<in> S \<or> cmd_position c = vzero)
     \<and> \<not> exceeds vb (cmd_velocity c) \<and> \<not> exceeds ab (cmd_acceleration c)
     \<and> \<bar>cmd_yaw c\<bar> \<le> yaw_bound \<and> \<bar>cmd_yaw_dot c\<bar> \<le> PI_yaw"

definition server_inv :: "vec3 set \<Rightarrow> real \<Rightarrow> real \<Rightarrow> real \<times> traj_server \<Rightarrow> bool" where
  "server_inv S vb ab = (\<lambda>(clock, s).
     (receive_traj s \<longrightarrow> serves S vb ab s) \<and> list_all (good_command S vb ab) (commands s)
     \<and> \<bar>last_yaw s\<bar> \<le> yaw_bound \<and> \<bar>last_yaw_dot s\<bar> \<le> PI_yaw
     \<and> (time_last s = None \<longrightarrow> last_yaw s = 0) \<and> (\<forall>t. time_last s = Some t \<longrightarrow> t \<le> clock))"

fun server_event_ok :: "vec3 set \<Rightarrow> real \<Rightarrow> real \<Rightarrow> server_event \<Rightarrow> bool" where
  "server_event_ok S vb ab (Trajectory m) \<longleftrightarrow>
     (\<exists>sp drone tid start. m = spline_msg drone tid start sp \<and> planned S vb ab sp)"
| "server_event_ok S vb ab (Tick d e) \<longleftrightarrow> 0 < d \<and> 0 < e \<and> e \<le> 1"

lemma trajectory_loaded:
  assumes wk: "well_knotted sp" and deg: "degree sp = 3"
    and d: "getDerivative sp = Inr d" "getDerivative d = Inr dd"
  shows "bsplineCallback (spline_msg drone tid start sp) s = Inr (s\<lparr>srv_start_time := start, srv_traj_id := tid,
    traj := [sp\<lparr>knot_span := 1 / 10, limits := None\<rparr>, d\<lparr>knot_span := 1 / 10, limits := None\<rparr>,
             dd\<lparr>knot_span := 1 / 10, limits := None\<rparr>],
    traj_duration := knots sp ! (last_knot sp - degree sp) - knots sp ! degree sp, receive_traj := True\<rparr>)"
  using msg_spline_round [OF wk deg] getDerivative_cong [OF d(1)] getDerivative_cong [OF d(2)] getTimeSum_ok [OF wk]
  by (simp add: bsplineCallback_def well_knotted_cong spline_msg_def)

lemma trajectory_ok:
  assumes inv: "server_inv S vb ab (clock, s)" and S: "convex_set S" and sp: "planned S vb ab sp"
  shows "\<exists>s'. bsplineCallback (spline_msg drone tid start sp) s = Inr s' \<and> server_inv S vb ab (clock, s')"
proof -
  from sp have wk: "well_knotted sp" and deg: "degree sp = 3" and S': "set (control_points sp) \<subseteq> S"
    by (simp_all add: planned_def)
  from sp obtain v a tol ratio where l: "limits sp = Some (v, a, tol)" "checkFeasibility sp = Inr (True, ratio)"
    "vb = v * (1 + tol) + 1 / 10000" "ab = a * (1 + tol) + 1 / 10000"
    by (auto simp: planned_def)
  obtain d dd where d: "getDerivative sp = Inr d" "getDerivative d = Inr dd"
    "\<And>t. \<exists>x. evaluateDeBoorT t d = Inr x \<and> \<not> exceeds vb x"
    "\<And>t. \<exists>x. evaluateDeBoorT t dd = Inr x \<and> \<not> exceeds ab x"
    using feasible_everywhere [OF wk _ l(1,2)] deg l(3,4) by auto
  note trajectory_loaded [OF wk deg d(1,2), of drone tid start s]
  moreover have "\<exists>x. evaluateDeBoorT t sp = Inr x \<and> x \<in> S" for t using evaluateDeBoorT_in [OF wk S S'] by blast
  ultimately show ?thesis using inv d(3,4) by (auto simp: server_inv_def serves_def well_knotted_cong)
qed

lemma heading_ok:
  assumes ta: "\<exists>x. yaw_target t_cur pos s = Inr x \<and> \<bar>x\<bar> \<le> yaw_bound"
    and dt: "dt \<noteq> 0" "0 < dt \<or> last_yaw s = 0 \<and> - 1 \<le> dt"
    and b: "\<bar>last_yaw s\<bar> \<le> yaw_bound" "\<bar>last_yaw_dot s\<bar> \<le> PI_yaw"
  shows "\<exists>yaw yawdot. calculate_yaw t_cur pos dt s = Inr ((yaw, yawdot), s\<lparr>last_yaw := yaw, last_yaw_dot := yawdot\<rparr>)
    \<and> \<bar>yaw\<bar> \<le> yaw_bound \<and> \<bar>yawdot\<bar> \<le> PI_yaw"
proof -
  from ta obtain yt where yt: "yaw_target t_cur pos s = Inr yt" "\<bar>yt\<bar> \<le> yaw_bound" by blast
  obtain yaw r where t: "turn (last_yaw s) yt (PI_yaw * dt) dt = Inr (yaw, r)"
    using turn_error [of "last_yaw s" yt "PI_yaw * dt" dt] dt(1)
    by (cases "turn (last_yaw s) yt (PI_yaw * dt) dt") auto
  have "\<bar>yaw\<bar> \<le> yaw_bound"
  proof (cases "0 < dt")
    case True
    then show ?thesis using turn_heading [OF t _ b(1) yt(2)] yaw_bound_ge(3) by simp
  next
    case False
    with dt have d: "last_yaw s = 0" "dt < 0" "- 1 \<le> dt" by auto
    then have "- PI_yaw \<le> PI_yaw * dt" "PI_yaw * dt < 0"
      using yaw_bound_ge(3) mult_left_mono [of "- 1" dt PI_yaw] by (auto simp: mult_less_0_iff)
    then show ?thesis using turn_first [OF _ _ _ yt(2)] t d(1) by simp
  qed
  with t yt turn_rate [OF t] b show ?thesis by (auto simp: calculate_yaw_def Let_def abs_le_iff)
qed

lemma tick_ok:
  assumes inv: "server_inv S vb ab (clock, s)" and de: "0 < d" "0 < e" "e \<le> 1" and lim: "0 \<le> vb" "0 \<le> ab"
  shows "\<exists>s'. cmdCallback (clock + d) (clock + d + e) s = Inr s' \<and> server_inv S vb ab (clock + d + e, s')"
proof (cases "receive_traj s")
  case False
  with inv de show ?thesis by (auto simp: cmdCallback_def server_inv_def intro: add_increasing2 order_trans)
next
  case True
  let ?now = "clock + d" and ?t = "clock + d - srv_start_time s"
  define prev where "prev = (case time_last s of None \<Rightarrow> clock + d + e | Some t \<Rightarrow> t)"
  let ?s1 = "s\<lparr>time_last := Some prev\<rparr>"
  have z: "\<not> exceeds vb vzero" "\<not> exceeds ab vzero" using lim by (simp_all add: exceeds_def)
  have dt: "?now - prev \<noteq> 0" "0 < ?now - prev \<or> last_yaw s = 0 \<and> - 1 \<le> ?now - prev"
    using inv de by (cases "time_last s"; force simp: prev_def server_inv_def)+
  have inv1: "list_all (good_command S vb ab) (commands s)" "\<bar>last_yaw s\<bar> \<le> yaw_bound" "\<bar>last_yaw_dot s\<bar> \<le> PI_yaw"
    using inv by (simp_all add: server_inv_def)
  from inv True obtain p v a where tr: "traj s = [p, v, a]"
    and ev: "\<And>t. \<exists>x. evaluateDeBoorT t p = Inr x \<and> x \<in> S"
      "\<And>t. \<exists>x. evaluateDeBoorT t v = Inr x \<and> \<not> exceeds vb x"
      "\<And>t. \<exists>x. evaluateDeBoorT t a = Inr x \<and> \<not> exceeds ab x"
    by (auto simp: server_inv_def serves_def)
  consider (run) "?t < traj_duration s" "?t \<ge> 0" | (over) "\<not> (?t < traj_duration s \<and> ?t \<ge> 0)" "?t \<ge> traj_duration s"
    | (early) "\<not> (?t < traj_duration s \<and> ?t \<ge> 0)" "\<not> ?t \<ge> traj_duration s" by blast
  then show ?thesis
  proof cases
    case run
    obtain pos vel acc where e: "evaluateDeBoorT ?t p = Inr pos" "pos \<in> S" "evaluateDeBoorT ?t v = Inr vel" "\<not> exceeds vb vel"
      "evaluateDeBoorT ?t a = Inr acc" "\<not> exceeds ab acc" using ev [of ?t] by auto
    have "\<exists>x. yaw_target ?t pos ?s1 = Inr x \<and> \<bar>x\<bar> \<le> yaw_bound"
    proof -
      obtain ah where "evaluateDeBoorT (if ?t + time_forward s \<le> traj_duration s then ?t + time_forward s
          else traj_duration s) p = Inr ah" using ev(1) by blast
      then have "yaw_target ?t pos ?s1 =
          Inr (if vnorm (vsub ah pos) > 1 / 10 then atan2 (vy (vsub ah pos)) (vx (vsub ah pos)) else last_yaw s)"
        by (simp add: yaw_target_def tr Let_def split del: if_split cong del: if_weak_cong)
      then show ?thesis using inv1(2) atan2_bound by simp
    qed
    from heading_ok [OF this dt(1)] dt(2) inv1 obtain yaw yd where
      y: "calculate_yaw ?t pos (?now - prev) ?s1 = Inr ((yaw, yd), ?s1\<lparr>last_yaw := yaw, last_yaw_dot := yd\<rparr>)"
      "\<bar>yaw\<bar> \<le> yaw_bound" "\<bar>yd\<bar> \<le> PI_yaw" by auto
    have "cmdCallback ?now (?now + e) s = Inr (publish_cmd pos vel acc yaw yd ?now (?s1\<lparr>last_yaw := yaw, last_yaw_dot := yd\<rparr>))"
      using True run tr e y by (simp add: cmdCallback_def Let_def prev_def)
    moreover have "server_inv S vb ab (?now + e, publish_cmd pos vel acc yaw yd ?now (?s1\<lparr>last_yaw := yaw, last_yaw_dot := yd\<rparr>))"
      using inv de e y by (auto simp: server_inv_def publish_cmd_def serves_def good_command_def)
    ultimately show ?thesis by blast
  next
    case over
    obtain x where "evaluateDeBoorT (traj_duration s) p = Inr x" using ev(1) by blast
    then have "cmdCallback ?now (?now + e) s = Inr ?s1"
      using True over tr by (simp add: cmdCallback_def Let_def prev_def)
    moreover have "server_inv S vb ab (?now + e, ?s1)"
      using inv de by (cases "time_last s") (auto simp: server_inv_def prev_def serves_def)
    ultimately show ?thesis by blast
  next
    case early
    then have "cmdCallback ?now (?now + e) s = Inr (publish_cmd vzero vzero vzero 0 0 ?now ?s1)"
      using True by (simp add: cmdCallback_def Let_def prev_def)
    moreover have "server_inv S vb ab (?now + e, publish_cmd vzero vzero vzero 0 0 ?now ?s1)"
      using inv de z yaw_bound_ge by (auto simp: server_inv_def publish_cmd_def serves_def good_command_def)
    ultimately show ?thesis by blast
  qed
qed

interpretation server: safe_machine server_handle
    "\<lambda>ev. convex_set S \<and> 0 \<le> vb \<and> 0 \<le> ab \<and> server_event_ok S vb ab ev" "server_inv S vb ab" for S vb ab
proof -
  have step: "\<exists>t. server_handle ev s = Inr t \<and> server_inv S vb ab t"
    if "server_inv S vb ab s" "convex_set S" "0 \<le> vb" "0 \<le> ab" "server_event_ok S vb ab ev" for ev s
  proof (cases s)
    case (Pair clock x)
    show ?thesis
    proof (cases ev)
      case (Trajectory m)
      with that Pair trajectory_ok [of S vb ab clock x] show ?thesis by fastforce
    next
      case (Tick d e)
      with that Pair tick_ok [of S vb ab clock x d e] show ?thesis by fastforce
    qed
  qed
  show "safe_machine server_handle
      (\<lambda>ev. convex_set S \<and> 0 \<le> vb \<and> 0 \<le> ab \<and> server_event_ok S vb ab ev) (server_inv S vb ab)"
    by unfold_locales (use step in \<open>metis sum.inject(2)\<close>)+
qed

section \<open>Properties\<close>

text \<open>
  C15: the trajectory server never fails on a moving clock that is fed splines which passed the
  feasibility test, and every command it ever publishes lies in every convex set that holds the
  control points of these splines, or is the origin, respects the velocity and acceleration limits
  of the test, and has a bounded heading and heading rate.
\<close>

theorem server_commands_bounded:
  assumes "convex_set S" "0 \<le> vb" "0 \<le> ab" "list_all (server_event_ok S vb ab) evs"
  shows "\<exists>c s. run_events server_handle evs (0, server_start forward) = Inr (c, s)
    \<and> list_all (good_command S vb ab) (commands s)"
proof -
  have inv: "server_inv S vb ab (0, server_start forward)"
    using yaw_bound_ge by (simp add: server_inv_def server_start_def)
  have "list_all (\<lambda>ev. convex_set S \<and> 0 \<le> vb \<and> 0 \<le> ab \<and> server_event_ok S vb ab ev) evs"
    using assms by (simp add: list_all_iff)
  from server.run_ok [OF inv this] show ?thesis by (auto simp: server_inv_def)
qed

text \<open>
  A trajectory whose start time lies in the future makes the server command the origin with
  zero velocity at once, whatever the trajectory is.
\<close>

lemma server_future_origin:
  assumes "bsplineCallback m s = Inr s1" "time_now < msg_start_time m" "0 \<le> traj_duration s1"
    and "cmdCallback time_now later s1 = Inr s2"
  shows "\<exists>c. commands s2 = commands s @ [c] \<and> cmd_position c = vzero \<and> cmd_velocity c = vzero
    \<and> cmd_trajectory_id c = msg_traj_id m"
  using assms by (auto simp: bsplineCallback_def cmdCallback_def Let_def publish_cmd_def)

section \<open>Witnesses\<close>

lemma demo_spline_planned:
  "planned {v. \<not> exceeds 7 v} (2 + 1 / 10000) (1 + 1 / 10000) demo_spline"
proof -
  have "set (control_points demo_spline) \<subseteq> {v. \<not> exceeds 7 v}"
    by (auto simp: demo_spline_def setPhysicalLimits_def UniformBspline_def Let_def exceeds_def)
  then show ?thesis using demo_spline_ok demo_spline_feasible by (simp add: planned_def demo_spline_sel)
qed

definition demo_flight :: "server_event list" where
  "demo_flight = [Tick 1 (1 / 2), Trajectory (spline_msg 0 1 2 demo_spline), Tick 1 (1 / 2), Tick (1 / 2) (1 / 2)]"

theorem server_commands_bounded_witness:
  "\<exists>c s. run_events server_handle demo_flight (0, server_start 1) = Inr (c, s)
     \<and> list_all (good_command {v. \<not> exceeds 7 v} (2 + 1 / 10000) (1 + 1 / 10000)) (commands s)"
proof (rule server_commands_bounded [OF convex_box])
  show "list_all (server_event_ok {v. \<not> exceeds 7 v} (2 + 1 / 10000) (1 + 1 / 10000)) demo_flight"
    using demo_spline_planned by (auto simp: demo_flight_def)
qed simp_all

end
