(* ===== verification/EgoProps.thy ===== *)
theory EgoProps
  imports EgoHandlers TrajServerProps
begin

text \<open>
  The properties of the planner's state machine over all its runs, and of its composition with the
  trajectory server: \<open>hand_over\<close> hands the server the trajectories that the state machine sent.
\<close>

section \<open>Start\<close>

text \<open>
  An object before \<open>init\<close>: a \<open>ros::Time\<close> starts as zero and the vectors are empty.  The other
  members, the flag of the emergency stop among them, have any value.
\<close>

definition fresh_ego :: "ego \<Rightarrow> bool" where
  "fresh_ego raw \<longleftrightarrow> length (waypoints raw) = 50 \<and> outputs raw = [] \<and> start_time (local_data (mgr raw)) = 0
     \<and> swarm_trajs_buf (mgr raw) = [] \<and> 0 < max_vel (pp (mgr raw)) \<and> 0 < max_acc (pp (mgr raw))
     \<and> 0 \<le> plan_drone_id (pp (mgr raw))"

lemma read_waypoints_ok:
  "i + n \<le> length arr \<Longrightarrow> \<exists>arr'. read_waypoints w i n arr = Inr arr' \<and> length arr' = length arr"
proof (induction n arbitrary: i arr)
  case (Suc n)
  then have "\<exists>arr'. read_waypoints w (Suc i) n (arr[i := w i]) = Inr arr' \<and> length arr' = length (arr[i := w i])"
    by (intro Suc.IH) simp
  with Suc.prems show ?case by simp
qed simp

lemma ego_init_inv:
  assumes "fresh_ego raw" "par_waypoint_num par \<le> 50" "0 < par_planning_horizen par"
  shows "\<exists>s. ego_init par raw = Inr s \<and> ego_inv s \<and> sent (outputs s) = [] \<and> exec_state s = INIT"
proof -
  have "0 + nat (par_waypoint_num par) \<le> length (waypoints raw)" using assms by (auto simp: fresh_ego_def)
  from read_waypoints_ok [OF this, of "par_waypoint par"] obtain ws where
    ws: "read_waypoints (par_waypoint par) 0 (nat (par_waypoint_num par)) (waypoints raw) = Inr ws" "length ws = length (waypoints raw)"
    by blast
  then have "nat (par_waypoint_num par) \<le> length ws" using assms by (auto simp: fresh_ego_def)
  with ws assms show ?thesis
    by (simp add: ego_init_def fresh_ego_def ego_inv_def ego_base_def idle_def params_ok_def)
qed

section \<open>All runs\<close>

text \<open>The invariant of a run, together with what was sent so far.\<close>

definition sent_ok :: "bspline_msg list \<Rightarrow> bool" where
  "sent_ok ms \<longleftrightarrow> (\<forall>m \<in> set ms. \<exists>tid st sp. m = spline_msg 0 tid st sp \<and> well_knotted sp \<and> degree sp = 3)"

definition flight_inv :: "solver \<Rightarrow> ego \<Rightarrow> bool" where
  "flight_inv k s \<longleftrightarrow> solver_ok k \<and> ego_inv s \<and> sent_ok (sent (outputs s))"

lemma step_flight_inv:
  assumes "flight_inv k s" "step_ok ev s t"
  shows "flight_inv k t"
proof -
  have t: "ego_inv t" and st: "sent (outputs t) = sent (outputs s) \<or> sends s t" using assms(2) by (auto simp: step_ok_def)
  have "sent_ok (sent (outputs t))"
  proof (cases "sends s t")
    case True
    then have "sent (outputs t) \<noteq> []" by (simp add: sends_def)
    with t have "flying t" by (auto simp: ego_inv_def ego_base_def idle_def)
    then have "local_ok (local_data (mgr t))" by (simp add: flying_def in_sync_def)
    with True assms(1) show ?thesis by (auto simp: sends_def sent_ok_def flight_inv_def local_ok_def)
  next
    case False
    with st assms(1) show ?thesis by (simp add: flight_inv_def)
  qed
  with t assms(1) show ?thesis by (simp add: flight_inv_def)
qed

lemma ego_handle_run:
  assumes "flight_inv k s" "ego_event_ok ev"
  shows "\<exists>t. ego_handle k ev s = Inr t \<and> step_ok ev s t \<and> flight_inv k t"
  using ego_handle_ok [OF _ _ assms(2), of s k] step_flight_inv [OF assms(1)] assms(1) by (auto simp: flight_inv_def)

interpretation planner: safe_machine "ego_handle k" ego_event_ok "flight_inv k" for k
  by unfold_locales (use ego_handle_run in fastforce)+

lemma ego_run:
  assumes "solver_ok k" "list_all ego_event_ok evs" "fresh_ego raw" "par_waypoint_num par \<le> 50" "0 < par_planning_horizen par"
  shows "\<exists>s0 s. ego_init par raw = Inr s0 \<and> run_events (ego_handle k) evs s0 = Inr s \<and> flight_inv k s"
proof -
  from ego_init_inv [OF assms(3-5)] obtain s0 where s0: "ego_init par raw = Inr s0" "ego_inv s0" "sent (outputs s0) = []" by blast
  then have "flight_inv k s0" using assms(1) by (simp add: flight_inv_def sent_ok_def)
  from planner.run_ok [OF this assms(2)] s0 show ?thesis by blast
qed

text \<open>
  C1: the replanning state machine never runs into undefined behaviour.  From an object as \<open>init\<close>
  finds it, with at most fifty way points, a positive speed limit, acceleration limit and horizon and
  a drone number, every sequence of callbacks ends in a state; what the optimiser, the map, the
  clock and the other drones answer is arbitrary within their contracts.  Whenever the machine
  follows, replans or stops, the last trajectory that was sent is the local trajectory that its
  safety check examines.
\<close>

theorem ego_run_safe:
  assumes "solver_ok k" "list_all ego_event_ok evs" "fresh_ego raw" "par_waypoint_num par \<le> 50" "0 < par_planning_horizen par"
  shows "\<exists>s0 s. ego_init par raw = Inr s0 \<and> run_events (ego_handle k) evs s0 = Inr s
    \<and> (exec_state s \<in> {REPLAN_TRAJ, EXEC_TRAJ, EMERGENCY_STOP} \<or> sent (outputs s) \<noteq> [] \<longrightarrow>
         sent (outputs s) \<noteq> [] \<and> last (sent (outputs s)) = local_msg s)"
proof -
  from ego_run [OF assms] obtain s0 s where s: "ego_init par raw = Inr s0" "run_events (ego_handle k) evs s0 = Inr s" "flight_inv k s"
    by blast
  moreover have "exec_state s \<in> {REPLAN_TRAJ, EXEC_TRAJ, EMERGENCY_STOP} \<or> sent (outputs s) \<noteq> [] \<Longrightarrow> flying s"
    using s(3) by (auto simp: flight_inv_def ego_inv_def ego_base_def idle_def)
  ultimately show ?thesis by (auto simp: flying_def in_sync_def)
qed

text \<open>
  C30: every callback that changes the state of the machine does so along an edge of the diagram
  \<open>leads\<close>, whose guards are those of the code: the replanning threshold and the distances to the
  end point, the next way point and the local target; the lost depth image, the first occupied time
  of the trajectory and the emergency time; the age, start and collision of a received trajectory.
  Conversely a callback that sends no trajectory takes every edge whose guard holds, but for those to
  \<open>EXEC_TRAJ\<close>, which need a plan.  A callback sends the trajectory server at most one trajectory,
  the new local one, and the machine enters \<open>EXEC_TRAJ\<close> only with a trajectory sent in the same
  callback.  A lost depth image leads to the emergency stop only while the trajectory is free: the
  reaction to an occupied point comes later and replaces the state.
\<close>

theorem ego_follows_diagram:
  assumes "solver_ok k" "list_all ego_event_ok evs" "fresh_ego raw" "par_waypoint_num par \<le> 50" "0 < par_planning_horizen par"
    "ego_init par raw = Inr s0" "run_events (ego_handle k) evs s0 = Inr s" "ego_event_ok ev" "ego_handle k ev s = Inr t"
  shows "(exec_state t = exec_state s \<or> leads ev s (exec_state t)) \<and> (sent (outputs t) = sent (outputs s) \<or> sends s t)
    \<and> (exec_state t = EXEC_TRAJ \<and> exec_state s \<noteq> EXEC_TRAJ \<longrightarrow> sends s t)
    \<and> (sent (outputs t) = sent (outputs s) \<longrightarrow> (\<forall>st. leads ev s st \<longrightarrow> st = exec_state t \<or> st = EXEC_TRAJ))"
proof -
  from ego_run [OF assms(1-5)] assms(6,7) have inv: "flight_inv k s" by auto
  from ego_handle_run [OF this assms(8)] assms(9) have "step_ok ev s t" by auto
  moreover from inv have "taken ev s t" using edge_taken assms(1,8,9) by (simp add: flight_inv_def)
  ultimately show ?thesis by (auto simp: step_ok_def taken_def)
qed

section \<open>The trajectory server\<close>

definition hand_over :: "bspline_msg list \<Rightarrow> traj_server \<Rightarrow> cpp_error + traj_server" where
  "hand_over ms srv = foldl (\<lambda>r m. bind_result r (bsplineCallback m)) (Inr srv) ms"

lemma hand_over_snoc: "hand_over (ms @ [m]) srv = bind_result (hand_over ms srv) (bsplineCallback m)"
  by (simp add: hand_over_def)

lemma hand_over_ok: "sent_ok ms \<Longrightarrow> \<exists>srv'. hand_over ms srv = Inr srv'"
proof (induction ms rule: rev_induct)
  case (snoc m ms)
  then obtain srv' where srv': "hand_over ms srv = Inr srv'" by (auto simp: sent_ok_def)
  from snoc.prems obtain tid st sp where m: "m = spline_msg 0 tid st sp" "well_knotted sp" "degree sp = 3"
    by (auto simp: sent_ok_def)
  obtain d where d: "getDerivative sp = Inr d" "well_knotted d" "degree d = 2" using getDerivative_ok [OF m(2)] m(3) by auto
  obtain dd where "getDerivative d = Inr dd" using getDerivative_ok [OF d(2)] d(3) by auto
  from trajectory_loaded [OF m(2,3) d(1) this] srv' m(1) show ?case by (simp add: hand_over_snoc)
qed (simp add: hand_over_def)

text \<open>
  C2: the trajectory server accepts everything the planner ever sends, and once it has received it
  all, it follows the planner's local trajectory: the same number, start time and duration, and the
  same position, velocity and acceleration at every time.
\<close>

theorem planner_server_agree:
  assumes "solver_ok k" "list_all ego_event_ok evs" "fresh_ego raw" "par_waypoint_num par \<le> 50" "0 < par_planning_horizen par"
    "ego_init par raw = Inr s0" "run_events (ego_handle k) evs s0 = Inr s"
  shows "\<exists>srv'. hand_over (sent (outputs s)) srv = Inr srv' \<and> (sent (outputs s) \<noteq> [] \<longrightarrow>
    (let l = local_data (mgr s) in srv_traj_id srv' = traj_id l \<and> srv_start_time srv' = start_time l
       \<and> traj_duration srv' = duration l \<and> receive_traj srv'
       \<and> (\<forall>t. evaluateDeBoorT t (traj srv' ! 0) = evaluateDeBoorT t (position_traj l)
            \<and> evaluateDeBoorT t (traj srv' ! 1) = evaluateDeBoorT t (velocity_traj l)
            \<and> evaluateDeBoorT t (traj srv' ! 2) = evaluateDeBoorT t (acceleration_traj l))))"
proof -
  let ?ms = "sent (outputs s)" and ?l = "local_data (mgr s)"
  from ego_run [OF assms(1-5)] assms(6,7) have inv: "flight_inv k s" by auto
  then have ok: "sent_ok ?ms" by (simp add: flight_inv_def)
  show ?thesis
  proof (cases "?ms = []")
    case True
    with hand_over_ok [OF ok] show ?thesis by simp
  next
    case False
    then have "flying s" using inv by (auto simp: flight_inv_def ego_inv_def ego_base_def idle_def)
    then have l: "local_ok ?l" and last: "last ?ms = local_msg s" by (simp_all add: flying_def in_sync_def)
    have "sent_ok (butlast ?ms)" using ok by (auto simp: sent_ok_def dest: in_set_butlastD)
    then obtain srv1 where srv1: "hand_over (butlast ?ms) srv = Inr srv1" using hand_over_ok by blast
    have "?ms = butlast ?ms @ [local_msg s]" using False last by (metis append_butlast_last_id)
    then have run: "hand_over ?ms srv = bsplineCallback (local_msg s) srv1" using srv1 hand_over_snoc by (metis bind_result.simps(2))
    from l have sp: "well_knotted (position_traj ?l)" "degree (position_traj ?l) = 3"
      and d: "getDerivative (position_traj ?l) = Inr (velocity_traj ?l)"
        "getDerivative (velocity_traj ?l) = Inr (acceleration_traj ?l)" "getTimeSum (position_traj ?l) = Inr (duration ?l)"
      by (simp_all add: local_ok_def)
    from trajectory_loaded [OF sp d(1,2)] run getTimeSum_ok [OF sp(1)] d(3) show ?thesis
      by (simp add: Let_def well_knotted_cong False)
  qed
qed

section \<open>The emergency stop\<close>

lemma emergency_stop_sends:
  assumes s: "ego_inv s" "exec_state s = EMERGENCY_STOP" and t: "ego_handle k (Exec e) s = Inr t"
  shows "\<not> flag_escape_emergency t" "flag_escape_emergency s \<Longrightarrow> sends s t"
    "\<not> flag_escape_emergency s \<Longrightarrow> \<not> enable_fail_safe s \<Longrightarrow> sent (outputs t) = sent (outputs s) \<and> exec_state t = EMERGENCY_STOP"
proof -
  have b: "ego_base s" "has_plan s" using s by (auto simp: ego_inv_def flying_planned)
  obtain u where u: "callEmergencyStop e (odom_pos s) s = Inr u" "sends s u"
    using callEmergencyStop_ok [OF b, of e "odom_pos s"] by blast
  have run: "execFSMCallback k e s = bind_result (exec_EMERGENCY_STOP e s)
      (\<lambda>(force_return, s1). Inr (if force_return then s1 else post_output [DataDisp] s1))"
    using s(2) by (simp add: execFSMCallback_def exec_case_def)
  show "\<not> flag_escape_emergency t" "flag_escape_emergency s \<Longrightarrow> sends s t"
    "\<not> flag_escape_emergency s \<Longrightarrow> \<not> enable_fail_safe s \<Longrightarrow> sent (outputs t) = sent (outputs s) \<and> exec_state t = EMERGENCY_STOP"
    using t u s(2) unfolding ego_handle.simps run exec_EMERGENCY_STOP_def
    by (auto simp: sends_def split: if_splits)
qed

fun new_target :: "ego_event \<Rightarrow> bool" where
  "new_target (Waypoint e p) = True"
| "new_target (InitCheck e) = True"
| "new_target ev = False"

text \<open>Without a new target and with the fail-safe off, nothing re-arms the emergency stop.\<close>

definition disarmed :: "ego \<Rightarrow> bool" where
  "disarmed s \<longleftrightarrow> \<not> flag_escape_emergency s \<and> \<not> enable_fail_safe s \<and> exec_state s \<noteq> GEN_NEW_TRAJ"

lemma disarmed_step:
  assumes "disarmed s" "step_ok ev s t" "\<not> new_target ev"
  shows "disarmed t"
proof -
  have "exec_state t \<noteq> GEN_NEW_TRAJ"
  proof
    assume gen: "exec_state t = GEN_NEW_TRAJ"
    with assms have "leads ev s GEN_NEW_TRAJ" by (auto simp: disarmed_def step_ok_def)
    then show False using assms(1,3) by (cases rule: leads_cases) (auto simp: disarmed_def)
  qed
  with assms(1,2) show ?thesis by (auto simp: disarmed_def step_ok_def)
qed

interpretation stopped: event_machine "ego_handle k" "\<lambda>ev. ego_event_ok ev \<and> \<not> new_target ev"
  "\<lambda>s. solver_ok k \<and> ego_inv s \<and> disarmed s" for k
proof
  fix s ev t
  assume "solver_ok k \<and> ego_inv s \<and> disarmed s" "ego_event_ok ev \<and> \<not> new_target ev" "ego_handle k ev s = Inr t"
  moreover from this obtain t' where "ego_handle k ev s = Inr t'" "step_ok ev s t'" using ego_handle_ok by blast
  ultimately show "solver_ok k \<and> ego_inv t \<and> disarmed t" using disarmed_step by (auto simp: step_ok_def)
qed

text \<open>
  With the fail-safe off, which a lost depth image does, the emergency stop works once: the first
  one sends its trajectory, but if other callbacks then lead out of \<open>EMERGENCY_STOP\<close> and back, no
  second one is sent, and the drone flies on along the last trajectory, until a new target arrives.
\<close>

lemma ego_second_emergency:
  assumes k: "solver_ok k" and s: "ego_inv s" "exec_state s = EMERGENCY_STOP" "\<not> enable_fail_safe s" and e: "env_ok e"
    and first: "ego_handle k (Exec e) s = Inr s1"
    and later: "list_all (\<lambda>ev. ego_event_ok ev \<and> \<not> new_target ev) evs" "run_events (ego_handle k) evs s1 = Inr t"
    and again: "exec_state t = EMERGENCY_STOP" "ego_handle k (Exec e') t = Inr u"
  shows "(flag_escape_emergency s \<longrightarrow> sends s s1) \<and> sent (outputs u) = sent (outputs t) \<and> exec_state u = EMERGENCY_STOP"
proof -
  note stop = emergency_stop_sends [OF s(1,2) first]
  from ego_handle_ok [OF s(1) k, of "Exec e"] e first have st: "step_ok (Exec e) s s1" by (auto simp: ego_event_ok_def)
  have "exec_state s1 \<noteq> GEN_NEW_TRAJ"
  proof
    assume "exec_state s1 = GEN_NEW_TRAJ"
    with st s(2) have "leads (Exec e) s GEN_NEW_TRAJ" by (auto simp: step_ok_def)
    then show False using s(3) by (cases rule: leads_cases) auto
  qed
  with st stop(1) s(3) k have "solver_ok k \<and> ego_inv s1 \<and> disarmed s1" by (auto simp: step_ok_def disarmed_def)
  from stopped.run_inv [OF this later] have "ego_inv t" "disarmed t" by simp_all
  with emergency_stop_sends(3) [OF _ again(1,2)] stop(2) show ?thesis by (simp add: disarmed_def)
qed

end
