(* ===== verification/EgoDemo.thy ===== *)
theory EgoDemo
  imports EgoProps
begin

text \<open>
  The properties of the planner on a concrete drone: the generator flies straight from point to
  point, the optimiser always returns the same spline, the map is empty.
\<close>

section \<open>The environment\<close>

lemma straight_fold:
  "times (fold (\<lambda>i. straight (pts ! i) (pts ! Suc i) (ts ! i)) [0..<n] empty_traj) = map ((!) ts) [0..<n]"
  "length (cxs (fold (\<lambda>i. straight (pts ! i) (pts ! Suc i) (ts ! i)) [0..<n] empty_traj)) = n"
  "length (cys (fold (\<lambda>i. straight (pts ! i) (pts ! Suc i) (ts ! i)) [0..<n] empty_traj)) = n"
  "length (czs (fold (\<lambda>i. straight (pts ! i) (pts ! Suc i) (ts ! i)) [0..<n] empty_traj)) = n"
  "\<forall>c \<in> set (cxs (fold (\<lambda>i. straight (pts ! i) (pts ! Suc i) (ts ! i)) [0..<n] empty_traj)). length c = 2"
  "\<forall>c \<in> set (cys (fold (\<lambda>i. straight (pts ! i) (pts ! Suc i) (ts ! i)) [0..<n] empty_traj)). length c = 2"
  "\<forall>c \<in> set (czs (fold (\<lambda>i. straight (pts ! i) (pts ! Suc i) (ts ! i)) [0..<n] empty_traj)). length c = 2"
  by (induction n) (simp_all add: straight_def addSegment_def empty_traj_def)

lemma demo_solver_ok: "solver_ok demo_solver"
  unfolding solver_ok_def
proof (intro conjI allI impI)
  fix pts :: "vec3 list" and v0 v1 a0 a1 and ts :: "real list"
  assume pts: "3 \<le> length pts" "length ts = length pts - 1"
  then have "ts \<noteq> []" by auto
  let ?p = "minSnapTraj demo_solver pts v0 v1 a0 a1 ts"
  note fold = straight_fold [of pts ts "length ts"]
  have p: "?p = fold (\<lambda>i. straight (pts ! i) (pts ! Suc i) (ts ! i)) [0..<length ts] empty_traj"
    by (simp add: demo_solver_def)
  show t: "times ?p = ts" unfolding p fold(1) by (rule map_nth)
  have "length c = 2" if "c \<in> set (cxs ?p) \<or> c \<in> set (cys ?p) \<or> c \<in> set (czs ?p)" for c
    using that fold(5-7) unfolding p by blast
  moreover have "length (cxs ?p) = length ts" "length (cys ?p) = length ts" "length (czs ?p) = length ts"
    unfolding p by (rule fold(2), rule fold(3), rule fold(4))
  ultimately show "well_segmented ?p" using t \<open>ts \<noteq> []\<close> by (simp add: well_segmented_def)
qed (simp_all add: demo_solver_def straight_def addSegment_def empty_traj_def well_segmented_def)

definition ego_demo_env :: "real \<Rightarrow> bool \<Rightarrow> env" where
  "ego_demo_env now lost =
     \<lparr>env_now = now, env_replan = (\<lambda>poly random i. \<lparr>optimised = Some (control_points demo_spline, 1), refined = None\<rparr>),
      env_occupancy = (\<lambda>p. 0), env_depth_timeout = lost\<rparr>"

lemma ego_demo_env_ok: "env_ok (ego_demo_env now lost)"
  by (simp add: env_ok_def ego_demo_env_def rebound_ok_def demo_spline_sel)

section \<open>The drone\<close>

definition ego_demo_raw :: ego where
  "ego_demo_raw =
     \<lparr>target_type = 0, replan_thresh = 0, no_replan_thresh = 0, planning_horizen = 0, emergency_time = 0,
      enable_fail_safe = False, waypoints = replicate 50 vzero, waypoint_num = 0, wp_id = 0, wps = [],
      have_trigger = False, have_target = False, have_odom = False, have_new_target = False, have_recv_pre_agent = False,
      exec_state = INIT, continously_called_times = 0, odom_pos = vzero, odom_vel = vzero, init_pt = vzero,
      start_pt = vzero, start_vel = vzero, start_acc = vzero, end_pt = vzero, end_vel = vzero,
      local_target_pt = vzero, local_target_vel = vzero, flag_escape_emergency = True,
      multi_bspline_msgs_buf = (0, []), mgr = demo_manager, waiting = 0, in_init = False, outputs = []\<rparr>"

definition demo_par :: ego_params where
  "demo_par =
     \<lparr>par_target_type = MANUAL_TARGET, par_replan_thresh = 1, par_no_replan_thresh = 1, par_planning_horizen = 7,
      par_emergency_time = 1, par_realworld = False, par_fail_safe = True, par_waypoint_num = 2,
      par_waypoint = (\<lambda>i. Vec3 (real i) 1 1)\<rparr>"

lemma ego_demo_fresh: "fresh_ego ego_demo_raw"
  by (simp add: fresh_ego_def ego_demo_raw_def demo_manager_def)

text \<open>Odometry, a goal, three steps of the state machine, the safety check, a neighbour's trajectory.\<close>

definition demo_events :: "ego_event list" where
  "demo_events =
     [Odometry vzero vzero, Exec (ego_demo_env 2 False), Waypoint (ego_demo_env 3 False) (Vec3 9 3 1), Exec (ego_demo_env 4 False),
      Exec (ego_demo_env 5 False), Safety (ego_demo_env 6 False), Broadcast (ego_demo_env 7 False) (spline_msg 1 1 7 demo_spline),
      SwarmMsg 0 [spline_msg 0 1 7 demo_spline], Exec (ego_demo_env 8 False)]"

lemma demo_events_ok: "list_all ego_event_ok demo_events"
proof -
  have "msg_ok (spline_msg d i t demo_spline)" for d i t
    using demo_spline_ok demo_spline_sel(1) by (auto simp: msg_ok_def spline_msg_def)
  then show ?thesis using ego_demo_env_ok by (simp add: demo_events_def ego_event_ok_def) (simp add: spline_msg_def)
qed

lemma demo_par_ok: "par_waypoint_num demo_par \<le> 50" "0 < par_planning_horizen demo_par"
  by (simp_all add: demo_par_def)

section \<open>Witnesses\<close>

theorem ego_run_safe_witness:
  "\<exists>s0 s. ego_init demo_par ego_demo_raw = Inr s0 \<and> run_events (ego_handle demo_solver) demo_events s0 = Inr s
    \<and> (exec_state s \<in> {REPLAN_TRAJ, EXEC_TRAJ, EMERGENCY_STOP} \<or> sent (outputs s) \<noteq> [] \<longrightarrow>
         sent (outputs s) \<noteq> [] \<and> last (sent (outputs s)) = local_msg s)"
  by (rule ego_run_safe [OF demo_solver_ok demo_events_ok ego_demo_fresh demo_par_ok])

theorem ego_follows_diagram_witness:
  "\<exists>s0 s t. ego_init demo_par ego_demo_raw = Inr s0 \<and> run_events (ego_handle demo_solver) demo_events s0 = Inr s
    \<and> ego_handle demo_solver (Safety (ego_demo_env 9 True)) s = Inr t
    \<and> (exec_state t = exec_state s \<or> leads (Safety (ego_demo_env 9 True)) s (exec_state t))
    \<and> (sent (outputs t) = sent (outputs s) \<longrightarrow>
         (\<forall>st. leads (Safety (ego_demo_env 9 True)) s st \<longrightarrow> st = exec_state t \<or> st = EXEC_TRAJ))"
proof -
  from ego_run [OF demo_solver_ok demo_events_ok ego_demo_fresh demo_par_ok] obtain s0 s where
    s: "ego_init demo_par ego_demo_raw = Inr s0" "run_events (ego_handle demo_solver) demo_events s0 = Inr s" "flight_inv demo_solver s"
    by blast
  have ev: "ego_event_ok (Safety (ego_demo_env 9 True))" using ego_demo_env_ok by (simp add: ego_event_ok_def)
  from ego_handle_run [OF s(3) this] obtain t where t: "ego_handle demo_solver (Safety (ego_demo_env 9 True)) s = Inr t" by blast
  from ego_follows_diagram [OF demo_solver_ok demo_events_ok ego_demo_fresh demo_par_ok s(1,2) ev t] s t show ?thesis by blast
qed

theorem planner_server_agree_witness:
  "\<exists>s0 s srv'. ego_init demo_par ego_demo_raw = Inr s0 \<and> run_events (ego_handle demo_solver) demo_events s0 = Inr s
    \<and> hand_over (sent (outputs s)) (server_start 1) = Inr srv'"
proof -
  from ego_run [OF demo_solver_ok demo_events_ok ego_demo_fresh demo_par_ok] obtain s0 s where
    s: "ego_init demo_par ego_demo_raw = Inr s0" "run_events (ego_handle demo_solver) demo_events s0 = Inr s" by blast
  from planner_server_agree [OF demo_solver_ok demo_events_ok ego_demo_fresh demo_par_ok s] s show ?thesis by blast
qed

end
