(* ===== verification/Wire.thy ===== *)
theory Wire
  imports Prelude
begin

text \<open>
  Values in byte buffers, as \<open>rosmsg_tcp_bridge/src/bridge_node.cpp\<close> writes and reads them: through a
  pointer into a character array, \<open>*((T *)ptr) = v; ptr += sizeof(T)\<close>, least significant byte
  first.  A writer puts a list of pieces one after the other; a reader takes a buffer and a position.
  An access outside the buffer is the error \<open>OutOfBounds\<close>.  A \<open>double\<close> is the 64-bit word that
  represents it.  The locale \<open>codec\<close> is the contract of a writer and the reader of the
  same type: what was written is read back, as seen through \<open>view\<close>.
\<close>

section \<open>Bytes\<close>

definition le :: "nat \<Rightarrow> nat \<Rightarrow> 8 word list" where
  "le n m = map (\<lambda>i. word_of_nat (m div 256 ^ i)) [0..<n]"

fun from_le :: "8 word list \<Rightarrow> nat" where
  "from_le [] = 0"
| "from_le (b # bs) = unat b + 256 * from_le bs"

lemma length_le [simp]: "length (le n m) = n"
  by (simp add: le_def)

lemma le_Suc: "le (Suc n) m = word_of_nat m # le n (m div 256)"
  by (simp add: le_def map_upt_Suc div_mult2_eq del: upt_Suc)

lemma from_le_le: "from_le (le n m) = m mod 256 ^ n"
proof (induction n arbitrary: m)
  case (Suc n)
  have "unat (word_of_nat m :: 8 word) = m mod 256" by (simp add: unat_of_nat)
  with Suc show ?case by (simp add: le_Suc mod_mult2_eq)
qed (simp add: le_def)

definition put32 :: "32 word \<Rightarrow> 8 word list" where
  "put32 w = le 4 (unat w)"

definition put64 :: "64 word \<Rightarrow> 8 word list" where
  "put64 w = le 8 (unat w)"

lemma length_put [simp]: "length (put32 w) = 4" "length (put64 x) = 8"
  by (simp_all add: put32_def put64_def)

section \<open>Writing\<close>

text \<open>The pieces are written at the pointer, which moves on.\<close>

fun write_all :: "8 word list list \<Rightarrow> 8 word list \<times> nat \<Rightarrow> cpp_error + 8 word list \<times> nat" where
  "write_all [] (buf, ptr) = Inr (buf, ptr)"
| "write_all (bs # bss) (buf, ptr) =
     (if ptr + length bs \<le> length buf
      then write_all bss (take ptr buf @ bs @ drop (ptr + length bs) buf, ptr + length bs)
      else Inl OutOfBounds)"

lemma write_all_ok:
  "ptr + length (concat bss) \<le> length buf \<Longrightarrow>
    write_all bss (buf, ptr) = Inr (take ptr buf @ concat bss @ drop (ptr + length (concat bss)) buf, ptr + length (concat bss))"
proof (induction bss arbitrary: buf ptr)
  case (Cons bs bss)
  let ?buf = "take ptr buf @ bs @ drop (ptr + length bs) buf"
  have "write_all (bs # bss) (buf, ptr) = write_all bss (?buf, ptr + length bs)" using Cons.prems by simp
  also have "\<dots> = Inr (take (ptr + length bs) ?buf @ concat bss @ drop (ptr + length bs + length (concat bss)) ?buf,
      ptr + length bs + length (concat bss))" using Cons.prems by (intro Cons.IH) simp
  finally show ?case using Cons.prems by (simp add: ac_simps)
qed simp

lemma write_all_fails: "ptr \<le> length buf \<Longrightarrow> length buf < ptr + length (concat bss) \<Longrightarrow> write_all bss (buf, ptr) = Inl OutOfBounds"
proof (induction bss arbitrary: buf ptr)
  case (Cons bs bss)
  show ?case
  proof (cases "ptr + length bs \<le> length buf")
    case True
    with Cons.prems have "write_all bss (take ptr buf @ bs @ drop (ptr + length bs) buf, ptr + length bs) = Inl OutOfBounds"
      by (intro Cons.IH) simp_all
    with True show ?thesis by simp
  qed simp
qed simp

section \<open>Reading\<close>

type_synonym 'a reader = "8 word list \<Rightarrow> nat \<Rightarrow> cpp_error + 'a \<times> nat"

definition ret :: "'a \<Rightarrow> 'a reader" where
  "ret x buf ptr = Inr (x, ptr)"

definition andthen :: "'a reader \<Rightarrow> ('a \<Rightarrow> 'b reader) \<Rightarrow> 'b reader" where
  "andthen r f buf ptr = bind_result (r buf ptr) (\<lambda>(x, ptr'). f x buf ptr')"

definition take_bytes :: "nat \<Rightarrow> 8 word list reader" where
  "take_bytes n buf ptr = (if ptr + n \<le> length buf then Inr (take n (drop ptr buf), ptr + n) else Inl OutOfBounds)"

definition get32 :: "32 word reader" where
  "get32 = andthen (take_bytes 4) (\<lambda>bs. ret (word_of_nat (from_le bs)))"

definition get64 :: "64 word reader" where
  "get64 = andthen (take_bytes 8) (\<lambda>bs. ret (word_of_nat (from_le bs)))"

fun repeat :: "nat \<Rightarrow> 'a reader \<Rightarrow> 'a list reader" where
  "repeat 0 r = ret []"
| "repeat (Suc n) r = andthen r (\<lambda>x. andthen (repeat n r) (\<lambda>xs. ret (x # xs)))"

text \<open>\<open>reads r bs x\<close>: where the bytes \<open>bs\<close> stand in a buffer, the reader \<open>r\<close> reads \<open>x\<close> and stops behind them.\<close>

definition reads :: "'a reader \<Rightarrow> 8 word list \<Rightarrow> 'a \<Rightarrow> bool" where
  "reads r bs x \<longleftrightarrow> (\<forall>pre post. r (pre @ bs @ post) (length pre) = Inr (x, length pre + length bs))"

lemma reads_ret: "reads (ret x) [] x"
  by (simp add: reads_def ret_def)

lemma reads_andthen:
  assumes "reads r bs x" "reads (f x) bs' y"
  shows "reads (andthen r f) (bs @ bs') y"
  unfolding reads_def
proof (intro allI)
  fix pre post
  have "r (pre @ (bs @ bs') @ post) (length pre) = Inr (x, length pre + length bs)"
    using assms(1) unfolding reads_def by (metis append.assoc)
  moreover have "f x ((pre @ bs) @ bs' @ post) (length (pre @ bs)) = Inr (y, length (pre @ bs) + length bs')"
    using assms(2) unfolding reads_def by blast
  ultimately show "andthen r f (pre @ (bs @ bs') @ post) (length pre) = Inr (y, length pre + length (bs @ bs'))"
    by (simp add: andthen_def add.assoc)
qed

lemma reads_bytes: "length bs = n \<Longrightarrow> reads (take_bytes n) bs bs"
  by (simp add: reads_def take_bytes_def)

lemma reads_then_ret: "reads r bs x \<Longrightarrow> reads (andthen r (\<lambda>x. ret (f x))) bs (f x)"
  using reads_andthen [of r bs x "\<lambda>x. ret (f x)" "[]" "f x"] reads_ret by force

section \<open>Codecs\<close>

locale codec =
  fixes put :: "'a \<Rightarrow> 8 word list" and get :: "'b reader" and view :: "'a \<Rightarrow> 'b" and valid :: "'a \<Rightarrow> bool"
  assumes get_put: "valid x \<Longrightarrow> reads get (put x) (view x)"
begin

lemma repeat_put: "list_all valid xs \<Longrightarrow> reads (repeat (length xs) get) (concat (map put xs)) (map view xs)"
proof (induction xs)
  case Nil
  then show ?case by (simp add: reads_ret)
next
  case (Cons x xs)
  then have "reads get (put x) (view x)" "reads (repeat (length xs) get) (concat (map put xs)) (map view xs)"
    using get_put by simp_all
  from reads_andthen [OF this(1) reads_then_ret [OF this(2)]] show ?case by simp
qed

end

interpretation int32: codec put32 get32 "\<lambda>x. x" "\<lambda>x. True"
proof
  fix w :: "32 word"
  have "unat w < 256 ^ 4" using unsigned_less [of w] by simp
  then have "word_of_nat (from_le (put32 w)) = w" by (simp add: put32_def from_le_le)
  moreover have "reads get32 (put32 w) (word_of_nat (from_le (put32 w)))"
    unfolding get32_def by (rule reads_then_ret [OF reads_bytes]) simp
  ultimately show "reads get32 (put32 w) w" by simp
qed

interpretation double: codec put64 get64 "\<lambda>x. x" "\<lambda>x. True"
proof
  fix w :: "64 word"
  have "unat w < 256 ^ 8" using unsigned_less [of w] by simp
  then have "word_of_nat (from_le (put64 w)) = w" by (simp add: put64_def from_le_le)
  moreover have "reads get64 (put64 w) (word_of_nat (from_le (put64 w)))"
    unfolding get64_def by (rule reads_then_ret [OF reads_bytes]) simp
  ultimately show "reads get64 (put64 w) w" by simp
qed

lemma reads_word: "reads get32 (put32 w) w" "reads get64 (put64 x) x"
  by (rule int32.get_put double.get_put, simp)+

end
