(* ===== verification/Bridge.thy ===== *)
theory Bridge
  imports Wire
begin

text \<open>
  The bridge between drones, \<open>rosmsg_tcp_bridge/src/bridge_node.cpp\<close>: it sends the trajectories of
  its drone to the next drone over TCP and its own trajectory and odometry to all drones over UDP, and
  publishes what it receives.  The sockets belong to the environment: a callback appends to what was
  sent, and one turn of a receiving loop is given what \<open>read\<close> or \<open>recvfrom\<close> returned.  The
  conversions of \<open>ros::Time\<close> to and from a \<open>double\<close> are the parameter \<open>time_lib\<close>.  A vector whose
  size comes from a packet is read element by element: a size that is too large to allocate ends
  with an error as well.
\<close>

section \<open>Messages\<close>

record ros_time =
  sec :: "32 word"
  nsec :: "32 word"

record time_lib =
  toSec :: "ros_time \<Rightarrow> 64 word"
  fromSec :: "64 word \<Rightarrow> ros_time"

record traj_msg =
  tm_drone_id :: "32 word"
  tm_order :: "32 word"
  tm_traj_id :: "64 word"
  tm_start_time :: ros_time
  tm_knots :: "64 word list"
  tm_pos_pts :: "(64 word \<times> 64 word \<times> 64 word) list"
  tm_yaw_pts :: "64 word list"
  tm_yaw_dt :: "64 word"

record multi_msg =
  mm_drone_id_from :: "32 word"
  mm_traj :: "traj_msg list"

record odom_msg =
  om_child_frame_id :: "8 word list"
  om_frame_id :: "8 word list"
  om_seq :: "32 word"
  om_stamp :: ros_time
  om_pose :: "64 word list"              \<comment> \<open>position x y z, orientation w x y z\<close>
  om_pose_covariance :: "64 word list"
  om_twist :: "64 word list"             \<comment> \<open>linear x y z, angular x y z\<close>
  om_twist_covariance :: "64 word list"

datatype message_type = ODOM | MULTI_TRAJ | ONE_TRAJ | STOP

fun type_code :: "message_type \<Rightarrow> 32 word" where
  "type_code ODOM = 888"
| "type_code MULTI_TRAJ = 889"
| "type_code ONE_TRAJ = 890"
| "type_code STOP = 891"

definition BUF_LEN :: nat where
  "BUF_LEN = 1048576"

section \<open>Serialisation\<close>

text \<open>
  The length of a message is computed in an \<open>unsigned long\<close> and compared with the size of the buffer;
  the result is the length, or -1.  Sizes are written as 64-bit words.
\<close>

definition put_size :: "'a list \<Rightarrow> 8 word list" where
  "put_size xs = put64 (word_of_nat (length xs))"

definition serialize :: "nat \<Rightarrow> 8 word list list \<Rightarrow> 8 word list \<Rightarrow> cpp_error + int \<times> 8 word list" where
  "serialize total_len pieces buf =
     (if (word_of_nat total_len + 1 :: 64 word) > word_of_nat BUF_LEN then Inr (- 1, buf)
      else bind_result (write_all pieces (buf, 0)) (\<lambda>(buf', ptr). Inr (int ptr, buf')))"

definition put_point :: "64 word \<times> 64 word \<times> 64 word \<Rightarrow> 8 word list" where
  "put_point p = (case p of (x, y, z) \<Rightarrow> put64 x @ put64 y @ put64 z)"

definition traj_len :: "traj_msg \<Rightarrow> nat" where
  "traj_len m = 4 + 4 + 8 + 8 + 8 + (8 + length (tm_knots m) * 8) + (8 + 3 * length (tm_pos_pts m) * 8)
     + (8 + length (tm_yaw_pts m) * 8)"

definition traj_pieces :: "time_lib \<Rightarrow> traj_msg \<Rightarrow> 8 word list list" where
  "traj_pieces lib m =
     [put32 (tm_drone_id m), put32 (tm_order m), put64 (toSec lib (tm_start_time m)), put64 (tm_traj_id m), put64 (tm_yaw_dt m)]
     @ [put_size (tm_knots m)] @ map put64 (tm_knots m)
     @ [put_size (tm_pos_pts m)] @ map put_point (tm_pos_pts m)
     @ [put_size (tm_yaw_pts m)] @ map put64 (tm_yaw_pts m)"

definition serializeMultiBsplines :: "time_lib \<Rightarrow> multi_msg \<Rightarrow> 8 word list \<Rightarrow> cpp_error + int \<times> 8 word list" where
  "serializeMultiBsplines lib m buf =
     serialize (4 + 4 + 8 + sum_list (map traj_len (mm_traj m)))
       ([put32 (type_code MULTI_TRAJ), put32 (mm_drone_id_from m), put_size (mm_traj m)]
        @ concat (map (traj_pieces lib) (mm_traj m))) buf"

definition serializeOneTraj :: "time_lib \<Rightarrow> traj_msg \<Rightarrow> 8 word list \<Rightarrow> cpp_error + int \<times> 8 word list" where
  "serializeOneTraj lib m buf = serialize (traj_len m) (put32 (type_code ONE_TRAJ) # traj_pieces lib m) buf"

definition odom_len :: "odom_msg \<Rightarrow> nat" where
  "odom_len m = 8 + length (om_child_frame_id m) + 8 + length (om_frame_id m) + 4 + 8 + 7 * 8 + 36 * 8 + 6 * 8 + 36 * 8"

definition odom_pieces :: "time_lib \<Rightarrow> odom_msg \<Rightarrow> 8 word list list" where
  "odom_pieces lib m =
     [put_size (om_child_frame_id m), om_child_frame_id m, put_size (om_frame_id m), om_frame_id m,
      put32 (om_seq m), put64 (toSec lib (om_stamp m))]
     @ map put64 (om_pose m) @ map put64 (om_pose_covariance m) @ map put64 (om_twist m) @ map put64 (om_twist_covariance m)"

text \<open>The arrays of an odometry message have fixed sizes.\<close>

definition odom_sizes :: "odom_msg \<Rightarrow> bool" where
  "odom_sizes m \<longleftrightarrow> length (om_pose m) = 7 \<and> length (om_pose_covariance m) = 36 \<and> length (om_twist m) = 6
     \<and> length (om_twist_covariance m) = 36"

definition serializeOdom :: "time_lib \<Rightarrow> odom_msg \<Rightarrow> 8 word list \<Rightarrow> cpp_error + int \<times> 8 word list" where
  "serializeOdom lib m buf = serialize (odom_len m) (put32 (type_code ODOM) # odom_pieces lib m) buf"

definition serializeStop :: "8 word list \<Rightarrow> cpp_error + int \<times> 8 word list" where
  "serializeStop buf = bind_result (write_all [put32 (type_code STOP)] (buf, 0)) (\<lambda>(buf', ptr). Inr (int ptr, buf'))"

section \<open>Deserialisation\<close>

definition get_sized :: "'a reader \<Rightarrow> 'a list reader" where
  "get_sized r = andthen get64 (\<lambda>n. repeat (unat n) r)"

definition get_point :: "(64 word \<times> 64 word \<times> 64 word) reader" where
  "get_point = andthen get64 (\<lambda>x. andthen get64 (\<lambda>y. andthen get64 (\<lambda>z. ret (x, y, z))))"

definition get_traj :: "time_lib \<Rightarrow> traj_msg reader" where
  "get_traj lib =
     andthen get32 (\<lambda>drone. andthen get32 (\<lambda>order. andthen get64 (\<lambda>start. andthen get64 (\<lambda>tid. andthen get64 (\<lambda>dt.
     andthen (get_sized get64) (\<lambda>ks. andthen (get_sized get_point) (\<lambda>ps. andthen (get_sized get64) (\<lambda>ys.
       ret \<lparr>tm_drone_id = drone, tm_order = order, tm_traj_id = tid, tm_start_time = fromSec lib start, tm_knots = ks,
            tm_pos_pts = ps, tm_yaw_pts = ys, tm_yaw_dt = dt\<rparr>))))))))"

definition deserializeOneTraj :: "time_lib \<Rightarrow> traj_msg reader" where
  "deserializeOneTraj lib = andthen (take_bytes 4) (\<lambda>_. get_traj lib)"

definition deserializeMultiBsplines :: "time_lib \<Rightarrow> multi_msg reader" where
  "deserializeMultiBsplines lib =
     andthen (take_bytes 4) (\<lambda>_. andthen get32 (\<lambda>from. andthen (get_sized (get_traj lib)) (\<lambda>ts.
       ret \<lparr>mm_drone_id_from = from, mm_traj = ts\<rparr>)))"

definition get_string :: "8 word list reader" where
  "get_string = andthen get64 (\<lambda>n. take_bytes (unat n))"

definition deserializeOdom :: "time_lib \<Rightarrow> odom_msg reader" where
  "deserializeOdom lib =
     andthen (take_bytes 4) (\<lambda>_. andthen get_string (\<lambda>child. andthen get_string (\<lambda>frame. andthen get32 (\<lambda>seq.
     andthen get64 (\<lambda>stamp. andthen (repeat 7 get64) (\<lambda>pose. andthen (repeat 36 get64) (\<lambda>pcov.
     andthen (repeat 6 get64) (\<lambda>twist. andthen (repeat 36 get64) (\<lambda>tcov.
       ret \<lparr>om_child_frame_id = child, om_frame_id = frame, om_seq = seq, om_stamp = fromSec lib stamp, om_pose = pose,
            om_pose_covariance = pcov, om_twist = twist, om_twist_covariance = tcov\<rparr>)))))))))"

text \<open>\<open>deserializeStop\<close> reads nothing and returns the length zero.\<close>

definition deserializeStop :: "unit reader" where
  "deserializeStop = ret ()"

section \<open>The node\<close>

datatype bridge_output = PubMulti multi_msg | PubOdom odom_msg | PubTraj traj_msg | PubStop

record bridge =
  br_drone_id :: int
  odom_broadcast_freq :: real
  send_buf :: "8 word list"
  recv_buf :: "8 word list"
  udp_send_buf :: "8 word list"
  udp_recv_buf :: "8 word list"
  t_last :: real
  connected :: bool                       \<comment> \<open>the loop of \<open>server_fun\<close> is running\<close>
  tcp_sent :: "8 word list list"
  udp_sent :: "8 word list list"
  published :: "bridge_output list"

text \<open>
  A length of -1 becomes the largest \<open>size_t\<close>.  \<open>send\<close> on a TCP socket then goes on past the buffer;
  on a UDP socket \<open>sendto\<close> refuses it, as any payload over 65507 bytes.
\<close>

definition udp_send :: "cpp_error + int \<times> 8 word list \<Rightarrow> bridge \<Rightarrow> cpp_error + bridge" where
  "udp_send r s =
     bind_result r (\<lambda>(len, buf).
       Inr (if 0 \<le> len \<and> len \<le> 65507 then s\<lparr>udp_send_buf := buf, udp_sent := udp_sent s @ [take (nat len) buf]\<rparr>
            else s\<lparr>udp_send_buf := buf\<rparr>))"

definition multitraj_sub_tcp_cb :: "time_lib \<Rightarrow> multi_msg \<Rightarrow> bridge \<Rightarrow> cpp_error + bridge" where
  "multitraj_sub_tcp_cb lib m s =
     bind_result (serializeMultiBsplines lib m (send_buf s)) (\<lambda>(len, buf).
       if len < 0 then Inl OutOfBounds
       else Inr (s\<lparr>send_buf := buf, tcp_sent := tcp_sent s @ [take (nat len) buf]\<rparr>))"

definition int_string :: "int \<Rightarrow> string" where
  "int_string i = (if i < 0 then ''-'' @ to_string (nat (- i)) else to_string (nat i))"

definition odom_sub_udp_cb :: "time_lib \<Rightarrow> real \<Rightarrow> odom_msg \<Rightarrow> bridge \<Rightarrow> cpp_error + bridge" where
  "odom_sub_udp_cb lib t_now m s =
     (if (t_now - t_last s) * odom_broadcast_freq s < 1 then Inr s
      else udp_send (serializeOdom lib (m\<lparr>om_child_frame_id := map of_char (''drone_'' @ int_string (br_drone_id s))\<rparr>)
                       (udp_send_buf s)) (s\<lparr>t_last := t_now\<rparr>))"

definition emergency_stop_sub_udp_cb :: "bridge \<Rightarrow> cpp_error + bridge" where
  "emergency_stop_sub_udp_cb s = udp_send (serializeStop (udp_send_buf s)) s"

definition one_traj_sub_udp_cb :: "time_lib \<Rightarrow> traj_msg \<Rightarrow> bridge \<Rightarrow> cpp_error + bridge" where
  "one_traj_sub_udp_cb lib m s = udp_send (serializeOneTraj lib m (udp_send_buf s)) s"

text \<open>What a socket returns is put at the start of the buffer; the rest keeps its old content.\<close>

definition fill :: "8 word list \<Rightarrow> 8 word list \<Rightarrow> 8 word list" where
  "fill bs buf = bs @ drop (length bs) buf"

definition publish_read :: "cpp_error + 'a \<times> nat \<Rightarrow> ('a \<Rightarrow> bridge_output) \<Rightarrow> nat \<Rightarrow> bridge \<Rightarrow> cpp_error + bridge" where
  "publish_read r pub valread s =
     bind_result r (\<lambda>(m, len). Inr (if valread = len then s\<lparr>published := published s @ [pub m]\<rparr> else s))"

definition server_fun :: "time_lib \<Rightarrow> 8 word list \<Rightarrow> bridge \<Rightarrow> cpp_error + bridge" where
  "server_fun lib bs s =
     (if \<not> connected s then Inr s
      else if bs = [] then Inr (s\<lparr>connected := False\<rparr>)
      else let buf = fill bs (recv_buf s)
           in publish_read (deserializeMultiBsplines lib buf 0) PubMulti (length bs) (s\<lparr>recv_buf := buf\<rparr>))"

definition udp_recv_fun :: "time_lib \<Rightarrow> 8 word list \<Rightarrow> bridge \<Rightarrow> cpp_error + bridge" where
  "udp_recv_fun lib bs s0 =
     (let buf = fill bs (udp_recv_buf s0); s = s0\<lparr>udp_recv_buf := buf\<rparr>
      in bind_result (get32 buf 0) (\<lambda>(code, _).
           if code = type_code STOP then
             (if length bs = 1 then publish_read (deserializeStop buf 0) (\<lambda>_. PubStop) (length bs) s else Inr s)
           else if code = type_code ODOM then publish_read (deserializeOdom lib buf 0) PubOdom (length bs) s
           else if code = type_code ONE_TRAJ then publish_read (deserializeOneTraj lib buf 0) PubTraj (length bs) s
           else Inr s))"

end
