(* ===== verification/BridgeProps.thy ===== *)
theory BridgeProps
  imports Bridge
begin

text \<open>
  What one drone's bridge sends, another drone's bridge publishes; and which messages overflow the
  buffers.
\<close>

section \<open>Codecs of the messages\<close>

lemma size_word: "length xs < 2 ^ 64 \<Longrightarrow> unat (word_of_nat (length xs) :: 64 word) = length xs"
  by (simp add: unat_of_nat)

context codec
begin

lemma sized_put:
  assumes "list_all valid xs" "length xs < 2 ^ 64"
  shows "reads (get_sized get) (put_size xs @ concat (map put xs)) (map view xs)"
  unfolding get_sized_def put_size_def
  by (rule reads_andthen [OF reads_word(2)]) (use repeat_put [OF assms(1)] size_word [OF assms(2)] in simp_all)

end

interpretation point: codec put_point get_point "\<lambda>x. x" "\<lambda>x. True"
proof
  fix p :: "64 word \<times> 64 word \<times> 64 word"
  obtain x y z where p: "p = (x, y, z)" by (cases p)
  have "reads get_point (put64 x @ put64 y @ put64 z) (x, y, z)"
    unfolding get_point_def
    by (rule reads_andthen [OF reads_word(2)] reads_andthen [OF reads_word(2)] reads_then_ret [OF reads_word(2)])+
  then show "reads get_point (put_point p) p" by (simp add: p put_point_def)
qed

text \<open>Sizes have to fit in 64 bits, which they do in memory; a time passes through a \<open>double\<close>.\<close>

definition traj_sizes :: "traj_msg \<Rightarrow> bool" where
  "traj_sizes m \<longleftrightarrow> length (tm_knots m) < 2 ^ 64 \<and> length (tm_pos_pts m) < 2 ^ 64 \<and> length (tm_yaw_pts m) < 2 ^ 64"

definition retimed :: "time_lib \<Rightarrow> traj_msg \<Rightarrow> traj_msg" where
  "retimed lib m = m\<lparr>tm_start_time := fromSec lib (toSec lib (tm_start_time m))\<rparr>"

interpretation trajectory: codec "\<lambda>m. concat (traj_pieces lib m)" "get_traj lib" "retimed lib" traj_sizes for lib
proof
  fix m
  assume m: "traj_sizes m"
  have ks: "reads (get_sized get64) (put_size (tm_knots m) @ concat (map put64 (tm_knots m))) (tm_knots m)"
    and ys: "reads (get_sized get64) (put_size (tm_yaw_pts m) @ concat (map put64 (tm_yaw_pts m))) (tm_yaw_pts m)"
    and ps: "reads (get_sized get_point) (put_size (tm_pos_pts m) @ concat (map put_point (tm_pos_pts m))) (tm_pos_pts m)"
    using m double.sized_put [of "tm_knots m"] double.sized_put [of "tm_yaw_pts m"] point.sized_put [of "tm_pos_pts m"]
    by (simp_all add: traj_sizes_def list_all_iff)
  have fields: "retimed lib m = \<lparr>tm_drone_id = tm_drone_id m, tm_order = tm_order m, tm_traj_id = tm_traj_id m,
      tm_start_time = fromSec lib (toSec lib (tm_start_time m)), tm_knots = tm_knots m, tm_pos_pts = tm_pos_pts m,
      tm_yaw_pts = tm_yaw_pts m, tm_yaw_dt = tm_yaw_dt m\<rparr>" by (simp add: retimed_def)
  have "reads (get_traj lib) (put32 (tm_drone_id m) @ put32 (tm_order m) @ put64 (toSec lib (tm_start_time m))
      @ put64 (tm_traj_id m) @ put64 (tm_yaw_dt m) @ (put_size (tm_knots m) @ concat (map put64 (tm_knots m)))
      @ (put_size (tm_pos_pts m) @ concat (map put_point (tm_pos_pts m)))
      @ (put_size (tm_yaw_pts m) @ concat (map put64 (tm_yaw_pts m)))) (retimed lib m)"
    unfolding get_traj_def fields
    by (rule reads_andthen [OF reads_word(1)] reads_andthen [OF reads_word(2)] reads_andthen [OF ks] reads_andthen [OF ps]
        reads_then_ret [OF ys])+
  then show "reads (get_traj lib) (concat (traj_pieces lib m)) (retimed lib m)" by (simp add: traj_pieces_def)
qed

section \<open>Lengths\<close>

lemma length_put_size [simp]: "length (put_size xs) = 8"
  by (simp add: put_size_def)

lemma length_put_point [simp]: "length (put_point p) = 24"
  by (simp add: put_point_def split: prod.splits)

lemma length_concat_const: "(\<And>x. length (f x) = n) \<Longrightarrow> length (concat (map f xs)) = length xs * n"
  by (induction xs) simp_all

lemma length_traj: "length (concat (traj_pieces lib m)) = traj_len m"
  by (simp add: traj_pieces_def traj_len_def length_concat_const [of put64 8] length_concat_const [of put_point 24])

lemma length_odom: "odom_sizes m \<Longrightarrow> length (concat (odom_pieces lib m)) = odom_len m"
  by (simp add: odom_pieces_def odom_len_def odom_sizes_def length_concat_const [of put64 8])

lemma concat_trajs: "concat (concat (map (traj_pieces lib) ms)) = concat (map (\<lambda>m. concat (traj_pieces lib m)) ms)"
  by (induction ms) simp_all

lemma length_trajs: "length (concat (concat (map (traj_pieces lib) ms))) = sum_list (map traj_len ms)"
  by (induction ms) (simp_all add: length_traj)

section \<open>Serialisation\<close>

lemma guard: "n + 1 < 2 ^ 64 \<Longrightarrow> (word_of_nat n + 1 :: 64 word) > word_of_nat BUF_LEN \<longleftrightarrow> BUF_LEN < n + 1"
proof -
  assume n: "n + 1 < 2 ^ 64"
  have "(word_of_nat n + 1 :: 64 word) = word_of_nat (n + 1)" by simp
  moreover have "unat (word_of_nat (n + 1) :: 64 word) = n + 1" unfolding unat_of_nat using n by simp
  moreover have "unat (word_of_nat BUF_LEN :: 64 word) = BUF_LEN" by (simp add: BUF_LEN_def)
  ultimately show ?thesis by (metis word_less_nat_alt)
qed

text \<open>The outcome of a serialisation by the computed length and the true one.\<close>

lemma serialize_outcome:
  assumes "length buf = BUF_LEN" "n_total + 1 < 2 ^ 64"
  shows "serialize n_total pieces buf =
    (if BUF_LEN < n_total + 1 then Inr (- 1, buf)
     else if BUF_LEN < length (concat pieces) then Inl OutOfBounds
     else Inr (int (length (concat pieces)), concat pieces @ drop (length (concat pieces)) buf))"
proof (cases "BUF_LEN < n_total + 1 \<or> length (concat pieces) \<le> BUF_LEN")
  case True
  then show ?thesis using guard [OF assms(2)] write_all_ok [of 0 pieces buf] assms(1) by (auto simp: serialize_def)
next
  case False
  then show ?thesis using guard [OF assms(2)] write_all_fails [of 0 buf pieces] assms(1) by (simp add: serialize_def)
qed

text \<open>A length of a trajectory is a multiple of eight, so that the four bytes that were not counted still fit.\<close>

lemma traj_len_8: "8 dvd traj_len m"
proof -
  have "traj_len m = 8 * (7 + length (tm_knots m) + 3 * length (tm_pos_pts m) + length (tm_yaw_pts m))"
    by (simp add: traj_len_def)
  then show ?thesis by (metis dvd_triv_left)
qed

lemma serialize_fits:
  assumes "length buf = BUF_LEN" "n_total + 1 < 2 ^ 64" "length (concat pieces) = n_total + d" "8 dvd n_total" "d < 8"
  shows "\<exists>r. serialize n_total pieces buf = Inr r"
proof -
  obtain j where "n_total = 8 * j" using assms(4) by (auto elim: dvdE)
  then have "BUF_LEN < n_total + 1 \<or> n_total + 8 \<le> BUF_LEN" unfolding BUF_LEN_def by presburger
  then have "BUF_LEN < n_total + 1 \<or> length (concat pieces) \<le> BUF_LEN" using assms(3,5) by linarith
  then show ?thesis using serialize_outcome [OF assms(1,2), of pieces] by (elim disjE) simp_all
qed

text \<open>
  C37: the trajectory messages never overflow their buffers, although the length of a single one is
  computed without its type; odometry messages do overflow them for three lengths of the frame name.
\<close>

theorem serializers_bounds:
  assumes "length buf = BUF_LEN" "traj_len m + 1 < 2 ^ 64" "16 + sum_list (map traj_len (mm_traj mm)) + 1 < 2 ^ 64"
    "odom_sizes om" "odom_len om + 1 < 2 ^ 64"
  shows "(\<exists>r. serializeOneTraj lib m buf = Inr r) \<and> (\<exists>r. serializeMultiBsplines lib mm buf = Inr r)
    \<and> (serializeOdom lib om buf = Inl OutOfBounds \<longleftrightarrow> odom_len om + 1 \<le> BUF_LEN \<and> BUF_LEN < odom_len om + 4)"
proof (intro conjI)
  show "\<exists>r. serializeOneTraj lib m buf = Inr r"
    unfolding serializeOneTraj_def
    by (rule serialize_fits [OF assms(1,2), of _ 4]) (simp_all add: length_traj traj_len_8)
  have "8 dvd sum_list (map traj_len ts)" for ts by (induction ts) (simp_all add: traj_len_8)
  then have "8 dvd 4 + 4 + 8 + sum_list (map traj_len (mm_traj mm))" by (simp add: dvd_add)
  then show "\<exists>r. serializeMultiBsplines lib mm buf = Inr r"
    unfolding serializeMultiBsplines_def using assms(3)
    by (intro serialize_fits [OF assms(1), of _ _ 0]) (simp_all add: length_trajs)
  show "serializeOdom lib om buf = Inl OutOfBounds \<longleftrightarrow> odom_len om + 1 \<le> BUF_LEN \<and> BUF_LEN < odom_len om + 4"
    using serialize_outcome [OF assms(1,5)] length_odom [OF assms(4)] by (auto simp: serializeOdom_def)
qed

section \<open>Delivery\<close>

definition bridge_ok :: "bridge \<Rightarrow> bool" where
  "bridge_ok s \<longleftrightarrow> length (send_buf s) = BUF_LEN \<and> length (recv_buf s) = BUF_LEN
     \<and> length (udp_send_buf s) = BUF_LEN \<and> length (udp_recv_buf s) = BUF_LEN"

text \<open>Reading a packet that was put into a receive buffer.\<close>

lemma reads_fill: "reads r bs x \<Longrightarrow> r (fill bs buf) 0 = Inr (x, length bs)"
  unfolding reads_def fill_def by (metis append_Nil list.size(3) add_0)

lemma reads_fill_prefix: "reads r bs x \<Longrightarrow> r (fill (bs @ bs') buf) 0 = Inr (x, length bs)"
  unfolding reads_def fill_def by (metis append.assoc append_Nil list.size(3) add_0)

lemma reads_typed: "reads r bs x \<Longrightarrow> reads (andthen (take_bytes 4) (\<lambda>_. r)) (put32 c @ bs) x"
  by (rule reads_andthen [OF reads_bytes]) simp_all

lemma udp_send_ok:
  assumes "serialize n_total pieces (udp_send_buf s) = Inr (int n, concat pieces @ rest)" "n = length (concat pieces)" "n \<le> 65507"
  shows "\<exists>s'. udp_send (serialize n_total pieces (udp_send_buf s)) s = Inr s' \<and> udp_sent s' = udp_sent s @ [concat pieces]"
  using assms by (simp add: udp_send_def)

text \<open>
  C31: a trajectory that is broadcast over UDP and fits in a datagram is published by every bridge that
  receives the datagram, whatever its buffers hold; only the start time goes through a \<open>double\<close>.
\<close>

theorem bridge_delivers_trajectory:
  assumes s: "bridge_ok s" and r: "bridge_ok r" and m: "traj_len m + 4 \<le> 65507"
  shows "\<exists>s' packet r'. one_traj_sub_udp_cb lib m s = Inr s' \<and> udp_sent s' = udp_sent s @ [packet]
    \<and> udp_recv_fun lib packet r = Inr r' \<and> published r' = published r @ [PubTraj (retimed lib m)]"
proof -
  let ?p = "put32 (type_code ONE_TRAJ) # traj_pieces lib m"
  have n: "length (concat ?p) = traj_len m + 4" by (simp add: length_traj)
  have b: "length (udp_send_buf s) = BUF_LEN" using s by (simp add: bridge_ok_def)
  have "serialize (traj_len m) ?p (udp_send_buf s) = Inr (int (length (concat ?p)), concat ?p @ drop (length (concat ?p)) (udp_send_buf s))"
    using serialize_outcome [OF b, of "traj_len m" ?p] m n by (simp add: BUF_LEN_def)
  from udp_send_ok [OF this refl] m n obtain s' where
    s': "one_traj_sub_udp_cb lib m s = Inr s'" "udp_sent s' = udp_sent s @ [concat ?p]"
    by (auto simp: one_traj_sub_udp_cb_def serializeOneTraj_def)
  have "traj_sizes m" using m by (simp add: traj_sizes_def traj_len_def)
  from reads_typed [OF trajectory.get_put [OF this, of lib], of "type_code ONE_TRAJ"]
  have "reads (deserializeOneTraj lib) (concat ?p) (retimed lib m)" by (simp add: deserializeOneTraj_def)
  note read = reads_fill [OF this, of "udp_recv_buf r"]
    and code = reads_fill_prefix [OF reads_word(1), of "type_code ONE_TRAJ" "concat (traj_pieces lib m)" "udp_recv_buf r"]
  have "\<exists>r'. udp_recv_fun lib (concat ?p) r = Inr r' \<and> published r' = published r @ [PubTraj (retimed lib m)]"
    using read code by (simp add: udp_recv_fun_def Let_def publish_read_def)
  with s' show ?thesis by blast
qed

text \<open>
  The trajectories a drone passes on over TCP are published by the next drone's bridge if they
  arrive in one piece, that is if one call of \<open>read\<close> returns exactly what one call of \<open>send\<close> sent.
\<close>

lemma bridge_delivers_swarm:
  assumes s: "bridge_ok s" and r: "bridge_ok r" "connected r" and m: "16 + sum_list (map traj_len (mm_traj mm)) < BUF_LEN"
  shows "\<exists>s' packet r'. multitraj_sub_tcp_cb lib mm s = Inr s' \<and> tcp_sent s' = tcp_sent s @ [packet]
    \<and> server_fun lib packet r = Inr r'
    \<and> published r' = published r @ [PubMulti (mm\<lparr>mm_traj := map (retimed lib) (mm_traj mm)\<rparr>)]"
proof -
  let ?ts = "mm_traj mm" and ?total = "4 + 4 + 8 + sum_list (map traj_len (mm_traj mm))"
  let ?p = "[put32 (type_code MULTI_TRAJ), put32 (mm_drone_id_from mm), put_size ?ts] @ concat (map (traj_pieces lib) ?ts)"
  have n: "length (concat ?p) = ?total" by (simp add: length_trajs)
  have b: "length (send_buf s) = BUF_LEN" using s by (simp add: bridge_ok_def)
  have "serialize ?total ?p (send_buf s) = Inr (int (length (concat ?p)), concat ?p @ drop (length (concat ?p)) (send_buf s))"
    using serialize_outcome [OF b, of ?total ?p] m n by (simp add: BUF_LEN_def)
  then have s': "\<exists>s'. multitraj_sub_tcp_cb lib mm s = Inr s' \<and> tcp_sent s' = tcp_sent s @ [concat ?p]"
    by (simp add: multitraj_sub_tcp_cb_def serializeMultiBsplines_def)
  have small: "traj_len t < BUF_LEN" if "t \<in> set ?ts" for t
    using member_le_sum_list [of "traj_len t" "map traj_len ?ts"] that m by simp
  have "traj_len t < BUF_LEN \<Longrightarrow> traj_sizes t" for t by (simp add: traj_sizes_def traj_len_def BUF_LEN_def)
  with small have valid: "list_all traj_sizes ?ts" by (simp add: list_all_iff)
  have "length ts \<le> sum_list (map traj_len ts)" for ts by (induction ts) (simp_all add: traj_len_def)
  from this [of ?ts] have "length ?ts < 2 ^ 64" using m by (simp add: BUF_LEN_def)
  note ts = trajectory.sized_put [OF valid this, of lib]
  have "reads (deserializeMultiBsplines lib) (put32 (type_code MULTI_TRAJ) @ put32 (mm_drone_id_from mm)
      @ (put_size ?ts @ concat (map (\<lambda>m. concat (traj_pieces lib m)) ?ts)))
      \<lparr>mm_drone_id_from = mm_drone_id_from mm, mm_traj = map (retimed lib) ?ts\<rparr>"
    unfolding deserializeMultiBsplines_def
    by (rule reads_typed, rule reads_andthen [OF reads_word(1)], rule reads_then_ret [OF ts])
  then have "reads (deserializeMultiBsplines lib) (concat ?p) (mm\<lparr>mm_traj := map (retimed lib) ?ts\<rparr>)"
    by (cases mm) (simp add: concat_trajs)
  note read = reads_fill [OF this, of "recv_buf r"]
  have "concat ?p \<noteq> []" using n by (metis list.size(3) add_is_0 numeral_neq_zero)
  then have "\<exists>r'. server_fun lib (concat ?p) r = Inr r'
      \<and> published r' = published r @ [PubMulti (mm\<lparr>mm_traj := map (retimed lib) ?ts\<rparr>)]"
    using read r(2) unfolding server_fun_def Let_def publish_read_def by (simp only: if_False bind_result.simps prod.case) simp
  with s' show ?thesis by blast
qed

section \<open>Witnesses\<close>

definition demo_lib :: time_lib where
  "demo_lib = \<lparr>toSec = (\<lambda>t. ucast (sec t)), fromSec = (\<lambda>w. \<lparr>sec = ucast w, nsec = 0\<rparr>)\<rparr>"

definition demo_traj :: traj_msg where
  "demo_traj = \<lparr>tm_drone_id = 1, tm_order = 3, tm_traj_id = 7, tm_start_time = \<lparr>sec = 1700000000, nsec = 5\<rparr>,
     tm_knots = [1, 2, 3], tm_pos_pts = [(4, 5, 6), (7, 8, 9)], tm_yaw_pts = [], tm_yaw_dt = 0\<rparr>"

definition demo_bridge :: "int \<Rightarrow> bridge" where
  "demo_bridge i = \<lparr>br_drone_id = i, odom_broadcast_freq = 1000, send_buf = replicate BUF_LEN 0, recv_buf = replicate BUF_LEN 0,
     udp_send_buf = replicate BUF_LEN 0, udp_recv_buf = replicate BUF_LEN 255, t_last = 0, connected = True, tcp_sent = [],
     udp_sent = [], published = []\<rparr>"

definition long_odom :: odom_msg where
  "long_odom = \<lparr>om_child_frame_id = [], om_frame_id = replicate 1047867 65, om_seq = 0, om_stamp = \<lparr>sec = 0, nsec = 0\<rparr>,
     om_pose = replicate 7 0, om_pose_covariance = replicate 36 0, om_twist = replicate 6 0, om_twist_covariance = replicate 36 0\<rparr>"

lemma demo_bridge_ok: "bridge_ok (demo_bridge i)" "connected (demo_bridge i)"
  by (simp_all add: bridge_ok_def demo_bridge_def)

lemma demo_traj_len: "traj_len demo_traj = 128"
  by (simp add: traj_len_def demo_traj_def)

theorem serializers_bounds_witness:
  "(\<exists>r. serializeOneTraj demo_lib demo_traj (replicate BUF_LEN 0) = Inr r)
   \<and> serializeOdom demo_lib long_odom (replicate BUF_LEN 0) = Inl OutOfBounds"
proof -
  have "odom_len long_odom = 1048575" "odom_sizes long_odom" by (simp_all add: odom_len_def odom_sizes_def long_odom_def)
  with serializers_bounds [of "replicate BUF_LEN 0" demo_traj "\<lparr>mm_drone_id_from = 1, mm_traj = [demo_traj]\<rparr>" long_odom demo_lib]
  show ?thesis by (simp add: demo_traj_len) (simp add: BUF_LEN_def)
qed

theorem bridge_delivers_trajectory_witness:
  "\<exists>s packet r. one_traj_sub_udp_cb demo_lib demo_traj (demo_bridge 1) = Inr s \<and> udp_sent s = [packet]
    \<and> udp_recv_fun demo_lib packet (demo_bridge 0) = Inr r
    \<and> published r = [PubTraj (demo_traj\<lparr>tm_start_time := \<lparr>sec = 1700000000, nsec = 0\<rparr>\<rparr>)]"
proof -
  have "retimed demo_lib demo_traj = demo_traj\<lparr>tm_start_time := \<lparr>sec = 1700000000, nsec = 0\<rparr>\<rparr>"
    by (simp add: retimed_def demo_lib_def demo_traj_def)
  moreover have "udp_sent (demo_bridge 1) = []" "published (demo_bridge 0) = []" by (simp_all add: demo_bridge_def)
  ultimately show ?thesis
    using bridge_delivers_trajectory [OF demo_bridge_ok(1) [of 1] demo_bridge_ok(1) [of 0], where m = demo_traj and lib = demo_lib] by (simp add: demo_traj_len)
qed

end
