(* ===== verification/Voxels.thy ===== *)
theory Voxels
  imports Prelude
begin

text \<open>
  What the map, the ray caster and the graph search of the planner share: \<open>Eigen::Vector3i\<close>, arrays
  that are indexed by a signed integer, loops whose body can fail, and the loops over a box of
  voxels.  The integers are not bounded: the products of a voxel's coordinates and the sizes of the
  map stay below two to the 31 for every map whose buffers can be allocated.
\<close>

section \<open>Integer vectors\<close>

datatype vec3i = Vec3i (ix: int) (iy: int) (iz: int)

definition iadd :: "vec3i \<Rightarrow> vec3i \<Rightarrow> vec3i" where
  "iadd a b = Vec3i (ix a + ix b) (iy a + iy b) (iz a + iz b)"

definition isub :: "vec3i \<Rightarrow> vec3i \<Rightarrow> vec3i" where
  "isub a b = Vec3i (ix a - ix b) (iy a - iy b) (iz a - iz b)"

definition real_vec :: "vec3i \<Rightarrow> vec3" where
  "real_vec a = Vec3 (of_int (ix a)) (of_int (iy a)) (of_int (iz a))"

text \<open>\<open>Vector3i(k, k, k)\<close>, and the doubles that the code builds the same way.\<close>

definition icube :: "int \<Rightarrow> vec3i" where
  "icube k = Vec3i k k k"

definition vcube :: "real \<Rightarrow> vec3" where
  "vcube k = Vec3 k k k"

lemma vec3i_sel [simp]:
  "ix (iadd a b) = ix a + ix b" "iy (iadd a b) = iy a + iy b" "iz (iadd a b) = iz a + iz b"
  "ix (isub a b) = ix a - ix b" "iy (isub a b) = iy a - iy b" "iz (isub a b) = iz a - iz b"
  "ix (icube k) = k" "iy (icube k) = k" "iz (icube k) = k"
  "vx (vcube h) = h" "vy (vcube h) = h" "vz (vcube h) = h"
  "vx (real_vec a) = of_int (ix a)" "vy (real_vec a) = of_int (iy a)" "vz (real_vec a) = of_int (iz a)"
  by (simp_all add: iadd_def isub_def icube_def vcube_def real_vec_def)

lemma vec3i_eqI: "ix a = ix b \<Longrightarrow> iy a = iy b \<Longrightarrow> iz a = iz b \<Longrightarrow> a = b"
  by (cases a; cases b) simp

text \<open>The componentwise order: \<open>a\<close> is below \<open>b\<close> on every axis.\<close>

definition ile :: "vec3i \<Rightarrow> vec3i \<Rightarrow> bool" where
  "ile a b \<longleftrightarrow> ix a \<le> ix b \<and> iy a \<le> iy b \<and> iz a \<le> iz b"

section \<open>Arrays with a signed index\<close>

definition fetch_at :: "'a list \<Rightarrow> int \<Rightarrow> cpp_error + 'a" where
  "fetch_at xs i = (if 0 \<le> i \<and> i < int (length xs) then Inr (xs ! nat i) else Inl OutOfBounds)"

definition store_at :: "'a \<Rightarrow> 'a list \<Rightarrow> int \<Rightarrow> cpp_error + 'a list" where
  "store_at v xs i = (if 0 \<le> i \<and> i < int (length xs) then Inr (xs[nat i := v]) else Inl OutOfBounds)"

lemma fetch_at_ok [simp]: "0 \<le> i \<Longrightarrow> i < int (length xs) \<Longrightarrow> fetch_at xs i = Inr (xs ! nat i)"
  by (simp add: fetch_at_def)

lemma store_at_ok [simp]: "0 \<le> i \<Longrightarrow> i < int (length xs) \<Longrightarrow> store_at v xs i = Inr (xs[nat i := v])"
  by (simp add: store_at_def)

lemma store_at_Inr: "store_at v xs i = Inr ys \<longleftrightarrow> 0 \<le> i \<and> i < int (length xs) \<and> ys = xs[nat i := v]"
  by (auto simp: store_at_def)

lemma fetch_at_Inr: "fetch_at xs i = Inr x \<longleftrightarrow> 0 \<le> i \<and> i < int (length xs) \<and> x = xs ! nat i"
  by (auto simp: fetch_at_def)

section \<open>Loops with a fallible body\<close>

fun fold_result :: "('a \<Rightarrow> 's \<Rightarrow> cpp_error + 's) \<Rightarrow> 'a list \<Rightarrow> 's \<Rightarrow> cpp_error + 's" where
  "fold_result f [] s = Inr s"
| "fold_result f (x # xs) s = bind_result (f x s) (fold_result f xs)"

text \<open>The two rules for such a loop: an invariant of the runs that end, and one that makes them end.\<close>

lemma fold_result_inv:
  assumes step: "\<And>x s t. x \<in> set xs \<Longrightarrow> P s \<Longrightarrow> f x s = Inr t \<Longrightarrow> P t"
  shows "P s \<Longrightarrow> fold_result f xs s = Inr t \<Longrightarrow> P t"
  using step
proof (induction xs arbitrary: s)
  case Nil
  then show ?case by simp
next
  case (Cons x xs)
  from Cons.prems(2) obtain u where u: "f x s = Inr u" "fold_result f xs u = Inr t" by auto
  have "P u" by (rule Cons.prems(3) [OF _ Cons.prems(1) u(1)]) simp
  from Cons.IH [OF this u(2)] show ?case using Cons.prems(3) by auto
qed

lemma fold_result_ok:
  assumes step: "\<And>x s. x \<in> set xs \<Longrightarrow> P s \<Longrightarrow> \<exists>t. f x s = Inr t \<and> P t"
  shows "P s \<Longrightarrow> \<exists>t. fold_result f xs s = Inr t \<and> P t"
  using step
proof (induction xs arbitrary: s)
  case Nil
  then show ?case by simp
next
  case (Cons x xs)
  from Cons.prems(2) [OF _ Cons.prems(1)] obtain u where u: "f x s = Inr u" "P u" by fastforce
  from Cons.IH [OF u(2)] Cons.prems(2) u(1) show ?case by auto
qed

text \<open>A loop whose body adds at most \<open>w\<close> to a measure, below a bound.\<close>

lemma fold_result_bounded:
  assumes "\<And>x s. x \<in> set xs \<Longrightarrow> P s \<Longrightarrow> m s + w \<le> N \<Longrightarrow> \<exists>t. f x s = Inr t \<and> P t \<and> m t \<le> m s + w"
    and "P s" "m s + length xs * w \<le> (N :: nat)"
  shows "\<exists>t. fold_result f xs s = Inr t \<and> P t \<and> m t \<le> m s + length xs * w"
  using assms
proof (induction xs arbitrary: s)
  case Nil
  then show ?case by simp
next
  case (Cons x xs)
  from Cons.prems(1) [of x s] Cons.prems(2,3) obtain u where u: "f x s = Inr u" "P u" "m u \<le> m s + w" by auto
  with Cons.prems(3) have "m u + length xs * w \<le> N" by simp
  from Cons.IH [OF Cons.prems(1) u(2) this] obtain t where
    "fold_result f xs u = Inr t" "P t" "m t \<le> m u + length xs * w" by fastforce
  with u show ?case by auto
qed

lemma fold_result_append:
  "fold_result f (xs @ ys) s = bind_result (fold_result f xs s) (fold_result f ys)"
proof (induction xs arbitrary: s)
  case Nil
  then show ?case by simp
next
  case (Cons x xs)
  then show ?case by (cases "f x s") auto
qed

text \<open>A loop that stores one value at a list of addresses.\<close>

definition filled :: "'a \<Rightarrow> int list \<Rightarrow> 'a list \<Rightarrow> cpp_error + 'a list" where
  "filled v is xs = fold_result (\<lambda>i ys. store_at v ys i) is xs"

lemma fill_ok:
  assumes "\<forall>i \<in> set is. 0 \<le> i \<and> i < int (length xs)"
  shows "\<exists>ys. filled v is xs = Inr ys \<and> length ys = length xs"
  unfolding filled_def using assms
  by (intro fold_result_ok [where P = "\<lambda>ys. length ys = length xs"]) auto

lemma fill_nth:
  "filled v is xs = Inr ys \<Longrightarrow>
   length ys = length xs \<and> (\<forall>j < length xs. ys ! j = (if int j \<in> set is then v else xs ! j))"
proof (induction "is" arbitrary: xs)
  case Nil
  then show ?case by (simp add: filled_def)
next
  case (Cons i "is")
  from Cons.prems have i: "0 \<le> i" "i < int (length xs)" and r: "filled v is (xs[nat i := v]) = Inr ys"
    by (auto simp: filled_def store_at_Inr)
  from Cons.IH [OF r] i show ?case by (auto simp: nth_list_update)
qed

lemma fill_list_all: "filled v is xs = Inr ys \<Longrightarrow> P v \<Longrightarrow> list_all P xs \<Longrightarrow> list_all P ys"
  using fill_nth [of v "is" xs ys] by (auto simp: list_all_length)

section \<open>Boxes\<close>

text \<open>The order of three nested loops, the last coordinate running fastest.\<close>

definition box :: "vec3i \<Rightarrow> vec3i \<Rightarrow> vec3i list" where
  "box lo hi = concat (map (\<lambda>x. concat (map (\<lambda>y. map (Vec3i x y) [iz lo..iz hi]) [iy lo..iy hi])) [ix lo..ix hi])"

lemma set_box: "set (box lo hi) = {c. ile lo c \<and> ile c hi}"
proof -
  have "c \<in> set (box lo hi) \<longleftrightarrow> ile lo c \<and> ile c hi" for c
    by (cases c) (force simp: box_def ile_def image_iff)
  then show ?thesis by blast
qed

end
