(* ===== verification/Raycast.thy ===== *)
theory Raycast
  imports Voxels
begin

text \<open>
  The voxel traversal of the map: class \<open>RayCaster\<close> of \<open>plan_env/src/raycast.cpp\<close>, with the helpers
  \<open>signum\<close>, \<open>mod\<close> and \<open>intbound\<close>.  An axis along which the ray stays in its voxel has no crossing:
  the code divides by zero there and relies on the infinity and the NaN that come out, so the
  crossing times are a datatype with these two values.

  The property of the theory: from any point to any other, the caster visits a path of voxels that
  touch in a face, inside the box the two voxels span, and stops at the last one after as many
  steps as the two voxels are apart.
\<close>

section \<open>Crossing times\<close>

datatype crossing = At real | Never | NotANumber

text \<open>The double_div of two doubles; the numerators of the code are not negative.\<close>

definition double_div :: "real \<Rightarrow> real \<Rightarrow> crossing" where
  "double_div a b = (if b \<noteq> 0 then At (a / b) else if a > 0 then Never else NotANumber)"

fun earlier :: "crossing \<Rightarrow> crossing \<Rightarrow> bool" where
  "earlier (At a) (At b) = (a < b)"
| "earlier (At a) Never = True"
| "earlier a b = False"

fun delayed :: "crossing \<Rightarrow> crossing \<Rightarrow> crossing" where
  "delayed (At a) (At d) = At (a + d)"
| "delayed NotANumber d = NotANumber"
| "delayed a NotANumber = NotANumber"
| "delayed a d = Never"

definition signum :: "int \<Rightarrow> int" where
  "signum x = (if x = 0 then 0 else if x < 0 then - 1 else 1)"

text \<open>\<open>fmod\<close> of the standard library, and \<open>mod\<close>, whose result has the sign of the modulus.\<close>

definition fmod :: "real \<Rightarrow> real \<Rightarrow> real" where
  "fmod x y = x - of_int (trunc (x / y)) * y"

definition mod_real :: "real \<Rightarrow> real \<Rightarrow> real" where
  "mod_real value modulus = fmod (fmod value modulus + modulus) modulus"

definition intbound :: "real \<Rightarrow> real \<Rightarrow> crossing" where
  "intbound s ds =
     (if ds < 0 then double_div (1 - mod_real (- s) 1) (- ds) else double_div (1 - mod_real s 1) ds)"

section \<open>The caster\<close>

record raycaster =
  cell :: vec3i            \<comment> \<open>\<open>x_\<close>, \<open>y_\<close>, \<open>z_\<close>\<close>
  end_cell :: vec3i        \<comment> \<open>\<open>endX_\<close>, \<open>endY_\<close>, \<open>endZ_\<close>\<close>
  step_dir :: vec3i        \<comment> \<open>\<open>stepX_\<close>, \<open>stepY_\<close>, \<open>stepZ_\<close>\<close>
  tMaxX :: crossing
  tMaxY :: crossing
  tMaxZ :: crossing
  tDeltaX :: crossing
  tDeltaY :: crossing
  tDeltaZ :: crossing

definition floor_vec :: "vec3 \<Rightarrow> vec3i" where
  "floor_vec p = Vec3i \<lfloor>vx p\<rfloor> \<lfloor>vy p\<rfloor> \<lfloor>vz p\<rfloor>"

text \<open>\<open>setInput\<close>: the verdict (is there a step to take) and the caster.\<close>

definition setInput :: "vec3 \<Rightarrow> vec3 \<Rightarrow> bool \<times> raycaster" where
  "setInput start end_pt =
     (let c = floor_vec start; e = floor_vec end_pt; d = isub e c;
          dir = Vec3i (signum (ix d)) (signum (iy d)) (signum (iz d));
          r = \<lparr>cell = c, end_cell = e, step_dir = dir,
               tMaxX = intbound (vx start) (of_int (ix d)), tMaxY = intbound (vy start) (of_int (iy d)),
               tMaxZ = intbound (vz start) (of_int (iz d)),
               tDeltaX = double_div (of_int (ix dir)) (of_int (ix d)),
               tDeltaY = double_div (of_int (iy dir)) (of_int (iy d)),
               tDeltaZ = double_div (of_int (iz dir)) (of_int (iz d))\<rparr>
      in (\<not> (ix dir = 0 \<and> iy dir = 0 \<and> iz dir = 0), r))"

definition step_x :: "raycaster \<Rightarrow> raycaster" where
  "step_x r = r\<lparr>cell := iadd (cell r) (Vec3i (ix (step_dir r)) 0 0), tMaxX := delayed (tMaxX r) (tDeltaX r)\<rparr>"

definition step_y :: "raycaster \<Rightarrow> raycaster" where
  "step_y r = r\<lparr>cell := iadd (cell r) (Vec3i 0 (iy (step_dir r)) 0), tMaxY := delayed (tMaxY r) (tDeltaY r)\<rparr>"

definition step_z :: "raycaster \<Rightarrow> raycaster" where
  "step_z r = r\<lparr>cell := iadd (cell r) (Vec3i 0 0 (iz (step_dir r))), tMaxZ := delayed (tMaxZ r) (tDeltaZ r)\<rparr>"

text \<open>\<open>step\<close>: the voxel it hands out, whether the ray goes on, and the caster.\<close>

definition ray_step :: "raycaster \<Rightarrow> vec3i \<times> bool \<times> raycaster" where
  "ray_step r =
     (if cell r = end_cell r then (cell r, False, r)
      else (cell r, True,
            if earlier (tMaxX r) (tMaxY r)
            then (if earlier (tMaxX r) (tMaxZ r) then step_x r else step_z r)
            else (if earlier (tMaxY r) (tMaxZ r) then step_y r else step_z r)))"

text \<open>The voxels of a loop over \<open>step\<close>, for at most \<open>n\<close> calls; the last one has the answer false.\<close>

fun visited :: "nat \<Rightarrow> raycaster \<Rightarrow> vec3i list" where
  "visited 0 r = []"
| "visited (Suc n) r =
     (case ray_step r of (pt, goes_on, r') \<Rightarrow> pt # (if goes_on then visited n r' else []))"

text \<open>The number of voxel faces between two voxels.\<close>

definition manhattan :: "vec3i \<Rightarrow> vec3i \<Rightarrow> nat" where
  "manhattan a b = nat \<bar>ix b - ix a\<bar> + nat \<bar>iy b - iy a\<bar> + nat \<bar>iz b - iz a\<bar>"

section \<open>One axis\<close>

lemma mod_real_one: "mod_real s 1 = frac s"
proof -
  have "fmod x 1 = x - of_int (trunc x)" for x by (simp add: fmod_def)
  then have "mod_real s 1 = s - of_int (trunc s) + 1 - of_int (trunc (s - of_int (trunc s) + 1))"
    by (simp add: mod_real_def)
  moreover have "frac s = s - of_int (trunc s) + 1 - of_int (trunc (s - of_int (trunc s) + 1))"
    by (simp add: trunc_def frac_def) linarith
  ultimately show ?thesis by simp
qed

text \<open>
  The state of one axis: \<open>d\<close> voxels to cover, \<open>c\<close> the coordinate, \<open>e\<close> its goal.  While there is
  way to go, the next crossing lies in the unit interval; afterwards it lies behind it.
\<close>

definition axis_ok :: "int \<Rightarrow> int \<Rightarrow> int \<Rightarrow> crossing \<Rightarrow> bool" where
  "axis_ok d c e tm \<longleftrightarrow>
     (\<exists>n t0. int n \<le> \<bar>d\<bar> \<and> c = e - d + signum d * int n \<and>
        (if d = 0 then tm = Never
         else 0 < t0 \<and> t0 \<le> 1 / \<bar>of_int d\<bar> \<and> tm = At (t0 + real n / \<bar>of_int d\<bar>)))"

lemma axis_start: "axis_ok (\<lfloor>b\<rfloor> - \<lfloor>a\<rfloor>) \<lfloor>a\<rfloor> \<lfloor>b\<rfloor> (intbound a (of_int (\<lfloor>b\<rfloor> - \<lfloor>a\<rfloor>)))"
proof -
  define d where "d = \<lfloor>b\<rfloor> - \<lfloor>a\<rfloor>"
  have frac: "0 < 1 - frac x" "1 - frac x \<le> 1" for x :: real
    using frac_lt_1 [of x] frac_ge_0 [of x] by simp_all
  show ?thesis
  proof (cases "d = 0")
    case True
    with frac show ?thesis
      by (auto simp: axis_ok_def intbound_def double_div_def mod_real_one d_def [symmetric] signum_def)
         (simp add: d_def)
  next
    case False
    define t0 where "t0 = (1 - frac (if d < 0 then - a else a)) / \<bar>of_int d\<bar>"
    have "0 < t0" "t0 \<le> 1 / \<bar>of_int d\<bar>"
      using False frac [of a] frac [of "- a"] by (auto simp: t0_def divide_simps)
    moreover have "intbound a (of_int d) = At t0"
      using False by (auto simp: intbound_def double_div_def mod_real_one t0_def)
    ultimately show ?thesis using False
      unfolding axis_ok_def d_def [symmetric]
      by (intro exI [of _ "0::nat"] exI [of _ t0]) (simp add: d_def)
  qed
qed

lemma axis_open:
  assumes "axis_ok d c e tm" "c \<noteq> e"
  shows "\<exists>t. tm = At t \<and> t \<le> 1"
proof -
  from assms(1) obtain n t0 where n: "int n \<le> \<bar>d\<bar>" "c = e - d + signum d * int n"
    and t: "if d = 0 then tm = Never else 0 < t0 \<and> t0 \<le> 1 / \<bar>of_int d\<bar> \<and> tm = At (t0 + real n / \<bar>of_int d\<bar>)"
    by (auto simp: axis_ok_def)
  have d: "d \<noteq> 0" using assms(2) n by (auto simp: signum_def)
  have "int n \<noteq> \<bar>d\<bar>" using assms(2) n(2) by (auto simp: signum_def split: if_splits)
  with n(1) have "1 + real n \<le> \<bar>of_int d\<bar>" by linarith
  with d have "(1 + real n) / \<bar>of_int d\<bar> \<le> 1" by (simp add: divide_le_eq)
  with d t show ?thesis by (auto simp: add_divide_distrib)
qed

lemma axis_closed:
  assumes "axis_ok d e e tm"
  shows "tm = Never \<or> (\<exists>t. tm = At t \<and> 1 < t)"
proof -
  from assms obtain n t0 where n: "int n \<le> \<bar>d\<bar>" "d = signum d * int n"
    and t: "if d = 0 then tm = Never else 0 < t0 \<and> t0 \<le> 1 / \<bar>of_int d\<bar> \<and> tm = At (t0 + real n / \<bar>of_int d\<bar>)"
    by (auto simp: axis_ok_def)
  show ?thesis
  proof (cases "d = 0")
    case True
    with t show ?thesis by simp
  next
    case False
    with n(2) have "\<bar>d\<bar> = int n" by (auto simp: signum_def split: if_splits)
    then have "\<bar>real_of_int d\<bar> = real n" by linarith
    with False t show ?thesis by auto
  qed
qed

lemma axis_step:
  assumes ok: "axis_ok d c e tm" and open': "c \<noteq> e"
  shows "axis_ok d (c + signum d) e (delayed tm (double_div (of_int (signum d)) (of_int d)))"
    and "Suc (nat \<bar>e - (c + signum d)\<bar>) = nat \<bar>e - c\<bar>"
    and "\<bar>signum d\<bar> = 1"
proof -
  from ok obtain n t0 where n: "int n \<le> \<bar>d\<bar>" "c = e - d + signum d * int n"
    and t: "if d = 0 then tm = Never else 0 < t0 \<and> t0 \<le> 1 / \<bar>of_int d\<bar> \<and> tm = At (t0 + real n / \<bar>of_int d\<bar>)"
    by (auto simp: axis_ok_def)
  have d: "d \<noteq> 0" using open' n by (auto simp: signum_def)
  have "int n \<noteq> \<bar>d\<bar>" using open' n(2) by (auto simp: signum_def split: if_splits)
  with n(1) have n': "int (Suc n) \<le> \<bar>d\<bar>" by linarith
  have q: "double_div (of_int (signum d)) (of_int d) = At (1 / \<bar>of_int d\<bar>)"
    using d by (auto simp: double_div_def signum_def)
  have "delayed tm (double_div (of_int (signum d)) (of_int d)) = At (t0 + real (Suc n) / \<bar>of_int d\<bar>)"
    using t d by (simp add: q add_divide_distrib)
  moreover have "c + signum d = e - d + signum d * int (Suc n)" using n(2) by (simp add: algebra_simps)
  ultimately show "axis_ok d (c + signum d) e (delayed tm (double_div (of_int (signum d)) (of_int d)))"
    using n' t d unfolding axis_ok_def by (intro exI [of _ "Suc n"] exI [of _ t0]) simp
  show "Suc (nat \<bar>e - (c + signum d)\<bar>) = nat \<bar>e - c\<bar>" "\<bar>signum d\<bar> = 1"
    using n n' d by (auto simp: signum_def)
qed

lemma axis_range: "axis_ok d c e tm \<Longrightarrow> min (e - d) e \<le> c \<and> c \<le> max (e - d) e"
  by (auto simp: axis_ok_def signum_def)

section \<open>The ray\<close>

text \<open>The caster on its way, the three axes together; \<open>d\<close> is the way from the first voxel to the last.\<close>

definition ray_ok :: "vec3i \<Rightarrow> raycaster \<Rightarrow> bool" where
  "ray_ok d r \<longleftrightarrow>
     step_dir r = Vec3i (signum (ix d)) (signum (iy d)) (signum (iz d)) \<and>
     tDeltaX r = double_div (of_int (signum (ix d))) (of_int (ix d)) \<and>
     tDeltaY r = double_div (of_int (signum (iy d))) (of_int (iy d)) \<and>
     tDeltaZ r = double_div (of_int (signum (iz d))) (of_int (iz d)) \<and>
     axis_ok (ix d) (ix (cell r)) (ix (end_cell r)) (tMaxX r) \<and>
     axis_ok (iy d) (iy (cell r)) (iy (end_cell r)) (tMaxY r) \<and>
     axis_ok (iz d) (iz (cell r)) (iz (end_cell r)) (tMaxZ r)"

definition unit_step :: "vec3i \<Rightarrow> vec3i \<Rightarrow> bool" where
  "unit_step a b \<longleftrightarrow> \<bar>ix b - ix a\<bar> + \<bar>iy b - iy a\<bar> + \<bar>iz b - iz a\<bar> = 1"

lemma setInput_simps [simp]:
  "cell (snd (setInput a b)) = floor_vec a" "end_cell (snd (setInput a b)) = floor_vec b"
  by (simp_all add: setInput_def Let_def)

lemma setInput_ok: "ray_ok (isub (floor_vec b) (floor_vec a)) (snd (setInput a b))"
  unfolding ray_ok_def
  using axis_start [of "vx b" "vx a"] axis_start [of "vy b" "vy a"] axis_start [of "vz b" "vz a"]
  by (simp add: setInput_def Let_def floor_vec_def)

text \<open>What a step along an axis with way to go does.\<close>

lemma step_xyz_ok:
  assumes "ray_ok d r"
  shows "ix (cell r) \<noteq> ix (end_cell r) \<Longrightarrow>
      ray_ok d (step_x r) \<and> unit_step (cell r) (cell (step_x r)) \<and>
      Suc (manhattan (cell (step_x r)) (end_cell r)) = manhattan (cell r) (end_cell r)"
    and "iy (cell r) \<noteq> iy (end_cell r) \<Longrightarrow>
      ray_ok d (step_y r) \<and> unit_step (cell r) (cell (step_y r)) \<and>
      Suc (manhattan (cell (step_y r)) (end_cell r)) = manhattan (cell r) (end_cell r)"
    and "iz (cell r) \<noteq> iz (end_cell r) \<Longrightarrow>
      ray_ok d (step_z r) \<and> unit_step (cell r) (cell (step_z r)) \<and>
      Suc (manhattan (cell (step_z r)) (end_cell r)) = manhattan (cell r) (end_cell r)"
  using assms axis_step [of "ix d" "ix (cell r)" "ix (end_cell r)" "tMaxX r"]
    axis_step [of "iy d" "iy (cell r)" "iy (end_cell r)" "tMaxY r"]
    axis_step [of "iz d" "iz (cell r)" "iz (end_cell r)" "tMaxZ r"]
  by (auto simp: ray_ok_def step_x_def step_y_def step_z_def unit_step_def manhattan_def)

text \<open>The axis of the earliest crossing has way to go: this is why the division by zero is harmless.\<close>

lemma earliest_open:
  assumes x: "axis_ok dx cx ex tx" and y: "axis_ok dy cy ey ty" and z: "axis_ok dz cz ez tz"
    and open': "cx \<noteq> ex \<or> cy \<noteq> ey \<or> cz \<noteq> ez"
  shows "if earlier tx ty then (if earlier tx tz then cx \<noteq> ex else cz \<noteq> ez)
         else (if earlier ty tz then cy \<noteq> ey else cz \<noteq> ez)"
proof -
  have X: "if cx \<noteq> ex then \<exists>t. tx = At t \<and> t \<le> 1 else tx = Never \<or> (\<exists>t. tx = At t \<and> 1 < t)"
    using axis_open [OF x] axis_closed [of dx ex tx] x by auto
  have Y: "if cy \<noteq> ey then \<exists>t. ty = At t \<and> t \<le> 1 else ty = Never \<or> (\<exists>t. ty = At t \<and> 1 < t)"
    using axis_open [OF y] axis_closed [of dy ey ty] y by auto
  have Z: "if cz \<noteq> ez then \<exists>t. tz = At t \<and> t \<le> 1 else tz = Never \<or> (\<exists>t. tz = At t \<and> 1 < t)"
    using axis_open [OF z] axis_closed [of dz ez tz] z by auto
  show ?thesis
    using X Y Z open' by (cases tx; cases ty; cases tz) (auto split: if_splits)
qed

lemma ray_step_ok:
  assumes ok: "ray_ok d r" and open': "cell r \<noteq> end_cell r"
  shows "\<exists>r'. ray_step r = (cell r, True, r') \<and> ray_ok d r' \<and> end_cell r' = end_cell r \<and>
    unit_step (cell r) (cell r') \<and> Suc (manhattan (cell r') (end_cell r)) = manhattan (cell r) (end_cell r)"
proof -
  have "ix (cell r) \<noteq> ix (end_cell r) \<or> iy (cell r) \<noteq> iy (end_cell r) \<or> iz (cell r) \<noteq> iz (end_cell r)"
    using open' vec3i_eqI by blast
  with ok have sel: "if earlier (tMaxX r) (tMaxY r)
      then (if earlier (tMaxX r) (tMaxZ r) then ix (cell r) \<noteq> ix (end_cell r) else iz (cell r) \<noteq> iz (end_cell r))
      else (if earlier (tMaxY r) (tMaxZ r) then iy (cell r) \<noteq> iy (end_cell r) else iz (cell r) \<noteq> iz (end_cell r))"
    by (intro earliest_open) (auto simp: ray_ok_def)
  have "end_cell (step_x r) = end_cell r" "end_cell (step_y r) = end_cell r" "end_cell (step_z r) = end_cell r"
    by (simp_all add: step_x_def step_y_def step_z_def)
  then show ?thesis
    using open' sel step_xyz_ok [OF ok] by (auto simp: ray_step_def split: if_splits)
qed

lemma ray_step_end: "cell r = end_cell r \<Longrightarrow> ray_step r = (cell r, False, r)"
  by (simp add: ray_step_def)

lemma manhattan_zero: "manhattan a b = 0 \<longleftrightarrow> a = b"
  by (cases a; cases b) (auto simp: manhattan_def)

definition between :: "vec3i \<Rightarrow> vec3i \<Rightarrow> vec3i \<Rightarrow> bool" where
  "between a b c \<longleftrightarrow>
     min (ix a) (ix b) \<le> ix c \<and> ix c \<le> max (ix a) (ix b) \<and>
     min (iy a) (iy b) \<le> iy c \<and> iy c \<le> max (iy a) (iy b) \<and>
     min (iz a) (iz b) \<le> iz c \<and> iz c \<le> max (iz a) (iz b)"

lemma ray_ok_between: "ray_ok d r \<Longrightarrow> between (isub (end_cell r) d) (end_cell r) (cell r)"
  unfolding ray_ok_def between_def
  using axis_range [of "ix d" "ix (cell r)" "ix (end_cell r)" "tMaxX r"]
    axis_range [of "iy d" "iy (cell r)" "iy (end_cell r)" "tMaxY r"]
    axis_range [of "iz d" "iz (cell r)" "iz (end_cell r)" "tMaxZ r"] by simp

lemma visited_ok:
  assumes "ray_ok d r" "manhattan (cell r) (end_cell r) = n"
  shows "\<exists>cs. visited (Suc n + k) r = cell r # cs \<and> length cs = n \<and> last (cell r # cs) = end_cell r \<and>
    successively unit_step (cell r # cs) \<and> (\<forall>c \<in> set (cell r # cs). between (isub (end_cell r) d) (end_cell r) c)"
  using assms
proof (induction n arbitrary: r)
  case 0
  with ray_ok_between [OF 0(1)] show ?case by (simp add: manhattan_zero ray_step_end)
next
  case (Suc n)
  then have "cell r \<noteq> end_cell r" using manhattan_zero [of "cell r" "end_cell r"] by simp
  from ray_step_ok [OF Suc.prems(1) this] obtain r' where r': "ray_step r = (cell r, True, r')" "ray_ok d r'"
    "end_cell r' = end_cell r" "unit_step (cell r) (cell r')" "Suc (manhattan (cell r') (end_cell r)) = Suc n"
    using Suc.prems(2) by auto
  from Suc.IH [OF r'(2)] r'(3,5) obtain cs where cs: "visited (Suc n + k) r' = cell r' # cs" "length cs = n"
    "last (cell r' # cs) = end_cell r" "successively unit_step (cell r' # cs)"
    "\<forall>c \<in> set (cell r' # cs). between (isub (end_cell r) d) (end_cell r) c" by auto
  have "visited (Suc (Suc n) + k) r = cell r # cell r' # cs" using r'(1) cs(1) by simp
  with cs r'(4) ray_ok_between [OF Suc.prems(1)] show ?case by simp
qed

text \<open>
  C16: Whatever the two points are, the loop over \<open>step\<close> that \<open>setInput\<close> prepares ends: it
  hands out the voxel of the first point, then voxels that share a face with the one before, inside
  the box that the voxels of the two points span, and ends with the voxel of the second point,
  after exactly as many steps as the two voxels are apart, however often it could be called
  (\<open>k\<close>).  In particular the divisions by zero of an axis without way to go never decide a step.
\<close>

theorem ray_reaches_end:
  "\<exists>cs. visited (Suc (manhattan (floor_vec a) (floor_vec b)) + k) (snd (setInput a b)) = cs \<and>
     length cs = Suc (manhattan (floor_vec a) (floor_vec b)) \<and>
     hd cs = floor_vec a \<and> last cs = floor_vec b \<and> successively unit_step cs \<and>
     list_all (between (floor_vec a) (floor_vec b)) cs"
proof -
  have "isub (floor_vec b) (isub (floor_vec b) (floor_vec a)) = floor_vec a"
    by (intro vec3i_eqI) simp_all
  with visited_ok [OF setInput_ok, where n = "manhattan (floor_vec a) (floor_vec b)" and a1 = a and b1 = b and k = k]
  show ?thesis by (fastforce simp: list_all_iff)
qed

end
