(* ===== verification/GridMap.thy ===== *)
theory GridMap
  imports Raycast
begin

text \<open>
  The occupancy map of the planner: class \<open>GridMap\<close> of \<open>planner/planner/plan_env/include/plan_env/grid_map.h\<close>
  and \<open>src/grid_map.cpp\<close>, with its parameters (\<open>MappingParameters\<close>) and its state
  (\<open>MappingData\<close>).  The buffers are lists, one entry per voxel, and every access to them is checked.
  The hit counters keep their 16 bits and the round counter of the ray marks its 8 bits.

  Parameters of the model: the values a \<open>Vector3d\<close> or an enumeration has before it is set (the
  record that \<open>initMap\<close> starts from), the parameter server, the depth image as \<open>cv_bridge\<close> hands it
  over (16 bits per pixel, rows one after the other), the points of a cloud as PCL hands them over,
  and the clock.  Printing, the drawing of the map in RViz and the measurement of the update time
  are left out.
\<close>

section \<open>Matrices\<close>

datatype mat3 = Mat3 (row0: vec3) (row1: vec3) (row2: vec3)

definition vdot :: "vec3 \<Rightarrow> vec3 \<Rightarrow> real" where
  "vdot a b = vx a * vx b + vy a * vy b + vz a * vz b"

definition mat_vec :: "mat3 \<Rightarrow> vec3 \<Rightarrow> vec3" where
  "mat_vec m v = Vec3 (vdot (row0 m) v) (vdot (row1 m) v) (vdot (row2 m) v)"

definition mat_mul :: "mat3 \<Rightarrow> mat3 \<Rightarrow> mat3" where
  "mat_mul a b =
     (let c0 = Vec3 (vx (row0 b)) (vx (row1 b)) (vx (row2 b));
          c1 = Vec3 (vy (row0 b)) (vy (row1 b)) (vy (row2 b));
          c2 = Vec3 (vz (row0 b)) (vz (row1 b)) (vz (row2 b));
          row = (\<lambda>r. Vec3 (vdot r c0) (vdot r c1) (vdot r c2))
      in Mat3 (row (row0 a)) (row (row1 a)) (row (row2 a)))"

text \<open>\<open>Quaterniond(w, x, y, z).toRotationMatrix()\<close> of Eigen; the quaternion need not be normalised.\<close>

definition toRotationMatrix :: "real \<Rightarrow> real \<Rightarrow> real \<Rightarrow> real \<Rightarrow> mat3" where
  "toRotationMatrix w x y z =
     Mat3 (Vec3 (1 - (2 * y * y + 2 * z * z)) (2 * x * y - 2 * w * z) (2 * x * z + 2 * w * y))
          (Vec3 (2 * x * y + 2 * w * z) (1 - (2 * x * x + 2 * z * z)) (2 * y * z - 2 * w * x))
          (Vec3 (2 * x * z - 2 * w * y) (2 * y * z + 2 * w * x) (1 - (2 * x * x + 2 * y * y)))"

section \<open>State\<close>

text \<open>\<open>MappingParameters\<close>; the members that only the camera's noise model or the display use are left out.\<close>

record mapping_parameters =
  map_origin :: vec3
  map_size :: vec3
  map_min_boundary :: vec3
  map_max_boundary :: vec3
  map_voxel_num :: vec3i
  local_update_range :: vec3
  resolution :: real
  resolution_inv :: real
  obstacles_inflation :: real
  pose_type :: int
  cam_cx :: real
  cam_cy :: real
  cam_fx :: real
  cam_fy :: real
  odom_depth_timeout :: real
  depth_filter_maxdist :: real
  depth_filter_mindist :: real
  depth_filter_margin :: int
  use_depth_filter :: bool
  k_depth_scaling_factor :: real
  skip_pixel :: int
  prob_hit_log :: real
  prob_miss_log :: real
  clamp_min_log :: real
  clamp_max_log :: real
  min_occupancy_log :: real
  max_ray_length :: real
  local_map_margin :: int
  visualization_truncate_height :: real
  ground_height :: real
  unknown_flag :: real

record depth_picture =
  img_rows :: int
  img_cols :: int
  pixels :: "16 word list"

text \<open>
  \<open>MappingData\<close>.  The vector \<open>proj_points_\<close> keeps its size, \<open>proj_capacity\<close>; \<open>proj_points\<close> are
  its first \<open>proj_points_cnt\<close> entries.
\<close>

record mapping_data =
  occupancy_buffer :: "real list"
  occupancy_buffer_inflate :: "int list"
  camera_pos :: vec3
  camera_r_m :: mat3
  last_camera_pos :: vec3
  last_camera_r_m :: mat3
  cam2body :: "mat3 \<times> vec3"
  depth_image :: depth_picture
  last_depth_image :: depth_picture
  occ_need_update :: bool
  local_updated :: bool
  has_first_depth :: bool
  has_odom :: bool
  has_cloud :: bool
  last_occ_update_time :: real
  flag_depth_odom_timeout :: bool
  flag_use_depth_fusion :: bool
  proj_points :: "vec3 list"
  proj_capacity :: int
  count_hit :: "16 word list"
  count_hit_and_miss :: "16 word list"
  flag_traverse :: "8 word list"
  flag_rayend :: "8 word list"
  raycast_num :: "8 word"
  cache_voxel :: "vec3i list"
  local_bound_min :: vec3i
  local_bound_max :: vec3i
  update_num :: int

section \<open>Indices and addresses\<close>

definition posToIndex :: "mapping_parameters \<Rightarrow> vec3 \<Rightarrow> vec3i" where
  "posToIndex mp pos =
     Vec3i \<lfloor>(vx pos - vx (map_origin mp)) * resolution_inv mp\<rfloor>
           \<lfloor>(vy pos - vy (map_origin mp)) * resolution_inv mp\<rfloor>
           \<lfloor>(vz pos - vz (map_origin mp)) * resolution_inv mp\<rfloor>"

definition indexToPos :: "mapping_parameters \<Rightarrow> vec3i \<Rightarrow> vec3" where
  "indexToPos mp vox =
     Vec3 ((of_int (ix vox) + 1/2) * resolution mp + vx (map_origin mp))
          ((of_int (iy vox) + 1/2) * resolution mp + vy (map_origin mp))
          ((of_int (iz vox) + 1/2) * resolution mp + vz (map_origin mp))"

definition toAddress :: "mapping_parameters \<Rightarrow> vec3i \<Rightarrow> int" where
  "toAddress mp vox =
     ix vox * iy (map_voxel_num mp) * iz (map_voxel_num mp) + iy vox * iz (map_voxel_num mp) + iz vox"

definition buffer_size :: "mapping_parameters \<Rightarrow> int" where
  "buffer_size mp = ix (map_voxel_num mp) * iy (map_voxel_num mp) * iz (map_voxel_num mp)"

definition boundIndex :: "mapping_parameters \<Rightarrow> vec3i \<Rightarrow> vec3i" where
  "boundIndex mp vox =
     Vec3i (max (min (ix vox) (ix (map_voxel_num mp) - 1)) 0)
           (max (min (iy vox) (iy (map_voxel_num mp) - 1)) 0)
           (max (min (iz vox) (iz (map_voxel_num mp) - 1)) 0)"

text \<open>The two versions of \<open>isInMap\<close>, for a position and for an index.\<close>

definition isInMap :: "mapping_parameters \<Rightarrow> vec3 \<Rightarrow> bool" where
  "isInMap mp pos =
     (if vx pos < vx (map_min_boundary mp) + 1 / 10000 \<or> vy pos < vy (map_min_boundary mp) + 1 / 10000 \<or>
         vz pos < vz (map_min_boundary mp) + 1 / 10000 then False
      else if vx pos > vx (map_max_boundary mp) - 1 / 10000 \<or> vy pos > vy (map_max_boundary mp) - 1 / 10000 \<or>
         vz pos > vz (map_max_boundary mp) - 1 / 10000 then False
      else True)"

definition isInMap_idx :: "mapping_parameters \<Rightarrow> vec3i \<Rightarrow> bool" where
  "isInMap_idx mp idx =
     (if ix idx < 0 \<or> iy idx < 0 \<or> iz idx < 0 then False
      else if ix idx > ix (map_voxel_num mp) - 1 \<or> iy idx > iy (map_voxel_num mp) - 1 \<or>
         iz idx > iz (map_voxel_num mp) - 1 then False
      else True)"

section \<open>Queries\<close>

definition isUnknown :: "mapping_parameters \<Rightarrow> mapping_data \<Rightarrow> vec3i \<Rightarrow> cpp_error + bool" where
  "isUnknown mp md vox =
     bind_result (fetch_at (occupancy_buffer md) (toAddress mp (boundIndex mp vox)))
       (\<lambda>odds. Inr (odds < clamp_min_log mp - 1 / 1000))"

definition isKnownFree :: "mapping_parameters \<Rightarrow> mapping_data \<Rightarrow> vec3i \<Rightarrow> cpp_error + bool" where
  "isKnownFree mp md vox =
     (let adr = toAddress mp (boundIndex mp vox) in
      bind_result (fetch_at (occupancy_buffer md) adr) (\<lambda>odds.
      bind_result (fetch_at (occupancy_buffer_inflate md) adr) (\<lambda>f. Inr (odds \<ge> clamp_min_log mp \<and> f = 0))))"

definition isKnownOccupied :: "mapping_parameters \<Rightarrow> mapping_data \<Rightarrow> vec3i \<Rightarrow> cpp_error + bool" where
  "isKnownOccupied mp md vox =
     bind_result (fetch_at (occupancy_buffer_inflate md) (toAddress mp (boundIndex mp vox))) (\<lambda>f. Inr (f = 1))"

definition getOccupancy :: "mapping_parameters \<Rightarrow> mapping_data \<Rightarrow> vec3 \<Rightarrow> cpp_error + int" where
  "getOccupancy mp md pos =
     (if \<not> isInMap mp pos then Inr (- 1)
      else bind_result (fetch_at (occupancy_buffer md) (toAddress mp (posToIndex mp pos)))
             (\<lambda>odds. Inr (if odds > min_occupancy_log mp then 1 else 0)))"

definition getOccupancy_idx :: "mapping_parameters \<Rightarrow> mapping_data \<Rightarrow> vec3i \<Rightarrow> cpp_error + int" where
  "getOccupancy_idx mp md vox =
     (if ix vox < 0 \<or> ix vox \<ge> ix (map_voxel_num mp) \<or> iy vox < 0 \<or> iy vox \<ge> iy (map_voxel_num mp) \<or>
         iz vox < 0 \<or> iz vox \<ge> iz (map_voxel_num mp) then Inr (- 1)
      else bind_result (fetch_at (occupancy_buffer md) (toAddress mp vox))
             (\<lambda>odds. Inr (if odds > min_occupancy_log mp then 1 else 0)))"

definition getInflateOccupancy :: "mapping_parameters \<Rightarrow> mapping_data \<Rightarrow> vec3 \<Rightarrow> cpp_error + int" where
  "getInflateOccupancy mp md pos =
     (if \<not> isInMap mp pos then Inr (- 1)
      else fetch_at (occupancy_buffer_inflate md) (toAddress mp (posToIndex mp pos)))"

definition setOccupied :: "mapping_parameters \<Rightarrow> vec3 \<Rightarrow> mapping_data \<Rightarrow> cpp_error + mapping_data" where
  "setOccupied mp pos md =
     (if \<not> isInMap mp pos then Inr md
      else bind_result (store_at 1 (occupancy_buffer_inflate md) (toAddress mp (posToIndex mp pos)))
             (\<lambda>b. Inr (md\<lparr>occupancy_buffer_inflate := b\<rparr>)))"

definition setOccupancy :: "mapping_parameters \<Rightarrow> vec3 \<Rightarrow> real \<Rightarrow> mapping_data \<Rightarrow> cpp_error + mapping_data" where
  "setOccupancy mp pos occ md =
     (if occ \<noteq> 1 \<and> occ \<noteq> 0 then Inr md
      else if \<not> isInMap mp pos then Inr md
      else bind_result (store_at occ (occupancy_buffer md) (toAddress mp (posToIndex mp pos)))
             (\<lambda>b. Inr (md\<lparr>occupancy_buffer := b\<rparr>)))"

section \<open>Construction\<close>

text \<open>The parameter server, and \<open>param\<close> with its default.\<close>

record node_handle =
  real_param :: "string \<Rightarrow> real option"
  int_param :: "string \<Rightarrow> int option"
  bool_param :: "string \<Rightarrow> bool option"

definition param_real :: "node_handle \<Rightarrow> string \<Rightarrow> real \<Rightarrow> real" where
  "param_real nh name d = (case real_param nh (''grid_map/'' @ name) of None \<Rightarrow> d | Some v \<Rightarrow> v)"

definition param_int :: "node_handle \<Rightarrow> string \<Rightarrow> int \<Rightarrow> int" where
  "param_int nh name d = (case int_param nh (''grid_map/'' @ name) of None \<Rightarrow> d | Some v \<Rightarrow> v)"

definition param_bool :: "node_handle \<Rightarrow> string \<Rightarrow> bool \<Rightarrow> bool" where
  "param_bool nh name d = (case bool_param nh (''grid_map/'' @ name) of None \<Rightarrow> d | Some v \<Rightarrow> v)"

text \<open>The macro \<open>logit\<close>; a probability of zero or one gives an infinity, which is not modelled.\<close>

definition logit :: "real \<Rightarrow> real" where
  "logit p = ln (p / (1 - p))"

definition init_parameters :: "node_handle \<Rightarrow> cpp_error + mapping_parameters" where
  "init_parameters nh =
     (let res = param_real nh ''resolution'' (- 1);
          x_size = param_real nh ''map_size_x'' (- 1);
          y_size = param_real nh ''map_size_y'' (- 1);
          z_size = param_real nh ''map_size_z'' (- 1);
          ground = param_real nh ''ground_height'' 1;
          origin = Vec3 (- x_size / 2) (- y_size / 2) ground;
          msize = Vec3 x_size y_size z_size
      in bind_result (fdiv 1 res) (\<lambda>inv.
         Inr \<lparr>map_origin = origin, map_size = msize, map_min_boundary = origin, map_max_boundary = vadd origin msize,
              map_voxel_num = Vec3i \<lceil>x_size / res\<rceil> \<lceil>y_size / res\<rceil> \<lceil>z_size / res\<rceil>,
              local_update_range = Vec3 (param_real nh ''local_update_range_x'' (- 1))
                (param_real nh ''local_update_range_y'' (- 1)) (param_real nh ''local_update_range_z'' (- 1)),
              resolution = res, resolution_inv = inv, obstacles_inflation = param_real nh ''obstacles_inflation'' (- 1),
              pose_type = param_int nh ''pose_type'' 1,
              cam_cx = param_real nh ''cx'' (- 1), cam_cy = param_real nh ''cy'' (- 1),
              cam_fx = param_real nh ''fx'' (- 1), cam_fy = param_real nh ''fy'' (- 1),
              odom_depth_timeout = param_real nh ''odom_depth_timeout'' 1,
              depth_filter_maxdist = param_real nh ''depth_filter_maxdist'' (- 1),
              depth_filter_mindist = param_real nh ''depth_filter_mindist'' (- 1),
              depth_filter_margin = param_int nh ''depth_filter_margin'' (- 1),
              use_depth_filter = param_bool nh ''use_depth_filter'' True,
              k_depth_scaling_factor = param_real nh ''k_depth_scaling_factor'' (- 1),
              skip_pixel = param_int nh ''skip_pixel'' (- 1),
              prob_hit_log = logit (param_real nh ''p_hit'' (70 / 100)),
              prob_miss_log = logit (param_real nh ''p_miss'' (35 / 100)),
              clamp_min_log = logit (param_real nh ''p_min'' (12 / 100)),
              clamp_max_log = logit (param_real nh ''p_max'' (97 / 100)),
              min_occupancy_log = logit (param_real nh ''p_occ'' (80 / 100)),
              max_ray_length = param_real nh ''max_ray_length'' (- 1 / 10),
              local_map_margin = param_int nh ''local_map_margin'' 1,
              visualization_truncate_height = param_real nh ''visualization_truncate_height'' (- 1 / 10),
              ground_height = ground, unknown_flag = 1 / 100\<rparr>))"

text \<open>The division of two \<open>int\<close>: rounded towards zero.\<close>

definition int_div :: "int \<Rightarrow> int \<Rightarrow> cpp_error + int" where
  "int_div a b = (if b = 0 then Inl DivideByZero else Inr (sgn a * sgn b * (\<bar>a\<bar> div \<bar>b\<bar>)))"

definition initMap :: "node_handle \<Rightarrow> mapping_data \<Rightarrow> cpp_error + mapping_parameters \<times> mapping_data" where
  "initMap nh fresh =
     bind_result (init_parameters nh) (\<lambda>mp.
       let n = nat (buffer_size mp) in
       if buffer_size mp < 0 then Inl LengthError
       else bind_result (int_div (640 * 480) (skip_pixel mp)) (\<lambda>q.
            bind_result (int_div q (skip_pixel mp)) (\<lambda>capacity.
            Inr (mp, fresh\<lparr>
              occupancy_buffer := replicate n (clamp_min_log mp - unknown_flag mp),
              occupancy_buffer_inflate := replicate n 0,
              count_hit_and_miss := replicate n 0, count_hit := replicate n 0,
              flag_rayend := replicate n (- 1), flag_traverse := replicate n (- 1),
              raycast_num := 0, proj_points := [], proj_capacity := capacity, cache_voxel := [],
              cam2body := (Mat3 (Vec3 0 0 1) (Vec3 (- 1) 0 0) (Vec3 0 (- 1) 0), Vec3 (142 / 1000) (45 / 1000) 0),
              occ_need_update := False, local_updated := False, has_first_depth := False, has_odom := False,
              has_cloud := False, last_occ_update_time := 0, update_num := 0,
              flag_depth_odom_timeout := False, flag_use_depth_fusion := False\<rparr>))))"

section \<open>Clearing\<close>

definition resetBuffer_range :: "mapping_parameters \<Rightarrow> vec3 \<Rightarrow> vec3 \<Rightarrow> mapping_data \<Rightarrow> cpp_error + mapping_data" where
  "resetBuffer_range mp min_pos max_pos md =
     (let min_id = boundIndex mp (posToIndex mp min_pos); max_id = boundIndex mp (posToIndex mp max_pos)
      in bind_result (filled 0 (map (toAddress mp) (box min_id max_id)) (occupancy_buffer_inflate md))
           (\<lambda>b. Inr (md\<lparr>occupancy_buffer_inflate := b\<rparr>)))"

definition resetBuffer :: "mapping_parameters \<Rightarrow> mapping_data \<Rightarrow> cpp_error + mapping_data" where
  "resetBuffer mp md =
     bind_result (resetBuffer_range mp (map_min_boundary mp) (map_max_boundary mp) md) (\<lambda>md1.
       Inr (md1\<lparr>local_bound_min := icube 0, local_bound_max := isub (map_voxel_num mp) (icube 1)\<rparr>))"

end
