(* ===== verification/GridUpdate.thy ===== *)
theory GridUpdate
  imports GridMap
begin

text \<open>
  The updates of the map (\<open>grid_map.cpp\<close>): the projection of a depth image, the rays from its points
  to the camera, the fusion of the hits and misses into the log-odds of the voxels, the inflation of
  the obstacles, the cloud that bypasses all of this, and the callbacks.
\<close>

section \<open>Marking a voxel\<close>

definition INVALID_IDX :: int where
  "INVALID_IDX = - 10000"

definition setCacheOccupancy ::
    "mapping_parameters \<Rightarrow> vec3 \<Rightarrow> int \<Rightarrow> mapping_data \<Rightarrow> cpp_error + int \<times> mapping_data" where
  "setCacheOccupancy mp pos occ md =
     (if occ \<noteq> 1 \<and> occ \<noteq> 0 then Inr (INVALID_IDX, md)
      else let vox = posToIndex mp pos; adr = toAddress mp vox
           in bind_result (fetch_at (count_hit_and_miss md) adr) (\<lambda>n.
              bind_result (store_at (n + 1) (count_hit_and_miss md) adr) (\<lambda>chm.
              let md1 = md\<lparr>count_hit_and_miss := chm,
                           cache_voxel := (if n + 1 = 1 then cache_voxel md @ [vox] else cache_voxel md)\<rparr>
              in if occ = 1
                 then bind_result (fetch_at (count_hit md1) adr) (\<lambda>h.
                      bind_result (store_at (h + 1) (count_hit md1) adr) (\<lambda>ch.
                      Inr (adr, md1\<lparr>count_hit := ch\<rparr>)))
                 else Inr (adr, md1))))"

section \<open>The depth image\<close>

text \<open>
  The values of the loop variable of \<open>for (i = lo; i < hi; i += s)\<close>; with a step that is not
  positive the loop does not end.
\<close>

definition strides :: "int \<Rightarrow> int \<Rightarrow> int \<Rightarrow> cpp_error + int list" where
  "strides lo hi s =
     (if lo \<ge> hi then Inr []
      else if s \<le> 0 then Inl Hangs
      else Inr (map (\<lambda>k. lo + int k * s) [0..<nat ((hi - lo + s - 1) div s)]))"

definition pinhole :: "mapping_parameters \<Rightarrow> int \<Rightarrow> int \<Rightarrow> real \<Rightarrow> cpp_error + vec3" where
  "pinhole mp u v depth =
     bind_result (fdiv ((of_int u - cam_cx mp) * depth) (cam_fx mp)) (\<lambda>x.
     bind_result (fdiv ((of_int v - cam_cy mp) * depth) (cam_fy mp)) (\<lambda>y. Inr (Vec3 x y depth)))"

definition push_point :: "vec3 \<Rightarrow> mapping_data \<Rightarrow> cpp_error + mapping_data" where
  "push_point p md =
     (if int (length (proj_points md)) < proj_capacity md then Inr (md\<lparr>proj_points := proj_points md @ [p]\<rparr>)
      else Inl OutOfBounds)"

definition to_world :: "mapping_data \<Rightarrow> vec3 \<Rightarrow> vec3" where
  "to_world md p = vadd (mat_vec (camera_r_m md) p) (camera_pos md)"

text \<open>A pixel without the filter; \<open>k\<close> is the number of pixels of the row read before it.\<close>

definition plain_pixel :: "mapping_parameters \<Rightarrow> int \<Rightarrow> int \<times> nat \<Rightarrow> mapping_data \<Rightarrow> cpp_error + mapping_data" where
  "plain_pixel mp v uk md =
     bind_result (fetch_at (pixels (depth_image md)) (v * img_cols (depth_image md) + int (snd uk))) (\<lambda>w.
     bind_result (fdiv (real (unat w)) (k_depth_scaling_factor mp)) (\<lambda>depth.
     bind_result (pinhole mp (fst uk) v depth) (\<lambda>p. push_point (to_world md p) md)))"

text \<open>
  A pixel with the filter: \<open>row_ptr\<close> has moved on to the next pixel of the row when it is tested
  for zero.  The comparison with the previous image is switched off in the code.
\<close>

definition filtered_pixel :: "mapping_parameters \<Rightarrow> int \<Rightarrow> int \<Rightarrow> mapping_data \<Rightarrow> cpp_error + mapping_data" where
  "filtered_pixel mp v u md =
     (let adr = v * img_cols (depth_image md) + u in
      bind_result (fdiv 1 (k_depth_scaling_factor mp)) (\<lambda>inv_factor.
      bind_result (fetch_at (pixels (depth_image md)) adr) (\<lambda>w.
      bind_result (fetch_at (pixels (depth_image md)) (adr + skip_pixel mp)) (\<lambda>w'.
        let depth = real (unat w) * inv_factor;
            use = (\<lambda>d. bind_result (pinhole mp u v d) (\<lambda>p. push_point (to_world md p) md))
        in if w' = 0 then use (max_ray_length mp + 1 / 10)
           else if depth < depth_filter_mindist mp then Inr md
           else if depth > depth_filter_maxdist mp then use (max_ray_length mp + 1 / 10)
           else use depth))))"

definition project_pixels :: "mapping_parameters \<Rightarrow> mapping_data \<Rightarrow> cpp_error + mapping_data" where
  "project_pixels mp md =
     (let rows = img_rows (depth_image md); cols = img_cols (depth_image md); m = depth_filter_margin mp
      in if \<not> use_depth_filter mp then
           bind_result (strides 0 rows (skip_pixel mp)) (\<lambda>vs.
             fold_result (\<lambda>v s. bind_result (strides 0 cols (skip_pixel mp)) (\<lambda>us.
               fold_result (plain_pixel mp v) (zip us [0..<length us]) s)) vs md)
         else if \<not> has_first_depth md then Inr (md\<lparr>has_first_depth := True\<rparr>)
         else
           bind_result (strides m (rows - m) (skip_pixel mp)) (\<lambda>vs.
             fold_result (\<lambda>v s. bind_result (strides m (cols - m) (skip_pixel mp)) (\<lambda>us.
               fold_result (filtered_pixel mp v) us s)) vs md))"

definition projectDepthImage :: "mapping_parameters \<Rightarrow> mapping_data \<Rightarrow> cpp_error + mapping_data" where
  "projectDepthImage mp md =
     bind_result (project_pixels mp (md\<lparr>proj_points := []\<rparr>)) (\<lambda>s.
       Inr (s\<lparr>last_camera_pos := camera_pos s, last_camera_r_m := camera_r_m s, last_depth_image := depth_image s\<rparr>))"

section \<open>Rays\<close>

text \<open>The parameter at which the line from the camera leaves the map along one axis, if it is smaller.\<close>

definition exit_time :: "real \<Rightarrow> real \<Rightarrow> real \<Rightarrow> real \<Rightarrow> real" where
  "exit_time diff max_tc min_tc min_t =
     (if \<bar>diff\<bar> > 0
      then let t1 = max_tc / diff; m1 = (if t1 > 0 \<and> t1 < min_t then t1 else min_t); t2 = min_tc / diff
           in if t2 > 0 \<and> t2 < m1 then t2 else m1
      else min_t)"

definition exit_param :: "mapping_parameters \<Rightarrow> vec3 \<Rightarrow> vec3 \<Rightarrow> real" where
  "exit_param mp pt camera_pt =
     (let diff = vsub pt camera_pt; hi = vsub (map_max_boundary mp) camera_pt; lo = vsub (map_min_boundary mp) camera_pt
      in exit_time (vz diff) (vz hi) (vz lo) (exit_time (vy diff) (vy hi) (vy lo)
           (exit_time (vx diff) (vx hi) (vx lo) 1000000)))"

definition closetPointInMap :: "mapping_parameters \<Rightarrow> vec3 \<Rightarrow> vec3 \<Rightarrow> vec3" where
  "closetPointInMap mp pt camera_pt =
     vadd camera_pt (vscale (exit_param mp pt camera_pt - 1 / 1000) (vsub pt camera_pt))"

text \<open>The end of a ray, cut to the longest ray, and whether it is a hit.\<close>

definition ray_end :: "mapping_parameters \<Rightarrow> mapping_data \<Rightarrow> vec3 \<Rightarrow> cpp_error + vec3 \<times> int" where
  "ray_end mp md p =
     (let cam = camera_pos md;
          q = (if isInMap mp p then p else closetPointInMap mp p cam);
          len = vnorm (vsub q cam)
      in if len > max_ray_length mp
         then bind_result (fdiv (max_ray_length mp) len) (\<lambda>k. Inr (vadd (vscale k (vsub q cam)) cam, 0))
         else Inr (q, if isInMap mp p then 1 else 0))"

text \<open>
  The loop over the voxels of a ray, until it meets a voxel that another ray of this round went
  through.  The fuel is the number of steps the caster can take.
\<close>

fun trace_ray :: "nat \<Rightarrow> mapping_parameters \<Rightarrow> raycaster \<Rightarrow> mapping_data \<Rightarrow> cpp_error + mapping_data" where
  "trace_ray 0 mp r md = Inl Hangs"
| "trace_ray (Suc n) mp r md =
     (case ray_step r of (pt, goes_on, r') \<Rightarrow>
        if \<not> goes_on then Inr md
        else bind_result (setCacheOccupancy mp (vscale (resolution mp) (vadd (real_vec pt) (vcube (1/2)))) 0 md) (\<lambda>(idx, md1).
          if idx \<noteq> INVALID_IDX
          then bind_result (fetch_at (flag_traverse md1) idx) (\<lambda>f.
                 if f = raycast_num md1 then Inr md1
                 else bind_result (store_at (raycast_num md1) (flag_traverse md1) idx) (\<lambda>fl.
                        trace_ray n mp r' (md1\<lparr>flag_traverse := fl\<rparr>)))
          else trace_ray n mp r' md1))"

definition ray_fuel :: "raycaster \<Rightarrow> nat" where
  "ray_fuel r = Suc (manhattan (cell r) (end_cell r))"

definition vmin :: "vec3 \<Rightarrow> vec3 \<Rightarrow> vec3" where
  "vmin a b = Vec3 (min (vx a) (vx b)) (min (vy a) (vy b)) (min (vz a) (vz b))"

definition vmax :: "vec3 \<Rightarrow> vec3 \<Rightarrow> vec3" where
  "vmax a b = Vec3 (max (vx a) (vx b)) (max (vy a) (vy b)) (max (vz a) (vz b))"

text \<open>The body of the loop over the points; the state is the map and the box of the updated region.\<close>

definition cast_point ::
    "mapping_parameters \<Rightarrow> vec3 \<Rightarrow> mapping_data \<times> vec3 \<times> vec3 \<Rightarrow> cpp_error + mapping_data \<times> vec3 \<times> vec3" where
  "cast_point mp p st =
     (case st of (md, lo, hi) \<Rightarrow>
        bind_result (ray_end mp md p) (\<lambda>(pt_w, occ).
        bind_result (setCacheOccupancy mp pt_w occ md) (\<lambda>(idx, md1).
          let lo' = vmin lo pt_w; hi' = vmax hi pt_w; k = 1 / resolution mp;
              r = snd (setInput (vscale k pt_w) (vscale k (camera_pos md1)));
              trace = (\<lambda>md2. bind_result (trace_ray (ray_fuel r) mp r md2) (\<lambda>md3. Inr (md3, lo', hi')))
          in if idx \<noteq> INVALID_IDX
             then bind_result (fetch_at (flag_rayend md1) idx) (\<lambda>f.
                    if f = raycast_num md1 then Inr (md1, lo', hi')
                    else bind_result (store_at (raycast_num md1) (flag_rayend md1) idx)
                           (\<lambda>fl. trace (md1\<lparr>flag_rayend := fl\<rparr>)))
             else trace md1)))"

section \<open>Fusion\<close>

text \<open>
  One entry of the queue: the votes since the last update decide, and the log-odds are kept between
  the two clamps.  The comparison is done in \<open>int\<close>, on the signed 16-bit counters.
\<close>

definition in_box :: "vec3i \<Rightarrow> vec3i \<Rightarrow> vec3i \<Rightarrow> bool" where
  "in_box lo hi c \<longleftrightarrow> ix c \<ge> ix lo \<and> ix c \<le> ix hi \<and> iy c \<ge> iy lo \<and> iy c \<le> iy hi \<and> iz c \<ge> iz lo \<and> iz c \<le> iz hi"

definition fused :: "mapping_parameters \<Rightarrow> bool \<Rightarrow> real \<Rightarrow> real \<Rightarrow> real" where
  "fused mp in_local upd odds =
     (if upd \<ge> 0 \<and> odds \<ge> clamp_max_log mp then odds
      else if upd \<le> 0 \<and> odds \<le> clamp_min_log mp then clamp_min_log mp
      else min (max ((if in_local then odds else clamp_min_log mp) + upd) (clamp_min_log mp)) (clamp_max_log mp))"

definition fuse_voxel :: "mapping_parameters \<Rightarrow> vec3i \<Rightarrow> vec3i \<Rightarrow> vec3i \<Rightarrow> mapping_data \<Rightarrow> cpp_error + mapping_data" where
  "fuse_voxel mp min_id max_id idx md =
     (let adr = toAddress mp idx in
      bind_result (fetch_at (count_hit md) adr) (\<lambda>h.
      bind_result (fetch_at (count_hit_and_miss md) adr) (\<lambda>n.
      bind_result (store_at 0 (count_hit md) adr) (\<lambda>ch.
      bind_result (store_at 0 (count_hit_and_miss md) adr) (\<lambda>chm.
      bind_result (fetch_at (occupancy_buffer md) adr) (\<lambda>odds.
      bind_result (store_at (fused mp (in_box min_id max_id idx)
                     (if sint h \<ge> sint n - sint h then prob_hit_log mp else prob_miss_log mp) odds)
                   (occupancy_buffer md) adr) (\<lambda>b.
        Inr (md\<lparr>count_hit := ch, count_hit_and_miss := chm, occupancy_buffer := b\<rparr>))))))))"

text \<open>The region of the update, the box grown by the camera and the ground; \<open>cloudCallback\<close> ends with the same lines.\<close>

definition update_region :: "mapping_parameters \<Rightarrow> vec3 \<Rightarrow> vec3 \<Rightarrow> mapping_data \<Rightarrow> mapping_data" where
  "update_region mp lo hi md =
     (let cam = camera_pos md; lo' = vmin lo cam; hi1 = vmax hi cam;
          hi' = Vec3 (vx hi1) (vy hi1) (max (vz hi1) (ground_height mp))
      in md\<lparr>local_bound_max := boundIndex mp (posToIndex mp hi'), local_bound_min := boundIndex mp (posToIndex mp lo')\<rparr>)"

definition fuse_cache :: "mapping_parameters \<Rightarrow> mapping_data \<Rightarrow> cpp_error + mapping_data" where
  "fuse_cache mp md =
     (let min_id = boundIndex mp (posToIndex mp (vsub (camera_pos md) (local_update_range mp)));
          max_id = boundIndex mp (posToIndex mp (vadd (camera_pos md) (local_update_range mp)))
      in bind_result (fold_result (fuse_voxel mp min_id max_id) (cache_voxel md) md) (\<lambda>s. Inr (s\<lparr>cache_voxel := []\<rparr>)))"

definition raycastProcess :: "mapping_parameters \<Rightarrow> mapping_data \<Rightarrow> cpp_error + mapping_data" where
  "raycastProcess mp md =
     (if proj_points md = [] then Inr md
      else bind_result (fold_result (cast_point mp) (proj_points md)
             (md\<lparr>raycast_num := raycast_num md + 1\<rparr>, map_max_boundary mp, map_min_boundary mp))
          (\<lambda>(md1, lo, hi). fuse_cache mp ((update_region mp lo hi md1)\<lparr>local_updated := True\<rparr>)))"

section \<open>Inflation\<close>

text \<open>The voxels of the shell around the local map, in the order of the three pairs of loops.\<close>

definition shell :: "vec3i \<Rightarrow> vec3i \<Rightarrow> vec3i \<Rightarrow> vec3i \<Rightarrow> vec3i list" where
  "shell lo hi mlo mhi =
     concat (map (\<lambda>x. concat (map (\<lambda>y. map (\<lambda>z. Vec3i x y z) ([iz mlo..iz lo - 1] @ [iz hi + 1..iz mhi]))
       [iy mlo..iy mhi])) [ix mlo..ix mhi])
   @ concat (map (\<lambda>z. concat (map (\<lambda>x. map (\<lambda>y. Vec3i x y z) ([iy mlo..iy lo - 1] @ [iy hi + 1..iy mhi]))
       [ix mlo..ix mhi])) [iz mlo..iz mhi])
   @ concat (map (\<lambda>y. concat (map (\<lambda>z. map (\<lambda>x. Vec3i x y z) ([ix mlo..ix lo - 1] @ [ix hi + 1..ix mhi]))
       [iz mlo..iz mhi])) [iy mlo..iy mhi])"

definition inflatePoint :: "vec3i \<Rightarrow> int \<Rightarrow> vec3i list" where
  "inflatePoint pt step = box (isub pt (icube step)) (iadd pt (icube step))"

text \<open>The store of an inflated voxel is guarded by its address alone.\<close>

definition inflate_at :: "mapping_parameters \<Rightarrow> vec3i \<Rightarrow> int list \<Rightarrow> cpp_error + int list" where
  "inflate_at mp inf_pt b =
     (let idx_inf = toAddress mp inf_pt
      in if idx_inf < 0 \<or> idx_inf \<ge> buffer_size mp then Inr b else store_at 1 b idx_inf)"

definition inflate_voxel ::
    "mapping_parameters \<Rightarrow> real list \<Rightarrow> int \<Rightarrow> vec3i \<Rightarrow> int list \<Rightarrow> cpp_error + int list" where
  "inflate_voxel mp occ inf_step c b =
     bind_result (fetch_at occ (toAddress mp c)) (\<lambda>odds.
       if odds > min_occupancy_log mp then fold_result (inflate_at mp) (inflatePoint c inf_step) b else Inr b)"

definition inf_step :: "mapping_parameters \<Rightarrow> int" where
  "inf_step mp = \<lceil>obstacles_inflation mp / resolution mp\<rceil>"

definition clearAndInflateLocalMap :: "mapping_parameters \<Rightarrow> mapping_data \<Rightarrow> cpp_error + mapping_data" where
  "clearAndInflateLocalMap mp md =
     (let margin = icube (local_map_margin mp);
          min_cut = boundIndex mp (isub (local_bound_min md) margin);
          max_cut = boundIndex mp (iadd (local_bound_max md) margin);
          min_cut_m = boundIndex mp (isub min_cut (icube 5));
          max_cut_m = boundIndex mp (iadd max_cut (icube 5));
          local_box = box (local_bound_min md) (local_bound_max md)
      in bind_result (filled (clamp_min_log mp - unknown_flag mp)
                        (map (toAddress mp) (shell min_cut max_cut min_cut_m max_cut_m)) (occupancy_buffer md)) (\<lambda>occ.
         if inf_step mp < 0 then Inl LengthError
         else bind_result (filled 0 (map (toAddress mp) local_box) (occupancy_buffer_inflate md)) (\<lambda>b0.
              bind_result (fold_result (inflate_voxel mp occ (inf_step mp)) local_box b0) (\<lambda>b.
                Inr (md\<lparr>occupancy_buffer := occ, occupancy_buffer_inflate := b\<rparr>)))))"

section \<open>Callbacks\<close>

text \<open>\<open>updateOccupancyCallback\<close>; \<open>now k\<close> is the clock at its \<open>k\<close>th reading.\<close>

definition updateOccupancyCallback ::
    "mapping_parameters \<Rightarrow> (nat \<Rightarrow> real) \<Rightarrow> mapping_data \<Rightarrow> cpp_error + mapping_data" where
  "updateOccupancyCallback mp now md0 =
     (let md = (if last_occ_update_time md0 < 1 then md0\<lparr>last_occ_update_time := now 0\<rparr> else md0)
      in if \<not> occ_need_update md
         then Inr (if flag_use_depth_fusion md \<and> now 1 - last_occ_update_time md > odom_depth_timeout mp
                   then md\<lparr>flag_depth_odom_timeout := True\<rparr> else md)
         else bind_result (projectDepthImage mp (md\<lparr>last_occ_update_time := now 1\<rparr>)) (\<lambda>md1.
              bind_result (raycastProcess mp md1) (\<lambda>md2.
              bind_result (if local_updated md2 then clearAndInflateLocalMap mp md2 else Inr md2) (\<lambda>md3.
                Inr (md3\<lparr>occ_need_update := False, local_updated := False\<rparr>)))))"

definition depthPoseCallback ::
    "mapping_parameters \<Rightarrow> depth_picture \<Rightarrow> vec3 \<Rightarrow> real \<times> real \<times> real \<times> real \<Rightarrow> mapping_data \<Rightarrow> mapping_data" where
  "depthPoseCallback mp img pos q md =
     (case q of (w, x, y, z) \<Rightarrow>
        let md1 = md\<lparr>depth_image := img, camera_pos := pos, camera_r_m := toRotationMatrix w x y z\<rparr>;
            md2 = (if isInMap mp (camera_pos md1)
                   then md1\<lparr>has_odom := True, update_num := update_num md1 + 1, occ_need_update := True\<rparr>
                   else md1\<lparr>occ_need_update := False\<rparr>)
        in md2\<lparr>flag_use_depth_fusion := True\<rparr>)"

text \<open>\<open>depthOdomCallback\<close>: the pose of the camera is composed from the body's and the camera's in the body.\<close>

definition depthOdomCallback ::
    "depth_picture \<Rightarrow> vec3 \<Rightarrow> real \<times> real \<times> real \<times> real \<Rightarrow> mapping_data \<Rightarrow> mapping_data" where
  "depthOdomCallback img pos q md =
     (case q of (w, x, y, z) \<Rightarrow>
        let body_r = toRotationMatrix w x y z
        in md\<lparr>camera_pos := vadd (mat_vec body_r (snd (cam2body md))) pos,
              camera_r_m := mat_mul body_r (fst (cam2body md)), depth_image := img,
              occ_need_update := True, flag_use_depth_fusion := True\<rparr>)"

definition extrinsicCallback :: "vec3 \<Rightarrow> real \<times> real \<times> real \<times> real \<Rightarrow> mapping_data \<Rightarrow> mapping_data" where
  "extrinsicCallback pos q md = (case q of (w, x, y, z) \<Rightarrow> md\<lparr>cam2body := (toRotationMatrix w x y z, pos)\<rparr>)"

definition odomCallback_grid :: "vec3 \<Rightarrow> mapping_data \<Rightarrow> mapping_data" where
  "odomCallback_grid pos md = (if has_first_depth md then md else md\<lparr>camera_pos := pos, has_odom := True\<rparr>)"

text \<open>\<open>cloudCallback\<close>: an inflated point of the cloud, and the loop over the points.\<close>

definition cloud_store ::
    "mapping_parameters \<Rightarrow> vec3 \<Rightarrow> vec3i \<Rightarrow> int list \<times> vec3 \<times> vec3 \<Rightarrow> cpp_error + int list \<times> vec3 \<times> vec3" where
  "cloud_store mp pt d st =
     (case st of (b, lo, hi) \<Rightarrow>
        let p3d_inf = vadd pt (vscale (resolution mp) (real_vec d)); inf_pt = posToIndex mp p3d_inf;
            lo' = vmin lo p3d_inf; hi' = vmax hi p3d_inf
        in if \<not> isInMap_idx mp inf_pt then Inr (b, lo', hi')
           else bind_result (store_at 1 b (toAddress mp inf_pt)) (\<lambda>b'. Inr (b', lo', hi')))"

definition cloud_point ::
    "mapping_parameters \<Rightarrow> vec3 \<Rightarrow> vec3 \<Rightarrow> int list \<times> vec3 \<times> vec3 \<Rightarrow> cpp_error + int list \<times> vec3 \<times> vec3" where
  "cloud_point mp cam pt st =
     (let devi = vsub pt cam; range = local_update_range mp; s = inf_step mp
      in if \<bar>vx devi\<bar> < vx range \<and> \<bar>vy devi\<bar> < vy range \<and> \<bar>vz devi\<bar> < vz range
         then fold_result (cloud_store mp pt) (box (Vec3i (- s) (- s) (- 1)) (Vec3i s s 1)) st
         else Inr st)"

text \<open>The test whether the camera position is a number is left out: a \<open>double\<close> is a real here.\<close>

definition cloudCallback :: "mapping_parameters \<Rightarrow> vec3 list \<Rightarrow> mapping_data \<Rightarrow> cpp_error + mapping_data" where
  "cloudCallback mp latest_cloud md0 =
     (let md = md0\<lparr>has_cloud := True\<rparr>; cam = camera_pos md
      in if \<not> has_odom md then Inr md
         else if latest_cloud = [] then Inr md
         else bind_result (resetBuffer_range mp (vsub cam (local_update_range mp)) (vadd cam (local_update_range mp)) md) (\<lambda>md1.
              bind_result (fold_result (cloud_point mp cam) latest_cloud
                             (occupancy_buffer_inflate md1, map_max_boundary mp, map_min_boundary mp)) (\<lambda>(b, lo, hi).
                Inr (update_region mp lo hi (md1\<lparr>occupancy_buffer_inflate := b\<rparr>)))))"

section \<open>The published clouds\<close>

text \<open>The voxels of a box that pass a test, as the points of a cloud.\<close>

fun cloud_of :: "mapping_parameters \<Rightarrow> (int \<Rightarrow> cpp_error + bool) \<Rightarrow> vec3i list \<Rightarrow> cpp_error + vec3 list" where
  "cloud_of mp shown [] = Inr []"
| "cloud_of mp shown (c # cs) =
     bind_result (shown (toAddress mp c)) (\<lambda>yes.
     bind_result (cloud_of mp shown cs) (\<lambda>ps.
       Inr (if yes \<and> \<not> vz (indexToPos mp c) > visualization_truncate_height mp then indexToPos mp c # ps else ps)))"

definition cut_box :: "mapping_parameters \<Rightarrow> int \<Rightarrow> mapping_data \<Rightarrow> vec3i list" where
  "cut_box mp lmm md =
     box (boundIndex mp (isub (local_bound_min md) (icube lmm))) (boundIndex mp (iadd (local_bound_max md) (icube lmm)))"

text \<open>The cloud that goes out; \<open>None\<close> when nobody listens.\<close>

definition publishMap :: "mapping_parameters \<Rightarrow> nat \<Rightarrow> mapping_data \<Rightarrow> cpp_error + vec3 list option" where
  "publishMap mp subscribers md =
     (if subscribers = 0 then Inr None
      else bind_result (int_div (local_map_margin mp) 2) (\<lambda>lmm.
           bind_result (cloud_of mp (\<lambda>adr. bind_result (fetch_at (occupancy_buffer md) adr)
                          (\<lambda>odds. Inr (\<not> odds < min_occupancy_log mp))) (cut_box mp lmm md)) (\<lambda>ps. Inr (Some ps))))"

definition publishMapInflate :: "mapping_parameters \<Rightarrow> nat \<Rightarrow> bool \<Rightarrow> mapping_data \<Rightarrow> cpp_error + vec3 list option" where
  "publishMapInflate mp subscribers all_info md =
     (if subscribers = 0 then Inr None
      else bind_result (cloud_of mp (\<lambda>adr. bind_result (fetch_at (occupancy_buffer_inflate md) adr)
                          (\<lambda>f. Inr (f \<noteq> 0))) (cut_box mp (if all_info then local_map_margin mp else 0) md))
             (\<lambda>ps. Inr (Some ps)))"

section \<open>The node\<close>

datatype grid_event =
    DepthPose depth_picture vec3 "real \<times> real \<times> real \<times> real"
  | DepthOdom depth_picture vec3 "real \<times> real \<times> real \<times> real"
  | Extrinsic vec3 "real \<times> real \<times> real \<times> real"
  | GridOdom vec3
  | Cloud "vec3 list"
  | OccTimer "nat \<Rightarrow> real"
  | VisTimer nat nat

fun grid_handle :: "mapping_parameters \<Rightarrow> grid_event \<Rightarrow> mapping_data \<Rightarrow> cpp_error + mapping_data" where
  "grid_handle mp (DepthPose img pos q) md =
     Inr (if pose_type mp = 1 then depthPoseCallback mp img pos q md else md)"
| "grid_handle mp (DepthOdom img pos q) md =
     Inr (if pose_type mp = 2 then depthOdomCallback img pos q md else md)"
| "grid_handle mp (Extrinsic pos q) md = Inr (extrinsicCallback pos q md)"
| "grid_handle mp (GridOdom pos) md = Inr (odomCallback_grid pos md)"
| "grid_handle mp (Cloud pts) md = cloudCallback mp pts md"
| "grid_handle mp (OccTimer now) md = updateOccupancyCallback mp now md"
| "grid_handle mp (VisTimer inflate_subs subs) md =
     bind_result (publishMapInflate mp inflate_subs True md) (\<lambda>_.
     bind_result (publishMap mp subs md) (\<lambda>_. Inr md))"

end
