(* ===== verification/GridInv.thy ===== *)
theory GridInv
  imports GridUpdate Machine
begin

text \<open>
  What the map relies on: parameters that fit together (\<open>map_params_ok\<close>), addresses that are different
  for different voxels and lie inside the buffers, and the type of the state (\<open>grid_typed\<close>), which
  every operation keeps when it succeeds.
\<close>

section \<open>Parameters and addresses\<close>

definition map_params_ok :: "mapping_parameters \<Rightarrow> bool" where
  "map_params_ok mp \<longleftrightarrow>
     resolution mp > 0 \<and> resolution_inv mp = 1 / resolution mp \<and>
     vx (map_size mp) > 0 \<and> vy (map_size mp) > 0 \<and> vz (map_size mp) > 0 \<and>
     map_voxel_num mp = Vec3i \<lceil>vx (map_size mp) / resolution mp\<rceil> \<lceil>vy (map_size mp) / resolution mp\<rceil>
                              \<lceil>vz (map_size mp) / resolution mp\<rceil> \<and>
     map_min_boundary mp = map_origin mp \<and> map_max_boundary mp = vadd (map_origin mp) (map_size mp) \<and>
     clamp_min_log mp \<le> clamp_max_log mp \<and> unknown_flag mp > 0"

definition index_ok :: "mapping_parameters \<Rightarrow> vec3i \<Rightarrow> bool" where
  "index_ok mp c \<longleftrightarrow>
     0 \<le> ix c \<and> ix c < ix (map_voxel_num mp) \<and> 0 \<le> iy c \<and> iy c < iy (map_voxel_num mp) \<and>
     0 \<le> iz c \<and> iz c < iz (map_voxel_num mp)"

lemma isInMap_idx_iff: "isInMap_idx mp c \<longleftrightarrow> index_ok mp c"
  by (auto simp: isInMap_idx_def index_ok_def)

lemma voxel_num_pos:
  assumes "map_params_ok mp"
  shows "0 < ix (map_voxel_num mp)" "0 < iy (map_voxel_num mp)" "0 < iz (map_voxel_num mp)"
  using assms by (auto simp: map_params_ok_def)

lemma buffer_size_pos: "map_params_ok mp \<Longrightarrow> 0 < buffer_size mp"
  using voxel_num_pos [of mp] by (simp add: buffer_size_def)

text \<open>An address is a number written with the sizes of the map as bases.\<close>

lemma mixed_radix:
  fixes x y z nx ny nz :: int
  assumes "0 \<le> x" "x < nx" "0 \<le> y" "y < ny" "0 \<le> z" "z < nz"
  shows "0 \<le> x * ny * nz + y * nz + z" "x * ny * nz + y * nz + z < nx * ny * nz"
proof -
  show "0 \<le> x * ny * nz + y * nz + z" using assms by simp
  have "y * nz + z < ny * nz"
    using assms mult_right_mono [of "y + 1" ny nz] by (simp add: algebra_simps)
  moreover have "(x + 1) * (ny * nz) \<le> nx * (ny * nz)" using assms by (intro mult_right_mono) auto
  ultimately show "x * ny * nz + y * nz + z < nx * ny * nz" by (simp add: algebra_simps)
qed

lemma address_range:
  "index_ok mp c \<Longrightarrow> 0 \<le> toAddress mp c \<and> toAddress mp c < buffer_size mp"
  using mixed_radix by (simp add: toAddress_def buffer_size_def index_ok_def)

lemma radix_inj:
  fixes y z y' z' n :: int
  assumes "y * n + z = y' * n + z'" "0 \<le> z" "z < n" "0 \<le> z'" "z' < n"
  shows "y = y' \<and> z = z'"
proof -
  from assms have n: "n \<noteq> 0" "z div n = 0" "z' div n = 0" by (auto simp: div_pos_pos_trivial)
  have "(y * n + z) div n = y" "(y' * n + z') div n = y'" using n by simp_all
  with assms(1) have "y = y'" by simp
  with assms(1) show ?thesis by simp
qed

lemma address_inj:
  assumes "index_ok mp c" "index_ok mp c'" "toAddress mp c = toAddress mp c'"
  shows "c = c'"
proof -
  let ?ny = "iy (map_voxel_num mp)" and ?nz = "iz (map_voxel_num mp)"
  have eq: "(ix c * ?ny + iy c) * ?nz + iz c = (ix c' * ?ny + iy c') * ?nz + iz c'"
    using assms(3) by (simp add: toAddress_def algebra_simps)
  have z: "ix c * ?ny + iy c = ix c' * ?ny + iy c' \<and> iz c = iz c'"
    using assms(1,2) by (intro radix_inj [OF eq]) (auto simp: index_ok_def)
  then have "ix c = ix c' \<and> iy c = iy c'"
    using assms(1,2) by (intro radix_inj [where n = ?ny]) (auto simp: index_ok_def)
  with z show ?thesis by (auto intro: vec3i_eqI)
qed

lemma boundIndex_ok [simp]: "map_params_ok mp \<Longrightarrow> index_ok mp (boundIndex mp c)"
  using voxel_num_pos [of mp] by (auto simp: index_ok_def boundIndex_def)

lemma boundIndex_id: "index_ok mp c \<Longrightarrow> boundIndex mp c = c"
  by (cases c) (auto simp: index_ok_def boundIndex_def)

lemma box_index_ok: "index_ok mp lo \<Longrightarrow> index_ok mp hi \<Longrightarrow> c \<in> set (box lo hi) \<Longrightarrow> index_ok mp c"
  by (auto simp: set_box ile_def index_ok_def)

lemma in_box_iff: "in_box lo hi c \<longleftrightarrow> c \<in> set (box lo hi)"
  by (auto simp: in_box_def set_box ile_def)

text \<open>The half-open box of the map, and the voxel of a position in it.\<close>

definition in_bounds :: "mapping_parameters \<Rightarrow> vec3 \<Rightarrow> bool" where
  "in_bounds mp p \<longleftrightarrow>
     vx (map_min_boundary mp) \<le> vx p \<and> vx p < vx (map_max_boundary mp) \<and>
     vy (map_min_boundary mp) \<le> vy p \<and> vy p < vy (map_max_boundary mp) \<and>
     vz (map_min_boundary mp) \<le> vz p \<and> vz p < vz (map_max_boundary mp)"

lemma isInMap_in_bounds: "isInMap mp p \<Longrightarrow> in_bounds mp p"
  by (auto simp: isInMap_def in_bounds_def split: if_splits)

lemma axis_index:
  fixes o' s res :: real
  assumes "0 < res" "0 < s" "o' \<le> p" "p < o' + s"
  shows "0 \<le> \<lfloor>(p - o') * (1 / res)\<rfloor> \<and> \<lfloor>(p - o') * (1 / res)\<rfloor> < \<lceil>s / res\<rceil>"
proof -
  have "(p - o') / res < s / res" using assms by (intro divide_strict_right_mono) auto
  then show ?thesis using assms by (simp add: floor_less_iff less_ceiling_iff) linarith
qed

lemma posToIndex_ok: "map_params_ok mp \<Longrightarrow> in_bounds mp p \<Longrightarrow> index_ok mp (posToIndex mp p)"
  using axis_index [of "resolution mp"] unfolding index_ok_def posToIndex_def
  by (auto simp: map_params_ok_def in_bounds_def)

lemma index_of_pos:
  assumes "map_params_ok mp"
  shows "posToIndex mp (indexToPos mp c) = c"
proof -
  have "\<lfloor>((of_int i + 1/2) * resolution mp + m - m) * resolution_inv mp\<rfloor> = i" for i m
  proof -
    have "((of_int i + 1/2) * resolution mp + m - m) * resolution_inv mp = of_int i + 1/2"
      using assms by (simp add: map_params_ok_def)
    then show ?thesis by linarith
  qed
  then show ?thesis by (intro vec3i_eqI) (simp_all add: posToIndex_def indexToPos_def)
qed

section \<open>The type of the state\<close>

definition odds_ok :: "mapping_parameters \<Rightarrow> real \<Rightarrow> bool" where
  "odds_ok mp v \<longleftrightarrow> v = clamp_min_log mp - unknown_flag mp \<or> clamp_min_log mp \<le> v \<and> v \<le> clamp_max_log mp"

definition grid_typed :: "mapping_parameters \<Rightarrow> mapping_data \<Rightarrow> bool" where
  "grid_typed mp md \<longleftrightarrow>
     (let n = nat (buffer_size mp) in
      length (occupancy_buffer md) = n \<and> length (occupancy_buffer_inflate md) = n \<and>
      length (count_hit md) = n \<and> length (count_hit_and_miss md) = n \<and>
      length (flag_traverse md) = n \<and> length (flag_rayend md) = n) \<and>
     list_all (odds_ok mp) (occupancy_buffer md) \<and>
     list_all (\<lambda>f. f = 0 \<or> f = 1) (occupancy_buffer_inflate md) \<and>
     int (length (proj_points md)) \<le> max 0 (proj_capacity md)"

text \<open>The fields of which \<open>grid_typed\<close> speaks; an operation that leaves them alone keeps it.\<close>

definition same_map :: "mapping_data \<Rightarrow> mapping_data \<Rightarrow> bool" where
  "same_map s t \<longleftrightarrow>
     occupancy_buffer t = occupancy_buffer s \<and> occupancy_buffer_inflate t = occupancy_buffer_inflate s \<and>
     count_hit t = count_hit s \<and> count_hit_and_miss t = count_hit_and_miss s \<and>
     flag_traverse t = flag_traverse s \<and> flag_rayend t = flag_rayend s \<and>
     proj_points t = proj_points s \<and> proj_capacity t = proj_capacity s"

lemma same_map_typed: "same_map s t \<Longrightarrow> grid_typed mp s \<Longrightarrow> grid_typed mp t"
  by (simp add: same_map_def grid_typed_def)

lemma typed_lengths:
  assumes "grid_typed mp md"
  shows "length (occupancy_buffer md) = nat (buffer_size mp)"
    "length (occupancy_buffer_inflate md) = nat (buffer_size mp)"
    "length (count_hit md) = nat (buffer_size mp)" "length (count_hit_and_miss md) = nat (buffer_size mp)"
    "length (flag_traverse md) = nat (buffer_size mp)" "length (flag_rayend md) = nat (buffer_size mp)"
  using assms by (simp_all add: grid_typed_def Let_def)

lemma init_parameters_ok:
  assumes "init_parameters nh = Inr mp"
    and "0 < param_real nh ''resolution'' (- 1)" "0 < param_real nh ''map_size_x'' (- 1)"
      "0 < param_real nh ''map_size_y'' (- 1)" "0 < param_real nh ''map_size_z'' (- 1)"
    and "0 < param_real nh ''p_min'' (12 / 100)" "param_real nh ''p_min'' (12 / 100) \<le> param_real nh ''p_max'' (97 / 100)"
      "param_real nh ''p_max'' (97 / 100) < 1"
  shows "map_params_ok mp"
proof -
  have logit_mono: "logit p \<le> logit q" if "0 < p" "p \<le> q" "q < 1" for p q
    using that by (auto simp: logit_def ln_le_cancel_iff intro!: frac_le)
  from assms logit_mono [OF assms(6-8)] show ?thesis
    unfolding map_params_ok_def init_parameters_def by (auto simp: Let_def fdiv_def split: if_splits)
qed

lemma initMap_typed: "initMap nh fresh = Inr (mp, md) \<Longrightarrow> grid_typed mp md \<and> \<not> local_updated md"
  unfolding initMap_def
  by (auto simp: Let_def grid_typed_def odds_ok_def list_all_iff split: if_splits)

end
