(* ===== verification/GridTyped.thy ===== *)
theory GridTyped
  imports GridInv
begin

text \<open>
  Every event the map receives keeps the type of its state; in the mode without a camera, where the
  obstacles come as point clouds, no sequence of events has an undefined result.
\<close>

section \<open>Steps that keep the type\<close>

text \<open>The updates of single fields.\<close>

lemma typed_update [simp]:
  "grid_typed mp (md\<lparr>cache_voxel := q\<rparr>) = grid_typed mp md"
  "grid_typed mp (md\<lparr>raycast_num := k\<rparr>) = grid_typed mp md"
  "length l = length (count_hit md) \<Longrightarrow> grid_typed mp (md\<lparr>count_hit := l\<rparr>) = grid_typed mp md"
  "length l = length (count_hit_and_miss md) \<Longrightarrow> grid_typed mp (md\<lparr>count_hit_and_miss := l\<rparr>) = grid_typed mp md"
  "length fl = length (flag_traverse md) \<Longrightarrow> grid_typed mp (md\<lparr>flag_traverse := fl\<rparr>) = grid_typed mp md"
  "length fl = length (flag_rayend md) \<Longrightarrow> grid_typed mp (md\<lparr>flag_rayend := fl\<rparr>) = grid_typed mp md"
  by (simp_all add: grid_typed_def)

lemma setCacheOccupancy_typed:
  assumes "setCacheOccupancy mp pos occ md = Inr (adr, md')" "grid_typed mp md"
  shows "grid_typed mp md'"
  using assms unfolding setCacheOccupancy_def Let_def
  by (cases "occ = 1"; cases "occ = 0"; clarsimp simp: store_at_Inr)

text \<open>What marking a voxel and setting a flag keep, a ray keeps.\<close>

lemma trace_ray_inv:
  assumes mark: "\<And>pos md adr md'. P md \<Longrightarrow> setCacheOccupancy mp pos 0 md = Inr (adr, md') \<Longrightarrow> P md'"
    and flag: "\<And>md fl. P md \<Longrightarrow> length fl = length (flag_traverse md) \<Longrightarrow> P (md\<lparr>flag_traverse := fl\<rparr>)"
  shows "trace_ray n mp r md = Inr md' \<Longrightarrow> P md \<Longrightarrow> P md'"
proof (induction n arbitrary: r md)
  case 0
  then show ?case by simp
next
  case (Suc n)
  obtain pt go r' where r: "ray_step r = (pt, go, r')" by (cases "ray_step r") auto
  show ?case
  proof (cases go)
    case False
    with Suc.prems r show ?thesis by simp
  next
    case True
    with Suc.prems(1) r obtain adr md1 where
      s: "setCacheOccupancy mp (vscale (resolution mp) (vadd (real_vec pt) (vcube (1/2)))) 0 md = Inr (adr, md1)" by auto
    have t: "P md1" using mark [OF Suc.prems(2) s] .
    have ih: "P md'" if "trace_ray n mp r' md1 = Inr md'" using Suc.IH [OF that t] .
    have ih': "P md'" if "trace_ray n mp r' (md1\<lparr>flag_traverse := fl\<rparr>) = Inr md'" "length fl = length (flag_traverse md1)" for fl
      using Suc.IH [OF that(1) flag [OF t that(2)]] .
    from Suc.prems(1) r True s t ih ih' show ?thesis by (auto simp: store_at_Inr split: if_splits)
  qed
qed

lemma trace_ray_typed:
  "trace_ray n mp r md = Inr md' \<Longrightarrow> grid_typed mp md \<Longrightarrow> grid_typed mp md'"
  by (erule trace_ray_inv [where P = "grid_typed mp", rotated 2]) (auto intro: setCacheOccupancy_typed)

lemma cast_point_inv:
  assumes mark: "\<And>pos occ md adr md'. P md \<Longrightarrow> setCacheOccupancy mp pos occ md = Inr (adr, md') \<Longrightarrow> P md'"
    and traverse: "\<And>md fl. P md \<Longrightarrow> length fl = length (flag_traverse md) \<Longrightarrow> P (md\<lparr>flag_traverse := fl\<rparr>)"
    and rayend: "\<And>md fl. P md \<Longrightarrow> length fl = length (flag_rayend md) \<Longrightarrow> P (md\<lparr>flag_rayend := fl\<rparr>)"
    and r: "cast_point mp p st = Inr st'" and P: "P (fst st)"
  shows "P (fst st')"
proof -
  obtain md lo hi where st: "st = (md, lo, hi)" by (cases st) auto
  obtain pt occ where e: "ray_end mp md p = Inr (pt, occ)" using r by (auto simp: st cast_point_def)
  obtain adr md1 where s: "setCacheOccupancy mp pt occ md = Inr (adr, md1)" using r e by (auto simp: st cast_point_def)
  have t: "P md1" using mark [OF _ s] P st by simp
  have trace: "P md3" if "trace_ray n mp c md2 = Inr md3" "P md2" for n c md2 md3
    by (rule trace_ray_inv [where P = P, OF _ _ that]) (blast intro: mark traverse)+
  show ?thesis
  proof (cases "adr = INVALID_IDX")
    case True
    with r e s trace [OF _ t] show ?thesis by (auto simp: st cast_point_def Let_def)
  next
    case False
    with r e s trace [OF _ rayend [OF t]] t show ?thesis
      by (auto simp: st cast_point_def Let_def store_at_Inr split: if_splits)
  qed
qed

lemma cast_point_typed:
  assumes "cast_point mp p st = Inr st'" "grid_typed mp (fst st)"
  shows "grid_typed mp (fst st')"
  by (rule cast_point_inv [where P = "grid_typed mp", OF _ _ _ assms]) (auto intro: setCacheOccupancy_typed)

lemma fused_ok: "map_params_ok mp \<Longrightarrow> odds_ok mp v \<Longrightarrow> odds_ok mp (fused mp b u v)"
  by (auto simp: fused_def odds_ok_def map_params_ok_def)

lemma fuse_voxel_typed:
  assumes "fuse_voxel mp lo hi c md = Inr md'" "grid_typed mp md" "map_params_ok mp"
  shows "grid_typed mp md'"
proof -
  have "odds_ok mp (occupancy_buffer md ! nat (toAddress mp c))"
    if "0 \<le> toAddress mp c" "toAddress mp c < int (length (occupancy_buffer md))"
  proof -
    have "list_all (odds_ok mp) (occupancy_buffer md)" using assms(2) by (simp add: grid_typed_def)
    then show ?thesis using that by (simp add: list_all_length nat_less_iff)
  qed
  with assms show ?thesis unfolding fuse_voxel_def Let_def
    by (auto simp: store_at_Inr fetch_at_Inr grid_typed_def Let_def intro!: list_all_update fused_ok)
qed

lemma update_region_same: "same_map md (update_region mp lo hi md)"
  by (simp add: update_region_def same_map_def Let_def)

lemma fuse_cache_typed:
  assumes "map_params_ok mp" "grid_typed mp md" "fuse_cache mp md = Inr md'"
  shows "grid_typed mp md'"
proof -
  from assms(3) obtain u v s where s: "fold_result (fuse_voxel mp u v) (cache_voxel md) md = Inr s" "md' = s\<lparr>cache_voxel := []\<rparr>"
    by (auto simp: fuse_cache_def Let_def)
  have "grid_typed mp s"
    by (rule fold_result_inv [where P = "grid_typed mp", OF _ assms(2) s(1)]) (auto dest: fuse_voxel_typed [OF _ _ assms(1)])
  with s(2) show ?thesis by simp
qed

lemma raycastProcess_typed:
  assumes ok: "map_params_ok mp" and t: "grid_typed mp md" and r: "raycastProcess mp md = Inr md'"
  shows "grid_typed mp md'"
proof (cases "proj_points md = []")
  case True
  with r t show ?thesis by (simp add: raycastProcess_def)
next
  case False
  let ?s = "(md\<lparr>raycast_num := raycast_num md + 1\<rparr>, map_max_boundary mp, map_min_boundary mp)"
  from False r obtain md1 lo hi where f: "fold_result (cast_point mp) (proj_points md) ?s = Inr (md1, lo, hi)"
    and q: "fuse_cache mp ((update_region mp lo hi md1)\<lparr>local_updated := True\<rparr>) = Inr md'"
    by (auto simp: raycastProcess_def)
  have "grid_typed mp (fst (md1, lo, hi))"
    by (rule fold_result_inv [where P = "\<lambda>st. grid_typed mp (fst st)", OF _ _ f])
      (use t in \<open>auto dest: cast_point_typed\<close>)
  then have "grid_typed mp (update_region mp lo hi md1)" using same_map_typed [OF update_region_same] by simp
  then have "grid_typed mp ((update_region mp lo hi md1)\<lparr>local_updated := True\<rparr>)" by (simp add: grid_typed_def)
  from fuse_cache_typed [OF ok this q] show ?thesis .
qed

lemma push_point_typed:
  "push_point p md = Inr md' \<Longrightarrow> grid_typed mp md \<Longrightarrow> grid_typed mp md'"
  by (auto simp: push_point_def grid_typed_def Let_def split: if_splits)

lemma pixel_typed:
  "plain_pixel mp v uk md = Inr md' \<Longrightarrow> grid_typed mp md \<Longrightarrow> grid_typed mp md'"
  "filtered_pixel mp v u md = Inr md' \<Longrightarrow> grid_typed mp md \<Longrightarrow> grid_typed mp md'"
  by (auto simp: plain_pixel_def filtered_pixel_def Let_def split: if_splits intro: push_point_typed)

text \<open>The two loops over an image, for both kinds of pixel.\<close>

lemma image_typed:
  assumes r: "bind_result (strides a b s) (\<lambda>vs. fold_result (\<lambda>v md. bind_result (strides c d s)
      (\<lambda>us. fold_result (pix v) (row us) md)) vs md) = Inr md'"
    and t: "grid_typed mp md" and pix: "\<And>v u md md'. pix v u md = Inr md' \<Longrightarrow> grid_typed mp md \<Longrightarrow> grid_typed mp md'"
  shows "grid_typed mp md'"
proof -
  from r obtain vs where f: "fold_result (\<lambda>v md. bind_result (strides c d s) (\<lambda>us. fold_result (pix v) (row us) md)) vs md = Inr md'"
    by auto
  show ?thesis
  proof (rule fold_result_inv [where P = "grid_typed mp", OF _ t f])
    fix v s1 s2
    assume "grid_typed mp s1" "bind_result (strides c d s) (\<lambda>us. fold_result (pix v) (row us) s1) = Inr s2"
    then obtain us where "grid_typed mp s1" "fold_result (pix v) (row us) s1 = Inr s2" by auto
    then show "grid_typed mp s2"
      by (rule fold_result_inv [where P = "grid_typed mp", rotated]) (rule pix)
  qed
qed

lemma project_pixels_typed:
  assumes r: "project_pixels mp md = Inr md'" and t: "grid_typed mp md"
  shows "grid_typed mp md'"
proof -
  have first: "grid_typed mp (md\<lparr>has_first_depth := True\<rparr>)" using t by (simp add: grid_typed_def)
  show ?thesis
  proof (cases "use_depth_filter mp")
    case False
    then show ?thesis using r unfolding project_pixels_def Let_def
      by (simp only: if_True not_False_eq_True)
        (rule image_typed [where row = "\<lambda>us. zip us [0..<length us]", OF _ t pixel_typed(1)])
  next
    case True
    then show ?thesis using r first unfolding project_pixels_def Let_def
      by (cases "has_first_depth md")
        (simp_all only: if_True if_False not_True_eq_False not_False_eq_True sum.inject, 
         rule image_typed [where row = "\<lambda>us. us", OF _ t pixel_typed(2)])
  qed
qed

lemma projectDepthImage_typed:
  assumes t: "grid_typed mp md" and r: "projectDepthImage mp md = Inr md'"
  shows "grid_typed mp md'"
proof -
  have "grid_typed mp (md\<lparr>proj_points := []\<rparr>)" using t by (simp add: grid_typed_def)
  with r show ?thesis
    by (auto simp: projectDepthImage_def grid_typed_def dest!: project_pixels_typed)
qed

section \<open>Marking voxels in the inflated map\<close>

text \<open>\<open>marks A b b'\<close>: the addresses of \<open>A\<close> are set, the others are as before.\<close>

definition marks :: "int set \<Rightarrow> int list \<Rightarrow> int list \<Rightarrow> bool" where
  "marks A b b' \<longleftrightarrow> length b' = length b \<and> (\<forall>j < length b. b' ! j = (if int j \<in> A then 1 else b ! j))"

lemma marks_empty [simp]: "marks {} b b"
  by (simp add: marks_def)

lemma marks_trans: "marks A b b' \<Longrightarrow> marks B b' b'' \<Longrightarrow> marks (A \<union> B) b b''"
  by (auto simp: marks_def)

lemma marks_typed: "marks A b b' \<Longrightarrow> list_all (\<lambda>f. f = 0 \<or> f = 1) b \<Longrightarrow> list_all (\<lambda>f. f = 0 \<or> f = 1) b'"
  by (auto simp: marks_def list_all_length)

lemma store_marks: "0 \<le> a \<Longrightarrow> a < int (length b) \<Longrightarrow> marks {a} b (b[nat a := 1])"
  by (auto simp: marks_def nth_list_update)

text \<open>A loop whose body marks \<open>A x\<close> marks their union; \<open>g\<close> takes the map out of the loop's state.\<close>

lemma fold_marks:
  assumes "\<And>x s. x \<in> set xs \<Longrightarrow> length (g s) = n \<Longrightarrow> \<exists>t. f x s = Inr t \<and> marks (A x) (g s) (g t)"
    and "length (g s) = n"
  shows "\<exists>t. fold_result f xs s = Inr t \<and> marks (\<Union>x \<in> set xs. A x) (g s) (g t)"
  using assms
proof (induction xs arbitrary: s)
  case Nil
  then show ?case by simp
next
  case (Cons x xs)
  from Cons.prems(1) [OF _ Cons.prems(2)] obtain u where u: "f x s = Inr u" "marks (A x) (g s) (g u)" by fastforce
  then have "length (g u) = n" using Cons.prems(2) by (simp add: marks_def)
  from Cons.IH [OF Cons.prems(1) this] obtain t where
    "fold_result f xs u = Inr t" "marks (\<Union>x \<in> set xs. A x) (g u) (g t)" by fastforce
  with u show ?case using marks_trans by fastforce
qed

section \<open>Clouds\<close>

text \<open>The points that count, and the voxels one of them blocks.\<close>

definition near_camera :: "mapping_parameters \<Rightarrow> vec3 \<Rightarrow> vec3 \<Rightarrow> bool" where
  "near_camera mp cam pt \<longleftrightarrow>
     \<bar>vx pt - vx cam\<bar> < vx (local_update_range mp) \<and> \<bar>vy pt - vy cam\<bar> < vy (local_update_range mp) \<and>
     \<bar>vz pt - vz cam\<bar> < vz (local_update_range mp)"

definition blocks :: "mapping_parameters \<Rightarrow> vec3 \<Rightarrow> vec3i \<Rightarrow> bool" where
  "blocks mp pt c \<longleftrightarrow>
     list_ex (\<lambda>d. posToIndex mp (vadd pt (vscale (resolution mp) (real_vec d))) = c)
       (box (Vec3i (- inf_step mp) (- inf_step mp) (- 1)) (Vec3i (inf_step mp) (inf_step mp) 1))"

text \<open>The addresses of the voxels that satisfy a predicate.\<close>

definition addresses :: "mapping_parameters \<Rightarrow> (vec3i \<Rightarrow> bool) \<Rightarrow> int set" where
  "addresses mp P = toAddress mp ` {c. index_ok mp c \<and> P c}"

lemma address_mem: "index_ok mp c \<Longrightarrow> toAddress mp c \<in> addresses mp P \<longleftrightarrow> P c"
  using address_inj by (auto simp: addresses_def)

lemma cloud_store_marks:
  assumes "map_params_ok mp" "length (fst st) = nat (buffer_size mp)"
  shows "\<exists>t. cloud_store mp pt d st = Inr t \<and>
    marks (addresses mp (\<lambda>c. posToIndex mp (vadd pt (vscale (resolution mp) (real_vec d))) = c)) (fst st) (fst t)"
proof -
  obtain b lo hi where st: "st = (b, lo, hi)" by (cases st) auto
  let ?c = "posToIndex mp (vadd pt (vscale (resolution mp) (real_vec d)))"
  have "addresses mp (\<lambda>c. ?c = c) = (if index_ok mp ?c then {toAddress mp ?c} else {})"
    by (auto simp: addresses_def)
  with assms st address_range [of mp ?c] show ?thesis
    by (auto simp: cloud_store_def Let_def isInMap_idx_iff intro!: store_marks)
qed

lemma cloud_point_marks:
  assumes ok: "map_params_ok mp" and len: "length (fst st) = nat (buffer_size mp)"
  shows "\<exists>t. cloud_point mp cam pt st = Inr t \<and>
    marks (addresses mp (\<lambda>c. near_camera mp cam pt \<and> blocks mp pt c)) (fst st) (fst t)"
proof (cases "near_camera mp cam pt")
  case False
  then have "cloud_point mp cam pt st = Inr st" by (auto simp: cloud_point_def near_camera_def Let_def)
  with False show ?thesis by (auto simp: addresses_def)
next
  case True
  let ?B = "box (Vec3i (- inf_step mp) (- inf_step mp) (- 1)) (Vec3i (inf_step mp) (inf_step mp) 1)"
  let ?A = "\<lambda>d. addresses mp (\<lambda>c. posToIndex mp (vadd pt (vscale (resolution mp) (real_vec d))) = c)"
  have "\<exists>t. fold_result (cloud_store mp pt) ?B st = Inr t \<and> marks (\<Union>d \<in> set ?B. ?A d) (fst st) (fst t)"
    by (rule fold_marks [where g = fst and n = "nat (buffer_size mp)"]) (rule cloud_store_marks [OF ok], simp_all add: len)
  moreover have "(\<Union>d \<in> set ?B. ?A d) = addresses mp (\<lambda>c. near_camera mp cam pt \<and> blocks mp pt c)"
    using True by (auto simp: addresses_def blocks_def list_ex_iff)
  ultimately show ?thesis using True by (simp add: cloud_point_def near_camera_def Let_def)
qed

lemma resetBuffer_range_ok:
  assumes ok: "map_params_ok mp" and t: "grid_typed mp md"
  shows "\<exists>b. resetBuffer_range mp lo hi md = Inr (md\<lparr>occupancy_buffer_inflate := b\<rparr>) \<and>
    length b = nat (buffer_size mp) \<and> list_all (\<lambda>f. f = 0 \<or> f = 1) b \<and>
    (\<forall>c. index_ok mp c \<longrightarrow> b ! nat (toAddress mp c) =
       (if in_box (boundIndex mp (posToIndex mp lo)) (boundIndex mp (posToIndex mp hi)) c then 0
        else occupancy_buffer_inflate md ! nat (toAddress mp c)))"
proof -
  let ?lo = "boundIndex mp (posToIndex mp lo)" and ?hi = "boundIndex mp (posToIndex mp hi)"
  let ?is = "map (toAddress mp) (box ?lo ?hi)"
  note len = typed_lengths [OF t]
  have box: "index_ok mp c" if "c \<in> set (box ?lo ?hi)" for c
    using box_index_ok [OF _ _ that] ok by simp
  have "\<forall>i \<in> set ?is. 0 \<le> i \<and> i < int (length (occupancy_buffer_inflate md))"
    using box address_range [of mp] buffer_size_pos [OF ok] by (auto simp: len)
  from fill_ok [OF this] obtain b where b: "filled 0 ?is (occupancy_buffer_inflate md) = Inr b" by blast
  have mem: "toAddress mp c \<in> set ?is \<longleftrightarrow> in_box ?lo ?hi c" if "index_ok mp c" for c
    using that box address_inj by (auto simp: in_box_iff)
  from fill_nth [OF b] have nth: "length b = nat (buffer_size mp)"
    "\<And>j. j < nat (buffer_size mp) \<Longrightarrow> b ! j = (if int j \<in> set ?is then 0 else occupancy_buffer_inflate md ! j)"
    by (simp_all add: len)
  have "b ! nat (toAddress mp c) = (if in_box ?lo ?hi c then 0 else occupancy_buffer_inflate md ! nat (toAddress mp c))"
    if c: "index_ok mp c" for c
    using nth(2) [of "nat (toAddress mp c)"] mem [OF c] address_range [OF c] by (simp add: nat_less_iff del: set_map)
  moreover have "list_all (\<lambda>f. f = 0 \<or> f = 1) b"
    using fill_list_all [OF b] t by (auto simp: grid_typed_def)
  ultimately show ?thesis using b nth(1) by (auto simp: resetBuffer_range_def Let_def)
qed

lemma typed_inflate:
  "grid_typed mp md \<Longrightarrow> length b = nat (buffer_size mp) \<Longrightarrow> list_all (\<lambda>f. f = 0 \<or> f = 1) b \<Longrightarrow>
   grid_typed mp (md\<lparr>occupancy_buffer_inflate := b\<rparr>)"
  by (simp add: grid_typed_def Let_def)

lemma marks_nth:
  "marks (addresses mp P) b b' \<Longrightarrow> length b = nat (buffer_size mp) \<Longrightarrow> index_ok mp c \<Longrightarrow>
   b' ! nat (toAddress mp c) = (if P c then 1 else b ! nat (toAddress mp c))"
  using address_range [of mp c] address_mem [of mp c P] by (auto simp: marks_def nat_less_iff)

text \<open>The map after a cloud, voxel by voxel.\<close>

lemma cloudCallback_exact:
  assumes ok: "map_params_ok mp" and t: "grid_typed mp md" and odom: "has_odom md" and pts: "pts \<noteq> []"
  shows "\<exists>md'. cloudCallback mp pts md = Inr md' \<and> grid_typed mp md' \<and>
    (\<forall>c. index_ok mp c \<longrightarrow> occupancy_buffer_inflate md' ! nat (toAddress mp c) =
      (if list_ex (\<lambda>pt. near_camera mp (camera_pos md) pt \<and> blocks mp pt c) pts then 1
       else if in_box (boundIndex mp (posToIndex mp (vsub (camera_pos md) (local_update_range mp))))
                      (boundIndex mp (posToIndex mp (vadd (camera_pos md) (local_update_range mp)))) c then 0
       else occupancy_buffer_inflate md ! nat (toAddress mp c)))"
proof -
  let ?m = "md\<lparr>has_cloud := True\<rparr>" and ?cam = "camera_pos md"
  let ?P = "\<lambda>pt c. near_camera mp ?cam pt \<and> blocks mp pt c"
  have t0: "grid_typed mp ?m" using t by (simp add: grid_typed_def)
  from resetBuffer_range_ok [OF ok t0, of "vsub ?cam (local_update_range mp)" "vadd ?cam (local_update_range mp)"]
  obtain b where b: "resetBuffer_range mp (vsub ?cam (local_update_range mp)) (vadd ?cam (local_update_range mp)) ?m =
      Inr (?m\<lparr>occupancy_buffer_inflate := b\<rparr>)" "length b = nat (buffer_size mp)" "list_all (\<lambda>f. f = 0 \<or> f = 1) b"
    and b_nth: "\<forall>c. index_ok mp c \<longrightarrow> b ! nat (toAddress mp c) =
       (if in_box (boundIndex mp (posToIndex mp (vsub ?cam (local_update_range mp))))
          (boundIndex mp (posToIndex mp (vadd ?cam (local_update_range mp)))) c then 0
        else occupancy_buffer_inflate md ! nat (toAddress mp c))" by auto
  let ?st = "(b, map_max_boundary mp, map_min_boundary mp)"
  have "\<exists>s. fold_result (cloud_point mp ?cam) pts ?st = Inr s \<and>
      marks (\<Union>pt \<in> set pts. addresses mp (?P pt)) (fst ?st) (fst s)"
    by (rule fold_marks [where g = fst and n = "nat (buffer_size mp)"])
      (rule cloud_point_marks [OF ok], simp_all add: b(2))
  moreover have "(\<Union>pt \<in> set pts. addresses mp (?P pt)) = addresses mp (\<lambda>c. list_ex (\<lambda>pt. ?P pt c) pts)"
    by (auto simp: addresses_def list_ex_iff)
  ultimately obtain b' lo hi where f: "fold_result (cloud_point mp ?cam) pts ?st = Inr (b', lo, hi)"
    and m: "marks (addresses mp (\<lambda>c. list_ex (\<lambda>pt. ?P pt c) pts)) b b'" by fastforce
  let ?r = "update_region mp lo hi (?m\<lparr>occupancy_buffer_inflate := b'\<rparr>)"
  have "length b' = nat (buffer_size mp)" using m b(2) by (simp add: marks_def)
  then have "grid_typed mp (?m\<lparr>occupancy_buffer_inflate := b'\<rparr>)"
    using marks_typed [OF m b(3)] by (intro typed_inflate [OF t0]) auto
  then have "grid_typed mp ?r" by (rule same_map_typed [OF update_region_same])
  moreover have "cloudCallback mp pts md = Inr ?r"
    using odom pts b(1) f by (simp add: cloudCallback_def Let_def)
  moreover have "occupancy_buffer_inflate ?r = b'"
    using update_region_same [of "?m\<lparr>occupancy_buffer_inflate := b'\<rparr>" mp lo hi] by (simp add: same_map_def)
  ultimately show ?thesis using marks_nth [OF m b(2)] b_nth by auto
qed

end
