(* ===== verification/GridInflate.thy ===== *)
theory GridInflate
  imports GridTyped
begin

text \<open>
  What \<open>clearAndInflateLocalMap\<close> leaves: the shell around the local map is unknown again, and inside
  the local map a voxel is blocked exactly when an occupied voxel was inflated onto its address.
\<close>

section \<open>The shell\<close>

lemma triple_loop:
  "v \<in> set (concat (map (\<lambda>a. concat (map (\<lambda>b. map (f a b) zs) ys)) xs)) \<longleftrightarrow>
     (\<exists>a \<in> set xs. \<exists>b \<in> set ys. \<exists>c \<in> set zs. v = f a b c)"
  by auto

lemma set_shell:
  assumes "ile mlo lo" "ile lo hi" "ile hi mhi"
  shows "c \<in> set (shell lo hi mlo mhi) \<longleftrightarrow> in_box mlo mhi c \<and> \<not> in_box lo hi c"
proof -
  obtain x y z where c: "c = Vec3i x y z" by (cases c) auto
  have "c \<in> set (shell lo hi mlo mhi) \<longleftrightarrow>
      (x \<in> {ix mlo..ix mhi} \<and> y \<in> {iy mlo..iy mhi} \<and> (z \<in> {iz mlo..iz lo - 1} \<or> z \<in> {iz hi + 1..iz mhi})) \<or>
      (z \<in> {iz mlo..iz mhi} \<and> x \<in> {ix mlo..ix mhi} \<and> (y \<in> {iy mlo..iy lo - 1} \<or> y \<in> {iy hi + 1..iy mhi})) \<or>
      (y \<in> {iy mlo..iy mhi} \<and> z \<in> {iz mlo..iz mhi} \<and> (x \<in> {ix mlo..ix lo - 1} \<or> x \<in> {ix hi + 1..ix mhi}))"
    unfolding c shell_def set_append Un_iff by (intro arg_cong2 [where f = "(\<or>)"]; (subst triple_loop)?; auto)
  with assms show ?thesis by (auto simp: c in_box_def ile_def)
qed

lemma bound_mono: "ile a b \<Longrightarrow> ile (boundIndex mp a) (boundIndex mp b)"
  by (auto simp: ile_def boundIndex_def)

lemma ile_refl [simp]: "ile a a" and ile_trans: "ile a b \<Longrightarrow> ile b c \<Longrightarrow> ile a c"
  by (auto simp: ile_def)

text \<open>The four corners of the two boxes around the local map, in order.\<close>

lemma cut_corners:
  assumes lo: "index_ok mp lo" and hi: "index_ok mp hi" and le: "ile lo hi" and m: "0 \<le> m"
  defines "clo \<equiv> boundIndex mp (isub lo (icube m))" and "chi \<equiv> boundIndex mp (iadd hi (icube m))"
  shows "ile clo lo" "ile hi chi" "ile (boundIndex mp (isub clo (icube 5))) clo" "ile chi (boundIndex mp (iadd chi (icube 5)))"
    "ile clo chi"
proof -
  show c: "ile clo lo" "ile hi chi"
    using lo hi m by (auto simp: clo_def chi_def ile_def boundIndex_def index_ok_def)
  show "ile (boundIndex mp (isub clo (icube 5))) clo"
    using bound_mono [of "isub clo (icube 5)" clo mp] lo hi
    by (auto simp: clo_def ile_def boundIndex_def index_ok_def)
  show "ile chi (boundIndex mp (iadd chi (icube 5)))"
    using lo hi by (auto simp: chi_def ile_def boundIndex_def index_ok_def)
  show "ile clo chi" using ile_trans [OF c(1) ile_trans [OF le c(2)]] .
qed

section \<open>Inflation\<close>

text \<open>Every address of the buffer is that of a voxel.\<close>

lemma quotient_less:
  fixes a n z :: int
  assumes "0 < z" "a < n * z"
  shows "a div z < n"
proof (rule ccontr)
  assume "\<not> a div z < n"
  then have "n * z \<le> a div z * z" using assms(1) by (intro mult_right_mono) simp_all
  moreover have "a div z * z + a mod z = a" "0 \<le> a mod z" using assms(1) by simp_all
  ultimately show False using assms(2) by linarith
qed

lemma address_surj:
  assumes "map_params_ok mp" "0 \<le> a" "a < buffer_size mp"
  obtains c where "index_ok mp c" "toAddress mp c = a"
proof -
  let ?X = "ix (map_voxel_num mp)" and ?Y = "iy (map_voxel_num mp)" and ?Z = "iz (map_voxel_num mp)"
  have pos: "0 < ?Y" "0 < ?Z" using voxel_num_pos [OF assms(1)] by simp_all
  have "a div ?Z < ?X * ?Y"
    using assms(3) pos by (intro quotient_less) (simp_all add: buffer_size_def)
  then have "a div ?Z div ?Y < ?X" by (rule quotient_less [OF pos(1)])
  moreover have "0 \<le> a div ?Z div ?Y" using assms(2) pos by (simp add: pos_imp_zdiv_nonneg_iff)
  moreover have "(a div ?Z div ?Y) * ?Y * ?Z + (a div ?Z mod ?Y) * ?Z + a mod ?Z = a"
  proof -
    have "((a div ?Z div ?Y) * ?Y + a div ?Z mod ?Y) * ?Z + a mod ?Z = a" by simp
    then show ?thesis by (simp only: distrib_right)
  qed
  ultimately show thesis
    using pos by (intro that [of "Vec3i (a div ?Z div ?Y) (a div ?Z mod ?Y) (a mod ?Z)"])
      (simp_all add: index_ok_def toAddress_def)
qed

text \<open>The address an occupied voxel \<open>c\<close> reaches, by its linear address alone.\<close>

definition reaches :: "mapping_parameters \<Rightarrow> vec3i \<Rightarrow> int \<Rightarrow> bool" where
  "reaches mp c adr \<longleftrightarrow> list_ex (\<lambda>d. toAddress mp d = adr) (inflatePoint c (inf_step mp))"

lemma inflate_at_marks:
  assumes "length b = nat (buffer_size mp)"
  shows "\<exists>t. inflate_at mp d b = Inr t \<and>
    marks (if 0 \<le> toAddress mp d \<and> toAddress mp d < buffer_size mp then {toAddress mp d} else {}) b t"
  using assms by (auto simp: inflate_at_def Let_def intro!: store_marks)

lemma inflate_voxel_marks:
  assumes occ: "0 \<le> toAddress mp c" "toAddress mp c < int (length occ)" and len: "length b = nat (buffer_size mp)"
  shows "\<exists>t. inflate_voxel mp occ (inf_step mp) c b = Inr t \<and>
    marks (if occ ! nat (toAddress mp c) > min_occupancy_log mp then {a. 0 \<le> a \<and> a < buffer_size mp \<and> reaches mp c a} else {}) b t"
proof -
  let ?B = "inflatePoint c (inf_step mp)"
  let ?A = "\<lambda>d. if 0 \<le> toAddress mp d \<and> toAddress mp d < buffer_size mp then {toAddress mp d} else {}"
  have "\<exists>t. fold_result (inflate_at mp) ?B b = Inr t \<and> marks (\<Union>d \<in> set ?B. ?A d) b t"
    by (rule fold_marks [where g = "\<lambda>b. b" and n = "nat (buffer_size mp)"]) (rule inflate_at_marks, simp_all add: len)
  moreover have "(\<Union>d \<in> set ?B. ?A d) = {a. 0 \<le> a \<and> a < buffer_size mp \<and> reaches mp c a}"
    by (auto simp: reaches_def list_ex_iff)
  ultimately show ?thesis using occ by (simp add: inflate_voxel_def)
qed

definition blocked_by :: "mapping_parameters \<Rightarrow> mapping_data \<Rightarrow> int \<Rightarrow> bool" where
  "blocked_by mp md a \<longleftrightarrow>
     list_ex (\<lambda>c. occupancy_buffer md ! nat (toAddress mp c) > min_occupancy_log mp \<and> reaches mp c a)
       (box (local_bound_min md) (local_bound_max md))"

text \<open>The three buffers that matter, after the local map was cleared and inflated.\<close>

lemma clearAndInflate_exact:
  assumes ok: "map_params_ok mp" and t: "grid_typed mp md" and step: "0 \<le> inf_step mp" and margin: "0 \<le> local_map_margin mp"
    and lo: "index_ok mp (local_bound_min md)" and hi: "index_ok mp (local_bound_max md)"
    and le: "ile (local_bound_min md) (local_bound_max md)"
  shows "\<exists>occ b. clearAndInflateLocalMap mp md = Inr (md\<lparr>occupancy_buffer := occ, occupancy_buffer_inflate := b\<rparr>) \<and>
    grid_typed mp (md\<lparr>occupancy_buffer := occ, occupancy_buffer_inflate := b\<rparr>) \<and>
    (\<forall>c. in_box (local_bound_min md) (local_bound_max md) c \<longrightarrow>
       occ ! nat (toAddress mp c) = occupancy_buffer md ! nat (toAddress mp c)) \<and>
    (\<forall>c. index_ok mp c \<longrightarrow> b ! nat (toAddress mp c) =
      (if blocked_by mp md (toAddress mp c) then 1
       else if in_box (local_bound_min md) (local_bound_max md) c then 0
       else occupancy_buffer_inflate md ! nat (toAddress mp c)))"
proof -
  let ?lo = "local_bound_min md" and ?hi = "local_bound_max md"
  define clo where "clo = boundIndex mp (isub ?lo (icube (local_map_margin mp)))"
  define chi where "chi = boundIndex mp (iadd ?hi (icube (local_map_margin mp)))"
  define mlo where "mlo = boundIndex mp (isub clo (icube 5))"
  define mhi where "mhi = boundIndex mp (iadd chi (icube 5))"
  let ?sh = "map (toAddress mp) (shell clo chi mlo mhi)" and ?is = "map (toAddress mp) (box ?lo ?hi)"
  note len = typed_lengths [OF t] and pos = buffer_size_pos [OF ok]
  from cut_corners [OF lo hi le margin] have ile: "ile clo ?lo" "ile ?hi chi" "ile mlo clo" "ile chi mhi" "ile clo chi"
    by (simp_all add: clo_def chi_def mlo_def mhi_def)
  have ends: "index_ok mp mlo" "index_ok mp mhi" using ok by (simp_all add: mlo_def mhi_def)
  have shell: "index_ok mp c \<and> \<not> in_box ?lo ?hi c" if "c \<in> set (shell clo chi mlo mhi)" for c
    using that box_index_ok [OF ends] ile(1,2) unfolding set_shell [OF ile(3,5,4)]
    by (auto simp: in_box_iff set_box ile_def)
  have box: "index_ok mp c" if "c \<in> set (box ?lo ?hi)" for c using box_index_ok [OF lo hi that] .
  have "\<forall>i \<in> set ?sh. 0 \<le> i \<and> i < int (length (occupancy_buffer md))"
    using shell address_range [of mp] pos by (auto simp: len)
  from fill_ok [OF this] obtain occ where occ: "filled (clamp_min_log mp - unknown_flag mp) ?sh (occupancy_buffer md) = Inr occ"
    "length occ = nat (buffer_size mp)" using len by auto
  have "\<forall>i \<in> set ?is. 0 \<le> i \<and> i < int (length (occupancy_buffer_inflate md))"
    using box address_range [of mp] pos by (auto simp: len)
  from fill_ok [OF this] obtain b0 where b0: "filled 0 ?is (occupancy_buffer_inflate md) = Inr b0"
    "length b0 = nat (buffer_size mp)" using len by auto
  have same: "occ ! nat (toAddress mp c) = occupancy_buffer md ! nat (toAddress mp c)" if c: "in_box ?lo ?hi c" for c
  proof -
    have ci: "index_ok mp c" using box c by (simp add: in_box_iff)
    then have "toAddress mp c \<notin> set ?sh" using shell address_inj c by auto
    with fill_nth [OF occ(1)] address_range [OF ci] show ?thesis by (simp add: len nat_less_iff)
  qed
  let ?A = "\<lambda>c. if occ ! nat (toAddress mp c) > min_occupancy_log mp
                then {a. 0 \<le> a \<and> a < buffer_size mp \<and> reaches mp c a} else {}"
  have "\<exists>b. fold_result (inflate_voxel mp occ (inf_step mp)) (box ?lo ?hi) b0 = Inr b \<and>
      marks (\<Union>c \<in> set (box ?lo ?hi). ?A c) b0 b"
    by (rule fold_marks [where g = "\<lambda>b. b" and n = "nat (buffer_size mp)"], rule inflate_voxel_marks)
      (use address_range [OF box] occ(2) b0(2) pos in auto)
  moreover have "(\<Union>c \<in> set (box ?lo ?hi). ?A c) = {a. 0 \<le> a \<and> a < buffer_size mp \<and> blocked_by mp md a}"
    using same by (auto simp: blocked_by_def list_ex_iff in_box_iff split: if_splits)
  ultimately obtain b where b: "fold_result (inflate_voxel mp occ (inf_step mp)) (box ?lo ?hi) b0 = Inr b"
    and m: "marks {a. 0 \<le> a \<and> a < buffer_size mp \<and> blocked_by mp md a} b0 b" by auto
  have run: "clearAndInflateLocalMap mp md = Inr (md\<lparr>occupancy_buffer := occ, occupancy_buffer_inflate := b\<rparr>)"
    using occ(1) b0(1) b step
    by (simp add: clearAndInflateLocalMap_def Let_def clo_def chi_def mlo_def mhi_def)
  have nth: "b ! nat (toAddress mp c) = (if blocked_by mp md (toAddress mp c) then 1 else if in_box ?lo ?hi c then 0
      else occupancy_buffer_inflate md ! nat (toAddress mp c))" if c: "index_ok mp c" for c
  proof -
    have "toAddress mp c \<in> set ?is \<longleftrightarrow> in_box ?lo ?hi c" using c box address_inj by (auto simp: in_box_iff)
    with m fill_nth [OF b0(1)] address_range [OF c] show ?thesis
      by (auto simp: marks_def len nat_less_iff simp del: set_map)
  qed
  have "list_all (odds_ok mp) occ"
    using t by (intro fill_list_all [OF occ(1)]) (auto simp: grid_typed_def odds_ok_def)
  moreover have "list_all (\<lambda>f. f = 0 \<or> f = 1) b"
    using t by (intro marks_typed [OF m] fill_list_all [OF b0(1)]) (auto simp: grid_typed_def)
  moreover have "length b = nat (buffer_size mp)" using m b0(2) by (simp add: marks_def)
  ultimately have "grid_typed mp (md\<lparr>occupancy_buffer := occ, occupancy_buffer_inflate := b\<rparr>)"
    using t occ(2) by (simp add: grid_typed_def Let_def)
  with run same nth show ?thesis by blast
qed

text \<open>A voxel of the map within the inflation radius of an occupied voxel is blocked.\<close>

lemma blocked_near:
  assumes "in_box (local_bound_min md) (local_bound_max md) c"
    and "occupancy_buffer md ! nat (toAddress mp c) > min_occupancy_log mp"
    and "in_box (isub c (icube (inf_step mp))) (iadd c (icube (inf_step mp))) d"
  shows "blocked_by mp md (toAddress mp d)"
proof -
  have "reaches mp c (toAddress mp d)"
    using assms(3) unfolding reaches_def list_ex_iff inflatePoint_def by (auto simp: in_box_iff)
  with assms(1,2) show ?thesis unfolding blocked_by_def list_ex_iff by (auto simp: in_box_iff)
qed

text \<open>When it succeeds, the update keeps the type whatever the parameters are.\<close>

lemma fold_inflate_typed:
  assumes "fold_result (inflate_voxel mp occ s) cs b = Inr b'" "length b = n" "list_all (\<lambda>f. f = 0 \<or> f = 1) b"
  shows "length b' = n \<and> list_all (\<lambda>f. f = 0 \<or> f = 1) b'"
proof (rule fold_result_inv [where P = "\<lambda>b. length b = n \<and> list_all (\<lambda>f. f = 0 \<or> f = 1) b", OF _ _ assms(1)])
  fix c b1 b2
  assume P: "length b1 = n \<and> list_all (\<lambda>f. f = 0 \<or> f = 1) b1" and r: "inflate_voxel mp occ s c b1 = Inr b2"
  have "length b2 = n \<and> list_all (\<lambda>f. f = 0 \<or> f = 1) b2" if "fold_result (inflate_at mp) ds b1 = Inr b2" for ds
    by (rule fold_result_inv [where P = "\<lambda>b. length b = n \<and> list_all (\<lambda>f. f = 0 \<or> f = 1) b", OF _ P that])
      (auto simp: inflate_at_def Let_def store_at_Inr intro: list_all_update split: if_splits)
  with P r show "length b2 = n \<and> list_all (\<lambda>f. f = 0 \<or> f = 1) b2"
    by (auto simp: inflate_voxel_def split: if_splits)
qed (use assms in simp)

lemma clearAndInflate_typed:
  assumes t: "grid_typed mp md" and r: "clearAndInflateLocalMap mp md = Inr md'"
  shows "grid_typed mp md'"
proof -
  from r obtain "is" js cs occ b0 b where occ: "filled (clamp_min_log mp - unknown_flag mp) is (occupancy_buffer md) = Inr occ"
    and b0: "filled 0 js (occupancy_buffer_inflate md) = Inr b0"
    and b: "fold_result (inflate_voxel mp occ (inf_step mp)) cs b0 = Inr b"
    and md': "md' = md\<lparr>occupancy_buffer := occ, occupancy_buffer_inflate := b\<rparr>"
    unfolding clearAndInflateLocalMap_def Let_def by (auto split: if_splits)
  have "length occ = nat (buffer_size mp)" "list_all (odds_ok mp) occ"
    using fill_nth [OF occ] fill_list_all [OF occ, of "odds_ok mp"] t by (auto simp: grid_typed_def odds_ok_def Let_def)
  moreover have "length b = nat (buffer_size mp) \<and> list_all (\<lambda>f. f = 0 \<or> f = 1) b"
    using fill_nth [OF b0] fill_list_all [OF b0, of "\<lambda>f. f = 0 \<or> f = 1"] t
    by (intro fold_inflate_typed [OF b]) (auto simp: grid_typed_def Let_def)
  ultimately show ?thesis using t md' by (simp add: grid_typed_def Let_def)
qed

end
