(* ===== verification/GridRays.thy ===== *)
theory GridRays
  imports GridInflate
begin

text \<open>
  The update from a depth image stays inside the buffers: when the camera is in the map, no projected
  point is more than a thousand times further away than the walls of the map, and either the voxels
  of the map are aligned with the origin of the world or the camera keeps the length of a ray and two
  voxels away from the walls across the x axis, every voxel of every ray has an address in the
  buffers.
\<close>

section \<open>The state of a round\<close>

text \<open>The linear address is inside the buffers, though an index may be outside its range.\<close>

definition address_ok :: "mapping_parameters \<Rightarrow> vec3i \<Rightarrow> bool" where
  "address_ok mp c \<longleftrightarrow> 0 \<le> toAddress mp c \<and> toAddress mp c < buffer_size mp"

lemma index_address: "index_ok mp c \<Longrightarrow> address_ok mp c"
  using address_range [of mp c] by (simp add: address_ok_def)

definition round_ok :: "mapping_parameters \<Rightarrow> vec3 \<Rightarrow> mapping_data \<Rightarrow> bool" where
  "round_ok mp cam md \<longleftrightarrow>
     grid_typed mp md \<and> list_all (address_ok mp) (cache_voxel md) \<and> camera_pos md = cam"

lemma round_update [simp]:
  "round_ok mp cam (md\<lparr>raycast_num := k\<rparr>) = round_ok mp cam md"
  "length fl = length (flag_traverse md) \<Longrightarrow> round_ok mp cam (md\<lparr>flag_traverse := fl\<rparr>) = round_ok mp cam md"
  "length fl = length (flag_rayend md) \<Longrightarrow> round_ok mp cam (md\<lparr>flag_rayend := fl\<rparr>) = round_ok mp cam md"
  by (simp_all add: round_ok_def)

lemma setCacheOccupancy_ok:
  assumes r: "round_ok mp cam md" and c: "address_ok mp (posToIndex mp pos)" and occ: "occ = 0 \<or> occ = 1"
  shows "\<exists>md'. setCacheOccupancy mp pos occ md = Inr (toAddress mp (posToIndex mp pos), md') \<and> round_ok mp cam md'"
proof -
  let ?c = "posToIndex mp pos"
  have t: "grid_typed mp md" and q: "list_all (address_ok mp) (cache_voxel md)" "camera_pos md = cam"
    using r by (simp_all add: round_ok_def)
  note len = typed_lengths [OF t] and adr = c [unfolded address_ok_def]
  obtain md' where s: "setCacheOccupancy mp pos occ md = Inr (toAddress mp ?c, md')"
    and m: "list_all (address_ok mp) (cache_voxel md')" "camera_pos md' = camera_pos md"
    using adr occ c q(1) unfolding setCacheOccupancy_def Let_def
    by (elim disjE) (auto simp: len)
  with setCacheOccupancy_typed [OF s t] q(2) show ?thesis by (simp add: round_ok_def)
qed

section \<open>Rays\<close>

text \<open>The voxels of the map are voxels of the caster: its grid starts at the origin of the world.\<close>

definition aligned :: "mapping_parameters \<Rightarrow> vec3i \<Rightarrow> bool" where
  "aligned mp k \<longleftrightarrow> map_origin mp = vscale (resolution mp) (real_vec k)"

lemma aligned_index:
  assumes "map_params_ok mp" "aligned mp k"
  shows "posToIndex mp p = isub (floor_vec (vscale (1 / resolution mp) p)) k"
proof -
  have axis: "\<lfloor>(a - resolution mp * of_int i) * resolution_inv mp\<rfloor> = \<lfloor>1 / resolution mp * a\<rfloor> - i" for a i
  proof -
    have "(a - resolution mp * of_int i) * resolution_inv mp = 1 / resolution mp * a - of_int i"
      using assms(1) by (simp add: map_params_ok_def field_simps)
    then show ?thesis by simp
  qed
  show ?thesis
    using assms(2) by (intro vec3i_eqI) (simp_all add: posToIndex_def floor_vec_def aligned_def axis)
qed

lemma aligned_centre:
  assumes "map_params_ok mp" "aligned mp k"
  shows "posToIndex mp (vscale (resolution mp) (vadd (real_vec c) (vcube (1/2)))) = isub c k"
proof -
  have half: "\<lfloor>1 / a * (a * (of_int i + 1/2))\<rfloor> = i" if "0 < a" for a :: real and i
  proof -
    have "1 / a * (a * (of_int i + 1/2)) = of_int i + 1/2" using that by simp
    then show ?thesis by linarith
  qed
  have "floor_vec (vscale (1 / resolution mp) (vscale (resolution mp) (vadd (real_vec c) (vcube (1/2))))) = c"
    using assms(1) half by (intro vec3i_eqI) (simp_all only: floor_vec_def map_params_ok_def vec3i.sel vec3_sel vec3i_sel)
  with aligned_index [OF assms] show ?thesis by simp
qed

lemma trace_ray_ok:
  assumes cells: "\<And>c. between (isub e d) e c \<Longrightarrow>
    address_ok mp (posToIndex mp (vscale (resolution mp) (vadd (real_vec c) (vcube (1/2)))))"
  shows "ray_ok d r \<Longrightarrow> end_cell r = e \<Longrightarrow> manhattan (cell r) e < n \<Longrightarrow> round_ok mp cam md \<Longrightarrow>
    \<exists>md'. trace_ray n mp r md = Inr md' \<and> round_ok mp cam md'"
proof (induction n arbitrary: r md)
  case 0
  then show ?case by simp
next
  case (Suc n)
  show ?case
  proof (cases "cell r = e")
    case True
    with Suc.prems show ?thesis by (simp add: ray_step_end)
  next
    case False
    with ray_step_ok [OF Suc.prems(1)] Suc.prems(2) obtain r' where r': "ray_step r = (cell r, True, r')" "ray_ok d r'"
      "end_cell r' = e" "Suc (manhattan (cell r') e) = manhattan (cell r) e" by auto
    let ?p = "vscale (resolution mp) (vadd (real_vec (cell r)) (vcube (1/2)))"
    let ?a = "toAddress mp (posToIndex mp ?p)"
    have c: "address_ok mp (posToIndex mp ?p)"
      using cells [OF ray_ok_between [OF Suc.prems(1), unfolded Suc.prems(2)]] .
    from setCacheOccupancy_ok [OF Suc.prems(4) c, of 0] obtain md1 where
      s: "setCacheOccupancy mp ?p 0 md = Inr (?a, md1)" "round_ok mp cam md1" by auto
    have len: "length (flag_traverse md1) = nat (buffer_size mp)"
      using s(2) by (simp add: round_ok_def typed_lengths)
    have a: "0 \<le> ?a" "?a < int (length (flag_traverse md1))" using c len by (auto simp: address_ok_def)
    have "?a \<noteq> INVALID_IDX" using a(1) by (simp add: INVALID_IDX_def)
    moreover have "\<exists>md'. trace_ray n mp r' (md1\<lparr>flag_traverse := (flag_traverse md1)[nat ?a := raycast_num md1]\<rparr>) = Inr md' \<and>
        round_ok mp cam md'"
      using s(2) r'(4) Suc.prems(3) by (intro Suc.IH [OF r'(2,3)]) auto
    ultimately show ?thesis using r'(1) s a by auto
  qed
qed

text \<open>
  Every ray that ends in the map, no further from the camera than a ray is long on the x axis,
  passes over addresses of the buffers only.
\<close>

definition rays_ok :: "mapping_parameters \<Rightarrow> vec3 \<Rightarrow> bool" where
  "rays_ok mp cam \<longleftrightarrow> (\<forall>p. in_bounds mp p \<and> \<bar>vx p - vx cam\<bar> \<le> max_ray_length mp \<longrightarrow>
     address_ok mp (posToIndex mp p) \<and>
     (\<forall>c. between (floor_vec (vscale (1 / resolution mp) p)) (floor_vec (vscale (1 / resolution mp) cam)) c \<longrightarrow>
        address_ok mp (posToIndex mp (vscale (resolution mp) (vadd (real_vec c) (vcube (1/2)))))))"

lemma index_between:
  "between a b c \<Longrightarrow> index_ok mp (isub a k) \<Longrightarrow> index_ok mp (isub b k) \<Longrightarrow> index_ok mp (isub c k)"
  by (auto simp: between_def index_ok_def)

lemma aligned_rays:
  assumes ok: "map_params_ok mp" "aligned mp k" and cam: "isInMap mp cam"
  shows "rays_ok mp cam"
  unfolding rays_ok_def
proof (intro allI impI conjI; elim conjE)
  fix p c
  let ?p = "floor_vec (vscale (1 / resolution mp) p)" and ?c = "floor_vec (vscale (1 / resolution mp) cam)"
  assume p: "in_bounds mp p"
  from posToIndex_ok [OF ok(1) p] show "address_ok mp (posToIndex mp p)" by (rule index_address)
  assume b: "between ?p ?c c"
  have "index_ok mp (isub ?p k)" "index_ok mp (isub ?c k)"
    using posToIndex_ok [OF ok(1) p] posToIndex_ok [OF ok(1) isInMap_in_bounds [OF cam]]
    by (simp_all add: aligned_index [OF ok])
  from index_between [OF b this] show
    "address_ok mp (posToIndex mp (vscale (resolution mp) (vadd (real_vec c) (vcube (1/2)))))"
    unfolding aligned_centre [OF ok] by (rule index_address)
qed

text \<open>
  Without alignment the centre of a voxel of the caster is up to half a voxel away from the points
  of the ray, so it may be outside the map.  Its address is inside the buffers all the same as long
  as the ray keeps away from the first and the last layer across the x axis.
\<close>

definition roomy :: "mapping_parameters \<Rightarrow> vec3 \<Rightarrow> bool" where
  "roomy mp cam \<longleftrightarrow> 2 \<le> iy (map_voxel_num mp) \<and>
     vx (map_min_boundary mp) + max_ray_length mp + 2 * resolution mp \<le> vx cam \<and>
     vx cam \<le> vx (map_max_boundary mp) - max_ray_length mp - 2 * resolution mp"

lemma centre_axis:
  fixes h a b :: real
  assumes "0 < h" "min \<lfloor>1 / h * a\<rfloor> \<lfloor>1 / h * b\<rfloor> \<le> i" "i \<le> max \<lfloor>1 / h * a\<rfloor> \<lfloor>1 / h * b\<rfloor>"
  shows "min a b - h / 2 \<le> h * (of_int i + 1/2)" "h * (of_int i + 1/2) \<le> max a b + h / 2"
proof -
  have "min (1 / h * a) (1 / h * b) < of_int i + 1" "of_int i \<le> max (1 / h * a) (1 / h * b)"
    using assms(2,3) by linarith+
  then have "min a b < h * (of_int i + 1)" "h * of_int i \<le> max a b"
    using assms(1) by (auto simp: min_def max_def field_simps split: if_splits)
  then show "min a b - h / 2 \<le> h * (of_int i + 1/2)" "h * (of_int i + 1/2) \<le> max a b + h / 2"
    by (simp_all add: algebra_simps)
qed

lemma index_range:
  fixes h x lo size d :: real
  assumes "0 < h" "lo + real_of_int m * h \<le> x" "x \<le> lo + size + d * h" "n = \<lceil>size / h\<rceil>"
  shows "m \<le> \<lfloor>(x - lo) * (1 / h)\<rfloor>" "real_of_int \<lfloor>(x - lo) * (1 / h)\<rfloor> \<le> of_int n + d"
proof -
  have "real_of_int m \<le> (x - lo) * (1 / h)" using assms(1,2) by (simp add: field_simps)
  then show "m \<le> \<lfloor>(x - lo) * (1 / h)\<rfloor>" by (simp add: le_floor_iff)
  have "(x - lo) * (1 / h) \<le> (size + d * h) * (1 / h)" using assms(1,3) by (intro mult_right_mono) simp_all
  also have "\<dots> = size / h + d" using assms(1) by (simp add: add_divide_distrib)
  finally have "(x - lo) * (1 / h) \<le> size / h + d" .
  then show "real_of_int \<lfloor>(x - lo) * (1 / h)\<rfloor> \<le> of_int n + d" unfolding assms(4) by linarith
qed

lemma wrapped_address:
  assumes "1 \<le> ix c" "ix c \<le> ix (map_voxel_num mp) - 2" "- 1 \<le> iy c" "iy c \<le> iy (map_voxel_num mp)"
    "- 1 \<le> iz c" "iz c \<le> iz (map_voxel_num mp)" "2 \<le> iy (map_voxel_num mp)" "1 \<le> iz (map_voxel_num mp)"
  shows "address_ok mp c"
proof -
  let ?X = "ix (map_voxel_num mp)" and ?Y = "iy (map_voxel_num mp)" and ?Z = "iz (map_voxel_num mp)"
  have z: "0 \<le> ?Z" and yz: "0 \<le> ?Y * ?Z" "2 * ?Z \<le> ?Y * ?Z" using assms(7,8) by (auto intro: mult_right_mono)
  have x: "?Y * ?Z \<le> ix c * (?Y * ?Z)" "ix c * (?Y * ?Z) \<le> (?X - 2) * (?Y * ?Z)"
    using mult_right_mono [OF assms(1) yz(1)] mult_right_mono [OF assms(2) yz(1)] by simp_all
  have y: "- ?Z \<le> iy c * ?Z" "iy c * ?Z \<le> ?Y * ?Z"
    using mult_right_mono [OF assms(3) z] mult_right_mono [OF assms(4) z] by simp_all
  have "toAddress mp c = ix c * (?Y * ?Z) + iy c * ?Z + iz c" "buffer_size mp = (?X - 2) * (?Y * ?Z) + 2 * (?Y * ?Z)"
    by (simp_all add: toAddress_def buffer_size_def algebra_simps)
  with x y yz assms(5,6,8) show ?thesis unfolding address_ok_def by linarith
qed

lemma roomy_rays:
  assumes ok: "map_params_ok mp" and room: "roomy mp cam" and cam: "isInMap mp cam"
  shows "rays_ok mp cam"
  unfolding rays_ok_def
proof (intro allI impI conjI; elim conjE)
  fix p c
  let ?p = "floor_vec (vscale (1 / resolution mp) p)" and ?c = "floor_vec (vscale (1 / resolution mp) cam)"
  let ?h = "resolution mp" and ?q = "vscale (resolution mp) (vadd (real_vec c) (vcube (1/2)))"
  assume p: "in_bounds mp p" and near: "\<bar>vx p - vx cam\<bar> \<le> max_ray_length mp"
  from posToIndex_ok [OF ok p] show "address_ok mp (posToIndex mp p)" by (rule index_address)
  assume b: "between ?p ?c c"
  have h: "0 < ?h" "resolution_inv mp = 1 / ?h" and o: "map_min_boundary mp = map_origin mp"
    "map_max_boundary mp = vadd (map_origin mp) (map_size mp)"
    and n: "ix (map_voxel_num mp) = \<lceil>vx (map_size mp) / ?h\<rceil>" "iy (map_voxel_num mp) = \<lceil>vy (map_size mp) / ?h\<rceil>"
      "iz (map_voxel_num mp) = \<lceil>vz (map_size mp) / ?h\<rceil>"
    and pos: "0 < vz (map_size mp)"
    using ok by (auto simp: map_params_ok_def)
  from b have bx: "min \<lfloor>1 / ?h * vx p\<rfloor> \<lfloor>1 / ?h * vx cam\<rfloor> \<le> ix c" "ix c \<le> max \<lfloor>1 / ?h * vx p\<rfloor> \<lfloor>1 / ?h * vx cam\<rfloor>"
    and b_y: "min \<lfloor>1 / ?h * vy p\<rfloor> \<lfloor>1 / ?h * vy cam\<rfloor> \<le> iy c" "iy c \<le> max \<lfloor>1 / ?h * vy p\<rfloor> \<lfloor>1 / ?h * vy cam\<rfloor>"
    and bz: "min \<lfloor>1 / ?h * vz p\<rfloor> \<lfloor>1 / ?h * vz cam\<rfloor> \<le> iz c" "iz c \<le> max \<lfloor>1 / ?h * vz p\<rfloor> \<lfloor>1 / ?h * vz cam\<rfloor>"
    by (simp_all add: between_def floor_vec_def)
  note cx = centre_axis [OF h(1) bx] and cy = centre_axis [OF h(1) b_y] and cz = centre_axis [OF h(1) bz]
  note cb = isInMap_in_bounds [OF cam, unfolded in_bounds_def o] and pb = p [unfolded in_bounds_def o]
  have q: "vx ?q = ?h * (of_int (ix c) + 1/2)" "vy ?q = ?h * (of_int (iy c) + 1/2)" "vz ?q = ?h * (of_int (iz c) + 1/2)"
    by simp_all
  have rx: "vx (map_origin mp) + of_int 1 * ?h \<le> vx ?q" "vx ?q \<le> vx (map_origin mp) + vx (map_size mp) + (- 3/2) * ?h"
    using cx near room h(1) unfolding q roomy_def o by (auto simp: abs_le_iff algebra_simps)
  have ry: "vy (map_origin mp) + of_int (- 1) * ?h \<le> vy ?q" "vy ?q \<le> vy (map_origin mp) + vy (map_size mp) + 1/2 * ?h"
    using cy cb pb h(1) unfolding q by (auto simp: algebra_simps)
  have rz: "vz (map_origin mp) + of_int (- 1) * ?h \<le> vz ?q" "vz ?q \<le> vz (map_origin mp) + vz (map_size mp) + 1/2 * ?h"
    using cz cb pb h(1) unfolding q by (auto simp: algebra_simps)
  note ixr = index_range [OF h(1) rx n(1)] and iyr = index_range [OF h(1) ry n(2)] and izr = index_range [OF h(1) rz n(3)]
  have px: "ix (posToIndex mp ?q) = \<lfloor>(vx ?q - vx (map_origin mp)) * (1 / ?h)\<rfloor>"
    "iy (posToIndex mp ?q) = \<lfloor>(vy ?q - vy (map_origin mp)) * (1 / ?h)\<rfloor>"
    "iz (posToIndex mp ?q) = \<lfloor>(vz ?q - vz (map_origin mp)) * (1 / ?h)\<rfloor>"
    by (simp_all only: posToIndex_def vec3i.sel h(2))
  have below: "f < m" if "real_of_int f \<le> of_int n' + d" "n' + d < of_int m" for f m n' :: int and d :: real
  proof -
    have "real_of_int f < real_of_int m" using that by linarith
    then show ?thesis by simp
  qed
  show "address_ok mp (posToIndex mp ?q)"
  proof (rule wrapped_address)
    show "1 \<le> ix (posToIndex mp ?q)" "- 1 \<le> iy (posToIndex mp ?q)" "- 1 \<le> iz (posToIndex mp ?q)"
      unfolding px using ixr(1) iyr(1) izr(1) by simp_all
    have "ix (posToIndex mp ?q) < ix (map_voxel_num mp) - 1" unfolding px by (rule below [OF ixr(2)]) simp
    then show "ix (posToIndex mp ?q) \<le> ix (map_voxel_num mp) - 2" by simp
    have "iy (posToIndex mp ?q) < iy (map_voxel_num mp) + 1" unfolding px by (rule below [OF iyr(2)]) simp
    then show "iy (posToIndex mp ?q) \<le> iy (map_voxel_num mp)" by simp
    have "iz (posToIndex mp ?q) < iz (map_voxel_num mp) + 1" unfolding px by (rule below [OF izr(2)]) simp
    then show "iz (posToIndex mp ?q) \<le> iz (map_voxel_num mp)" by simp
    show "1 \<le> iz (map_voxel_num mp)" using pos h(1) unfolding n by (simp add: one_le_ceiling)
    show "2 \<le> iy (map_voxel_num mp)" using room by (simp add: roomy_def)
  qed
qed

section \<open>The end of a ray\<close>

text \<open>No wall is nearer than a thousandth of the way to the point, on any axis.\<close>

definition walls_far :: "mapping_parameters \<Rightarrow> vec3 \<Rightarrow> vec3 \<Rightarrow> bool" where
  "walls_far mp cam p \<longleftrightarrow>
     \<bar>vx p - vx cam\<bar> \<le> 1000 * min (vx cam - vx (map_min_boundary mp)) (vx (map_max_boundary mp) - vx cam) \<and>
     \<bar>vy p - vy cam\<bar> \<le> 1000 * min (vy cam - vy (map_min_boundary mp)) (vy (map_max_boundary mp) - vy cam) \<and>
     \<bar>vz p - vz cam\<bar> \<le> 1000 * min (vz cam - vz (map_min_boundary mp)) (vz (map_max_boundary mp) - vz cam)"

lemma exit_time_le: "exit_time diff hi lo m \<le> m"
  by (auto simp: exit_time_def Let_def)

lemma exit_time_inside:
  assumes "0 \<le> t" "t < exit_time diff hi lo m" "lo < 0" "0 < hi"
  shows "lo < t * diff \<and> t * diff < hi"
proof -
  consider "diff = 0" | "0 < diff" | "diff < 0" by linarith
  then show ?thesis
  proof cases
    case 1
    with assms show ?thesis by simp
  next
    case 2
    then have "lo / diff < 0" "0 < hi / diff" using assms by (simp_all add: divide_neg_pos)
    with 2 assms(2) have "t < hi / diff" by (auto simp: exit_time_def Let_def split: if_splits)
    with 2 have "t * diff < hi" by (simp add: pos_less_divide_eq)
    moreover have "0 \<le> t * diff" using 2 assms(1) by simp
    ultimately show ?thesis using assms(3) by simp
  next
    case 3
    then have "hi / diff < 0" "0 < lo / diff" using assms by (simp_all add: divide_pos_neg divide_neg_neg)
    with 3 assms(2) have "t < lo / diff" by (auto simp: exit_time_def Let_def split: if_splits)
    with 3 have "lo < t * diff" by (simp add: neg_less_divide_eq)
    moreover have "t * diff \<le> 0" using 3 assms(1) by (simp add: mult_nonneg_nonpos)
    ultimately show ?thesis using assms(4) by simp
  qed
qed

lemma exit_time_ge:
  assumes "\<bar>diff\<bar> \<le> 1000 * min (- lo) hi" "1 / 1000 \<le> m" "lo < 0" "0 < hi"
  shows "1 / 1000 \<le> exit_time diff hi lo m"
proof -
  define a where "a = hi / diff"
  define b where "b = lo / diff"
  have "1 / 1000 \<le> a" "b < 0" if "0 < diff"
    using that assms by (simp_all add: a_def b_def le_divide_eq divide_neg_pos)
  moreover have "a < 0" "1 / 1000 \<le> b" if "diff < 0"
    using that assms by (simp_all add: a_def b_def neg_le_divide_eq divide_pos_neg)
  moreover have "exit_time diff hi lo m = (if diff = 0 then m else
      let m1 = (if a > 0 \<and> a < m then a else m) in if b > 0 \<and> b < m1 then b else m1)"
    by (simp add: exit_time_def a_def b_def Let_def)
  ultimately show ?thesis using assms(2) by (cases "0 < diff"; cases "diff < 0") (auto simp: Let_def)
qed

lemma strictly_inside:
  assumes "isInMap mp cam"
  shows "vx (map_min_boundary mp) < vx cam" "vx cam < vx (map_max_boundary mp)"
    "vy (map_min_boundary mp) < vy cam" "vy cam < vy (map_max_boundary mp)"
    "vz (map_min_boundary mp) < vz cam" "vz cam < vz (map_max_boundary mp)"
  using assms by (auto simp: isInMap_def split: if_splits)

lemma closetPointInMap_in_bounds:
  assumes cam: "isInMap mp cam" and far: "walls_far mp cam p"
  shows "in_bounds mp (closetPointInMap mp p cam)"
proof -
  define hi where "hi = vsub (map_max_boundary mp) cam"
  define lo where "lo = vsub (map_min_boundary mp) cam"
  define d where "d = vsub p cam"
  define t where "t = exit_param mp p cam - 1 / 1000"
  note s = strictly_inside [OF cam]
  have e: "exit_param mp p cam = exit_time (vz d) (vz hi) (vz lo) (exit_time (vy d) (vy hi) (vy lo)
      (exit_time (vx d) (vx hi) (vx lo) 1000000))"
    by (simp add: exit_param_def hi_def lo_def d_def Let_def)
  have "1 / 1000 \<le> exit_param mp p cam"
    unfolding e using s far by (intro exit_time_ge) (auto simp: hi_def lo_def d_def walls_far_def)
  then have t: "0 \<le> t" by (simp add: t_def)
  have "t < exit_time (vz d) (vz hi) (vz lo) (exit_time (vy d) (vy hi) (vy lo) (exit_time (vx d) (vx hi) (vx lo) 1000000))"
    unfolding t_def e by simp
  then have "t < exit_time (vy d) (vy hi) (vy lo) (exit_time (vx d) (vx hi) (vx lo) 1000000)"
    and z: "vz lo < t * vz d \<and> t * vz d < vz hi"
    using exit_time_le exit_time_inside [OF t] s by (force intro: order.strict_trans2, auto simp: hi_def lo_def)
  then have "t < exit_time (vx d) (vx hi) (vx lo) 1000000"
    and y: "vy lo < t * vy d \<and> t * vy d < vy hi"
    using exit_time_le exit_time_inside [OF t] s by (force intro: order.strict_trans2, auto simp: hi_def lo_def)
  then have x: "vx lo < t * vx d \<and> t * vx d < vx hi"
    using exit_time_inside [OF t] s by (auto simp: hi_def lo_def)
  have "closetPointInMap mp p cam = vadd cam (vscale t d)"
    by (simp add: closetPointInMap_def t_def d_def)
  with x y z show ?thesis by (simp add: in_bounds_def hi_def lo_def)
qed

lemma convex_axis:
  fixes a b lo hi k :: real
  assumes "lo \<le> a" "a < hi" "lo \<le> b" "b < hi" "0 \<le> k" "k \<le> 1"
  shows "lo \<le> k * (b - a) + a \<and> k * (b - a) + a < hi"
proof (cases "a \<le> b")
  case True
  then have "0 \<le> k * (b - a)" "k * (b - a) \<le> b - a"
    using assms(5,6) mult_right_mono [of k 1 "b - a"] by simp_all
  with assms show ?thesis by linarith
next
  case False
  then have "k * (b - a) \<le> 0" "b - a \<le> k * (b - a)"
    using assms(5,6) mult_right_mono_neg [of k 1 "b - a"] by (simp_all add: mult_nonneg_nonpos)
  with assms show ?thesis by linarith
qed

lemma ray_end_ok:
  assumes cam: "isInMap mp (camera_pos md)" and max: "0 < max_ray_length mp" and far: "walls_far mp (camera_pos md) p"
  shows "\<exists>pt occ. ray_end mp md p = Inr (pt, occ) \<and> in_bounds mp pt \<and> (occ = 0 \<or> occ = 1) \<and>
    \<bar>vx pt - vx (camera_pos md)\<bar> \<le> max_ray_length mp"
proof -
  let ?c = "camera_pos md"
  define q where "q = (if isInMap mp p then p else closetPointInMap mp p ?c)"
  have q: "in_bounds mp q"
    using closetPointInMap_in_bounds [OF cam far] isInMap_in_bounds by (auto simp: q_def)
  have c: "in_bounds mp ?c" using cam by (rule isInMap_in_bounds)
  let ?len = "vnorm (vsub q ?c)"
  show ?thesis
  proof (cases "?len > max_ray_length mp")
    case True
    define k where "k = max_ray_length mp / ?len"
    have k: "0 \<le> k" "k \<le> 1" using True max by (simp_all add: k_def divide_le_eq)
    have "in_bounds mp (vadd (vscale k (vsub q ?c)) ?c)"
      using q c convex_axis [OF _ _ _ _ k] by (auto simp: in_bounds_def)
    moreover have "\<bar>k * (vx q - vx ?c)\<bar> \<le> max_ray_length mp"
    proof -
      have "\<bar>vx (vsub q ?c)\<bar> \<le> ?len" using component_le_vnorm [of "vsub q ?c"] by simp
      then have "k * \<bar>vx (vsub q ?c)\<bar> \<le> k * ?len" using k(1) by (rule mult_left_mono)
      also have "k * ?len = max_ray_length mp" using True max by (simp add: k_def)
      finally show ?thesis using k(1) by (simp add: abs_mult)
    qed
    ultimately show ?thesis using True max by (auto simp: ray_end_def Let_def q_def [symmetric] k_def)
  next
    case False
    moreover have "\<bar>vx (vsub q ?c)\<bar> \<le> ?len" using component_le_vnorm [of "vsub q ?c"] by simp
    ultimately show ?thesis using q by (auto simp: ray_end_def Let_def q_def [symmetric])
  qed
qed

section \<open>A round\<close>

lemma cast_point_ok:
  assumes ok: "map_params_ok mp" and rays: "rays_ok mp cam" and cam: "isInMap mp cam" and max: "0 < max_ray_length mp"
    and far: "walls_far mp cam p" and r: "round_ok mp cam (fst st)"
  shows "\<exists>st'. cast_point mp p st = Inr st' \<and> round_ok mp cam (fst st')"
proof -
  obtain md lo hi where st: "st = (md, lo, hi)" by (cases st) auto
  with r have r: "round_ok mp cam md" by simp
  then have c: "camera_pos md = cam" by (simp add: round_ok_def)
  from ray_end_ok [of mp md p] cam max far c obtain pt occ where
    e: "ray_end mp md p = Inr (pt, occ)" "in_bounds mp pt" "occ = 0 \<or> occ = 1" "\<bar>vx pt - vx cam\<bar> \<le> max_ray_length mp" by auto
  from rays e(2,4) have i: "address_ok mp (posToIndex mp pt)"
    and on_ray: "between (floor_vec (vscale (1 / resolution mp) pt)) (floor_vec (vscale (1 / resolution mp) cam)) c \<Longrightarrow>
      address_ok mp (posToIndex mp (vscale (resolution mp) (vadd (real_vec c) (vcube (1/2)))))" for c
    by (simp_all add: rays_ok_def)
  let ?a = "toAddress mp (posToIndex mp pt)"
  from setCacheOccupancy_ok [OF r i e(3)] obtain md1 where
    s: "setCacheOccupancy mp pt occ md = Inr (?a, md1)" "round_ok mp cam md1" by blast
  have c1: "camera_pos md1 = cam" and len: "length (flag_rayend md1) = nat (buffer_size mp)"
    using s(2) by (simp_all add: round_ok_def typed_lengths)
  have a: "0 \<le> ?a" "?a < int (length (flag_rayend md1))" "?a \<noteq> INVALID_IDX"
    using i len by (auto simp: INVALID_IDX_def address_ok_def)
  let ?p = "vscale (1 / resolution mp) pt" and ?c = "vscale (1 / resolution mp) cam"
  let ?r = "snd (setInput ?p ?c)" and ?md2 = "md1\<lparr>flag_rayend := (flag_rayend md1)[nat ?a := raycast_num md1]\<rparr>"
  have "isub (floor_vec ?c) (isub (floor_vec ?c) (floor_vec ?p)) = floor_vec ?p" by (intro vec3i_eqI) simp_all
  then have "\<exists>md'. trace_ray (ray_fuel ?r) mp ?r ?md2 = Inr md' \<and> round_ok mp cam md'"
    using s(2) on_ray by (intro trace_ray_ok [OF _ setInput_ok]) (auto simp: ray_fuel_def)
  then show ?thesis using e(1) s a c1 by (auto simp: st cast_point_def Let_def)
qed

lemma fuse_voxel_ok:
  assumes "map_params_ok mp" "grid_typed mp md" "address_ok mp c"
  shows "\<exists>md'. fuse_voxel mp lo hi c md = Inr md' \<and> grid_typed mp md'"
proof -
  note len = typed_lengths [OF assms(2)] and adr = assms(3) [unfolded address_ok_def]
  have "\<exists>md'. fuse_voxel mp lo hi c md = Inr md'"
    using adr by (simp add: fuse_voxel_def Let_def len)
  with fuse_voxel_typed [OF _ assms(2,1)] show ?thesis by blast
qed

lemma fuse_voxel_frame:
  "fuse_voxel mp lo hi c md = Inr md' \<Longrightarrow> local_bound_min md' = local_bound_min md \<and>
   local_bound_max md' = local_bound_max md \<and> local_updated md' = local_updated md"
  by (auto simp: fuse_voxel_def Let_def)

lemma posToIndex_mono:
  assumes "map_params_ok mp" "vx p \<le> vx q" "vy p \<le> vy q" "vz p \<le> vz q"
  shows "ile (posToIndex mp p) (posToIndex mp q)"
  using assms by (auto simp: ile_def posToIndex_def map_params_ok_def intro!: floor_mono divide_right_mono)

lemma update_region_bounds:
  assumes "map_params_ok mp"
  shows "index_ok mp (local_bound_min (update_region mp lo hi md))"
    "index_ok mp (local_bound_max (update_region mp lo hi md))"
    "ile (local_bound_min (update_region mp lo hi md)) (local_bound_max (update_region mp lo hi md))"
  using assms by (auto simp: update_region_def Let_def vmin_def vmax_def intro!: bound_mono posToIndex_mono)

definition region_ok :: "mapping_parameters \<Rightarrow> mapping_data \<Rightarrow> bool" where
  "region_ok mp md \<longleftrightarrow> index_ok mp (local_bound_min md) \<and> index_ok mp (local_bound_max md) \<and>
     ile (local_bound_min md) (local_bound_max md)"

lemma raycastProcess_ok:
  assumes ok: "map_params_ok mp" and rays: "rays_ok mp (camera_pos md)" and max: "0 < max_ray_length mp"
    and t: "grid_typed mp md" and q: "cache_voxel md = []" and cam: "isInMap mp (camera_pos md)"
    and far: "\<forall>p \<in> set (proj_points md). walls_far mp (camera_pos md) p"
    and up: "\<not> local_updated md"
  shows "\<exists>md'. raycastProcess mp md = Inr md' \<and> grid_typed mp md' \<and> cache_voxel md' = [] \<and>
    (local_updated md' \<longrightarrow> region_ok mp md')"
proof (cases "proj_points md = []")
  case True
  with t q up show ?thesis by (simp add: raycastProcess_def)
next
  case False
  let ?cam = "camera_pos md" and ?s = "(md\<lparr>raycast_num := raycast_num md + 1\<rparr>, map_max_boundary mp, map_min_boundary mp)"
  have "round_ok mp ?cam (fst ?s)" using t q by (simp add: round_ok_def)
  then have "\<exists>st. fold_result (cast_point mp) (proj_points md) ?s = Inr st \<and> round_ok mp ?cam (fst st)"
    by (rule fold_result_ok [where P = "\<lambda>st. round_ok mp ?cam (fst st)", rotated])
      (rule cast_point_ok [OF ok rays cam max], use far in auto)
  then obtain md1 lo hi where f: "fold_result (cast_point mp) (proj_points md) ?s = Inr (md1, lo, hi)"
    and r: "round_ok mp ?cam md1" by force
  let ?m = "(update_region mp lo hi md1)\<lparr>local_updated := True\<rparr>"
  have tm: "grid_typed mp ?m" and qm: "list_all (address_ok mp) (cache_voxel ?m)"
    using r same_map_typed [OF update_region_same, of mp md1]
    by (auto simp: round_ok_def grid_typed_def) (simp_all add: update_region_def Let_def)
  let ?u = "boundIndex mp (posToIndex mp (vsub (camera_pos ?m) (local_update_range mp)))"
    and ?v = "boundIndex mp (posToIndex mp (vadd (camera_pos ?m) (local_update_range mp)))"
  let ?P = "\<lambda>s. grid_typed mp s \<and> local_bound_min s = local_bound_min ?m \<and> local_bound_max s = local_bound_max ?m"
  have "\<exists>s. fold_result (fuse_voxel mp ?u ?v) (cache_voxel ?m) ?m = Inr s \<and> ?P s"
  proof (rule fold_result_ok [where P = ?P])
    fix c s
    assume c: "c \<in> set (cache_voxel ?m)" and s: "?P s"
    from qm c have "address_ok mp c" by (simp add: list_all_iff)
    with fuse_voxel_ok [OF ok] s obtain s' where s': "fuse_voxel mp ?u ?v c s = Inr s'" "grid_typed mp s'" by blast
    with fuse_voxel_frame [OF s'(1)] s show "\<exists>t. fuse_voxel mp ?u ?v c s = Inr t \<and> ?P t" by auto
  qed (use tm in simp)
  then obtain s where s: "fold_result (fuse_voxel mp ?u ?v) (cache_voxel ?m) ?m = Inr s" "?P s" by blast
  then have "fuse_cache mp ?m = Inr (s\<lparr>cache_voxel := []\<rparr>)" by (simp add: fuse_cache_def Let_def)
  moreover have "region_ok mp s" using s(2) update_region_bounds [OF ok] by (simp add: region_ok_def)
  ultimately show ?thesis using False f s(2) by (simp add: raycastProcess_def region_ok_def)
qed

text \<open>No part of a round resizes the vector of points.\<close>

lemma setCacheOccupancy_capacity:
  "setCacheOccupancy mp pos occ md = Inr (adr, md') \<Longrightarrow> proj_capacity md' = proj_capacity md"
  unfolding setCacheOccupancy_def Let_def
  by (cases "occ = 1"; cases "occ = 0"; clarsimp simp: store_at_Inr)

lemma cast_point_capacity:
  assumes "cast_point mp p st = Inr st'"
  shows "proj_capacity (fst st') = proj_capacity (fst st)"
  by (rule cast_point_inv [where P = "\<lambda>s. proj_capacity s = proj_capacity (fst st)", OF _ _ _ assms])
    (simp_all add: setCacheOccupancy_capacity)

lemma fuse_voxel_capacity: "fuse_voxel mp lo hi c md = Inr md' \<Longrightarrow> proj_capacity md' = proj_capacity md"
  by (auto simp: fuse_voxel_def Let_def)

lemma raycastProcess_capacity:
  assumes "raycastProcess mp md = Inr md'"
  shows "proj_capacity md' = proj_capacity md"
proof (cases "proj_points md = []")
  case True
  with assms show ?thesis by (simp add: raycastProcess_def)
next
  case False
  let ?s = "(md\<lparr>raycast_num := raycast_num md + 1\<rparr>, map_max_boundary mp, map_min_boundary mp)"
  from False assms obtain md1 lo hi where f: "fold_result (cast_point mp) (proj_points md) ?s = Inr (md1, lo, hi)"
    and q: "fuse_cache mp ((update_region mp lo hi md1)\<lparr>local_updated := True\<rparr>) = Inr md'"
    by (auto simp: raycastProcess_def)
  have "proj_capacity (fst (md1, lo, hi)) = proj_capacity md"
    by (rule fold_result_inv [where P = "\<lambda>st. proj_capacity (fst st) = proj_capacity md", OF _ _ f])
      (auto dest: cast_point_capacity)
  moreover from q obtain u v s where s: "fold_result (fuse_voxel mp u v)
      (cache_voxel ((update_region mp lo hi md1)\<lparr>local_updated := True\<rparr>)) ((update_region mp lo hi md1)\<lparr>local_updated := True\<rparr>) = Inr s"
    "md' = s\<lparr>cache_voxel := []\<rparr>" by (auto simp: fuse_cache_def Let_def)
  moreover have "proj_capacity s = proj_capacity md1"
    by (rule fold_result_inv [where P = "\<lambda>s. proj_capacity s = proj_capacity md1", OF _ _ s(1)])
      (auto dest: fuse_voxel_capacity simp: update_region_def Let_def)
  ultimately show ?thesis by simp
qed

end
