(* ===== verification/GridDepth.thy ===== *)
theory GridDepth
  imports GridRays
begin

text \<open>
  The projection of a depth image and the whole update of the map from it.
\<close>

section \<open>The loops over the image\<close>

lemma quotient_le: "0 < s \<Longrightarrow> a div s * s \<le> (a :: int)"
  using pos_mod_sign [of s a] div_mult_mod_eq [of a s] by linarith

lemma strides_ok:
  assumes "0 < s"
  shows "\<exists>vs. strides lo hi s = Inr vs \<and> (\<forall>v \<in> set vs. lo \<le> v \<and> v < hi) \<and>
    int (length vs) = (if lo \<ge> hi then 0 else (hi - lo + s - 1) div s)"
proof (cases "lo \<ge> hi")
  case True
  then show ?thesis by (simp add: strides_def)
next
  case False
  let ?n = "(hi - lo + s - 1) div s"
  have n: "0 \<le> ?n" using False assms by (simp add: pos_imp_zdiv_nonneg_iff)
  have "lo + int k * s < hi" if "k < nat ?n" for k
  proof -
    have "int k + 1 \<le> ?n" using that n by linarith
    then have "(int k + 1) * s \<le> ?n * s" using assms by (intro mult_right_mono) auto
    also have "?n * s \<le> hi - lo + s - 1" using assms by (rule quotient_le)
    finally show ?thesis by (simp add: algebra_simps)
  qed
  with False assms n show ?thesis by (auto simp: strides_def)
qed

text \<open>The number of points fits the vector that \<open>initMap\<close> sized.\<close>

lemma points_fit:
  fixes s m :: int
  assumes "0 < s" "s \<le> m" "a = (if m \<ge> 480 - m then 0 else (480 - m - m + s - 1) div s)"
    "b = (if m \<ge> 640 - m then 0 else (640 - m - m + s - 1) div s)"
  shows "0 \<le> a" "0 \<le> b" "a * b \<le> 640 * 480 div s div s"
proof -
  have a: "0 \<le> a" "a \<le> 480 div s" and b: "0 \<le> b" "b \<le> 640 div s"
    using assms by (auto simp: pos_imp_zdiv_nonneg_iff intro!: zdiv_mono1)
  show "0 \<le> a" "0 \<le> b" using a b by simp_all
  have "(480 div s) * s \<le> 480" "(640 div s) * s \<le> 640" using assms(1) by (simp_all add: quotient_le [of s])
  then have "((480 div s) * s) * ((640 div s) * s) \<le> 480 * 640"
    using assms(1) by (intro mult_mono) (auto simp: pos_imp_zdiv_nonneg_iff)
  then have "(480 div s) * (640 div s) * (s * s) \<le> 640 * 480" by (simp add: algebra_simps)
  then have "(480 div s) * (640 div s) * (s * s) div (s * s) \<le> 640 * 480 div (s * s)"
    using assms(1) by (intro zdiv_mono1) auto
  then have "(480 div s) * (640 div s) \<le> 640 * 480 div (s * s)" using assms(1) by simp
  moreover have "a * b \<le> (480 div s) * (640 div s)" using a b by (intro mult_mono) auto
  moreover have "(640 * 480 :: int) div (s * s) = 640 * 480 div s div s" using assms(1) by (simp add: zdiv_zmult2_eq)
  ultimately show "a * b \<le> 640 * 480 div s div s" by linarith
qed

section \<open>The projection\<close>

text \<open>
  A camera of the supported size: 640 by 480 pixels and a margin of at least one stride.  The
  margin is what keeps the pixel that is tested for zero, one stride ahead, inside the image.
\<close>

definition camera_ok :: "mapping_parameters \<Rightarrow> bool" where
  "camera_ok mp \<longleftrightarrow>
     use_depth_filter mp \<and> 0 < skip_pixel mp \<and> skip_pixel mp \<le> depth_filter_margin mp \<and>
     0 < k_depth_scaling_factor mp \<and> cam_fx mp \<noteq> 0 \<and> cam_fy mp \<noteq> 0 \<and> 0 < max_ray_length mp \<and>
     0 \<le> inf_step mp \<and> 0 \<le> local_map_margin mp"

definition vga :: "depth_picture \<Rightarrow> bool" where
  "vga img \<longleftrightarrow> img_rows img = 480 \<and> img_cols img = 640 \<and> length (pixels img) = 640 * 480"

text \<open>Whatever the pixels show, no wall of the map is nearer than a thousandth of the way to it.\<close>

definition view_ok :: "mapping_parameters \<Rightarrow> mapping_data \<Rightarrow> bool" where
  "view_ok mp md \<longleftrightarrow>
     (\<forall>u v d. 0 \<le> u \<and> u < 640 \<and> 0 \<le> v \<and> v < 480 \<and> 0 \<le> d \<and>
        d \<le> max (depth_filter_maxdist mp) (max_ray_length mp + 1 / 10) \<longrightarrow>
        walls_far mp (camera_pos md)
          (to_world md (Vec3 ((of_int u - cam_cx mp) * d / cam_fx mp) ((of_int v - cam_cy mp) * d / cam_fy mp) d)))"

text \<open>Between two callbacks.\<close>

definition grid_ready :: "mapping_parameters \<Rightarrow> mapping_data \<Rightarrow> bool" where
  "grid_ready mp md \<longleftrightarrow>
     grid_typed mp md \<and> cache_voxel md = [] \<and> \<not> local_updated md \<and>
     proj_capacity md = 640 * 480 div skip_pixel mp div skip_pixel mp"

definition projecting :: "mapping_parameters \<Rightarrow> mapping_data \<Rightarrow> mapping_data \<Rightarrow> bool" where
  "projecting mp md s \<longleftrightarrow>
     depth_image s = depth_image md \<and> camera_pos s = camera_pos md \<and> camera_r_m s = camera_r_m md \<and>
     proj_capacity s = proj_capacity md \<and> cache_voxel s = cache_voxel md \<and> local_updated s = local_updated md \<and>
     (\<forall>p \<in> set (proj_points s). walls_far mp (camera_pos md) p)"

lemma filtered_pixel_ok:
  assumes cam: "camera_ok mp" and img: "vga (depth_image md)" and view: "view_ok mp md"
    and v: "0 \<le> v" "v < 480" and u: "0 \<le> u" "u < 640 - depth_filter_margin mp"
    and s: "projecting mp md s" and room: "length (proj_points s) + 1 \<le> nat (proj_capacity md)"
  shows "\<exists>t. filtered_pixel mp v u s = Inr t \<and> projecting mp md t \<and> length (proj_points t) \<le> length (proj_points s) + 1"
proof -
  have img': "img_cols (depth_image s) = 640" "length (pixels (depth_image s)) = 640 * 480"
    using img s by (simp_all add: vga_def projecting_def)
  have push: "\<exists>t. bind_result (pinhole mp u v d) (\<lambda>p. push_point (to_world s p) s) = Inr t \<and> projecting mp md t \<and>
      length (proj_points t) \<le> length (proj_points s) + 1"
    if d: "0 \<le> d" "d \<le> max (depth_filter_maxdist mp) (max_ray_length mp + 1 / 10)" for d
  proof -
    let ?p = "Vec3 ((of_int u - cam_cx mp) * d / cam_fx mp) ((of_int v - cam_cy mp) * d / cam_fy mp) d"
    have "u < 640" using u cam by (simp add: camera_ok_def)
    then have "walls_far mp (camera_pos md) (to_world md ?p)" using view u v d by (simp add: view_ok_def)
    moreover have "to_world s ?p = to_world md ?p" using s by (simp add: to_world_def projecting_def)
    ultimately show ?thesis using cam s room
      by (auto simp: pinhole_def camera_ok_def push_point_def projecting_def)
  qed
  let ?a = "v * 640 + u"
  have a: "0 \<le> ?a" "?a + skip_pixel mp < 640 * 480" "0 \<le> ?a + skip_pixel mp" "?a < 640 * 480"
    using u v cam by (auto simp: camera_ok_def)
  let ?d = "real (unat (pixels (depth_image s) ! nat ?a)) * (1 / k_depth_scaling_factor mp)"
  have "0 \<le> ?d" using cam by (intro mult_nonneg_nonneg of_nat_0_le_iff) (simp add: camera_ok_def)
  then show ?thesis
    using push [of ?d] push [of "max_ray_length mp + 1 / 10"] cam a img' s
    by (auto simp: filtered_pixel_def Let_def camera_ok_def)
qed

lemma project_pixels_ok:
  assumes cam: "camera_ok mp" and img: "vga (depth_image md)" and view: "view_ok mp md"
    and cap: "proj_capacity md = 640 * 480 div skip_pixel mp div skip_pixel mp"
  shows "\<exists>s. project_pixels mp (md\<lparr>proj_points := []\<rparr>) = Inr s \<and> projecting mp md s"
proof -
  let ?m = "depth_filter_margin mp" and ?s = "skip_pixel mp" and ?md = "md\<lparr>proj_points := []\<rparr>"
  have init: "projecting mp md ?md" by (simp add: projecting_def)
  have s: "0 < ?s" "?s \<le> ?m" using cam by (simp_all add: camera_ok_def)
  show ?thesis
  proof (cases "has_first_depth md")
    case False
    then show ?thesis using cam by (simp add: project_pixels_def camera_ok_def projecting_def Let_def)
  next
    case True
    from strides_ok [OF s(1), of ?m "480 - ?m"] obtain vs where vs: "strides ?m (480 - ?m) ?s = Inr vs"
      "\<forall>v \<in> set vs. ?m \<le> v \<and> v < 480 - ?m" "int (length vs) = (if ?m \<ge> 480 - ?m then 0 else (480 - ?m - ?m + ?s - 1) div ?s)" by blast
    from strides_ok [OF s(1), of ?m "640 - ?m"] obtain us where us: "strides ?m (640 - ?m) ?s = Inr us"
      "\<forall>u \<in> set us. ?m \<le> u \<and> u < 640 - ?m" "int (length us) = (if ?m \<ge> 640 - ?m then 0 else (640 - ?m - ?m + ?s - 1) div ?s)" by blast
    let ?N = "nat (proj_capacity md)"
    have "int (length vs) * int (length us) \<le> proj_capacity md"
      using points_fit(3) [OF s vs(3) us(3)] cap by simp
    then have fit: "length vs * length us \<le> ?N" by (metis nat_int nat_mono of_nat_mult)
    have row: "\<exists>t. fold_result (filtered_pixel mp v) us q = Inr t \<and> projecting mp md t \<and>
        length (proj_points t) \<le> length (proj_points q) + length us"
      if "v \<in> set vs" "projecting mp md q" "length (proj_points q) + length us \<le> ?N" for v q
    proof -
      have v: "0 \<le> v" "v < 480" using that(1) vs(2) s by fastforce+
      have "\<exists>t. fold_result (filtered_pixel mp v) us q = Inr t \<and> projecting mp md t \<and>
          length (proj_points t) \<le> length (proj_points q) + length us * 1"
      proof (rule fold_result_bounded [where P = "projecting mp md" and m = "\<lambda>q. length (proj_points q)" and N = ?N])
        fix u q
        assume q: "u \<in> set us" "projecting mp md q" "length (proj_points q) + 1 \<le> ?N"
        then have "0 \<le> u" "u < 640 - ?m" using us(2) s by fastforce+
        from filtered_pixel_ok [OF cam img view v this q(2,3)]
        show "\<exists>t. filtered_pixel mp v u q = Inr t \<and> projecting mp md t \<and> length (proj_points t) \<le> length (proj_points q) + 1" .
      qed (use that in simp_all)
      then show ?thesis by simp
    qed
    have "\<exists>t. fold_result (\<lambda>v q. fold_result (filtered_pixel mp v) us q) vs ?md = Inr t \<and> projecting mp md t \<and>
        length (proj_points t) \<le> length (proj_points ?md) + length vs * length us"
      by (rule fold_result_bounded [where P = "projecting mp md" and m = "\<lambda>q. length (proj_points q)" and N = ?N])
        (use row init fit in auto)
    then show ?thesis using True img cam vs(1) us(1)
      by (auto simp: project_pixels_def camera_ok_def vga_def Let_def)
  qed
qed

lemma projectDepthImage_ok:
  assumes "camera_ok mp" "vga (depth_image md)" "view_ok mp md" and r: "grid_ready mp md"
  shows "\<exists>s. projectDepthImage mp md = Inr s \<and> grid_ready mp s \<and> camera_pos s = camera_pos md \<and>
    (\<forall>p \<in> set (proj_points s). walls_far mp (camera_pos md) p)"
proof -
  from project_pixels_ok [OF assms(1-3)] r obtain s where
    s: "project_pixels mp (md\<lparr>proj_points := []\<rparr>) = Inr s" "projecting mp md s" by (auto simp: grid_ready_def)
  then have "projectDepthImage mp md = Inr (s\<lparr>last_camera_pos := camera_pos s, last_camera_r_m := camera_r_m s,
      last_depth_image := depth_image s\<rparr>)" by (simp add: projectDepthImage_def)
  with projectDepthImage_typed [OF _ this] r s(2) show ?thesis by (auto simp: grid_ready_def projecting_def)
qed

end
