(* ===== verification/GridProps.thy ===== *)
theory GridProps
  imports GridDepth
begin

text \<open>
  The properties of the occupancy map, from its construction on: the type of its state, its queries,
  the map a cloud leaves, the inflation, and the update from a depth image.
\<close>

section \<open>Publishing\<close>

lemma cloud_of_ok:
  assumes "\<And>c. c \<in> set cs \<Longrightarrow> \<exists>b. shown (toAddress mp c) = Inr b"
  shows "\<exists>ps. cloud_of mp shown cs = Inr ps"
  using assms
proof (induction cs)
  case Nil
  then show ?case by simp
next
  case (Cons c cs)
  then obtain b ps where "shown (toAddress mp c) = Inr b" "cloud_of mp shown cs = Inr ps" by fastforce
  then show ?case by simp
qed

lemma cut_box_address:
  "map_params_ok mp \<Longrightarrow> c \<in> set (cut_box mp l md) \<Longrightarrow> 0 \<le> toAddress mp c \<and> toAddress mp c < buffer_size mp"
  unfolding cut_box_def by (intro address_range box_index_ok [OF boundIndex_ok boundIndex_ok])

lemma publish_ok:
  assumes ok: "map_params_ok mp" and t: "grid_typed mp md"
  shows "\<exists>r. publishMap mp n md = Inr r" "\<exists>r. publishMapInflate mp n b md = Inr r"
proof -
  note len = typed_lengths [OF t]
  have "\<exists>ps. cloud_of mp (\<lambda>adr. bind_result (fetch_at (occupancy_buffer md) adr)
      (\<lambda>odds. Inr (\<not> odds < min_occupancy_log mp))) (cut_box mp l md) = Inr ps" for l
    by (rule cloud_of_ok) (use cut_box_address [OF ok] buffer_size_pos [OF ok] in \<open>auto simp: len fetch_at_def\<close>)
  then show "\<exists>r. publishMap mp n md = Inr r" by (auto simp: publishMap_def int_div_def)
  have "\<exists>ps. cloud_of mp (\<lambda>adr. bind_result (fetch_at (occupancy_buffer_inflate md) adr)
      (\<lambda>f. Inr (f \<noteq> 0))) (cut_box mp l md) = Inr ps" for l
    by (rule cloud_of_ok) (use cut_box_address [OF ok] buffer_size_pos [OF ok] in \<open>auto simp: len fetch_at_def\<close>)
  then show "\<exists>r. publishMapInflate mp n b md = Inr r" by (auto simp: publishMapInflate_def)
qed

section \<open>Every event keeps the type\<close>

lemma callbacks_typed:
  "grid_typed mp md \<Longrightarrow> grid_typed mp (depthPoseCallback mp' img pos q md)"
  "grid_typed mp md \<Longrightarrow> grid_typed mp (depthOdomCallback img pos q md)"
  "grid_typed mp md \<Longrightarrow> grid_typed mp (extrinsicCallback pos q md)"
  "grid_typed mp md \<Longrightarrow> grid_typed mp (odomCallback_grid pos md)"
  by (auto simp: depthPoseCallback_def depthOdomCallback_def extrinsicCallback_def odomCallback_grid_def
      grid_typed_def Let_def split: prod.splits)

lemma cloudCallback_typed:
  assumes ok: "map_params_ok mp" and t: "grid_typed mp md"
  shows "\<exists>md'. cloudCallback mp pts md = Inr md' \<and> grid_typed mp md'"
proof (cases "has_odom md \<and> pts \<noteq> []")
  case True
  with cloudCallback_exact [OF ok t] show ?thesis by blast
next
  case False
  with t show ?thesis by (auto simp: cloudCallback_def grid_typed_def Let_def)
qed

lemma updateOccupancy_typed:
  assumes ok: "map_params_ok mp" and t: "grid_typed mp md" and r: "updateOccupancyCallback mp now md = Inr md'"
  shows "grid_typed mp md'"
proof -
  define m where "m = (if last_occ_update_time md < 1 then md\<lparr>last_occ_update_time := now 0\<rparr> else md)"
  have m: "grid_typed mp m" using t by (simp add: m_def grid_typed_def)
  show ?thesis
  proof (cases "occ_need_update m")
    case False
    with r m show ?thesis
      by (auto simp: updateOccupancyCallback_def m_def [symmetric] Let_def) (simp_all add: grid_typed_def)
  next
    case True
    have m1: "grid_typed mp (m\<lparr>last_occ_update_time := now 1\<rparr>)" using m by (simp add: grid_typed_def)
    from True r obtain a b c where a: "projectDepthImage mp (m\<lparr>last_occ_update_time := now 1\<rparr>) = Inr a"
      and b: "raycastProcess mp a = Inr b" and c: "(if local_updated b then clearAndInflateLocalMap mp b else Inr b) = Inr c"
      and md': "md' = c\<lparr>occ_need_update := False, local_updated := False\<rparr>"
      by (auto simp: updateOccupancyCallback_def m_def [symmetric] Let_def)
    from raycastProcess_typed [OF ok projectDepthImage_typed [OF m1 a] b] c have "grid_typed mp c"
      by (auto split: if_splits intro: clearAndInflate_typed)
    with md' show ?thesis by (simp add: grid_typed_def)
  qed
qed

lemma grid_handle_typed:
  assumes "map_params_ok mp" "grid_typed mp md" "grid_handle mp ev md = Inr md'"
  shows "grid_typed mp md'"
proof (cases ev)
  case (Cloud pts)
  with assms cloudCallback_typed [OF assms(1,2), of pts] show ?thesis by auto
next
  case (OccTimer now)
  with assms updateOccupancy_typed [OF assms(1,2)] show ?thesis by simp
qed (use assms callbacks_typed [OF assms(2)] in \<open>auto split: if_splits\<close>)

interpretation grid: event_machine "grid_handle mp" "\<lambda>_. True" "\<lambda>md. map_params_ok mp \<and> grid_typed mp md" for mp
  by unfold_locales (auto intro: grid_handle_typed)

text \<open>
  The mode without a camera: no depth image arrives, the obstacles come as clouds.  The timers run
  in this mode too.
\<close>

fun cloud_event :: "grid_event \<Rightarrow> bool" where
  "cloud_event (DepthPose img pos q) = False"
| "cloud_event (DepthOdom img pos q) = False"
| "cloud_event ev = True"

definition cloud_inv :: "mapping_parameters \<Rightarrow> mapping_data \<Rightarrow> bool" where
  "cloud_inv mp md \<longleftrightarrow> map_params_ok mp \<and> grid_typed mp md \<and> \<not> occ_need_update md"

lemma cloudCallback_need: "cloudCallback mp pts md = Inr md' \<Longrightarrow> occ_need_update md' = occ_need_update md"
  by (auto simp: cloudCallback_def Let_def resetBuffer_range_def update_region_def split: if_splits)

lemma cloud_handle_ok:
  assumes "cloud_inv mp md" "cloud_event ev"
  shows "\<exists>md'. grid_handle mp ev md = Inr md' \<and> cloud_inv mp md'"
proof -
  have c: "map_params_ok mp" "grid_typed mp md" "\<not> occ_need_update md" using assms(1) by (simp_all add: cloud_inv_def)
  have "\<exists>md'. grid_handle mp ev md = Inr md' \<and> \<not> occ_need_update md'"
  proof (cases ev)
    case (Cloud pts)
    with cloudCallback_typed [OF c(1,2), of pts] c(3) cloudCallback_need show ?thesis by fastforce
  next
    case (VisTimer a b)
    with publish_ok(1) [OF c(1,2), of b] publish_ok(2) [OF c(1,2), of a True] c(3) show ?thesis by auto
  qed (use assms(2) c(3) in \<open>auto simp: updateOccupancyCallback_def extrinsicCallback_def odomCallback_grid_def Let_def split: prod.splits\<close>)
  with grid_handle_typed [OF c(1,2)] c(1) show ?thesis by (auto simp: cloud_inv_def)
qed

interpretation cloud: safe_machine "grid_handle mp" cloud_event "cloud_inv mp" for mp
  by unfold_locales (use cloud_handle_ok in fastforce)+

lemma ready_clock [simp]:
  "grid_ready mp (md\<lparr>last_occ_update_time := t\<rparr>) = grid_ready mp md"
  "grid_ready mp (md\<lparr>flag_depth_odom_timeout := b\<rparr>) = grid_ready mp md"
  by (simp_all add: grid_ready_def grid_typed_def)

section \<open>Queries\<close>

lemma inflate_lookup:
  assumes "map_params_ok mp" "grid_typed mp md" "index_ok mp c"
  shows "fetch_at (occupancy_buffer_inflate md) (toAddress mp c) = Inr (occupancy_buffer_inflate md ! nat (toAddress mp c))"
    and "occupancy_buffer_inflate md ! nat (toAddress mp c) \<in> {0, 1}"
proof -
  have a: "0 \<le> toAddress mp c" "toAddress mp c < int (length (occupancy_buffer_inflate md))"
    using address_range [OF assms(3)] by (simp_all add: typed_lengths [OF assms(2)])
  then show "fetch_at (occupancy_buffer_inflate md) (toAddress mp c) = Inr (occupancy_buffer_inflate md ! nat (toAddress mp c))"
    by simp
  have "list_all (\<lambda>f. f = 0 \<or> f = 1) (occupancy_buffer_inflate md)" using assms(2) by (simp add: grid_typed_def)
  moreover have "nat (toAddress mp c) < length (occupancy_buffer_inflate md)" using a by linarith
  ultimately show "occupancy_buffer_inflate md ! nat (toAddress mp c) \<in> {0, 1}" by (simp add: list_all_length)
qed

lemma getInflateOccupancy_in:
  assumes "map_params_ok mp" "grid_typed mp md" "isInMap mp pos"
  shows "getInflateOccupancy mp md pos = Inr (occupancy_buffer_inflate md ! nat (toAddress mp (posToIndex mp pos)))"
  using assms inflate_lookup [OF assms(1,2) posToIndex_ok [OF assms(1) isInMap_in_bounds [OF assms(3)]]]
  by (simp add: getInflateOccupancy_def)

lemma getInflateOccupancy_cases:
  assumes "map_params_ok mp" "grid_typed mp md"
  shows "getInflateOccupancy mp md pos \<in> (if isInMap mp pos then {Inr 0, Inr 1} else {Inr (- 1)})"
  using getInflateOccupancy_in [OF assms] inflate_lookup(2) [OF assms posToIndex_ok [OF assms(1) isInMap_in_bounds]]
  by (auto simp: getInflateOccupancy_def)

lemma odds_lookup:
  assumes "map_params_ok mp" "grid_typed mp md"
  shows "\<exists>v. fetch_at (occupancy_buffer md) (toAddress mp (boundIndex mp c)) = Inr v \<and> odds_ok mp v"
proof -
  let ?a = "toAddress mp (boundIndex mp c)"
  have a: "0 \<le> ?a" "?a < int (length (occupancy_buffer md))"
    using address_range [OF boundIndex_ok [OF assms(1)], of c] by (simp_all add: typed_lengths [OF assms(2)])
  have "list_all (odds_ok mp) (occupancy_buffer md)" using assms(2) by (simp add: grid_typed_def)
  moreover have "nat ?a < length (occupancy_buffer md)" using a by linarith
  ultimately show ?thesis using a by (simp add: list_all_length)
qed

text \<open>The values of the parameter server that make a map.\<close>

definition settings_ok :: "node_handle \<Rightarrow> bool" where
  "settings_ok nh \<longleftrightarrow>
     0 < param_real nh ''resolution'' (- 1) \<and> 0 < param_real nh ''map_size_x'' (- 1) \<and>
     0 < param_real nh ''map_size_y'' (- 1) \<and> 0 < param_real nh ''map_size_z'' (- 1) \<and>
     0 < param_real nh ''p_min'' (12 / 100) \<and>
     param_real nh ''p_min'' (12 / 100) \<le> param_real nh ''p_max'' (97 / 100) \<and>
     param_real nh ''p_max'' (97 / 100) < 1"

lemma initMap_ok:
  assumes "settings_ok nh" "initMap nh fresh = Inr (mp, md)"
  shows "map_params_ok mp" "grid_typed mp md" "\<not> occ_need_update md" "\<not> local_updated md"
proof -
  from assms(2) have "init_parameters nh = Inr mp" by (auto simp: initMap_def Let_def split: if_splits)
  with assms(1) show "map_params_ok mp" by (intro init_parameters_ok) (auto simp: settings_ok_def)
  show "grid_typed mp md" "\<not> local_updated md" using initMap_typed [OF assms(2)] by auto
  show "\<not> occ_need_update md" using assms(2) by (auto simp: initMap_def Let_def split: if_splits)
qed

section \<open>Properties\<close>

text \<open>
  C27: The type of the map.  From \<open>initMap\<close> with sensible parameters on, every sequence of events
  that does not fail (depth images, poses, clouds, timers, extrinsics, in any order) leaves a state
  in which the six buffers (the two occupancy maps, the two counters, the two ray marks) have the
  size of the map, the inflated map holds only 0 and 1, and the log-odds of every voxel are the mark of
  an unknown voxel or lie between the clamps.  So the query the planner uses answers -1
  exactly outside the map and 0 or 1 inside, without a read outside the buffer, and the other queries
  never fail.
\<close>

theorem grid_stays_typed:
  assumes "settings_ok nh" "initMap nh fresh = Inr (mp, md0)" "run_events (grid_handle mp) evs md0 = Inr md"
  shows "length (occupancy_buffer md) = nat (buffer_size mp) \<and> length (occupancy_buffer_inflate md) = nat (buffer_size mp) \<and>
    length (count_hit md) = nat (buffer_size mp) \<and> length (count_hit_and_miss md) = nat (buffer_size mp) \<and>
    length (flag_traverse md) = nat (buffer_size mp) \<and> length (flag_rayend md) = nat (buffer_size mp) \<and>
    set (occupancy_buffer_inflate md) \<subseteq> {0, 1} \<and>
    set (occupancy_buffer md) \<subseteq> {clamp_min_log mp - unknown_flag mp} \<union> {clamp_min_log mp..clamp_max_log mp} \<and>
    getInflateOccupancy mp md pos \<in> (if isInMap mp pos then {Inr 0, Inr 1} else {Inr (- 1)}) \<and>
    (\<exists>v. fetch_at (occupancy_buffer md) (toAddress mp (boundIndex mp c)) = Inr v \<and>
       isUnknown mp md c = Inr (v < clamp_min_log mp - 1 / 1000) \<and>
       (v = clamp_min_log mp - unknown_flag mp \<or> clamp_min_log mp \<le> v \<and> v \<le> clamp_max_log mp)) \<and>
    is_ok (isKnownFree mp md c) \<and> is_ok (isKnownOccupied mp md c) \<and> is_ok (getOccupancy mp md pos) \<and>
    is_ok (getOccupancy_idx mp md c)"
proof -
  from grid.run_inv [OF _ _ assms(3)] initMap_ok [OF assms(1,2)]
  have ok: "map_params_ok mp" and t: "grid_typed mp md" by (auto simp: list_all_iff)
  from odds_lookup [OF ok t] obtain v where v: "fetch_at (occupancy_buffer md) (toAddress mp (boundIndex mp c)) = Inr v"
    "odds_ok mp v" by blast
  have r: "\<exists>w. fetch_at (occupancy_buffer md) (toAddress mp d) = Inr w" if "index_ok mp d" for d
    using odds_lookup [OF ok t, of d] boundIndex_id [OF that] by auto
  have p: "\<exists>w. fetch_at (occupancy_buffer md) (toAddress mp (posToIndex mp pos)) = Inr w" if "isInMap mp pos"
    by (rule r [OF posToIndex_ok [OF ok isInMap_in_bounds [OF that]]])
  have q: "is_ok (getOccupancy mp md pos)" using p by (auto simp: getOccupancy_def)
  have q': "is_ok (getOccupancy_idx mp md c)"
    using r [of c] by (auto simp: getOccupancy_idx_def index_ok_def)
  have size: "length (occupancy_buffer md) = nat (buffer_size mp) \<and> length (occupancy_buffer_inflate md) = nat (buffer_size mp) \<and>
    length (count_hit md) = nat (buffer_size mp) \<and> length (count_hit_and_miss md) = nat (buffer_size mp) \<and>
    length (flag_traverse md) = nat (buffer_size mp) \<and> length (flag_rayend md) = nat (buffer_size mp)"
    by (simp add: typed_lengths [OF t])
  have range: "set (occupancy_buffer_inflate md) \<subseteq> {0, 1}"
    "set (occupancy_buffer md) \<subseteq> {clamp_min_log mp - unknown_flag mp} \<union> {clamp_min_log mp..clamp_max_log mp}"
    using t by (auto simp: grid_typed_def odds_ok_def list_all_iff)
  have unknown: "isUnknown mp md c = Inr (v < clamp_min_log mp - 1 / 1000)"
    "v = clamp_min_log mp - unknown_flag mp \<or> clamp_min_log mp \<le> v \<and> v \<le> clamp_max_log mp"
    "is_ok (isKnownFree mp md c)" "is_ok (isKnownOccupied mp md c)"
    using v inflate_lookup(1) [OF ok t boundIndex_ok [OF ok]]
    by (auto simp: isUnknown_def isKnownFree_def isKnownOccupied_def odds_ok_def Let_def)
  from size range getInflateOccupancy_cases [OF ok t] v(1) unknown q q' show ?thesis by blast
qed

text \<open>
  C11: In the mode without a camera no sequence of events has an undefined result: whatever
  clouds, odometry, extrinsics and timers arrive after \<open>initMap\<close>, every callback returns, no buffer
  is accessed outside its bounds, and the planner's query answers -1 exactly outside the map and 0
  or 1 inside.
\<close>

theorem grid_cloud_safe:
  assumes "settings_ok nh" "initMap nh fresh = Inr (mp, md0)" "list_all cloud_event evs"
  shows "\<exists>md. run_events (grid_handle mp) evs md0 = Inr md \<and>
    (\<forall>pos. getInflateOccupancy mp md pos \<in> (if isInMap mp pos then {Inr 0, Inr 1} else {Inr (- 1)}))"
proof -
  have "cloud_inv mp md0" using initMap_ok [OF assms(1,2)] by (simp add: cloud_inv_def)
  from cloud.run_ok [OF this assms(3)] obtain md where "run_events (grid_handle mp) evs md0 = Inr md" "cloud_inv mp md"
    by blast
  with getInflateOccupancy_cases show ?thesis by (auto simp: cloud_inv_def)
qed

text \<open>
  C19: The map a cloud leaves, for every position of the map.  It is blocked when the inflation of
  a point of the cloud within the update range reaches its voxel; it is free when no point does and
  its voxel lies in the update range around the camera; otherwise it is as before.  So no point in
  range is lost, and nothing is blocked in range without a point.
\<close>

theorem cloud_map_exact:
  assumes "map_params_ok mp" "grid_typed mp md" "has_odom md" "pts \<noteq> []"
  shows "\<exists>md'. cloudCallback mp pts md = Inr md' \<and>
    (\<forall>pos. isInMap mp pos \<longrightarrow> getInflateOccupancy mp md' pos =
      (if list_ex (\<lambda>pt. near_camera mp (camera_pos md) pt \<and> blocks mp pt (posToIndex mp pos)) pts then Inr 1
       else if in_box (boundIndex mp (posToIndex mp (vsub (camera_pos md) (local_update_range mp))))
                      (boundIndex mp (posToIndex mp (vadd (camera_pos md) (local_update_range mp)))) (posToIndex mp pos) then Inr 0
       else getInflateOccupancy mp md pos))"
proof -
  from cloudCallback_exact [OF assms] obtain md' where md': "cloudCallback mp pts md = Inr md'" "grid_typed mp md'"
    and ex: "\<forall>c. index_ok mp c \<longrightarrow> occupancy_buffer_inflate md' ! nat (toAddress mp c) =
      (if list_ex (\<lambda>pt. near_camera mp (camera_pos md) pt \<and> blocks mp pt c) pts then 1
       else if in_box (boundIndex mp (posToIndex mp (vsub (camera_pos md) (local_update_range mp))))
                      (boundIndex mp (posToIndex mp (vadd (camera_pos md) (local_update_range mp)))) c then 0
       else occupancy_buffer_inflate md ! nat (toAddress mp c))" by blast
  have "index_ok mp (posToIndex mp pos)" if "isInMap mp pos" for pos
    using posToIndex_ok [OF assms(1) isInMap_in_bounds [OF that]] .
  with md' ex getInflateOccupancy_in [OF assms(1)] assms(2) show ?thesis by auto
qed

text \<open>
  C28: What \<open>clearAndInflateLocalMap\<close> leaves in the inflated map, address by address.  It returns; an
  address of the buffer holds 1 when it is the linear address of an index within \<open>inf_step\<close> on every
  axis of an occupied voxel of the local map (the code tests the address only, so an index outside the
  map marks the voxel its address wraps to), otherwise 0 when it is the address of a voxel of the
  local map, and otherwise what it held before.  So every voxel of the map within \<open>inf_step\<close> voxels of an
  occupied voxel of the local map reads occupied.
\<close>

theorem inflation_exact:
  assumes "map_params_ok mp" "grid_typed mp md" "0 \<le> inf_step mp" "0 \<le> local_map_margin mp" "region_ok mp md"
  shows "\<exists>md'. clearAndInflateLocalMap mp md = Inr md' \<and>
    (\<forall>a. 0 \<le> a \<and> a < buffer_size mp \<longrightarrow> occupancy_buffer_inflate md' ! nat a =
      (if \<exists>c d. in_box (local_bound_min md) (local_bound_max md) c \<and> getOccupancy_idx mp md c = Inr 1 \<and>
            in_box (isub c (icube (inf_step mp))) (iadd c (icube (inf_step mp))) d \<and> toAddress mp d = a then 1
       else if \<exists>c. in_box (local_bound_min md) (local_bound_max md) c \<and> toAddress mp c = a then 0
       else occupancy_buffer_inflate md ! nat a)) \<and>
    (\<forall>c d. in_box (local_bound_min md) (local_bound_max md) c \<and> getOccupancy_idx mp md c = Inr 1 \<and> index_ok mp d \<and>
       in_box (isub c (icube (inf_step mp))) (iadd c (icube (inf_step mp))) d \<longrightarrow> isKnownOccupied mp md' d = Inr True)"
proof -
  let ?lo = "local_bound_min md" and ?hi = "local_bound_max md"
  from assms(5) have reg: "index_ok mp ?lo" "index_ok mp ?hi" "ile ?lo ?hi" by (simp_all add: region_ok_def)
  from clearAndInflate_exact [OF assms(1-4) reg] obtain occ b where
    r: "clearAndInflateLocalMap mp md = Inr (md\<lparr>occupancy_buffer := occ, occupancy_buffer_inflate := b\<rparr>)"
    and t: "grid_typed mp (md\<lparr>occupancy_buffer := occ, occupancy_buffer_inflate := b\<rparr>)"
    and nth: "\<forall>c. index_ok mp c \<longrightarrow> b ! nat (toAddress mp c) =
      (if blocked_by mp md (toAddress mp c) then 1 else if in_box ?lo ?hi c then 0
       else occupancy_buffer_inflate md ! nat (toAddress mp c))" by blast
  let ?md' = "md\<lparr>occupancy_buffer := occ, occupancy_buffer_inflate := b\<rparr>"
  have known: "isKnownOccupied mp md d = Inr (occupancy_buffer_inflate md ! nat (toAddress mp d) = 1)"
    if "index_ok mp d" "grid_typed mp md" for d md
    using inflate_lookup(1) [OF assms(1) that(2,1)] boundIndex_id [OF that(1)] by (simp add: isKnownOccupied_def)
  have local_ok: "index_ok mp c" if "in_box ?lo ?hi c" for c
    using box_index_ok [OF reg(1,2)] that by (simp add: in_box_iff)
  have occupied: "getOccupancy_idx mp md c = Inr 1 \<longleftrightarrow> occupancy_buffer md ! nat (toAddress mp c) > min_occupancy_log mp"
    if "in_box ?lo ?hi c" for c
    using local_ok [OF that] odds_lookup [OF assms(1,2), of c] boundIndex_id [OF local_ok [OF that]]
    by (auto simp: getOccupancy_idx_def index_ok_def fetch_at_Inr split: if_splits)
  have blocked: "blocked_by mp md a \<longleftrightarrow> (\<exists>c d. in_box ?lo ?hi c \<and> getOccupancy_idx mp md c = Inr 1 \<and>
      in_box (isub c (icube (inf_step mp))) (iadd c (icube (inf_step mp))) d \<and> toAddress mp d = a)" for a
    using occupied by (fastforce simp: blocked_by_def reaches_def list_ex_iff inflatePoint_def in_box_iff)
  have cell: "b ! nat a = (if blocked_by mp md a then 1
      else if \<exists>c. in_box ?lo ?hi c \<and> toAddress mp c = a then 0 else occupancy_buffer_inflate md ! nat a)"
    if a: "0 \<le> a" "a < buffer_size mp" for a
  proof -
    obtain c where c: "index_ok mp c" "toAddress mp c = a" by (rule address_surj [OF assms(1) a])
    then have "in_box ?lo ?hi c \<longleftrightarrow> (\<exists>c. in_box ?lo ?hi c \<and> toAddress mp c = a)"
      using address_inj local_ok by metis
    with nth c show ?thesis by auto
  qed
  have "isKnownOccupied mp ?md' d = Inr True"
    if "in_box ?lo ?hi c" "getOccupancy_idx mp md c = Inr 1" "index_ok mp d"
      "in_box (isub c (icube (inf_step mp))) (iadd c (icube (inf_step mp))) d" for c d
  proof -
    have "blocked_by mp md (toAddress mp d)" using blocked that by blast
    with nth that(3) known [OF that(3) t] show ?thesis by simp
  qed
  with r cell [unfolded blocked] show ?thesis by auto
qed

text \<open>
  C10: The update from a depth image stays inside its buffers, under these conditions: the image has
  640 by 480 pixels with a margin of at least the stride, the camera lies in the map, no point that the
  image can show is more than a thousand times further away than a wall of the map, and either
  the origin of the map is a multiple of the resolution, or the map has two voxels or more on the y
  axis and the camera is the length of a ray and two voxels away from the two walls across the x
  axis (\<open>roomy\<close>; the shipped maps are not aligned, their x axis is 50 or 100 m long).  Then
  \<open>updateOccupancyCallback\<close> (projection, rays, fusion, clearing, inflation) returns: no access is
  outside a buffer, no ray goes on for ever, and the map is of the right type and ready for the next
  event.  (Without alignment a ray near a wall may still pass over indices outside the map, whose
  addresses belong to other voxels.)
\<close>

theorem depth_update_safe:
  assumes "map_params_ok mp" "camera_ok mp" "grid_ready mp md"
    and "occ_need_update md \<Longrightarrow> isInMap mp (camera_pos md) \<and> vga (depth_image md) \<and> view_ok mp md
      \<and> ((\<exists>k. aligned mp k) \<or> roomy mp (camera_pos md))"
  shows "\<exists>md'. updateOccupancyCallback mp now md = Inr md' \<and> grid_ready mp md' \<and> \<not> occ_need_update md'"
proof -
  define m where "m = (if last_occ_update_time md < 1 then md\<lparr>last_occ_update_time := now 0\<rparr> else md)"
  have m: "grid_ready mp m" "occ_need_update m = occ_need_update md"
    using assms(3) by (simp_all add: m_def ready_clock)
  show ?thesis
  proof (cases "occ_need_update m")
    case False
    with m(1) show ?thesis
      by (simp add: updateOccupancyCallback_def m_def [symmetric] Let_def)
  next
    case True
    let ?m1 = "m\<lparr>last_occ_update_time := now 1\<rparr>"
    have same: "camera_pos ?m1 = camera_pos md" "depth_image ?m1 = depth_image md" "camera_r_m ?m1 = camera_r_m md"
      by (simp_all add: m_def)
    with True m(2) assms(4) have view: "isInMap mp (camera_pos ?m1)" "vga (depth_image ?m1)" "view_ok mp ?m1"
      and place: "(\<exists>k. aligned mp k) \<or> roomy mp (camera_pos ?m1)"
      by (auto simp: view_ok_def to_world_def)
    have rays: "rays_ok mp (camera_pos ?m1)"
      using place aligned_rays [OF assms(1) _ view(1)] roomy_rays [OF assms(1) _ view(1)] by blast
    have "grid_ready mp ?m1" using m(1) by simp
    from projectDepthImage_ok [OF assms(2) view(2,3) this] obtain a where a: "projectDepthImage mp ?m1 = Inr a"
      "grid_ready mp a" "camera_pos a = camera_pos ?m1" "\<forall>p \<in> set (proj_points a). walls_far mp (camera_pos a) p" by auto
    with raycastProcess_ok [OF assms(1), of a] rays view(1) assms(2) obtain b where b: "raycastProcess mp a = Inr b"
      "grid_typed mp b" "cache_voxel b = []" "local_updated b \<longrightarrow> region_ok mp b"
      by (auto simp: grid_ready_def camera_ok_def)
    have cap: "proj_capacity b = proj_capacity a" using raycastProcess_capacity [OF b(1)] .
    have "\<exists>c. (if local_updated b then clearAndInflateLocalMap mp b else Inr b) = Inr c \<and> grid_typed mp c \<and>
        cache_voxel c = [] \<and> proj_capacity c = proj_capacity b"
    proof (cases "local_updated b")
      case True
      with b(4) have "index_ok mp (local_bound_min b)" "index_ok mp (local_bound_max b)" "ile (local_bound_min b) (local_bound_max b)"
        by (simp_all add: region_ok_def)
      from clearAndInflate_exact [OF assms(1) b(2) _ _ this] assms(2) True b(3) show ?thesis
        by (auto simp: camera_ok_def)
    qed (use b in simp)
    then obtain c where "(if local_updated b then clearAndInflateLocalMap mp b else Inr b) = Inr c" "grid_typed mp c"
      "cache_voxel c = []" "proj_capacity c = proj_capacity b" by blast
    with True a b(1) cap show ?thesis
      by (auto simp: updateOccupancyCallback_def m_def [symmetric] Let_def grid_ready_def grid_typed_def)
  qed
qed

end
