(* ===== verification/GridDemo.thy ===== *)
theory GridDemo
  imports GridProps
begin

text \<open>
  Concrete inputs for the properties of the occupancy map: a map of 8 by 8 by 4 voxels of one
  metre, and a camera of 640 by 480 pixels.
\<close>

definition demo_nh :: node_handle where
  "demo_nh =
     \<lparr>real_param = (\<lambda>s. map_of [(''resolution'', 1), (''map_size_x'', 8), (''map_size_y'', 8), (''map_size_z'', 4),
        (''ground_height'', 0), (''obstacles_inflation'', 1), (''local_update_range_x'', 3), (''local_update_range_y'', 3),
        (''local_update_range_z'', 3), (''cx'', 320), (''cy'', 240), (''fx'', 400), (''fy'', 400),
        (''depth_filter_maxdist'', 2), (''depth_filter_mindist'', 1/5), (''max_ray_length'', 2),
        (''k_depth_scaling_factor'', 1000), (''p_occ'', 1/2)] (drop 9 s)),
      int_param = (\<lambda>s. map_of [(''depth_filter_margin'', 2), (''skip_pixel'', 2)] (drop 9 s)),
      bool_param = Map.empty\<rparr>"

definition demo_mp :: mapping_parameters where
  "demo_mp =
     \<lparr>map_origin = Vec3 (- 4) (- 4) 0, map_size = Vec3 8 8 4, map_min_boundary = Vec3 (- 4) (- 4) 0,
      map_max_boundary = Vec3 4 4 4, map_voxel_num = Vec3i 8 8 4, local_update_range = Vec3 3 3 3,
      resolution = 1, resolution_inv = 1, obstacles_inflation = 1, pose_type = 1,
      cam_cx = 320, cam_cy = 240, cam_fx = 400, cam_fy = 400, odom_depth_timeout = 1,
      depth_filter_maxdist = 2, depth_filter_mindist = 1/5, depth_filter_margin = 2, use_depth_filter = True,
      k_depth_scaling_factor = 1000, skip_pixel = 2,
      prob_hit_log = logit (70 / 100), prob_miss_log = logit (35 / 100), clamp_min_log = logit (12 / 100),
      clamp_max_log = logit (97 / 100), min_occupancy_log = logit (1 / 2), max_ray_length = 2, local_map_margin = 1,
      visualization_truncate_height = - 1 / 10, ground_height = 0, unknown_flag = 1 / 100\<rparr>"

text \<open>The values before \<open>initMap\<close>; any others would do.\<close>

definition blank_picture :: depth_picture where
  "blank_picture = \<lparr>img_rows = 480, img_cols = 640, pixels = replicate (640 * 480) 0\<rparr>"

definition grid_demo_map :: mapping_data where
  "grid_demo_map =
     \<lparr>occupancy_buffer = [], occupancy_buffer_inflate = [], camera_pos = vzero, camera_r_m = Mat3 vzero vzero vzero,
      last_camera_pos = vzero, last_camera_r_m = Mat3 vzero vzero vzero, cam2body = (Mat3 vzero vzero vzero, vzero),
      depth_image = blank_picture, last_depth_image = blank_picture, occ_need_update = False, local_updated = False,
      has_first_depth = False, has_odom = False, has_cloud = False, last_occ_update_time = 0,
      flag_depth_odom_timeout = False, flag_use_depth_fusion = False, proj_points = [], proj_capacity = 0,
      count_hit = [], count_hit_and_miss = [], flag_traverse = [], flag_rayend = [], raycast_num = 0,
      cache_voxel = [], local_bound_min = icube 0, local_bound_max = icube 0, update_num = 0\<rparr>"

lemmas param_simps = param_real_def param_int_def param_bool_def

lemma demo_settings: "settings_ok demo_nh"
  by (simp add: settings_ok_def param_simps demo_nh_def)

lemma demo_params_init: "init_parameters demo_nh = Inr demo_mp"
  by (simp add: init_parameters_def param_simps demo_nh_def demo_mp_def fdiv_def vadd_def Let_def)

lemma demo_numbers: "buffer_size demo_mp = 256" "skip_pixel demo_mp = 2"
  by (simp_all add: buffer_size_def demo_mp_def)

lemma demo_initMap: "\<exists>md. initMap demo_nh grid_demo_map = Inr (demo_mp, md)"
  by (simp add: initMap_def demo_params_init Let_def int_div_def demo_numbers)

text \<open>The map after its construction.\<close>

lemma demo_start:
  obtains md where "initMap demo_nh grid_demo_map = Inr (demo_mp, md)" "map_params_ok demo_mp" "grid_typed demo_mp md"
    "\<not> occ_need_update md" "\<not> local_updated md" "cache_voxel md = []" "proj_capacity md = 76800"
proof -
  from demo_initMap obtain md where md: "initMap demo_nh grid_demo_map = Inr (demo_mp, md)" by blast
  moreover have "cache_voxel md = [] \<and> proj_capacity md = 76800"
    using md by (auto simp: initMap_def demo_params_init Let_def int_div_def demo_numbers)
  ultimately show thesis using that initMap_ok [OF demo_settings md] by blast
qed

text \<open>A flight: the odometry, a cloud of one point, a timer.\<close>

definition grid_demo_flight :: "grid_event list" where
  "grid_demo_flight = [GridOdom (Vec3 0 0 1), Cloud [Vec3 (3/2) (3/2) (3/2)], OccTimer (\<lambda>_. 5)]"

theorem grid_cloud_safe_witness:
  "\<exists>md0 md. initMap demo_nh grid_demo_map = Inr (demo_mp, md0) \<and> run_events (grid_handle demo_mp) grid_demo_flight md0 = Inr md \<and>
    getInflateOccupancy demo_mp md vzero = Inr (- 1)"
proof -
  obtain md0 where m: "initMap demo_nh grid_demo_map = Inr (demo_mp, md0)" using demo_start by blast
  have "list_all cloud_event grid_demo_flight" by (simp add: grid_demo_flight_def)
  from grid_cloud_safe [OF demo_settings m this] obtain md where
    r: "run_events (grid_handle demo_mp) grid_demo_flight md0 = Inr md"
    and q: "\<forall>pos. getInflateOccupancy demo_mp md pos \<in> (if isInMap demo_mp pos then {Inr 0, Inr 1} else {Inr (- 1)})" by blast
  have "\<not> isInMap demo_mp vzero" by (simp add: isInMap_def demo_mp_def)
  with q [THEN spec, of vzero] m r show ?thesis by auto
qed

theorem grid_stays_typed_witness:
  "\<exists>md0 md v. initMap demo_nh grid_demo_map = Inr (demo_mp, md0) \<and> run_events (grid_handle demo_mp) grid_demo_flight md0 = Inr md \<and>
    isUnknown demo_mp md (Vec3i 9 0 (- 3)) = Inr (v < clamp_min_log demo_mp - 1 / 1000) \<and>
    getInflateOccupancy demo_mp md (Vec3 1 1 1) \<in> {Inr 0, Inr 1}"
proof -
  obtain md0 where m: "initMap demo_nh grid_demo_map = Inr (demo_mp, md0)" "map_params_ok demo_mp" "grid_typed demo_mp md0"
    "\<not> occ_need_update md0" using demo_start by blast
  have "cloud_inv demo_mp md0" "list_all cloud_event grid_demo_flight"
    using m by (simp_all add: cloud_inv_def grid_demo_flight_def)
  from cloud.run_ok [OF this] obtain md where r: "run_events (grid_handle demo_mp) grid_demo_flight md0 = Inr md" by blast
  have "isInMap demo_mp (Vec3 1 1 1)" by (simp add: isInMap_def demo_mp_def)
  with grid_stays_typed [OF demo_settings m(1) r, of "Vec3 1 1 1" "Vec3i 9 0 (- 3)"] m(1) r show ?thesis by auto
qed

theorem cloud_map_exact_witness:
  "\<exists>md0 md. initMap demo_nh grid_demo_map = Inr (demo_mp, md0) \<and>
    cloudCallback demo_mp [Vec3 (3/2) (3/2) (3/2)] (odomCallback_grid (Vec3 0 0 1) md0) = Inr md \<and>
    getInflateOccupancy demo_mp md (Vec3 (1/2) (5/2) (3/2)) = Inr 1 \<and>
    getInflateOccupancy demo_mp md (Vec3 (- 3/2) (5/2) (3/2)) = Inr 0"
proof -
  let ?pt = "Vec3 (3/2) (3/2) (3/2)" and ?p = "Vec3 (1/2) (5/2) (3/2)" and ?q = "Vec3 (- 3/2) (5/2) (3/2)"
  obtain md0 where m: "initMap demo_nh grid_demo_map = Inr (demo_mp, md0)" "map_params_ok demo_mp" "grid_typed demo_mp md0"
    using demo_start by blast
  let ?md = "odomCallback_grid (Vec3 0 0 1) md0"
  have f: "\<not> has_first_depth md0" using m(1) by (auto simp: initMap_def demo_params_init Let_def split: if_splits)
  then have md: "grid_typed demo_mp ?md" "has_odom ?md" "camera_pos ?md = Vec3 0 0 1"
    using callbacks_typed(4) [OF m(3)] by (simp_all add: odomCallback_grid_def)
  have idx: "posToIndex demo_mp ?p = Vec3i 4 6 1" "posToIndex demo_mp ?q = Vec3i 2 6 1"
    by (simp_all add: posToIndex_def demo_mp_def)
  have "blocks demo_mp ?pt (Vec3i 4 6 1)"
    unfolding blocks_def list_ex_iff
    by (rule bexI [of _ "Vec3i (- 1) 1 0"]) (simp_all add: set_box ile_def posToIndex_def inf_step_def demo_mp_def)
  then have p: "list_ex (\<lambda>pt. near_camera demo_mp (Vec3 0 0 1) pt \<and> blocks demo_mp pt (posToIndex demo_mp ?p)) [?pt]"
    by (simp add: idx near_camera_def) (simp add: demo_mp_def)
  have q: "\<not> list_ex (\<lambda>pt. near_camera demo_mp (Vec3 0 0 1) pt \<and> blocks demo_mp pt (posToIndex demo_mp ?q)) [?pt]"
    by (auto simp: idx blocks_def list_ex_iff set_box ile_def inf_step_def posToIndex_def demo_mp_def algebra_simps floor_eq_iff)
  have box: "in_box (boundIndex demo_mp (posToIndex demo_mp (vsub (Vec3 0 0 1) (local_update_range demo_mp))))
      (boundIndex demo_mp (posToIndex demo_mp (vadd (Vec3 0 0 1) (local_update_range demo_mp)))) (posToIndex demo_mp ?q)"
    unfolding idx by (simp add: in_box_def boundIndex_def posToIndex_def demo_mp_def)
  have "isInMap demo_mp ?p" "isInMap demo_mp ?q" by (simp_all add: isInMap_def demo_mp_def)
  with cloud_map_exact [OF m(2) md(1,2), of "[?pt]"] m(1) p q box show ?thesis unfolding md(3) by fastforce
qed

text \<open>One occupied voxel, with the whole map as the local map.\<close>

lemma demo_odds: "odds_ok demo_mp 1" "min_occupancy_log demo_mp = 0"
proof -
  have "exp 1 \<le> (97 / 3 :: real)" using exp_le by linarith
  then have "1 \<le> ln (97 / 3 :: real)" by (subst ln_ge_iff) auto
  moreover have "ln (3 / 22 :: real) \<le> 1" by (rule order_trans [where y = 0]) simp_all
  ultimately show "odds_ok demo_mp 1" by (simp add: odds_ok_def demo_mp_def logit_def)
  show "min_occupancy_log demo_mp = 0" by (simp add: demo_mp_def logit_def)
qed

theorem inflation_exact_witness:
  "\<exists>md0 md md'. initMap demo_nh grid_demo_map = Inr (demo_mp, md0) \<and>
    setOccupancy demo_mp (Vec3 (1/2) (1/2) (1/2)) 1
      (md0\<lparr>local_bound_min := Vec3i 1 1 0, local_bound_max := Vec3i 6 6 3\<rparr>) = Inr md \<and>
    clearAndInflateLocalMap demo_mp md = Inr md' \<and> isKnownOccupied demo_mp md' (Vec3i 5 5 1) = Inr True"
proof -
  obtain md0 where m: "initMap demo_nh grid_demo_map = Inr (demo_mp, md0)" "map_params_ok demo_mp" "grid_typed demo_mp md0"
    using demo_start by blast
  let ?m = "md0\<lparr>local_bound_min := Vec3i 1 1 0, local_bound_max := Vec3i 6 6 3\<rparr>"
  let ?occ = "(occupancy_buffer md0)[144 := 1]" and ?c = "Vec3i 4 4 0"
  let ?md = "?m\<lparr>occupancy_buffer := ?occ\<rparr>"
  have len: "length (occupancy_buffer md0) = 256" using typed_lengths [OF m(3)] by (simp add: demo_numbers)
  have c: "posToIndex demo_mp (Vec3 (1/2) (1/2) (1/2)) = ?c" "toAddress demo_mp ?c = 144"
    "isInMap demo_mp (Vec3 (1/2) (1/2) (1/2))"
    by (simp_all add: posToIndex_def toAddress_def isInMap_def demo_mp_def)
  have set: "setOccupancy demo_mp (Vec3 (1/2) (1/2) (1/2)) 1 ?m = Inr ?md"
    by (simp add: setOccupancy_def c len)
  have "list_all (odds_ok demo_mp) ?occ" using m(3) demo_odds(1) by (intro list_all_update) (simp_all add: grid_typed_def)
  then have t: "grid_typed demo_mp ?md" using m(3) by (simp add: grid_typed_def)
  have "index_ok demo_mp ?c" "index_ok demo_mp (Vec3i 5 5 1)" "region_ok demo_mp ?md" "inf_step demo_mp = 1" "local_map_margin demo_mp = 1"
    by (simp_all add: index_ok_def region_ok_def ile_def inf_step_def demo_mp_def)
  moreover from this have "getOccupancy_idx demo_mp ?md ?c = Inr 1"
    by (simp add: getOccupancy_idx_def index_ok_def c len demo_odds(2))
  moreover have "in_box (Vec3i 1 1 0) (Vec3i 6 6 3) ?c" "in_box (isub ?c (icube 1)) (iadd ?c (icube 1)) (Vec3i 5 5 1)"
    by (simp_all add: in_box_def)
  ultimately show ?thesis
    using inflation_exact [OF m(2) t] m(1) set by fastforce
qed

text \<open>An upright camera in the middle of the map.\<close>

lemma demo_view:
  assumes "camera_pos md = Vec3 0 0 2" "camera_r_m md = toRotationMatrix 1 0 0 0"
  shows "view_ok demo_mp md"
proof -
  have "walls_far demo_mp (Vec3 0 0 2)
      (vadd (mat_vec (toRotationMatrix 1 0 0 0) (Vec3 ((of_int u - 320) * d / 400) ((of_int v - 240) * d / 400) d)) (Vec3 0 0 2))"
    if uv: "0 \<le> u" "u < 640" "0 \<le> v" "v < 480" and d: "0 \<le> d" "d \<le> 21 / 10" for u v :: int and d :: real
  proof -
    have m: "mat_vec (toRotationMatrix 1 0 0 0) w = w" for w
      by (cases w) (simp add: mat_vec_def toRotationMatrix_def vdot_def)
    have "\<bar>of_int w * d / 400\<bar> \<le> 4" if "\<bar>w\<bar> \<le> 640" for w :: int
    proof -
      have "\<bar>real_of_int w\<bar> * d \<le> 640 * (21 / 10)" using that d by (intro mult_mono) linarith+
      then show ?thesis using d by (simp add: abs_mult)
    qed
    from this [of "u - 320"] this [of "v - 240"] uv have
      "\<bar>(of_int u - 320) * d / 400\<bar> \<le> 4" "\<bar>(of_int v - 240) * d / 400\<bar> \<le> 4" by simp_all
    with d show ?thesis unfolding walls_far_def m by (simp add: demo_mp_def)
  qed
  then show ?thesis using assms by (simp add: view_ok_def to_world_def demo_mp_def)
qed

theorem depth_update_safe_witness:
  "\<exists>md0 md'. initMap demo_nh grid_demo_map = Inr (demo_mp, md0) \<and>
    occ_need_update (depthPoseCallback demo_mp blank_picture (Vec3 0 0 2) (1, 0, 0, 0) (md0\<lparr>has_first_depth := True\<rparr>)) \<and>
    updateOccupancyCallback demo_mp (\<lambda>_. 5)
      (depthPoseCallback demo_mp blank_picture (Vec3 0 0 2) (1, 0, 0, 0) (md0\<lparr>has_first_depth := True\<rparr>)) = Inr md' \<and>
    \<not> occ_need_update md'"
proof -
  obtain md0 where m: "initMap demo_nh grid_demo_map = Inr (demo_mp, md0)" "map_params_ok demo_mp" "grid_typed demo_mp md0"
    "\<not> local_updated md0" "cache_voxel md0 = []" "proj_capacity md0 = 76800"
    using demo_start by blast
  let ?md = "depthPoseCallback demo_mp blank_picture (Vec3 0 0 2) (1, 0, 0, 0) (md0\<lparr>has_first_depth := True\<rparr>)"
  have cam: "isInMap demo_mp (Vec3 0 0 2)" by (simp add: isInMap_def demo_mp_def)
  have md: "camera_pos ?md = Vec3 0 0 2" "camera_r_m ?md = toRotationMatrix 1 0 0 0" "depth_image ?md = blank_picture"
    "occ_need_update ?md" "cache_voxel ?md = []" "\<not> local_updated ?md" "proj_capacity ?md = 76800"
    using m(4-6) cam by (simp_all add: depthPoseCallback_def Let_def)
  have "grid_typed demo_mp (md0\<lparr>has_first_depth := True\<rparr>)" using m(3) by (simp add: grid_typed_def)
  from callbacks_typed(1) [OF this] md have "grid_ready demo_mp ?md" by (simp add: grid_ready_def demo_numbers)
  moreover have "aligned demo_mp (Vec3i (- 4) (- 4) 0)" "camera_ok demo_mp" "vga blank_picture"
    by (simp_all add: aligned_def vscale_def camera_ok_def inf_step_def demo_mp_def vga_def blank_picture_def)
  ultimately have "\<exists>md'. updateOccupancyCallback demo_mp (\<lambda>_. 5) ?md = Inr md' \<and> grid_ready demo_mp md' \<and> \<not> occ_need_update md'"
    using cam md(1,3) demo_view [OF md(1,2)] by (intro depth_update_safe [OF m(2)]) auto
  with m(1) md(4) show ?thesis by blast
qed

end
