(* ===== verification/AStar.thy ===== *)
theory AStar
  imports GridMap
begin

text \<open>
  The graph search of the planner: class \<open>AStar\<close> of
  \<open>planner/planner/path_searching/include/path_searching/dyn_a_star.h\<close> and \<open>src/dyn_a_star.cpp\<close>.
  The pool of nodes lives as long as the object; a node of an earlier search is told from one of
  this search by its number of the round.  A pointer to a node is the node's place in the pool, and
  every access to the pool is checked.

  The open set is a \<open>priority_queue\<close> whose elements change their order while they are in it, which
  the library does not allow.  The model therefore leaves open which element \<open>top\<close> gives: it is
  \<open>pick\<close>, a parameter, of which the properties only use that it is some element of the queue.  The
  clock is a parameter too: \<open>late i\<close> tells whether the time is up after the round \<open>i\<close> of the loop.
\<close>

section \<open>State\<close>

datatype node_state = OPENSET | CLOSEDSET | UNDEFINED

record grid_node =
  rounds :: int
  state :: node_state
  index :: vec3i
  gScore :: real
  fScore :: real
  cameFrom :: "vec3i option"

record astar =
  pool_size :: vec3i
  center_idx :: vec3i
  step_size :: real
  inv_step_size :: real
  center :: vec3
  GridNodeMap :: "vec3i \<Rightarrow> grid_node"
  openSet :: "vec3i list"
  search_round :: int              \<comment> \<open>\<open>rounds_\<close>\<close>
  gridPath :: "vec3i list"

text \<open>The constant \<open>inf\<close> of the header is \<open>1 >> 20\<close>, which is zero; \<open>g\<close> is the index before it is set.\<close>

definition new_node :: "vec3i \<Rightarrow> grid_node" where
  "new_node g = \<lparr>rounds = 0, state = UNDEFINED, index = g, gScore = 0, fScore = 0, cameFrom = None\<rparr>"

definition initGridMap :: "vec3i \<Rightarrow> vec3i \<Rightarrow> astar \<Rightarrow> astar" where
  "initGridMap g psize s =
     s\<lparr>pool_size := psize,
       center_idx := Vec3i (sgn (ix psize) * (\<bar>ix psize\<bar> div 2)) (sgn (iy psize) * (\<bar>iy psize\<bar> div 2))
                           (sgn (iz psize) * (\<bar>iz psize\<bar> div 2)),
       GridNodeMap := (\<lambda>_. new_node g)\<rparr>"

definition in_pool :: "astar \<Rightarrow> vec3i \<Rightarrow> bool" where
  "in_pool s c \<longleftrightarrow>
     0 \<le> ix c \<and> ix c < ix (pool_size s) \<and> 0 \<le> iy c \<and> iy c < iy (pool_size s) \<and> 0 \<le> iz c \<and> iz c < iz (pool_size s)"

definition get_node :: "astar \<Rightarrow> vec3i \<Rightarrow> cpp_error + grid_node" where
  "get_node s c = (if in_pool s c then Inr (GridNodeMap s c) else Inl OutOfBounds)"

definition set_node :: "vec3i \<Rightarrow> grid_node \<Rightarrow> astar \<Rightarrow> astar" where
  "set_node c n s = s\<lparr>GridNodeMap := (GridNodeMap s)(c := n)\<rparr>"

section \<open>Coordinates\<close>

definition Index2Coord :: "astar \<Rightarrow> vec3i \<Rightarrow> vec3" where
  "Index2Coord s c = vadd (vscale (step_size s) (real_vec (isub c (center_idx s)))) (center s)"

definition coord_axis :: "astar \<Rightarrow> real \<Rightarrow> real \<Rightarrow> int \<Rightarrow> int" where
  "coord_axis s x m i = trunc ((x - m) * inv_step_size s + 1/2) + i"

definition Coord2Index :: "astar \<Rightarrow> vec3 \<Rightarrow> bool \<times> vec3i" where
  "Coord2Index s pt =
     (let c = Vec3i (coord_axis s (vx pt) (vx (center s)) (ix (center_idx s)))
                    (coord_axis s (vy pt) (vy (center s)) (iy (center_idx s)))
                    (coord_axis s (vz pt) (vz (center s)) (iz (center_idx s)))
      in (\<not> (ix c < 0 \<or> ix c \<ge> ix (pool_size s) \<or> iy c < 0 \<or> iy c \<ge> iy (pool_size s) \<or>
             iz c < 0 \<or> iz c \<ge> iz (pool_size s)), c))"

text \<open>A position outside the map counts as occupied: minus one is true.\<close>

definition checkOccupancy :: "mapping_parameters \<Rightarrow> mapping_data \<Rightarrow> vec3 \<Rightarrow> cpp_error + bool" where
  "checkOccupancy mp md pos = bind_result (getInflateOccupancy mp md pos) (\<lambda>v. Inr (v \<noteq> 0))"

section \<open>Heuristics\<close>

definition getDiagHeu :: "vec3i \<Rightarrow> vec3i \<Rightarrow> real" where
  "getDiagHeu a b =
     (let x = real_of_int \<bar>ix a - ix b\<bar>; y = real_of_int \<bar>iy a - iy b\<bar>; z = real_of_int \<bar>iz a - iz b\<bar>;
          diag = real_of_int (trunc (min (min x y) z));
          dx = x - diag; dy = y - diag; dz = z - diag;
          h1 = (if dx = 0 then sqrt 3 * diag + sqrt 2 * min dy dz + \<bar>dy - dz\<bar> else 0);
          h2 = (if dy = 0 then sqrt 3 * diag + sqrt 2 * min dx dz + \<bar>dx - dz\<bar> else h1)
      in if dz = 0 then sqrt 3 * diag + sqrt 2 * min dx dy + \<bar>dx - dy\<bar> else h2)"

definition getManhHeu :: "vec3i \<Rightarrow> vec3i \<Rightarrow> real" where
  "getManhHeu a b = real_of_int \<bar>ix a - ix b\<bar> + real_of_int \<bar>iy a - iy b\<bar> + real_of_int \<bar>iz a - iz b\<bar>"

definition getHeu :: "vec3i \<Rightarrow> vec3i \<Rightarrow> real" where
  "getHeu a b = (1 + 1 / 10000) * getDiagHeu a b"

section \<open>The end points\<close>

text \<open>\<open>normalized\<close> of Eigen leaves the zero vector as it is.\<close>

definition normalized :: "vec3 \<Rightarrow> vec3" where
  "normalized v = (if vnorm v > 0 then vscale (1 / vnorm v) v else v)"

text \<open>
  The loop that moves \<open>p\<close> away from \<open>q\<close> until its voxel is free; \<open>None\<close> when it leaves the pool.
  The first argument bounds the number of rounds.
\<close>

fun push_out ::
    "nat \<Rightarrow> mapping_parameters \<Rightarrow> mapping_data \<Rightarrow> astar \<Rightarrow> vec3 \<Rightarrow> vec3 \<Rightarrow> cpp_error + (vec3 \<times> vec3i) option" where
  "push_out 0 mp md s p q = Inl Hangs"
| "push_out (Suc n) mp md s p q =
     (let p' = vadd (vscale (step_size s) (normalized (vsub p q))) p
      in case Coord2Index s p' of (ok, c) \<Rightarrow>
           if \<not> ok then Inr None
           else bind_result (checkOccupancy mp md (Index2Coord s c)) (\<lambda>occ.
                  if occ then push_out n mp md s p' q else Inr (Some (p', c))))"

definition push_fuel :: "astar \<Rightarrow> nat" where
  "push_fuel s = nat (ix (pool_size s)) + nat (iy (pool_size s)) + nat (iz (pool_size s)) + 6"

definition settle_point ::
    "mapping_parameters \<Rightarrow> mapping_data \<Rightarrow> astar \<Rightarrow> vec3 \<Rightarrow> vec3i \<Rightarrow> vec3 \<Rightarrow> cpp_error + (vec3 \<times> vec3i) option" where
  "settle_point mp md s p c q =
     bind_result (checkOccupancy mp md (Index2Coord s c)) (\<lambda>occ.
       if occ then push_out (push_fuel s) mp md s p q else Inr (Some (p, c)))"

definition ConvertToIndexAndAdjustStartEndPoints ::
    "mapping_parameters \<Rightarrow> mapping_data \<Rightarrow> astar \<Rightarrow> vec3 \<Rightarrow> vec3 \<Rightarrow> cpp_error + (vec3i \<times> vec3i) option" where
  "ConvertToIndexAndAdjustStartEndPoints mp md s start_pt end_pt =
     (case (Coord2Index s start_pt, Coord2Index s end_pt) of ((ok1, c1), (ok2, c2)) \<Rightarrow>
        if \<not> ok1 \<or> \<not> ok2 then Inr None
        else bind_result (settle_point mp md s start_pt c1 end_pt) (\<lambda>r1.
          case r1 of None \<Rightarrow> Inr None
          | Some (start_pt', start_idx) \<Rightarrow>
              bind_result (settle_point mp md s end_pt c2 start_pt') (\<lambda>r2.
                case r2 of None \<Rightarrow> Inr None | Some (_, end_idx) \<Rightarrow> Inr (Some (start_idx, end_idx)))))"

section \<open>The search\<close>

definition inner_cell :: "astar \<Rightarrow> vec3i \<Rightarrow> bool" where
  "inner_cell s c \<longleftrightarrow>
     \<not> (ix c < 1 \<or> ix c \<ge> ix (pool_size s) - 1 \<or> iy c < 1 \<or> iy c \<ge> iy (pool_size s) - 1 \<or>
        iz c < 1 \<or> iz c \<ge> iz (pool_size s) - 1)"

definition offsets :: "vec3i list" where
  "offsets = box (icube (- 1)) (icube 1)"

text \<open>The body of the three loops over the neighbours of \<open>current\<close>, for the offset \<open>d\<close>.\<close>

definition expand :: "mapping_parameters \<Rightarrow> mapping_data \<Rightarrow> vec3i \<Rightarrow> vec3i \<Rightarrow> vec3i \<Rightarrow> astar \<Rightarrow> cpp_error + astar" where
  "expand mp md current endPtr d s =
     (if ix d = 0 \<and> iy d = 0 \<and> iz d = 0 then Inr s
      else let c = iadd (index (GridNodeMap s current)) d
      in if \<not> inner_cell s c then Inr s
         else bind_result (get_node s c) (\<lambda>nd.
           let s1 = set_node c (nd\<lparr>index := c\<rparr>) s; flag_explored = (rounds nd = search_round s)
           in if flag_explored \<and> state nd = CLOSEDSET then Inr s1
              else let nd2 = nd\<lparr>index := c, rounds := search_round s\<rparr>; s2 = set_node c nd2 s
              in bind_result (checkOccupancy mp md (Index2Coord s c)) (\<lambda>occ.
                   if occ then Inr s2
                   else let static_cost = sqrt (of_int (ix d * ix d + iy d * iy d + iz d * iz d));
                            tentative_gScore = gScore (GridNodeMap s2 current) + static_cost;
                            f = tentative_gScore + getHeu c (index (GridNodeMap s2 endPtr))
                        in if \<not> flag_explored
                           then Inr ((set_node c (nd2\<lparr>state := OPENSET, cameFrom := Some current,
                                        gScore := tentative_gScore, fScore := f\<rparr>) s2)\<lparr>openSet := openSet s2 @ [c]\<rparr>)
                           else if tentative_gScore < gScore nd2
                           then Inr (set_node c (nd2\<lparr>cameFrom := Some current, gScore := tentative_gScore, fScore := f\<rparr>) s2)
                           else Inr s2)))"

fun retrieve :: "nat \<Rightarrow> astar \<Rightarrow> vec3i \<Rightarrow> cpp_error + vec3i list" where
  "retrieve 0 s c = Inl Hangs"
| "retrieve (Suc n) s c =
     bind_result (get_node s c) (\<lambda>nd.
       case cameFrom nd of None \<Rightarrow> Inr [c]
       | Some p \<Rightarrow> bind_result (retrieve n s p) (\<lambda>ps. Inr (c # ps)))"

text \<open>The cells of the pool: no loop of the search runs more often than there are cells.\<close>

definition pool_cells :: "astar \<Rightarrow> vec3i list" where
  "pool_cells s = box (icube 0) (isub (pool_size s) (icube 1))"

definition retrievePath :: "astar \<Rightarrow> vec3i \<Rightarrow> cpp_error + vec3i list" where
  "retrievePath s c = retrieve (Suc (length (pool_cells s))) s c"

fun search ::
    "nat \<Rightarrow> (astar \<Rightarrow> vec3i) \<Rightarrow> (nat \<Rightarrow> bool) \<Rightarrow> mapping_parameters \<Rightarrow> mapping_data \<Rightarrow> vec3i \<Rightarrow> nat \<Rightarrow> astar \<Rightarrow>
     cpp_error + bool \<times> astar" where
  "search 0 pick late mp md endPtr i s = Inl Hangs"
| "search (Suc n) pick late mp md endPtr i s =
     (if openSet s = [] then Inr (False, s)
      else let current = pick s; s1 = s\<lparr>openSet := remove1 current (openSet s)\<rparr>
      in bind_result (get_node s1 current) (\<lambda>nd.
           if index nd = index (GridNodeMap s1 endPtr)
           then bind_result (retrievePath s1 current) (\<lambda>p. Inr (True, s1\<lparr>gridPath := p\<rparr>))
           else bind_result (fold_result (expand mp md current endPtr) offsets (set_node current (nd\<lparr>state := CLOSEDSET\<rparr>) s1))
                  (\<lambda>s2. if late i then Inr (False, s2) else search n pick late mp md endPtr (Suc i) s2)))"

definition prepare :: "real \<Rightarrow> vec3 \<Rightarrow> vec3 \<Rightarrow> astar \<Rightarrow> cpp_error + astar" where
  "prepare step start_pt end_pt s =
     bind_result (fdiv 1 step) (\<lambda>inv.
       Inr (s\<lparr>search_round := search_round s + 1, step_size := step, inv_step_size := inv,
              center := vscale (1/2) (vadd start_pt end_pt)\<rparr>))"

text \<open>The start of the search; the end node gets its index after the heuristic was computed from it.\<close>

definition open_start :: "vec3i \<Rightarrow> vec3i \<Rightarrow> astar \<Rightarrow> cpp_error + astar" where
  "open_start start_idx end_idx s =
     bind_result (get_node s start_idx) (\<lambda>nd.
     bind_result (get_node s end_idx) (\<lambda>_.
       let h = getHeu start_idx (if end_idx = start_idx then start_idx else index (GridNodeMap s end_idx));
           s1 = (set_node start_idx (nd\<lparr>index := start_idx, rounds := search_round s, gScore := 0, fScore := h,
                   state := OPENSET, cameFrom := None\<rparr>) s)\<lparr>openSet := [start_idx]\<rparr>
       in Inr (set_node end_idx ((GridNodeMap s1 end_idx)\<lparr>index := end_idx\<rparr>) s1)))"

definition AstarSearch ::
    "(astar \<Rightarrow> vec3i) \<Rightarrow> (nat \<Rightarrow> bool) \<Rightarrow> mapping_parameters \<Rightarrow> mapping_data \<Rightarrow> real \<Rightarrow> vec3 \<Rightarrow> vec3 \<Rightarrow> astar \<Rightarrow>
     cpp_error + bool \<times> astar" where
  "AstarSearch pick late mp md step start_pt end_pt s0 =
     bind_result (prepare step start_pt end_pt s0) (\<lambda>s.
     bind_result (ConvertToIndexAndAdjustStartEndPoints mp md s start_pt end_pt) (\<lambda>r.
       case r of None \<Rightarrow> Inr (False, s)
       | Some (start_idx, end_idx) \<Rightarrow>
           bind_result (open_start start_idx end_idx s) (\<lambda>s1.
             search (Suc (length (pool_cells s1))) pick late mp md end_idx 0 s1)))"

definition getPath :: "astar \<Rightarrow> vec3 list" where
  "getPath s = rev (map (\<lambda>p. Index2Coord s (index (GridNodeMap s p))) (gridPath s))"

end
