(* ===== verification/AStarInv.thy ===== *)
theory AStarInv
  imports AStar GridProps
begin

text \<open>
  The loop of the graph search: an invariant of its sets and of the links between its nodes, from
  which follow that it ends, that the path it retrieves is one, and that it gives up only when the
  goal cannot be reached.
\<close>

section \<open>Cells and links\<close>

definition free_cell :: "mapping_parameters \<Rightarrow> mapping_data \<Rightarrow> astar \<Rightarrow> vec3i \<Rightarrow> bool" where
  "free_cell mp md s c \<longleftrightarrow> getInflateOccupancy mp md (Index2Coord s c) = Inr 0"

definition adjacent :: "vec3i \<Rightarrow> vec3i \<Rightarrow> bool" where
  "adjacent a b \<longleftrightarrow> a \<noteq> b \<and> \<bar>ix b - ix a\<bar> \<le> 1 \<and> \<bar>iy b - iy a\<bar> \<le> 1 \<and> \<bar>iz b - iz a\<bar> \<le> 1"

text \<open>The cells a walk over free inner cells can reach.\<close>

inductive reachable_cell :: "mapping_parameters \<Rightarrow> mapping_data \<Rightarrow> astar \<Rightarrow> vec3i \<Rightarrow> vec3i \<Rightarrow> bool"
  for mp md s si where
  start: "reachable_cell mp md s si si"
| move: "reachable_cell mp md s si c \<Longrightarrow> adjacent c d \<Longrightarrow> inner_cell s d \<Longrightarrow> free_cell mp md s d \<Longrightarrow>
    reachable_cell mp md s si d"

lemma checkOccupancy_free:
  assumes "map_params_ok mp" "grid_typed mp md"
  shows "checkOccupancy mp md (Index2Coord s c) = Inr (\<not> free_cell mp md s c)"
  using getInflateOccupancy_cases [OF assms, of "Index2Coord s c"]
  by (auto simp: checkOccupancy_def free_cell_def split: if_splits)

text \<open>What a search does not change.\<close>

definition same_pool :: "astar \<Rightarrow> astar \<Rightarrow> bool" where
  "same_pool s t \<longleftrightarrow>
     pool_size t = pool_size s \<and> center_idx t = center_idx s \<and> step_size t = step_size s \<and>
     inv_step_size t = inv_step_size s \<and> center t = center s \<and> search_round t = search_round s"

lemma same_pool_refl [simp]: "same_pool s s"
  by (simp add: same_pool_def)

lemma same_pool_trans: "same_pool s t \<Longrightarrow> same_pool t u \<Longrightarrow> same_pool s u"
  by (simp add: same_pool_def)

lemma same_pool_cells:
  assumes "same_pool s t"
  shows "in_pool t c = in_pool s c" "inner_cell t c = inner_cell s c" "free_cell mp md t c = free_cell mp md s c"
    "Index2Coord t c = Index2Coord s c" "pool_cells t = pool_cells s" "search_round t = search_round s"
  using assms by (simp_all add: same_pool_def in_pool_def inner_cell_def free_cell_def Index2Coord_def pool_cells_def)

lemma same_pool_set [simp]: "same_pool s (set_node c n s)" "same_pool s (s\<lparr>openSet := q\<rparr>)" "same_pool s (s\<lparr>gridPath := p\<rparr>)"
  by (simp_all add: same_pool_def set_node_def)

lemma set_node_simps [simp]:
  "GridNodeMap (set_node c n s) = (GridNodeMap s)(c := n)" "openSet (set_node c n s) = openSet s"
  "GridNodeMap (s\<lparr>openSet := q\<rparr>) = GridNodeMap s"
  by (simp_all add: set_node_def)

lemma inner_in_pool: "inner_cell s c \<Longrightarrow> in_pool s c"
  by (auto simp: inner_cell_def in_pool_def)

lemma pool_cells_iff: "c \<in> set (pool_cells s) \<longleftrightarrow> in_pool s c"
  by (auto simp: pool_cells_def set_box ile_def in_pool_def)

text \<open>The link of a node leads to a node that was closed before it; the closed nodes are listed, last first.\<close>

definition came_ok :: "astar \<Rightarrow> vec3i \<Rightarrow> vec3i list \<Rightarrow> vec3i \<Rightarrow> bool" where
  "came_ok s si C c \<longleftrightarrow>
     (if c = si then cameFrom (GridNodeMap s c) = None
      else \<exists>p \<in> set C. cameFrom (GridNodeMap s c) = Some p \<and> adjacent p c)"

fun closed_ok :: "astar \<Rightarrow> vec3i \<Rightarrow> vec3i list \<Rightarrow> bool" where
  "closed_ok s si [] = True"
| "closed_ok s si (c # C) = (came_ok s si C c \<and> closed_ok s si C)"

lemma came_ok_mono: "came_ok s si C c \<Longrightarrow> set C \<subseteq> set D \<Longrightarrow> came_ok s si D c"
  by (auto simp: came_ok_def split: if_splits)

lemma closed_ok_split: "closed_ok s si (xs @ p # ys) \<Longrightarrow> came_ok s si ys p \<and> closed_ok s si ys"
  by (induction xs) auto

lemma closed_ok_cong:
  "closed_ok s si C \<Longrightarrow> (\<And>c. c \<in> set C \<Longrightarrow> cameFrom (GridNodeMap t c) = cameFrom (GridNodeMap s c)) \<Longrightarrow> closed_ok t si C"
  by (induction C) (auto simp: came_ok_def split: if_splits)

section \<open>The path\<close>

definition links :: "vec3i list \<Rightarrow> bool" where
  "links ps \<longleftrightarrow> successively (\<lambda>a b. adjacent b a) ps"

lemma retrieve_ok:
  "closed_ok s si C \<Longrightarrow> came_ok s si C c \<Longrightarrow> (\<forall>d \<in> insert c (set C). in_pool s d) \<Longrightarrow> length C < n \<Longrightarrow>
   \<exists>ps. retrieve n s c = Inr (c # ps) \<and> last (c # ps) = si \<and> links (c # ps) \<and> set ps \<subseteq> set C"
proof (induction n arbitrary: C c)
  case 0
  then show ?case by simp
next
  case (Suc n)
  have g: "get_node s c = Inr (GridNodeMap s c)" using Suc.prems(3) by (simp add: get_node_def)
  show ?case
  proof (cases "c = si")
    case True
    with Suc.prems(2) g show ?thesis by (simp add: came_ok_def links_def)
  next
    case False
    with Suc.prems(2) obtain p where p: "p \<in> set C" "cameFrom (GridNodeMap s c) = Some p" "adjacent p c"
      by (auto simp: came_ok_def)
    from p(1) obtain xs ys where C: "C = xs @ p # ys" by (auto simp: in_set_conv_decomp)
    with Suc.prems(1) closed_ok_split have "came_ok s si ys p" "closed_ok s si ys" by blast+
    moreover have "\<forall>d \<in> insert p (set ys). in_pool s d" "length ys < n" using Suc.prems(3,4) C by auto
    ultimately obtain ps where "retrieve n s p = Inr (p # ps)" "last (p # ps) = si" "links (p # ps)" "set ps \<subseteq> set ys"
      using Suc.IH by blast
    with g p C show ?thesis by (auto simp: links_def)
  qed
qed

lemma path_reachable:
  "links ps \<Longrightarrow> ps \<noteq> [] \<Longrightarrow> last ps = si \<Longrightarrow> (\<forall>c \<in> set ps. c = si \<or> inner_cell s c \<and> free_cell mp md s c) \<Longrightarrow>
   reachable_cell mp md s si (hd ps)"
proof (induction ps)
  case Nil
  then show ?case by simp
next
  case (Cons c ps)
  show ?case
  proof (cases ps)
    case Nil
    with Cons.prems show ?thesis by (simp add: reachable_cell.start)
  next
    case (Cons d ds)
    with Cons.prems Cons.IH have "reachable_cell mp md s si d" "adjacent d c" by (simp_all add: links_def)
    moreover have "c = si \<or> inner_cell s c \<and> free_cell mp md s c" using Cons.prems by simp
    ultimately show ?thesis by (auto intro: reachable_cell.intros)
  qed
qed

section \<open>The invariant\<close>

text \<open>
  The nodes of the two lists, what is known about the others, and the links.  \<open>member\<close> is what
  a node of either list satisfies.
\<close>

definition member :: "mapping_parameters \<Rightarrow> mapping_data \<Rightarrow> vec3i \<Rightarrow> astar \<Rightarrow> vec3i \<Rightarrow> grid_node \<Rightarrow> bool" where
  "member mp md si s c n \<longleftrightarrow>
     in_pool s c \<and> index n = c \<and> rounds n = search_round s \<and> free_cell mp md s c \<and> (c = si \<or> inner_cell s c)"

definition nodes_ok :: "mapping_parameters \<Rightarrow> mapping_data \<Rightarrow> vec3i \<Rightarrow> vec3i list \<Rightarrow> astar \<Rightarrow> bool" where
  "nodes_ok mp md si C s \<longleftrightarrow>
     (\<forall>c \<in> set C. member mp md si s c (GridNodeMap s c) \<and> state (GridNodeMap s c) = CLOSEDSET) \<and>
     (\<forall>c \<in> set (openSet s). member mp md si s c (GridNodeMap s c) \<and> state (GridNodeMap s c) = OPENSET)"

definition known_ok :: "mapping_parameters \<Rightarrow> mapping_data \<Rightarrow> vec3i list \<Rightarrow> astar \<Rightarrow> bool" where
  "known_ok mp md C s \<longleftrightarrow>
     (\<forall>c. inner_cell s c \<and> free_cell mp md s c \<and> rounds (GridNodeMap s c) = search_round s \<longrightarrow>
        c \<in> set C \<or> c \<in> set (openSet s))"

definition links_ok :: "vec3i \<Rightarrow> vec3i list \<Rightarrow> astar \<Rightarrow> bool" where
  "links_ok si C s \<longleftrightarrow> closed_ok s si C \<and> (\<forall>c \<in> set (openSet s). came_ok s si C c)"

definition search_inv :: "mapping_parameters \<Rightarrow> mapping_data \<Rightarrow> vec3i \<Rightarrow> vec3i \<Rightarrow> vec3i list \<Rightarrow> astar \<Rightarrow> bool" where
  "search_inv mp md si ei C s \<longleftrightarrow>
     distinct (C @ openSet s) \<and> (C = [] \<and> openSet s = [si] \<or> si \<in> set C) \<and> index (GridNodeMap s ei) = ei \<and>
     nodes_ok mp md si C s \<and> known_ok mp md C s \<and> links_ok si C s"

lemma inv_member:
  assumes "search_inv mp md si ei C s"
  shows "c \<in> set C \<Longrightarrow> member mp md si s c (GridNodeMap s c) \<and> state (GridNodeMap s c) = CLOSEDSET"
    and "c \<in> set (openSet s) \<Longrightarrow> member mp md si s c (GridNodeMap s c) \<and> state (GridNodeMap s c) = OPENSET"
  using assms by (simp_all add: search_inv_def nodes_ok_def)

lemma inv_known:
  "search_inv mp md si ei C s \<Longrightarrow> inner_cell s c \<Longrightarrow> free_cell mp md s c \<Longrightarrow>
   rounds (GridNodeMap s c) = search_round s \<Longrightarrow> c \<in> set C \<or> c \<in> set (openSet s)"
  by (simp add: search_inv_def known_ok_def)

lemma same_pool_member: "same_pool s t \<Longrightarrow> member mp md si t c n = member mp md si s c n"
  by (simp add: member_def same_pool_cells)

lemma came_ok_other: "c \<noteq> d \<Longrightarrow> came_ok (set_node c n s) si C d = came_ok s si C d"
  by (simp add: came_ok_def)

lemma came_ok_open [simp]: "came_ok (s\<lparr>openSet := q\<rparr>) si C d = came_ok s si C d"
  by (simp add: came_ok_def)

lemma closed_ok_open [simp]: "closed_ok (s\<lparr>openSet := q\<rparr>) si C = closed_ok s si C"
  by (induction C) simp_all

text \<open>A store to a node: one of the lists, or one that the search does not know.\<close>

lemma inv_set_node:
  assumes inv: "search_inv mp md si ei C s" and c: "index n = c"
    and closed: "c \<in> set C \<Longrightarrow> rounds n = search_round s \<and> state n = CLOSEDSET \<and> cameFrom n = cameFrom (GridNodeMap s c)"
    and opened: "c \<in> set (openSet s) \<Longrightarrow> rounds n = search_round s \<and> state n = OPENSET \<and> came_ok (set_node c n s) si C c"
    and stranger: "c \<notin> set C \<Longrightarrow> c \<notin> set (openSet s) \<Longrightarrow> inner_cell s c \<Longrightarrow> free_cell mp md s c \<Longrightarrow> rounds n \<noteq> search_round s"
  shows "search_inv mp md si ei C (set_node c n s)"
proof -
  let ?t = "set_node c n s"
  have same: "same_pool s ?t" by simp
  have "nodes_ok mp md si C ?t"
    unfolding nodes_ok_def same_pool_member [OF same]
    using inv_member [OF inv] closed opened c by (auto simp: member_def)
  moreover have "known_ok mp md C ?t"
    unfolding known_ok_def same_pool_cells [OF same]
    using inv_known [OF inv] stranger by auto
  moreover have "closed_ok ?t si C"
    by (rule closed_ok_cong [of s]) (use inv closed in \<open>auto simp: search_inv_def links_ok_def\<close>)
  moreover have "came_ok ?t si C d" if "d \<in> set (openSet s)" for d
    using inv opened that came_ok_other [of c d n s] by (cases "c = d") (auto simp: search_inv_def links_ok_def)
  ultimately show ?thesis using inv c by (auto simp: search_inv_def links_ok_def)
qed

text \<open>A new node.\<close>

lemma inv_push:
  assumes inv: "search_inv mp md si ei C s" and p: "p \<in> set C" "adjacent p c"
    and c: "inner_cell s c" "free_cell mp md s c" "c \<notin> set C" "c \<notin> set (openSet s)"
    and n: "index n = c" "rounds n = search_round s" "state n = OPENSET" "cameFrom n = Some p"
  shows "search_inv mp md si ei C ((set_node c n s)\<lparr>openSet := openSet s @ [c]\<rparr>)"
proof -
  let ?t = "(set_node c n s)\<lparr>openSet := openSet s @ [c]\<rparr>"
  have same: "same_pool s ?t" by (simp add: same_pool_def set_node_def)
  have si: "si \<in> set C" using inv p(1) by (auto simp: search_inv_def)
  have "nodes_ok mp md si C ?t"
    unfolding nodes_ok_def same_pool_member [OF same]
    using inv_member [OF inv] c n inner_in_pool [OF c(1)] by (auto simp: member_def)
  moreover have "known_ok mp md C ?t"
    unfolding known_ok_def same_pool_cells [OF same]
    using inv_known [OF inv] by auto
  moreover have "closed_ok ?t si C"
    by (simp, rule closed_ok_cong [of s]) (use inv c in \<open>auto simp: search_inv_def links_ok_def\<close>)
  moreover have "came_ok ?t si C c" using si c(3) p n(4) by (auto simp: came_ok_def)
  moreover have "came_ok ?t si C d" if "d \<in> set (openSet s)" for d
    using inv c(4) that came_ok_other [of c d n s] by (auto simp: search_inv_def links_ok_def)
  ultimately show ?thesis using inv c(3,4) n(1) si by (auto simp: search_inv_def links_ok_def)
qed

section \<open>Expansion\<close>

lemma expand_ok:
  assumes ok: "map_params_ok mp" "grid_typed mp md" and inv: "search_inv mp md si ei C s"
    and cur: "current \<in> set C" and d: "d \<in> set offsets"
  shows "\<exists>t. expand mp md current ei d s = Inr t \<and> same_pool s t \<and> search_inv mp md si ei C t \<and>
    set (openSet s) \<subseteq> set (openSet t) \<and>
    (adjacent current (iadd current d) \<and> inner_cell s (iadd current d) \<and> free_cell mp md s (iadd current d) \<longrightarrow>
       iadd current d \<in> set C \<or> iadd current d \<in> set (openSet t))"
proof -
  let ?c = "iadd current d"
  have idx: "index (GridNodeMap s current) = current" using inv_member(1) [OF inv cur] by (simp add: member_def)
  show ?thesis
  proof (cases "(ix d = 0 \<and> iy d = 0 \<and> iz d = 0) \<or> \<not> inner_cell s ?c")
    case True
    then show ?thesis using inv by (auto simp: expand_def Let_def idx adjacent_def intro: vec3i_eqI)
  next
    case False
    then have z: "\<not> (ix d = 0 \<and> iy d = 0 \<and> iz d = 0)" and inner: "inner_cell s ?c" by simp_all
    have adj: "adjacent current ?c"
      using z d by (cases current; cases d) (auto simp: adjacent_def offsets_def set_box ile_def iadd_def icube_def)
    define nd where "nd = GridNodeMap s ?c"
    have g: "get_node s ?c = Inr nd" using inner_in_pool [OF inner] by (simp add: get_node_def nd_def)
    have mem: "rounds nd = search_round s" if "?c \<in> set C \<or> ?c \<in> set (openSet s)"
      using inv_member [OF inv] that by (auto simp: member_def nd_def)
    define nd1 where "nd1 = nd\<lparr>index := ?c\<rparr>"
    define nd2 where "nd2 = nd\<lparr>index := ?c, rounds := search_round s\<rparr>"
    have came: "came_ok (set_node ?c n s) si C ?c" if "?c \<in> set (openSet s)" "cameFrom n = cameFrom nd" for n
      using inv that by (auto simp: search_inv_def links_ok_def came_ok_def nd_def)
    have s1: "search_inv mp md si ei C (set_node ?c nd1 s)"
      using inv_member [OF inv] inv_known [OF inv inner] came
      by (intro inv_set_node [OF inv]) (auto simp: nd1_def nd_def member_def)
    have s2: "search_inv mp md si ei C (set_node ?c nd2 s)"
      if "free_cell mp md s ?c \<Longrightarrow> ?c \<in> set C \<or> ?c \<in> set (openSet s)"
      using inv_member [OF inv] that came
      by (intro inv_set_node [OF inv]) (auto simp: nd2_def nd_def member_def)
    consider (closed) "rounds nd = search_round s" "state nd = CLOSEDSET"
      | (occupied) "\<not> (rounds nd = search_round s \<and> state nd = CLOSEDSET)" "\<not> free_cell mp md s ?c"
      | (new) "rounds nd \<noteq> search_round s" "free_cell mp md s ?c"
      | (opened) "rounds nd = search_round s" "state nd \<noteq> CLOSEDSET" "free_cell mp md s ?c" by blast
    then show ?thesis
    proof cases
      case closed
      then have "expand mp md current ei d s = Inr (set_node ?c nd1 s)"
        using z inner g by (auto simp: expand_def Let_def idx nd1_def)
      with s1 closed(1) inv_known [OF inv inner] show ?thesis by (auto simp: nd_def)
    next
      case occupied
      then have "expand mp md current ei d s = Inr (set_node ?c nd2 s)"
        using z inner g by (auto simp: expand_def Let_def idx nd2_def checkOccupancy_free [OF ok])
      with s2 occupied(2) show ?thesis by auto
    next
      case new
      then have stranger: "?c \<notin> set C" "?c \<notin> set (openSet s)" using mem by blast+
      then have "?c \<noteq> current" using cur by auto
      with new z inner g obtain n where n: "expand mp md current ei d s = Inr ((set_node ?c n s)\<lparr>openSet := openSet s @ [?c]\<rparr>)"
        "index n = ?c" "rounds n = search_round s" "state n = OPENSET" "cameFrom n = Some current"
        by (auto simp: expand_def Let_def idx checkOccupancy_free [OF ok] set_node_def)
      from inv_push [OF inv cur adj inner new(2) stranger n(2-5)] n(1) show ?thesis
        by (auto simp: same_pool_def set_node_def)
    next
      case opened
      then have o: "?c \<in> set (openSet s)" using inv_known [OF inv inner] inv_member(1) [OF inv] by (auto simp: nd_def)
      have si: "si \<in> set C" using inv cur by (auto simp: search_inv_def)
      then have "?c \<noteq> si" using inv o by (auto simp: search_inv_def)
      have st: "state nd = OPENSET" using inv_member(2) [OF inv o] by (simp add: nd_def)
      from opened z inner g have "\<exists>n. expand mp md current ei d s = Inr (set_node ?c n s) \<and> index n = ?c \<and>
          rounds n = search_round s \<and> state n = OPENSET \<and> (cameFrom n = Some current \<or> cameFrom n = cameFrom nd)"
        by (auto simp: expand_def Let_def idx checkOccupancy_free [OF ok] set_node_def st)
      then obtain n where n: "expand mp md current ei d s = Inr (set_node ?c n s)" "index n = ?c"
        "rounds n = search_round s" "state n = OPENSET" "cameFrom n = Some current \<or> cameFrom n = cameFrom nd" by blast
      have "came_ok (set_node ?c n s) si C ?c"
        using n(5) came [OF o] \<open>?c \<noteq> si\<close> cur adj by (auto simp: came_ok_def)
      then have "search_inv mp md si ei C (set_node ?c n s)"
        using n o inv by (intro inv_set_node [OF inv]) (auto simp: search_inv_def)
      with n(1) o show ?thesis by auto
    qed
  qed
qed

end
