(* ===== verification/AStarLoop.thy ===== *)
theory AStarLoop
  imports AStarInv
begin

text \<open>
  The loop of the search: a round closes one node, so it ends; what it returns.
\<close>

section \<open>A round\<close>

lemma expand_all_ok:
  assumes ok: "map_params_ok mp" "grid_typed mp md"
  shows "search_inv mp md si ei C s \<Longrightarrow> current \<in> set C \<Longrightarrow> set ds \<subseteq> set offsets \<Longrightarrow>
    \<exists>t. fold_result (expand mp md current ei) ds s = Inr t \<and> same_pool s t \<and> search_inv mp md si ei C t \<and>
      set (openSet s) \<subseteq> set (openSet t) \<and>
      (\<forall>d \<in> set ds. adjacent current (iadd current d) \<and> inner_cell s (iadd current d) \<and> free_cell mp md s (iadd current d) \<longrightarrow>
         iadd current d \<in> set C \<or> iadd current d \<in> set (openSet t))"
proof (induction ds arbitrary: s)
  case Nil
  then show ?case by simp
next
  case (Cons d ds)
  from Cons.prems(3) have d: "d \<in> set offsets" by simp
  from expand_ok [OF ok Cons.prems(1,2) d] obtain u where u: "expand mp md current ei d s = Inr u"
    "same_pool s u" "search_inv mp md si ei C u" "set (openSet s) \<subseteq> set (openSet u)"
    "adjacent current (iadd current d) \<and> inner_cell s (iadd current d) \<and> free_cell mp md s (iadd current d) \<longrightarrow>
       iadd current d \<in> set C \<or> iadd current d \<in> set (openSet u)" by blast
  from Cons.prems(3) have ds: "set ds \<subseteq> set offsets" by simp
  from Cons.IH [OF u(3) Cons.prems(2) ds] obtain t where t: "fold_result (expand mp md current ei) ds u = Inr t"
    "same_pool u t" "search_inv mp md si ei C t" "set (openSet u) \<subseteq> set (openSet t)"
    "\<forall>d \<in> set ds. adjacent current (iadd current d) \<and> inner_cell u (iadd current d) \<and> free_cell mp md u (iadd current d) \<longrightarrow>
         iadd current d \<in> set C \<or> iadd current d \<in> set (openSet t)" by blast
  from u t same_pool_cells [OF u(2)] show ?case by (auto intro: same_pool_trans)
qed

text \<open>Every free inner neighbour of a closed node is known.\<close>

definition expanded :: "mapping_parameters \<Rightarrow> mapping_data \<Rightarrow> vec3i list \<Rightarrow> astar \<Rightarrow> bool" where
  "expanded mp md C s \<longleftrightarrow>
     (\<forall>c \<in> set C. \<forall>d. adjacent c d \<and> inner_cell s d \<and> free_cell mp md s d \<longrightarrow> d \<in> set C \<or> d \<in> set (openSet s))"

lemma adjacent_offset: "adjacent c d \<Longrightarrow> isub d c \<in> set offsets \<and> iadd c (isub d c) = d"
  by (auto simp: adjacent_def offsets_def set_box ile_def intro: vec3i_eqI)

lemma inv_close:
  assumes inv: "search_inv mp md si ei C s" and c: "c \<in> set (openSet s)"
  shows "search_inv mp md si ei (c # C)
    (set_node c ((GridNodeMap s c)\<lparr>state := CLOSEDSET\<rparr>) (s\<lparr>openSet := remove1 c (openSet s)\<rparr>))"
proof -
  let ?n = "(GridNodeMap s c)\<lparr>state := CLOSEDSET\<rparr>"
  let ?t = "set_node c ?n (s\<lparr>openSet := remove1 c (openSet s)\<rparr>)"
  have same: "same_pool s ?t" by (simp add: same_pool_def set_node_def)
  have d: "distinct (openSet s)" "c \<notin> set C" using inv c by (auto simp: search_inv_def)
  then have rem: "set (remove1 c (openSet s)) = set (openSet s) - {c}" by simp
  have keep: "came_ok ?t si D x = came_ok s si D x" for D x by (simp add: came_ok_def)
  have "nodes_ok mp md si (c # C) ?t"
    unfolding nodes_ok_def same_pool_member [OF same]
    using inv_member [OF inv] c d(2) rem by (auto simp: member_def)
  moreover have "known_ok mp md (c # C) ?t"
    unfolding known_ok_def same_pool_cells [OF same]
    using inv_known [OF inv] rem by auto
  moreover have "closed_ok ?t si (c # C)"
    using inv c closed_ok_cong [of s si C ?t] by (auto simp: search_inv_def links_ok_def keep)
  moreover have "came_ok ?t si (c # C) x" if "x \<in> set (openSet s)" for x
    using inv that came_ok_mono [of s si C x "c # C"] by (auto simp: search_inv_def links_ok_def keep)
  ultimately show ?thesis
    using inv c d rem by (auto simp: search_inv_def links_ok_def distinct_remove1)
qed

lemma search_round:
  assumes ok: "map_params_ok mp" "grid_typed mp md" and inv: "search_inv mp md si ei C s" and c: "c \<in> set (openSet s)"
    and ex: "expanded mp md C s"
  shows "\<exists>t. fold_result (expand mp md c ei) offsets
      (set_node c ((GridNodeMap s c)\<lparr>state := CLOSEDSET\<rparr>) (s\<lparr>openSet := remove1 c (openSet s)\<rparr>)) = Inr t \<and>
    same_pool s t \<and> search_inv mp md si ei (c # C) t \<and> expanded mp md (c # C) t"
proof -
  let ?s = "set_node c ((GridNodeMap s c)\<lparr>state := CLOSEDSET\<rparr>) (s\<lparr>openSet := remove1 c (openSet s)\<rparr>)"
  have same: "same_pool s ?s" by (simp add: same_pool_def set_node_def)
  from expand_all_ok [OF ok inv_close [OF inv c], of c offsets] obtain t where
    t: "fold_result (expand mp md c ei) offsets ?s = Inr t" "same_pool ?s t" "search_inv mp md si ei (c # C) t"
      "set (openSet ?s) \<subseteq> set (openSet t)"
    and nb: "\<forall>d \<in> set offsets. adjacent c (iadd c d) \<and> inner_cell ?s (iadd c d) \<and> free_cell mp md ?s (iadd c d) \<longrightarrow>
      iadd c d \<in> set (c # C) \<or> iadd c d \<in> set (openSet t)" by auto
  note cells = same_pool_cells [OF same_pool_trans [OF same t(2)]]
  have "d \<in> set (c # C) \<or> d \<in> set (openSet t)"
    if x: "x \<in> set (c # C)" "adjacent x d" "inner_cell s d" "free_cell mp md s d" for x d
  proof (cases "x = c")
    case True
    with nb adjacent_offset [of c d] x same_pool_cells [OF same] show ?thesis by fastforce
  next
    case False
    with x ex have "d \<in> set C \<or> d \<in> set (openSet s)" by (auto simp: expanded_def)
    moreover have "distinct (openSet s)" using inv by (simp add: search_inv_def)
    ultimately show ?thesis using t(4) by auto
  qed
  then have "expanded mp md (c # C) t" by (auto simp: expanded_def cells)
  with t same_pool_trans [OF same t(2)] show ?thesis by blast
qed

section \<open>The loop\<close>

definition path_found :: "mapping_parameters \<Rightarrow> mapping_data \<Rightarrow> vec3i \<Rightarrow> vec3i \<Rightarrow> astar \<Rightarrow> bool" where
  "path_found mp md si ei s \<longleftrightarrow>
     gridPath s \<noteq> [] \<and> hd (gridPath s) = ei \<and> last (gridPath s) = si \<and> links (gridPath s) \<and>
     (\<forall>c \<in> set (gridPath s). in_pool s c \<and> index (GridNodeMap s c) = c \<and> free_cell mp md s c \<and> (c = si \<or> inner_cell s c))"

lemma closed_fit:
  assumes "search_inv mp md si ei C s"
  shows "length C \<le> length (pool_cells s)"
proof -
  have "distinct C" "set C \<subseteq> set (pool_cells s)"
    using assms inv_member(1) [OF assms] by (auto simp: search_inv_def pool_cells_iff member_def)
  then show ?thesis by (metis card_mono distinct_card finite_set card_length order_trans)
qed

lemma retrievePath_ok:
  assumes inv: "search_inv mp md si ei C s" and c: "c \<in> set (openSet s)" "index (GridNodeMap s c) = ei"
  defines "s1 \<equiv> s\<lparr>openSet := remove1 c (openSet s)\<rparr>"
  shows "\<exists>ps. retrievePath s1 c = Inr ps \<and> path_found mp md si ei (s1\<lparr>gridPath := ps\<rparr>)"
proof -
  have same: "same_pool s s1" by (simp add: s1_def)
  note cells = same_pool_cells [OF same]
  have nodes: "GridNodeMap s1 = GridNodeMap s" by (simp add: s1_def)
  have ce: "c = ei" using inv_member(2) [OF inv c(1)] c(2) by (simp add: member_def)
  have l: "closed_ok s1 si C" "came_ok s1 si C c"
    using inv c(1) by (simp_all add: search_inv_def links_ok_def s1_def)
  have m: "member mp md si s d (GridNodeMap s d)" if "d \<in> insert c (set C)" for d
    using inv_member [OF inv] c(1) that by blast
  then have p: "\<forall>d \<in> insert c (set C). in_pool s1 d" by (auto simp: member_def cells)
  have "length C < Suc (length (pool_cells s1))" using closed_fit [OF inv] cells by simp
  from retrieve_ok [OF l p this] obtain ps where ps: "retrieve (Suc (length (pool_cells s1))) s1 c = Inr (c # ps)"
    "last (c # ps) = si" "links (c # ps)" "set ps \<subseteq> set C" by blast
  let ?t = "s1\<lparr>gridPath := c # ps\<rparr>"
  have same': "same_pool s ?t" by (simp add: same_pool_def s1_def)
  have "path_found mp md si ei ?t"
    unfolding path_found_def same_pool_cells [OF same']
    using ps m ce by (auto simp: member_def nodes)
  with ps(1) show ?thesis by (auto simp: retrievePath_def)
qed

text \<open>
  The loop returns; with the answer true it has a path; with the answer false, if the time was not
  up, every node that can be reached is closed and the goal is not among them.
\<close>

lemma search_ok:
  assumes ok: "map_params_ok mp" "grid_typed mp md" and pick: "\<And>s. openSet s \<noteq> [] \<Longrightarrow> pick s \<in> set (openSet s)"
  shows "search_inv mp md si ei C s \<Longrightarrow> expanded mp md C s \<Longrightarrow> ei \<notin> set C \<Longrightarrow>
    Suc (length (pool_cells s)) \<le> n + length C \<Longrightarrow>
    \<exists>b t. search n pick late mp md ei i s = Inr (b, t) \<and> same_pool s t \<and> (b \<longrightarrow> path_found mp md si ei t) \<and>
      (\<not> b \<and> (\<forall>i. \<not> late i) \<longrightarrow> (\<exists>D. search_inv mp md si ei D t \<and> expanded mp md D t \<and> ei \<notin> set D \<and> openSet t = []))"
proof (induction n arbitrary: C i s)
  case 0
  with closed_fit [OF 0(1)] show ?case by simp
next
  case (Suc n)
  show ?case
  proof (cases "openSet s = []")
    case True
    with Suc.prems show ?thesis by auto
  next
    case False
    define c where "c = pick s"
    have c: "c \<in> set (openSet s)" using pick [OF False] by (simp add: c_def)
    have m: "in_pool s c" "index (GridNodeMap s c) = c" using inv_member(2) [OF Suc.prems(1) c] by (simp_all add: member_def)
    have ei: "index (GridNodeMap s ei) = ei" using Suc.prems(1) by (simp add: search_inv_def)
    let ?s1 = "s\<lparr>openSet := remove1 c (openSet s)\<rparr>"
    have g: "get_node ?s1 c = Inr (GridNodeMap s c)" using m(1) by (simp add: get_node_def in_pool_def)
    show ?thesis
    proof (cases "c = ei")
      case True
      with retrievePath_ok [OF Suc.prems(1) c] m(2) obtain ps where
        ps: "retrievePath ?s1 c = Inr ps" "path_found mp md si ei (?s1\<lparr>gridPath := ps\<rparr>)" by auto
      have "search (Suc n) pick late mp md ei i s = Inr (True, ?s1\<lparr>gridPath := ps\<rparr>)"
        using False g m(2) ei True ps(1) by (simp add: c_def [symmetric] Let_def)
      with ps(2) show ?thesis by (auto simp: same_pool_def)
    next
      case ne: False
      from search_round [OF ok Suc.prems(1) c Suc.prems(2)] obtain t where
        t: "fold_result (expand mp md c ei) offsets (set_node c ((GridNodeMap s c)\<lparr>state := CLOSEDSET\<rparr>) ?s1) = Inr t"
          "same_pool s t" "search_inv mp md si ei (c # C) t" "expanded mp md (c # C) t" by blast
      have run: "search (Suc n) pick late mp md ei i s =
          (if late i then Inr (False, t) else search n pick late mp md ei (Suc i) t)"
        using False g m(2) ei ne t(1) by (simp add: c_def [symmetric] Let_def)
      show ?thesis
      proof (cases "late i")
        case True
        with run t(2) show ?thesis by auto
      next
        case False
        have "Suc (length (pool_cells t)) \<le> n + length (c # C)"
          using Suc.prems(4) same_pool_cells(5) [OF t(2)] by simp
        moreover have "ei \<notin> set (c # C)" using Suc.prems(3) ne by simp
        ultimately obtain b u where u: "search n pick late mp md ei (Suc i) t = Inr (b, u)" "same_pool t u"
          "b \<longrightarrow> path_found mp md si ei u"
          "\<not> b \<and> (\<forall>i. \<not> late i) \<longrightarrow> (\<exists>D. search_inv mp md si ei D u \<and> expanded mp md D u \<and> ei \<notin> set D \<and> openSet u = [])"
          using Suc.IH [OF t(3,4)] by blast
        with run False same_pool_trans [OF t(2) u(2)] show ?thesis by auto
      qed
    qed
  qed
qed

lemma reachable_closed:
  assumes "reachable_cell mp md s si c" "search_inv mp md si ei D t" "expanded mp md D t" "openSet t = []" "same_pool s t"
  shows "c \<in> set D"
  using assms(1)
proof induction
  case start
  with assms(2,4) show ?case by (auto simp: search_inv_def)
next
  case (move c d)
  with assms(3,4) same_pool_cells [OF assms(5)] show ?case by (auto simp: expanded_def)
qed

text \<open>The search from a freshly opened start.\<close>

lemma open_start_ok:
  assumes si: "in_pool s si" "free_cell mp md s si" and ei: "in_pool s ei"
    and old: "\<forall>c. rounds (GridNodeMap s c) < search_round s"
  shows "\<exists>t. open_start si ei s = Inr t \<and> same_pool s t \<and> search_inv mp md si ei [] t \<and> expanded mp md [] t"
proof -
  obtain t where t: "open_start si ei s = Inr t"
    using si(1) ei by (auto simp: open_start_def get_node_def Let_def)
  then have o: "openSet t = [si]" and same: "same_pool s t"
    and node: "GridNodeMap t c = (if c = si \<or> c = ei then GridNodeMap t c else GridNodeMap s c)"
    and start: "index (GridNodeMap t si) = si" "rounds (GridNodeMap t si) = search_round s"
      "state (GridNodeMap t si) = OPENSET" "cameFrom (GridNodeMap t si) = None"
    and goal: "index (GridNodeMap t ei) = ei" "si \<noteq> ei \<Longrightarrow> rounds (GridNodeMap t ei) = rounds (GridNodeMap s ei)" for c
    using si(1) ei by (auto simp: open_start_def get_node_def Let_def same_pool_def set_node_def)
  note cells = same_pool_cells [OF same]
  have "nodes_ok mp md si [] t" using start si by (simp add: nodes_ok_def o member_def cells)
  moreover have "known_ok mp md [] t"
  proof -
    have "rounds (GridNodeMap t c) \<noteq> search_round s" if "c \<noteq> si" for c
      using that node [of c] goal(2) old by (cases "c = ei") (auto simp: order_less_imp_not_eq)
    then show ?thesis by (auto simp: known_ok_def o cells)
  qed
  moreover have "links_ok si [] t" using start(4) by (simp add: links_ok_def o came_ok_def)
  ultimately have "search_inv mp md si ei [] t" using goal(1) by (simp add: search_inv_def o)
  moreover have "expanded mp md [] t" by (simp add: expanded_def)
  ultimately show ?thesis using t same by blast
qed

end
