(* ===== verification/AStarProps.thy ===== *)
theory AStarProps
  imports AStarLoop
begin

text \<open>
  The whole search: the loops that move an end point out of an obstacle end when the two points
  differ, and the properties of \<open>AstarSearch\<close> and \<open>getPath\<close>, over any number of searches on one pool.
\<close>

section \<open>Moving an end point\<close>

lemma vnorm_le_sum: "vnorm a \<le> \<bar>vx a\<bar> + \<bar>vy a\<bar> + \<bar>vz a\<bar>"
proof -
  have "vx a * vx a + vy a * vy a + vz a * vz a \<le> (\<bar>vx a\<bar> + \<bar>vy a\<bar> + \<bar>vz a\<bar>)\<^sup>2"
    by (simp add: power2_eq_square algebra_simps)
  then show ?thesis by (simp add: vnorm_def real_le_lsqrt)
qed

lemma vnorm_pos: "a \<noteq> b \<Longrightarrow> 0 < vnorm (vsub a b)"
  using component_le_vnorm [of "vsub a b"] vnorm_nonneg [of "vsub a b"]
  by (cases a; cases b) (auto simp: less_eq_real_def)

definition on_line :: "vec3 \<Rightarrow> vec3 \<Rightarrow> real \<Rightarrow> vec3" where
  "on_line q u t = vadd q (vscale t u)"

lemma normalized_on_line:
  assumes "vnorm u = 1" "0 < t"
  shows "normalized (vsub (on_line q u t) q) = u"
proof -
  have "vsub (on_line q u t) q = vscale t u" by (cases q; cases u) (simp add: on_line_def vsub_def vadd_def vscale_def)
  moreover have "vnorm (vscale t u) = t" using assms by (simp add: vnorm_scale)
  moreover have "vscale (1 / t) (vscale t u) = u" using assms(2) by (cases u) (simp add: vscale_def)
  ultimately show ?thesis using assms(2) by (simp add: normalized_def)
qed

text \<open>The pool around the centre; a point of the pool is not far from the centre.\<close>

definition pool_ok :: "astar \<Rightarrow> bool" where
  "pool_ok s \<longleftrightarrow> ile (icube 0) (center_idx s) \<and> ile (center_idx s) (pool_size s)"

lemma axis_near:
  assumes "0 < h" "0 \<le> ci" "ci \<le> P" "0 \<le> trunc (x * (1 / h) + 1/2) + ci" "trunc (x * (1 / h) + 1/2) + ci < P"
  shows "\<bar>x\<bar> \<le> (of_int P + 3/2) * h"
proof -
  have "\<bar>x * (1 / h) + 1/2\<bar> \<le> of_int P + 1"
    using assms(2-5) by (auto simp: trunc_def abs_le_iff split: if_splits) linarith+
  then have "\<bar>x / h\<bar> \<le> of_int P + 3/2" by (simp add: abs_le_iff) linarith
  with assms(1) show ?thesis by (simp add: abs_divide pos_divide_le_eq)
qed

lemma pool_near:
  assumes "pool_ok s" "0 < step_size s" "inv_step_size s = 1 / step_size s" "fst (Coord2Index s p)"
  shows "vnorm (vsub p (center s)) \<le> (of_int (ix (pool_size s) + iy (pool_size s) + iz (pool_size s)) + 9/2) * step_size s"
proof -
  let ?h = "step_size s" and ?d = "vsub p (center s)"
  have "\<bar>vx ?d\<bar> \<le> (of_int (ix (pool_size s)) + 3/2) * ?h"
    by (rule axis_near [where ci = "ix (center_idx s)"])
      (use assms in \<open>auto simp: Coord2Index_def coord_axis_def Let_def pool_ok_def ile_def\<close>)
  moreover have "\<bar>vy ?d\<bar> \<le> (of_int (iy (pool_size s)) + 3/2) * ?h"
    by (rule axis_near [where ci = "iy (center_idx s)"])
      (use assms in \<open>auto simp: Coord2Index_def coord_axis_def Let_def pool_ok_def ile_def\<close>)
  moreover have "\<bar>vz ?d\<bar> \<le> (of_int (iz (pool_size s)) + 3/2) * ?h"
    by (rule axis_near [where ci = "iz (center_idx s)"])
      (use assms in \<open>auto simp: Coord2Index_def coord_axis_def Let_def pool_ok_def ile_def\<close>)
  ultimately have "\<bar>vx ?d\<bar> + \<bar>vy ?d\<bar> + \<bar>vz ?d\<bar> \<le>
      (of_int (ix (pool_size s) + iy (pool_size s) + iz (pool_size s)) + 9/2) * ?h" by (simp add: algebra_simps)
  with vnorm_le_sum [of ?d] show ?thesis by linarith
qed

definition far_out :: "astar \<Rightarrow> real" where
  "far_out s = (of_int (ix (pool_size s) + iy (pool_size s) + iz (pool_size s)) + 9/2) * step_size s"

lemma Coord2Index_pool: "Coord2Index s p = (True, c) \<Longrightarrow> in_pool s c"
  by (auto simp: Coord2Index_def Let_def in_pool_def)

lemma push_out_ok:
  assumes ok: "map_params_ok mp" "grid_typed mp md" and s: "pool_ok s" "0 < step_size s" "inv_step_size s = 1 / step_size s"
    and u: "vnorm u = 1" and m: "center s = on_line q u m"
  shows "0 < t \<Longrightarrow> m \<le> t \<Longrightarrow> t - m \<le> far_out s \<Longrightarrow> far_out s < t - m + real n * step_size s \<Longrightarrow>
    \<exists>r. push_out n mp md s (on_line q u t) q = Inr r \<and>
      (case r of None \<Rightarrow> True | Some (p', c) \<Rightarrow> in_pool s c \<and> free_cell mp md s c \<and> (\<exists>t' \<ge> t. p' = on_line q u t'))"
proof (induction n arbitrary: t)
  case 0
  then show ?case by simp
next
  case (Suc n)
  let ?t = "t + step_size s"
  have p': "vadd (vscale (step_size s) (normalized (vsub (on_line q u t) q))) (on_line q u t) = on_line q u ?t"
    unfolding normalized_on_line [OF u Suc.prems(1)]
    by (cases q; cases u) (simp add: on_line_def vadd_def vscale_def algebra_simps)
  obtain b c where bc: "Coord2Index s (on_line q u ?t) = (b, c)" by (cases "Coord2Index s (on_line q u ?t)") auto
  show ?case
  proof (cases "b \<and> \<not> free_cell mp md s c")
    case False
    with bc Coord2Index_pool s(2) show ?thesis
      by (cases b) (auto simp: p' Let_def checkOccupancy_free [OF ok] intro!: exI [of _ ?t])
  next
    case True
    have "vsub (on_line q u ?t) (center s) = vscale (?t - m) u"
      unfolding m by (cases q; cases u) (simp add: on_line_def vadd_def vsub_def vscale_def algebra_simps)
    then have "vnorm (vsub (on_line q u ?t) (center s)) = ?t - m" using u Suc.prems(2) s(2) by (simp add: vnorm_scale)
    with pool_near [OF s, of "on_line q u ?t"] bc True have "?t - m \<le> far_out s" by (simp add: far_out_def)
    moreover have "far_out s < ?t - m + real n * step_size s" using Suc.prems(4) by (simp add: algebra_simps)
    ultimately obtain r where r: "push_out n mp md s (on_line q u ?t) q = Inr r"
      "case r of None \<Rightarrow> True | Some (p', c) \<Rightarrow> in_pool s c \<and> free_cell mp md s c \<and> (\<exists>t' \<ge> ?t. p' = on_line q u t')"
      using Suc.IH [of ?t] Suc.prems(1,2) s(2) by auto
    have "case r of None \<Rightarrow> True | Some (p', c) \<Rightarrow> in_pool s c \<and> free_cell mp md s c \<and> (\<exists>t' \<ge> t. p' = on_line q u t')"
      using r(2) s(2) by (auto split: option.splits) (metis add_increasing2 less_imp_le order_trans le_add_same_cancel1)
    with r(1) bc True show ?thesis by (auto simp: p' Let_def checkOccupancy_free [OF ok])
  qed
qed

text \<open>One end point, and both.\<close>

lemma settle_point_ok:
  assumes ok: "map_params_ok mp" "grid_typed mp md" and s: "pool_ok s" "0 < step_size s" "inv_step_size s = 1 / step_size s"
    and u: "vnorm u = 1" and m: "center s = on_line q u m" and t: "0 < t" "m \<le> t"
    and c: "Coord2Index s (on_line q u t) = (True, c)"
  shows "\<exists>r. settle_point mp md s (on_line q u t) c q = Inr r \<and>
      (case r of None \<Rightarrow> True | Some (p', c) \<Rightarrow> in_pool s c \<and> free_cell mp md s c \<and> (\<exists>t' \<ge> t. p' = on_line q u t'))"
proof (cases "free_cell mp md s c")
  case True
  with Coord2Index_pool [OF c] show ?thesis by (auto simp: settle_point_def checkOccupancy_free [OF ok])
next
  case False
  have "vsub (on_line q u t) (center s) = vscale (t - m) u"
    unfolding m by (cases q; cases u) (simp add: on_line_def vadd_def vsub_def vscale_def algebra_simps)
  then have "vnorm (vsub (on_line q u t) (center s)) = t - m" using u t by (simp add: vnorm_scale)
  with pool_near [OF s, of "on_line q u t"] c have near: "t - m \<le> far_out s" by (simp add: far_out_def)
  have "0 \<le> ix (pool_size s)" "0 \<le> iy (pool_size s)" "0 \<le> iz (pool_size s)" using s(1) by (auto simp: pool_ok_def ile_def)
  then have "real (push_fuel s) = of_int (ix (pool_size s) + iy (pool_size s) + iz (pool_size s)) + 6"
    by (simp add: push_fuel_def)
  then have "far_out s < real (push_fuel s) * step_size s" using s(2) by (simp add: far_out_def)
  with t(2) have "far_out s < t - m + real (push_fuel s) * step_size s" by linarith
  from push_out_ok [OF ok s u m t near this] False show ?thesis
    by (simp add: settle_point_def checkOccupancy_free [OF ok])
qed

lemma convert_distinct:
  assumes ok: "map_params_ok mp" "grid_typed mp md" and s: "pool_ok s" "0 < step_size s" "inv_step_size s = 1 / step_size s"
    and c: "center s = vscale (1/2) (vadd a b)" and ne: "a \<noteq> b"
  shows "\<exists>r. ConvertToIndexAndAdjustStartEndPoints mp md s a b = Inr r \<and>
    (case r of None \<Rightarrow> True | Some (si, ei) \<Rightarrow> in_pool s si \<and> free_cell mp md s si \<and> in_pool s ei \<and> free_cell mp md s ei)"
proof -
  obtain b1 c1 b2 c2 where idx: "Coord2Index s a = (b1, c1)" "Coord2Index s b = (b2, c2)" by fastforce
  show ?thesis
  proof (cases "b1 \<and> b2")
    case False
    with idx show ?thesis by (auto simp: ConvertToIndexAndAdjustStartEndPoints_def)
  next
    case True
    define L where "L = vnorm (vsub a b)"
    define u where "u = normalized (vsub a b)"
    define w where "w = vscale (- 1) u"
    have L: "0 < L" using vnorm_pos [OF ne] by (simp add: L_def)
    have u: "vnorm u = 1" "vnorm w = 1" using L by (simp_all add: u_def w_def normalized_def vnorm_scale L_def)
    have "u = vscale (1 / L) (vsub a b)" using L by (simp add: u_def normalized_def L_def)
    then have ab: "a = on_line b u L" using L
      by (cases a; cases b) (simp add: on_line_def vsub_def vadd_def vscale_def)
    have mid: "center s = on_line b u (L / 2)"
      unfolding c by (subst ab) (cases b; cases u; simp add: on_line_def vadd_def vscale_def algebra_simps)
    from settle_point_ok [OF ok s u(1) mid L, of c1] idx True L ab obtain r1 where
      r1: "settle_point mp md s a c1 b = Inr r1"
        "case r1 of None \<Rightarrow> True | Some (p', c) \<Rightarrow> in_pool s c \<and> free_cell mp md s c \<and> (\<exists>t' \<ge> L. p' = on_line b u t')" by auto
    show ?thesis
    proof (cases r1)
      case None
      with r1(1) idx True show ?thesis by (simp add: ConvertToIndexAndAdjustStartEndPoints_def)
    next
      case (Some pc)
      then obtain p' si where pc: "r1 = Some (p', si)" by (cases pc) auto
      with r1(2) obtain t' where t': "L \<le> t'" "p' = on_line b u t'" and si: "in_pool s si" "free_cell mp md s si" by auto
      have b': "b = on_line p' w t'" and mid': "center s = on_line p' w (t' - L / 2)"
        unfolding mid t'(2) w_def by (cases b; cases u; simp add: on_line_def vadd_def vscale_def algebra_simps)+
      have "0 < t'" "t' - L / 2 \<le> t'" using t'(1) L by linarith+
      from settle_point_ok [OF ok s u(2) mid' this, of c2] idx True b' obtain r2 where
        r2: "settle_point mp md s b c2 p' = Inr r2"
          "case r2 of None \<Rightarrow> True | Some (p', c) \<Rightarrow> in_pool s c \<and> free_cell mp md s c" by (auto split: option.splits)
      with r1(1) pc idx True si show ?thesis
        by (cases r2) (auto simp: ConvertToIndexAndAdjustStartEndPoints_def)
    qed
  qed
qed

text \<open>Two equal points are the centre of the pool; when it is free nothing is moved.\<close>

lemma convert_same:
  assumes ok: "map_params_ok mp" "grid_typed mp md" and s: "0 < step_size s"
    and c: "center s = vscale (1/2) (vadd a a)" and free: "getInflateOccupancy mp md a = Inr 0"
  shows "\<exists>r. ConvertToIndexAndAdjustStartEndPoints mp md s a a = Inr r \<and>
    (case r of None \<Rightarrow> True | Some (si, ei) \<Rightarrow> in_pool s si \<and> free_cell mp md s si \<and> in_pool s ei \<and> free_cell mp md s ei)"
proof -
  obtain b i where bi: "Coord2Index s a = (b, i)" by (cases "Coord2Index s a") auto
  have ca: "center s = a" unfolding c by (cases a) (simp add: vadd_def vscale_def)
  have "i = center_idx s"
    using bi by (cases "center_idx s") (auto simp: Coord2Index_def coord_axis_def Let_def ca trunc_def)
  then have "Index2Coord s i = a" by (cases a) (simp add: Index2Coord_def vadd_def ca)
  then have "free_cell mp md s i" using free by (simp add: free_cell_def)
  then show ?thesis
    using bi Coord2Index_pool [of s a i]
    by (cases b) (auto simp: ConvertToIndexAndAdjustStartEndPoints_def settle_point_def checkOccupancy_free [OF ok])
qed

lemma convert_ok:
  assumes "map_params_ok mp" "grid_typed mp md" "pool_ok s" "0 < step_size s" "inv_step_size s = 1 / step_size s"
    and "center s = vscale (1/2) (vadd a b)" and "a = b \<longrightarrow> getInflateOccupancy mp md a = Inr 0"
  shows "\<exists>r. ConvertToIndexAndAdjustStartEndPoints mp md s a b = Inr r \<and>
    (case r of None \<Rightarrow> True | Some (si, ei) \<Rightarrow> in_pool s si \<and> free_cell mp md s si \<and> in_pool s ei \<and> free_cell mp md s ei)"
proof (cases "a = b")
  case True
  with convert_same [of mp md s b] assms show ?thesis by blast
next
  case False
  with convert_distinct assms(1-6) show ?thesis by blast
qed

section \<open>A pool between searches\<close>

definition astar_ok :: "astar \<Rightarrow> bool" where
  "astar_ok s \<longleftrightarrow> pool_ok s \<and> (\<forall>c. rounds (GridNodeMap s c) \<le> search_round s)"

lemma initGridMap_ok:
  assumes "ile (icube 0) psize" "0 \<le> search_round s"
  shows "astar_ok (initGridMap g psize s)"
proof -
  have "0 \<le> sgn x * (\<bar>x\<bar> div 2) \<and> sgn x * (\<bar>x\<bar> div 2) \<le> x" if "0 \<le> x" for x :: int
    using that by (auto simp: sgn_if)
  with assms show ?thesis by (simp add: astar_ok_def pool_ok_def initGridMap_def new_node_def ile_def)
qed

definition rounds_ok :: "astar \<Rightarrow> astar \<Rightarrow> bool" where
  "rounds_ok s t \<longleftrightarrow> search_round t = search_round s \<and>
     ((\<forall>c. rounds (GridNodeMap s c) \<le> search_round s) \<longrightarrow> (\<forall>c. rounds (GridNodeMap t c) \<le> search_round t))"

lemma rounds_ok_refl: "rounds_ok s s" and rounds_ok_trans: "rounds_ok s t \<Longrightarrow> rounds_ok t u \<Longrightarrow> rounds_ok s u"
  by (auto simp: rounds_ok_def)

lemma expand_rounds: "expand mp md current ei d s = Inr t \<Longrightarrow> rounds_ok s t"
  by (auto simp: expand_def Let_def rounds_ok_def set_node_def get_node_def split: if_splits)

lemma search_rounds: "search n pick late mp md ei i s = Inr (b, t) \<Longrightarrow> rounds_ok s t"
proof (induction n arbitrary: i s)
  case 0
  then show ?case by simp
next
  case (Suc n)
  show ?case
  proof (cases "openSet s = []")
    case True
    with Suc.prems show ?thesis by (simp add: rounds_ok_refl)
  next
    case False
    define s1 where "s1 = s\<lparr>openSet := remove1 (pick s) (openSet s)\<rparr>"
    have s1: "rounds_ok s s1" by (simp add: s1_def rounds_ok_def)
    have run: "bind_result (get_node s1 (pick s)) (\<lambda>nd.
        if index nd = index (GridNodeMap s1 ei)
        then bind_result (retrievePath s1 (pick s)) (\<lambda>p. Inr (True, s1\<lparr>gridPath := p\<rparr>))
        else bind_result (fold_result (expand mp md (pick s) ei) offsets (set_node (pick s) (nd\<lparr>state := CLOSEDSET\<rparr>) s1))
               (\<lambda>u. if late i then Inr (False, u) else search n pick late mp md ei (Suc i) u)) = Inr (b, t)"
      using Suc.prems False unfolding search.simps Let_def s1_def by (simp only: if_False)
    then obtain nd where nd: "get_node s1 (pick s) = Inr nd" by auto
    show ?thesis
    proof (cases "index nd = index (GridNodeMap s1 ei)")
      case True
      with run nd obtain p where "t = s1\<lparr>gridPath := p\<rparr>" by auto
      with s1 show ?thesis by (auto simp: rounds_ok_def)
    next
      case ne: False
      let ?s2 = "set_node (pick s) (nd\<lparr>state := CLOSEDSET\<rparr>) s1"
      from run nd ne obtain u where u: "fold_result (expand mp md (pick s) ei) offsets ?s2 = Inr u"
        and rest: "(if late i then Inr (False, u) else search n pick late mp md ei (Suc i) u) = Inr (b, t)" by auto
      have "rounds_ok s1 ?s2" using nd by (auto simp: rounds_ok_def set_node_def get_node_def split: if_splits)
      moreover have "rounds_ok ?s2 u"
        by (rule fold_result_inv [where P = "rounds_ok ?s2", OF _ rounds_ok_refl u])
          (blast intro: rounds_ok_trans expand_rounds)
      moreover have "rounds_ok u t" using rest Suc.IH by (auto simp: rounds_ok_refl split: if_splits)
      ultimately show ?thesis using s1 rounds_ok_trans by blast
    qed
  qed
qed

text \<open>The whole search.\<close>

lemma AstarSearch_ok:
  assumes ok: "map_params_ok mp" "grid_typed mp md" and s0: "astar_ok s0"
    and pick: "\<And>s. openSet s \<noteq> [] \<Longrightarrow> pick s \<in> set (openSet s)" and step: "0 < step"
    and ne: "a = b \<longrightarrow> getInflateOccupancy mp md a = Inr 0"
  shows "\<exists>s1 r found s. prepare step a b s0 = Inr s1 \<and> ConvertToIndexAndAdjustStartEndPoints mp md s1 a b = Inr r \<and>
    AstarSearch pick late mp md step a b s0 = Inr (found, s) \<and> same_pool s1 s \<and> astar_ok s \<and> step_size s = step \<and>
    (case r of None \<Rightarrow> \<not> found
     | Some (si, ei) \<Rightarrow> free_cell mp md s si \<and> (found \<longrightarrow> path_found mp md si ei s) \<and>
         ((\<forall>i. \<not> late i) \<longrightarrow> found = reachable_cell mp md s1 si ei))"
proof -
  obtain s1 where s1: "prepare step a b s0 = Inr s1" "pool_ok s1" "0 < step_size s1" "inv_step_size s1 = 1 / step_size s1"
    "center s1 = vscale (1/2) (vadd a b)" "step_size s1 = step"
    and old: "\<forall>c. rounds (GridNodeMap s1 c) < search_round s1"
    using s0 step by (auto simp: prepare_def astar_ok_def pool_ok_def ile_def le_imp_less_or_eq zle_add1_eq_le)
  from convert_ok [OF ok s1(2-5) ne] obtain r where r: "ConvertToIndexAndAdjustStartEndPoints mp md s1 a b = Inr r"
    "case r of None \<Rightarrow> True | Some (si, ei) \<Rightarrow> in_pool s1 si \<and> free_cell mp md s1 si \<and> in_pool s1 ei \<and> free_cell mp md s1 ei" by blast
  have ok1: "astar_ok s1" using s1(2) old by (auto simp: astar_ok_def order_less_imp_le)
  show ?thesis
  proof (cases r)
    case None
    with s1 r(1) ok1 show ?thesis by (auto simp: AstarSearch_def)
  next
    case (Some pr)
    obtain si ei where pr: "pr = (si, ei)" by (cases pr) auto
    with Some r(2) have si: "in_pool s1 si" "free_cell mp md s1 si" and ei: "in_pool s1 ei" by auto
    from open_start_ok [OF si ei old] obtain s2 where s2: "open_start si ei s1 = Inr s2" "same_pool s1 s2"
      "search_inv mp md si ei [] s2" "expanded mp md [] s2" by blast
    from search_ok [OF ok pick s2(3,4), of "Suc (length (pool_cells s2))" late 0] obtain found s where
      s: "search (Suc (length (pool_cells s2))) pick late mp md ei 0 s2 = Inr (found, s)" "same_pool s2 s"
        "found \<longrightarrow> path_found mp md si ei s"
        "\<not> found \<and> (\<forall>i. \<not> late i) \<longrightarrow> (\<exists>D. search_inv mp md si ei D s \<and> expanded mp md D s \<and> ei \<notin> set D \<and> openSet s = [])"
      by auto
    have same: "same_pool s1 s" using s2(2) s(2) by (rule same_pool_trans)
    note cells = same_pool_cells [OF same]
    have run: "AstarSearch pick late mp md step a b s0 = Inr (found, s)"
      using s1(1) r(1) Some pr s2(1) s(1) by (simp add: AstarSearch_def)
    have "found = reachable_cell mp md s1 si ei" if now: "\<forall>i. \<not> late i"
    proof (cases found)
      case True
      with s(3) have p: "path_found mp md si ei s" by simp
      then have "reachable_cell mp md s1 si (hd (gridPath s))"
        by (intro path_reachable) (auto simp: path_found_def cells)
      with True p show ?thesis by (simp add: path_found_def)
    next
      case False
      with s(4) now obtain D where D: "search_inv mp md si ei D s" "expanded mp md D s" "ei \<notin> set D" "openSet s = []" by blast
      from reachable_closed [OF _ D(1,2,4) same] D(3) False show ?thesis by blast
    qed
    moreover have "astar_ok s"
    proof -
      have "rounds_ok s2 s" using search_rounds [OF s(1)] .
      moreover have "\<forall>c. rounds (GridNodeMap s2 c) \<le> search_round s2"
        using s2(1,2) old si ei
        by (auto simp: open_start_def get_node_def Let_def set_node_def same_pool_def order_less_imp_le)
      ultimately show ?thesis using s1(2) same by (auto simp: astar_ok_def rounds_ok_def pool_ok_def same_pool_def)
    qed
    moreover have "step_size s = step" "free_cell mp md s si" using same s1(6) si(2) cells by (simp_all add: same_pool_def)
    ultimately show ?thesis using s1(1) r(1) Some pr run same s(3) by auto
  qed
qed

section \<open>Properties\<close>

text \<open>
  C6: The search decides reachability through the interior of the pool.  On a map of the right type
  and a pool on which any number of searches ran before, whichever element of the open set is taken
  first, \<open>AstarSearch\<close> returns and leaves the pool ready for the next search, unless its two points
  are one and the same point that is not free (then it hangs, see C40).  When the time limit does
  not strike, its answer is true exactly when both points have a cell (their own, or the first free
  one away from the other point) and the two cells are the same or a walk from the first to the second
  exists over neighbouring free cells, none of them on the border of the pool: the border is never
  entered, so a goal whose cell is on the border is answered false even when a free neighbour of
  it can be reached.
\<close>

theorem astar_decides:
  assumes "map_params_ok mp" "grid_typed mp md" "astar_ok s0" "\<forall>s. openSet s \<noteq> [] \<longrightarrow> pick s \<in> set (openSet s)"
    "0 < step" "a = b \<longrightarrow> getInflateOccupancy mp md a = Inr 0"
  shows "\<exists>s1 r found s. prepare step a b s0 = Inr s1 \<and> ConvertToIndexAndAdjustStartEndPoints mp md s1 a b = Inr r \<and>
    AstarSearch pick late mp md step a b s0 = Inr (found, s) \<and> astar_ok s \<and>
    ((\<forall>i. \<not> late i) \<longrightarrow> found = (case r of None \<Rightarrow> False | Some (si, ei) \<Rightarrow> reachable_cell mp md s1 si ei)) \<and>
    (\<forall>si ei. r = Some (si, ei) \<and> si \<noteq> ei \<and> \<not> inner_cell s1 ei \<longrightarrow> \<not> found)"
proof -
  have pick: "openSet s \<noteq> [] \<Longrightarrow> pick s \<in> set (openSet s)" for s using assms(4) by simp
  from AstarSearch_ok [OF assms(1-3) pick assms(5,6), of late] obtain s1 r found s where
    h: "prepare step a b s0 = Inr s1" "ConvertToIndexAndAdjustStartEndPoints mp md s1 a b = Inr r"
    "AstarSearch pick late mp md step a b s0 = Inr (found, s)" "astar_ok s" "same_pool s1 s"
    "case r of None \<Rightarrow> \<not> found
     | Some (si, ei) \<Rightarrow> free_cell mp md s si \<and> (found \<longrightarrow> path_found mp md si ei s) \<and>
         ((\<forall>i. \<not> late i) \<longrightarrow> found = reachable_cell mp md s1 si ei)" by blast
  have "\<not> found" if "r = Some (si, ei)" "si \<noteq> ei" "\<not> inner_cell s1 ei" for si ei
  proof
    assume found
    with h(6) that(1) have "path_found mp md si ei s" by simp
    with that(2) have "inner_cell s ei"
      by (cases "gridPath s") (auto simp: path_found_def)
    with that(3) same_pool_cells [OF h(5)] show False by simp
  qed
  with h show ?thesis by (cases r) auto
qed

text \<open>
  C18: A path that is found is one.  When \<open>AstarSearch\<close> answers true, \<open>getPath\<close> gives a path that is
  not empty, whose points are all free in the inflated map, whose neighbouring points are at most
  one step apart on each axis, and which leads from the cell of the first point to the cell of the
  second, as \<open>ConvertToIndexAndAdjustStartEndPoints\<close> chose them.
\<close>

theorem astar_path_sound:
  assumes "map_params_ok mp" "grid_typed mp md" "astar_ok s0" "\<forall>s. openSet s \<noteq> [] \<longrightarrow> pick s \<in> set (openSet s)"
    "0 < step" "a \<noteq> b" "AstarSearch pick late mp md step a b s0 = Inr (True, s)"
  shows "getPath s \<noteq> [] \<and> (\<forall>p \<in> set (getPath s). getInflateOccupancy mp md p = Inr 0) \<and>
    successively (\<lambda>p q. \<bar>vx q - vx p\<bar> \<le> step \<and> \<bar>vy q - vy p\<bar> \<le> step \<and> \<bar>vz q - vz p\<bar> \<le> step) (getPath s) \<and>
    (\<exists>s1 si ei. prepare step a b s0 = Inr s1 \<and> ConvertToIndexAndAdjustStartEndPoints mp md s1 a b = Inr (Some (si, ei)) \<and>
       hd (getPath s) = Index2Coord s1 si \<and> last (getPath s) = Index2Coord s1 ei)"
proof -
  have pick: "openSet s \<noteq> [] \<Longrightarrow> pick s \<in> set (openSet s)" for s using assms(4) by simp
  have "a = b \<longrightarrow> getInflateOccupancy mp md a = Inr 0" using assms(6) by simp
  from AstarSearch_ok [OF assms(1-3) pick assms(5) this, of late] assms(7) obtain s1 r where
    s1: "prepare step a b s0 = Inr s1" "ConvertToIndexAndAdjustStartEndPoints mp md s1 a b = Inr r" "same_pool s1 s"
      "step_size s = step"
    and r: "case r of None \<Rightarrow> False | Some (si, ei) \<Rightarrow> path_found mp md si ei s" by (auto split: option.splits)
  from r obtain si ei where pr: "r = Some (si, ei)" and p: "path_found mp md si ei s" by (auto split: option.splits)
  have path: "getPath s = rev (map (Index2Coord s) (gridPath s))"
    using p by (simp add: getPath_def path_found_def)
  have near: "\<bar>vx (Index2Coord s d) - vx (Index2Coord s c)\<bar> \<le> step \<and> \<bar>vy (Index2Coord s d) - vy (Index2Coord s c)\<bar> \<le> step \<and>
      \<bar>vz (Index2Coord s d) - vz (Index2Coord s c)\<bar> \<le> step" if "adjacent c d" for c d
  proof -
    have "\<bar>step * (of_int i - of_int k) - step * (of_int j - of_int k)\<bar> \<le> step" if "\<bar>i - j\<bar> \<le> 1" for i j k :: int
    proof -
      have "step * (of_int i - of_int k) - step * (of_int j - of_int k) = step * real_of_int (i - j)" by (simp add: algebra_simps)
      moreover have "\<bar>real_of_int (i - j)\<bar> \<le> 1" using that by linarith
      ultimately show ?thesis using assms(5) mult_left_mono [of "\<bar>real_of_int (i - j)\<bar>" 1 step] by (simp add: abs_mult)
    qed
    then show ?thesis using that s1(4) by (simp add: Index2Coord_def adjacent_def)
  qed
  have "successively (\<lambda>p q. \<bar>vx q - vx p\<bar> \<le> step \<and> \<bar>vy q - vy p\<bar> \<le> step \<and> \<bar>vz q - vz p\<bar> \<le> step) (getPath s)"
    unfolding path successively_rev successively_map
    by (rule successively_mono [of "\<lambda>a b. adjacent b a"]) (use p near in \<open>auto simp: path_found_def links_def\<close>)
  moreover have "\<forall>p \<in> set (getPath s). getInflateOccupancy mp md p = Inr 0"
    unfolding path using p by (auto simp: path_found_def free_cell_def)
  moreover have "hd (getPath s) = Index2Coord s1 si" "last (getPath s) = Index2Coord s1 ei"
    unfolding path using p same_pool_cells(4) [OF s1(3)]
    by (auto simp: path_found_def hd_rev last_rev last_map hd_map)
  moreover have "getPath s \<noteq> []" unfolding path using p by (simp add: path_found_def)
  ultimately show ?thesis using s1(1,2) pr by blast
qed

text \<open>
  C40: When the two points are the same and lie in an obstacle or outside the map, the loop that
  moves the first one does not move it, since the direction is the zero vector: it never ends, and
  with it the search.
\<close>

theorem astar_same_point_hangs:
  assumes "getInflateOccupancy mp md p = Inr v" "v \<noteq> 0" "step \<noteq> 0" "in_pool s0 (center_idx s0)"
  shows "AstarSearch pick late mp md step p p s0 = Inl Hangs \<and>
    (\<exists>s1. prepare step p p s0 = Inr s1 \<and> (\<forall>n. push_out n mp md s1 p p = Inl Hangs))"
proof -
  obtain s1 where s1: "prepare step p p s0 = Inr s1" "in_pool s1 (center_idx s1)" "center s1 = p"
    using assms(3,4) by (cases p) (auto simp: prepare_def in_pool_def vscale_def vadd_def)
  have zero: "normalized (vsub p p) = vzero"
    by (simp add: normalized_def) (simp add: vsub_def vzero_def)
  have stay: "vadd (vscale h vzero) p = p" for h by (cases p) (simp add: vadd_def vscale_def vzero_def)
  have idx: "Coord2Index s1 p = (True, center_idx s1)"
    using s1(2,3) by (cases "center_idx s1") (auto simp: Coord2Index_def coord_axis_def Let_def in_pool_def trunc_def)
  have "Index2Coord s1 (center_idx s1) = p"
    using s1(3) by (cases p) (simp add: Index2Coord_def vadd_def)
  then have occ: "checkOccupancy mp md (Index2Coord s1 (center_idx s1)) = Inr True"
    using assms(1,2) by (simp add: checkOccupancy_def)
  have push: "push_out n mp md s1 p p = Inl Hangs" for n
    by (induction n) (simp_all add: zero stay idx occ)
  then have "settle_point mp md s1 p (center_idx s1) p = Inl Hangs" by (simp add: settle_point_def occ)
  then show ?thesis using s1(1) push by (simp add: AstarSearch_def ConvertToIndexAndAdjustStartEndPoints_def idx)
qed

end
