(* ===== verification/AStarDemo.thy ===== *)
theory AStarDemo
  imports AStarProps GridDemo
begin

text \<open>Concrete inputs for the properties of the graph search: the map of \<open>GridDemo\<close> and a pool of 1000 nodes.\<close>

definition demo_pool :: astar where
  "demo_pool = initGridMap (icube 0) (icube 10)
     \<lparr>pool_size = icube 0, center_idx = icube 0, step_size = 0, inv_step_size = 0, center = vzero,
      GridNodeMap = (\<lambda>_. new_node (icube 0)), openSet = [], search_round = 0, gridPath = []\<rparr>"

abbreviation demo_from :: vec3 where "demo_from \<equiv> Vec3 (1/2) (1/2) (3/2)"
abbreviation demo_to :: vec3 where "demo_to \<equiv> Vec3 (5/2) (1/2) (3/2)"

lemma demo_pool_ok: "astar_ok demo_pool"
  unfolding demo_pool_def by (rule initGridMap_ok) (simp_all add: ile_def)

lemma demo_free:
  assumes "initMap demo_nh grid_demo_map = Inr (demo_mp, md)" "isInMap demo_mp p"
  shows "getInflateOccupancy demo_mp md p = Inr 0"
proof -
  have ok: "map_params_ok demo_mp" "grid_typed demo_mp md" using initMap_ok [OF demo_settings assms(1)] by simp_all
  have b: "occupancy_buffer_inflate md = replicate 256 0"
    using assms(1) by (auto simp: initMap_def demo_params_init Let_def demo_numbers split: if_splits)
  have "nat (toAddress demo_mp (posToIndex demo_mp p)) < 256"
    using address_range [OF posToIndex_ok [OF ok(1) isInMap_in_bounds [OF assms(2)]]] by (simp add: demo_numbers nat_less_iff)
  then show ?thesis using getInflateOccupancy_in [OF ok assms(2)] by (simp add: b)
qed

lemma demo_route:
  assumes "initMap demo_nh grid_demo_map = Inr (demo_mp, md)" "prepare 1 demo_from demo_to demo_pool = Inr s"
  shows "ConvertToIndexAndAdjustStartEndPoints demo_mp md s demo_from demo_to = Inr (Some (icube 5, Vec3i 6 5 5))"
    and "reachable_cell demo_mp md s (icube 5) (Vec3i 6 5 5)"
proof -
  have s: "center s = Vec3 (3/2) (1/2) (3/2)" "step_size s = 1" "inv_step_size s = 1" "pool_size s = icube 10" "center_idx s = icube 5"
    using assms(2) by (auto simp: prepare_def demo_pool_def initGridMap_def vadd_def vscale_def icube_def)
  have half: "\<lceil>- (1 / 2) :: real\<rceil> = 0" by linarith
  have c: "Coord2Index s demo_from = (True, icube 5)" "Coord2Index s demo_to = (True, Vec3i 6 5 5)"
    using half by (simp_all add: Coord2Index_def coord_axis_def Let_def s trunc_def icube_def)
  have p: "Index2Coord s (icube 5) = Vec3 (3/2) (1/2) (3/2)" "Index2Coord s (Vec3i 6 5 5) = Vec3 (5/2) (1/2) (3/2)"
    by (simp_all add: Index2Coord_def s vadd_def)
  have "isInMap demo_mp (Vec3 (3/2) (1/2) (3/2))" "isInMap demo_mp (Vec3 (5/2) (1/2) (3/2))"
    by (simp_all add: isInMap_def demo_mp_def)
  then have f: "getInflateOccupancy demo_mp md (Vec3 (3/2) (1/2) (3/2)) = Inr 0"
    "getInflateOccupancy demo_mp md (Vec3 (5/2) (1/2) (3/2)) = Inr 0" using demo_free [OF assms(1)] by blast+
  show "ConvertToIndexAndAdjustStartEndPoints demo_mp md s demo_from demo_to = Inr (Some (icube 5, Vec3i 6 5 5))"
    by (simp add: ConvertToIndexAndAdjustStartEndPoints_def settle_point_def checkOccupancy_def c p f)
  show "reachable_cell demo_mp md s (icube 5) (Vec3i 6 5 5)"
    by (rule reachable_cell.move [OF reachable_cell.start])
      (auto simp: adjacent_def icube_def inner_cell_def s free_cell_def p f)
qed

text \<open>A queue that hands out its first element.\<close>

definition take_first :: "astar \<Rightarrow> vec3i" where
  "take_first s = hd (openSet s)"

lemma demo_pick: "\<forall>s. openSet s \<noteq> [] \<longrightarrow> take_first s \<in> set (openSet s)"
  by (simp add: take_first_def)

theorem astar_decides_witness:
  "\<exists>md s. initMap demo_nh grid_demo_map = Inr (demo_mp, md) \<and>
    AstarSearch take_first (\<lambda>_. False) demo_mp md 1 demo_from demo_to demo_pool = Inr (True, s) \<and> astar_ok s"
proof -
  obtain md where m: "initMap demo_nh grid_demo_map = Inr (demo_mp, md)" "map_params_ok demo_mp" "grid_typed demo_mp md"
    using demo_start by blast
  have "demo_from = demo_to \<longrightarrow> getInflateOccupancy demo_mp md demo_from = Inr 0" by simp
  from astar_decides [OF m(2,3) demo_pool_ok demo_pick zero_less_one this, of "\<lambda>_. False"]
  obtain s1 r found s where r: "prepare 1 demo_from demo_to demo_pool = Inr s1"
    "ConvertToIndexAndAdjustStartEndPoints demo_mp md s1 demo_from demo_to = Inr r"
    "AstarSearch take_first (\<lambda>_. False) demo_mp md 1 demo_from demo_to demo_pool = Inr (found, s)" "astar_ok s"
    "(\<forall>i::nat. \<not> False) \<longrightarrow> found = (case r of None \<Rightarrow> False | Some (si, ei) \<Rightarrow> reachable_cell demo_mp md s1 si ei)"
    by blast
  with demo_route [OF m(1) r(1)] have found by simp
  with r(3,4) m(1) show ?thesis by auto
qed

theorem astar_path_sound_witness:
  "\<exists>md s. initMap demo_nh grid_demo_map = Inr (demo_mp, md) \<and>
    AstarSearch take_first (\<lambda>_. False) demo_mp md 1 demo_from demo_to demo_pool = Inr (True, s) \<and>
    hd (getPath s) = Vec3 (3/2) (1/2) (3/2) \<and> last (getPath s) = Vec3 (5/2) (1/2) (3/2)"
proof -
  obtain md where m: "initMap demo_nh grid_demo_map = Inr (demo_mp, md)" "map_params_ok demo_mp" "grid_typed demo_mp md"
    using demo_start by blast
  have ne: "demo_from = demo_to \<longrightarrow> getInflateOccupancy demo_mp md demo_from = Inr 0" by simp
  have "openSet s \<noteq> [] \<Longrightarrow> take_first s \<in> set (openSet s)" for s by (simp add: take_first_def)
  from AstarSearch_ok [OF m(2,3) demo_pool_ok this zero_less_one ne, of "\<lambda>_. False"]
  obtain s1 r found s where r: "prepare 1 demo_from demo_to demo_pool = Inr s1"
    "ConvertToIndexAndAdjustStartEndPoints demo_mp md s1 demo_from demo_to = Inr r"
    "AstarSearch take_first (\<lambda>_. False) demo_mp md 1 demo_from demo_to demo_pool = Inr (found, s)"
    "case r of None \<Rightarrow> \<not> found
     | Some (si, ei) \<Rightarrow> free_cell demo_mp md s si \<and> (found \<longrightarrow> path_found demo_mp md si ei s) \<and>
         ((\<forall>i::nat. \<not> False) \<longrightarrow> found = reachable_cell demo_mp md s1 si ei)" by blast
  note route = demo_route [OF m(1) r(1)]
  from r(2,4) route have run: "AstarSearch take_first (\<lambda>_. False) demo_mp md 1 demo_from demo_to demo_pool = Inr (True, s)"
    using r(3) by auto
  from astar_path_sound [OF m(2,3) demo_pool_ok demo_pick _ _ run] r(1) route(1)
  have "hd (getPath s) = Index2Coord s1 (icube 5)" "last (getPath s) = Index2Coord s1 (Vec3i 6 5 5)" by auto
  moreover have "Index2Coord s1 (icube 5) = Vec3 (3/2) (1/2) (3/2)" "Index2Coord s1 (Vec3i 6 5 5) = Vec3 (5/2) (1/2) (3/2)"
    using r(1) by (auto simp: prepare_def demo_pool_def initGridMap_def Index2Coord_def vadd_def vscale_def icube_def)
  ultimately show ?thesis using m(1) run by auto
qed

text \<open>Outside the map.\<close>

theorem astar_same_point_hangs_witness:
  "\<exists>md. initMap demo_nh grid_demo_map = Inr (demo_mp, md) \<and>
    AstarSearch take_first (\<lambda>_. False) demo_mp md 1 (vcube 9) (vcube 9) demo_pool = Inl Hangs"
proof -
  obtain md where m: "initMap demo_nh grid_demo_map = Inr (demo_mp, md)" using demo_start by blast
  have "getInflateOccupancy demo_mp md (vcube 9) = Inr (- 1)"
    by (simp add: getInflateOccupancy_def isInMap_def demo_mp_def)
  moreover have "in_pool demo_pool (center_idx demo_pool)"
    by (simp add: in_pool_def demo_pool_def initGridMap_def)
  ultimately show ?thesis using astar_same_point_hangs [of demo_mp md "vcube 9" "- 1" 1] m by auto
qed

end
