(* ===== verification/Lbfgs.thy ===== *)
theory Lbfgs
  imports Prelude
begin

text \<open>
  The minimiser of the trajectory optimiser: \<open>planner/planner/bspline_opt/include/bspline_opt/lbfgs.hpp\<close>,
  the limited-memory BFGS method with the line search of More and Thuente.  An array of \<open>n\<close> doubles is
  a list of length \<open>n\<close>.  The three callbacks are arguments: \<open>evaluate\<close> computes the cost and its
  gradient and may change the state \<open>'s\<close> of its client, \<open>progress\<close> says whether to cancel, and the
  bound of the step is optional.  A quotient or root that would be an infinity or NaN is an error of
  the model.  The integer parameters are natural numbers, so the tests for negative ones fall away.
\<close>

section \<open>Return codes and parameters\<close>

datatype lbfgs_code =
    LBFGS_CONVERGENCE | LBFGS_STOP | LBFGS_ALREADY_MINIMIZED
  | LBFGSERR_UNKNOWNERROR | LBFGSERR_LOGICERROR | LBFGSERR_CANCELED | LBFGSERR_INVALID_N
  | LBFGSERR_INVALID_MEMSIZE | LBFGSERR_INVALID_GEPSILON | LBFGSERR_INVALID_TESTPERIOD
  | LBFGSERR_INVALID_DELTA | LBFGSERR_INVALID_MINSTEP | LBFGSERR_INVALID_MAXSTEP
  | LBFGSERR_INVALID_FDECCOEFF | LBFGSERR_INVALID_SCURVCOEFF | LBFGSERR_INVALID_XTOL
  | LBFGSERR_INVALID_MAXLINESEARCH | LBFGSERR_OUTOFINTERVAL | LBFGSERR_INCORRECT_TMINMAX
  | LBFGSERR_ROUNDING_ERROR | LBFGSERR_MINIMUMSTEP | LBFGSERR_MAXIMUMSTEP | LBFGSERR_MAXIMUMLINESEARCH
  | LBFGSERR_MAXIMUMITERATION | LBFGSERR_WIDTHTOOSMALL | LBFGSERR_INVALIDPARAMETERS
  | LBFGSERR_INCREASEGRADIENT

record lbfgs_parameter =
  mem_size :: nat
  g_epsilon :: real
  past :: nat
  delta :: real
  max_iterations :: nat
  max_linesearch :: nat
  min_step :: real
  max_step :: real
  f_dec_coeff :: real
  s_curv_coeff :: real
  xtol :: real

definition lbfgs_load_default_parameters :: lbfgs_parameter where
  "lbfgs_load_default_parameters =
     \<lparr>mem_size = 8, g_epsilon = 1 / 10 ^ 5, past = 0, delta = 1 / 10 ^ 5, max_iterations = 0, max_linesearch = 40,
      min_step = 1 / 10 ^ 20, max_step = 10 ^ 20, f_dec_coeff = 1 / 10 ^ 4, s_curv_coeff = 9 / 10, xtol = 1 / 10 ^ 16\<rparr>"

section \<open>Vectors of doubles\<close>

definition vecncpy :: "real list \<Rightarrow> real list" where
  "vecncpy x = map uminus x"

definition vecadd :: "real list \<Rightarrow> real list \<Rightarrow> real \<Rightarrow> real list" where
  "vecadd y x c = map2 (\<lambda>a b. a + c * b) y x"

definition vecdiff :: "real list \<Rightarrow> real list \<Rightarrow> real list" where
  "vecdiff x y = map2 (-) x y"

definition vecscale :: "real list \<Rightarrow> real \<Rightarrow> real list" where
  "vecscale y c = map (\<lambda>a. a * c) y"

definition vecdot :: "real list \<Rightarrow> real list \<Rightarrow> real" where
  "vecdot x y = sum_list (map2 (*) x y)"

definition vec2norm :: "real list \<Rightarrow> real" where
  "vec2norm x = sqrt (vecdot x x)"

definition vec2norminv :: "real list \<Rightarrow> cpp_error + real" where
  "vec2norminv x = fdiv 1 (vec2norm x)"

section \<open>The minimisers of the interpolations\<close>

text \<open>Between the points \<open>u\<close> and \<open>v\<close>, from the values \<open>f\<close> and the derivatives \<open>d\<close> there.\<close>

definition CUBIC_MINIMIZER :: "real \<Rightarrow> real \<Rightarrow> real \<Rightarrow> real \<Rightarrow> real \<Rightarrow> real \<Rightarrow> cpp_error + real" where
  "CUBIC_MINIMIZER u fu du v fv dv =
     (let d = v - u
      in bind_result (fdiv ((fu - fv) * 3) d) (\<lambda>h.
         let theta = h + du + dv; s = max (max \<bar>theta\<bar> \<bar>du\<bar>) \<bar>dv\<bar>
         in bind_result (fdiv theta s) (\<lambda>a.
            bind_result (fsqrt (a * a - (du / s) * (dv / s))) (\<lambda>w.
              let gamm = (if v < u then - (s * w) else s * w); p = gamm - du + theta; q = gamm - du + gamm + dv
              in bind_result (fdiv p q) (\<lambda>r. Inr (u + r * d))))))"

definition CUBIC_MINIMIZER2 ::
    "real \<Rightarrow> real \<Rightarrow> real \<Rightarrow> real \<Rightarrow> real \<Rightarrow> real \<Rightarrow> real \<Rightarrow> real \<Rightarrow> cpp_error + real" where
  "CUBIC_MINIMIZER2 u fu du v fv dv xmin xmax =
     (let d = v - u
      in bind_result (fdiv ((fu - fv) * 3) d) (\<lambda>h.
         let theta = h + du + dv; s = max (max \<bar>theta\<bar> \<bar>du\<bar>) \<bar>dv\<bar>
         in bind_result (fdiv theta s) (\<lambda>a.
            let g0 = a * a - (du / s) * (dv / s); g1 = (if g0 > 0 then s * sqrt g0 else 0);
                gamm = (if u < v then - g1 else g1); p = gamm - dv + theta; q = gamm - dv + gamm + du
            in bind_result (fdiv p q) (\<lambda>r.
                 Inr (if r < 0 \<and> gamm \<noteq> 0 then v - r * d else if a < 0 then xmax else xmin)))))"

definition QUARD_MINIMIZER :: "real \<Rightarrow> real \<Rightarrow> real \<Rightarrow> real \<Rightarrow> real \<Rightarrow> cpp_error + real" where
  "QUARD_MINIMIZER u fu du v fv =
     (let a = v - u
      in bind_result (fdiv (fu - fv) a) (\<lambda>h. bind_result (fdiv du (h + du)) (\<lambda>k. Inr (u + k / 2 * a))))"

definition QUARD_MINIMIZER2 :: "real \<Rightarrow> real \<Rightarrow> real \<Rightarrow> real \<Rightarrow> cpp_error + real" where
  "QUARD_MINIMIZER2 u du v dv = bind_result (fdiv dv (dv - du)) (\<lambda>k. Inr (v + k * (u - v)))"

section \<open>The interval of uncertainty\<close>

text \<open>
  The end \<open>x\<close> with the least value, the other end \<open>y\<close>, the values and derivatives there, and whether
  a minimum is bracketed.
\<close>

record uncertainty =
  stx :: real
  f_stx :: real
  dg_stx :: real
  sty :: real
  f_sty :: real
  dg_sty :: real
  brackt :: bool

text \<open>
  The trial value, the flag \<open>bound\<close> and the new \<open>brackt\<close> in the four cases.  With \<open>dx = 0\<close> the quotient of
  \<open>dsign\<close> is NaN and its comparison false.
\<close>

definition opposite_sign :: "real \<Rightarrow> real \<Rightarrow> bool" where
  "opposite_sign dx dt \<longleftrightarrow> dx \<noteq> 0 \<and> dt * (dx / \<bar>dx\<bar>) < 0"

definition trial_value ::
    "uncertainty \<Rightarrow> real \<Rightarrow> real \<Rightarrow> real \<Rightarrow> real \<Rightarrow> real \<Rightarrow> cpp_error + real \<times> bool \<times> bool" where
  "trial_value u t ft dt tmin tmax =
     (let x = stx u; fx = f_stx u; dx = dg_stx u
      in if fx < ft then
           bind_result (CUBIC_MINIMIZER x fx dx t ft dt) (\<lambda>mc.
           bind_result (QUARD_MINIMIZER x fx dx t ft) (\<lambda>mq.
             Inr (if \<bar>mc - x\<bar> < \<bar>mq - x\<bar> then mc else mc + 5 / 10 * (mq - mc), True, True)))
         else if opposite_sign dx dt then
           bind_result (CUBIC_MINIMIZER x fx dx t ft dt) (\<lambda>mc.
           bind_result (QUARD_MINIMIZER2 x dx t dt) (\<lambda>mq.
             Inr (if \<bar>mc - t\<bar> > \<bar>mq - t\<bar> then mc else mq, False, True)))
         else if \<bar>dt\<bar> < \<bar>dx\<bar> then
           bind_result (CUBIC_MINIMIZER2 x fx dx t ft dt tmin tmax) (\<lambda>mc.
           bind_result (QUARD_MINIMIZER2 x dx t dt) (\<lambda>mq.
             Inr (if brackt u then (if \<bar>t - mc\<bar> < \<bar>t - mq\<bar> then mc else mq)
                  else (if \<bar>t - mc\<bar> > \<bar>t - mq\<bar> then mc else mq), True, brackt u)))
         else if brackt u then
           bind_result (CUBIC_MINIMIZER t ft dt (sty u) (f_sty u) (dg_sty u)) (\<lambda>mc. Inr (mc, False, True))
         else Inr (if x < t then tmax else tmin, False, False))"

text \<open>The two ends after the trial \<open>t\<close>.\<close>

definition shrink :: "real \<Rightarrow> real \<Rightarrow> real \<Rightarrow> uncertainty \<Rightarrow> uncertainty" where
  "shrink t ft dt u =
     (if f_stx u < ft then u\<lparr>sty := t, f_sty := ft, dg_sty := dt\<rparr>
      else (if opposite_sign (dg_stx u) dt then u\<lparr>sty := stx u, f_sty := f_stx u, dg_sty := dg_stx u\<rparr> else u)
             \<lparr>stx := t, f_stx := ft, dg_stx := dt\<rparr>)"

definition update_trial_interval ::
    "uncertainty \<Rightarrow> real \<Rightarrow> real \<Rightarrow> real \<Rightarrow> real \<Rightarrow> real \<Rightarrow> cpp_error + lbfgs_code option \<times> uncertainty \<times> real" where
  "update_trial_interval u t ft dt tmin tmax =
     (if brackt u \<and> (t \<le> min (stx u) (sty u) \<or> max (stx u) (sty u) \<le> t) then Inr (Some LBFGSERR_OUTOFINTERVAL, u, t)
      else if brackt u \<and> 0 \<le> dg_stx u * (t - stx u) then Inr (Some LBFGSERR_INCREASEGRADIENT, u, t)
      else if brackt u \<and> tmax < tmin then Inr (Some LBFGSERR_INCORRECT_TMINMAX, u, t)
      else bind_result (trial_value u t ft dt tmin tmax) (\<lambda>(newt, bound, brackt').
        let u' = (shrink t ft dt u)\<lparr>brackt := brackt'\<rparr>;
            n1 = (if tmax < newt then tmax else newt); n2 = (if n1 < tmin then tmin else n1);
            mq = stx u' + 66 / 100 * (sty u' - stx u');
            n3 = (if brackt' \<and> bound then (if stx u' < sty u' then (if mq < n2 then mq else n2)
                                           else (if n2 < mq then mq else n2)) else n2)
        in Inr (None, u', n3)))"

section \<open>The line search\<close>

record line_data =
  line_interval :: uncertainty
  line_step :: real
  stage1 :: bool
  uinfo :: "lbfgs_code option"
  line_width :: real
  prev_width :: real
  line_count :: nat

text \<open>The ends \<open>stmin\<close> and \<open>stmax\<close>, and the step that is evaluated next.\<close>

definition step_range :: "line_data \<Rightarrow> real \<times> real" where
  "step_range l =
     (let u = line_interval l
      in if brackt u then (min (stx u) (sty u), max (stx u) (sty u))
         else (stx u, line_step l + 4 * (line_step l - stx u)))"

definition clipped_step :: "lbfgs_parameter \<Rightarrow> real \<Rightarrow> real \<Rightarrow> line_data \<Rightarrow> real" where
  "clipped_step p stpmin stpmax l =
     (let u = line_interval l; (stmin, stmax) = step_range l;
          s1 = (if line_step l < stpmin then stpmin else line_step l); s2 = (if stpmax < s1 then stpmax else s1)
      in if brackt u \<and> (s2 \<le> stmin \<or> stmax \<le> s2 \<or> max_linesearch p \<le> line_count l + 1 \<or> uinfo l \<noteq> None) \<or>
            brackt u \<and> stmax - stmin \<le> xtol p * stmax
         then stx u else s2)"

text \<open>The tests after an evaluation: a code, the count of a step that is accepted, or \<open>None\<close>.\<close>

definition line_verdict ::
    "lbfgs_parameter \<Rightarrow> real \<Rightarrow> real \<Rightarrow> real \<Rightarrow> real \<Rightarrow> line_data \<Rightarrow> real \<Rightarrow> real \<Rightarrow> real \<Rightarrow> (lbfgs_code + nat) option" where
  "line_verdict p stpmin stpmax finit dginit l stp f dg =
     (let u = line_interval l; (stmin, stmax) = step_range l; dgtest = f_dec_coeff p * dginit;
          ftest1 = finit + stp * dgtest; count = line_count l + 1
      in if brackt u \<and> (stp \<le> stmin \<or> stmax \<le> stp \<or> uinfo l \<noteq> None) then Some (Inl LBFGSERR_ROUNDING_ERROR)
         else if stp = stpmax \<and> f \<le> ftest1 \<and> dg \<le> dgtest then Some (Inl LBFGSERR_MAXIMUMSTEP)
         else if stp = stpmin \<and> (ftest1 < f \<or> dgtest \<le> dg) then Some (Inl LBFGSERR_MINIMUMSTEP)
         else if brackt u \<and> stmax - stmin \<le> xtol p * stmax then Some (Inl LBFGSERR_WIDTHTOOSMALL)
         else if max_linesearch p \<le> count then Some (Inl LBFGSERR_MAXIMUMLINESEARCH)
         else if f \<le> ftest1 \<and> \<bar>dg\<bar> \<le> s_curv_coeff p * (- dginit) then Some (Inr count)
         else None)"

text \<open>
  The new interval, of the function itself or of the modified one of the first stage, from which the
  line of slope \<open>dgtest\<close> is subtracted; then the new step.
\<close>

definition modified_update ::
    "real \<Rightarrow> uncertainty \<Rightarrow> real \<Rightarrow> real \<Rightarrow> real \<Rightarrow> real \<Rightarrow> real \<Rightarrow> cpp_error + lbfgs_code option \<times> uncertainty \<times> real" where
  "modified_update dgtest u stp f dg stmin stmax =
     bind_result
       (update_trial_interval
          (u\<lparr>f_stx := f_stx u - stx u * dgtest, f_sty := f_sty u - sty u * dgtest,
             dg_stx := dg_stx u - dgtest, dg_sty := dg_sty u - dgtest\<rparr>)
          stp (f - stp * dgtest) (dg - dgtest) stmin stmax)
       (\<lambda>(info, v, t).
          Inr (info, v\<lparr>f_stx := f_stx v + stx v * dgtest, f_sty := f_sty v + sty v * dgtest,
                       dg_stx := dg_stx v + dgtest, dg_sty := dg_sty v + dgtest\<rparr>, t))"

definition next_step :: "lbfgs_code option \<Rightarrow> uncertainty \<Rightarrow> real \<Rightarrow> bool \<Rightarrow> line_data \<Rightarrow> line_data" where
  "next_step info v t stage l =
     (let gap = \<bar>sty v - stx v\<bar>;
          l' = l\<lparr>line_interval := v, line_step := t, stage1 := stage, uinfo := info, line_count := line_count l + 1\<rparr>
      in if brackt v
         then l'\<lparr>line_step := (if 66 / 100 * prev_width l \<le> gap then stx v + 5 / 10 * (sty v - stx v) else t),
                 prev_width := line_width l, line_width := gap\<rparr>
         else l')"

definition line_update ::
    "lbfgs_parameter \<Rightarrow> real \<Rightarrow> real \<Rightarrow> line_data \<Rightarrow> real \<Rightarrow> real \<Rightarrow> real \<Rightarrow> cpp_error + line_data" where
  "line_update p finit dginit l stp f dg =
     (let u = line_interval l; (stmin, stmax) = step_range l; dgtest = f_dec_coeff p * dginit;
          ftest1 = finit + stp * dgtest;
          stage = (stage1 l \<and> \<not> (f \<le> ftest1 \<and> min (f_dec_coeff p) (s_curv_coeff p) * dginit \<le> dg))
      in bind_result
           (if stage \<and> ftest1 < f \<and> f \<le> f_stx u
            then modified_update dgtest u stp f dg stmin stmax
            else update_trial_interval u stp f dg stmin stmax)
           (\<lambda>(info, v, t). Inr (next_step info v t stage l)))"

text \<open>
  The loop.  It ends after \<open>max_linesearch\<close> evaluations, which is the fuel it is called with.  The
  result holds the verdict, the step, the last point with its cost and gradient, and the state.
\<close>

fun line_loop ::
    "nat \<Rightarrow> (real list \<Rightarrow> 's \<Rightarrow> cpp_error + real \<times> real list \<times> 's) \<Rightarrow> ('s \<Rightarrow> bool) \<Rightarrow> lbfgs_parameter \<Rightarrow> real \<Rightarrow> real \<Rightarrow>
     real list \<Rightarrow> real list \<Rightarrow> real \<Rightarrow> real \<Rightarrow> line_data \<Rightarrow> real list \<times> real \<times> real list \<times> 's \<Rightarrow>
     cpp_error + (lbfgs_code + nat) \<times> real \<times> real list \<times> real \<times> real list \<times> 's" where
  "line_loop 0 evaluate progress p stpmin stpmax d xp finit dginit l cur = Inl Hangs"
| "line_loop (Suc n) evaluate progress p stpmin stpmax d xp finit dginit l (x, f, g, s) =
     (if progress s then Inr (Inl LBFGSERR_CANCELED, line_step l, x, f, g, s)
      else let stp = clipped_step p stpmin stpmax l; x' = vecadd xp d stp
      in bind_result (evaluate x' s) (\<lambda>(f', g', s').
           let dg = vecdot g' d
           in case line_verdict p stpmin stpmax finit dginit l stp f' dg of
                Some r \<Rightarrow> Inr (r, stp, x', f', g', s')
              | None \<Rightarrow> bind_result (line_update p finit dginit l stp f' dg) (\<lambda>l'.
                          line_loop n evaluate progress p stpmin stpmax d xp finit dginit l' (x', f', g', s'))))"

definition line_search_morethuente ::
    "(real list \<Rightarrow> 's \<Rightarrow> cpp_error + real \<times> real list \<times> 's) \<Rightarrow> ('s \<Rightarrow> bool) \<Rightarrow> lbfgs_parameter \<Rightarrow> real \<Rightarrow> real \<Rightarrow> real \<Rightarrow>
     real list \<Rightarrow> real list \<Rightarrow> real \<Rightarrow> real list \<Rightarrow> 's \<Rightarrow>
     cpp_error + (lbfgs_code + nat) \<times> real \<times> real list \<times> real \<times> real list \<times> 's" where
  "line_search_morethuente evaluate progress p stpmin stpmax stp d x f g s =
     (let dginit = vecdot g d; width = stpmax - stpmin
      in if stp \<le> 0 then Inr (Inl LBFGSERR_INVALIDPARAMETERS, stp, x, f, g, s)
         else if 0 < dginit then Inr (Inl LBFGSERR_INCREASEGRADIENT, stp, x, f, g, s)
         else line_loop (max_linesearch p) evaluate progress p stpmin stpmax d x f dginit
                \<lparr>line_interval = \<lparr>stx = 0, f_stx = f, dg_stx = dginit, sty = 0, f_sty = f, dg_sty = dginit, brackt = False\<rparr>,
                 line_step = stp, stage1 = True, uinfo = None, line_width = width, prev_width = 2 * width, line_count = 0\<rparr>
                (x, f, g, s))"

section \<open>The minimiser\<close>

record iteration_data =
  it_s :: "real list"
  it_y :: "real list"
  it_ys :: real

text \<open>
  The direction: the first loop runs through the stored pairs from the newest on and changes \<open>d\<close>,
  then \<open>d\<close> is scaled, and the second loop runs through the same pairs backwards, with the \<open>alpha\<close> that
  the first one left in each.  Together they are one recursion over the pairs.
\<close>

fun two_loops :: "real \<Rightarrow> iteration_data list \<Rightarrow> real list \<Rightarrow> cpp_error + real list" where
  "two_loops scale [] d = Inr (vecscale d scale)"
| "two_loops scale (it # its) d =
     bind_result (fdiv (vecdot (it_s it) d) (it_ys it)) (\<lambda>alpha.
     bind_result (two_loops scale its (vecadd d (it_y it) (- alpha))) (\<lambda>d'.
     bind_result (fdiv (vecdot (it_y it) d') (it_ys it)) (\<lambda>beta.
       Inr (vecadd d' (it_s it) (alpha - beta)))))"

text \<open>The places of the ring buffer from the newest pair, before \<open>end\<close>, back.\<close>

definition ring_places :: "nat \<Rightarrow> nat \<Rightarrow> nat \<Rightarrow> nat list" where
  "ring_places m end bound = map (\<lambda>i. (end + m * Suc i - Suc i) mod m) [0..<bound]"

record lbfgs_memory =
  lm :: "iteration_data list"
  lm_end :: nat
  pf :: "real list"

definition next_direction ::
    "nat \<Rightarrow> real list \<Rightarrow> real list \<Rightarrow> real list \<Rightarrow> real list \<Rightarrow> lbfgs_memory \<Rightarrow> cpp_error + real list \<times> lbfgs_memory" where
  "next_direction k x xp g gp mem =
     (let m = length (lm mem); s = vecdiff x xp; y = vecdiff g gp; ys = vecdot y s; yy = vecdot y y;
          lm' = (lm mem)[lm_end mem := \<lparr>it_s = s, it_y = y, it_ys = ys\<rparr>]; bound = min m k;
          end' = Suc (lm_end mem) mod m
      in bind_result (fdiv ys yy) (\<lambda>scale.
         bind_result (two_loops scale (map ((!) lm') (ring_places m end' bound)) (vecncpy g)) (\<lambda>d.
           Inr (d, mem\<lparr>lm := lm', lm_end := end'\<rparr>))))"

text \<open>The test against the cost \<open>past\<close> iterations ago: whether to stop, and the new memory.\<close>

definition stopping_test :: "lbfgs_parameter \<Rightarrow> nat \<Rightarrow> real \<Rightarrow> lbfgs_memory \<Rightarrow> cpp_error + bool \<times> lbfgs_memory" where
  "stopping_test p k fx mem =
     (if past p = 0 then Inr (False, mem)
      else let mem' = mem\<lparr>pf := (pf mem)[k mod past p := fx]\<rparr>
      in if past p \<le> k
         then bind_result (fdiv (pf mem ! (k mod past p) - fx) fx) (\<lambda>rate.
                if \<bar>rate\<bar> < delta p then Inr (True, mem) else Inr (False, mem'))
         else Inr (False, mem'))"

text \<open>
  The iterations from the \<open>k\<close>th on: the line search from \<open>x\<close> along \<open>d\<close>, the tests, the next direction.  When the
  line search fails, \<open>x\<close> and \<open>g\<close> are set back, but \<open>fx\<close> is not.  The result is the code, the point, \<open>fx\<close>
  and the state.  The fuel bounds the iterations; \<open>max_iterations\<close> is enough unless it is zero, which
  stands for no bound.
\<close>

fun lbfgs_loop ::
    "nat \<Rightarrow> (real list \<Rightarrow> 's \<Rightarrow> cpp_error + real \<times> real list \<times> 's) \<Rightarrow>
     (real list \<Rightarrow> real list \<Rightarrow> 's \<Rightarrow> real) option \<Rightarrow> ('s \<Rightarrow> bool) \<Rightarrow> lbfgs_parameter \<Rightarrow> nat \<Rightarrow>
     real list \<Rightarrow> real list \<Rightarrow> real \<Rightarrow> real list \<Rightarrow> real \<Rightarrow> lbfgs_memory \<Rightarrow> 's \<Rightarrow>
     cpp_error + lbfgs_code \<times> real list \<times> real \<times> 's" where
  "lbfgs_loop 0 evaluate stepbound progress p k x g fx d step mem s = Inl Hangs"
| "lbfgs_loop (Suc n) evaluate stepbound progress p k x g fx d step mem s =
     (let smax = (case stepbound of None \<Rightarrow> max_step p | Some b \<Rightarrow> min (b x d s) (max_step p));
          stp = (if stepbound \<noteq> None \<and> step \<ge> smax then smax / 2 else step)
      in bind_result (line_search_morethuente evaluate progress p (min_step p) smax stp d x fx g s)
        (\<lambda>(ls, stp', x', fx', g', s').
          case ls of
            Inl e \<Rightarrow> Inr (e, x, fx', s')
          | Inr _ \<Rightarrow>
              if vec2norm g' / max 1 (vec2norm x') \<le> g_epsilon p then Inr (LBFGS_CONVERGENCE, x', fx', s')
              else bind_result (stopping_test p k fx' mem) (\<lambda>(stop, mem1).
                if stop then Inr (LBFGS_STOP, x', fx', s')
                else if max_iterations p \<noteq> 0 \<and> max_iterations p < k + 1 then Inr (LBFGSERR_MAXIMUMITERATION, x', fx', s')
                else bind_result (next_direction k x' x g' g mem1) (\<lambda>(d', mem2).
                  lbfgs_loop n evaluate stepbound progress p (Suc k) x' g' fx' d' 1 mem2 s'))))"

definition invalid_parameters :: "nat \<Rightarrow> lbfgs_parameter \<Rightarrow> lbfgs_code option" where
  "invalid_parameters n p =
     (if n = 0 then Some LBFGSERR_INVALID_N
      else if mem_size p = 0 then Some LBFGSERR_INVALID_MEMSIZE
      else if g_epsilon p < 0 then Some LBFGSERR_INVALID_GEPSILON
      else if delta p < 0 then Some LBFGSERR_INVALID_DELTA
      else if min_step p < 0 then Some LBFGSERR_INVALID_MINSTEP
      else if max_step p < min_step p then Some LBFGSERR_INVALID_MAXSTEP
      else if f_dec_coeff p < 0 then Some LBFGSERR_INVALID_FDECCOEFF
      else if s_curv_coeff p \<le> f_dec_coeff p \<or> 1 \<le> s_curv_coeff p then Some LBFGSERR_INVALID_SCURVCOEFF
      else if xtol p < 0 then Some LBFGSERR_INVALID_XTOL
      else if max_linesearch p = 0 then Some LBFGSERR_INVALID_MAXLINESEARCH
      else None)"

text \<open>\<open>final_cost\<close> is what \<open>*ptr_fx\<close> held before, which stays when the parameters are refused.\<close>

definition lbfgs_optimize ::
    "nat \<Rightarrow> (real list \<Rightarrow> 's \<Rightarrow> cpp_error + real \<times> real list \<times> 's) \<Rightarrow>
     (real list \<Rightarrow> real list \<Rightarrow> 's \<Rightarrow> real) option \<Rightarrow> ('s \<Rightarrow> bool) \<Rightarrow> lbfgs_parameter \<Rightarrow> real list \<Rightarrow> real \<Rightarrow> 's \<Rightarrow>
     cpp_error + lbfgs_code \<times> real list \<times> real \<times> 's" where
  "lbfgs_optimize fuel evaluate stepbound progress p x final_cost s =
     (case invalid_parameters (length x) p of Some e \<Rightarrow> Inr (e, x, final_cost, s)
      | None \<Rightarrow>
          bind_result (evaluate x s) (\<lambda>(fx, g, s1).
            let zero = replicate (length x) 0; d = vecncpy g;
                mem = \<lparr>lm = replicate (mem_size p) \<lparr>it_s = zero, it_y = zero, it_ys = 0\<rparr>, lm_end = 0,
                       pf = (if past p = 0 then [] else (replicate (past p) 0)[0 := fx])\<rparr>
            in if vec2norm g / max 1 (vec2norm x) \<le> g_epsilon p then Inr (LBFGS_ALREADY_MINIMIZED, x, fx, s1)
               else bind_result (vec2norminv d) (\<lambda>step.
                      lbfgs_loop fuel evaluate stepbound progress p 1 x g fx d step mem s1)))"

end
