(* ===== verification/Optimizer.thy ===== *)
theory Optimizer
  imports PlannerData AStar Lbfgs
begin

text \<open>
  The trajectory optimiser of the planner: classes \<open>ControlPoints\<close> and \<open>BsplineOptimizer\<close> of
  \<open>planner/planner/bspline_opt/include/bspline_opt/bspline_optimizer.h\<close> and \<open>src/bspline_optimizer.cpp\<close>.
  This theory holds the state and the base points: \<open>initControlPoints\<close> and
  \<open>check_collision_and_rebound\<close> find the parts of the control polygon that run through obstacles,
  search a path around each with A*, and give the control points there base points on the surface
  of the obstacle and directions out of it.

  A matrix with three rows is the list of its columns.  What the object does not own is collected in
  the environment: the map, the choice of A* among its open nodes, its time limit, and the clock.
  \<open>order_\<close> and the indices are integers, and every access is checked.
\<close>

section \<open>State\<close>

record ctrl_points =
  clearance :: real
  cp_size :: int
  points :: "vec3 list"
  base_point :: "vec3 list list"
  direction :: "vec3 list list"
  flag_temp :: "bool list"

definition resize :: "int \<Rightarrow> ctrl_points \<Rightarrow> cpp_error + ctrl_points" where
  "resize size_set c =
     (if size_set < 0 then Inl LengthError
      else Inr (c\<lparr>cp_size := size_set, points := replicate (nat size_set) vzero,
                  base_point := replicate (nat size_set) [], direction := replicate (nat size_set) [],
                  flag_temp := replicate (nat size_set) False\<rparr>))"

datatype force_stop = DONT_STOP | STOP_FOR_REBOUND | STOP_FOR_ERROR

record optimizer =
  cps :: ctrl_points
  force_stop_type :: force_stop
  bspline_interval :: real
  order :: int
  lambda1 :: real
  lambda2 :: real
  new_lambda2 :: real
  lambda3 :: real
  lambda4 :: real
  dist0 :: real
  opt_clearance :: real            \<comment> \<open>\<open>swarm_clearance_\<close>\<close>
  opt_max_vel :: real
  opt_max_acc :: real
  iter_num :: int
  min_ellip_dist :: real
  local_target_pt :: vec3
  ref_pts :: "vec3 list"
  swarm_trajs :: "swarm_traj list"
  opt_drone_id :: int
  a_star :: astar
  clock_reads :: nat               \<comment> \<open>how often the clock was read\<close>

record optimizer_env =
  env_mp :: mapping_parameters
  env_md :: mapping_data
  env_pick :: "astar \<Rightarrow> vec3i"
  env_late :: "nat \<Rightarrow> nat \<Rightarrow> bool"
  env_clock :: "nat \<Rightarrow> real"

definition opt_param :: "node_handle \<Rightarrow> string \<Rightarrow> real" where
  "opt_param nh name = (case real_param nh (''optimization/'' @ name) of None \<Rightarrow> - 1 | Some v \<Rightarrow> v)"

definition setParam :: "node_handle \<Rightarrow> optimizer \<Rightarrow> optimizer" where
  "setParam nh s =
     s\<lparr>lambda1 := opt_param nh ''lambda_smooth'', lambda2 := opt_param nh ''lambda_collision'',
       lambda3 := opt_param nh ''lambda_feasibility'', lambda4 := opt_param nh ''lambda_fitness'',
       dist0 := opt_param nh ''dist0'', opt_clearance := opt_param nh ''swarm_clearance'',
       opt_max_vel := opt_param nh ''max_vel'', opt_max_acc := opt_param nh ''max_acc'',
       order := (case int_param nh ''optimization/order'' of None \<Rightarrow> 3 | Some v \<Rightarrow> v)\<rparr>"

definition setControlPoints :: "vec3 list \<Rightarrow> optimizer \<Rightarrow> optimizer" where
  "setControlPoints ps s = s\<lparr>cps := (cps s)\<lparr>points := ps\<rparr>\<rparr>"

definition setBsplineInterval :: "real \<Rightarrow> optimizer \<Rightarrow> optimizer" where
  "setBsplineInterval ts s = s\<lparr>bspline_interval := ts\<rparr>"

section \<open>The segments in obstacles\<close>

definition occupied :: "optimizer_env \<Rightarrow> vec3 \<Rightarrow> cpp_error + bool" where
  "occupied e p = checkOccupancy (env_mp e) (env_md e) p"

text \<open>Division of two integers, which drops the fraction.\<close>

definition idiv :: "int \<Rightarrow> int \<Rightarrow> int" where
  "idiv a b = sgn a * sgn b * (\<bar>a\<bar> div \<bar>b\<bar>)"

text \<open>
  The values of \<open>a\<close> in \<open>for (a = 1.0; a > 0.0; a -= step_size)\<close>.  \<open>Never\<close> and \<open>NotANumber\<close> stand for
  an infinite or undefined step, which ends the loop after its first round.
\<close>

definition fractions :: "crossing \<Rightarrow> cpp_error + real list" where
  "fractions step =
     (case step of
        At h \<Rightarrow> if h \<le> 0 then Inl Hangs else Inr (map (\<lambda>k. 1 - real k * h) [0..<nat \<lceil>1 / h\<rceil>])
      | _ \<Rightarrow> Inr [1])"

text \<open>The state of the scan for segments.\<close>

record segment_scan =
  in_id :: int
  out_id :: int
  same_occ_state_times :: int
  last_occ :: bool
  flag_got_start :: bool
  flag_got_end :: bool
  flag_got_end_maybe :: bool
  segment_ids :: "(int \<times> int) list"

text \<open>One sample; \<open>ENOUGH_INTERVAL\<close> is two and \<open>cols\<close> the number of control points.\<close>

definition scan_sample :: "int \<Rightarrow> int \<Rightarrow> int \<Rightarrow> bool \<Rightarrow> segment_scan \<Rightarrow> segment_scan" where
  "scan_sample ord cols i occ c =
     (let c1 = (if occ \<and> \<not> last_occ c then
                  (if same_occ_state_times c > 2 \<or> i = ord then c\<lparr>in_id := i - 1, flag_got_start := True\<rparr> else c)
                    \<lparr>same_occ_state_times := 0, flag_got_end_maybe := False\<rparr>
                else if \<not> occ \<and> last_occ c then c\<lparr>out_id := i, flag_got_end_maybe := True, same_occ_state_times := 0\<rparr>
                else c\<lparr>same_occ_state_times := same_occ_state_times c + 1\<rparr>);
          c2 = (if flag_got_end_maybe c1 \<and> (same_occ_state_times c1 > 2 \<or> i = cols - ord)
                then c1\<lparr>flag_got_end_maybe := False, flag_got_end := True\<rparr> else c1);
          c3 = c2\<lparr>last_occ := occ\<rparr>
      in if flag_got_start c3 \<and> flag_got_end c3
         then c3\<lparr>flag_got_start := False, flag_got_end := False, segment_ids := segment_ids c3 @ [(in_id c3, out_id c3)]\<rparr>
         else c3)"

definition scan_edge :: "optimizer_env \<Rightarrow> int \<Rightarrow> vec3 list \<Rightarrow> real list \<Rightarrow> int \<Rightarrow> segment_scan \<Rightarrow> cpp_error + segment_scan" where
  "scan_edge e ord pts as i c =
     fold_result (\<lambda>a c.
       bind_result (fetch_at pts (i - 1)) (\<lambda>p.
       bind_result (fetch_at pts i) (\<lambda>q.
       bind_result (occupied e (vadd (vscale a p) (vscale (1 - a) q))) (\<lambda>occ.
         Inr (scan_sample ord (int (length pts)) i occ c))))) as c"

definition find_segments :: "optimizer_env \<Rightarrow> int \<Rightarrow> vec3 list \<Rightarrow> cpp_error + (int \<times> int) list" where
  "find_segments e ord pts =
     (let cols = int (length pts)
      in bind_result (fetch_at pts 0) (\<lambda>first.
         bind_result (fetch_at pts (cols - 1)) (\<lambda>last.
         let dist = vnorm (vsub first last);
             step = (if cols = 1 \<or> dist = 0 then Never else At (resolution (env_mp e) / (dist / of_int (cols - 1)) / (3 / 2)));
             i_end = cols - ord - idiv (cols - 2 * ord) 3
         in bind_result (if ord \<le> i_end then fractions step else Inr []) (\<lambda>as.
            bind_result (fold_result (scan_edge e ord pts as) [ord..i_end]
                \<lparr>in_id = - 1, out_id = - 1, same_occ_state_times = 3, last_occ = False, flag_got_start = False,
                 flag_got_end = False, flag_got_end_maybe = False, segment_ids = []\<rparr>) (\<lambda>c.
              Inr (segment_ids c))))))"

section \<open>Paths around the segments\<close>

definition search_path :: "optimizer_env \<Rightarrow> vec3 \<Rightarrow> vec3 \<Rightarrow> optimizer \<Rightarrow> cpp_error + vec3 list option \<times> optimizer" where
  "search_path e a b s =
     bind_result (AstarSearch (env_pick e) (env_late e (clock_reads s)) (env_mp e) (env_md e) (1 / 10) a b (a_star s))
       (\<lambda>(found, st). Inr (if found then Some (getPath st) else None, s\<lparr>a_star := st, clock_reads := Suc (clock_reads s)\<rparr>))"

text \<open>All segments need a path in \<open>initControlPoints\<close> (\<open>None\<close> when one has none) \<dots>\<close>

fun search_all ::
    "optimizer_env \<Rightarrow> vec3 list \<Rightarrow> (int \<times> int) list \<Rightarrow> optimizer \<Rightarrow> cpp_error + vec3 list list option \<times> optimizer" where
  "search_all e pts [] s = Inr (Some [], s)"
| "search_all e pts ((a, b) # segs) s =
     bind_result (fetch_at pts a) (\<lambda>p.
     bind_result (fetch_at pts b) (\<lambda>q.
     bind_result (search_path e p q s) (\<lambda>(r, s1).
       case r of None \<Rightarrow> Inr (None, s1)
       | Some path \<Rightarrow> bind_result (search_all e pts segs s1) (\<lambda>(ps, s2). Inr (map_option ((#) path) ps, s2)))))"

text \<open>\dots, while \<open>check_collision_and_rebound\<close> erases the segments without one.\<close>

fun search_some ::
    "optimizer_env \<Rightarrow> (int \<times> int) list \<Rightarrow> optimizer \<Rightarrow> cpp_error + ((int \<times> int) \<times> vec3 list) list \<times> optimizer" where
  "search_some e [] s = Inr ([], s)"
| "search_some e ((a, b) # segs) s =
     bind_result (fetch_at (points (cps s)) a) (\<lambda>p.
     bind_result (fetch_at (points (cps s)) b) (\<lambda>q.
     bind_result (search_path e p q s) (\<lambda>(r, s1).
     bind_result (search_some e segs s1) (\<lambda>(rest, s2).
       Inr (case r of None \<Rightarrow> rest | Some path \<Rightarrow> ((a, b), path) # rest, s2)))))"

section \<open>The bounds of the segments\<close>

definition segment_bound :: "(int \<times> int) list \<Rightarrow> int \<Rightarrow> int \<Rightarrow> nat \<Rightarrow> int \<times> int" where
  "segment_bound segs ord cols i =
     (let low = trunc (((of_int (fst (segs ! i)) + of_int (snd (segs ! (i - 1)))) + 1) / 2);
          up = trunc (((of_int (snd (segs ! i)) + of_int (fst (segs ! (i + 1)))) - 1) / 2)
      in if i = 0 then (ord, if length segs > 1 then up else cols - ord - 1)
         else if i = length segs - 1 then (low, cols - ord - 1)
         else (low, up))"

text \<open>\<open>MINIMUM_PERCENT\<close> is zero, so only a segment that ends before it begins is widened.\<close>

definition adjust_segment :: "int \<Rightarrow> int \<times> int \<Rightarrow> int \<times> int \<Rightarrow> int \<times> int" where
  "adjust_segment minimum_points bnd seg =
     (let num_points = snd seg - fst seg + 1; add = trunc ((of_int (minimum_points - num_points) + 1) / 2)
      in if num_points < minimum_points
         then (if fst seg - add \<ge> fst bnd then fst seg - add else fst bnd,
               if snd seg + add \<le> snd bnd then snd seg + add else snd bnd)
         else seg)"

fun avoid_overlap :: "(int \<times> int) list \<Rightarrow> (int \<times> int) list" where
  "avoid_overlap ((a, b) # (c, d) # segs) =
     (if b \<ge> c
      then let middle = real_of_int (b + c) / 2
           in (a, trunc (middle - 1 / 10)) # avoid_overlap ((trunc (middle + 11 / 10), d) # segs)
      else (a, b) # avoid_overlap ((c, d) # segs))"
| "avoid_overlap segs = segs"

section \<open>Base points\<close>

text \<open>
  The place where the path crosses the plane through \<open>p\<close> with normal \<open>law\<close>: from the middle of the path
  the index moves on until the sign changes.  The path is read before the index is checked, so a path
  without a crossing is read out of bounds; the fuel, its length, is enough.
\<close>

fun walk_path :: "nat \<Rightarrow> vec3 list \<Rightarrow> vec3 \<Rightarrow> vec3 \<Rightarrow> real \<Rightarrow> int \<Rightarrow> real \<Rightarrow> cpp_error + vec3" where
  "walk_path 0 path p law last_val i val = Inl Hangs"
| "walk_path (Suc n) path p law last_val i val =
     (let j = (if val \<ge> 0 then i - 1 else i + 1)
      in bind_result (fetch_at path j) (\<lambda>b.
         let val' = vdot (vsub b p) law
         in if val' * last_val \<le> 0 \<and> (\<bar>val'\<bar> > 0 \<or> \<bar>last_val\<bar> > 0)
            then bind_result (fetch_at path i) (\<lambda>a.
                 bind_result (fdiv (vdot law (vsub p b)) (vdot law (vsub b a))) (\<lambda>t.
                   Inr (vadd b (vscale t (vsub b a)))))
            else walk_path n path p law last_val j val'))"

definition intersection :: "vec3 list \<Rightarrow> vec3 \<Rightarrow> vec3 \<Rightarrow> cpp_error + vec3" where
  "intersection path p law =
     (let i = int (length path) div 2
      in bind_result (fetch_at path i) (\<lambda>a.
         let val = vdot (vsub a p) law in walk_path (Suc (length path)) path p law val i val))"

text \<open>Appending to the vectors of one control point.\<close>

definition push_base :: "int \<Rightarrow> vec3 \<Rightarrow> vec3 \<Rightarrow> ctrl_points \<Rightarrow> cpp_error + ctrl_points" where
  "push_base j b d c =
     bind_result (fetch_at (base_point c) j) (\<lambda>bs.
     bind_result (fetch_at (direction c) j) (\<lambda>ds.
     bind_result (store_at (bs @ [b]) (base_point c) j) (\<lambda>B.
     bind_result (store_at (ds @ [d]) (direction c) j) (\<lambda>D.
       Inr (c\<lparr>base_point := B, direction := D\<rparr>)))))"

definition set_flag :: "bool \<Rightarrow> int \<Rightarrow> ctrl_points \<Rightarrow> cpp_error + ctrl_points" where
  "set_flag v j c = bind_result (store_at v (flag_temp c) j) (\<lambda>f. Inr (c\<lparr>flag_temp := f\<rparr>))"

text \<open>
  The march from the crossing \<open>x\<close> towards the control point \<open>p\<close>, \<open>len\<close> away: \<open>a\<close> is the distance that is
  left.  It stops at the first occupied place, one step back, or when it arrives.
\<close>

fun march :: "nat \<Rightarrow> optimizer_env \<Rightarrow> int \<Rightarrow> vec3 \<Rightarrow> vec3 \<Rightarrow> real \<Rightarrow> real \<Rightarrow> ctrl_points \<Rightarrow> cpp_error + ctrl_points" where
  "march 0 e j x p len a c = Inl Hangs"
| "march (Suc n) e j x p len a c =
     (if a < 0 then Inr c
      else let place = (\<lambda>a. vadd (vscale (a / len) x) (vscale (1 - a / len) p)); h = resolution (env_mp e)
      in bind_result (occupied e (place a)) (\<lambda>occ.
           if occ \<or> a < h
           then push_base j (place (if occ then a + h else a)) (normalized (vsub x p)) c
           else march n e j x p len (a - h) c))"

definition march_fuel :: "optimizer_env \<Rightarrow> real \<Rightarrow> nat" where
  "march_fuel e len = Suc (Suc (nat \<lceil>len / resolution (env_mp e)\<rceil>))"

text \<open>Step 2 for one control point inside a segment; \<open>got\<close> is \<open>got_intersection_id\<close>.\<close>

definition base_at ::
    "optimizer_env \<Rightarrow> vec3 list \<Rightarrow> vec3 list \<Rightarrow> int \<Rightarrow> int \<times> ctrl_points \<Rightarrow> cpp_error + int \<times> ctrl_points" where
  "base_at e pts path j st =
     (case st of (got, c) \<Rightarrow>
        bind_result (fetch_at pts (j + 1)) (\<lambda>next.
        bind_result (fetch_at pts (j - 1)) (\<lambda>prev.
        bind_result (fetch_at pts j) (\<lambda>p.
        bind_result (intersection path p (vsub next prev)) (\<lambda>x.
          let len = vnorm (vsub x p)
          in if len > 1 / 10 ^ 5
             then bind_result (set_flag True j c) (\<lambda>c1.
                  bind_result (march (march_fuel e len) e j x p len len c1) (\<lambda>c2. Inr (j, c2)))
             else Inr (- 1, c))))))"

text \<open>
  Step 3: the control points without a base point of their own take that of their neighbour on the
  side of the last crossing.
\<close>

definition copy_base :: "int \<Rightarrow> int \<Rightarrow> ctrl_points \<Rightarrow> cpp_error + ctrl_points" where
  "copy_base k j c =
     bind_result (fetch_at (flag_temp c) j) (\<lambda>flag.
       if flag then Inr c
       else bind_result (fetch_at (base_point c) (j + k)) (\<lambda>bs.
            bind_result (fetch_at (direction c) (j + k)) (\<lambda>ds.
              if bs = [] \<or> ds = [] then Inl OutOfBounds else push_base j (last bs) (last ds) c)))"

definition spread_base :: "int \<Rightarrow> int \<times> int \<Rightarrow> ctrl_points \<Rightarrow> cpp_error + ctrl_points" where
  "spread_base got seg c =
     bind_result (fold_result (copy_base (- 1)) [got + 1..snd seg] c) (\<lambda>c1.
       fold_result (copy_base 1) (rev [fst seg..got - 1]) c1)"

text \<open>The corner case of a segment with no control point inside.\<close>

definition short_segment ::
    "vec3 list \<Rightarrow> vec3 list \<Rightarrow> int \<times> int \<Rightarrow> int \<times> ctrl_points \<Rightarrow> cpp_error + int \<times> ctrl_points" where
  "short_segment pts path seg st =
     (case st of (got, c) \<Rightarrow>
        if snd seg - fst seg \<noteq> 1 then Inr (got, c)
        else bind_result (fetch_at pts (snd seg)) (\<lambda>q.
             bind_result (fetch_at pts (fst seg)) (\<lambda>p.
             let middle = vscale (1 / 2) (vadd q p)
             in bind_result (intersection path middle (vsub q p)) (\<lambda>x.
                  if vnorm (vsub x middle) > 1 / 100
                  then bind_result (set_flag True (fst seg) c) (\<lambda>c1.
                       bind_result (push_base (fst seg) p (normalized (vsub x middle)) c1) (\<lambda>c2. Inr (fst seg, c2)))
                  else Inr (got, c)))))"

text \<open>
  One segment, with its adjusted bounds and its path; \<open>short\<close> says whether the corner case is looked
  at, which only \<open>initControlPoints\<close> does.  The result tells whether a crossing was found.
\<close>

definition assign_segment ::
    "bool \<Rightarrow> optimizer_env \<Rightarrow> vec3 list \<Rightarrow> int \<times> int \<Rightarrow> int \<times> int \<Rightarrow> vec3 list \<Rightarrow> ctrl_points \<Rightarrow> cpp_error + bool \<times> ctrl_points" where
  "assign_segment short e pts seg adj path c =
     bind_result (fold_result (set_flag False) [fst adj..snd adj] c) (\<lambda>c1.
     bind_result (fold_result (base_at e pts path) [fst seg + 1..snd seg - 1] (- 1, c1)) (\<lambda>st.
     bind_result (if short then short_segment pts path seg st else Inr st) (\<lambda>(got, c2).
       if got \<ge> 0 then bind_result (spread_base got adj c2) (\<lambda>c3. Inr (True, c3)) else Inr (False, c2))))"

fun assign_all ::
    "optimizer_env \<Rightarrow> vec3 list \<Rightarrow> ((int \<times> int) \<times> (int \<times> int) \<times> vec3 list) list \<Rightarrow> ctrl_points \<Rightarrow>
     cpp_error + (int \<times> int) list \<times> ctrl_points" where
  "assign_all e pts [] c = Inr ([], c)"
| "assign_all e pts ((seg, adj, path) # rest) c =
     bind_result (assign_segment True e pts seg adj path c) (\<lambda>(ok, c1).
     bind_result (assign_all e pts rest c1) (\<lambda>(segs, c2). Inr (if ok then adj # segs else segs, c2)))"

definition initControlPoints ::
    "optimizer_env \<Rightarrow> vec3 list \<Rightarrow> bool \<Rightarrow> optimizer \<Rightarrow> cpp_error + (int \<times> int) list \<times> optimizer" where
  "initControlPoints e init_points flag_first_init s =
     bind_result
       (if flag_first_init
        then bind_result (resize (int (length init_points)) (cps s)) (\<lambda>c.
               Inr (s\<lparr>cps := c\<lparr>clearance := dist0 s, points := init_points\<rparr>\<rparr>))
        else Inr s) (\<lambda>s1.
     bind_result (find_segments e (order s) init_points) (\<lambda>segs.
       if segs = [] then Inr ([], s1)
       else bind_result (search_all e init_points segs s1) (\<lambda>(paths, s2).
         case paths of None \<Rightarrow> Inr ([], s2)
         | Some ps \<Rightarrow>
             let cols = int (length init_points);
                 adjusted = avoid_overlap (map (\<lambda>i. adjust_segment 0 (segment_bound segs (order s) cols i) (segs ! i))
                              [0..<length segs])
             in bind_result (assign_all e init_points (zip segs (zip adjusted ps)) (cps s2)) (\<lambda>(final, c).
                  Inr (final, s2\<lparr>cps := c\<rparr>)))))"

section \<open>Rebounding\<close>

text \<open>Whether a control point is outside of an obstacle that one of its base points stands for.\<close>

definition covered :: "optimizer_env \<Rightarrow> ctrl_points \<Rightarrow> vec3 \<Rightarrow> int \<Rightarrow> cpp_error + bool" where
  "covered e c p i =
     bind_result (fetch_at (direction c) i) (\<lambda>ds.
       any_result (\<lambda>k.
         bind_result (fetch_at (base_point c) i) (\<lambda>bs.
         bind_result (fetch bs k) (\<lambda>b.
         bind_result (fetch ds k) (\<lambda>d. Inr (vdot (vsub p b) d < 1 * resolution (env_mp e)))))) [0..<length ds])"

text \<open>The first free control point of a list of indices.\<close>

fun first_free :: "optimizer_env \<Rightarrow> vec3 list \<Rightarrow> int list \<Rightarrow> cpp_error + int option" where
  "first_free e pts [] = Inr None"
| "first_free e pts (j # js) =
     bind_result (fetch_at pts j) (\<lambda>p. bind_result (occupied e p) (\<lambda>occ.
       if occ then first_free e pts js else Inr (Some j)))"

lemma first_free_mem: "first_free e pts js = Inr (Some j) \<Longrightarrow> j \<in> set js"
  by (induction js) (auto split: if_splits)

text \<open>
  The scan from \<open>i\<close> on: \<open>None\<close> when the last control points are in an obstacle, otherwise the segments.
  It goes on two points behind a segment.
\<close>

function collisions :: "optimizer_env \<Rightarrow> ctrl_points \<Rightarrow> int \<Rightarrow> int \<Rightarrow> cpp_error + (int \<times> int) list option" where
  "collisions e c i i_end =
     (if i > i_end then Inr (Some [])
      else bind_result (fetch_at (points c) i) (\<lambda>p.
           bind_result (occupied e p) (\<lambda>occ0.
           bind_result (if occ0 then covered e c p i else Inr True) (\<lambda>cov.
             if cov then collisions e c (i + 1) i_end
             else bind_result (first_free e (points c) (rev [0..i - 1])) (\<lambda>before.
                  bind_result (first_free e (points c) [i + 1..cp_size c - 1]) (\<lambda>behind.
                    case behind of None \<Rightarrow> Inr None
                    | Some j \<Rightarrow>
                        bind_result (collisions e c (j + 2) i_end) (\<lambda>r.
                          Inr (map_option ((#) (case before of None \<Rightarrow> 0 | Some k \<Rightarrow> k, j)) r))))))))"
  by pat_completeness auto
termination
  by (relation "measure (\<lambda>(e, c, i, i_end). nat (i_end + 1 - i))") (auto dest: first_free_mem)

declare collisions.simps [simp del]

fun rebound_segments ::
    "optimizer_env \<Rightarrow> ((int \<times> int) \<times> vec3 list) list \<Rightarrow> ctrl_points \<Rightarrow> cpp_error + ctrl_points" where
  "rebound_segments e [] c = Inr c"
| "rebound_segments e ((seg, path) # rest) c =
     bind_result (assign_segment False e (points c) seg seg path c) (\<lambda>(_, c1). rebound_segments e rest c1)"

definition check_collision_and_rebound :: "optimizer_env \<Rightarrow> optimizer \<Rightarrow> cpp_error + bool \<times> optimizer" where
  "check_collision_and_rebound e s =
     (let c = cps s; end_idx = cp_size c - order s; i_end = end_idx - idiv (end_idx - order s) 3
      in bind_result (collisions e c (order s - 1) i_end) (\<lambda>r.
           case r of None \<Rightarrow> Inr (False, s\<lparr>force_stop_type := STOP_FOR_ERROR\<rparr>)
           | Some [] \<Rightarrow> Inr (False, s)
           | Some segs \<Rightarrow>
               bind_result (search_some e segs s) (\<lambda>(found, s1).
               bind_result (rebound_segments e (zip (avoid_overlap (map fst found)) (map snd found)) (cps s1)) (\<lambda>c'.
                 Inr (True, s1\<lparr>cps := c', force_stop_type := STOP_FOR_REBOUND\<rparr>)))))"

end
