(* ===== verification/OptimizerCost.thy ===== *)
theory OptimizerCost
  imports Optimizer
begin

text \<open>
  The cost functions of the trajectory optimiser (\<open>bspline_optimizer.cpp\<close>): every one adds its terms to
  a cost and a gradient, a list of columns like the control points, and \<open>combineCostRebound\<close> and
  \<open>combineCostRefine\<close> weigh them for the minimiser.
\<close>

section \<open>Columns\<close>

definition add_col :: "int \<Rightarrow> vec3 \<Rightarrow> vec3 list \<Rightarrow> cpp_error + vec3 list" where
  "add_col i v g = bind_result (fetch_at g i) (\<lambda>a. store_at (vadd a v) g i)"

definition zero_cols :: "nat \<Rightarrow> vec3 list" where
  "zero_cols n = replicate n vzero"

text \<open>The doubles of a matrix with three rows, column by column, and back.\<close>

definition doubles :: "vec3 list \<Rightarrow> real list" where
  "doubles ps = concat (map (\<lambda>p. [vx p, vy p, vz p]) ps)"

fun columns :: "real list \<Rightarrow> vec3 list" where
  "columns (x # y # z # rest) = Vec3 x y z # columns rest"
| "columns _ = []"

text \<open>The two copies of \<open>n\<close> doubles behind the first \<open>order\<close> columns.\<close>

definition store_vars :: "int \<Rightarrow> real list \<Rightarrow> vec3 list \<Rightarrow> cpp_error + vec3 list" where
  "store_vars ord x ps =
     (if ord < 0 \<or> 3 * nat ord + length x > length (doubles ps) then Inl OutOfBounds
      else Inr (columns (take (3 * nat ord) (doubles ps) @ x @ drop (3 * nat ord + length x) (doubles ps))))"

definition load_vars :: "int \<Rightarrow> nat \<Rightarrow> vec3 list \<Rightarrow> cpp_error + real list" where
  "load_vars ord n ps =
     (if ord < 0 \<or> 3 * nat ord + n > length (doubles ps) then Inl OutOfBounds
      else Inr (take n (drop (3 * nat ord) (doubles ps))))"

definition vcross :: "vec3 \<Rightarrow> vec3 \<Rightarrow> vec3" where
  "vcross a b = Vec3 (vy a * vz b - vz a * vy b) (vz a * vx b - vx a * vz b) (vx a * vy b - vy a * vx b)"

section \<open>Smoothness\<close>

definition jerk_term :: "vec3 list \<Rightarrow> int \<Rightarrow> real \<times> vec3 list \<Rightarrow> cpp_error + real \<times> vec3 list" where
  "jerk_term q i st =
     (case st of (cost, g) \<Rightarrow>
        bind_result (fetch_at q (i + 3)) (\<lambda>q3.
        bind_result (fetch_at q (i + 2)) (\<lambda>q2.
        bind_result (fetch_at q (i + 1)) (\<lambda>q1.
        bind_result (fetch_at q i) (\<lambda>q0.
        let jerk = vsub (vadd (vsub q3 (vscale 3 q2)) (vscale 3 q1)) q0; temp_j = vscale 2 jerk
        in bind_result (add_col i (vscale (- 1) temp_j) g) (\<lambda>g.
           bind_result (add_col (i + 1) (vscale 3 temp_j) g) (\<lambda>g.
           bind_result (add_col (i + 2) (vscale (- 3) temp_j) g) (\<lambda>g.
           bind_result (add_col (i + 3) temp_j g) (\<lambda>g. Inr (cost + vdot jerk jerk, g))))))))))"

definition acc_term :: "vec3 list \<Rightarrow> int \<Rightarrow> real \<times> vec3 list \<Rightarrow> cpp_error + real \<times> vec3 list" where
  "acc_term q i st =
     (case st of (cost, g) \<Rightarrow>
        bind_result (fetch_at q (i + 2)) (\<lambda>q2.
        bind_result (fetch_at q (i + 1)) (\<lambda>q1.
        bind_result (fetch_at q i) (\<lambda>q0.
        let acc = vadd (vsub q2 (vscale 2 q1)) q0; temp_acc = vscale 2 acc
        in bind_result (add_col i temp_acc g) (\<lambda>g.
           bind_result (add_col (i + 1) (vscale (- 2) temp_acc) g) (\<lambda>g.
           bind_result (add_col (i + 2) temp_acc g) (\<lambda>g. Inr (cost + vdot acc acc, g))))))))"

definition calcSmoothnessCost :: "vec3 list \<Rightarrow> vec3 list \<Rightarrow> bool \<Rightarrow> cpp_error + real \<times> vec3 list" where
  "calcSmoothnessCost q gradient use_jerk =
     (if use_jerk then fold_result (jerk_term q) [0..int (length q) - 4] (0, gradient)
      else fold_result (acc_term q) [0..int (length q) - 3] (0, gradient))"

section \<open>Feasibility\<close>

text \<open>The rows of a column: how to read one, and the column that has only that row.\<close>

definition rows :: "((vec3 \<Rightarrow> real) \<times> (real \<Rightarrow> vec3)) list" where
  "rows = [(vx, \<lambda>r. Vec3 r 0 0), (vy, \<lambda>r. Vec3 0 r 0), (vz, \<lambda>r. Vec3 0 0 r)]"

definition vel_row ::
    "real \<Rightarrow> real \<Rightarrow> int \<Rightarrow> vec3 \<Rightarrow> (vec3 \<Rightarrow> real) \<times> (real \<Rightarrow> vec3) \<Rightarrow> real \<times> vec3 list \<Rightarrow> cpp_error + real \<times> vec3 list" where
  "vel_row ts vmax i vi row st =
     (case (row, st) of ((get, only), (cost, g)) \<Rightarrow>
        let ts_inv2 = 1 / ts / ts; v = get vi;
            over = (\<lambda>d. bind_result (add_col i (only (- 2 * d / ts * ts_inv2)) g) (\<lambda>g.
                        bind_result (add_col (i + 1) (only (2 * d / ts * ts_inv2)) g) (\<lambda>g. Inr (cost + d\<^sup>2 * ts_inv2, g))))
        in if v > vmax then over (v - vmax) else if v < - vmax then over (v + vmax) else Inr (cost, g))"

definition vel_feasible_term :: "real \<Rightarrow> real \<Rightarrow> vec3 list \<Rightarrow> int \<Rightarrow> real \<times> vec3 list \<Rightarrow> cpp_error + real \<times> vec3 list" where
  "vel_feasible_term ts vmax q i st =
     bind_result (fetch_at q (i + 1)) (\<lambda>b. bind_result (fetch_at q i) (\<lambda>a.
       fold_result (vel_row ts vmax i (vscale (1 / ts) (vsub b a))) rows st))"

definition acc_row ::
    "real \<Rightarrow> real \<Rightarrow> int \<Rightarrow> vec3 \<Rightarrow> (vec3 \<Rightarrow> real) \<times> (real \<Rightarrow> vec3) \<Rightarrow> real \<times> vec3 list \<Rightarrow> cpp_error + real \<times> vec3 list" where
  "acc_row ts amax i ai row st =
     (case (row, st) of ((get, only), (cost, g)) \<Rightarrow>
        let ts_inv2 = 1 / ts / ts; a = get ai;
            over = (\<lambda>d. bind_result (add_col i (only (2 * d * ts_inv2)) g) (\<lambda>g.
                        bind_result (add_col (i + 1) (only (- 4 * d * ts_inv2)) g) (\<lambda>g.
                        bind_result (add_col (i + 2) (only (2 * d * ts_inv2)) g) (\<lambda>g. Inr (cost + d\<^sup>2, g)))))
        in if a > amax then over (a - amax) else if a < - amax then over (a + amax) else Inr (cost, g))"

definition acc_feasible_term :: "real \<Rightarrow> real \<Rightarrow> vec3 list \<Rightarrow> int \<Rightarrow> real \<times> vec3 list \<Rightarrow> cpp_error + real \<times> vec3 list" where
  "acc_feasible_term ts amax q i st =
     bind_result (fetch_at q (i + 2)) (\<lambda>c. bind_result (fetch_at q (i + 1)) (\<lambda>b. bind_result (fetch_at q i) (\<lambda>a.
       fold_result (acc_row ts amax i (vscale (1 / ts / ts) (vadd (vsub c (vscale 2 b)) a))) rows st)))"

definition calcFeasibilityCost :: "optimizer \<Rightarrow> vec3 list \<Rightarrow> vec3 list \<Rightarrow> cpp_error + real \<times> vec3 list" where
  "calcFeasibilityCost s q gradient =
     (let ts = bspline_interval s
      in if ts = 0 then Inl DivideByZero
         else bind_result (fold_result (vel_feasible_term ts (opt_max_vel s) q) [0..int (length q) - 2] (0, gradient))
                (fold_result (acc_feasible_term ts (opt_max_acc s) q) [0..int (length q) - 3]))"

section \<open>The target\<close>

definition calcTerminalCost :: "vec3 \<Rightarrow> vec3 list \<Rightarrow> vec3 list \<Rightarrow> cpp_error + real \<times> vec3 list" where
  "calcTerminalCost target q gradient =
     (let n = int (length q)
      in bind_result (fetch_at q (n - 3)) (\<lambda>q_3.
         bind_result (fetch_at q (n - 2)) (\<lambda>q_2.
         bind_result (fetch_at q (n - 1)) (\<lambda>q_1.
         let dq = vsub (vscale (1 / 6) (vadd (vadd q_3 (vscale 4 q_2)) q_1)) target
         in bind_result (add_col (n - 3) (vscale (2 * (1 / 6)) dq) gradient) (\<lambda>g.
            bind_result (add_col (n - 2) (vscale (2 * (4 / 6)) dq) g) (\<lambda>g.
            bind_result (add_col (n - 1) (vscale (2 * (1 / 6)) dq) g) (\<lambda>g. Inr (vdot dq dq, g))))))))"

section \<open>The reference points of the refinement\<close>

definition fitness_term :: "vec3 list \<Rightarrow> vec3 list \<Rightarrow> int \<Rightarrow> real \<times> vec3 list \<Rightarrow> cpp_error + real \<times> vec3 list" where
  "fitness_term refs q i st =
     (case st of (cost, g) \<Rightarrow>
        bind_result (fetch_at q (i - 1)) (\<lambda>a.
        bind_result (fetch_at q i) (\<lambda>b.
        bind_result (fetch_at q (i + 1)) (\<lambda>c.
        bind_result (fetch_at refs (i - 1)) (\<lambda>r1.
        bind_result (fetch_at refs i) (\<lambda>r2.
        bind_result (fetch_at refs (i - 2)) (\<lambda>r0.
        let x = vsub (vscale (1 / 6) (vadd (vadd a (vscale 4 b)) c)) r1; v = normalized (vsub r2 r0);
            xdotv = vdot x v; xcrossv = vcross x v; a2 = 25; b2 = 1;
            f = xdotv\<^sup>2 / a2 + (vnorm xcrossv)\<^sup>2 / b2;
            df_dx = vadd (vscale (2 * xdotv / a2) v) (vscale (2 / b2) (vcross v xcrossv))
        in bind_result (add_col (i - 1) (vscale (1 / 6) df_dx) g) (\<lambda>g.
           bind_result (add_col i (vscale (4 / 6) df_dx) g) (\<lambda>g.
           bind_result (add_col (i + 1) (vscale (1 / 6) df_dx) g) (\<lambda>g. Inr (cost + f, g)))))))))))"

definition calcFitnessCost :: "optimizer \<Rightarrow> vec3 list \<Rightarrow> vec3 list \<Rightarrow> cpp_error + real \<times> vec3 list" where
  "calcFitnessCost s q gradient =
     (let end_idx = int (length q) - order s
      in fold_result (fitness_term (ref_pts s) q) [order s - 1..end_idx] (0, gradient))"

section \<open>The other drones\<close>

text \<open>
  The pairs of a control point and another drone that are compared, and what such a pair adds.  The
  semi-axes of the ellipsoid are \<open>a = 2\<close> along the vertical and \<open>b = 1\<close>.
\<close>

definition ellip_norm :: "vec3 \<Rightarrow> real" where
  "ellip_norm d = sqrt (vz d * vz d * (1 / 2 / 2) + (vx d * vx d + vy d * vy d) * (1 / 1 / 1))"

definition swarm_point_term ::
    "real \<Rightarrow> int \<Rightarrow> vec3 \<Rightarrow> vec3 \<Rightarrow> real \<times> vec3 list \<times> real \<Rightarrow> cpp_error + real \<times> vec3 list \<times> real" where
  "swarm_point_term CLEARANCE i p swarm_prid st =
     (case st of (cost, g, nearest) \<Rightarrow>
        let dist_vec = vsub p swarm_prid; ellip_dist = ellip_norm dist_vec; dist_err = CLEARANCE - ellip_dist;
            nearest' = (if nearest > dist_err then dist_err else nearest)
        in if dist_err < 0 then Inr (cost, g, nearest')
           else bind_result (fdiv CLEARANCE ellip_dist) (\<lambda>k.
             let c0 = - 2 * (k - 1) * (1 / 1 / 1); c2 = - 2 * (k - 1) * (1 / 2 / 2)
             in bind_result (add_col i (Vec3 (c0 * vx dist_vec) (c0 * vy dist_vec) (c2 * vz dist_vec)) g) (\<lambda>g.
                  Inr (cost + dist_err\<^sup>2, g, nearest'))))"

definition swarm_time :: "optimizer \<Rightarrow> real \<Rightarrow> int \<Rightarrow> real" where
  "swarm_time s t_now i = t_now + (of_int (order s - 1) / 2 + of_int (i - order s + 1)) * bspline_interval s"

definition swarm_term ::
    "optimizer \<Rightarrow> real \<Rightarrow> int \<times> nat \<Rightarrow> real \<times> vec3 list \<times> real \<Rightarrow> cpp_error + real \<times> vec3 list \<times> real" where
  "swarm_term s t_now pair st =
     (case pair of (i, k) \<Rightarrow>
        let other = swarm_trajs s ! k; glb_time = swarm_time s t_now i
        in if drone_id other \<noteq> int k \<or> drone_id other = opt_drone_id s then Inr st
           else if glb_time < sw_start_time other + sw_duration other - 1 / 10
           then bind_result (evaluateDeBoorT (glb_time - sw_start_time other) (sw_position_traj other)) (\<lambda>o'.
                bind_result (fetch_at (points (cps s)) i) (\<lambda>p.
                  swarm_point_term (opt_clearance s * 2) i p o' st))
           else Inr st)"

definition swarm_pairs :: "optimizer \<Rightarrow> int \<Rightarrow> (int \<times> nat) list" where
  "swarm_pairs s cols =
     (let end_idx = trunc (of_int (cols - order s) - of_int (cols - 2 * order s) * 1 / 3)
      in concat (map (\<lambda>i. map (Pair i) [0..<length (swarm_trajs s)]) [order s..end_idx - 1]))"

definition calcSwarmCost ::
    "optimizer_env \<Rightarrow> optimizer \<Rightarrow> vec3 list \<Rightarrow> vec3 list \<Rightarrow> cpp_error + (real \<times> vec3 list) \<times> optimizer" where
  "calcSwarmCost e s q gradient =
     bind_result (fold_result (swarm_term s (env_clock e (clock_reads s))) (swarm_pairs s (int (length q)))
                   (0, gradient, min_ellip_dist s)) (\<lambda>(cost, g, nearest).
       Inr ((cost, g), s\<lparr>min_ellip_dist := nearest, clock_reads := Suc (clock_reads s)\<rparr>))"

section \<open>Obstacles\<close>

text \<open>What a base point adds: a cubic near the clearance, a parabola farther inside.\<close>

definition penalty :: "real \<Rightarrow> real \<Rightarrow> real \<times> real" where
  "penalty demarcation dist_err =
     (let a = 3 * demarcation; b = - 3 * demarcation\<^sup>2; c = demarcation ^ 3
      in if dist_err < 0 then (0, 0)
         else if dist_err < demarcation then (dist_err ^ 3, - 3 * dist_err * dist_err)
         else (a * dist_err * dist_err + b * dist_err + c, - (2 * a * dist_err + b)))"

definition base_term ::
    "ctrl_points \<Rightarrow> int \<times> nat \<Rightarrow> real \<times> vec3 list \<Rightarrow> cpp_error + real \<times> vec3 list" where
  "base_term c pair st =
     (case (pair, st) of ((i, j), (cost, g)) \<Rightarrow>
        bind_result (fetch_at (points c) i) (\<lambda>p.
        bind_result (fetch_at (base_point c) i) (\<lambda>bs.
        bind_result (fetch bs j) (\<lambda>b.
        bind_result (fetch_at (direction c) i) (\<lambda>ds.
        bind_result (fetch ds j) (\<lambda>d.
          let dist_err = clearance c - vdot (vsub p b) d
          in if dist_err < 0 then Inr (cost, g)
             else bind_result (add_col i (vscale (snd (penalty (clearance c) dist_err)) d) g) (\<lambda>g.
                    Inr (cost + fst (penalty (clearance c) dist_err), g))))))))"

definition point_terms :: "ctrl_points \<Rightarrow> int \<Rightarrow> real \<times> vec3 list \<Rightarrow> cpp_error + real \<times> vec3 list" where
  "point_terms c i st =
     bind_result (fetch_at (direction c) i) (\<lambda>ds. fold_result (base_term c) (map (Pair i) [0..<length ds]) st)"

text \<open>Whether the trajectory is smooth enough to look for new obstacles; a quotient by zero is not below.\<close>

definition smooth_enough :: "real \<Rightarrow> int \<Rightarrow> bool" where
  "smooth_enough cost n \<longleftrightarrow> n \<noteq> 0 \<and> cost / of_int n < 1 / 10"

definition calcDistanceCostRebound ::
    "optimizer_env \<Rightarrow> optimizer \<Rightarrow> vec3 list \<Rightarrow> vec3 list \<Rightarrow> int \<Rightarrow> real \<Rightarrow> cpp_error + (real \<times> vec3 list) \<times> optimizer" where
  "calcDistanceCostRebound e s q gradient iters smoothness_cost =
     (let s0 = s\<lparr>force_stop_type := DONT_STOP\<rparr>; end_idx = int (length q) - order s
      in bind_result
           (if iters > 3 \<and> smooth_enough smoothness_cost (cp_size (cps s) - 2 * order s)
            then bind_result (check_collision_and_rebound e s0) (\<lambda>(_, s1). Inr s1) else Inr s0) (\<lambda>s1.
         bind_result (fold_result (point_terms (cps s1)) [order s..end_idx - 1] (0, gradient)) (\<lambda>r.
           Inr (r, s1))))"

section \<open>The weighted sums\<close>

definition weighted :: "(real \<times> vec3 list) list \<Rightarrow> vec3 list" where
  "weighted gs = foldr (\<lambda>(k, g) acc. map2 (\<lambda>a b. vadd (vscale k a) b) g acc) gs (zero_cols (length (snd (hd gs))))"

definition combineCostRebound ::
    "optimizer_env \<Rightarrow> real list \<Rightarrow> optimizer \<Rightarrow> cpp_error + real \<times> real list \<times> optimizer" where
  "combineCostRebound e x s =
     bind_result (store_vars (order s) x (points (cps s))) (\<lambda>ps.
     let s0 = s\<lparr>cps := (cps s)\<lparr>points := ps\<rparr>\<rparr>; zero = zero_cols (nat (cp_size (cps s)))
     in bind_result (calcSmoothnessCost ps zero True) (\<lambda>(f_smoothness, g_smoothness).
        bind_result (calcDistanceCostRebound e s0 ps zero (iter_num s) f_smoothness) (\<lambda>((f_distance, g_distance), s1).
        bind_result (calcFeasibilityCost s1 ps zero) (\<lambda>(f_feasibility, g_feasibility).
        bind_result (calcSwarmCost e s1 ps zero) (\<lambda>((f_swarm, g_swarm), s2).
        bind_result (calcTerminalCost (local_target_pt s2) ps zero) (\<lambda>(f_terminal, g_terminal).
        let grad_3D = weighted [(lambda1 s2, g_smoothness), (new_lambda2 s2, g_distance), (lambda3 s2, g_feasibility),
                                (new_lambda2 s2, g_swarm), (lambda2 s2, g_terminal)];
            f_combine = lambda1 s2 * f_smoothness + new_lambda2 s2 * f_distance + lambda3 s2 * f_feasibility +
                        new_lambda2 s2 * f_swarm + lambda2 s2 * f_terminal
        in bind_result (load_vars (order s) (length x) grad_3D) (\<lambda>grad. Inr (f_combine, grad, s2))))))))"

definition combineCostRefine ::
    "real list \<Rightarrow> optimizer \<Rightarrow> cpp_error + real \<times> real list \<times> optimizer" where
  "combineCostRefine x s =
     bind_result (store_vars (order s) x (points (cps s))) (\<lambda>ps.
     let s0 = s\<lparr>cps := (cps s)\<lparr>points := ps\<rparr>\<rparr>; zero = zero_cols (length ps)
     in bind_result (calcSmoothnessCost ps zero True) (\<lambda>(f_smoothness, g_smoothness).
        bind_result (calcFitnessCost s0 ps zero) (\<lambda>(f_fitness, g_fitness).
        bind_result (calcFeasibilityCost s0 ps zero) (\<lambda>(f_feasibility, g_feasibility).
        let grad_3D = weighted [(lambda1 s, g_smoothness), (lambda4 s, g_fitness), (lambda3 s, g_feasibility)];
            f_combine = lambda1 s * f_smoothness + lambda4 s * f_fitness + lambda3 s * f_feasibility
        in bind_result (load_vars (order s) (length x) grad_3D) (\<lambda>grad. Inr (f_combine, grad, s0))))))"

text \<open>The callbacks of the minimiser.\<close>

definition costFunctionRebound ::
    "optimizer_env \<Rightarrow> real list \<Rightarrow> optimizer \<Rightarrow> cpp_error + real \<times> real list \<times> optimizer" where
  "costFunctionRebound e x s =
     bind_result (combineCostRebound e x s) (\<lambda>(f, g, s'). Inr (f, g, s'\<lparr>iter_num := iter_num s' + 1\<rparr>))"

definition costFunctionRefine :: "real list \<Rightarrow> optimizer \<Rightarrow> cpp_error + real \<times> real list \<times> optimizer" where
  "costFunctionRefine x s =
     bind_result (combineCostRefine x s) (\<lambda>(f, g, s'). Inr (f, g, s'\<lparr>iter_num := iter_num s' + 1\<rparr>))"

definition earlyExit :: "optimizer \<Rightarrow> bool" where
  "earlyExit s \<longleftrightarrow> force_stop_type s = STOP_FOR_ERROR \<or> force_stop_type s = STOP_FOR_REBOUND"

end
