(* ===== verification/InitialPath.thy ===== *)
theory InitialPath
  imports PlannerManager BsplineTime OptimizerCost
begin

text \<open>
  The first step of \<open>reboundReplan\<close> (\<open>plan_manage/src/planner_manager.cpp\<close>): the points the optimiser
  starts from, either on a polynomial to the target or on what is left of the previous trajectory
  and a polynomial behind its end; and \<open>parameterizeToBspline\<close> of \<open>uniform_bspline.cpp\<close>, which fits
  control points to them.

  The generators of polynomials and the least-squares solver of Eigen are parameters, and so are
  the two random numbers.  \<open>ros::Time::now()\<close> is the parameter \<open>now\<close>.
\<close>

section \<open>Settings\<close>

text \<open>The rest of \<open>PlanParameters\<close>, which only the planning itself uses.\<close>

record path_parameters =
  ctrl_pt_dist :: real
  path_horizon :: real              \<comment> \<open>\<open>planning_horizen_\<close>\<close>
  use_distinctive_trajs :: bool

text \<open>The points, the time step, and the velocities and accelerations at both ends.\<close>

record initial_path =
  point_set :: "vec3 list"
  path_ts :: real
  start_end_derivatives :: "vec3 list"

section \<open>A polynomial to the target\<close>

definition poly_duration :: "real \<Rightarrow> real \<Rightarrow> real \<Rightarrow> cpp_error + real" where
  "poly_duration vmax amax len =
     bind_result (fdiv (vmax\<^sup>2) amax) (\<lambda>q.
       if q > len then bind_result (fdiv len amax) fsqrt
       else bind_result (fdiv (len - q) vmax) (\<lambda>a. Inr (a + 2 * vmax / amax)))"

text \<open>A way point beside the line, farther away after more failures; \<open>r1\<close> and \<open>r2\<close> are between zero and one.\<close>

definition random_point :: "vec3 \<Rightarrow> vec3 \<Rightarrow> real \<Rightarrow> real \<Rightarrow> int \<Rightarrow> vec3" where
  "random_point a b r1 r2 failures =
     (let horizen_dir = normalized (vcross (vsub a b) (Vec3 0 0 1));
          vertical_dir = normalized (vcross (vsub a b) horizen_dir);
          scale = - (978 / 1000) / (of_int failures + 989 / 1000) + 989 / 1000; len = vnorm (vsub a b)
      in vadd (vadd (vscale (1 / 2) (vadd a b)) (vscale ((r1 - 1 / 2) * len * (8 / 10) * scale) horizen_dir))
           (vscale ((r2 - 1 / 2) * len * (4 / 10) * scale) vertical_dir))"

text \<open>The samples at the given times; \<open>None\<close> when two of them are too far from each other.\<close>

fun sample_poly :: "poly_traj \<Rightarrow> real \<Rightarrow> vec3 \<Rightarrow> real list \<Rightarrow> cpp_error + vec3 list option" where
  "sample_poly p far last_pt [] = Inr (Some [])"
| "sample_poly p far last_pt (t # ts) =
     bind_result (evaluate t p) (\<lambda>pt.
       if vnorm (vsub last_pt pt) > far then Inr None
       else bind_result (sample_poly p far pt ts) (\<lambda>r. Inr (map_option ((#) pt) r)))"

text \<open>The times of \<open>for (t = a; t < b; t += s)\<close>.\<close>

definition step_times :: "real \<Rightarrow> real \<Rightarrow> real \<Rightarrow> cpp_error + real list" where
  "step_times a b s = (if b \<le> a then Inr [] else if s \<le> 0 then Inl Hangs else Inr (loop_times a b s))"

text \<open>
  The loop over the time step, which is divided by 1.5 until the samples are close and at least
  seven.  The result holds the points, the step, and the time of the last sample; the fuel bounds
  the rounds.
\<close>

fun refine_step :: "nat \<Rightarrow> poly_traj \<Rightarrow> real \<Rightarrow> real \<Rightarrow> real \<Rightarrow> cpp_error + vec3 list \<times> real \<times> real" where
  "refine_step 0 p far time ts = Inl Hangs"
| "refine_step (Suc n) p far time ts =
     bind_result (evaluate 0 p) (\<lambda>first.
     bind_result (step_times 0 time ts) (\<lambda>ts_list.
     bind_result (sample_poly p far first ts_list) (\<lambda>r. case r of
       Some pts \<Rightarrow> if length pts < 7 then refine_step n p far time (ts / (3 / 2))
                   else Inr (pts, ts, (real (length ts_list) - 1) * ts)
     | None \<Rightarrow> refine_step n p far time (ts / (3 / 2)))))"

definition poly_path ::
    "nat \<Rightarrow> solver \<Rightarrow> manager \<Rightarrow> path_parameters \<Rightarrow> real \<times> real \<Rightarrow> bool \<Rightarrow> vec3 \<Rightarrow> vec3 \<Rightarrow> vec3 \<Rightarrow> vec3 \<Rightarrow> vec3 \<Rightarrow> real \<Rightarrow>
     cpp_error + initial_path" where
  "poly_path fuel k m prm rnd random p0 v0 a0 p1 v1 ts =
     bind_result (poly_duration (max_vel (pp m)) (max_acc (pp m)) (vnorm (vsub p0 p1))) (\<lambda>time.
     let traj = (if random
                 then minSnapTraj k [p0, random_point p0 p1 (fst rnd) (snd rnd) (continous_failures_count m), p1]
                        v0 v1 a0 vzero [time / 2, time / 2]
                 else one_segment k p0 v0 a0 p1 v1 vzero time)
     in bind_result (refine_step fuel traj (ctrl_pt_dist prm * (3 / 2)) time ts) (\<lambda>(pts, ts', t).
        bind_result (evaluateVel 0 traj) (\<lambda>dv.
        bind_result (evaluateAcc 0 traj) (\<lambda>da.
        bind_result (evaluateAcc t traj) (\<lambda>db.
          Inr \<lparr>point_set = pts, path_ts = ts', start_end_derivatives = [dv, v1, da, db]\<rparr>)))))"

section \<open>The previous trajectory\<close>

text \<open>Points with the length of the way to each; appending one reads the last of the others.\<close>

definition add_place :: "vec3 \<Rightarrow> vec3 list \<times> real list \<Rightarrow> cpp_error + vec3 list \<times> real list" where
  "add_place p st =
     (case st of (pts, arc) \<Rightarrow>
        if pts = [] \<or> arc = [] then Inl OutOfBounds
        else Inr (pts @ [p], arc @ [vnorm (vsub p (last pts)) + last arc]))"

definition old_places :: "local_traj \<Rightarrow> real list \<Rightarrow> cpp_error + vec3 list \<times> real list" where
  "old_places l ts =
     (case ts of [] \<Rightarrow> Inr ([], [0])
      | t # ts' \<Rightarrow>
          bind_result (evaluateDeBoorT t (position_traj l)) (\<lambda>p.
            fold_result (\<lambda>t st. bind_result (evaluateDeBoorT t (position_traj l)) (\<lambda>p. add_place p st)) ts' ([p], [0])))"

text \<open>
  The length list starts with a zero, so the error branch for an empty one is never taken.
  Places at equal distances along the way: \<open>i\<close> is the number of the segment, \<open>len\<close> the length so far.
  The condition of the loop subtracts two from an unsigned size.
\<close>

fun resample :: "nat \<Rightarrow> vec3 list \<Rightarrow> real list \<Rightarrow> real \<Rightarrow> nat \<Rightarrow> real \<Rightarrow> cpp_error + vec3 list" where
  "resample 0 pts arc d i len = Inl Hangs"
| "resample (Suc n) pts arc d i len =
     (if (length arc < 2 \<or> i \<le> length arc - 2) \<and> len \<le> last arc
      then bind_result (fetch arc i) (\<lambda>a.
           if len < a then resample n pts arc d (Suc i) len
           else bind_result (fetch arc (Suc i)) (\<lambda>b.
                if len < b
                then bind_result (fetch pts (Suc i)) (\<lambda>q.
                     bind_result (fetch pts i) (\<lambda>p.
                     bind_result (fdiv (len - a) (b - a)) (\<lambda>u.
                     bind_result (fdiv (b - len) (b - a)) (\<lambda>v.
                     bind_result (resample n pts arc d i (len + d)) (\<lambda>rest.
                       Inr (vadd (vscale u q) (vscale v p) # rest))))))
                else resample n pts arc d (Suc i) len))
      else Inr [])"

definition resample_fuel :: "real list \<Rightarrow> real \<Rightarrow> nat" where
  "resample_fuel arc d = length arc + nat \<lceil>last arc / d\<rceil> + 3"

fun enough_places :: "nat \<Rightarrow> vec3 list \<Rightarrow> real list \<Rightarrow> vec3 \<Rightarrow> real \<Rightarrow> cpp_error + vec3 list" where
  "enough_places 0 pts arc target d = Inl Hangs"
| "enough_places (Suc n) pts arc target d =
     bind_result (resample (resample_fuel arc d) pts arc d 0 0) (\<lambda>qs.
       if length (qs @ [target]) < 7 then enough_places n pts arc target (d / (3 / 2)) else Inr (qs @ [target]))"

definition old_path ::
    "nat \<Rightarrow> solver \<Rightarrow> manager \<Rightarrow> path_parameters \<Rightarrow> real \<Rightarrow> vec3 \<Rightarrow> vec3 \<Rightarrow> real \<Rightarrow> cpp_error + initial_path" where
  "old_path fuel k m prm now p1 v1 ts =
     (let l = local_data m; t_cur = now - start_time l
      in bind_result (step_times t_cur (duration l + 1 / 1000) ts) (\<lambda>ts_list.
         let t = t_cur + (real (length ts_list) - 1) * ts
         in bind_result (old_places l ts_list) (\<lambda>(pts, arc).
            bind_result (evaluateDeBoorT t (position_traj l)) (\<lambda>pe.
            bind_result (fdiv (vnorm (vsub pe p1)) (max_vel (pp m))) (\<lambda>q.
            bind_result
              (if q * 2 > ts
               then bind_result (evaluateDeBoorT t (velocity_traj l)) (\<lambda>ve.
                    bind_result (evaluateDeBoorT t (acceleration_traj l)) (\<lambda>ae.
                    bind_result (step_times ts (q * 2) ts) (\<lambda>more.
                    let traj = one_segment k pe ve ae p1 v1 vzero (q * 2)
                    in fold_result (\<lambda>t st. bind_result (evaluate t traj) (\<lambda>p. add_place p st)) more (pts, arc))))
               else Inr (pts, arc)) (\<lambda>(pts', arc').
            bind_result (enough_places fuel pts' arc' p1 (ctrl_pt_dist prm)) (\<lambda>qs.
            bind_result (evaluateDeBoorT t_cur (velocity_traj l)) (\<lambda>dv.
            bind_result (evaluateDeBoorT t_cur (acceleration_traj l)) (\<lambda>da.
              Inr \<lparr>point_set = qs, path_ts = ts, start_end_derivatives = [dv, v1, da, vzero]\<rparr>)))))))))"

section \<open>The choice\<close>

text \<open>
  A path along the previous trajectory that is far too long is thrown away for a polynomial.
  \<open>flag_force_polynomial\<close> is set for that round only, so it is no part of the state; \<open>first\<close> is
  \<open>flag_first_call\<close>, and the result says whether it is still set.
\<close>

definition first_step :: "manager \<Rightarrow> path_parameters \<Rightarrow> cpp_error + real" where
  "first_step m prm = bind_result (fdiv (ctrl_pt_dist prm) (max_vel (pp m))) (\<lambda>a. Inr (a * (3 / 2)))"

definition initial_points ::
    "nat \<Rightarrow> solver \<Rightarrow> manager \<Rightarrow> path_parameters \<Rightarrow> real \<times> real \<Rightarrow> real \<Rightarrow> bool \<Rightarrow> bool \<Rightarrow> bool \<Rightarrow>
     vec3 \<Rightarrow> vec3 \<Rightarrow> vec3 \<Rightarrow> vec3 \<Rightarrow> vec3 \<Rightarrow> cpp_error + initial_path \<times> bool" where
  "initial_points fuel k m prm rnd now first flag_polyInit flag_randomPolyTraj p0 v0 a0 p1 v1 =
     bind_result (first_step m prm) (\<lambda>ts.
     let poly = poly_path fuel k m prm rnd flag_randomPolyTraj p0 v0 a0 p1 v1 ts
     in if first \<or> flag_polyInit then bind_result poly (\<lambda>path. Inr (path, False))
        else bind_result (old_path fuel k m prm now p1 v1 ts) (\<lambda>path.
             bind_result (fdiv (path_horizon prm) (ctrl_pt_dist prm)) (\<lambda>q.
               if real (length (point_set path)) > q * 3 then bind_result poly (\<lambda>path. Inr (path, False))
               else Inr (path, first))))"

section \<open>Fitting control points\<close>

text \<open>The rows of the system: values at the knots, velocities and accelerations at both ends.\<close>

definition band_row :: "nat \<Rightarrow> nat \<Rightarrow> real \<Rightarrow> real \<times> real \<times> real \<Rightarrow> real list" where
  "band_row K i c r =
     map (\<lambda>j. if j = i then c * fst r else if j = i + 1 then c * fst (snd r) else if j = i + 2 then c * snd (snd r) else 0)
       [0..<K + 2]"

definition fit_matrix :: "real \<Rightarrow> nat \<Rightarrow> real list list" where
  "fit_matrix ts K =
     (let prow = (1, 4, 1); vrow = (- 1, 0, 1); arow = (1, - 2, 1)
      in map (\<lambda>i. band_row K i (1 / 6) prow) [0..<K] @
         [band_row K 0 (1 / 2 / ts) vrow, band_row K (K - 1) (1 / 2 / ts) vrow,
          band_row K 0 (1 / ts / ts) arow, band_row K (K - 1) (1 / ts / ts) arow])"

text \<open>\<open>lsq\<close> is Eigen's \<open>colPivHouseholderQr().solve\<close>.  On an error the control points stay as they are.\<close>

definition parameterizeToBspline ::
    "(real list list \<Rightarrow> real list \<Rightarrow> real list) \<Rightarrow> real \<Rightarrow> vec3 list \<Rightarrow> vec3 list \<Rightarrow> vec3 list \<Rightarrow> cpp_error + vec3 list" where
  "parameterizeToBspline lsq ts pts ders ctrl_pts =
     (if ts \<le> 0 \<or> length pts \<le> 3 then Inr ctrl_pts
      else if length ders < 4 then Inl OutOfBounds
      else let A = fit_matrix ts (length pts); b = pts @ take 4 ders;
               px = lsq A (map vx b); py = lsq A (map vy b); pz = lsq A (map vz b)
      in Inr (map (\<lambda>i. Vec3 (px ! i) (py ! i) (pz ! i)) [0..<length pts + 2]))"

section \<open>Enough points\<close>

lemma refine_step_ok:
  "refine_step n p far time ts = Inr (pts, ts', t) \<Longrightarrow> 0 < ts \<Longrightarrow> 7 \<le> length pts \<and> 0 < ts' \<and> ts' \<le> ts"
proof (induction n arbitrary: ts)
  case (Suc n)
  from Suc.prems(1) obtain ts_list :: "real list" and r where r: "(case r of
       Some pts \<Rightarrow> if length pts < 7 then refine_step n p far time (ts / (3 / 2))
                   else Inr (pts, ts, (real (length ts_list) - 1) * ts)
     | None \<Rightarrow> refine_step n p far time (ts / (3 / 2))) = Inr (pts, ts', t)"
    unfolding refine_step.simps bind_result_Inr by blast
  have "7 \<le> length pts \<and> ts' = ts \<or> refine_step n p far time (ts / (3 / 2)) = Inr (pts, ts', t)"
  proof (cases r)
    case None
    with r show ?thesis by simp
  next
    case (Some qs)
    with r show ?thesis by (cases "length qs < 7") auto
  qed
  then consider "7 \<le> length pts" "ts' = ts" | "refine_step n p far time (ts / (3 / 2)) = Inr (pts, ts', t)" by blast
  then show ?case
  proof cases
    case 1
    with Suc.prems show ?thesis by simp
  next
    case 2
    with Suc.IH [OF 2] Suc.prems show ?thesis by simp
  qed
qed simp

lemma enough_places_ok: "enough_places n pts arc target d = Inr qs \<Longrightarrow> 7 \<le> length qs"
  by (induction n arbitrary: d) (auto split: if_split_asm)

lemma initial_points_ok:
  assumes "initial_points fuel k m prm rnd now first poly random p0 v0 a0 p1 v1 = Inr (path, first')"
    and "0 < ctrl_pt_dist prm" "0 < max_vel (pp m)"
  shows "7 \<le> length (point_set path) \<and> 0 < path_ts path \<and> length (start_end_derivatives path) = 4"
proof -
  define ts where "ts = ctrl_pt_dist prm / max_vel (pp m) * (3 / 2)"
  have ts: "0 < ts" "first_step m prm = Inr ts" using assms(2,3) by (simp_all add: first_step_def ts_def)
  have poly: "7 \<le> length (point_set path) \<and> 0 < path_ts path \<and> length (start_end_derivatives path) = 4"
    if "poly_path fuel k m prm rnd random p0 v0 a0 p1 v1 ts = Inr path" for path
  proof -
    from that obtain n traj far time q where "refine_step n traj far time ts = Inr q"
      and "point_set path = fst q" "path_ts path = fst (snd q)" "length (start_end_derivatives path) = 4"
      by (auto simp: poly_path_def Let_def)
    with refine_step_ok [of n traj far time ts "fst q" "fst (snd q)" "snd (snd q)"] ts(1) show ?thesis by simp
  qed
  have old: "7 \<le> length (point_set path) \<and> 0 < path_ts path \<and> length (start_end_derivatives path) = 4"
    if "old_path fuel k m prm now p1 v1 ts = Inr path" for path
  proof -
    from that obtain n pts arc d qs where "enough_places n pts arc p1 d = Inr qs"
      and "point_set path = qs" "path_ts path = ts" "length (start_end_derivatives path) = 4"
      by (auto simp: old_path_def Let_def)
    with enough_places_ok [of n pts arc p1 d qs] ts(1) show ?thesis by simp
  qed
  from assms(1) ts(2) have "poly_path fuel k m prm rnd random p0 v0 a0 p1 v1 ts = Inr path \<or> old_path fuel k m prm now p1 v1 ts = Inr path"
    by (auto simp: initial_points_def Let_def split: if_split_asm)
  with poly old show ?thesis by blast
qed

lemma parameterize_length:
  assumes "parameterizeToBspline lsq ts pts ders ctrl_pts = Inr qs" "0 < ts" "3 < length pts"
  shows "length qs = length pts + 2"
  using assms by (auto simp: parameterizeToBspline_def Let_def split: if_split_asm)

section \<open>The fit\<close>

definition row_products :: "real list list \<Rightarrow> real list \<Rightarrow> real list" where
  "row_products A x = map (\<lambda>row. \<Sum>j<length x. row ! j * x ! j) A"

lemma band_row_dot:
  assumes "i < K" "length x = K + 2"
  shows "(\<Sum>j<length x. band_row K i c (a, b, d) ! j * x ! j) = c * (a * x ! i + b * x ! (i + 1) + d * x ! (i + 2))"
proof -
  have "(\<Sum>j<length x. band_row K i c (a, b, d) ! j * x ! j) =
      (\<Sum>j<length x. (if j = i then c * a * x ! i else 0) + (if j = i + 1 then c * b * x ! (i + 1) else 0)
        + (if j = i + 2 then c * d * x ! (i + 2) else 0))"
    using assms by (intro sum.cong refl) (auto simp: band_row_def simp del: upt_Suc)
  also have "\<dots> = c * a * x ! i + c * b * x ! (i + 1) + c * d * x ! (i + 2)"
    using assms by (simp add: sum.distrib)
  finally show ?thesis by (simp add: algebra_simps)
qed

text \<open>De Boor's recursion on uniform knots, at either end of an interval.\<close>

lemma deboor_one: "deboor_ref u c 3 1 j t = (1 - (t - u j) / (u (j + 3) - u j)) * c (j - 1) + (t - u j) / (u (j + 3) - u j) * c j"
  by (simp add: Let_def One_nat_def [symmetric] del: One_nat_def) (simp add: numeral_3_eq_3 Let_def)

lemma deboor_more:
  "deboor_ref u c 3 2 j t = (1 - (t - u j) / (u (j + 2) - u j)) * deboor_ref u c 3 1 (j - 1) t + (t - u j) / (u (j + 2) - u j) * deboor_ref u c 3 1 j t"
  "deboor_ref u c 3 3 j t = (1 - (t - u j) / (u (j + 1) - u j)) * deboor_ref u c 3 2 (j - 1) t + (t - u j) / (u (j + 1) - u j) * deboor_ref u c 3 2 j t"
  using deboor_ref.simps(2) [of u c 3 1 j t] deboor_ref.simps(2) [of u c 3 2 j t]
  by (simp_all add: Let_def numeral_2_eq_2 numeral_3_eq_3 del: deboor_ref.simps)

lemma deboor_left:
  assumes u: "\<And>j. j \<le> m + 6 \<Longrightarrow> u j = (real j - 3) * h" and h: "0 < h"
  shows "deboor_ref u c 3 3 (m + 3) (real m * h) = (c m + 4 * c (m + 1) + c (m + 2)) / 6"
proof -
  let ?t = "real m * h"
  have u: "u (m + 1) = (real m - 2) * h" "u (m + 2) = (real m - 1) * h" "u (m + 3) = real m * h" "u (m + 4) = (real m + 1) * h"
    "u (m + 5) = (real m + 2) * h" "u (m + 6) = (real m + 3) * h"
    using u [of "m + 1"] u [of "m + 2"] u [of "m + 3"] u [of "m + 4"] u [of "m + 5"] u [of "m + 6"] by (simp_all add: algebra_simps)
  have idx: "m + 1 + 3 = m + 4" "m + 2 + 3 = m + 5" "m + 2 + 2 = m + 4" "m + 3 + 1 = m + 4" "m + 3 + 2 = m + 5" "m + 3 + 3 = m + 6"
    by simp_all
  have al: "(?t - u (m + 1)) / (u (m + 1 + 3) - u (m + 1)) = 2 / 3" "(?t - u (m + 2)) / (u (m + 2 + 3) - u (m + 2)) = 1 / 3"
    "(?t - u (m + 2)) / (u (m + 2 + 2) - u (m + 2)) = 1 / 2" "(?t - u (m + 3)) / (u (m + 3 + 1) - u (m + 3)) = 0"
    unfolding idx u using h by (simp_all add: field_simps)
  have "deboor_ref u c 3 1 (m + 1) ?t = (c m + 2 * c (m + 1)) / 3" unfolding deboor_one al by simp
  moreover have "deboor_ref u c 3 1 (m + 2) ?t = (2 * c (m + 1) + c (m + 2)) / 3" unfolding deboor_one al by simp
  ultimately have "deboor_ref u c 3 2 (m + 2) ?t = (c m + 4 * c (m + 1) + c (m + 2)) / 6"
    unfolding deboor_more(1) [of u c "m + 2"] al by (simp add: field_simps del: deboor_ref.simps)
  then show ?thesis unfolding deboor_more(2) [of u c "m + 3"] al by (simp del: deboor_ref.simps)
qed

lemma deboor_right:
  assumes u: "\<And>j. j \<le> m + 6 \<Longrightarrow> u j = (real j - 3) * h" and h: "0 < h"
  shows "deboor_ref u c 3 3 (m + 3) ((real m + 1) * h) = (c (m + 1) + 4 * c (m + 2) + c (m + 3)) / 6"
proof -
  let ?t = "(real m + 1) * h"
  have u: "u (m + 1) = (real m - 2) * h" "u (m + 2) = (real m - 1) * h" "u (m + 3) = real m * h" "u (m + 4) = (real m + 1) * h"
    "u (m + 5) = (real m + 2) * h" "u (m + 6) = (real m + 3) * h"
    using u [of "m + 1"] u [of "m + 2"] u [of "m + 3"] u [of "m + 4"] u [of "m + 5"] u [of "m + 6"] by (simp_all add: algebra_simps)
  have idx: "m + 1 + 3 = m + 4" "m + 2 + 3 = m + 5" "m + 2 + 2 = m + 4" "m + 3 + 1 = m + 4" "m + 3 + 2 = m + 5" "m + 3 + 3 = m + 6"
    by simp_all
  have al: "(?t - u (m + 2)) / (u (m + 2 + 3) - u (m + 2)) = 2 / 3" "(?t - u (m + 3)) / (u (m + 3 + 3) - u (m + 3)) = 1 / 3"
    "(?t - u (m + 3)) / (u (m + 3 + 2) - u (m + 3)) = 1 / 2" "(?t - u (m + 3)) / (u (m + 3 + 1) - u (m + 3)) = 1"
    unfolding idx u using h by (simp_all add: field_simps)
  have "deboor_ref u c 3 1 (m + 2) ?t = (c (m + 1) + 2 * c (m + 2)) / 3" unfolding deboor_one al by simp
  moreover have "deboor_ref u c 3 1 (m + 3) ?t = (2 * c (m + 2) + c (m + 3)) / 3"
    unfolding deboor_one al by simp
  ultimately have "deboor_ref u c 3 2 (m + 3) ?t = (c (m + 1) + 4 * c (m + 2) + c (m + 3)) / 6"
    unfolding deboor_more(1) [of u c "m + 3"] al by (simp add: field_simps del: deboor_ref.simps)
  then show ?thesis unfolding deboor_more(2) [of u c "m + 3"] al by (simp del: deboor_ref.simps)
qed

lemma uniform_value:
  assumes h: "0 < h" and i: "i + 3 < length q + 1"
  shows "3 < length q \<Longrightarrow> evaluateDeBoorT (real i * h) (UniformBspline q 3 h) =
    Inr (vscale (1 / 6) (vadd (vadd (q ! i) (vscale 4 (q ! (i + 1)))) (q ! (i + 2))))"
proof -
  assume q: "3 < length q"
  let ?s = "UniformBspline q 3 h"
  have wk: "well_knotted ?s" by (rule uniform_well_knotted [OF h q])
  have sel: "degree ?s = 3" "control_points ?s = q" "last_knot ?s - 3 = length q" "length (knots ?s) = length q + 4"
    using q by (simp_all add: UniformBspline_def Let_def)
  have u: "knots ?s ! j = (real j - 3) * h" if "j < length q + 4" for j
    using that uniform_knot_eq [of 3 h j] by (simp add: UniformBspline_def Let_def del: upt_Suc)
  have lo: "knots ?s ! 3 = 0" and hi: "knots ?s ! length q = (real (length q) - 3) * h" using u by simp_all
  have "real i * h \<le> (real (length q) - 3) * h" using i h by (intro mult_right_mono) simp_all
  then have ub: "min (max 0 (real i * h)) ((real (length q) - 3) * h) = real i * h" using h by simp
  from span_of [OF wk, of "real i * h"] obtain k where
    k: "find_span (knots ?s) (real i * h) 3 = Inr k" "at_span ?s k (real i * h)" by (auto simp: sel lo hi ub)
  have "fetch (knots ?s) 3 = Inr 0" using sel(4) lo by (simp add: fetch_Inr)
  then have ev: "evaluateDeBoorT (real i * h) ?s = Inr (ref_point ?s 3 k (real i * h))"
    using evaluateDeBoor_span [OF wk, of "real i * h" k "real i * h"] k by (simp add: evaluateDeBoorT_def sel lo hi ub)
  from k(2) have b: "3 \<le> k" "k < length q" and "(real k - 3) * h \<le> real i * h" "real i * h \<le> (real (Suc k) - 3) * h"
    using u [of k] u [of "Suc k"] by (simp_all add: at_span_def sel)
  then have "real k - 3 \<le> real i" "real i \<le> real (Suc k) - 3" using h by (simp_all add: mult_le_cancel_right)
  then consider "k = i + 3" | m where "i = m + 1" "k = m + 3" using b by (cases i) force+
  then have "ref_point ?s 3 k (real i * h) = Vec3 ((vx (q ! i) + 4 * vx (q ! (i + 1)) + vx (q ! (i + 2))) / 6)
      ((vy (q ! i) + 4 * vy (q ! (i + 1)) + vy (q ! (i + 2))) / 6) ((vz (q ! i) + 4 * vz (q ! (i + 1)) + vz (q ! (i + 2))) / 6)"
  proof cases
    case 1
    have "knots ?s ! j = (real j - 3) * h" if "j \<le> i + 6" for j using that u b 1 by simp
    from deboor_left [of i "nth (knots ?s)" h, OF this h] show ?thesis unfolding ref_point_def sel 1 by simp
  next
    case 2
    have R: "deboor_ref (nth (knots ?s)) c 3 3 (m + 3) ((real m + 1) * h) = (c (m + 1) + 4 * c (m + 2) + c (m + 3)) / 6" for c
      by (rule deboor_right [OF _ h]) (use u b 2 in simp)
    have "ref_point ?s 3 (m + 3) ((real m + 1) * h) =
        Vec3 ((vx (q ! (m + 1)) + 4 * vx (q ! (m + 2)) + vx (q ! (m + 3))) / 6)
          ((vy (q ! (m + 1)) + 4 * vy (q ! (m + 2)) + vy (q ! (m + 3))) / 6)
          ((vz (q ! (m + 1)) + 4 * vz (q ! (m + 2)) + vz (q ! (m + 3))) / 6)"
      unfolding ref_point_def sel R by (rule refl)
    moreover have "real m + 1 = real i" "m + 1 = i" "m + 2 = i + 1" "m + 3 = i + 2" using 2(1) by simp_all
    ultimately show ?thesis unfolding 2(2) by metis
  qed
  with ev show ?thesis by (simp add: vadd_def vscale_def)
qed

text \<open>
  C26: The fitted spline runs through the points.  When the solver of Eigen leaves no residual, the
  B-spline of the control points that \<open>parameterizeToBspline\<close> finds passes the given points, one after
  the other, at the multiples of the time step.
\<close>

theorem fit_interpolates:
  assumes "parameterizeToBspline lsq ts pts ders [] = Inr q" "0 < ts" "3 < length pts"
    "\<forall>f \<in> {vx, vy, vz}. let b = map f (pts @ take 4 ders); x = lsq (fit_matrix ts (length pts)) b
       in length x = length pts + 2 \<and> row_products (fit_matrix ts (length pts)) x = b"
    "i < length pts"
  shows "evaluateDeBoorT (real i * ts) (UniformBspline q 3 ts) = Inr (pts ! i)"
proof -
  let ?K = "length pts" and ?A = "fit_matrix ts (length pts)"
  define x where "x f = lsq ?A (map f (pts @ take 4 ders))" for f :: "vec3 \<Rightarrow> real"
  from assms(1-3) have q: "q = map (\<lambda>i. Vec3 (x vx ! i) (x vy ! i) (x vz ! i)) [0..<?K + 2]"
    by (auto simp: parameterizeToBspline_def Let_def x_def split: if_split_asm)
  have row: "(x f ! i + 4 * x f ! (i + 1) + x f ! (i + 2)) / 6 = f (pts ! i)" if "f \<in> {vx, vy, vz}" for f
  proof -
    from assms(4) that have len: "length (x f) = ?K + 2" and sys: "row_products ?A (x f) = map f (pts @ take 4 ders)"
      by (auto simp: Let_def x_def)
    have "?A ! i = band_row ?K i (1 / 6) (1, 4, 1)" "i < length ?A" using assms(5) by (simp_all add: fit_matrix_def nth_append Let_def)
    then have "row_products ?A (x f) ! i = 1 / 6 * (1 * x f ! i + 4 * x f ! (i + 1) + 1 * x f ! (i + 2))"
      unfolding row_products_def using band_row_dot [OF assms(5) len] by simp
    then show ?thesis using assms(5) by (simp add: sys nth_append)
  qed
  have len: "length q = ?K + 2" by (simp add: q)
  have "q ! j = Vec3 (x vx ! j) (x vy ! j) (x vz ! j)" if "j < ?K + 2" for j using that by (simp add: q del: upt_Suc)
  with uniform_value [of ts i q] assms(2,3,5) len row [of vx] row [of vy] row [of vz] show ?thesis
    by (cases "pts ! i") (simp add: vadd_def vscale_def)
qed

end
