(* ===== verification/OptimizerRun.thy ===== *)
theory OptimizerRun
  imports OptimizerCost
begin

text \<open>
  The runs of the trajectory optimiser (\<open>bspline_optimizer.cpp\<close>): \<open>rebound_optimize\<close> minimises the cost,
  looks whether the trajectory is free, and starts again with a higher weight or new base points if it
  is not; \<open>refine_optimize\<close> fits a trajectory to reference points after its time was stretched; and
  \<open>distinctiveTrajs\<close> lists the starting points that pass the obstacles on either side.
\<close>

section \<open>The check of a trajectory\<close>

text \<open>
  The times that are looked at: two thirds of the trajectory, in steps of about one voxel.  A step is
  infinite when both ends are the same, and the loop then ends after the first time.
\<close>

definition check_times :: "real \<Rightarrow> real \<Rightarrow> real \<Rightarrow> real \<Rightarrow> cpp_error + real list" where
  "check_times tm tmp len res =
     (if tm \<ge> tmp * 2 / 3 then Inr []
      else if len = 0 then Inr [tm]
      else let t_step = (tmp - tm) / (len / res)
      in if res = 0 \<or> t_step \<le> 0 then Inl Hangs else Inr (loop_times tm (tmp * 2 / 3) t_step))"

fun first_hit :: "optimizer_env \<Rightarrow> bspline \<Rightarrow> real list \<Rightarrow> cpp_error + real option" where
  "first_hit e traj [] = Inr None"
| "first_hit e traj (t # ts) =
     bind_result (evaluateDeBoorT t traj) (\<lambda>p. bind_result (occupied e p) (\<lambda>occ.
       if occ then Inr (Some t) else first_hit e traj ts))"

definition trajectory_times :: "optimizer_env \<Rightarrow> bspline \<Rightarrow> cpp_error + real list" where
  "trajectory_times e traj =
     bind_result (getTimeSpan traj) (\<lambda>span. case span of None \<Rightarrow> Inl Uninitialised
     | Some (tm, tmp) \<Rightarrow>
         bind_result (evaluateDeBoorT tmp traj) (\<lambda>b.
         bind_result (evaluateDeBoorT tm traj) (\<lambda>a.
           check_times tm tmp (vnorm (vsub b a)) (resolution (env_mp e)))))"

definition trajectory_hit :: "optimizer_env \<Rightarrow> optimizer \<Rightarrow> cpp_error + real option" where
  "trajectory_hit e s =
     (let traj = UniformBspline (points (cps s)) 3 (bspline_interval s)
      in bind_result (trajectory_times e traj) (first_hit e traj))"

section \<open>Rebounding\<close>

definition INIT_min_ellip_dist :: real where
  "INIT_min_ellip_dist = 1234567890123456789 / 10 ^ 10"

definition swarm_too_close :: "optimizer \<Rightarrow> bool" where
  "swarm_too_close s \<longleftrightarrow> min_ellip_dist s \<noteq> INIT_min_ellip_dist \<and> min_ellip_dist s > opt_clearance s"

definition rebound_params :: lbfgs_parameter where
  "rebound_params = lbfgs_load_default_parameters\<lparr>mem_size := 16, max_iterations := 200, g_epsilon := 1 / 100\<rparr>"

definition finished :: "lbfgs_code \<Rightarrow> bool" where
  "finished r \<longleftrightarrow> r = LBFGS_CONVERGENCE \<or> r = LBFGSERR_MAXIMUMITERATION \<or> r = LBFGS_ALREADY_MINIMIZED \<or> r = LBFGS_STOP"

text \<open>
  How one round of the loop ends: with \<open>return false\<close>, with success, with a restart after a collision
  or because another drone is near, with a rebound because the minimiser was cancelled, or with
  another error of the minimiser.
\<close>

datatype round_end = ReturnFalse | Success | Collided | SwarmClose | Cancelled | SolverError

definition restart :: "optimizer_env \<Rightarrow> optimizer \<Rightarrow> cpp_error + optimizer" where
  "restart e s =
     bind_result (initControlPoints e (points (cps s)) False s) (\<lambda>(_, s1).
       Inr (s1\<lparr>new_lambda2 := new_lambda2 s1 * 2\<rparr>))"

definition rebound_round :: "optimizer_env \<Rightarrow> real \<Rightarrow> optimizer \<Rightarrow> cpp_error + round_end \<times> real \<times> optimizer" where
  "rebound_round e fc s =
     (let s0 = s\<lparr>min_ellip_dist := INIT_min_ellip_dist, iter_num := 0\<rparr>; n = 3 * (cp_size (cps s) - order s)
      in if n < 0 then Inl LengthError
         else bind_result (load_vars (order s) (nat n) (points (cps s))) (\<lambda>q.
              bind_result (lbfgs_optimize 200 (costFunctionRebound e) None earlyExit rebound_params q fc s0)
                (\<lambda>(result, _, fc', s1).
                  if finished result then
                    (if swarm_too_close s1 then bind_result (restart e s1) (\<lambda>s2. Inr (SwarmClose, fc', s2))
                     else bind_result (trajectory_hit e s1) (\<lambda>hit. case hit of
                            None \<Rightarrow> Inr (Success, fc', s1)
                          | Some t \<Rightarrow>
                              if t \<le> bspline_interval s1 then Inr (ReturnFalse, fc', s1)
                              else bind_result (restart e s1) (\<lambda>s2. Inr (Collided, fc', s2))))
                  else if result = LBFGSERR_CANCELED then Inr (Cancelled, fc', s1)
                  else Inr (SolverError, fc', s1))))"

definition again :: "round_end \<Rightarrow> nat \<Rightarrow> nat \<Rightarrow> optimizer \<Rightarrow> bool" where
  "again r restart_nums rebound_times s \<longleftrightarrow>
     (r = Collided \<or> swarm_too_close s) \<and> restart_nums < 3 \<or>
     r = Cancelled \<and> force_stop_type s = STOP_FOR_REBOUND \<and> rebound_times \<le> 20"

text \<open>The loop; the fuel bounds its rounds.\<close>

fun rebound_loop ::
    "nat \<Rightarrow> optimizer_env \<Rightarrow> nat \<Rightarrow> nat \<Rightarrow> real \<Rightarrow> optimizer \<Rightarrow> cpp_error + bool \<times> real \<times> optimizer" where
  "rebound_loop 0 e restart_nums rebound_times fc s = Inl Hangs"
| "rebound_loop (Suc n) e restart_nums rebound_times fc s =
     bind_result (rebound_round e fc s) (\<lambda>(r, fc', s').
       let restarts = (if r = Collided \<or> r = SwarmClose then restart_nums + 1 else restart_nums);
           rebounds = (if r = Cancelled then rebound_times + 1 else rebound_times)
       in if r = ReturnFalse then Inr (False, fc', s')
          else if again r restarts rebounds s' then rebound_loop n e restarts rebounds fc' s'
          else Inr (r = Success, fc', s'))"

definition rebound_optimize ::
    "nat \<Rightarrow> optimizer_env \<Rightarrow> real \<Rightarrow> optimizer \<Rightarrow> cpp_error + bool \<times> real \<times> optimizer" where
  "rebound_optimize fuel e fc s = rebound_loop fuel e 0 0 fc (s\<lparr>iter_num := 0, new_lambda2 := lambda2 s\<rparr>)"

text \<open>The two forms of \<open>BsplineOptimizeTrajRebound\<close>; the second one starts from given control points.\<close>

definition BsplineOptimizeTrajRebound ::
    "nat \<Rightarrow> optimizer_env \<Rightarrow> real \<Rightarrow> real \<Rightarrow> optimizer \<Rightarrow> cpp_error + bool \<times> vec3 list \<times> optimizer" where
  "BsplineOptimizeTrajRebound fuel e fc ts s =
     bind_result (rebound_optimize fuel e fc (setBsplineInterval ts s)) (\<lambda>(ok, _, s1). Inr (ok, points (cps s1), s1))"

definition BsplineOptimizeTrajRebound_from ::
    "nat \<Rightarrow> optimizer_env \<Rightarrow> real \<Rightarrow> ctrl_points \<Rightarrow> real \<Rightarrow> optimizer \<Rightarrow> cpp_error + bool \<times> vec3 list \<times> real \<times> optimizer" where
  "BsplineOptimizeTrajRebound_from fuel e fc c ts s =
     bind_result (rebound_optimize fuel e fc ((setBsplineInterval ts s)\<lparr>cps := c\<rparr>)) (\<lambda>(ok, fc', s1).
       Inr (ok, points (cps s1), fc', s1))"

section \<open>Refining\<close>

definition refine_params :: lbfgs_parameter where
  "refine_params = lbfgs_load_default_parameters\<lparr>mem_size := 16, max_iterations := 200, g_epsilon := 1 / 1000\<rparr>"

text \<open>
  One round: the minimiser, whose code is only printed, and the check.  The loop goes on while the
  trajectory is not safe and \<open>iter_count <= 0\<close>, which never holds after the first round.
\<close>

definition refine_round ::
    "optimizer_env \<Rightarrow> real list \<Rightarrow> real \<Rightarrow> optimizer \<Rightarrow> cpp_error + bool \<times> real list \<times> real \<times> optimizer" where
  "refine_round e q fc s =
     bind_result (lbfgs_optimize 200 costFunctionRefine None (\<lambda>_. False) refine_params q fc s) (\<lambda>(_, q', fc', s1).
     bind_result (trajectory_hit e s1) (\<lambda>hit. Inr (hit = None, q', fc', s1)))"

fun refine_loop ::
    "nat \<Rightarrow> optimizer_env \<Rightarrow> bool \<Rightarrow> int \<Rightarrow> real list \<Rightarrow> real \<Rightarrow> optimizer \<Rightarrow> cpp_error + bool \<times> optimizer" where
  "refine_loop 0 e flag_safe iter_count q fc s = Inl Hangs"
| "refine_loop (Suc n) e flag_safe iter_count q fc s =
     bind_result (refine_round e q fc s) (\<lambda>(ok, q', fc', s1).
       let safe = (flag_safe \<and> ok); s2 = (if safe then s1 else s1\<lparr>lambda4 := lambda4 s1 * 2\<rparr>)
       in if \<not> safe \<and> iter_count + 1 \<le> 0 then refine_loop n e safe (iter_count + 1) q' fc' s2 else Inr (safe, s2))"

definition refine_optimize :: "optimizer_env \<Rightarrow> real \<Rightarrow> optimizer \<Rightarrow> cpp_error + bool \<times> optimizer" where
  "refine_optimize e fc s =
     (let n = 3 * (int (length (points (cps s))) - order s - order s)
      in if n < 0 then Inl LengthError
         else bind_result (load_vars (order s) (nat n) (points (cps s))) (\<lambda>q.
              bind_result (refine_loop 1 e True 0 q fc (s\<lparr>iter_num := 0\<rparr>)) (\<lambda>(safe, s1).
                Inr (safe, s1\<lparr>lambda4 := lambda4 s\<rparr>))))"

definition BsplineOptimizeTrajRefine ::
    "optimizer_env \<Rightarrow> real \<Rightarrow> vec3 list \<Rightarrow> real \<Rightarrow> optimizer \<Rightarrow> cpp_error + bool \<times> vec3 list \<times> optimizer" where
  "BsplineOptimizeTrajRefine e fc init_points ts s =
     bind_result (refine_optimize e fc (setBsplineInterval ts (setControlPoints init_points s))) (\<lambda>(ok, s1).
       Inr (ok, points (cps s1), s1))"

section \<open>Trajectories on either side of the obstacles\<close>

text \<open>
  \<open>segment\<close>: the part of the control points from \<open>a\<close> to \<open>b\<close>.  With a wrong index it only prints an error and
  leaves a buffer whose size was never set.
\<close>

definition segment :: "int \<Rightarrow> int \<Rightarrow> ctrl_points \<Rightarrow> cpp_error + ctrl_points" where
  "segment a b c =
     (if a < 0 \<or> b \<ge> cp_size c then Inl Uninitialised
      else if b - a + 1 < 0 then Inl LengthError
      else bind_result (map_result (fetch_at (points c)) [a..b]) (\<lambda>ps.
           bind_result (map_result (fetch_at (base_point c)) [a..b]) (\<lambda>bs.
           bind_result (map_result (fetch_at (direction c)) [a..b]) (\<lambda>ds.
             Inr \<lparr>clearance = clearance c, cp_size = b - a + 1, points = ps, base_point = bs, direction = ds,
                  flag_temp = replicate (nat (b - a + 1)) False\<rparr>))))"

text \<open>
  The first occupied place on the edges \<open>(j, k)\<close> of a list, in steps of a voxel divided by \<open>w\<close>: the index
  of the edge and the place.
\<close>

fun first_occupied_on ::
    "optimizer_env \<Rightarrow> vec3 \<Rightarrow> vec3 \<Rightarrow> real list \<Rightarrow> cpp_error + vec3 option" where
  "first_occupied_on e p q [] = Inr None"
| "first_occupied_on e p q (a # as) =
     (let pt = vadd (vscale a p) (vscale (1 - a) q)
      in bind_result (occupied e pt) (\<lambda>occ. if occ then Inr (Some pt) else first_occupied_on e p q as))"

fun scan_edges ::
    "optimizer_env \<Rightarrow> real \<Rightarrow> vec3 list \<Rightarrow> (int \<times> int) list \<Rightarrow> cpp_error + (int \<times> vec3) option" where
  "scan_edges e w pts [] = Inr None"
| "scan_edges e w pts ((j, k) # edges) =
     bind_result (fetch_at pts j) (\<lambda>p.
     bind_result (fetch_at pts k) (\<lambda>q.
     let len = vnorm (vsub p q)
     in bind_result (fractions (if len = 0 then Never else At (resolution (env_mp e) / len / w))) (\<lambda>as.
        bind_result (first_occupied_on e p q as) (\<lambda>r. case r of
          Some pt \<Rightarrow> Inr (Some (j, pt)) | None \<Rightarrow> scan_edges e w pts edges))))"

text \<open>The values of \<open>l\<close> in the search outward, and the first free place there.\<close>

definition outward :: "real \<Rightarrow> real \<Rightarrow> cpp_error + real list" where
  "outward res bound =
     (if res > bound then Inr [] else if res \<le> 0 then Inl Hangs else Inr (map (\<lambda>k. real (Suc k) * res) [0..<nat \<lfloor>bound / res\<rfloor>]))"

fun first_outside :: "optimizer_env \<Rightarrow> vec3 \<Rightarrow> vec3 \<Rightarrow> real list \<Rightarrow> cpp_error + vec3 option" where
  "first_outside e b d [] = Inr None"
| "first_outside e b d (l # ls) =
     (let pt = vadd b (vscale l d)
      in bind_result (occupied e pt) (\<lambda>occ. if occ then first_outside e b d ls else Inr (Some pt)))"

text \<open>
  The base point of \<open>p\<close> on the other side, \<open>None\<close> when the segment is to be dropped: \<open>b\<close> is the place from
  which the search starts along \<open>d\<close>.
\<close>

definition opposite_base :: "optimizer_env \<Rightarrow> real \<Rightarrow> vec3 \<Rightarrow> vec3 \<Rightarrow> vec3 \<Rightarrow> cpp_error + vec3 option" where
  "opposite_base e ctrl_pt_dist p b d =
     bind_result (occupied e b) (\<lambda>occ.
       if occ then bind_result (outward (resolution (env_mp e)) (5 * ctrl_pt_dist)) (first_outside e b d)
       else Inr (if vnorm (vsub b p) \<ge> resolution (env_mp e) then Some b else None))"

text \<open>Writing the first base point and direction of a control point.\<close>

definition set_first :: "int \<Rightarrow> vec3 \<Rightarrow> vec3 \<Rightarrow> ctrl_points \<Rightarrow> cpp_error + ctrl_points" where
  "set_first j b d c =
     bind_result (fetch_at (base_point c) j) (\<lambda>bs.
     bind_result (fetch_at (direction c) j) (\<lambda>ds.
     bind_result (store_at b bs 0) (\<lambda>bs'.
     bind_result (store_at d ds 0) (\<lambda>ds'.
     bind_result (store_at bs' (base_point c) j) (\<lambda>B.
     bind_result (store_at ds' (direction c) j) (\<lambda>D. Inr (c\<lparr>base_point := B, direction := D\<rparr>)))))))"

definition first_of :: "vec3 list list \<Rightarrow> int \<Rightarrow> cpp_error + vec3" where
  "first_of B j = bind_result (fetch_at B j) (\<lambda>bs. fetch_at bs 0)"

text \<open>What becomes of a segment: a second version of it, its removal, or the end of the function.\<close>

datatype side = Other ctrl_points | Dropped | Blank

definition reverse_base ::
    "optimizer_env \<Rightarrow> real \<Rightarrow> ctrl_points \<Rightarrow> int \<times> vec3 \<Rightarrow> int \<times> vec3 \<Rightarrow> int \<Rightarrow> side \<Rightarrow> cpp_error + side" where
  "reverse_base e ctrl_pt_dist c occ_start occ_end j st =
     (case st of Other c2 \<Rightarrow>
        bind_result (fetch_at (base_point c) j) (\<lambda>bs.
          if length bs \<noteq> 1 then Inr Blank
          else bind_result (first_of (direction c) j) (\<lambda>d0.
               bind_result (fetch_at (points c) j) (\<lambda>p.
               let d = vscale (- 1) d0;
                   b = (if j = fst occ_start then snd occ_start else if j = fst occ_end then snd occ_end
                        else vadd p (vscale (vnorm (vsub (bs ! 0) p)) d))
               in bind_result (opposite_base e ctrl_pt_dist p b d) (\<lambda>r. case r of
                    None \<Rightarrow> Inr Dropped
                  | Some b' \<Rightarrow> bind_result (set_first j b' d c2) (\<lambda>c2'. Inr (Other c2')))))) | _ \<Rightarrow> Inr st)"

definition copy_first :: "int \<Rightarrow> int \<Rightarrow> ctrl_points \<Rightarrow> cpp_error + ctrl_points" where
  "copy_first k j c =
     bind_result (first_of (base_point c) k) (\<lambda>b. bind_result (first_of (direction c) k) (\<lambda>d. set_first j b d c))"

definition other_side :: "optimizer_env \<Rightarrow> real \<Rightarrow> ctrl_points \<Rightarrow> cpp_error + side" where
  "other_side e ctrl_pt_dist c =
     (if cp_size c > 1 then
        bind_result (scan_edges e 2 (points c) (map (\<lambda>j. (j, j + 1)) [0..cp_size c - 2])) (\<lambda>r1.
        bind_result (scan_edges e 1 (points c) (map (\<lambda>j. (j, j - 1)) (rev [1..cp_size c - 1]))) (\<lambda>r2.
          case (r1, r2) of
            (Some occ_start, Some occ_end) \<Rightarrow>
              bind_result (fold_result (reverse_base e ctrl_pt_dist c occ_start occ_end) [fst occ_start..fst occ_end] (Other c))
                (\<lambda>st. case st of Other c2 \<Rightarrow>
                   bind_result (fold_result (copy_first (fst occ_start)) (rev [0..fst occ_start - 1]) c2) (\<lambda>c3.
                   bind_result (fold_result (copy_first (fst occ_end)) [fst occ_end + 1..cp_size c - 1] c3) (\<lambda>c4. Inr (Other c4)))
                 | _ \<Rightarrow> Inr st)
          | _ \<Rightarrow> Inr Dropped))
      else if cp_size c = 1 then
        bind_result (first_of (direction c) 0) (\<lambda>d0.
        bind_result (first_of (base_point c) 0) (\<lambda>b0.
        bind_result (fetch_at (points c) 0) (\<lambda>p.
        let d = vscale (- 1) d0
        in bind_result (opposite_base e ctrl_pt_dist p (vadd p (vscale (vnorm (vsub b0 p)) d)) d) (\<lambda>r. case r of
             None \<Rightarrow> Inr Dropped
           | Some b' \<Rightarrow> bind_result (set_first 0 b' d c) (\<lambda>c2. Inr (Other c2))))))
      else Inr Dropped)"

text \<open>All segments: the kept ones with both versions, or \<open>None\<close> for the end of the function.\<close>

fun both_sides ::
    "optimizer_env \<Rightarrow> real \<Rightarrow> ((int \<times> int) \<times> ctrl_points) list \<Rightarrow>
     cpp_error + ((int \<times> int) \<times> ctrl_points \<times> ctrl_points) list option" where
  "both_sides e ctrl_pt_dist [] = Inr (Some [])"
| "both_sides e ctrl_pt_dist ((seg, c) # rest) =
     bind_result (other_side e ctrl_pt_dist c) (\<lambda>r. case r of
       Blank \<Rightarrow> Inr None
     | Dropped \<Rightarrow> both_sides e ctrl_pt_dist rest
     | Other c2 \<Rightarrow> map_sum id (map_option ((#) (seg, c, c2))) (both_sides e ctrl_pt_dist rest))"

text \<open>
  The control points of one selection, from \<open>i\<close> on: those inside a segment come from its first or second
  version, whose next index is \<open>k\<close>.
\<close>

fun assemble ::
    "ctrl_points \<Rightarrow> nat \<Rightarrow> int \<Rightarrow> ((int \<times> int) \<times> ctrl_points) list \<Rightarrow> int \<Rightarrow>
     cpp_error + (vec3 \<times> vec3 list \<times> vec3 list) list" where
  "assemble c 0 i segs k = Inr []"
| "assemble c (Suc n) i segs k =
     (let column = (\<lambda>c j. bind_result (fetch_at (points c) j) (\<lambda>p. bind_result (fetch_at (base_point c) j) (\<lambda>b.
                           bind_result (fetch_at (direction c) j) (\<lambda>d. Inr (p, b, d)))))
      in case segs of
           ((a, b), from) # rest \<Rightarrow>
             if a \<le> i \<and> i \<le> b
             then bind_result (column from k) (\<lambda>x.
                  bind_result (if i = b then assemble c n (i + 1) rest 0 else assemble c n (i + 1) segs (k + 1)) (\<lambda>xs. Inr (x # xs)))
             else bind_result (column c i) (\<lambda>x. bind_result (assemble c n (i + 1) segs k) (\<lambda>xs. Inr (x # xs)))
         | [] \<Rightarrow> bind_result (column c i) (\<lambda>x. bind_result (assemble c n (i + 1) [] k) (\<lambda>xs. Inr (x # xs))))"

text \<open>The selection table counts in binary; its first digit changes fastest.\<close>

definition selected ::
    "nat \<Rightarrow> ((int \<times> int) \<times> ctrl_points \<times> ctrl_points) list \<Rightarrow> ((int \<times> int) \<times> ctrl_points) list" where
  "selected m kept = map (\<lambda>d. let (seg, c1, c2) = kept ! d in (seg, if odd (m div 2 ^ d) then c2 else c1)) [0..<length kept]"

definition sample ::
    "ctrl_points \<Rightarrow> ((int \<times> int) \<times> ctrl_points) list \<Rightarrow> cpp_error + ctrl_points" where
  "sample c segs =
     bind_result (resize (cp_size c) c) (\<lambda>c0.
     bind_result (assemble c (nat (cp_size c)) 0 segs 0) (\<lambda>xs.
       Inr (c0\<lparr>clearance := clearance c, points := map fst xs, base_point := map (fst \<circ> snd) xs,
               direction := map (snd \<circ> snd) xs\<rparr>)))"

text \<open>\<open>MAX_TRAJS\<close> is eight, so three segments are looked at.\<close>

definition distinctiveTrajs ::
    "optimizer_env \<Rightarrow> (int \<times> int) list \<Rightarrow> optimizer \<Rightarrow> cpp_error + ctrl_points list" where
  "distinctiveTrajs e segments s =
     (let c = cps s
      in if segments = [] then Inr [c]
         else bind_result (fetch_at (points c) 0) (\<lambda>first.
              bind_result (fetch_at (points c) (cp_size c - 1)) (\<lambda>last.
              bind_result (fdiv (vnorm (vsub first last)) (of_int (cp_size c - 1))) (\<lambda>ctrl_pt_dist.
              bind_result (map_result (\<lambda>seg. bind_result (segment (fst seg) (snd seg) c) (\<lambda>b. Inr (seg, b)))
                             (take 3 segments)) (\<lambda>bufs.
              bind_result (both_sides e ctrl_pt_dist bufs) (\<lambda>r. case r of
                None \<Rightarrow> Inr []
              | Some [] \<Rightarrow> Inr [c]
              | Some kept \<Rightarrow> map_result (\<lambda>m. sample c (selected m kept)) [0..<2 ^ length kept]))))))"

end
