(* ===== verification/LbfgsProps.thy ===== *)
theory LbfgsProps
  imports Lbfgs
begin

text \<open>
  The minimiser always proceeds downhill.  Its two loops apply a positive definite matrix to the
  gradient, because the curvature condition of the line search makes every stored pair positive; so
  every direction is one of descent, every accepted step lowers the cost, and no line search is
  refused.  Whatever the cost function does, the number of its evaluations is bounded.
\<close>

section \<open>Vectors\<close>

lemma vec_lengths [simp]:
  "length (vecncpy x) = length x" "length (vecadd y x c) = min (length y) (length x)"
  "length (vecdiff x y) = min (length x) (length y)" "length (vecscale y c) = length y"
  by (simp_all add: vecncpy_def vecadd_def vecdiff_def vecscale_def)

lemma vecdot_Cons [simp]: "vecdot [] [] = 0" "vecdot (a # x) (b # y) = a * b + vecdot x y"
  by (simp_all add: vecdot_def)

lemma vecdot_commute: "length x = length y \<Longrightarrow> vecdot x y = vecdot y x"
  by (induction x y rule: list_induct2) simp_all

lemma vecdot_vecadd:
  "length y = length x \<Longrightarrow> length x = length z \<Longrightarrow> vecdot (vecadd y x c) z = vecdot y z + c * vecdot x z"
  by (induction y x z rule: list_induct3) (simp_all add: vecadd_def algebra_simps)

lemma vecdot_vecadd2:
  "length y = length x \<Longrightarrow> length x = length z \<Longrightarrow> vecdot z (vecadd y x c) = vecdot z y + c * vecdot z x"
  using vecdot_vecadd [of y x z c] by (simp add: vecdot_commute)

lemma vecdot_vecdiff:
  "length x = length y \<Longrightarrow> length y = length z \<Longrightarrow> vecdot (vecdiff x y) z = vecdot x z - vecdot y z"
  by (induction x y z rule: list_induct3) (simp_all add: vecdiff_def algebra_simps)

lemma vecdot_vecscale: "length x = length z \<Longrightarrow> vecdot x (vecscale z c) = c * vecdot x z"
  by (induction x z rule: list_induct2) (simp_all add: vecscale_def algebra_simps)

lemma vecdot_vecncpy: "length x = length z \<Longrightarrow> vecdot (vecncpy x) z = - vecdot x z"
  by (induction x z rule: list_induct2) (simp_all add: vecncpy_def)

lemma vecdot_self: "0 \<le> vecdot x x"
  by (induction x) simp_all

lemma vecdot_self_zero: "vecdot x x = 0 \<longleftrightarrow> list_all (\<lambda>a. a = 0) x"
proof (induction x)
  case Nil
  then show ?case by simp
next
  case (Cons a x)
  then show ?case using vecdot_self [of x] by (auto simp: add_nonneg_eq_0_iff)
qed

lemma vecdot_zero: "vecdot x x = 0 \<Longrightarrow> length x = length z \<Longrightarrow> vecdot x z = 0"
  unfolding vecdot_self_zero by (induction x z rule: list_induct2') simp_all

lemma vecadd_step: "length xp = length d \<Longrightarrow> vecdiff (vecadd xp d c) xp = vecscale d c"
  by (induction xp d rule: list_induct2) (simp_all add: vecadd_def vecdiff_def vecscale_def)

lemma vecadd_zero: "length xp = length d \<Longrightarrow> vecadd xp d 0 = xp"
  by (induction xp d rule: list_induct2) (simp_all add: vecadd_def)

lemma norm_large: "\<not> vec2norm g / max 1 (vec2norm x) \<le> e \<Longrightarrow> 0 \<le> e \<Longrightarrow> 0 < vecdot g g"
proof -
  assume *: "\<not> vec2norm g / max 1 (vec2norm x) \<le> e" "0 \<le> e"
  then have "0 < vec2norm g / max 1 (vec2norm x)" by linarith
  then have "0 < vec2norm g" by (simp add: zero_less_divide_iff max_def split: if_splits)
  then show "0 < vecdot g g" by (simp add: vec2norm_def)
qed

section \<open>The direction\<close>

definition good_pair :: "nat \<Rightarrow> iteration_data \<Rightarrow> bool" where
  "good_pair n it \<longleftrightarrow> length (it_s it) = n \<and> length (it_y it) = n \<and> it_ys it = vecdot (it_y it) (it_s it) \<and> 0 < it_ys it"

lemma two_loops_descent:
  assumes "0 < scale" "list_all (good_pair n) its" "length d = n"
  shows "\<exists>r. two_loops scale its d = Inr r \<and> length r = n \<and> 0 \<le> vecdot d r \<and> (0 < vecdot d d \<longrightarrow> 0 < vecdot d r)"
  using assms(2,3)
proof (induction its arbitrary: d)
  case Nil
  then show ?case using assms(1) vecdot_self [of d] by (simp add: vecdot_vecscale)
next
  case (Cons it its)
  let ?s = "it_s it" and ?y = "it_y it"
  from Cons.prems have g: "good_pair n it" and its: "list_all (good_pair n) its" by simp_all
  then have len: "length ?s = n" "length ?y = n" and ys: "it_ys it = vecdot ?y ?s" "0 < it_ys it"
    by (simp_all add: good_pair_def)
  define alpha where "alpha = vecdot ?s d / it_ys it"
  let ?d = "vecadd d ?y (- alpha)"
  have ld: "length ?d = n" using len Cons.prems by simp
  from Cons.IH [OF its ld] obtain r where
    r: "two_loops scale its ?d = Inr r" "length r = n" "0 \<le> vecdot ?d r" "0 < vecdot ?d ?d \<longrightarrow> 0 < vecdot ?d r" by blast
  define beta where "beta = vecdot ?y r / it_ys it"
  have sd: "vecdot d ?s = alpha * it_ys it" using ys(2) Cons.prems(2) len vecdot_commute [of d ?s] by (simp add: alpha_def)
  have yr: "vecdot ?y r = beta * it_ys it" using ys(2) by (simp add: beta_def)
  have dr: "vecdot d r = vecdot ?d r + alpha * vecdot ?y r"
    using Cons.prems(2) len r(2) by (simp add: vecdot_vecadd)
  have eq: "vecdot d (vecadd r ?s (alpha - beta)) = vecdot ?d r + alpha * alpha * it_ys it"
    using Cons.prems(2) len r(2) by (simp add: vecdot_vecadd2 sd dr yr algebra_simps)
  have res: "two_loops scale (it # its) d = Inr (vecadd r ?s (alpha - beta))"
    using ys(2) r(1) by (simp add: alpha_def beta_def)
  have pos: "0 < vecdot d (vecadd r ?s (alpha - beta))" if "0 < vecdot d d"
  proof (cases "alpha = 0")
    case True
    then have "?d = d" using len Cons.prems(2) by (simp add: vecadd_zero)
    with that r(4) True show ?thesis unfolding eq by simp
  next
    case False
    then have "0 < alpha * alpha * it_ys it" using ys(2) by (auto simp: zero_less_mult_iff neq_iff)
    with r(3) show ?thesis unfolding eq by simp
  qed
  have "0 \<le> vecdot d (vecadd r ?s (alpha - beta))" using r(3) ys(2) unfolding eq by simp
  with pos show ?case using res r(2) len by auto
qed

text \<open>What the ring buffer holds before iteration \<open>k\<close>: the last \<open>k - 1\<close> pairs, or all places.\<close>

definition memory_ok :: "nat \<Rightarrow> nat \<Rightarrow> lbfgs_memory \<Rightarrow> bool" where
  "memory_ok n k mem \<longleftrightarrow> lm mem \<noteq> [] \<and> 0 < k \<and> lm_end mem = (k - 1) mod length (lm mem) \<and>
     (\<forall>j < length (lm mem). j < k - 1 \<longrightarrow> good_pair n (lm mem ! j))"

lemma ring_places_filled:
  assumes "0 < m" "j \<in> set (ring_places m (k mod m) (min m k))"
  shows "j < m \<and> j < k"
proof (cases "m \<le> k")
  case True
  from assms(2) obtain i where "j = (k mod m + m * Suc i - Suc i) mod m" unfolding ring_places_def by auto
  then have "j < m" using assms(1) by simp
  with True show ?thesis by simp
next
  case False
  then have "k mod m = k" "min m k = k" by simp_all
  with assms(2) obtain i where i: "i < k" "j = (k + m * Suc i - Suc i) mod m" unfolding ring_places_def by auto
  then have "k + m * Suc i - Suc i = (k - Suc i) + m * Suc i" by simp
  with i(2) have "j = ((k - Suc i) + m * Suc i) mod m" by simp
  then have "j = (k - Suc i) mod m" by (simp only: mod_mult_self2)
  with False i show ?thesis by simp
qed

lemma next_direction_ok:
  assumes mem: "memory_ok n k mem" and len: "length xp = n" "length d = n" "length g = n" "length gp = n"
    and wolfe: "0 < stp" "vecdot gp d < vecdot g d" and g: "0 < vecdot g g"
  shows "\<exists>d' mem'. next_direction k (vecadd xp d stp) xp g gp mem = Inr (d', mem') \<and> length d' = n \<and>
    vecdot g d' < 0 \<and> memory_ok n (Suc k) mem'"
proof -
  let ?m = "length (lm mem)" and ?s = "vecdiff (vecadd xp d stp) xp" and ?y = "vecdiff g gp"
  let ?it = "\<lparr>it_s = ?s, it_y = ?y, it_ys = vecdot ?y ?s\<rparr>"
  let ?lm = "(lm mem)[lm_end mem := ?it]"
  from mem have m: "0 < ?m" "0 < k" "lm_end mem = (k - 1) mod ?m"
    and old: "\<forall>j < ?m. j < k - 1 \<longrightarrow> good_pair n (lm mem ! j)" by (auto simp: memory_ok_def)
  have s: "?s = vecscale d stp" using len by (simp add: vecadd_step)
  have ys: "0 < vecdot ?y ?s" using len wolfe by (simp add: s vecdot_vecscale vecdot_vecdiff)
  then have new: "good_pair n ?it" using len by (simp add: good_pair_def)
  have yy: "0 < vecdot ?y ?y"
  proof (rule ccontr)
    assume "\<not> ?thesis"
    then have "vecdot ?y ?y = 0" using vecdot_self [of ?y] by linarith
    with vecdot_zero [of ?y ?s] len ys show False by simp
  qed
  have e: "Suc (lm_end mem) mod ?m = k mod ?m" using mod_Suc_eq [of "k - 1" ?m] m by simp
  have filled: "good_pair n (?lm ! j)" if "j < ?m" "j < k" for j
  proof (cases "j = lm_end mem")
    case True
    with that new show ?thesis by simp
  next
    case False
    have "j < k - 1"
    proof (rule ccontr)
      assume "\<not> j < k - 1"
      then have "j = k - 1" using that by simp
      then show False using False that m(3) by simp
    qed
    with old that False show ?thesis by simp
  qed
  let ?its = "map ((!) ?lm) (ring_places ?m (k mod ?m) (min ?m k))"
  have its: "list_all (good_pair n) ?its"
  proof -
    have "good_pair n (?lm ! j)" if "j \<in> set (ring_places ?m (k mod ?m) (min ?m k))" for j
      using ring_places_filled [OF m(1) that] filled by blast
    then show ?thesis by (simp add: list_all_iff)
  qed
  from two_loops_descent [OF divide_pos_pos [OF ys yy] its, of "vecncpy g"] obtain r where
    r: "two_loops (vecdot ?y ?s / vecdot ?y ?y) ?its (vecncpy g) = Inr r" "length r = n"
      "0 < vecdot (vecncpy g) (vecncpy g) \<longrightarrow> 0 < vecdot (vecncpy g) r" using len by auto
  have "vecdot (vecncpy g) (vecncpy g) = vecdot g g"
    using vecdot_commute [of g "vecncpy g"] by (simp add: vecdot_vecncpy)
  with r g len have down: "vecdot g r < 0" by (simp add: vecdot_vecncpy)
  have "memory_ok n (Suc k) (mem\<lparr>lm := ?lm, lm_end := k mod ?m\<rparr>)"
    using m filled by (auto simp: memory_ok_def)
  with r down yy show ?thesis by (simp add: next_direction_def Let_def e)
qed

section \<open>The line search\<close>

lemma shrink_stx: "stx (shrink t ft dt u) = stx u \<or> stx (shrink t ft dt u) = t"
  by (simp add: shrink_def)

lemma update_trial_interval_stx:
  "update_trial_interval u t ft dt tmin tmax = Inr (info, v, t') \<Longrightarrow> stx v = stx u \<or> stx v = t"
  using shrink_stx [of t ft dt u]
  by (cases "trial_value u t ft dt tmin tmax") (auto simp: update_trial_interval_def Let_def split: if_splits)

lemma modified_update_stx:
  "modified_update k u t f dg a b = Inr (info, v, t') \<Longrightarrow> stx v = stx u \<or> stx v = t"
  by (auto simp: modified_update_def dest!: update_trial_interval_stx)

lemma line_update_stx:
  assumes "line_update p finit dginit l stp f dg = Inr l'" "0 \<le> stx (line_interval l)" "0 \<le> stp"
  shows "0 \<le> stx (line_interval l')"
proof -
  from assms(1) obtain info v t stage where l': "l' = next_step info v t stage l"
    and v: "stx v = stx (line_interval l) \<or> stx v = stp"
    by (cases "step_range l") (auto simp: line_update_def Let_def split: if_splits
          dest!: update_trial_interval_stx modified_update_stx)
  have "line_interval l' = v" unfolding l' by (simp add: next_step_def Let_def)
  with v assms(2,3) show ?thesis by auto
qed

lemma clipped_step_nonneg: "0 \<le> stx (line_interval l) \<Longrightarrow> 0 \<le> stpmin \<Longrightarrow> stpmin \<le> stpmax \<Longrightarrow> 0 \<le> clipped_step p stpmin stpmax l"
  by (auto simp: clipped_step_def Let_def split: prod.splits)

text \<open>What an accepted step promises, and which codes a refused one has.\<close>

definition failed_search :: "lbfgs_code \<Rightarrow> bool" where
  "failed_search e \<longleftrightarrow> e \<in> {LBFGSERR_CANCELED, LBFGSERR_ROUNDING_ERROR, LBFGSERR_MAXIMUMSTEP, LBFGSERR_MINIMUMSTEP,
     LBFGSERR_WIDTHTOOSMALL, LBFGSERR_MAXIMUMLINESEARCH}"

lemma line_verdict_cases:
  "line_verdict p stpmin stpmax finit dginit l stp f dg = Some r \<Longrightarrow>
   (case r of Inl e \<Rightarrow> failed_search e
    | Inr c \<Rightarrow> f \<le> finit + stp * (f_dec_coeff p * dginit) \<and> \<bar>dg\<bar> \<le> s_curv_coeff p * (- dginit))"
  by (auto simp: line_verdict_def Let_def failed_search_def split: if_splits prod.splits)

text \<open>
  The cost function of a client: \<open>f\<close> and its gradient \<open>g\<close> (or any list of the right length) whenever it
  returns, in every state that satisfies \<open>P\<close>.
\<close>

definition pure_cost ::
    "nat \<Rightarrow> ('s \<Rightarrow> bool) \<Rightarrow> (real list \<Rightarrow> real) \<Rightarrow> (real list \<Rightarrow> real list) \<Rightarrow>
     (real list \<Rightarrow> 's \<Rightarrow> cpp_error + real \<times> real list \<times> 's) \<Rightarrow> bool" where
  "pure_cost n P f g evaluate \<longleftrightarrow>
     (\<forall>x s r. length x = n \<longrightarrow> P s \<longrightarrow> evaluate x s = Inr r \<longrightarrow> length (g x) = n \<and> (\<exists>s'. r = (f x, g x, s') \<and> P s'))"

lemma line_loop_wolfe:
  assumes pure: "pure_cost n P f g evaluate" and len: "length xp = n" "length d = n"
    and step: "0 \<le> stpmin" "stpmin \<le> stpmax" and co: "0 \<le> f_dec_coeff p" "s_curv_coeff p < 1"
    and down: "vecdot (g xp) d < 0"
  shows "line_loop k evaluate progress p stpmin stpmax d xp (f xp) (vecdot (g xp) d) l (x, fx, gx, s) = Inr (r, stp, x', f', g', s') \<Longrightarrow>
    0 \<le> stx (line_interval l) \<Longrightarrow> P s \<Longrightarrow> length x = n \<Longrightarrow>
    P s' \<and> length x' = n \<and>
    (case r of Inl e \<Rightarrow> failed_search e
     | Inr c \<Rightarrow> 0 < stp \<and> x' = vecadd xp d stp \<and> f' = f x' \<and> g' = g x' \<and> length g' = n \<and> f x' \<le> f xp \<and>
                vecdot (g xp) d < vecdot g' d)"
proof (induction k arbitrary: l x fx gx s)
  case 0
  then show ?case by simp
next
  case (Suc k)
  let ?dg = "vecdot (g xp) d"
  show ?case
  proof (cases "progress s")
    case True
    with Suc.prems show ?thesis by (auto simp: failed_search_def)
  next
    case False
    let ?stp = "clipped_step p stpmin stpmax l"
    let ?x = "vecadd xp d ?stp"
    have stp0: "0 \<le> ?stp" using clipped_step_nonneg [OF Suc.prems(2) step] .
    from Suc.prems(1) False obtain f1 g1 s1 where ev: "evaluate ?x s = Inr (f1, g1, s1)"
      by (cases "evaluate ?x s") (auto simp: Let_def)
    have lx: "length ?x = n" using len by simp
    from pure [unfolded pure_cost_def, rule_format, OF lx Suc.prems(3) ev]
    have e: "f1 = f ?x" "g1 = g ?x" "P s1" "length g1 = n" by auto
    show ?thesis
    proof (cases "line_verdict p stpmin stpmax (f xp) ?dg l ?stp f1 (vecdot g1 d)")
      case (Some v)
      with Suc.prems(1) False ev have res: "r = v" "stp = ?stp" "x' = ?x" "f' = f1" "g' = g1" "s' = s1"
        by (auto simp: Let_def)
      have "case v of Inl e \<Rightarrow> failed_search e | Inr c \<Rightarrow> 0 < ?stp \<and> f1 \<le> f xp \<and> ?dg < vecdot g1 d"
      proof (cases v)
        case (Inl b)
        with line_verdict_cases [OF Some] show ?thesis by simp
      next
        case (Inr c)
        with line_verdict_cases [OF Some] have w: "f1 \<le> f xp + ?stp * (f_dec_coeff p * ?dg)" "\<bar>vecdot g1 d\<bar> \<le> s_curv_coeff p * (- ?dg)"
          by simp_all
        have "s_curv_coeff p * (- ?dg) < 1 * (- ?dg)" using co(2) down by (intro mult_strict_right_mono) simp_all
        with w(2) have up: "?dg < vecdot g1 d" by linarith
        have "?stp * (f_dec_coeff p * ?dg) \<le> 0" using stp0 co(1) down by (simp add: mult_nonneg_nonpos)
        with w(1) have "f1 \<le> f xp" by linarith
        moreover have "?stp \<noteq> 0" using up e(2) len by (auto simp: vecadd_zero)
        ultimately show ?thesis using up stp0 Inr by simp
      qed
      then show ?thesis using res e lx by (cases v) auto
    next
      case None
      with Suc.prems(1) False ev obtain l' where
        u: "line_update p (f xp) ?dg l ?stp f1 (vecdot g1 d) = Inr l'"
        and rest: "line_loop k evaluate progress p stpmin stpmax d xp (f xp) ?dg l' (?x, f1, g1, s1) = Inr (r, stp, x', f', g', s')"
        by (auto simp: Let_def)
      from Suc.IH [OF rest line_update_stx [OF u Suc.prems(2) stp0] e(3) lx] show ?thesis .
    qed
  qed
qed

lemma line_search_wolfe:
  assumes "pure_cost n P f g evaluate" "length x = n" "length d = n" "0 \<le> stpmin" "stpmin \<le> stpmax"
    "0 \<le> f_dec_coeff p" "s_curv_coeff p < 1" "vecdot (g x) d < 0" "0 < stp" "P s"
    and "line_search_morethuente evaluate progress p stpmin stpmax stp d x (f x) (g x) s = Inr (r, stp', x', f', g', s')"
  shows "P s' \<and> length x' = n \<and>
    (case r of Inl e \<Rightarrow> failed_search e
     | Inr c \<Rightarrow> 0 < stp' \<and> x' = vecadd x d stp' \<and> f' = f x' \<and> g' = g x' \<and> length g' = n \<and> f x' \<le> f x \<and>
                vecdot (g x) d < vecdot g' d)"
proof (rule line_loop_wolfe [OF assms(1-8)])
  show "P s" "length x = n" by fact+
  from assms(8,9,11) show "line_loop (max_linesearch p) evaluate progress p stpmin stpmax d x (f x) (vecdot (g x) d)
      \<lparr>line_interval = \<lparr>stx = 0, f_stx = f x, dg_stx = vecdot (g x) d, sty = 0, f_sty = f x, dg_sty = vecdot (g x) d, brackt = False\<rparr>,
       line_step = stp, stage1 = True, uinfo = None, line_width = stpmax - stpmin, prev_width = 2 * (stpmax - stpmin), line_count = 0\<rparr>
      (x, f x, g x, s) = Inr (r, stp', x', f', g', s')"
    by (simp add: line_search_morethuente_def Let_def)
qed simp

section \<open>The iterations\<close>

text \<open>The outcome of a run from a point with cost \<open>f0\<close>.\<close>

definition downhill ::
    "nat \<Rightarrow> ('s \<Rightarrow> bool) \<Rightarrow> (real list \<Rightarrow> real) \<Rightarrow> (real list \<Rightarrow> real list) \<Rightarrow> lbfgs_parameter \<Rightarrow> real \<Rightarrow>
     lbfgs_code \<times> real list \<times> real \<times> 's \<Rightarrow> bool" where
  "downhill n P f g p f0 = (\<lambda>(code, x, fx, s).
     length x = n \<and> P s \<and> f x \<le> f0 \<and>
     (failed_search code \<or> code \<in> {LBFGS_CONVERGENCE, LBFGS_ALREADY_MINIMIZED, LBFGS_STOP, LBFGSERR_MAXIMUMITERATION} \<and> fx = f x) \<and>
     (code = LBFGS_CONVERGENCE \<or> code = LBFGS_ALREADY_MINIMIZED \<longrightarrow> vec2norm (g x) \<le> g_epsilon p * max 1 (vec2norm x)))"

lemma norm_bound: "vec2norm g / max 1 (vec2norm x) \<le> e \<Longrightarrow> vec2norm g \<le> e * max 1 (vec2norm x)"
  by (simp add: pos_divide_le_eq)

lemma stopping_test_lm: "stopping_test p k fx mem = Inr (b, mem') \<Longrightarrow> lm mem' = lm mem \<and> lm_end mem' = lm_end mem"
  by (auto simp: stopping_test_def Let_def split: if_splits)

lemma lbfgs_loop_downhill:
  assumes pure: "pure_cost n P f g evaluate" and p: "0 \<le> min_step p" "min_step p \<le> max_step p" "0 \<le> f_dec_coeff p"
    "s_curv_coeff p < 1" "0 \<le> g_epsilon p"
  shows "lbfgs_loop fuel evaluate None progress p k x (g x) (f x) d step mem s = Inr res \<Longrightarrow>
    length x = n \<Longrightarrow> length d = n \<Longrightarrow> length (g x) = n \<Longrightarrow> vecdot (g x) d < 0 \<Longrightarrow> 0 < step \<Longrightarrow> memory_ok n k mem \<Longrightarrow> P s \<Longrightarrow>
    f x \<le> f0 \<Longrightarrow> downhill n P f g p f0 res"
proof (induction fuel arbitrary: k x d step mem s)
  case 0
  then show ?case by simp
next
  case (Suc fuel)
  from Suc.prems(1) obtain ls stp x' f' g' s' where
    l: "line_search_morethuente evaluate progress p (min_step p) (max_step p) step d x (f x) (g x) s = Inr (ls, stp, x', f', g', s')"
    by (cases "line_search_morethuente evaluate progress p (min_step p) (max_step p) step d x (f x) (g x) s") auto
  from line_search_wolfe [OF pure Suc.prems(2,3) p(1-4) Suc.prems(5,6,8) l]
  have s': "P s'" "length x' = n" and w: "case ls of Inl e \<Rightarrow> failed_search e
     | Inr c \<Rightarrow> 0 < stp \<and> x' = vecadd x d stp \<and> f' = f x' \<and> g' = g x' \<and> length g' = n \<and> f x' \<le> f x \<and>
                vecdot (g x) d < vecdot g' d" by simp_all
  show ?case
  proof (cases ls)
    case (Inl e)
    with Suc.prems l s' w show ?thesis by (auto simp: downhill_def failed_search_def)
  next
    case (Inr c)
    with w have w: "0 < stp" "x' = vecadd x d stp" "f' = f x'" "g' = g x'" "length g' = n" "f x' \<le> f x"
      "vecdot (g x) d < vecdot g' d" by auto
    have low: "f x' \<le> f0" using w(6) Suc.prems(9) by linarith
    show ?thesis
    proof (cases "vec2norm g' / max 1 (vec2norm x') \<le> g_epsilon p")
      case True
      with Suc.prems(1) l Inr have "res = (LBFGS_CONVERGENCE, x', f', s')" by simp
      with norm_bound [OF True] w s' low show ?thesis by (simp add: downhill_def)
    next
      case large: False
      with Suc.prems(1) l Inr obtain stop mem1 where t: "stopping_test p k f' mem = Inr (stop, mem1)"
        by (cases "stopping_test p k f' mem") auto
      show ?thesis
      proof (cases "stop \<or> max_iterations p \<noteq> 0 \<and> max_iterations p < k + 1")
        case True
        with Suc.prems(1) l Inr large t have "res = (LBFGS_STOP, x', f', s') \<or> res = (LBFGSERR_MAXIMUMITERATION, x', f', s')"
          by (auto split: if_splits)
        with w s' low show ?thesis by (auto simp: downhill_def)
      next
        case go: False
        have mem1: "memory_ok n k mem1" using Suc.prems(7) stopping_test_lm [OF t] by (simp add: memory_ok_def)
        from next_direction_ok [OF mem1 Suc.prems(2,3) w(5) Suc.prems(4) w(1,7) norm_large [OF large p(5)]] w(2)
        obtain d' mem' where d: "next_direction k x' x g' (g x) mem1 = Inr (d', mem')" "length d' = n" "vecdot g' d' < 0"
          "memory_ok n (Suc k) mem'" by auto
        have rest: "lbfgs_loop fuel evaluate None progress p (Suc k) x' (g x') (f x') d' 1 mem' s' = Inr res"
          using Suc.prems(1) l Inr large t go d(1) w(3,4) by auto
        show ?thesis using Suc.IH [OF rest s'(2) d(2) _ _ _ d(4) s'(1) low] w d by simp
      qed
    qed
  qed
qed

lemma invalid_parameters_None:
  "invalid_parameters n p = None \<Longrightarrow> 0 < n \<and> 0 < mem_size p \<and> 0 \<le> g_epsilon p \<and> 0 \<le> min_step p \<and> min_step p \<le> max_step p \<and>
     0 \<le> f_dec_coeff p \<and> s_curv_coeff p < 1 \<and> 0 < max_linesearch p"
  by (auto simp: invalid_parameters_def split: if_splits)

lemma lbfgs_optimize_downhill:
  assumes pure: "pure_cost n P f g evaluate" and valid: "invalid_parameters n p = None"
    and x: "length x = n" and s: "P s"
    and run: "lbfgs_optimize fuel evaluate None progress p x fc s = Inr res"
  shows "downhill n P f g p (f x) res"
proof -
  note p = invalid_parameters_None [OF valid]
  from run valid x obtain f1 g1 s1 where ev: "evaluate x s = Inr (f1, g1, s1)"
    by (cases "evaluate x s") (auto simp: lbfgs_optimize_def)
  from pure [unfolded pure_cost_def, rule_format, OF x s ev] have e: "f1 = f x" "g1 = g x" "P s1" "length (g x) = n" by auto
  show ?thesis
  proof (cases "vec2norm (g x) / max 1 (vec2norm x) \<le> g_epsilon p")
    case True
    with run valid x ev e have "res = (LBFGS_ALREADY_MINIMIZED, x, f x, s1)" by (simp add: lbfgs_optimize_def Let_def)
    with norm_bound [OF True] x e show ?thesis by (simp add: downhill_def)
  next
    case False
    let ?d = "vecncpy (g x)"
    have gg: "0 < vecdot (g x) (g x)" using norm_large [OF False] p by simp
    then have down: "vecdot (g x) ?d < 0" using vecdot_commute [of "g x" ?d] by (simp add: vecdot_vecncpy)
    have "vecdot ?d ?d = vecdot (g x) (g x)"
      using vecdot_commute [of "g x" ?d] by (simp add: vecdot_vecncpy)
    with gg have nd: "0 < vec2norm ?d" by (simp add: vec2norm_def)
    let ?z = "\<lparr>it_s = replicate (length x) 0, it_y = replicate (length x) 0, it_ys = 0\<rparr> :: iteration_data"
    let ?mem = "\<lparr>lm = replicate (mem_size p) ?z, lm_end = 0,
                 pf = (if past p = 0 then [] else (replicate (past p) 0)[0 := f x])\<rparr>"
    have "lbfgs_loop fuel evaluate None progress p 1 x (g x) (f x) ?d (1 / vec2norm ?d) ?mem s1 = Inr res"
      using run valid x ev e False nd by (simp add: lbfgs_optimize_def Let_def vec2norminv_def)
    moreover have "memory_ok n 1 ?mem" using p by (simp add: memory_ok_def)
    ultimately show ?thesis
      using lbfgs_loop_downhill [OF pure, of p fuel progress 1 x ?d "1 / vec2norm ?d" ?mem s1 res "f x"] p x e down nd by simp
  qed
qed

section \<open>The number of evaluations\<close>

text \<open>A cost function that counts its calls.\<close>

definition counted ::
    "(real list \<Rightarrow> 's \<Rightarrow> cpp_error + real \<times> real list \<times> 's) \<Rightarrow> real list \<Rightarrow> nat \<times> 's \<Rightarrow> cpp_error + real \<times> real list \<times> nat \<times> 's" where
  "counted evaluate x = (\<lambda>(k, s). bind_result (evaluate x s) (\<lambda>(f, g, s'). Inr (f, g, Suc k, s')))"

lemma counted_simps:
  "evaluate x s = Inl e \<Longrightarrow> counted evaluate x (k, s) = Inl e"
  "evaluate x s = Inr (f, g, s') \<Longrightarrow> counted evaluate x (k, s) = Inr (f, g, Suc k, s')"
  by (simp_all add: counted_def)

definition ends :: "cpp_error + 'a \<Rightarrow> ('a \<Rightarrow> bool) \<Rightarrow> bool" where
  "ends r P \<longleftrightarrow> r \<noteq> Inl Hangs \<and> (\<forall>a. r = Inr a \<longrightarrow> P a)"

lemma ends_simps [simp]: "ends (Inr a) P = P a" "ends (Inl e) P = (e \<noteq> Hangs)"
  by (auto simp: ends_def)

lemma ends_bind: "ends r (\<lambda>_. True) \<Longrightarrow> (\<And>a. r = Inr a \<Longrightarrow> ends (f a) P) \<Longrightarrow> ends (bind_result r f) P"
  by (cases r) (auto simp: ends_def)

lemma ends_arith: "ends (fdiv a b) (\<lambda>_. True)" "ends (fsqrt a) (\<lambda>_. True)"
  by (simp_all add: fdiv_def fsqrt_def)

lemma ends_let: "ends (f a) P \<Longrightarrow> ends (let x = a in f x) P"
  by simp

lemma ends_Inr: "ends (Inr a) (\<lambda>_. True)"
  by simp

lemma ends_minimizers:
  "ends (CUBIC_MINIMIZER u fu du v fv dv) (\<lambda>_. True)" "ends (CUBIC_MINIMIZER2 u fu du v fv dv a b) (\<lambda>_. True)"
  "ends (QUARD_MINIMIZER u fu du v fv) (\<lambda>_. True)" "ends (QUARD_MINIMIZER2 u du v dv) (\<lambda>_. True)"
  unfolding CUBIC_MINIMIZER_def CUBIC_MINIMIZER2_def QUARD_MINIMIZER_def QUARD_MINIMIZER2_def
  by (rule ends_let ends_Inr ends_bind [OF ends_arith(1)] ends_bind [OF ends_arith(2)])+

lemma ends_two: "ends r (\<lambda>_. True) \<Longrightarrow> ends q (\<lambda>_. True) \<Longrightarrow> ends (bind_result r (\<lambda>a. bind_result q (\<lambda>b. Inr (h a b)))) (\<lambda>_. True)"
  by (cases r; cases q) simp_all

lemma ends_one: "ends r (\<lambda>_. True) \<Longrightarrow> ends (bind_result r (\<lambda>a. Inr (h a))) (\<lambda>_. True)"
  by (cases r) simp_all

lemma ends_if: "ends a P \<Longrightarrow> ends b P \<Longrightarrow> ends (if c then a else b) P"
  by simp

lemma ends_trial_value: "ends (trial_value u t ft dt a b) (\<lambda>_. True)"
  unfolding trial_value_def Let_def
  by (rule ends_if, rule ends_two, rule ends_minimizers, rule ends_minimizers)
    (rule ends_if, rule ends_two, rule ends_minimizers, rule ends_minimizers,
     rule ends_if, rule ends_two, rule ends_minimizers, rule ends_minimizers,
     rule ends_if, rule ends_one, rule ends_minimizers, simp)

lemma ends_update: "ends (update_trial_interval u t ft dt a b) (\<lambda>_. True)"
  unfolding update_trial_interval_def by (simp add: ends_bind [OF ends_trial_value] Let_def split: prod.splits)

lemma ends_line_update: "ends (line_update p finit dginit l stp f dg) (\<lambda>l'. line_count l' = line_count l + 1)"
proof -
  have "ends (modified_update k u stp f dg a b) (\<lambda>_. True)" for k u a b
    unfolding modified_update_def by (intro ends_bind ends_update) (simp split: prod.splits)
  then show ?thesis
    unfolding line_update_def Let_def
    by (cases "step_range l") (auto intro!: ends_bind ends_update simp: next_step_def Let_def)
qed

lemma ends_two_loops: "ends (two_loops scale its d) (\<lambda>_. True)"
  by (induction its arbitrary: d) (auto intro!: ends_bind ends_arith)

lemma line_loop_evaluations:
  assumes ev: "\<forall>x s. evaluate x s \<noteq> Inl Hangs"
  shows "n + line_count l = max_linesearch p \<Longrightarrow> 0 < n \<Longrightarrow>
    ends (line_loop n (counted evaluate) progress p a b d xp finit dginit l (x, f, g, (k, s)))
      (\<lambda>(r, stp, x', f', g', (k', s')). k' \<le> k + n)"
proof (induction n arbitrary: l x f g k s)
  case 0
  then show ?case by simp
next
  case (Suc n)
  let ?stp = "clipped_step p a b l"
  let ?x = "vecadd xp d ?stp"
  show ?case
  proof (cases "progress (k, s)")
    case True
    then show ?thesis by simp
  next
    case False
    show ?thesis
    proof (cases "evaluate ?x s")
      case (Inl e)
      with ev False show ?thesis by (auto simp: counted_simps Let_def)
    next
      case (Inr q)
      obtain f1 g1 s1 where q: "q = (f1, g1, s1)" by (cases q)
      let ?v = "line_verdict p a b finit dginit l ?stp f1 (vecdot g1 d)"
      show ?thesis
      proof (cases ?v)
        case (Some r)
        with False Inr q show ?thesis by (simp add: counted_simps Let_def)
      next
        case None
        then have n: "0 < n" using Suc.prems(1)
          by (auto simp: line_verdict_def Let_def split: if_splits prod.splits)
        have "ends (bind_result (line_update p finit dginit l ?stp f1 (vecdot g1 d))
            (\<lambda>l'. line_loop n (counted evaluate) progress p a b d xp finit dginit l' (?x, f1, g1, (Suc k, s1))))
          (\<lambda>(r, stp, x', f', g', (k', s')). k' \<le> k + Suc n)"
        proof (rule ends_bind)
          show "ends (line_update p finit dginit l ?stp f1 (vecdot g1 d)) (\<lambda>_. True)"
            using ends_line_update by (auto simp: ends_def)
        next
          fix l' assume "line_update p finit dginit l ?stp f1 (vecdot g1 d) = Inr l'"
          then have "line_count l' = line_count l + 1"
            using ends_line_update [of p finit dginit l ?stp f1 "vecdot g1 d"] by simp
          then have "n + line_count l' = max_linesearch p" using Suc.prems(1) by simp
          from Suc.IH [OF this n, of ?x f1 g1 "Suc k" s1]
          show "ends (line_loop n (counted evaluate) progress p a b d xp finit dginit l' (?x, f1, g1, (Suc k, s1)))
              (\<lambda>(r, stp, x', f', g', (k', s')). k' \<le> k + Suc n)" by (auto simp: ends_def)
        qed
        with False Inr q None show ?thesis by (simp add: counted_simps Let_def)
      qed
    qed
  qed
qed

lemma line_search_evaluations:
  assumes "\<forall>x s. evaluate x s \<noteq> Inl Hangs" "0 < max_linesearch p"
  shows "ends (line_search_morethuente (counted evaluate) progress p a b stp d x f g (k, s))
    (\<lambda>(r, stp, x', f', g', (k', s')). k' \<le> k + max_linesearch p)"
  using line_loop_evaluations [OF assms(1)] assms(2) by (simp add: line_search_morethuente_def Let_def)

lemma lbfgs_loop_evaluations:
  assumes ev: "\<forall>x s. evaluate x s \<noteq> Inl Hangs" and ls: "0 < max_linesearch p" and it: "0 < max_iterations p"
  shows "max_iterations p < n + k \<Longrightarrow> 0 < n \<Longrightarrow>
    ends (lbfgs_loop n (counted evaluate) bnd progress p k x g fx d step mem (c, s))
      (\<lambda>(code, x', fx', (c', s')). c' \<le> c + (Suc (max_iterations p) - k) * max_linesearch p \<or> max_iterations p < k \<and> c' \<le> c + max_linesearch p)"
proof (induction n arbitrary: k x g fx d step mem c s)
  case 0
  then show ?case by simp
next
  case (Suc n)
  let ?m = "max_iterations p" and ?L = "max_linesearch p"
  let ?Q = "\<lambda>(code, x', fx', (c', s')). c' \<le> c + (Suc ?m - k) * ?L \<or> ?m < k \<and> c' \<le> c + ?L"
  have one: "c1 \<le> c + ?L \<Longrightarrow> c1 \<le> c + (Suc ?m - k) * ?L \<or> ?m < k \<and> c1 \<le> c + ?L" for c1
  proof (cases "k \<le> ?m")
    case True
    then have "1 * ?L \<le> (Suc ?m - k) * ?L" by (intro mult_le_mono1) simp
    then have "?L \<le> (Suc ?m - k) * ?L" by (simp only: mult_1)
    then show "c1 \<le> c + ?L \<Longrightarrow> ?thesis" by linarith
  qed simp
  show ?case
    unfolding lbfgs_loop.simps Let_def
  proof (rule ends_bind, goal_cases)
    case 1
    then show ?case using line_search_evaluations [OF ev ls] by (auto simp: ends_def)
  next
    case (2 r)
    obtain lsr stp x1 f1 g1 c1 s1 where r: "r = (lsr, stp, x1, f1, g1, (c1, s1))" by (cases r) auto
    have ends_Inr_iff: "q = Inr a \<Longrightarrow> ends q Q \<Longrightarrow> Q a" for q :: "cpp_error + 'z" and a Q by simp
    from ends_Inr_iff [OF 2 line_search_evaluations [OF ev ls]] have c1: "c1 \<le> c + ?L" by (simp add: r)
    show ?case
    proof (cases "lsr")
      case (Inl e)
      with r one [OF c1] show ?thesis by simp
    next
      case (Inr cnt)
      show ?thesis
      proof (cases "vec2norm g1 / max 1 (vec2norm x1) \<le> g_epsilon p")
        case True
        with r Inr one [OF c1] show ?thesis by simp
      next
        case False
        have st: "ends (stopping_test p k f1 mem) (\<lambda>_. True)"
          by (auto simp: stopping_test_def Let_def intro!: ends_bind ends_arith)
        have nd: "ends (next_direction k x1 x g1 g mem1) (\<lambda>_. True)" for mem1
          by (auto simp: next_direction_def Let_def intro!: ends_bind ends_arith ends_two_loops)
        have rest: "ends (lbfgs_loop n (counted evaluate) bnd progress p (Suc k) x1 g1 f1 d' 1 mem2 (c1, s1)) ?Q"
          if "\<not> ?m < Suc k" for d' mem2
        proof -
          have "?m < n + Suc k" "0 < n" using Suc.prems that by linarith+
          from Suc.IH [OF this] have "ends (lbfgs_loop n (counted evaluate) bnd progress p (Suc k) x1 g1 f1 d' 1 mem2 (c1, s1))
            (\<lambda>(code, x', fx', (c', s')). c' \<le> c1 + (Suc ?m - Suc k) * ?L \<or> ?m < Suc k \<and> c' \<le> c1 + ?L)" .
          moreover have "c1 + (Suc ?m - Suc k) * ?L \<le> c + (Suc ?m - k) * ?L"
          proof -
            have "Suc ?m - k = Suc (?m - k)" using that by simp
            with c1 show ?thesis by simp
          qed
          ultimately show ?thesis using that by (auto simp: ends_def)
        qed
        have fin: "?Q (code, x1, f1, (c1, s1))" for code using one [OF c1] by simp
        have "ends (bind_result (stopping_test p k f1 mem) (\<lambda>(stop, mem1).
                if stop then Inr (LBFGS_STOP, x1, f1, (c1, s1))
                else if ?m \<noteq> 0 \<and> ?m < k + 1 then Inr (LBFGSERR_MAXIMUMITERATION, x1, f1, (c1, s1))
                else bind_result (next_direction k x1 x g1 g mem1) (\<lambda>(d', mem2).
                  lbfgs_loop n (counted evaluate) bnd progress p (Suc k) x1 g1 f1 d' 1 mem2 (c1, s1)))) ?Q"
        proof (rule ends_bind [OF st])
          fix r2 assume "stopping_test p k f1 mem = Inr r2"
          obtain stop mem1 where r2: "r2 = (stop, mem1)" by (cases r2)
          have "ends (bind_result (next_direction k x1 x g1 g mem1) (\<lambda>(d', mem2).
                  lbfgs_loop n (counted evaluate) bnd progress p (Suc k) x1 g1 f1 d' 1 mem2 (c1, s1))) ?Q"
            if "\<not> ?m < Suc k"
            by (rule ends_bind [OF nd]) (simp add: rest [OF that] split: prod.splits)
          with fin it show "ends (case r2 of (stop, mem1) \<Rightarrow>
                if stop then Inr (LBFGS_STOP, x1, f1, (c1, s1))
                else if ?m \<noteq> 0 \<and> ?m < k + 1 then Inr (LBFGSERR_MAXIMUMITERATION, x1, f1, (c1, s1))
                else bind_result (next_direction k x1 x g1 g mem1) (\<lambda>(d', mem2).
                  lbfgs_loop n (counted evaluate) bnd progress p (Suc k) x1 g1 f1 d' 1 mem2 (c1, s1))) ?Q"
            by (simp add: r2 del: lbfgs_loop.simps)
        qed
        with r Inr False show ?thesis by (simp del: lbfgs_loop.simps)
      qed
    qed
  qed
qed

section \<open>The properties\<close>

text \<open>
  C8: The minimiser goes downhill.  For a cost function that depends on the point only (whatever
  its gradient, and whether or not it may fail) and parameters that pass the checks, a run that
  returns hands back a point whose cost is at most that of the first one.  Every direction is one
  of descent and every first step positive, so the codes for a wrong direction or step do not
  occur; on convergence the gradient at the point is small; and after every run but one that a
  failed line search ended the reported cost is the cost of the point.
\<close>

theorem lbfgs_descends:
  assumes "pure_cost (length x) P f g evaluate" "invalid_parameters (length x) p = None" "P s"
    "lbfgs_optimize fuel evaluate None progress p x fc s = Inr (code, x', fx, s')"
  shows "length x' = length x \<and> P s' \<and> f x' \<le> f x \<and>
    code \<noteq> LBFGSERR_INCREASEGRADIENT \<and> code \<noteq> LBFGSERR_INVALIDPARAMETERS \<and>
    (code = LBFGS_CONVERGENCE \<or> code = LBFGS_ALREADY_MINIMIZED \<longrightarrow> vec2norm (g x') \<le> g_epsilon p * max 1 (vec2norm x')) \<and>
    (failed_search code \<or> fx = f x')"
  using lbfgs_optimize_downhill [OF assms(1,2) refl assms(3,4)] by (auto simp: downhill_def failed_search_def)

text \<open>
  C17: The minimiser ends.  With a bound on the iterations, whatever the cost function does (it may
  change its state, fail, or return anything), the run returns after at most one evaluation and
  \<open>max_linesearch\<close> more for every iteration.
\<close>

theorem lbfgs_evaluations:
  assumes "0 < max_iterations p" "max_iterations p \<le> fuel" "\<forall>x s. evaluate x s \<noteq> Inl Hangs"
  shows "lbfgs_optimize fuel (counted evaluate) stepbound progress p x fc (0, s) \<noteq> Inl Hangs \<and>
    (\<forall>code x' fx n s'. lbfgs_optimize fuel (counted evaluate) stepbound progress p x fc (0, s) = Inr (code, x', fx, n, s') \<longrightarrow>
       n \<le> 1 + max_iterations p * max_linesearch p)"
proof -
  let ?Q = "\<lambda>(code, x', fx, n, s'). n \<le> 1 + max_iterations p * max_linesearch p"
  have "ends (lbfgs_optimize fuel (counted evaluate) stepbound progress p x fc (0, s)) ?Q"
  proof (cases "invalid_parameters (length x) p")
    case (Some e)
    then show ?thesis by (simp add: lbfgs_optimize_def)
  next
    case None
    show ?thesis
    proof (cases "evaluate x s")
      case (Inl e)
      with assms(3) have "e \<noteq> Hangs" by auto
      with Inl None show ?thesis by (simp add: lbfgs_optimize_def counted_simps)
    next
      case (Inr q)
      obtain f1 g1 s1 where q: "q = (f1, g1, s1)" by (cases q)
      have ls: "0 < max_linesearch p" using invalid_parameters_None [OF None] by simp
      have loop: "ends (lbfgs_loop fuel (counted evaluate) stepbound progress p 1 x g1 f1 d step mem (1, s1)) ?Q" for d step mem
      proof -
        have "max_iterations p < fuel + 1" "0 < fuel" using assms(1,2) by simp_all
        from lbfgs_loop_evaluations [OF assms(3) ls assms(1) this, of stepbound progress x g1 f1 d step mem 1 s1] assms(1)
        show ?thesis by (simp add: ends_def)
      qed
      show ?thesis
      proof (cases "vec2norm g1 / max 1 (vec2norm x) \<le> g_epsilon p")
        case True
        with None Inr q show ?thesis by (simp add: lbfgs_optimize_def counted_simps Let_def)
      next
        case False
        with None Inr q loop show ?thesis
          by (auto simp: lbfgs_optimize_def counted_simps Let_def vec2norminv_def intro!: ends_bind [OF ends_arith(1)])
      qed
    qed
  qed
  then show ?thesis by (auto simp: ends_def)
qed

end
