(* ===== verification/LbfgsState.thy ===== *)
theory LbfgsState
  imports LbfgsProps
begin

text \<open>
  The state that the client of the minimiser threads through its evaluations: the minimiser keeps
  whatever every evaluation keeps, and unless its line search failed the state it ends in is the one
  after the evaluation of the point it returns.
\<close>

section \<open>What an evaluation keeps\<close>

definition keeps :: "('s \<Rightarrow> bool) \<Rightarrow> (real list \<Rightarrow> 's \<Rightarrow> cpp_error + real \<times> real list \<times> 's) \<Rightarrow> bool" where
  "keeps P evaluate \<longleftrightarrow> (\<forall>x s f g s'. P s \<longrightarrow> evaluate x s = Inr (f, g, s') \<longrightarrow> P s')"

lemma keepsD: "keeps P evaluate \<Longrightarrow> P s \<Longrightarrow> evaluate x s = Inr (f, g, s') \<Longrightarrow> P s'"
  unfolding keeps_def by blast

lemma line_loop_keeps:
  assumes ev: "keeps P evaluate"
  shows "line_loop k evaluate progress p stpmin stpmax d xp finit dginit l (x, f, g, s) = Inr (r, stp, x', f', g', s') \<Longrightarrow> P s \<Longrightarrow> P s'"
proof (induction k arbitrary: l x f g s)
  case (Suc k)
  show ?case
  proof (cases "progress s")
    case True
    with Suc.prems show ?thesis by simp
  next
    case False
    with Suc.prems(1) obtain f1 g1 s1 where
      1: "evaluate (vecadd xp d (clipped_step p stpmin stpmax l)) s = Inr (f1, g1, s1)"
      and rest: "s' = s1 \<or> (\<exists>l'. line_loop k evaluate progress p stpmin stpmax d xp finit dginit l'
          (vecadd xp d (clipped_step p stpmin stpmax l), f1, g1, s1) = Inr (r, stp, x', f', g', s'))"
      by (auto simp: Let_def split: option.splits)
    from keepsD [OF ev Suc.prems(2) 1] rest Suc.IH show ?thesis by blast
  qed
qed simp

lemma lbfgs_loop_keeps:
  assumes ev: "keeps P evaluate"
  shows "lbfgs_loop n evaluate stepbound progress p k x g fx d step mem s = Inr (code, x', fx', s') \<Longrightarrow> P s \<Longrightarrow> P s'"
proof (induction n arbitrary: k x g fx d step mem s)
  case (Suc n)
  from Suc.prems(1) obtain r where 1: "line_search_morethuente evaluate progress p (min_step p)
        (case stepbound of None \<Rightarrow> max_step p | Some b \<Rightarrow> min (b x d s) (max_step p))
        (if stepbound \<noteq> None \<and> step \<ge> (case stepbound of None \<Rightarrow> max_step p | Some b \<Rightarrow> min (b x d s) (max_step p))
         then (case stepbound of None \<Rightarrow> max_step p | Some b \<Rightarrow> min (b x d s) (max_step p)) / 2 else step) d x fx g s = Inr r"
    and rest: "(case r of (ls, stp', x', fx', g', s') \<Rightarrow> case ls of
            Inl e \<Rightarrow> Inr (e, x, fx', s')
          | Inr _ \<Rightarrow>
              if vec2norm g' / max 1 (vec2norm x') \<le> g_epsilon p then Inr (LBFGS_CONVERGENCE, x', fx', s')
              else bind_result (stopping_test p k fx' mem) (\<lambda>(stop, mem1).
                if stop then Inr (LBFGS_STOP, x', fx', s')
                else if max_iterations p \<noteq> 0 \<and> max_iterations p < k + 1 then Inr (LBFGSERR_MAXIMUMITERATION, x', fx', s')
                else bind_result (next_direction k x' x g' g mem1) (\<lambda>(d', mem2).
                  lbfgs_loop n evaluate stepbound progress p (Suc k) x' g' fx' d' 1 mem2 s'))) = Inr (code, x', fx', s')"
    unfolding lbfgs_loop.simps Let_def bind_result_Inr by blast
  obtain ls stp' x1 fx1 g1 s1 where r: "r = (ls, stp', x1, fx1, g1, s1)" by (metis surj_pair)
  have goes_on: "s' = s1 \<or> (\<exists>d' mem2. lbfgs_loop n evaluate stepbound progress p (Suc k) x1 g1 fx1 d' 1 mem2 s1 = Inr (code, x', fx', s'))"
    using rest r by (cases ls) (auto split: if_splits)
  have "P s1" using 1 Suc.prems(2) line_loop_keeps [OF ev] unfolding r
    by (simp add: line_search_morethuente_def Let_def split: if_split_asm)
  with goes_on Suc.IH show ?case by blast
qed simp

lemma lbfgs_optimize_keeps:
  assumes ev: "keeps P evaluate"
    and run: "lbfgs_optimize n evaluate stepbound progress p x fc s = Inr (code, x', fx', s')" and P: "P s"
  shows "P s'"
proof (cases "invalid_parameters (length x) p")
  case None
  with run obtain fx g s1 where 1: "evaluate x s = Inr (fx, g, s1)" by (auto simp: lbfgs_optimize_def)
  with None run have rest: "s' = s1 \<or>
      (\<exists>d step mem. lbfgs_loop n evaluate stepbound progress p 1 x g fx d step mem s1 = Inr (code, x', fx', s'))"
    unfolding lbfgs_optimize_def by (simp add: Let_def split: if_split_asm) blast+
  from keepsD [OF ev P 1] rest lbfgs_loop_keeps [OF ev] show ?thesis by blast
qed (use run P in \<open>simp add: lbfgs_optimize_def\<close>)

section \<open>The last evaluation of a minimisation\<close>

lemma line_loop_last:
  assumes ev: "keeps P evaluate"
  shows "line_loop k evaluate progress p stpmin stpmax d xp finit dginit l (x, f, g, s) = Inr (Inr c, stp, x', f', g', s') \<Longrightarrow>
    P s \<Longrightarrow> \<exists>s0. P s0 \<and> evaluate x' s0 = Inr (f', g', s')"
proof (induction k arbitrary: l x f g s)
  case (Suc k)
  show ?case
  proof (cases "progress s")
    case True
    with Suc.prems show ?thesis by simp
  next
    case False
    let ?x = "vecadd xp d (clipped_step p stpmin stpmax l)"
    from False Suc.prems(1) obtain f1 g1 s1 where 1: "evaluate ?x s = Inr (f1, g1, s1)"
      and rest: "x' = ?x \<and> f' = f1 \<and> g' = g1 \<and> s' = s1 \<or>
        (\<exists>l'. line_loop k evaluate progress p stpmin stpmax d xp finit dginit l' (?x, f1, g1, s1) = Inr (Inr c, stp, x', f', g', s'))"
      by (auto simp: Let_def split: option.splits)
    from keepsD [OF ev Suc.prems(2) 1] rest Suc.IH Suc.prems(2) 1 show ?thesis by blast
  qed
qed simp

lemma line_search_last:
  assumes ev: "keeps P evaluate" and P: "P s"
    and run: "line_search_morethuente evaluate progress p stpmin stpmax stp d x f g s = Inr (Inr c, stp', x', f', g', s')"
  shows "\<exists>s0. P s0 \<and> evaluate x' s0 = Inr (f', g', s')"
  using run line_loop_last [OF ev _ P] by (auto simp: line_search_morethuente_def Let_def split: if_splits)

lemma line_search_failed:
  assumes "line_search_morethuente evaluate progress p stpmin stpmax stp d x f g s = Inr (Inl e, stp', x', f', g', s')"
  shows "failed_search e \<or> e = LBFGSERR_INVALIDPARAMETERS \<or> e = LBFGSERR_INCREASEGRADIENT"
proof -
  have "line_loop k evaluate progress p stpmin stpmax d xp finit dginit l (x, f, g, s) = Inr (Inl e, stp', x', f', g', s') \<Longrightarrow>
      failed_search e" for k xp finit dginit l x f g s
  proof (induction k arbitrary: l x f g s)
    case (Suc k)
    show ?case
    proof (cases "progress s")
      case True
      with Suc.prems show ?thesis by (simp add: failed_search_def)
    next
      case False
      with Suc.prems obtain f1 g1 s1 where "line_verdict p stpmin stpmax finit dginit l (clipped_step p stpmin stpmax l) f1 (vecdot g1 d) = Some (Inl e) \<or>
          (\<exists>l'. line_loop k evaluate progress p stpmin stpmax d xp finit dginit l'
            (vecadd xp d (clipped_step p stpmin stpmax l), f1, g1, s1) = Inr (Inl e, stp', x', f', g', s'))"
        by (fastforce simp: Let_def split: option.splits)
      with Suc.IH line_verdict_cases show ?thesis by fastforce
    qed
  qed simp
  with assms show ?thesis by (auto simp: line_search_morethuente_def Let_def split: if_splits)
qed

lemma lbfgs_loop_last:
  assumes ev: "keeps P evaluate"
  shows "lbfgs_loop n evaluate stepbound progress p k x g fx d step mem s = Inr (code, x', fx', s') \<Longrightarrow> P s \<Longrightarrow>
    \<not> failed_search code \<Longrightarrow> code \<noteq> LBFGSERR_INVALIDPARAMETERS \<Longrightarrow> code \<noteq> LBFGSERR_INCREASEGRADIENT \<Longrightarrow>
    \<exists>s0 g'. P s0 \<and> evaluate x' s0 = Inr (fx', g', s')"
proof (induction n arbitrary: k x g fx d step mem s)
  case (Suc n)
  from Suc.prems(1) obtain stpmin smax stp r where 1: "line_search_morethuente evaluate progress p stpmin smax stp d x fx g s = Inr r"
    and rest: "(case r of (ls, stp', x', fx', g', s') \<Rightarrow> case ls of
            Inl e \<Rightarrow> Inr (e, x, fx', s')
          | Inr _ \<Rightarrow>
              if vec2norm g' / max 1 (vec2norm x') \<le> g_epsilon p then Inr (LBFGS_CONVERGENCE, x', fx', s')
              else bind_result (stopping_test p k fx' mem) (\<lambda>(stop, mem1).
                if stop then Inr (LBFGS_STOP, x', fx', s')
                else if max_iterations p \<noteq> 0 \<and> max_iterations p < k + 1 then Inr (LBFGSERR_MAXIMUMITERATION, x', fx', s')
                else bind_result (next_direction k x' x g' g mem1) (\<lambda>(d', mem2).
                  lbfgs_loop n evaluate stepbound progress p (Suc k) x' g' fx' d' 1 mem2 s'))) = Inr (code, x', fx', s')"
    unfolding lbfgs_loop.simps Let_def bind_result_Inr by blast
  obtain ls stp' x1 fx1 g1 s1 where r: "r = (ls, stp', x1, fx1, g1, s1)" by (metis surj_pair)
  show ?case
  proof (cases ls)
    case (Inl e)
    with rest r line_search_failed [OF 1 [unfolded r Inl]] Suc.prems show ?thesis by auto
  next
    case (Inr c)
    from line_search_last [OF ev Suc.prems(2) 1 [unfolded r Inr]] obtain s0 where
      last: "P s0" "evaluate x1 s0 = Inr (fx1, g1, s1)" by blast
    have "x' = x1 \<and> fx' = fx1 \<and> s' = s1 \<or>
        (\<exists>d' mem2. lbfgs_loop n evaluate stepbound progress p (Suc k) x1 g1 fx1 d' 1 mem2 s1 = Inr (code, x', fx', s'))"
      using rest r Inr by (auto split: if_splits)
    with last keepsD [OF ev last] Suc.IH Suc.prems(3-5) show ?thesis by blast
  qed
qed simp

lemma lbfgs_optimize_last:
  assumes ev: "keeps P evaluate" and P: "P s" and valid: "invalid_parameters (length x) p = None"
    and run: "lbfgs_optimize n evaluate stepbound progress p x fc s = Inr (code, x', fx', s')"
    and code: "\<not> failed_search code" "code \<noteq> LBFGSERR_INVALIDPARAMETERS" "code \<noteq> LBFGSERR_INCREASEGRADIENT"
  shows "\<exists>s0 g'. P s0 \<and> evaluate x' s0 = Inr (fx', g', s')"
proof -
  from run valid obtain fx g s1 where 1: "evaluate x s = Inr (fx, g, s1)" by (auto simp: lbfgs_optimize_def)
  with valid run have rest: "x' = x \<and> fx' = fx \<and> s' = s1 \<or>
      (\<exists>d step mem. lbfgs_loop n evaluate stepbound progress p 1 x g fx d step mem s1 = Inr (code, x', fx', s'))"
    unfolding lbfgs_optimize_def by (simp add: Let_def split: if_split_asm) blast+
  from keepsD [OF ev P 1] rest lbfgs_loop_last [OF ev _ _ code] 1 P show ?thesis by blast
qed

end
