(* ===== verification/OptimizerFrames.thy ===== *)
theory OptimizerFrames
  imports OptimizerCost LbfgsState
begin

text \<open>
  What the operations of the optimiser leave alone: the search for base points keeps the control points
  and the sizes, and an evaluation of the cost keeps the settings.
\<close>

section \<open>Control points\<close>

definition same_shape :: "ctrl_points \<Rightarrow> ctrl_points \<Rightarrow> bool" where
  "same_shape c c' \<longleftrightarrow>
     clearance c' = clearance c \<and> cp_size c' = cp_size c \<and> points c' = points c \<and>
     length (base_point c') = length (base_point c) \<and> length (direction c') = length (direction c) \<and>
     length (flag_temp c') = length (flag_temp c)"

lemma same_shape_refl [simp]: "same_shape c c"
  by (simp add: same_shape_def)

lemma same_shape_trans: "same_shape a b \<Longrightarrow> same_shape b c \<Longrightarrow> same_shape a c"
  by (simp add: same_shape_def)

lemma fold_same_shape:
  assumes "\<And>x c c'. F x c = Inr c' \<Longrightarrow> same_shape c c'"
  shows "fold_result F xs c = Inr c' \<Longrightarrow> same_shape c c'"
proof (induction xs arbitrary: c)
  case (Cons x xs)
  from Cons.prems obtain c1 where "F x c = Inr c1" "fold_result F xs c1 = Inr c'" by auto
  with assms Cons.IH show ?case by (blast intro: same_shape_trans)
qed simp

lemma fold_same_shape_snd:
  assumes "\<And>x st st'. F x st = Inr st' \<Longrightarrow> same_shape (snd st) (snd st')"
  shows "fold_result F xs st = Inr st' \<Longrightarrow> same_shape (snd st) (snd st')"
proof (induction xs arbitrary: st)
  case (Cons x xs)
  from Cons.prems obtain c1 where "F x st = Inr c1" "fold_result F xs c1 = Inr st'" by auto
  with assms Cons.IH show ?case by (blast intro: same_shape_trans)
qed simp

lemma set_flag_same: "set_flag v j c = Inr c' \<Longrightarrow> same_shape c c'"
  by (auto simp: set_flag_def same_shape_def store_at_Inr)

lemma push_base_same: "push_base j b d c = Inr c' \<Longrightarrow> same_shape c c'"
  by (auto simp: push_base_def same_shape_def store_at_Inr)

lemma march_same: "march n e j x p len a c = Inr c' \<Longrightarrow> same_shape c c'"
  by (induction n arbitrary: a) (auto simp: Let_def dest: push_base_same split: if_splits)

lemma base_at_same: "base_at e pts path j st = Inr st' \<Longrightarrow> same_shape (snd st) (snd st')"
  by (auto simp: base_at_def Let_def split: prod.splits if_splits dest!: set_flag_same march_same intro: same_shape_trans)

lemma copy_base_same: "copy_base k j c = Inr c' \<Longrightarrow> same_shape c c'"
  by (auto simp: copy_base_def dest: push_base_same split: if_splits)

lemma spread_base_same: "spread_base got seg c = Inr c' \<Longrightarrow> same_shape c c'"
  by (auto simp: spread_base_def dest!: fold_same_shape [rotated] intro: copy_base_same same_shape_trans)

lemma short_segment_same: "short_segment pts path seg st = Inr st' \<Longrightarrow> same_shape (snd st) (snd st')"
  by (auto simp: short_segment_def Let_def split: prod.splits if_splits dest!: set_flag_same push_base_same
        intro: same_shape_trans)

lemma assign_segment_same:
  assumes "assign_segment short e pts seg adj path c = Inr (ok, c')"
  shows "same_shape c c'"
proof -
  from assms obtain c1 st r where
    1: "fold_result (set_flag False) [fst adj..snd adj] c = Inr c1"
    and 2: "fold_result (base_at e pts path) [fst seg + 1..snd seg - 1] (- 1, c1) = Inr st"
    and 3: "(if short then short_segment pts path seg st else Inr st) = Inr r"
    and rest: "(case r of (got, c2) \<Rightarrow> if got \<ge> 0 then bind_result (spread_base got adj c2) (\<lambda>c3. Inr (True, c3))
       else Inr (False, c2)) = Inr (ok, c')"
    unfolding assign_segment_def bind_result_Inr by blast
  obtain got c2 where r: "r = (got, c2)" by (cases r)
  with rest have 4: "c' = c2 \<or> spread_base got adj c2 = Inr c'" by (auto split: if_splits)
  have "same_shape c c1" using fold_same_shape [OF set_flag_same 1] .
  moreover have "same_shape c1 (snd st)" using fold_same_shape_snd [OF base_at_same 2] by simp
  moreover have "same_shape (snd st) c2" using 3 short_segment_same [of pts path seg st r] r by (auto split: if_splits)
  moreover have "same_shape c2 c'" using 4 spread_base_same same_shape_refl by blast
  ultimately show ?thesis by (blast intro: same_shape_trans)
qed

lemma assign_all_same: "assign_all e pts xs c = Inr (segs, c') \<Longrightarrow> same_shape c c'"
proof (induction xs arbitrary: segs c)
  case (Cons x xs)
  obtain seg adj path where x: "x = (seg, adj, path)" by (cases x)
  with Cons.prems obtain ok c1 segs1 where
    "assign_segment True e pts seg adj path c = Inr (ok, c1)" "assign_all e pts xs c1 = Inr (segs1, c')" by auto
  with Cons.IH show ?case by (blast intro: same_shape_trans assign_segment_same)
qed simp

lemma rebound_segments_same: "rebound_segments e xs c = Inr c' \<Longrightarrow> same_shape c c'"
proof (induction xs arbitrary: c)
  case (Cons x xs)
  obtain seg path where x: "x = (seg, path)" by (cases x)
  with Cons.prems obtain ok c1 where
    "assign_segment False e (points c) seg seg path c = Inr (ok, c1)" "rebound_segments e xs c1 = Inr c'" by auto
  with Cons.IH show ?case by (blast intro: same_shape_trans assign_segment_same)
qed simp

section \<open>Settings\<close>

text \<open>What a run does not change: everything but the control points, the flags and counters, and A*.\<close>

definition same_setting :: "optimizer \<Rightarrow> optimizer \<Rightarrow> bool" where
  "same_setting s s' \<longleftrightarrow>
     s\<lparr>cps := cps s', force_stop_type := force_stop_type s', new_lambda2 := new_lambda2 s', iter_num := iter_num s',
       min_ellip_dist := min_ellip_dist s', a_star := a_star s', clock_reads := clock_reads s'\<rparr> = s'"

lemma same_setting_fields:
  assumes "same_setting s s'"
  shows "bspline_interval s' = bspline_interval s" "order s' = order s" "lambda1 s' = lambda1 s" "lambda2 s' = lambda2 s"
    "lambda3 s' = lambda3 s" "lambda4 s' = lambda4 s" "dist0 s' = dist0 s" "opt_clearance s' = opt_clearance s"
    "opt_max_vel s' = opt_max_vel s" "opt_max_acc s' = opt_max_acc s" "local_target_pt s' = local_target_pt s"
    "ref_pts s' = ref_pts s" "swarm_trajs s' = swarm_trajs s" "opt_drone_id s' = opt_drone_id s"
  using assms by (cases s; cases s'; simp add: same_setting_def)+

lemma same_setting_refl [simp]: "same_setting s s"
  by (simp add: same_setting_def)

lemma same_setting_trans: "same_setting a b \<Longrightarrow> same_setting b c \<Longrightarrow> same_setting a c"
  by (cases a; cases b; cases c; simp add: same_setting_def)

text \<open>The searches only use A* and the clock.\<close>

definition only_searched :: "optimizer \<Rightarrow> optimizer \<Rightarrow> bool" where
  "only_searched s s' \<longleftrightarrow> s\<lparr>a_star := a_star s', clock_reads := clock_reads s'\<rparr> = s'"

lemma only_searched_refl [simp]: "only_searched s s"
  by (simp add: only_searched_def)

lemma only_searched_trans: "only_searched a b \<Longrightarrow> only_searched b c \<Longrightarrow> only_searched a c"
  by (cases a; cases b; cases c; simp add: only_searched_def)

lemma only_searched_cps: "only_searched s s' \<Longrightarrow> cps s' = cps s"
  by (cases s; cases s'; simp add: only_searched_def)

lemma only_searched_setting: "only_searched s s' \<Longrightarrow> same_setting s s'"
  by (cases s; cases s'; simp add: only_searched_def same_setting_def)

lemma search_path_only: "search_path e a b s = Inr (r, s') \<Longrightarrow> only_searched s s'"
  by (auto simp: search_path_def only_searched_def)

lemma search_all_only: "search_all e pts segs s = Inr (r, s') \<Longrightarrow> only_searched s s'"
proof (induction segs arbitrary: r s)
  case (Cons x segs)
  obtain a b where x: "x = (a, b)" by (cases x)
  with Cons.prems obtain p q found s1 where "search_path e p q s = Inr (found, s1)"
    and "s' = s1 \<or> (\<exists>ps. search_all e pts segs s1 = Inr (ps, s'))" by (auto split: option.splits)
  with Cons.IH show ?case by (blast intro: only_searched_trans search_path_only)
qed simp

lemma search_some_only: "search_some e segs s = Inr (r, s') \<Longrightarrow> only_searched s s'"
proof (induction segs arbitrary: r s)
  case (Cons x segs)
  obtain a b where x: "x = (a, b)" by (cases x)
  with Cons.prems obtain p q found s1 ps where "search_path e p q s = Inr (found, s1)"
    and "search_some e segs s1 = Inr (ps, s')" by auto
  with Cons.IH show ?case by (blast intro: only_searched_trans search_path_only)
qed simp

lemma check_collision_keeps:
  assumes "check_collision_and_rebound e s = Inr (b, s')"
  shows "same_setting s s' \<and> same_shape (cps s) (cps s') \<and> iter_num s' = iter_num s \<and> new_lambda2 s' = new_lambda2 s \<and>
    min_ellip_dist s' = min_ellip_dist s"
proof -
  from assms obtain r where r: "(case r of None \<Rightarrow> Inr (False, s\<lparr>force_stop_type := STOP_FOR_ERROR\<rparr>)
         | Some [] \<Rightarrow> Inr (False, s)
         | Some segs \<Rightarrow>
             bind_result (search_some e segs s) (\<lambda>(found, s1).
             bind_result (rebound_segments e (zip (avoid_overlap (map fst found)) (map snd found)) (cps s1)) (\<lambda>c'.
               Inr (True, s1\<lparr>cps := c', force_stop_type := STOP_FOR_REBOUND\<rparr>)))) = Inr (b, s')"
    unfolding check_collision_and_rebound_def Let_def bind_result_Inr by blast
  have "s' = s\<lparr>force_stop_type := STOP_FOR_ERROR\<rparr> \<or> s' = s \<or>
      (\<exists>segs found s1 c'. search_some e segs s = Inr (found, s1) \<and>
         rebound_segments e (zip (avoid_overlap (map fst found)) (map snd found)) (cps s1) = Inr c' \<and>
         s' = s1\<lparr>cps := c', force_stop_type := STOP_FOR_REBOUND\<rparr>)"
  proof (cases r)
    case (Some segs)
    with r show ?thesis by (cases segs) auto
  qed (use r in auto)
  then consider "s' = s\<lparr>force_stop_type := STOP_FOR_ERROR\<rparr>" | "s' = s"
    | segs found s1 c' where "search_some e segs s = Inr (found, s1)"
      "rebound_segments e (zip (avoid_overlap (map fst found)) (map snd found)) (cps s1) = Inr c'"
      "s' = s1\<lparr>cps := c', force_stop_type := STOP_FOR_REBOUND\<rparr>" by blast
  then show ?thesis
  proof cases
    case 1
    then show ?thesis by (simp add: same_setting_def)
  next
    case 2
    then show ?thesis by simp
  next
    case (3 segs found s1 c')
    from search_some_only [OF 3(1)] rebound_segments_same [OF 3(2)] show ?thesis
      unfolding 3(3) by (cases s; cases s1; simp add: only_searched_def same_setting_def)
  qed
qed

text \<open>Starting again keeps the control points; the first start puts the given ones in place.\<close>

lemma initControlPoints_keeps:
  assumes "initControlPoints e pts False s = Inr (segs, s')"
  shows "same_setting s s' \<and> same_shape (cps s) (cps s') \<and> iter_num s' = iter_num s \<and> min_ellip_dist s' = min_ellip_dist s \<and>
    new_lambda2 s' = new_lambda2 s"
proof -
  from assms consider "s' = s" | segs r where "search_all e pts segs s = Inr (r, s')"
    | segs r s2 c final xs where "search_all e pts segs s = Inr (r, s2)" "assign_all e pts xs (cps s2) = Inr (final, c)"
      "s' = s2\<lparr>cps := c\<rparr>"
    by (fastforce simp: initControlPoints_def Let_def split: option.splits if_splits)
  then show ?thesis
  proof cases
    case 1
    then show ?thesis by simp
  next
    case 2
    from search_all_only [OF this] show ?thesis by (cases s; cases s'; simp add: only_searched_def same_setting_def)
  next
    case 3
    from search_all_only [OF 3(1)] assign_all_same [OF 3(2)] show ?thesis
      unfolding 3(3) by (cases s; cases s2; simp add: only_searched_def same_setting_def)
  qed
qed

section \<open>Doubles and columns\<close>

lemma doubles_simps [simp]: "doubles [] = []" "doubles (p # ps) = vx p # vy p # vz p # doubles ps"
  by (simp_all add: doubles_def)

lemma doubles_length [simp]: "length (doubles ps) = 3 * length ps"
  by (induction ps) simp_all

lemma columns_doubles [simp]: "columns (doubles ps) = ps"
  by (induction ps) simp_all

lemma doubles_columns: "length xs = 3 * n \<Longrightarrow> doubles (columns xs) = xs"
proof (induction xs arbitrary: n rule: columns.induct)
  case (1 x y z rest)
  then show ?case by (cases n) simp_all
qed (simp_all, presburger+)

lemma columns_length: "length (columns xs) = length xs div 3"
  by (induction xs rule: columns.induct) simp_all

lemma columns_take: "columns (take (3 * n) xs) = take n (columns xs)"
proof (induction n arbitrary: xs)
  case 0
  then show ?case by simp
next
  case (Suc n)
  have "3 * Suc n = Suc (Suc (Suc (3 * n)))" by simp
  with Suc show ?case by (cases xs rule: columns.cases) (simp_all del: mult_Suc_right)
qed

lemma store_vars_Inr:
  assumes "store_vars ord x ps = Inr ps'"
  shows "0 \<le> ord" "3 * nat ord + length x \<le> 3 * length ps" "length ps' = length ps" "take (nat ord) ps' = take (nat ord) ps"
    "doubles ps' = take (3 * nat ord) (doubles ps) @ x @ drop (3 * nat ord + length x) (doubles ps)"
proof -
  let ?xs = "take (3 * nat ord) (doubles ps) @ x @ drop (3 * nat ord + length x) (doubles ps)"
  from assms have *: "0 \<le> ord" "3 * nat ord + length x \<le> 3 * length ps" "ps' = columns ?xs"
    by (auto simp: store_vars_def split: if_splits)
  then have len: "length ?xs = 3 * length ps" by simp
  from * len show "0 \<le> ord" "3 * nat ord + length x \<le> 3 * length ps" "length ps' = length ps" "doubles ps' = ?xs"
    using doubles_columns [OF len] by (simp_all add: columns_length)
  have "take (3 * nat ord) ?xs = take (3 * nat ord) (doubles ps)" using * by simp
  then show "take (nat ord) ps' = take (nat ord) ps" using *(3) columns_take [of "nat ord"] columns_doubles by metis
qed

section \<open>An evaluation\<close>

definition evaluated :: "optimizer \<Rightarrow> optimizer \<Rightarrow> bool" where
  "evaluated s s' \<longleftrightarrow>
     same_setting s s' \<and> new_lambda2 s' = new_lambda2 s \<and> clearance (cps s') = clearance (cps s) \<and>
     cp_size (cps s') = cp_size (cps s) \<and>
     length (points (cps s')) = length (points (cps s)) \<and>
     take (nat (order s)) (points (cps s')) = take (nat (order s)) (points (cps s))"

lemma evaluated_refl [simp]: "evaluated s s"
  by (simp add: evaluated_def)

lemma evaluated_trans: "evaluated a b \<Longrightarrow> evaluated b c \<Longrightarrow> evaluated a c"
  by (auto simp: evaluated_def dest: same_setting_trans same_setting_fields)

lemma calcSwarmCost_keeps:
  assumes "calcSwarmCost e s q g = Inr (r, s')"
  shows "\<exists>d. s' = s\<lparr>min_ellip_dist := d, clock_reads := Suc (clock_reads s)\<rparr>"
  using assms by (auto simp: calcSwarmCost_def)

lemma calcDistanceCostRebound_keeps:
  assumes "calcDistanceCostRebound e s q g iters sm = Inr (r, s')"
  shows "same_setting s s' \<and> same_shape (cps s) (cps s') \<and> iter_num s' = iter_num s \<and> new_lambda2 s' = new_lambda2 s \<and>
    min_ellip_dist s' = min_ellip_dist s"
proof -
  have 0: "same_setting s (s\<lparr>force_stop_type := DONT_STOP\<rparr>)" by (simp add: same_setting_def)
  from assms have "s' = s\<lparr>force_stop_type := DONT_STOP\<rparr> \<or>
      (\<exists>b. check_collision_and_rebound e (s\<lparr>force_stop_type := DONT_STOP\<rparr>) = Inr (b, s'))"
    by (auto simp: calcDistanceCostRebound_def Let_def split: if_splits)
  then show ?thesis using 0 check_collision_keeps [of e "s\<lparr>force_stop_type := DONT_STOP\<rparr>" _ s']
    by (auto intro: same_setting_trans)
qed

text \<open>The parts of an evaluation for the rebound.\<close>

lemma combineCostRebound_Inr:
  assumes "combineCostRebound e x s = Inr (f, grad, s')"
  shows "\<exists>ps f1 g1 f2 g2 s1 f3 g3 f4 g4 f5 g5.
    store_vars (order s) x (points (cps s)) = Inr ps \<and>
    calcSmoothnessCost ps (zero_cols (nat (cp_size (cps s)))) True = Inr (f1, g1) \<and>
    calcDistanceCostRebound e (s\<lparr>cps := (cps s)\<lparr>points := ps\<rparr>\<rparr>) ps (zero_cols (nat (cp_size (cps s)))) (iter_num s) f1 = Inr ((f2, g2), s1) \<and>
    calcFeasibilityCost s1 ps (zero_cols (nat (cp_size (cps s)))) = Inr (f3, g3) \<and>
    calcSwarmCost e s1 ps (zero_cols (nat (cp_size (cps s)))) = Inr ((f4, g4), s') \<and>
    calcTerminalCost (local_target_pt s') ps (zero_cols (nat (cp_size (cps s)))) = Inr (f5, g5) \<and>
    f = lambda1 s' * f1 + new_lambda2 s' * f2 + lambda3 s' * f3 + new_lambda2 s' * f4 + lambda2 s' * f5 \<and>
    load_vars (order s) (length x)
      (weighted [(lambda1 s', g1), (new_lambda2 s', g2), (lambda3 s', g3), (new_lambda2 s', g4), (lambda2 s', g5)]) = Inr grad"
  using assms by (clarsimp simp: combineCostRebound_def Let_def)

lemma combineCostRebound_evaluated:
  assumes "combineCostRebound e x s = Inr (f, g, s')"
  shows "evaluated s s'" "0 \<le> order s"
proof -
  from combineCostRebound_Inr [OF assms] obtain ps iters sm q g' r s1 q2 g2 r2 where
    st: "store_vars (order s) x (points (cps s)) = Inr ps"
    and d: "calcDistanceCostRebound e (s\<lparr>cps := (cps s)\<lparr>points := ps\<rparr>\<rparr>) q g' iters sm = Inr (r, s1)"
    and w: "calcSwarmCost e s1 q2 g2 = Inr (r2, s')" by blast
  note 1 = calcDistanceCostRebound_keeps [OF d]
  from calcSwarmCost_keeps [OF w] obtain dist where s': "s' = s1\<lparr>min_ellip_dist := dist, clock_reads := Suc (clock_reads s1)\<rparr>" ..
  have "same_setting s (s\<lparr>cps := (cps s)\<lparr>points := ps\<rparr>\<rparr>)" by (simp add: same_setting_def)
  moreover have "same_setting s1 s'" unfolding s' by (simp add: same_setting_def)
  ultimately have "same_setting s s'" using 1 by (blast intro: same_setting_trans)
  with 1 show "evaluated s s'" using store_vars_Inr [OF st] by (simp add: evaluated_def s' same_shape_def)
  show "0 \<le> order s" using store_vars_Inr [OF st] by simp
qed

lemma costFunctionRebound_evaluated:
  assumes "costFunctionRebound e x s = Inr (f, g, s')"
  shows "evaluated s s'"
proof -
  from assms obtain s1 where "combineCostRebound e x s = Inr (f, g, s1)" "s' = s1\<lparr>iter_num := iter_num s1 + 1\<rparr>"
    by (auto simp: costFunctionRebound_def)
  with combineCostRebound_evaluated(1) [OF this(1)] show ?thesis
    by (cases s; cases s1; simp add: evaluated_def same_setting_def)
qed

lemma combineCostRefine_state:
  assumes "combineCostRefine x s = Inr (f, g, s')"
  shows "\<exists>ps. store_vars (order s) x (points (cps s)) = Inr ps \<and> s' = s\<lparr>cps := (cps s)\<lparr>points := ps\<rparr>\<rparr>"
  using assms by (auto simp: combineCostRefine_def Let_def)

lemma costFunctionRefine_evaluated:
  assumes "costFunctionRefine x s = Inr (f, g, s')"
  shows "evaluated s s'"
proof -
  from assms obtain s1 where 1: "combineCostRefine x s = Inr (f, g, s1)" "s' = s1\<lparr>iter_num := iter_num s1 + 1\<rparr>"
    by (auto simp: costFunctionRefine_def)
  from combineCostRefine_state [OF 1(1)] obtain ps where
    "store_vars (order s) x (points (cps s)) = Inr ps" "s1 = s\<lparr>cps := (cps s)\<lparr>points := ps\<rparr>\<rparr>" by blast
  with 1(2) store_vars_Inr [OF this(1)] show ?thesis by (simp add: evaluated_def same_setting_def)
qed

end
