(* ===== verification/OptimizerGradient.thy ===== *)
theory OptimizerGradient
  imports OptimizerFrames LbfgsProps
begin

text \<open>
  The gradients of the trajectory optimiser are those of its costs: along every direction the derivative
  of the cost is the product of the gradient with the direction.  The terms of a cost are shown to
  have this property one by one, and the loops over them inherit it.
\<close>

section \<open>Derivatives of the penalties\<close>

lemma DERIV_bound:
  fixes f :: "real \<Rightarrow> real"
  assumes "\<And>y. \<bar>f y - f x - D * (y - x)\<bar> \<le> K * (y - x)\<^sup>2"
  shows "(f has_real_derivative D) (at x)"
  unfolding DERIV_def
proof (rule LIM_zero_cancel, rule tendsto_rabs_zero_cancel, rule real_LIM_sandwich_zero)
  show "(\<lambda>h. K * \<bar>h\<bar>) \<midarrow>0\<rightarrow> 0" by (auto intro!: tendsto_eq_intros)
next
  fix h :: real assume "h \<noteq> 0"
  have "\<bar>(f (x + h) - f x) / h - D\<bar> = \<bar>f (x + h) - f x - D * h\<bar> / \<bar>h\<bar>"
    using \<open>h \<noteq> 0\<close> by (simp add: abs_divide [symmetric] diff_divide_distrib)
  also have "\<dots> \<le> K * h\<^sup>2 / \<bar>h\<bar>" using assms [of "x + h"] by (intro divide_right_mono) simp_all
  also have "\<dots> = K * \<bar>h\<bar>" using \<open>h \<noteq> 0\<close> by (cases "0 < h") (simp_all add: power2_eq_square)
  finally show "\<bar>(f (x + h) - f x) / h - D\<bar> \<le> K * \<bar>h\<bar>" .
qed simp

lemma DERIV_quadratic: "((\<lambda>t. a + t * b + t * t * c) has_real_derivative b) (at 0)"
  by (auto intro!: derivative_eq_intros)

text \<open>The square and the cube of the positive part.\<close>

lemma DERIV_pos_square: "((\<lambda>x. (max 0 x)\<^sup>2) has_real_derivative 2 * max 0 x) (at x)"
proof (rule DERIV_bound [where K = 1])
  fix y :: real
  have sq: "0 \<le> (y - x) * (y - x)" "0 \<le> x * x" "0 \<le> y * y" by simp_all
  have mixed: "x * y \<le> 0" if "0 \<le> x \<and> y < 0 \<or> x < 0 \<and> 0 \<le> y" using that by (auto simp: mult_le_0_iff)
  consider "0 \<le> x" "0 \<le> y" | "0 \<le> x" "y < 0" | "x < 0" "0 \<le> y" | "x < 0" "y < 0" by linarith
  then show "\<bar>(max 0 y)\<^sup>2 - (max 0 x)\<^sup>2 - 2 * max 0 x * (y - x)\<bar> \<le> 1 * (y - x)\<^sup>2"
  proof cases
    case 1
    have "y * y - x * x - 2 * x * (y - x) = (y - x) * (y - x)" by (simp add: algebra_simps)
    with sq 1 show ?thesis by (simp add: max_def power2_eq_square)
  next
    case 2
    have e: "(max 0 y)\<^sup>2 - (max 0 x)\<^sup>2 - 2 * max 0 x * (y - x) = x * x - 2 * (x * y)"
      "1 * (y - x)\<^sup>2 = y * y - 2 * (x * y) + x * x"
      using 2 by (simp_all add: max_def power2_eq_square algebra_simps)
    show ?thesis unfolding e abs_le_iff using sq mixed 2 by linarith
  next
    case 3
    have "(y - x) * (y - x) = y * y - 2 * (x * y) + x * x" by (simp add: algebra_simps)
    with sq mixed 3 show ?thesis by (simp add: max_def power2_eq_square)
  next
    case 4
    with sq show ?thesis by (simp add: max_def power2_eq_square)
  qed
qed

lemma DERIV_pos_cube: "((\<lambda>x. (max 0 x) ^ 3) has_real_derivative 3 * (max 0 x)\<^sup>2) (at x)"
proof -
  have "((\<lambda>x. (max 0 x)\<^sup>2 * x) has_real_derivative (2 * max 0 x) * x + 1 * (max 0 x)\<^sup>2) (at x)"
    by (rule DERIV_mult [OF DERIV_pos_square DERIV_ident])
  moreover have "(\<lambda>x. (max 0 x)\<^sup>2 * x) = (\<lambda>x::real. (max 0 x) ^ 3)"
    by (rule ext) (simp add: max_def power2_eq_square power3_eq_cube)
  moreover have "(2 * max 0 x) * x + 1 * (max 0 x)\<^sup>2 = 3 * (max 0 x)\<^sup>2" by (simp add: max_def power2_eq_square)
  ultimately show ?thesis by metis
qed

text \<open>The excess over a limit on either side.\<close>

definition excess :: "real \<Rightarrow> real \<Rightarrow> real" where
  "excess m x = (if x > m then x - m else if x < - m then x + m else 0)"

lemma DERIV_excess:
  assumes "0 \<le> m"
  shows "((\<lambda>x. (excess m x)\<^sup>2) has_real_derivative 2 * excess m x) (at x)"
proof -
  have "((\<lambda>x. (max 0 (x - m))\<^sup>2 + (max 0 (- x - m))\<^sup>2) has_real_derivative
      2 * max 0 (x - m) * 1 + 2 * max 0 (- x - m) * (- 1)) (at x)"
    by (intro DERIV_add DERIV_chain2 [OF DERIV_pos_square]; auto intro!: derivative_eq_intros)
  moreover have "(\<lambda>x. (max 0 (x - m))\<^sup>2 + (max 0 (- x - m))\<^sup>2) = (\<lambda>x. (excess m x)\<^sup>2)"
    using assms by (intro ext) (auto simp: excess_def max_def power2_eq_square algebra_simps)
  moreover have "2 * max 0 (x - m) * 1 + 2 * max 0 (- x - m) * (- 1) = 2 * excess m x"
    using assms by (auto simp: excess_def max_def)
  ultimately show ?thesis by simp
qed

lemma DERIV_penalty:
  assumes "0 \<le> d"
  shows "((\<lambda>x. fst (penalty d x)) has_real_derivative - snd (penalty d x)) (at x)"
proof -
  have "((\<lambda>x. (max 0 x) ^ 3 - (max 0 (x - d)) ^ 3) has_real_derivative
      3 * (max 0 x)\<^sup>2 - 3 * (max 0 (x - d))\<^sup>2 * 1) (at x)"
    by (intro DERIV_diff DERIV_pos_cube DERIV_chain2 [OF DERIV_pos_cube]) (auto intro!: derivative_eq_intros)
  moreover have "(\<lambda>x. (max 0 x) ^ 3 - (max 0 (x - d)) ^ 3) = (\<lambda>x. fst (penalty d x))"
    using assms by (intro ext) (auto simp: penalty_def Let_def max_def power2_eq_square power3_eq_cube algebra_simps)
  moreover have "3 * (max 0 x)\<^sup>2 - 3 * (max 0 (x - d))\<^sup>2 * 1 = - snd (penalty d x)"
    using assms by (auto simp: penalty_def Let_def max_def power2_eq_square algebra_simps)
  ultimately show ?thesis by simp
qed

section \<open>Directions\<close>

definition along :: "vec3 list \<Rightarrow> vec3 list \<Rightarrow> real \<Rightarrow> vec3 list" where
  "along q h t = map2 (\<lambda>a b. vadd a (vscale t b)) q h"

definition gdot :: "vec3 list \<Rightarrow> vec3 list \<Rightarrow> real" where
  "gdot g h = sum_list (map2 vdot g h)"

lemma vdot_linear:
  "vdot (vadd a b) c = vdot a c + vdot b c" "vdot (vscale k a) c = k * vdot a c" "vdot vzero c = 0" "vdot c vzero = 0"
  "vdot c (vadd a b) = vdot c a + vdot c b" "vdot c (vscale k a) = k * vdot c a" "vdot (vsub a b) c = vdot a c - vdot b c"
  "vdot c (vsub a b) = vdot c a - vdot c b"
  by (simp_all add: vdot_def algebra_simps)

lemma along_nth [simp]: "length h = length q \<Longrightarrow> i < length q \<Longrightarrow> along q h t ! i = vadd (q ! i) (vscale t (h ! i))"
  by (simp add: along_def)

lemma along_length [simp]: "length h = length q \<Longrightarrow> length (along q h t) = length q"
  by (simp add: along_def)

lemma along_zero [simp]: "length h = length q \<Longrightarrow> along q h 0 = q"
proof (rule nth_equalityI)
  fix i assume "length h = length q" "i < length (along q h 0)"
  then show "along q h 0 ! i = q ! i" by (cases "q ! i") (simp add: vadd_def vscale_def)
qed simp

lemma gdot_update:
  "length g = length h \<Longrightarrow> i < length g \<Longrightarrow> gdot (g[i := vadd (g ! i) v]) h = gdot g h + vdot v (h ! i)"
proof (induction g h arbitrary: i rule: list_induct2)
  case Nil
  then show ?case by simp
next
  case (Cons a g b h)
  then show ?case by (cases i) (simp_all add: gdot_def vdot_linear)
qed

lemma gdot_zero: "gdot (zero_cols n) h = 0"
proof (induction n arbitrary: h)
  case 0
  then show ?case by (simp add: gdot_def zero_cols_def)
next
  case (Suc n)
  then show ?case by (cases h) (simp_all add: gdot_def zero_cols_def vdot_linear)
qed

lemma add_col_Inr:
  "add_col i v g = Inr g' \<longleftrightarrow> 0 \<le> i \<and> nat i < length g \<and> g' = g[nat i := vadd (g ! nat i) v]"
  by (auto simp: add_col_def fetch_at_Inr store_at_Inr nat_less_iff)

lemma add_col_ok [simp]: "0 \<le> i \<Longrightarrow> i < int (length g) \<Longrightarrow> add_col i v g = Inr (g[nat i := vadd (g ! nat i) v])"
  by (simp add: add_col_def)

lemma add_col_gdot:
  assumes "add_col i v g = Inr g'" "length g = length h"
  shows "gdot g' h = gdot g h + vdot v (h ! nat i) \<and> length g' = length g"
  using assms gdot_update [of g h "nat i" v] by (auto simp: add_col_Inr)

definition add_all :: "(int \<times> vec3) list \<Rightarrow> vec3 list \<Rightarrow> cpp_error + vec3 list" where
  "add_all vs g = fold_result (\<lambda>(i, v). add_col i v) vs g"

definition gain :: "(int \<times> vec3) list \<Rightarrow> vec3 list \<Rightarrow> real" where
  "gain vs h = (\<Sum>(i, v)\<leftarrow>vs. vdot v (h ! nat i))"

lemma add_all_simps [simp]:
  "add_all [] g = Inr g" "add_all ((i, v) # vs) g = bind_result (add_col i v g) (add_all vs)"
  by (simp_all add: add_all_def [abs_def])

lemma gain_simps [simp]: "gain [] h = 0" "gain ((i, v) # vs) h = vdot v (h ! nat i) + gain vs h"
  by (simp_all add: gain_def)

lemma add_all_ok:
  "\<forall>(i, v) \<in> set vs. 0 \<le> i \<and> nat i < n \<Longrightarrow> length g = n \<Longrightarrow> length h = n \<Longrightarrow>
   \<exists>g'. add_all vs g = Inr g' \<and> length g' = n \<and> gdot g' h = gdot g h + gain vs h"
proof (induction vs arbitrary: g)
  case Nil
  then show ?case by simp
next
  case (Cons iv vs)
  obtain i v where iv: "iv = (i, v)" by (cases iv)
  from Cons.prems iv have "add_col i v g = Inr (g[nat i := vadd (g ! nat i) v])" by (auto intro!: add_col_ok)
  moreover from Cons.prems iv Cons.IH [of "g[nat i := vadd (g ! nat i) v]"] obtain g' where
    "add_all vs (g[nat i := vadd (g ! nat i) v]) = Inr g'" "length g' = n"
    "gdot g' h = gdot (g[nat i := vadd (g ! nat i) v]) h + gain vs h" by auto
  ultimately show ?case using gdot_update [of g h "nat i" v] Cons.prems iv by simp
qed

text \<open>
  A step that adds to a cost and a gradient, which \<open>pr\<close> finds in its state, is good at \<open>q\<close> along \<open>h\<close>:
  what it adds to the cost has a derivative, and that is what it adds to the product of the gradient
  with \<open>h\<close>.
\<close>

definition good_term ::
    "('s \<Rightarrow> real \<times> vec3 list) \<Rightarrow> vec3 list \<Rightarrow> vec3 list \<Rightarrow> (vec3 list \<Rightarrow> 's \<Rightarrow> cpp_error + 's) \<Rightarrow> bool" where
  "good_term pr q h F \<longleftrightarrow>
     (\<forall>st r. length (snd (pr st)) = length q \<longrightarrow> F q st = Inr r \<longrightarrow>
        (\<exists>\<phi> D. (\<phi> has_real_derivative D) (at 0) \<and>
           fst (pr r) = fst (pr st) + \<phi> 0 \<and> length (snd (pr r)) = length q \<and>
           gdot (snd (pr r)) h = gdot (snd (pr st)) h + D \<and>
           (\<forall>\<^sub>F t in nhds 0. \<forall>st. length (snd (pr st)) = length q \<longrightarrow>
              (\<exists>r. F (along q h t) st = Inr r \<and> fst (pr r) = fst (pr st) + \<phi> t \<and> length (snd (pr r)) = length q))))"

lemma good_termI:
  assumes h: "length h = length q"
    and "\<And>st r. F q st = Inr r \<Longrightarrow> length (snd (pr st)) = length q \<Longrightarrow>
        \<exists>\<phi> vs. (\<phi> has_real_derivative gain (vs 0) h) (at 0) \<and>
           (\<forall>\<^sub>F t in nhds 0. (\<forall>(i, v) \<in> set (vs t). 0 \<le> i \<and> nat i < length q) \<and>
              (\<forall>st g'. length (snd (pr st)) = length q \<longrightarrow> add_all (vs t) (snd (pr st)) = Inr g' \<longrightarrow>
                 (\<exists>r. F (along q h t) st = Inr r \<and> pr r = (fst (pr st) + \<phi> t, g'))))"
  shows "good_term pr q h F"
  unfolding good_term_def
proof (intro allI impI)
  fix st r assume g: "length (snd (pr st)) = length q" and run: "F q st = Inr r"
  from assms(2) [OF run g] obtain \<phi> vs where deriv: "(\<phi> has_real_derivative gain (vs 0) h) (at 0)"
    and ev: "\<forall>\<^sub>F t in nhds 0. (\<forall>(i, v) \<in> set (vs t). 0 \<le> i \<and> nat i < length q) \<and>
              (\<forall>st g'. length (snd (pr st)) = length q \<longrightarrow> add_all (vs t) (snd (pr st)) = Inr g' \<longrightarrow>
                 (\<exists>r. F (along q h t) st = Inr r \<and> pr r = (fst (pr st) + \<phi> t, g')))" by blast
  from eventually_nhds_x_imp_x [OF ev] have at0: "\<forall>(i, v) \<in> set (vs 0). 0 \<le> i \<and> nat i < length q"
    "\<And>st g'. length (snd (pr st)) = length q \<Longrightarrow> add_all (vs 0) (snd (pr st)) = Inr g' \<Longrightarrow>
                 \<exists>r. F q st = Inr r \<and> pr r = (fst (pr st) + \<phi> 0, g')" using h by auto
  from add_all_ok [OF at0(1) g h] obtain g' where "add_all (vs 0) (snd (pr st)) = Inr g'" "length g' = length q"
    "gdot g' h = gdot (snd (pr st)) h + gain (vs 0) h" by blast
  with at0(2) [OF g] run have "fst (pr r) = fst (pr st) + \<phi> 0 \<and> length (snd (pr r)) = length q \<and>
      gdot (snd (pr r)) h = gdot (snd (pr st)) h + gain (vs 0) h" by force
  moreover from ev have "\<forall>\<^sub>F t in nhds 0. \<forall>st. length (snd (pr st)) = length q \<longrightarrow>
      (\<exists>r. F (along q h t) st = Inr r \<and> fst (pr r) = fst (pr st) + \<phi> t \<and> length (snd (pr r)) = length q)"
  proof eventually_elim
    case (elim t)
    show ?case
    proof (intro allI impI)
      fix st assume g: "length (snd (pr st)) = length q"
      from add_all_ok [OF conjunct1 [OF elim] g h] obtain g' where
        "add_all (vs t) (snd (pr st)) = Inr g'" "length g' = length q" by blast
      with elim g show "\<exists>r. F (along q h t) st = Inr r \<and> fst (pr r) = fst (pr st) + \<phi> t \<and> length (snd (pr r)) = length q"
        by force
    qed
  qed
  ultimately show "\<exists>\<phi> D. (\<phi> has_real_derivative D) (at 0) \<and> fst (pr r) = fst (pr st) + \<phi> 0 \<and>
      length (snd (pr r)) = length q \<and> gdot (snd (pr r)) h = gdot (snd (pr st)) h + D \<and>
      (\<forall>\<^sub>F t in nhds 0. \<forall>st. length (snd (pr st)) = length q \<longrightarrow>
         (\<exists>r. F (along q h t) st = Inr r \<and> fst (pr r) = fst (pr st) + \<phi> t \<and> length (snd (pr r)) = length q))"
    using deriv by blast
qed

lemma good_then:
  assumes F: "good_term pr q h F" and I: "good_term pr q h G"
  shows "good_term pr q h (\<lambda>q st. bind_result (F q st) (G q))"
  unfolding good_term_def
proof (intro allI impI)
  fix st r assume g: "length (snd (pr st)) = length q" and run: "bind_result (F q st) (G q) = Inr r"
  from run obtain r1 where r1: "F q st = Inr r1" and rest: "G q r1 = Inr r" by auto
  from F [unfolded good_term_def, rule_format, OF g r1] obtain \<phi> D where
    1: "(\<phi> has_real_derivative D) (at 0)" "fst (pr r1) = fst (pr st) + \<phi> 0" "length (snd (pr r1)) = length q"
      "gdot (snd (pr r1)) h = gdot (snd (pr st)) h + D"
      "\<forall>\<^sub>F t in nhds 0. \<forall>st. length (snd (pr st)) = length q \<longrightarrow>
         (\<exists>r. F (along q h t) st = Inr r \<and> fst (pr r) = fst (pr st) + \<phi> t \<and> length (snd (pr r)) = length q)"
    by blast
  from I [unfolded good_term_def, rule_format, OF 1(3) rest] obtain \<psi> E where
    2: "(\<psi> has_real_derivative E) (at 0)" "fst (pr r) = fst (pr r1) + \<psi> 0" "length (snd (pr r)) = length q"
      "gdot (snd (pr r)) h = gdot (snd (pr r1)) h + E"
      "\<forall>\<^sub>F t in nhds 0. \<forall>st. length (snd (pr st)) = length q \<longrightarrow>
         (\<exists>r. G (along q h t) st = Inr r \<and> fst (pr r) = fst (pr st) + \<psi> t \<and> length (snd (pr r)) = length q)"
    by blast
  have "\<forall>\<^sub>F t in nhds 0. \<forall>st. length (snd (pr st)) = length q \<longrightarrow>
      (\<exists>r. bind_result (F (along q h t) st) (G (along q h t)) = Inr r \<and> fst (pr r) = fst (pr st) + (\<phi> t + \<psi> t) \<and>
         length (snd (pr r)) = length q)"
    using 1(5) 2(5)
  proof eventually_elim
    case (elim t)
    show ?case
    proof (intro allI impI)
      fix st assume "length (snd (pr st)) = length q"
      with elim(1) obtain r1 where r1: "F (along q h t) st = Inr r1" "fst (pr r1) = fst (pr st) + \<phi> t"
        "length (snd (pr r1)) = length q" by blast
      with elim(2) obtain r2 where "G (along q h t) r1 = Inr r2" "fst (pr r2) = fst (pr r1) + \<psi> t"
        "length (snd (pr r2)) = length q" by blast
      with r1 show "\<exists>r. bind_result (F (along q h t) st) (G (along q h t)) = Inr r \<and>
          fst (pr r) = fst (pr st) + (\<phi> t + \<psi> t) \<and> length (snd (pr r)) = length q" by simp
    qed
  qed
  with DERIV_add [OF 1(1) 2(1)] 1 2 show "\<exists>\<phi> D. (\<phi> has_real_derivative D) (at 0) \<and> fst (pr r) = fst (pr st) + \<phi> 0 \<and>
      length (snd (pr r)) = length q \<and> gdot (snd (pr r)) h = gdot (snd (pr st)) h + D \<and>
      (\<forall>\<^sub>F t in nhds 0. \<forall>st. length (snd (pr st)) = length q \<longrightarrow>
         (\<exists>r. bind_result (F (along q h t) st) (G (along q h t)) = Inr r \<and> fst (pr r) = fst (pr st) + \<phi> t \<and>
            length (snd (pr r)) = length q))"
    by (intro exI [of _ "\<lambda>t. \<phi> t + \<psi> t"] exI [of _ "D + E"]) simp
qed

lemma good_skip: "good_term pr q h (\<lambda>_. Inr)"
  unfolding good_term_def by (intro allI impI exI [of _ "\<lambda>_. 0"] exI [of _ 0]) auto

lemma good_fold:
  assumes "\<And>x. x \<in> set xs \<Longrightarrow> good_term pr q h (\<lambda>q. F q x)"
  shows "good_term pr q h (\<lambda>q. fold_result (F q) xs)"
  using assms
proof (induction xs)
  case Nil
  show ?case using good_skip [of pr q h] by simp
next
  case (Cons x xs)
  then show ?case using good_then [of pr q h "\<lambda>q. F q x" "\<lambda>q. fold_result (F q) xs"] by simp
qed

section \<open>The terms\<close>

lemma fetch_at_range: "fetch_at q i = Inr a \<Longrightarrow> 0 \<le> i \<and> i < int (length q)"
  by (simp add: fetch_at_Inr)

text \<open>
  A term depends on a linear combination of columns, and its gradient goes back to these columns with
  the same factors.
\<close>

definition comb :: "(int \<times> real) list \<Rightarrow> vec3 list \<Rightarrow> vec3" where
  "comb cs q = foldr (\<lambda>(i, k). vadd (vscale k (q ! nat i))) cs vzero"

definition spread :: "(int \<times> real) list \<Rightarrow> vec3 \<Rightarrow> (int \<times> vec3) list" where
  "spread cs v = map (\<lambda>(i, k). (i, vscale k v)) cs"

definition in_range :: "(int \<times> real) list \<Rightarrow> vec3 list \<Rightarrow> bool" where
  "in_range cs q \<longleftrightarrow> (\<forall>(i, k) \<in> set cs. 0 \<le> i \<and> i < int (length q))"

lemma comb_simps [simp]: "comb [] q = vzero" "comb ((i, k) # cs) q = vadd (vscale k (q ! nat i)) (comb cs q)"
  by (simp_all add: comb_def)

lemma spread_simps [simp]: "spread [] v = []" "spread ((i, k) # cs) v = (i, vscale k v) # spread cs v"
  by (simp_all add: spread_def)

lemma in_range_simps [simp]:
  "in_range [] q" "in_range ((i, k) # cs) q \<longleftrightarrow> 0 \<le> i \<and> i < int (length q) \<and> in_range cs q"
  by (simp_all add: in_range_def)

lemma gain_spread: "gain (spread cs v) h = vdot v (comb cs h)"
  by (induction cs) (auto simp: vdot_linear)

lemma comb_along:
  "length h = length q \<Longrightarrow> in_range cs q \<Longrightarrow> comb cs (along q h t) = vadd (comb cs q) (vscale t (comb cs h))"
proof (induction cs)
  case Nil
  then show ?case by (simp add: vadd_def vscale_def vzero_def)
next
  case (Cons ik cs)
  then show ?case by (cases ik) (simp add: vadd_def vscale_def nat_less_iff algebra_simps)
qed

lemma spread_zero: "in_range cs g \<Longrightarrow> add_all (spread cs vzero) g = Inr g"
proof (induction cs)
  case (Cons ik cs)
  moreover have "vadd a (vscale k vzero) = a" for a k by (cases a) (simp add: vadd_def vscale_def)
  ultimately show ?case by (cases ik) simp
qed simp

lemma good_comb:
  assumes h: "length h = length q"
    and step: "\<And>st r. F q st = Inr r \<Longrightarrow> length (snd (pr st)) = length q \<Longrightarrow>
        in_range cs q \<and> ok (comb cs q) \<and>
        (\<forall>p st g'. length p = length q \<longrightarrow> length (snd (pr st)) = length p \<longrightarrow> in_range cs p \<longrightarrow> ok (comb cs p) \<longrightarrow>
            add_all (spread cs (G (comb cs p))) (snd (pr st)) = Inr g' \<longrightarrow>
            (\<exists>r. F p st = Inr r \<and> pr r = (fst (pr st) + f (comb cs p), g')))"
    and deriv: "\<And>z w. ok z \<Longrightarrow> ((\<lambda>t. f (vadd z (vscale t w))) has_real_derivative vdot (G z) w) (at 0)"
    and okay: "\<And>z w. ok z \<Longrightarrow> \<forall>\<^sub>F t in nhds 0. ok (vadd z (vscale t w))"
  shows "good_term pr q h F"
proof (rule good_termI [OF h])
  fix st r assume "F q st = Inr r" "length (snd (pr st)) = length q"
  note 1 = step [OF this]
  let ?z = "comb cs q" and ?w = "comb cs h"
  have z: "comb cs (along q h t) = vadd ?z (vscale t ?w)" for t using comb_along [OF h] 1 by blast
  have z0: "vadd ?z (vscale 0 ?w) = ?z" using z [of 0] h by simp
  show "\<exists>\<phi> vs. (\<phi> has_real_derivative gain (vs 0) h) (at 0) \<and>
           (\<forall>\<^sub>F t in nhds 0. (\<forall>(i, v) \<in> set (vs t). 0 \<le> i \<and> nat i < length q) \<and>
              (\<forall>st g'. length (snd (pr st)) = length q \<longrightarrow> add_all (vs t) (snd (pr st)) = Inr g' \<longrightarrow>
                 (\<exists>r. F (along q h t) st = Inr r \<and> pr r = (fst (pr st) + \<phi> t, g'))))"
  proof (intro exI conjI)
    show "((\<lambda>t. f (vadd ?z (vscale t ?w))) has_real_derivative gain (spread cs (G (vadd ?z (vscale 0 ?w)))) h) (at 0)"
      using deriv 1 by (simp add: gain_spread z0)
    have range: "\<forall>(i, v) \<in> set (spread cs v). 0 \<le> i \<and> nat i < length q" for v
      using 1 by (auto simp: in_range_def spread_def)
    have "in_range cs (along q h t)" for t using 1 h by (simp add: in_range_def)
    then show "\<forall>\<^sub>F t in nhds 0. (\<forall>(i, v) \<in> set (spread cs (G (vadd ?z (vscale t ?w)))). 0 \<le> i \<and> nat i < length q) \<and>
              (\<forall>st g'. length (snd (pr st)) = length q \<longrightarrow>
                 add_all (spread cs (G (vadd ?z (vscale t ?w)))) (snd (pr st)) = Inr g' \<longrightarrow>
                 (\<exists>r. F (along q h t) st = Inr r \<and> pr r = (fst (pr st) + f (vadd ?z (vscale t ?w)), g')))"
      using okay [of ?z ?w] 1 h range by (auto elim!: eventually_mono simp: z [symmetric])
  qed
qed

lemma DERIV_line:
  assumes "(f has_real_derivative D) (at x)"
  shows "((\<lambda>t. f (x + t * y)) has_real_derivative D * y) (at 0)"
  by (rule DERIV_chain2 [where f = f]) (use assms in \<open>auto intro!: derivative_eq_intros\<close>)

lemma DERIV_square: "((\<lambda>t. vdot (vadd z (vscale t w)) (vadd z (vscale t w))) has_real_derivative vdot (vscale 2 z) w) (at 0)"
proof -
  have "vdot (vadd z (vscale t w)) (vadd z (vscale t w)) = vdot z z + t * vdot (vscale 2 z) w + t * t * vdot w w" for t
    by (simp add: vdot_def vadd_def vscale_def algebra_simps)
  then show ?thesis using DERIV_quadratic by simp
qed

text \<open>The case of a term that may be computed at every place.\<close>

lemma good_smooth:
  assumes h: "length h = length q"
    and range: "\<And>st r. F q st = Inr r \<Longrightarrow> in_range cs q"
    and step: "\<And>st r p st' g'. F q st = Inr r \<Longrightarrow> length p = length q \<Longrightarrow> in_range cs p \<Longrightarrow>
        length (snd (pr st')) = length p \<Longrightarrow> add_all (spread cs (G (comb cs p))) (snd (pr st')) = Inr g' \<Longrightarrow>
            \<exists>r. F p st' = Inr r \<and> pr r = (fst (pr st') + f (comb cs p), g')"
    and deriv: "\<And>z w. ((\<lambda>t. f (vadd z (vscale t w))) has_real_derivative vdot (G z) w) (at 0)"
  shows "good_term pr q h F"
proof (rule good_comb [OF h, where cs = cs and G = G and f = f and ok = "\<lambda>_. True"])
  fix st r assume "F q st = Inr r"
  from range [OF this] step [OF this]
  show "in_range cs q \<and> True \<and>
      (\<forall>p st g'. length p = length q \<longrightarrow> length (snd (pr st)) = length p \<longrightarrow> in_range cs p \<longrightarrow> True \<longrightarrow>
         add_all (spread cs (G (comb cs p))) (snd (pr st)) = Inr g' \<longrightarrow>
         (\<exists>r. F p st = Inr r \<and> pr r = (fst (pr st) + f (comb cs p), g')))" by blast
qed (simp_all add: deriv)

lemma vscale_one [simp]: "vscale 1 v = v"
  by (cases v) (simp add: vscale_def)

lemma good_jerk:
  assumes h: "length h = length q"
  shows "good_term id q h (\<lambda>q. jerk_term q i)"
proof (rule good_smooth [OF h, where cs = "[(i, - 1), (i + 1, 3), (i + 2, - 3), (i + 3, 1)]" and G = "vscale 2" and
      f = "\<lambda>z. vdot z z"])
  let ?cs = "[(i, - 1), (i + 1, 3), (i + 2, - 3), (i + 3, 1)]"
  fix st r assume run: "jerk_term q i st = Inr r"
  then show "in_range ?cs q" by (auto simp: jerk_term_def Let_def split: prod.splits dest!: fetch_at_range)
  fix p g' and st' :: "real \<times> vec3 list" assume "in_range ?cs p" "add_all (spread ?cs (vscale 2 (comb ?cs p))) (snd (id st')) = Inr g'"
  moreover have "comb ?cs p = vsub (vadd (vsub (p ! nat (i + 3)) (vscale 3 (p ! nat (i + 2)))) (vscale 3 (p ! nat (i + 1)))) (p ! nat i)"
    by (simp add: vadd_def vscale_def vsub_def vzero_def)
  ultimately show "\<exists>r. jerk_term p i st' = Inr r \<and> id r = (fst (id st') + vdot (comb ?cs p) (comb ?cs p), g')"
    by (auto simp: jerk_term_def Let_def split: prod.splits)
qed (simp_all add: DERIV_square)

text \<open>One row of the velocity or the acceleration.\<close>

lemma DERIV_row:
  assumes "row \<in> set rows" "0 \<le> m"
  shows "((\<lambda>t. (excess m (fst row (vadd z (vscale t w))))\<^sup>2 * k) has_real_derivative
           vdot (snd row (2 * excess m (fst row z) * k)) w) (at 0)"
proof -
  have "fst row (vadd z (vscale t w)) = fst row z + t * fst row w" for t
    using assms(1) by (auto simp: rows_def vadd_def vscale_def)
  moreover have "vdot (snd row (2 * excess m (fst row z) * k)) w = 2 * excess m (fst row z) * fst row w * k"
    using assms(1) by (auto simp: rows_def vdot_def)
  ultimately show ?thesis
    using DERIV_cmult_right [OF DERIV_line [OF DERIV_excess [OF assms(2), of "fst row z"], of "fst row w"], of k] by simp
qed

lemma row_zero: "row \<in> set rows \<Longrightarrow> snd row 0 = vzero"
  by (auto simp: rows_def vzero_def)

lemma row_scale: "row \<in> set rows \<Longrightarrow> vscale k (snd row x) = snd row (k * x)"
  by (auto simp: rows_def vscale_def)

lemma vel_row_excess:
  "0 \<le> m \<Longrightarrow> vel_row ts m i v (get, only) (c, g) =
     (if excess m (get v) = 0 then Inr (c, g)
      else bind_result (add_col i (only (- 2 * excess m (get v) / ts * (1 / ts / ts))) g) (\<lambda>g.
           bind_result (add_col (i + 1) (only (2 * excess m (get v) / ts * (1 / ts / ts))) g) (\<lambda>g.
             Inr (c + (excess m (get v))\<^sup>2 * (1 / ts / ts), g))))"
  by (auto simp: vel_row_def excess_def Let_def mult.assoc)

lemma acc_row_excess:
  "0 \<le> m \<Longrightarrow> acc_row ts m i v (get, only) (c, g) =
     (if excess m (get v) = 0 then Inr (c, g)
      else bind_result (add_col i (only (2 * excess m (get v) * (1 / ts / ts))) g) (\<lambda>g.
           bind_result (add_col (i + 1) (only (- 4 * excess m (get v) * (1 / ts / ts))) g) (\<lambda>g.
           bind_result (add_col (i + 2) (only (2 * excess m (get v) * (1 / ts / ts))) g) (\<lambda>g.
             Inr (c + (excess m (get v))\<^sup>2, g)))))"
  by (auto simp: acc_row_def excess_def Let_def)

lemma good_vel_row:
  assumes h: "length h = length q" and row: "row \<in> set rows" and m: "0 \<le> m"
  shows "good_term id q h (\<lambda>q st. bind_result (fetch_at q (i + 1)) (\<lambda>b. bind_result (fetch_at q i) (\<lambda>a.
           vel_row ts m i (vscale (1 / ts) (vsub b a)) row st)))" (is "good_term id q h ?F")
proof (rule good_smooth [OF h, where cs = "[(i, - 1 / ts), (i + 1, 1 / ts)]" and
      G = "\<lambda>z. snd row (2 * excess m (fst row z) * (1 / ts / ts))" and f = "\<lambda>z. (excess m (fst row z))\<^sup>2 * (1 / ts / ts)"])
  let ?cs = "[(i, - 1 / ts), (i + 1, 1 / ts)]"
  fix st r assume run: "?F q st = Inr r"
  then show "in_range ?cs q" by (auto dest!: fetch_at_range)
  fix p g' and st' :: "real \<times> vec3 list" assume *: "in_range ?cs p" "length (snd (id st')) = length p"
    "add_all (spread ?cs (snd row (2 * excess m (fst row (comb ?cs p)) * (1 / ts / ts)))) (snd (id st')) = Inr g'"
  obtain c g where st': "st' = (c, g)" by (cases st')
  obtain get only where row': "row = (get, only)" by (cases row)
  have z: "comb ?cs p = vscale (1 / ts) (vsub (p ! nat (i + 1)) (p ! nat i))"
    by (simp add: vadd_def vscale_def vsub_def vzero_def algebra_simps diff_divide_distrib)
  have F: "?F p st' = vel_row ts m i (comb ?cs p) (get, only) (c, g)" unfolding z using * by (simp add: st' row')
  show "\<exists>r. ?F p st' = Inr r \<and> id r = (fst (id st') + (excess m (fst row (comb ?cs p)))\<^sup>2 * (1 / ts / ts), g')"
  proof (cases "excess m (get (comb ?cs p)) = 0")
    case True
    have "in_range ?cs g" using * by (simp add: st')
    from spread_zero [OF this] True * row_zero [OF row] have "g' = g" by (simp add: st' row')
    then show ?thesis unfolding F vel_row_excess [OF m] using True by (simp add: st' row')
  next
    case False
    with *(3) show ?thesis
      unfolding F vel_row_excess [OF m] by (simp add: st' row' row_scale [OF row, unfolded row' snd_conv] del: comb_simps)
  qed
qed (rule DERIV_row [OF row m])

lemma good_acc_row:
  assumes h: "length h = length q" and row: "row \<in> set rows" and m: "0 \<le> m"
  shows "good_term id q h (\<lambda>q st. bind_result (fetch_at q (i + 2)) (\<lambda>c. bind_result (fetch_at q (i + 1)) (\<lambda>b.
           bind_result (fetch_at q i) (\<lambda>a. acc_row ts m i (vscale (1 / ts / ts) (vadd (vsub c (vscale 2 b)) a)) row st))))"
    (is "good_term id q h ?F")
proof (rule good_smooth [OF h, where cs = "[(i, 1 / ts / ts), (i + 1, - 2 / ts / ts), (i + 2, 1 / ts / ts)]" and
      G = "\<lambda>z. snd row (2 * excess m (fst row z) * 1)" and f = "\<lambda>z. (excess m (fst row z))\<^sup>2 * 1"])
  let ?cs = "[(i, 1 / ts / ts), (i + 1, - 2 / ts / ts), (i + 2, 1 / ts / ts)]"
  fix st r assume run: "?F q st = Inr r"
  then show "in_range ?cs q" by (auto dest!: fetch_at_range)
  fix p g' and st' :: "real \<times> vec3 list" assume *: "in_range ?cs p" "length (snd (id st')) = length p"
    "add_all (spread ?cs (snd row (2 * excess m (fst row (comb ?cs p)) * 1))) (snd (id st')) = Inr g'"
  obtain c g where st': "st' = (c, g)" by (cases st')
  obtain get only where row': "row = (get, only)" by (cases row)
  have z: "comb ?cs p = vscale (1 / ts / ts) (vadd (vsub (p ! nat (i + 2)) (vscale 2 (p ! nat (i + 1)))) (p ! nat i))"
    by (simp add: vadd_def vscale_def vsub_def vzero_def algebra_simps diff_divide_distrib add_divide_distrib)
  have F: "?F p st' = acc_row ts m i (comb ?cs p) (get, only) (c, g)" unfolding z using * by (simp add: st' row')
  show "\<exists>r. ?F p st' = Inr r \<and> id r = (fst (id st') + (excess m (fst row (comb ?cs p)))\<^sup>2 * 1, g')"
  proof (cases "excess m (get (comb ?cs p)) = 0")
    case True
    have "in_range ?cs g" using * by (simp add: st')
    from spread_zero [OF this] True * row_zero [OF row] have "g' = g" by (simp add: st' row')
    then show ?thesis unfolding F acc_row_excess [OF m] using True by (simp add: st' row')
  next
    case False
    with *(3) show ?thesis
      unfolding F acc_row_excess [OF m] by (simp add: st' row' row_scale [OF row, unfolded row' snd_conv] del: comb_simps)
  qed
qed (rule DERIV_row [OF row m])

text \<open>The rows of a step.\<close>

lemma vel_feasible_rows:
  "vel_feasible_term ts m q i = fold_result (\<lambda>row st. bind_result (fetch_at q (i + 1)) (\<lambda>b. bind_result (fetch_at q i) (\<lambda>a.
           vel_row ts m i (vscale (1 / ts) (vsub b a)) row st))) rows"
  by (rule ext, cases "fetch_at q (i + 1)"; cases "fetch_at q i") (simp_all add: vel_feasible_term_def rows_def)

lemma acc_feasible_rows:
  "acc_feasible_term ts m q i = fold_result (\<lambda>row st. bind_result (fetch_at q (i + 2)) (\<lambda>c. bind_result (fetch_at q (i + 1)) (\<lambda>b.
           bind_result (fetch_at q i) (\<lambda>a. acc_row ts m i (vscale (1 / ts / ts) (vadd (vsub c (vscale 2 b)) a)) row st)))) rows"
  by (rule ext, cases "fetch_at q (i + 2)"; cases "fetch_at q (i + 1)"; cases "fetch_at q i")
    (simp_all add: acc_feasible_term_def rows_def)

text \<open>Costs that start with an empty sum.\<close>

definition from_zero :: "(vec3 list \<Rightarrow> cpp_error + real \<times> vec3 list) \<Rightarrow> real \<times> vec3 list \<Rightarrow> cpp_error + real \<times> vec3 list" where
  "from_zero cost st = bind_result (cost (snd st)) (\<lambda>(f, g). Inr (fst st + f, g))"

lemma good_terminal:
  assumes h: "length h = length q"
  shows "good_term id q h (\<lambda>q. from_zero (calcTerminalCost target q))"
proof (rule good_smooth [OF h, where cs = "[(int (length q) - 3, 1 / 6), (int (length q) - 2, 4 / 6), (int (length q) - 1, 1 / 6)]"
      and G = "\<lambda>z. vscale 2 (vsub z target)" and f = "\<lambda>z. vdot (vsub z target) (vsub z target)"])
  let ?n = "int (length q)" let ?cs = "[(?n - 3, 1 / 6), (?n - 2, 4 / 6), (?n - 1, 1 / 6)]"
  fix st r assume run: "from_zero (calcTerminalCost target q) st = Inr r"
  then show "in_range ?cs q" by (auto simp: from_zero_def calcTerminalCost_def Let_def dest!: fetch_at_range)
  fix p g' and st' :: "real \<times> vec3 list" assume *: "length p = length q" "in_range ?cs p" "length (snd (id st')) = length p"
    "add_all (spread ?cs (vscale 2 (vsub (comb ?cs p) target))) (snd (id st')) = Inr g'"
  have z: "comb ?cs p = vscale (1 / 6) (vadd (vadd (p ! nat (?n - 3)) (vscale 4 (p ! nat (?n - 2)))) (p ! nat (?n - 1)))"
    by (simp add: vadd_def vscale_def vzero_def algebra_simps add_divide_distrib)
  have v: "vscale (1 / 6) (vscale 2 v) = vscale (2 * (1 / 6)) v" "vscale (4 / 6) (vscale 2 v) = vscale (2 * (4 / 6)) v" for v
    by (simp_all add: vscale_def)
  show "\<exists>r. from_zero (calcTerminalCost target p) st' = Inr r \<and>
      id r = (fst (id st') + vdot (vsub (comb ?cs p) target) (vsub (comb ?cs p) target), g')"
    using * unfolding z spread_simps v
    by (auto simp: from_zero_def calcTerminalCost_def Let_def)
next
  fix z w
  have "vsub (vadd z (vscale t w)) target = vadd (vsub z target) (vscale t w)" for t
    by (simp add: vadd_def vscale_def vsub_def)
  then show "((\<lambda>t. vdot (vsub (vadd z (vscale t w)) target) (vsub (vadd z (vscale t w)) target)) has_real_derivative
      vdot (vscale 2 (vsub z target)) w) (at 0)" using DERIV_square [of "vsub z target" w] by simp
qed

text \<open>The distance to the reference points, an ellipse around a line.\<close>

lemma good_fitness:
  assumes h: "length h = length q"
  shows "good_term id q h (\<lambda>q. fitness_term refs q i)"
proof -
  define r1 where "r1 = refs ! nat (i - 1)"
  define v where "v = normalized (vsub (refs ! nat i) (refs ! nat (i - 2)))"
  let ?cs = "[(i - 1, 1 / 6), (i, 4 / 6), (i + 1, 1 / 6)]"
  let ?f = "\<lambda>x. (vdot x v)\<^sup>2 / 25 + (vnorm (vcross x v))\<^sup>2 / 1"
  let ?G = "\<lambda>x. vadd (vscale (2 * vdot x v / 25) v) (vscale (2 / 1) (vcross v (vcross x v)))"
  show ?thesis
  proof (rule good_smooth [OF h, where cs = ?cs and G = "\<lambda>z. ?G (vsub z r1)" and f = "\<lambda>z. ?f (vsub z r1)"])
    fix st r assume run: "fitness_term refs q i st = Inr r"
    then show "in_range ?cs q" by (auto simp: fitness_term_def Let_def split: prod.splits dest!: fetch_at_range)
    fix p g' and st' :: "real \<times> vec3 list" assume *: "in_range ?cs p" "add_all (spread ?cs (?G (vsub (comb ?cs p) r1))) (snd (id st')) = Inr g'"
    have z: "comb ?cs p = vscale (1 / 6) (vadd (vadd (p ! nat (i - 1)) (vscale 4 (p ! nat i))) (p ! nat (i + 1)))"
      by (simp add: vadd_def vscale_def vzero_def algebra_simps add_divide_distrib)
    show "\<exists>r. fitness_term refs p i st' = Inr r \<and> id r = (fst (id st') + ?f (vsub (comb ?cs p) r1), g')"
      using run * unfolding z r1_def v_def
      by (auto simp: fitness_term_def Let_def fetch_at_Inr split: prod.splits simp del: comb_simps)
  next
    fix z w
    have sq: "(vnorm a)\<^sup>2 = vdot a a" for a by (simp add: vnorm_def vdot_def)
    have "?f (vsub (vadd z (vscale t w)) r1) = ?f (vsub z r1) + t * vdot (?G (vsub z r1)) w + t * t * ?f w" for t
      unfolding sq
      by (simp add: vdot_def vcross_def vadd_def vsub_def vscale_def power2_eq_square add_divide_distrib diff_divide_distrib algebra_simps)
    then show "((\<lambda>t. ?f (vsub (vadd z (vscale t w)) r1)) has_real_derivative vdot (?G (vsub z r1)) w) (at 0)"
      using DERIV_quadratic by simp
  qed
qed

text \<open>A base point.\<close>

lemma penalty_below: "x < 0 \<Longrightarrow> penalty d x = (0, 0)"
  by (simp add: penalty_def Let_def)

lemma good_base:
  assumes h: "length h = length q" and c: "0 \<le> clearance c"
  shows "good_term id q h (\<lambda>q. base_term (c\<lparr>points := q\<rparr>) (i, j))"
proof -
  define b where "b = base_point c ! nat i ! j"
  define d where "d = direction c ! nat i ! j"
  let ?e = "\<lambda>z. clearance c - vdot (vsub z b) d"
  have zero: "vscale 0 v = vzero" for v by (simp add: vscale_def vzero_def)
  show ?thesis
  proof (rule good_smooth [OF h, where cs = "[(i, 1)]" and G = "\<lambda>z. vscale (snd (penalty (clearance c) (?e z))) d" and
        f = "\<lambda>z. fst (penalty (clearance c) (?e z))"])
    fix st r assume run: "base_term (c\<lparr>points := q\<rparr>) (i, j) st = Inr r"
    then show "in_range [(i, 1)] q" by (auto simp: base_term_def Let_def split: prod.splits dest!: fetch_at_range)
    fix p g' and st' :: "real \<times> vec3 list"
    assume *: "in_range [(i, 1)] p" "length (snd (id st')) = length p"
      "add_all (spread [(i, 1)] (vscale (snd (penalty (clearance c) (?e (comb [(i, 1)] p)))) d)) (snd (id st')) = Inr g'"
    have z: "comb [(i, 1)] p = p ! nat i" by (cases "p ! nat i") (simp add: vadd_def vzero_def)
    obtain k g where st': "st' = (k, g)" by (cases st')
    show "\<exists>r. base_term (c\<lparr>points := p\<rparr>) (i, j) st' = Inr r \<and>
        id r = (fst (id st') + fst (penalty (clearance c) (?e (comb [(i, 1)] p))), g')"
    proof (cases "?e (p ! nat i) < 0")
      case True
      have "in_range [(i, 1)] g" using * by (simp add: st')
      from spread_zero [OF this] True * z have "g' = g" by (simp add: st' penalty_below zero)
      then show ?thesis unfolding z using run * True
        by (auto simp: st' base_term_def Let_def fetch_at_Inr fetch_Inr penalty_below b_def [symmetric] d_def [symmetric] split: prod.splits)
    next
      case False
      with run * show ?thesis unfolding z
        by (auto simp: st' base_term_def Let_def fetch_at_Inr fetch_Inr b_def [symmetric] d_def [symmetric] split: prod.splits)
    qed
  next
    fix z w
    have e: "?e (vadd z (vscale t w)) = ?e z + t * (- vdot w d)" for t
      by (simp add: vdot_def vadd_def vscale_def vsub_def algebra_simps)
    have G: "vdot (vscale (snd (penalty (clearance c) (?e z))) d) w = - snd (penalty (clearance c) (?e z)) * (- vdot w d)"
      by (simp add: vdot_def vscale_def algebra_simps)
    show "((\<lambda>t. fst (penalty (clearance c) (?e (vadd z (vscale t w))))) has_real_derivative
        vdot (vscale (snd (penalty (clearance c) (?e z))) d) w) (at 0)"
      unfolding e G by (rule DERIV_line [OF DERIV_penalty [OF c]])
  qed
qed

text \<open>Another drone; its term has no derivative where both are in the same place, but there it fails.\<close>

definition ellip_dot :: "vec3 \<Rightarrow> vec3 \<Rightarrow> real" where
  "ellip_dot a b = vz a * vz b * (1 / 4) + (vx a * vx b + vy a * vy b)"

lemma ellip_norm_dot: "ellip_norm d = sqrt (ellip_dot d d)"
  by (simp add: ellip_norm_def ellip_dot_def)

lemma ellip_dot_nonneg: "0 \<le> ellip_dot d d"
  by (simp add: ellip_dot_def)

lemma ellip_dot_line:
  "ellip_dot (vadd z (vscale t w)) (vadd z (vscale t w)) = ellip_dot z z + t * (2 * ellip_dot z w) + t * t * ellip_dot w w"
  by (simp add: ellip_dot_def vadd_def vscale_def algebra_simps)

lemma DERIV_ellip:
  assumes "ellip_norm z \<noteq> 0"
  shows "((\<lambda>t. ellip_norm (vadd z (vscale t w))) has_real_derivative ellip_dot z w / ellip_norm z) (at 0)"
proof -
  have pos: "0 < ellip_dot z z" using assms ellip_dot_nonneg [of z] by (auto simp: ellip_norm_dot order_less_le)
  have root: "(sqrt has_real_derivative inverse (sqrt (ellip_dot z z)) / 2)
      (at (ellip_dot z z + 0 * (2 * ellip_dot z w) + 0 * 0 * ellip_dot w w))" using DERIV_real_sqrt [OF pos] by simp
  have D: "(inverse (sqrt (ellip_dot z z)) / 2) * (2 * ellip_dot z w) = ellip_dot z w / sqrt (ellip_dot z z)"
    by (simp add: inverse_eq_divide)
  show ?thesis unfolding ellip_norm_dot ellip_dot_line
    by (rule DERIV_cong [OF DERIV_chain2 [where f = sqrt, OF root DERIV_quadratic] D])
qed

lemma good_swarm_point:
  assumes h: "length h = length q" and C: "0 \<le> C"
  shows "good_term (\<lambda>(c, g, _). (c, g)) q h (\<lambda>q st. bind_result (fetch_at q i) (\<lambda>p. swarm_point_term C i p o' st))"
    (is "good_term ?pr q h ?F")
proof -
  let ?e = "\<lambda>z. ellip_norm (vsub z o')"
  let ?k = "\<lambda>z. - 2 * (C / ?e z - 1)"
  let ?G = "\<lambda>z. if C - ?e z < 0 then vzero
      else Vec3 (?k z * (1 / 1 / 1) * vx (vsub z o')) (?k z * (1 / 1 / 1) * vy (vsub z o')) (?k z * (1 / 2 / 2) * vz (vsub z o'))"
  let ?f = "\<lambda>z. (max 0 (C - ?e z))\<^sup>2"
  have move: "vsub (vadd z (vscale t w)) o' = vadd (vsub z o') (vscale t w)" for z t w
    by (simp add: vadd_def vscale_def vsub_def)
  have deriv: "((\<lambda>t. C - ?e (vadd z (vscale t w))) has_real_derivative - (ellip_dot (vsub z o') w / ?e z)) (at 0)"
    if "?e z \<noteq> 0" for z w
    using DERIV_diff [OF DERIV_const [of C] DERIV_ellip [OF that, of w]] unfolding move by simp
  show ?thesis
  proof (rule good_comb [OF h, where cs = "[(i, 1)]" and G = ?G and f = ?f and ok = "\<lambda>z. ?e z \<noteq> 0"])
    fix z w assume z: "?e z \<noteq> 0"
    have start: "vadd z (vscale 0 w) = z" by (cases z) (simp add: vadd_def vscale_def)
    have "((\<lambda>t. ?f (vadd z (vscale t w))) has_real_derivative
        2 * max 0 (C - ?e (vadd z (vscale 0 w))) * - (ellip_dot (vsub z o') w / ?e z)) (at 0)"
      by (rule DERIV_chain2 [where f = "\<lambda>x. (max 0 x)\<^sup>2", OF DERIV_pos_square deriv [OF z]])
    moreover have "2 * max 0 (C - ?e z) * - (ellip_dot (vsub z o') w / ?e z) = vdot (?G z) w"
      using z by (simp add: max_def ellip_dot_def vdot_def vzero_def field_simps)
    ultimately show "((\<lambda>t. ?f (vadd z (vscale t w))) has_real_derivative vdot (?G z) w) (at 0)" by (simp add: start)
    have "isCont (\<lambda>t. C - ?e (vadd z (vscale t w))) 0" using deriv [OF z] by (rule DERIV_isCont)
    then have "isCont (\<lambda>t. ?e (vadd z (vscale t w))) 0" using isCont_diff [of 0 "\<lambda>_. C"] by fastforce
    then have "((\<lambda>t. ?e (vadd z (vscale t w))) \<longlongrightarrow> ?e (vadd z (vscale 0 w))) (nhds 0)"
      unfolding isCont_def by (rule tendsto_at_iff_tendsto_nhds [THEN iffD1])
    then show "\<forall>\<^sub>F t in nhds 0. ?e (vadd z (vscale t w)) \<noteq> 0"
      using z start tendsto_imp_eventually_ne by metis
  next
    fix st r assume run: "?F q st = Inr r"
    have z: "comb [(i, 1)] p = p ! nat i" for p by (cases "p ! nat i") (simp add: vadd_def vzero_def)
    have e: "?e (q ! nat i) \<noteq> 0" using run C
      by (auto simp: swarm_point_term_def Let_def fdiv_def fetch_at_Inr split: prod.splits if_splits)
    have "\<exists>r. ?F p st' = Inr r \<and> ?pr r = (fst (?pr st') + ?f (p ! nat i), g')"
      if *: "length (snd (?pr st')) = length p" "in_range [(i, 1)] p" "?e (p ! nat i) \<noteq> 0"
        "add_all (spread [(i, 1)] (?G (p ! nat i))) (snd (?pr st')) = Inr g'" for p st' g'
    proof -
      obtain c g n where st': "st' = (c, g, n)" by (cases st')
      show ?thesis
      proof (cases "C - ?e (p ! nat i) < 0")
        case True
        have "in_range [(i, 1)] g" using * by (simp add: st')
        from spread_zero [OF this] True * have "g' = g" by (simp add: st')
        with True * show ?thesis by (simp add: st' swarm_point_term_def Let_def max_def)
      next
        case False
        with * show ?thesis by (simp add: st' swarm_point_term_def Let_def max_def)
      qed
    qed
    with e run show "in_range [(i, 1)] q \<and> ?e (comb [(i, 1)] q) \<noteq> 0 \<and>
        (\<forall>p st g'. length p = length q \<longrightarrow> length (snd (?pr st)) = length p \<longrightarrow> in_range [(i, 1)] p \<longrightarrow> ?e (comb [(i, 1)] p) \<noteq> 0 \<longrightarrow>
           add_all (spread [(i, 1)] (?G (comb [(i, 1)] p))) (snd (?pr st)) = Inr g' \<longrightarrow>
           (\<exists>r. ?F p st = Inr r \<and> ?pr r = (fst (?pr st) + ?f (comb [(i, 1)] p), g')))"
      unfolding z by (auto dest!: fetch_at_range)
  qed
qed

end
