(* ===== verification/OptimizerDescent.thy ===== *)
theory OptimizerDescent
  imports OptimizerGradient
begin

text \<open>
  The costs as a whole: \<open>combineCostRefine\<close> and \<open>combineCostRebound\<close> hand the minimiser the gradient of the
  cost they hand it.  The variables are the doubles of some columns; a direction of them is a
  direction of the columns that is zero elsewhere.
\<close>

section \<open>Directions of the variables\<close>

definition lift_direction :: "int \<Rightarrow> real list \<Rightarrow> vec3 list \<Rightarrow> vec3 list" where
  "lift_direction ord h ps =
     columns (replicate (3 * nat ord) 0 @ h @ replicate (3 * length ps - 3 * nat ord - length h) 0)"

lemma lift_direction_doubles:
  assumes "3 * nat ord + length h \<le> 3 * length ps"
  shows "doubles (lift_direction ord h ps) =
      replicate (3 * nat ord) 0 @ h @ replicate (3 * length ps - 3 * nat ord - length h) 0"
    "length (lift_direction ord h ps) = length ps"
proof -
  have "length (replicate (3 * nat ord) 0 @ h @ replicate (3 * length ps - 3 * nat ord - length h) 0) = 3 * length ps"
    using assms by simp
  from doubles_columns [OF this] columns_length [of "replicate (3 * nat ord) 0 @ h @ replicate (3 * length ps - 3 * nat ord - length h) 0"]
  show "doubles (lift_direction ord h ps) =
      replicate (3 * nat ord) 0 @ h @ replicate (3 * length ps - 3 * nat ord - length h) 0"
    "length (lift_direction ord h ps) = length ps" using assms by (simp_all add: lift_direction_def)
qed

lemma doubles_along: "length h = length q \<Longrightarrow> doubles (along q h t) = vecadd (doubles q) (doubles h) t"
  by (induction h q rule: list_induct2) (simp_all add: along_def vecadd_def vadd_def vscale_def)

lemma gdot_doubles: "length g = length h \<Longrightarrow> gdot g h = vecdot (doubles g) (doubles h)"
  by (induction g h rule: list_induct2) (simp_all add: gdot_def vecdot_def vdot_def)

lemma vecadd_append: "length a = length c \<Longrightarrow> vecadd (a @ b) (c @ d) t = vecadd a c t @ vecadd b d t"
  by (simp add: vecadd_def)

lemma vecadd_zeros [simp]: "vecadd a (replicate n 0) t = take n a"
proof (induction a arbitrary: n)
  case Nil
  then show ?case by (simp add: vecadd_def)
next
  case (Cons x a)
  then show ?case by (cases n) (simp_all add: vecadd_def)
qed

lemma vecdot_append: "length a = length c \<Longrightarrow> vecdot (a @ b) (c @ d) = vecdot a c + vecdot b d"
  by (simp add: vecdot_def)

lemma vecdot_zeros [simp]: "vecdot a (replicate n 0) = 0"
proof (induction a arbitrary: n)
  case Nil
  then show ?case by (simp add: vecdot_def)
next
  case (Cons x a)
  then show ?case by (cases n) (simp_all add: vecdot_def)
qed

lemma store_along:
  assumes st: "store_vars ord x ps = Inr ps'" and h: "length h = length x"
    and ps2: "length ps2 = length ps" "take (3 * nat ord) (doubles ps2) = take (3 * nat ord) (doubles ps)"
      "drop (3 * nat ord + length x) (doubles ps2) = drop (3 * nat ord + length x) (doubles ps)"
  shows "store_vars ord (vecadd x h t) ps2 = Inr (along ps' (lift_direction ord h ps') t)"
proof -
  note S = store_vars_Inr [OF st]
  have len: "3 * nat ord + length h \<le> 3 * length ps'" using S h by simp
  note L = lift_direction_doubles [OF len]
  have "doubles (along ps' (lift_direction ord h ps') t) =
      take (3 * nat ord) (doubles ps) @ vecadd x h t @ drop (3 * nat ord + length x) (doubles ps)"
    using S(2,3) h by (simp add: doubles_along L S(5) vecadd_append)
  then have "columns (take (3 * nat ord) (doubles ps) @ vecadd x h t @ drop (3 * nat ord + length x) (doubles ps)) =
      along ps' (lift_direction ord h ps') t" using columns_doubles by metis
  then show ?thesis using S(1-3) h ps2 by (simp add: store_vars_def vecadd_def)
qed

lemma store_itself:
  assumes st: "store_vars ord x ps = Inr ps'" and h: "length h = length x"
  shows "store_vars ord (vecadd x h t) ps = Inr (along ps' (lift_direction ord h ps') t)"
    "store_vars ord (vecadd x h t) ps' = Inr (along ps' (lift_direction ord h ps') t)"
  using store_along [OF st h, of ps] store_along [OF st h, of ps'] store_vars_Inr [OF st] by simp_all

lemma load_gdot:
  assumes ld: "load_vars ord (length h) g = Inr g'" and len: "length g = length ps"
  shows "vecdot g' h = gdot g (lift_direction ord h ps)"
proof -
  from ld len have *: "3 * nat ord + length h \<le> 3 * length ps" "g' = take (length h) (drop (3 * nat ord) (doubles g))"
    by (auto simp: load_vars_def split: if_splits)
  note L = lift_direction_doubles [OF *(1)]
  have d: "doubles g = take (3 * nat ord) (doubles g) @ g' @ drop (3 * nat ord + length h) (doubles g)"
    by (simp add: *(2)) (metis add.commute append_take_drop_id drop_drop)
  have "length g' = length h" using * len by simp
  then have "vecdot (doubles g) (doubles (lift_direction ord h ps)) = vecdot g' h"
    by (subst d) (use * len in \<open>simp add: L vecdot_append\<close>)
  then show ?thesis using gdot_doubles [of g "lift_direction ord h ps"] L len by simp
qed

section \<open>Weighted sums\<close>

lemma gdot_scaled: "length g = length k \<Longrightarrow> length k = length h \<Longrightarrow>
    gdot (map2 (\<lambda>a b. vadd (vscale w a) b) g k) h = w * gdot g h + gdot k h"
  by (induction g k h rule: list_induct3) (simp_all add: gdot_def vdot_linear algebra_simps)

lemma weighted_sum:
  assumes "\<And>k g. (k, g) \<in> set gs \<Longrightarrow> length g = length h"
  shows "length (foldr (\<lambda>(k, g) acc. map2 (\<lambda>a b. vadd (vscale k a) b) g acc) gs (zero_cols (length h))) = length h \<and>
    gdot (foldr (\<lambda>(k, g) acc. map2 (\<lambda>a b. vadd (vscale k a) b) g acc) gs (zero_cols (length h))) h =
      (\<Sum>(k, g)\<leftarrow>gs. k * gdot g h)"
  using assms
proof (induction gs)
  case Nil
  then show ?case by (simp add: gdot_zero) (simp add: zero_cols_def)
next
  case (Cons x gs)
  obtain k g where x: "x = (k, g)" by (cases x)
  from Cons.prems [of k g] x have "length g = length h" by simp
  with Cons.IH [OF Cons.prems [OF list.set_intros(2)]] x show ?case by (simp add: gdot_scaled)
qed

lemma weighted_gdot:
  assumes all: "list_all (\<lambda>kg. length (snd kg) = length h) gs" and "gs \<noteq> []"
  shows "length (weighted gs) = length h" "gdot (weighted gs) h = (\<Sum>(k, g)\<leftarrow>gs. k * gdot g h)"
proof -
  have "length g = length h" if "(k, g) \<in> set gs" for k g using all that by (auto simp: list_all_iff)
  moreover from assms have "length (snd (hd gs)) = length h" by (cases gs) simp_all
  ultimately show "length (weighted gs) = length h" "gdot (weighted gs) h = (\<Sum>(k, g)\<leftarrow>gs. k * gdot g h)"
    using weighted_sum [of gs h] by (simp_all add: weighted_def)
qed

section \<open>The single costs\<close>

text \<open>A cost has the gradient that its run from zero leaves.\<close>

definition has_gradient ::
    "(vec3 list \<Rightarrow> vec3 list \<Rightarrow> cpp_error + real \<times> vec3 list) \<Rightarrow> vec3 list \<Rightarrow> vec3 list \<Rightarrow> real \<Rightarrow> vec3 list \<Rightarrow> bool" where
  "has_gradient cost q h f g \<longleftrightarrow> length g = length q \<and>
     (\<exists>\<phi>. \<phi> 0 = f \<and> (\<phi> has_real_derivative gdot g h) (at 0) \<and>
       (\<forall>\<^sub>F t in nhds 0. \<exists>g'. cost (along q h t) (zero_cols (length q)) = Inr (\<phi> t, g') \<and> length g' = length q))"

lemma good_has_gradient:
  assumes good: "good_term pr q h F" and start: "pr init = (0, zero_cols (length q))"
    and run: "F q init = Inr r"
    and cost: "\<And>p r. length p = length q \<Longrightarrow> F p init = Inr r \<Longrightarrow> cost p (zero_cols (length q)) = Inr (pr r)"
    and h: "length h = length q"
  shows "has_gradient cost q h (fst (pr r)) (snd (pr r))"
proof -
  have z: "length (zero_cols (length q)) = length q" by (simp add: zero_cols_def)
  have len: "length (snd (pr init)) = length q" using start z by simp
  from good [unfolded good_term_def, rule_format, OF len run] start obtain \<phi> D where
    1: "(\<phi> has_real_derivative D) (at 0)" "fst (pr r) = \<phi> 0" "length (snd (pr r)) = length q"
      "gdot (snd (pr r)) h = D"
      "\<forall>\<^sub>F t in nhds 0. \<forall>st. length (snd (pr st)) = length q \<longrightarrow>
              (\<exists>r. F (along q h t) st = Inr r \<and> fst (pr r) = fst (pr st) + \<phi> t \<and> length (snd (pr r)) = length q)"
    by (auto simp: gdot_zero)
  have "\<forall>\<^sub>F t in nhds 0. \<exists>g'. cost (along q h t) (zero_cols (length q)) = Inr (\<phi> t, g') \<and> length g' = length q"
  proof (rule eventually_mono [OF 1(5)])
    fix t
    assume "\<forall>st. length (snd (pr st)) = length q \<longrightarrow>
        (\<exists>r. F (along q h t) st = Inr r \<and> fst (pr r) = fst (pr st) + \<phi> t \<and> length (snd (pr r)) = length q)"
    from this [rule_format, OF len] start obtain r1 where
      r1: "F (along q h t) init = Inr r1" "fst (pr r1) = \<phi> t" "length (snd (pr r1)) = length q" by auto
    have "cost (along q h t) (zero_cols (length q)) = Inr (pr r1)" by (rule cost [OF along_length [OF h] r1(1)])
    moreover have "pr r1 = (\<phi> t, snd (pr r1))" unfolding r1(2) [symmetric] by simp
    ultimately have "cost (along q h t) (zero_cols (length q)) = Inr (\<phi> t, snd (pr r1))" by (rule subst [rotated])
    with r1(3) show "\<exists>g'. cost (along q h t) (zero_cols (length q)) = Inr (\<phi> t, g') \<and> length g' = length q" by blast
  qed
  with 1(1) 1(2) [symmetric] 1(3) show ?thesis unfolding has_gradient_def 1(4) by (intro conjI exI [of _ \<phi>])
qed

lemma smoothness_gradient:
  assumes h: "length h = length q" and run: "calcSmoothnessCost q (zero_cols (length q)) True = Inr (f, g)"
  shows "has_gradient (\<lambda>p z. calcSmoothnessCost p z True) q h f g"
  using good_has_gradient [OF good_fold [of "[0..int (length q) - 4]" id q h jerk_term, OF good_jerk [OF h]], of "(0, zero_cols (length q))" "(f, g)"
      "\<lambda>p z. calcSmoothnessCost p z True"] run h
  by (simp add: calcSmoothnessCost_def)

lemma feasibility_gradient:
  assumes h: "length h = length q" and m: "0 \<le> opt_max_vel s" "0 \<le> opt_max_acc s"
    and run: "calcFeasibilityCost s q (zero_cols (length q)) = Inr (f, g)"
  shows "has_gradient (calcFeasibilityCost s) q h f g"
proof -
  let ?ts = "bspline_interval s" and ?n = "int (length q)"
  let ?F = "\<lambda>q st. bind_result (fold_result (vel_feasible_term ?ts (opt_max_vel s) q) [0..?n - 2] st)
      (fold_result (acc_feasible_term ?ts (opt_max_acc s) q) [0..?n - 3])"
  have vel: "good_term id q h (\<lambda>q. vel_feasible_term ?ts (opt_max_vel s) q i)" for i
    unfolding vel_feasible_rows by (intro good_fold good_vel_row [OF h _ m(1)])
  have acc: "good_term id q h (\<lambda>q. acc_feasible_term ?ts (opt_max_acc s) q i)" for i
    unfolding acc_feasible_rows by (intro good_fold good_acc_row [OF h _ m(2)])
  have good: "good_term id q h ?F" by (intro good_then good_fold vel acc)
  have ts: "?ts \<noteq> 0" using run by (auto simp: calcFeasibilityCost_def Let_def split: if_splits)
  have F: "calcFeasibilityCost s p z = ?F p (0, z)" if "length p = length q" for p z
    using ts that by (simp add: calcFeasibilityCost_def Let_def)
  have "?F q (0, zero_cols (length q)) = Inr (f, g)" using run F [of q] by simp
  from good_has_gradient [OF good _ this, of "calcFeasibilityCost s"] F h show ?thesis by simp
qed

lemma fitness_gradient:
  assumes h: "length h = length q" and run: "calcFitnessCost s q (zero_cols (length q)) = Inr (f, g)"
  shows "has_gradient (calcFitnessCost s) q h f g"
  using good_has_gradient [OF good_fold [of "[order s - 1..int (length q) - order s]" id q h "fitness_term (ref_pts s)", OF good_fitness [OF h]],
      of "(0, zero_cols (length q))" "(f, g)" "calcFitnessCost s"] run h
  by (simp add: calcFitnessCost_def)

lemma terminal_gradient:
  assumes h: "length h = length q" and run: "calcTerminalCost target q (zero_cols (length q)) = Inr (f, g)"
  shows "has_gradient (calcTerminalCost target) q h f g"
proof -
  have "from_zero (calcTerminalCost target p) (0, zero_cols (length q)) = calcTerminalCost target p (zero_cols (length q))" for p
    by (cases "calcTerminalCost target p (zero_cols (length q))") (auto simp: from_zero_def)
  with good_has_gradient [OF good_terminal [OF h, of target], of "(0, zero_cols (length q))" "(f, g)" "calcTerminalCost target"] run h
  show ?thesis by simp
qed

text \<open>The obstacles, with the base points as they are.\<close>

definition obstacle_cost :: "ctrl_points \<Rightarrow> int \<Rightarrow> vec3 list \<Rightarrow> vec3 list \<Rightarrow> cpp_error + real \<times> vec3 list" where
  "obstacle_cost c ord q z = fold_result (point_terms (c\<lparr>points := q\<rparr>)) [ord..int (length q) - ord - 1] (0, z)"

lemma good_point:
  assumes h: "length h = length q" and c: "0 \<le> clearance c"
  shows "good_term id q h (\<lambda>q. point_terms (c\<lparr>points := q\<rparr>) i)"
proof (cases "fetch_at (direction c) i")
  case (Inl e)
  then show ?thesis by (simp add: good_term_def point_terms_def)
next
  case (Inr ds)
  have "good_term id q h (\<lambda>q. fold_result (base_term (c\<lparr>points := q\<rparr>)) (map (Pair i) [0..<length ds]))"
    by (rule good_fold) (use good_base [OF h c] in auto)
  moreover have "point_terms (c\<lparr>points := q\<rparr>) i = fold_result (base_term (c\<lparr>points := q\<rparr>)) (map (Pair i) [0..<length ds])" for q
    using Inr by (intro ext) (simp add: point_terms_def)
  ultimately show ?thesis by simp
qed

lemma obstacle_gradient:
  assumes h: "length h = length q" and c: "0 \<le> clearance c" and run: "obstacle_cost c ord q (zero_cols (length q)) = Inr (f, g)"
  shows "has_gradient (obstacle_cost c ord) q h f g"
  using good_has_gradient [OF good_fold [of "[ord..int (length q) - ord - 1]" id q h "\<lambda>q. point_terms (c\<lparr>points := q\<rparr>)", OF good_point [OF h c]],
      of "(0, zero_cols (length q))" "(f, g)" "obstacle_cost c ord"] run h
  by (simp add: obstacle_cost_def)

text \<open>The other drones, at the times of one reading of the clock.\<close>

definition swarm_cost :: "optimizer \<Rightarrow> real \<Rightarrow> vec3 list \<Rightarrow> vec3 list \<Rightarrow> cpp_error + real \<times> vec3 list" where
  "swarm_cost s now q z =
     bind_result (fold_result (swarm_term (s\<lparr>cps := (cps s)\<lparr>points := q\<rparr>\<rparr>) now) (swarm_pairs s (int (length q)))
       (0, z, min_ellip_dist s)) (\<lambda>(f, g, _). Inr (f, g))"

lemma good_swarm:
  assumes h: "length h = length q" and C: "0 \<le> opt_clearance s"
  shows "good_term (\<lambda>(c, g, _). (c, g)) q h (\<lambda>q. swarm_term (s\<lparr>cps := (cps s)\<lparr>points := q\<rparr>\<rparr>) now (i, k))"
proof -
  let ?o = "swarm_trajs s ! k"
  show ?thesis
  proof (cases "drone_id ?o \<noteq> int k \<or> drone_id ?o = opt_drone_id s \<or>
      \<not> swarm_time s now i < sw_start_time ?o + sw_duration ?o - 1 / 10")
    case True
    then have "swarm_term (s\<lparr>cps := (cps s)\<lparr>points := q\<rparr>\<rparr>) now (i, k) = Inr" for q
      by (intro ext) (auto simp: swarm_term_def swarm_time_def Let_def)
    then show ?thesis by (simp add: good_skip)
  next
    case False
    then have eq: "swarm_term (s\<lparr>cps := (cps s)\<lparr>points := q\<rparr>\<rparr>) now (i, k) =
        (\<lambda>st. bind_result (evaluateDeBoorT (swarm_time s now i - sw_start_time ?o) (sw_position_traj ?o)) (\<lambda>o'.
                bind_result (fetch_at q i) (\<lambda>p. swarm_point_term (opt_clearance s * 2) i p o' st)))" for q
      by (intro ext) (auto simp: swarm_term_def swarm_time_def Let_def)
    show ?thesis
    proof (cases "evaluateDeBoorT (swarm_time s now i - sw_start_time ?o) (sw_position_traj ?o)")
      case (Inl e)
      then show ?thesis by (simp add: eq good_term_def)
    next
      case (Inr o')
      then show ?thesis unfolding eq using good_swarm_point [OF h, of "opt_clearance s * 2" i o'] C by simp
    qed
  qed
qed

text \<open>The cost does not depend on the distance that the search started with.\<close>

lemma swarm_point_term_nearest:
  "swarm_point_term C i p o' (c, g, n) = Inr (c', g', n') \<Longrightarrow> \<exists>m'. swarm_point_term C i p o' (c, g, m) = Inr (c', g', m')"
  by (cases "C - ellip_norm (vsub p o') < 0") (auto simp: swarm_point_term_def Let_def)

lemma swarm_term_nearest:
  "swarm_term s now x (c, g, n) = Inr (c', g', n') \<Longrightarrow> \<exists>m'. swarm_term s now x (c, g, m) = Inr (c', g', m')"
proof -
  assume run: "swarm_term s now x (c, g, n) = Inr (c', g', n')"
  obtain i k where x: "x = (i, k)" by (cases x)
  let ?o = "swarm_trajs s ! k"
  consider "drone_id ?o \<noteq> int k \<or> drone_id ?o = opt_drone_id s"
    | "\<not> (drone_id ?o \<noteq> int k \<or> drone_id ?o = opt_drone_id s)" "\<not> swarm_time s now i < sw_start_time ?o + sw_duration ?o - 1 / 10"
    | "\<not> (drone_id ?o \<noteq> int k \<or> drone_id ?o = opt_drone_id s)" "swarm_time s now i < sw_start_time ?o + sw_duration ?o - 1 / 10"
    by blast
  then show ?thesis
  proof cases
    case 3
    with run obtain o' p where "evaluateDeBoorT (swarm_time s now i - sw_start_time ?o) (sw_position_traj ?o) = Inr o'"
      "fetch_at (points (cps s)) i = Inr p" "swarm_point_term (opt_clearance s * 2) i p o' (c, g, n) = Inr (c', g', n')"
      by (auto simp: swarm_term_def Let_def x)
    with swarm_point_term_nearest [OF this(3)] 3 show ?thesis by (simp add: swarm_term_def Let_def x)
  qed (use run in \<open>auto simp: swarm_term_def Let_def x\<close>)
qed

lemma swarm_fold_nearest:
  "fold_result (swarm_term s now) xs (c, g, n) = Inr (c', g', n') \<Longrightarrow>
   \<exists>m'. fold_result (swarm_term s now) xs (c, g, m) = Inr (c', g', m')"
proof (induction xs arbitrary: c g n m)
  case (Cons x xs)
  then obtain c1 g1 n1 where 1: "swarm_term s now x (c, g, n) = Inr (c1, g1, n1)"
    and rest: "fold_result (swarm_term s now) xs (c1, g1, n1) = Inr (c', g', n')" by auto
  from swarm_term_nearest [OF 1] obtain m1 where "swarm_term s now x (c, g, m) = Inr (c1, g1, m1)" by blast
  with Cons.IH [OF rest, of m1] show ?case by auto
qed simp

lemma swarm_gradient:
  assumes h: "length h = length q" and C: "0 \<le> opt_clearance s" and run: "swarm_cost s now q (zero_cols (length q)) = Inr (f, g)"
  shows "has_gradient (swarm_cost s now) q h f g"
proof -
  let ?F = "\<lambda>q. fold_result (swarm_term (s\<lparr>cps := (cps s)\<lparr>points := q\<rparr>\<rparr>) now) (swarm_pairs s (int (length h)))"
  have good: "good_term (\<lambda>(c, g, _). (c, g)) q h ?F"
    by (rule good_fold) (use good_swarm [OF h C] in force)
  from run h obtain n where r: "?F q (0, zero_cols (length q), min_ellip_dist s) = Inr (f, g, n)" by (auto simp: swarm_cost_def)
  show ?thesis
    using good_has_gradient [OF good _ r, of "swarm_cost s now"] h by (auto simp: swarm_cost_def)
qed

section \<open>The weighted costs\<close>

lemma has_gradientE:
  assumes "has_gradient cost q h f g"
  obtains \<phi> where "length g = length q" "\<phi> 0 = f" "(\<phi> has_real_derivative gdot g h) (at 0)"
    "\<forall>\<^sub>F t in nhds 0. \<exists>g'. cost (along q h t) (zero_cols (length q)) = Inr (\<phi> t, g') \<and> length g' = length q"
  using assms unfolding has_gradient_def by blast

lemma load_vars_ok: "0 \<le> ord \<Longrightarrow> 3 * nat ord + n \<le> 3 * length g \<Longrightarrow> \<exists>v. load_vars ord n g = Inr v"
  by (simp add: load_vars_def)

lemma calcFitnessCost_cps [simp]: "calcFitnessCost (s\<lparr>cps := c\<rparr>) = calcFitnessCost s"
  by (intro ext) (simp add: calcFitnessCost_def)

lemma calcFeasibilityCost_cps [simp]: "calcFeasibilityCost (s\<lparr>cps := c\<rparr>) = calcFeasibilityCost s"
  by (intro ext) (simp add: calcFeasibilityCost_def Let_def)

lemma refine_line:
  assumes run: "combineCostRefine x s = Inr (f, grad, s')" and h: "length h = length x"
    and m: "0 \<le> opt_max_vel s" "0 \<le> opt_max_acc s"
  shows "\<exists>\<phi>. \<phi> 0 = f \<and> (\<phi> has_real_derivative vecdot grad h) (at 0) \<and>
    (\<forall>\<^sub>F t in nhds 0. \<exists>g r. combineCostRefine (vecadd x h t) s = Inr (\<phi> t, g, r))"
proof -
  from run obtain ps f1 g1 f2 g2 f3 g3 where st: "store_vars (order s) x (points (cps s)) = Inr ps"
    and costs: "calcSmoothnessCost ps (zero_cols (length ps)) True = Inr (f1, g1)"
      "calcFitnessCost s ps (zero_cols (length ps)) = Inr (f2, g2)"
      "calcFeasibilityCost s ps (zero_cols (length ps)) = Inr (f3, g3)"
    and f: "f = lambda1 s * f1 + lambda4 s * f2 + lambda3 s * f3"
    and ld: "load_vars (order s) (length x) (weighted [(lambda1 s, g1), (lambda4 s, g2), (lambda3 s, g3)]) = Inr grad"
    by (auto simp: combineCostRefine_def Let_def)
  define H where "H = lift_direction (order s) h ps"
  note S = store_vars_Inr [OF st]
  have H: "length H = length ps" using lift_direction_doubles(2) [of "order s" h ps] S h by (simp add: H_def)
  from smoothness_gradient [OF H costs(1)] obtain \<phi>1 where 1: "length g1 = length ps" "\<phi>1 0 = f1" "(\<phi>1 has_real_derivative gdot g1 H) (at 0)"
    "\<forall>\<^sub>F t in nhds 0. \<exists>g'. calcSmoothnessCost (along ps H t) (zero_cols (length ps)) True = Inr (\<phi>1 t, g') \<and> length g' = length ps"
    by (rule has_gradientE)
  from fitness_gradient [OF H costs(2)] obtain \<phi>2 where 2: "length g2 = length ps" "\<phi>2 0 = f2" "(\<phi>2 has_real_derivative gdot g2 H) (at 0)"
    "\<forall>\<^sub>F t in nhds 0. \<exists>g'. calcFitnessCost s (along ps H t) (zero_cols (length ps)) = Inr (\<phi>2 t, g') \<and> length g' = length ps"
    by (rule has_gradientE)
  from feasibility_gradient [OF H m costs(3)] obtain \<phi>3 where 3: "length g3 = length ps" "\<phi>3 0 = f3" "(\<phi>3 has_real_derivative gdot g3 H) (at 0)"
    "\<forall>\<^sub>F t in nhds 0. \<exists>g'. calcFeasibilityCost s (along ps H t) (zero_cols (length ps)) = Inr (\<phi>3 t, g') \<and> length g' = length ps"
    by (rule has_gradientE)
  let ?\<phi> = "\<lambda>t. lambda1 s * \<phi>1 t + lambda4 s * \<phi>2 t + lambda3 s * \<phi>3 t"
  note W = weighted_gdot [where gs = "[(lambda1 s, g1), (lambda4 s, g2), (lambda3 s, g3)]" and h = H]
  have "gdot (weighted [(lambda1 s, g1), (lambda4 s, g2), (lambda3 s, g3)]) H = vecdot grad h"
    unfolding H_def by (rule load_gdot [OF ld [folded h], symmetric]) (use W(1) 1(1) 2(1) 3(1) H in simp)
  moreover have "gdot (weighted [(lambda1 s, g1), (lambda4 s, g2), (lambda3 s, g3)]) H =
      lambda1 s * gdot g1 H + lambda4 s * gdot g2 H + lambda3 s * gdot g3 H"
    using W(2) 1(1) 2(1) 3(1) H by simp
  ultimately have "(?\<phi> has_real_derivative vecdot grad h) (at 0)"
    using DERIV_add [OF DERIV_add [OF DERIV_cmult [OF 1(3)] DERIV_cmult [OF 2(3)]] DERIV_cmult [OF 3(3)]] by metis
  moreover have "\<forall>\<^sub>F t in nhds 0. \<exists>g r. combineCostRefine (vecadd x h t) s = Inr (?\<phi> t, g, r)"
    using 1(4) 2(4) 3(4)
  proof eventually_elim
    case (elim t)
    then obtain k1 k2 k3 where
      k: "calcSmoothnessCost (along ps H t) (zero_cols (length ps)) True = Inr (\<phi>1 t, k1)" "length k1 = length ps"
        "calcFitnessCost s (along ps H t) (zero_cols (length ps)) = Inr (\<phi>2 t, k2)" "length k2 = length ps"
        "calcFeasibilityCost s (along ps H t) (zero_cols (length ps)) = Inr (\<phi>3 t, k3)" "length k3 = length ps" by blast
    have "length (weighted [(lambda1 s, k1), (lambda4 s, k2), (lambda3 s, k3)]) = length H" by (rule weighted_gdot) (use k H in simp_all)
    with load_vars_ok [of "order s" "length x" "weighted [(lambda1 s, k1), (lambda4 s, k2), (lambda3 s, k3)]", OF S(1)] H S(2,3) obtain v where
      "load_vars (order s) (length x) (weighted [(lambda1 s, k1), (lambda4 s, k2), (lambda3 s, k3)]) = Inr v" by auto
    moreover have "length (vecadd x h t) = length x" using h by (simp add: vecadd_def)
    ultimately show ?case
      using k H by (simp add: combineCostRefine_def Let_def store_itself(1) [OF st h, folded H_def])
  qed
  ultimately show ?thesis using f 1(2) 2(2) 3(2) by (intro exI [of _ ?\<phi>]) simp
qed

text \<open>
  After an evaluation for the rebound: the same cost once more, without the search for new base points
  and at the same reading of the clock.
\<close>

definition frozen :: "optimizer \<Rightarrow> optimizer" where
  "frozen s = s\<lparr>iter_num := 0, clock_reads := clock_reads s - 1\<rparr>"

lemma combineCostRebound_frozen:
  fixes e s' p
  defines "z \<equiv> zero_cols (length p)"
  assumes len: "cp_size (cps s') = int (length p)" "length p = length (points (cps s'))"
    and st: "store_vars (order s') y (points (cps s')) = Inr p"
    and costs: "calcSmoothnessCost p z True = Inr (f1, g1)" "obstacle_cost (cps s') (order s') p z = Inr (f2, g2)"
      "calcFeasibilityCost s' p z = Inr (f3, g3)" "swarm_cost s' (env_clock e (clock_reads s' - 1)) p z = Inr (f4, g4)"
      "calcTerminalCost (local_target_pt s') p z = Inr (f5, g5)"
    and lens: "length g1 = length p" "length g2 = length p" "length g3 = length p" "length g4 = length p" "length g5 = length p"
  shows "\<exists>g r. combineCostRebound e y (frozen s') =
    Inr (lambda1 s' * f1 + new_lambda2 s' * f2 + lambda3 s' * f3 + new_lambda2 s' * f4 + lambda2 s' * f5, g, r)"
proof -
  let ?c = "(cps s')\<lparr>points := p\<rparr>"
  let ?s = "s'\<lparr>iter_num := 0, clock_reads := clock_reads s' - 1, cps := ?c, force_stop_type := DONT_STOP\<rparr>"
  have z: "zero_cols (nat (cp_size (cps (frozen s')))) = z" using len by (simp add: frozen_def z_def)
  have same: "calcFeasibilityCost ?s = calcFeasibilityCost s'"
    "swarm_term ?s = swarm_term (s'\<lparr>cps := ?c\<rparr>)" "swarm_pairs ?s = swarm_pairs s'"
    by (intro ext; simp add: calcFeasibilityCost_def swarm_term_def swarm_time_def swarm_pairs_def Let_def split: prod.splits)+
  have d: "calcDistanceCostRebound e ((frozen s')\<lparr>cps := ?c\<rparr>) p z (iter_num (frozen s')) f1 = Inr ((f2, g2), ?s)"
    using costs(2) by (simp add: calcDistanceCostRebound_def frozen_def obstacle_cost_def)
  from costs(4) obtain n where "fold_result (swarm_term (s'\<lparr>cps := ?c\<rparr>) (env_clock e (clock_reads s' - 1)))
      (swarm_pairs s' (int (length p))) (0, z, min_ellip_dist s') = Inr (f4, g4, n)" by (auto simp: swarm_cost_def)
  then have w: "calcSwarmCost e ?s p z = Inr ((f4, g4), ?s\<lparr>min_ellip_dist := n, clock_reads := Suc (clock_reads s' - 1)\<rparr>)"
    unfolding calcSwarmCost_def same by simp
  have fz: "calcFeasibilityCost ?s p z = Inr (f3, g3)" unfolding same by (rule costs(3))
  let ?gs = "[(lambda1 s', g1), (new_lambda2 s', g2), (lambda3 s', g3), (new_lambda2 s', g4), (lambda2 s', g5)]"
  have "length (weighted ?gs) = length p" by (rule weighted_gdot) (use lens in simp_all)
  with load_vars_ok [of "order s'" "length y" "weighted ?gs"] store_vars_Inr(1,2) [OF st] len(2) obtain v where
    "load_vars (order s') (length y) (weighted ?gs) = Inr v" by auto
  moreover have "order (frozen s') = order s'" "points (cps (frozen s')) = points (cps s')" "cps (frozen s') = cps s'"
    "lambda1 (frozen s') = lambda1 s'"
    by (simp_all add: frozen_def)
  ultimately show ?thesis
    using d w fz st costs z by (simp add: combineCostRebound_def Let_def)
qed

lemma rebound_line:
  assumes run: "combineCostRebound e x s = Inr (f, grad, s')" and h: "length h = length x"
    and m: "0 \<le> opt_max_vel s" "0 \<le> opt_max_acc s" and c: "0 \<le> clearance (cps s)" "0 \<le> opt_clearance s"
    and size: "cp_size (cps s) = int (length (points (cps s)))"
  shows "\<exists>\<phi>. \<phi> 0 = f \<and> (\<phi> has_real_derivative vecdot grad h) (at 0) \<and>
    (\<forall>\<^sub>F t in nhds 0. \<exists>g r. combineCostRebound e (vecadd x h t) (frozen s') = Inr (\<phi> t, g, r))"
proof -
  from combineCostRebound_Inr [OF run] obtain ps f1 g1 f2 g2 s1 f3 g3 f4 g4 f5 g5 where
    st: "store_vars (order s) x (points (cps s)) = Inr ps"
    and costs: "calcSmoothnessCost ps (zero_cols (nat (cp_size (cps s)))) True = Inr (f1, g1)"
      "calcDistanceCostRebound e (s\<lparr>cps := (cps s)\<lparr>points := ps\<rparr>\<rparr>) ps (zero_cols (nat (cp_size (cps s)))) (iter_num s) f1 = Inr ((f2, g2), s1)"
      "calcFeasibilityCost s1 ps (zero_cols (nat (cp_size (cps s)))) = Inr (f3, g3)"
      "calcSwarmCost e s1 ps (zero_cols (nat (cp_size (cps s)))) = Inr ((f4, g4), s')"
      "calcTerminalCost (local_target_pt s') ps (zero_cols (nat (cp_size (cps s)))) = Inr (f5, g5)"
    and f: "f = lambda1 s' * f1 + new_lambda2 s' * f2 + lambda3 s' * f3 + new_lambda2 s' * f4 + lambda2 s' * f5"
    and ld: "load_vars (order s) (length x)
      (weighted [(lambda1 s', g1), (new_lambda2 s', g2), (lambda3 s', g3), (new_lambda2 s', g4), (lambda2 s', g5)]) = Inr grad"
    by blast
  note S = store_vars_Inr [OF st]
  note K = calcDistanceCostRebound_keeps [OF costs(2)]
  have cps1: "points (cps s1) = ps" "cp_size (cps s1) = cp_size (cps s)" "clearance (cps s1) = clearance (cps s)"
    using K by (simp_all add: same_shape_def)
  from K have fields1: "same_setting (s\<lparr>cps := (cps s)\<lparr>points := ps\<rparr>\<rparr>) s1" by blast
  from costs(4) obtain n where s': "s' = s1\<lparr>min_ellip_dist := n, clock_reads := Suc (clock_reads s1)\<rparr>"
    and sw: "fold_result (swarm_term s1 (env_clock e (clock_reads s1))) (swarm_pairs s1 (int (length ps)))
      (0, zero_cols (nat (cp_size (cps s))), min_ellip_dist s1) = Inr (f4, g4, n)"
    by (auto simp: calcSwarmCost_def)
  define H where "H = lift_direction (order s) h ps"
  define z where "z = zero_cols (length ps)"
  have z: "zero_cols (nat (cp_size (cps s))) = z" using size S(3) by (simp add: z_def)
  have H: "length H = length ps" using lift_direction_doubles(2) [of "order s" h ps] S h by (simp add: H_def)
  have feas: "calcFeasibilityCost s' = calcFeasibilityCost s1"
    by (intro ext) (simp add: s' calcFeasibilityCost_def Let_def)
  have lim: "0 \<le> opt_max_vel s'" "0 \<le> opt_max_acc s'" "0 \<le> opt_clearance s'" "order s' = order s"
    using same_setting_fields [OF fields1] m c by (simp_all add: s')
  have "obstacle_cost (cps s') (order s') ps z = Inr (f2, g2)"
    using costs(2) cps1 same_setting_fields(2) [OF fields1] z
    by (auto simp: calcDistanceCostRebound_def obstacle_cost_def s' Let_def split: if_splits)
  note g2 = obstacle_gradient [OF H _ this [unfolded z_def]]
  have swc: "swarm_term (s'\<lparr>cps := cps s1\<lparr>points := ps\<rparr>\<rparr>) = swarm_term s1" "swarm_pairs s' = swarm_pairs s1"
    by (intro ext; simp add: s' swarm_term_def swarm_time_def swarm_pairs_def Let_def cps1(1) split: prod.splits)+
  have "swarm_cost s' (env_clock e (clock_reads s' - 1)) ps z = Inr (f4, g4)"
    using swarm_fold_nearest [OF sw [unfolded z], of "min_ellip_dist s'"] swc cps1(1) by (auto simp: swarm_cost_def s')
  note g4 = swarm_gradient [OF H lim(3) this [unfolded z_def]]
  have cl: "0 \<le> clearance (cps s')" using c(1) cps1(3) by (simp add: s')
  from smoothness_gradient [OF H costs(1) [unfolded z z_def]] obtain \<phi>1 where 1: "length g1 = length ps" "\<phi>1 0 = f1" "(\<phi>1 has_real_derivative gdot g1 H) (at 0)"
    "\<forall>\<^sub>F t in nhds 0. \<exists>g'. calcSmoothnessCost (along ps H t) (zero_cols (length ps)) True = Inr (\<phi>1 t, g') \<and> length g' = length ps"
    by (rule has_gradientE)
  from g2 [OF cl] obtain \<phi>2 where 2: "length g2 = length ps" "\<phi>2 0 = f2" "(\<phi>2 has_real_derivative gdot g2 H) (at 0)"
    "\<forall>\<^sub>F t in nhds 0. \<exists>g'. obstacle_cost (cps s') (order s') (along ps H t) (zero_cols (length ps)) = Inr (\<phi>2 t, g') \<and> length g' = length ps"
    by (rule has_gradientE)
  have costs3: "calcFeasibilityCost s' ps (zero_cols (length ps)) = Inr (f3, g3)" using costs(3) unfolding feas z z_def .
  from feasibility_gradient [OF H lim(1,2) costs3] obtain \<phi>3 where 3: "length g3 = length ps" "\<phi>3 0 = f3" "(\<phi>3 has_real_derivative gdot g3 H) (at 0)"
    "\<forall>\<^sub>F t in nhds 0. \<exists>g'. calcFeasibilityCost s' (along ps H t) (zero_cols (length ps)) = Inr (\<phi>3 t, g') \<and> length g' = length ps"
    by (rule has_gradientE)
  from g4 obtain \<phi>4 where 4: "length g4 = length ps" "\<phi>4 0 = f4" "(\<phi>4 has_real_derivative gdot g4 H) (at 0)"
    "\<forall>\<^sub>F t in nhds 0. \<exists>g'. swarm_cost s' (env_clock e (clock_reads s' - 1)) (along ps H t) (zero_cols (length ps)) = Inr (\<phi>4 t, g') \<and> length g' = length ps"
    by (rule has_gradientE)
  from terminal_gradient [OF H costs(5) [unfolded z z_def]] obtain \<phi>5 where 5: "length g5 = length ps" "\<phi>5 0 = f5" "(\<phi>5 has_real_derivative gdot g5 H) (at 0)"
    "\<forall>\<^sub>F t in nhds 0. \<exists>g'. calcTerminalCost (local_target_pt s') (along ps H t) (zero_cols (length ps)) = Inr (\<phi>5 t, g') \<and> length g' = length ps"
    by (rule has_gradientE)
  let ?gs = "[(lambda1 s', g1), (new_lambda2 s', g2), (lambda3 s', g3), (new_lambda2 s', g4), (lambda2 s', g5)]"
  let ?\<phi> = "\<lambda>t. lambda1 s' * \<phi>1 t + new_lambda2 s' * \<phi>2 t + lambda3 s' * \<phi>3 t + new_lambda2 s' * \<phi>4 t + lambda2 s' * \<phi>5 t"
  note W = weighted_gdot [where gs = ?gs and h = H]
  have "gdot (weighted ?gs) H = vecdot grad h"
    unfolding H_def by (rule load_gdot [OF ld [folded h], symmetric]) (use W(1) 1(1) 2(1) 3(1) 4(1) 5(1) H in simp)
  moreover have "gdot (weighted ?gs) H = lambda1 s' * gdot g1 H + new_lambda2 s' * gdot g2 H + lambda3 s' * gdot g3 H +
      new_lambda2 s' * gdot g4 H + lambda2 s' * gdot g5 H"
    using W(2) 1(1) 2(1) 3(1) 4(1) 5(1) H by simp
  ultimately have D: "lambda1 s' * gdot g1 H + new_lambda2 s' * gdot g2 H + lambda3 s' * gdot g3 H +
      new_lambda2 s' * gdot g4 H + lambda2 s' * gdot g5 H = vecdot grad h" by (rule trans [OF sym, rotated])
  have "(?\<phi> has_real_derivative vecdot grad h) (at 0)"
    by (rule DERIV_cong [OF DERIV_add [OF DERIV_add [OF DERIV_add [OF DERIV_add [OF DERIV_cmult [OF 1(3)] DERIV_cmult [OF 2(3)]]
      DERIV_cmult [OF 3(3)]] DERIV_cmult [OF 4(3)]] DERIV_cmult [OF 5(3)]] D])
  moreover have "\<forall>\<^sub>F t in nhds 0. \<exists>g r. combineCostRebound e (vecadd x h t) (frozen s') = Inr (?\<phi> t, g, r)"
    using 1(4) 2(4) 3(4) 4(4) 5(4)
  proof eventually_elim
    case (elim t)
    let ?p = "along ps H t"
    have p: "length ?p = length ps" using H by simp
    from elim obtain k1 k2 k3 k4 k5 where
      k: "calcSmoothnessCost ?p (zero_cols (length ps)) True = Inr (\<phi>1 t, k1)" "length k1 = length ps"
        "obstacle_cost (cps s') (order s') ?p (zero_cols (length ps)) = Inr (\<phi>2 t, k2)" "length k2 = length ps"
        "calcFeasibilityCost s' ?p (zero_cols (length ps)) = Inr (\<phi>3 t, k3)" "length k3 = length ps"
        "swarm_cost s' (env_clock e (clock_reads s' - 1)) ?p (zero_cols (length ps)) = Inr (\<phi>4 t, k4)" "length k4 = length ps"
        "calcTerminalCost (local_target_pt s') ?p (zero_cols (length ps)) = Inr (\<phi>5 t, k5)" "length k5 = length ps" by blast
    have stp: "store_vars (order s') (vecadd x h t) (points (cps s')) = Inr ?p"
      using store_itself(2) [OF st h, folded H_def] cps1(1) lim(4) by (simp add: s')
    have len: "cp_size (cps s') = int (length ?p)" "length ?p = length (points (cps s'))"
      using p cps1 size S(3) by (simp_all add: s')
    note kp = k [folded p]
    show ?case by (rule combineCostRebound_frozen [OF len stp kp(1) kp(3) kp(5) kp(7) kp(9) kp(2) kp(4) kp(6) kp(8) kp(10)])
  qed
  ultimately show ?thesis using f 1(2) 2(2) 3(2) 4(2) 5(2) by (intro exI [of _ ?\<phi>]) simp
qed

section \<open>The properties\<close>

text \<open>What a cost is on a line; only its values where it does not fail matter for a derivative.\<close>

definition cost_on_line ::
    "(real list \<Rightarrow> 's \<Rightarrow> cpp_error + real \<times> real list \<times> 's) \<Rightarrow> real list \<Rightarrow> real list \<Rightarrow> 's \<Rightarrow> real \<Rightarrow> real" where
  "cost_on_line evaluate x h s t = (case evaluate (vecadd x h t) s of Inr (f, _, _) \<Rightarrow> f | Inl _ \<Rightarrow> 0)"

lemma line_derivative:
  assumes "\<exists>\<phi>. \<phi> 0 = f \<and> (\<phi> has_real_derivative D) (at 0) \<and>
    (\<forall>\<^sub>F t in nhds 0. \<exists>g r. evaluate (vecadd x h t) s = Inr (\<phi> t, g, r))"
  shows "cost_on_line evaluate x h s 0 = f \<and> (cost_on_line evaluate x h s has_real_derivative D) (at 0) \<and>
    (\<forall>\<^sub>F t in nhds 0. \<not> isl (evaluate (vecadd x h t) s))"
proof -
  from assms obtain \<phi> where \<phi>: "\<phi> 0 = f" "(\<phi> has_real_derivative D) (at 0)"
    and ev: "\<forall>\<^sub>F t in nhds 0. \<exists>g r. evaluate (vecadd x h t) s = Inr (\<phi> t, g, r)" by blast
  from ev have eq: "\<forall>\<^sub>F t in nhds 0. cost_on_line evaluate x h s t = \<phi> t"
    by eventually_elim (auto simp: cost_on_line_def)
  moreover from ev have "\<forall>\<^sub>F t in nhds 0. \<not> isl (evaluate (vecadd x h t) s)" by eventually_elim auto
  moreover have "(cost_on_line evaluate x h s has_real_derivative D) (at 0)"
    using \<phi>(2) DERIV_cong_ev [OF refl eq refl, of D] by simp
  ultimately show ?thesis using \<phi>(1) eventually_nhds_x_imp_x [OF eq] by simp
qed

text \<open>
  C5: The gradient of the rebound is the derivative of its cost.  After an evaluation, with limits and
  clearances that are not negative, the same cost (the base points that the evaluation left and the
  same reading of the clock) has along every direction of the variables the derivative that the
  gradient says: smoothness, obstacles, limits of velocity and acceleration, other drones and target
  together.
\<close>

theorem rebound_gradient:
  assumes "combineCostRebound e x s = Inr (f, grad, s')" "length h = length x"
    "0 \<le> opt_max_vel s" "0 \<le> opt_max_acc s" "0 \<le> clearance (cps s)" "0 \<le> opt_clearance s"
    "cp_size (cps s) = int (length (points (cps s)))"
  shows "cost_on_line (combineCostRebound e) x h (frozen s') 0 = f \<and>
    (cost_on_line (combineCostRebound e) x h (frozen s') has_real_derivative vecdot grad h) (at 0) \<and>
    (\<forall>\<^sub>F t in nhds 0. \<not> isl (combineCostRebound e (vecadd x h t) (frozen s')))"
  by (rule line_derivative) (rule rebound_line [OF assms])

text \<open>
  The gradient of the refinement is the derivative of its cost: smoothness, distance to the
  reference points, and limits of velocity and acceleration.
\<close>

lemma refine_gradient:
  assumes "combineCostRefine x s = Inr (f, grad, s')" "length h = length x" "0 \<le> opt_max_vel s" "0 \<le> opt_max_acc s"
  shows "cost_on_line combineCostRefine x h s 0 = f \<and>
    (cost_on_line combineCostRefine x h s has_real_derivative vecdot grad h) (at 0) \<and>
    (\<forall>\<^sub>F t in nhds 0. \<not> isl (combineCostRefine (vecadd x h t) s))"
  by (rule line_derivative) (rule refine_line [OF assms])

end
