(* ===== verification/OptimizerProps.thy ===== *)
theory OptimizerProps
  imports OptimizerRun OptimizerDescent PlannerManager
begin

text \<open>
  What the runs of the optimiser promise: a rebound that succeeds leaves a trajectory that is free at
  every time it was looked at, and as many control points as before, the first ones untouched; the
  number of rounds is bounded while no other drone is near; and a refinement does not raise its cost.
\<close>

section \<open>The rebound\<close>

lemma keeps_evaluated: "keeps (evaluated s) (costFunctionRebound e)"
  unfolding keeps_def using costFunctionRebound_evaluated evaluated_trans by blast

text \<open>The settings, and the control points but for those that are optimised.\<close>

definition reshaped :: "optimizer \<Rightarrow> optimizer \<Rightarrow> bool" where
  "reshaped s s' \<longleftrightarrow> same_setting s s' \<and> clearance (cps s') = clearance (cps s) \<and> cp_size (cps s') = cp_size (cps s) \<and>
     length (points (cps s')) = length (points (cps s)) \<and>
     take (nat (order s)) (points (cps s')) = take (nat (order s)) (points (cps s))"

lemma reshaped_refl [simp]: "reshaped s s"
  by (simp add: reshaped_def)

lemma reshaped_trans: "reshaped a b \<Longrightarrow> reshaped b c \<Longrightarrow> reshaped a c"
  by (auto simp: reshaped_def dest: same_setting_trans same_setting_fields)

lemma evaluated_reshaped: "evaluated s s' \<Longrightarrow> reshaped s s'"
  by (simp add: evaluated_def reshaped_def)

lemma restart_keeps:
  assumes "restart e s = Inr s'"
  shows "reshaped s s' \<and> min_ellip_dist s' = min_ellip_dist s"
proof -
  from assms obtain segs s1 where 1: "initControlPoints e (points (cps s)) False s = Inr (segs, s1)"
    and s': "s' = s1\<lparr>new_lambda2 := new_lambda2 s1 * 2\<rparr>" by (auto simp: restart_def)
  have "same_setting s1 s'" unfolding s' by (simp add: same_setting_def)
  with initControlPoints_keeps [OF 1] show ?thesis
    by (auto simp: reshaped_def s' same_shape_def intro: same_setting_trans)
qed

text \<open>What is known after a round.\<close>

lemma rebound_round_cases:
  assumes "rebound_round e fc s = Inr (r, fc', s')"
  obtains s1 where "reshaped s s1" "s' = s1 \<or> restart e s1 = Inr s'"
    "r = Success \<Longrightarrow> s' = s1 \<and> \<not> swarm_too_close s1 \<and> trajectory_hit e s1 = Inr None"
    "r = SwarmClose \<Longrightarrow> swarm_too_close s1"
    "\<And>P. keeps P (costFunctionRebound e) \<Longrightarrow> P (s\<lparr>min_ellip_dist := INIT_min_ellip_dist, iter_num := 0\<rparr>) \<Longrightarrow> P s1"
proof -
  let ?s = "s\<lparr>min_ellip_dist := INIT_min_ellip_dist, iter_num := 0\<rparr>" and ?n = "3 * (cp_size (cps s) - order s)"
  have n: "\<not> ?n < 0" using assms by (auto simp: rebound_round_def Let_def split: if_split_asm)
  from assms [unfolded rebound_round_def Let_def if_not_P [OF n] bind_result_Inr] obtain q res where
    q: "load_vars (order s) (nat ?n) (points (cps s)) = Inr q"
    and run: "lbfgs_optimize 200 (costFunctionRebound e) None earlyExit rebound_params q fc ?s = Inr res"
    and rest: "(case res of (result, _, fc', s1) \<Rightarrow>
                  if finished result then
                    (if swarm_too_close s1 then bind_result (restart e s1) (\<lambda>s2. Inr (SwarmClose, fc', s2))
                     else bind_result (trajectory_hit e s1) (\<lambda>hit. case hit of
                            None \<Rightarrow> Inr (Success, fc', s1)
                          | Some t \<Rightarrow>
                              if t \<le> bspline_interval s1 then Inr (ReturnFalse, fc', s1)
                              else bind_result (restart e s1) (\<lambda>s2. Inr (Collided, fc', s2))))
                  else if result = LBFGSERR_CANCELED then Inr (Cancelled, fc', s1)
                  else Inr (SolverError, fc', s1)) = Inr (r, fc', s')"
    by blast
  obtain code x' fx s1 where res: "res = (code, x', fx, s1)" by (cases res)
  have keep: "P s1" if "keeps P (costFunctionRebound e)" "P ?s" for P
    using lbfgs_optimize_keeps [OF that(1) run [unfolded res] that(2)] .
  have "same_setting s ?s" by (simp add: same_setting_def)
  then have s0: "reshaped s ?s" by (simp add: reshaped_def)
  have "reshaped s s1" using reshaped_trans [OF s0 evaluated_reshaped [OF keep [OF keeps_evaluated evaluated_refl]]] .
  moreover have "s' = s1 \<or> restart e s1 = Inr s'"
    using rest unfolding res by (auto split: if_split_asm option.splits)
  moreover have "s' = s1 \<and> \<not> swarm_too_close s1 \<and> trajectory_hit e s1 = Inr None" if "r = Success"
  proof -
    from rest that have 1: "finished code" "\<not> swarm_too_close s1" unfolding res by (auto split: if_split_asm)
    show ?thesis
    proof (cases "trajectory_hit e s1")
      case (Inl err)
      with 1 rest that show ?thesis unfolding res by simp
    next
      case (Inr hit)
      with 1 rest that show ?thesis unfolding res by (cases hit) (auto split: if_split_asm)
    qed
  qed
  moreover have "swarm_too_close s1" if "r = SwarmClose"
    using rest that unfolding res by (auto split: if_split_asm option.split_asm)
  ultimately show thesis using that [of s1] keep by blast
qed

lemma rebound_round_reshaped:
  assumes "rebound_round e fc s = Inr (r, fc', s')"
  shows "reshaped s s'"
  by (rule rebound_round_cases [OF assms]) (auto dest!: restart_keeps intro: reshaped_trans)

lemma rebound_loop_outcome:
  "rebound_loop n e restarts rebounds fc s = Inr (ok, fc', s') \<Longrightarrow>
   reshaped s s' \<and> (ok \<longrightarrow> trajectory_hit e s' = Inr None \<and> \<not> swarm_too_close s')"
proof (induction n arbitrary: restarts rebounds fc s)
  case (Suc n)
  from Suc.prems obtain res where round: "rebound_round e fc s = Inr res"
    by (simp only: rebound_loop.simps bind_result_Inr) blast
  obtain r fc1 s1 where res: "res = (r, fc1, s1)" by (cases res)
  note 1 = round [unfolded res]
  obtain a b where step: "(if r = ReturnFalse then Inr (False, fc1, s1) else if again r a b s1 then rebound_loop n e a b fc1 s1
      else Inr (r = Success, fc1, s1)) = Inr (ok, fc', s')"
    using Suc.prems 1 by (simp only: rebound_loop.simps bind_result.simps Let_def prod.case)
  then have rest: "ok = (r = Success) \<and> s' = s1 \<or> \<not> ok \<and> s' = s1 \<or>
      (\<exists>restarts rebounds. rebound_loop n e restarts rebounds fc1 s1 = Inr (ok, fc', s'))"
    by (auto split: if_split_asm)
  note 2 = rebound_round_reshaped [OF 1]
  have 3: "trajectory_hit e s1 = Inr None \<and> \<not> swarm_too_close s1" if "r = Success"
    using that by (rule_tac rebound_round_cases [OF 1]) auto
  from rest show ?case
  proof (elim disjE exE)
    fix restarts rebounds assume "rebound_loop n e restarts rebounds fc1 s1 = Inr (ok, fc', s')"
    from Suc.IH [OF this] 2 show ?thesis by (blast intro: reshaped_trans)
  qed (use 2 3 in auto)
qed simp

text \<open>A trajectory that is free at all times it is looked at.\<close>

definition free_at_checks :: "optimizer_env \<Rightarrow> bspline \<Rightarrow> bool" where
  "free_at_checks e traj \<longleftrightarrow> (\<exists>times. trajectory_times e traj = Inr times \<and>
     list_all (\<lambda>t. \<exists>p. evaluateDeBoorT t traj = Inr p \<and> occupied e p = Inr False) times)"

lemma trajectory_hit_free:
  assumes "trajectory_hit e s = Inr None"
  shows "free_at_checks e (UniformBspline (points (cps s)) 3 (bspline_interval s))"
proof -
  have "first_hit e traj times = Inr None \<Longrightarrow>
      list_all (\<lambda>t. \<exists>p. evaluateDeBoorT t traj = Inr p \<and> occupied e p = Inr False) times" for traj times
    by (induction times) (auto split: if_split_asm)
  with assms show ?thesis by (auto simp: trajectory_hit_def free_at_checks_def Let_def)
qed

lemma rebound_outcome:
  assumes "BsplineOptimizeTrajRebound fuel e fc ts s = Inr (ok, ps, s')"
  shows "ps = points (cps s') \<and> same_setting (setBsplineInterval ts s) s' \<and> length ps = length (points (cps s)) \<and>
    take (nat (order s)) ps = take (nat (order s)) (points (cps s)) \<and>
    (ok \<longrightarrow> \<not> swarm_too_close s' \<and> free_at_checks e (UniformBspline ps 3 ts))"
proof -
  let ?s = "setBsplineInterval ts s"
  let ?start = "?s\<lparr>iter_num := 0, new_lambda2 := lambda2 ?s\<rparr>"
  from assms obtain fc' where run: "rebound_loop fuel e 0 0 fc ?start = Inr (ok, fc', s')" and ps: "ps = points (cps s')"
    by (auto simp: BsplineOptimizeTrajRebound_def rebound_optimize_def)
  note R = rebound_loop_outcome [OF run]
  have "same_setting ?s ?start" by (simp add: same_setting_def)
  with R have setting: "same_setting ?s s'" by (auto simp: reshaped_def intro: same_setting_trans)
  have ts: "bspline_interval s' = ts" using same_setting_fields(1) [OF setting] by (simp add: setBsplineInterval_def)
  have "length ps = length (points (cps s))" "take (nat (order s)) ps = take (nat (order s)) (points (cps s))"
    using R ps by (simp_all add: reshaped_def setBsplineInterval_def)
  with R trajectory_hit_free [of e s'] ts ps setting show ?thesis by auto
qed

text \<open>
  C9: A rebound that succeeds is free.  Whatever the search for paths, the minimiser and the restarts
  did, the control points that \<open>BsplineOptimizeTrajRebound\<close> hands back with success form a trajectory
  that is not in an obstacle at any of the times it was looked at, and none of the other drones was
  found too close; there are as many control points as before, the first ones, which fix the state
  the drone flies in, are the same, and so are the settings.
\<close>

theorem rebound_free:
  assumes "BsplineOptimizeTrajRebound fuel e fc ts s = Inr (ok, ps, s')"
  shows "ps = points (cps s') \<and> same_setting (setBsplineInterval ts s) s' \<and> length ps = length (points (cps s)) \<and>
    take (nat (order s)) ps = take (nat (order s)) (points (cps s)) \<and>
    (ok \<longrightarrow> \<not> swarm_too_close s' \<and> free_at_checks e (UniformBspline ps 3 ts))"
  by (rule rebound_outcome [OF assms])

section \<open>The number of rounds\<close>

text \<open>No other drone is looked at: every entry of the buffer is empty or one's own.\<close>

definition alone :: "optimizer \<Rightarrow> bool" where
  "alone s \<longleftrightarrow> (\<forall>k < length (swarm_trajs s). drone_id (swarm_trajs s ! k) \<noteq> int k \<or> drone_id (swarm_trajs s ! k) = opt_drone_id s)"

lemma alone_setting: "same_setting s s' \<Longrightarrow> alone s' = alone s"
  by (simp add: alone_def same_setting_fields)

lemma alone_swarm:
  assumes "alone s" "calcSwarmCost e s q g = Inr (r, s')"
  shows "min_ellip_dist s' = min_ellip_dist s"
proof -
  have skip: "swarm_term s now x st = Inr st" if "x \<in> set (swarm_pairs s n)" for now x st n
    using that assms(1) by (auto simp: swarm_pairs_def Let_def alone_def swarm_term_def)
  have "fold_result (swarm_term s now) xs st = Inr st" if "set xs \<subseteq> set (swarm_pairs s n)" for xs now st n
    using that
  proof (induction xs)
    case (Cons x xs)
    with skip [of x n now st] show ?case by simp
  qed simp
  then have "fold_result (swarm_term s now) (swarm_pairs s n) st = Inr st" for now n st by blast
  then show ?thesis using assms(2) by (auto simp: calcSwarmCost_def)
qed

lemma alone_evaluated: "keeps (\<lambda>s. alone s \<and> min_ellip_dist s = m) (costFunctionRebound e)"
  unfolding keeps_def
proof (intro allI impI)
  fix x s f g s' assume P: "alone s \<and> min_ellip_dist s = m" and run: "costFunctionRebound e x s = Inr (f, g, s')"
  from run obtain s1 where 1: "combineCostRebound e x s = Inr (f, g, s1)" and s': "s' = s1\<lparr>iter_num := iter_num s1 + 1\<rparr>"
    by (auto simp: costFunctionRebound_def)
  from combineCostRebound_Inr [OF 1] obtain ps r2 sa iters sm g' q2 g2 r4 where
    d: "calcDistanceCostRebound e (s\<lparr>cps := (cps s)\<lparr>points := ps\<rparr>\<rparr>) ps g' iters sm = Inr (r2, sa)"
    and w: "calcSwarmCost e sa q2 g2 = Inr (r4, s1)" by blast
  have "same_setting s (s\<lparr>cps := (cps s)\<lparr>points := ps\<rparr>\<rparr>)" by (simp add: same_setting_def)
  then have "same_setting s sa" using calcDistanceCostRebound_keeps [OF d] by (blast intro: same_setting_trans)
  then have "alone sa" using P alone_setting by blast
  with alone_swarm [OF this w] calcDistanceCostRebound_keeps [OF d] P have "min_ellip_dist s1 = m" by simp
  moreover have "alone s'" using costFunctionRebound_evaluated [OF run] P alone_setting by (auto simp: evaluated_def)
  ultimately show "alone s' \<and> min_ellip_dist s' = m" by (simp add: s')
qed

lemma alone_round:
  assumes "rebound_round e fc s = Inr (r, fc', s')" "alone s"
  shows "alone s' \<and> \<not> swarm_too_close s' \<and> r \<noteq> SwarmClose"
proof (rule rebound_round_cases [OF assms(1)])
  fix s1
  assume s': "s' = s1 \<or> restart e s1 = Inr s'" and close: "r = SwarmClose \<Longrightarrow> swarm_too_close s1"
    and P: "\<And>P. keeps P (costFunctionRebound e) \<Longrightarrow> P (s\<lparr>min_ellip_dist := INIT_min_ellip_dist, iter_num := 0\<rparr>) \<Longrightarrow> P s1"
  have "alone s1 \<and> min_ellip_dist s1 = INIT_min_ellip_dist"
    by (rule P [OF alone_evaluated]) (use assms(2) in \<open>simp add: alone_def\<close>)
  moreover from this s' have "alone s' \<and> min_ellip_dist s' = INIT_min_ellip_dist"
    using restart_keeps [of e s1 s'] alone_setting [of s1 s'] by (auto simp: reshaped_def)
  ultimately show ?thesis using close by (auto simp: swarm_too_close_def)
qed

lemma rebound_loop_fuel:
  assumes "alone s" "restarts \<le> 2" "rebounds \<le> 20" "(2 - restarts) + (20 - rebounds) < n" "n \<le> n'"
  shows "rebound_loop n' e restarts rebounds fc s = rebound_loop n e restarts rebounds fc s"
  using assms
proof (induction n arbitrary: n' restarts rebounds fc s)
  case (Suc n)
  from Suc.prems(5) obtain k where n': "n' = Suc k" by (cases n') auto
  show ?case
  proof (cases "rebound_round e fc s")
    case (Inl err)
    then show ?thesis by (simp add: n')
  next
    case (Inr res)
    obtain r fc1 s1 where res: "res = (r, fc1, s1)" by (cases res)
    note A = alone_round [OF Inr [unfolded res] Suc.prems(1)]
    let ?a = "if r = Collided \<or> r = SwarmClose then restarts + 1 else restarts"
    let ?b = "if r = Cancelled then rebounds + 1 else rebounds"
    have "rebound_loop k e ?a ?b fc1 s1 = rebound_loop n e ?a ?b fc1 s1" if "again r ?a ?b s1"
    proof (rule Suc.IH)
      show "(2 - ?a) + (20 - ?b) < n" "?a \<le> 2" "?b \<le> 20" "alone s1" "n \<le> k"
        using that A Suc.prems n' by (auto simp: again_def split: if_split_asm)
    qed
    then show ?thesis using Inr by (simp add: n' res Let_def)
  qed
qed simp

text \<open>
  A rebound ends.  While no other drone is looked at, there are at most twenty-three rounds (two
  restarts after a collision, twenty rebounds, and a last one): more fuel does not change the result.
  The drone may be alone, its buffer may hold only its own trajectory, or entries that are not filled.
\<close>

lemma rebound_rounds:
  assumes "alone s" "23 \<le> fuel"
  shows "rebound_optimize fuel e fc s = rebound_optimize 23 e fc s"
proof -
  have "alone (s\<lparr>iter_num := 0, new_lambda2 := lambda2 s\<rparr>)" using assms(1) by (simp add: alone_def)
  from rebound_loop_fuel [OF this, of 0 0 23 fuel] assms(2) show ?thesis by (simp add: rebound_optimize_def)
qed

section \<open>The refinement\<close>

text \<open>A state of the same refinement: another counter, and other values of the variables.\<close>

definition refine_state :: "optimizer \<Rightarrow> nat \<Rightarrow> optimizer \<Rightarrow> bool" where
  "refine_state s0 n s \<longleftrightarrow> (\<exists>k ps. s = s0\<lparr>iter_num := k, cps := (cps s0)\<lparr>points := ps\<rparr>\<rparr> \<and>
     length ps = length (points (cps s0)) \<and>
     take (3 * nat (order s0)) (doubles ps) = take (3 * nat (order s0)) (doubles (points (cps s0))) \<and>
     drop (3 * nat (order s0) + n) (doubles ps) = drop (3 * nat (order s0) + n) (doubles (points (cps s0))))"

lemma refine_state_refl [simp]: "refine_state s (length x) s"
  unfolding refine_state_def by (intro exI [of _ "iter_num s"] exI [of _ "points (cps s)"]) simp

lemma combineCostRefine_other:
  assumes "refine_state s0 (length x) s" "combineCostRefine x s = Inr (f, g, s1)"
  shows "\<exists>s2. combineCostRefine x s0 = Inr (f, g, s2)" "refine_state s0 (length x) (s1\<lparr>iter_num := i\<rparr>)"
    "\<exists>ps. store_vars (order s0) x (points (cps s0)) = Inr ps \<and> points (cps s1) = ps"
proof -
  from assms(1) obtain k ps where s: "s = s0\<lparr>iter_num := k, cps := (cps s0)\<lparr>points := ps\<rparr>\<rparr>"
    and len: "length ps = length (points (cps s0))"
    and same: "take (3 * nat (order s0)) (doubles ps) = take (3 * nat (order s0)) (doubles (points (cps s0)))"
     "drop (3 * nat (order s0) + length x) (doubles ps) = drop (3 * nat (order s0) + length x) (doubles (points (cps s0)))"
    unfolding refine_state_def by blast
  have st: "store_vars (order s0) x ps = store_vars (order s0) x (points (cps s0))"
    using len same by (simp add: store_vars_def)
  have cost: "calcFitnessCost (s0\<lparr>iter_num := k\<rparr>) = calcFitnessCost s0"
    "calcFeasibilityCost (s0\<lparr>iter_num := k\<rparr>) = calcFeasibilityCost s0"
    by (intro ext; simp add: calcFitnessCost_def calcFeasibilityCost_def Let_def)+
  from assms(2) obtain ps1 where ps1: "store_vars (order s0) x (points (cps s0)) = Inr ps1"
    and s1: "s1 = s0\<lparr>iter_num := k, cps := (cps s0)\<lparr>points := ps1\<rparr>\<rparr>"
    using combineCostRefine_state [OF assms(2)] st by (auto simp: s)
  show "\<exists>s2. combineCostRefine x s0 = Inr (f, g, s2)"
    using assms(2) by (clarsimp simp: combineCostRefine_def s st ps1 cost Let_def)
  show "\<exists>ps. store_vars (order s0) x (points (cps s0)) = Inr ps \<and> points (cps s1) = ps" using ps1 s1 by simp
  note S = store_vars_Inr [OF ps1]
  show "refine_state s0 (length x) (s1\<lparr>iter_num := i\<rparr>)"
    unfolding refine_state_def using S by (intro exI [of _ i] exI [of _ ps1]) (simp add: s1)
qed

lemma combineCostRefine_length: "combineCostRefine x s = Inr (f, g, s') \<Longrightarrow> length g = length x"
  by (auto simp: combineCostRefine_def load_vars_def Let_def split: if_split_asm)

text \<open>The cost and the gradient at a point; the cost is high where it fails.\<close>

definition refine_cost :: "optimizer \<Rightarrow> real \<Rightarrow> real list \<Rightarrow> real" where
  "refine_cost s high x = (case combineCostRefine x s of Inr (f, _, _) \<Rightarrow> f | Inl _ \<Rightarrow> high)"

definition refine_slope :: "optimizer \<Rightarrow> real list \<Rightarrow> real list" where
  "refine_slope s x = (case combineCostRefine x s of Inr (_, g, _) \<Rightarrow> g | Inl _ \<Rightarrow> [])"

lemma refine_pure: "pure_cost n (refine_state s n) (refine_cost s high) (refine_slope s) costFunctionRefine"
  unfolding pure_cost_def
proof (intro allI impI)
  fix x s0 r assume n: "length x = n" and P: "refine_state s n s0" and run: "costFunctionRefine x s0 = Inr r"
  from run obtain f g s1 where 1: "combineCostRefine x s0 = Inr (f, g, s1)" and r: "r = (f, g, s1\<lparr>iter_num := iter_num s1 + 1\<rparr>)"
    by (auto simp: costFunctionRefine_def)
  note O = combineCostRefine_other [OF P [folded n] 1]
  from O(1) obtain s2 where "combineCostRefine x s = Inr (f, g, s2)" ..
  then have "refine_cost s high x = f" "refine_slope s x = g" by (simp_all add: refine_cost_def refine_slope_def)
  with O(2) [of "iter_num s1 + 1"] combineCostRefine_length [OF 1] n r
  show "length (refine_slope s x) = n \<and> (\<exists>s'. r = (refine_cost s high x, refine_slope s x, s') \<and> refine_state s n s')"
    by simp
qed

lemma refine_evaluated: "keeps (evaluated s) costFunctionRefine"
  unfolding keeps_def using costFunctionRefine_evaluated evaluated_trans by blast

lemma costFunctionRefine_stored:
  assumes "costFunctionRefine x s = Inr (f, g, s')"
  shows "take (length x) (drop (3 * nat (order s)) (doubles (points (cps s')))) = x"
proof -
  from assms obtain s1 where "combineCostRefine x s = Inr (f, g, s1)" "s' = s1\<lparr>iter_num := iter_num s1 + 1\<rparr>"
    by (auto simp: costFunctionRefine_def)
  with combineCostRefine_state [OF this(1)] obtain ps where "store_vars (order s) x (points (cps s)) = Inr ps" "points (cps s') = ps"
    by auto
  with store_vars_Inr [OF this(1)] show ?thesis by simp
qed

lemma split_at: "length x = n \<Longrightarrow> take n (drop k xs) = x \<Longrightarrow> take k xs @ x @ drop (k + n) xs = xs"
  by (metis add.commute append_take_drop_id drop_drop)

text \<open>
  A refinement does not raise its cost.  The minimiser, run on the cost of the refinement, ends at
  variables whose cost is at most that of the first ones, whatever it returns.  Unless a line search
  failed, the cost it reports is that of these variables and the control points that the optimiser
  holds, which the planner flies, are theirs; when it says that it converged, their gradient is small.
\<close>

lemma refine_lowers_cost:
  assumes start: "combineCostRefine q s = Inr (f0, g0, s0)" and q: "q \<noteq> []"
    and run: "lbfgs_optimize fuel costFunctionRefine None progress refine_params q fc s = Inr (code, q', fx, s')"
  shows "\<exists>f' g' r. combineCostRefine q' s = Inr (f', g', r) \<and> f' \<le> f0 \<and> length q' = length q \<and>
    (failed_search code \<or> fx = f' \<and> points (cps s') = points (cps r)) \<and>
    (code = LBFGS_CONVERGENCE \<or> code = LBFGS_ALREADY_MINIMIZED \<longrightarrow> vec2norm g' \<le> 1 / 1000 * max 1 (vec2norm q'))"
proof -
  let ?n = "length q"
  have valid: "invalid_parameters ?n refine_params = None"
    using q by (simp add: invalid_parameters_def refine_params_def lbfgs_load_default_parameters_def)
  have D: "downhill ?n (refine_state s ?n) (refine_cost s (f0 + 1)) (refine_slope s) refine_params (refine_cost s (f0 + 1) q) (code, q', fx, s')"
    by (rule lbfgs_optimize_downhill [OF refine_pure valid refl refine_state_refl run])
  then have len: "length q' = ?n" and P: "refine_state s ?n s'" and low: "refine_cost s (f0 + 1) q' \<le> f0"
    using start by (simp_all add: downhill_def refine_cost_def)
  then obtain f' g' r where cost: "combineCostRefine q' s = Inr (f', g', r)" and f': "f' \<le> f0"
    by (cases "combineCostRefine q' s") (auto simp: refine_cost_def)
  have last: "points (cps s') = points (cps r)" if "\<not> failed_search code"
  proof -
    from D that have "code \<noteq> LBFGSERR_INVALIDPARAMETERS" "code \<noteq> LBFGSERR_INCREASEGRADIENT" by (auto simp: downhill_def)
    from lbfgs_optimize_last [OF refine_evaluated evaluated_refl valid run that this] obtain s2 g2 where
      2: "evaluated s s2" "costFunctionRefine q' s2 = Inr (fx, g2, s')" by blast
    have "order s2 = order s" using 2(1) same_setting_fields by (simp add: evaluated_def)
    with costFunctionRefine_stored [OF 2(2)] len
    have mid: "take ?n (drop (3 * nat (order s)) (doubles (points (cps s')))) = q'" by simp
    from P have ends: "take (3 * nat (order s)) (doubles (points (cps s'))) = take (3 * nat (order s)) (doubles (points (cps s)))"
      "drop (3 * nat (order s) + ?n) (doubles (points (cps s'))) = drop (3 * nat (order s) + ?n) (doubles (points (cps s)))"
      by (auto simp: refine_state_def)
    from combineCostRefine_state [OF cost] obtain ps where
      "store_vars (order s) q' (points (cps s)) = Inr ps" "points (cps r) = ps" by auto
    with store_vars_Inr(5) [OF this(1)] split_at [OF len mid] ends len have "doubles (points (cps s')) = doubles (points (cps r))"
      by simp
    then show ?thesis using columns_doubles by metis
  qed
  have "fx = f'" if "\<not> failed_search code" using D that cost by (simp add: downhill_def refine_cost_def)
  moreover have "vec2norm g' \<le> 1 / 1000 * max 1 (vec2norm q')" if "code = LBFGS_CONVERGENCE \<or> code = LBFGS_ALREADY_MINIMIZED"
    using D that cost by (auto simp: downhill_def refine_slope_def refine_params_def)
  ultimately show ?thesis using cost f' len last by blast
qed

end
