(* ===== verification/OptimizerSides.thy ===== *)
theory OptimizerSides
  imports OptimizerRun OptimizerFrames
begin

text \<open>
  The trajectories on either side of the obstacles: whatever base points \<open>distinctiveTrajs\<close> puts on the
  other side of a segment, every trajectory it lists is the given polygon again.
\<close>

section \<open>The other side of one segment\<close>

lemma set_first_same: "set_first j b d c = Inr c' \<Longrightarrow> same_shape c c'"
  by (auto simp: set_first_def same_shape_def store_at_Inr)

lemma copy_first_same: "copy_first k j c = Inr c' \<Longrightarrow> same_shape c c'"
  by (auto simp: copy_first_def dest: set_first_same)

text \<open>A version of the segment has its shape.\<close>

definition side_of :: "ctrl_points \<Rightarrow> side \<Rightarrow> bool" where
  "side_of c st \<longleftrightarrow> (case st of Other c2 \<Rightarrow> same_shape c c2 | _ \<Rightarrow> True)"

lemma reverse_base_side:
  assumes "reverse_base e d c a b j st = Inr st'" "side_of c0 st"
  shows "side_of c0 st'"
proof (cases st)
  case (Other c2)
  from assms(1) Other obtain bs where bs: "fetch_at (base_point c) j = Inr bs" by (auto simp: reverse_base_def)
  show ?thesis
  proof (cases "length bs = 1")
    case False
    with assms(1) Other bs have "st' = Blank" by (simp add: reverse_base_def)
    then show ?thesis by (simp add: side_of_def)
  next
    case True
    with assms(1) Other bs obtain d' b' p r where "opposite_base e d p b' d' = Inr r"
      and r: "(case r of None \<Rightarrow> Inr Dropped | Some b' \<Rightarrow> bind_result (set_first j b' d' c2) (\<lambda>c2'. Inr (Other c2'))) = Inr st'"
      by (simp add: reverse_base_def Let_def) blast
    show ?thesis
    proof (cases r)
      case None
      with r have "st' = Dropped" by simp
      then show ?thesis by (simp add: side_of_def)
    next
      case (Some b1)
      with r obtain c3 where "set_first j b1 d' c2 = Inr c3" "st' = Other c3" by auto
      with assms(2) Other show ?thesis by (auto simp: side_of_def dest!: set_first_same intro: same_shape_trans)
    qed
  qed
qed (use assms in \<open>simp_all add: reverse_base_def\<close>)

lemma other_side_same:
  assumes "other_side e d c = Inr (Other c2)"
  shows "same_shape c c2"
proof (cases "cp_size c > 1")
  case True
  with assms obtain r1 r2 where r: "(case (r1, r2) of
            (Some occ_start, Some occ_end) \<Rightarrow>
              bind_result (fold_result (reverse_base e d c occ_start occ_end) [fst occ_start..fst occ_end] (Other c))
                (\<lambda>st. case st of Other c2 \<Rightarrow>
                   bind_result (fold_result (copy_first (fst occ_start)) (rev [0..fst occ_start - 1]) c2) (\<lambda>c3.
                   bind_result (fold_result (copy_first (fst occ_end)) [fst occ_end + 1..cp_size c - 1] c3) (\<lambda>c4. Inr (Other c4)))
                 | _ \<Rightarrow> Inr st)
          | _ \<Rightarrow> Inr Dropped) = Inr (Other c2)"
    unfolding other_side_def if_P [OF True] bind_result_Inr by blast
  then obtain a b where ab: "r1 = Some a" "r2 = Some b" by (cases r1; cases r2) auto
  from r [unfolded ab] obtain st where st: "fold_result (reverse_base e d c a b) [fst a..fst b] (Other c) = Inr st"
    and rest: "(case st of Other c2 \<Rightarrow>
                   bind_result (fold_result (copy_first (fst a)) (rev [0..fst a - 1]) c2) (\<lambda>c3.
                   bind_result (fold_result (copy_first (fst b)) [fst b + 1..cp_size c - 1] c3) (\<lambda>c4. Inr (Other c4)))
                 | _ \<Rightarrow> Inr st) = Inr (Other c2)"
    by (simp only: prod.case option.case bind_result_Inr) blast
  then obtain c1 c3 where
    1: "fold_result (reverse_base e d c a b) [fst a..fst b] (Other c) = Inr (Other c1)"
    and 2: "fold_result (copy_first (fst a)) (rev [0..fst a - 1]) c1 = Inr c3"
    and 3: "fold_result (copy_first (fst b)) [fst b + 1..cp_size c - 1] c3 = Inr c2"
    by (cases st) auto
  have "side_of c st'" if "fold_result (reverse_base e d c a b) js st = Inr st'" "side_of c st" for js st st'
    using that by (induction js arbitrary: st) (auto dest: reverse_base_side)
  from this [OF 1] have "same_shape c c1" by (simp add: side_of_def)
  moreover have "same_shape c1 c3" by (rule fold_same_shape [OF copy_first_same 2])
  moreover have "same_shape c3 c2" by (rule fold_same_shape [OF copy_first_same 3])
  ultimately show ?thesis by (blast intro: same_shape_trans)
next
  case False
  with assms show ?thesis
    by (auto simp: other_side_def Let_def split: if_split_asm option.split_asm dest: set_first_same)
qed

section \<open>The kept segments\<close>

text \<open>What is known of a kept segment: both versions hold the control points of its part of the polygon.\<close>

definition part_of :: "ctrl_points \<Rightarrow> (int \<times> int) \<times> ctrl_points \<Rightarrow> bool" where
  "part_of c sc \<longleftrightarrow> (case sc of ((a, b), c1) \<Rightarrow> 0 \<le> a \<and>
     length (points c1) = nat (b + 1 - a) \<and> (\<forall>k < length (points c1). nat a + k < length (points c) \<and> points c1 ! k = points c ! (nat a + k)))"

lemma segment_part:
  assumes "segment a b c = Inr c1"
  shows "part_of c ((a, b), c1)"
proof -
  from assms have a: "0 \<le> a" and m: "map_result (fetch_at (points c)) [a..b] = Inr (points c1)"
    by (auto simp: segment_def split: if_split_asm)
  from map_result_length [OF m] have len: "length (points c1) = nat (b + 1 - a)" by simp
  have "nat a + k < length (points c) \<and> points c1 ! k = points c ! (nat a + k)" if "k < length (points c1)" for k
    using list_all2_nthD2 [OF map_result_Inr [OF m] that] that len a by (auto simp: fetch_at_Inr nat_add_distrib)
  with a len show ?thesis by (simp add: part_of_def)
qed

lemma both_sides_parts:
  assumes "both_sides e d bufs = Inr (Some kept)" "\<forall>x \<in> set bufs. part_of c x" "sorted_wrt (\<lambda>x y. snd (fst x) < fst (fst y)) bufs"
  shows "(\<forall>(seg, c1, c2) \<in> set kept. part_of c (seg, c1) \<and> part_of c (seg, c2) \<and> seg \<in> fst ` set bufs) \<and>
    sorted_wrt (\<lambda>x y. snd (fst x) < fst (fst y)) kept \<and> length kept \<le> length bufs"
  using assms
proof (induction bufs arbitrary: kept)
  case (Cons x bufs)
  obtain seg c0 where x: "x = (seg, c0)" by (cases x)
  from Cons.prems x obtain r where r: "other_side e d c0 = Inr r" by auto
  show ?case
  proof (cases r)
    case (Other c2)
    from Cons.prems(1) x r Other obtain kept' where
      k: "both_sides e d bufs = Inr (Some kept')" "kept = (seg, c0, c2) # kept'"
      by (cases "both_sides e d bufs") auto
    from Cons.IH [OF k(1)] Cons.prems
    have ih: "\<forall>(seg, c1, c2) \<in> set kept'. part_of c (seg, c1) \<and> part_of c (seg, c2) \<and> seg \<in> fst ` set bufs"
      "sorted_wrt (\<lambda>x y. snd (fst x) < fst (fst y)) kept'" "length kept' \<le> length bufs" by simp_all
    have "part_of c (seg, c2)" using other_side_same [OF r [unfolded Other]] Cons.prems(2) x
      by (cases seg) (auto simp: part_of_def same_shape_def)
    moreover have "snd seg < fst (fst y)" if "y \<in> set kept'" for y
      using ih(1) that Cons.prems(3) x by fastforce
    ultimately show ?thesis using ih Cons.prems(2) x k(2) by auto
  next
    case Dropped
    with Cons.prems x r Cons.IH [of kept] show ?thesis by auto
  next
    case Blank
    with Cons.prems x r show ?thesis by simp
  qed
qed simp

section \<open>Putting a trajectory together\<close>

lemma assemble_points:
  assumes "assemble c n i segs k = Inr xs" "0 \<le> i" "\<forall>x \<in> set segs. part_of c x" "sorted_wrt (\<lambda>x y. snd (fst x) < fst (fst y)) segs"
    "segs = [] \<or> snd (fst (hd segs)) < i \<or> k = (if fst (fst (hd segs)) \<le> i then i - fst (fst (hd segs)) else 0)"
  shows "length xs = n \<and> (\<forall>j < n. fst (xs ! j) = points c ! (nat i + j)) \<and> nat i + n \<le> max (nat i) (length (points c))"
  using assms
proof (induction n arbitrary: i segs k xs)
  case (Suc n)
  have head: "length xs = Suc n \<and> (\<forall>j < Suc n. fst (xs ! j) = points c ! (nat i + j)) \<and> nat i + Suc n \<le> max (nat i) (length (points c))"
    if "xs = x # ys" "fst x = points c ! nat i" "nat i < length (points c)" "assemble c n (i + 1) segs' k' = Inr ys"
      "\<forall>x \<in> set segs'. part_of c x" "sorted_wrt (\<lambda>x y. snd (fst x) < fst (fst y)) segs'"
      "segs' = [] \<or> snd (fst (hd segs')) < i + 1 \<or> k' = (if fst (fst (hd segs')) \<le> i + 1 then i + 1 - fst (fst (hd segs')) else 0)"
    for x ys segs' k'
  proof -
    from Suc.IH [OF that(4) _ that(5-7)] Suc.prems(2) have ih: "length ys = n" "\<forall>j < n. fst (ys ! j) = points c ! (nat (i + 1) + j)"
      "nat (i + 1) + n \<le> max (nat (i + 1)) (length (points c))" by simp_all
    have "fst (xs ! j) = points c ! (nat i + j)" if "j < Suc n" for j
      using that ih(2) \<open>xs = x # ys\<close> \<open>fst x = _\<close> Suc.prems(2) by (cases j) (auto simp: nat_add_distrib)
    with ih that(1,3) Suc.prems(2) show ?thesis by (auto simp: nat_add_distrib)
  qed
  show ?case
  proof (cases "segs = []")
    case True
    with Suc.prems(1) obtain p b d ys where "fetch_at (points c) i = Inr p" "assemble c n (i + 1) [] k = Inr ys" "xs = (p, b, d) # ys"
      by auto
    then show ?thesis using head [of "(p, b, d)" ys "[]" k] by (auto simp: fetch_at_Inr nat_less_iff)
  next
    case False
    then obtain a b src rest where segs: "segs = ((a, b), src) # rest" by (metis list.exhaust surj_pair)
    note prems = Suc.prems(3-5) [unfolded segs]
    show ?thesis
    proof (cases "a \<le> i \<and> i \<le> b")
      case True
      with prems have k: "k = i - a" by auto
      let ?segs = "if i = b then rest else segs" and ?k = "if i = b then 0 else k + 1"
      from True Suc.prems(1) segs obtain p bs ds ys where 1: "fetch_at (points src) k = Inr p" "assemble c n (i + 1) ?segs ?k = Inr ys"
        "xs = (p, bs, ds) # ys" by (auto split: if_split_asm)
      from prems(1) have part: "0 \<le> a" "\<forall>k < length (points src). nat a + k < length (points c) \<and> points src ! k = points c ! (nat a + k)"
        by (auto simp: part_of_def)
      have "nat a + nat k = nat i" "nat k < length (points src)" using part(1) True k 1(1) by (auto simp: fetch_at_Inr)
      with part(2) 1(1) have p: "p = points c ! nat i" "nat i < length (points c)" by (auto simp: fetch_at_Inr)
      have later: "i < fst (fst y)" if "y \<in> set rest" "i = b" for y using prems(2) that by auto
      show ?thesis
      proof (rule head [OF 1(3) _ p(2) 1(2)])
        show "?segs = [] \<or> snd (fst (hd ?segs)) < i + 1 \<or>
            ?k = (if fst (fst (hd ?segs)) \<le> i + 1 then i + 1 - fst (fst (hd ?segs)) else 0)"
          using later [of "hd rest"] k True segs by (cases rest) auto
      qed (use p prems segs in auto)
    next
      case False
      with Suc.prems(1) segs obtain p bs ds ys where 1: "fetch_at (points c) i = Inr p" "assemble c n (i + 1) segs k = Inr ys"
        "xs = (p, bs, ds) # ys" by auto
      show ?thesis
        by (rule head [OF 1(3) _ _ 1(2)]) (use 1(1) False Suc.prems(3-5) segs in \<open>auto simp: fetch_at_Inr nat_less_iff\<close>)
    qed
  qed
qed simp

section \<open>All trajectories\<close>

definition shaped :: "ctrl_points \<Rightarrow> bool" where
  "shaped c \<longleftrightarrow> int (length (points c)) = cp_size c \<and> int (length (base_point c)) = cp_size c \<and>
     int (length (direction c)) = cp_size c \<and> int (length (flag_temp c)) = cp_size c"

lemma sample_shape:
  assumes "sample c segs = Inr c'" "shaped c" "\<forall>x \<in> set segs. part_of c x" "sorted_wrt (\<lambda>x y. snd (fst x) < fst (fst y)) segs"
  shows "same_shape c c'"
proof -
  from assms(1) obtain c0 xs where r: "resize (cp_size c) c = Inr c0" and xs: "assemble c (nat (cp_size c)) 0 segs 0 = Inr xs"
    and c': "c' = c0\<lparr>clearance := clearance c, points := map fst xs, base_point := map (fst \<circ> snd) xs, direction := map (snd \<circ> snd) xs\<rparr>"
    by (auto simp: sample_def)
  have "segs = [] \<or> 0 \<le> fst (fst (hd segs))" using assms(3) by (cases segs) (auto simp: part_of_def)
  then have "segs = [] \<or> snd (fst (hd segs)) < 0 \<or> 0 = (if fst (fst (hd segs)) \<le> 0 then 0 - fst (fst (hd segs)) else 0)" by auto
  from assemble_points [OF xs _ assms(3,4) this]
  have "length xs = nat (cp_size c)" "\<forall>j < nat (cp_size c). fst (xs ! j) = points c ! j" by simp_all
  with assms(2) have "map fst xs = points c" by (intro nth_equalityI) (auto simp: shaped_def)
  with r assms(2) \<open>length xs = _\<close> show ?thesis by (auto simp: c' same_shape_def shaped_def resize_def split: if_split_asm)
qed

lemma selected_parts:
  assumes "\<forall>(seg, c1, c2) \<in> set kept. part_of c (seg, c1) \<and> part_of c (seg, c2)"
    "sorted_wrt (\<lambda>x y. snd (fst x) < fst (fst y)) kept"
  shows "(\<forall>x \<in> set (selected m kept). part_of c x) \<and> sorted_wrt (\<lambda>x y. snd (fst x) < fst (fst y)) (selected m kept)"
proof -
  have fst_sel: "fst (selected m kept ! d) = fst (kept ! d)" "part_of c (selected m kept ! d)" if "d < length kept" for d
    using that assms(1) by (auto simp: selected_def Let_def split: prod.splits dest!: nth_mem)
  moreover have "length (selected m kept) = length kept" by (simp add: selected_def)
  moreover have "part_of c x" if "x \<in> set (selected m kept)" for x
    using that fst_sel(2) \<open>length (selected m kept) = length kept\<close> by (metis in_set_conv_nth)
  ultimately show ?thesis using assms(2) by (simp add: sorted_wrt_iff_nth_less)
qed

text \<open>
  Every trajectory on another side of the obstacles is the same polygon.  For segments in order, the
  trajectories that \<open>distinctiveTrajs\<close> lists, at most eight, have the size, the clearance and the control
  points of the given one: only the base points and directions differ, so the optimiser starts each
  of them from the same curve.
\<close>

lemma distinct_same_points:
  assumes "distinctiveTrajs e segs s = Inr cs" "shaped (cps s)" "sorted_wrt (\<lambda>x y. snd x < fst y) segs"
  shows "length cs \<le> 8 \<and> (\<forall>c \<in> set cs. same_shape (cps s) c)"
proof (cases "cs = [cps s] \<or> cs = []")
  case False
  let ?c = "cps s"
  from assms(1) False have "segs \<noteq> []" by (auto simp: distinctiveTrajs_def)
  from assms(1) [unfolded distinctiveTrajs_def Let_def if_not_P [OF this] bind_result_Inr] obtain dist bufs r where
    b: "map_result (\<lambda>seg. bind_result (segment (fst seg) (snd seg) ?c) (\<lambda>b. Inr (seg, b))) (take 3 segs) = Inr bufs"
    and k: "both_sides e dist bufs = Inr r"
    and cs: "(case r of None \<Rightarrow> Inr [] | Some [] \<Rightarrow> Inr [?c]
              | Some kept \<Rightarrow> map_result (\<lambda>m. sample ?c (selected m kept)) [0..<2 ^ length kept]) = Inr cs"
    by blast
  from cs False obtain kept where r: "r = Some kept" "kept \<noteq> []" by (cases r) (auto split: list.split_asm)
  with cs have m: "map_result (\<lambda>m. sample ?c (selected m kept)) [0..<2 ^ length kept] = Inr cs" by (cases kept) auto
  have len: "length bufs \<le> 3" using map_result_length [OF b] by simp
  have nth: "fst (bufs ! j) = take 3 segs ! j \<and> part_of ?c (bufs ! j)" if "j < length bufs" for j
  proof -
    from list_all2_nthD2 [OF map_result_Inr [OF b] that] obtain b1 where
      "segment (fst (take 3 segs ! j)) (snd (take 3 segs ! j)) ?c = Inr b1" "bufs ! j = (take 3 segs ! j, b1)" by auto
    with segment_part [OF this(1)] show ?thesis by simp
  qed
  have sorted: "sorted_wrt (\<lambda>x y. snd (fst x) < fst (fst y)) bufs"
    using sorted_wrt_take [OF assms(3), of 3] nth map_result_length [OF b] by (simp add: sorted_wrt_iff_nth_less)
  have parts: "\<forall>x \<in> set bufs. part_of ?c x" using nth by (metis in_set_conv_nth)
  from both_sides_parts [OF k [unfolded r] parts sorted]
  have K: "\<forall>(seg, c1, c2) \<in> set kept. part_of ?c (seg, c1) \<and> part_of ?c (seg, c2)"
    "sorted_wrt (\<lambda>x y. snd (fst x) < fst (fst y)) kept" "length kept \<le> 3" using len by auto
  have "same_shape ?c c" if "c \<in> set cs" for c
  proof -
    from map_result_set [OF m that] obtain i where "sample ?c (selected i kept) = Inr c" by blast
    with sample_shape [OF _ assms(2)] selected_parts [OF K(1,2)] show ?thesis by blast
  qed
  moreover have "length cs = 2 ^ length kept" using map_result_length [OF m] by simp
  moreover have "(2::nat) ^ length kept \<le> 2 ^ 3" using K(3) by (intro power_increasing) simp_all
  ultimately show ?thesis by simp
qed auto

end
