(* ===== verification/Replan.thy ===== *)
theory Replan
  imports InitialPath OptimizerProps OptimizerSides BsplineTime
begin

text \<open>
  \<open>reboundReplan\<close> with its three steps (\<open>plan_manage/src/planner_manager.cpp\<close>): the initial path, the
  optimiser, and in single-drone mode the refinement, \<open>refineTrajAlgo\<close> and \<open>reparamBspline\<close>.  The model
  of \<open>PlannerManager\<close> takes what the optimiser returns as a parameter; the theorem at the end shows
  that the code with the optimiser of these theories is an instance of it.
\<close>

section \<open>Refining the time\<close>

text \<open>The times of \<open>for (t = a; t <= b; t += s)\<close>.\<close>

definition times_upto :: "real \<Rightarrow> real \<Rightarrow> real \<Rightarrow> cpp_error + real list" where
  "times_upto a b s =
     (if b < a then Inr [] else if s \<le> 0 then Inl Hangs else Inr (map (\<lambda>i. a + real i * s) [0..<Suc (nat \<lfloor>(b - a) / s\<rfloor>)]))"

definition evaluate_all :: "bspline \<Rightarrow> real list \<Rightarrow> cpp_error + vec3 list" where
  "evaluate_all traj ts = map_result (\<lambda>t. evaluateDeBoorT t traj) ts"

text \<open>The result: the lengthened trajectory, the new control points and time step.\<close>

definition reparamBspline ::
    "(real list list \<Rightarrow> real list \<Rightarrow> real list) \<Rightarrow> bspline \<Rightarrow> vec3 list \<Rightarrow> real \<Rightarrow> cpp_error + bspline \<times> vec3 list \<times> real" where
  "reparamBspline lsq traj ders ratio =
     (let seg_num = int (length (control_points traj)) - 3
      in bind_result (lengthenTime ratio traj) (\<lambda>traj'.
         bind_result (getTimeSum traj') (\<lambda>dur.
         bind_result (fdiv dur (of_int seg_num)) (\<lambda>dt.
         bind_result (times_upto 0 (dur + 1 / 10000) dt) (\<lambda>ts.
         bind_result (evaluate_all traj' ts) (\<lambda>pts.
         bind_result (parameterizeToBspline lsq dt pts ders []) (\<lambda>ctrl_pts. Inr (traj', ctrl_pts, dt))))))))"

definition refineTrajAlgo ::
    "(real list list \<Rightarrow> real list \<Rightarrow> real list) \<Rightarrow> optimizer_env \<Rightarrow> bspline \<Rightarrow> vec3 list \<Rightarrow> real \<Rightarrow> optimizer \<Rightarrow>
     cpp_error + bool \<times> vec3 list \<times> real \<times> optimizer" where
  "refineTrajAlgo lsq e traj ders ratio s =
     bind_result (reparamBspline lsq traj ders ratio) (\<lambda>(_, ctrl_pts, ts).
     let traj1 = UniformBspline ctrl_pts 3 ts
     in bind_result (getTimeSum traj1) (\<lambda>dur.
        bind_result (fdiv dur (of_int (int (length ctrl_pts) - 3))) (\<lambda>t_step.
        bind_result (step_times 0 (dur + 1 / 10000) t_step) (\<lambda>ts_list.
        bind_result (evaluate_all traj1 ts_list) (\<lambda>refs.
        bind_result (BsplineOptimizeTrajRefine e 0 ctrl_pts ts (s\<lparr>ref_pts := refs\<rparr>)) (\<lambda>(ok, optimal, s1).
          Inr (ok, optimal, ts, s1)))))))"

section \<open>The optimiser\<close>

text \<open>
  The candidates from the last to the first: the control points of the cheapest success, or the given
  ones while none is cheaper than \<open>min_cost\<close>; \<open>final_cost\<close> is what the variable holds.
\<close>

fun best_trajectory ::
    "nat \<Rightarrow> optimizer_env \<Rightarrow> real \<Rightarrow> ctrl_points list \<Rightarrow> bool \<Rightarrow> real \<Rightarrow> real \<Rightarrow> vec3 list \<Rightarrow> optimizer \<Rightarrow>
     cpp_error + bool \<times> vec3 list \<times> optimizer" where
  "best_trajectory fuel e ts [] success final_cost min_cost ctrl_pts s = Inr (success, ctrl_pts, s)"
| "best_trajectory fuel e ts (c # cs) success final_cost min_cost ctrl_pts s =
     bind_result (BsplineOptimizeTrajRebound_from fuel e final_cost c ts s) (\<lambda>(ok, temp, final_cost', s').
       if ok \<and> final_cost' < min_cost then best_trajectory fuel e ts cs True final_cost' final_cost' temp s'
       else best_trajectory fuel e ts cs (success \<or> ok) final_cost' min_cost ctrl_pts s')"

definition optimise ::
    "nat \<Rightarrow> optimizer_env \<Rightarrow> bool \<Rightarrow> real \<Rightarrow> vec3 list \<Rightarrow> optimizer \<Rightarrow> cpp_error + bool \<times> vec3 list \<times> optimizer" where
  "optimise fuel e distinctive ts ctrl_pts s =
     bind_result (initControlPoints e ctrl_pts True s) (\<lambda>(segs, s1).
       if distinctive
       then bind_result (distinctiveTrajs e segs s1) (\<lambda>cs.
              best_trajectory fuel e ts (rev cs) False 0 999999 ctrl_pts s1)
       else BsplineOptimizeTrajRebound fuel e 0 ts s1)"

section \<open>All steps\<close>

text \<open>
  What the code around the planner supplies: the environment of the optimiser, the generators and the
  solver of Eigen, the settings, two random numbers, and the readings of the clock at the start and
  at the end; \<open>rn_fuel\<close> bounds the rounds of the optimiser and of the initial path.
\<close>

record replan_env =
  rn_env :: optimizer_env
  rn_solver :: solver
  rn_lsq :: "real list list \<Rightarrow> real list \<Rightarrow> real list"
  rn_path :: path_parameters
  rn_random :: "real \<times> real"
  rn_now :: real
  rn_done :: real
  rn_fuel :: nat

record replan_state =
  rs_manager :: manager
  rs_optimizer :: optimizer
  flag_first_call :: bool

definition replan_failed :: "replan_state \<Rightarrow> replan_state" where
  "replan_failed s = s\<lparr>rs_manager := plan_failed (rs_manager s)\<rparr>"

definition replan_done :: "bspline \<Rightarrow> replan_env \<Rightarrow> replan_state \<Rightarrow> cpp_error + bool \<times> replan_state" where
  "replan_done pos n s =
     bind_result (plan_done pos (rn_done n) (rs_manager s)) (\<lambda>(ok, m). Inr (ok, s\<lparr>rs_manager := m\<rparr>))"

text \<open>
  The optimiser reads the buffer of the manager, which \<open>deliverTrajToOptimizer\<close> gave it a pointer to.
  Steps one and two: the first flag, and whether the optimiser succeeded, its control points and the step.\<close>

definition plan_rebound ::
    "replan_env \<Rightarrow> vec3 \<Rightarrow> vec3 \<Rightarrow> vec3 \<Rightarrow> vec3 \<Rightarrow> vec3 \<Rightarrow> bool \<Rightarrow> bool \<Rightarrow> replan_state \<Rightarrow>
     cpp_error + (bool \<times> vec3 list \<times> real \<times> vec3 list) \<times> replan_state" where
  "plan_rebound n p0 v0 a0 p1 v1 poly random s =
     bind_result (initial_points (rn_fuel n) (rn_solver n) (rs_manager s) (rn_path n) (rn_random n) (rn_now n)
                    (flag_first_call s) poly random p0 v0 a0 p1 v1) (\<lambda>(path, first).
     bind_result (parameterizeToBspline (rn_lsq n) (path_ts path) (point_set path) (start_end_derivatives path) []) (\<lambda>ctrl_pts.
     bind_result (optimise (rn_fuel n) (rn_env n) (use_distinctive_trajs (rn_path n)) (path_ts path) ctrl_pts
                    ((rs_optimizer s)\<lparr>local_target_pt := p1, swarm_trajs := swarm_trajs_buf (rs_manager s)\<rparr>)) (\<lambda>(ok, pts, opt).
       Inr ((ok, pts, path_ts path, start_end_derivatives path), s\<lparr>rs_optimizer := opt, flag_first_call := first\<rparr>))))"

definition replan ::
    "replan_env \<Rightarrow> vec3 \<Rightarrow> vec3 \<Rightarrow> vec3 \<Rightarrow> vec3 \<Rightarrow> vec3 \<Rightarrow> bool \<Rightarrow> bool \<Rightarrow> replan_state \<Rightarrow> cpp_error + bool \<times> replan_state" where
  "replan n p0 v0 a0 p1 v1 poly random s =
     (if vnorm (vsub p0 p1) < 2 / 10 then Inr (False, replan_failed s)
      else bind_result (plan_rebound n p0 v0 a0 p1 v1 poly random s) (\<lambda>((ok, pts, ts, ders), s1).
        if \<not> ok then Inr (False, replan_failed s1)
        else let prm = pp (rs_manager s);
                 pos = setPhysicalLimits (max_vel prm) (max_acc prm) (feasibility_tolerance prm) (UniformBspline pts 3 ts)
             in if plan_drone_id prm \<le> 0 then
                  bind_result (checkFeasibility pos) (\<lambda>(feasible, ratio).
                    if feasible then replan_done pos n s1
                    else bind_result (refineTrajAlgo (rn_lsq n) (rn_env n) pos ders ratio (rs_optimizer s1)) (\<lambda>(ok2, optimal, ts', opt).
                           if ok2 then replan_done (UniformBspline optimal 3 ts') n (s1\<lparr>rs_optimizer := opt\<rparr>)
                           else Inr (False, replan_failed (s1\<lparr>rs_optimizer := opt\<rparr>))))
                else replan_done pos n s1))"

section \<open>The number of control points\<close>

lemma init_shaped:
  assumes "initControlPoints e pts True s = Inr (segs, s')"
  shows "shaped (cps s') \<and> length (points (cps s')) = length pts"
proof -
  have "initControlPoints e pts True s = bind_result (resize (int (length pts)) (cps s)) (\<lambda>c.
      initControlPoints e pts False (s\<lparr>cps := c\<lparr>clearance := dist0 s, points := pts\<rparr>\<rparr>))"
    by (cases "resize (int (length pts)) (cps s)") (simp_all add: initControlPoints_def cong: if_cong option.case_cong)
  with assms obtain c where c: "resize (int (length pts)) (cps s) = Inr c"
    and run: "initControlPoints e pts False (s\<lparr>cps := c\<lparr>clearance := dist0 s, points := pts\<rparr>\<rparr>) = Inr (segs, s')" by auto
  from initControlPoints_keeps [OF run] c show ?thesis by (auto simp: shaped_def same_shape_def resize_def)
qed

lemma assemble_length: "assemble c n i segs k = Inr xs \<Longrightarrow> length xs = n"
proof (induction n arbitrary: i segs k xs)
  case (Suc n)
  show ?case
  proof (cases segs)
    case Nil
    with Suc.prems obtain y ys where "xs = y # ys" "assemble c n (i + 1) [] k = Inr ys" by auto
    with Suc.IH show ?thesis by auto
  next
    case (Cons s rest)
    obtain a b src where s: "s = ((a, b), src)" by (metis surj_pair)
    from Suc.prems Cons s obtain y ys i' segs' k' where "xs = y # ys" "assemble c n i' segs' k' = Inr ys"
      by (auto split: if_split_asm)
    with Suc.IH show ?thesis by auto
  qed
qed simp

lemma distinct_length:
  assumes "distinctiveTrajs e segs s = Inr cs" "shaped (cps s)" "c \<in> set cs"
  shows "length (points c) = length (points (cps s))"
proof (cases "cs = [cps s] \<or> cs = []")
  case False
  from assms(1) False have "segs \<noteq> []" by (auto simp: distinctiveTrajs_def)
  from assms(1) [unfolded distinctiveTrajs_def Let_def if_not_P [OF this] bind_result_Inr] obtain r where
    cs: "(case r of None \<Rightarrow> Inr [] | Some [] \<Rightarrow> Inr [cps s]
              | Some kept \<Rightarrow> map_result (\<lambda>m. sample (cps s) (selected m kept)) [0..<2 ^ length kept]) = Inr cs" by blast
  from cs False obtain kept where r: "r = Some kept" "kept \<noteq> []" by (cases r) (auto split: list.split_asm)
  with cs have "map_result (\<lambda>m. sample (cps s) (selected m kept)) [0..<2 ^ length kept] = Inr cs" by (cases kept) auto
  from map_result_set [OF this assms(3)] obtain m where "sample (cps s) (selected m kept) = Inr c" by blast
  with assms(2) show ?thesis by (auto simp: sample_def shaped_def dest!: assemble_length)
qed (use assms(3) in auto)

lemma rebound_from_length:
  assumes "BsplineOptimizeTrajRebound_from fuel e fc c ts s = Inr (ok, ps, fc', s')"
  shows "length ps = length (points c)"
proof -
  from assms obtain s0 where "rebound_loop fuel e 0 0 fc s0 = Inr (ok, fc', s')" "cps s0 = c" "ps = points (cps s')"
    by (auto simp: BsplineOptimizeTrajRebound_from_def rebound_optimize_def)
  with rebound_loop_outcome [OF this(1)] show ?thesis by (simp add: reshaped_def)
qed

lemma rebound_length:
  assumes "BsplineOptimizeTrajRebound fuel e fc ts s = Inr (ok, ps, s')"
  shows "length ps = length (points (cps s))"
proof -
  from assms obtain s0 fc' where "rebound_loop fuel e 0 0 fc s0 = Inr (ok, fc', s')" "cps s0 = cps s" "ps = points (cps s')"
    by (auto simp: BsplineOptimizeTrajRebound_def rebound_optimize_def setBsplineInterval_def)
  with rebound_loop_outcome [OF this(1)] show ?thesis by (simp add: reshaped_def)
qed

lemma best_trajectory_length:
  "best_trajectory fuel e ts cs success fc mc ctrl_pts s = Inr (ok, pts, s') \<Longrightarrow>
   \<forall>c \<in> set cs. length (points c) = length ctrl_pts \<Longrightarrow> length pts = length ctrl_pts"
proof (induction cs arbitrary: success fc mc ctrl_pts s)
  case (Cons c cs)
  from Cons.prems(1) obtain ok1 temp fc1 s1 where 1: "BsplineOptimizeTrajRebound_from fuel e fc c ts s = Inr (ok1, temp, fc1, s1)"
    by auto
  from rebound_from_length [OF 1] Cons.prems(2) have len: "length temp = length ctrl_pts" by simp
  from Cons.prems(1) 1 have "best_trajectory fuel e ts cs True fc1 fc1 temp s1 = Inr (ok, pts, s') \<or>
      best_trajectory fuel e ts cs (success \<or> ok1) fc1 mc ctrl_pts s1 = Inr (ok, pts, s')" by (auto split: if_split_asm)
  with Cons.IH Cons.prems(2) len show ?case by fastforce
qed simp

lemma optimise_length:
  assumes "optimise fuel e distinctive ts ctrl_pts s = Inr (ok, pts, s')"
  shows "length pts = length ctrl_pts"
proof -
  from assms obtain segs s1 where 1: "initControlPoints e ctrl_pts True s = Inr (segs, s1)"
    and rest: "(if distinctive
       then bind_result (distinctiveTrajs e segs s1) (\<lambda>cs. best_trajectory fuel e ts (rev cs) False 0 999999 ctrl_pts s1)
       else BsplineOptimizeTrajRebound fuel e 0 ts s1) = Inr (ok, pts, s')"
    by (auto simp: optimise_def simp del: best_trajectory.simps)
  note I = init_shaped [OF 1]
  show ?thesis
  proof (cases distinctive)
    case True
    with rest obtain cs where cs: "distinctiveTrajs e segs s1 = Inr cs"
      and best: "best_trajectory fuel e ts (rev cs) False 0 999999 ctrl_pts s1 = Inr (ok, pts, s')"
      by (auto simp del: best_trajectory.simps)
    from distinct_length [OF cs] I have "\<forall>c \<in> set (rev cs). length (points c) = length ctrl_pts" by simp
    from best_trajectory_length [OF best this] show ?thesis .
  next
    case False
    with rest I rebound_length show ?thesis by auto
  qed
qed

section \<open>The refined trajectory\<close>

lemma peak_bound: "m \<le> foldl peak m vs" "v \<in> set vs \<Longrightarrow> peak m v \<le> foldl peak m vs"
proof -
  have mono: "m \<le> foldl peak m vs" for m vs
  proof (induction vs arbitrary: m)
    case (Cons v vs)
    have "m \<le> peak m v" by (simp add: peak_def)
    with Cons [of "peak m v"] show ?case by simp
  qed simp
  then show "m \<le> foldl peak m vs" .
  show "v \<in> set vs \<Longrightarrow> peak m v \<le> foldl peak m vs"
  proof (induction vs arbitrary: m)
    case (Cons w vs)
    show ?case
    proof (cases "v = w")
      case True
      then show ?thesis using mono [of "peak m v" vs] by simp
    next
      case False
      with Cons.prems have "peak (peak m w) v \<le> foldl peak (peak m w) vs" by (intro Cons.IH) simp
      moreover have "m \<le> peak m w" by (simp add: peak_def)
      then have "peak m v \<le> peak (peak m w) v" unfolding peak_def by (intro max.mono order_refl)
      ultimately show ?thesis by simp
    qed
  qed simp
qed

lemma exceeds_peak: "exceeds b v \<Longrightarrow> b \<le> peak m v"
  by (auto simp: exceeds_def peak_def)

text \<open>The ratio for a trajectory that is not feasible is at least one.\<close>

lemma infeasible_ratio:
  assumes f: "checkFeasibility s = Inr (False, ratio)" and l: "limits s = Some (v, a, tol)" "0 < v" "0 < a" "0 \<le> tol"
  shows "1 \<le> ratio"
proof -
  from f l(1) obtain vels accs where
    empty: "\<not> (filter (exceeds (v * (1 + tol) + 1 / 10000)) vels = [] \<and> filter (exceeds (a * (1 + tol) + 1 / 10000)) accs = [])"
    and r: "ratio = max (foldl peak (- 1) (filter (exceeds (v * (1 + tol) + 1 / 10000)) vels) / v)
        (sqrt (\<bar>foldl peak (- 1) (filter (exceeds (a * (1 + tol) + 1 / 10000)) accs)\<bar> / a))"
    using l(2,3) by (auto simp: checkFeasibility_def Let_def)
  define bad_vel where "bad_vel = filter (exceeds (v * (1 + tol) + 1 / 10000)) vels"
  define bad_acc where "bad_acc = filter (exceeds (a * (1 + tol) + 1 / 10000)) accs"
  have bad: "\<forall>x \<in> set bad_vel. exceeds (v * (1 + tol) + 1 / 10000) x" "\<forall>x \<in> set bad_acc. exceeds (a * (1 + tol) + 1 / 10000) x"
      "bad_vel \<noteq> [] \<or> bad_acc \<noteq> []"
    and ratio: "ratio = max (foldl peak (- 1) bad_vel / v) (sqrt (\<bar>foldl peak (- 1) bad_acc\<bar> / a))"
    using empty r by (simp_all add: bad_vel_def bad_acc_def)
  have over: "b \<le> b * (1 + tol) + 1 / 10000" if "0 < b" for b using that l(4) by (simp add: algebra_simps)
  show ?thesis
  proof (cases "bad_vel = []")
    case False
    then obtain x where x: "x \<in> set bad_vel" by (cases bad_vel) auto
    then have "v * (1 + tol) + 1 / 10000 \<le> peak (- 1) x" using bad(1) exceeds_peak by blast
    with peak_bound(2) [OF x, of "- 1"] over [OF l(2)] have "v \<le> foldl peak (- 1) bad_vel" by linarith
    with l(2) have "1 \<le> foldl peak (- 1) bad_vel / v" by simp
    then show ?thesis unfolding ratio by (rule max.coboundedI1)
  next
    case True
    with bad(3) obtain x where x: "x \<in> set bad_acc" by (cases bad_acc) auto
    then have "a * (1 + tol) + 1 / 10000 \<le> peak (- 1) x" using bad(2) exceeds_peak by blast
    with peak_bound(2) [OF x, of "- 1"] over [OF l(3)] have "a \<le> foldl peak (- 1) bad_acc" by linarith
    with l(3) have "1 \<le> sqrt (\<bar>foldl peak (- 1) bad_acc\<bar> / a)" by simp
    then show ?thesis unfolding ratio by (rule max.coboundedI2)
  qed
qed

lemma refine_length:
  assumes "BsplineOptimizeTrajRefine e fc pts ts s = Inr (ok, ps, s')"
  shows "length ps = length pts"
proof -
  have loop: "length (points (cps s1)) = length (points (cps s0))"
    if "refine_loop n e safe it q fc s0 = Inr (ok1, s1)" for n safe it q fc s0 ok1 s1
    using that
  proof (induction n arbitrary: safe it q fc s0)
    case (Suc n)
    from Suc.prems obtain ok2 q' fc' s2 where r: "refine_round e q fc s0 = Inr (ok2, q', fc', s2)"
      and rest: "points (cps s1) = points (cps s2) \<or>
        (\<exists>safe it s3. points (cps s3) = points (cps s2) \<and> refine_loop n e safe it q' fc' s3 = Inr (ok1, s1))"
      by (fastforce simp: Let_def split: if_split_asm)
    from r obtain code where "lbfgs_optimize 200 costFunctionRefine None (\<lambda>_. False) refine_params q fc s0 = Inr (code, q', fc', s2)"
      by (auto simp: refine_round_def)
    from lbfgs_optimize_keeps [OF refine_evaluated this evaluated_refl] have "length (points (cps s2)) = length (points (cps s0))"
      by (simp add: evaluated_def)
    with rest Suc.IH show ?case by fastforce
  qed simp
  from assms obtain q s0 ok1 s1 where "refine_loop 1 e True 0 q fc s0 = Inr (ok1, s1)"
    "points (cps s0) = pts" "points (cps s1) = ps"
    by (auto simp: BsplineOptimizeTrajRefine_def refine_optimize_def Let_def setBsplineInterval_def setControlPoints_def
        simp del: refine_loop.simps split: if_split_asm)
  with loop show ?thesis by blast
qed

lemma refineTrajAlgo_ok:
  assumes s: "well_knotted traj" "degree traj = 3" "7 \<le> length (control_points traj)" and r: "1 \<le> ratio"
    and run: "refineTrajAlgo lsq e traj ders ratio opt = Inr (ok, optimal, ts, opt')"
  shows "3 < length optimal \<and> 0 < ts"
proof -
  let ?n = "length (control_points traj)"
  have kn: "11 \<le> length (knots traj)" using s by (simp add: well_knotted_def)
  from lengthenTime_slower [OF s(1,2) kn r] obtain traj' T where
    l: "lengthenTime ratio traj = Inr traj'" "getTimeSum traj = Inr T"
      "getTimeSum traj' = Inr (T + (ratio - 1) * (knots traj ! (length (knots traj) - 6) - knots traj ! 5))" by blast
  let ?D = "T + (ratio - 1) * (knots traj ! (length (knots traj) - 6) - knots traj ! 5)"
  have "0 < T" using getTimeSum_ok [OF s(1)] l(2) knot_less [OF s(1), of 3 "last_knot traj - 3"] s
    by (auto simp: well_knotted_def)
  moreover have "0 \<le> knots traj ! (length (knots traj) - 6) - knots traj ! 5"
    using knot_le [OF s(1), of 5 "length (knots traj) - 6"] kn by simp
  ultimately have D: "0 < ?D" using r by (simp add: add_pos_nonneg)
  let ?dt = "?D / (real ?n - 3)"
  have dt: "0 < ?dt" "?D / ?dt = real ?n - 3" using D s(3) by simp_all
  from run l obtain ts_list pts ctrl_pts s0 where times: "times_upto 0 (?D + 1 / 10000) ?dt = Inr ts_list"
    and pts: "evaluate_all traj' ts_list = Inr pts" and fit: "parameterizeToBspline lsq ?dt pts ders [] = Inr ctrl_pts"
    and opt: "BsplineOptimizeTrajRefine e 0 ctrl_pts ts s0 = Inr (ok, optimal, opt')" and ts: "ts = ?dt"
    using s(3) by (auto simp: refineTrajAlgo_def reparamBspline_def Let_def fdiv_def of_nat_diff split: if_split_asm)
  have "real ?n - 3 \<le> (?D + 1 / 10000) / ?dt"
    using divide_right_mono [of ?D "?D + 1 / 10000" ?dt] dt by simp
  then have "int ?n - 3 \<le> \<lfloor>(?D + 1 / 10000) / ?dt\<rfloor>" by (simp add: le_floor_iff)
  moreover have "length ts_list = Suc (nat \<lfloor>(?D + 1 / 10000) / ?dt\<rfloor>)"
    using times dt(1) D by (auto simp: times_upto_def split: if_split_asm)
  ultimately have "?n - 2 \<le> length ts_list" by linarith
  then have "3 < length pts" using s(3) pts map_result_length by (fastforce simp: evaluate_all_def)
  from parameterize_length [OF fit dt(1) this] refine_length [OF opt] this ts dt(1) show ?thesis by simp
qed

lemma refine_free:
  assumes "BsplineOptimizeTrajRefine e fc pts ts s = Inr (True, ps, s')"
  shows "free_at_checks e (UniformBspline ps 3 ts)"
proof -
  from assms obtain q fc' q' code s1 where
    "lbfgs_optimize 200 costFunctionRefine None (\<lambda>_. False) refine_params q fc
       ((setBsplineInterval ts (setControlPoints pts s))\<lparr>iter_num := 0\<rparr>) = Inr (code, q', fc', s1)"
    and hit: "trajectory_hit e s1 = Inr None" and ps: "ps = points (cps s1)"
    by (auto simp: BsplineOptimizeTrajRefine_def refine_optimize_def refine_round_def Let_def split: if_split_asm)
  from lbfgs_optimize_keeps [OF refine_evaluated this(1) evaluated_refl] have "bspline_interval s1 = ts"
    using same_setting_fields(1) by (fastforce simp: evaluated_def setBsplineInterval_def)
  with trajectory_hit_free [OF hit] ps show ?thesis by simp
qed

section \<open>The properties\<close>

lemma checks_same:
  "free_at_checks e (setPhysicalLimits v a tol traj) = free_at_checks e traj"
proof -
  have ev: "evaluateDeBoorT t (setPhysicalLimits v a tol traj) = evaluateDeBoorT t traj" for t
    by (simp add: evaluateDeBoorT_def evaluateDeBoor_def setPhysicalLimits_def Let_def)
  have span: "getTimeSpan (setPhysicalLimits v a tol traj) = getTimeSpan traj"
    by (simp add: getTimeSpan_def setPhysicalLimits_def)
  have "trajectory_times e (setPhysicalLimits v a tol traj) = trajectory_times e traj"
    unfolding trajectory_times_def ev span by (rule refl)
  then show ?thesis by (simp add: free_at_checks_def ev)
qed

lemma replan_done_traj:
  assumes "replan_done pos n s = Inr (ok, s')"
  shows "plan_done pos (rn_done n) (rs_manager s) = Inr (True, rs_manager s') \<and> ok \<and> position_traj (local_data (rs_manager s')) = pos"
  using assms by (auto simp: replan_done_def plan_done_def updateTrajInfo_def)

text \<open>A run that returns is one of \<open>PlannerManager\<close>, and a success without alternatives is free.\<close>

lemma replan_cases:
  assumes run: "replan n p0 v0 a0 p1 v1 poly random s = Inr (ok, s')"
    and par: "0 < ctrl_pt_dist (rn_path n)" "0 < max_vel (pp (rs_manager s))" "0 < max_acc (pp (rs_manager s))"
      "0 \<le> feasibility_tolerance (pp (rs_manager s))"
  shows "\<exists>r. rebound_ok r \<and> reboundReplan p0 p1 r (rn_done n) (rs_manager s) = Inr (ok, rs_manager s') \<and>
    (ok \<longrightarrow> \<not> use_distinctive_trajs (rn_path n) \<longrightarrow>
       free_at_checks (rn_env n) (position_traj (local_data (rs_manager s'))))"
proof (cases "vnorm (vsub p0 p1) < 2 / 10")
  case True
  with run show ?thesis
    by (intro exI [of _ "\<lparr>optimised = None, refined = None\<rparr>"])
      (auto simp: replan_def replan_failed_def reboundReplan_def rebound_ok_def)
next
  case False
  let ?m = "rs_manager s"
  from run False obtain ok1 pts ts ders s1 where 1: "plan_rebound n p0 v0 a0 p1 v1 poly random s = Inr ((ok1, pts, ts, ders), s1)"
    by (auto simp: replan_def)
  from 1 obtain path first ctrl_pts opt where
    init: "initial_points (rn_fuel n) (rn_solver n) ?m (rn_path n) (rn_random n) (rn_now n) (flag_first_call s) poly random p0 v0 a0 p1 v1 = Inr (path, first)"
    and fit: "parameterizeToBspline (rn_lsq n) (path_ts path) (point_set path) (start_end_derivatives path) [] = Inr ctrl_pts"
    and op: "optimise (rn_fuel n) (rn_env n) (use_distinctive_trajs (rn_path n)) (path_ts path) ctrl_pts
        ((rs_optimizer s)\<lparr>local_target_pt := p1, swarm_trajs := swarm_trajs_buf ?m\<rparr>) = Inr (ok1, pts, opt)"
    and s1: "s1 = s\<lparr>rs_optimizer := opt, flag_first_call := first\<rparr>" and ts: "ts = path_ts path"
    by (auto simp: plan_rebound_def)
  note I = initial_points_ok [OF init par(1,2)]
  have len: "9 \<le> length pts" using optimise_length [OF op] parameterize_length [OF fit] I by simp
  have ts0: "0 < ts" using I ts by simp
  let ?U = "UniformBspline pts 3 ts"
  let ?pos = "setPhysicalLimits (max_vel (pp ?m)) (max_acc (pp ?m)) (feasibility_tolerance (pp ?m)) ?U"
  have free: "free_at_checks (rn_env n) ?pos" if "ok1" "\<not> use_distinctive_trajs (rn_path n)"
    using op that rebound_outcome unfolding checks_same ts by (fastforce simp: optimise_def)
  let ?opt = "if ok1 then Some (pts, ts) else None"
  have okay: "rebound_ok \<lparr>optimised = ?opt, refined = None\<rparr>" using len ts0 by (simp add: rebound_ok_def)
  show ?thesis
  proof (cases ok1)
    case no: False
    with run False 1 have "ok = False" "s' = replan_failed s1" by (simp_all add: replan_def)
    with no False okay show ?thesis
      by (intro exI [of _ "\<lparr>optimised = ?opt, refined = None\<rparr>"]) (simp add: reboundReplan_def replan_failed_def s1)
  next
    case yes: True
    have m: "rs_manager s1 = ?m" by (simp add: s1)
    note R = run [unfolded replan_def if_not_P [OF False] 1 bind_result.simps prod.case, simplified yes simp_thms if_False Let_def]
    have accept: ?thesis if "replan_done ?pos n s1 = Inr (ok, s')"
      "plan_drone_id (pp ?m) \<le> 0 \<longrightarrow> (\<exists>ratio. checkFeasibility ?pos = Inr (True, ratio))"
      using replan_done_traj [OF that(1)] that(2) okay free False yes m
      by (intro exI [of _ "\<lparr>optimised = ?opt, refined = None\<rparr>"]) (auto simp: reboundReplan_def Let_def)
    show ?thesis
    proof (cases "plan_drone_id (pp ?m) \<le> 0")
      case False
      with R accept show ?thesis by simp
    next
      case single: True
      with R obtain feasible ratio where f: "checkFeasibility ?pos = Inr (feasible, ratio)" by auto
      show ?thesis
      proof (cases feasible)
        case True
        with R single f accept show ?thesis by simp
      next
        case slow: False
        with R single f obtain ok2 optimal ts' opt' where
          ref: "refineTrajAlgo (rn_lsq n) (rn_env n) ?pos ders ratio (rs_optimizer s1) = Inr (ok2, optimal, ts', opt')"
          and rest: "(if ok2 then replan_done (UniformBspline optimal 3 ts') n (s1\<lparr>rs_optimizer := opt'\<rparr>)
              else Inr (False, replan_failed (s1\<lparr>rs_optimizer := opt'\<rparr>))) = Inr (ok, s')"
          by auto
        have wk: "well_knotted ?pos" "degree ?pos = 3" "7 \<le> length (control_points ?pos)"
          using uniform_well_knotted [OF ts0, of 3 pts] len
          by (simp_all add: well_knotted_limits) (simp_all add: setPhysicalLimits_def UniformBspline_def Let_def)
        have "checkFeasibility ?pos = Inr (False, ratio)" using f slow by simp
        moreover have "limits ?pos = Some (max_vel (pp ?m), max_acc (pp ?m), feasibility_tolerance (pp ?m))"
          by (simp add: setPhysicalLimits_def)
        ultimately have "1 \<le> ratio" using par(2-4) by (rule infeasible_ratio)
        from refineTrajAlgo_ok [OF wk this ref] have good: "3 < length optimal" "0 < ts'" by simp_all
        let ?r = "\<lparr>optimised = ?opt, refined = (if ok2 then Some (optimal, ts') else None)\<rparr>"
        have r: "rebound_ok ?r" using len ts0 good by (auto simp: rebound_ok_def)
        show ?thesis
        proof (cases ok2)
          case True
          from ref True have "free_at_checks (rn_env n) (UniformBspline optimal 3 ts')"
            using refine_free by (auto simp: refineTrajAlgo_def Let_def)
          with True rest replan_done_traj [of "UniformBspline optimal 3 ts'" n "s1\<lparr>rs_optimizer := opt'\<rparr>" ok s'] r False yes single f slow m
          show ?thesis by (intro exI [of _ ?r]) (simp add: reboundReplan_def Let_def)
        next
          case no: False
          with rest r False yes single f slow m show ?thesis
            by (intro exI [of _ ?r]) (auto simp: reboundReplan_def replan_failed_def Let_def)
        qed
      qed
    qed
  qed
qed

text \<open>
  C3: Replanning with the optimiser of the code is an instance of the planner's model.  With positive
  limits and distance of control points, every run of \<open>reboundReplan\<close> that returns, from the initial
  path over the fit and the optimiser (one or several trajectories) to the refinement, does to the
  manager what the model does for an optimiser that keeps its contract, at least four control points
  and a positive time step.  What is proved of the planner under that contract holds of the code.
\<close>

theorem replan_refines:
  assumes "replan n p0 v0 a0 p1 v1 poly random s = Inr (ok, s')"
    "0 < ctrl_pt_dist (rn_path n)" "0 < max_vel (pp (rs_manager s))" "0 < max_acc (pp (rs_manager s))"
    "0 \<le> feasibility_tolerance (pp (rs_manager s))"
  shows "\<exists>r. rebound_ok r \<and> reboundReplan p0 p1 r (rn_done n) (rs_manager s) = Inr (ok, rs_manager s')"
  using replan_cases [OF assms] by blast

text \<open>
  C4: What is planned is free.  Without alternative trajectories, the local trajectory that a successful
  \<open>reboundReplan\<close> leaves, refined or not, is not in an obstacle at any time the optimiser looked at.
\<close>

theorem replan_free:
  assumes "replan n p0 v0 a0 p1 v1 poly random s = Inr (True, s')" "\<not> use_distinctive_trajs (rn_path n)"
    "0 < ctrl_pt_dist (rn_path n)" "0 < max_vel (pp (rs_manager s))" "0 < max_acc (pp (rs_manager s))"
    "0 \<le> feasibility_tolerance (pp (rs_manager s))"
  shows "free_at_checks (rn_env n) (position_traj (local_data (rs_manager s')))"
  using replan_cases [OF assms(1,3-6)] assms(2) by blast

end
