(* ===== verification/OptimizerDemo.thy ===== *)
theory OptimizerDemo
  imports Replan AStarDemo
begin

text \<open>
  Concrete inputs for the properties of the trajectory optimiser.  The first part shows, for any
  number of control points, what the optimiser does when they all lie on the target, in free space and
  with no other drone: every cost and gradient is zero, and the minimiser has nothing to do.
\<close>

section \<open>Control points at rest\<close>

lemma vec_rest [simp]: "vscale c vzero = vzero" "vadd p vzero = p" "vadd vzero p = p" "vsub p p = vzero"
  "vdot vzero p = 0" "vscale 1 p = p"
  by (simp_all add: vscale_def vadd_def vsub_def vzero_def vdot_def)

lemma add_zero [simp]: "0 \<le> i \<Longrightarrow> i < int (length g) \<Longrightarrow> add_col i vzero g = Inr g"
  by (simp add: add_col_def)

lemma nth_rest [simp]: "0 \<le> i \<Longrightarrow> i < int n \<Longrightarrow> replicate n a ! nat i = a"
  by (simp add: nat_less_iff)

lemma fold_rest: "(\<And>i. i \<in> set is \<Longrightarrow> f i s = Inr s) \<Longrightarrow> fold_result f is s = Inr s"
  by (induction "is") auto

lemma smooth_rest:
  assumes "length g = n"
  shows "calcSmoothnessCost (replicate n p) g True = Inr (0, g)"
proof -
  have "jerk_term (replicate n p) i (0, g) = Inr (0, g)" if "i \<in> set [0..int n - 4]" for i
  proof -
    have j: "vsub (vadd (vsub p (vscale 3 p)) (vscale 3 p)) p = vzero"
      by (simp add: vadd_def vsub_def vscale_def vzero_def)
    show ?thesis using that assms by (simp add: jerk_term_def j)
  qed
  then have "fold_result (jerk_term (replicate n p)) [0..int n - 4] (0, g) = Inr (0, g)" by (rule fold_rest)
  then show ?thesis by (simp add: calcSmoothnessCost_def)
qed

lemma rows_rest:
  assumes "row \<in> set rows" "0 \<le> v" "st = (cost, g)"
  shows "vel_row ts v i vzero row st = Inr st" "acc_row ts v i vzero row st = Inr st"
proof -
  have "fst row vzero = 0" using assms(1) by (auto simp: rows_def vzero_def)
  then have "\<not> v < fst row vzero" "\<not> fst row vzero < - v" using assms(2) by simp_all
  then show "vel_row ts v i vzero row st = Inr st" "acc_row ts v i vzero row st = Inr st"
    by (simp_all add: vel_row_def acc_row_def Let_def assms(3) split_beta)
qed

lemma feasible_rest:
  assumes "length g = n" "bspline_interval s \<noteq> 0" "0 \<le> opt_max_vel s" "0 \<le> opt_max_acc s"
  shows "calcFeasibilityCost s (replicate n p) g = Inr (0, g)"
proof -
  let ?vel = "vel_feasible_term (bspline_interval s) (opt_max_vel s) (replicate n p)"
  let ?acc = "acc_feasible_term (bspline_interval s) (opt_max_acc s) (replicate n p)"
  have "?vel i (0, g) = Inr (0, g)" if "i \<in> set [0..int n - 2]" for i
    using that rows_rest(1) [OF _ assms(3) refl] by (simp add: vel_feasible_term_def fold_rest)
  then have "fold_result ?vel [0..int n - 2] (0, g) = Inr (0, g)" by (rule fold_rest)
  moreover have "vadd (vsub p (vscale 2 p)) p = vzero" by (simp add: vadd_def vsub_def vscale_def vzero_def)
  then have "?acc i (0, g) = Inr (0, g)" if "i \<in> set [0..int n - 3]" for i
    using that rows_rest(2) [OF _ assms(4) refl] by (simp add: acc_feasible_term_def fold_rest)
  then have "fold_result ?acc [0..int n - 3] (0, g) = Inr (0, g)" by (rule fold_rest)
  ultimately show ?thesis using assms(2) by (simp add: calcFeasibilityCost_def Let_def)
qed

lemma terminal_rest:
  assumes "length g = n" "3 \<le> n"
  shows "calcTerminalCost p (replicate n p) g = Inr (0, g)"
proof -
  have "vsub (vscale (1 / 6) (vadd (vadd p (vscale 4 p)) p)) p = vzero"
    by (simp add: vadd_def vsub_def vscale_def vzero_def)
  with assms show ?thesis by (simp add: calcTerminalCost_def nat_diff_distrib Let_def)
qed

lemma swarm_rest: "swarm_trajs s = [] \<Longrightarrow> swarm_pairs s n = []"
proof -
  have "concat (map (\<lambda>i. []) xs) = []" for xs by (induction xs) simp_all
  then show "swarm_trajs s = [] \<Longrightarrow> swarm_pairs s n = []" by (simp add: swarm_pairs_def Let_def)
qed

lemma weighted_rest:
  assumes "\<forall>(k, g) \<in> set kgs. g = zero_cols n" "kgs \<noteq> []"
  shows "weighted kgs = zero_cols n"
proof -
  have "map2 (\<lambda>a b. vadd (vscale k a) b) (zero_cols n) (zero_cols n) = zero_cols n" for k
    by (simp add: zero_cols_def map2_map_map [symmetric] zip_replicate)
  then have "foldr (\<lambda>(k, g) acc. map2 (\<lambda>a b. vadd (vscale k a) b) g acc) kgs (zero_cols n) = zero_cols n"
    using assms(1) by (induction kgs) auto
  moreover have "length (snd (hd kgs)) = n" using assms by (cases kgs) (auto simp: zero_cols_def)
  ultimately show ?thesis by (simp add: weighted_def)
qed

lemma load_zero:
  assumes "0 \<le> ord" "3 * nat ord + k \<le> 3 * n"
  shows "load_vars ord k (zero_cols n) = Inr (replicate k 0)"
proof -
  have "doubles (zero_cols n) = replicate (3 * n) 0" by (induction n) (simp_all add: zero_cols_def vzero_def numeral_3_eq_3)
  with assms show ?thesis by (simp add: load_vars_def)
qed

lemma load_store:
  assumes "load_vars ord k ps = Inr x"
  shows "store_vars ord x ps = Inr ps" "length x = k"
proof -
  from assms have x: "0 \<le> ord" "3 * nat ord + k \<le> 3 * length ps" "x = take k (drop (3 * nat ord) (doubles ps))"
    by (auto simp: load_vars_def split: if_split_asm)
  then show l: "length x = k" by (simp add: nat_mult_distrib)
  have "take (3 * nat ord) (doubles ps) @ x @ drop (3 * nat ord + length x) (doubles ps) = doubles ps"
    unfolding l unfolding x(3) by (metis append_take_drop_id drop_drop add.commute)
  with x l show "store_vars ord x ps = Inr ps" by (simp add: store_vars_def)
qed

text \<open>The state: all control points on the target, none with a base point, no other drone.\<close>

definition at_rest :: "vec3 \<Rightarrow> nat \<Rightarrow> optimizer \<Rightarrow> bool" where
  "at_rest p n s \<longleftrightarrow> points (cps s) = replicate n p \<and> direction (cps s) = replicate n [] \<and> cp_size (cps s) = int n \<and> order s = 3 \<and>
     4 \<le> n \<and> 0 < bspline_interval s \<and> 0 \<le> opt_max_vel s \<and> 0 \<le> opt_max_acc s \<and> swarm_trajs s = [] \<and> local_target_pt s = p"

lemma rebound_cost_rest:
  assumes r: "at_rest p n s" and x: "load_vars 3 k (points (cps s)) = Inr x" and it: "iter_num s \<le> 3"
  shows "combineCostRebound e x s = Inr (0, replicate k 0, s\<lparr>force_stop_type := DONT_STOP, clock_reads := Suc (clock_reads s)\<rparr>)"
proof -
  have c: "points (cps s) = replicate n p" "direction (cps s) = replicate n []" "cp_size (cps s) = int n" "order s = 3" "4 \<le> n"
    "0 < bspline_interval s" "0 \<le> opt_max_vel s" "0 \<le> opt_max_acc s" "swarm_trajs s = []" "local_target_pt s = p"
    using r by (simp_all add: at_rest_def)
  let ?z = "zero_cols n"
  have z: "length ?z = n" by (simp add: zero_cols_def)
  let ?s = "s\<lparr>force_stop_type := DONT_STOP\<rparr>"
  have "point_terms (cps s) i (0, ?z) = Inr (0, ?z)" if "i \<in> set [3..int n - 3 - 1]" for i
    using that c by (simp add: point_terms_def)
  then have "fold_result (point_terms (cps s)) [3..int n - 3 - 1] (0, ?z) = Inr (0, ?z)" by (rule fold_rest)
  then have d: "calcDistanceCostRebound e s (replicate n p) ?z (iter_num s) f = Inr ((0, ?z), ?s)" for f
    using it c by (simp add: calcDistanceCostRebound_def Let_def)
  have w: "calcSwarmCost e ?s (replicate n p) ?z = Inr ((0, ?z), ?s\<lparr>clock_reads := Suc (clock_reads s)\<rparr>)"
    using c by (simp add: calcSwarmCost_def swarm_rest)
  from x have k: "3 * nat 3 + k \<le> 3 * n" using c(1) by (simp add: load_vars_def split: if_split_asm)
  have "(cps s)\<lparr>points := replicate n p\<rparr> = cps s" using c(1) by (cases "cps s") simp
  then have s: "s\<lparr>cps := (cps s)\<lparr>points := replicate n p\<rparr>\<rparr> = s" by (cases s) simp
  note L = load_store [OF x]
  have store: "store_vars (order s) x (points (cps s)) = Inr (replicate n p)" using L(1) c by simp
  have f: "calcFeasibilityCost ?s (replicate n p) ?z = Inr (0, ?z)" using feasible_rest [OF z] c by simp
  have t: "calcTerminalCost (local_target_pt (?s\<lparr>clock_reads := Suc (clock_reads s)\<rparr>)) (replicate n p) ?z = Inr (0, ?z)"
    using terminal_rest [OF z] c by simp
  have wt: "weighted [(a, ?z), (b, ?z), (d, ?z), (h, ?z), (l, ?z)] = ?z" for a b d h l by (rule weighted_rest) simp_all
  have ld: "load_vars (order s) (length x) ?z = Inr (replicate k 0)" using load_zero [OF _ k] c L(2) by simp
  have cp: "nat (cp_size (cps s)) = n" using c by simp
  show ?thesis
    unfolding combineCostRebound_def store bind_result.simps Let_def s cp smooth_rest [OF z] prod.case d f w t wt
    using ld c by (simp add: load_zero [OF _ k] L(2))
qed

lemma vec2norm_zero: "vec2norm (replicate k 0) = 0"
proof -
  have "vecdot (replicate k 0) (replicate k 0) = 0" by (induction k) (simp_all add: vecdot_def)
  then show ?thesis by (simp add: vec2norm_def)
qed

lemma lbfgs_done:
  assumes "invalid_parameters (length x) q = None" "cost x s = Inr (f, replicate k 0, s')" "0 \<le> g_epsilon q"
  shows "lbfgs_optimize fuel cost stepbound progress q x fc s = Inr (LBFGS_ALREADY_MINIMIZED, x, f, s')"
  using assms by (simp add: lbfgs_optimize_def vec2norm_zero)

lemma uniform_rest:
  assumes "0 < h" "3 < n" "i + 3 \<le> n"
  shows "evaluateDeBoorT (real i * h) (UniformBspline (replicate n p) 3 h) = Inr p"
proof -
  have "vscale (1 / 6) (vadd (vadd p (vscale 4 p)) p) = p" by (cases p) (simp add: vadd_def vscale_def)
  moreover have "replicate n p ! i = p" "replicate n p ! (i + 1) = p" "replicate n p ! (i + 2) = p" using assms(3) by simp_all
  ultimately show ?thesis using uniform_value [of h i "replicate n p"] assms by simp
qed

text \<open>The trajectory is looked at once.\<close>

lemma hit_rest:
  assumes r: "at_rest p n s" and free: "occupied e p = Inr False"
  shows "trajectory_hit e s = Inr None"
proof -
  let ?h = "bspline_interval s" and ?t = "UniformBspline (replicate n p) 3 (bspline_interval s)"
  have c: "points (cps s) = replicate n p" "4 \<le> n" "0 < ?h" using r by (simp_all add: at_rest_def)
  have span: "getTimeSpan ?t = Inr (Some (0, real (n - 3) * ?h))"
    using c uniform_knot_eq [of 3 ?h 3] uniform_knot_eq [of 3 ?h n]
    by (simp add: getTimeSpan_def UniformBspline_def Let_def of_nat_diff del: upt_Suc)
  have e0: "evaluateDeBoorT 0 ?t = Inr p" using uniform_rest [OF c(3), of n 0] c by simp
  have e1: "evaluateDeBoorT (real (n - 3) * ?h) ?t = Inr p" using uniform_rest [OF c(3), of n "n - 3"] c by simp
  have "vnorm vzero = 0" by (simp add: vnorm_def vzero_def)
  moreover have "0 < real (n - 3) * ?h" using c by simp
  ultimately have "trajectory_times e ?t = Inr [0]"
    by (simp add: trajectory_times_def span e0 e1 check_times_def not_le del: of_nat_diff)
  with c e0 free show ?thesis by (simp add: trajectory_hit_def Let_def)
qed

lemma round_success:
  assumes "load_vars (order s) (nat (3 * (cp_size (cps s) - order s))) (points (cps s)) = Inr x" "order s \<le> cp_size (cps s)"
    "lbfgs_optimize 200 (costFunctionRebound e) None earlyExit rebound_params x fc
       (s\<lparr>min_ellip_dist := INIT_min_ellip_dist, iter_num := 0\<rparr>) = Inr (r, y, fc', s')"
    "finished r" "\<not> swarm_too_close s'" "trajectory_hit e s' = Inr None"
  shows "rebound_round e fc s = Inr (Success, fc', s')"
  using assms by (simp add: rebound_round_def Let_def)

lemma rebound_rest:
  assumes r: "at_rest p n s" and free: "occupied e p = Inr False"
  shows "\<exists>s'. rebound_optimize (Suc fuel) e fc s = Inr (True, 0, s') \<and> points (cps s') = replicate n p"
proof -
  let ?s = "s\<lparr>iter_num := 0, new_lambda2 := lambda2 s\<rparr>"
  let ?u = "?s\<lparr>min_ellip_dist := INIT_min_ellip_dist, iter_num := 0\<rparr>"
  let ?v = "?u\<lparr>force_stop_type := DONT_STOP, clock_reads := Suc (clock_reads s)\<rparr>"
  let ?w = "?v\<lparr>iter_num := 1\<rparr>"
  have u: "at_rest p n ?u" "at_rest p n ?w" using r by (simp_all add: at_rest_def)
  have c: "points (cps s) = replicate n p" "cp_size (cps s) = int n" "order s = 3" "4 \<le> n" using r by (simp_all add: at_rest_def)
  define k where "k = nat (3 * (int n - 3))"
  have k: "3 * nat 3 + k \<le> 3 * n" "0 \<le> 3 * (int n - 3)" "0 < k" using c(4) by (simp_all add: k_def)
  obtain x where x: "load_vars 3 k (points (cps s)) = Inr x" using k c(1) by (simp add: load_vars_def)
  have cost: "costFunctionRebound e x ?u = Inr (0, replicate k 0, ?w)"
    using rebound_cost_rest [OF u(1), of k x e] x by (simp add: costFunctionRebound_def)
  have len: "length x = k" by (rule load_store(2) [OF x])
  have "invalid_parameters (length x) rebound_params = None" "0 \<le> g_epsilon rebound_params"
    using k(3) by (simp_all add: invalid_parameters_def rebound_params_def lbfgs_load_default_parameters_def len)
  note opt = lbfgs_done [where cost = "costFunctionRebound e", OF this(1) cost this(2), of 200 None earlyExit fc]
  have far: "\<not> swarm_too_close ?w" by (simp add: swarm_too_close_def)
  have "load_vars (order ?s) (nat (3 * (cp_size (cps ?s) - order ?s))) (points (cps ?s)) = Inr x"
    using x c by (simp add: k_def)
  from round_success [OF this _ opt _ far hit_rest [OF u(2) free]] have "rebound_round e fc ?s = Inr (Success, 0, ?w)"
    using c by (simp add: finished_def)
  then have "rebound_optimize (Suc fuel) e fc s = Inr (True, 0, ?w)"
    using far by (simp add: rebound_optimize_def again_def Let_def)
  with c(1) show ?thesis by auto
qed

section \<open>The minimiser\<close>

lemma first_step_accepted:
  assumes "0 < stp" "vecdot g d \<le> 0" "stpmin < stp" "stp < stpmax" "\<not> progress s" "2 \<le> max_linesearch p"
    "cost (vecadd x d stp) s = Inr (f', g', s')"
    "f' \<le> f + stp * (f_dec_coeff p * vecdot g d)" "\<bar>vecdot g' d\<bar> \<le> s_curv_coeff p * - vecdot g d"
  shows "line_search_morethuente cost progress p stpmin stpmax stp d x f g s = Inr (Inr 1, stp, vecadd x d stp, f', g', s')"
proof -
  obtain n where "max_linesearch p = Suc (Suc n)" using assms(6) by (metis add_2_eq_Suc le_add_diff_inverse)
  with assms show ?thesis
    by (simp add: line_search_morethuente_def clipped_step_def step_range_def line_verdict_def Let_def)
qed

lemma loop_step:
  assumes "line_search_morethuente cost progress p (min_step p) (max_step p) step d x fx g s = Inr (Inr c, stp, x', fx', g', s')"
  shows "vec2norm g' / max 1 (vec2norm x') \<le> g_epsilon p \<Longrightarrow>
      lbfgs_loop (Suc n) cost None progress p k x g fx d step mem s = Inr (LBFGS_CONVERGENCE, x', fx', s')"
    and "\<not> vec2norm g' / max 1 (vec2norm x') \<le> g_epsilon p \<Longrightarrow> past p = 0 \<Longrightarrow> k < max_iterations p \<Longrightarrow>
      next_direction k x' x g' g mem = Inr (d', mem') \<Longrightarrow>
      lbfgs_loop (Suc n) cost None progress p k x g fx d step mem s = lbfgs_loop n cost None progress p (Suc k) x' g' fx' d' 1 mem' s'"
  using assms by (simp_all add: stopping_test_def)

text \<open>The square of one variable, from three on: two steps of the minimiser find zero.\<close>

definition square_cost :: "real list \<Rightarrow> nat \<Rightarrow> cpp_error + real \<times> real list \<times> nat" where
  "square_cost x s = Inr (vecdot x x, vecscale x 2, s)"

lemma square_run:
  "lbfgs_optimize 200 square_cost None (\<lambda>_. False) rebound_params [3] 0 0 = Inr (LBFGS_CONVERGENCE, [0], 0, 0)"
proof -
  let ?p = "rebound_params"
  have root: "sqrt 36 = 6" "sqrt 16 = 4" by (rule real_sqrt_unique; simp)+
  have p: "mem_size ?p = 16" "g_epsilon ?p = 1 / 100" "past ?p = 0" "max_iterations ?p = 200" "max_linesearch ?p = 40"
    "min_step ?p = 1 / 10 ^ 20" "max_step ?p = 10 ^ 20" "f_dec_coeff ?p = 1 / 10 ^ 4" "s_curv_coeff ?p = 9 / 10"
    "invalid_parameters 1 ?p = None"
    by (simp_all add: rebound_params_def lbfgs_load_default_parameters_def invalid_parameters_def)
  note vec = vecdot_def vecadd_def vecscale_def vecdiff_def vecncpy_def vec2norm_def
  have 1: "line_search_morethuente square_cost (\<lambda>_. False) ?p (min_step ?p) (max_step ?p) (1 / 6) [- 6] [3] 9 [6] 0 =
      Inr (Inr 1, 1 / 6, [2], 4, [4], 0)"
    using first_step_accepted [of "1 / 6" "[6]" "[- 6]" "min_step ?p" "max_step ?p" "\<lambda>_. False" 0 ?p square_cost "[3]" 4 "[4]" 0 9]
    by (simp add: p vec square_cost_def)
  have 2: "line_search_morethuente square_cost (\<lambda>_. False) ?p (min_step ?p) (max_step ?p) 1 [- 2] [2] 4 [4] 0 =
      Inr (Inr 1, 1, [0], 0, [0], 0)"
    using first_step_accepted [of 1 "[4]" "[- 2]" "min_step ?p" "max_step ?p" "\<lambda>_. False" 0 ?p square_cost "[2]" 0 "[0]" 0 4]
    by (simp add: p vec square_cost_def)
  define it where "it x y r = \<lparr>it_s = [x], it_y = [y], it_ys = r\<rparr>" for x y r :: real
  have d: "next_direction 1 [2] [3] [4] [6] \<lparr>lm = replicate 16 (it 0 0 0), lm_end = 0, pf = []\<rparr> =
      Inr ([- 2], \<lparr>lm = (replicate 16 (it 0 0 0))[0 := it (- 1) (- 2) 2], lm_end = 1, pf = []\<rparr>)"
    by (simp add: next_direction_def vec Let_def ring_places_def it_def)
  have "lbfgs_loop 200 square_cost None (\<lambda>_. False) ?p 1 [3] [6] 9 [- 6] (1 / 6) \<lparr>lm = replicate 16 (it 0 0 0), lm_end = 0, pf = []\<rparr> 0 =
      lbfgs_loop 199 square_cost None (\<lambda>_. False) ?p 2 [2] [4] 4 [- 2] 1
        \<lparr>lm = (replicate 16 (it 0 0 0))[0 := it (- 1) (- 2) 2], lm_end = 1, pf = []\<rparr> 0"
    using loop_step(2) [OF 1 _ _ _ d, of 199] root by (simp add: p vec numeral_2_eq_2)
  also have "\<dots> = Inr (LBFGS_CONVERGENCE, [0], 0, 0)"
    using loop_step(1) [OF 2, of 198] by (simp add: p vec)
  finally show ?thesis
    using root p(10) by (simp add: lbfgs_optimize_def square_cost_def p(1-3) vec vec2norminv_def it_def)
qed

theorem lbfgs_descends_witness:
  "lbfgs_optimize 200 square_cost None (\<lambda>_. False) rebound_params [3] 0 0 = Inr (LBFGS_CONVERGENCE, [0], 0, 0) \<and>
    vecdot [0] [0] \<le> vecdot [3] [3 :: real] \<and> vec2norm (vecscale [0] 2) \<le> g_epsilon rebound_params * max 1 (vec2norm [0])"
proof -
  have pure: "pure_cost (length [3 :: real]) (\<lambda>_. True) (\<lambda>x. vecdot x x) (\<lambda>x. vecscale x 2) square_cost"
    by (auto simp: pure_cost_def square_cost_def vecscale_def)
  have "invalid_parameters (length [3 :: real]) rebound_params = None"
    by (simp add: rebound_params_def lbfgs_load_default_parameters_def invalid_parameters_def)
  from lbfgs_descends [OF pure this TrueI square_run] square_run show ?thesis by blast
qed

theorem lbfgs_evaluations_witness:
  "\<exists>r. lbfgs_optimize 200 (counted square_cost) None (\<lambda>_. False) rebound_params [3] 0 (0, 0) = r \<and> r \<noteq> Inl Hangs \<and>
    (case r of Inl _ \<Rightarrow> True | Inr (code, x', fx, n, s') \<Rightarrow> n \<le> 8001)"
proof -
  have "0 < max_iterations rebound_params" "max_iterations rebound_params \<le> 200" "max_linesearch rebound_params = 40"
    "max_iterations rebound_params = 200"
    by (simp_all add: rebound_params_def lbfgs_load_default_parameters_def)
  with lbfgs_evaluations [of rebound_params 200 square_cost None "\<lambda>_. False" "[3]" 0 0] show ?thesis
    by (auto simp: square_cost_def split: sum.split)
qed

section \<open>The optimiser\<close>

definition opt_env :: "mapping_data \<Rightarrow> optimizer_env" where
  "opt_env md = \<lparr>env_mp = demo_mp, env_md = md, env_pick = take_first, env_late = (\<lambda>_ _. False), env_clock = real\<rparr>"

definition demo_optimizer :: "nat \<Rightarrow> vec3 \<Rightarrow> vec3 \<Rightarrow> optimizer" where
  "demo_optimizer n p target =
     \<lparr>cps = \<lparr>clearance = 1 / 2, cp_size = int n, points = replicate n p, base_point = replicate n [],
             direction = replicate n [], flag_temp = replicate n False\<rparr>,
      force_stop_type = DONT_STOP, bspline_interval = 1, order = 3, lambda1 = 1, lambda2 = 1, new_lambda2 = 1,
      lambda3 = 1, lambda4 = 1, dist0 = 1 / 2, opt_clearance = 1 / 2, opt_max_vel = 1, opt_max_acc = 1, iter_num = 0,
      min_ellip_dist = 0, local_target_pt = target, ref_pts = [], swarm_trajs = [], opt_drone_id = 0,
      a_star = demo_pool, clock_reads = 0\<rparr>"

lemma demo_at_rest: "4 \<le> n \<Longrightarrow> at_rest p n (demo_optimizer n p p)"
  by (simp add: at_rest_def demo_optimizer_def)

lemma demo_place:
  assumes "initMap demo_nh grid_demo_map = Inr (demo_mp, md)"
  shows "occupied (opt_env md) (Vec3 1 0 1) = Inr False"
proof -
  have "isInMap demo_mp (Vec3 1 0 1)" by (simp add: isInMap_def demo_mp_def)
  from demo_free [OF assms this] show ?thesis by (simp add: occupied_def checkOccupancy_def opt_env_def)
qed

theorem rebound_free_witness:
  "\<exists>md s'. initMap demo_nh grid_demo_map = Inr (demo_mp, md) \<and>
    BsplineOptimizeTrajRebound 1 (opt_env md) 0 1 (demo_optimizer 6 (Vec3 1 0 1) (Vec3 1 0 1)) = Inr (True, replicate 6 (Vec3 1 0 1), s') \<and>
    free_at_checks (opt_env md) (UniformBspline (replicate 6 (Vec3 1 0 1)) 3 1)"
proof -
  let ?p = "Vec3 1 0 1"
  obtain md where m: "initMap demo_nh grid_demo_map = Inr (demo_mp, md)" using demo_start by blast
  have "at_rest ?p 6 (setBsplineInterval 1 (demo_optimizer 6 ?p ?p))"
    using demo_at_rest [of 6 ?p] by (simp add: at_rest_def setBsplineInterval_def)
  from rebound_rest [OF this demo_place [OF m], of 0 0] obtain s' where
    "rebound_optimize 1 (opt_env md) 0 (setBsplineInterval 1 (demo_optimizer 6 ?p ?p)) = Inr (True, 0, s')" "points (cps s') = replicate 6 ?p"
    by auto
  then have run: "BsplineOptimizeTrajRebound 1 (opt_env md) 0 1 (demo_optimizer 6 ?p ?p) = Inr (True, replicate 6 ?p, s')"
    by (simp add: BsplineOptimizeTrajRebound_def)
  from rebound_free [OF run] run m show ?thesis by blast
qed

text \<open>Four control points, of which the minimiser moves the last, six metres from the target.\<close>

lemma demo_cost:
  "\<exists>s'. combineCostRebound (opt_env grid_demo_map) [0, 0, 0] (demo_optimizer 4 vzero (Vec3 6 0 0)) = Inr (36, [- 2, 0, 0], s')"
proof -
  let ?s = "demo_optimizer 4 vzero (Vec3 6 0 0)" and ?q = "replicate 4 vzero" and ?z = "zero_cols 4"
  have four: "replicate 4 a = [a, a, a, a]" for a :: 'a by (simp add: numeral_eq_Suc)
  have st: "store_vars (order ?s) [0, 0, 0] (points (cps ?s)) = Inr ?q" "nat (cp_size (cps ?s)) = 4"
    "?s\<lparr>cps := (cps ?s)\<lparr>points := ?q\<rparr>\<rparr> = ?s"
    by (simp_all add: store_vars_def demo_optimizer_def four) (simp add: vzero_def)
  let ?s1 = "?s\<lparr>force_stop_type := DONT_STOP\<rparr>"
  have d: "calcDistanceCostRebound (opt_env grid_demo_map) ?s ?q ?z (iter_num ?s) f = Inr ((0, ?z), ?s1)" for f
    by (simp add: calcDistanceCostRebound_def demo_optimizer_def Let_def)
  have z: "length ?z = 4" by (simp add: zero_cols_def)
  have fe: "calcFeasibilityCost ?s1 ?q ?z = Inr (0, ?z)" by (rule feasible_rest [OF z]) (simp_all add: demo_optimizer_def)
  have sw: "calcSwarmCost (opt_env grid_demo_map) ?s1 ?q ?z = Inr ((0, ?z), ?s1\<lparr>clock_reads := 1\<rparr>)"
    by (simp add: calcSwarmCost_def swarm_rest demo_optimizer_def)
  have te: "calcTerminalCost (local_target_pt (?s1\<lparr>clock_reads := 1\<rparr>)) ?q ?z = Inr (36, [vzero, Vec3 (- 2) 0 0, Vec3 (- 8) 0 0, Vec3 (- 2) 0 0])"
    by (simp add: calcTerminalCost_def demo_optimizer_def Let_def add_col_def zero_cols_def four)
      (simp add: vzero_def vadd_def vsub_def vscale_def vdot_def)
  show ?thesis
    unfolding combineCostRebound_def st bind_result.simps Let_def smooth_rest [OF z] prod.case d fe sw te
    by (simp add: weighted_def zero_cols_def four load_vars_def demo_optimizer_def vzero_def vadd_def vscale_def)
qed

theorem rebound_gradient_witness:
  "\<exists>s'. combineCostRebound (opt_env grid_demo_map) [0, 0, 0] (demo_optimizer 4 vzero (Vec3 6 0 0)) = Inr (36, [- 2, 0, 0], s') \<and>
    (cost_on_line (combineCostRebound (opt_env grid_demo_map)) [0, 0, 0] [1, 0, 0] (frozen s') has_real_derivative - 2) (at 0)"
proof -
  obtain s' where c: "combineCostRebound (opt_env grid_demo_map) [0, 0, 0] (demo_optimizer 4 vzero (Vec3 6 0 0)) = Inr (36, [- 2, 0, 0], s')"
    using demo_cost by blast
  from rebound_gradient [OF c, of "[1, 0, 0]"] c show ?thesis by (auto simp: demo_optimizer_def vecdot_def)
qed

section \<open>The initial path\<close>

text \<open>A solver that is right for points that are all the same.\<close>

definition same_lsq :: "real list list \<Rightarrow> real list \<Rightarrow> real list" where
  "same_lsq A b = replicate (length (hd A)) (hd b)"

theorem fit_interpolates_witness:
  "\<exists>q. parameterizeToBspline same_lsq 1 (replicate 4 (Vec3 1 2 3)) (replicate 4 vzero) [] = Inr q \<and>
    evaluateDeBoorT 2 (UniformBspline q 3 1) = Inr (Vec3 1 2 3)"
proof -
  let ?pts = "replicate 4 (Vec3 1 2 3)" and ?ders = "replicate 4 vzero"
  obtain q where q: "parameterizeToBspline same_lsq 1 ?pts ?ders [] = Inr q" by (auto simp: parameterizeToBspline_def Let_def)
  have len: "length (hd (fit_matrix 1 4)) = 6" by (simp add: fit_matrix_def band_row_def upt_rec Let_def)
  have rows: "row_products (fit_matrix 1 4) (replicate 6 a) = replicate 4 a @ replicate 4 0" for a
  proof -
    have "(\<Sum>j<6. band_row 4 i c (x, y, z) ! j * replicate 6 a ! j) = c * (x * a + y * a + z * a)" if "i < 4" for i c x y z
      using band_row_dot [of i 4 "replicate 6 a" c x y z] that by simp
    then show ?thesis by (simp add: row_products_def fit_matrix_def Let_def numeral_eq_Suc)
  qed
  have "\<forall>f \<in> {vx, vy, vz}. let b = map f (?pts @ take 4 ?ders); x = same_lsq (fit_matrix 1 (length ?pts)) b
       in length x = length ?pts + 2 \<and> row_products (fit_matrix 1 (length ?pts)) x = b"
    using rows by (simp add: same_lsq_def len Let_def vzero_def)
  from fit_interpolates [OF q _ _ this, of 2] q show ?thesis by simp
qed

section \<open>Replanning\<close>

text \<open>A drone one metre from its target, and a generator that stays at the target from the start on.\<close>

definition resting :: solver where
  "resting = demo_solver\<lparr>one_segment := \<lambda>p0 v0 a0 p1 v1 a1 t. straight p1 p1 t empty_traj\<rparr>"

definition demo_replan :: "mapping_data \<Rightarrow> replan_env" where
  "demo_replan md =
     \<lparr>rn_env = opt_env md, rn_solver = resting, rn_lsq = same_lsq,
      rn_path = \<lparr>ctrl_pt_dist = 1 / 5, path_horizon = 5, use_distinctive_trajs = False\<rparr>, rn_random = (0, 0),
      rn_now = 7, rn_done = 8, rn_fuel = 1\<rparr>"

definition demo_planner :: replan_state where
  "demo_planner =
     \<lparr>rs_manager = demo_manager\<lparr>pp := (pp demo_manager)\<lparr>plan_drone_id := 1\<rparr>\<rparr>, rs_optimizer = demo_optimizer 6 vzero vzero,
      flag_first_call = True\<rparr>"

lemma resting_values:
  assumes "t \<le> T"
  shows "evaluate t (straight p p T empty_traj) = Inr p" "evaluateVel t (straight p p T empty_traj) = Inr vzero"
    "evaluateAcc t (straight p p T empty_traj) = Inr vzero"
proof -
  have "find_segment [T] t 0 = Inr (0, t)" using assms by simp
  then show "evaluate t (straight p p T empty_traj) = Inr p" "evaluateVel t (straight p p T empty_traj) = Inr vzero"
    "evaluateAcc t (straight p p T empty_traj) = Inr vzero"
    by (cases p, simp_all add: evaluate_def evaluateVel_def evaluateAcc_def evaluate_with_def straight_def addSegment_def empty_traj_def
        poly_value_def poly_vel_def poly_acc_def vzero_def numeral_2_eq_2 del: find_segment.simps)
qed

lemma resting_samples:
  assumes "\<forall>t \<in> set ts. t \<le> T" "0 \<le> far"
  shows "sample_poly (straight p p T empty_traj) far p ts = Inr (Some (replicate (length ts) p))"
  using assms(1)
proof (induction ts)
  case (Cons t ts)
  have "vnorm vzero = 0" by (simp add: vnorm_def vzero_def)
  with Cons resting_values(1) [of t T p] assms(2) show ?case by simp
qed simp

lemma resting_path:
  assumes "vnorm (vsub p0 p1) = 1"
  shows "\<exists>ders. length ders = 4 \<and>
    initial_points 1 resting (rs_manager demo_planner) (rn_path (demo_replan md)) (0, 0) now True True False p0 v0 a0 p1 v1 =
      Inr (\<lparr>point_set = replicate 7 p1, path_ts = 3 / 20, start_end_derivatives = ders\<rparr>, False)"
proof -
  let ?m = "rs_manager demo_planner" and ?prm = "rn_path (demo_replan md)" and ?traj = "straight p1 p1 1 empty_traj"
  have m: "max_vel (pp ?m) = 2" "max_acc (pp ?m) = 1" "ctrl_pt_dist ?prm = 1 / 5"
    by (simp_all add: demo_planner_def demo_manager_def demo_replan_def)
  have dur: "poly_duration 2 1 1 = Inr 1" by (simp add: poly_duration_def fsqrt_def)
  have c: "\<lceil>20 / 3 :: real\<rceil> = 7" by linarith
  let ?ts = "loop_times 0 1 (3 / 20)"
  have ts: "step_times 0 1 (3 / 20) = Inr ?ts" "length ?ts = 7" "\<forall>t \<in> set ?ts. t \<le> 1"
    using loop_times_set [of "3 / 20" _ 0 1] by (auto simp: step_times_def loop_times_def c)
  have "refine_step 1 ?traj (3 / 10) 1 (3 / 20) = Inr (replicate 7 p1, 3 / 20, 9 / 10)"
    using resting_values(1) [of 0 1 p1] resting_samples [OF ts(3), of "3 / 10" p1] ts(1,2) by simp
  then have "poly_path 1 resting ?m ?prm (0, 0) False p0 v0 a0 p1 v1 (3 / 20) =
      Inr \<lparr>point_set = replicate 7 p1, path_ts = 3 / 20, start_end_derivatives = [vzero, v1, vzero, vzero]\<rparr>"
    using resting_values(2,3) [of 0 1 p1] resting_values(3) [of "9 / 10" 1 p1]
    by (simp add: poly_path_def m assms dur resting_def Let_def del: refine_step.simps)
  then show ?thesis by (simp add: initial_points_def first_step_def m Let_def)
qed

lemma resting_fit:
  assumes "length ders = 4"
  shows "parameterizeToBspline same_lsq (3 / 20) (replicate 7 p) ders [] = Inr (replicate 9 p)"
proof -
  have "length (hd (fit_matrix (3 / 20) 7)) = 9" by (simp add: fit_matrix_def band_row_def upt_rec Let_def)
  moreover have "hd (map f (replicate 7 p @ ders)) = f p" for f :: "vec3 \<Rightarrow> real" by (simp add: numeral_eq_Suc)
  moreover have "map (\<lambda>i. Vec3 (replicate 9 a ! i) (replicate 9 b ! i) (replicate 9 c ! i)) [0..<9] = replicate 9 (Vec3 a b c)" for a b c
    by (rule nth_equalityI) simp_all
  ultimately show ?thesis using assms by (cases p) (simp add: parameterizeToBspline_def same_lsq_def Let_def)
qed

text \<open>The scan of edges in free space finds nothing.\<close>

definition quiet :: "segment_scan \<Rightarrow> bool" where
  "quiet c \<longleftrightarrow> \<not> last_occ c \<and> \<not> flag_got_start c \<and> \<not> flag_got_end_maybe c \<and> segment_ids c = []"

lemma scan_rest:
  assumes "occupied e p = Inr False" "i \<in> {1..<int n}" "quiet c"
  shows "\<exists>c'. scan_edge e ord (replicate n p) [1] i c = Inr c' \<and> quiet c'"
proof -
  have "vadd (vscale 1 p) (vscale (1 - 1) p) = p" by (cases p) (simp add: vadd_def vscale_def)
  then have "scan_edge e ord (replicate n p) [1] i c = Inr (scan_sample ord (int n) i False c)"
    using assms(1,2) by (simp add: scan_edge_def)
  moreover have "quiet (scan_sample ord (int n) i False c)" using assms(3) by (simp add: quiet_def scan_sample_def)
  ultimately show ?thesis by blast
qed

lemma find_rest:
  assumes "occupied e p = Inr False"
  shows "find_segments e 3 (replicate 9 p) = Inr []"
proof -
  let ?c = "\<lparr>in_id = - 1, out_id = - 1, same_occ_state_times = 3, last_occ = False, flag_got_start = False,
    flag_got_end = False, flag_got_end_maybe = False, segment_ids = []\<rparr>"
  have "\<exists>c. fold_result (scan_edge e 3 (replicate 9 p) [1]) [3..5] ?c = Inr c \<and> quiet c"
    by (rule fold_result_ok) (use scan_rest [OF assms, of _ 9] in \<open>auto simp: quiet_def\<close>)
  then obtain c where c: "fold_result (scan_edge e 3 (replicate 9 p) [1]) [3..5] ?c = Inr c" "segment_ids c = []"
    by (auto simp: quiet_def)
  have "vnorm vzero = 0" by (simp add: vnorm_def vzero_def)
  then show ?thesis using c by (auto simp: find_segments_def idiv_def fractions_def Let_def)
qed

lemma optimise_rest:
  assumes free: "occupied e p = Inr False" and s: "at_rest p 9 (s\<lparr>cps := cps (demo_optimizer 9 p p)\<rparr>)" "0 < ts"
  shows "\<exists>s'. optimise 1 e False ts (replicate 9 p) s = Inr (True, replicate 9 p, s')"
proof -
  let ?pts = "replicate 9 p"
  have find: "find_segments e (order s) ?pts = Inr []" using find_rest [OF free] s(1) by (simp add: at_rest_def)
  define c where "c = (cps s)\<lparr>cp_size := 9, points := ?pts, base_point := replicate 9 [], direction := replicate 9 [],
    flag_temp := replicate 9 False, clearance := dist0 s\<rparr>"
  have init: "initControlPoints e ?pts True s = Inr ([], s\<lparr>cps := c\<rparr>)"
    by (simp add: initControlPoints_def resize_def find c_def)
  have "at_rest p 9 (setBsplineInterval ts (s\<lparr>cps := c\<rparr>))"
    using s by (simp add: at_rest_def setBsplineInterval_def c_def)
  from rebound_rest [OF this free, of 0 0] show ?thesis
    by (auto simp: optimise_def init BsplineOptimizeTrajRebound_def simp del: rebound_optimize_def)
qed

lemma demo_replan_run:
  assumes "initMap demo_nh grid_demo_map = Inr (demo_mp, md)"
  shows "\<exists>s'. replan (demo_replan md) (Vec3 0 0 1) vzero vzero (Vec3 1 0 1) vzero True False demo_planner = Inr (True, s')"
proof -
  let ?p = "Vec3 1 0 1" and ?n = "demo_replan md" and ?m = "rs_manager demo_planner"
  have far: "vnorm (vsub (Vec3 0 0 1) ?p) = 1" by (simp add: vnorm_def vsub_def)
  have n: "rn_fuel ?n = 1" "rn_solver ?n = resting" "rn_random ?n = (0, 0)" "rn_lsq ?n = same_lsq" "rn_env ?n = opt_env md"
    "use_distinctive_trajs (rn_path ?n) = False" "rn_done ?n = 8"
    by (simp_all add: demo_replan_def)
  have s: "flag_first_call demo_planner" "swarm_trajs_buf ?m = []" "plan_drone_id (pp ?m) = 1"
    by (simp_all add: demo_planner_def demo_manager_def)
  obtain ders where path: "length ders = 4"
    "initial_points 1 resting ?m (rn_path ?n) (0, 0) (rn_now ?n) True True False (Vec3 0 0 1) vzero vzero ?p vzero =
      Inr (\<lparr>point_set = replicate 7 ?p, path_ts = 3 / 20, start_end_derivatives = ders\<rparr>, False)"
    using resting_path [OF far] by blast
  let ?o = "(rs_optimizer demo_planner)\<lparr>local_target_pt := ?p, swarm_trajs := []\<rparr>"
  have "at_rest ?p 9 (?o\<lparr>cps := cps (demo_optimizer 9 ?p ?p)\<rparr>)" by (simp add: at_rest_def demo_planner_def demo_optimizer_def)
  from optimise_rest [OF demo_place [OF assms] this, of "3 / 20"] obtain o' where
    "optimise 1 (opt_env md) False (3 / 20) (replicate 9 ?p) ?o = Inr (True, replicate 9 ?p, o')" by auto
  then have plan: "plan_rebound ?n (Vec3 0 0 1) vzero vzero ?p vzero True False demo_planner =
      Inr ((True, replicate 9 ?p, 3 / 20, ders), demo_planner\<lparr>rs_optimizer := o', flag_first_call := False\<rparr>)"
    by (simp add: plan_rebound_def n s path(2) resting_fit [OF path(1)] del: One_nat_def)
  let ?pos = "setPhysicalLimits (max_vel (pp ?m)) (max_acc (pp ?m)) (feasibility_tolerance (pp ?m)) (UniformBspline (replicate 9 ?p) 3 (3 / 20))"
  have "well_knotted ?pos" "degree ?pos = 3"
    using uniform_well_knotted [of "3 / 20" 3 "replicate 9 ?p"]
    by (simp_all add: well_knotted_limits) (simp add: setPhysicalLimits_def UniformBspline_def Let_def)
  from plan_done_ok [OF this, of 8 ?m] obtain m' where "plan_done ?pos 8 ?m = Inr (True, m')" by blast
  then have "replan_done ?pos ?n (demo_planner\<lparr>rs_optimizer := o', flag_first_call := False\<rparr>) =
      Inr (True, demo_planner\<lparr>rs_optimizer := o', flag_first_call := False, rs_manager := m'\<rparr>)"
    by (simp add: replan_done_def n)
  then show ?thesis by (simp add: replan_def far plan s Let_def)
qed

lemma demo_settings_replan:
  "0 < ctrl_pt_dist (rn_path (demo_replan md))" "0 < max_vel (pp (rs_manager demo_planner))" "0 < max_acc (pp (rs_manager demo_planner))"
  "0 \<le> feasibility_tolerance (pp (rs_manager demo_planner))" "\<not> use_distinctive_trajs (rn_path (demo_replan md))"
  by (simp_all add: demo_replan_def demo_planner_def demo_manager_def)

theorem replan_refines_witness:
  "\<exists>md s' r. initMap demo_nh grid_demo_map = Inr (demo_mp, md) \<and>
    replan (demo_replan md) (Vec3 0 0 1) vzero vzero (Vec3 1 0 1) vzero True False demo_planner = Inr (True, s') \<and>
    rebound_ok r \<and> reboundReplan (Vec3 0 0 1) (Vec3 1 0 1) r (rn_done (demo_replan md)) (rs_manager demo_planner) = Inr (True, rs_manager s')"
proof -
  obtain md where m: "initMap demo_nh grid_demo_map = Inr (demo_mp, md)" using demo_start by blast
  from demo_replan_run [OF m] obtain s' where
    r: "replan (demo_replan md) (Vec3 0 0 1) vzero vzero (Vec3 1 0 1) vzero True False demo_planner = Inr (True, s')" ..
  from replan_refines [OF r demo_settings_replan(1-4)] r m show ?thesis by blast
qed

theorem replan_free_witness:
  "\<exists>md s'. initMap demo_nh grid_demo_map = Inr (demo_mp, md) \<and>
    replan (demo_replan md) (Vec3 0 0 1) vzero vzero (Vec3 1 0 1) vzero True False demo_planner = Inr (True, s') \<and>
    free_at_checks (rn_env (demo_replan md)) (position_traj (local_data (rs_manager s')))"
proof -
  obtain md where m: "initMap demo_nh grid_demo_map = Inr (demo_mp, md)" using demo_start by blast
  from demo_replan_run [OF m] obtain s' where
    r: "replan (demo_replan md) (Vec3 0 0 1) vzero vzero (Vec3 1 0 1) vzero True False demo_planner = Inr (True, s')" ..
  from replan_free [OF r demo_settings_replan(5,1-4)] r m show ?thesis by blast
qed

end
