(* ===== verification/Spec2Isabelle.thy ===== *)
theory Spec2Isabelle
  imports MissionPayload MissionDemo EgoTracker LdqConcurrent LdsProps PubHandlerProps EgoDemo BridgeProps GridDemo AStarDemo
    OptimizerDemo
begin

text \<open>
  The software of a drone that flies a course between obstacles, recognises targets and drops payloads
  on them.  The repository holds four programs of its own or close to it, which run as ROS nodes and
  exchange messages:

  \<^item> the mission controller (\<open>src/controller\<close>), which arms the vehicle, takes off, hands goals to the
    planner, follows its set-points, servoes on detections, drops payloads and lands; and the service
    that moves the payload servos (\<open>src/servo_server\<close>);
  \<^item> the planner (\<open>src/planner/planner\<close>, EGO-Planner): an occupancy map built from depth images or
    point clouds, A* search, a B-spline optimiser, a replanning state machine, the server that turns a
    trajectory into commands, and a bridge to the other drones of a swarm;
  \<^item> the LiDAR driver (\<open>src/livox_ros_driver2\<close>): ring buffers between the callbacks of the SDK and the
    publishing threads, the table of devices, the decoding of packets into frames of points;
  \<^item> LiDAR odometry (\<open>src/odometry\<close>), target detection (\<open>src/yolo_server\<close>) and utilities, which the
    others only see through messages.

  \<^bold>\<open>How the model is built.\<close>  Structures and classes are records, enumerations are datatypes, the
  methods and callbacks are functions from the old state to the new one, and a node is the handler of
  its events; \<open>run_events\<close> runs it on a list of them.  What C++ leaves undefined is a value of
  \<open>cpp_error\<close>: reading or writing outside an array, dividing by zero, using an uninitialised variable, a
  negative size, a loop that never ends (\<open>Hangs\<close>).  So a theorem that a run equals \<open>Inr s\<close> says that none of
  these happens.  A \<open>double\<close> is a real number, so a quotient that would be an infinity or NaN is an error;
  integers whose overflow matters are words.  Code outside \<open>src\<close> is a parameter: the clock, the queue of
  the search, the linear solvers of Eigen, the serialisation of ROS, the operating system.

  \<^bold>\<open>Shared theories.\<close>  \<open>Prelude\<close> has vectors, errors and the operators of the result type; \<open>Machine\<close> has
  event handlers, with the locales \<open>event_machine\<close> (an invariant that every event keeps) and
  \<open>safe_machine\<close> (an invariant under which every event also has a result), which the mission controller,
  the tracker, the planner, the map and the driver interpret; \<open>Voxels\<close> has integer vectors, indexed
  arrays and loops with a fallible body.

  \<^bold>\<open>Mission.\<close>  \<open>Pid\<close> (\<open>pid.h\<close>), \<open>MissionState\<close> and \<open>MissionFsm\<close> (class \<open>fsm\<close> of \<open>fsm.h\<close> and \<open>fsm.cpp\<close>: its
  members, its construction, every callback and every case of the state machine).  \<open>MissionInv\<close> is the
  invariant of array bounds and published goals; \<open>MissionProps\<close>, \<open>MissionDynamics\<close> and
  \<open>MissionEscalation\<close> derive freedom from undefined behaviour, the order of the goals, the diagram of
  the states, the guard of a payload drop, and the bound on visual servoing.  \<open>MissionServo\<close> has the
  locale \<open>servo_service\<close> of what the controller relies on; \<open>ServoServer\<close> (\<open>gpio.cpp\<close>, \<open>servo_server.cpp\<close>)
  provides it, and \<open>MissionPayload\<close> composes the two.  \<open>MissionDemo\<close> evaluates a whole flight.
  \<open>EgoTracker\<close> is the simpler node \<open>ego_tracker.cpp\<close>.

  \<^bold>\<open>LiDAR driver.\<close>  \<open>Fifo\<close> is the locale of a bounded queue; \<open>Ldq\<close> (\<open>ldq.h\<close>, \<open>ldq.cpp\<close>) provides it with its ring
  buffer, and \<open>LdqConcurrent\<close> interleaves the statements of its push and its pop in two threads, the
  copies of the points one point at a time, on a sequentially consistent memory.
  \<open>CacheIndex\<close> is the table of devices, \<open>LidarComm\<close> the IMU queue, the semaphore and the helpers of
  \<open>comm.h\<close>, \<open>Lds\<close> and \<open>LdsProps\<close> the data source with its publishing turns (\<open>lds.cpp\<close>, \<open>lddc.cpp\<close>), \<open>PubHandler\<close>
  and \<open>PubHandlerProps\<close> the packet handlers (\<open>pub_handler.cpp\<close>).  The properties: the ring buffer is a
  queue, also under concurrency; no wake-up and no point is lost; slots are distinct.

  \<^bold>\<open>Trajectories.\<close>  \<open>Bspline\<close> (\<open>uniform_bspline.cpp\<close>), with \<open>BsplineProps\<close> (hull and feasibility),
  \<open>BsplineDerivative\<close> (de Boor's algorithm against its recursion; the derivative spline is the
  derivative) and \<open>BsplineTime\<close> (stretching); \<open>PolynomialTraj\<close>; \<open>PlannerData\<close> (the messages and containers);
  \<open>TrajServer\<close> and \<open>TrajServerProps\<close> (\<open>traj_server.cpp\<close>).

  \<^bold>\<open>Map and search.\<close>  \<open>Raycast\<close>; \<open>GridMap\<close> and \<open>GridUpdate\<close> (\<open>grid_map.h\<close>, \<open>grid_map.cpp\<close>) with the proofs in
  \<open>GridInv\<close>, \<open>GridTyped\<close>, \<open>GridInflate\<close>, \<open>GridRays\<close>, \<open>GridDepth\<close>, \<open>GridProps\<close> and the inputs of \<open>GridDemo\<close>; \<open>AStar\<close>
  (\<open>dyn_a_star.cpp\<close>) with \<open>AStarInv\<close>, \<open>AStarLoop\<close>, \<open>AStarProps\<close>, \<open>AStarDemo\<close>.  The map keeps its type.
  No sequence of clouds and timers reads or writes it out of bounds; for depth images this needs a map
  whose origin is aligned to the resolution or a camera far enough from the border, as a ray may
  otherwise leave it.  Inflation marks exactly the linear addresses it should, wrapped ones included,
  and a cloud the voxels around its points.  The search decides reachability through the interior of
  its pool, unless its two points are one blocked point; its path is sound.

  \<^bold>\<open>Optimiser.\<close>  \<open>Lbfgs\<close> (\<open>lbfgs.hpp\<close>) with \<open>LbfgsProps\<close> (it goes downhill, it ends) and \<open>LbfgsState\<close> (what an
  evaluation keeps, the whole run keeps); \<open>Optimizer\<close>, \<open>OptimizerCost\<close> and \<open>OptimizerRun\<close>
  (\<open>bspline_optimizer.h\<close> and \<open>.cpp\<close>): base points, costs and gradients, the rebound and refinement
  loops, the trajectories on either side of an obstacle.  \<open>OptimizerFrames\<close> says what every operation leaves
  alone, \<open>OptimizerGradient\<close> and \<open>OptimizerDescent\<close> that the gradients are the derivatives of the costs,
  \<open>OptimizerProps\<close> and \<open>OptimizerSides\<close> what the runs return; \<open>OptimizerDemo\<close> has the inputs.

  \<^bold>\<open>Planning.\<close>  \<open>PlannerManager\<close> is the manager (\<open>planner_manager.cpp\<close>, \<open>plan_container.hpp\<close>) for any
  optimiser with the contract \<open>rebound_ok\<close>; \<open>InitialPath\<close> and \<open>Replan\<close> are the rest of \<open>reboundReplan\<close>, and
  \<open>replan_refines\<close> shows that the code with its optimiser is an instance.  \<open>EgoReplan\<close> and \<open>EgoCallbacks\<close> are
  the state machine (\<open>ego_replan_fsm.cpp\<close>); \<open>EgoDiagram\<close> is its diagram, with the guard of every edge;
  \<open>EgoPlanning\<close>, \<open>EgoSafety\<close>, \<open>EgoSteps\<close>, \<open>EgoHandlers\<close> prove its invariant and that it follows the
  diagram, and \<open>EgoProps\<close> the properties of its runs and of its composition with the trajectory
  server; \<open>EgoDemo\<close> has the inputs.  \<open>Wire\<close> is the locale \<open>codec\<close> of a type that is written to bytes and
  read back; \<open>Bridge\<close> and \<open>BridgeProps\<close> are \<open>bridge_node.cpp\<close>.

  \<^bold>\<open>Bounds and fuel.\<close>  A loop that is not structurally recursive has fuel, and \<open>Hangs\<close> is what is left
  when it runs out.  Rays: the Manhattan distance and one more, exactly the number of voxels
  (\<open>ray_reaches_end\<close>).  The loops that push an end point out of an obstacle: the sizes of the pool and
  six more, enough unless the two points are equal (\<open>astar_same_point_hangs\<close>).  The search and the
  retrieval: the number of cells of the pool and one more, as a round closes a cell.  The line search:
  \<open>max_linesearch\<close>, its own bound; the minimiser: the 200 iterations it is called with
  (\<open>lbfgs_evaluations\<close>).  The walk along a path and the march towards a control point: the length of
  the path, and the steps of the march.  The rounds of a rebound are bounded by a parameter; twenty-three
  are enough while no other drone is near (\<open>rebound_rounds\<close>).  The loops over the time step and the
  distance of the initial path have a parameter too: they may indeed not end.

  \<^bold>\<open>Not modelled.\<close>  Drawing, logging and timing statistics; the nodes' \<open>main\<close> functions beyond their
  timers and subscriptions.  The prediction of moving objects and \<open>calcMovingObjCost\<close>, which nothing
  calls.  The generators of polynomials and the least-squares fit, which are solvers of Eigen.  The
  erasing of other drones from depth images (\<open>drone_detect\<close>) and the image publishers: calls of OpenCV.
  The configuration and the SDK callbacks of the driver: rapidjson and a library that is not here.  The
  detection server: inference with TensorRT.  The odometry FAST_LIO: a third-party package over a
  template library of manifolds.  Vendored libraries (Eigen, rapidjson, matplotlibcpp, DecompROS,
  pose_utils).
\<close>

end
